(* ===== verification/Json_Values.thy ===== *)
theory Json_Values
  imports Prelude
begin

text \<open>
  The \<open>unknown\<close> values the parsers read: a value an IPC reply can hold, \<open>undefined\<close>
  included because reading an absent property yields it. An object is the list of its own
  enumerable properties in enumeration order. Numbers are doubles: an exact finite value
  (both zeros are 0), the infinities or NaN.
\<close>

datatype jnum = Fin rat | PosInf | NegInf | NaN

datatype json =
    JUndef
  | JNull
  | JBool bool
  | JNum jnum
  | JStr jstr
  | JArr "json list"
  | JObj "(jstr \<times> json) list"

type_synonym jobj = "(jstr \<times> json) list"

section \<open>Properties of an object\<close>

definition field_at :: "jobj \<Rightarrow> jstr \<Rightarrow> json" where
  "field_at o' k = (case map_of o' k of None \<Rightarrow> JUndef | Some v \<Rightarrow> v)"

definition field :: "jobj \<Rightarrow> string \<Rightarrow> json" where
  "field o' k = field_at o' (js k)"

definition has_own :: "jobj \<Rightarrow> string \<Rightarrow> bool" where
  "has_own o' k \<longleftrightarrow> map_of o' (js k) \<noteq> None"

text \<open>The first own key outside the listed ones, and the first listed key that is absent.\<close>

definition unexpected_key :: "jobj \<Rightarrow> string list \<Rightarrow> jstr option" where
  "unexpected_key o' allowed = List.find (\<lambda>k. k \<notin> set (map js allowed)) (map fst o')"

definition missing_key :: "jobj \<Rightarrow> string list \<Rightarrow> string option" where
  "missing_key o' required = List.find (\<lambda>k. \<not> has_own o' k) required"

lemma find_None_all: "List.find P xs = None \<longleftrightarrow> (\<forall>x \<in> set xs. \<not> P x)"
  by (auto simp: find_None_iff)

text \<open>Every own key is one of the listed ones.\<close>

definition keys_in :: "jobj \<Rightarrow> string list \<Rightarrow> bool" where
  "keys_in o' ks \<longleftrightarrow> list_all (\<lambda>e. fst e \<in> js ` set ks) o'"

lemma keys_in_simps [simp]:
  "keys_in [] ks"
  "keys_in ((js k, v) # o') ks \<longleftrightarrow> k \<in> set ks \<and> keys_in o' ks"
  "keys_in (o' @ o'') ks \<longleftrightarrow> keys_in o' ks \<and> keys_in o'' ks"
  by (auto simp: keys_in_def)

lemma unexpected_key_None [res]: "unexpected_key o' allowed = None \<longleftrightarrow> keys_in o' allowed"
  by (auto simp: unexpected_key_def find_None_all keys_in_def list_all_iff)

lemma missing_key_None [res]: "missing_key o' required = None \<longleftrightarrow> list_all (has_own o') required"
  by (auto simp: missing_key_def find_None_all list_all_iff)

lemma field_absent: "\<not> has_own o' k \<Longrightarrow> field o' k = JUndef"
  by (simp add: field_def field_at_def has_own_def)

lemma field_Nil [jsval, simp]: "field [] k = JUndef"
  by (simp add: field_def field_at_def)

lemma field_Cons [jsval, simp]:
  "field ((js k', v) # o') k = (if k' = k then v else field o' k)"
  by (simp add: field_def field_at_def)

lemma has_own_Nil [jsval, simp]: "\<not> has_own [] k"
  by (simp add: has_own_def)

lemma has_own_Cons [jsval, simp]: "has_own ((js k', v) # o') k \<longleftrightarrow> k' = k \<or> has_own o' k"
  by (auto simp: has_own_def)

lemma field_has_own: "field o' k = v \<Longrightarrow> v \<noteq> JUndef \<Longrightarrow> has_own o' k"
  using field_absent by blast

text \<open>A property an object literal spreads in only when its value is present.\<close>

definition opt_field :: "string \<Rightarrow> ('a \<Rightarrow> json) \<Rightarrow> 'a option \<Rightarrow> jobj" where
  "opt_field k f x = (case x of None \<Rightarrow> [] | Some y \<Rightarrow> [(js k, f y)])"

definition opt_val :: "('a \<Rightarrow> json) \<Rightarrow> 'a option \<Rightarrow> json" where
  "opt_val f x = (case x of None \<Rightarrow> JUndef | Some y \<Rightarrow> f y)"

lemma opt_val_simps [simp]: "opt_val f None = JUndef" "opt_val f (Some y) = f y"
  by (simp_all add: opt_val_def)

lemma has_own_opt_field [jsval, simp]:
  "has_own (opt_field k' f x @ o') k \<longleftrightarrow> k' = k \<and> x \<noteq> None \<or> has_own o' k"
  by (auto simp: opt_field_def split: option.splits)

lemma has_own_opt_field_last [jsval, simp]:
  "has_own (opt_field k' f x) k \<longleftrightarrow> k' = k \<and> x \<noteq> None"
  using has_own_opt_field [of k' f x "[]" k] by simp

lemma field_opt_field_same [jsval, simp]:
  "\<not> has_own o' k \<Longrightarrow> field (opt_field k f x @ o') k = opt_val f x"
  by (auto simp: opt_field_def field_absent split: option.splits)

lemma field_opt_field_other [jsval, simp]:
  "k' \<noteq> k \<Longrightarrow> field (opt_field k' f x @ o') k = field o' k"
  by (auto simp: opt_field_def split: option.splits)

lemma field_opt_field_last [jsval, simp]:
  "field (opt_field k' f x) k = (if k' = k then opt_val f x else JUndef)"
  by (auto simp: opt_field_def split: option.splits)

lemma keys_in_opt_field [simp]: "keys_in (opt_field k f x) ks \<longleftrightarrow> x = None \<or> k \<in> set ks"
  by (cases x) (simp_all add: opt_field_def)

section \<open>Scalars\<close>

definition is_integer :: "rat \<Rightarrow> bool" where
  "is_integer q \<longleftrightarrow> of_int \<lfloor>q\<rfloor> = q"

lemma is_integer_of_int [simp]: "is_integer (of_int i)"
  by (simp add: is_integer_def)

lemma is_integer_obtain: "is_integer q \<Longrightarrow> of_int \<lfloor>q\<rfloor> = q"
  by (simp add: is_integer_def)

definition max_safe :: int where "max_safe = 9007199254740991"

text \<open>\<open>Number.isSafeInteger(value)\<close>, with the integer it then is.\<close>

definition safe_int :: "json \<Rightarrow> int option" where
  "safe_int v = (case v of
     JNum (Fin q) \<Rightarrow> if is_integer q \<and> \<bar>\<lfloor>q\<rfloor>\<bar> \<le> max_safe then Some \<lfloor>q\<rfloor> else None
   | _ \<Rightarrow> None)"

text \<open>\<open>Number.isInteger(value)\<close>, with the integer it then is.\<close>

definition any_int :: "json \<Rightarrow> int option" where
  "any_int v = (case v of
     JNum (Fin q) \<Rightarrow> if is_integer q then Some \<lfloor>q\<rfloor> else None
   | _ \<Rightarrow> None)"

definition jint :: "int \<Rightarrow> json" where
  "jint i = JNum (Fin (of_int i))"

lemma safe_int_jint [jsval, simp]: "\<bar>i\<bar> \<le> max_safe \<Longrightarrow> safe_int (jint i) = Some i"
  by (simp add: safe_int_def jint_def)

lemma safe_int_Some [jsval]: "safe_int v = Some i \<longleftrightarrow> v = jint i \<and> \<bar>i\<bar> \<le> max_safe"
  by (auto simp: safe_int_def jint_def is_integer_def split: json.splits jnum.splits if_splits)

lemma any_int_jint [jsval, simp]: "any_int (jint i) = Some i"
  by (simp add: any_int_def jint_def)

lemma any_int_Some [jsval]: "any_int v = Some i \<longleftrightarrow> v = jint i"
  by (auto simp: any_int_def jint_def is_integer_def split: json.splits jnum.splits if_splits)

lemma jint_neq [simp]:
  "jint i \<noteq> JUndef" "jint i \<noteq> JNull" "jint i \<noteq> JBool b" "jint i \<noteq> JStr s"
  "jint i \<noteq> JArr vs" "jint i \<noteq> JObj o'"
  by (simp_all add: jint_def)

lemma jint_inject [simp]: "jint i = jint j \<longleftrightarrow> i = j"
  by (simp add: jint_def)

text \<open>Truthiness, as \<open>!value\<close>, \<open>&&\<close> and \<open>||\<close> read it.\<close>

fun truthy :: "json \<Rightarrow> bool" where
  "truthy JUndef \<longleftrightarrow> False"
| "truthy JNull \<longleftrightarrow> False"
| "truthy (JBool b) \<longleftrightarrow> b"
| "truthy (JNum n) \<longleftrightarrow> n \<noteq> NaN \<and> n \<noteq> Fin 0"
| "truthy (JStr s) \<longleftrightarrow> s \<noteq> []"
| "truthy (JArr vs) \<longleftrightarrow> True"
| "truthy (JObj o') \<longleftrightarrow> True"

definition jbool :: "json \<Rightarrow> bool option" where
  "jbool v = (case v of JBool b \<Rightarrow> Some b | _ \<Rightarrow> None)"

definition jstring :: "json \<Rightarrow> jstr option" where
  "jstring v = (case v of JStr s \<Rightarrow> Some s | _ \<Rightarrow> None)"

definition jarray :: "json \<Rightarrow> json list option" where
  "jarray v = (case v of JArr vs \<Rightarrow> Some vs | _ \<Rightarrow> None)"

definition jobject :: "json \<Rightarrow> jobj option" where
  "jobject v = (case v of JObj o' \<Rightarrow> Some o' | _ \<Rightarrow> None)"

lemma jbool_Some [jsval, simp]: "jbool v = Some b \<longleftrightarrow> v = JBool b"
  by (simp add: jbool_def split: json.splits)

lemma jbool_JBool [simp]: "jbool (JBool b) = Some b"
  by simp

lemma jstring_Some [jsval, simp]: "jstring v = Some s \<longleftrightarrow> v = JStr s"
  by (simp add: jstring_def split: json.splits)

lemma jstring_JStr [simp]: "jstring (JStr s) = Some s"
  by simp

lemma jarray_Some [jsval, simp]: "jarray v = Some vs \<longleftrightarrow> v = JArr vs"
  by (simp add: jarray_def split: json.splits)

lemma jarray_JArr [simp]: "jarray (JArr vs) = Some vs"
  by simp

lemma jobject_Some [jsval, simp]: "jobject v = Some o' \<longleftrightarrow> v = JObj o'"
  by (simp add: jobject_def split: json.splits)

lemma jobject_JObj [simp]: "jobject (JObj o') = Some o'"
  by simp

lemma opt_val_scalars [simp]:
  "jstring (opt_val JStr x) = x"
  "jbool (opt_val JBool b) = b"
  by (auto simp: opt_val_def jstring_def jbool_def split: option.splits)

lemma opt_val_undef [simp]: "(\<And>y. f y \<noteq> JUndef) \<Longrightarrow> opt_val f x = JUndef \<longleftrightarrow> x = None"
  by (auto simp: opt_val_def split: option.splits)

text \<open>Requiring a shape: the value, or the exception to throw.\<close>

definition orThrow :: "'e \<Rightarrow> 'a option \<Rightarrow> 'e + 'a" where
  "orThrow e x = (case x of None \<Rightarrow> Inl e | Some y \<Rightarrow> Inr y)"

lemma orThrow_eq_Inr [res]: "orThrow e x = Inr y \<longleftrightarrow> x = Some y"
  by (simp add: orThrow_def split: option.splits)

lemma orThrow_simps [simp]: "orThrow e None = Inl e" "orThrow e (Some y) = Inr y"
  by (simp_all add: orThrow_def)

definition js_str :: "string \<Rightarrow> json" where
  "js_str s = JStr (js s)"

lemma js_str_inject [simp]: "js_str a = js_str b \<longleftrightarrow> a = b"
  by (simp add: js_str_def)

lemma js_str_neq [simp]:
  "js_str s \<noteq> JUndef" "js_str s \<noteq> JNull" "js_str s \<noteq> JBool b" "js_str s \<noteq> JNum n"
  "js_str s \<noteq> JArr vs" "js_str s \<noteq> JObj o'"
  by (simp_all add: js_str_def)

section \<open>Paths in messages\<close>

definition at_field :: "jstr \<Rightarrow> string \<Rightarrow> jstr" where
  "at_field path k = path @ js ''.'' @ js k"

definition at_key :: "jstr \<Rightarrow> jstr \<Rightarrow> jstr" where
  "at_key path k = path @ js ''.'' @ k"

definition at_index :: "jstr \<Rightarrow> nat \<Rightarrow> jstr" where
  "at_index path i = path @ js ''['' @ dec i @ js '']''"

section \<open>String enumerations\<close>

text \<open>
  A union of string literals is a datatype with the list of its members and their
  spelling; membership tests such as \<open>actions.has(value)\<close> find the member.
\<close>

definition enum_of :: "'a list \<Rightarrow> ('a \<Rightarrow> string) \<Rightarrow> json \<Rightarrow> 'a option" where
  "enum_of members name v = (case v of
     JStr s \<Rightarrow> List.find (\<lambda>x. js (name x) = s) members | _ \<Rightarrow> None)"

locale string_enum =
  fixes members :: "'a list" and name :: "'a \<Rightarrow> string"
  assumes members_all: "x \<in> set members"
    and names_distinct: "distinct (map name members)"
begin

lemma name_inject: "name x = name y \<longleftrightarrow> x = y"
  using names_distinct members_all by (auto simp: distinct_map inj_on_def)

lemma find_name: "List.find (\<lambda>y. name y = name x) members = Some x"
proof (cases "List.find (\<lambda>y. name y = name x) members")
  case None
  then show ?thesis using members_all [of x] by (auto simp: find_None_all)
next
  case (Some y)
  then show ?thesis by (auto simp: find_Some_iff name_inject)
qed

lemma enum_of_name: "enum_of members name (js_str (name x)) = Some x"
  by (simp add: enum_of_def js_str_def find_name)

lemma enum_of_Some: "enum_of members name v = Some x \<longleftrightarrow> v = js_str (name x)"
proof
  assume "enum_of members name v = Some x"
  then show "v = js_str (name x)"
    by (auto simp: enum_of_def js_str_def find_Some_iff split: json.splits)
qed (simp add: enum_of_name)

lemma enum_of_among: "enum_of ms name v = Some x \<longleftrightarrow> v = js_str (name x) \<and> x \<in> set ms"
proof
  assume "enum_of ms name v = Some x"
  then show "v = js_str (name x) \<and> x \<in> set ms"
    by (auto simp: enum_of_def js_str_def find_Some_iff split: json.splits)
next
  assume v: "v = js_str (name x) \<and> x \<in> set ms"
  then have "List.find (\<lambda>y. name y = name x) ms = Some x"
    by (induction ms) (auto simp: name_inject)
  with v show "enum_of ms name v = Some x" by (simp add: enum_of_def js_str_def)
qed

end

section \<open>Codecs\<close>

text \<open>
  The contract every response parser has with the values it returns: what it accepts is
  valid, and a valid value written back as JSON is accepted and reads as itself. \<open>render\<close>
  is the object as \<open>JSON.stringify\<close> sends it.
\<close>

locale json_codec =
  fixes parse :: "json \<Rightarrow> jstr \<Rightarrow> 'e + 'a"
    and render :: "'a \<Rightarrow> json"
    and valid :: "'a \<Rightarrow> bool"
  assumes parse_valid: "parse v path = Inr x \<Longrightarrow> valid x"
    and parse_render: "valid x \<Longrightarrow> parse (render x) path = Inr x"
begin

lemma reparse: "parse v path = Inr x \<Longrightarrow> parse (render x) path' = Inr x"
  by (rule parse_render) (rule parse_valid)

lemma valid_iff_accepted: "valid x \<longleftrightarrow> (\<exists>v. parse v path = Inr x)"
  using parse_valid parse_render by blast

lemma render_inject: "valid x \<Longrightarrow> valid y \<Longrightarrow> render x = render y \<Longrightarrow> x = y"
  using parse_render by (metis sum.inject(2))

lemma parse_array_valid:
  "mapE (\<lambda>i v. parse v (p i)) n vs = Inr xs \<Longrightarrow> list_all valid xs"
  by (erule mapE_list_all) (rule parse_valid)

lemma parse_array_render:
  "list_all valid xs \<Longrightarrow> mapE (\<lambda>i v. parse v (p i)) n (map render xs) = Inr xs"
  by (rule mapE_map_Inr) (auto simp: list_all_iff parse_render)

end

end
