(* ===== verification/Patterns.thy ===== *)
theory Patterns
  imports Prelude
begin

text \<open>
  Regular expressions of the source, written as terms: a class of code units, sequences,
  alternatives, counted repetition \<open>{lo,hi}\<close> and \<open>*\<close>. \<open>matches r s\<close> decides an anchored
  pattern \<open>^r$\<close> by computing every rest of the input a prefix match can leave.
\<close>

datatype rx =
    Cls "nat \<Rightarrow> bool"
  | Eps
  | Seq rx rx
  | Alt rx rx
  | Rep nat nat rx
  | Many rx

fun reps :: "(jstr \<Rightarrow> jstr list) \<Rightarrow> nat \<Rightarrow> nat \<Rightarrow> jstr \<Rightarrow> jstr list" where
  "reps f lo 0 s = (if lo = 0 then [s] else [])"
| "reps f lo (Suc hi) s =
     (if lo = 0 then [s] else []) @ concat (map (reps f (lo - 1) hi) (f s))"

primrec rests :: "rx \<Rightarrow> jstr \<Rightarrow> jstr list" where
  "rests (Cls p) s = (case s of [] \<Rightarrow> [] | c # t \<Rightarrow> if p c then [t] else [])"
| "rests Eps s = [s]"
| "rests (Seq q r) s = concat (map (rests r) (rests q s))"
| "rests (Alt q r) s = rests q s @ rests r s"
| "rests (Rep lo hi r) s = reps (rests r) lo hi s"
| "rests (Many r) s = reps (rests r) 0 (length s) s"

definition matches :: "rx \<Rightarrow> jstr \<Rightarrow> bool" where
  "matches r s \<longleftrightarrow> [] \<in> set (rests r s)"

definition chr :: "char \<Rightarrow> rx" where
  "chr x = Cls (is_chr x)"

fun word :: "string \<Rightarrow> rx" where
  "word [] = Eps"
| "word [x] = chr x"
| "word (x # y # xs) = Seq (chr x) (word (y # xs))"

fun seqs :: "rx list \<Rightarrow> rx" where
  "seqs [] = Eps"
| "seqs [r] = r"
| "seqs (r # q # rs) = Seq r (seqs (q # rs))"

fun alts :: "rx \<Rightarrow> rx list \<Rightarrow> rx" where
  "alts r [] = r"
| "alts r (q # rs) = Alt r (alts q rs)"

definition opt_rx :: "rx \<Rightarrow> rx" where
  "opt_rx r = Rep 0 1 r"

definition plus_rx :: "rx \<Rightarrow> rx" where
  "plus_rx r = Seq r (Many r)"

section \<open>The language of a pattern\<close>

fun pow :: "nat \<Rightarrow> jstr set \<Rightarrow> jstr set" where
  "pow 0 L = {[]}"
| "pow (Suc n) L = {u @ v | u v. u \<in> L \<and> v \<in> pow n L}"

primrec lang :: "rx \<Rightarrow> jstr set" where
  "lang (Cls p) = {[c] | c. p c}"
| "lang Eps = {[]}"
| "lang (Seq q r) = {u @ v | u v. u \<in> lang q \<and> v \<in> lang r}"
| "lang (Alt q r) = lang q \<union> lang r"
| "lang (Rep lo hi r) = (\<Union>n \<in> {lo..hi}. pow n (lang r))"
| "lang (Many r) = (\<Union>n. pow n (lang r))"

lemma pow_drop_empty: "u \<in> pow n L \<Longrightarrow> \<exists>m \<le> length u. u \<in> pow m L"
proof (induction n arbitrary: u)
  case 0
  then show ?case by auto
next
  case (Suc n)
  from Suc.prems obtain v w where u: "u = v @ w" "v \<in> L" "w \<in> pow n L" by auto
  from Suc.IH [OF u(3)] obtain m where m: "m \<le> length w" "w \<in> pow m L" by blast
  show ?case
  proof (cases "v = []")
    case True
    with u m show ?thesis by auto
  next
    case False
    then have "Suc m \<le> length u" using m u by (cases v) auto
    moreover have "u \<in> pow (Suc m) L" using u m by auto
    ultimately show ?thesis by blast
  qed
qed

lemma reps_correct:
  assumes "\<And>s t. t \<in> set (f s) \<longleftrightarrow> (\<exists>u \<in> L. s = u @ t)"
  shows "t \<in> set (reps f lo hi s) \<longleftrightarrow> (\<exists>n u. lo \<le> n \<and> n \<le> hi \<and> u \<in> pow n L \<and> s = u @ t)"
proof (induction hi arbitrary: lo s t)
  case 0
  then show ?case by auto
next
  case (Suc hi)
  let ?R = "\<lambda>lo hi s. \<exists>n u. lo \<le> n \<and> n \<le> hi \<and> u \<in> pow n L \<and> s = u @ t"
  have "t \<in> set (reps f lo (Suc hi) s) \<longleftrightarrow>
      lo = 0 \<and> t = s \<or> (\<exists>w \<in> set (f s). t \<in> set (reps f (lo - 1) hi w))"
    by auto
  then have step: "t \<in> set (reps f lo (Suc hi) s) \<longleftrightarrow>
      lo = 0 \<and> t = s \<or> (\<exists>v w. v \<in> L \<and> s = v @ w \<and> ?R (lo - 1) hi w)"
    unfolding Bex_def assms Suc.IH by blast
  show ?case
  proof
    assume "t \<in> set (reps f lo (Suc hi) s)"
    with step consider "lo = 0" "t = s"
      | v w n u where "v \<in> L" "s = v @ w" "lo - 1 \<le> n" "n \<le> hi" "u \<in> pow n L" "w = u @ t"
      by blast
    then show "?R lo (Suc hi) s"
    proof cases
      case 1
      then show ?thesis by (intro exI [of _ 0] exI [of _ "[]"]) simp
    next
      case 2
      then show ?thesis by (intro exI [of _ "Suc n"] exI [of _ "v @ u"]) auto
    qed
  next
    assume "?R lo (Suc hi) s"
    then obtain n u where n: "lo \<le> n" "n \<le> Suc hi" "u \<in> pow n L" "s = u @ t" by blast
    show "t \<in> set (reps f lo (Suc hi) s)"
    proof (cases n)
      case 0
      with n show ?thesis by auto
    next
      case (Suc m)
      with n obtain v w where "u = v @ w" "v \<in> L" "w \<in> pow m L" by auto
      moreover from this n Suc have "?R (lo - 1) hi (w @ t)"
        by (intro exI [of _ m] exI [of _ w]) auto
      ultimately show ?thesis using step n(4) by auto
    qed
  qed
qed

lemma rests_correct: "t \<in> set (rests r s) \<longleftrightarrow> (\<exists>u \<in> lang r. s = u @ t)"
proof (induction r arbitrary: s t)
  case (Cls p)
  then show ?case by (auto split: list.splits)
next
  case Eps
  then show ?case by auto
next
  case (Seq q r)
  then show ?case by auto (metis append.assoc)
next
  case (Alt q r)
  then show ?case by auto
next
  case (Rep lo hi r)
  then show ?case using reps_correct [of "rests r" "lang r" t lo hi s] by auto
next
  case (Many r)
  have "t \<in> set (rests (Many r) s) \<longleftrightarrow>
      (\<exists>n u. n \<le> length s \<and> u \<in> pow n (lang r) \<and> s = u @ t)"
    using reps_correct [of "rests r" "lang r" t 0 "length s" s] Many by simp
  also have "\<dots> \<longleftrightarrow> (\<exists>u \<in> lang (Many r). s = u @ t)"
  proof
    assume "\<exists>u \<in> lang (Many r). s = u @ t"
    then obtain n u where u: "u \<in> pow n (lang r)" "s = u @ t" by auto
    from pow_drop_empty [OF u(1)] obtain m where "m \<le> length u" "u \<in> pow m (lang r)" by blast
    with u show "\<exists>n u. n \<le> length s \<and> u \<in> pow n (lang r) \<and> s = u @ t"
      by (intro exI [of _ m] exI [of _ u]) auto
  qed auto
  finally show ?case .
qed

lemma matches_iff: "matches r s \<longleftrightarrow> s \<in> lang r"
  by (auto simp: matches_def rests_correct)

text \<open>Repeating a class only constrains the length and the units.\<close>

lemma ex_singleton_append:
  "(\<exists>u v. w = u @ v \<and> (\<exists>c. u = [c] \<and> p c) \<and> Q v) \<longleftrightarrow> (\<exists>c v. w = c # v \<and> p c \<and> Q v)"
  by (metis append_Cons append_Nil)

lemma pow_class: "pow n {[c] | c. p c} = {s. length s = n \<and> list_all p s}"
proof (induction n)
  case 0
  then show ?case by auto
next
  case (Suc n)
  show ?case by (auto simp: Suc.IH length_Suc_conv ex_singleton_append)
qed

lemma lang_Rep_Cls: "lang (Rep lo hi (Cls p)) = {s. lo \<le> length s \<and> length s \<le> hi \<and> list_all p s}"
  by (auto simp: pow_class)

lemma lang_Many_Cls: "lang (Many (Cls p)) = {s. list_all p s}"
  by (auto simp: pow_class)

lemma matches_head_tail:
  "matches (Seq (Cls p) (Rep lo hi (Cls q))) s \<longleftrightarrow>
     (\<exists>c t. s = c # t \<and> p c \<and> lo \<le> length t \<and> length t \<le> hi \<and> list_all q t)"
  unfolding matches_iff lang.simps(3) lang_Rep_Cls by (simp add: ex_singleton_append)

text \<open>Rules that evaluate an anchored match from the left.\<close>

lemma matches_Eps [simp]: "matches Eps s \<longleftrightarrow> s = []"
  by (auto simp: matches_def)

lemma matches_Cls [simp]: "matches (Cls p) s \<longleftrightarrow> (\<exists>c. s = [c] \<and> p c)"
  by (auto simp: matches_iff)

lemma matches_Alt [simp]: "matches (Alt q r) s \<longleftrightarrow> matches q s \<or> matches r s"
  by (simp add: matches_iff)

lemma matches_Rep_Cls:
  "matches (Rep lo hi (Cls p)) s \<longleftrightarrow> lo \<le> length s \<and> length s \<le> hi \<and> list_all p s"
  by (simp add: matches_iff lang_Rep_Cls del: lang.simps)

lemma matches_Seq: "matches (Seq q r) s \<longleftrightarrow> (\<exists>t \<in> set (rests q s). matches r t)"
  by (simp add: matches_def)

lemma matches_Seq_Cls:
  "matches (Seq (Cls p) r) s \<longleftrightarrow> (case s of [] \<Rightarrow> False | c # t \<Rightarrow> p c \<and> matches r t)"
  by (auto simp: matches_Seq split: list.splits)

lemma matches_Seq_assoc: "matches (Seq (Seq q r) r') s \<longleftrightarrow> matches (Seq q (Seq r r')) s"
  by (simp add: matches_Seq)

lemma matches_Seq_Eps: "matches (Seq Eps r) s \<longleftrightarrow> matches r s"
  by (simp add: matches_Seq)

lemma matches_Seq_Alt: "matches (Seq (Alt q q') r) s \<longleftrightarrow> matches (Seq q r) s \<or> matches (Seq q' r) s"
  by (auto simp: matches_Seq)

lemma matches_Seq_count:
  "matches (Seq (Rep n n (Cls p)) r) s \<longleftrightarrow>
     n \<le> length s \<and> list_all p (take n s) \<and> matches r (drop n s)"
proof -
  have "(\<exists>u \<in> lang (Rep n n (Cls p)). s = u @ t) \<longleftrightarrow>
      n \<le> length s \<and> list_all p (take n s) \<and> t = drop n s" for t
  proof
    assume r: "n \<le> length s \<and> list_all p (take n s) \<and> t = drop n s"
    then have "take n s \<in> lang (Rep n n (Cls p))" by (simp add: lang_Rep_Cls del: lang.simps)
    with r show "\<exists>u \<in> lang (Rep n n (Cls p)). s = u @ t"
      by (intro bexI [of _ "take n s"]) simp_all
  qed (auto simp: lang_Rep_Cls simp del: lang.simps)
  then show ?thesis by (auto simp: matches_Seq rests_correct simp del: rests.simps lang.simps)
qed

lemma rests_word: "rests (word w) s = (if starts_with (js w) s then [drop (length w) s] else [])"
proof (induction w arbitrary: s rule: word.induct)
  case (2 x)
  then show ?case by (auto simp: chr_def starts_with_def js_def is_chr_def split: list.splits)
next
  case (3 x y xs)
  then show ?case by (cases s) (auto simp: chr_def starts_with_def js_def is_chr_def)
qed (simp_all add: starts_with_def js_def)

lemma matches_Seq_word:
  "matches (Seq (word w) r) s \<longleftrightarrow> starts_with (js w) s \<and> matches r (drop (length w) s)"
  by (simp add: matches_Seq rests_word)

lemmas matches_left = matches_Rep_Cls matches_Seq_Cls matches_Seq_Eps matches_Seq_Alt
  matches_Seq_count matches_Seq_word matches_Seq_assoc chr_def

section \<open>Patterns several components share\<close>

definition union_cls :: "(nat \<Rightarrow> bool) \<Rightarrow> string \<Rightarrow> nat \<Rightarrow> bool" where
  "union_cls p xs c \<longleftrightarrow> p c \<or> c \<in> set (js xs)"

text \<open>\<open>/^[a-z][a-z0-9_-]{2,95}$/\<close>\<close>

definition resource_id_rx :: rx where
  "resource_id_rx = Seq (Cls is_lower) (Rep 2 95 (Cls (union_cls (\<lambda>c. is_lower c \<or> is_digit c) ''_-'')))"

lemma resource_id_length: "matches resource_id_rx s \<Longrightarrow> 3 \<le> length s \<and> length s \<le> 96"
  by (auto simp: resource_id_rx_def matches_head_tail)

text \<open>An unanchored search: some suffix of the input starts with a match.\<close>

fun occurs :: "rx \<Rightarrow> jstr \<Rightarrow> bool" where
  "occurs r [] \<longleftrightarrow> rests r [] \<noteq> []"
| "occurs r (c # s) \<longleftrightarrow> rests r (c # s) \<noteq> [] \<or> occurs r s"

text \<open>
  The \<open>i\<close> flag folds ASCII letters only: without the \<open>u\<close> flag a unit above 127 never folds
  to one below 128.
\<close>

definition ascii_lower :: "nat \<Rightarrow> nat" where
  "ascii_lower c = (if is_upper c then c + 32 else c)"

definition mentions :: "string list \<Rightarrow> jstr \<Rightarrow> bool" where
  "mentions words s \<longleftrightarrow> list_ex (\<lambda>w. str_includes (js w) (map ascii_lower s)) words"

end
