(* ===== verification/Builtin_Tools.thy ===== *)
theory Builtin_Tools
  imports Json_Values Patterns
begin

text \<open>
  \<open>builtin-tools-model.ts\<close>: the gateway's built-in web search and image generation tools,
  the recognition of image models by name, and the parser of the tools' settings.
  \<open>new URL\<close> belongs to the host, so the parser takes it as an argument.
\<close>

record web_url =
  url_protocol :: jstr
  url_username :: jstr
  url_password :: jstr
  url_hostname :: jstr
  url_port :: jstr
  url_pathname :: jstr
  url_search :: jstr
  url_hash :: jstr

type_synonym url_parser = "jstr \<Rightarrow> web_url option"

datatype builtin_tool_kind = WebSearch | ImageGeneration

fun tool_kind_name :: "builtin_tool_kind \<Rightarrow> string" where
  "tool_kind_name WebSearch = ''web_search''"
| "tool_kind_name ImageGeneration = ''image_generation''"

datatype tool_backend = Upstream | External | ServiceImages | ServiceSearch | NoBackend

fun backend_name :: "tool_backend \<Rightarrow> string" where
  "backend_name NoBackend = ''''"
| "backend_name Upstream = ''upstream''"
| "backend_name External = ''external''"
| "backend_name ServiceImages = ''service_images''"
| "backend_name ServiceSearch = ''service_search''"

definition backends :: "tool_backend list" where
  "backends = [NoBackend, Upstream, External, ServiceImages, ServiceSearch]"

record builtin_tool =
  bt_enabled :: bool
  bt_backend :: tool_backend
  bt_service_id :: "jstr option"
  bt_model :: "jstr option"
  bt_base_url :: "jstr option"

type_synonym builtin_tools = "builtin_tool_kind \<Rightarrow> builtin_tool"

interpretation backend_enum: string_enum backends backend_name
proof
  show "x \<in> set backends" for x by (cases x) (simp_all add: backends_def)
  show "distinct (map backend_name backends)" by (simp add: backends_def)
qed

section \<open>Image models by name\<close>

definition image_model_words :: "string list" where
  "image_model_words = [''image'', ''dall-e'', ''flux'', ''seedream'', ''stable-diffusion'',
     ''sdxl'', ''sd3'', ''cogview'', ''wanx'', ''t2i'', ''recraft'', ''ideogram'', ''kolors'',
     ''jimeng'', ''hidream'']"

definition isImageGenerationModel :: "jstr \<Rightarrow> bool" where
  "isImageGenerationModel model \<longleftrightarrow>
     mentions image_model_words model \<and> \<not> mentions [''video''] model"

text \<open>\<open>/(^|\/)(gpt-\d|o\d)/i\<close>: at the start of the ID or of a path segment.\<close>

definition gpt_or_o_rx :: rx where
  "gpt_or_o_rx = Alt (Seq (word ''gpt-'') (Cls is_digit)) (Seq (word ''o'') (Cls is_digit))"

definition gpt_or_o_model :: "jstr \<Rightarrow> bool" where
  "gpt_or_o_model s \<longleftrightarrow>
     rests gpt_or_o_rx s \<noteq> [] \<or> occurs (Seq (word ''/'') gpt_or_o_rx) s"

definition runsImageGenerationTool :: "jstr \<Rightarrow> bool" where
  "runsImageGenerationTool model \<longleftrightarrow>
     gpt_or_o_model (map ascii_lower model)
     \<and> \<not> mentions [''realtime'', ''audio'', ''transcribe'', ''tts'', ''search''] model
     \<and> \<not> isImageGenerationModel model"

section \<open>Settings\<close>

definition defaultBuiltinTools :: builtin_tools where
  "defaultBuiltinTools kind =
     \<lparr>bt_enabled = False, bt_backend = Upstream, bt_service_id = None, bt_model = None,
      bt_base_url = None\<rparr>"

text \<open>A present, non-empty optional string: what truthiness tests for these fields.\<close>

definition nonempty :: "jstr option \<Rightarrow> bool" where
  "nonempty x \<longleftrightarrow> x \<noteq> None \<and> x \<noteq> Some []"

definition bad_tool_field :: "jstr \<times> json \<Rightarrow> bool" where
  "bad_tool_field e \<longleftrightarrow> fst e \<noteq> js ''enabled'' \<and>
     (fst e \<notin> set (map js [''backend'', ''service_id'', ''model'', ''base_url''])
      \<or> jstring (snd e) = None)"

definition bad_tool_model :: "jstr option \<Rightarrow> bool" where
  "bad_tool_model model \<longleftrightarrow> (case model of None \<Rightarrow> False | Some s \<Rightarrow>
     length (code_points s) > 256 \<or> list_ex (\<lambda>c. c < 32 \<or> c = 127) (code_points s))"

definition bad_tool_url :: "jstr \<Rightarrow> web_url \<Rightarrow> bool" where
  "bad_tool_url text url \<longleftrightarrow>
     length text > 2048
     \<or> url_protocol url \<notin> set (map js [''http:'', ''https:''])
     \<or> url_hostname url = [] \<or> url_username url \<noteq> [] \<or> url_password url \<noteq> []
     \<or> url_search url \<noteq> [] \<or> url_hash url \<noteq> []"

definition incomplete_tool ::
  "builtin_tool_kind \<Rightarrow> tool_backend \<Rightarrow> jstr option \<Rightarrow> jstr option \<Rightarrow> jstr option \<Rightarrow> bool"
where
  "incomplete_tool kind backend service_id model base_url \<longleftrightarrow>
     backend = NoBackend
     \<or> (backend = Upstream \<or> backend = ServiceImages \<or> backend = ServiceSearch)
       \<and> (\<not> nonempty service_id \<or> \<not> nonempty model)
     \<or> backend = External
       \<and> (\<not> nonempty base_url \<or> kind = ImageGeneration \<and> \<not> nonempty model)"

text \<open>\<open>new URL(text)\<close> throws a \<open>TypeError\<close> when the text is not a URL.\<close>

definition newURL :: "url_parser \<Rightarrow> jstr \<Rightarrow> js_error + web_url" where
  "newURL url text = orThrow (Error (js ''Invalid URL'')) (url text)"

definition checkBaseURL :: "url_parser \<Rightarrow> jstr option \<Rightarrow> js_error + unit" where
  "checkBaseURL url base_url =
     (if nonempty base_url
      then bindE (newURL url (the base_url)) (\<lambda>u.
             throwIf (bad_tool_url (the base_url) u) (Error (js ''invalid builtin tool API URL'')))
      else Inr ())"

definition parseBuiltinTool ::
  "url_parser \<Rightarrow> jobj \<Rightarrow> builtin_tool_kind \<Rightarrow> js_error + builtin_tool"
where
  "parseBuiltinTool url tools kind =
     bindE (orThrow (Error (js ''invalid builtin tool''))
              (jobject (field tools (tool_kind_name kind)))) (\<lambda>tool.
     bindE (orThrow (Error (js ''invalid builtin tool backend''))
              (jbool (field tool ''enabled''))) (\<lambda>enabled.
     bindE (orThrow (Error (js ''invalid builtin tool backend''))
              (enum_of backends backend_name (field tool ''backend''))) (\<lambda>backend.
     bindE (throwIf (backend = ServiceImages \<and> kind \<noteq> ImageGeneration
                     \<or> backend = ServiceSearch \<and> kind \<noteq> WebSearch)
              (Error (js ''invalid builtin tool backend''))) (\<lambda>_.
     bindE (throwIf (list_ex bad_tool_field tool)
              (Error (js ''invalid builtin tool field''))) (\<lambda>_.
     let service_id = jstring (field tool ''service_id'');
         model = jstring (field tool ''model'');
         base_url = jstring (field tool ''base_url'') in
     bindE (throwIf (bad_tool_model model) (Error (js ''invalid builtin tool model''))) (\<lambda>_.
     bindE (throwIf (nonempty service_id \<and> \<not> matches resource_id_rx (the service_id))
              (Error (js ''invalid builtin tool provider''))) (\<lambda>_.
     bindE (checkBaseURL url base_url) (\<lambda>_.
     bindE (throwIf (enabled \<and> incomplete_tool kind backend service_id model base_url)
              (Error (js ''builtin tool configuration is incomplete''))) (\<lambda>_.
     Inr \<lparr>bt_enabled = enabled, bt_backend = backend, bt_service_id = service_id,
          bt_model = model, bt_base_url = base_url\<rparr>)))))))))"

definition parseBuiltinTools :: "url_parser \<Rightarrow> json \<Rightarrow> js_error + builtin_tools" where
  "parseBuiltinTools url value =
     bindE (orThrow (Error (js ''invalid builtin tools'')) (jobject value)) (\<lambda>tools.
     bindE (throwIf (length tools \<noteq> 2 \<or> \<not> has_own tools ''web_search''
                     \<or> \<not> has_own tools ''image_generation'')
              (Error (js ''invalid builtin tools fields''))) (\<lambda>_.
     bindE (parseBuiltinTool url tools WebSearch) (\<lambda>search.
     bindE (parseBuiltinTool url tools ImageGeneration) (\<lambda>images.
     Inr (\<lambda>kind. case kind of WebSearch \<Rightarrow> search | ImageGeneration \<Rightarrow> images)))))"

section \<open>What the parser accepts\<close>

definition tool_ok :: "url_parser \<Rightarrow> builtin_tool_kind \<Rightarrow> builtin_tool \<Rightarrow> bool" where
  "tool_ok url kind t \<longleftrightarrow>
     (bt_backend t = ServiceImages \<longrightarrow> kind = ImageGeneration)
     \<and> (bt_backend t = ServiceSearch \<longrightarrow> kind = WebSearch)
     \<and> \<not> bad_tool_model (bt_model t)
     \<and> (nonempty (bt_service_id t) \<longrightarrow> matches resource_id_rx (the (bt_service_id t)))
     \<and> checkBaseURL url (bt_base_url t) = Inr ()
     \<and> (bt_enabled t \<longrightarrow>
          \<not> incomplete_tool kind (bt_backend t) (bt_service_id t) (bt_model t) (bt_base_url t))"

definition tools_ok :: "url_parser \<Rightarrow> builtin_tools \<Rightarrow> bool" where
  "tools_ok url ts \<longleftrightarrow> tool_ok url WebSearch (ts WebSearch) \<and> tool_ok url ImageGeneration (ts ImageGeneration)"

definition tool_json :: "builtin_tool \<Rightarrow> json" where
  "tool_json t = JObj ([(js ''enabled'', JBool (bt_enabled t)),
     (js ''backend'', js_str (backend_name (bt_backend t)))]
     @ opt_field ''service_id'' JStr (bt_service_id t)
     @ opt_field ''model'' JStr (bt_model t)
     @ opt_field ''base_url'' JStr (bt_base_url t) @ [])"

definition tools_json :: "builtin_tools \<Rightarrow> json" where
  "tools_json ts = JObj [(js ''web_search'', tool_json (ts WebSearch)),
     (js ''image_generation'', tool_json (ts ImageGeneration))]"

lemma parseBuiltinTool_ok: "parseBuiltinTool url tools kind = Inr t \<Longrightarrow> tool_ok url kind t"
  by (auto simp: parseBuiltinTool_def tool_ok_def Let_def res)

lemma parseBuiltinTool_json:
  assumes "field tools (tool_kind_name kind) = tool_json t" and "tool_ok url kind t"
  shows "parseBuiltinTool url tools kind = Inr t"
proof -
  have "\<not> list_ex bad_tool_field ([(js ''enabled'', JBool (bt_enabled t)),
     (js ''backend'', js_str (backend_name (bt_backend t)))]
     @ opt_field ''service_id'' JStr (bt_service_id t)
     @ opt_field ''model'' JStr (bt_model t)
     @ opt_field ''base_url'' JStr (bt_base_url t))"
    by (cases "bt_service_id t"; cases "bt_model t"; cases "bt_base_url t")
      (simp_all add: bad_tool_field_def opt_field_def js_str_def)
  then show ?thesis
    using assms
    by (auto simp: parseBuiltinTool_def tool_ok_def tool_json_def backend_enum.enum_of_name
        Let_def bindE_throwIf)
qed

interpretation builtin_tools: json_codec "\<lambda>v _. parseBuiltinTools url v" tools_json "tools_ok url"
  for url
proof
  fix v path ts
  assume "parseBuiltinTools url v = Inr ts"
  then show "tools_ok url ts"
    by (auto simp: parseBuiltinTools_def tools_ok_def res dest!: parseBuiltinTool_ok)
next
  fix ts path
  assume "tools_ok url ts"
  then show "parseBuiltinTools url (tools_json ts) = Inr ts"
    by (auto simp: parseBuiltinTools_def tools_json_def tools_ok_def parseBuiltinTool_json
        fun_eq_iff split: builtin_tool_kind.split)
qed

section \<open>Properties\<close>

text \<open>
  The tools' settings are read exactly: what the parser accepts, written
  back as JSON, reads as the same settings, whatever the host's URL parser does.
\<close>

theorem builtin_tools_roundtrip:
  assumes "parseBuiltinTools url v = Inr ts"
  shows "parseBuiltinTools url (tools_json ts) = Inr ts"
  using assms by (rule builtin_tools.reparse)

lemma default_tools_ok: "tools_ok url defaultBuiltinTools"
  by (simp add: tools_ok_def tool_ok_def defaultBuiltinTools_def bad_tool_model_def
      nonempty_def checkBaseURL_def)

theorem builtin_tools_roundtrip_witness:
  "parseBuiltinTools (\<lambda>_. None) (tools_json defaultBuiltinTools) = Inr defaultBuiltinTools"
  by (rule builtin_tools_roundtrip [OF builtin_tools.parse_render [OF default_tools_ok]])

text \<open>
  A tool that is switched on is complete. An external one has an API URL the
  host parses, on http or https without credentials, query or fragment, and for images a
  model; any other has a well-formed provider ID and a model, and a service backend only
  serves its own tool.
\<close>

theorem enabled_tool_complete:
  assumes "parseBuiltinTools url v = Inr ts" and "bt_enabled (ts kind)"
  shows "if bt_backend (ts kind) = External
    then (\<exists>b u. bt_base_url (ts kind) = Some b \<and> url b = Some u \<and> \<not> bad_tool_url b u)
      \<and> (kind = ImageGeneration \<longrightarrow> nonempty (bt_model (ts kind)))
    else (\<exists>i m. bt_service_id (ts kind) = Some i \<and> matches resource_id_rx i
        \<and> bt_model (ts kind) = Some m \<and> m \<noteq> [])
      \<and> bt_backend (ts kind) \<in> {Upstream, case kind of WebSearch \<Rightarrow> ServiceSearch | ImageGeneration \<Rightarrow> ServiceImages}"
proof -
  have "tool_ok url kind (ts kind)"
    using builtin_tools.parse_valid [OF assms(1)] by (cases kind) (simp_all add: tools_ok_def)
  then show ?thesis
    using assms(2)
    by (cases "bt_backend (ts kind)"; cases kind)
      (auto simp: tool_ok_def incomplete_tool_def nonempty_def checkBaseURL_def newURL_def res)
qed

definition sample_tools :: builtin_tools where
  "sample_tools kind = \<lparr>bt_enabled = True, bt_backend = Upstream,
     bt_service_id = Some (js ''openai''), bt_model = Some (js ''gpt-5''), bt_base_url = None\<rparr>"

lemma sample_id: "matches resource_id_rx (js ''openai'')"
  by (simp add: resource_id_rx_def matches_head_tail js_def is_lower_def union_cls_def)

lemma sample_tools_ok: "tools_ok url sample_tools"
  by (simp add: tools_ok_def tool_ok_def sample_tools_def bad_tool_model_def nonempty_def
      checkBaseURL_def incomplete_tool_def sample_id) (simp add: js_def)

theorem enabled_tool_complete_witness:
  "\<exists>i m. bt_service_id (sample_tools WebSearch) = Some i \<and> matches resource_id_rx i
     \<and> bt_model (sample_tools WebSearch) = Some m \<and> m \<noteq> []"
  using enabled_tool_complete
    [OF builtin_tools.parse_render [OF sample_tools_ok [of "\<lambda>_. None"]], of WebSearch]
  by (simp add: sample_tools_def)

end
