(* ===== verification/Failure_Policy.thy ===== *)
theory Failure_Policy
  imports Builtin_Tools
begin

text \<open>
  \<open>failure-policy-model.ts\<close>: how the gateway retries and fails over, the model redirect
  table, the client identity versions, the thinking and system prompt settings, and the
  parser of the whole routing settings document.
\<close>

section \<open>Policies\<close>

datatype failure_action = Stop | Retry | Failover | RetryAndFailover

fun failure_action_name :: "failure_action \<Rightarrow> string" where
  "failure_action_name Stop = ''stop''"
| "failure_action_name Retry = ''retry''"
| "failure_action_name Failover = ''failover''"
| "failure_action_name RetryAndFailover = ''retry_and_failover''"

definition failureActions :: "failure_action list" where
  "failureActions = [Stop, Retry, Failover, RetryAndFailover]"

datatype failover_strategy = RetryFirst | FailoverFirst | FailoverOnly

fun strategy_name :: "failover_strategy \<Rightarrow> string" where
  "strategy_name RetryFirst = ''retry_first''"
| "strategy_name FailoverFirst = ''failover_first''"
| "strategy_name FailoverOnly = ''failover_only''"

definition strategies :: "failover_strategy list" where
  "strategies = [RetryFirst, FailoverFirst, FailoverOnly]"

record failure_policy =
  fp_max_retries :: int
  fp_initial_delay_ms :: int
  fp_max_delay_ms :: int
  fp_response_start_timeout_seconds :: "int option"
  fp_thinking_signature_recovery :: "bool option"
  fp_openai_reasoning_recovery :: "bool option"
  fp_openai_function_output_recovery :: "bool option"
  fp_network_error :: failure_action
  fp_response_timeout :: failure_action
  fp_http_status :: "(jstr \<times> failure_action) list"

record failover_policy =
  fo_enabled :: bool
  fo_strategy :: failover_strategy
  fo_max_attempts :: int

record channel_stickiness =
  cs_enabled :: bool
  cs_ttl_seconds :: int

interpretation failure_action_enum: string_enum failureActions failure_action_name
proof
  show "x \<in> set failureActions" for x by (cases x) (simp_all add: failureActions_def)
  show "distinct (map failure_action_name failureActions)" by (simp add: failureActions_def)
qed

interpretation strategy_enum: string_enum strategies strategy_name
proof
  show "x \<in> set strategies" for x by (cases x) (simp_all add: strategies_def)
  show "distinct (map strategy_name strategies)" by (simp add: strategies_def)
qed

section \<open>Settings keys\<close>

datatype identity_setting_key =
    CodexIdentityEnforcement | ClaudeIdentityEnforcement | GrokIdentityEnforcement

datatype subscription_protection_key =
    OfficialClientPassthrough | SubscriptionRiskProtection | CodexRequestNormalization
  | ClaudeRequestNormalization | SubscriptionSessionIsolation

datatype identity_learning_key =
    CodexIdentityAutoLearn | ClaudeIdentityAutoLearn | GrokIdentityAutoLearn

datatype identity_version_key =
    CodexIdentityVersion | ClaudeIdentityVersion | GrokIdentityVersion

datatype forwarding_switch_key =
    IdentitySetting identity_setting_key
  | SubscriptionProtection subscription_protection_key
  | IdentityLearning identity_learning_key

fun identity_setting_name :: "identity_setting_key \<Rightarrow> string" where
  "identity_setting_name CodexIdentityEnforcement = ''codex_identity_enforcement''"
| "identity_setting_name ClaudeIdentityEnforcement = ''claude_identity_enforcement''"
| "identity_setting_name GrokIdentityEnforcement = ''grok_identity_enforcement''"

fun subscription_protection_name :: "subscription_protection_key \<Rightarrow> string" where
  "subscription_protection_name OfficialClientPassthrough = ''official_client_passthrough''"
| "subscription_protection_name SubscriptionRiskProtection = ''subscription_risk_protection''"
| "subscription_protection_name CodexRequestNormalization = ''codex_request_normalization''"
| "subscription_protection_name ClaudeRequestNormalization = ''claude_request_normalization''"
| "subscription_protection_name SubscriptionSessionIsolation = ''subscription_session_isolation''"

fun identity_learning_name :: "identity_learning_key \<Rightarrow> string" where
  "identity_learning_name CodexIdentityAutoLearn = ''codex_identity_auto_learn''"
| "identity_learning_name ClaudeIdentityAutoLearn = ''claude_identity_auto_learn''"
| "identity_learning_name GrokIdentityAutoLearn = ''grok_identity_auto_learn''"

fun identity_version_name :: "identity_version_key \<Rightarrow> string" where
  "identity_version_name CodexIdentityVersion = ''codex_identity_version''"
| "identity_version_name ClaudeIdentityVersion = ''claude_identity_version''"
| "identity_version_name GrokIdentityVersion = ''grok_identity_version''"

fun forwarding_switch_name :: "forwarding_switch_key \<Rightarrow> string" where
  "forwarding_switch_name (IdentitySetting k) = identity_setting_name k"
| "forwarding_switch_name (SubscriptionProtection k) = subscription_protection_name k"
| "forwarding_switch_name (IdentityLearning k) = identity_learning_name k"

definition identitySettingKeys :: "identity_setting_key list" where
  "identitySettingKeys =
     [CodexIdentityEnforcement, ClaudeIdentityEnforcement, GrokIdentityEnforcement]"

definition subscriptionProtectionKeys :: "subscription_protection_key list" where
  "subscriptionProtectionKeys =
     [OfficialClientPassthrough, SubscriptionRiskProtection, CodexRequestNormalization,
      ClaudeRequestNormalization, SubscriptionSessionIsolation]"

definition identityLearningKeys :: "identity_learning_key list" where
  "identityLearningKeys = [CodexIdentityAutoLearn, ClaudeIdentityAutoLearn, GrokIdentityAutoLearn]"

definition identityVersionKeys :: "identity_version_key list" where
  "identityVersionKeys = [CodexIdentityVersion, ClaudeIdentityVersion, GrokIdentityVersion]"

definition forwardingSwitchKeys :: "forwarding_switch_key list" where
  "forwardingSwitchKeys =
     map IdentitySetting identitySettingKeys
     @ map SubscriptionProtection subscriptionProtectionKeys
     @ map IdentityLearning identityLearningKeys"

section \<open>Client identity versions\<close>

definition maxIdentityVersionLength :: nat where "maxIdentityVersionLength = 64"

text \<open>
  \<open>/^([0-9]+)\.([0-9]+)\.([0-9]+)(-[0-9A-Za-z.-]+)?(?:\+[0-9A-Za-z.-]+)?$/\<close> with its four
  groups. Each run is followed by a unit its class excludes, so reading greedily never has
  to back up.
\<close>

definition read_digits :: "jstr \<Rightarrow> (jstr \<times> jstr) option" where
  "read_digits s = (let d = takeWhile is_digit s in
     if d = [] then None else Some (d, dropWhile is_digit s))"

definition read_chr :: "char \<Rightarrow> jstr \<Rightarrow> jstr option" where
  "read_chr x s = (case s of [] \<Rightarrow> None | c # t \<Rightarrow> if is_chr x c then Some t else None)"

definition version_tag_unit :: "nat \<Rightarrow> bool" where
  "version_tag_unit = union_cls is_alnum ''.-''"

text \<open>An optional tag introduced by \<open>x\<close>: the tag read if any, and the rest.\<close>

definition read_tag :: "char \<Rightarrow> jstr \<Rightarrow> (jstr option \<times> jstr) option" where
  "read_tag x s = (case read_chr x s of
     None \<Rightarrow> Some (None, s)
   | Some t \<Rightarrow> (let w = takeWhile version_tag_unit t in
       if w = [] then None else Some (Some (of_char x # w), dropWhile version_tag_unit t)))"

definition match_identity_version ::
  "jstr \<Rightarrow> (jstr \<times> jstr \<times> jstr \<times> jstr option) option"
where
  "match_identity_version s =
     Option.bind (read_digits s) (\<lambda>(a, r1).
     Option.bind (read_chr CHR ''.'' r1) (\<lambda>r2.
     Option.bind (read_digits r2) (\<lambda>(b, r3).
     Option.bind (read_chr CHR ''.'' r3) (\<lambda>r4.
     Option.bind (read_digits r4) (\<lambda>(c, r5).
     Option.bind (read_tag CHR ''-'' r5) (\<lambda>(pre, r6).
     Option.bind (read_tag CHR ''+'' r6) (\<lambda>(build, r7).
     if r7 = [] then Some (a, b, c, pre) else None)))))))"

definition minCodexIdentityVersion :: "nat list" where
  "minCodexIdentityVersion = [0, 144, 0]"

text \<open>The loop over the release numbers: the first that differs from the minimum decides.\<close>

fun release_decides :: "nat list \<Rightarrow> nat list \<Rightarrow> bool option" where
  "release_decides (p # ps) (m # ms) =
     (if p \<noteq> m then Some (p > m) else release_decides ps ms)"
| "release_decides _ _ = None"

definition validIdentityVersion :: "identity_version_key \<Rightarrow> jstr \<Rightarrow> bool" where
  "validIdentityVersion key value =
     (if value = [] then True
      else case (if length value \<le> maxIdentityVersionLength
                 then match_identity_version value else None) of
        None \<Rightarrow> False
      | Some (a, b, c, pre) \<Rightarrow>
          (let release = map digits_value [a, b, c] in
           if list_ex (\<lambda>part. part > 4294967295) release then False
           else if key \<noteq> CodexIdentityVersion then True
           else case release_decides release minCodexIdentityVersion of
             Some newer \<Rightarrow> newer
           | None \<Rightarrow> pre = None))"

section \<open>Thinking\<close>

datatype reasoning_mode = Passthrough | Fixed | Adaptive
datatype reasoning_level = LevelOff | LevelLow | LevelMedium | LevelHigh | LevelMax
datatype adaptive_preset = Everyday | Research | Custom

fun reasoning_mode_name :: "reasoning_mode \<Rightarrow> string" where
  "reasoning_mode_name Passthrough = ''passthrough''"
| "reasoning_mode_name Fixed = ''fixed''"
| "reasoning_mode_name Adaptive = ''adaptive''"

fun reasoning_level_name :: "reasoning_level \<Rightarrow> string" where
  "reasoning_level_name LevelOff = ''off''"
| "reasoning_level_name LevelLow = ''low''"
| "reasoning_level_name LevelMedium = ''medium''"
| "reasoning_level_name LevelHigh = ''high''"
| "reasoning_level_name LevelMax = ''max''"

fun adaptive_preset_name :: "adaptive_preset \<Rightarrow> string" where
  "adaptive_preset_name Everyday = ''everyday''"
| "adaptive_preset_name Research = ''research''"
| "adaptive_preset_name Custom = ''custom''"

definition reasoningModes :: "reasoning_mode list" where
  "reasoningModes = [Passthrough, Fixed, Adaptive]"

definition reasoningLevels :: "reasoning_level list" where
  "reasoningLevels = [LevelOff, LevelLow, LevelMedium, LevelHigh, LevelMax]"

definition adaptivePresets :: "adaptive_preset list" where
  "adaptivePresets = [Everyday, Research, Custom]"

interpretation reasoning_mode_enum: string_enum reasoningModes reasoning_mode_name
proof
  show "x \<in> set reasoningModes" for x by (cases x) (simp_all add: reasoningModes_def)
  show "distinct (map reasoning_mode_name reasoningModes)" by (simp add: reasoningModes_def)
qed

interpretation reasoning_level_enum: string_enum reasoningLevels reasoning_level_name
proof
  show "x \<in> set reasoningLevels" for x by (cases x) (simp_all add: reasoningLevels_def)
  show "distinct (map reasoning_level_name reasoningLevels)" by (simp add: reasoningLevels_def)
qed

interpretation adaptive_preset_enum: string_enum adaptivePresets adaptive_preset_name
proof
  show "x \<in> set adaptivePresets" for x by (cases x) (simp_all add: adaptivePresets_def)
  show "distinct (map adaptive_preset_name adaptivePresets)" by (simp add: adaptivePresets_def)
qed

text \<open>\<open>reasoningLevels.indexOf(level)\<close>: the levels from least to most.\<close>

definition level_index :: "reasoning_level \<Rightarrow> nat" where
  "level_index l = the (find_index (\<lambda>x. x = l) reasoningLevels)"

fun presetRanges :: "adaptive_preset \<Rightarrow> (reasoning_level \<times> reasoning_level) option" where
  "presetRanges Everyday = Some (LevelLow, LevelMax)"
| "presetRanges Research = Some (LevelMedium, LevelMax)"
| "presetRanges Custom = None"

definition nullish :: "'a option \<Rightarrow> 'a \<Rightarrow> 'a" where
  "nullish x d = (case x of None \<Rightarrow> d | Some y \<Rightarrow> y)"

definition adaptiveRange ::
  "adaptive_preset option \<Rightarrow> reasoning_level option \<Rightarrow> reasoning_level option
     \<Rightarrow> reasoning_level \<times> reasoning_level"
where
  "adaptiveRange adaptive_preset adaptive_min adaptive_max =
     (let preset = nullish adaptive_preset Everyday in
      if preset \<noteq> Custom then the (presetRanges preset)
      else (nullish adaptive_min LevelLow, nullish adaptive_max LevelMax))"

section \<open>Image compression and prompts\<close>

definition maxSystemPromptLength :: nat where "maxSystemPromptLength = 20000"

definition systemPromptTextKeys :: "string list" where
  "systemPromptTextKeys = [''system_prompt_prefix'', ''system_prompt_suffix'']"

definition thinkingPromptKeys :: "string list" where
  "thinkingPromptKeys = ''system_prompt_enabled'' # systemPromptTextKeys
     @ [''reasoning_mode'', ''reasoning_level'', ''adaptive_preset'', ''adaptive_min'',
        ''adaptive_max'']"

datatype image_compression_mode = Lossless | Lossy

fun compression_mode_name :: "image_compression_mode \<Rightarrow> string" where
  "compression_mode_name Lossless = ''lossless''"
| "compression_mode_name Lossy = ''lossy''"

definition imageCompressionModes :: "image_compression_mode list" where
  "imageCompressionModes = [Lossless, Lossy]"

interpretation compression_mode_enum: string_enum imageCompressionModes compression_mode_name
proof
  show "x \<in> set imageCompressionModes" for x by (cases x) (simp_all add: imageCompressionModes_def)
  show "distinct (map compression_mode_name imageCompressionModes)"
    by (simp add: imageCompressionModes_def)
qed

record image_compression =
  ic_enabled :: bool
  ic_mode :: image_compression_mode
  ic_quality :: int

definition defaultImageCompression :: image_compression where
  "defaultImageCompression = \<lparr>ic_enabled = False, ic_mode = Lossless, ic_quality = 85\<rparr>"

section \<open>Model redirects\<close>

record model_redirect =
  mr_from :: jstr
  mr_to :: jstr
  mr_enabled :: bool

definition maxModelRedirects :: nat where "maxModelRedirects = 200"
definition maxRedirectModelLength :: nat where "maxRedirectModelLength = 256"
definition astrlinkAutoModelId :: jstr where "astrlinkAutoModelId = js ''astrlink/auto''"

record builtin_model_redirect =
  bmr_id :: "jstr option"
  bmr_from :: jstr
  bmr_defaultTo :: jstr
  bmr_defaultEnabled :: "bool option"

definition builtinModelRedirects :: "builtin_model_redirect list" where
  "builtinModelRedirects =
     [\<lparr>bmr_id = Some (js ''codexAutoReview''), bmr_from = js ''codex-auto-review'',
       bmr_defaultTo = js ''gpt-5.6-luna'', bmr_defaultEnabled = None\<rparr>]"

datatype model_redirect_issue =
    EmptyFrom | EmptyTo | TooLong | ControlCharacter | Whitespace | SameModel | AutoTarget
  | DuplicateFrom | ChainedTarget

text \<open>
  Go's \<open>unicode.IsSpace\<close>. All its members are single units, so the pattern
  \<open>^[...]|[...]$\<close> looks at the first and the last unit.
\<close>

definition goSpace :: "nat \<Rightarrow> bool" where
  "goSpace c \<longleftrightarrow> 9 \<le> c \<and> c \<le> 13 \<or> c = 32 \<or> c = 133 \<or> c = 160 \<or> c = 5760
     \<or> 8192 \<le> c \<and> c \<le> 8202 \<or> c = 8232 \<or> c = 8233 \<or> c = 8239 \<or> c = 8287 \<or> c = 12288"

definition edgeSpace :: "jstr \<Rightarrow> bool" where
  "edgeSpace s \<longleftrightarrow> s \<noteq> [] \<and> (goSpace (hd s) \<or> goSpace (last s))"

definition hasControlCharacter :: "jstr \<Rightarrow> bool" where
  "hasControlCharacter value \<longleftrightarrow> list_ex (\<lambda>code. code < 32 \<and> code \<noteq> 9) (code_points value)"

definition redirect_issue :: "model_redirect list \<Rightarrow> model_redirect \<Rightarrow> model_redirect_issue option"
where
  "redirect_issue redirects redirect =
     (let models = [mr_from redirect, mr_to redirect]; sources = map mr_from redirects in
      if mr_from redirect = [] then Some EmptyFrom
      else if mr_to redirect = [] then Some EmptyTo
      else if list_ex (\<lambda>m. length (code_points m) > maxRedirectModelLength) models then Some TooLong
      else if list_ex hasControlCharacter models then Some ControlCharacter
      else if list_ex edgeSpace models then Some Whitespace
      else if mr_from redirect = mr_to redirect then Some SameModel
      else if mr_to redirect = astrlinkAutoModelId then Some AutoTarget
      else if count_list sources (mr_from redirect) > 1 then Some DuplicateFrom
      else if mr_to redirect \<in> set sources then Some ChainedTarget
      else None)"

definition modelRedirectIssues :: "model_redirect list \<Rightarrow> model_redirect_issue option list" where
  "modelRedirectIssues redirects = map (redirect_issue redirects) redirects"

section \<open>Routing settings\<close>

record routing_settings =
  rs_builtin_tools :: "builtin_tools option"
  rs_forwarding :: "forwarding_switch_key \<Rightarrow> bool option"
  rs_identity_version :: "identity_version_key \<Rightarrow> jstr option"
  rs_system_prompt_enabled :: "bool option"
  rs_system_prompt_prefix :: "jstr option"
  rs_system_prompt_suffix :: "jstr option"
  rs_reasoning_mode :: "reasoning_mode option"
  rs_reasoning_level :: "reasoning_level option"
  rs_adaptive_preset :: "adaptive_preset option"
  rs_adaptive_min :: "reasoning_level option"
  rs_adaptive_max :: "reasoning_level option"
  rs_image_compression :: "image_compression option"
  rs_model_redirects :: "model_redirect list option"
  rs_channel_stickiness :: "channel_stickiness option"
  rs_default_recovery_paths :: "(jstr \<times> jstr) list option"
  rs_default_failure_policy :: failure_policy
  rs_allow_unmatched_failover :: bool
  rs_strategy :: failover_strategy
  rs_max_attempts :: int

text \<open>Status codes are integer keys, which an object enumerates in ascending order.\<close>

definition defaultFailurePolicy :: failure_policy where
  "defaultFailurePolicy =
     \<lparr>fp_max_retries = 1, fp_initial_delay_ms = 500, fp_max_delay_ms = 5000,
      fp_response_start_timeout_seconds = None, fp_thinking_signature_recovery = None,
      fp_openai_reasoning_recovery = None, fp_openai_function_output_recovery = None,
      fp_network_error = RetryAndFailover, fp_response_timeout = RetryAndFailover,
      fp_http_status =
        [(js ''401'', Failover), (js ''403'', Failover), (js ''408'', RetryAndFailover),
         (js ''429'', RetryAndFailover), (js ''500'', RetryAndFailover),
         (js ''502'', RetryAndFailover), (js ''503'', RetryAndFailover),
         (js ''504'', RetryAndFailover), (js ''529'', RetryAndFailover)]\<rparr>"

definition defaultFailoverPolicy :: failover_policy where
  "defaultFailoverPolicy =
     \<lparr>fo_enabled = True, fo_strategy = RetryFirst, fo_max_attempts = 6\<rparr>"

subsection \<open>Readers\<close>

definition fail_at :: "jstr \<Rightarrow> string \<Rightarrow> js_error" where
  "fail_at path message = Error (path @ js '': '' @ js message)"

definition readObject :: "json \<Rightarrow> jstr \<Rightarrow> js_error + jobj" where
  "readObject value path = orThrow (fail_at path ''expected an object'') (jobject value)"

definition readKeys :: "jobj \<Rightarrow> string list \<Rightarrow> string list \<Rightarrow> jstr \<Rightarrow> js_error + unit" where
  "readKeys value required optional path =
     throwIf (missing_key value required \<noteq> None \<or> unexpected_key value (required @ optional) \<noteq> None)
       (fail_at path ''unexpected or missing field'')"

definition int_dec :: "int \<Rightarrow> jstr" where
  "int_dec i = (if i < 0 then js ''-'' @ dec (nat (- i)) else dec (nat i))"

definition readInteger :: "json \<Rightarrow> int \<Rightarrow> int \<Rightarrow> jstr \<Rightarrow> js_error + int" where
  "readInteger value min' max' path =
     (let e = Error (path @ js '': expected an integer from '' @ int_dec min'
                     @ js '' through '' @ int_dec max') in
      bindE (orThrow e (safe_int value)) (\<lambda>i.
      bindE (throwIf (i < min' \<or> i > max') e) (\<lambda>_. Inr i)))"

definition readAction :: "json \<Rightarrow> jstr \<Rightarrow> js_error + failure_action" where
  "readAction value path =
     orThrow (fail_at path ''unknown failure action'')
       (enum_of failureActions failure_action_name value)"

text \<open>\<open>/^[45]\d{2}$/\<close>\<close>

definition status_code_rx :: rx where
  "status_code_rx = Seq (Cls (\<lambda>c. c = 52 \<or> c = 53)) (Rep 2 2 (Cls is_digit))"

definition readStatus :: "jstr \<Rightarrow> jstr \<times> json \<Rightarrow> js_error + jstr \<times> failure_action" where
  "readStatus path entry =
     bindE (throwIf (\<not> matches status_code_rx (fst entry))
       (fail_at (at_field path ''http_status'') ''expected a status code from 400 through 599'')) (\<lambda>_.
     bindE (readAction (snd entry) (at_key (at_field path ''http_status'') (fst entry))) (\<lambda>a.
     Inr (fst entry, a)))"

text \<open>An own property must hold a boolean; absent, it reads as no value.\<close>

definition readOptBool :: "jobj \<Rightarrow> string \<Rightarrow> js_error \<Rightarrow> js_error + bool option" where
  "readOptBool value key e =
     bindE (throwIf (has_own value key \<and> jbool (field value key) = None) e) (\<lambda>_.
     Inr (jbool (field value key)))"

subsection \<open>Parsers\<close>

definition readOptInteger ::
  "jobj \<Rightarrow> string \<Rightarrow> int \<Rightarrow> int \<Rightarrow> jstr \<Rightarrow> js_error + int option"
where
  "readOptInteger value key min' max' path =
     (if has_own value key
      then bindE (readInteger (field value key) min' max' path) (\<lambda>i. Inr (Some i))
      else Inr None)"

definition parseFailurePolicy :: "json \<Rightarrow> jstr \<Rightarrow> js_error + failure_policy" where
  "parseFailurePolicy value path =
     bindE (readObject value path) (\<lambda>policy.
     bindE (readKeys policy
       [''max_retries'', ''initial_delay_ms'', ''max_delay_ms'', ''network_error'',
        ''response_timeout'', ''http_status'']
       [''response_start_timeout_seconds'', ''thinking_signature_recovery'',
        ''openai_reasoning_recovery'', ''openai_function_output_recovery''] path) (\<lambda>_.
     bindE (readInteger (field policy ''initial_delay_ms'') 0 60000
              (at_field path ''initial_delay_ms'')) (\<lambda>initial.
     bindE (readOptBool policy ''thinking_signature_recovery''
              (fail_at (at_field path ''thinking_signature_recovery'') ''expected a boolean'')) (\<lambda>thinking.
     bindE (readOptBool policy ''openai_reasoning_recovery''
              (fail_at (at_field path ''openai_reasoning_recovery'') ''expected a boolean'')) (\<lambda>reasoning.
     bindE (readOptBool policy ''openai_function_output_recovery''
              (fail_at (at_field path ''openai_function_output_recovery'') ''expected a boolean'')) (\<lambda>output.
     bindE (readObject (field policy ''http_status'') (at_field path ''http_status'')) (\<lambda>statuses.
     bindE (mapE (\<lambda>_. readStatus path) 0 statuses) (\<lambda>http_status.
     bindE (readInteger (field policy ''max_retries'') 0 5 (at_field path ''max_retries'')) (\<lambda>retries.
     bindE (readInteger (field policy ''max_delay_ms'') initial 60000
              (at_field path ''max_delay_ms'')) (\<lambda>max_delay.
     bindE (readOptInteger policy ''response_start_timeout_seconds'' 0 86400
              (at_field path ''response_start_timeout_seconds'')) (\<lambda>start_timeout.
     bindE (readAction (field policy ''network_error'') (at_field path ''network_error'')) (\<lambda>network.
     bindE (readAction (field policy ''response_timeout'') (at_field path ''response_timeout'')) (\<lambda>timeout.
     Inr \<lparr>fp_max_retries = retries, fp_initial_delay_ms = initial, fp_max_delay_ms = max_delay,
          fp_response_start_timeout_seconds = start_timeout,
          fp_thinking_signature_recovery = thinking, fp_openai_reasoning_recovery = reasoning,
          fp_openai_function_output_recovery = output, fp_network_error = network,
          fp_response_timeout = timeout, fp_http_status = http_status\<rparr>)))))))))))))"

definition parseFailoverPolicy :: "json \<Rightarrow> jstr \<Rightarrow> js_error + failover_policy" where
  "parseFailoverPolicy value path =
     bindE (readObject value path) (\<lambda>policy.
     bindE (readKeys policy [''enabled'', ''strategy'', ''max_attempts''] [] path) (\<lambda>_.
     bindE (orThrow (fail_at path ''invalid switch or strategy'')
              (jbool (field policy ''enabled''))) (\<lambda>enabled.
     bindE (orThrow (fail_at path ''invalid switch or strategy'')
              (enum_of strategies strategy_name (field policy ''strategy''))) (\<lambda>strategy.
     bindE (readInteger (field policy ''max_attempts'') 1 20 (at_field path ''max_attempts'')) (\<lambda>attempts.
     Inr \<lparr>fo_enabled = enabled, fo_strategy = strategy, fo_max_attempts = attempts\<rparr>)))))"

definition parseModelRedirect :: "nat \<Rightarrow> json \<Rightarrow> js_error + model_redirect" where
  "parseModelRedirect index item =
     (let path = at_index (js ''model_redirects'') index;
          e = fail_at path ''invalid model redirect'' in
      bindE (readObject item path) (\<lambda>redirect.
      bindE (readKeys redirect [''from'', ''to'', ''enabled''] [] path) (\<lambda>_.
      bindE (orThrow e (jstring (field redirect ''from''))) (\<lambda>from.
      bindE (orThrow e (jstring (field redirect ''to''))) (\<lambda>to.
      bindE (orThrow e (jbool (field redirect ''enabled''))) (\<lambda>enabled.
      Inr \<lparr>mr_from = from, mr_to = to, mr_enabled = enabled\<rparr>))))))"

definition parseModelRedirects :: "json \<Rightarrow> js_error + model_redirect list" where
  "parseModelRedirects value =
     (if value = JUndef then Inr []
      else bindE (orThrow (Error (js ''model_redirects: expected an array'')) (jarray value)) (\<lambda>items.
           bindE (throwIf (length items > maxModelRedirects)
                    (Error (js ''model_redirects: expected an array''))) (\<lambda>_.
           bindE (mapE parseModelRedirect 0 items) (\<lambda>redirects.
           bindE (throwIf (list_ex (\<lambda>issue. issue \<noteq> None) (modelRedirectIssues redirects))
                    (Error (js ''model_redirects: invalid model redirect''))) (\<lambda>_.
           Inr redirects)))))"

datatype learned_client = Codex | Claude | Grok

fun learned_client_name :: "learned_client \<Rightarrow> string" where
  "learned_client_name Codex = ''codex''"
| "learned_client_name Claude = ''claude''"
| "learned_client_name Grok = ''grok''"

fun client_version_key :: "learned_client \<Rightarrow> identity_version_key" where
  "client_version_key Codex = CodexIdentityVersion"
| "client_version_key Claude = ClaudeIdentityVersion"
| "client_version_key Grok = GrokIdentityVersion"

record client_identity_status =
  ci_learned_version :: "jstr option"
  ci_builtin_version :: jstr

type_synonym client_identities = "learned_client \<Rightarrow> client_identity_status"

definition checkClientVersion ::
  "learned_client \<Rightarrow> jobj \<Rightarrow> jstr \<Rightarrow> string \<Rightarrow> js_error + unit"
where
  "checkClientVersion client status path key =
     (if has_own status key
      then let e = fail_at (at_field path key) ''invalid client version'' in
        bindE (orThrow e (jstring (field status key))) (\<lambda>version.
        throwIf (version = [] \<or> \<not> validIdentityVersion (client_version_key client) version) e)
      else Inr ())"

text \<open>
  The built-in version is required and checked by the loop, so reading it back as a string
  cannot fail.
\<close>

definition parseClientIdentity ::
  "jobj \<Rightarrow> learned_client \<Rightarrow> js_error + client_identity_status"
where
  "parseClientIdentity identities client =
     (let path = at_field (js ''client_identities'') (learned_client_name client) in
      bindE (readObject (field identities (learned_client_name client)) path) (\<lambda>status.
      bindE (readKeys status [''builtin_version''] [''learned_version''] path) (\<lambda>_.
      bindE (forE (checkClientVersion client status path)
               [''builtin_version'', ''learned_version'']) (\<lambda>_.
      bindE (orThrow (fail_at (at_field path ''builtin_version'') ''invalid client version'')
               (jstring (field status ''builtin_version''))) (\<lambda>builtin.
      Inr \<lparr>ci_learned_version = jstring (field status ''learned_version''),
           ci_builtin_version = builtin\<rparr>)))))"

definition parseClientIdentities :: "json \<Rightarrow> js_error + client_identities" where
  "parseClientIdentities value =
     bindE (readObject value (js ''client_identities'')) (\<lambda>identities.
     bindE (readKeys identities [''codex'', ''claude'', ''grok''] [] (js ''client_identities'')) (\<lambda>_.
     bindE (parseClientIdentity identities Codex) (\<lambda>codex.
     bindE (parseClientIdentity identities Claude) (\<lambda>claude.
     bindE (parseClientIdentity identities Grok) (\<lambda>grok.
     Inr (\<lambda>client. case client of Codex \<Rightarrow> codex | Claude \<Rightarrow> claude | Grok \<Rightarrow> grok))))))"

definition parseImageCompression :: "json \<Rightarrow> js_error + image_compression" where
  "parseImageCompression value =
     (if value = JUndef then Inr defaultImageCompression
      else
        bindE (readObject value (js ''image_compression'')) (\<lambda>settings.
        bindE (readKeys settings [''enabled'', ''mode'', ''quality''] [] (js ''image_compression'')) (\<lambda>_.
        bindE (orThrow (Error (js ''image_compression.enabled: expected a boolean''))
                 (jbool (field settings ''enabled''))) (\<lambda>enabled.
        bindE (orThrow (Error (js ''image_compression.mode: unknown mode''))
                 (enum_of imageCompressionModes compression_mode_name (field settings ''mode''))) (\<lambda>mode.
        bindE (readInteger (field settings ''quality'') 1 100 (js ''image_compression.quality'')) (\<lambda>quality.
        Inr \<lparr>ic_enabled = enabled, ic_mode = mode, ic_quality = quality\<rparr>))))))"

text \<open>The checks of \<open>parseRoutingSettings\<close>, each in its own definition, in the code's order.\<close>

definition checkSwitch :: "jobj \<Rightarrow> forwarding_switch_key \<Rightarrow> js_error + unit" where
  "checkSwitch settings key =
     throwIf (has_own settings (forwarding_switch_name key)
              \<and> jbool (field settings (forwarding_switch_name key)) = None)
       (fail_at (js (forwarding_switch_name key)) ''expected a boolean'')"

definition checkPromptText :: "jobj \<Rightarrow> string \<Rightarrow> js_error + unit" where
  "checkPromptText settings key =
     throwIf (has_own settings key
              \<and> (case jstring (field settings key) of
                   None \<Rightarrow> True
                 | Some text \<Rightarrow> length (code_points text) > maxSystemPromptLength))
       (Error (js key @ js '': expected text of at most '' @ dec maxSystemPromptLength
               @ js '' characters''))"

definition checkEnum :: "'a list \<Rightarrow> ('a \<Rightarrow> string) \<Rightarrow> string \<Rightarrow> jobj \<Rightarrow> string \<Rightarrow> js_error + unit" where
  "checkEnum members name message settings key =
     throwIf (has_own settings key \<and> enum_of members name (field settings key) = None)
       (fail_at (js key) message)"

definition readVersion :: "jobj \<Rightarrow> identity_version_key \<Rightarrow> js_error + jstr option" where
  "readVersion settings key =
     (let name = identity_version_name key; e = fail_at (js name) ''invalid client version'' in
      if \<not> has_own settings name then Inr None
      else bindE (orThrow e (jstring (field settings name))) (\<lambda>version.
           bindE (throwIf (\<not> validIdentityVersion key version) e) (\<lambda>_.
           Inr (if version \<noteq> [] then Some version else None))))"

definition parseStickiness :: "json \<Rightarrow> js_error + channel_stickiness option" where
  "parseStickiness v =
     (if v = JUndef then Inr None
      else
        bindE (readObject v (js ''channel_stickiness'')) (\<lambda>value.
        bindE (readKeys value [''enabled'', ''ttl_seconds''] [] (js ''channel_stickiness'')) (\<lambda>_.
        bindE (orThrow (Error (js ''invalid channel stickiness''))
                 (jbool (field value ''enabled''))) (\<lambda>enabled.
        bindE (orThrow (Error (js ''invalid channel stickiness''))
                 (any_int (field value ''ttl_seconds''))) (\<lambda>ttl.
        bindE (throwIf (ttl < 60 \<or> ttl > 86400) (Error (js ''invalid channel stickiness''))) (\<lambda>_.
        Inr (Some \<lparr>cs_enabled = enabled, cs_ttl_seconds = ttl\<rparr>)))))))"

text \<open>\<open>/^[a-z][a-z0-9]*(?:[._-][a-z0-9]+)*$/\<close>\<close>

definition protocol_id_rx :: rx where
  "protocol_id_rx =
     (let word = Cls (\<lambda>c. is_lower c \<or> is_digit c) in
      Seq (Cls is_lower) (Seq (Many word)
        (Many (Seq (Cls (\<lambda>c. c \<in> set (js ''._-''))) (plus_rx word)))))"

definition readRecoveryPath :: "jstr \<times> json \<Rightarrow> js_error + jstr \<times> jstr" where
  "readRecoveryPath entry =
     (let e = Error (js ''invalid default recovery path'') in
      bindE (throwIf (\<not> matches protocol_id_rx (fst entry)) e) (\<lambda>_.
      bindE (orThrow e (jstring (snd entry))) (\<lambda>id.
      bindE (throwIf (\<not> matches resource_id_rx id) e) (\<lambda>_.
      Inr (fst entry, id)))))"

definition parseRecoveryPaths :: "json \<Rightarrow> js_error + (jstr \<times> jstr) list option" where
  "parseRecoveryPaths v =
     (if v = JUndef then Inr None
      else bindE (readObject v (js ''default_recovery_paths'')) (\<lambda>defaults.
           bindE (mapE (\<lambda>_. readRecoveryPath) 0 defaults) (\<lambda>paths. Inr (Some paths))))"

definition readLevel :: "jobj \<Rightarrow> string \<Rightarrow> reasoning_level option" where
  "readLevel settings key = enum_of reasoningLevels reasoning_level_name (field settings key)"

definition routing_required :: "string list" where
  "routing_required =
     [''allow_unmatched_failover'', ''strategy'', ''max_attempts'', ''default_failure_policy'']"

definition routing_optional :: "string list" where
  "routing_optional =
     [''default_recovery_paths'', ''channel_stickiness'', ''model_redirects'', ''builtin_tools'',
      ''image_compression'']
     @ map forwarding_switch_name forwardingSwitchKeys
     @ map identity_version_name identityVersionKeys
     @ thinkingPromptKeys"

text \<open>
  The document a caller gets: every optional member the parser defaults is present. The
  argument \<open>url\<close> is the host's URL parser, which the built-in tools' settings need.
\<close>

definition parseRoutingSettings :: "url_parser \<Rightarrow> json \<Rightarrow> js_error + routing_settings" where
  "parseRoutingSettings url value =
     bindE (readObject value (js ''routing_settings'')) (\<lambda>settings.
     bindE (readKeys settings routing_required routing_optional (js ''routing_settings'')) (\<lambda>_.
     bindE (parseImageCompression (field settings ''image_compression'')) (\<lambda>imageCompression.
     bindE (parseModelRedirects (field settings ''model_redirects'')) (\<lambda>redirects.
     bindE (parseFailoverPolicy
              (JObj [(js ''enabled'', field settings ''allow_unmatched_failover''),
                     (js ''strategy'', field settings ''strategy''),
                     (js ''max_attempts'', field settings ''max_attempts'')])
              (js ''failover'')) (\<lambda>parsed.
     bindE (forE (checkSwitch settings) forwardingSwitchKeys) (\<lambda>_.
     bindE (readOptBool settings ''system_prompt_enabled''
              (Error (js ''system_prompt_enabled: expected a boolean''))) (\<lambda>promptEnabled.
     bindE (forE (checkPromptText settings) systemPromptTextKeys) (\<lambda>_.
     bindE (checkEnum reasoningModes reasoning_mode_name ''unknown mode'' settings ''reasoning_mode'') (\<lambda>_.
     bindE (forE (checkEnum reasoningLevels reasoning_level_name ''unknown level'' settings)
              [''reasoning_level'', ''adaptive_min'', ''adaptive_max'']) (\<lambda>_.
     bindE (checkEnum adaptivePresets adaptive_preset_name ''unknown preset'' settings ''adaptive_preset'') (\<lambda>_.
     let adaptiveMin = nullish (readLevel settings ''adaptive_min'') LevelLow;
         adaptiveMax = nullish (readLevel settings ''adaptive_max'') LevelMax in
     bindE (throwIf (level_index adaptiveMin > level_index adaptiveMax)
              (Error (js ''adaptive_min: must be at most adaptive_max''))) (\<lambda>_.
     bindE (readVersion settings CodexIdentityVersion) (\<lambda>codexVersion.
     bindE (readVersion settings ClaudeIdentityVersion) (\<lambda>claudeVersion.
     bindE (readVersion settings GrokIdentityVersion) (\<lambda>grokVersion.
     bindE (parseStickiness (field settings ''channel_stickiness'')) (\<lambda>stickiness.
     bindE (parseRecoveryPaths (field settings ''default_recovery_paths'')) (\<lambda>defaults.
     bindE (if field settings ''builtin_tools'' \<noteq> JUndef
            then bindE (parseBuiltinTools url (field settings ''builtin_tools'')) (\<lambda>t. Inr (Some t))
            else Inr None) (\<lambda>tools.
     bindE (parseFailurePolicy (field settings ''default_failure_policy'') (js ''failure_policy'')) (\<lambda>policy.
     Inr \<lparr>rs_builtin_tools = tools,
          rs_forwarding =
            (\<lambda>key. Some (nullish (jbool (field settings (forwarding_switch_name key))) True)),
          rs_identity_version =
            (\<lambda>key. case key of CodexIdentityVersion \<Rightarrow> codexVersion
                   | ClaudeIdentityVersion \<Rightarrow> claudeVersion | GrokIdentityVersion \<Rightarrow> grokVersion),
          rs_system_prompt_enabled = Some (nullish promptEnabled False),
          rs_system_prompt_prefix = Some (nullish (jstring (field settings ''system_prompt_prefix'')) []),
          rs_system_prompt_suffix = Some (nullish (jstring (field settings ''system_prompt_suffix'')) []),
          rs_reasoning_mode = Some (nullish
            (enum_of reasoningModes reasoning_mode_name (field settings ''reasoning_mode'')) Passthrough),
          rs_reasoning_level = Some (nullish (readLevel settings ''reasoning_level'') LevelMedium),
          rs_adaptive_preset = Some (nullish
            (enum_of adaptivePresets adaptive_preset_name (field settings ''adaptive_preset'')) Everyday),
          rs_adaptive_min = Some adaptiveMin,
          rs_adaptive_max = Some adaptiveMax,
          rs_image_compression = Some imageCompression,
          rs_model_redirects = Some redirects,
          rs_channel_stickiness = stickiness,
          rs_default_recovery_paths = defaults,
          rs_default_failure_policy = policy,
          rs_allow_unmatched_failover = fo_enabled parsed,
          rs_strategy = fo_strategy parsed,
          rs_max_attempts = fo_max_attempts parsed\<rparr>)))))))))))))))))))"

section \<open>Facts about the readers\<close>

lemma readInteger_eq_Inr [res]:
  "readInteger v lo hi path = Inr i \<longleftrightarrow> v = jint i \<and> lo \<le> i \<and> i \<le> hi \<and> \<bar>i\<bar> \<le> max_safe"
  by (auto simp: readInteger_def Let_def res jsval)

lemma readInteger_jint [simp]:
  "lo \<le> i \<Longrightarrow> i \<le> hi \<Longrightarrow> \<bar>i\<bar> \<le> max_safe \<Longrightarrow> readInteger (jint i) lo hi path = Inr i"
  by (simp add: res)

lemma readOptInteger_range:
  "readOptInteger o' k lo hi path = Inr x \<Longrightarrow> pred_option (\<lambda>i. lo \<le> i \<and> i \<le> hi) x"
  by (auto simp: readOptInteger_def res split: if_splits)

lemma readOptInteger_opt_val:
  "field o' k = opt_val jint x \<Longrightarrow> has_own o' k \<longleftrightarrow> x \<noteq> None \<Longrightarrow> 0 \<le> lo \<Longrightarrow> hi \<le> max_safe \<Longrightarrow>
    pred_option (\<lambda>i. lo \<le> i \<and> i \<le> hi) x \<Longrightarrow> readOptInteger o' k lo hi path = Inr x"
  by (cases x) (auto simp: readOptInteger_def)

lemma readOptBool_opt_val:
  "field o' k = opt_val JBool b \<Longrightarrow> has_own o' k \<longleftrightarrow> b \<noteq> None \<Longrightarrow> readOptBool o' k e = Inr b"
  by (cases b) (auto simp: readOptBool_def jbool_def)

lemma readAction_eq_Inr [res]: "readAction v path = Inr a \<longleftrightarrow> v = js_str (failure_action_name a)"
  by (simp add: readAction_def res failure_action_enum.enum_of_Some)

lemma readAction_name [simp]: "readAction (js_str (failure_action_name a)) path = Inr a"
  by (simp add: res)

lemma readStatus_eq_Inr [res]:
  "readStatus path e = Inr y \<longleftrightarrow> matches status_code_rx (fst e) \<and> fst y = fst e
     \<and> snd e = js_str (failure_action_name (snd y))"
  by (cases y) (auto simp: readStatus_def res)

lemma statuses_ok:
  "mapE (\<lambda>_. readStatus path) n es = Inr ys \<Longrightarrow> list_all (\<lambda>e. matches status_code_rx (fst e)) ys"
  by (erule mapE_list_all) (simp add: res)

lemma readObject_JObj [simp]: "readObject (JObj o') path = Inr o'"
  by (simp add: readObject_def)

lemma readKeys_eq_Inr [res]:
  "readKeys o' required optional path = Inr u \<longleftrightarrow>
     list_all (has_own o') required \<and> keys_in o' (required @ optional)"
  by (simp add: readKeys_def res)

lemma readKeys_ok:
  "list_all (has_own o') required \<Longrightarrow> keys_in o' (required @ optional) \<Longrightarrow>
    readKeys o' required optional path = Inr ()"
  by (simp add: res)

lemma max_safe_le [simp]: "i \<le> 86400 \<Longrightarrow> i \<le> max_safe"
  by (simp add: max_safe_def)

section \<open>Failure policies\<close>

text \<open>What a failure policy promises: the ranges of its numbers and the form of its statuses.\<close>

definition failure_policy_ok :: "failure_policy \<Rightarrow> bool" where
  "failure_policy_ok p \<longleftrightarrow>
     0 \<le> fp_max_retries p \<and> fp_max_retries p \<le> 5
     \<and> 0 \<le> fp_initial_delay_ms p \<and> fp_initial_delay_ms p \<le> fp_max_delay_ms p
     \<and> fp_max_delay_ms p \<le> 60000
     \<and> pred_option (\<lambda>t. 0 \<le> t \<and> t \<le> 86400) (fp_response_start_timeout_seconds p)
     \<and> list_all (\<lambda>e. matches status_code_rx (fst e)) (fp_http_status p)"

definition statuses_json :: "(jstr \<times> failure_action) list \<Rightarrow> json" where
  "statuses_json es = JObj (map (\<lambda>(code, a). (code, js_str (failure_action_name a))) es)"

definition failure_policy_json :: "failure_policy \<Rightarrow> json" where
  "failure_policy_json p = JObj
     ([(js ''max_retries'', jint (fp_max_retries p))]
      @ opt_field ''thinking_signature_recovery'' JBool (fp_thinking_signature_recovery p)
      @ opt_field ''openai_reasoning_recovery'' JBool (fp_openai_reasoning_recovery p)
      @ opt_field ''openai_function_output_recovery'' JBool (fp_openai_function_output_recovery p)
      @ [(js ''initial_delay_ms'', jint (fp_initial_delay_ms p)),
         (js ''max_delay_ms'', jint (fp_max_delay_ms p))]
      @ opt_field ''response_start_timeout_seconds'' jint (fp_response_start_timeout_seconds p)
      @ [(js ''network_error'', js_str (failure_action_name (fp_network_error p))),
         (js ''response_timeout'', js_str (failure_action_name (fp_response_timeout p))),
         (js ''http_status'', statuses_json (fp_http_status p))])"

lemma parseFailurePolicy_ok: "parseFailurePolicy v path = Inr p \<Longrightarrow> failure_policy_ok p"
  unfolding parseFailurePolicy_def
  by (elim bindE_InrE, drule statuses_ok, drule readOptInteger_range)
    (clarsimp simp: failure_policy_ok_def readInteger_eq_Inr)

lemma mapE_statuses:
  assumes "list_all (\<lambda>e. matches status_code_rx (fst e)) es"
  shows "mapE (\<lambda>_. readStatus path) 0
           (map (\<lambda>(code, a). (code, js_str (failure_action_name a))) es) = Inr es"
  using assms by (intro mapE_map_Inr) (auto simp: list_all_iff res)

lemma parseFailurePolicy_json:
  assumes "failure_policy_ok p"
  shows "parseFailurePolicy (failure_policy_json p) path = Inr p"
  using assms
  by (simp add: parseFailurePolicy_def failure_policy_json_def failure_policy_ok_def readKeys_ok
      statuses_json_def readOptBool_opt_val readOptInteger_opt_val mapE_statuses)

interpretation failure_policies: json_codec parseFailurePolicy failure_policy_json failure_policy_ok
  by unfold_locales (fact parseFailurePolicy_ok parseFailurePolicy_json)+

text \<open>The pattern of a status code names exactly the codes of the message.\<close>

lemma status_code_units:
  "matches status_code_rx s \<longleftrightarrow>
     (\<exists>a b c. s = [a, b, c] \<and> (a = 52 \<or> a = 53) \<and> is_digit b \<and> is_digit c)"
  unfolding status_code_rx_def matches_head_tail
  by (fastforce simp: numeral_2_eq_2 length_Suc_conv le_antisym)

lemma dec_three: "100 \<le> n \<Longrightarrow> n < 1000 \<Longrightarrow> dec n = [48 + n div 100, 48 + n div 10 mod 10, 48 + n mod 10]"
  by (subst dec.simps, simp, subst dec.simps, simp, subst dec.simps) auto

lemma status_code_iff: "matches status_code_rx s \<longleftrightarrow> (\<exists>n. 400 \<le> n \<and> n \<le> 599 \<and> s = dec n)"
proof
  assume "matches status_code_rx s"
  then obtain a b c where s: "s = [a, b, c]" "a = 52 \<or> a = 53" "is_digit b" "is_digit c"
    unfolding status_code_units by blast
  define h i j where "h = a - 48" and "i = b - 48" and "j = c - 48"
  have abc: "a = 48 + h" "b = 48 + i" "c = 48 + j" and hij: "h = 4 \<or> h = 5" "i < 10" "j < 10"
    using s unfolding h_def i_def j_def is_digit_def by auto
  define n where "n = 10 * (10 * h + i) + j"
  have n10: "n div 10 = 10 * h + i" "n mod 10 = j"
    using hij(2,3) unfolding n_def by (auto simp only: div_mult_self4 mod_mult_self4 div_less mod_less)
  have "n div 100 = n div 10 div 10" by (simp add: div_mult2_eq [symmetric])
  also have "\<dots> = h" using hij n10 by simp
  finally have n100: "n div 100 = h" .
  have range: "400 \<le> n" "n \<le> 599"
    using hij unfolding n_def by auto
  then have "s = dec n" using n10 n100 hij s abc by (simp add: dec_three)
  with range show "\<exists>n. 400 \<le> n \<and> n \<le> 599 \<and> s = dec n" by blast
next
  assume "\<exists>n. 400 \<le> n \<and> n \<le> 599 \<and> s = dec n"
  then obtain n where n: "400 \<le> n" "n \<le> 599" and s: "s = dec n" by blast
  have "s = [48 + n div 100, 48 + n div 10 mod 10, 48 + n mod 10]"
    using n s by (simp add: dec_three)
  moreover have "n div 100 = 4 \<or> n div 100 = 5" using n by auto
  ultimately show "matches status_code_rx s"
    by (auto simp: status_code_units is_digit_def)
qed

section \<open>Redirect tables\<close>

text \<open>The lookup routing does: the first enabled rule whose source is the model.\<close>

definition follow_redirect :: "model_redirect list \<Rightarrow> jstr \<Rightarrow> jstr" where
  "follow_redirect rs m =
     (case List.find (\<lambda>r. mr_enabled r \<and> mr_from r = m) rs of None \<Rightarrow> m | Some r \<Rightarrow> mr_to r)"

definition redirects_ok :: "model_redirect list \<Rightarrow> bool" where
  "redirects_ok rs \<longleftrightarrow> length rs \<le> maxModelRedirects \<and> list_all (\<lambda>r. redirect_issue rs r = None) rs"

lemma redirect_issue_None:
  "redirect_issue rs r = None \<longleftrightarrow>
     mr_from r \<noteq> [] \<and> mr_to r \<noteq> []
     \<and> list_all (\<lambda>m. length (code_points m) \<le> maxRedirectModelLength
          \<and> \<not> hasControlCharacter m \<and> \<not> edgeSpace m) [mr_from r, mr_to r]
     \<and> mr_from r \<noteq> mr_to r \<and> mr_to r \<noteq> astrlinkAutoModelId
     \<and> count_list (map mr_from rs) (mr_from r) \<le> 1 \<and> mr_to r \<notin> mr_from ` set rs"
  by (auto simp: redirect_issue_def Let_def not_le)

lemma distinct_if_count_le_1: "(\<And>x. x \<in> set xs \<Longrightarrow> count_list xs x \<le> 1) \<Longrightarrow> distinct xs"
proof (induction xs)
  case Nil
  then show ?case by simp
next
  case (Cons x xs)
  have "x \<notin> set xs" using Cons.prems [of x] by (auto simp: count_list_0_iff)
  moreover have "count_list xs y \<le> 1" if "y \<in> set xs" for y
    using Cons.prems [of y] that by (auto split: if_splits)
  ultimately show ?case using Cons.IH by simp
qed

lemma redirects_ok_distinct: "redirects_ok rs \<Longrightarrow> distinct (map mr_from rs)"
  by (rule distinct_if_count_le_1) (auto simp: redirects_ok_def list_all_iff redirect_issue_None)

lemma redirects_ok_unchained:
  "redirects_ok rs \<Longrightarrow> r \<in> set rs \<Longrightarrow> r' \<in> set rs \<Longrightarrow> mr_to r \<noteq> mr_from r'"
  by (auto simp: redirects_ok_def list_all_iff redirect_issue_None)

lemma follow_redirect_idem:
  assumes "redirects_ok rs"
  shows "follow_redirect rs (follow_redirect rs m) = follow_redirect rs m"
proof (cases "List.find (\<lambda>r. mr_enabled r \<and> mr_from r = m) rs")
  case None
  then show ?thesis by (simp add: follow_redirect_def)
next
  case (Some r)
  then have r: "r \<in> set rs" by (auto simp: find_Some_iff)
  have "List.find (\<lambda>r'. mr_enabled r' \<and> mr_from r' = mr_to r) rs = None"
    using redirects_ok_unchained [OF assms r] by (force simp: find_None_all)
  with Some show ?thesis by (simp add: follow_redirect_def)
qed

lemma parseModelRedirects_ok: "parseModelRedirects v = Inr rs \<Longrightarrow> redirects_ok rs"
  by (auto simp: parseModelRedirects_def redirects_ok_def modelRedirectIssues_def list_ex_iff
      list_all_iff res maxModelRedirects_def dest!: mapE_length split: if_splits)

definition redirects_json :: "model_redirect list \<Rightarrow> json" where
  "redirects_json rs = JArr (map (\<lambda>r. JObj [(js ''from'', JStr (mr_from r)),
     (js ''to'', JStr (mr_to r)), (js ''enabled'', JBool (mr_enabled r))]) rs)"

lemma parseModelRedirects_json: "redirects_ok rs \<Longrightarrow> parseModelRedirects (redirects_json rs) = Inr rs"
proof -
  assume ok: "redirects_ok rs"
  have "mapE parseModelRedirect 0 (map (\<lambda>r. JObj [(js ''from'', JStr (mr_from r)),
      (js ''to'', JStr (mr_to r)), (js ''enabled'', JBool (mr_enabled r))]) rs) = Inr rs"
    by (rule mapE_map_Inr) (simp add: parseModelRedirect_def readKeys_ok)
  with ok show ?thesis
    by (auto simp: parseModelRedirects_def redirects_json_def redirects_ok_def list_all_iff
        list_ex_iff modelRedirectIssues_def bindE_throwIf)
qed

interpretation model_redirects: json_codec "\<lambda>v _. parseModelRedirects v" redirects_json redirects_ok
  by unfold_locales (fact parseModelRedirects_ok parseModelRedirects_json)+

section \<open>Identity versions\<close>

definition version_text :: "nat \<Rightarrow> nat \<Rightarrow> nat \<Rightarrow> jstr \<Rightarrow> jstr" where
  "version_text a b c tag = dec a @ js ''.'' @ dec b @ js ''.'' @ dec c @ tag"

definition prerelease_tag :: "jstr \<Rightarrow> bool" where
  "prerelease_tag tag \<longleftrightarrow>
     tag = [] \<or> (\<exists>w. tag = js ''-'' @ w \<and> w \<noteq> [] \<and> list_all version_tag_unit w)"

lemma dec_not_Nil [simp]: "dec n \<noteq> []"
  by (subst dec.simps) simp

lemma takeWhile_dec: "(s = [] \<or> \<not> is_digit (hd s)) \<Longrightarrow> takeWhile is_digit (dec n @ s) = dec n"
  by (cases s) (auto simp: takeWhile_append2 dec_digits)

lemma dropWhile_dec: "(s = [] \<or> \<not> is_digit (hd s)) \<Longrightarrow> dropWhile is_digit (dec n @ s) = s"
  by (cases s) (auto simp: dropWhile_append2 dec_digits)

lemma read_digits_dec: "s = [] \<or> \<not> is_digit (hd s) \<Longrightarrow> read_digits (dec n @ s) = Some (dec n, s)"
  by (simp add: read_digits_def takeWhile_dec dropWhile_dec)

lemma read_chr_js [simp]: "read_chr x (js (y # ys) @ s) = (if x = y then Some (js ys @ s) else None)"
  by (auto simp: read_chr_def js_def is_chr_def)

lemma js_dot: "js ''.'' @ s = 46 # s" "js ''-'' @ s = 45 # s" "js [] = []"
  by (simp_all add: js_def)

lemma read_tag_prerelease:
  assumes "prerelease_tag tag"
  shows "read_tag CHR ''-'' tag = Some (if tag = [] then None else Some tag, [])"
proof (cases "tag = []")
  case True
  then show ?thesis by (simp add: read_tag_def read_chr_def)
next
  case False
  with assms obtain w where tag: "tag = js ''-'' @ w" and w: "w \<noteq> []" "list_all version_tag_unit w"
    by (auto simp: prerelease_tag_def)
  have "takeWhile version_tag_unit w = w" "dropWhile version_tag_unit w = []"
    using w(2) by (auto simp: list_all_iff)
  then show ?thesis
    using w(1) by (simp add: tag read_tag_def js_dot(3) Let_def del: takeWhile_eq_all_conv) (simp add: js_def)
qed

lemma match_version_text:
  assumes "prerelease_tag tag"
  shows "match_identity_version (version_text a b c tag) =
    Some (dec a, dec b, dec c, if tag = [] then None else Some tag)"
proof -
  have "tag = [] \<or> \<not> is_digit (hd tag)"
    using assms by (auto simp: prerelease_tag_def js_dot is_digit_def)
  then have "read_digits (dec c @ tag) = Some (dec c, tag)" by (rule read_digits_dec)
  moreover have "read_digits (dec n @ js ''.'' @ s) = Some (dec n, js ''.'' @ s)" for n s
    by (rule read_digits_dec) (simp add: js_dot is_digit_def)
  ultimately show ?thesis
    using read_tag_prerelease [OF assms]
    by (simp add: match_identity_version_def version_text_def js_dot(3) read_tag_def [of "CHR ''+''"]
        read_chr_def [of "CHR ''+''"])
qed


section \<open>Settings documents\<close>

definition compression_ok :: "image_compression \<Rightarrow> bool" where
  "compression_ok c \<longleftrightarrow> 1 \<le> ic_quality c \<and> ic_quality c \<le> 100"

definition routing_settings_ok :: "url_parser \<Rightarrow> routing_settings \<Rightarrow> bool" where
  "routing_settings_ok url s \<longleftrightarrow>
     pred_option (tools_ok url) (rs_builtin_tools s)
     \<and> (\<forall>k. rs_forwarding s k \<noteq> None)
     \<and> (\<forall>k. pred_option (\<lambda>v. v \<noteq> [] \<and> validIdentityVersion k v) (rs_identity_version s k))
     \<and> pred_option (\<lambda>t. length (code_points t) \<le> maxSystemPromptLength) (rs_system_prompt_prefix s)
     \<and> pred_option (\<lambda>t. length (code_points t) \<le> maxSystemPromptLength) (rs_system_prompt_suffix s)
     \<and> (\<exists>lo hi. rs_adaptive_min s = Some lo \<and> rs_adaptive_max s = Some hi \<and> level_index lo \<le> level_index hi)
     \<and> pred_option compression_ok (rs_image_compression s)
     \<and> pred_option redirects_ok (rs_model_redirects s)
     \<and> pred_option (\<lambda>c. 60 \<le> cs_ttl_seconds c \<and> cs_ttl_seconds c \<le> 86400) (rs_channel_stickiness s)
     \<and> pred_option (list_all (\<lambda>(p, i). matches protocol_id_rx p \<and> matches resource_id_rx i))
          (rs_default_recovery_paths s)
     \<and> failure_policy_ok (rs_default_failure_policy s)
     \<and> 1 \<le> rs_max_attempts s \<and> rs_max_attempts s \<le> 20"

lemma parseImageCompression_ok: "parseImageCompression v = Inr c \<Longrightarrow> compression_ok c"
  by (auto simp: parseImageCompression_def compression_ok_def defaultImageCompression_def res split: if_splits)

lemma parseFailoverPolicy_ok:
  "parseFailoverPolicy v path = Inr p \<Longrightarrow> 1 \<le> fo_max_attempts p \<and> fo_max_attempts p \<le> 20"
  unfolding parseFailoverPolicy_def by (elim bindE_InrE) (clarsimp simp: res)

lemma readVersion_ok:
  "readVersion settings key = Inr x \<Longrightarrow> pred_option (\<lambda>v. v \<noteq> [] \<and> validIdentityVersion key v) x"
  by (auto simp: readVersion_def Let_def res split: if_splits)

lemma parseStickiness_ok:
  "parseStickiness v = Inr x \<Longrightarrow>
    pred_option (\<lambda>c. 60 \<le> cs_ttl_seconds c \<and> cs_ttl_seconds c \<le> 86400) x"
  by (auto simp: parseStickiness_def res split: if_splits)

lemma readRecoveryPath_ok:
  "readRecoveryPath e = Inr p \<Longrightarrow> matches protocol_id_rx (fst p) \<and> matches resource_id_rx (snd p)"
  by (auto simp: readRecoveryPath_def Let_def res)

lemma readRecoveryPath_pair:
  "readRecoveryPath e = Inr (p, i) \<Longrightarrow> matches protocol_id_rx p \<and> matches resource_id_rx i"
  using readRecoveryPath_ok by fastforce

lemma parseRecoveryPaths_ok:
  "parseRecoveryPaths v = Inr x \<Longrightarrow>
    pred_option (list_all (\<lambda>(p, i). matches protocol_id_rx p \<and> matches resource_id_rx i)) x"
  by (auto simp: parseRecoveryPaths_def res case_prod_beta split: if_splits
      intro!: mapE_list_all dest: readRecoveryPath_pair)

lemma checkPromptTexts_ok:
  assumes "forE (checkPromptText settings) systemPromptTextKeys = Inr u"
    and "key \<in> set systemPromptTextKeys"
  shows "length (code_points (nullish (jstring (field settings key)) [])) \<le> maxSystemPromptLength"
  using assms by (cases "jstring (field settings key)")
    (auto simp: res checkPromptText_def nullish_def dest: field_has_own)

lemma parseBuiltinTools_ok: "parseBuiltinTools url v = Inr ts \<Longrightarrow> tools_ok url ts"
  by (rule builtin_tools.parse_valid)

lemma optional_tools_ok:
  "(if v \<noteq> JUndef then bindE (parseBuiltinTools url v) (\<lambda>t. Inr (Some t)) else Inr None) = Inr x \<Longrightarrow>
    pred_option (tools_ok url) x"
  by (auto simp: res dest: parseBuiltinTools_ok split: if_splits)

lemma nullish_Some_text: "pred_option P (Some (nullish x [])) \<longleftrightarrow> P (nullish x [])"
  by simp

lemmas routing_parts_ok = parseImageCompression_ok parseModelRedirects_ok parseFailoverPolicy_ok
  readVersion_ok parseStickiness_ok parseRecoveryPaths_ok optional_tools_ok parseFailurePolicy_ok
  checkPromptTexts_ok

lemma parseRoutingSettings_valid:
  assumes "parseRoutingSettings url v = Inr s"
  shows "routing_settings_ok url s"
  using assms unfolding parseRoutingSettings_def Let_def
  apply (elim bindE_InrE)
  apply (drule parseImageCompression_ok parseModelRedirects_ok parseFailoverPolicy_ok
  readVersion_ok parseStickiness_ok parseRecoveryPaths_ok optional_tools_ok parseFailurePolicy_ok)+
  apply (frule checkPromptTexts_ok [where key = "''system_prompt_prefix''"], simp add: systemPromptTextKeys_def)
  apply (drule checkPromptTexts_ok [where key = "''system_prompt_suffix''"], simp add: systemPromptTextKeys_def)
  apply (clarsimp simp: routing_settings_ok_def throwIf_eq_Inr not_less split: identity_version_key.split)
  done


text \<open>What the readers make of an absent property.\<close>

lemma undefined_readers [simp]:
  "jbool JUndef = None" "jstring JUndef = None" "enum_of members name JUndef = None"
  "nullish None d = d" "nullish (Some x) d = x"
  by (simp_all add: jbool_def jstring_def enum_of_def nullish_def)

lemma absent_readers:
  assumes "\<not> has_own settings k"
  shows "readOptBool settings k e = Inr None" "checkPromptText settings k = Inr ()"
    "checkEnum members name message settings k = Inr ()" "readLevel settings k = None"
  using assms field_absent [OF assms]
  by (simp_all add: readOptBool_def checkPromptText_def checkEnum_def readLevel_def)

lemma absent_sections:
  "parseImageCompression JUndef = Inr defaultImageCompression"
  "parseModelRedirects JUndef = Inr []"
  "parseStickiness JUndef = Inr None" "parseRecoveryPaths JUndef = Inr None"
  by (simp_all add: parseImageCompression_def parseModelRedirects_def parseStickiness_def
      parseRecoveryPaths_def)

lemma absent_version: "\<not> has_own settings (identity_version_name k) \<Longrightarrow> readVersion settings k = Inr None"
  by (simp add: readVersion_def Let_def)

lemmas forwarding_keys = forwardingSwitchKeys_def identitySettingKeys_def
  subscriptionProtectionKeys_def identityLearningKeys_def

lemma forwarding_name_fresh: "forwarding_switch_name k \<notin> set routing_required"
  by (cases k; rename_tac x; case_tac x) (simp_all add: routing_required_def)

text \<open>The smallest document a core may send, and what the parser makes of it.\<close>

definition minimal_settings_json :: "bool \<Rightarrow> failover_strategy \<Rightarrow> int \<Rightarrow> failure_policy \<Rightarrow> json" where
  "minimal_settings_json unmatched strategy attempts policy = JObj
     [(js ''allow_unmatched_failover'', JBool unmatched),
      (js ''strategy'', js_str (strategy_name strategy)),
      (js ''max_attempts'', jint attempts),
      (js ''default_failure_policy'', failure_policy_json policy)]"

definition default_settings ::
  "bool \<Rightarrow> failover_strategy \<Rightarrow> int \<Rightarrow> failure_policy \<Rightarrow> routing_settings"
where
  "default_settings unmatched strategy attempts policy =
     \<lparr>rs_builtin_tools = None, rs_forwarding = (\<lambda>_. Some True), rs_identity_version = (\<lambda>_. None),
      rs_system_prompt_enabled = Some False, rs_system_prompt_prefix = Some [],
      rs_system_prompt_suffix = Some [], rs_reasoning_mode = Some Passthrough,
      rs_reasoning_level = Some LevelMedium, rs_adaptive_preset = Some Everyday,
      rs_adaptive_min = Some LevelLow, rs_adaptive_max = Some LevelMax,
      rs_image_compression = Some defaultImageCompression, rs_model_redirects = Some [],
      rs_channel_stickiness = None, rs_default_recovery_paths = None,
      rs_default_failure_policy = policy, rs_allow_unmatched_failover = unmatched,
      rs_strategy = strategy, rs_max_attempts = attempts\<rparr>"

lemma parse_minimal_settings:
  assumes "1 \<le> attempts" and "attempts \<le> 20" and "failure_policy_ok policy"
  shows "parseRoutingSettings url (minimal_settings_json unmatched strategy attempts policy)
    = Inr (default_settings unmatched strategy attempts policy)"
proof -
  let ?o = "[(js ''allow_unmatched_failover'', JBool unmatched),
      (js ''strategy'', js_str (strategy_name strategy)),
      (js ''max_attempts'', jint attempts),
      (js ''default_failure_policy'', failure_policy_json policy)]"
  have keys: "readKeys ?o routing_required routing_optional p = Inr ()" for p
    by (rule readKeys_ok) (simp_all add: routing_required_def)
  have failover: "parseFailoverPolicy
      (JObj [(js ''enabled'', JBool unmatched), (js ''strategy'', js_str (strategy_name strategy)),
             (js ''max_attempts'', jint attempts)]) p
      = Inr \<lparr>fo_enabled = unmatched, fo_strategy = strategy, fo_max_attempts = attempts\<rparr>" for p
    using assms(1,2) by (simp add: parseFailoverPolicy_def readKeys_ok strategy_enum.enum_of_name)
  have switches: "forE (checkSwitch ?o) forwardingSwitchKeys = Inr ()"
    by (simp add: forE_eq_Inr checkSwitch_def forwarding_keys)
  have unset: "field ?o (forwarding_switch_name k) = JUndef" for k
    using forwarding_name_fresh [of k] by (auto simp: routing_required_def)
  show ?thesis
    unfolding minimal_settings_json_def parseRoutingSettings_def default_settings_def
    by (simp add: keys failover switches unset [simplified] absent_readers absent_sections absent_version
        systemPromptTextKeys_def level_index_def reasoningLevels_def fun_eq_iff
        failure_policies.parse_render [OF assms(3)] split: identity_version_key.split)
qed

section \<open>Properties\<close>

lemma default_policy_ok: "failure_policy_ok defaultFailurePolicy"
  by (simp add: failure_policy_ok_def defaultFailurePolicy_def status_code_units js_def is_digit_def)

lemma default_document:
  "parseRoutingSettings url (minimal_settings_json True RetryFirst 6 defaultFailurePolicy)
    = Inr (default_settings True RetryFirst 6 defaultFailurePolicy)"
  by (rule parse_minimal_settings) (simp_all add: default_policy_ok)

text \<open>
  Every routing settings document the parser accepts satisfies the whole
  invariant of the settings: valid built-in tools, every forwarding switch present, client
  versions that validate, prompts within 20000 characters, an ordered adaptive range, a
  lossy quality from 1 to 100, an unchained redirect table, a stickiness window from a
  minute to a day, well-formed recovery paths, a valid failure policy and 1 to 20 attempts.
\<close>

theorem routing_settings_sound:
  assumes "parseRoutingSettings url v = Inr s"
  shows "routing_settings_ok url s"
  using assms by (rule parseRoutingSettings_valid)

theorem routing_settings_sound_witness:
  "routing_settings_ok (\<lambda>_. None) (default_settings True RetryFirst 6 defaultFailurePolicy)"
  by (rule routing_settings_sound [OF default_document])

text \<open>
  A document with only the required members reads as the documented defaults:
  every forwarding switch on, no version override, no prompts, passthrough thinking with the
  everyday range, image compression off and no redirects; the required members are kept.
\<close>

theorem routing_settings_defaults:
  assumes "1 \<le> attempts" and "attempts \<le> 20" and "failure_policy_ok policy"
  shows "\<exists>s. parseRoutingSettings url (minimal_settings_json unmatched strategy attempts policy) = Inr s
    \<and> (\<forall>k. rs_forwarding s k = Some True) \<and> (\<forall>k. rs_identity_version s k = None)
    \<and> rs_system_prompt_enabled s = Some False \<and> rs_reasoning_mode s = Some Passthrough
    \<and> adaptiveRange (rs_adaptive_preset s) (rs_adaptive_min s) (rs_adaptive_max s) = (LevelLow, LevelMax)
    \<and> rs_image_compression s = Some defaultImageCompression \<and> rs_model_redirects s = Some []
    \<and> rs_allow_unmatched_failover s = unmatched \<and> rs_strategy s = strategy
    \<and> rs_max_attempts s = attempts \<and> rs_default_failure_policy s = policy"
  using parse_minimal_settings [OF assms]
  by (intro exI conjI, assumption) (simp_all add: default_settings_def adaptiveRange_def)

theorem routing_settings_defaults_witness:
  "\<exists>s. parseRoutingSettings (\<lambda>_. None) (minimal_settings_json False FailoverOnly 20 defaultFailurePolicy) = Inr s
     \<and> (\<forall>k. rs_forwarding s k = Some True) \<and> rs_max_attempts s = 20"
  using routing_settings_defaults [of 20 defaultFailurePolicy "\<lambda>_. None" False FailoverOnly]
  by (auto simp: default_policy_ok)

text \<open>
  A document with a member the parser does not know, or without a required
  one, is refused with the message of the field check, whatever its other members hold.
\<close>

theorem routing_settings_unknown_field:
  assumes "\<not> keys_in settings (routing_required @ routing_optional)
    \<or> \<not> list_all (has_own settings) routing_required"
  shows "parseRoutingSettings url (JObj settings)
    = Inl (Error (js ''routing_settings: unexpected or missing field''))"
proof -
  have "readKeys settings routing_required routing_optional (js ''routing_settings'')
      = Inl (Error (js ''routing_settings: unexpected or missing field''))"
    using assms by (auto simp: readKeys_def fail_at_def js_def
        simp flip: unexpected_key_None missing_key_None)
  then show ?thesis by (simp add: parseRoutingSettings_def)
qed

theorem routing_settings_unknown_field_witness:
  "parseRoutingSettings (\<lambda>_. None) (JObj [(js ''strategy'', js_str ''retry_first'')])
    = Inl (Error (js ''routing_settings: unexpected or missing field''))"
  by (rule routing_settings_unknown_field) (simp add: routing_required_def)

text \<open>
  The range the interface shows for an accepted document is never inverted,
  whichever preset is chosen: the custom range is checked when the document is read and the
  presets' ranges are ordered.
\<close>

theorem adaptive_range_ordered:
  assumes "parseRoutingSettings url v = Inr s"
    and "adaptiveRange (rs_adaptive_preset s) (rs_adaptive_min s) (rs_adaptive_max s) = (lo, hi)"
  shows "level_index lo \<le> level_index hi"
  using assms(2) parseRoutingSettings_valid [OF assms(1)]
  by (cases "nullish (rs_adaptive_preset s) Everyday")
    (auto simp: adaptiveRange_def Let_def routing_settings_ok_def level_index_def reasoningLevels_def)

theorem adaptive_range_ordered_witness:
  "level_index LevelLow \<le> level_index LevelMax"
  by (rule adaptive_range_ordered [OF default_document [of "\<lambda>_. None"]])
    (simp add: default_settings_def adaptiveRange_def)

text \<open>
  A failure policy the parser accepts has delays in order and within a
  minute, at most five retries, statuses that are exactly decimal codes from 400 through 599,
  and written back as JSON it reads as the same policy.
\<close>

theorem failure_policy_roundtrip:
  assumes "parseFailurePolicy v path = Inr p"
  shows "parseFailurePolicy (failure_policy_json p) path' = Inr p
    \<and> 0 \<le> fp_max_retries p \<and> fp_max_retries p \<le> 5
    \<and> 0 \<le> fp_initial_delay_ms p \<and> fp_initial_delay_ms p \<le> fp_max_delay_ms p
    \<and> fp_max_delay_ms p \<le> 60000
    \<and> list_all (\<lambda>e. \<exists>n. 400 \<le> n \<and> n \<le> 599 \<and> fst e = dec n) (fp_http_status p)"
  using failure_policies.parse_valid [OF assms] failure_policies.reparse [OF assms]
  by (simp add: failure_policy_ok_def status_code_iff)

theorem failure_policy_roundtrip_witness:
  "parseFailurePolicy (failure_policy_json defaultFailurePolicy) [] = Inr defaultFailurePolicy"
  using failure_policy_roundtrip [OF parseFailurePolicy_json [OF default_policy_ok]] by blast

text \<open>
  C27: in an accepted redirect table every source is unique, no target is itself
  redirected, so following the table once is following it to the end, and the table written
  back reads as itself.
\<close>

theorem redirect_table_unchained:
  assumes "parseModelRedirects v = Inr rs"
  shows "length rs \<le> 200 \<and> distinct (map mr_from rs)
    \<and> (\<forall>m. follow_redirect rs (follow_redirect rs m) = follow_redirect rs m)
    \<and> parseModelRedirects (redirects_json rs) = Inr rs"
  using model_redirects.parse_valid [OF assms] model_redirects.reparse [OF assms]
    redirects_ok_distinct follow_redirect_idem
  by (simp add: redirects_ok_def maxModelRedirects_def)

definition sample_redirects :: "model_redirect list" where
  "sample_redirects = [\<lparr>mr_from = js ''a'', mr_to = js ''b'', mr_enabled = True\<rparr>]"

theorem redirect_table_unchained_witness:
  "follow_redirect sample_redirects (follow_redirect sample_redirects (js ''a''))
    = follow_redirect sample_redirects (js ''a'')"
proof -
  have "parseModelRedirects (redirects_json sample_redirects) = Inr sample_redirects"
    by (rule parseModelRedirects_json)
      (simp add: sample_redirects_def redirects_ok_def redirect_issue_def maxModelRedirects_def
        maxRedirectModelLength_def hasControlCharacter_def edgeSpace_def goSpace_def
        astrlinkAutoModelId_def js_def)
  from redirect_table_unchained [OF this] show ?thesis by blast
qed

text \<open>
  A Codex version override \<open>a.b.c\<close> with an optional prerelease tag is
  accepted exactly when its numbers fit 32 bits and it is at least 0.144.0, where a
  prerelease of 0.144.0 itself is too old.
\<close>

theorem codex_version_floor:
  assumes "prerelease_tag tag" and "length (version_text a b c tag) \<le> 64"
  shows "validIdentityVersion CodexIdentityVersion (version_text a b c tag) \<longleftrightarrow>
    a < 2 ^ 32 \<and> b < 2 ^ 32 \<and> c < 2 ^ 32
    \<and> (a > 0 \<or> b > 144 \<or> b = 144 \<and> (c > 0 \<or> tag = []))"
proof -
  have "version_text a b c tag \<noteq> []" by (simp add: version_text_def)
  then show ?thesis
    using assms match_version_text [OF assms(1), of a b c]
    by (auto simp: validIdentityVersion_def maxIdentityVersionLength_def minCodexIdentityVersion_def Let_def)
qed

theorem codex_version_floor_witness:
  "validIdentityVersion CodexIdentityVersion (js ''0.144.0'')
   \<and> \<not> validIdentityVersion CodexIdentityVersion (js ''0.144.0-rc'')"
proof -
  have texts: "version_text 0 144 0 [] = js ''0.144.0''" "version_text 0 144 0 (js ''-rc'') = js ''0.144.0-rc''"
    by (simp_all add: version_text_def js_def dec.simps)
  have "prerelease_tag (js ''-rc'')"
    unfolding prerelease_tag_def
    by (intro disjI2 exI [of _ "js ''rc''"]) (simp add: js_def version_tag_unit_def union_cls_def is_alnum_def
        is_lower_def)
  then show ?thesis
    using codex_version_floor [of "[]" 0 144 0] codex_version_floor [of "js ''-rc''" 0 144 0]
    by (simp add: texts prerelease_tag_def)
qed
end
