(* ===== verification/Privacy_Readers.thy ===== *)
theory Privacy_Readers
  imports Json_Values Patterns
begin

text \<open>
  The readers at the top of \<open>privacy-policy-model.ts\<close> (\<open>objectAt\<close>, \<open>keysAt\<close>,
  \<open>stringAt\<close> and the checks built on them), which every parser of that file is made of.
  Each reader has one law in the collection \<open>privacy\<close>: the JSON values it accepts and what
  it makes of them.
\<close>

named_theorems privacy "what each reader accepts"

definition invalid :: "jstr \<Rightarrow> jstr \<Rightarrow> js_error" where
  "invalid path message =
     Error (js ''Invalid privacy-policy IPC response at '' @ path @ js '': '' @ message)"

definition objectAt :: "json \<Rightarrow> jstr \<Rightarrow> js_error + jobj" where
  "objectAt value path = orThrow (invalid path (js ''expected an object'')) (jobject value)"

definition keysAt :: "jobj \<Rightarrow> string list \<Rightarrow> string list \<Rightarrow> jstr \<Rightarrow> js_error + unit" where
  "keysAt obj required optional path =
     (case unexpected_key obj (required @ optional) of
        Some k \<Rightarrow> Inl (invalid (at_key path k) (js ''unexpected field''))
      | None \<Rightarrow>
          (case missing_key obj required of
             Some k \<Rightarrow> Inl (invalid (at_field path k) (js ''missing field''))
           | None \<Rightarrow> Inr ()))"

lemma objectAt_iff [privacy]: "objectAt v path = Inr o' \<longleftrightarrow> v = JObj o'"
  by (simp add: objectAt_def res)

lemma objectAt_JObj [simp]: "objectAt (JObj o') path = Inr o'"
  by (simp add: privacy)

lemma keysAt_iff [privacy]:
  "keysAt o' required optional path = Inr u \<longleftrightarrow>
     keys_in o' (required @ optional) \<and> list_all (has_own o') required"
  by (auto simp: keysAt_def simp flip: unexpected_key_None missing_key_None split: option.splits)

section \<open>Text\<close>

definition text_ok :: "nat \<Rightarrow> nat \<Rightarrow> jstr \<Rightarrow> bool" where
  "text_ok min' max' s \<longleftrightarrow> min' \<le> length (code_points s) \<and> length (code_points s) \<le> max'"

definition stringAt :: "json \<Rightarrow> jstr \<Rightarrow> nat \<Rightarrow> nat \<Rightarrow> js_error + jstr" where
  "stringAt value path min' max' =
     (let e = invalid path (js ''expected '' @ dec min' @ js '' to '' @ dec max' @ js '' characters'') in
      bindE (orThrow e (jstring value)) (\<lambda>s.
      let len = length (code_points s) in
      bindE (throwIf (len < min' \<or> len > max') e) (\<lambda>_. Inr s)))"

lemma stringAt_iff [privacy]:
  "stringAt v path lo hi = Inr s \<longleftrightarrow> v = JStr s \<and> text_ok lo hi s"
  by (auto simp: stringAt_def Let_def res text_ok_def)

text \<open>\<open>/\p{Cc}/u\<close>\<close>

definition has_control :: "jstr \<Rightarrow> bool" where
  "has_control s \<longleftrightarrow> list_ex is_control (code_points s)"

definition metadataStringAt :: "json \<Rightarrow> jstr \<Rightarrow> nat \<Rightarrow> nat \<Rightarrow> js_error + jstr" where
  "metadataStringAt value path min' max' =
     bindE (stringAt value path min' max') (\<lambda>s.
     bindE (throwIf (trim s \<noteq> s \<or> has_control s)
              (invalid path (js ''must be trimmed and contain no control characters''))) (\<lambda>_.
     Inr s))"

definition metadata_ok :: "nat \<Rightarrow> nat \<Rightarrow> jstr \<Rightarrow> bool" where
  "metadata_ok lo hi s \<longleftrightarrow> text_ok lo hi s \<and> trim s = s \<and> \<not> has_control s"

lemma metadataStringAt_iff [privacy]:
  "metadataStringAt v path lo hi = Inr s \<longleftrightarrow> v = JStr s \<and> metadata_ok lo hi s"
  by (auto simp: metadataStringAt_def metadata_ok_def res stringAt_iff)

text \<open>The readers that test a string against a pattern share one shape.\<close>

definition checkedAt ::
  "nat \<Rightarrow> nat \<Rightarrow> (jstr \<Rightarrow> bool) \<Rightarrow> string \<Rightarrow> json \<Rightarrow> jstr \<Rightarrow> js_error + jstr"
where
  "checkedAt min' max' good message value path =
     bindE (stringAt value path min' max') (\<lambda>s.
     bindE (throwIf (\<not> good s) (invalid path (js message))) (\<lambda>_. Inr s))"

lemma checkedAt_iff [privacy]:
  "checkedAt lo hi good message v path = Inr s \<longleftrightarrow> v = JStr s \<and> text_ok lo hi s \<and> good s"
  by (auto simp: checkedAt_def res stringAt_iff)

section \<open>Numbers and booleans\<close>

definition booleanAt :: "json \<Rightarrow> jstr \<Rightarrow> js_error + bool" where
  "booleanAt value path = orThrow (invalid path (js ''expected a boolean'')) (jbool value)"

definition safeIntegerAt :: "json \<Rightarrow> jstr \<Rightarrow> nat \<Rightarrow> js_error + int" where
  "safeIntegerAt value path minimum =
     (let e = invalid path (js ''expected a safe integer greater than or equal to '' @ dec minimum) in
      bindE (orThrow e (safe_int value)) (\<lambda>i.
      bindE (throwIf (i < int minimum) e) (\<lambda>_. Inr i)))"

definition unit_interval :: "json \<Rightarrow> rat option" where
  "unit_interval v = (case v of
     JNum (Fin q) \<Rightarrow> if 0 \<le> q \<and> q \<le> 1 then Some q else None
   | _ \<Rightarrow> None)"

definition unitIntervalAt :: "json \<Rightarrow> jstr \<Rightarrow> js_error + rat" where
  "unitIntervalAt value path =
     orThrow (invalid path (js ''expected a number between 0 and 1'')) (unit_interval value)"

lemma booleanAt_iff [privacy]: "booleanAt v path = Inr b \<longleftrightarrow> v = JBool b"
  by (simp add: booleanAt_def res)

lemma safeIntegerAt_iff [privacy]:
  "safeIntegerAt v path lo = Inr i \<longleftrightarrow> v = jint i \<and> int lo \<le> i \<and> i \<le> max_safe"
  by (auto simp: safeIntegerAt_def Let_def res jsval)

lemma unitIntervalAt_iff [privacy]:
  "unitIntervalAt v path = Inr q \<longleftrightarrow> v = JNum (Fin q) \<and> 0 \<le> q \<and> q \<le> 1"
  by (auto simp: unitIntervalAt_def unit_interval_def res split: json.splits jnum.splits)

section \<open>Timestamps\<close>

text \<open>
  \<open>/^(\d{4})-(\d{2})-(\d{2})T(\d{2}):(\d{2}):(\d{2})(?:\.\d{1,9})?(?:Z|([+-])(\d{2}):(\d{2}))$/\<close>.
  The groups of a match stand at fixed places: the date and time from the start, the offset
  from the end, absent when the text ends in \<open>Z\<close>.
\<close>

definition digits_rx :: "nat \<Rightarrow> rx" where
  "digits_rx n = Rep n n (Cls is_digit)"

definition rfc3339_rx :: rx where
  "rfc3339_rx = seqs
     [digits_rx 4, chr CHR ''-'', digits_rx 2, chr CHR ''-'', digits_rx 2, chr CHR ''T'',
      digits_rx 2, chr CHR '':'', digits_rx 2, chr CHR '':'', digits_rx 2,
      opt_rx (Seq (chr CHR ''.'') (Rep 1 9 (Cls is_digit))),
      Alt (chr CHR ''Z'')
        (seqs [Cls (\<lambda>c. c \<in> set (js ''+-'')), digits_rx 2, chr CHR '':'', digits_rx 2])]"

definition digits_at :: "nat \<Rightarrow> nat \<Rightarrow> jstr \<Rightarrow> nat" where
  "digits_at i n s = digits_value (take n (drop i s))"

definition leap_year :: "nat \<Rightarrow> bool" where
  "leap_year year \<longleftrightarrow> year mod 4 = 0 \<and> (year mod 100 \<noteq> 0 \<or> year mod 400 = 0)"

definition month_days :: "nat \<Rightarrow> nat list" where
  "month_days year =
     [31, if leap_year year then 29 else 28, 31, 30, 31, 30, 31, 31, 30, 31, 30, 31]"

definition bad_timestamp :: "jstr \<Rightarrow> bool" where
  "bad_timestamp s =
     (let year = digits_at 0 4 s; month = digits_at 5 2 s; day = digits_at 8 2 s;
          hour = digits_at 11 2 s; minute = digits_at 14 2 s; second = digits_at 17 2 s;
          zulu = is_chr CHR ''Z'' (last s);
          offsetHour = (if zulu then 0 else digits_at (length s - 5) 2 s);
          offsetMinute = (if zulu then 0 else digits_at (length s - 2) 2 s) in
      month < 1 \<or> month > 12 \<or> day < 1 \<or> day > month_days year ! (month - 1)
      \<or> hour > 23 \<or> minute > 59 \<or> second > 59 \<or> offsetHour > 23 \<or> offsetMinute > 59)"

definition timestamp_ok :: "jstr \<Rightarrow> bool" where
  "timestamp_ok s \<longleftrightarrow> matches rfc3339_rx s \<and> \<not> bad_timestamp s"

definition rfc3339At :: "json \<Rightarrow> jstr \<Rightarrow> js_error + jstr" where
  "rfc3339At = checkedAt 20 35 timestamp_ok ''invalid RFC3339 timestamp''"

section \<open>Identifiers\<close>

text \<open>\<open>/^catalog_[a-z0-9_]{3,80}$/\<close>\<close>

definition catalogIDPattern :: rx where
  "catalogIDPattern =
     Seq (word ''catalog_'') (Rep 3 80 (Cls (union_cls (\<lambda>c. is_lower c \<or> is_digit c) ''_'')))"

text \<open>\<open>/^model_[0-9a-f]{32}$/\<close>\<close>

definition installationIDPattern :: rx where
  "installationIDPattern = Seq (word ''model_'') (Rep 32 32 (Cls is_lower_hex))"

text \<open>\<open>/^[A-Za-z0-9][A-Za-z0-9._-]{0,95}\/[A-Za-z0-9][A-Za-z0-9._-]{0,95}$/\<close>\<close>

definition repo_name_rx :: rx where
  "repo_name_rx = Seq (Cls is_alnum) (Rep 0 95 (Cls (union_cls is_alnum ''._-'')))"

definition repoIDPattern :: rx where
  "repoIDPattern = Seq repo_name_rx (Seq (chr CHR ''/'') repo_name_rx)"

text \<open>\<open>/^[0-9a-f]{40}$/\<close>\<close>

definition revisionPattern :: rx where
  "revisionPattern = Rep 40 40 (Cls is_lower_hex)"

text \<open>\<open>/^[A-Za-z0-9][A-Za-z0-9._/-]{0,127}$/\<close>\<close>

definition requestedRevisionPattern :: rx where
  "requestedRevisionPattern =
     Seq (Cls is_alnum) (Rep 0 127 (Cls (union_cls is_alnum ''._/-'')))"

text \<open>\<open>/^[a-z][a-z0-9_]{1,63}$/\<close>\<close>

definition variantIDPattern :: rx where
  "variantIDPattern =
     Seq (Cls is_lower) (Rep 1 63 (Cls (union_cls (\<lambda>c. is_lower c \<or> is_digit c) ''_'')))"

text \<open>\<open>/^[A-Za-z0-9][A-Za-z0-9_.-]{0,127}$/\<close>\<close>

definition labelPattern :: rx where
  "labelPattern = Seq (Cls is_alnum) (Rep 0 127 (Cls (union_cls is_alnum ''_.-'')))"

text \<open>\<open>/^"sha256:[0-9a-f]{64}"$/\<close>\<close>

definition etagPattern :: rx where
  "etagPattern = Seq (word [CHR 0x22, CHR ''s'', CHR ''h'', CHR ''a'', CHR ''2'', CHR ''5'', CHR ''6'', CHR '':''])
     (Seq (Rep 64 64 (Cls is_lower_hex)) (word [CHR 0x22]))"

definition resourceIDAt :: "json \<Rightarrow> jstr \<Rightarrow> js_error + jstr" where
  "resourceIDAt = checkedAt 3 96 (matches resource_id_rx) ''invalid resource ID''"

definition catalogIDAt :: "json \<Rightarrow> jstr \<Rightarrow> js_error + jstr" where
  "catalogIDAt = checkedAt 11 88 (matches catalogIDPattern) ''invalid catalog ID''"

definition installationIDAt :: "json \<Rightarrow> jstr \<Rightarrow> js_error + jstr" where
  "installationIDAt =
     checkedAt 38 38 (matches installationIDPattern) ''invalid installation ID''"

definition good_repo_id :: "jstr \<Rightarrow> bool" where
  "good_repo_id s \<longleftrightarrow> matches repoIDPattern s \<and> \<not> str_includes (js ''..'') s"

definition repoIDAt :: "json \<Rightarrow> jstr \<Rightarrow> js_error + jstr" where
  "repoIDAt = checkedAt 3 193 good_repo_id ''invalid Hugging Face repository ID''"

definition revisionAt :: "json \<Rightarrow> jstr \<Rightarrow> js_error + jstr" where
  "revisionAt =
     checkedAt 1 128 (matches revisionPattern) ''expected a 40-character lowercase commit''"

definition variantIDAt :: "json \<Rightarrow> jstr \<Rightarrow> js_error + jstr" where
  "variantIDAt = checkedAt 2 64 (matches variantIDPattern) ''invalid variant ID''"

definition good_requested_revision :: "jstr \<Rightarrow> bool" where
  "good_requested_revision s \<longleftrightarrow>
     matches requestedRevisionPattern s \<and> \<not> str_includes (js ''..'') s
     \<and> \<not> str_includes (js ''//'') s \<and> \<not> ends_with (js ''/'') s"

definition requestedRevisionAt :: "json \<Rightarrow> jstr \<Rightarrow> js_error + jstr" where
  "requestedRevisionAt =
     checkedAt 1 128 good_requested_revision ''invalid requested revision''"

definition labelAt :: "json \<Rightarrow> jstr \<Rightarrow> js_error + jstr" where
  "labelAt = checkedAt 1 128 (matches labelPattern) ''invalid model label''"

lemmas id_readers = rfc3339At_def resourceIDAt_def catalogIDAt_def installationIDAt_def repoIDAt_def
  revisionAt_def variantIDAt_def requestedRevisionAt_def labelAt_def

section \<open>Combinators\<close>

text \<open>A member of a set of names; a property that may be null; one that may be absent.\<close>

definition enumAt ::
  "'a list \<Rightarrow> ('a \<Rightarrow> string) \<Rightarrow> string \<Rightarrow> json \<Rightarrow> jstr \<Rightarrow> js_error + 'a"
where
  "enumAt members name message value path =
     orThrow (invalid path (js message)) (enum_of members name value)"

definition nullableAt ::
  "(json \<Rightarrow> jstr \<Rightarrow> js_error + 'a) \<Rightarrow> json \<Rightarrow> jstr \<Rightarrow> js_error + 'a option"
where
  "nullableAt read value path =
     (if value = JNull then Inr None else bindE (read value path) (\<lambda>x. Inr (Some x)))"

definition ownAt ::
  "(json \<Rightarrow> jstr \<Rightarrow> js_error + 'a) \<Rightarrow> 'a \<Rightarrow> jobj \<Rightarrow> string \<Rightarrow> jstr \<Rightarrow> js_error + 'a"
where
  "ownAt read otherwise obj key path =
     (if has_own obj key then read (field obj key) (at_field path key) else Inr otherwise)"

definition optionalAt ::
  "(json \<Rightarrow> jstr \<Rightarrow> js_error + 'a) \<Rightarrow> jobj \<Rightarrow> string \<Rightarrow> jstr \<Rightarrow> js_error + 'a option"
where
  "optionalAt read obj key path =
     (if has_own obj key
      then bindE (read (field obj key) (at_field path key)) (\<lambda>x. Inr (Some x)) else Inr None)"

definition nullable_json :: "('a \<Rightarrow> json) \<Rightarrow> 'a option \<Rightarrow> json" where
  "nullable_json f x = (case x of None \<Rightarrow> JNull | Some y \<Rightarrow> f y)"

lemma nullable_json_simps [simp]: "nullable_json f None = JNull" "nullable_json f (Some y) = f y"
  by (simp_all add: nullable_json_def)

lemma nullableAt_valid:
  "nullableAt read v path = Inr x \<Longrightarrow> (\<And>y. read v path = Inr y \<Longrightarrow> P y) \<Longrightarrow> pred_option P x"
  by (auto simp: nullableAt_def res split: if_splits)

lemma nullableAt_json [simp]:
  assumes "\<And>y. x = Some y \<Longrightarrow> f y \<noteq> JNull \<and> read (f y) path = Inr y"
  shows "nullableAt read (nullable_json f x) path = Inr x"
  using assms by (cases x) (auto simp: nullableAt_def)

lemma ownAt_valid:
  "ownAt read d o' k path = Inr x \<Longrightarrow> P d \<Longrightarrow>
    (\<And>y. read (field o' k) (at_field path k) = Inr y \<Longrightarrow> P y) \<Longrightarrow> P x"
  by (auto simp: ownAt_def split: if_splits)

lemma ownAt_present: "has_own o' k \<Longrightarrow> ownAt read d o' k path = read (field o' k) (at_field path k)"
  by (simp add: ownAt_def)

lemma optionalAt_valid:
  "optionalAt read o' k path = Inr x \<Longrightarrow>
    (\<And>y. read (field o' k) (at_field path k) = Inr y \<Longrightarrow> P y) \<Longrightarrow> pred_option P x"
  by (auto simp: optionalAt_def res split: if_splits)

lemma optionalAt_opt_val:
  assumes "field o' k = opt_val f x" and "has_own o' k \<longleftrightarrow> x \<noteq> None"
    and "\<And>y. x = Some y \<Longrightarrow> read (f y) (at_field path k) = Inr y"
  shows "optionalAt read o' k path = Inr x"
  using assms by (cases x) (auto simp: optionalAt_def)

section \<open>Lists\<close>

definition arrayAt :: "jstr \<Rightarrow> json \<Rightarrow> jstr \<Rightarrow> js_error + json list" where
  "arrayAt message value path = orThrow (invalid path message) (jarray value)"

definition stringArrayAt :: "json \<Rightarrow> jstr \<Rightarrow> nat \<Rightarrow> js_error + jstr list" where
  "stringArrayAt value path maximumItems =
     (let message = js ''expected an array of at most '' @ dec maximumItems @ js '' strings'' in
      bindE (arrayAt message value path) (\<lambda>items.
      bindE (throwIf (length items > maximumItems) (invalid path message)) (\<lambda>_.
      bindE (mapE (\<lambda>i item. metadataStringAt item (at_index path i) 1 64) 0 items) (\<lambda>parsed.
      bindE (throwIf (\<not> distinct parsed) (invalid path (js ''duplicate value''))) (\<lambda>_.
      Inr parsed)))))"

definition strings_ok :: "nat \<Rightarrow> jstr list \<Rightarrow> bool" where
  "strings_ok n ss \<longleftrightarrow> length ss \<le> n \<and> list_all (metadata_ok 1 64) ss \<and> distinct ss"

definition strings_json :: "jstr list \<Rightarrow> json" where
  "strings_json ss = JArr (map JStr ss)"

lemma arrayAt_iff [privacy]: "arrayAt message v path = Inr xs \<longleftrightarrow> v = JArr xs"
  by (simp add: arrayAt_def res)

lemma stringArrayAt_iff [privacy]:
  "stringArrayAt v path n = Inr ss \<longleftrightarrow> v = strings_json ss \<and> strings_ok n ss"
proof
  assume "stringArrayAt v path n = Inr ss"
  then obtain items where v: "v = JArr items" "length items \<le> n" "distinct ss"
    and m: "mapE (\<lambda>i item. metadataStringAt item (at_index path i) 1 64) 0 items = Inr ss"
    by (auto simp: stringArrayAt_def Let_def res arrayAt_iff)
  have "items = map JStr ss"
    using m by (auto simp: mapE_eq_Inr metadataStringAt_iff intro: nth_equalityI)
  moreover have "list_all (metadata_ok 1 64) ss"
    using m by (rule mapE_list_all) (simp add: metadataStringAt_iff)
  ultimately show "v = strings_json ss \<and> strings_ok n ss"
    using v by (simp add: strings_json_def strings_ok_def)
next
  assume "v = strings_json ss \<and> strings_ok n ss"
  moreover from this have "mapE (\<lambda>i item. metadataStringAt item (at_index path i) 1 64) 0 (map JStr ss) = Inr ss"
    by (intro mapE_map_Inr) (auto simp: metadataStringAt_iff strings_ok_def list_all_iff)
  ultimately show "stringArrayAt v path n = Inr ss"
    by (simp add: stringArrayAt_def strings_json_def strings_ok_def Let_def res arrayAt_iff)
qed

section \<open>Reading a rendered value\<close>

text \<open>The same laws as rewrite rules that evaluate a reader on the JSON of a valid value.\<close>

lemma keysAt_ok:
  "keys_in o' (required @ optional) \<Longrightarrow> list_all (has_own o') required \<Longrightarrow>
    keysAt o' required optional path = Inr ()"
  by (simp add: privacy)

lemma text_readers:
  "text_ok lo hi s \<Longrightarrow> stringAt (JStr s) path lo hi = Inr s"
  "metadata_ok lo hi s \<Longrightarrow> metadataStringAt (JStr s) path lo hi = Inr s"
  "text_ok lo hi s \<Longrightarrow> good s \<Longrightarrow> checkedAt lo hi good message (JStr s) path = Inr s"
  by (simp_all add: privacy)

lemma number_readers:
  "booleanAt (JBool b) path = Inr b"
  "int lo \<le> i \<Longrightarrow> i \<le> max_safe \<Longrightarrow> safeIntegerAt (jint i) path lo = Inr i"
  "0 \<le> q \<Longrightarrow> q \<le> 1 \<Longrightarrow> unitIntervalAt (JNum (Fin q)) path = Inr q"
  by (simp_all add: privacy)

lemma array_readers:
  "arrayAt message (JArr xs) path = Inr xs"
  "strings_ok n ss \<Longrightarrow> stringArrayAt (strings_json ss) path n = Inr ss"
  by (simp_all add: privacy)

lemmas reader_eval = keysAt_ok text_readers number_readers array_readers enumAt_def ownAt_present

end
