(* ===== verification/Privacy_Policy.thy ===== *)
theory Privacy_Policy
  imports Privacy_Readers
begin

text \<open>
  The privacy policy of \<open>privacy-policy-model.ts\<close>: its detector, actions and rules, the
  defaults an older core's answer is completed with, the page and record answers, the patch
  a caller sends, and the two predicates that decide whether a change unloads the local
  model.
\<close>

section \<open>Vocabulary\<close>

datatype privacy_detector =
    Regex | LocalModel

fun detector_name :: "privacy_detector \<Rightarrow> string" where
  "detector_name Regex = ''regex''"
| "detector_name LocalModel = ''local_model''"

definition detectors :: "privacy_detector list" where
  "detectors =
     [Regex, LocalModel]"

interpretation privacy_detector_enum: string_enum detectors detector_name
proof
  show "x \<in> set detectors" for x by (cases x) (simp_all add: detectors_def)
  show "distinct (map detector_name detectors)" by (simp add: detectors_def)
qed

datatype privacy_regex_source =
    BuiltinRules | CustomRules

fun regex_source_name :: "privacy_regex_source \<Rightarrow> string" where
  "regex_source_name BuiltinRules = ''builtin''"
| "regex_source_name CustomRules = ''custom''"

definition regexSources :: "privacy_regex_source list" where
  "regexSources =
     [BuiltinRules, CustomRules]"

interpretation privacy_regex_source_enum: string_enum regexSources regex_source_name
proof
  show "x \<in> set regexSources" for x by (cases x) (simp_all add: regexSources_def)
  show "distinct (map regex_source_name regexSources)" by (simp add: regexSources_def)
qed

datatype privacy_action =
    Allow | Warn | Block | Redact

fun privacy_action_name :: "privacy_action \<Rightarrow> string" where
  "privacy_action_name Allow = ''allow''"
| "privacy_action_name Warn = ''warn''"
| "privacy_action_name Block = ''block''"
| "privacy_action_name Redact = ''redact''"

definition actions :: "privacy_action list" where
  "actions =
     [Allow, Warn, Block, Redact]"

interpretation privacy_action_enum: string_enum actions privacy_action_name
proof
  show "x \<in> set actions" for x by (cases x) (simp_all add: actions_def)
  show "distinct (map privacy_action_name actions)" by (simp add: actions_def)
qed

datatype privacy_kind =
    Email | Phone | Account | PaymentCard | IpAddress | Url | CommonSecret | PrivateAddress |
    PrivateDate | PrivatePerson

fun kind_name :: "privacy_kind \<Rightarrow> string" where
  "kind_name Email = ''email''"
| "kind_name Phone = ''phone''"
| "kind_name Account = ''account''"
| "kind_name PaymentCard = ''payment_card''"
| "kind_name IpAddress = ''ip_address''"
| "kind_name Url = ''url''"
| "kind_name CommonSecret = ''common_secret''"
| "kind_name PrivateAddress = ''private_address''"
| "kind_name PrivateDate = ''private_date''"
| "kind_name PrivatePerson = ''private_person''"

definition canonicalKinds :: "privacy_kind list" where
  "canonicalKinds =
     [Email, Phone, Account, PaymentCard, IpAddress, Url, CommonSecret, PrivateAddress,
      PrivateDate, PrivatePerson]"

interpretation privacy_kind_enum: string_enum canonicalKinds kind_name
proof
  show "x \<in> set canonicalKinds" for x by (cases x) (simp_all add: canonicalKinds_def)
  show "distinct (map kind_name canonicalKinds)" by (simp add: canonicalKinds_def)
qed

text \<open>
  The kinds a regular expression can detect are seven of the canonical ones; a rule holds
  the canonical kind.
\<close>

definition PRIVACY_REGEX_DETECTOR_KINDS :: "privacy_kind list" where
  "PRIVACY_REGEX_DETECTOR_KINDS =
     [Email, Phone, Account, PaymentCard, IpAddress, Url, CommonSecret]"

definition MAX_PRIVACY_CUSTOM_REGEX_RULES :: nat where "MAX_PRIVACY_CUSTOM_REGEX_RULES = 64"
definition MAX_PRIVACY_REGEX_PATTERN_CHARS :: nat where "MAX_PRIVACY_REGEX_PATTERN_CHARS = 512"
definition MAX_PRIVACY_ALLOWLIST_RULES :: nat where "MAX_PRIVACY_ALLOWLIST_RULES = 128"
definition MAX_PRIVACY_ALLOWLIST_VALUE_CHARS :: nat where "MAX_PRIVACY_ALLOWLIST_VALUE_CHARS = 256"

definition PRIVACY_KINDS :: "privacy_kind list" where
  "PRIVACY_KINDS =
     [CommonSecret, PaymentCard, Account, Email, Phone, Url, IpAddress, PrivatePerson,
      PrivateAddress, PrivateDate]"

definition PLACEHOLDER_STYLE_LOCKED_KINDS :: "privacy_kind list" where
  "PLACEHOLDER_STYLE_LOCKED_KINDS =
     [CommonSecret, PaymentCard, Account, Phone, PrivatePerson, PrivateAddress, PrivateDate]"

datatype placeholder_style =
    Natural | Token

fun style_name :: "placeholder_style \<Rightarrow> string" where
  "style_name Natural = ''natural''"
| "style_name Token = ''token''"

definition placeholderStyles :: "placeholder_style list" where
  "placeholderStyles =
     [Natural, Token]"

interpretation placeholder_style_enum: string_enum placeholderStyles style_name
proof
  show "x \<in> set placeholderStyles" for x by (cases x) (simp_all add: placeholderStyles_def)
  show "distinct (map style_name placeholderStyles)" by (simp add: placeholderStyles_def)
qed

datatype privacy_allowlist_type =
    Literal | DomainSuffix | Cidr

fun allowlist_type_name :: "privacy_allowlist_type \<Rightarrow> string" where
  "allowlist_type_name Literal = ''literal''"
| "allowlist_type_name DomainSuffix = ''domain_suffix''"
| "allowlist_type_name Cidr = ''cidr''"

definition allowlistTypes :: "privacy_allowlist_type list" where
  "allowlistTypes =
     [Literal, DomainSuffix, Cidr]"

interpretation privacy_allowlist_type_enum: string_enum allowlistTypes allowlist_type_name
proof
  show "x \<in> set allowlistTypes" for x by (cases x) (simp_all add: allowlistTypes_def)
  show "distinct (map allowlist_type_name allowlistTypes)" by (simp add: allowlistTypes_def)
qed

section \<open>Rules and policies\<close>

record privacy_regex_rule =
  rr_kind :: privacy_kind
  rr_pattern :: jstr

record privacy_kind_rule =
  kr_kind :: privacy_kind
  kr_enabled :: bool
  kr_style :: placeholder_style
  kr_notify :: bool

record privacy_allowlist_rule =
  ar_type :: privacy_allowlist_type
  ar_value :: jstr

record privacy_policy =
  pp_id :: jstr
  pp_name :: jstr
  pp_enabled :: bool
  pp_priority :: int
  pp_detector :: privacy_detector
  pp_local_model_id :: "jstr option"
  pp_min_confidence :: rat
  pp_regex_source :: privacy_regex_source
  pp_custom_regex_rules :: "privacy_regex_rule list"
  pp_kind_rules :: "privacy_kind_rule list"
  pp_allowlist_rules :: "privacy_allowlist_rule list"
  pp_request_action :: privacy_action
  pp_response_action :: privacy_action
  pp_response_restore :: bool
  pp_restore_tool_arguments :: bool
  pp_placeholder_notice :: bool
  pp_skip_tool_declarations :: bool
  pp_inspect_additional_tools :: bool
  pp_match :: unit

record privacy_policy_record =
  pr_policy :: privacy_policy
  pr_etag :: jstr

text \<open>A patch names the members it changes; the local model can be changed to none.\<close>

record privacy_policy_patch =
  pa_enabled :: "bool option"
  pa_detector :: "privacy_detector option"
  pa_local_model_id :: "jstr option option"
  pa_min_confidence :: "rat option"
  pa_regex_source :: "privacy_regex_source option"
  pa_custom_regex_rules :: "privacy_regex_rule list option"
  pa_kind_rules :: "privacy_kind_rule list option"
  pa_allowlist_rules :: "privacy_allowlist_rule list option"
  pa_request_action :: "privacy_action option"
  pa_response_restore :: "bool option"
  pa_restore_tool_arguments :: "bool option"
  pa_placeholder_notice :: "bool option"
  pa_skip_tool_declarations :: "bool option"
  pa_inspect_additional_tools :: "bool option"

subsection \<open>Parsers\<close>

definition canonicalKindAt :: "json \<Rightarrow> jstr \<Rightarrow> js_error + privacy_kind" where
  "canonicalKindAt = enumAt canonicalKinds kind_name ''unknown canonical privacy kind''"

definition parseMatch :: "json \<Rightarrow> jstr \<Rightarrow> js_error + unit" where
  "parseMatch value path =
     bindE (objectAt value path) (\<lambda>match.
     bindE (keysAt match [] [] path) (\<lambda>_. Inr ()))"

definition regexDetectorKindAt :: "json \<Rightarrow> jstr \<Rightarrow> js_error + privacy_kind" where
  "regexDetectorKindAt =
     enumAt PRIVACY_REGEX_DETECTOR_KINDS kind_name ''unknown regex detector kind''"

definition parsePrivacyRegexRule :: "json \<Rightarrow> jstr \<Rightarrow> js_error + privacy_regex_rule" where
  "parsePrivacyRegexRule value path =
     bindE (objectAt value path) (\<lambda>obj.
     bindE (keysAt obj [''kind'', ''pattern''] [] path) (\<lambda>_.
     bindE (regexDetectorKindAt (field obj ''kind'') (at_field path ''kind'')) (\<lambda>kind.
     bindE (stringAt (field obj ''pattern'') (at_field path ''pattern'') 1
              MAX_PRIVACY_REGEX_PATTERN_CHARS) (\<lambda>pattern.
     Inr \<lparr>rr_kind = kind, rr_pattern = pattern\<rparr>))))"

definition parsePrivacyRegexRules :: "json \<Rightarrow> jstr \<Rightarrow> js_error + privacy_regex_rule list" where
  "parsePrivacyRegexRules value path =
     bindE (arrayAt (js ''expected an array'') value path) (\<lambda>entries.
     bindE (throwIf (length entries > MAX_PRIVACY_CUSTOM_REGEX_RULES)
              (invalid path (js ''expected at most '' @ dec MAX_PRIVACY_CUSTOM_REGEX_RULES @ js '' rules''))) (\<lambda>_.
     mapE (\<lambda>i entry. parsePrivacyRegexRule entry (at_index path i)) 0 entries))"

definition parsePrivacyKindRule :: "json \<Rightarrow> jstr \<Rightarrow> js_error + privacy_kind_rule" where
  "parsePrivacyKindRule value path =
     bindE (objectAt value path) (\<lambda>obj.
     bindE (keysAt obj [''kind'', ''enabled'', ''style''] [''notify''] path) (\<lambda>_.
     bindE (canonicalKindAt (field obj ''kind'') (at_field path ''kind'')) (\<lambda>kind.
     bindE (enumAt placeholderStyles style_name ''unknown placeholder style''
              (field obj ''style'') (at_field path ''style'')) (\<lambda>style.
     bindE (throwIf (kind \<in> set PLACEHOLDER_STYLE_LOCKED_KINDS \<and> style \<noteq> Token)
              (invalid (at_field path ''style'')
                (js ''this kind must keep the token placeholder style''))) (\<lambda>_.
     bindE (booleanAt (field obj ''enabled'') (at_field path ''enabled'')) (\<lambda>enabled.
     bindE (ownAt booleanAt True obj ''notify'' path) (\<lambda>notify.
     Inr \<lparr>kr_kind = kind, kr_enabled = enabled, kr_style = style, kr_notify = notify\<rparr>)))))))"

definition parsePrivacyKindRules :: "json \<Rightarrow> jstr \<Rightarrow> js_error + privacy_kind_rule list" where
  "parsePrivacyKindRules value path =
     bindE (arrayAt (js ''expected an array'') value path) (\<lambda>entries.
     bindE (mapE (\<lambda>i entry. parsePrivacyKindRule entry (at_index path i)) 0 entries) (\<lambda>rules.
     bindE (throwIf (\<not> distinct (map kr_kind rules)) (invalid path (js ''duplicate kind rule''))) (\<lambda>_.
     Inr rules)))"

definition parsePrivacyAllowlistRule :: "json \<Rightarrow> jstr \<Rightarrow> js_error + privacy_allowlist_rule" where
  "parsePrivacyAllowlistRule value path =
     bindE (objectAt value path) (\<lambda>obj.
     bindE (keysAt obj [''type'', ''value''] [] path) (\<lambda>_.
     bindE (enumAt allowlistTypes allowlist_type_name ''unknown allowlist type''
              (field obj ''type'') (at_field path ''type'')) (\<lambda>type.
     bindE (stringAt (field obj ''value'') (at_field path ''value'') 1
              MAX_PRIVACY_ALLOWLIST_VALUE_CHARS) (\<lambda>text.
     Inr \<lparr>ar_type = type, ar_value = text\<rparr>))))"

definition parsePrivacyAllowlistRules ::
  "json \<Rightarrow> jstr \<Rightarrow> js_error + privacy_allowlist_rule list"
where
  "parsePrivacyAllowlistRules value path =
     bindE (arrayAt (js ''expected an array'') value path) (\<lambda>entries.
     bindE (throwIf (length entries > MAX_PRIVACY_ALLOWLIST_RULES)
              (invalid path (js ''expected at most '' @ dec MAX_PRIVACY_ALLOWLIST_RULES @ js '' rules''))) (\<lambda>_.
     mapE (\<lambda>i entry. parsePrivacyAllowlistRule entry (at_index path i)) 0 entries))"

definition defaultPrivacyKindRules :: "privacy_kind_rule list" where
  "defaultPrivacyKindRules =
     map (\<lambda>kind. \<lparr>kr_kind = kind, kr_enabled = (kind = CommonSecret),
            kr_style = (if kind \<in> set PLACEHOLDER_STYLE_LOCKED_KINDS then Token else Natural),
            kr_notify = True\<rparr>) PRIVACY_KINDS"

definition policy_required :: "string list" where
  "policy_required =
     [''id'', ''name'', ''enabled'', ''priority'', ''detector'', ''local_model_id'',
      ''min_confidence'', ''request_action'', ''response_action'', ''response_restore'', ''match'']"

definition policy_optional :: "string list" where
  "policy_optional =
     [''regex_source'', ''custom_regex_rules'', ''kind_rules'', ''allowlist_rules'',
      ''restore_tool_arguments'', ''placeholder_notice'', ''skip_tool_declarations'',
      ''inspect_additional_tools'']"

definition actionAt :: "json \<Rightarrow> jstr \<Rightarrow> js_error + privacy_action" where
  "actionAt = enumAt actions privacy_action_name ''unknown action''"

definition detectorAt :: "json \<Rightarrow> jstr \<Rightarrow> js_error + privacy_detector" where
  "detectorAt = enumAt detectors detector_name ''unknown detector''"

definition regexSourceAt :: "json \<Rightarrow> jstr \<Rightarrow> js_error + privacy_regex_source" where
  "regexSourceAt = enumAt regexSources regex_source_name ''unknown regex source''"

definition parsePrivacyPolicy :: "json \<Rightarrow> jstr \<Rightarrow> js_error + privacy_policy" where
  "parsePrivacyPolicy value path =
     bindE (objectAt value path) (\<lambda>policy.
     bindE (keysAt policy policy_required policy_optional path) (\<lambda>_.
     bindE (resourceIDAt (field policy ''id'') (at_field path ''id'')) (\<lambda>id'.
     bindE (stringAt (field policy ''name'') (at_field path ''name'') 1 128) (\<lambda>name.
     bindE (throwIf (id' \<noteq> js ''policy_privacy_default'')
              (invalid (at_field path ''id'') (js ''unexpected singleton policy ID''))) (\<lambda>_.
     bindE (safeIntegerAt (field policy ''priority'') (at_field path ''priority'') 0) (\<lambda>priority.
     bindE (throwIf (priority \<noteq> 0)
              (invalid (at_field path ''priority'') (js ''unexpected singleton policy priority''))) (\<lambda>_.
     bindE (detectorAt (field policy ''detector'') (at_field path ''detector'')) (\<lambda>detector.
     bindE (actionAt (field policy ''request_action'') (at_field path ''request_action'')) (\<lambda>request_action.
     bindE (actionAt (field policy ''response_action'') (at_field path ''response_action'')) (\<lambda>response_action.
     bindE (throwIf (response_action \<noteq> Allow)
              (invalid (at_field path ''response_action'')
                (js ''response inspection is not enabled in this version''))) (\<lambda>_.
     bindE (nullableAt installationIDAt (field policy ''local_model_id'')
              (at_field path ''local_model_id'')) (\<lambda>localModelID.
     bindE (throwIf (detector = Regex \<and> localModelID \<noteq> None
                     \<or> detector = LocalModel \<and> localModelID = None)
              (invalid path (js ''detector and local model selection are inconsistent''))) (\<lambda>_.
     bindE (ownAt regexSourceAt BuiltinRules policy ''regex_source'' path) (\<lambda>regexSource.
     bindE (ownAt parsePrivacyRegexRules [] policy ''custom_regex_rules'' path) (\<lambda>customRegexRules.
     bindE (throwIf (detector = Regex \<and> regexSource = CustomRules \<and> length customRegexRules = 0)
              (invalid (at_field path ''custom_regex_rules'')
                (js ''custom regex rules require at least one rule''))) (\<lambda>_.
     bindE (booleanAt (field policy ''enabled'') (at_field path ''enabled'')) (\<lambda>enabled.
     bindE (unitIntervalAt (field policy ''min_confidence'') (at_field path ''min_confidence'')) (\<lambda>min_confidence.
     bindE (ownAt parsePrivacyKindRules defaultPrivacyKindRules policy ''kind_rules'' path) (\<lambda>kind_rules.
     bindE (ownAt parsePrivacyAllowlistRules [] policy ''allowlist_rules'' path) (\<lambda>allowlist_rules.
     bindE (booleanAt (field policy ''response_restore'') (at_field path ''response_restore'')) (\<lambda>response_restore.
     bindE (ownAt booleanAt True policy ''restore_tool_arguments'' path) (\<lambda>restore_tool_arguments.
     bindE (ownAt booleanAt True policy ''placeholder_notice'' path) (\<lambda>placeholder_notice.
     bindE (ownAt booleanAt False policy ''skip_tool_declarations'' path) (\<lambda>skip_tool_declarations.
     bindE (ownAt booleanAt False policy ''inspect_additional_tools'' path) (\<lambda>inspect_additional_tools.
     bindE (parseMatch (field policy ''match'') (at_field path ''match'')) (\<lambda>match.
     Inr \<lparr>pp_id = id', pp_name = name, pp_enabled = enabled, pp_priority = priority,
          pp_detector = detector, pp_local_model_id = localModelID,
          pp_min_confidence = min_confidence, pp_regex_source = regexSource,
          pp_custom_regex_rules = customRegexRules, pp_kind_rules = kind_rules,
          pp_allowlist_rules = allowlist_rules, pp_request_action = request_action,
          pp_response_action = response_action, pp_response_restore = response_restore,
          pp_restore_tool_arguments = restore_tool_arguments,
          pp_placeholder_notice = placeholder_notice,
          pp_skip_tool_declarations = skip_tool_declarations,
          pp_inspect_additional_tools = inspect_additional_tools, pp_match = match\<rparr>))))))))))))))))))))))))))"

text \<open>A page holds exactly one policy, so its items are that one.\<close>

definition parsePrivacyPolicyPage :: "json \<Rightarrow> js_error + privacy_policy list" where
  "parsePrivacyPolicyPage value =
     bindE (objectAt value (js ''$'')) (\<lambda>page.
     bindE (keysAt page [''items'', ''next_cursor''] [] (js ''$'')) (\<lambda>_.
     bindE (arrayAt (js ''expected an array'') (field page ''items'') (js ''$.items'')) (\<lambda>items.
     bindE (throwIf (length items \<noteq> 1) (invalid (js ''$.items'') (js ''expected singleton policy''))) (\<lambda>_.
     bindE (throwIf (field page ''next_cursor'' \<noteq> JNull)
              (invalid (js ''$.next_cursor'') (js ''expected null''))) (\<lambda>_.
     mapE (\<lambda>i policy. parsePrivacyPolicy policy (at_index (js ''$.items'') i)) 0 items)))))"

definition parsePrivacyPolicyRecord :: "json \<Rightarrow> js_error + privacy_policy_record" where
  "parsePrivacyPolicyRecord value =
     bindE (objectAt value (js ''$'')) (\<lambda>record.
     bindE (keysAt record [''policy'', ''etag''] [] (js ''$'')) (\<lambda>_.
     bindE (checkedAt 3 128 (matches etagPattern) ''invalid strong entity tag''
              (field record ''etag'') (js ''$.etag'')) (\<lambda>etag.
     bindE (parsePrivacyPolicy (field record ''policy'') (js ''$.policy'')) (\<lambda>policy.
     Inr \<lparr>pr_policy = policy, pr_etag = etag\<rparr>))))"

definition parsePrivacyRegexBuiltinRules :: "json \<Rightarrow> js_error + privacy_regex_rule list" where
  "parsePrivacyRegexBuiltinRules value =
     bindE (objectAt value (js ''$'')) (\<lambda>obj.
     bindE (keysAt obj [''rules''] [] (js ''$'')) (\<lambda>_.
     parsePrivacyRegexRules (field obj ''rules'') (js ''$.rules'')))"

definition patch_fields :: "string list" where
  "patch_fields =
     [''enabled'', ''detector'', ''local_model_id'', ''min_confidence'', ''regex_source'',
      ''custom_regex_rules'', ''kind_rules'', ''allowlist_rules'', ''request_action'',
      ''response_restore'', ''restore_tool_arguments'', ''placeholder_notice'',
      ''skip_tool_declarations'', ''inspect_additional_tools'']"

definition validatePrivacyPolicyPatch :: "json \<Rightarrow> js_error + privacy_policy_patch" where
  "validatePrivacyPolicyPatch patch =
     (let path = js ''$.policy'' in
      bindE (objectAt patch path) (\<lambda>obj.
      bindE (keysAt obj [] patch_fields path) (\<lambda>_.
      bindE (throwIf (length obj = 0) (invalid path (js ''must change at least one field''))) (\<lambda>_.
      bindE (optionalAt booleanAt obj ''enabled'' path) (\<lambda>enabled.
      bindE (optionalAt detectorAt obj ''detector'' path) (\<lambda>detector.
      bindE (optionalAt (nullableAt installationIDAt) obj ''local_model_id'' path) (\<lambda>local_model_id.
      bindE (optionalAt unitIntervalAt obj ''min_confidence'' path) (\<lambda>min_confidence.
      bindE (optionalAt regexSourceAt obj ''regex_source'' path) (\<lambda>regex_source.
      bindE (optionalAt parsePrivacyRegexRules obj ''custom_regex_rules'' path) (\<lambda>custom_regex_rules.
      bindE (optionalAt actionAt obj ''request_action'' path) (\<lambda>request_action.
      bindE (optionalAt booleanAt obj ''response_restore'' path) (\<lambda>response_restore.
      bindE (optionalAt parsePrivacyKindRules obj ''kind_rules'' path) (\<lambda>kind_rules.
      bindE (optionalAt parsePrivacyAllowlistRules obj ''allowlist_rules'' path) (\<lambda>allowlist_rules.
      bindE (optionalAt booleanAt obj ''restore_tool_arguments'' path) (\<lambda>restore_tool_arguments.
      bindE (optionalAt booleanAt obj ''placeholder_notice'' path) (\<lambda>placeholder_notice.
      bindE (optionalAt booleanAt obj ''skip_tool_declarations'' path) (\<lambda>skip_tool_declarations.
      bindE (optionalAt booleanAt obj ''inspect_additional_tools'' path) (\<lambda>inspect_additional_tools.
      Inr \<lparr>pa_enabled = enabled, pa_detector = detector, pa_local_model_id = local_model_id,
           pa_min_confidence = min_confidence, pa_regex_source = regex_source,
           pa_custom_regex_rules = custom_regex_rules, pa_kind_rules = kind_rules,
           pa_allowlist_rules = allowlist_rules, pa_request_action = request_action,
           pa_response_restore = response_restore,
           pa_restore_tool_arguments = restore_tool_arguments,
           pa_placeholder_notice = placeholder_notice,
           pa_skip_tool_declarations = skip_tool_declarations,
           pa_inspect_additional_tools = inspect_additional_tools\<rparr>))))))))))))))))))"

section \<open>Defaults\<close>

definition privacyKindRulesAreDefault :: "privacy_kind_rule list \<Rightarrow> bool" where
  "privacyKindRulesAreDefault rules \<longleftrightarrow>
     list_all (\<lambda>fallback. case List.find (\<lambda>candidate. kr_kind candidate = kr_kind fallback) rules of
         None \<Rightarrow> False
       | Some rule \<Rightarrow> kr_enabled rule = kr_enabled fallback \<and> kr_style rule = kr_style fallback
           \<and> kr_notify rule = kr_notify fallback) defaultPrivacyKindRules"

definition privacyRestoreSettingsAreDefault :: "privacy_policy \<Rightarrow> bool" where
  "privacyRestoreSettingsAreDefault policy \<longleftrightarrow>
     pp_response_restore policy \<and> pp_restore_tool_arguments policy \<and> pp_placeholder_notice policy
     \<and> \<not> pp_skip_tool_declarations policy \<and> \<not> pp_inspect_additional_tools policy"

definition defaultPrivacyAllowlistRules :: "privacy_allowlist_rule list" where
  "defaultPrivacyAllowlistRules =
     map (\<lambda>v. \<lparr>ar_type = DomainSuffix, ar_value = js v\<rparr>)
       [''localhost'', ''github.com'', ''githubusercontent.com'', ''example.com'', ''example.net'',
        ''example.org'', ''example'', ''test'', ''invalid'']
     @ map (\<lambda>v. \<lparr>ar_type = Cidr, ar_value = js v\<rparr>)
       [''127.0.0.0/8'', ''::1/128'', ''10.0.0.0/8'', ''172.16.0.0/12'', ''192.168.0.0/16'',
        ''169.254.0.0/16'']"

text \<open>
  The rules' keys in the set of those present: type, colon and value. Lower-casing a value
  (\<open>toLowerCase\<close>, over all of Unicode) is the argument \<open>lower\<close>.
\<close>

definition allowlist_key :: "privacy_allowlist_type \<Rightarrow> jstr \<Rightarrow> jstr" where
  "allowlist_key type v = js (allowlist_type_name type) @ js '':'' @ v"

definition missingDefaultPrivacyAllowlistRules ::
  "(jstr \<Rightarrow> jstr) \<Rightarrow> privacy_allowlist_rule list \<Rightarrow> privacy_allowlist_rule list"
where
  "missingDefaultPrivacyAllowlistRules lower rules =
     (let present = map (\<lambda>rule. allowlist_key (ar_type rule) (lower (ar_value rule))) rules in
      filter (\<lambda>rule. allowlist_key (ar_type rule) (ar_value rule) \<notin> set present)
        defaultPrivacyAllowlistRules)"

section \<open>The local model\<close>

definition localModelActive :: "privacy_policy \<Rightarrow> bool" where
  "localModelActive policy \<longleftrightarrow>
     pp_enabled policy \<and> pp_detector policy = LocalModel \<and> pp_local_model_id policy \<noteq> None
     \<and> pp_request_action policy \<noteq> Allow"

definition patched :: "'a option \<Rightarrow> 'a \<Rightarrow> 'a" where
  "patched x old = (case x of None \<Rightarrow> old | Some y \<Rightarrow> y)"

text \<open>\<open>{ ...policy, ...patch }\<close>\<close>

definition apply_patch :: "privacy_policy \<Rightarrow> privacy_policy_patch \<Rightarrow> privacy_policy" where
  "apply_patch policy patch = policy\<lparr>
     pp_enabled := patched (pa_enabled patch) (pp_enabled policy),
     pp_detector := patched (pa_detector patch) (pp_detector policy),
     pp_local_model_id := patched (pa_local_model_id patch) (pp_local_model_id policy),
     pp_min_confidence := patched (pa_min_confidence patch) (pp_min_confidence policy),
     pp_regex_source := patched (pa_regex_source patch) (pp_regex_source policy),
     pp_custom_regex_rules := patched (pa_custom_regex_rules patch) (pp_custom_regex_rules policy),
     pp_kind_rules := patched (pa_kind_rules patch) (pp_kind_rules policy),
     pp_allowlist_rules := patched (pa_allowlist_rules patch) (pp_allowlist_rules policy),
     pp_request_action := patched (pa_request_action patch) (pp_request_action policy),
     pp_response_restore := patched (pa_response_restore patch) (pp_response_restore policy),
     pp_restore_tool_arguments :=
       patched (pa_restore_tool_arguments patch) (pp_restore_tool_arguments policy),
     pp_placeholder_notice := patched (pa_placeholder_notice patch) (pp_placeholder_notice policy),
     pp_skip_tool_declarations :=
       patched (pa_skip_tool_declarations patch) (pp_skip_tool_declarations policy),
     pp_inspect_additional_tools :=
       patched (pa_inspect_additional_tools patch) (pp_inspect_additional_tools policy)\<rparr>"

definition patchUnloadsLocalModel :: "privacy_policy \<Rightarrow> privacy_policy_patch \<Rightarrow> bool" where
  "patchUnloadsLocalModel policy patch =
     (if \<not> localModelActive policy then False
      else let next' = apply_patch policy patch in
        \<not> localModelActive next' \<or> pp_local_model_id next' \<noteq> pp_local_model_id policy)"

section \<open>What the parsers accept\<close>

lemma enumAt_iff: "enumAt members name message v path = Inr x \<longleftrightarrow> enum_of members name v = Some x"
  by (simp add: enumAt_def res)

lemmas enum_readers = actionAt_def detectorAt_def regexSourceAt_def canonicalKindAt_def
  regexDetectorKindAt_def enumAt_iff privacy_detector_enum.enum_of_Some privacy_regex_source_enum.enum_of_Some
  privacy_action_enum.enum_of_Some privacy_kind_enum.enum_of_Some privacy_kind_enum.enum_of_among
  placeholder_style_enum.enum_of_Some privacy_allowlist_type_enum.enum_of_Some

lemmas enum_parsers = actionAt_def detectorAt_def regexSourceAt_def canonicalKindAt_def
  regexDetectorKindAt_def

lemmas enum_names [simp] = privacy_detector_enum.enum_of_name privacy_regex_source_enum.enum_of_name
  privacy_action_enum.enum_of_name privacy_kind_enum.enum_of_name placeholder_style_enum.enum_of_name
  privacy_allowlist_type_enum.enum_of_name

lemma regexDetectorKindAt_name:
  "k \<in> set PRIVACY_REGEX_DETECTOR_KINDS \<Longrightarrow> regexDetectorKindAt (js_str (kind_name k)) path = Inr k"
  by (simp add: enum_readers)

definition regex_rule_ok :: "privacy_regex_rule \<Rightarrow> bool" where
  "regex_rule_ok r \<longleftrightarrow> rr_kind r \<in> set PRIVACY_REGEX_DETECTOR_KINDS
     \<and> text_ok 1 MAX_PRIVACY_REGEX_PATTERN_CHARS (rr_pattern r)"

definition regex_rule_json :: "privacy_regex_rule \<Rightarrow> json" where
  "regex_rule_json r =
     JObj [(js ''kind'', js_str (kind_name (rr_kind r))), (js ''pattern'', JStr (rr_pattern r))]"

definition kind_rule_ok :: "privacy_kind_rule \<Rightarrow> bool" where
  "kind_rule_ok r \<longleftrightarrow> (kr_kind r \<in> set PLACEHOLDER_STYLE_LOCKED_KINDS \<longrightarrow> kr_style r = Token)"

definition kind_rule_json :: "privacy_kind_rule \<Rightarrow> json" where
  "kind_rule_json r =
     JObj [(js ''kind'', js_str (kind_name (kr_kind r))), (js ''enabled'', JBool (kr_enabled r)),
           (js ''style'', js_str (style_name (kr_style r))), (js ''notify'', JBool (kr_notify r))]"

definition allowlist_rule_ok :: "privacy_allowlist_rule \<Rightarrow> bool" where
  "allowlist_rule_ok r \<longleftrightarrow> text_ok 1 MAX_PRIVACY_ALLOWLIST_VALUE_CHARS (ar_value r)"

definition allowlist_rule_json :: "privacy_allowlist_rule \<Rightarrow> json" where
  "allowlist_rule_json r =
     JObj [(js ''type'', js_str (allowlist_type_name (ar_type r))), (js ''value'', JStr (ar_value r))]"

interpretation regex_rules: json_codec parsePrivacyRegexRule regex_rule_json regex_rule_ok
proof
  fix v path r
  assume "parsePrivacyRegexRule v path = Inr r"
  then show "regex_rule_ok r"
    by (auto simp: parsePrivacyRegexRule_def regex_rule_ok_def res privacy enum_readers)
next
  fix r path
  assume "regex_rule_ok r"
  then show "parsePrivacyRegexRule (regex_rule_json r) path = Inr r"
    by (simp add: parsePrivacyRegexRule_def regex_rule_ok_def regex_rule_json_def reader_eval
        regexDetectorKindAt_name)
qed

interpretation kind_rules: json_codec parsePrivacyKindRule kind_rule_json kind_rule_ok
proof
  fix v path r
  assume "parsePrivacyKindRule v path = Inr r"
  then show "kind_rule_ok r"
    by (auto simp: parsePrivacyKindRule_def kind_rule_ok_def res)
next
  fix r path
  assume "kind_rule_ok r"
  then show "parsePrivacyKindRule (kind_rule_json r) path = Inr r"
    by (simp add: parsePrivacyKindRule_def kind_rule_ok_def kind_rule_json_def reader_eval
        enum_parsers bindE_throwIf)
qed

interpretation allowlist_rules:
  json_codec parsePrivacyAllowlistRule allowlist_rule_json allowlist_rule_ok
proof
  fix v path r
  assume "parsePrivacyAllowlistRule v path = Inr r"
  then show "allowlist_rule_ok r"
    by (auto simp: parsePrivacyAllowlistRule_def allowlist_rule_ok_def res privacy)
next
  fix r path
  assume "allowlist_rule_ok r"
  then show "parsePrivacyAllowlistRule (allowlist_rule_json r) path = Inr r"
    by (simp add: parsePrivacyAllowlistRule_def allowlist_rule_ok_def allowlist_rule_json_def reader_eval)
qed

definition regex_rules_ok :: "privacy_regex_rule list \<Rightarrow> bool" where
  "regex_rules_ok rs \<longleftrightarrow> length rs \<le> MAX_PRIVACY_CUSTOM_REGEX_RULES \<and> list_all regex_rule_ok rs"

definition kind_rules_ok :: "privacy_kind_rule list \<Rightarrow> bool" where
  "kind_rules_ok rs \<longleftrightarrow> distinct (map kr_kind rs) \<and> list_all kind_rule_ok rs"

definition allowlist_rules_ok :: "privacy_allowlist_rule list \<Rightarrow> bool" where
  "allowlist_rules_ok rs \<longleftrightarrow> length rs \<le> MAX_PRIVACY_ALLOWLIST_RULES \<and> list_all allowlist_rule_ok rs"

definition array_json :: "('a \<Rightarrow> json) \<Rightarrow> 'a list \<Rightarrow> json" where
  "array_json f xs = JArr (map f xs)"

lemma array_json_neq [simp]: "array_json f xs \<noteq> JUndef" "array_json f xs \<noteq> JNull"
  by (simp_all add: array_json_def)

interpretation regex_rule_lists: json_codec parsePrivacyRegexRules "array_json regex_rule_json" regex_rules_ok
proof
  fix v path rs
  assume "parsePrivacyRegexRules v path = Inr rs"
  then show "regex_rules_ok rs"
    by (auto simp: parsePrivacyRegexRules_def regex_rules_ok_def res privacy
        dest: regex_rules.parse_array_valid mapE_length)
next
  fix rs path
  assume "regex_rules_ok rs"
  then show "parsePrivacyRegexRules (array_json regex_rule_json rs) path = Inr rs"
    by (simp add: parsePrivacyRegexRules_def regex_rules_ok_def array_json_def res privacy
        regex_rules.parse_array_render)
qed

interpretation kind_rule_lists: json_codec parsePrivacyKindRules "array_json kind_rule_json" kind_rules_ok
proof
  fix v path rs
  assume "parsePrivacyKindRules v path = Inr rs"
  then show "kind_rules_ok rs"
    by (auto simp: parsePrivacyKindRules_def kind_rules_ok_def res privacy
        dest: kind_rules.parse_array_valid)
next
  fix rs path
  assume "kind_rules_ok rs"
  then show "parsePrivacyKindRules (array_json kind_rule_json rs) path = Inr rs"
    by (simp add: parsePrivacyKindRules_def kind_rules_ok_def array_json_def res privacy
        kind_rules.parse_array_render)
qed

interpretation allowlists:
  json_codec parsePrivacyAllowlistRules "array_json allowlist_rule_json" allowlist_rules_ok
proof
  fix v path rs
  assume "parsePrivacyAllowlistRules v path = Inr rs"
  then show "allowlist_rules_ok rs"
    by (auto simp: parsePrivacyAllowlistRules_def allowlist_rules_ok_def res privacy
        dest: allowlist_rules.parse_array_valid mapE_length)
next
  fix rs path
  assume "allowlist_rules_ok rs"
  then show "parsePrivacyAllowlistRules (array_json allowlist_rule_json rs) path = Inr rs"
    by (simp add: parsePrivacyAllowlistRules_def allowlist_rules_ok_def array_json_def res privacy
        allowlist_rules.parse_array_render)
qed

lemma default_kind_rules_ok: "kind_rules_ok defaultPrivacyKindRules"
  by (simp add: kind_rules_ok_def kind_rule_ok_def defaultPrivacyKindRules_def PRIVACY_KINDS_def
      PLACEHOLDER_STYLE_LOCKED_KINDS_def)

section \<open>The policy\<close>

definition policy_ok :: "privacy_policy \<Rightarrow> bool" where
  "policy_ok p \<longleftrightarrow>
     pp_id p = js ''policy_privacy_default'' \<and> text_ok 1 128 (pp_name p) \<and> pp_priority p = 0
     \<and> pp_response_action p = Allow
     \<and> (pp_detector p = LocalModel \<longleftrightarrow> pp_local_model_id p \<noteq> None)
     \<and> pred_option (\<lambda>i. text_ok 38 38 i \<and> matches installationIDPattern i) (pp_local_model_id p)
     \<and> 0 \<le> pp_min_confidence p \<and> pp_min_confidence p \<le> 1
     \<and> regex_rules_ok (pp_custom_regex_rules p)
     \<and> (pp_detector p = Regex \<and> pp_regex_source p = CustomRules \<longrightarrow> pp_custom_regex_rules p \<noteq> [])
     \<and> kind_rules_ok (pp_kind_rules p) \<and> allowlist_rules_ok (pp_allowlist_rules p)"

definition policy_json :: "privacy_policy \<Rightarrow> json" where
  "policy_json p = JObj
     [(js ''id'', JStr (pp_id p)), (js ''name'', JStr (pp_name p)),
      (js ''enabled'', JBool (pp_enabled p)), (js ''priority'', jint (pp_priority p)),
      (js ''detector'', js_str (detector_name (pp_detector p))),
      (js ''local_model_id'', nullable_json JStr (pp_local_model_id p)),
      (js ''min_confidence'', JNum (Fin (pp_min_confidence p))),
      (js ''regex_source'', js_str (regex_source_name (pp_regex_source p))),
      (js ''custom_regex_rules'', array_json regex_rule_json (pp_custom_regex_rules p)),
      (js ''kind_rules'', array_json kind_rule_json (pp_kind_rules p)),
      (js ''allowlist_rules'', array_json allowlist_rule_json (pp_allowlist_rules p)),
      (js ''request_action'', js_str (privacy_action_name (pp_request_action p))),
      (js ''response_action'', js_str (privacy_action_name (pp_response_action p))),
      (js ''response_restore'', JBool (pp_response_restore p)),
      (js ''restore_tool_arguments'', JBool (pp_restore_tool_arguments p)),
      (js ''placeholder_notice'', JBool (pp_placeholder_notice p)),
      (js ''skip_tool_declarations'', JBool (pp_skip_tool_declarations p)),
      (js ''inspect_additional_tools'', JBool (pp_inspect_additional_tools p)),
      (js ''match'', JObj [])]"

lemma installation_nullable_ok:
  "nullableAt installationIDAt v path = Inr x \<Longrightarrow>
     pred_option (\<lambda>i. text_ok 38 38 i \<and> matches installationIDPattern i) x"
  by (rule nullableAt_valid) (auto simp: id_readers privacy)

lemma policy_parts_ok:
  "ownAt parsePrivacyRegexRules [] o' k path = Inr rs \<Longrightarrow> regex_rules_ok rs"
  "ownAt parsePrivacyKindRules defaultPrivacyKindRules o' k path = Inr ks \<Longrightarrow> kind_rules_ok ks"
  "ownAt parsePrivacyAllowlistRules [] o' k path = Inr as \<Longrightarrow> allowlist_rules_ok as"
  by (erule ownAt_valid; simp add: regex_rules_ok_def allowlist_rules_ok_def default_kind_rules_ok
      regex_rule_lists.parse_valid [unfolded regex_rules_ok_def] kind_rule_lists.parse_valid
      allowlists.parse_valid [unfolded allowlist_rules_ok_def])+

lemma parsePrivacyPolicy_ok: "parsePrivacyPolicy v path = Inr p \<Longrightarrow> policy_ok p"
  unfolding parsePrivacyPolicy_def
  by (elim bindE_InrE, drule installation_nullable_ok, drule policy_parts_ok(1),
      drule policy_parts_ok(2), drule policy_parts_ok(3))
    (clarsimp simp: policy_ok_def privacy throwIf_eq_Inr; cases "pp_detector p"; fastforce)

lemma singleton_id [simp]:
  "resourceIDAt (JStr (js ''policy_privacy_default'')) path = Inr (js ''policy_privacy_default'')"
proof -
  have "matches resource_id_rx (js ''policy_privacy_default'')"
    by (simp add: resource_id_rx_def matches_head_tail js_def is_lower_def union_cls_def)
  then show ?thesis by (simp add: resourceIDAt_def text_readers text_ok_def)
qed

lemma action_allow: "enum_of actions privacy_action_name (js_str ''allow'') = Some Allow"
  using privacy_action_enum.enum_of_name [of Allow] by simp

lemma parsePrivacyPolicy_json:
  assumes "policy_ok p"
  shows "parsePrivacyPolicy (policy_json p) path = Inr p"
proof -
  have model: "nullableAt installationIDAt (nullable_json JStr (pp_local_model_id p)) q
      = Inr (pp_local_model_id p)" for q
    using assms by (intro nullableAt_json) (auto simp: policy_ok_def installationIDAt_def text_readers)
  show ?thesis
    using assms
    by (simp add: parsePrivacyPolicy_def policy_json_def policy_ok_def policy_required_def
        policy_optional_def reader_eval action_allow enum_parsers parseMatch_def bindE_throwIf model max_safe_def
        regex_rule_lists.parse_render kind_rule_lists.parse_render allowlists.parse_render)
      (cases "pp_detector p"; cases "pp_local_model_id p"; simp)
qed

interpretation privacy_policies: json_codec parsePrivacyPolicy policy_json policy_ok
  by unfold_locales (fact parsePrivacyPolicy_ok parsePrivacyPolicy_json)+

section \<open>Properties\<close>

text \<open>
  An accepted privacy policy is the singleton policy with response inspection
  off, has a local model exactly when it detects with one, keeps the token style on every
  locked kind, has at most one rule per kind and custom rules when it needs them; written
  back as JSON it reads as itself.
\<close>

theorem privacy_policy_sound:
  assumes "parsePrivacyPolicy v path = Inr p"
  shows "policy_ok p \<and> parsePrivacyPolicy (policy_json p) path' = Inr p"
  using privacy_policies.parse_valid [OF assms] privacy_policies.reparse [OF assms] by blast

definition sample_policy :: privacy_policy where
  "sample_policy =
     \<lparr>pp_id = js ''policy_privacy_default'', pp_name = js ''Default'', pp_enabled = True,
      pp_priority = 0, pp_detector = LocalModel,
      pp_local_model_id = Some (js ''model_0123456789abcdef0123456789abcdef''),
      pp_min_confidence = 1 / 2, pp_regex_source = BuiltinRules, pp_custom_regex_rules = [],
      pp_kind_rules = defaultPrivacyKindRules, pp_allowlist_rules = [],
      pp_request_action = Redact, pp_response_action = Allow, pp_response_restore = True,
      pp_restore_tool_arguments = True, pp_placeholder_notice = True,
      pp_skip_tool_declarations = False, pp_inspect_additional_tools = False, pp_match = ()\<rparr>"

lemma sample_model_id:
  "text_ok 38 38 (js ''model_0123456789abcdef0123456789abcdef'')"
  "matches installationIDPattern (js ''model_0123456789abcdef0123456789abcdef'')"
  by (simp add: text_ok_def)
    (simp add: installationIDPattern_def matches_left starts_with_def js_def is_chr_def is_lower_hex_def is_digit_def)

lemma sample_policy_ok: "policy_ok sample_policy"
  by (simp add: policy_ok_def sample_policy_def default_kind_rules_ok sample_model_id)
    (simp add: text_ok_def regex_rules_ok_def allowlist_rules_ok_def)

theorem privacy_policy_sound_witness:
  "policy_ok sample_policy \<and> parsePrivacyPolicy (policy_json sample_policy) [] = Inr sample_policy"
  by (rule privacy_policy_sound [OF parsePrivacyPolicy_json [OF sample_policy_ok]])

text \<open>
  A patch unloads the local model exactly when the model was serving requests
  and the patched policy either stops using one or selects another; turning the policy off,
  switching the detector or allowing every request are such changes, and a patch that
  touches none of the four members never is.
\<close>

theorem patch_unloads_local_model:
  "patchUnloadsLocalModel p patch \<longleftrightarrow>
     localModelActive p
     \<and> (pa_enabled patch = Some False \<or> pa_detector patch = Some Regex
        \<or> pa_request_action patch = Some Allow
        \<or> (\<exists>m. pa_local_model_id patch = Some m \<and> m \<noteq> pp_local_model_id p))"
proof (cases "localModelActive p")
  case True
  then obtain m where "pp_enabled p" "pp_detector p = LocalModel" "pp_local_model_id p = Some m"
      "pp_request_action p \<noteq> Allow"
    by (auto simp: localModelActive_def)
  then show ?thesis
    using True
    by (cases "pa_enabled patch"; cases "pa_detector patch"; cases "pa_request_action patch";
        cases "pa_local_model_id patch")
      (auto simp: patchUnloadsLocalModel_def localModelActive_def apply_patch_def patched_def
        split: privacy_detector.splits intro: privacy_detector.exhaust)
qed (simp add: patchUnloadsLocalModel_def)

lemma optional_parts_ok:
  "optionalAt parsePrivacyRegexRules o' k path = Inr a \<Longrightarrow> pred_option regex_rules_ok a"
  "optionalAt parsePrivacyKindRules o' k path = Inr b \<Longrightarrow> pred_option kind_rules_ok b"
  "optionalAt parsePrivacyAllowlistRules o' k path = Inr c \<Longrightarrow> pred_option allowlist_rules_ok c"
  "optionalAt unitIntervalAt o' k path = Inr d \<Longrightarrow> pred_option (\<lambda>q. 0 \<le> q \<and> q \<le> 1) d"
  "optionalAt (nullableAt installationIDAt) o' k path = Inr m \<Longrightarrow>
     pred_option (pred_option (\<lambda>i. text_ok 38 38 i \<and> matches installationIDPattern i)) m"
  by (erule optionalAt_valid, simp add: regex_rule_lists.parse_valid kind_rule_lists.parse_valid
      allowlists.parse_valid privacy installation_nullable_ok)+

lemma patched_ok: "pred_option P x \<Longrightarrow> P old \<Longrightarrow> P (patched x old)"
  by (cases x) (simp_all add: patched_def)

definition patch_ok :: "privacy_policy_patch \<Rightarrow> bool" where
  "patch_ok patch \<longleftrightarrow> pred_option regex_rules_ok (pa_custom_regex_rules patch)
     \<and> pred_option kind_rules_ok (pa_kind_rules patch)
     \<and> pred_option allowlist_rules_ok (pa_allowlist_rules patch)
     \<and> pred_option (\<lambda>q. 0 \<le> q \<and> q \<le> 1) (pa_min_confidence patch)
     \<and> pred_option (pred_option (\<lambda>i. text_ok 38 38 i \<and> matches installationIDPattern i))
         (pa_local_model_id patch)"

lemma validatePrivacyPolicyPatch_ok: "validatePrivacyPolicyPatch v = Inr patch \<Longrightarrow> patch_ok patch"
  unfolding validatePrivacyPolicyPatch_def Let_def
  by (elim bindE_InrE, drule optional_parts_ok(1), drule optional_parts_ok(2),
      drule optional_parts_ok(3), drule optional_parts_ok(4), drule optional_parts_ok(5))
    (clarsimp simp: patch_ok_def)

text \<open>
  A patch the validator accepts keeps the policy valid: applied to a valid
  policy the result is valid again as soon as it has a local model exactly when it detects
  with one, and rules when it relies on custom ones, which the patch alone cannot decide.
\<close>

theorem patch_keeps_policy_valid:
  assumes "validatePrivacyPolicyPatch v = Inr patch" and "policy_ok p"
    and "pp_detector (apply_patch p patch) = LocalModel \<longleftrightarrow> pp_local_model_id (apply_patch p patch) \<noteq> None"
    and "pp_detector (apply_patch p patch) = Regex \<Longrightarrow> pp_regex_source (apply_patch p patch) = CustomRules
      \<Longrightarrow> pp_custom_regex_rules (apply_patch p patch) \<noteq> []"
  shows "policy_ok (apply_patch p patch)"
proof -
  have patch: "patch_ok patch" using assms(1) by (rule validatePrivacyPolicyPatch_ok)
  note p = assms(2) [unfolded policy_ok_def] and q = patch [unfolded patch_ok_def]
  let ?p = "apply_patch p patch"
  have "0 \<le> pp_min_confidence ?p \<and> pp_min_confidence ?p \<le> 1"
    using p q patched_ok [where P = "\<lambda>q. 0 \<le> q \<and> q \<le> 1" and old = "pp_min_confidence p"]
    by (simp add: apply_patch_def)
  moreover have "pred_option (\<lambda>i. text_ok 38 38 i \<and> matches installationIDPattern i) (pp_local_model_id ?p)"
    using p q by (simp add: apply_patch_def patched_ok)
  moreover have "regex_rules_ok (pp_custom_regex_rules ?p)" "kind_rules_ok (pp_kind_rules ?p)"
    "allowlist_rules_ok (pp_allowlist_rules ?p)"
    using p q by (simp_all add: apply_patch_def patched_ok)
  moreover have "pp_id ?p = pp_id p" "pp_name ?p = pp_name p" "pp_priority ?p = pp_priority p"
    "pp_response_action ?p = pp_response_action p"
    by (simp_all add: apply_patch_def)
  ultimately show ?thesis using p assms(3,4) unfolding policy_ok_def by metis
qed

definition sample_patch_json :: json where
  "sample_patch_json = JObj [(js ''detector'', js_str ''regex''), (js ''local_model_id'', JNull)]"

theorem patch_keeps_policy_valid_witness:
  "\<exists>patch. validatePrivacyPolicyPatch sample_patch_json = Inr patch
     \<and> policy_ok (apply_patch sample_policy patch)"
proof -
  have e: "enum_of detectors detector_name (js_str ''regex'') = Some Regex"
    using privacy_detector_enum.enum_of_name [of Regex] by simp
  obtain patch where patch: "validatePrivacyPolicyPatch sample_patch_json = Inr patch"
    and d: "pa_detector patch = Some Regex" "pa_local_model_id patch = Some None"
      "pa_regex_source patch = None"
    by (simp add: validatePrivacyPolicyPatch_def sample_patch_json_def reader_eval patch_fields_def
        optionalAt_def enum_parsers e nullableAt_def)
  show ?thesis
    using patch_keeps_policy_valid [OF patch sample_policy_ok] patch
    by (auto simp: apply_patch_def patched_def d sample_policy_def)
qed

definition legacy_policy_json :: "privacy_policy \<Rightarrow> json" where
  "legacy_policy_json p = JObj
     [(js ''id'', JStr (pp_id p)), (js ''name'', JStr (pp_name p)),
      (js ''enabled'', JBool (pp_enabled p)), (js ''priority'', jint (pp_priority p)),
      (js ''detector'', js_str (detector_name (pp_detector p))),
      (js ''local_model_id'', nullable_json JStr (pp_local_model_id p)),
      (js ''min_confidence'', JNum (Fin (pp_min_confidence p))),
      (js ''request_action'', js_str (privacy_action_name (pp_request_action p))),
      (js ''response_action'', js_str (privacy_action_name (pp_response_action p))),
      (js ''response_restore'', JBool (pp_response_restore p)), (js ''match'', JObj [])]"

lemma ownAt_absent: "\<not> has_own o' k \<Longrightarrow> ownAt read d o' k path = Inr d"
  by (simp add: ownAt_def)

lemma default_rules_are_default: "privacyKindRulesAreDefault defaultPrivacyKindRules"
  by (simp add: privacyKindRulesAreDefault_def defaultPrivacyKindRules_def PRIVACY_KINDS_def)

text \<open>
  A document of a core that predates the optional members reads as the policy
  with the defaults: built-in rules, only credentials enabled, no allowlist, tool arguments
  restored; the required members are kept.
\<close>

theorem legacy_policy_defaults:
  assumes "policy_ok p"
  shows "\<exists>q. parsePrivacyPolicy (legacy_policy_json p) path = Inr q
    \<and> privacyKindRulesAreDefault (pp_kind_rules q) \<and> pp_regex_source q = BuiltinRules
    \<and> pp_custom_regex_rules q = [] \<and> pp_allowlist_rules q = []
    \<and> privacyRestoreSettingsAreDefault q = pp_response_restore p
    \<and> localModelActive q = localModelActive p"
proof -
  have model: "nullableAt installationIDAt (nullable_json JStr (pp_local_model_id p)) q
      = Inr (pp_local_model_id p)" for q
    using assms by (intro nullableAt_json) (auto simp: policy_ok_def installationIDAt_def text_readers)
  show ?thesis
    using assms
    by (simp add: parsePrivacyPolicy_def legacy_policy_json_def policy_ok_def policy_required_def
        policy_optional_def reader_eval action_allow enum_parsers parseMatch_def model max_safe_def
        ownAt_absent default_rules_are_default privacyRestoreSettingsAreDefault_def localModelActive_def)
      (cases "pp_detector p"; cases "pp_local_model_id p"; simp add: default_rules_are_default)
qed

lemma sample_policy_active: "localModelActive sample_policy"
  by (simp add: localModelActive_def sample_policy_def)

theorem legacy_policy_defaults_witness:
  "\<exists>q. parsePrivacyPolicy (legacy_policy_json sample_policy) [] = Inr q \<and> localModelActive q"
  using legacy_policy_defaults [OF sample_policy_ok] sample_policy_active by blast

lemma allowlist_key_inject:
  "allowlist_key t v = allowlist_key t' v' \<longleftrightarrow> t = t' \<and> v = v'"
  by (cases t; cases t') (auto simp: allowlist_key_def js_def)

lemma default_allowlist_lower:
  assumes "\<And>s. list_all (\<lambda>c. c < 128 \<and> \<not> is_upper c) s \<Longrightarrow> lower s = s"
    and "r \<in> set defaultPrivacyAllowlistRules"
  shows "lower (ar_value r) = ar_value r"
  using assms(2)
  by (intro assms(1)) (auto simp: defaultPrivacyAllowlistRules_def js_def is_upper_def)

lemma missing_iff:
  "r \<in> set (missingDefaultPrivacyAllowlistRules lower rules) \<longleftrightarrow> r \<in> set defaultPrivacyAllowlistRules
     \<and> \<not> (\<exists>q \<in> set rules. ar_type q = ar_type r \<and> lower (ar_value q) = ar_value r)"
  by (simp add: missingDefaultPrivacyAllowlistRules_def Let_def image_iff allowlist_key_inject) metis

text \<open>
  Adding the missing default allowlist rules leaves none missing, and only
  default rules whose type and lower-cased value are absent are offered. Lower-casing is the
  host's; the property relies on it keeping a value that is already lower-case ASCII.
\<close>

theorem missing_allowlist_closes:
  assumes "\<And>s. list_all (\<lambda>c. c < 128 \<and> \<not> is_upper c) s \<Longrightarrow> lower s = s"
  shows "missingDefaultPrivacyAllowlistRules lower
      (rules @ missingDefaultPrivacyAllowlistRules lower rules) = []
    \<and> set (missingDefaultPrivacyAllowlistRules lower rules)
      = {r \<in> set defaultPrivacyAllowlistRules.
          \<not> (\<exists>q \<in> set rules. ar_type q = ar_type r \<and> lower (ar_value q) = ar_value r)}"
proof
  let ?miss = "missingDefaultPrivacyAllowlistRules lower rules"
  have "r \<notin> set (missingDefaultPrivacyAllowlistRules lower (rules @ ?miss))" for r
    using default_allowlist_lower [OF assms, of r] missing_iff [of r lower rules]
    by (auto simp: missing_iff [of r lower "rules @ ?miss"])
  then show "missingDefaultPrivacyAllowlistRules lower (rules @ ?miss) = []"
    using last_in_set by blast
qed (auto simp: missing_iff)

theorem missing_allowlist_closes_witness:
  "missingDefaultPrivacyAllowlistRules (map ascii_lower)
     (missingDefaultPrivacyAllowlistRules (map ascii_lower) []) = []"
proof -
  have "list_all (\<lambda>c. c < 128 \<and> \<not> is_upper c) s \<Longrightarrow> map ascii_lower s = s" for s
    by (induction s) (simp_all add: ascii_lower_def)
  from missing_allowlist_closes [OF this, of "[]"] show ?thesis by simp
qed

end
