(* ===== verification/Privacy_Dry_Run.thy ===== *)
theory Privacy_Dry_Run
  imports Privacy_Policy
begin

text \<open>
  The policy dry run of \<open>privacy-policy-model.ts\<close>: the sample a caller sends, checked before
  the call, and the findings and redactions the core answers with.
\<close>

section \<open>Vocabulary\<close>

datatype dry_run_protocol =
    OpenaiChat | OpenaiCompletions | OpenaiResponses | OpenaiResponsesCompact |
    AnthropicMessages | GoogleGenerateContent

fun protocol_name :: "dry_run_protocol \<Rightarrow> string" where
  "protocol_name OpenaiChat = ''openai.chat''"
| "protocol_name OpenaiCompletions = ''openai.completions''"
| "protocol_name OpenaiResponses = ''openai.responses''"
| "protocol_name OpenaiResponsesCompact = ''openai.responses.compact''"
| "protocol_name AnthropicMessages = ''anthropic.messages''"
| "protocol_name GoogleGenerateContent = ''google.generate_content''"

definition dryRunProtocols :: "dry_run_protocol list" where
  "dryRunProtocols =
     [OpenaiChat, OpenaiCompletions, OpenaiResponses, OpenaiResponsesCompact,
      AnthropicMessages, GoogleGenerateContent]"

interpretation dry_run_protocol_enum: string_enum dryRunProtocols protocol_name
proof
  show "x \<in> set dryRunProtocols" for x by (cases x) (simp_all add: dryRunProtocols_def)
  show "distinct (map protocol_name dryRunProtocols)" by (simp add: dryRunProtocols_def)
qed

datatype suppression_reason =
    LowConfidence | KindDisabled | Allowlisted | Placeholder | Unrepresentable |
    AstrlinkIdentifier | ExampleValue

fun suppression_name :: "suppression_reason \<Rightarrow> string" where
  "suppression_name LowConfidence = ''low_confidence''"
| "suppression_name KindDisabled = ''kind_disabled''"
| "suppression_name Allowlisted = ''allowlisted''"
| "suppression_name Placeholder = ''placeholder''"
| "suppression_name Unrepresentable = ''unrepresentable''"
| "suppression_name AstrlinkIdentifier = ''astrlink_identifier''"
| "suppression_name ExampleValue = ''example_value''"

definition suppressionReasons :: "suppression_reason list" where
  "suppressionReasons =
     [LowConfidence, KindDisabled, Allowlisted, Placeholder, Unrepresentable,
      AstrlinkIdentifier, ExampleValue]"

interpretation suppression_reason_enum: string_enum suppressionReasons suppression_name
proof
  show "x \<in> set suppressionReasons" for x by (cases x) (simp_all add: suppressionReasons_def)
  show "distinct (map suppression_name suppressionReasons)" by (simp add: suppressionReasons_def)
qed

definition MAX_PRIVACY_DRY_RUN_SAMPLE_BYTES :: nat where
  "MAX_PRIVACY_DRY_RUN_SAMPLE_BYTES = 256 * 1024"

definition MAX_PRIVACY_DRY_RUN_BODY_CHARS :: nat where
  "MAX_PRIVACY_DRY_RUN_BODY_CHARS = 512 * 1024"

record dry_run_input =
  di_protocol :: dry_run_protocol
  di_sample_text :: jstr
  di_policy :: "privacy_policy_patch option"

record dry_run_finding =
  df_kind :: privacy_kind
  df_path :: jstr
  df_start :: int
  df_end :: int
  df_confidence :: rat
  df_reason :: "suppression_reason option"

record dry_run_redaction =
  dx_placeholder :: jstr
  dx_kind :: privacy_kind
  dx_value :: jstr
  dx_style :: placeholder_style

record dry_run_result =
  dr_decision :: privacy_action
  dr_findings_summary :: jstr
  dr_findings :: "dry_run_finding list"
  dr_suppressed_findings :: "dry_run_finding list"
  dr_redactions :: "dry_run_redaction list option"
  dr_redacted_body :: "jstr option"
  dr_inspected_body :: jstr

section \<open>Results\<close>

definition findingKindAt :: "json \<Rightarrow> jstr \<Rightarrow> js_error + privacy_kind" where
  "findingKindAt = enumAt canonicalKinds kind_name ''unknown privacy kind''"

definition styleAt :: "json \<Rightarrow> jstr \<Rightarrow> js_error + placeholder_style" where
  "styleAt = enumAt placeholderStyles style_name ''unknown placeholder style''"

definition parsePrivacyDryRunFinding :: "json \<Rightarrow> jstr \<Rightarrow> js_error + dry_run_finding" where
  "parsePrivacyDryRunFinding value path =
     bindE (objectAt value path) (\<lambda>finding.
     bindE (keysAt finding [''kind'', ''path'', ''start'', ''end'', ''confidence''] [''reason''] path) (\<lambda>_.
     bindE (findingKindAt (field finding ''kind'') (at_field path ''kind'')) (\<lambda>kind.
     bindE (safeIntegerAt (field finding ''start'') (at_field path ''start'') 0) (\<lambda>start.
     bindE (safeIntegerAt (field finding ''end'') (at_field path ''end'') 1) (\<lambda>stop.
     bindE (throwIf (stop \<le> start) (invalid path (js ''end must be greater than start''))) (\<lambda>_.
     bindE (stringAt (field finding ''path'') (at_field path ''path'') 1 512) (\<lambda>where.
     bindE (unitIntervalAt (field finding ''confidence'') (at_field path ''confidence'')) (\<lambda>confidence.
     bindE (optionalAt (enumAt suppressionReasons suppression_name ''unknown suppression reason'')
              finding ''reason'' path) (\<lambda>reason.
     Inr \<lparr>df_kind = kind, df_path = where, df_start = start, df_end = stop,
          df_confidence = confidence, df_reason = reason\<rparr>)))))))))"

definition parseRedaction :: "json \<Rightarrow> jstr \<Rightarrow> js_error + dry_run_redaction" where
  "parseRedaction item path =
     bindE (objectAt item path) (\<lambda>redaction.
     bindE (keysAt redaction [''placeholder'', ''kind'', ''value''] [''style''] path) (\<lambda>_.
     bindE (findingKindAt (field redaction ''kind'') (at_field path ''kind'')) (\<lambda>kind.
     bindE (ownAt styleAt Token redaction ''style'' path) (\<lambda>style.
     bindE (stringAt (field redaction ''placeholder'') (at_field path ''placeholder'') 1 128) (\<lambda>placeholder.
     bindE (stringAt (field redaction ''value'') (at_field path ''value'') 0
              MAX_PRIVACY_DRY_RUN_SAMPLE_BYTES) (\<lambda>text.
     Inr \<lparr>dx_placeholder = placeholder, dx_kind = kind, dx_value = text, dx_style = style\<rparr>))))))"

definition parseArrayOf ::
  "(json \<Rightarrow> jstr \<Rightarrow> js_error + 'a) \<Rightarrow> json \<Rightarrow> jstr \<Rightarrow> js_error + 'a list"
where
  "parseArrayOf parse value path =
     bindE (arrayAt (js ''expected an array'') value path) (\<lambda>items.
     mapE (\<lambda>i item. parse item (at_index path i)) 0 items)"

definition bodyAt :: "json \<Rightarrow> jstr \<Rightarrow> js_error + jstr" where
  "bodyAt value path =
     bindE (throwIf (jstring value = None) (invalid path (js ''expected a string''))) (\<lambda>_.
     stringAt value path 2 MAX_PRIVACY_DRY_RUN_BODY_CHARS)"

definition parsePrivacyDryRunResult :: "json \<Rightarrow> js_error + dry_run_result" where
  "parsePrivacyDryRunResult value =
     (let path = js ''$'' in
     bindE (objectAt value path) (\<lambda>result.
     bindE (keysAt result
       [''decision'', ''findings_summary'', ''findings'', ''suppressed_findings'', ''inspected_body'']
       [''redacted_body'', ''redactions''] path) (\<lambda>_.
     bindE (actionAt (field result ''decision'') (at_field path ''decision'')) (\<lambda>decision.
     bindE (parseArrayOf parsePrivacyDryRunFinding (field result ''findings'')
              (at_field path ''findings'')) (\<lambda>findings.
     bindE (parseArrayOf parsePrivacyDryRunFinding (field result ''suppressed_findings'')
              (at_field path ''suppressed_findings'')) (\<lambda>suppressed.
     bindE (stringAt (field result ''findings_summary'') (at_field path ''findings_summary'') 0 4096) (\<lambda>summary.
     bindE (stringAt (field result ''inspected_body'') (at_field path ''inspected_body'') 2
              MAX_PRIVACY_DRY_RUN_BODY_CHARS) (\<lambda>inspected.
     bindE (optionalAt (parseArrayOf parseRedaction) result ''redactions'' path) (\<lambda>redactions.
     bindE (optionalAt bodyAt result ''redacted_body'' path) (\<lambda>redacted.
     Inr \<lparr>dr_decision = decision, dr_findings_summary = summary, dr_findings = findings,
          dr_suppressed_findings = suppressed, dr_redactions = redactions,
          dr_redacted_body = redacted, dr_inspected_body = inspected\<rparr>))))))))))"

section \<open>Inputs\<close>

text \<open>\<open>new TextEncoder().encode(value).length\<close>\<close>

definition utf8ByteLength :: "jstr \<Rightarrow> nat" where
  "utf8ByteLength value = utf8_length value"

definition validatePrivacyDryRunInput :: "jobj \<Rightarrow> js_error + dry_run_input" where
  "validatePrivacyDryRunInput input =
     bindE (enumAt dryRunProtocols protocol_name ''unsupported dry-run protocol''
              (field input ''protocol'') (js ''$.protocol'')) (\<lambda>protocol.
     bindE (orThrow (Localized (js ''privacy.sampleInvalid'') [])
              (jstring (field input ''sample_text''))) (\<lambda>sample.
     bindE (throwIf (length sample = 0) (Localized (js ''privacy.sampleRequired'') [])) (\<lambda>_.
     let bytes = utf8ByteLength sample in
     bindE (throwIf (bytes > MAX_PRIVACY_DRY_RUN_SAMPLE_BYTES)
              (Localized (js ''privacy.sampleTooLong'')
                [(js ''bytes'', bytes), (js ''max'', MAX_PRIVACY_DRY_RUN_SAMPLE_BYTES)])) (\<lambda>_.
     bindE (if field input ''policy'' \<noteq> JUndef
            then bindE (validatePrivacyPolicyPatch (field input ''policy'')) (\<lambda>p. Inr (Some p))
            else Inr None) (\<lambda>policy.
     Inr \<lparr>di_protocol = protocol, di_sample_text = sample, di_policy = policy\<rparr>)))))"

section \<open>What the parser accepts\<close>

definition finding_ok :: "dry_run_finding \<Rightarrow> bool" where
  "finding_ok f \<longleftrightarrow> 0 \<le> df_start f \<and> df_start f < df_end f \<and> df_end f \<le> max_safe
     \<and> text_ok 1 512 (df_path f) \<and> 0 \<le> df_confidence f \<and> df_confidence f \<le> 1"

definition finding_json :: "dry_run_finding \<Rightarrow> json" where
  "finding_json f = JObj
     ([(js ''kind'', js_str (kind_name (df_kind f))), (js ''path'', JStr (df_path f)),
       (js ''start'', jint (df_start f)), (js ''end'', jint (df_end f)),
       (js ''confidence'', JNum (Fin (df_confidence f)))]
      @ opt_field ''reason'' (\<lambda>r. js_str (suppression_name r)) (df_reason f))"

definition redaction_ok :: "dry_run_redaction \<Rightarrow> bool" where
  "redaction_ok r \<longleftrightarrow> text_ok 1 128 (dx_placeholder r)
     \<and> text_ok 0 MAX_PRIVACY_DRY_RUN_SAMPLE_BYTES (dx_value r)"

definition redaction_json :: "dry_run_redaction \<Rightarrow> json" where
  "redaction_json r = JObj
     [(js ''placeholder'', JStr (dx_placeholder r)), (js ''kind'', js_str (kind_name (dx_kind r))),
      (js ''value'', JStr (dx_value r)), (js ''style'', js_str (style_name (dx_style r)))]"

definition body_ok :: "jstr \<Rightarrow> bool" where
  "body_ok = text_ok 2 MAX_PRIVACY_DRY_RUN_BODY_CHARS"

definition dry_run_ok :: "dry_run_result \<Rightarrow> bool" where
  "dry_run_ok r \<longleftrightarrow> list_all finding_ok (dr_findings r) \<and> list_all finding_ok (dr_suppressed_findings r)
     \<and> text_ok 0 4096 (dr_findings_summary r) \<and> body_ok (dr_inspected_body r)
     \<and> pred_option (list_all redaction_ok) (dr_redactions r) \<and> pred_option body_ok (dr_redacted_body r)"

definition dry_run_json :: "dry_run_result \<Rightarrow> json" where
  "dry_run_json r = JObj
     ([(js ''decision'', js_str (privacy_action_name (dr_decision r))),
       (js ''findings_summary'', JStr (dr_findings_summary r)),
       (js ''findings'', array_json finding_json (dr_findings r)),
       (js ''suppressed_findings'', array_json finding_json (dr_suppressed_findings r)),
       (js ''inspected_body'', JStr (dr_inspected_body r))]
      @ opt_field ''redactions'' (array_json redaction_json) (dr_redactions r)
      @ opt_field ''redacted_body'' JStr (dr_redacted_body r))"

lemmas dry_run_enums = findingKindAt_def styleAt_def enum_parsers enumAt_iff
  suppression_reason_enum.enum_of_Some privacy_kind_enum.enum_of_Some

lemma suppression_enum_name [simp]:
  "enum_of suppressionReasons suppression_name (js_str (suppression_name r)) = Some r"
  by (rule suppression_reason_enum.enum_of_name)

interpretation findings: json_codec parsePrivacyDryRunFinding finding_json finding_ok
proof
  fix v path f
  assume "parsePrivacyDryRunFinding v path = Inr f"
  then show "finding_ok f"
    by (auto simp: parsePrivacyDryRunFinding_def finding_ok_def res privacy)
next
  fix f path
  assume "finding_ok f"
  then show "parsePrivacyDryRunFinding (finding_json f) path = Inr f"
    by (simp add: parsePrivacyDryRunFinding_def finding_json_def finding_ok_def reader_eval
        findingKindAt_def optionalAt_opt_val [where f = "\<lambda>r. js_str (suppression_name r)"])
qed

interpretation redactions: json_codec parseRedaction redaction_json redaction_ok
proof
  fix v path r
  assume "parseRedaction v path = Inr r"
  then show "redaction_ok r"
    by (auto simp: parseRedaction_def redaction_ok_def res privacy)
next
  fix r path
  assume "redaction_ok r"
  then show "parseRedaction (redaction_json r) path = Inr r"
    by (simp add: parseRedaction_def redaction_json_def redaction_ok_def reader_eval
        findingKindAt_def styleAt_def)
qed

lemma parseArrayOf_findings:
  "parseArrayOf parsePrivacyDryRunFinding v path = Inr fs \<Longrightarrow> list_all finding_ok fs"
  by (auto simp: parseArrayOf_def res dest: findings.parse_array_valid)

lemma parseArrayOf_redactions:
  "parseArrayOf parseRedaction v path = Inr rs \<Longrightarrow> list_all redaction_ok rs"
  by (auto simp: parseArrayOf_def res dest: redactions.parse_array_valid)

lemma parseArrayOf_json:
  "list_all finding_ok fs \<Longrightarrow>
    parseArrayOf parsePrivacyDryRunFinding (array_json finding_json fs) path = Inr fs"
  "list_all redaction_ok rs \<Longrightarrow>
    parseArrayOf parseRedaction (array_json redaction_json rs) path = Inr rs"
  by (simp_all add: parseArrayOf_def array_json_def array_readers findings.parse_array_render
      redactions.parse_array_render)

lemma dry_run_parts:
  "optionalAt (parseArrayOf parseRedaction) o' k path = Inr x \<Longrightarrow> pred_option (list_all redaction_ok) x"
  "optionalAt bodyAt o' k path = Inr b \<Longrightarrow> pred_option body_ok b"
  by (erule optionalAt_valid, simp add: parseArrayOf_redactions,
      erule optionalAt_valid, simp add: bodyAt_def body_ok_def res privacy)

lemma parsePrivacyDryRunResult_ok: "parsePrivacyDryRunResult v = Inr r \<Longrightarrow> dry_run_ok r"
  unfolding parsePrivacyDryRunResult_def Let_def
  by (elim bindE_InrE, drule dry_run_parts(1), drule dry_run_parts(2), drule parseArrayOf_findings,
      drule parseArrayOf_findings) (clarsimp simp: dry_run_ok_def privacy body_ok_def)

lemma parsePrivacyDryRunResult_json:
  assumes "dry_run_ok r"
  shows "parsePrivacyDryRunResult (dry_run_json r) = Inr r"
proof -
  have bodies: "bodyAt (JStr b) q = Inr b" if "dr_redacted_body r = Some b" for b q
    using that assms by (simp add: dry_run_ok_def bodyAt_def body_ok_def text_readers)
  have redacted: "parseArrayOf parseRedaction (array_json redaction_json rs) q = Inr rs"
    if "dr_redactions r = Some rs" for rs q
    using that assms by (simp add: dry_run_ok_def parseArrayOf_json)
  show ?thesis
    using assms
    by (simp add: parsePrivacyDryRunResult_def dry_run_json_def dry_run_ok_def reader_eval
        enum_parsers parseArrayOf_json bodies redacted body_ok_def
        optionalAt_opt_val [where f = "array_json redaction_json"] optionalAt_opt_val [where f = JStr])
qed

interpretation dry_runs: json_codec "\<lambda>v _. parsePrivacyDryRunResult v" dry_run_json dry_run_ok
  by unfold_locales (fact parsePrivacyDryRunResult_ok parsePrivacyDryRunResult_json)+

section \<open>Properties\<close>

text \<open>
  In an accepted dry-run answer every finding, reported or suppressed, spans a
  non-empty range of non-negative offsets with a confidence between 0 and 1, and the answer
  written back as JSON reads as itself.
\<close>

theorem dry_run_result_sound:
  assumes "parsePrivacyDryRunResult v = Inr r"
  shows "list_all (\<lambda>f. 0 \<le> df_start f \<and> df_start f < df_end f
        \<and> 0 \<le> df_confidence f \<and> df_confidence f \<le> 1) (dr_findings r @ dr_suppressed_findings r)
    \<and> parsePrivacyDryRunResult (dry_run_json r) = Inr r"
  using dry_runs.parse_valid [OF assms] dry_runs.reparse [OF assms]
  by (auto simp: dry_run_ok_def finding_ok_def list_all_iff)

definition sample_dry_run :: dry_run_result where
  "sample_dry_run = \<lparr>dr_decision = Redact, dr_findings_summary = js ''1 email'',
     dr_findings = [\<lparr>df_kind = Email, df_path = js ''messages[0]'', df_start = 3, df_end = 9,
       df_confidence = 1, df_reason = None\<rparr>],
     dr_suppressed_findings = [], dr_redactions = None, dr_redacted_body = None,
     dr_inspected_body = js ''{}''\<rparr>"

theorem dry_run_result_sound_witness:
  "parsePrivacyDryRunResult (dry_run_json sample_dry_run) = Inr sample_dry_run"
proof -
  have "dry_run_ok sample_dry_run"
    by (simp add: dry_run_ok_def sample_dry_run_def finding_ok_def body_ok_def text_ok_def
        max_safe_def MAX_PRIVACY_DRY_RUN_BODY_CHARS_def)
  from dry_run_result_sound [OF parsePrivacyDryRunResult_json [OF this]] show ?thesis by blast
qed

text \<open>Every code point takes one to four bytes.\<close>

lemma utf8_width_bounds: "1 \<le> utf8_width c \<and> utf8_width c \<le> 4"
  by (simp add: utf8_width_def)

lemma utf8_length_bounds:
  "length (code_points s) \<le> utf8_length s \<and> utf8_length s \<le> 4 * length (code_points s)"
proof -
  have "length cs \<le> sum_list (map utf8_width cs) \<and> sum_list (map utf8_width cs) \<le> 4 * length cs" for cs
  proof (induction cs)
    case (Cons c cs)
    then show ?case using utf8_width_bounds [of c] by simp
  qed simp
  then show ?thesis by (simp add: utf8_length_def)
qed

text \<open>
  The sample of a dry run is limited by its UTF-8 size, exactly. A non-empty
  sample for a known protocol without a patch is accepted up to 262144 bytes and refused above with the
  size in the message; so every sample of at most 65536 characters fits and none of more than
  262144 does.
\<close>

theorem dry_run_sample_limit:
  assumes "field input ''protocol'' = js_str (protocol_name protocol)"
    and "field input ''sample_text'' = JStr sample" and "sample \<noteq> []" and "field input ''policy'' = JUndef"
  shows "validatePrivacyDryRunInput input =
      (if utf8_length sample \<le> 262144
       then Inr \<lparr>di_protocol = protocol, di_sample_text = sample, di_policy = None\<rparr>
       else Inl (Localized (js ''privacy.sampleTooLong'')
              [(js ''bytes'', utf8_length sample), (js ''max'', 262144)]))
    \<and> (length (code_points sample) \<le> 65536 \<longrightarrow> utf8_length sample \<le> 262144)
    \<and> (utf8_length sample \<le> 262144 \<longrightarrow> length (code_points sample) \<le> 262144)"
  using assms utf8_length_bounds [of sample]
  by (auto simp: validatePrivacyDryRunInput_def enumAt_def dry_run_protocol_enum.enum_of_name
      utf8ByteLength_def MAX_PRIVACY_DRY_RUN_SAMPLE_BYTES_def Let_def)

theorem dry_run_sample_limit_witness:
  "validatePrivacyDryRunInput [(js ''protocol'', js_str ''openai.chat''), (js ''sample_text'', JStr (js ''hi''))]
    = Inr \<lparr>di_protocol = OpenaiChat, di_sample_text = js ''hi'', di_policy = None\<rparr>"
proof -
  have "utf8_length (js ''hi'') \<le> 262144"
    by (simp add: utf8_length_def) (simp add: js_def utf8_width_def)
  then show ?thesis
    using dry_run_sample_limit [of "[(js ''protocol'', js_str ''openai.chat''), (js ''sample_text'', JStr (js ''hi''))]"
        OpenaiChat "js ''hi''"]
    by simp
qed
end
