(* ===== verification/Js_Numbers.thy ===== *)
theory Js_Numbers
  imports Json_Values
begin

text \<open>
  Numbers as text: \<open>Number(text)\<close> on a string, subtraction and sign. A finite number is
  exact; the rounding of a double, which no caller here reaches, is not modelled.
\<close>

section \<open>Decimal texts\<close>

lemma digits_value_Cons: "digits_value (c # s) = (c - 48) * 10 ^ length s + digits_value s"
proof (induction s rule: rev_induct)
  case Nil
  then show ?case by (simp add: digits_value_def)
next
  case (snoc d s)
  have "digits_value (c # s @ [d]) = 10 * digits_value (c # s) + (d - 48)"
    using digits_value_snoc [of "c # s" d] by simp
  then show ?case by (simp add: snoc digits_value_snoc algebra_simps)
qed

lemma digits_value_less: "list_all is_digit s \<Longrightarrow> digits_value s < 10 ^ length s"
  by (induction s rule: rev_induct) (auto simp: digits_value_snoc is_digit_def digits_value_def)

lemma dec_unfold: "dec n = (if n < 10 then [48 + n] else dec (n div 10) @ [48 + n mod 10])"
  by (rule dec.simps)

lemma dec_nonempty [simp]: "dec n \<noteq> []"
  by (subst dec_unfold) simp

lemma dec_all_digits [simp]: "list_all is_digit (dec n)"
  by (simp add: list_all_iff dec_digits)

text \<open>A run of digits without a leading zero is the decimal text of its value.\<close>

lemma dec_digits_value:
  assumes "list_all is_digit s" and "s \<noteq> []" and "hd s \<noteq> 48 \<or> length s = 1"
  shows "dec (digits_value s) = s"
  using assms
proof (induction s rule: rev_induct)
  case Nil
  then show ?case by simp
next
  case (snoc d s)
  have d: "48 \<le> d" "d \<le> 57" using snoc.prems(1) by (simp_all add: is_digit_def)
  show ?case
  proof (cases "s = []")
    case True
    with d show ?thesis by (subst dec_unfold) (simp add: digits_value_def)
  next
    case False
    then obtain c t where s: "s = c # t" by (cases s) auto
    have c: "is_digit c" "c \<noteq> 48" using snoc.prems s by auto
    then have pos: "0 < digits_value s"
      unfolding s digits_value_Cons by (simp add: is_digit_def)
    have "dec (digits_value s) = s"
      using snoc.IH snoc.prems(1) False c s by simp
    moreover obtain e where e: "d = 48 + e" "e < 10" using d by (auto simp: le_iff_add)
    moreover have "digits_value (s @ [d]) = 10 * digits_value s + e"
      by (simp add: digits_value_snoc e)
    moreover have "\<not> 10 * digits_value s + e < 10" using pos by simp
    ultimately show ?thesis by (subst dec_unfold) simp
  qed
qed

lemma hd_dec: "n \<noteq> 0 \<Longrightarrow> hd (dec n) \<noteq> 48"
proof (induction n rule: dec.induct)
  case (1 n)
  then show ?case by (subst dec_unfold) (auto simp: hd_append)
qed

lemma length_dec: "length (dec n) = 1 \<or> n \<ge> 10 ^ (length (dec n) - 1)"
proof (induction n rule: dec.induct)
  case (1 n)
  show ?case
  proof (cases "n < 10")
    case True
    then show ?thesis by (subst dec_unfold) simp
  next
    case False
    then have l: "length (dec n) = Suc (length (dec (n div 10)))" by (subst dec_unfold) simp
    have "10 ^ (length (dec (n div 10)) - 1) \<le> n div 10"
      using 1 False by (cases "length (dec (n div 10)) = 1") auto
    then have "10 * 10 ^ (length (dec (n div 10)) - 1) \<le> n" by simp
    moreover have "length (dec (n div 10)) \<noteq> 0" by simp
    ultimately show ?thesis
      unfolding l by (metis Suc_pred' diff_Suc_1 not_gr_zero power_Suc)
  qed
qed

lemma length_dec_le:
  assumes "n < 10 ^ k" and "0 < k"
  shows "length (dec n) \<le> k"
proof (cases "length (dec n) = 1")
  case False
  then have "(10::nat) ^ (length (dec n) - 1) < 10 ^ k"
    using length_dec [of n] assms(1) by linarith
  then have "length (dec n) - 1 < k" by (rule power_less_imp_less_exp [rotated]) simp
  then show ?thesis by simp
qed (use assms in simp)

section \<open>\<open>Number(text)\<close>\<close>

definition base_digit :: "nat \<Rightarrow> nat" where
  "base_digit c = (if is_digit c then c - 48 else if is_lower c then c - 87
     else if is_upper c then c - 55 else 36)"

definition radix_value :: "nat \<Rightarrow> jstr \<Rightarrow> nat" where
  "radix_value b s = foldl (\<lambda>n c. b * n + base_digit c) 0 s"

text \<open>\<open>0x\<close>, \<open>0o\<close> and \<open>0b\<close>, either case: the base and the digits after it.\<close>

definition radix_literal :: "jstr \<Rightarrow> (nat \<times> jstr) option" where
  "radix_literal s = (case s of
     z # x # ds \<Rightarrow>
       (if z \<noteq> 48 then None
        else if x = 120 \<or> x = 88 then Some (16, ds)
        else if x = 111 \<or> x = 79 then Some (8, ds)
        else if x = 98 \<or> x = 66 then Some (2, ds) else None)
   | _ \<Rightarrow> None)"

definition sign_split :: "jstr \<Rightarrow> bool \<times> jstr" where
  "sign_split s = (case s of
     c # t \<Rightarrow> (if c = 45 then (True, t) else if c = 43 then (False, t) else (False, s))
   | [] \<Rightarrow> (False, []))"

text \<open>\<open>Math.round\<close>: halves go up.\<close>

definition js_round :: "rat \<Rightarrow> int" where
  "js_round x = \<lfloor>x + 1 / 2\<rfloor>"

lemma foldl_max_upper:
  assumes "x \<in> set xs"
  shows "x \<le> foldl max (n :: int) xs"
  using assms
proof (induction xs arbitrary: n)
  case (Cons y ys)
  have "m \<le> foldl max m zs" for m :: int and zs
    by (induction zs arbitrary: m) (auto intro: order_trans [OF max.cobounded1])
  from this [of "max n y" ys] Cons show ?case by auto
qed simp

lemma foldl_max_member: "foldl max (n :: int) xs = n \<or> foldl max n xs \<in> set xs"
proof (induction xs arbitrary: n)
  case (Cons y ys)
  from Cons.IH [of "max n y"] show ?case by (auto simp: max_def split: if_splits)
qed simp

lemma js_round_percent:
  assumes "0 \<le> n" and "n \<le> peak"
  shows "0 \<le> js_round (of_int n / of_int peak * 100)" and "js_round (of_int n / of_int peak * 100) \<le> 100"
proof -
  have q: "0 \<le> (of_int n / of_int peak :: rat)" "(of_int n / of_int peak :: rat) \<le> 1"
    using assms by (auto simp: divide_le_eq_1)
  then show "0 \<le> js_round (of_int n / of_int peak * 100)" by (simp add: js_round_def)
  have "(of_int n / of_int peak * 100 + 1 / 2 :: rat) < 101" using q by linarith
  then show "js_round (of_int n / of_int peak * 100) \<le> 100"
    unfolding js_round_def by (simp add: floor_less_iff flip: int_le_real_less zle_add1_eq_le)
qed

text \<open>The exponent part: nothing, or \<open>e\<close>, an optional sign and digits to the end.\<close>

definition exponent_value :: "jstr \<Rightarrow> int option" where
  "exponent_value s = (case s of
     [] \<Rightarrow> Some 0
   | e # t \<Rightarrow>
       (if e \<noteq> 101 \<and> e \<noteq> 69 then None
        else let (neg, ds) = sign_split t in
          if ds \<noteq> [] \<and> list_all is_digit ds
          then Some (if neg then - int (digits_value ds) else int (digits_value ds)) else None))"

definition pow10 :: "int \<Rightarrow> rat" where
  "pow10 e = (if 0 \<le> e then 10 ^ nat e else 1 / 10 ^ nat (- e))"

definition decimal_literal :: "jstr \<Rightarrow> rat option" where
  "decimal_literal s =
     (let i = takeWhile is_digit s; r = dropWhile is_digit s;
          (frac, r') = (case r of
             c # t \<Rightarrow> (if c = 46 then (takeWhile is_digit t, dropWhile is_digit t) else ([], r))
           | [] \<Rightarrow> ([], [])) in
      if i = [] \<and> frac = [] then None
      else map_option (\<lambda>e. rat_of_nat (digits_value (i @ frac)) * pow10 (e - int (length frac)))
             (exponent_value r'))"

definition js_Number :: "jstr \<Rightarrow> jnum" where
  "js_Number text =
     (let s = trim text in
      if s = [] then Fin 0
      else case radix_literal s of
        Some (b, ds) \<Rightarrow>
          (if ds \<noteq> [] \<and> list_all (\<lambda>c. base_digit c < b) ds
           then Fin (rat_of_nat (radix_value b ds)) else NaN)
      | None \<Rightarrow>
          (let (neg, body) = sign_split s in
           if body = js ''Infinity'' then (if neg then NegInf else PosInf)
           else case decimal_literal body of
             None \<Rightarrow> NaN
           | Some q \<Rightarrow> Fin (if neg then - q else q)))"

section \<open>Subtraction and sign\<close>

fun jnum_minus :: "jnum \<Rightarrow> jnum \<Rightarrow> jnum" where
  "jnum_minus (Fin a) (Fin b) = Fin (a - b)"
| "jnum_minus NaN y = NaN"
| "jnum_minus x NaN = NaN"
| "jnum_minus PosInf PosInf = NaN"
| "jnum_minus NegInf NegInf = NaN"
| "jnum_minus PosInf y = PosInf"
| "jnum_minus NegInf y = NegInf"
| "jnum_minus x PosInf = NegInf"
| "jnum_minus x NegInf = PosInf"

fun jnum_sign :: "jnum \<Rightarrow> jnum" where
  "jnum_sign (Fin a) = Fin (sgn a)"
| "jnum_sign PosInf = Fin 1"
| "jnum_sign NegInf = Fin (- 1)"
| "jnum_sign NaN = NaN"

lemma digit_not_space: "is_digit c \<Longrightarrow> \<not> js_space c"
  by (auto simp: is_digit_def js_space_def)

lemma trim_digits: "list_all is_digit s \<Longrightarrow> trim s = s"
proof -
  have keep: "dropWhile js_space t = t" if "list_all is_digit t" for t
    using that digit_not_space by (cases t) auto
  assume "list_all is_digit s"
  then show ?thesis by (simp add: trim_def keep list.pred_set)
qed

lemma js_Number_digits:
  assumes "list_all is_digit s" and "s \<noteq> []"
  shows "js_Number s = Fin (rat_of_nat (digits_value s))"
proof -
  obtain c t where s: "s = c # t" using assms(2) by (cases s) auto
  have "radix_literal s = None"
    using assms(1) unfolding s
    by (cases t) (auto simp: radix_literal_def is_digit_def)
  moreover have "sign_split s = (False, s)"
    using assms(1) unfolding s by (auto simp: sign_split_def is_digit_def)
  moreover have "s \<noteq> js ''Infinity''"
    using assms(1) by (auto simp: js_def is_digit_def)
  moreover have "decimal_literal s = Some (rat_of_nat (digits_value s))"
  proof -
    have run: "takeWhile is_digit s = s" "dropWhile is_digit s = []"
      using assms(1) by (auto simp: list_all_iff takeWhile_eq_all_conv)
    show ?thesis unfolding decimal_literal_def run using assms(2) by (simp add: exponent_value_def pow10_def)
  qed
  ultimately show ?thesis
    using assms by (simp add: js_Number_def trim_digits)
qed

lemma js_Number_dec [simp]: "js_Number (dec n) = Fin (rat_of_nat n)"
  by (simp add: js_Number_digits)

section \<open>Runs of digits\<close>

lemma digits_value_Nil [simp]: "digits_value [] = 0"
  by (simp add: digits_value_def)

lemma digits_value_append: "digits_value (a @ b) = digits_value a * 10 ^ length b + digits_value b"
  by (induction b rule: rev_induct) (simp_all add: digits_value_snoc algebra_simps flip: append_assoc)

lemma digits_value_zeros: "digits_value (replicate n 48) = 0"
  by (induction n) (simp_all add: digits_value_Cons)

lemma radix_literal_digits: "list_all is_digit s \<Longrightarrow> radix_literal s = None"
  by (cases s rule: list.exhaust; cases "tl s") (auto simp: radix_literal_def is_digit_def)

lemma sign_split_digits: "list_all is_digit s \<Longrightarrow> sign_split s = (False, s)"
  by (cases s) (auto simp: sign_split_def is_digit_def)

end
