(* ===== verification/Privacy_Models.thy ===== *)
theory Privacy_Models
  imports Privacy_Policy Js_Numbers
begin

text \<open>
  The local privacy models of \<open>privacy-policy-model.ts\<close>: the catalog and its releases, the
  probe of a repository, the installations with their life cycle, and the inputs a caller
  sends to probe and install.
\<close>

section \<open>Vocabulary\<close>

datatype privacy_model_adapter =
    OpenaiBioesViterbi | HfTokenClassification | PplxBioesViterbi | AstrlinkSensitiveGuard

fun adapter_name :: "privacy_model_adapter \<Rightarrow> string" where
  "adapter_name OpenaiBioesViterbi = ''openai_bioes_viterbi''"
| "adapter_name HfTokenClassification = ''hf_token_classification''"
| "adapter_name PplxBioesViterbi = ''pplx_bioes_viterbi''"
| "adapter_name AstrlinkSensitiveGuard = ''astrlink_sensitive_guard''"

definition adapters :: "privacy_model_adapter list" where
  "adapters =
     [OpenaiBioesViterbi, HfTokenClassification, PplxBioesViterbi, AstrlinkSensitiveGuard]"

interpretation privacy_model_adapter_enum: string_enum adapters adapter_name
proof
  show "x \<in> set adapters" for x by (cases x) (simp_all add: adapters_def)
  show "distinct (map adapter_name adapters)" by (simp add: adapters_def)
qed

datatype unsupported_reason =
    CpuOnly | RequiresMacos26

fun unsupported_name :: "unsupported_reason \<Rightarrow> string" where
  "unsupported_name CpuOnly = ''cpu_only''"
| "unsupported_name RequiresMacos26 = ''requires_macos_26''"

definition unsupportedReasons :: "unsupported_reason list" where
  "unsupportedReasons =
     [CpuOnly, RequiresMacos26]"

interpretation unsupported_reason_enum: string_enum unsupportedReasons unsupported_name
proof
  show "x \<in> set unsupportedReasons" for x by (cases x) (simp_all add: unsupportedReasons_def)
  show "distinct (map unsupported_name unsupportedReasons)" by (simp add: unsupportedReasons_def)
qed

datatype catalog_source =
    Official | Community

fun catalog_source_name :: "catalog_source \<Rightarrow> string" where
  "catalog_source_name Official = ''official''"
| "catalog_source_name Community = ''community''"

definition catalogSources :: "catalog_source list" where
  "catalogSources =
     [Official, Community]"

interpretation catalog_source_enum: string_enum catalogSources catalog_source_name
proof
  show "x \<in> set catalogSources" for x by (cases x) (simp_all add: catalogSources_def)
  show "distinct (map catalog_source_name catalogSources)" by (simp add: catalogSources_def)
qed

datatype installation_source =
    FromCatalog | FromCustom | FromLocal

fun installation_source_name :: "installation_source \<Rightarrow> string" where
  "installation_source_name FromCatalog = ''catalog''"
| "installation_source_name FromCustom = ''custom''"
| "installation_source_name FromLocal = ''local''"

definition installationSources :: "installation_source list" where
  "installationSources =
     [FromCatalog, FromCustom, FromLocal]"

interpretation installation_source_enum: string_enum installationSources installation_source_name
proof
  show "x \<in> set installationSources" for x by (cases x) (simp_all add: installationSources_def)
  show "distinct (map installation_source_name installationSources)" by (simp add: installationSources_def)
qed

datatype installation_phase =
    Downloading | Paused | Ready | Failed

fun phase_name :: "installation_phase \<Rightarrow> string" where
  "phase_name Downloading = ''downloading''"
| "phase_name Paused = ''paused''"
| "phase_name Ready = ''ready''"
| "phase_name Failed = ''error''"

definition installationPhases :: "installation_phase list" where
  "installationPhases =
     [Downloading, Paused, Ready, Failed]"

interpretation installation_phase_enum: string_enum installationPhases phase_name
proof
  show "x \<in> set installationPhases" for x by (cases x) (simp_all add: installationPhases_def)
  show "distinct (map phase_name installationPhases)" by (simp add: installationPhases_def)
qed

datatype installation_error =
    DownloadFailed | IntegrityFailed | IncompatibleModel

fun installation_error_name :: "installation_error \<Rightarrow> string" where
  "installation_error_name DownloadFailed = ''download_failed''"
| "installation_error_name IntegrityFailed = ''integrity_failed''"
| "installation_error_name IncompatibleModel = ''incompatible_model''"

definition installationErrors :: "installation_error list" where
  "installationErrors =
     [DownloadFailed, IntegrityFailed, IncompatibleModel]"

interpretation installation_error_enum: string_enum installationErrors installation_error_name
proof
  show "x \<in> set installationErrors" for x by (cases x) (simp_all add: installationErrors_def)
  show "distinct (map installation_error_name installationErrors)" by (simp add: installationErrors_def)
qed

datatype preparation_state =
    Preparing | Prepared | PreparationFailed

fun preparation_state_name :: "preparation_state \<Rightarrow> string" where
  "preparation_state_name Preparing = ''preparing''"
| "preparation_state_name Prepared = ''ready''"
| "preparation_state_name PreparationFailed = ''failed''"

definition preparationStates :: "preparation_state list" where
  "preparationStates =
     [Preparing, Prepared, PreparationFailed]"

interpretation preparation_state_enum: string_enum preparationStates preparation_state_name
proof
  show "x \<in> set preparationStates" for x by (cases x) (simp_all add: preparationStates_def)
  show "distinct (map preparation_state_name preparationStates)" by (simp add: preparationStates_def)
qed

datatype preparation_fallback =
    FallbackLocalModel | FallbackRegex

fun fallback_name :: "preparation_fallback \<Rightarrow> string" where
  "fallback_name FallbackLocalModel = ''local_model''"
| "fallback_name FallbackRegex = ''regex''"

definition preparationFallbacks :: "preparation_fallback list" where
  "preparationFallbacks =
     [FallbackLocalModel, FallbackRegex]"

interpretation preparation_fallback_enum: string_enum preparationFallbacks fallback_name
proof
  show "x \<in> set preparationFallbacks" for x by (cases x) (simp_all add: preparationFallbacks_def)
  show "distinct (map fallback_name preparationFallbacks)" by (simp add: preparationFallbacks_def)
qed

type_synonym label_mapping = "(jstr \<times> privacy_kind option) list"

record privacy_model_variant =
  mv_id :: jstr
  mv_name :: jstr
  mv_quantization :: jstr
  mv_bytes_total :: int
  mv_estimated_ram_bytes :: int
  mv_recommended :: bool
  mv_supported :: bool
  mv_unsupported_reason :: "unsupported_reason option"

record privacy_catalog_model =
  cm_id :: jstr
  cm_name :: jstr
  cm_summary :: jstr
  cm_source :: catalog_source
  cm_repo_id :: jstr
  cm_revision :: jstr
  cm_license :: jstr
  cm_languages :: "jstr list"
  cm_adapter :: privacy_model_adapter
  cm_variants :: "privacy_model_variant list"
  cm_version :: "jstr option"
  cm_recommended :: bool

record privacy_model_probe_label =
  pl_label :: jstr
  pl_suggested_kind :: "privacy_kind option"
  pl_suggested_ignore :: "bool option"

record privacy_model_probe =
  pb_repo_id :: jstr
  pb_requested_revision :: jstr
  pb_revision :: jstr
  pb_name :: jstr
  pb_license :: "jstr option"
  pb_languages :: "jstr list"
  pb_adapter :: privacy_model_adapter
  pb_variants :: "privacy_model_variant list"
  pb_labels :: "privacy_model_probe_label list"
  pb_requires_label_mapping :: bool

record privacy_model_preparation =
  prep_state :: preparation_state
  prep_fallback :: "preparation_fallback option"

record privacy_model_installation =
  mi_id :: jstr
  mi_source :: installation_source
  mi_catalog_id :: "jstr option"
  mi_catalog_source :: "catalog_source option"
  mi_name :: jstr
  mi_license :: "jstr option"
  mi_languages :: "jstr list"
  mi_repo_id :: jstr
  mi_revision :: jstr
  mi_variant_id :: jstr
  mi_variant_name :: jstr
  mi_quantization :: jstr
  mi_adapter :: privacy_model_adapter
  mi_status :: installation_phase
  mi_bytes_downloaded :: int
  mi_bytes_total :: int
  mi_estimated_ram_bytes :: int
  mi_error :: "installation_error option"
  mi_label_mapping :: label_mapping
  mi_installed_at :: "jstr option"
  mi_preparation :: "privacy_model_preparation option"

record probe_input =
  qi_repo_id :: jstr
  qi_revision :: jstr

record install_input =
  ii_repo_id :: jstr
  ii_revision :: jstr
  ii_variant_id :: jstr
  ii_label_mapping :: label_mapping

section \<open>Variants and label mappings\<close>

definition adapterAt :: "json \<Rightarrow> jstr \<Rightarrow> js_error + privacy_model_adapter" where
  "adapterAt = enumAt adapters adapter_name ''unknown model adapter''"

definition licenseAt :: "json \<Rightarrow> jstr \<Rightarrow> js_error + jstr" where
  "licenseAt value path = metadataStringAt value path 1 64"

definition kindOrNullAt :: "json \<Rightarrow> jstr \<Rightarrow> js_error + privacy_kind option" where
  "kindOrNullAt = nullableAt canonicalKindAt"

definition readLabel :: "jstr \<Rightarrow> jstr \<times> json \<Rightarrow> js_error + jstr \<times> privacy_kind option" where
  "readLabel path entry =
     bindE (throwIf (\<not> matches labelPattern (fst entry))
              (invalid (path @ js '' key'') (js ''invalid model label''))) (\<lambda>_.
     bindE (kindOrNullAt (snd entry) (at_key path (fst entry))) (\<lambda>kind.
     Inr (fst entry, kind)))"

definition parseLabelMapping :: "json \<Rightarrow> jstr \<Rightarrow> js_error + label_mapping" where
  "parseLabelMapping value path =
     bindE (objectAt value path) (\<lambda>mapping.
     bindE (throwIf (length mapping > 256) (invalid path (js ''too many label mappings''))) (\<lambda>_.
     mapE (\<lambda>_. readLabel path) 0 mapping))"

definition parseVariant :: "json \<Rightarrow> jstr \<Rightarrow> js_error + privacy_model_variant" where
  "parseVariant value path =
     bindE (objectAt value path) (\<lambda>variant.
     bindE (keysAt variant
       [''id'', ''name'', ''quantization'', ''bytes_total'', ''estimated_ram_bytes'', ''recommended'',
        ''supported'', ''unsupported_reason''] [] path) (\<lambda>_.
     bindE (booleanAt (field variant ''supported'') (at_field path ''supported'')) (\<lambda>supported.
     bindE (nullableAt (enumAt unsupportedReasons unsupported_name ''unknown unsupported reason'')
              (field variant ''unsupported_reason'') (at_field path ''unsupported_reason'')) (\<lambda>reason.
     bindE (throwIf (supported \<noteq> (reason = None))
              (invalid path (js ''supported state and unsupported reason are inconsistent''))) (\<lambda>_.
     bindE (safeIntegerAt (field variant ''bytes_total'') (at_field path ''bytes_total'') 0) (\<lambda>bytesTotal.
     bindE (throwIf (supported \<and> bytesTotal = 0)
              (invalid (at_field path ''bytes_total'')
                (js ''supported variants must have content''))) (\<lambda>_.
     bindE (variantIDAt (field variant ''id'') (at_field path ''id'')) (\<lambda>id'.
     bindE (metadataStringAt (field variant ''name'') (at_field path ''name'') 1 64) (\<lambda>name.
     bindE (metadataStringAt (field variant ''quantization'') (at_field path ''quantization'') 1 32) (\<lambda>quantization.
     bindE (safeIntegerAt (field variant ''estimated_ram_bytes'')
              (at_field path ''estimated_ram_bytes'') 0) (\<lambda>ram.
     bindE (booleanAt (field variant ''recommended'') (at_field path ''recommended'')) (\<lambda>recommended.
     Inr \<lparr>mv_id = id', mv_name = name, mv_quantization = quantization, mv_bytes_total = bytesTotal,
          mv_estimated_ram_bytes = ram, mv_recommended = recommended, mv_supported = supported,
          mv_unsupported_reason = reason\<rparr>))))))))))))"

definition parseVariants :: "json \<Rightarrow> jstr \<Rightarrow> js_error + privacy_model_variant list" where
  "parseVariants value path =
     bindE (arrayAt (js ''expected 1 to 32 variants'') value path) (\<lambda>items.
     bindE (throwIf (length items = 0 \<or> length items > 32)
              (invalid path (js ''expected 1 to 32 variants''))) (\<lambda>_.
     bindE (mapE (\<lambda>i item. parseVariant item (at_index path i)) 0 items) (\<lambda>variants.
     bindE (throwIf (\<not> distinct (map mv_id variants)) (invalid path (js ''duplicate variant ID''))) (\<lambda>_.
     Inr variants))))"

section \<open>Catalog and releases\<close>

text \<open>\<open>/^(0|[1-9][0-9]{0,5})\.(0|[1-9][0-9]{0,5})\.(0|[1-9][0-9]{0,5})$/\<close>\<close>

definition release_number_rx :: rx where
  "release_number_rx = Alt (chr CHR ''0'')
     (Seq (Cls (\<lambda>c. is_digit c \<and> c \<noteq> 48)) (Rep 0 5 (Cls is_digit)))"

definition releaseVersionPattern :: rx where
  "releaseVersionPattern =
     seqs [release_number_rx, chr CHR ''.'', release_number_rx, chr CHR ''.'', release_number_rx]"

definition releaseVersionAt :: "json \<Rightarrow> jstr \<Rightarrow> js_error + jstr option" where
  "releaseVersionAt value path =
     (if value = JNull then Inr None
      else
        bindE (orThrow (invalid path (js ''expected a release version'')) (jstring value)) (\<lambda>s.
        bindE (throwIf (\<not> matches releaseVersionPattern s)
                 (invalid path (js ''expected a release version''))) (\<lambda>_. Inr (Some s))))"

definition part_at :: "jnum list \<Rightarrow> nat \<Rightarrow> jnum" where
  "part_at parts i = (if i < length parts then parts ! i else Fin 0)"

text \<open>The loop over the three parts: the first difference that is not zero decides.\<close>

fun compare_parts :: "jnum list \<Rightarrow> jnum list \<Rightarrow> nat list \<Rightarrow> jnum" where
  "compare_parts left right [] = Fin 0"
| "compare_parts left right (i # is) =
     (let difference = jnum_minus (part_at left i) (part_at right i) in
      if difference \<noteq> Fin 0 then jnum_sign difference else compare_parts left right is)"

definition compareReleaseVersions :: "jstr \<Rightarrow> jstr \<Rightarrow> jnum" where
  "compareReleaseVersions left right =
     compare_parts (map js_Number (split_on 46 left)) (map js_Number (split_on 46 right)) [0, 1, 2]"

definition parseCatalogModel :: "json \<Rightarrow> jstr \<Rightarrow> js_error + privacy_catalog_model" where
  "parseCatalogModel item path =
     bindE (objectAt item path) (\<lambda>model.
     bindE (keysAt model
       [''id'', ''name'', ''summary'', ''source'', ''repo_id'', ''revision'', ''license'', ''languages'',
        ''adapter'', ''variants'', ''version'', ''recommended''] [] path) (\<lambda>_.
     bindE (enumAt catalogSources catalog_source_name ''unknown catalog source''
              (field model ''source'') (at_field path ''source'')) (\<lambda>source.
     bindE (catalogIDAt (field model ''id'') (at_field path ''id'')) (\<lambda>id'.
     bindE (metadataStringAt (field model ''name'') (at_field path ''name'') 1 128) (\<lambda>name.
     bindE (metadataStringAt (field model ''summary'') (at_field path ''summary'') 1 512) (\<lambda>summary.
     bindE (repoIDAt (field model ''repo_id'') (at_field path ''repo_id'')) (\<lambda>repo.
     bindE (revisionAt (field model ''revision'') (at_field path ''revision'')) (\<lambda>revision.
     bindE (metadataStringAt (field model ''license'') (at_field path ''license'') 1 64) (\<lambda>license.
     bindE (stringArrayAt (field model ''languages'') (at_field path ''languages'') 32) (\<lambda>languages.
     bindE (adapterAt (field model ''adapter'') (at_field path ''adapter'')) (\<lambda>adapter.
     bindE (parseVariants (field model ''variants'') (at_field path ''variants'')) (\<lambda>variants.
     bindE (releaseVersionAt (field model ''version'') (at_field path ''version'')) (\<lambda>version.
     bindE (booleanAt (field model ''recommended'') (at_field path ''recommended'')) (\<lambda>recommended.
     Inr \<lparr>cm_id = id', cm_name = name, cm_summary = summary, cm_source = source, cm_repo_id = repo,
          cm_revision = revision, cm_license = license, cm_languages = languages,
          cm_adapter = adapter, cm_variants = variants, cm_version = version,
          cm_recommended = recommended\<rparr>))))))))))))))"

definition parsePrivacyModelCatalog :: "json \<Rightarrow> js_error + privacy_catalog_model list" where
  "parsePrivacyModelCatalog value =
     bindE (objectAt value (js ''$'')) (\<lambda>catalog.
     bindE (keysAt catalog [''items''] [] (js ''$'')) (\<lambda>_.
     bindE (arrayAt (js ''expected at most 100 catalog models'') (field catalog ''items'') (js ''$.items'')) (\<lambda>entries.
     bindE (throwIf (length entries > 100)
              (invalid (js ''$.items'') (js ''expected at most 100 catalog models''))) (\<lambda>_.
     bindE (mapE (\<lambda>i item. parseCatalogModel item (at_index (js ''$.items'') i)) 0 entries) (\<lambda>items.
     bindE (throwIf (\<not> distinct (map cm_id items))
              (invalid (js ''$.items'') (js ''duplicate catalog model ID''))) (\<lambda>_.
     Inr items))))))"

section \<open>Probes\<close>

definition parseProbeLabel :: "json \<Rightarrow> jstr \<Rightarrow> js_error + privacy_model_probe_label" where
  "parseProbeLabel item path =
     bindE (objectAt item path) (\<lambda>label.
     bindE (keysAt label [''label'', ''suggested_kind''] [''suggested_ignore''] path) (\<lambda>_.
     bindE (if field label ''suggested_ignore'' = JUndef then Inr None
            else bindE (booleanAt (field label ''suggested_ignore'')
                          (at_field path ''suggested_ignore'')) (\<lambda>b. Inr (Some b))) (\<lambda>suggestedIgnore.
     bindE (throwIf (suggestedIgnore = Some True \<and> field label ''suggested_kind'' \<noteq> JNull)
              (invalid path (js ''label suggestion cannot map and ignore''))) (\<lambda>_.
     bindE (labelAt (field label ''label'') (at_field path ''label'')) (\<lambda>name.
     bindE (kindOrNullAt (field label ''suggested_kind'') (at_field path ''suggested_kind'')) (\<lambda>kind.
     Inr \<lparr>pl_label = name, pl_suggested_kind = kind, pl_suggested_ignore = suggestedIgnore\<rparr>))))))"

definition needs_mapping :: "privacy_model_probe_label \<Rightarrow> bool" where
  "needs_mapping label \<longleftrightarrow> pl_suggested_kind label = None \<and> pl_suggested_ignore label \<noteq> Some True"

definition parsePrivacyModelProbe :: "json \<Rightarrow> js_error + privacy_model_probe" where
  "parsePrivacyModelProbe value =
     bindE (objectAt value (js ''$'')) (\<lambda>probe.
     bindE (keysAt probe
       [''repo_id'', ''requested_revision'', ''revision'', ''name'', ''license'', ''languages'',
        ''adapter'', ''variants'', ''labels'', ''requires_label_mapping''] [] (js ''$'')) (\<lambda>_.
     bindE (arrayAt (js ''expected 1 to 256 labels'') (field probe ''labels'') (js ''$.labels'')) (\<lambda>entries.
     bindE (throwIf (length entries = 0 \<or> length entries > 256)
              (invalid (js ''$.labels'') (js ''expected 1 to 256 labels''))) (\<lambda>_.
     bindE (mapE (\<lambda>i item. parseProbeLabel item (at_index (js ''$.labels'') i)) 0 entries) (\<lambda>labels.
     bindE (throwIf (\<not> distinct (map pl_label labels))
              (invalid (js ''$.labels'') (js ''duplicate model label''))) (\<lambda>_.
     bindE (booleanAt (field probe ''requires_label_mapping'') (js ''$.requires_label_mapping'')) (\<lambda>requires.
     bindE (throwIf (requires \<noteq> list_ex needs_mapping labels)
              (invalid (js ''$.requires_label_mapping'')
                (js ''inconsistent with label suggestions''))) (\<lambda>_.
     bindE (repoIDAt (field probe ''repo_id'') (js ''$.repo_id'')) (\<lambda>repo.
     bindE (requestedRevisionAt (field probe ''requested_revision'') (js ''$.requested_revision'')) (\<lambda>requested.
     bindE (revisionAt (field probe ''revision'') (js ''$.revision'')) (\<lambda>revision.
     bindE (metadataStringAt (field probe ''name'') (js ''$.name'') 1 128) (\<lambda>name.
     bindE (nullableAt licenseAt (field probe ''license'') (js ''$.license'')) (\<lambda>license.
     bindE (stringArrayAt (field probe ''languages'') (js ''$.languages'') 32) (\<lambda>languages.
     bindE (adapterAt (field probe ''adapter'') (js ''$.adapter'')) (\<lambda>adapter.
     bindE (parseVariants (field probe ''variants'') (js ''$.variants'')) (\<lambda>variants.
     Inr \<lparr>pb_repo_id = repo, pb_requested_revision = requested, pb_revision = revision,
          pb_name = name, pb_license = license, pb_languages = languages, pb_adapter = adapter,
          pb_variants = variants, pb_labels = labels, pb_requires_label_mapping = requires\<rparr>))))))))))))))))"

section \<open>Installations\<close>

definition preparationStateAt ::
  "preparation_fallback option \<Rightarrow> json \<Rightarrow> jstr \<Rightarrow> js_error + preparation_state"
where
  "preparationStateAt fallback value path =
     (let e = invalid path (js ''unknown preparation state'') in
      bindE (orThrow e (enum_of preparationStates preparation_state_name value)) (\<lambda>state.
      bindE (throwIf (state = Prepared \<and> fallback \<noteq> None) e) (\<lambda>_. Inr state)))"

definition readPreparation :: "json \<Rightarrow> jstr \<Rightarrow> js_error + privacy_model_preparation" where
  "readPreparation value path =
     bindE (objectAt value path) (\<lambda>preparation.
     bindE (keysAt preparation [''state'', ''fallback''] [] path) (\<lambda>_.
     bindE (nullableAt (enumAt preparationFallbacks fallback_name ''unknown preparation fallback'')
              (field preparation ''fallback'') (at_field path ''fallback'')) (\<lambda>fallback.
     bindE (preparationStateAt fallback (field preparation ''state'') (at_field path ''state'')) (\<lambda>state.
     Inr \<lparr>prep_state = state, prep_fallback = fallback\<rparr>))))"

definition parsePreparation :: "json \<Rightarrow> jstr \<Rightarrow> js_error + privacy_model_preparation option" where
  "parsePreparation = nullableAt readPreparation"

text \<open>\<open>/^local\/model-[0-9a-f]{12}$/\<close>\<close>

definition localRepoPattern :: rx where
  "localRepoPattern = Seq (word ''local/model-'') (Rep 12 12 (Cls is_lower_hex))"

definition bad_lifecycle ::
  "installation_phase \<Rightarrow> int \<Rightarrow> int \<Rightarrow> installation_error option \<Rightarrow> jstr option \<Rightarrow> bool"
where
  "bad_lifecycle status downloaded total' error installedAt \<longleftrightarrow>
     status = Ready \<and> (total' \<le> 0 \<or> downloaded \<noteq> total' \<or> error \<noteq> None \<or> installedAt = None)
     \<or> (status = Downloading \<or> status = Paused) \<and> (error \<noteq> None \<or> installedAt \<noteq> None)
     \<or> status = Failed \<and> (error = None \<or> installedAt \<noteq> None)"

definition installation_required :: "string list" where
  "installation_required =
     [''id'', ''source'', ''catalog_id'', ''catalog_source'', ''name'', ''license'', ''languages'',
      ''repo_id'', ''revision'', ''variant_id'', ''variant_name'', ''quantization'', ''adapter'',
      ''status'', ''bytes_downloaded'', ''bytes_total'', ''estimated_ram_bytes'', ''error'',
      ''label_mapping'', ''installed_at'', ''preparation'']"

definition parsePrivacyModelInstallation ::
  "json \<Rightarrow> jstr \<Rightarrow> js_error + privacy_model_installation"
where
  "parsePrivacyModelInstallation value path =
     bindE (objectAt value path) (\<lambda>installation.
     bindE (keysAt installation installation_required [] path) (\<lambda>_.
     bindE (enumAt installationSources installation_source_name ''unknown installation source''
              (field installation ''source'') (at_field path ''source'')) (\<lambda>source.
     bindE (enumAt installationPhases phase_name ''unknown installation status''
              (field installation ''status'') (at_field path ''status'')) (\<lambda>status.
     bindE (nullableAt catalogIDAt (field installation ''catalog_id'') (at_field path ''catalog_id'')) (\<lambda>catalogID.
     bindE (nullableAt (enumAt catalogSources catalog_source_name ''unknown catalog source'')
              (field installation ''catalog_source'') (at_field path ''catalog_source'')) (\<lambda>catalogSource.
     bindE (repoIDAt (field installation ''repo_id'') (at_field path ''repo_id'')) (\<lambda>repoID.
     bindE (throwIf ((source = FromCatalog) \<noteq> (catalogID \<noteq> None)
                     \<or> (source = FromCatalog) \<noteq> (catalogSource \<noteq> None))
              (invalid path (js ''installation catalog provenance is inconsistent''))) (\<lambda>_.
     bindE (throwIf ((source = FromLocal) \<noteq> matches localRepoPattern repoID)
              (invalid path (js ''installation local provenance is inconsistent''))) (\<lambda>_.
     bindE (safeIntegerAt (field installation ''bytes_downloaded'') (at_field path ''bytes_downloaded'') 0) (\<lambda>downloaded.
     bindE (safeIntegerAt (field installation ''bytes_total'') (at_field path ''bytes_total'') 0) (\<lambda>total.
     bindE (throwIf (downloaded > total) (invalid path (js ''download progress is inconsistent''))) (\<lambda>_.
     bindE (nullableAt (enumAt installationErrors installation_error_name ''unknown installation error'')
              (field installation ''error'') (at_field path ''error'')) (\<lambda>error.
     bindE (nullableAt rfc3339At (field installation ''installed_at'') (at_field path ''installed_at'')) (\<lambda>installedAt.
     bindE (throwIf (bad_lifecycle status downloaded total error installedAt)
              (invalid path (js ''installation lifecycle fields are inconsistent''))) (\<lambda>_.
     bindE (parsePreparation (field installation ''preparation'') (at_field path ''preparation'')) (\<lambda>preparation.
     bindE (throwIf (preparation \<noteq> None \<and> status \<noteq> Ready)
              (invalid (at_field path ''preparation'') (js ''only a ready installation is prepared''))) (\<lambda>_.
     bindE (installationIDAt (field installation ''id'') (at_field path ''id'')) (\<lambda>id'.
     bindE (metadataStringAt (field installation ''name'') (at_field path ''name'') 1 128) (\<lambda>name.
     bindE (nullableAt licenseAt (field installation ''license'')
              (at_field path ''license'')) (\<lambda>license.
     bindE (stringArrayAt (field installation ''languages'') (at_field path ''languages'') 32) (\<lambda>languages.
     bindE (revisionAt (field installation ''revision'') (at_field path ''revision'')) (\<lambda>revision.
     bindE (variantIDAt (field installation ''variant_id'') (at_field path ''variant_id'')) (\<lambda>variant_id.
     bindE (metadataStringAt (field installation ''variant_name'') (at_field path ''variant_name'') 1 64) (\<lambda>variant_name.
     bindE (metadataStringAt (field installation ''quantization'') (at_field path ''quantization'') 1 32) (\<lambda>quantization.
     bindE (adapterAt (field installation ''adapter'') (at_field path ''adapter'')) (\<lambda>adapter.
     bindE (safeIntegerAt (field installation ''estimated_ram_bytes'')
              (at_field path ''estimated_ram_bytes'') 0) (\<lambda>ram.
     bindE (parseLabelMapping (field installation ''label_mapping'') (at_field path ''label_mapping'')) (\<lambda>mapping.
     Inr \<lparr>mi_id = id', mi_source = source, mi_catalog_id = catalogID,
          mi_catalog_source = catalogSource, mi_name = name, mi_license = license,
          mi_languages = languages, mi_repo_id = repoID, mi_revision = revision,
          mi_variant_id = variant_id, mi_variant_name = variant_name,
          mi_quantization = quantization, mi_adapter = adapter, mi_status = status,
          mi_bytes_downloaded = downloaded, mi_bytes_total = total, mi_estimated_ram_bytes = ram,
          mi_error = error, mi_label_mapping = mapping, mi_installed_at = installedAt,
          mi_preparation = preparation\<rparr>))))))))))))))))))))))))))))"

definition parsePrivacyModelInstallationList ::
  "json \<Rightarrow> js_error + privacy_model_installation list"
where
  "parsePrivacyModelInstallationList value =
     bindE (objectAt value (js ''$'')) (\<lambda>list.
     bindE (keysAt list [''items''] [] (js ''$'')) (\<lambda>_.
     bindE (arrayAt (js ''expected at most 100 installations'') (field list ''items'') (js ''$.items'')) (\<lambda>entries.
     bindE (throwIf (length entries > 100)
              (invalid (js ''$.items'') (js ''expected at most 100 installations''))) (\<lambda>_.
     bindE (mapE (\<lambda>i item. parsePrivacyModelInstallation item (at_index (js ''$.items'') i)) 0 entries) (\<lambda>items.
     bindE (throwIf (\<not> distinct (map mi_id items))
              (invalid (js ''$.items'') (js ''duplicate installation ID''))) (\<lambda>_.
     Inr items))))))"

section \<open>Inputs\<close>

definition validatePrivacyModelProbeInput :: "jobj \<Rightarrow> js_error + probe_input" where
  "validatePrivacyModelProbeInput input =
     bindE (repoIDAt (field input ''repo_id'') (js ''$.repo_id'')) (\<lambda>repo.
     bindE (requestedRevisionAt (field input ''revision'') (js ''$.revision'')) (\<lambda>revision.
     Inr \<lparr>qi_repo_id = repo, qi_revision = revision\<rparr>))"

text \<open>\<open>/^[A-Za-z][A-Za-z0-9+.-]*:/\<close> and \<open>/^[A-Za-z]:[\\/]/\<close>: prefixes of the path.\<close>

definition is_letter :: "nat \<Rightarrow> bool" where
  "is_letter c \<longleftrightarrow> is_lower c \<or> is_upper c"

definition hasURIScheme :: "jstr \<Rightarrow> bool" where
  "hasURIScheme path \<longleftrightarrow> (case path of
     [] \<Rightarrow> False
   | c # t \<Rightarrow> is_letter c
       \<and> (case dropWhile (union_cls is_alnum ''+.-'') t of [] \<Rightarrow> False | d # _ \<Rightarrow> d = 58))"

definition isWindowsDrivePath :: "jstr \<Rightarrow> bool" where
  "isWindowsDrivePath path \<longleftrightarrow> (case path of
     c # d # e # _ \<Rightarrow> is_letter c \<and> d = 58 \<and> (e = 92 \<or> e = 47) | _ \<Rightarrow> False)"

definition validateLocalProbeInput :: "jobj \<Rightarrow> js_error + jstr" where
  "validateLocalProbeInput input =
     bindE (orThrow (invalid (js ''$.path'') (js ''expected a local model path''))
              (jstring (field input ''path''))) (\<lambda>text.
     let path = trim text in
     bindE (stringAt (JStr path) (js ''$.path'') 1 4096) (\<lambda>_.
     bindE (throwIf (has_control path)
              (invalid (js ''$.path'') (js ''must contain no control characters''))) (\<lambda>_.
     bindE (throwIf (hasURIScheme path \<and> \<not> isWindowsDrivePath path)
              (invalid (js ''$.path'') (js ''expected a local path, not a URI''))) (\<lambda>_.
     Inr path))))"

definition validatePrivacyModelInstallInput :: "jobj \<Rightarrow> js_error + install_input" where
  "validatePrivacyModelInstallInput input =
     bindE (repoIDAt (field input ''repo_id'') (js ''$.repo_id'')) (\<lambda>repo.
     bindE (revisionAt (field input ''revision'') (js ''$.revision'')) (\<lambda>revision.
     bindE (variantIDAt (field input ''variant_id'') (js ''$.variant_id'')) (\<lambda>variant.
     bindE (parseLabelMapping (field input ''label_mapping'') (js ''$.label_mapping'')) (\<lambda>mapping.
     Inr \<lparr>ii_repo_id = repo, ii_revision = revision, ii_variant_id = variant,
          ii_label_mapping = mapping\<rparr>))))"

definition validatePrivacyModelInstallationID :: "jstr \<Rightarrow> js_error + jstr" where
  "validatePrivacyModelInstallationID installationID =
     installationIDAt (JStr installationID) (js ''$.installation_id'')"

section \<open>Variant IDs\<close>

definition isCoreMLVariantID :: "jstr \<Rightarrow> bool" where
  "isCoreMLVariantID variantID \<longleftrightarrow> starts_with (js ''coreml_'') variantID"

definition isDirectMLVariantID :: "jstr \<Rightarrow> bool" where
  "isDirectMLVariantID variantID \<longleftrightarrow> starts_with (js ''directml_'') variantID"

definition isAcceleratedVariantID :: "jstr \<Rightarrow> bool" where
  "isAcceleratedVariantID variantID \<longleftrightarrow> isCoreMLVariantID variantID \<or> isDirectMLVariantID variantID"

definition isResourceHeavyVariant :: "privacy_model_variant \<Rightarrow> bool" where
  "isResourceHeavyVariant variant \<longleftrightarrow>
     mv_bytes_total variant \<ge> 1024 ^ 3 \<or> mv_estimated_ram_bytes variant \<ge> 2 * 1024 ^ 3"

section \<open>What the parsers accept\<close>

lemmas model_enum_names [simp] = privacy_model_adapter_enum.enum_of_name
  unsupported_reason_enum.enum_of_name catalog_source_enum.enum_of_name
  installation_source_enum.enum_of_name installation_phase_enum.enum_of_name
  installation_error_enum.enum_of_name preparation_state_enum.enum_of_name
  preparation_fallback_enum.enum_of_name

text \<open>A nullable member of an enumeration, and the members written as JSON.\<close>

lemma nullable_enum [simp]:
  assumes "\<And>y. enum_of members name (js_str (name y)) = Some y"
  shows "nullableAt (enumAt members name message) (nullable_json (\<lambda>y. js_str (name y)) x) path = Inr x"
  by (cases x) (simp_all add: nullableAt_def enumAt_def assms)

definition variant_ok :: "privacy_model_variant \<Rightarrow> bool" where
  "variant_ok v \<longleftrightarrow> text_ok 2 64 (mv_id v) \<and> matches variantIDPattern (mv_id v)
     \<and> metadata_ok 1 64 (mv_name v) \<and> metadata_ok 1 32 (mv_quantization v)
     \<and> 0 \<le> mv_bytes_total v \<and> mv_bytes_total v \<le> max_safe
     \<and> 0 \<le> mv_estimated_ram_bytes v \<and> mv_estimated_ram_bytes v \<le> max_safe
     \<and> mv_supported v = (mv_unsupported_reason v = None)
     \<and> (mv_supported v \<longrightarrow> mv_bytes_total v \<noteq> 0)"

definition variant_json :: "privacy_model_variant \<Rightarrow> json" where
  "variant_json v = JObj
     [(js ''id'', JStr (mv_id v)), (js ''name'', JStr (mv_name v)),
      (js ''quantization'', JStr (mv_quantization v)), (js ''bytes_total'', jint (mv_bytes_total v)),
      (js ''estimated_ram_bytes'', jint (mv_estimated_ram_bytes v)),
      (js ''recommended'', JBool (mv_recommended v)), (js ''supported'', JBool (mv_supported v)),
      (js ''unsupported_reason'',
        nullable_json (\<lambda>r. js_str (unsupported_name r)) (mv_unsupported_reason v))]"

lemma parseVariant_ok: "parseVariant v path = Inr x \<Longrightarrow> variant_ok x"
  unfolding parseVariant_def
  by (elim bindE_InrE) (clarsimp simp: variant_ok_def privacy id_readers throwIf_eq_Inr)

lemma parseVariant_json: "variant_ok x \<Longrightarrow> parseVariant (variant_json x) path = Inr x"
  by (simp add: parseVariant_def variant_json_def variant_ok_def reader_eval id_readers bindE_throwIf)
    auto

interpretation variants: json_codec parseVariant variant_json variant_ok
  by unfold_locales (fact parseVariant_ok parseVariant_json)+

definition variants_ok :: "privacy_model_variant list \<Rightarrow> bool" where
  "variants_ok vs \<longleftrightarrow> vs \<noteq> [] \<and> length vs \<le> 32 \<and> list_all variant_ok vs \<and> distinct (map mv_id vs)"

lemma parseVariants_ok: "parseVariants v path = Inr vs \<Longrightarrow> variants_ok vs"
  by (auto simp: parseVariants_def variants_ok_def res privacy dest: variants.parse_array_valid mapE_length)

lemma parseVariants_json: "variants_ok vs \<Longrightarrow> parseVariants (array_json variant_json vs) path = Inr vs"
  by (auto simp: parseVariants_def variants_ok_def array_json_def array_readers
      variants.parse_array_render bindE_throwIf Suc_le_eq)

interpretation variant_lists: json_codec parseVariants "array_json variant_json" variants_ok
  by unfold_locales (fact parseVariants_ok parseVariants_json)+

definition mapping_ok :: "label_mapping \<Rightarrow> bool" where
  "mapping_ok m \<longleftrightarrow> length m \<le> 256 \<and> list_all (\<lambda>e. matches labelPattern (fst e)) m"

definition mapping_json :: "label_mapping \<Rightarrow> json" where
  "mapping_json m = JObj (map (\<lambda>(l, k). (l, nullable_json (\<lambda>x. js_str (kind_name x)) k)) m)"

lemma readLabel_ok: "readLabel path e = Inr y \<Longrightarrow> matches labelPattern (fst y)"
  by (auto simp: readLabel_def res)

lemma parseLabelMapping_ok: "parseLabelMapping v path = Inr m \<Longrightarrow> mapping_ok m"
  by (auto simp: parseLabelMapping_def mapping_ok_def res privacy dest: mapE_length
      intro: mapE_list_all readLabel_ok)

lemma parseLabelMapping_json: "mapping_ok m \<Longrightarrow> parseLabelMapping (mapping_json m) path = Inr m"
proof -
  assume ok: "mapping_ok m"
  have "mapE (\<lambda>_. readLabel path) 0
      (map (\<lambda>(l, k). (l, nullable_json (\<lambda>x. js_str (kind_name x)) k)) m) = Inr m"
    using ok by (intro mapE_map_Inr)
      (auto simp: mapping_ok_def list_all_iff readLabel_def kindOrNullAt_def canonicalKindAt_def)
  with ok show ?thesis by (simp add: parseLabelMapping_def mapping_json_def mapping_ok_def)
qed

interpretation label_mappings: json_codec parseLabelMapping mapping_json mapping_ok
  by unfold_locales (fact parseLabelMapping_ok parseLabelMapping_json)+

definition preparation_ok :: "privacy_model_preparation \<Rightarrow> bool" where
  "preparation_ok p \<longleftrightarrow> (prep_state p = Prepared \<longrightarrow> prep_fallback p = None)"

definition preparation_json :: "privacy_model_preparation \<Rightarrow> json" where
  "preparation_json p = JObj
     [(js ''state'', js_str (preparation_state_name (prep_state p))),
      (js ''fallback'', nullable_json (\<lambda>f. js_str (fallback_name f)) (prep_fallback p))]"

lemma readPreparation_ok: "readPreparation v path = Inr p \<Longrightarrow> preparation_ok p"
  by (auto simp: readPreparation_def preparationStateAt_def preparation_ok_def Let_def res)

lemma readPreparation_json: "preparation_ok p \<Longrightarrow> readPreparation (preparation_json p) path = Inr p"
  by (auto simp: readPreparation_def preparationStateAt_def preparation_ok_def preparation_json_def
      Let_def reader_eval bindE_throwIf)

interpretation preparations: json_codec readPreparation preparation_json preparation_ok
  by unfold_locales (fact readPreparation_ok readPreparation_json)+

section \<open>Installations\<close>

definition installation_ok :: "privacy_model_installation \<Rightarrow> bool" where
  "installation_ok i \<longleftrightarrow>
     text_ok 38 38 (mi_id i) \<and> matches installationIDPattern (mi_id i)
     \<and> (mi_source i = FromCatalog \<longleftrightarrow> mi_catalog_id i \<noteq> None)
     \<and> (mi_source i = FromCatalog \<longleftrightarrow> mi_catalog_source i \<noteq> None)
     \<and> (mi_source i = FromLocal \<longleftrightarrow> matches localRepoPattern (mi_repo_id i))
     \<and> pred_option (\<lambda>c. text_ok 11 88 c \<and> matches catalogIDPattern c) (mi_catalog_id i)
     \<and> metadata_ok 1 128 (mi_name i) \<and> pred_option (metadata_ok 1 64) (mi_license i)
     \<and> strings_ok 32 (mi_languages i)
     \<and> text_ok 3 193 (mi_repo_id i) \<and> good_repo_id (mi_repo_id i)
     \<and> text_ok 1 128 (mi_revision i) \<and> matches revisionPattern (mi_revision i)
     \<and> text_ok 2 64 (mi_variant_id i) \<and> matches variantIDPattern (mi_variant_id i)
     \<and> metadata_ok 1 64 (mi_variant_name i) \<and> metadata_ok 1 32 (mi_quantization i)
     \<and> 0 \<le> mi_bytes_downloaded i \<and> mi_bytes_downloaded i \<le> mi_bytes_total i
     \<and> mi_bytes_total i \<le> max_safe
     \<and> 0 \<le> mi_estimated_ram_bytes i \<and> mi_estimated_ram_bytes i \<le> max_safe
     \<and> \<not> bad_lifecycle (mi_status i) (mi_bytes_downloaded i) (mi_bytes_total i) (mi_error i)
          (mi_installed_at i)
     \<and> mapping_ok (mi_label_mapping i)
     \<and> pred_option (\<lambda>t. text_ok 20 35 t \<and> timestamp_ok t) (mi_installed_at i)
     \<and> pred_option preparation_ok (mi_preparation i)
     \<and> (mi_preparation i \<noteq> None \<longrightarrow> mi_status i = Ready)"

definition installation_json :: "privacy_model_installation \<Rightarrow> json" where
  "installation_json i = JObj
     [(js ''id'', JStr (mi_id i)), (js ''source'', js_str (installation_source_name (mi_source i))),
      (js ''catalog_id'', nullable_json JStr (mi_catalog_id i)),
      (js ''catalog_source'',
        nullable_json (\<lambda>s. js_str (catalog_source_name s)) (mi_catalog_source i)),
      (js ''name'', JStr (mi_name i)), (js ''license'', nullable_json JStr (mi_license i)),
      (js ''languages'', strings_json (mi_languages i)), (js ''repo_id'', JStr (mi_repo_id i)),
      (js ''revision'', JStr (mi_revision i)), (js ''variant_id'', JStr (mi_variant_id i)),
      (js ''variant_name'', JStr (mi_variant_name i)),
      (js ''quantization'', JStr (mi_quantization i)),
      (js ''adapter'', js_str (adapter_name (mi_adapter i))),
      (js ''status'', js_str (phase_name (mi_status i))),
      (js ''bytes_downloaded'', jint (mi_bytes_downloaded i)),
      (js ''bytes_total'', jint (mi_bytes_total i)),
      (js ''estimated_ram_bytes'', jint (mi_estimated_ram_bytes i)),
      (js ''error'', nullable_json (\<lambda>e. js_str (installation_error_name e)) (mi_error i)),
      (js ''label_mapping'', mapping_json (mi_label_mapping i)),
      (js ''installed_at'', nullable_json JStr (mi_installed_at i)),
      (js ''preparation'', nullable_json preparation_json (mi_preparation i))]"

lemma installation_parts_ok:
  "nullableAt catalogIDAt v path = Inr c \<Longrightarrow>
     pred_option (\<lambda>c. text_ok 11 88 c \<and> matches catalogIDPattern c) c"
  "nullableAt rfc3339At v path = Inr t \<Longrightarrow> pred_option (\<lambda>t. text_ok 20 35 t \<and> timestamp_ok t) t"
  "nullableAt licenseAt v path = Inr l \<Longrightarrow> pred_option (metadata_ok 1 64) l"
  "parsePreparation v path = Inr p \<Longrightarrow> pred_option preparation_ok p"
  unfolding parsePreparation_def
  by (erule nullableAt_valid, simp add: id_readers licenseAt_def privacy preparations.parse_valid)+

lemma parsePrivacyModelInstallation_ok:
  "parsePrivacyModelInstallation v path = Inr i \<Longrightarrow> installation_ok i"
  unfolding parsePrivacyModelInstallation_def
  by (elim bindE_InrE, drule installation_parts_ok(1), drule installation_parts_ok(2),
      drule installation_parts_ok(3), drule installation_parts_ok(4), drule parseLabelMapping_ok)
    (clarsimp simp: installation_ok_def privacy id_readers throwIf_eq_Inr)

lemma nullable_parts_json:
  "pred_option (\<lambda>c. text_ok 11 88 c \<and> matches catalogIDPattern c) c \<Longrightarrow>
     nullableAt catalogIDAt (nullable_json JStr c) path = Inr c"
  "pred_option (\<lambda>t. text_ok 20 35 t \<and> timestamp_ok t) t \<Longrightarrow>
     nullableAt rfc3339At (nullable_json JStr t) path = Inr t"
  "pred_option (metadata_ok 1 64) l \<Longrightarrow>
     nullableAt licenseAt (nullable_json JStr l) path = Inr l"
  "pred_option preparation_ok p \<Longrightarrow> parsePreparation (nullable_json preparation_json p) path = Inr p"
  unfolding parsePreparation_def
  by (rule nullableAt_json, clarsimp simp: id_readers licenseAt_def text_readers preparations.parse_render,
      (simp add: preparation_json_def)?)+

lemma parsePrivacyModelInstallation_json:
  "installation_ok i \<Longrightarrow> parsePrivacyModelInstallation (installation_json i) path = Inr i"
  by (simp add: parsePrivacyModelInstallation_def installation_json_def installation_ok_def
      installation_required_def reader_eval nullable_parts_json resourceIDAt_def installationIDAt_def
      repoIDAt_def revisionAt_def variantIDAt_def adapterAt_def bindE_throwIf
      label_mappings.parse_render order_trans [of 0 _ "mi_bytes_total i"]
      order_trans [of _ "mi_bytes_total i" max_safe] not_less)
    auto

interpretation installations:
  json_codec parsePrivacyModelInstallation installation_json installation_ok
  by unfold_locales (fact parsePrivacyModelInstallation_ok parsePrivacyModelInstallation_json)+

section \<open>Releases\<close>

definition release_text :: "nat \<Rightarrow> nat \<Rightarrow> nat \<Rightarrow> jstr" where
  "release_text a b c = dec a @ 46 # dec b @ 46 # dec c"

lemma dec_no_dot: "46 \<notin> set (dec n)"
  using dec_digits [of 46 n] by (auto simp: is_digit_def)

lemma split_on_no_sep: "c \<notin> set s \<Longrightarrow> split_on c s = [s]"
  by (induction s) auto

lemma split_on_first: "c \<notin> set s \<Longrightarrow> split_on c (s @ c # t) = s # split_on c t"
  by (induction s) auto

lemma split_release: "split_on 46 (release_text a b c) = [dec a, dec b, dec c]"
  by (simp add: release_text_def split_on_first split_on_no_sep dec_no_dot)

lemma release_number_iff: "matches release_number_rx s \<longleftrightarrow> (\<exists>n < 1000000. s = dec n)"
proof
  assume "matches release_number_rx s"
  then consider "s = [48]" | c t where "s = c # t" "is_digit c" "c \<noteq> 48" "length t \<le> 5" "list_all is_digit t"
    by (auto simp: release_number_rx_def matches_head_tail chr_def is_chr_def)
  then show "\<exists>n < 1000000. s = dec n"
  proof cases
    case 1
    then show ?thesis by (intro exI [of _ 0]) (simp add: dec_unfold)
  next
    case 2
    then have "dec (digits_value s) = s" by (intro dec_digits_value) auto
    moreover have "digits_value s < 10 ^ length s" using 2 by (intro digits_value_less) auto
    moreover have "(10::nat) ^ length s \<le> 10 ^ 6" using 2 by (intro power_increasing) auto
    ultimately show ?thesis by (intro exI [of _ "digits_value s"]) auto
  qed
next
  assume "\<exists>n < 1000000. s = dec n"
  then obtain n where n: "n < 1000000" "s = dec n" by blast
  show "matches release_number_rx s"
  proof (cases "n = 0")
    case True
    then show ?thesis by (simp add: n dec_unfold release_number_rx_def chr_def is_chr_def)
  next
    case False
    obtain c t where ct: "dec n = c # t" by (cases "dec n") auto
    have "length (dec n) \<le> 6" using n(1) by (intro length_dec_le) auto
    then show ?thesis
      using hd_dec [OF False] dec_all_digits [of n]
      by (simp add: n(2) ct release_number_rx_def matches_head_tail del: dec_all_digits)
  qed
qed

lemma release_version_iff:
  "matches releaseVersionPattern s \<longleftrightarrow>
     (\<exists>a < 1000000. \<exists>b < 1000000. \<exists>c < 1000000. s = release_text a b c)"
proof -
  have numbers: "lang release_number_rx = {dec n | n. n < 1000000}"
    using release_number_iff unfolding matches_iff by blast
  have number: "(\<exists>u \<in> lang release_number_rx. P u) \<longleftrightarrow> (\<exists>n < 1000000. P (dec n))" for P
    unfolding numbers by blast
  have dot: "(\<exists>u \<in> lang (chr CHR ''.''). P u) \<longleftrightarrow> P [46]" for P
    by (auto simp: chr_def is_chr_def)
  have Seq: "(\<exists>w \<in> lang (Seq q r). P w) \<longleftrightarrow> (\<exists>u \<in> lang q. \<exists>v \<in> lang r. P (u @ v))" for P q r
    by auto
  have "matches releaseVersionPattern s \<longleftrightarrow> (\<exists>w \<in> lang releaseVersionPattern. s = w)"
    by (simp add: matches_iff)
  then show ?thesis
    unfolding releaseVersionPattern_def seqs.simps Seq number dot release_text_def by simp
qed

text \<open>The order of releases: by the first number that differs.\<close>

definition release_order :: "nat \<times> nat \<times> nat \<Rightarrow> nat \<times> nat \<times> nat \<Rightarrow> int" where
  "release_order = (\<lambda>(a, b, c) (a', b', c').
     if a \<noteq> a' then sgn (int a - int a')
     else if b \<noteq> b' then sgn (int b - int b') else sgn (int c - int c'))"

text \<open>
  Release versions are compared number by number: for any two versions the
  answer is the sign of their first difference, so 0.10.0 comes after 0.2.0.
\<close>

theorem release_comparison:
  "compareReleaseVersions (release_text a b c) (release_text a' b' c')
    = Fin (of_int (release_order (a, b, c) (a', b', c')))"
  by (simp add: compareReleaseVersions_def split_release part_at_def Let_def release_order_def
      sgn_if numeral_2_eq_2)

text \<open>
  The version of a catalog model is null or three numbers below a million in
  plain decimal notation, without leading zeros; nothing else is accepted.
\<close>

theorem release_version_accepted:
  "releaseVersionAt v path = Inr (Some s) \<longleftrightarrow>
     v = JStr s \<and> (\<exists>a < 1000000. \<exists>b < 1000000. \<exists>c < 1000000. s = release_text a b c)"
  by (cases v) (auto simp: releaseVersionAt_def res simp flip: release_version_iff)

section \<open>Timestamps\<close>

definition pad2 :: "nat \<Rightarrow> jstr" where
  "pad2 n = [48 + n div 10, 48 + n mod 10]"

definition pad4 :: "nat \<Rightarrow> jstr" where
  "pad4 n = [48 + n div 1000, 48 + n div 100 mod 10, 48 + n div 10 mod 10, 48 + n mod 10]"

definition stamp :: "nat \<Rightarrow> nat \<Rightarrow> nat \<Rightarrow> nat \<Rightarrow> nat \<Rightarrow> nat \<Rightarrow> jstr" where
  "stamp y mo d h mi s =
     pad4 y @ [45] @ pad2 mo @ [45] @ pad2 d @ [84] @ pad2 h @ [58] @ pad2 mi @ [58] @ pad2 s @ [90]"

definition days_in_month :: "nat \<Rightarrow> nat \<Rightarrow> nat" where
  "days_in_month y mo =
     (if mo = 2 then (if 4 dvd y \<and> \<not> 100 dvd y \<or> 400 dvd y then 29 else 28)
      else if mo \<in> {4, 6, 9, 11} then 30 else 31)"

lemma digits_value_pads:
  "digits_value (pad2 n) = n" "digits_value (pad4 n) = n"
proof -
  have "10 * (n div 10) + n mod 10 = n" for n :: nat by simp
  moreover have "n div 1000 = n div 10 div 10 div 10" "n div 100 = n div 10 div 10"
    by (simp_all add: div_mult2_eq [symmetric])
  ultimately show "digits_value (pad2 n) = n" "digits_value (pad4 n) = n"
    by (simp_all add: digits_value_def pad2_def pad4_def del: mult_div_mod_eq div_mult_mod_eq)
qed

lemma pad_digits:
  "n < 100 \<Longrightarrow> list_all is_digit (pad2 n)" "n < 10000 \<Longrightarrow> list_all is_digit (pad4 n)"
  by (auto simp: pad2_def pad4_def is_digit_def)

lemma length_pads [simp]: "length (pad2 n) = 2" "length (pad4 n) = 4"
  by (simp_all add: pad2_def pad4_def)

lemma matches_Seq_opt:
  "matches (Seq (Rep 0 (Suc 0) q) r) s \<longleftrightarrow> matches r s \<or> matches (Seq q r) s"
  by (auto simp: matches_Seq)

lemma matches_stamp:
  assumes "y < 10000" "mo < 100" "d < 100" "h < 100" "mi < 100" "s < 100"
  shows "matches rfc3339_rx (stamp y mo d h mi s)"
  using assms
  by (simp add: rfc3339_rx_def digits_rx_def stamp_def matches_left pad_digits is_chr_def
      matches_Seq_opt opt_rx_def)

lemma leap_year_iff: "leap_year y \<longleftrightarrow> 4 dvd y \<and> \<not> 100 dvd y \<or> 400 dvd y"
proof -
  have "400 dvd y \<Longrightarrow> 4 dvd y" using dvd_trans [of 4 400 y] by simp
  then show ?thesis unfolding leap_year_def dvd_eq_mod_eq_0 [symmetric] by blast
qed

lemma month_days_index:
  "1 \<le> mo \<Longrightarrow> mo \<le> 12 \<Longrightarrow> month_days y ! (mo - 1) = days_in_month y mo"
proof -
  assume "1 \<le> mo" "mo \<le> 12"
  then obtain k where k: "mo = Suc k" "k < 12" by (cases mo) auto
  from k(2) have "k = 0 \<or> k = 1 \<or> k = 2 \<or> k = 3 \<or> k = 4 \<or> k = 5 \<or> k = 6 \<or> k = 7 \<or> k = 8 \<or> k = 9
      \<or> k = 10 \<or> k = 11"
    by presburger
  then show ?thesis
    unfolding k month_days_def days_in_month_def leap_year_iff
    by (elim disjE) auto
qed

lemma stamp_parts:
  "digits_at 0 4 (stamp y mo d h mi s) = y" "digits_at 5 2 (stamp y mo d h mi s) = mo"
  "digits_at 8 2 (stamp y mo d h mi s) = d" "digits_at 11 2 (stamp y mo d h mi s) = h"
  "digits_at 14 2 (stamp y mo d h mi s) = mi" "digits_at 17 2 (stamp y mo d h mi s) = s"
  "last (stamp y mo d h mi s) = 90" "length (stamp y mo d h mi s) = 20"
  by (simp_all add: digits_at_def stamp_def digits_value_pads)

text \<open>
  A UTC timestamp is accepted exactly when it is a real date and time: the
  day exists in its month, February has 29 days in Gregorian leap years only, and the clock
  is below 24:00:00 without leap seconds.
\<close>

theorem timestamp_calendar:
  assumes "y < 10000" "mo < 100" "d < 100" "h < 100" "mi < 100" "s < 100"
  shows "rfc3339At (JStr (stamp y mo d h mi s)) path =
    (if 1 \<le> mo \<and> mo \<le> 12 \<and> 1 \<le> d \<and> d \<le> days_in_month y mo \<and> h < 24 \<and> mi < 60 \<and> s < 60
     then Inr (stamp y mo d h mi s) else Inl (invalid path (js ''invalid RFC3339 timestamp'')))"
proof -
  have "code_points (stamp y mo d h mi s) = stamp y mo d h mi s"
    using assms pad_digits
    by (intro code_points_bmp) (auto simp: stamp_def high_surrogate_def pad2_def pad4_def)
  then have "text_ok 20 35 (stamp y mo d h mi s)" by (simp add: text_ok_def stamp_parts)
  moreover have "bad_timestamp (stamp y mo d h mi s) \<longleftrightarrow>
      \<not> (1 \<le> mo \<and> mo \<le> 12 \<and> 1 \<le> d \<and> d \<le> days_in_month y mo \<and> h < 24 \<and> mi < 60 \<and> s < 60)"
    using month_days_index [of mo y]
    by (auto simp: bad_timestamp_def stamp_parts is_chr_def not_less)
  ultimately show ?thesis
    using matches_stamp [OF assms]
    by (simp add: rfc3339At_def checkedAt_def text_readers timestamp_ok_def)
qed

theorem timestamp_calendar_witness:
  "rfc3339At (JStr (stamp 2023 2 29 0 0 0)) [] = Inl (invalid [] (js ''invalid RFC3339 timestamp''))
   \<and> rfc3339At (JStr (stamp 2024 2 29 23 59 59)) [] = Inr (stamp 2024 2 29 23 59 59)"
  using timestamp_calendar [of 2023 2 29 0 0 0 "[]"] timestamp_calendar [of 2024 2 29 23 59 59 "[]"]
  by (simp add: days_in_month_def)

section \<open>Life cycle and inputs\<close>

text \<open>
  An accepted installation is in a consistent state of its life cycle. Ready
  means complete: all bytes there, no error, a time of installation. Before that, and after a
  failure, there is no time of installation and no preparation, and only a failure has an
  error. A catalog installation, and no other, names its catalog entry, and a local one has a
  local repository ID. Written back as JSON it reads as itself.
\<close>

theorem installation_life_cycle:
  assumes "parsePrivacyModelInstallation v path = Inr i"
  shows "parsePrivacyModelInstallation (installation_json i) path' = Inr i
    \<and> 0 \<le> mi_bytes_downloaded i \<and> mi_bytes_downloaded i \<le> mi_bytes_total i
    \<and> (mi_status i = Ready \<longleftrightarrow> mi_installed_at i \<noteq> None)
    \<and> (mi_status i = Ready \<longrightarrow> 0 < mi_bytes_total i \<and> mi_bytes_downloaded i = mi_bytes_total i)
    \<and> (mi_status i = Failed \<longleftrightarrow> mi_error i \<noteq> None)
    \<and> (mi_status i \<noteq> Ready \<longrightarrow> mi_preparation i = None)
    \<and> (mi_source i = FromCatalog \<longleftrightarrow> mi_catalog_id i \<noteq> None)
    \<and> (mi_source i = FromLocal \<longleftrightarrow> matches localRepoPattern (mi_repo_id i))"
  using installations.parse_valid [OF assms] installations.reparse [OF assms]
  by (cases "mi_status i") (auto simp: installation_ok_def bad_lifecycle_def)

definition sample_installation :: privacy_model_installation where
  "sample_installation =
     \<lparr>mi_id = js ''model_0123456789abcdef0123456789abcdef'', mi_source = FromLocal,
      mi_catalog_id = None, mi_catalog_source = None, mi_name = js ''Guard'', mi_license = None,
      mi_languages = [js ''en''], mi_repo_id = js ''local/model-0123456789ab'',
      mi_revision = js ''0123456789abcdef0123456789abcdef01234567'', mi_variant_id = js ''int8'',
      mi_variant_name = js ''INT8'', mi_quantization = js ''int8'',
      mi_adapter = AstrlinkSensitiveGuard, mi_status = Ready, mi_bytes_downloaded = 10,
      mi_bytes_total = 10, mi_estimated_ram_bytes = 0, mi_error = None, mi_label_mapping = [],
      mi_installed_at = Some (js ''2024-02-29T12:00:00Z''),
      mi_preparation = Some \<lparr>prep_state = Prepared, prep_fallback = None\<rparr>\<rparr>"

lemmas sample_pattern_rules = matches_left starts_with_def js_def is_chr_def is_lower_hex_def
  is_digit_def is_lower_def is_upper_def is_alnum_def union_cls_def

lemma sample_local_repo: "matches localRepoPattern (js ''local/model-0123456789ab'')"
  by (simp add: localRepoPattern_def sample_pattern_rules)

lemma repo_id_parts:
  assumes "matches repo_name_rx u" and "matches repo_name_rx v"
  shows "matches repoIDPattern (u @ 47 # v)"
proof -
  have "47 # v \<in> lang (Seq (chr CHR ''/'') repo_name_rx)"
    using assms(2) by (auto simp: matches_iff chr_def is_chr_def)
  with assms(1) show ?thesis
    unfolding matches_iff repoIDPattern_def lang.simps(3) [of repo_name_rx] by blast
qed

lemma sample_repo: "matches repoIDPattern (js ''local/model-0123456789ab'')"
proof -
  have "js ''local/model-0123456789ab'' = js ''local'' @ 47 # js ''model-0123456789ab''"
    by (simp add: js_def)
  moreover have "matches repo_name_rx (js ''local'')" "matches repo_name_rx (js ''model-0123456789ab'')"
    by (simp_all add: repo_name_rx_def sample_pattern_rules)
  ultimately show ?thesis by (simp only: repo_id_parts)
qed

lemma sample_revision: "matches revisionPattern (js ''0123456789abcdef0123456789abcdef01234567'')"
  by (simp add: revisionPattern_def sample_pattern_rules)

lemma sample_variant: "matches variantIDPattern (js ''int8'')"
  by (simp add: variantIDPattern_def sample_pattern_rules)

lemmas sample_installation_patterns = sample_local_repo sample_repo sample_revision sample_variant

lemma sample_installation_texts:
  "metadata_ok 1 128 (js ''Guard'')" "metadata_ok 1 64 (js ''INT8'')" "metadata_ok 1 32 (js ''int8'')"
  "metadata_ok 1 64 (js ''en'')"
  by (simp_all add: metadata_ok_def text_ok_def has_control_def)
    (simp_all add: trim_def js_def js_space_def is_control_def)

lemma sample_stamp: "js ''2024-02-29T12:00:00Z'' = stamp 2024 2 29 12 0 0"
  by (simp add: stamp_def pad2_def pad4_def js_def)

lemma sample_installation_ok: "installation_ok sample_installation"
proof -
  have "timestamp_ok (stamp 2024 2 29 12 0 0)" "text_ok 20 35 (js ''2024-02-29T12:00:00Z'')"
    by (simp_all add: timestamp_ok_def matches_stamp bad_timestamp_def stamp_parts is_chr_def
        month_days_def leap_year_def text_ok_def)
  moreover have "good_repo_id (js ''local/model-0123456789ab'')"
    by (simp add: good_repo_id_def sample_installation_patterns) (simp add: js_def starts_with_def)
  ultimately show ?thesis
    using sample_installation_patterns sample_installation_texts sample_model_id
    by (simp add: installation_ok_def sample_installation_def strings_ok_def mapping_ok_def
        preparation_ok_def bad_lifecycle_def max_safe_def text_ok_def flip: sample_stamp)
qed

theorem installation_life_cycle_witness:
  "parsePrivacyModelInstallation (installation_json sample_installation) []
     = Inr sample_installation \<and> mi_installed_at sample_installation \<noteq> None"
  using installation_life_cycle [OF parsePrivacyModelInstallation_json [OF sample_installation_ok, of "[]"],
      of "[]"]
  by (simp add: sample_installation_def [of ])

lemma parseProbeLabel_ok:
  "parseProbeLabel v path = Inr l \<Longrightarrow>
     matches labelPattern (pl_label l) \<and> \<not> (pl_suggested_ignore l = Some True \<and> pl_suggested_kind l \<noteq> None)"
  by (auto simp: parseProbeLabel_def kindOrNullAt_def nullableAt_def id_readers res privacy split: if_splits)

text \<open>
  A probe asks for a label mapping exactly when some label is neither mapped to
  a kind nor ignored; its labels and variants are unique, no label is both mapped and
  ignored, and every unsupported variant says why.
\<close>

theorem probe_mapping_consistent:
  assumes "parsePrivacyModelProbe v = Inr p"
  shows "pb_requires_label_mapping p
      = (\<exists>l \<in> set (pb_labels p). pl_suggested_kind l = None \<and> pl_suggested_ignore l \<noteq> Some True)
    \<and> distinct (map pl_label (pb_labels p)) \<and> distinct (map mv_id (pb_variants p))
    \<and> list_all (\<lambda>l. \<not> (pl_suggested_ignore l = Some True \<and> pl_suggested_kind l \<noteq> None)) (pb_labels p)
    \<and> list_all (\<lambda>m. mv_supported m = (mv_unsupported_reason m = None)) (pb_variants p)"
proof -
  obtain labels where m: "mapE (\<lambda>i item. parseProbeLabel item (at_index (js ''$.labels'') i)) 0 labels
      = Inr (pb_labels p)" and d: "distinct (map pl_label (pb_labels p))"
    and r: "pb_requires_label_mapping p = list_ex needs_mapping (pb_labels p)"
    and vs: "variants_ok (pb_variants p)"
    using assms unfolding parsePrivacyModelProbe_def
    by (elim bindE_InrE) (force simp: throwIf_eq_Inr dest: parseVariants_ok)
  have "list_all (\<lambda>l. \<not> (pl_suggested_ignore l = Some True \<and> pl_suggested_kind l \<noteq> None)) (pb_labels p)"
    using m by (rule mapE_list_all) (use parseProbeLabel_ok in blast)
  moreover have "list_all (\<lambda>m. mv_supported m = (mv_unsupported_reason m = None)) (pb_variants p)"
    using vs by (simp add: variants_ok_def variant_ok_def list_all_iff)
  ultimately show ?thesis
    using d r vs by (simp add: variants_ok_def needs_mapping_def list_ex_iff)
qed

definition sample_variant_record :: privacy_model_variant where
  "sample_variant_record = \<lparr>mv_id = js ''int8'', mv_name = js ''INT8'', mv_quantization = js ''int8'',
     mv_bytes_total = 10, mv_estimated_ram_bytes = 0, mv_recommended = True, mv_supported = True,
     mv_unsupported_reason = None\<rparr>"

definition sample_probe_json :: json where
  "sample_probe_json = JObj
     [(js ''repo_id'', JStr (js ''local/model-0123456789ab'')),
      (js ''requested_revision'', JStr (js ''main'')),
      (js ''revision'', JStr (js ''0123456789abcdef0123456789abcdef01234567'')),
      (js ''name'', JStr (js ''Guard'')), (js ''license'', JNull),
      (js ''languages'', strings_json []), (js ''adapter'', js_str (adapter_name AstrlinkSensitiveGuard)),
      (js ''variants'', array_json variant_json [sample_variant_record]),
      (js ''labels'', JArr [JObj [(js ''label'', JStr (js ''MISC'')), (js ''suggested_kind'', JNull)]]),
      (js ''requires_label_mapping'', JBool True)]"

lemma sample_probe_parts:
  "parseVariants (array_json variant_json [sample_variant_record]) path = Inr [sample_variant_record]"
  "repoIDAt (JStr (js ''local/model-0123456789ab'')) path = Inr (js ''local/model-0123456789ab'')"
  "requestedRevisionAt (JStr (js ''main'')) path = Inr (js ''main'')"
  "revisionAt (JStr (js ''0123456789abcdef0123456789abcdef01234567'')) path
     = Inr (js ''0123456789abcdef0123456789abcdef01234567'')"
  "labelAt (JStr (js ''MISC'')) path = Inr (js ''MISC'')"
proof -
  show "parseVariants (array_json variant_json [sample_variant_record]) path = Inr [sample_variant_record]"
    using sample_installation_texts sample_variant
    by (intro variant_lists.parse_render)
      (simp add: variants_ok_def variant_ok_def sample_variant_record_def max_safe_def text_ok_def)
  have "\<not> str_includes (js ''..'') (js ''local/model-0123456789ab'')"
    by (simp add: js_def starts_with_def)
  then show "repoIDAt (JStr (js ''local/model-0123456789ab'')) path = Inr (js ''local/model-0123456789ab'')"
    by (simp add: repoIDAt_def text_readers text_ok_def good_repo_id_def sample_repo)
  have "good_requested_revision (js ''main'')"
    by (simp add: good_requested_revision_def requestedRevisionPattern_def ends_with_def sample_pattern_rules)
  then show "requestedRevisionAt (JStr (js ''main'')) path = Inr (js ''main'')"
    by (simp add: requestedRevisionAt_def text_readers text_ok_def)
  show "revisionAt (JStr (js ''0123456789abcdef0123456789abcdef01234567'')) path
     = Inr (js ''0123456789abcdef0123456789abcdef01234567'')"
    by (simp add: revisionAt_def text_readers text_ok_def sample_revision)
  have "matches labelPattern (js ''MISC'')" by (simp add: labelPattern_def sample_pattern_rules)
  then show "labelAt (JStr (js ''MISC'')) path = Inr (js ''MISC'')"
    by (simp add: labelAt_def text_readers text_ok_def)
qed

theorem probe_mapping_consistent_witness:
  "\<exists>p. parsePrivacyModelProbe sample_probe_json = Inr p \<and> pb_requires_label_mapping p
     \<and> distinct (map pl_label (pb_labels p))"
proof -
  have "metadata_ok 1 128 (js ''Guard'')" "strings_ok 32 []"
    by (rule sample_installation_texts) (simp add: strings_ok_def)
  then obtain p where p: "parsePrivacyModelProbe sample_probe_json = Inr p"
    and r: "pb_requires_label_mapping p"
    by (simp add: parsePrivacyModelProbe_def sample_probe_json_def parseProbeLabel_def reader_eval
        array_readers nullableAt_def kindOrNullAt_def adapterAt_def needs_mapping_def
        sample_probe_parts del: adapter_name.simps)
  then show ?thesis using probe_mapping_consistent [OF p] by blast
qed

text \<open>
  A local path is never taken for a URI and a URI never for a path: text of the
  form \<open>scheme:rest\<close> with a scheme of two or more characters is refused with that message,
  while \<open>letter:\\<close> opens a Windows path and is accepted.
\<close>

theorem local_path_not_uri:
  assumes "is_letter c" and "w \<noteq> []" and "list_all (union_cls is_alnum ''+.-'') w"
    and "field input ''path'' = JStr text" and "trim text = c # w @ 58 # rest"
    and "text_ok 1 4096 (trim text)" and "\<not> has_control (trim text)"
  shows "validateLocalProbeInput input = Inl (invalid (js ''$.path'') (js ''expected a local path, not a URI''))"
proof -
  have "\<not> union_cls is_alnum ''+.-'' 58"
    by (simp add: union_cls_def is_alnum_def is_digit_def is_lower_def is_upper_def js_def)
  then have "dropWhile (union_cls is_alnum ''+.-'') (w @ 58 # rest) = 58 # rest"
    using assms(3) by (simp add: dropWhile_append2 list_all_iff)
  then have "hasURIScheme (trim text)" using assms(1,5) by (simp add: hasURIScheme_def)
  moreover have "\<not> isWindowsDrivePath (trim text)"
    using assms(2,3,5) \<open>\<not> union_cls is_alnum ''+.-'' 58\<close>
    by (cases w) (auto simp: isWindowsDrivePath_def split: list.splits)
  ultimately show ?thesis
    using assms(4,6,7) by (simp add: validateLocalProbeInput_def text_readers)
qed

theorem local_path_not_uri_witness:
  "validateLocalProbeInput [(js ''path'', JStr (js '' file:///m''))]
    = Inl (invalid (js ''$.path'') (js ''expected a local path, not a URI''))"
proof (rule local_path_not_uri)
  have t: "trim (js '' file:///m'') = js ''file:///m''"
    by (simp add: trim_def js_def js_space_def)
  show "is_letter 102" by (simp add: is_letter_def is_lower_def)
  show "js ''ile'' \<noteq> []" by simp
  show "list_all (union_cls is_alnum ''+.-'') (js ''ile'')"
    by (simp add: union_cls_def is_alnum_def js_def is_lower_def)
  show "field [(js ''path'', JStr (js '' file:///m''))] ''path'' = JStr (js '' file:///m'')" by simp
  show "trim (js '' file:///m'') = 102 # js ''ile'' @ 58 # js ''///m''"
    unfolding t by (simp add: js_def)
  show "text_ok 1 4096 (trim (js '' file:///m''))" unfolding t by (simp add: text_ok_def)
  show "\<not> has_control (trim (js '' file:///m''))"
    unfolding t has_control_def code_points_js by (simp add: js_def is_control_def)
qed

end
