(* ===== verification/Request_Gate.thy ===== *)
theory Request_Gate
  imports Prelude
begin

text \<open>
  \<open>request-gate.ts\<close>: the gate that tells a late answer from the current one and gives a
  restart exclusive use of the core. Its calls may interleave in any order, so the model is
  one function per method and the relation of the traces they make.
\<close>

record request_gate =
  generation :: nat
  exclusive :: bool

definition newGate :: request_gate where
  "newGate = \<lparr>generation = 0, exclusive = False\<rparr>"

definition begin_request :: "request_gate \<Rightarrow> nat option \<times> request_gate" where
  "begin_request g =
     (if exclusive g then (None, g)
      else let g' = g\<lparr>generation := generation g + 1\<rparr> in (Some (generation g'), g'))"

definition beginExclusive :: "request_gate \<Rightarrow> nat option \<times> request_gate" where
  "beginExclusive g =
     (if exclusive g then (None, g)
      else let g' = g\<lparr>generation := generation g + 1, exclusive := True\<rparr> in (Some (generation g'), g'))"

definition isCurrent :: "request_gate \<Rightarrow> nat \<Rightarrow> bool" where
  "isCurrent g token \<longleftrightarrow> token = generation g"

definition endExclusive :: "nat \<Rightarrow> request_gate \<Rightarrow> bool \<times> request_gate" where
  "endExclusive token g =
     (if \<not> exclusive g \<or> token \<noteq> generation g then (False, g) else (True, g\<lparr>exclusive := False\<rparr>))"

definition invalidate :: "request_gate \<Rightarrow> request_gate" where
  "invalidate g = g\<lparr>generation := generation g + 1\<rparr>"

section \<open>Traces\<close>

text \<open>The calls that change the gate, each with its answer.\<close>

datatype gate_event =
    Begun "nat option"
  | BegunExclusive "nat option"
  | EndedExclusive nat bool
  | Invalidated

inductive gate_step :: "request_gate \<Rightarrow> gate_event \<Rightarrow> request_gate \<Rightarrow> bool" where
  begun: "begin_request g = (t, g') \<Longrightarrow> gate_step g (Begun t) g'"
| begun_exclusive: "beginExclusive g = (t, g') \<Longrightarrow> gate_step g (BegunExclusive t) g'"
| ended_exclusive: "endExclusive token g = (ok, g') \<Longrightarrow> gate_step g (EndedExclusive token ok) g'"
| invalidated: "gate_step g Invalidated (invalidate g)"

inductive gate_trace :: "request_gate \<Rightarrow> gate_event list \<Rightarrow> request_gate \<Rightarrow> bool" where
  finished: "gate_trace g [] g"
| more: "gate_step g e g' \<Longrightarrow> gate_trace g' es g'' \<Longrightarrow> gate_trace g (e # es) g''"

inductive_simps gate_step_simps:
  "gate_step g (Begun t) g'" "gate_step g (BegunExclusive t) g'"
  "gate_step g (EndedExclusive token ok) g'" "gate_step g Invalidated g'"

inductive_cases gate_traceE: "gate_trace g (e # es) g'"

inductive_simps gate_trace_Nil [simp]: "gate_trace g [] g'"

lemmas gate_ops = begin_request_def beginExclusive_def endExclusive_def invalidate_def Let_def

text \<open>The token an event issues, and whether it makes earlier tokens stale.\<close>

fun issued :: "gate_event \<Rightarrow> nat option" where
  "issued (Begun t) = t"
| "issued (BegunExclusive t) = t"
| "issued (EndedExclusive token ok) = None"
| "issued Invalidated = None"

definition advances :: "gate_event \<Rightarrow> bool" where
  "advances e \<longleftrightarrow> issued e \<noteq> None \<or> e = Invalidated"

lemma step_generation:
  "gate_step g e g' \<Longrightarrow> generation g' = generation g + (if advances e then 1 else 0)"
  by (cases e) (auto simp: gate_step_simps gate_ops advances_def split: if_splits)

lemma step_issues: "gate_step g e g' \<Longrightarrow> issued e = Some t \<Longrightarrow> t = generation g'"
  by (cases e) (auto simp: gate_step_simps gate_ops split: if_splits)

lemma trace_generation:
  "gate_trace g es g' \<Longrightarrow> generation g' = generation g + length (filter advances es)"
  by (induction rule: gate_trace.induct) (auto dest: step_generation)

text \<open>While the gate is exclusive only its owner's release or nothing changes that.\<close>

lemma step_exclusive:
  "gate_step g e g' \<Longrightarrow> exclusive g \<Longrightarrow>
    (exclusive g' \<or> e = EndedExclusive (generation g) True) \<and> issued e = None"
  by (cases e) (auto simp: gate_step_simps gate_ops split: if_splits)

lemma trace_exclusive:
  "gate_trace g es g' \<Longrightarrow> exclusive g \<Longrightarrow>
    list_all (\<lambda>e. \<forall>t. e \<noteq> EndedExclusive t True) es \<Longrightarrow>
    exclusive g' \<and> list_all (\<lambda>e. issued e = None) es"
  by (induction rule: gate_trace.induct) (auto dest: step_exclusive)

section \<open>Properties\<close>

text \<open>
  C31: however calls interleave, a token is current exactly while nothing later has
  been begun or invalidated, so of all the answers in flight only the newest is used.
\<close>

theorem gate_token_current:
  assumes "gate_step g0 e g1" and "issued e = Some token" and "gate_trace g1 es g2"
  shows "isCurrent g2 token \<longleftrightarrow> \<not> list_ex advances es"
proof -
  have "token = generation g1" using step_issues [OF assms(1,2)] .
  then show ?thesis
    using trace_generation [OF assms(3)]
    by (auto simp: isCurrent_def list_ex_iff filter_empty_conv)
qed

theorem gate_token_current_witness:
  "isCurrent \<lparr>generation = 2, exclusive = False\<rparr> 2 \<and> \<not> isCurrent \<lparr>generation = 2, exclusive = False\<rparr> 1"
proof -
  let ?g0 = newGate and ?g1 = "\<lparr>generation = 1, exclusive = False\<rparr>"
    and ?g2 = "\<lparr>generation = 2, exclusive = False\<rparr> :: request_gate"
  have s: "gate_step ?g0 (Begun (Some 1)) ?g1" "gate_step ?g1 (Begun (Some 2)) ?g2"
    by (simp_all add: gate_step_simps gate_ops newGate_def)
  have "gate_trace ?g1 [Begun (Some 2)] ?g2" "gate_trace ?g2 [] ?g2"
    using s(2) by (auto intro: gate_trace.intros)
  then show ?thesis
    using gate_token_current [OF s(1), of 1 "[Begun (Some 2)]" ?g2]
      gate_token_current [OF s(2), of 2 "[]" ?g2]
    by (simp add: advances_def)
qed

text \<open>
  Exclusive use is exclusive. From a successful \<open>beginExclusive\<close> until a release
  succeeds no call gets a token. A stale token never releases the gate; its owner's token does
  exactly when the gate has not been invalidated in the meantime.
\<close>

theorem gate_exclusive:
  assumes "gate_step g0 (BegunExclusive (Some token)) g1" and "gate_trace g1 es g2"
    and "list_all (\<lambda>e. \<forall>t. e \<noteq> EndedExclusive t True) es"
  shows "list_all (\<lambda>e. issued e = None) es \<and> fst (begin_request g2) = None \<and> fst (beginExclusive g2) = None
    \<and> (\<forall>t < token. \<not> fst (endExclusive t g2))
    \<and> (fst (endExclusive token g2) \<longleftrightarrow> Invalidated \<notin> set es)"
proof -
  have g1: "exclusive g1" "generation g1 = token"
    using assms(1) by (auto simp: gate_step_simps gate_ops split: if_splits)
  have ex: "exclusive g2" "list_all (\<lambda>e. issued e = None) es"
    using trace_exclusive [OF assms(2) g1(1) assms(3)] by blast+
  have "token = generation g2 \<longleftrightarrow> Invalidated \<notin> set es" "token \<le> generation g2"
    using trace_generation [OF assms(2)] g1(2) ex(2)
    by (auto simp: filter_empty_conv list_all_iff advances_def)
  then show ?thesis
    using ex by (auto simp: gate_ops)
qed

theorem gate_exclusive_witness:
  "fst (begin_request \<lparr>generation = 1, exclusive = True\<rparr>) = None
   \<and> fst (endExclusive 1 \<lparr>generation = 1, exclusive = True\<rparr>)"
proof -
  have "gate_step newGate (BegunExclusive (Some 1)) \<lparr>generation = 1, exclusive = True\<rparr>"
    by (simp add: gate_step_simps gate_ops newGate_def)
  from gate_exclusive [OF this gate_trace.finished] show ?thesis by simp
qed

end
