(* ===== verification/Line_Diff.thy ===== *)
theory Line_Diff
  imports Prelude "HOL-Library.Sublist"
begin

text \<open>
  \<open>line-diff.ts\<close>: the line diff of two texts, by the longest common run of lines, and the
  folding of the unchanged lines far from a change. The loops over indices are recursions on
  the lines that remain; the table of the comparison is kept, row by row, as the code has it.
\<close>

datatype diff_kind = Same | Added | Removed

record diff_line =
  dl_kind :: diff_kind
  dl_text :: jstr

datatype folded_line = Line diff_line | Fold nat

section \<open>Lines of a text\<close>

text \<open>\<open>text.replace(/\r\n?/g, "\n")\<close>\<close>

fun normalize_newlines :: "jstr \<Rightarrow> jstr" where
  "normalize_newlines [] = []"
| "normalize_newlines [c] = [if c = 13 then 10 else c]"
| "normalize_newlines (c # d # s) =
     (if c = 13 then 10 # (if d = 10 then normalize_newlines s else normalize_newlines (d # s))
      else c # normalize_newlines (d # s))"

definition splitLines :: "jstr \<Rightarrow> jstr list" where
  "splitLines text =
     (if text = [] then []
      else let lines = split_on 10 (normalize_newlines text) in
        if last lines = [] then butlast lines else lines)"

section \<open>The comparison\<close>

text \<open>How far two lists agree: the loops that match the common head and tail.\<close>

fun common_head :: "'a list \<Rightarrow> 'a list \<Rightarrow> nat" where
  "common_head (x # xs) (y # ys) = (if x = y then Suc (common_head xs ys) else 0)"
| "common_head xs ys = 0"

text \<open>
  A row of the table from the row below it: the longest common run of the lines from one
  left line on with each suffix of the right lines; the last entry is the zero border.
\<close>

fun table_row :: "'a \<Rightarrow> 'a list \<Rightarrow> nat list \<Rightarrow> nat list" where
  "table_row x [] below = [0]"
| "table_row x (y # ys) below =
     (let row = table_row x ys (tl below) in
      (if x = y then hd (tl below) + 1 else max (hd below) (hd row)) # row)"

fun table :: "'a list \<Rightarrow> 'a list \<Rightarrow> nat list list" where
  "table [] right = [replicate (length right + 1) 0]"
| "table (x # xs) right = (let rows = table xs right in table_row x right (hd rows) # rows)"

definition line :: "diff_kind \<Rightarrow> jstr \<Rightarrow> diff_line" where
  "line k t = \<lparr>dl_kind = k, dl_text = t\<rparr>"

text \<open>
  The walk from the top left corner: \<open>rows\<close> is the table from the current cell on, so its
  first entries are \<open>lengths[i * width + j]\<close> and the cells the code looks at.
\<close>

fun walk :: "jstr list \<Rightarrow> jstr list \<Rightarrow> nat list list \<Rightarrow> diff_line list" where
  "walk (x # xs) (y # ys) rows =
     (if x = y then line Same x # walk xs ys (map tl (tl rows))
      else if hd (hd (tl rows)) \<ge> hd (tl (hd rows)) then line Removed x # walk xs (y # ys) (tl rows)
      else line Added y # walk (x # xs) ys (map tl rows))"
| "walk xs ys rows = map (line Removed) xs @ map (line Added) ys"

definition middleDiff :: "jstr list \<Rightarrow> jstr list \<Rightarrow> nat \<Rightarrow> diff_line list" where
  "middleDiff left right maxCells =
     (if length left = 0 \<or> length right = 0 \<or> length left * length right > maxCells
      then map (line Removed) left @ map (line Added) right
      else walk left right (table left right))"

definition lineDiff :: "jstr \<Rightarrow> jstr \<Rightarrow> nat \<Rightarrow> diff_line list" where
  "lineDiff before after maxCells =
     (let left = splitLines before; right = splitLines after;
          head = common_head left right;
          tail = common_head (rev (drop head left)) (rev (drop head right)) in
      map (line Same) (take head left)
      @ middleDiff (take (length left - tail - head) (drop head left))
          (take (length right - tail - head) (drop head right)) maxCells
      @ map (line Same) (drop (length left - tail) left))"

section \<open>Folding\<close>

text \<open>\<open>near.fill(1, from, to)\<close>\<close>

definition fill :: "nat \<Rightarrow> nat \<Rightarrow> bool list \<Rightarrow> bool list" where
  "fill from to near = map (\<lambda>k. near ! k \<or> from \<le> k \<and> k < to) [0..<length near]"

definition mark_near :: "diff_line list \<Rightarrow> nat \<Rightarrow> bool list" where
  "mark_near lines context' =
     foldl (\<lambda>near index.
         if dl_kind (lines ! index) = Same then near
         else fill (index - context') (min (length lines - 1) (index + context') + 1) near)
       (replicate (length lines) False) [0..<length lines]"

text \<open>The second loop: each line with its mark, and the lines skipped so far.\<close>

fun fold_lines :: "(diff_line \<times> bool) list \<Rightarrow> nat \<Rightarrow> folded_line list" where
  "fold_lines [] skipped = (if skipped > 0 then [Fold skipped] else [])"
| "fold_lines ((l, near) # ls) skipped =
     (if dl_kind l = Same \<and> \<not> near then fold_lines ls (skipped + 1)
      else (if skipped > 0 then [Fold skipped] else []) @ Line l # fold_lines ls 0)"

definition foldDiff :: "diff_line list \<Rightarrow> nat \<Rightarrow> folded_line list" where
  "foldDiff lines context' = fold_lines (zip lines (mark_near lines context')) 0"

section \<open>What the diff promises\<close>

text \<open>The two sides of a diff: what it shows of the text before and after.\<close>

definition before_side :: "diff_line list \<Rightarrow> jstr list" where
  "before_side ls = map dl_text (filter (\<lambda>l. dl_kind l \<noteq> Added) ls)"

definition after_side :: "diff_line list \<Rightarrow> jstr list" where
  "after_side ls = map dl_text (filter (\<lambda>l. dl_kind l \<noteq> Removed) ls)"

definition shared :: "diff_line list \<Rightarrow> nat" where
  "shared ls = length (filter (\<lambda>l. dl_kind l = Same) ls)"

lemma line_simps [simp]: "dl_kind (line k t) = k" "dl_text (line k t) = t"
  by (simp_all add: line_def)

lemma side_append [simp]:
  "before_side (a @ b) = before_side a @ before_side b"
  "after_side (a @ b) = after_side a @ after_side b" "shared (a @ b) = shared a + shared b"
  by (simp_all add: before_side_def after_side_def shared_def)

lemma side_Cons [simp]:
  "before_side (l # ls) = (if dl_kind l = Added then before_side ls else dl_text l # before_side ls)"
  "after_side (l # ls) = (if dl_kind l = Removed then after_side ls else dl_text l # after_side ls)"
  "shared (l # ls) = (if dl_kind l = Same then 1 else 0) + shared ls"
  by (simp_all add: before_side_def after_side_def shared_def)

lemma side_Nil [simp]: "before_side [] = []" "after_side [] = []" "shared [] = 0"
  by (simp_all add: before_side_def after_side_def shared_def)

lemma side_map [simp]:
  "before_side (map (line k) ts) = (if k = Added then [] else ts)"
  "after_side (map (line k) ts) = (if k = Removed then [] else ts)"
  "shared (map (line k) ts) = (if k = Same then length ts else 0)"
  by (induction ts) auto

lemma walk_sides: "before_side (walk xs ys rows) = xs \<and> after_side (walk xs ys rows) = ys"
  by (induction xs ys rows rule: walk.induct) auto

lemma middle_sides:
  "before_side (middleDiff l r n) = l \<and> after_side (middleDiff l r n) = r"
  by (simp add: middleDiff_def walk_sides)

lemma common_head_le: "common_head xs ys \<le> length xs \<and> common_head xs ys \<le> length ys"
  by (induction xs ys rule: common_head.induct) auto

lemma common_head_take: "take (common_head xs ys) xs = take (common_head xs ys) ys"
  by (induction xs ys rule: common_head.induct) auto

text \<open>The three parts of a comparison: a shared head, two middles and a shared tail.\<close>

lemma split_sides:
  fixes l r :: "'a list"
  defines "h \<equiv> common_head l r"
  defines "t \<equiv> common_head (rev (drop h l)) (rev (drop h r))"
  obtains a b ml mr where "l = a @ ml @ b" "r = a @ mr @ b"
    "take h l = a" "drop (length l - t) l = b"
    "take (length l - t - h) (drop h l) = ml" "take (length r - t - h) (drop h r) = mr"
proof -
  have h: "h \<le> length l" "h \<le> length r" "take h l = take h r"
    unfolding h_def using common_head_le [of l r] common_head_take [of l r] by blast+
  have t: "t \<le> length l - h" "t \<le> length r - h"
    unfolding t_def using common_head_le [of "rev (drop h l)" "rev (drop h r)"] by simp_all
  have "take t (rev (drop h l)) = take t (rev (drop h r))"
    unfolding t_def by (rule common_head_take)
  then have tail: "drop (length l - t) l = drop (length r - t) r"
    using h t by (simp add: take_rev drop_drop)
  have mid: "drop h xs = take (length xs - t - h) (drop h xs) @ drop (length xs - t) xs"
    if "h \<le> length xs" "t \<le> length xs - h" for xs :: "'a list"
  proof -
    have "drop (length xs - t) xs = drop (length xs - t - h) (drop h xs)" using that by simp
    then show ?thesis by (metis append_take_drop_id)
  qed
  show ?thesis
  proof (rule that [OF _ _ refl refl refl refl])
    show "l = take h l @ take (length l - t - h) (drop h l) @ drop (length l - t) l"
      using mid [of l] h t by (metis append_take_drop_id)
    show "r = take h l @ take (length r - t - h) (drop h r) @ drop (length l - t) l"
      unfolding h(3) tail using mid [of r] h t by (metis append_take_drop_id)
  qed
qed

text \<open>
  C32: a line diff loses nothing: its unchanged and removed lines are exactly the
  lines before, in order, and its unchanged and added lines exactly the lines after, whatever
  the size limit.
\<close>

theorem line_diff_reconstructs:
  "before_side (lineDiff before after maxCells) = splitLines before
   \<and> after_side (lineDiff before after maxCells) = splitLines after"
proof -
  obtain a b ml mr where
    "splitLines before = a @ ml @ b" "splitLines after = a @ mr @ b"
    "lineDiff before after maxCells = map (line Same) a @ middleDiff ml mr maxCells @ map (line Same) b"
    unfolding lineDiff_def Let_def by (rule split_sides [of "splitLines before" "splitLines after"]) metis
  then show ?thesis by (simp add: middle_sides)
qed

section \<open>The diff is minimal\<close>

text \<open>The longest common run of two lists, by the recursion the table tabulates.\<close>

fun lcs :: "'a list \<Rightarrow> 'a list \<Rightarrow> nat" where
  "lcs (x # xs) (y # ys) =
     (if x = y then lcs xs ys + 1 else max (lcs xs (y # ys)) (lcs (x # xs) ys))"
| "lcs xs ys = 0"

lemma lcs_Nil [simp]: "lcs [] ys = 0" "lcs xs [] = 0"
  by (cases xs; simp)+

lemma lcs_bounds_subseq: "subseq zs xs \<Longrightarrow> subseq zs ys \<Longrightarrow> length zs \<le> lcs xs ys"
proof (induction xs ys arbitrary: zs rule: lcs.induct)
  case (1 x xs y ys)
  consider "zs = []" | zs' where "zs = x # zs'" "x = y" | "x = y" "zs = [] \<or> hd zs \<noteq> x"
    | "x \<noteq> y" "zs \<noteq> []" "hd zs = x" | "x \<noteq> y" "zs \<noteq> []" "hd zs \<noteq> x"
    by (cases zs) auto
  then show ?case
  proof cases
    case 2
    then show ?thesis using "1.IH"(1) [of zs'] "1.prems" by simp
  next
    case 3
    then have "subseq zs xs" "subseq zs ys"
      using "1.prems" by (cases zs; simp add: subseq_Cons2_iff)+
    then show ?thesis using "1.IH"(1) [of zs] 3 by simp
  next
    case 4
    then have "subseq zs ys" using "1.prems"(2) by (cases zs) (simp_all add: subseq_Cons2_iff)
    then show ?thesis using "1.IH"(3) [of zs] 4 "1.prems"(1) by simp
  next
    case 5
    then have "subseq zs xs" using "1.prems"(1) by (cases zs) (simp_all add: subseq_Cons2_iff)
    then show ?thesis using "1.IH"(2) [of zs] 5 "1.prems"(2) by simp
  qed simp
qed auto

primrec lcs_row :: "'a list \<Rightarrow> 'a list \<Rightarrow> nat list" where
  "lcs_row xs [] = [lcs xs []]"
| "lcs_row xs (y # ys) = lcs xs (y # ys) # lcs_row xs ys"

primrec lcs_table :: "'a list \<Rightarrow> 'a list \<Rightarrow> nat list list" where
  "lcs_table [] ys = [lcs_row [] ys]"
| "lcs_table (x # xs) ys = lcs_row (x # xs) ys # lcs_table xs ys"

lemma hd_lcs_row [simp]: "hd (lcs_row xs ys) = lcs xs ys"
  by (cases ys) auto

lemma hd_lcs_table [simp]: "hd (lcs_table xs ys) = lcs_row xs ys"
  by (cases xs) auto

lemma tl_lcs_table [simp]: "map tl (lcs_table xs (y # ys)) = lcs_table xs ys"
  by (induction xs) auto

lemma table_row_lcs: "table_row x ys (lcs_row xs ys) = lcs_row (x # xs) ys"
  by (induction ys) (auto simp: Let_def)

lemma table_lcs: "table xs ys = lcs_table xs ys"
proof (induction xs)
  case Nil
  have "replicate (Suc (length ys)) 0 = lcs_row [] ys" by (induction ys) auto
  then show ?case by simp
qed (simp add: Let_def table_row_lcs)

lemma walk_shared: "shared (walk xs ys (lcs_table xs ys)) = lcs xs ys"
proof (induction xs ys "lcs_table xs ys" rule: walk.induct)
  case (1 x xs y ys)
  then show ?case by (auto simp: max_def)
qed auto

lemma middle_shared:
  "length l * length r \<le> n \<Longrightarrow> shared (middleDiff l r n) = lcs l r"
  by (auto simp: middleDiff_def walk_shared table_lcs)

lemma common_subseq_head:
  "subseq zs (a @ m) \<Longrightarrow> subseq zs (a @ m') \<Longrightarrow>
    \<exists>zs'. subseq zs' m \<and> subseq zs' m' \<and> length zs \<le> length a + length zs'"
proof (induction a arbitrary: zs)
  case (Cons c a)
  show ?case
  proof (cases "zs \<noteq> [] \<and> hd zs = c")
    case True
    then obtain zs0 where zs: "zs = c # zs0" by (cases zs) auto
    then show ?thesis using Cons.IH [of zs0] Cons.prems by auto
  next
    case False
    then have "subseq zs (a @ m)" "subseq zs (a @ m')"
      using Cons.prems by (cases zs; simp add: subseq_Cons2_iff)+
    then show ?thesis using Cons.IH [of zs] by auto
  qed
qed auto

lemma subseq_reverse: "subseq xs ys \<Longrightarrow> subseq (rev xs) (rev ys)"
  by (induction xs ys rule: list_emb.induct) (auto intro: subseq_rev_drop_many list_emb_append_mono)

lemma common_subseq_tail:
  assumes "subseq zs (m @ b)" and "subseq zs (m' @ b)"
  shows "\<exists>zs'. subseq zs' m \<and> subseq zs' m' \<and> length zs \<le> length zs' + length b"
proof -
  have "subseq (rev zs) (rev b @ rev m)" "subseq (rev zs) (rev b @ rev m')"
    using assms [THEN subseq_reverse] by simp_all
  then obtain ws where "subseq ws (rev m)" "subseq ws (rev m')" "length zs \<le> length b + length ws"
    using common_subseq_head [of "rev zs" "rev b" "rev m" "rev m'"] by auto
  then show ?thesis
    by (intro exI [of _ "rev ws"]) (metis add.commute length_rev rev_rev_ident subseq_reverse)
qed

text \<open>
  C33: the diff keeps as much as can be kept. When the comparison fits the size
  limit, no sequence of lines common to both texts is longer than the unchanged lines of the diff.
\<close>

theorem line_diff_minimal:
  assumes "length (splitLines before) * length (splitLines after) \<le> maxCells"
    and "subseq zs (splitLines before)" and "subseq zs (splitLines after)"
  shows "length zs \<le> shared (lineDiff before after maxCells)"
proof -
  obtain a b ml mr where
    s: "splitLines before = a @ ml @ b" "splitLines after = a @ mr @ b"
    "lineDiff before after maxCells = map (line Same) a @ middleDiff ml mr maxCells @ map (line Same) b"
    unfolding lineDiff_def Let_def by (rule split_sides [of "splitLines before" "splitLines after"]) metis
  obtain zs1 where 1: "subseq zs1 (ml @ b)" "subseq zs1 (mr @ b)" "length zs \<le> length a + length zs1"
    using common_subseq_head [of zs a "ml @ b" "mr @ b"] assms(2,3) s by auto
  obtain zs2 where 2: "subseq zs2 ml" "subseq zs2 mr" "length zs1 \<le> length zs2 + length b"
    using common_subseq_tail [OF 1(1,2)] by auto
  have "length ml * length mr \<le> length (splitLines before) * length (splitLines after)"
    unfolding s by (intro mult_mono) auto
  then have "shared (middleDiff ml mr maxCells) = lcs ml mr"
    using assms(1) by (intro middle_shared) simp
  then show ?thesis
    using lcs_bounds_subseq [OF 2(1,2)] 1(3) 2(3) by (simp add: s(3))
qed

theorem line_diff_minimal_witness:
  "2 \<le> shared (lineDiff [97, 10, 98, 10, 99] [97, 10, 99] 6)"
  using line_diff_minimal [of "[97, 10, 98, 10, 99]" "[97, 10, 99]" 6 "[[97], [99]]"]
  by (simp add: splitLines_def)

section \<open>Folding keeps the neighbourhood of changes\<close>

fun expand_folds :: "folded_line list \<Rightarrow> diff_line option list" where
  "expand_folds [] = []"
| "expand_folds (Line l # fs) = Some l # expand_folds fs"
| "expand_folds (Fold n # fs) = replicate n None @ expand_folds fs"

fun is_fold :: "folded_line \<Rightarrow> bool" where
  "is_fold (Fold n) = True"
| "is_fold (Line l) = False"

lemma length_fill [simp]: "length (fill a b near) = length near"
  by (simp add: fill_def)

lemma nth_fill: "k < length near \<Longrightarrow> fill a b near ! k \<longleftrightarrow> near ! k \<or> a \<le> k \<and> k < b"
  by (simp add: fill_def)

lemma mark_loop:
  fixes lines :: "diff_line list" and c :: nat
  defines "f \<equiv> \<lambda>near index. if dl_kind (lines ! index) = Same then near
      else fill (index - c) (min (length lines - 1) (index + c) + 1) near"
  shows "length near = length lines \<Longrightarrow> set is \<subseteq> {..<length lines} \<Longrightarrow>
    length (foldl f near is) = length lines \<and>
    (\<forall>k < length lines. foldl f near is ! k \<longleftrightarrow>
       near ! k \<or> (\<exists>i \<in> set is. dl_kind (lines ! i) \<noteq> Same \<and> i \<le> k + c \<and> k \<le> i + c))"
proof (induction "is" arbitrary: near)
  case (Cons i "is")
  have "length (f near i) = length lines" using Cons.prems by (simp add: f_def)
  moreover have "f near i ! k \<longleftrightarrow> near ! k \<or> dl_kind (lines ! i) \<noteq> Same \<and> i \<le> k + c \<and> k \<le> i + c"
    if "k < length lines" for k
    using that Cons.prems by (auto simp: f_def nth_fill)
  ultimately show ?case using Cons.IH [of "f near i"] Cons.prems(2) by auto
qed simp

lemma mark_near_spec:
  "length (mark_near lines c) = length lines \<and>
   (\<forall>k < length lines. mark_near lines c ! k \<longleftrightarrow>
      (\<exists>i < length lines. dl_kind (lines ! i) \<noteq> Same \<and> i \<le> k + c \<and> k \<le> i + c))"
  using mark_loop [of "replicate (length lines) False" lines "[0..<length lines]" c]
  unfolding mark_near_def by (auto simp: subset_eq)

lemma expand_fold_lines:
  "expand_folds (fold_lines ls s) = replicate s None
     @ map (\<lambda>(l, near). if dl_kind l = Same \<and> \<not> near then None else Some l) ls"
  by (induction ls s rule: fold_lines.induct) (auto simp: replicate_append_same [symmetric] replicate_add [symmetric])

lemma fold_lines_separated:
  "successively (\<lambda>a b. \<not> (is_fold a \<and> is_fold b)) (fold_lines ls s) \<and> Fold 0 \<notin> set (fold_lines ls s)"
proof (induction ls s rule: fold_lines.induct)
  case (2 l near ls s)
  then show ?case by (auto simp: successively_Cons)
qed simp

text \<open>
  Folding hides exactly the unchanged lines farther than the context from every
  change. Put back in place, the folds stand for precisely those lines, so no changed line and
  no line near one is hidden and the counts add up; no fold is empty and no two are adjacent.
\<close>

theorem fold_diff_exact:
  "expand_folds (foldDiff lines c) =
     map (\<lambda>k. if \<exists>i < length lines. dl_kind (lines ! i) \<noteq> Same \<and> i \<le> k + c \<and> k \<le> i + c
               then Some (lines ! k) else None) [0..<length lines]
   \<and> successively (\<lambda>a b. \<not> (is_fold a \<and> is_fold b)) (foldDiff lines c)
   \<and> Fold 0 \<notin> set (foldDiff lines c)"
proof -
  have near: "length (mark_near lines c) = length lines"
    "\<And>k. k < length lines \<Longrightarrow> mark_near lines c ! k \<longleftrightarrow>
       (\<exists>i < length lines. dl_kind (lines ! i) \<noteq> Same \<and> i \<le> k + c \<and> k \<le> i + c)"
    using mark_near_spec [of lines c] by blast+
  have "(dl_kind (lines ! k) = Same \<and> \<not> mark_near lines c ! k)
      \<longleftrightarrow> \<not> (\<exists>i < length lines. dl_kind (lines ! i) \<noteq> Same \<and> i \<le> k + c \<and> k \<le> i + c)"
    if "k < length lines" for k
    using near(2) [OF that] that by auto
  then have "expand_folds (foldDiff lines c) = map (\<lambda>k. if \<exists>i < length lines. dl_kind (lines ! i) \<noteq> Same \<and> i \<le> k + c \<and> k \<le> i + c
               then Some (lines ! k) else None) [0..<length lines]"
    by (intro nth_equalityI) (simp_all add: foldDiff_def expand_fold_lines near(1))
  then show ?thesis using fold_lines_separated by (simp add: foldDiff_def)
qed
end
