(* ===== verification/Request_Data.thy ===== *)
theory Request_Data
  imports Prelude Json_Values
begin

text \<open>
  The data of \<open>request-record-model.ts\<close>: requests, conversations and the calls of the live
  board. Counts and tokens are integers; durations and ratios, which may be fractional, are
  rationals; timestamps stay the text the core sent. A timestamp is read by the host's
  \<open>Date.parse\<close>, an argument of the operations that need it, whose \<open>NaN\<close> is \<open>None\<close>.
\<close>

type_synonym date_parser = "jstr \<Rightarrow> int option"

section \<open>Vocabulary\<close>

datatype client_type =
    ClientUnknown | ClientCodex | ClientClaudeCode | ClientCursor | ClientGrokCli |
    ClientGeminiCli | ClientOpencode | ClientOpenclaw | ClientCline | ClientPi |
    ClientDeepseekHarness | ClientCodewhale | ClientReasonix | ClientQwenCode |
    ClientKimiCode | ClientCodebuddy | ClientCopilot | ClientDroid | ClientCrush |
    ClientKiloCode | ClientRooCode | ClientMistralVibe | ClientZed | ClientCherryStudio |
    ClientGoose

fun client_type_name :: "client_type \<Rightarrow> string" where
  "client_type_name ClientUnknown = ''unknown''"
| "client_type_name ClientCodex = ''codex''"
| "client_type_name ClientClaudeCode = ''claude_code''"
| "client_type_name ClientCursor = ''cursor''"
| "client_type_name ClientGrokCli = ''grok_cli''"
| "client_type_name ClientGeminiCli = ''gemini_cli''"
| "client_type_name ClientOpencode = ''opencode''"
| "client_type_name ClientOpenclaw = ''openclaw''"
| "client_type_name ClientCline = ''cline''"
| "client_type_name ClientPi = ''pi''"
| "client_type_name ClientDeepseekHarness = ''deepseek_harness''"
| "client_type_name ClientCodewhale = ''codewhale''"
| "client_type_name ClientReasonix = ''reasonix''"
| "client_type_name ClientQwenCode = ''qwen_code''"
| "client_type_name ClientKimiCode = ''kimi_code''"
| "client_type_name ClientCodebuddy = ''codebuddy''"
| "client_type_name ClientCopilot = ''copilot''"
| "client_type_name ClientDroid = ''droid''"
| "client_type_name ClientCrush = ''crush''"
| "client_type_name ClientKiloCode = ''kilo_code''"
| "client_type_name ClientRooCode = ''roo_code''"
| "client_type_name ClientMistralVibe = ''mistral_vibe''"
| "client_type_name ClientZed = ''zed''"
| "client_type_name ClientCherryStudio = ''cherry_studio''"
| "client_type_name ClientGoose = ''goose''"

definition CLIENT_TYPES :: "client_type list" where
  "CLIENT_TYPES =
     [ClientUnknown, ClientCodex, ClientClaudeCode, ClientCursor, ClientGrokCli,
      ClientGeminiCli, ClientOpencode, ClientOpenclaw, ClientCline, ClientPi,
      ClientDeepseekHarness, ClientCodewhale, ClientReasonix, ClientQwenCode, ClientKimiCode,
      ClientCodebuddy, ClientCopilot, ClientDroid, ClientCrush, ClientKiloCode, ClientRooCode,
      ClientMistralVibe, ClientZed, ClientCherryStudio, ClientGoose]"

interpretation client_type_enum: string_enum CLIENT_TYPES client_type_name
proof
  show "x \<in> set CLIENT_TYPES" for x by (cases x) (simp_all add: CLIENT_TYPES_def)
  show "distinct (map client_type_name CLIENT_TYPES)" by (simp add: CLIENT_TYPES_def)
qed

datatype gateway_rewrite =
    RewriteModelRedirect | RewritePrivacy | RewriteImageCompression | RewriteGlobalPrompt |
    RewriteReasoningEffort | RewriteConversion | RewriteClientIdentity

fun rewrite_name :: "gateway_rewrite \<Rightarrow> string" where
  "rewrite_name RewriteModelRedirect = ''model_redirect''"
| "rewrite_name RewritePrivacy = ''privacy''"
| "rewrite_name RewriteImageCompression = ''image_compression''"
| "rewrite_name RewriteGlobalPrompt = ''global_prompt''"
| "rewrite_name RewriteReasoningEffort = ''reasoning_effort''"
| "rewrite_name RewriteConversion = ''conversion''"
| "rewrite_name RewriteClientIdentity = ''client_identity''"

definition GATEWAY_REWRITES :: "gateway_rewrite list" where
  "GATEWAY_REWRITES =
     [RewriteModelRedirect, RewritePrivacy, RewriteImageCompression, RewriteGlobalPrompt,
      RewriteReasoningEffort, RewriteConversion, RewriteClientIdentity]"

interpretation gateway_rewrite_enum: string_enum GATEWAY_REWRITES rewrite_name
proof
  show "x \<in> set GATEWAY_REWRITES" for x by (cases x) (simp_all add: GATEWAY_REWRITES_def)
  show "distinct (map rewrite_name GATEWAY_REWRITES)" by (simp add: GATEWAY_REWRITES_def)
qed

datatype request_status = Pending | Succeeded | StatusFailed | Cancelled | Blocked

text \<open>The outcome of a conversation: a record's status, or interrupted.\<close>

datatype session_status = Recorded request_status | Interrupted

datatype output_kind = OutputReasoning | OutputText | OutputTool

record output_activity =
  oa_kind :: output_kind
  oa_tools :: "jstr list"

record request_model_redirect =
  rd_from :: jstr
  rd_to :: jstr

record failed_repeats =
  fr_tool :: jstr
  fr_count :: int
  fr_command :: "bool option"

record session_usage =
  su_input_tokens :: int
  su_output_tokens :: int
  su_cache_read_tokens :: int
  su_cache_write_tokens :: int
  su_cache_hit_ratio :: "rat option"

record session_cost =
  sc_amount_usd :: jstr
  sc_priced :: int
  sc_unpriced :: int
  sc_pending :: int

section \<open>Requests\<close>

record request_usage =
  us_input_tokens :: int
  us_output_tokens :: int
  us_total_tokens :: int
  us_cache_read_tokens :: "int option"
  us_cache_write_tokens :: "int option"
  us_billing_incomplete :: "bool option"

record upstream_error_response =
  ue_status :: int
  ue_content_type :: "jstr option"
  ue_body :: jstr
  ue_truncated :: bool

record request_error_summary =
  er_category :: jstr
  er_code :: jstr
  er_message :: jstr
  er_retryable :: bool
  er_upstream :: "upstream_error_response option"

record request_audit_summary =
  au_request_body_captured :: bool
  au_response_content_captured :: bool
  au_request_body_truncated :: bool
  au_response_content_truncated :: bool
  au_upstream_request_body_captured :: bool
  au_upstream_response_content_captured :: bool
  au_upstream_request_body_truncated :: bool
  au_upstream_response_content_truncated :: bool

record privacy_hit_count =
  ph_kind :: jstr
  ph_count :: int

datatype privacy_decision =
    DecisionNone | DecisionTrusted | DecisionAllow | DecisionWarn | DecisionRedact
  | DecisionBlock | DecisionFailOpen

record privacy_confidence =
  pc_min :: rat
  pc_max :: rat
  pc_threshold :: rat

record privacy_finding =
  pf_kind :: jstr
  pf_json_path :: jstr
  pf_count :: int
  pf_confidence :: "privacy_confidence option"

datatype privacy_ignore_reason =
    IgnoreKindDisabled | IgnoreLowConfidence | IgnoreAllowlisted | IgnoreAstrlinkIdentifier
  | IgnoreExampleValue

record privacy_ignored =
  pi_kind :: jstr
  pi_reason :: privacy_ignore_reason
  pi_count :: int
  pi_confidence :: "privacy_confidence option"

record privacy_restore_summary =
  ps_enabled :: bool
  ps_mapping_count :: int
  ps_restored_count :: int
  ps_visible_restored_count :: int
  ps_tool_argument_restored_count :: int
  ps_fallback_count :: int
  ps_hits :: "privacy_hit_count list option"

datatype request_event_kind =
    EventAccepted | EventModelRedirect | EventPrivacy | EventImageCompression | EventRouted
  | EventUpstream | EventRestore | EventCompleted

record request_event =
  ev_kind :: request_event_kind
  ev_started_at :: jstr
  ev_ended_at :: "jstr option"
  ev_status :: request_status
  ev_summary :: jstr
  ev_attempt_index :: int

datatype routing_selection =
    SelectedPriority | SelectedSessionBinding | SelectedResponseAffinity
  | SelectedWebsocketConnection | SelectedFailover | SelectedClientPin | SelectedClaudeCli

datatype routing_skip_reason =
    SkipDisabled | SkipNotConnected | SkipRiskPaused | SkipModelNotListed
  | SkipProtocolUnsupported | SkipStreamingUnsupported | SkipConversionUnavailable
  | SkipCircuitOpen | SkipRateLimited | SkipWebsocketDisabled | SkipWebsocketUnsupported

record routing_skip =
  sk_service_id :: jstr
  sk_reason :: routing_skip_reason

record request_routing_decision =
  rt_selected :: "routing_selection option"
  rt_skipped :: "routing_skip list"

datatype conversion_phase = PhaseRequest | PhaseResponse
datatype conversion_severity = SeverityWarning | SeverityError

record conversion_diagnostic =
  cd_phase :: conversion_phase
  cd_severity :: conversion_severity
  cd_code :: jstr
  cd_path :: "jstr option"
  cd_message :: jstr

datatype session_cursor_kind = CursorExplicit | CursorEchoId | CursorFingerprint
datatype session_cursor_direction = CursorIn | CursorOut

record session_cursor =
  cu_kind :: session_cursor_kind
  cu_direction :: session_cursor_direction
  cu_value :: jstr

record session_link =
  sl_kind :: session_cursor_kind
  sl_value :: jstr

datatype recovery_action = RecoveryRetry | RecoveryFailover

record request_recovery =
  rv_path_id :: "jstr option"
  rv_path_name :: "jstr option"
  rv_path_version :: "jstr option"
  rv_step_id :: "jstr option"
  rv_upstream_model :: "jstr option"
  rv_action :: "recovery_action option"
  rv_reason :: "jstr option"
  rv_delay_ms :: rat
  rv_stop_reason :: "jstr option"

datatype context_item_kind = ItemRules | ItemMemory | ItemSkills | ItemMcp
datatype context_item_scope = ScopeGlobal | ScopeProject | ScopeLocal

record context_parts =
  cp_history :: int
  cp_tool_results :: int
  cp_tools :: int
  cp_system :: int
  cp_memory :: int
  cp_other :: int

record context_item =
  ci_kind :: context_item_kind
  ci_name :: "jstr option"
  ci_path :: "jstr option"
  ci_scope :: "context_item_scope option"
  ci_count :: "int option"
  ci_servers :: "jstr list option"
  ci_tokens :: int
  ci_hash :: "jstr option"

datatype memory_write_kind = WriteRules | WriteMemory

record memory_write =
  mw_kind :: memory_write_kind
  mw_name :: jstr
  mw_path :: "jstr option"
  mw_title :: "jstr option"
  mw_entry :: "jstr option"
  mw_hook :: "jstr option"

record memory_read =
  mm_name :: jstr
  mm_path :: "jstr option"

record request_context =
  cx_parts :: "context_parts option"
  cx_items :: "context_item list"
  cx_system_hash :: "jstr option"
  cx_tools_hash :: "jstr option"
  cx_summary :: "bool option"
  cx_compacted :: "jstr option"
  cx_helper :: "bool option"
  cx_memory_writes :: "memory_write list"
  cx_memory_reads :: "memory_read list option"
  cx_skills_used :: "jstr list option"
  cx_failed_repeats :: "failed_repeats option"

record request_record =
  rq_client_type :: "client_type option"
  rq_recovery :: "request_recovery option"
  rq_id :: jstr
  rq_parent_request_id :: "jstr option"
  rq_attempt_index :: int
  rq_child_count :: int
  rq_started_at :: jstr
  rq_completed_at :: "jstr option"
  rq_status :: request_status
  rq_input_protocol :: jstr
  rq_requested_model :: "jstr option"
  rq_model_redirect :: "request_model_redirect option"
  rq_output :: "output_activity option"
  rq_reasoning_effort :: "jstr option"
  rq_streaming :: bool
  rq_route_id :: "jstr option"
  rq_service_id :: "jstr option"
  rq_routing_decision :: "request_routing_decision option"
  rq_conversion_diagnostics :: "conversion_diagnostic list option"
  rq_local_access_token_id :: "jstr option"
  rq_http_status :: "int option"
  rq_latency_ms :: "rat option"
  rq_first_token_ms :: "rat option"
  rq_first_answer_ms :: "rat option"
  rq_usage :: "request_usage option"
  rq_error :: "request_error_summary option"
  rq_audit :: request_audit_summary
  rq_privacy_restore :: "privacy_restore_summary option"
  rq_privacy_decision :: "privacy_decision option"
  rq_privacy_findings :: "privacy_finding list option"
  rq_privacy_ignored :: "privacy_ignored list option"
  rq_session_id :: "jstr option"
  rq_previous_response_id :: "jstr option"
  rq_output_response_id :: "jstr option"
  rq_input_preview :: "jstr option"
  rq_turn_index :: "int option"
  rq_session_link :: "session_link option"
  rq_parent_session_id :: "jstr option"
  rq_context :: "request_context option"
  rq_project :: "jstr option"
  rq_cursors :: "session_cursor list"
  rq_events :: "request_event list"

section \<open>Conversations\<close>

text \<open>
  A member that may be absent or null is an option where the code does not tell the two
  apart, and an option of an option where it does.
\<close>

record request_session =
  se_client_type :: "client_type option"
  se_id :: jstr
  se_title :: jstr
  se_started_at :: jstr
  se_last_started_at :: jstr
  se_completed_at :: "jstr option"
  se_duration_ms :: rat
  se_running_since :: "jstr option"
  se_tool_duration_ms :: "rat option option"
  se_average_ttft_ms :: "rat option option"
  se_output_tokens_per_second :: "rat option option"
  se_active_request_starts :: "jstr list"
  se_turn_count :: int
  se_call_count :: int
  se_status :: session_status
  se_requested_model :: "jstr option"
  se_model_redirect :: "request_model_redirect option"
  se_output :: "output_activity option"
  se_reasoning_effort :: "jstr option"
  se_input_protocol :: jstr
  se_service_id :: "jstr option"
  se_local_access_token_id :: "jstr option"
  se_privacy_warned :: "bool option"
  se_parent_session_id :: "jstr option"
  se_subagent_count :: "int option"
  se_context_tokens :: "int option"
  se_compaction_point_tokens :: "int option"
  se_context_window_tokens :: "int option"
  se_compaction_count :: "int option"
  se_usage :: "session_usage option"
  se_cost :: "session_cost option"
  se_failed_repeats :: "failed_repeats option"

definition isModelDiscoveryProtocol :: "jstr \<Rightarrow> bool" where
  "isModelDiscoveryProtocol protocol \<longleftrightarrow>
     protocol = js ''openai.models'' \<or> protocol = js ''google.models''"

section \<open>Calls of the live board\<close>

record activity_call =
  ac_session_id :: jstr
  ac_parent_session_id :: "jstr option"
  ac_client_type :: "client_type option"
  ac_model :: "jstr option"
  ac_started_at :: jstr
  ac_completed_at :: "jstr option"
  ac_status :: request_status
  ac_output :: "output_activity option"
  ac_output_tokens :: "int option"
  ac_service_id :: "jstr option"
  ac_failed_service_id :: "jstr option"
  ac_rewrites :: "gateway_rewrite list option"

record request_activity =
  ra_now :: jstr
  ra_calls :: "activity_call list"

section \<open>Maps in insertion order\<close>

text \<open>
  \<open>Map\<close>s whose values are arrays are filled by appending: the key keeps the place of its
  first insertion.
\<close>

fun group_add :: "'k \<Rightarrow> 'a \<Rightarrow> ('k \<times> 'a list) list \<Rightarrow> ('k \<times> 'a list) list" where
  "group_add k x [] = [(k, [x])]"
| "group_add k x ((k', xs) # gs) =
     (if k' = k then (k', xs @ [x]) # gs else (k', xs) # group_add k x gs)"

definition group_by :: "('a \<Rightarrow> 'k) \<Rightarrow> 'a list \<Rightarrow> ('k \<times> 'a list) list" where
  "group_by key xs = foldl (\<lambda>gs x. group_add (key x) x gs) [] xs"

definition group_of :: "('k \<times> 'a list) list \<Rightarrow> 'k \<Rightarrow> 'a list" where
  "group_of gs k = (case map_of gs k of None \<Rightarrow> [] | Some xs \<Rightarrow> xs)"

lemma group_of_Cons:
  "group_of ((k', xs) # gs) k = (if k = k' then xs else group_of gs k)"
  by (simp add: group_of_def)

lemma group_of_add: "group_of (group_add k x gs) k' = (if k' = k then group_of gs k @ [x] else group_of gs k')"
  by (induction k x gs rule: group_add.induct) (auto simp: group_of_Cons group_of_def)

lemma keys_add: "fst ` set (group_add k x gs) = insert k (fst ` set gs)"
  by (induction k x gs rule: group_add.induct) auto

lemma distinct_add: "distinct (map fst gs) \<Longrightarrow> distinct (map fst (group_add k x gs))"
proof (induction k x gs rule: group_add.induct)
  case (2 k x k' xs gs)
  then show ?case using keys_add [of k x gs] by (auto simp: image_iff)
qed simp

lemma group_loop:
  assumes "distinct (map fst gs)"
  shows "distinct (map fst (foldl (\<lambda>gs x. group_add (key x) x gs) gs xs))
    \<and> fst ` set (foldl (\<lambda>gs x. group_add (key x) x gs) gs xs) = fst ` set gs \<union> key ` set xs
    \<and> group_of (foldl (\<lambda>gs x. group_add (key x) x gs) gs xs) k = group_of gs k @ filter (\<lambda>x. key x = k) xs"
  using assms
proof (induction xs arbitrary: gs)
  case (Cons x xs)
  then show ?case using Cons.IH [OF distinct_add [OF Cons.prems]] by (auto simp: keys_add group_of_add)
qed simp

lemma group_by_keys:
  "distinct (map fst (group_by key xs))" "fst ` set (group_by key xs) = key ` set xs"
  using group_loop [of "[]" key xs] by (simp_all add: group_by_def)

lemma group_of_group_by [simp]: "group_of (group_by key xs) k = filter (\<lambda>x. key x = k) xs"
  using group_loop [of "[]" key xs k] by (simp add: group_by_def group_of_def)

lemma group_by_member: "(k, g) \<in> set (group_by key xs) \<Longrightarrow> g = filter (\<lambda>x. key x = k) xs"
  using group_of_group_by [of key xs k] group_by_keys(1) [of key xs] by (simp add: group_of_def)

text \<open>The value of a key changed by a function, a key not yet there from a fresh value.\<close>

fun upsert :: "'k \<Rightarrow> 'v \<Rightarrow> ('v \<Rightarrow> 'v) \<Rightarrow> ('k \<times> 'v) list \<Rightarrow> ('k \<times> 'v) list" where
  "upsert k fresh f [] = [(k, f fresh)]"
| "upsert k fresh f ((k', v) # m) =
     (if k' = k then (k', f v) # m else (k', v) # upsert k fresh f m)"

lemma upsert_sum:
  fixes h :: "'v \<Rightarrow> int"
  assumes "\<And>v. h (f v) = h v + c" and "h fresh = 0"
  shows "sum_list (map (h \<circ> snd) (upsert k fresh f m)) = sum_list (map (h \<circ> snd) m) + c"
proof (induction m)
  case (Cons e m)
  then show ?case using assms by (cases e) auto
qed (use assms in simp)

lemma upsert_keys: "fst ` set (upsert k fresh f m) = insert k (fst ` set m)"
  by (induction k fresh f m rule: upsert.induct) auto

lemma upsert_distinct: "distinct (map fst m) \<Longrightarrow> distinct (map fst (upsert k fresh f m))"
proof (induction k fresh f m rule: upsert.induct)
  case (2 k fresh f k' v m)
  then show ?case using upsert_keys [of k fresh f m] by (auto simp: image_iff)
qed simp

lemma map_of_upsert:
  "map_of (upsert k fresh f m) i = (if i = k then Some (f (case map_of m k of None \<Rightarrow> fresh | Some v \<Rightarrow> v)) else map_of m i)"
  by (induction k fresh f m rule: upsert.induct) auto

lemma upsert_all:
  assumes "list_all P m" and "P (k, f fresh)" and "\<And>v. P (k, v) \<Longrightarrow> P (k, f v)"
  shows "list_all P (upsert k fresh f m)"
  using assms
proof (induction m)
  case (Cons e m)
  then show ?case by (cases e) auto
qed simp

lemma upsert_new: "k \<notin> fst ` set m \<Longrightarrow> upsert k fresh f m = m @ [(k, f fresh)]"
  by (induction k fresh f m rule: upsert.induct) auto

text \<open>A new key takes the entry given; a known one is changed.\<close>

fun put_or :: "'k \<Rightarrow> 'v \<Rightarrow> ('v \<Rightarrow> 'v) \<Rightarrow> ('k \<times> 'v) list \<Rightarrow> ('k \<times> 'v) list" where
  "put_or k new f [] = [(k, new)]"
| "put_or k new f ((k', v) # m) = (if k' = k then (k', f v) # m else (k', v) # put_or k new f m)"

lemma put_or_keys: "fst ` set (put_or k new f m) = insert k (fst ` set m)"
  by (induction k new f m rule: put_or.induct) auto

lemma put_or_distinct: "distinct (map fst m) \<Longrightarrow> distinct (map fst (put_or k new f m))"
proof (induction k new f m rule: put_or.induct)
  case (2 k new f k' v m)
  then show ?case using put_or_keys [of k new f m] by (auto simp: image_iff)
qed simp

lemma put_or_all:
  assumes "list_all P m" and "P (k, new)" and "\<And>v. P (k, v) \<Longrightarrow> P (k, f v)"
  shows "list_all P (put_or k new f m)"
  using assms
proof (induction m)
  case (Cons e m)
  then show ?case by (cases e) auto
qed simp

lemma put_or_sum:
  fixes h :: "'v \<Rightarrow> int"
  assumes "\<And>v. h (f v) = h v + c" and "h new = c"
  shows "sum_list (map (h \<circ> snd) (put_or k new f m)) = sum_list (map (h \<circ> snd) m) + c"
proof (induction m)
  case (Cons e m)
  then show ?case using assms by (cases e) auto
qed (use assms in simp)

text \<open>A later entry of \<open>new Map(entries)\<close> replaces an earlier one with its key.\<close>

definition last_by :: "('a \<Rightarrow> 'k) \<Rightarrow> 'a list \<Rightarrow> 'k \<Rightarrow> 'a option" where
  "last_by key xs k = List.find (\<lambda>x. key x = k) (rev xs)"

lemma last_by_None: "last_by key xs k = None \<longleftrightarrow> k \<notin> key ` set xs"
  by (auto simp: last_by_def find_None_iff)

lemma last_by_Some: "last_by key xs k = Some x \<Longrightarrow> x \<in> set xs \<and> key x = k"
  by (auto simp: last_by_def find_Some_iff) (metis nth_mem set_rev length_rev)

lemma last_by_distinct:
  "distinct (map key xs) \<Longrightarrow> x \<in> set xs \<Longrightarrow> last_by key xs (key x) = Some x"
proof (cases "last_by key xs (key x)")
  case (Some y)
  assume "distinct (map key xs)" "x \<in> set xs"
  with last_by_Some [OF Some] have "y = x" by (auto simp: distinct_map inj_on_def)
  with Some show ?thesis by simp
qed (auto simp: last_by_None)

section \<open>Newest first\<close>

text \<open>
  The comparator of the lists: by time, later first, then by ID, descending. A time that
  does not parse makes the difference \<open>NaN\<close>, which \<open>||\<close> passes over. \<open>collate\<close> is the
  host's \<open>localeCompare\<close>.
\<close>

definition newest_first ::
  "date_parser \<Rightarrow> (jstr \<Rightarrow> jstr \<Rightarrow> int) \<Rightarrow> ('a \<Rightarrow> jstr) \<Rightarrow> ('a \<Rightarrow> jstr) \<Rightarrow> 'a \<Rightarrow> 'a \<Rightarrow> int"
where
  "newest_first date collate time ident left right =
     (case (date (time right), date (time left)) of
        (Some r, Some l) \<Rightarrow> if r - l \<noteq> 0 then r - l else collate (ident right) (ident left)
      | _ \<Rightarrow> collate (ident right) (ident left))"

text \<open>A finished call, for the examples.\<close>

definition sample_request :: "string \<Rightarrow> request_record" where
  "sample_request i =
     \<lparr>rq_client_type = None, rq_recovery = None, rq_id = js i, rq_parent_request_id = None,
      rq_attempt_index = 0, rq_child_count = 0, rq_started_at = js ''2024'',
      rq_completed_at = None, rq_status = Succeeded, rq_input_protocol = js ''openai.chat'',
      rq_requested_model = None, rq_model_redirect = None, rq_output = None,
      rq_reasoning_effort = None, rq_streaming = False, rq_route_id = None, rq_service_id = None,
      rq_routing_decision = None, rq_conversion_diagnostics = None,
      rq_local_access_token_id = None, rq_http_status = None, rq_latency_ms = None,
      rq_first_token_ms = None, rq_first_answer_ms = None, rq_usage = None, rq_error = None,
      rq_audit = \<lparr>au_request_body_captured = False, au_response_content_captured = False, au_request_body_truncated = False, au_response_content_truncated = False,
        au_upstream_request_body_captured = False, au_upstream_response_content_captured = False, au_upstream_request_body_truncated = False, au_upstream_response_content_truncated = False\<rparr>,
      rq_privacy_restore = None, rq_privacy_decision = None, rq_privacy_findings = None,
      rq_privacy_ignored = None, rq_session_id = None, rq_previous_response_id = None,
      rq_output_response_id = None, rq_input_preview = None, rq_turn_index = None,
      rq_session_link = None, rq_parent_session_id = None, rq_context = None, rq_project = None,
      rq_cursors = [], rq_events = []\<rparr>"

end
