(* ===== verification/Live_Merge.thy ===== *)
theory Live_Merge
  imports Request_Data "HOL-Library.Multiset"
begin

text \<open>
  \<open>session-live-model.ts\<close> and \<open>request-live-model.ts\<close>: the live lists of conversations and
  of requests. A poll brings a page; it is merged into the items shown and the queue of new
  ones waiting above them, keeping the objects of entries that did not move.
\<close>

section \<open>Filters\<close>

text \<open>An empty text, and for the two enumerations the absence of one, stands for no filter.\<close>

record record_filters =
  fl_status :: "session_status option"
  fl_service_id :: jstr
  fl_protocol :: jstr
  fl_client_type :: "client_type option"
  fl_local_access_token_ids :: "jstr list"

definition token_matches :: "jstr list \<Rightarrow> jstr option \<Rightarrow> bool" where
  "token_matches ids token \<longleftrightarrow>
     ids = [] \<or> (case token of None \<Rightarrow> False | Some t \<Rightarrow> t \<in> set ids)"

definition client_or_unknown :: "client_type option \<Rightarrow> client_type" where
  "client_or_unknown c = (case c of None \<Rightarrow> ClientUnknown | Some x \<Rightarrow> x)"

definition sessionMatchesFilters :: "request_session \<Rightarrow> record_filters \<Rightarrow> bool" where
  "sessionMatchesFilters session filters \<longleftrightarrow>
     (fl_status filters = None \<or> fl_status filters = Some (se_status session))
     \<and> (fl_service_id filters = [] \<or> se_service_id session = Some (fl_service_id filters))
     \<and> (fl_protocol filters = [] \<or> se_input_protocol session = fl_protocol filters)
     \<and> (fl_client_type filters = None
        \<or> fl_client_type filters = Some (client_or_unknown (se_client_type session)))
     \<and> token_matches (fl_local_access_token_ids filters) (se_local_access_token_id session)"

definition recordMatchesFilters :: "request_record \<Rightarrow> record_filters \<Rightarrow> bool" where
  "recordMatchesFilters record filters \<longleftrightarrow>
     (fl_status filters = None \<or> fl_status filters = Some (Recorded (rq_status record)))
     \<and> (fl_service_id filters = [] \<or> rq_service_id record = Some (fl_service_id filters))
     \<and> (fl_protocol filters = [] \<or> rq_input_protocol record = fl_protocol filters)
     \<and> (fl_client_type filters = None
        \<or> fl_client_type filters = Some (client_or_unknown (rq_client_type record)))
     \<and> token_matches (fl_local_access_token_ids filters) (rq_local_access_token_id record)"

definition listOnlyFiltersActive :: "record_filters \<Rightarrow> bool" where
  "listOnlyFiltersActive filters \<longleftrightarrow>
     fl_status filters \<noteq> None \<or> fl_service_id filters \<noteq> [] \<or> fl_protocol filters \<noteq> []
     \<or> fl_client_type filters \<noteq> None"

section \<open>Conversations\<close>

text \<open>\<open>(output?.tools ?? []).join("\u0000")\<close>\<close>

definition joined_tools :: "output_activity option \<Rightarrow> jstr" where
  "joined_tools output = join_with [0] (case output of None \<Rightarrow> [] | Some out \<Rightarrow> oa_tools out)"

definition sameSession :: "request_session \<Rightarrow> request_session \<Rightarrow> bool" where
  "sameSession left right \<longleftrightarrow>
     se_title left = se_title right
     \<and> se_started_at left = se_started_at right
     \<and> se_last_started_at left = se_last_started_at right
     \<and> se_completed_at left = se_completed_at right
     \<and> se_duration_ms left = se_duration_ms right
     \<and> se_running_since left = se_running_since right
     \<and> se_tool_duration_ms left = se_tool_duration_ms right
     \<and> se_average_ttft_ms left = se_average_ttft_ms right
     \<and> se_output_tokens_per_second left = se_output_tokens_per_second right
     \<and> length (se_active_request_starts left) = length (se_active_request_starts right)
     \<and> list_all (\<lambda>(a, b). a = b) (zip (se_active_request_starts left) (se_active_request_starts right))
     \<and> se_turn_count left = se_turn_count right
     \<and> se_call_count left = se_call_count right
     \<and> se_status left = se_status right
     \<and> se_requested_model left = se_requested_model right
     \<and> map_option rd_from (se_model_redirect left) = map_option rd_from (se_model_redirect right)
     \<and> map_option rd_to (se_model_redirect left) = map_option rd_to (se_model_redirect right)
     \<and> map_option oa_kind (se_output left) = map_option oa_kind (se_output right)
     \<and> joined_tools (se_output left) = joined_tools (se_output right)
     \<and> se_reasoning_effort left = se_reasoning_effort right
     \<and> se_input_protocol left = se_input_protocol right
     \<and> se_client_type left = se_client_type right
     \<and> se_service_id left = se_service_id right
     \<and> se_local_access_token_id left = se_local_access_token_id right"

definition sortSessionsNewestFirst ::
  "date_parser \<Rightarrow> (jstr \<Rightarrow> jstr \<Rightarrow> int) \<Rightarrow> request_session list \<Rightarrow> request_session list"
where
  "sortSessionsNewestFirst date collate sessions =
     sort_by (newest_first date collate se_last_started_at se_id) sessions"

record 'a merge_result =
  mr_items :: "'a list"
  mr_queued :: "'a list"
  mr_added :: nat

text \<open>\<open>adopt\<close>: the incoming version of an entry when it moved, else the entry itself.\<close>

definition adopt :: "request_session list \<Rightarrow> request_session \<Rightarrow> request_session" where
  "adopt incoming session =
     (case last_by se_id incoming (se_id session) of
        None \<Rightarrow> session
      | Some next \<Rightarrow> if sameSession next session then session else next)"

definition moved :: "request_session list \<Rightarrow> request_session \<Rightarrow> bool" where
  "moved incoming session \<longleftrightarrow>
     (case last_by se_id incoming (se_id session) of
        None \<Rightarrow> False | Some next \<Rightarrow> \<not> sameSession next session)"

definition mergeLiveSessions ::
  "date_parser \<Rightarrow> (jstr \<Rightarrow> jstr \<Rightarrow> int) \<Rightarrow> request_session list \<Rightarrow> request_session list
     \<Rightarrow> request_session list \<Rightarrow> bool \<Rightarrow> request_session merge_result"
where
  "mergeLiveSessions date collate items queued incoming queueNew =
     (let known = set (map se_id (items @ queued));
          updatedItems = map (adopt incoming) items;
          updatedQueue = map (adopt incoming) queued;
          additions = filter (\<lambda>session. se_id session \<notin> known) incoming in
      if \<not> list_ex (moved incoming) (items @ queued) \<and> length additions = 0
      then \<lparr>mr_items = items, mr_queued = queued, mr_added = 0\<rparr>
      else if queueNew
      then \<lparr>mr_items = updatedItems,
            mr_queued = sortSessionsNewestFirst date collate (additions @ updatedQueue),
            mr_added = length additions\<rparr>
      else \<lparr>mr_items = sortSessionsNewestFirst date collate (additions @ updatedItems),
            mr_queued = updatedQueue, mr_added = length additions\<rparr>)"

text \<open>
  The place of the last entry with an ID: two entries are the same object when their places
  are the same.
\<close>

definition last_place :: "request_session list \<Rightarrow> jstr \<Rightarrow> nat option" where
  "last_place sessions i =
     map_option (\<lambda>k. length sessions - 1 - k) (find_index (\<lambda>s. se_id s = i) (rev sessions))"

definition reuseUnchangedSessions ::
  "request_session list \<Rightarrow> request_session list \<Rightarrow> request_session list"
where
  "reuseUnchangedSessions previous incoming =
     (let reuse = (\<lambda>session. case last_place previous (se_id session) of
            None \<Rightarrow> None
          | Some k \<Rightarrow> if sameSession (previous ! k) session then Some k else None);
          changed = (length previous \<noteq> length incoming
            \<or> list_ex (\<lambda>(index, session). reuse session \<noteq> Some index) (enumerate 0 incoming)) in
      if changed
      then map (\<lambda>session. case reuse session of None \<Rightarrow> session | Some k \<Rightarrow> previous ! k) incoming
      else previous)"

definition applyQueuedSessions ::
  "date_parser \<Rightarrow> (jstr \<Rightarrow> jstr \<Rightarrow> int) \<Rightarrow> request_session list \<Rightarrow> request_session list
     \<Rightarrow> request_session list"
where
  "applyQueuedSessions date collate items queued = sortSessionsNewestFirst date collate (queued @ items)"

definition removeSessions :: "request_session list \<Rightarrow> jstr set \<Rightarrow> request_session list" where
  "removeSessions items ids =
     (let kept = filter (\<lambda>session. se_id session \<notin> ids) items in
      if length kept = length items then items else kept)"

definition replaceSession :: "request_session list \<Rightarrow> request_session \<Rightarrow> request_session list" where
  "replaceSession items session =
     (case find_index (\<lambda>item. se_id item = se_id session) items of
        None \<Rightarrow> items | Some index \<Rightarrow> items[index := session])"

definition sessionRunning :: "request_session \<Rightarrow> bool" where
  "sessionRunning session \<longleftrightarrow>
     se_status session = Recorded Pending \<or> length (se_active_request_starts session) > 0"

section \<open>Groups by day\<close>

text \<open>
  The local calendar day of a timestamp, and of now and the day before, come from the host:
  \<open>day\<close> is \<open>localDateKey(new Date(value))\<close>, absent for a time that does not parse. The label
  is the word for today or yesterday, or the day written out by \<open>Intl.DateTimeFormat\<close>.
\<close>

datatype day_label = Today | Yesterday | DayOf jstr

definition day_key :: "(jstr \<Rightarrow> jstr option) \<Rightarrow> jstr \<Rightarrow> jstr" where
  "day_key day time = (case day time of None \<Rightarrow> take 10 time | Some k \<Rightarrow> k)"

definition date_groups ::
  "('a \<Rightarrow> jstr) \<Rightarrow> (jstr \<Rightarrow> jstr option) \<Rightarrow> jstr \<Rightarrow> jstr \<Rightarrow> 'a list \<Rightarrow> (jstr \<times> day_label \<times> 'a list) list"
where
  "date_groups time day today yesterday entries =
     map (\<lambda>(key, grouped).
         (key,
          if key = today then Today else if key = yesterday then Yesterday
          else DayOf (case grouped of [] \<Rightarrow> key | e # _ \<Rightarrow> time e),
          grouped))
       (group_by (\<lambda>e. day_key day (time e)) entries)"

definition groupSessionsByDate ::
  "(jstr \<Rightarrow> jstr option) \<Rightarrow> jstr \<Rightarrow> jstr \<Rightarrow> request_session list
     \<Rightarrow> (jstr \<times> day_label \<times> request_session list) list"
where
  "groupSessionsByDate = date_groups se_last_started_at"

definition groupRecordsByDate ::
  "(jstr \<Rightarrow> jstr option) \<Rightarrow> jstr \<Rightarrow> jstr \<Rightarrow> request_record list
     \<Rightarrow> (jstr \<times> day_label \<times> request_record list) list"
where
  "groupRecordsByDate = date_groups rq_started_at"

section \<open>Requests\<close>

definition sortNewestFirst ::
  "date_parser \<Rightarrow> (jstr \<Rightarrow> jstr \<Rightarrow> int) \<Rightarrow> request_record list \<Rightarrow> request_record list"
where
  "sortNewestFirst date collate records =
     sort_by (newest_first date collate rq_started_at rq_id) records"

definition latest :: "request_record list \<Rightarrow> request_record \<Rightarrow> request_record" where
  "latest incoming record =
     (case last_by rq_id incoming (rq_id record) of None \<Rightarrow> record | Some next \<Rightarrow> next)"

definition mergeLivePage ::
  "date_parser \<Rightarrow> (jstr \<Rightarrow> jstr \<Rightarrow> int) \<Rightarrow> request_record list \<Rightarrow> request_record list
     \<Rightarrow> request_record list \<Rightarrow> bool \<Rightarrow> request_record merge_result"
where
  "mergeLivePage date collate items queued incoming queueNew =
     (let known = set (map rq_id (items @ queued));
          updatedItems = map (latest incoming) items;
          updatedQueue = map (latest incoming) queued;
          additions = filter (\<lambda>record. rq_id record \<notin> known) incoming in
      if queueNew
      then \<lparr>mr_items = updatedItems,
            mr_queued = sortNewestFirst date collate (additions @ updatedQueue),
            mr_added = length additions\<rparr>
      else \<lparr>mr_items = sortNewestFirst date collate (additions @ updatedItems),
            mr_queued = updatedQueue, mr_added = length additions\<rparr>)"

definition applyQueuedRecords ::
  "date_parser \<Rightarrow> (jstr \<Rightarrow> jstr \<Rightarrow> int) \<Rightarrow> request_record list \<Rightarrow> request_record list
     \<Rightarrow> request_record list"
where
  "applyQueuedRecords date collate items queued = sortNewestFirst date collate (queued @ items)"

text \<open>
  Durations against a clock. The completion of a record is only read once its start parsed;
  a completion that does not parse makes the duration \<open>NaN\<close>, the result \<open>None\<close>.
\<close>

definition liveDurationMs :: "date_parser \<Rightarrow> request_record \<Rightarrow> rat \<Rightarrow> rat option" where
  "liveDurationMs date record nowMs =
     (case rq_latency_ms record of
        Some latency \<Rightarrow> Some (max 0 latency)
      | None \<Rightarrow>
          (case date (rq_started_at record) of
             None \<Rightarrow> Some 0
           | Some started \<Rightarrow>
               (case (case rq_completed_at record of
                        Some t \<Rightarrow> if t \<noteq> [] then map_option rat_of_int (date t) else Some nowMs
                      | None \<Rightarrow> Some nowMs) of
                  None \<Rightarrow> None
                | Some completed \<Rightarrow> Some (max 0 (completed - rat_of_int started)))))"

definition sessionRuntimeMs :: "date_parser \<Rightarrow> request_session \<Rightarrow> rat \<Rightarrow> rat" where
  "sessionRuntimeMs date session nowMs =
     (case se_running_since session of
        None \<Rightarrow> max 0 (se_duration_ms session)
      | Some since \<Rightarrow>
          max 0 (se_duration_ms session)
          + (case date since of Some t \<Rightarrow> max 0 (nowMs - rat_of_int t) | None \<Rightarrow> 0))"

section \<open>Facts about the merge\<close>

lemma sameSession_refl: "sameSession s s"
  by (simp add: sameSession_def list_all_iff zip_same_conv_map)

lemma id_adopt [simp]: "se_id (adopt incoming s) = se_id s"
  by (auto simp: adopt_def dest: last_by_Some split: option.splits)

lemma map_id_adopt [simp]: "map se_id (map (adopt incoming) ss) = map se_id ss"
  by simp

lemma id_comp_adopt [simp]: "se_id \<circ> adopt incoming = se_id"
  by (simp add: fun_eq_iff)

lemma set_sortSessions [simp]: "set (sortSessionsNewestFirst date collate ss) = set ss"
  by (simp add: sortSessionsNewestFirst_def)

lemma distinct_sortSessions [simp]:
  "distinct (map se_id (sortSessionsNewestFirst date collate ss)) \<longleftrightarrow> distinct (map se_id ss)"
  by (simp add: sortSessionsNewestFirst_def)

text \<open>An adopted entry is as the page has it, up to what the list shows.\<close>

lemma adopt_current:
  assumes "distinct (map se_id incoming)" and "n \<in> set incoming" and "se_id n = se_id s"
  shows "sameSession n (adopt incoming s)"
  using last_by_distinct [OF assms(1,2)] assms(3)
  by (auto simp: adopt_def sameSession_refl)

lemma not_moved_adopt: "\<not> moved incoming s \<Longrightarrow> adopt incoming s = s"
  by (auto simp: moved_def adopt_def split: option.splits)

lemma moved_adopt:
  assumes "distinct (map se_id incoming)"
  shows "\<not> moved incoming (adopt incoming s)"
proof (cases "last_by se_id incoming (se_id s)")
  case None
  then show ?thesis by (simp add: moved_def adopt_def)
next
  case (Some n)
  then have "sameSession n (adopt incoming s)"
    using last_by_Some [OF Some] assms by (intro adopt_current) auto
  then show ?thesis using Some by (simp add: moved_def)
qed

lemma adopt_unmoved: "\<not> list_ex (moved incoming) ss \<Longrightarrow> map (adopt incoming) ss = ss"
  by (induction ss) (auto simp: not_moved_adopt)

text \<open>The entries of a merge, shown and queued, in one list.\<close>

definition entries :: "'a merge_result \<Rightarrow> 'a list" where
  "entries r = mr_items r @ mr_queued r"

definition additions :: "request_session list \<Rightarrow> request_session list \<Rightarrow> request_session list" where
  "additions known incoming = filter (\<lambda>s. se_id s \<notin> se_id ` set known) incoming"

lemma merge_cases:
  "mergeLiveSessions date collate items queued incoming q =
     (let new = additions (items @ queued) incoming in
      if \<not> list_ex (moved incoming) (items @ queued) \<and> new = []
      then \<lparr>mr_items = items, mr_queued = queued, mr_added = 0\<rparr>
      else if q
      then \<lparr>mr_items = map (adopt incoming) items,
            mr_queued = sortSessionsNewestFirst date collate (new @ map (adopt incoming) queued),
            mr_added = length new\<rparr>
      else \<lparr>mr_items = sortSessionsNewestFirst date collate (new @ map (adopt incoming) items),
            mr_queued = map (adopt incoming) queued, mr_added = length new\<rparr>)"
  unfolding mergeLiveSessions_def additions_def set_map Let_def length_0_conv by (rule refl)

lemma merge_set:
  "set (entries (mergeLiveSessions date collate items queued incoming q))
   = adopt incoming ` set (items @ queued) \<union> set (additions (items @ queued) incoming)"
proof (cases "\<not> list_ex (moved incoming) (items @ queued) \<and> additions (items @ queued) incoming = []")
  case True
  then have "adopt incoming ` set (items @ queued) = set (items @ queued)"
    using adopt_unmoved [of incoming "items @ queued"] by (metis list.set_map)
  with True show ?thesis by (simp add: merge_cases Let_def entries_def)
qed (auto simp: merge_cases Let_def entries_def)

lemma merge_distinct:
  assumes "distinct (map se_id (items @ queued))" and "distinct (map se_id incoming)"
  shows "distinct (map se_id (entries (mergeLiveSessions date collate items queued incoming q)))"
proof -
  have "distinct (map se_id (additions (items @ queued) incoming))"
    using assms(2) by (simp add: additions_def distinct_map_filter)
  moreover have "se_id ` set (additions (items @ queued) incoming) \<inter> se_id ` set (items @ queued) = {}"
    by (auto simp: additions_def)
  ultimately show ?thesis
    using assms(1)
    by (simp add: merge_cases Let_def entries_def image_Un image_image Int_Un_distrib Int_Un_distrib2
        Int_commute)
qed

lemma merge_unmoved:
  assumes "distinct (map se_id incoming)"
    and "s \<in> set (entries (mergeLiveSessions date collate items queued incoming q))"
  shows "\<not> moved incoming s"
proof -
  consider t where "s = adopt incoming t" | "s \<in> set incoming"
    using assms(2) unfolding merge_set by (auto simp: additions_def)
  then show ?thesis
  proof cases
    case 1
    then show ?thesis using moved_adopt [OF assms(1)] by simp
  next
    case 2
    then show ?thesis
      using last_by_distinct [OF assms(1)] by (simp add: moved_def sameSession_refl)
  qed
qed

lemma merge_known:
  "se_id ` set incoming \<subseteq> se_id ` set (entries (mergeLiveSessions date collate items queued incoming q))"
  unfolding merge_set by (auto simp: additions_def image_Un image_image)

section \<open>Properties\<close>

text \<open>
  Merging a polled page keeps every conversation exactly once. The result has
  the known ones and the new ones of the page, none twice, counts the new ones, and every
  conversation of the page is there in a version that shows the same as the page's.
\<close>

theorem live_merge_complete:
  assumes "distinct (map se_id (items @ queued))" and "distinct (map se_id incoming)"
    and "r = mergeLiveSessions date collate items queued incoming queueNew"
  shows "distinct (map se_id (entries r))
    \<and> se_id ` set (entries r) = se_id ` set (items @ queued) \<union> se_id ` set incoming
    \<and> mr_added r = length (filter (\<lambda>s. se_id s \<notin> se_id ` set (items @ queued)) incoming)
    \<and> (\<forall>n \<in> set incoming. \<exists>s \<in> set (entries r). se_id s = se_id n \<and> sameSession n s)"
proof -
  have ids: "se_id ` set (entries r) = se_id ` set (items @ queued) \<union> se_id ` set incoming"
    unfolding assms(3) merge_set by (auto simp: additions_def image_Un image_image)
  have "\<exists>s \<in> set (entries r). se_id s = se_id n \<and> sameSession n s" if n: "n \<in> set incoming" for n
  proof -
    obtain s where s: "s \<in> set (entries r)" "se_id s = se_id n"
      using ids n by (metis UnCI image_eqI image_iff)
    have "\<not> moved incoming s" using s(1) merge_unmoved [OF assms(2)] unfolding assms(3) by blast
    then have "sameSession n s"
      using last_by_distinct [OF assms(2) n] s(2) by (simp add: moved_def)
    with s show ?thesis by blast
  qed
  moreover have "distinct (map se_id (entries r))"
    unfolding assms(3) by (rule merge_distinct [OF assms(1,2)])
  moreover have "mr_added r = length (filter (\<lambda>s. se_id s \<notin> se_id ` set (items @ queued)) incoming)"
    unfolding assms(3) merge_cases additions_def Let_def by auto
  ultimately show ?thesis using ids by blast
qed

definition sample_session :: "string \<Rightarrow> request_session" where
  "sample_session i =
     \<lparr>se_client_type = None, se_id = js i, se_title = js ''t'', se_started_at = js ''2024'',
      se_last_started_at = js ''2024'', se_completed_at = None, se_duration_ms = 0,
      se_running_since = None, se_tool_duration_ms = None, se_average_ttft_ms = None,
      se_output_tokens_per_second = None, se_active_request_starts = [], se_turn_count = 1,
      se_call_count = 1, se_status = Recorded Succeeded, se_requested_model = None,
      se_model_redirect = None, se_output = None, se_reasoning_effort = None,
      se_input_protocol = js ''openai.chat'', se_service_id = None,
      se_local_access_token_id = None, se_privacy_warned = None, se_parent_session_id = None,
      se_subagent_count = None, se_context_tokens = None, se_compaction_point_tokens = None,
      se_context_window_tokens = None, se_compaction_count = None, se_usage = None,
      se_cost = None, se_failed_repeats = None\<rparr>"

lemma sample_session_id [simp]: "se_id (sample_session i) = js i"
  by (simp add: sample_session_def)

theorem live_merge_complete_witness:
  "distinct (map se_id (entries (mergeLiveSessions (\<lambda>_. Some 0) (\<lambda>_ _. 0)
     [sample_session ''a''] [] [sample_session ''a'', sample_session ''b''] True)))"
  using live_merge_complete [of "[sample_session ''a'']" "[]" "[sample_session ''a'', sample_session ''b'']"
      _ "\<lambda>_. Some 0" "\<lambda>_ _. 0" True, OF _ _ refl]
  by simp

text \<open>
  Polling an idle gateway changes nothing: merging the same page into the
  result of its merge gives back the very same items and queue with nothing added, whether or
  not new conversations are queued.
\<close>

theorem live_merge_idempotent:
  assumes "distinct (map se_id incoming)"
    and "r = mergeLiveSessions date collate items queued incoming queueNew"
  shows "mergeLiveSessions date collate (mr_items r) (mr_queued r) incoming queueNew'
    = \<lparr>mr_items = mr_items r, mr_queued = mr_queued r, mr_added = 0\<rparr>"
proof -
  have "\<not> list_ex (moved incoming) (mr_items r @ mr_queued r)"
    using merge_unmoved [OF assms(1)] unfolding assms(2) by (auto simp: list_ex_iff entries_def)
  moreover have "filter (\<lambda>s. se_id s \<notin> set (map se_id (mr_items r @ mr_queued r))) incoming = []"
    using merge_known [of incoming date collate items queued queueNew]
    unfolding assms(2) by (auto simp: filter_empty_conv entries_def)
  ultimately show ?thesis unfolding mergeLiveSessions_def Let_def by simp
qed

theorem live_merge_idempotent_witness:
  "mergeLiveSessions (\<lambda>_. Some 0) (\<lambda>_ _. 0) [sample_session ''a''] [] [sample_session ''a''] False
     = \<lparr>mr_items = [sample_session ''a''], mr_queued = [], mr_added = 0\<rparr>"
  using live_merge_idempotent [of "[sample_session ''a'']" _ "\<lambda>_. Some 0" "\<lambda>_ _. 0" "[]" "[]" False False, OF _ refl]
  by (simp add: mergeLiveSessions_def sortSessionsNewestFirst_def)

text \<open>
  While new conversations are queued the list under the reader does not move: the shown items
  keep their order and their IDs.
\<close>

lemma live_merge_queue_stable:
  "map se_id (mr_items (mergeLiveSessions date collate items queued incoming True)) = map se_id items"
  by (simp add: mergeLiveSessions_def Let_def)

text \<open>
  C40: the merge does not see the members that \<open>sameSession\<close> leaves out. A poll in which only
  the number of subagents, the privacy warning or the parent of a conversation moved keeps
  the entry as it was, although the page shows the warning and the number.
\<close>

theorem merge_misses_subagent_count:
  "mergeLiveSessions date collate [s] []
     [s\<lparr>se_privacy_warned := warned, se_parent_session_id := parent, se_subagent_count := n\<rparr>] queueNew
   = \<lparr>mr_items = [s], mr_queued = [], mr_added = 0\<rparr>"
proof -
  have "sameSession (s\<lparr>se_privacy_warned := warned, se_parent_session_id := parent,
      se_subagent_count := n\<rparr>) s"
    by (simp add: sameSession_def list_all_iff zip_same_conv_map)
  then show ?thesis by (simp add: mergeLiveSessions_def moved_def last_by_def)
qed

lemma last_place_Some:
  assumes "last_place previous i = Some k"
  shows "k < length previous \<and> se_id (previous ! k) = i"
proof -
  obtain j where j: "find_index (\<lambda>s. se_id s = i) (rev previous) = Some j" "k = length previous - 1 - j"
    using assms by (auto simp: last_place_def)
  then have "j < length previous" "se_id (rev previous ! j) = i"
    by (simp_all add: find_index_Some)
  then show ?thesis using j(2) by (simp add: rev_nth)
qed

text \<open>
  Reusing the previous objects never shows stale data: place by place the
  result has the page's conversations, each showing the same as the page's, and every entry
  is either the page's or an unchanged previous one.
\<close>

theorem reuse_is_current:
  "list_all2 (\<lambda>r s. se_id r = se_id s \<and> sameSession r s \<and> (r = s \<or> r \<in> set previous))
     (reuseUnchangedSessions previous incoming) incoming"
proof -
  define reuse where "reuse session = (case last_place previous (se_id session) of
            None \<Rightarrow> None
          | Some k \<Rightarrow> if sameSession (previous ! k) session then Some k else None)" for session
  have reuse: "k < length previous \<and> se_id (previous ! k) = se_id s \<and> sameSession (previous ! k) s"
    if "reuse s = Some k" for s k
    using that last_place_Some [of previous "se_id s"]
    by (auto simp: reuse_def split: option.splits if_splits)
  let ?changed = "length previous \<noteq> length incoming
    \<or> list_ex (\<lambda>(index, session). reuse session \<noteq> Some index) (enumerate 0 incoming)"
  have def: "reuseUnchangedSessions previous incoming =
      (if ?changed then map (\<lambda>session. case reuse session of None \<Rightarrow> session | Some k \<Rightarrow> previous ! k) incoming
       else previous)"
    unfolding reuseUnchangedSessions_def Let_def reuse_def by (rule refl)
  show ?thesis
  proof (cases ?changed)
    case True
    then show ?thesis
      unfolding def using reuse
      by (auto simp: list_all2_conv_all_nth sameSession_refl split: option.splits)
  next
    case False
    then have "reuse (incoming ! k) = Some k" if "k < length incoming" for k
      using that by (auto simp: list_ex_iff in_set_enumerate_eq)
    with False show ?thesis
      unfolding def using reuse by (auto simp: list_all2_conv_all_nth)
  qed
qed

lemma newest_first_comparator:
  assumes "\<And>x y. collate x y \<le> 0 \<or> collate y x \<le> 0"
    and "\<And>x y z. collate x y \<le> 0 \<Longrightarrow> collate y z \<le> 0 \<Longrightarrow> collate x z \<le> 0"
  shows "comparator (newest_first date collate time ident) {x. date (time x) \<noteq> None}"
  using assms by unfold_locales (auto simp: newest_first_def split: if_splits, blast)

lemma mset_sort_by: "mset (sort_by cmp xs) = mset xs"
proof -
  have "mset (insert_by cmp x ys) = add_mset x (mset ys)" for x and ys :: "'a list"
    by (induction ys) auto
  then show ?thesis by (induction xs) auto
qed

text \<open>
  The lists are newest first. When every start parses and the host's collation
  is a total preorder, sorting gives the same conversations with start times that never
  increase, and sorting a sorted list changes nothing.
\<close>

theorem sessions_newest_first:
  assumes "\<And>x y. collate x y \<le> 0 \<or> collate y x \<le> 0"
    and "\<And>x y z. collate x y \<le> 0 \<Longrightarrow> collate y z \<le> 0 \<Longrightarrow> collate x z \<le> 0"
    and "list_all (\<lambda>s. date (se_last_started_at s) \<noteq> None) ss"
  shows "sorted_wrt (\<lambda>s s'. the (date (se_last_started_at s')) \<le> the (date (se_last_started_at s)))
      (sortSessionsNewestFirst date collate ss)
    \<and> mset (sortSessionsNewestFirst date collate ss) = mset ss
    \<and> sortSessionsNewestFirst date collate (sortSessionsNewestFirst date collate ss)
      = sortSessionsNewestFirst date collate ss"
proof -
  let ?cmp = "newest_first date collate se_last_started_at se_id"
    and ?A = "{x. date (se_last_started_at x) \<noteq> None} :: request_session set"
  have cmp: "comparator ?cmp ?A" by (rule newest_first_comparator [OF assms(1,2)])
  have A: "set ss \<subseteq> ?A" using assms(3) by (auto simp: list_all_iff)
  have "sorted_wrt (\<lambda>s s'. ?cmp s s' \<le> 0) (sort_by ?cmp ss)"
    by (rule comparator.sort_by_ordered [OF cmp A])
  then have "sorted_wrt (\<lambda>s s'. the (date (se_last_started_at s')) \<le> the (date (se_last_started_at s)))
      (sort_by ?cmp ss)"
    by (rule sorted_wrt_mono_rel [rotated])
      (use A in \<open>force simp: newest_first_def split: option.splits if_splits\<close>)
  then show ?thesis
    unfolding sortSessionsNewestFirst_def
    by (simp add: mset_sort_by comparator.sort_by_idem [OF cmp A])
qed

theorem sessions_newest_first_witness:
  "mset (sortSessionsNewestFirst (\<lambda>_. Some 0) (\<lambda>_ _. 0) [sample_session ''a'', sample_session ''b''])
     = {#sample_session ''a'', sample_session ''b''#}"
  using sessions_newest_first [of "\<lambda>_ _. 0" "\<lambda>_. Some 0" "[sample_session ''a'', sample_session ''b'']"]
  by simp

text \<open>
  Grouping by day keeps every conversation under its own day and in order: the
  days are distinct, each group is all and only the conversations of its day, and no group is
  empty.
\<close>

theorem date_groups_partition:
  "distinct (map fst (groupSessionsByDate day today yesterday ss))
   \<and> list_all (\<lambda>(key, label, g). g \<noteq> []
        \<and> g = filter (\<lambda>s. day_key day (se_last_started_at s) = key) ss)
       (groupSessionsByDate day today yesterday ss)
   \<and> fst ` set (groupSessionsByDate day today yesterday ss)
       = (\<lambda>s. day_key day (se_last_started_at s)) ` set ss"
proof -
  let ?key = "\<lambda>s. day_key day (se_last_started_at s)"
  have keys: "map fst (groupSessionsByDate day today yesterday ss) = map fst (group_by ?key ss)"
    by (simp add: groupSessionsByDate_def date_groups_def case_prod_beta)
  have nonempty: "g \<noteq> [] \<and> g = filter (\<lambda>s. ?key s = k) ss" if "(k, g) \<in> set (group_by ?key ss)" for k g
  proof -
    have "k \<in> ?key ` set ss" using that group_by_keys(2) [of ?key ss] by force
    then show ?thesis using group_by_member [OF that] by (auto simp: filter_empty_conv)
  qed
  have "list_all (\<lambda>(key, label, g). g \<noteq> [] \<and> g = filter (\<lambda>s. ?key s = key) ss)
      (groupSessionsByDate day today yesterday ss)"
    unfolding list_all_iff groupSessionsByDate_def date_groups_def using nonempty by auto
  moreover have "fst ` set (groupSessionsByDate day today yesterday ss) = ?key ` set ss"
    using keys group_by_keys(2) [of ?key ss] by (metis set_map)
  ultimately show ?thesis using keys group_by_keys(1) [of ?key ss] by simp
qed
end
