(* ===== verification/Activity.thy ===== *)
theory Activity
  imports Live_Merge Js_Numbers
begin

text \<open>
  \<open>request-activity-model.ts\<close>: the live board. From the calls the gateway lists it counts the
  conversations in progress over a window, ranks their clients, averages the models' output,
  and says what each conversation does and did; it nests subagents under the conversation
  that started them. Instants are whole milliseconds. \<open>Date.parse\<close> and \<open>localeCompare\<close> are
  arguments.
\<close>

definition ACTIVE_GRACE_MS :: int where "ACTIVE_GRACE_MS = 60000"
definition TOOL_WAIT_MS :: int where "TOOL_WAIT_MS = 30 * 60000"
definition ACTIVITY_WINDOW_MS :: int where "ACTIVITY_WINDOW_MS = 5 * 60000"
definition ACTIVITY_STEP_MS :: int where "ACTIVITY_STEP_MS = 1000"
definition THROUGHPUT_WINDOW_MS :: int where "THROUGHPUT_WINDOW_MS = 60000"
definition LANE_TRAIL_STEPS :: nat where "LANE_TRAIL_STEPS = 5"

section \<open>What a conversation is doing\<close>

datatype conversation_activity =
    InCall int nat
  | BetweenCalls int

definition parseTime :: "date_parser \<Rightarrow> jstr option \<Rightarrow> int option" where
  "parseTime date value =
     (case value of None \<Rightarrow> None | Some t \<Rightarrow> if t = [] then None else date t)"

definition awaitsTools :: "session_status \<Rightarrow> output_activity option \<Rightarrow> bool" where
  "awaitsTools status output \<longleftrightarrow>
     status = Recorded Succeeded
     \<and> (case output of None \<Rightarrow> False
        | Some out \<Rightarrow> oa_kind out = OutputTool \<and> length (oa_tools out) > 0)"

definition conversationActivity ::
  "date_parser \<Rightarrow> request_session \<Rightarrow> int \<Rightarrow> conversation_activity option"
where
  "conversationActivity date session nowMs =
     (if isModelDiscoveryProtocol (se_input_protocol session) then None
      else if sessionRunning session then
        (let starts = List.map_filter (\<lambda>t. parseTime date (Some t)) (se_active_request_starts session);
             since = (if starts \<noteq> [] then Min (set starts)
                      else case parseTime date (Some (se_last_started_at session)) of
                        Some l \<Rightarrow> l | None \<Rightarrow> nowMs) in
         Some (InCall (min since nowMs) (max 1 (length starts))))
      else
        (let wait = (if awaitsTools (se_status session) (se_output session)
                     then TOOL_WAIT_MS else ACTIVE_GRACE_MS) in
         case parseTime date (se_completed_at session) of
           None \<Rightarrow> None
         | Some ended \<Rightarrow>
             if nowMs - ended \<ge> wait then None else Some (BetweenCalls (min ended nowMs))))"

section \<open>The span of a call\<close>

text \<open>
  Two calls of a list are the same object when they have the same place in it, so the calls
  carry their place.
\<close>

type_synonym placed_call = "nat \<times> activity_call"

definition by_start :: "date_parser \<Rightarrow> placed_call \<Rightarrow> placed_call \<Rightarrow> int" where
  "by_start date left right =
     (case (date (ac_started_at (snd left)), date (ac_started_at (snd right))) of
        (Some l, Some r) \<Rightarrow> l - r | _ \<Rightarrow> 0)"

definition nextCall :: "date_parser \<Rightarrow> placed_call list \<Rightarrow> placed_call \<Rightarrow> placed_call option" where
  "nextCall date own call =
     (let ended = date (case ac_completed_at (snd call) of None \<Rightarrow> [] | Some t \<Rightarrow> t) in
      List.find (\<lambda>other. fst other \<noteq> fst call
          \<and> (case (date (ac_started_at (snd other)), ended) of
               (Some start, Some e) \<Rightarrow> start \<ge> e | _ \<Rightarrow> False))
        own)"

text \<open>The end of a span: \<open>Number.POSITIVE_INFINITY\<close>, an instant, or \<open>NaN\<close>.\<close>

datatype moment = Never | Instant int | NotATime

definition moment_of :: "int option \<Rightarrow> moment" where
  "moment_of t = (case t of None \<Rightarrow> NotATime | Some m \<Rightarrow> Instant m)"

definition busyUntil :: "date_parser \<Rightarrow> placed_call \<Rightarrow> placed_call list \<Rightarrow> moment" where
  "busyUntil date call own =
     (case ac_completed_at (snd call) of
        None \<Rightarrow> Never
      | Some completed \<Rightarrow>
          (let ended = date completed in
           if \<not> awaitsTools (Recorded (ac_status (snd call))) (ac_output (snd call))
           then moment_of (map_option (\<lambda>e. e + ACTIVE_GRACE_MS) ended)
           else
             (let bound = map_option (\<lambda>e. e + TOOL_WAIT_MS) ended in
              case nextCall date own call of
                None \<Rightarrow> moment_of bound
              | Some next \<Rightarrow>
                  (case (date (ac_started_at (snd next)), bound) of
                     (Some start, Some b) \<Rightarrow> Instant (min start b)
                   | _ \<Rightarrow> NotATime))))"

definition activitySince :: "(int \<Rightarrow> jstr) \<Rightarrow> int \<Rightarrow> jstr" where
  "activitySince toISOString nowMs = toISOString (nowMs - ACTIVITY_WINDOW_MS - ACTIVE_GRACE_MS)"

section \<open>Top-level conversations\<close>

text \<open>
  A map of links from a conversation to the one that started it, the latest link first. The
  walk up stops at a conversation without a link, at an empty one, and at one seen before.
\<close>

type_synonym parent_links = "(jstr \<times> jstr) list"

function root_from :: "parent_links \<Rightarrow> jstr \<Rightarrow> jstr set \<Rightarrow> jstr \<Rightarrow> jstr" where
  "root_from parentOf sessionId seen current =
     (case map_of parentOf current of
        None \<Rightarrow> current
      | Some parent \<Rightarrow>
          if parent = [] then current
          else if parent \<in> seen then sessionId
          else root_from parentOf sessionId (insert parent seen) parent)"
  by pat_completeness auto

termination
proof (relation "measure (\<lambda>(parentOf, _, seen, _). card (snd ` set parentOf - seen))")
  fix parentOf :: parent_links and sessionId seen current parent
  assume link: "map_of parentOf current = Some parent" and new: "parent \<notin> seen"
  have "parent \<in> snd ` set parentOf" using map_of_SomeD [OF link] by force
  then have "snd ` set parentOf - insert parent seen \<subset> snd ` set parentOf - seen"
    using new by blast
  then show "((parentOf, sessionId, insert parent seen, parent), parentOf, sessionId, seen, current)
      \<in> measure (\<lambda>(parentOf, _, seen, _). card (snd ` set parentOf - seen))"
    by (simp add: psubset_card_mono)
qed simp

declare root_from.simps [simp del]

definition rootOf :: "parent_links \<Rightarrow> jstr \<Rightarrow> jstr" where
  "rootOf parentOf sessionId = root_from parentOf sessionId {sessionId} sessionId"

section \<open>Clients, busiest first\<close>

record activity_client =
  cl_client_type :: client_type
  cl_count :: nat

definition clientRank :: "client_type \<Rightarrow> nat" where
  "clientRank clientType =
     (if clientType = ClientUnknown then length CLIENT_TYPES
      else case find_index (\<lambda>c. c = clientType) CLIENT_TYPES of Some i \<Rightarrow> i | None \<Rightarrow> 0)"

definition busiest_first :: "activity_client \<Rightarrow> activity_client \<Rightarrow> int" where
  "busiest_first left right =
     (let difference = int (cl_count right) - int (cl_count left) in
      if difference \<noteq> 0 then difference
      else int (clientRank (cl_client_type left)) - int (clientRank (cl_client_type right)))"

definition rankClients :: "(client_type \<times> nat) list \<Rightarrow> activity_client list" where
  "rankClients perClient =
     sort_by busiest_first
       (map (\<lambda>(clientType, n). \<lparr>cl_client_type = clientType, cl_count = n\<rparr>) perClient)"

text \<open>\<open>perClient.set(client, (perClient.get(client) ?? 0) + 1)\<close>\<close>

fun bump :: "client_type \<Rightarrow> (client_type \<times> nat) list \<Rightarrow> (client_type \<times> nat) list" where
  "bump c [] = [(c, Suc 0)]"
| "bump c ((c', n) # ns) = (if c' = c then (c', Suc n) # ns else (c', n) # bump c ns)"

section \<open>Output of the models\<close>

text \<open>The tokens of a call inside the window.\<close>

definition tokens_in :: "date_parser \<Rightarrow> int \<Rightarrow> int \<Rightarrow> activity_call \<Rightarrow> rat" where
  "tokens_in date from now call =
     (case (ac_output_tokens call, ac_completed_at call) of
        (Some tokens, Some completed) \<Rightarrow>
          if tokens = 0 then 0
          else (case (date (ac_started_at call), date completed) of
                  (Some start, Some end') \<Rightarrow>
                    if end' \<le> start then
                      (if from < end' \<and> end' \<le> now then of_int tokens else 0)
                    else
                      (let overlap = min end' now - max start from in
                       if overlap > 0 then of_int tokens * of_int overlap / of_int (end' - start)
                       else 0)
                | _ \<Rightarrow> 0)
      | _ \<Rightarrow> 0)"

definition js_divide :: "rat \<Rightarrow> rat \<Rightarrow> jnum" where
  "js_divide a b =
     (if b \<noteq> 0 then Fin (a / b) else if a = 0 then NaN else if a > 0 then PosInf else NegInf)"

definition outputThroughput :: "date_parser \<Rightarrow> activity_call list \<Rightarrow> int option \<Rightarrow> int \<Rightarrow> jnum" where
  "outputThroughput date calls now windowMs =
     (let tokens = (case now of
            None \<Rightarrow> 0
          | Some n \<Rightarrow> foldl (\<lambda>acc call. acc + tokens_in date (n - windowMs) n call) 0 calls) in
      js_divide (tokens * 1000) (of_int windowMs))"

section \<open>The board\<close>

record activity_sample =
  sa_at :: "int option"
  sa_value :: nat
  sa_clients :: "activity_client list"

record activity_snapshot =
  sn_conversations :: nat
  sn_output_tokens_per_second :: jnum
  sn_clients :: "activity_client list"

record activity_summary =
  su_now :: "int option"
  su_snapshot :: activity_snapshot
  su_points :: "activity_sample list"

record span =
  sp_session :: jstr
  sp_client :: client_type
  sp_start :: int
  sp_end :: moment

definition covers :: "int \<Rightarrow> span \<Rightarrow> bool" where
  "covers moment s \<longleftrightarrow> sp_start s \<le> moment
     \<and> (case sp_end s of Never \<Rightarrow> True | Instant e \<Rightarrow> moment < e | NotATime \<Rightarrow> False)"

definition call_links :: "activity_call list \<Rightarrow> parent_links" where
  "call_links calls =
     foldl (\<lambda>links call. case ac_parent_session_id call of
         None \<Rightarrow> links
       | Some parent \<Rightarrow> if parent = [] then links else (ac_session_id call, parent) # links)
       [] calls"

definition own_calls :: "date_parser \<Rightarrow> activity_call list \<Rightarrow> jstr \<Rightarrow> placed_call list" where
  "own_calls date calls session =
     sort_by (by_start date)
       (group_of (group_by (\<lambda>p. ac_session_id (snd p)) (enumerate 0 calls)) session)"

definition spans :: "date_parser \<Rightarrow> activity_call list \<Rightarrow> span list" where
  "spans date calls =
     sort_by (\<lambda>left right. sp_start right - sp_start left)
       (List.map_filter (\<lambda>(i, call).
           map_option (\<lambda>start.
             \<lparr>sp_session = rootOf (call_links calls) (ac_session_id call),
              sp_client = client_or_unknown (ac_client_type call),
              sp_start = start,
              sp_end = busyUntil date (i, call) (own_calls date calls (ac_session_id call))\<rparr>)
             (date (ac_started_at call)))
         (enumerate 0 calls))"

text \<open>The conversations in progress at a moment, each under the client of its latest call.\<close>

definition covering :: "span list \<Rightarrow> int option \<Rightarrow> (jstr \<times> client_type) list" where
  "covering ss moment =
     foldl (\<lambda>sessions s.
         if (case moment of None \<Rightarrow> False | Some t \<Rightarrow> covers t s) \<and> sp_session s \<notin> fst ` set sessions
         then sessions @ [(sp_session s, sp_client s)] else sessions)
       [] ss"

definition sampleAt :: "span list \<Rightarrow> int option \<Rightarrow> activity_sample" where
  "sampleAt ss moment =
     (let sessions = covering ss moment;
          perClient = foldl (\<lambda>counts (_, client). bump client counts) [] sessions in
      \<lparr>sa_at = moment, sa_value = length sessions, sa_clients = rankClients perClient\<rparr>)"

text \<open>The loop over the window; a step that does not advance never leaves it.\<close>

partial_function (option) sample_loop ::
  "(int \<Rightarrow> activity_sample) \<Rightarrow> int \<Rightarrow> int \<Rightarrow> int \<Rightarrow> activity_sample list \<Rightarrow> activity_sample list option"
where
  "sample_loop sample stepMs now moment points =
     (if moment < now
      then sample_loop sample stepMs now (moment + stepMs) (points @ [sample moment])
      else Some points)"

definition summarizeActivity ::
  "date_parser \<Rightarrow> request_activity \<Rightarrow> int \<Rightarrow> int \<Rightarrow> activity_summary option"
where
  "summarizeActivity date activity windowMs stepMs =
     (let now = date (ra_now activity);
          ss = spans date (ra_calls activity);
          current = sampleAt ss now in
      map_option (\<lambda>points.
          \<lparr>su_now = now,
           su_snapshot =
             \<lparr>sn_conversations = sa_value current,
              sn_output_tokens_per_second =
                outputThroughput date (ra_calls activity) now THROUGHPUT_WINDOW_MS,
              sn_clients = sa_clients current\<rparr>,
           su_points = points @ [current]\<rparr>)
        (case now of
           None \<Rightarrow> Some []
         | Some n \<Rightarrow> sample_loop (\<lambda>t. sampleAt ss (Some t)) stepMs n (n - windowMs) []))"

definition positive :: "jnum \<Rightarrow> bool" where
  "positive x \<longleftrightarrow> (case x of Fin q \<Rightarrow> q > 0 | PosInf \<Rightarrow> True | _ \<Rightarrow> False)"

definition hasRecentActivity :: "activity_summary \<Rightarrow> bool" where
  "hasRecentActivity summary \<longleftrightarrow>
     sn_conversations (su_snapshot summary) > 0
     \<or> positive (sn_output_tokens_per_second (su_snapshot summary))
     \<or> list_ex (\<lambda>point. sa_value point > 0) (su_points summary)"

section \<open>Lanes\<close>

datatype lane_action =
    LaneWaiting | LaneThinking | LaneWriting | LaneCalling jstr | LaneRunning "jstr list"
  | LaneReplied | LaneIdle

text \<open>\<open>[...new Set(tools)]\<close> keeps the first of each.\<close>

definition distinct_tools :: "jstr list \<Rightarrow> jstr list" where
  "distinct_tools tools = rev (remdups (rev tools))"

definition laneAction :: "request_session \<Rightarrow> lane_action" where
  "laneAction session =
     (if sessionRunning session then
        (case se_output session of
           None \<Rightarrow> LaneWaiting
         | Some out \<Rightarrow>
             (case oa_kind out of
                OutputReasoning \<Rightarrow> LaneThinking
              | OutputText \<Rightarrow> LaneWriting
              | OutputTool \<Rightarrow> LaneCalling (if oa_tools out = [] then [] else last (oa_tools out))))
      else
        (case se_output session of
           None \<Rightarrow> LaneIdle
         | Some out \<Rightarrow>
             if oa_kind out = OutputTool \<and> length (oa_tools out) > 0
             then LaneRunning (distinct_tools (oa_tools out)) else LaneReplied))"

datatype lane_kind = StepTool | StepReasoning | StepAnswer

record lane_step =
  ls_kind :: lane_kind
  ls_tool :: jstr
  ls_count :: nat
  ls_ran_ms :: "int option"

definition add_step :: "lane_step list \<Rightarrow> lane_step \<Rightarrow> lane_step list" where
  "add_step steps step =
     (if steps \<noteq> [] \<and> ls_kind (last steps) = ls_kind step \<and> ls_tool (last steps) = ls_tool step
      then butlast steps @
        [(last steps)\<lparr>ls_count := ls_count (last steps) + ls_count step,
           ls_ran_ms :=
             (case ls_ran_ms step of
                None \<Rightarrow> ls_ran_ms (last steps)
              | Some r \<Rightarrow> Some ((case ls_ran_ms (last steps) of None \<Rightarrow> 0 | Some q \<Rightarrow> q) + r))\<rparr>]
      else steps @ [step])"

text \<open>
  The steps a finished call adds. The next call was found by comparing its start with the
  end of this one, so both times parse when there is one.
\<close>

definition call_steps :: "date_parser \<Rightarrow> placed_call list \<Rightarrow> placed_call \<Rightarrow> lane_step list" where
  "call_steps date own call =
     (case ac_output (snd call) of
        None \<Rightarrow> []
      | Some out \<Rightarrow>
          if oa_kind out \<noteq> OutputTool \<or> length (oa_tools out) = 0 then
            [\<lparr>ls_kind = (if oa_kind out = OutputReasoning then StepReasoning else StepAnswer),
              ls_tool = [], ls_count = 1, ls_ran_ms = None\<rparr>]
          else
            (let ended = date (case ac_completed_at (snd call) of None \<Rightarrow> [] | Some t \<Rightarrow> t);
                 ranMs = (case nextCall date own call of
                     None \<Rightarrow> None
                   | Some next \<Rightarrow>
                       (case (date (ac_started_at (snd next)), ended) of
                          (Some start, Some e) \<Rightarrow> Some (start - e) | _ \<Rightarrow> None)) in
             map (\<lambda>(index, tool).
                 \<lparr>ls_kind = StepTool, ls_tool = tool, ls_count = 1,
                  ls_ran_ms = (if index = length (oa_tools out) - 1 then ranMs else None)\<rparr>)
               (enumerate 0 (oa_tools out))))"

text \<open>
  The calls of the conversation, oldest first, and the steps of those before the current
  action.
\<close>

definition lane_calls :: "date_parser \<Rightarrow> activity_call list \<Rightarrow> request_session \<Rightarrow> placed_call list" where
  "lane_calls date calls session =
     sort_by (by_start date)
       (filter (\<lambda>p. ac_session_id (snd p) = se_id session) (enumerate 0 calls))"

definition earlier_steps :: "date_parser \<Rightarrow> activity_call list \<Rightarrow> request_session \<Rightarrow> lane_step list" where
  "earlier_steps date calls session =
     (let own = lane_calls date calls session;
          finished = filter (\<lambda>p. ac_completed_at (snd p) \<noteq> None) own;
          earlier = (if sessionRunning session then finished else butlast finished) in
      concat (map (call_steps date own) earlier))"

definition laneTrail :: "date_parser \<Rightarrow> activity_call list \<Rightarrow> request_session \<Rightarrow> lane_step list" where
  "laneTrail date calls session =
     (let steps = foldl add_step [] (earlier_steps date calls session) in
      drop (length steps - LANE_TRAIL_STEPS) steps)"

section \<open>Subagents and the active conversations\<close>

definition session_links :: "request_session list \<Rightarrow> parent_links" where
  "session_links sessions =
     foldl (\<lambda>links session. case se_parent_session_id session of
         None \<Rightarrow> links
       | Some parent \<Rightarrow>
           if parent \<noteq> [] \<and> parent \<noteq> se_id session \<and> parent \<in> se_id ` set sessions
           then (se_id session, parent) # links else links)
       [] sessions"

definition oldest_first ::
  "date_parser \<Rightarrow> (jstr \<Rightarrow> jstr \<Rightarrow> int) \<Rightarrow> request_session \<Rightarrow> request_session \<Rightarrow> int"
where
  "oldest_first date collate left right =
     (case (date (se_started_at left), date (se_started_at right)) of
        (Some l, Some r) \<Rightarrow> if l - r \<noteq> 0 then l - r else collate (se_id left) (se_id right)
      | _ \<Rightarrow> collate (se_id left) (se_id right))"

record nested_sessions =
  ns_roots :: "request_session list"
  ns_subagents_of :: "(jstr \<times> request_session list) list"

definition stands_alone :: "request_session list \<Rightarrow> request_session \<Rightarrow> bool" where
  "stands_alone sessions session \<longleftrightarrow>
     (let root = rootOf (session_links sessions) (se_id session) in
      root = se_id session \<or> root \<notin> se_id ` set sessions)"

definition nestSubagents ::
  "date_parser \<Rightarrow> (jstr \<Rightarrow> jstr \<Rightarrow> int) \<Rightarrow> request_session list \<Rightarrow> nested_sessions"
where
  "nestSubagents date collate sessions =
     \<lparr>ns_roots = filter (stands_alone sessions) sessions,
      ns_subagents_of =
        map (\<lambda>(root, own). (root, sort_by (oldest_first date collate) own))
          (group_by (\<lambda>s. rootOf (session_links sessions) (se_id s))
             (filter (\<lambda>s. \<not> stands_alone sessions s) sessions))\<rparr>"

definition session_busy ::
  "date_parser \<Rightarrow> int \<Rightarrow> (jstr \<times> request_session list) list \<Rightarrow> request_session \<Rightarrow> bool"
where
  "session_busy date nowMs subagentsOf session \<longleftrightarrow>
     conversationActivity date session nowMs \<noteq> None
     \<or> list_ex (\<lambda>subagent. conversationActivity date subagent nowMs \<noteq> None)
         (group_of subagentsOf (se_id session))"

definition splitActiveSessions ::
  "date_parser \<Rightarrow> (jstr \<Rightarrow> jstr \<Rightarrow> int) \<Rightarrow> request_session list \<Rightarrow> int
     \<Rightarrow> (jstr \<times> request_session list) list \<Rightarrow> request_session list \<times> request_session list"
where
  "splitActiveSessions date collate sessions nowMs subagentsOf =
     (sort_by (newest_first date collate se_started_at se_id)
        (filter (session_busy date nowMs subagentsOf) sessions),
      filter (\<lambda>s. \<not> session_busy date nowMs subagentsOf s) sessions)"

section \<open>Facts\<close>

text \<open>The comparators of the board are total preorders.\<close>

interpretation busiest: comparator busiest_first UNIV
  by unfold_locales (auto simp: busiest_first_def Let_def split: if_splits)

interpretation latest_span: comparator "\<lambda>left right. sp_start right - sp_start left" "UNIV :: span set"
  by unfold_locales auto

subsection \<open>Links\<close>

definition parent_link :: "parent_links \<Rightarrow> jstr \<Rightarrow> jstr \<Rightarrow> bool" where
  "parent_link links a b \<longleftrightarrow> map_of links a = Some b \<and> b \<noteq> []"

text \<open>The conversation at the top of a chain of links, when the chain ends.\<close>

inductive top_of :: "parent_links \<Rightarrow> jstr \<Rightarrow> jstr \<Rightarrow> bool" for links where
  top: "(\<And>b. \<not> parent_link links a b) \<Longrightarrow> top_of links a a"
| up: "parent_link links a b \<Longrightarrow> top_of links b t \<Longrightarrow> top_of links a t"

inductive_cases top_ofE: "top_of links a t"

lemma parent_link_unique: "parent_link links a b \<Longrightarrow> parent_link links a c \<Longrightarrow> c = b"
  by (simp add: parent_link_def)

lemma top_of_step: "parent_link links a b \<Longrightarrow> top_of links a t \<longleftrightarrow> top_of links b t"
  by (metis parent_link_unique top_of.cases top_of.up)

lemma top_of_climb:
  assumes "(parent_link links)\<^sup>*\<^sup>* a c"
  shows "top_of links a t \<longleftrightarrow> top_of links c t"
  using assms by (induction rule: rtranclp_induct) (auto simp: top_of_step)

lemma top_of_no_loop: "top_of links a t \<Longrightarrow> \<not> (parent_link links)\<^sup>+\<^sup>+ a a"
proof (induction rule: top_of.induct)
  case (top a)
  then show ?case by (metis tranclpD)
next
  case (up a b t)
  show ?case
  proof
    assume "(parent_link links)\<^sup>+\<^sup>+ a a"
    then obtain c where "parent_link links a c" "(parent_link links)\<^sup>*\<^sup>* c a"
      by (metis tranclpD)
    with up show False
      by (metis parent_link_unique rtranclp_into_tranclp1)
  qed
qed

lemma top_of_end: "top_of links a t \<Longrightarrow> \<not> parent_link links t b"
  by (induction rule: top_of.induct) auto

lemma root_from_top:
  assumes "\<And>x. x \<in> seen \<Longrightarrow> (parent_link links)\<^sup>*\<^sup>* x current"
  shows "root_from links s seen current = t \<longleftrightarrow>
    top_of links current t \<or> t = s \<and> (\<nexists>u. top_of links current u)"
  using assms
proof (induction links s seen current rule: root_from.induct)
  case (1 links s seen current)
  show ?case
  proof (cases "\<exists>b. parent_link links current b")
    case False
    then have "root_from links s seen current = current"
      by (subst root_from.simps) (auto simp: parent_link_def split: option.splits)
    moreover have "top_of links current u \<longleftrightarrow> u = current" for u
      using False by (metis top_of.cases top_of.top)
    ultimately show ?thesis by auto
  next
    case True
    then obtain b where link: "parent_link links current b" by blast
    show ?thesis
    proof (cases "b \<in> seen")
      case True
      then have "(parent_link links)\<^sup>+\<^sup>+ current current"
        using link "1.prems" by (metis rtranclp_into_tranclp2)
      then have "\<nexists>u. top_of links current u" using top_of_no_loop by blast
      moreover have "root_from links s seen current = s"
        using link True by (subst root_from.simps) (auto simp: parent_link_def)
      ultimately show ?thesis by auto
    next
      case False
      have "root_from links s seen current = root_from links s (insert b seen) b"
        using link False by (subst root_from.simps) (auto simp: parent_link_def)
      moreover have "(parent_link links)\<^sup>*\<^sup>* x b" if "x \<in> insert b seen" for x
        using that "1.prems" link by (metis insertE rtranclp.simps)
      moreover have "map_of links current = Some b" "b \<noteq> []"
        using link by (simp_all add: parent_link_def)
      ultimately show ?thesis using "1.IH" [of b] False by (simp add: top_of_step [OF link])
    qed
  qed
qed

lemma rootOf_top:
  "rootOf links s = t \<longleftrightarrow> top_of links s t \<or> t = s \<and> (\<nexists>u. top_of links s u)"
  unfolding rootOf_def by (rule root_from_top) auto

lemma rootOf_rootOf: "rootOf links (rootOf links s) = rootOf links s"
proof (cases "\<exists>u. top_of links s u")
  case True
  then obtain u where u: "top_of links s u" "rootOf links s = u" by (metis rootOf_top)
  then have "top_of links u u" using top_of_end top_of.top by metis
  with u show ?thesis by (metis rootOf_top)
next
  case False
  then show ?thesis by (metis rootOf_top)
qed

subsection \<open>Groups and samples\<close>

lemma mset_group_by: "mset (concat (map snd (group_by key xs))) = mset xs"
proof -
  have add: "mset (concat (map snd (group_add k x gs))) = add_mset x (mset (concat (map snd gs)))" for k x gs
    by (induction k x gs rule: group_add.induct) auto
  have "mset (concat (map snd (foldl (\<lambda>gs x. group_add (key x) x gs) gs xs)))
      = mset (concat (map snd gs)) + mset xs" for gs
    by (induction xs arbitrary: gs) (simp_all add: add)
  then show ?thesis by (simp add: group_by_def)
qed

lemma mset_concat_sorted:
  "mset (concat (map snd (map (\<lambda>(k, own). (k, sort_by cmp own)) gs))) = mset (concat (map snd gs))"
  by (induction gs) (auto simp: mset_sort_by)

lemma covering_snoc:
  "covering (ss @ [s]) moment =
     (let sessions = covering ss moment in
      if (case moment of None \<Rightarrow> False | Some t \<Rightarrow> covers t s) \<and> sp_session s \<notin> fst ` set sessions
      then sessions @ [(sp_session s, sp_client s)] else sessions)"
  by (simp add: covering_def Let_def)

lemma covering_sessions:
  "fst ` set (covering ss (Some t)) = sp_session ` {s \<in> set ss. covers t s}
   \<and> distinct (map fst (covering ss (Some t)))"
proof (induction ss rule: rev_induct)
  case Nil
  then show ?case by (simp add: covering_def)
next
  case (snoc s ss)
  have "{x \<in> set (ss @ [s]). covers t x} = {x \<in> set ss. covers t x} \<union> (if covers t s then {s} else {})"
    by auto
  with snoc show ?case by (auto simp: covering_snoc Let_def)
qed

text \<open>A conversation is listed with the first of its spans that covers the moment.\<close>

lemma covering_first:
  assumes "sorted_wrt (\<lambda>a b. sp_start b \<le> sp_start a) ss"
    and "(r, client) \<in> set (covering ss (Some t))"
  shows "\<exists>s \<in> set ss. covers t s \<and> sp_session s = r \<and> sp_client s = client
    \<and> (\<forall>s' \<in> set ss. covers t s' \<longrightarrow> sp_session s' = r \<longrightarrow> sp_start s' \<le> sp_start s)"
  using assms
proof (induction ss rule: rev_induct)
  case Nil
  then show ?case by (simp add: covering_def)
next
  case (snoc s ss)
  have sorted: "sorted_wrt (\<lambda>a b. sp_start b \<le> sp_start a) ss" "\<forall>a \<in> set ss. sp_start s \<le> sp_start a"
    using snoc.prems(1) by (simp_all add: sorted_wrt_append)
  show ?case
  proof (cases "(r, client) \<in> set (covering ss (Some t))")
    case True
    with snoc.IH [OF sorted(1)] obtain a where
      "a \<in> set ss" "covers t a" "sp_session a = r" "sp_client a = client"
      "\<forall>s' \<in> set ss. covers t s' \<longrightarrow> sp_session s' = r \<longrightarrow> sp_start s' \<le> sp_start a" by blast
    with sorted(2) show ?thesis by (intro bexI [of _ a]) auto
  next
    case False
    then have new: "covers t s" "r = sp_session s" "client = sp_client s"
        "r \<notin> fst ` set (covering ss (Some t))"
      using snoc.prems(2) by (auto simp: covering_snoc Let_def split: if_splits)
    then have "r \<notin> sp_session ` {s \<in> set ss. covers t s}"
      using covering_sessions by blast
    then have "s' = s" if "s' \<in> set (ss @ [s])" "covers t s'" "sp_session s' = sp_session s" for s'
      using that unfolding new(2) image_iff by fastforce
    with new show ?thesis by (intro bexI [of _ s]) auto
  qed
qed

lemma spans_sorted: "sorted_wrt (\<lambda>a b. sp_start b \<le> sp_start a) (spans date calls)"
  using latest_span.sort_by_ordered unfolding spans_def by simp

lemma bump_sum: "sum_list (map snd (bump c ns)) = Suc (sum_list (map snd ns))"
  by (induction c ns rule: bump.induct) auto

lemma bump_keys: "fst ` set (bump c ns) = insert c (fst ` set ns)"
  by (induction c ns rule: bump.induct) auto

lemma bump_distinct: "distinct (map fst ns) \<Longrightarrow> distinct (map fst (bump c ns))"
proof (induction c ns rule: bump.induct)
  case (2 c c' n ns)
  then show ?case using bump_keys [of c ns] by (auto simp: image_iff)
qed simp

lemma bumps:
  "sum_list (map snd (foldl (\<lambda>counts (_, c). bump c counts) ns xs)) = sum_list (map snd ns) + length xs
   \<and> (distinct (map fst ns) \<longrightarrow> distinct (map fst (foldl (\<lambda>counts (_, c). bump c counts) ns xs)))"
  by (induction xs arbitrary: ns) (auto simp: bump_sum bump_distinct)

lemma rankClients_facts:
  "sum_list (map cl_count (rankClients ns)) = sum_list (map snd ns)"
  "distinct (map cl_client_type (rankClients ns)) \<longleftrightarrow> distinct (map fst ns)"
  "sorted_wrt (\<lambda>a b. busiest_first a b \<le> 0) (rankClients ns)"
proof -
  have "mset (map cl_count (rankClients ns)) = mset (map snd ns)"
    by (simp add: rankClients_def mset_sort_by case_prod_beta multiset.map_comp comp_def)
  then show "sum_list (map cl_count (rankClients ns)) = sum_list (map snd ns)"
    by (metis sum_mset_sum_list)
  show "distinct (map cl_client_type (rankClients ns)) \<longleftrightarrow> distinct (map fst ns)"
    by (simp add: rankClients_def case_prod_beta comp_def)
  show "sorted_wrt (\<lambda>a b. busiest_first a b \<le> 0) (rankClients ns)"
    unfolding rankClients_def by (rule busiest.sort_by_ordered) simp
qed

section \<open>Properties\<close>

text \<open>
  C35: following subagent links always ends, at the top of the chain when the chain has a top,
  and otherwise, in a loop of links, at the conversation itself.
\<close>

theorem root_of_top:
  "rootOf links s = t \<longleftrightarrow> top_of links s t \<or> t = s \<and> (\<nexists>u. top_of links s u)"
  by (rule rootOf_top)

theorem root_of_top_witness:
  "rootOf [(js ''b'', js ''a''), (js ''c'', js ''b'')] (js ''c'') = js ''a''"
proof -
  let ?links = "[(js ''b'', js ''a''), (js ''c'', js ''b'')]"
  have a: "top_of ?links (js ''a'') (js ''a'')"
    by (rule top_of.top) (simp add: parent_link_def js_def)
  have b: "top_of ?links (js ''b'') (js ''a'')"
    by (rule top_of.up [OF _ a]) (simp add: parent_link_def js_def)
  have "top_of ?links (js ''c'') (js ''a'')"
    by (rule top_of.up [OF _ b]) (simp add: parent_link_def js_def)
  then show ?thesis using root_of_top [of ?links "js ''c''" "js ''a''"] by blast
qed

text \<open>
  C34: nesting the subagents of a page shows every conversation exactly once, either
  standing on its own or under one top-level conversation of the page that itself stands on
  its own; no top-level conversation is listed twice.
\<close>

theorem subagents_nested_once:
  "mset (ns_roots (nestSubagents date collate sessions))
     + mset (concat (map snd (ns_subagents_of (nestSubagents date collate sessions)))) = mset sessions
   \<and> distinct (map fst (ns_subagents_of (nestSubagents date collate sessions)))
   \<and> fst ` set (ns_subagents_of (nestSubagents date collate sessions))
       \<subseteq> se_id ` set (ns_roots (nestSubagents date collate sessions))"
proof -
  let ?root = "\<lambda>s. rootOf (session_links sessions) (se_id s)"
  let ?nested = "filter (\<lambda>s. \<not> stands_alone sessions s) sessions"
  have keys: "map fst (ns_subagents_of (nestSubagents date collate sessions)) = map fst (group_by ?root ?nested)"
    by (simp add: nestSubagents_def case_prod_beta)
  have "mset (concat (map snd (ns_subagents_of (nestSubagents date collate sessions)))) = mset ?nested"
    unfolding nestSubagents_def nested_sessions.simps mset_concat_sorted by (rule mset_group_by)
  moreover have "r \<in> se_id ` set (filter (stands_alone sessions) sessions)" if "r \<in> ?root ` set ?nested" for r
  proof -
    obtain s where s: "s \<in> set sessions" "\<not> stands_alone sessions s" "r = ?root s" using \<open>r \<in> _\<close> by auto
    then obtain x where x: "x \<in> set sessions" "se_id x = r" by (auto simp: stands_alone_def Let_def)
    then have "stands_alone sessions x" by (simp add: stands_alone_def Let_def s(3) rootOf_rootOf)
    with x show ?thesis by auto
  qed
  moreover have "fst ` set (ns_subagents_of (nestSubagents date collate sessions)) = ?root ` set ?nested"
    using arg_cong [OF keys, of set] group_by_keys(2) [of ?root ?nested] by (metis set_map)
  ultimately show ?thesis
    using group_by_keys(1) [of ?root ?nested] unfolding keys
    by (simp add: nestSubagents_def subset_iff multiset_partition [symmetric])
qed

text \<open>
  A sampled moment counts each conversation in progress once, whatever number of its
  calls and subagents overlap, under the client of the latest started of them; the clients'
  counts add up to the conversations, no client appears twice, and the busiest come first.
\<close>

theorem sample_counts_once:
  "sa_value (sampleAt (spans date calls) (Some t))
     = card (sp_session ` {s \<in> set (spans date calls). covers t s})
   \<and> sum_list (map cl_count (sa_clients (sampleAt (spans date calls) (Some t))))
     = sa_value (sampleAt (spans date calls) (Some t))
   \<and> distinct (map cl_client_type (sa_clients (sampleAt (spans date calls) (Some t))))
   \<and> sorted_wrt (\<lambda>a b. busiest_first a b \<le> 0) (sa_clients (sampleAt (spans date calls) (Some t)))
   \<and> list_all (\<lambda>(root, client).
        \<exists>s \<in> set (spans date calls). covers t s \<and> sp_session s = root \<and> sp_client s = client
          \<and> sp_start s = Max (sp_start ` {s' \<in> set (spans date calls). covers t s' \<and> sp_session s' = root}))
      (covering (spans date calls) (Some t))"
proof -
  let ?ss = "spans date calls"
  let ?cov = "covering ?ss (Some t)"
  have "length ?cov = card (fst ` set ?cov)"
    using covering_sessions by (metis distinct_card length_map set_map)
  then have count: "length ?cov = card (sp_session ` {s \<in> set ?ss. covers t s})"
    using covering_sessions by simp
  have latest: "\<exists>s \<in> set ?ss. covers t s \<and> sp_session s = root \<and> sp_client s = client
      \<and> sp_start s = Max (sp_start ` {s' \<in> set ?ss. covers t s' \<and> sp_session s' = root})"
    if cov: "(root, client) \<in> set ?cov" for root client
  proof -
    obtain s where s: "s \<in> set ?ss" "covers t s" "sp_session s = root" "sp_client s = client"
      "\<forall>s' \<in> set ?ss. covers t s' \<longrightarrow> sp_session s' = root \<longrightarrow> sp_start s' \<le> sp_start s"
      using covering_first [OF spans_sorted cov] by blast
    then have "sp_start s = Max (sp_start ` {s' \<in> set ?ss. covers t s' \<and> sp_session s' = root})"
      by (intro Max_eqI [symmetric]) auto
    with s show ?thesis by blast
  qed
  show ?thesis
    using count latest bumps [of "[]" ?cov]
    by (auto simp: sampleAt_def Let_def rankClients_facts list_all_iff)
qed

lemma sample_loop_ends:
  assumes "stepMs > 0"
  shows "sample_loop sample stepMs now moment points =
    Some (points @ map (\<lambda>k. sample (moment + int k * stepMs))
      [0..<nat ((now - moment + stepMs - 1) div stepMs)])"
proof (induction "nat ((now - moment + stepMs - 1) div stepMs)" arbitrary: moment points)
  case 0
  have "\<not> moment < now"
  proof
    assume "moment < now"
    then have "stepMs div stepMs \<le> (now - moment + stepMs - 1) div stepMs"
      using assms by (intro zdiv_mono1) auto
    with 0 assms show False by simp
  qed
  then show ?case using 0 by (subst sample_loop.simps) simp
next
  case (Suc n)
  have shift: "(now - (moment + stepMs) + stepMs - 1) div stepMs = (now - moment + stepMs - 1) div stepMs - 1"
    using assms div_add_self2 [of stepMs "now - (moment + stepMs) + stepMs - 1"]
    by (simp add: algebra_simps)
  have lt: "moment < now"
  proof (rule ccontr)
    assume "\<not> moment < now"
    then have "(now - moment + stepMs - 1) div stepMs \<le> (stepMs - 1) div stepMs"
      using assms by (intro zdiv_mono1) auto
    with Suc.hyps(2) assms show False by (simp add: div_pos_pos_trivial)
  qed
  have n: "n = nat ((now - (moment + stepMs) + stepMs - 1) div stepMs)"
    using Suc.hyps(2) unfolding shift by simp
  have "sample_loop sample stepMs now moment points =
      sample_loop sample stepMs now (moment + stepMs) (points @ [sample moment])"
    using lt by (subst sample_loop.simps) simp
  also have "\<dots> = Some ((points @ [sample moment])
      @ map (\<lambda>k. sample (moment + stepMs + int k * stepMs)) [0..<n])"
    using Suc.hyps(1) [OF n] n by simp
  also have "\<dots> = Some (points @ map (\<lambda>k. sample (moment + int k * stepMs)) [0..<Suc n])"
    by (simp only: upt_conv_Cons map_Suc_upt [symmetric]) (simp add: algebra_simps)
  finally show ?case using Suc.hyps(2) by simp
qed

text \<open>
  With a step that advances, the board is computed: the loop over the window ends, with a
  sample at each step from the start of the window up to now and the snapshot's sample last.
\<close>

theorem board_computed:
  assumes "stepMs > 0" and "date (ra_now activity) = Some now"
  shows "\<exists>summary. summarizeActivity date activity windowMs stepMs = Some summary
    \<and> map sa_at (su_points summary)
      = map (\<lambda>k. Some (now - windowMs + int k * stepMs))
          [0..<nat ((windowMs + stepMs - 1) div stepMs)] @ [Some now]
    \<and> sa_value (last (su_points summary)) = sn_conversations (su_snapshot summary)
    \<and> sa_clients (last (su_points summary)) = sn_clients (su_snapshot summary)"
  using assms(2)
  by (simp add: summarizeActivity_def Let_def sample_loop_ends [OF assms(1)] sampleAt_def comp_def)

theorem board_computed_witness:
  "summarizeActivity (\<lambda>_. Some 5000) \<lparr>ra_now = [], ra_calls = []\<rparr> 3000 1000 \<noteq> None"
  using board_computed [of 1000 "\<lambda>_. Some 5000" "\<lparr>ra_now = [], ra_calls = []\<rparr>" 5000 3000] by auto

lemma tokens_in_bounds:
  assumes "case ac_output_tokens call of None \<Rightarrow> True | Some n \<Rightarrow> 0 \<le> n"
  shows "0 \<le> tokens_in date lo now call
    \<and> tokens_in date lo now call \<le> of_int (case ac_output_tokens call of None \<Rightarrow> 0 | Some n \<Rightarrow> n)"
proof -
  have share: "of_int n * of_int (min e now - max s lo) / of_int (e - s) \<le> (of_int n :: rat)"
    if "\<not> e \<le> s" "0 \<le> n" for n e s :: int
  proof -
    have "(of_int (min e now - max s lo) :: rat) \<le> of_int (e - s)"
      unfolding of_int_le_iff by simp
    then have "of_int n * (of_int (min e now - max s lo) :: rat) \<le> of_int n * of_int (e - s)"
      using that(2) by (intro mult_left_mono) auto
    moreover have "(0 :: rat) < of_int (e - s)" using that(1) by simp
    ultimately show ?thesis by (simp only: divide_le_eq if_P)
  qed
  show ?thesis
  proof (cases "ac_output_tokens call")
    case None
    then show ?thesis by (simp add: tokens_in_def)
  next
    case (Some n)
    then show ?thesis
      using assms share [of _ _ n]
      by (auto simp: tokens_in_def Let_def split: option.splits)
  qed
qed

text \<open>
  The throughput shown is the tokens of no call counted more than once over the window:
  for token counts that are not negative it is a finite number between zero and all the
  tokens listed, per second of the window.
\<close>

theorem throughput_bounds:
  assumes "windowMs > 0"
    and "list_all (\<lambda>call. case ac_output_tokens call of None \<Rightarrow> True | Some n \<Rightarrow> 0 \<le> n) calls"
  shows "case outputThroughput date calls now windowMs of
      Fin q \<Rightarrow> 0 \<le> q
        \<and> q \<le> (\<Sum>call \<leftarrow> calls. of_int (case ac_output_tokens call of None \<Rightarrow> 0 | Some n \<Rightarrow> n)) * 1000
            / of_int windowMs
    | _ \<Rightarrow> False"
proof -
  have fold: "foldl (\<lambda>acc call. acc + f call) a xs = a + sum_list (map f xs)"
    for f :: "activity_call \<Rightarrow> rat" and a xs
    by (induction xs arbitrary: a) (simp_all add: add.assoc)
  let ?all = "\<Sum>call \<leftarrow> calls. of_int (case ac_output_tokens call of None \<Rightarrow> 0 | Some n \<Rightarrow> n) :: rat"
  let ?tokens = "case now of None \<Rightarrow> 0
    | Some n \<Rightarrow> \<Sum>call \<leftarrow> calls. tokens_in date (n - windowMs) n call"
  have sums: "0 \<le> (\<Sum>call \<leftarrow> calls. tokens_in date lo n call)
      \<and> (\<Sum>call \<leftarrow> calls. tokens_in date lo n call) \<le> ?all" for lo n
    using assms(2) tokens_in_bounds
    by (auto simp: list_all_iff intro!: sum_list_nonneg sum_list_mono)
  moreover have "0 \<le> ?all" using sums [of 0 0] by linarith
  ultimately have "0 \<le> ?tokens" "?tokens \<le> ?all" by (auto split: option.splits)
  moreover have "outputThroughput date calls now windowMs = Fin (?tokens * 1000 / of_int windowMs)"
    using assms(1) by (simp add: outputThroughput_def js_divide_def Let_def fold cong: option.case_cong)
  moreover have "(0 :: rat) < of_int windowMs" using assms(1) by simp
  ultimately show ?thesis by (simp add: divide_right_mono)
qed

theorem throughput_bounds_witness:
  "case outputThroughput (\<lambda>_. Some 0) [] (Some 0) 60000 of Fin q \<Rightarrow> 0 \<le> q | _ \<Rightarrow> False"
  using throughput_bounds [of 60000 "[]" "\<lambda>_. Some 0" "Some 0"] by (auto split: jnum.splits)

definition unfolded :: "lane_step list \<Rightarrow> (lane_kind \<times> jstr) list" where
  "unfolded steps = concat (map (\<lambda>s. replicate (ls_count s) (ls_kind s, ls_tool s)) steps)"

lemma unfolded_append [simp]: "unfolded (xs @ ys) = unfolded xs @ unfolded ys"
  by (simp add: unfolded_def)

abbreviation folded :: "lane_step list \<Rightarrow> bool" where
  "folded steps \<equiv> successively (\<lambda>a b. (ls_kind a, ls_tool a) \<noteq> (ls_kind b, ls_tool b)) steps"

lemma add_step_facts:
  assumes "folded steps" and "list_all (\<lambda>s. 0 < ls_count s) (step # steps)"
  shows "folded (add_step steps step) \<and> list_all (\<lambda>s. 0 < ls_count s) (add_step steps step)
    \<and> unfolded (add_step steps step) = unfolded steps @ unfolded [step]"
proof (cases steps rule: rev_cases)
  case Nil
  then show ?thesis using assms by (simp add: add_step_def unfolded_def)
next
  case (snoc init l)
  then show ?thesis
    using assms by (auto simp: add_step_def successively_append_iff replicate_add unfolded_def)
qed

lemma add_steps_facts:
  assumes "folded acc" and "list_all (\<lambda>s. 0 < ls_count s) (acc @ steps)"
  shows "folded (foldl add_step acc steps) \<and> list_all (\<lambda>s. 0 < ls_count s) (foldl add_step acc steps)
    \<and> unfolded (foldl add_step acc steps) = unfolded acc @ unfolded steps"
  using assms
proof (induction steps arbitrary: acc)
  case Nil
  then show ?case by (simp add: unfolded_def)
next
  case (Cons st steps)
  have "folded (add_step acc st) \<and> list_all (\<lambda>s. 0 < ls_count s) (add_step acc st)
      \<and> unfolded (add_step acc st) = unfolded acc @ unfolded [st]"
    using Cons.prems by (intro add_step_facts) auto
  with Cons.IH [of "add_step acc st"] Cons.prems show ?case
    using unfolded_append [of "[st]" steps] by simp
qed

lemma call_steps_single: "s \<in> set (call_steps date own call) \<Longrightarrow> ls_count s = 1"
  by (auto simp: call_steps_def Let_def split: option.splits if_splits)

text \<open>
  The trail of a lane is the most recent of the conversation's earlier steps: unfolded, it
  is the end of their sequence; it has at most five entries, no two neighbours that would
  fold into one, and none without a step.
\<close>

theorem lane_trail_recent:
  "(\<exists>older. unfolded (earlier_steps date calls session)
      = older @ unfolded (laneTrail date calls session))
   \<and> length (laneTrail date calls session) \<le> 5
   \<and> folded (laneTrail date calls session)
   \<and> list_all (\<lambda>s. 0 < ls_count s) (laneTrail date calls session)"
proof -
  let ?steps = "foldl add_step [] (earlier_steps date calls session)"
  have "list_all (\<lambda>s. 0 < ls_count s) (earlier_steps date calls session)"
    by (auto simp: list_all_iff earlier_steps_def Let_def dest!: call_steps_single)
  then have facts: "folded ?steps" "list_all (\<lambda>s. 0 < ls_count s) ?steps"
      "unfolded ?steps = unfolded (earlier_steps date calls session)"
    using add_steps_facts [of "[]" "earlier_steps date calls session"] by (simp_all add: unfolded_def)
  define n where "n = length ?steps - LANE_TRAIL_STEPS"
  have split: "?steps = take n ?steps @ laneTrail date calls session"
    by (simp add: laneTrail_def Let_def n_def)
  have "length (laneTrail date calls session) \<le> 5"
    by (simp add: laneTrail_def Let_def LANE_TRAIL_STEPS_def)
  moreover have "folded (laneTrail date calls session)"
    using facts(1) by (subst (asm) split) (simp add: successively_append_iff)
  moreover have "list_all (\<lambda>s. 0 < ls_count s) (laneTrail date calls session)"
    using facts(2) by (subst (asm) split) simp
  moreover have "unfolded (earlier_steps date calls session)
      = unfolded (take n ?steps) @ unfolded (laneTrail date calls session)"
    unfolding facts(3) [symmetric] unfolded_append [symmetric] split [symmetric] by (rule refl)
  ultimately show ?thesis by blast
qed

text \<open>
  The list and the board agree on when a conversation stops counting: for a conversation
  whose only call ended, it is in progress in the list exactly until the end of the span the
  board gives that call.
\<close>

theorem list_agrees_with_board:
  assumes "\<not> isModelDiscoveryProtocol (se_input_protocol session)"
    and "se_active_request_starts session = []" and "ac_status call \<noteq> Pending"
    and "se_status session = Recorded (ac_status call)" and "se_output session = ac_output call"
    and "ac_completed_at call = Some completed" and "completed \<noteq> []"
    and "se_completed_at session = Some completed"
  shows "conversationActivity date session nowMs \<noteq> None \<longleftrightarrow>
    (case busyUntil date (0, call) [(0, call)] of
       Never \<Rightarrow> True | Instant e \<Rightarrow> nowMs < e | NotATime \<Rightarrow> False)"
  using assms
  by (auto simp: conversationActivity_def sessionRunning_def busyUntil_def parseTime_def Let_def
      nextCall_def moment_of_def split: option.splits)

theorem list_agrees_with_board_witness:
  "conversationActivity (\<lambda>_. Some 0)
     (sample_session ''a''\<lparr>se_completed_at := Some (js ''2024'')\<rparr>) 1000 \<noteq> None"
  using list_agrees_with_board [of "sample_session ''a''\<lparr>se_completed_at := Some (js ''2024'')\<rparr>"
      "\<lparr>ac_session_id = [], ac_parent_session_id = None, ac_client_type = None, ac_model = None,
        ac_started_at = [], ac_completed_at = Some (js ''2024''), ac_status = Succeeded,
        ac_output = None, ac_output_tokens = None, ac_service_id = None,
        ac_failed_service_id = None, ac_rewrites = None\<rparr>" "js ''2024''" "\<lambda>_. Some 0" 1000]
  by (simp add: sample_session_def isModelDiscoveryProtocol_def js_def busyUntil_def awaitsTools_def
      moment_of_def ACTIVE_GRACE_MS_def)

text \<open>
  Splitting a page into active and other conversations loses none and repeats none; the
  active ones are those in progress themselves or through a subagent, and the others keep the
  order of the list.
\<close>

theorem split_active_partition:
  "mset (fst (splitActiveSessions date collate ss nowMs subagents))
     + mset (snd (splitActiveSessions date collate ss nowMs subagents)) = mset ss
   \<and> list_all (session_busy date nowMs subagents) (fst (splitActiveSessions date collate ss nowMs subagents))
   \<and> snd (splitActiveSessions date collate ss nowMs subagents)
     = filter (\<lambda>s. \<not> session_busy date nowMs subagents s) ss"
  by (auto simp: splitActiveSessions_def mset_sort_by multiset_partition [symmetric] list_all_iff)

end
