(* ===== verification/Series_Colors.thy ===== *)
theory Series_Colors
  imports Live_Merge Patterns "HOL-Library.Word"
begin

text \<open>
  \<open>series-colors.ts\<close> and the vendor of a model from \<open>components/ModelBrandIcon.tsx\<close>: the
  colors of charts. A client keeps its own color; models drawn together take the color of
  their family, moved on when a busier family holds it.
\<close>

section \<open>Vendors of models\<close>

datatype vendor =
    VendorAnthropic | VendorAntigravity | VendorBytedance | VendorClaude | VendorCodex |
    VendorCopilot | VendorDeepseek | VendorDoubao | VendorGemini | VendorGemma | VendorGrok
    | VendorHunyuan | VendorKimi | VendorMeta | VendorMinimax | VendorMistral | VendorOpenai
    | VendorOpencode | VendorQwen | VendorStepfun | VendorVertex | VendorWenxin |
    VendorXiaomi | VendorZhipu

fun vendor_name :: "vendor \<Rightarrow> string" where
  "vendor_name VendorAnthropic = ''anthropic''"
| "vendor_name VendorAntigravity = ''antigravity''"
| "vendor_name VendorBytedance = ''bytedance''"
| "vendor_name VendorClaude = ''claude''"
| "vendor_name VendorCodex = ''codex''"
| "vendor_name VendorCopilot = ''copilot''"
| "vendor_name VendorDeepseek = ''deepseek''"
| "vendor_name VendorDoubao = ''doubao''"
| "vendor_name VendorGemini = ''gemini''"
| "vendor_name VendorGemma = ''gemma''"
| "vendor_name VendorGrok = ''grok''"
| "vendor_name VendorHunyuan = ''hunyuan''"
| "vendor_name VendorKimi = ''kimi''"
| "vendor_name VendorMeta = ''meta''"
| "vendor_name VendorMinimax = ''minimax''"
| "vendor_name VendorMistral = ''mistral''"
| "vendor_name VendorOpenai = ''openai''"
| "vendor_name VendorOpencode = ''opencode''"
| "vendor_name VendorQwen = ''qwen''"
| "vendor_name VendorStepfun = ''stepfun''"
| "vendor_name VendorVertex = ''vertex''"
| "vendor_name VendorWenxin = ''wenxin''"
| "vendor_name VendorXiaomi = ''xiaomi''"
| "vendor_name VendorZhipu = ''zhipu''"

text \<open>A keyword is a pattern, unanchored or at the start, with the \<open>i\<close> flag.\<close>

datatype keyword = Anywhere rx | AtStart rx

definition keyword_test :: "keyword \<Rightarrow> jstr \<Rightarrow> bool" where
  "keyword_test k model =
     (let s = map ascii_lower model in
      case k of Anywhere r \<Rightarrow> occurs r s | AtStart r \<Rightarrow> rests r s \<noteq> [])"

definition brands :: "(vendor \<times> keyword list) list" where
  "brands =
     [(VendorOpenai, [Anywhere (word ''gpt-3''), Anywhere (word ''gpt-4''),
         Anywhere (word ''gpt-5''), Anywhere (word ''sora''), Anywhere (word ''gpt-oss''),
         Anywhere (word ''o1-''), AtStart (word ''o1''), Anywhere (word ''/o1''),
         Anywhere (word ''o3-''), AtStart (word ''o3''), Anywhere (word ''/o3''),
         Anywhere (word ''o4-''), AtStart (word ''o4''), Anywhere (word ''/o4''),
         Anywhere (word ''dalle''), Anywhere (word ''dall-e''),
         Anywhere (word ''text-embedding-''), Anywhere (word ''tts-''),
         Anywhere (word ''whisper-''), Anywhere (word ''codex''),
         Anywhere (word ''davinci''), Anywhere (word ''babbage''),
         Anywhere (word ''omni-moderation''), Anywhere (word ''text-moderation''),
         Anywhere (word ''text-adb''), Anywhere (word ''text-ada''),
         Anywhere (word ''computer-use''), AtStart (word ''gpt-''),
         Anywhere (word ''/gpt-''), Anywhere (word ''openai'')]),
      (VendorZhipu, [AtStart (word ''glm-''), Anywhere (word ''/glm-''),
         Anywhere (seqs [word ''/glm'', Cls is_digit]), Anywhere (word ''-glm-''),
         Anywhere (word ''chatglm'')]),
      (VendorClaude, [Anywhere (word ''claude'')]),
      (VendorAnthropic, [Anywhere (word ''anthropic'')]),
      (VendorMeta, [Anywhere (word ''llama''), Anywhere (word ''/l3'')]),
      (VendorGemini, [Anywhere (word ''gemini'')]),
      (VendorGemma, [Anywhere (word ''gemma'')]),
      (VendorKimi, [Anywhere (word ''kimi''), Anywhere (word ''moonshot'')]),
      (VendorQwen, [Anywhere (word ''qwen''), Anywhere (word ''qwq''),
         Anywhere (word ''qvq''), Anywhere (word ''wanx''),
         Anywhere (seqs [word ''wan'', Cls is_digit, word ''/'']),
         Anywhere (seqs [word ''wan'', Cls is_digit, word ''.'', Cls is_digit, word ''-'']),
         Anywhere (word ''tongyi''), Anywhere (word ''gte-rerank'')]),
      (VendorMinimax, [Anywhere (word ''minimax''), Anywhere (word ''abab''),
         AtStart (word ''image-'')]),
      (VendorMistral, [Anywhere (word ''mistral''), Anywhere (word ''mixtral''),
         Anywhere (word ''codestral''), Anywhere (word ''mathstral''),
         Anywhere (word ''/mn-''), Anywhere (word ''pixtral''),
         Anywhere (word ''ministral''), Anywhere (word ''magistral''),
         Anywhere (word ''devstral''), Anywhere (word ''voxtral'')]),
      (VendorStepfun, [Anywhere (word ''step'')]),
      (VendorWenxin, [Anywhere (word ''ernie''), Anywhere (word ''irag'')]),
      (VendorDoubao, [AtStart (word ''ep-''), Anywhere (word ''doubao-'')]),
      (VendorHunyuan, [Anywhere (word ''hunyuan''), Anywhere (word ''hy3'')]),
      (VendorBytedance, [Anywhere (word ''skylark''), Anywhere (word ''seed-''),
         Anywhere (word ''bytedance'')]),
      (VendorGrok, [AtStart (word ''grok-''), Anywhere (word ''/grok-'')]),
      (VendorDeepseek, [Anywhere (word ''deepseek'')]),
      (VendorXiaomi, [AtStart (word ''mimo-''), Anywhere (word ''/mimo-'')])]"

definition modelVendor :: "jstr \<Rightarrow> vendor option" where
  "modelVendor model =
     (if trim model = [] then None
      else map_option fst (List.find (\<lambda>(vendor, keywords). list_ex (\<lambda>k. keyword_test k model) keywords) brands))"

section \<open>Slots\<close>

definition SERIES_SLOTS :: nat where "SERIES_SLOTS = 8"
definition MODEL_SERIES_SLOTS :: nat where "MODEL_SERIES_SLOTS = 5"

definition SERIES :: "nat \<Rightarrow> jstr" where
  "SERIES slot = js ''var(--series-'' @ dec (slot + 1) @ js '')''"

definition MODEL_SERIES :: "nat \<Rightarrow> jstr" where
  "MODEL_SERIES slot = js ''var(--model-series-'' @ dec (slot + 1) @ js '')''"

definition MUTED_SERIES_COLOR :: jstr where
  "MUTED_SERIES_COLOR = js ''var(--muted-foreground)''"

fun model_vendor_slot :: "vendor \<Rightarrow> nat option" where
  "model_vendor_slot VendorClaude = Some 0"
| "model_vendor_slot VendorAnthropic = Some 0"
| "model_vendor_slot VendorMistral = Some 0"
| "model_vendor_slot VendorXiaomi = Some 0"
| "model_vendor_slot VendorOpenai = Some 1"
| "model_vendor_slot VendorDeepseek = Some 2"
| "model_vendor_slot VendorZhipu = Some 2"
| "model_vendor_slot VendorMeta = Some 2"
| "model_vendor_slot VendorDoubao = Some 2"
| "model_vendor_slot VendorBytedance = Some 2"
| "model_vendor_slot VendorHunyuan = Some 2"
| "model_vendor_slot VendorWenxin = Some 2"
| "model_vendor_slot VendorStepfun = Some 2"
| "model_vendor_slot VendorGemini = Some 3"
| "model_vendor_slot VendorGemma = Some 3"
| "model_vendor_slot VendorQwen = Some 3"
| "model_vendor_slot VendorMinimax = Some 3"
| "model_vendor_slot VendorGrok = Some 4"
| "model_vendor_slot VendorKimi = Some 4"
| "model_vendor_slot _ = None"

fun client_slot :: "client_type \<Rightarrow> nat option" where
  "client_slot ClientDeepseekHarness = Some 0"
| "client_slot ClientClaudeCode = Some 1"
| "client_slot ClientCodex = Some 6"
| "client_slot ClientCursor = Some 7"
| "client_slot ClientKimiCode = Some 3"
| "client_slot ClientPi = Some 4"
| "client_slot ClientOpencode = Some 5"
| "client_slot ClientGeminiCli = Some 2"
| "client_slot ClientQwenCode = Some 6"
| "client_slot ClientGrokCli = Some 7"
| "client_slot _ = None"

text \<open>\<open>hash = (hash * 31 + char.codePointAt(0)) >>> 0\<close>: an unsigned 32-bit word.\<close>

definition name_hash :: "jstr \<Rightarrow> 32 word" where
  "name_hash name = foldl (\<lambda>hash c. hash * 31 + of_nat c) 0 (code_points name)"

definition hashedSlot :: "jstr \<Rightarrow> nat \<Rightarrow> nat" where
  "hashedSlot name slots = unat (name_hash name) mod slots"

text \<open>A model's family and the slot it asks for; \<open>lower\<close> is \<open>toLowerCase\<close>.\<close>

definition modelFamily :: "(jstr \<Rightarrow> jstr) \<Rightarrow> jstr \<Rightarrow> jstr \<times> nat" where
  "modelFamily lower model =
     (let name = trim model;
          hashed = (let key = lower name in (key, hashedSlot key MODEL_SERIES_SLOTS)) in
      case modelVendor name of
        None \<Rightarrow> hashed
      | Some vendor \<Rightarrow>
          (case model_vendor_slot vendor of
             None \<Rightarrow> hashed
           | Some slot \<Rightarrow> (js (vendor_name vendor), slot)))"

text \<open>The slots of the families, the newest entry first, and the set of slots they hold.\<close>

type_synonym slot_map = "(jstr \<times> nat) list"

definition keep_own :: "slot_map \<Rightarrow> jstr \<times> nat \<Rightarrow> slot_map" where
  "keep_own slots family =
     (if fst family \<in> fst ` set slots \<or> snd family \<in> snd ` set slots then slots else family # slots)"

fun next_free :: "nat \<Rightarrow> nat set \<Rightarrow> nat \<Rightarrow> nat" where
  "next_free 0 taken slot = slot"
| "next_free (Suc steps) taken slot =
     (if slot \<in> taken then next_free steps taken ((slot + 1) mod MODEL_SERIES_SLOTS) else slot)"

definition take_free :: "slot_map \<Rightarrow> jstr \<times> nat \<Rightarrow> slot_map" where
  "take_free slots family =
     (if fst family \<in> fst ` set slots then slots
      else (fst family, next_free MODEL_SERIES_SLOTS (snd ` set slots) (snd family)) # slots)"

definition family_slots :: "(jstr \<times> nat) list \<Rightarrow> slot_map" where
  "family_slots families = foldl take_free (foldl keep_own [] families) families"

definition modelSeriesColors :: "(jstr \<Rightarrow> jstr) \<Rightarrow> jstr list \<Rightarrow> jstr list" where
  "modelSeriesColors lower models =
     (let families = map (modelFamily lower) models; slots = family_slots families in
      map (\<lambda>(key, _). MODEL_SERIES (the (map_of slots key))) families)"

definition clientSeriesSlot :: "client_type option \<Rightarrow> nat option" where
  "clientSeriesSlot client =
     (case client of
        None \<Rightarrow> None
      | Some c \<Rightarrow>
          if c = ClientUnknown then None
          else Some (case client_slot c of
            Some slot \<Rightarrow> slot | None \<Rightarrow> hashedSlot (js (client_type_name c)) SERIES_SLOTS))"

definition clientSeriesColor :: "client_type option \<Rightarrow> jstr" where
  "clientSeriesColor client =
     (case clientSeriesSlot client of None \<Rightarrow> MUTED_SERIES_COLOR | Some slot \<Rightarrow> SERIES slot)"

section \<open>Facts\<close>

lemma vendor_slot_bound: "model_vendor_slot v = Some n \<Longrightarrow> n < MODEL_SERIES_SLOTS"
  by (cases v) (auto simp: MODEL_SERIES_SLOTS_def)

lemma family_slot_bound: "snd (modelFamily lower model) < MODEL_SERIES_SLOTS"
proof -
  have "hashedSlot k MODEL_SERIES_SLOTS < MODEL_SERIES_SLOTS" for k
    by (simp add: hashedSlot_def MODEL_SERIES_SLOTS_def)
  then show ?thesis
    by (auto simp: modelFamily_def Let_def vendor_slot_bound split: option.splits)
qed

text \<open>
  Probing from a slot looks at all five: when one is free it ends at a free one.
\<close>

lemma next_free_probes:
  assumes "slot < MODEL_SERIES_SLOTS"
    and "\<exists>j < n. (slot + j) mod MODEL_SERIES_SLOTS \<notin> taken"
  shows "next_free n taken slot \<notin> taken \<and> next_free n taken slot < MODEL_SERIES_SLOTS"
  using assms
proof (induction n taken slot rule: next_free.induct)
  case (2 steps taken slot)
  show ?case
  proof (cases "slot \<in> taken")
    case True
    obtain j where j: "j < Suc steps" "(slot + j) mod MODEL_SERIES_SLOTS \<notin> taken" using "2.prems" by blast
    with True "2.prems"(1) obtain i where i: "j = Suc i" by (cases j) auto
    then have "((slot + 1) mod MODEL_SERIES_SLOTS + i) mod MODEL_SERIES_SLOTS \<notin> taken"
      using j(2) by (simp add: mod_simps)
    moreover have "(slot + 1) mod MODEL_SERIES_SLOTS < MODEL_SERIES_SLOTS"
      by (simp add: MODEL_SERIES_SLOTS_def)
    ultimately show ?thesis using True "2.IH" j(1) i by auto
  next
    case False
    with "2.prems" show ?thesis by simp
  qed
qed simp

lemma next_free_bound: "slot < MODEL_SERIES_SLOTS \<Longrightarrow> next_free n taken slot < MODEL_SERIES_SLOTS"
  by (induction n taken slot rule: next_free.induct) (auto simp: MODEL_SERIES_SLOTS_def)

lemma next_free_free:
  assumes "slot < MODEL_SERIES_SLOTS" and "finite taken" and "card taken < MODEL_SERIES_SLOTS"
  shows "next_free MODEL_SERIES_SLOTS taken slot \<notin> taken"
proof -
  have "\<not> {..<MODEL_SERIES_SLOTS} \<subseteq> taken"
    using assms(2,3) card_mono [of taken "{..<MODEL_SERIES_SLOTS}"] by auto
  then obtain k where k: "k < MODEL_SERIES_SLOTS" "k \<notin> taken" by blast
  let ?j = "(k + (MODEL_SERIES_SLOTS - slot)) mod MODEL_SERIES_SLOTS"
  have "(slot + ?j) mod MODEL_SERIES_SLOTS = (slot + (k + (MODEL_SERIES_SLOTS - slot))) mod MODEL_SERIES_SLOTS"
    by (simp add: mod_simps)
  also have "slot + (k + (MODEL_SERIES_SLOTS - slot)) = k + MODEL_SERIES_SLOTS" using assms(1) by simp
  finally have "(slot + ?j) mod MODEL_SERIES_SLOTS = k" using k(1) by simp
  moreover have "?j < MODEL_SERIES_SLOTS" using k(1) by simp
  ultimately show ?thesis using next_free_probes [OF assms(1)] k(2) by metis
qed

text \<open>
  Slots are well formed when keys and slots are distinct; while colors are left a family is
  always given one of its own.
\<close>

definition slots_ok :: "slot_map \<Rightarrow> bool" where
  "slots_ok slots \<longleftrightarrow> distinct (map fst slots) \<and> distinct (map snd slots)"

lemma keep_own_ok: "slots_ok slots \<Longrightarrow> slots_ok (keep_own slots f)"
  by (auto simp: slots_ok_def keep_own_def)

lemma keep_owns_ok: "slots_ok slots \<Longrightarrow> slots_ok (foldl keep_own slots fs)"
  by (induction fs arbitrary: slots) (simp_all add: keep_own_ok)

lemma keep_owns_keys: "fst ` set (foldl keep_own slots fs) \<subseteq> fst ` set slots \<union> fst ` set fs"
proof (induction fs arbitrary: slots)
  case (Cons f fs)
  have "fst ` set (keep_own slots f) \<subseteq> fst ` set slots \<union> {fst f}" by (auto simp: keep_own_def)
  with Cons [of "keep_own slots f"] show ?case by auto
qed simp

lemma take_free_ok:
  assumes "slots_ok slots" and "snd f < MODEL_SERIES_SLOTS"
    and "card (insert (fst f) (fst ` set slots)) \<le> MODEL_SERIES_SLOTS"
  shows "slots_ok (take_free slots f)"
proof (cases "fst f \<in> fst ` set slots")
  case False
  have "card (snd ` set slots) = card (fst ` set slots)"
    using assms(1) by (metis slots_ok_def distinct_card length_map set_map)
  then have "card (snd ` set slots) < MODEL_SERIES_SLOTS" using assms(3) False by simp
  then show ?thesis
    using assms(1) False next_free_free [OF assms(2), of "snd ` set slots"]
    by (simp add: slots_ok_def take_free_def)
qed (use assms in \<open>simp add: take_free_def\<close>)

lemma take_free_keys: "fst ` set (take_free slots f) = insert (fst f) (fst ` set slots)"
  by (auto simp: take_free_def)

lemma take_frees_ok:
  assumes "slots_ok slots" and "\<forall>f \<in> set fs. snd f < MODEL_SERIES_SLOTS"
    and "card (fst ` set slots \<union> fst ` set fs) \<le> MODEL_SERIES_SLOTS"
  shows "slots_ok (foldl take_free slots fs)"
  using assms
proof (induction fs arbitrary: slots)
  case (Cons f fs)
  have "card (insert (fst f) (fst ` set slots)) \<le> MODEL_SERIES_SLOTS"
    using card_mono [of "fst ` set slots \<union> fst ` set (f # fs)" "insert (fst f) (fst ` set slots)"]
    by (intro le_trans [OF _ Cons.prems(3)]) auto
  then have "slots_ok (take_free slots f)" using Cons.prems by (intro take_free_ok) auto
  then show ?case using Cons by (simp add: take_free_keys)
qed simp

lemma take_frees_keys: "fst ` set (foldl take_free slots fs) = fst ` set slots \<union> fst ` set fs"
  by (induction fs arbitrary: slots) (auto simp: take_free_keys)

lemma slots_ok_unique:
  assumes "slots_ok m" and "map_of m a = Some s" and "map_of m b = Some t"
  shows "s = t \<longleftrightarrow> a = b"
proof
  assume "s = t"
  then have "(a, s) \<in> set m" "(b, s) \<in> set m" using assms(2,3) by (simp_all add: map_of_SomeD)
  moreover have "inj_on snd (set m)" using assms(1) by (simp add: slots_ok_def distinct_map)
  ultimately show "a = b" by (metis inj_onD prod.inject snd_conv)
qed (use assms in simp)

lemma MODEL_SERIES_inj: "MODEL_SERIES a = MODEL_SERIES b \<longleftrightarrow> a = b"
proof
  assume "MODEL_SERIES a = MODEL_SERIES b"
  then have "dec (a + 1) = dec (b + 1)" by (simp add: MODEL_SERIES_def)
  then have "digits_value (dec (a + 1)) = digits_value (dec (b + 1))" by simp
  then show "a = b" by simp
qed simp

section \<open>Properties\<close>

text \<open>
  Models drawn together share a color exactly when they are of one family, as long as
  there are no more families than colors.
\<close>

theorem families_own_colors:
  assumes "card (set (map (fst \<circ> modelFamily lower) models)) \<le> 5"
    and "i < length models" and "j < length models"
  shows "modelSeriesColors lower models ! i = modelSeriesColors lower models ! j
    \<longleftrightarrow> fst (modelFamily lower (models ! i)) = fst (modelFamily lower (models ! j))"
proof -
  let ?fs = "map (modelFamily lower) models"
  let ?slots = "family_slots ?fs"
  have own: "fst ` set (foldl keep_own [] ?fs) \<subseteq> fst ` set ?fs"
    using keep_owns_keys [of "[]" ?fs] by (simp del: set_map)
  then have keys: "fst ` set ?slots = fst ` set ?fs"
    by (auto simp: family_slots_def take_frees_keys)
  have "card (fst ` set (foldl keep_own [] ?fs) \<union> fst ` set ?fs) \<le> MODEL_SERIES_SLOTS"
    using assms(1) own by (simp add: Un_absorb1 image_image MODEL_SERIES_SLOTS_def image_comp)
  then have ok: "slots_ok ?slots"
    unfolding family_slots_def using keep_owns_ok [of "[]" ?fs] family_slot_bound
    by (intro take_frees_ok) (auto simp: slots_ok_def)
  have color: "modelSeriesColors lower models ! k
      = MODEL_SERIES (the (map_of ?slots (fst (modelFamily lower (models ! k)))))" if "k < length models" for k
    using that by (simp add: modelSeriesColors_def Let_def case_prod_unfold)
  have at: "\<exists>s. map_of ?slots (fst (modelFamily lower (models ! k))) = Some s" if "k < length models" for k
  proof -
    have "fst (modelFamily lower (models ! k)) \<in> fst ` set ?slots" unfolding keys using that by simp
    then show ?thesis by (metis domIff dom_map_of_conv_image_fst option.exhaust)
  qed
  obtain s t where st: "map_of ?slots (fst (modelFamily lower (models ! i))) = Some s"
    "map_of ?slots (fst (modelFamily lower (models ! j))) = Some t"
    using at assms(2,3) by blast
  have "s = t \<longleftrightarrow> fst (modelFamily lower (models ! i)) = fst (modelFamily lower (models ! j))"
    by (rule slots_ok_unique [OF ok st])
  then show ?thesis using assms(2,3) by (simp add: color st MODEL_SERIES_inj)
qed

theorem families_own_colors_witness:
  "modelSeriesColors id [js ''glm-4'', js ''glm-5''] ! 0 = modelSeriesColors id [js ''glm-4'', js ''glm-5''] ! 1
    \<longleftrightarrow> fst (modelFamily id (js ''glm-4'')) = fst (modelFamily id (js ''glm-5''))"
  using families_own_colors [of id "[js ''glm-4'', js ''glm-5'']" 0 1]
  by (simp add: card_insert_if)

end
