(* ===== verification/Usage_Range.thy ===== *)
theory Usage_Range
  imports Live_Merge
begin

text \<open>
  \<open>usage-range.ts\<close>: the spans usage is read over, and the folding of request records into
  totals and breakdowns by service, model, token, client, day and hour. The host gives the
  wall clock of an instant in a zone, the local midnight of a day and the next day's, and
  \<open>Date.parse\<close>; they are arguments.
\<close>

section \<open>Ranges\<close>

datatype usage_preset = Range1d | Range7d | Range30d | Range90d | Range1y

fun preset_name :: "usage_preset \<Rightarrow> string" where
  "preset_name Range1d = ''1d''"
| "preset_name Range7d = ''7d''"
| "preset_name Range30d = ''30d''"
| "preset_name Range90d = ''90d''"
| "preset_name Range1y = ''1y''"

definition USAGE_RANGE_PRESETS :: "usage_preset list" where
  "USAGE_RANGE_PRESETS = [Range1d, Range7d, Range30d, Range90d, Range1y]"

interpretation usage_preset_enum: string_enum USAGE_RANGE_PRESETS preset_name
proof
  show "x \<in> set USAGE_RANGE_PRESETS" for x by (cases x) (simp_all add: USAGE_RANGE_PRESETS_def)
  show "distinct (map preset_name USAGE_RANGE_PRESETS)" by (simp add: USAGE_RANGE_PRESETS_def)
qed

record custom_usage_range =
  cr_from :: jstr
  cr_to :: jstr

datatype usage_range = PresetRange usage_preset | CustomRange custom_usage_range

definition MAX_CUSTOM_RANGE_DAYS :: int where "MAX_CUSTOM_RANGE_DAYS = 365"

definition HOUR_MODEL_MAX_SPAN_MS :: int where "HOUR_MODEL_MAX_SPAN_MS = 32 * 24 * 3600000"

definition usageRangeKey :: "usage_range \<Rightarrow> jstr" where
  "usageRangeKey chosen =
     (case chosen of
        CustomRange c \<Rightarrow> cr_from c @ js ''~'' @ cr_to c
      | PresetRange p \<Rightarrow> js (preset_name p))"

definition usageRangeDays :: "usage_preset \<Rightarrow> nat" where
  "usageRangeDays preset =
     (case preset of Range1d \<Rightarrow> 1 | Range7d \<Rightarrow> 7 | Range30d \<Rightarrow> 30 | Range90d \<Rightarrow> 90 | Range1y \<Rightarrow> 365)"

section \<open>Clocks and calendars\<close>

record zoned_date_time =
  zt_year :: nat
  zt_month :: nat
  zt_day :: nat
  zt_hour :: nat
  zt_minute :: nat

text \<open>
  The host: the wall clock of an instant in a named zone, the system's without a name; the
  instant of the local midnight of a year, a month counted from 0 and a day; the same local
  time one day later; the start of an instant's hour in a zone.
\<close>

record host_calendar =
  hc_zoned :: "jstr option \<Rightarrow> int \<Rightarrow> zoned_date_time"
  hc_midnight :: "int \<Rightarrow> int \<Rightarrow> int \<Rightarrow> int"
  hc_next_day :: "int \<Rightarrow> int"
  hc_start_of_hour :: "jstr option \<Rightarrow> int \<Rightarrow> int"

definition pad_start :: "nat \<Rightarrow> jstr \<Rightarrow> jstr" where
  "pad_start n s = replicate (n - length s) 48 @ s"

definition day_key_of :: "zoned_date_time \<Rightarrow> jstr" where
  "day_key_of z =
     dec (zt_year z) @ js ''-'' @ pad_start 2 (dec (zt_month z)) @ js ''-'' @ pad_start 2 (dec (zt_day z))"

definition zonedDayKey :: "host_calendar \<Rightarrow> int \<Rightarrow> jstr option \<Rightarrow> jstr" where
  "zonedDayKey host moment zone = day_key_of (hc_zoned host zone moment)"

definition localDayKey :: "host_calendar \<Rightarrow> int \<Rightarrow> jstr" where
  "localDayKey host moment = zonedDayKey host moment None"

definition hour_key :: "jstr \<Rightarrow> nat \<Rightarrow> jstr" where
  "hour_key day hour = day @ js ''T'' @ dec hour"

definition hourBucketKey :: "host_calendar \<Rightarrow> int \<Rightarrow> jstr option \<Rightarrow> jstr" where
  "hourBucketKey host moment zone =
     hour_key (zonedDayKey host moment zone) (zt_hour (hc_zoned host zone moment))"

definition startOfLocalDay :: "host_calendar \<Rightarrow> int \<Rightarrow> int" where
  "startOfLocalDay host moment =
     (let z = hc_zoned host None moment in
      hc_midnight host (int (zt_year z)) (int (zt_month z) - 1) (int (zt_day z)))"

text \<open>\<open>/^(\d{4})-(\d{2})-(\d{2})$/\<close>\<close>

definition day_key_shape :: "jstr \<Rightarrow> bool" where
  "day_key_shape s \<longleftrightarrow> length s = 10
     \<and> list_all is_digit (take 4 s) \<and> s ! 4 = 45
     \<and> list_all is_digit (take 2 (drop 5 s)) \<and> s ! 7 = 45
     \<and> list_all is_digit (drop 8 s)"

definition parseDayKey :: "host_calendar \<Rightarrow> jstr \<Rightarrow> int option" where
  "parseDayKey host day =
     (if \<not> day_key_shape day then None
      else let year = digits_value (take 4 day); month = digits_value (take 2 (drop 5 day));
               date = digits_value (drop 8 day);
               parsed = hc_midnight host (int year) (int month - 1) (int date);
               z = hc_zoned host None parsed in
        if zt_year z = year \<and> zt_month z = month \<and> zt_day z = date then Some parsed else None)"

text \<open>
  \<open>Date.UTC(year, month, day)\<close> in whole days since 1970, for a month from 0 to 11 and a year
  from 100 on, as the parts of a date are.
\<close>

definition leap :: "int \<Rightarrow> bool" where
  "leap y \<longleftrightarrow> y mod 4 = 0 \<and> (y mod 100 \<noteq> 0 \<or> y mod 400 = 0)"

definition days_before_year :: "int \<Rightarrow> int" where
  "days_before_year y =
     365 * (y - 1970) + ((y - 1969) div 4) - ((y - 1901) div 100) + ((y - 1601) div 400)"

definition days_before_month :: "int \<Rightarrow> nat \<Rightarrow> int" where
  "days_before_month y m =
     [0, 31, 59, 90, 120, 151, 181, 212, 243, 273, 304, 334] ! m + (if 1 < m \<and> leap y then 1 else 0)"

definition utc_day :: "zoned_date_time \<Rightarrow> int" where
  "utc_day z = days_before_year (int (zt_year z))
     + days_before_month (int (zt_year z)) (zt_month z - 1) + int (zt_day z) - 1"

definition customRangeDays :: "host_calendar \<Rightarrow> custom_usage_range \<Rightarrow> int" where
  "customRangeDays host custom =
     (case (parseDayKey host (cr_from custom), parseDayKey host (cr_to custom)) of
        (Some from', Some to') \<Rightarrow>
          if to' < from' then 0
          else utc_day (hc_zoned host None to') - utc_day (hc_zoned host None from') + 1
      | _ \<Rightarrow> 0)"

datatype custom_range_problem = RangeInvalid | RangeOrder | RangeFuture | RangeTooLong

definition customRangeProblem ::
  "host_calendar \<Rightarrow> custom_usage_range \<Rightarrow> int \<Rightarrow> custom_range_problem option"
where
  "customRangeProblem host custom now =
     (case (parseDayKey host (cr_from custom), parseDayKey host (cr_to custom)) of
        (Some from', Some to') \<Rightarrow>
          if to' < from' then Some RangeOrder
          else if from' > startOfLocalDay host now then Some RangeFuture
          else if customRangeDays host custom > MAX_CUSTOM_RANGE_DAYS then Some RangeTooLong
          else None
      | _ \<Rightarrow> Some RangeInvalid)"

section \<open>Windows\<close>

record usage_window =
  uw_preset :: "usage_preset option"
  uw_from :: jstr
  uw_to :: jstr
  uw_time_zone :: jstr

definition zone_of :: "usage_window \<Rightarrow> jstr option" where
  "zone_of window = (if uw_time_zone window = [] then None else Some (uw_time_zone window))"

text \<open>
  The loop over the days of a window. A day moves on by at least a millisecond, so the
  milliseconds left bound the steps.
\<close>

fun day_loop :: "host_calendar \<Rightarrow> nat \<Rightarrow> int \<Rightarrow> int \<Rightarrow> jstr list" where
  "day_loop host 0 day end' = []"
| "day_loop host (Suc fuel) day end' =
     (if day < end' then localDayKey host day # day_loop host fuel (hc_next_day host day) end' else [])"

definition usageWindowDayKeys :: "date_parser \<Rightarrow> host_calendar \<Rightarrow> usage_window \<Rightarrow> jstr list" where
  "usageWindowDayKeys date host window =
     (case (date (uw_from window), date (uw_to window)) of
        (Some from', Some to') \<Rightarrow>
          (let start = startOfLocalDay host from';
               midnight = startOfLocalDay host to';
               end' = (if to' > midnight then hc_next_day host midnight else midnight) in
           day_loop host (nat (end' - start)) start end')
      | _ \<Rightarrow> [])"

definition hourlyUsageWindow :: "date_parser \<Rightarrow> host_calendar \<Rightarrow> usage_window \<Rightarrow> bool" where
  "hourlyUsageWindow date host window \<longleftrightarrow>
     (case uw_preset window of
        Some p \<Rightarrow> p = Range1d
      | None \<Rightarrow> length (usageWindowDayKeys date host window) = 1)"

fun slot_loop ::
  "host_calendar \<Rightarrow> jstr option \<Rightarrow> nat \<Rightarrow> int \<Rightarrow> int \<Rightarrow> (jstr \<times> nat) list \<Rightarrow> (jstr \<times> nat) list"
where
  "slot_loop host zone 0 moment end' slots = slots"
| "slot_loop host zone (Suc steps) moment end' slots =
     (if moment < end' then
        (let date = zonedDayKey host moment zone; hour = zt_hour (hc_zoned host zone moment);
             key = hour_key date hour in
         slot_loop host zone steps (moment + 3600000) end'
           (if key \<in> set (map (\<lambda>(d, h). hour_key d h) slots) then slots else slots @ [(date, hour)]))
      else slots)"

text \<open>A time that does not parse throws when its wall clock is read.\<close>

definition usageWindowHourSlots ::
  "date_parser \<Rightarrow> host_calendar \<Rightarrow> usage_window \<Rightarrow> js_error + (jstr \<times> nat) list"
where
  "usageWindowHourSlots date host window =
     (if \<not> hourlyUsageWindow date host window then Inr []
      else case date (uw_from window) of
        None \<Rightarrow> Inl (Error (js ''Invalid time value''))
      | Some from' \<Rightarrow>
          (case date (uw_to window) of
             None \<Rightarrow> Inr []
           | Some end' \<Rightarrow>
               Inr (slot_loop host (zone_of window) 26
                 (hc_start_of_hour host (zone_of window) from') end' [])))"

section \<open>Totals and groups\<close>

record usage_totals =
  ut_requests :: int
  ut_failed_requests :: int
  ut_input_tokens :: int
  ut_output_tokens :: int
  ut_total_tokens :: int
  ut_cache_read_tokens :: int
  ut_cache_write_tokens :: int

record usage_group = usage_totals +
  ug_id :: "jstr option"

record usage_day_bucket = usage_totals +
  ud_date :: jstr

record usage_hour_bucket = usage_totals +
  uh_date :: jstr
  uh_hour :: nat

record usage_hour_model_bucket =
  hm_date :: jstr
  hm_hour :: nat
  hm_model :: "jstr option"
  hm_requests :: int
  hm_total_tokens :: int

type_synonym usage_status_counts = "request_status \<Rightarrow> nat"

definition USAGE_STATUSES :: "request_status list" where
  "USAGE_STATUSES = [Succeeded, StatusFailed, Blocked, Cancelled, Pending]"

definition emptyUsageStatusCounts :: usage_status_counts where
  "emptyUsageStatusCounts = (\<lambda>_. 0)"

definition emptyUsageTotals :: usage_totals where
  "emptyUsageTotals =
     \<lparr>ut_requests = 0, ut_failed_requests = 0, ut_input_tokens = 0, ut_output_tokens = 0,
      ut_total_tokens = 0, ut_cache_read_tokens = 0, ut_cache_write_tokens = 0\<rparr>"

definition empty_group :: "jstr option \<Rightarrow> usage_group" where
  "empty_group ident = usage_totals.extend emptyUsageTotals (usage_group.fields ident)"

definition empty_day :: "jstr \<Rightarrow> usage_day_bucket" where
  "empty_day date = usage_totals.extend emptyUsageTotals (usage_day_bucket.fields date)"

definition empty_hour :: "jstr \<times> nat \<Rightarrow> usage_hour_bucket" where
  "empty_hour slot = usage_totals.extend emptyUsageTotals (usage_hour_bucket.fields (fst slot) (snd slot))"

definition emptyHourSeries ::
  "date_parser \<Rightarrow> host_calendar \<Rightarrow> usage_window \<Rightarrow> js_error + usage_hour_bucket list"
where
  "emptyHourSeries date host window =
     bindE (usageWindowHourSlots date host window) (\<lambda>slots. Inr (map empty_hour slots))"

definition or_zero :: "int option \<Rightarrow> int" where
  "or_zero n = (case n of None \<Rightarrow> 0 | Some i \<Rightarrow> i)"

definition addUsage :: "'a usage_totals_scheme \<Rightarrow> request_usage \<Rightarrow> 'a usage_totals_scheme" where
  "addUsage totals usage =
     totals\<lparr>ut_input_tokens := ut_input_tokens totals + us_input_tokens usage,
       ut_output_tokens := ut_output_tokens totals + us_output_tokens usage,
       ut_total_tokens := ut_total_tokens totals + us_total_tokens usage,
       ut_cache_read_tokens := ut_cache_read_tokens totals + or_zero (us_cache_read_tokens usage),
       ut_cache_write_tokens := ut_cache_write_tokens totals + or_zero (us_cache_write_tokens usage)\<rparr>"

definition add_failed :: "'a usage_totals_scheme \<Rightarrow> 'a usage_totals_scheme" where
  "add_failed totals = totals\<lparr>ut_failed_requests := ut_failed_requests totals + 1\<rparr>"

definition add_succeeded ::
  "request_usage option \<Rightarrow> 'a usage_totals_scheme \<Rightarrow> 'a usage_totals_scheme"
where
  "add_succeeded usage totals =
     (let counted = totals\<lparr>ut_requests := ut_requests totals + 1\<rparr> in
      case usage of None \<Rightarrow> counted | Some u \<Rightarrow> addUsage counted u)"

definition count_call ::
  "bool \<Rightarrow> request_usage option \<Rightarrow> 'a usage_totals_scheme \<Rightarrow> 'a usage_totals_scheme"
where
  "count_call failed usage totals = (if failed then add_failed totals else add_succeeded usage totals)"

definition displayRequestStatus :: "request_status \<Rightarrow> int option \<Rightarrow> request_status" where
  "displayRequestStatus status httpStatus =
     (if status = Succeeded \<and> (case httpStatus of None \<Rightarrow> False | Some c \<Rightarrow> c \<ge> 400)
      then StatusFailed else status)"

definition rootCallStatus :: "request_record \<Rightarrow> request_status option" where
  "rootCallStatus record =
     (if rq_parent_request_id record \<noteq> None then None
      else if isModelDiscoveryProtocol (rq_input_protocol record) then None
      else Some (displayRequestStatus (rq_status record) (rq_http_status record)))"

definition usageRecordStatus :: "request_record \<Rightarrow> request_status option" where
  "usageRecordStatus record =
     (case rootCallStatus record of
        None \<Rightarrow> None
      | Some status \<Rightarrow>
          if status \<noteq> StatusFailed \<and> status \<noteq> Succeeded then None else Some status)"

definition normalizeGroupId :: "jstr option \<Rightarrow> jstr option" where
  "normalizeGroupId ident =
     (let trimmed = trim (case ident of None \<Rightarrow> [] | Some s \<Rightarrow> s) in
      if trimmed = [] then None else Some trimmed)"

text \<open>\<open>recovery?.upstream_model || model_redirect?.to || requested_model\<close>\<close>

definition sent_model :: "request_record \<Rightarrow> jstr option" where
  "sent_model record =
     (case Option.bind (rq_recovery record) rv_upstream_model of
        Some (c # m) \<Rightarrow> Some (c # m)
      | _ \<Rightarrow>
          (case map_option rd_to (rq_model_redirect record) of
             Some (c # m) \<Rightarrow> Some (c # m)
           | _ \<Rightarrow> rq_requested_model record))"

type_synonym group_map = "(jstr \<times> usage_group) list"

definition addUsageGroup ::
  "jstr option \<Rightarrow> request_usage option \<Rightarrow> bool \<Rightarrow> bool \<Rightarrow> group_map \<Rightarrow> group_map"
where
  "addUsageGroup ident usage failed allowNull groups =
     (let normalized = normalizeGroupId ident in
      if \<not> allowNull \<and> normalized = None then groups
      else upsert (case normalized of None \<Rightarrow> [] | Some s \<Rightarrow> s) (empty_group normalized)
        (count_call failed usage) groups)"

definition by_usage :: "(jstr \<Rightarrow> jstr \<Rightarrow> int) \<Rightarrow> usage_group \<Rightarrow> usage_group \<Rightarrow> int" where
  "by_usage collate left right =
     (if ut_total_tokens right \<noteq> ut_total_tokens left
      then ut_total_tokens right - ut_total_tokens left
      else if ut_requests right \<noteq> ut_requests left then ut_requests right - ut_requests left
      else collate (case ug_id left of None \<Rightarrow> [] | Some s \<Rightarrow> s) (case ug_id right of None \<Rightarrow> [] | Some s \<Rightarrow> s))"

definition sortUsageGroups :: "(jstr \<Rightarrow> jstr \<Rightarrow> int) \<Rightarrow> usage_group list \<Rightarrow> usage_group list" where
  "sortUsageGroups collate groups = sort_by (by_usage collate) groups"

section \<open>Folding records\<close>

record usage_aggregate =
  ag_totals :: usage_totals
  ag_status_counts :: usage_status_counts
  ag_by_service :: "usage_group list"
  ag_by_model :: "usage_group list"
  ag_by_token :: "usage_group list"
  ag_by_day :: "usage_day_bucket list"
  ag_scanned_records :: nat

text \<open>The maps of the loop while it runs.\<close>

record usage_fold =
  uf_totals :: usage_totals
  uf_counts :: usage_status_counts
  uf_service :: group_map
  uf_model :: group_map
  uf_token :: group_map
  uf_day :: "(jstr \<times> usage_day_bucket) list"
  uf_scanned :: nat

definition start_fold :: usage_fold where
  "start_fold =
     \<lparr>uf_totals = emptyUsageTotals, uf_counts = emptyUsageStatusCounts, uf_service = [],
      uf_model = [], uf_token = [], uf_day = [], uf_scanned = 0\<rparr>"

definition fold_record :: "date_parser \<Rightarrow> host_calendar \<Rightarrow> usage_fold \<Rightarrow> request_record \<Rightarrow> usage_fold" where
  "fold_record date host st record =
     (case rootCallStatus record of
        None \<Rightarrow> st
      | Some status \<Rightarrow>
          (let counted = st\<lparr>uf_counts := (uf_counts st)(status := uf_counts st status + 1)\<rparr> in
           if status \<noteq> StatusFailed \<and> status \<noteq> Succeeded then counted
           else
             (let failed = (status = StatusFailed); usage = rq_usage record in
              counted\<lparr>
                uf_scanned := uf_scanned counted + 1,
                uf_service := addUsageGroup (rq_service_id record) usage failed True (uf_service counted),
                uf_model := addUsageGroup (sent_model record) usage failed True (uf_model counted),
                uf_token := addUsageGroup (rq_local_access_token_id record) usage failed False (uf_token counted),
                uf_day := (case date (rq_started_at record) of
                    None \<Rightarrow> uf_day counted
                  | Some t \<Rightarrow> upsert (localDayKey host t) (empty_day (localDayKey host t))
                      (count_call failed usage) (uf_day counted)),
                uf_totals := count_call failed usage (uf_totals counted)\<rparr>)))"

definition aggregateUsageRecords ::
  "date_parser \<Rightarrow> host_calendar \<Rightarrow> (jstr \<Rightarrow> jstr \<Rightarrow> int) \<Rightarrow> request_record list \<Rightarrow> usage_aggregate"
where
  "aggregateUsageRecords date host collate records =
     (let st = foldl (fold_record date host) start_fold records in
      \<lparr>ag_totals = uf_totals st, ag_status_counts = uf_counts st,
       ag_by_service = sortUsageGroups collate (map snd (uf_service st)),
       ag_by_model = sortUsageGroups collate (map snd (uf_model st)),
       ag_by_token = sortUsageGroups collate (map snd (uf_token st)),
       ag_by_day = sort_by (\<lambda>left right. collate (ud_date left) (ud_date right)) (map snd (uf_day st)),
       ag_scanned_records = uf_scanned st\<rparr>)"

text \<open>A comparison with \<open>NaN\<close> is false, so a window whose end does not parse keeps every time.\<close>

definition outside_window :: "date_parser \<Rightarrow> usage_window \<Rightarrow> int \<Rightarrow> bool" where
  "outside_window date window moment \<longleftrightarrow>
     (case date (uw_from window) of None \<Rightarrow> False | Some from' \<Rightarrow> moment < from')
     \<or> (case date (uw_to window) of None \<Rightarrow> False | Some to' \<Rightarrow> moment \<ge> to')"

definition by_hour_then_usage ::
  "(jstr \<Rightarrow> jstr \<Rightarrow> int) \<Rightarrow> usage_hour_model_bucket \<Rightarrow> usage_hour_model_bucket \<Rightarrow> int"
where
  "by_hour_then_usage collate left right =
     (if collate (hm_date left) (hm_date right) \<noteq> 0 then collate (hm_date left) (hm_date right)
      else if hm_hour left \<noteq> hm_hour right then int (hm_hour left) - int (hm_hour right)
      else if hm_total_tokens right \<noteq> hm_total_tokens left
        then hm_total_tokens right - hm_total_tokens left
      else if hm_requests right \<noteq> hm_requests left then hm_requests right - hm_requests left
      else collate (case hm_model left of None \<Rightarrow> [] | Some s \<Rightarrow> s)
        (case hm_model right of None \<Rightarrow> [] | Some s \<Rightarrow> s))"

definition hourModelBuckets ::
  "date_parser \<Rightarrow> host_calendar \<Rightarrow> (jstr \<Rightarrow> jstr \<Rightarrow> int) \<Rightarrow> request_record list \<Rightarrow> usage_window
     \<Rightarrow> usage_hour_model_bucket list"
where
  "hourModelBuckets date host collate records window =
     (if (case (date (uw_from window), date (uw_to window)) of
            (Some from', Some to') \<Rightarrow> to' - from' > HOUR_MODEL_MAX_SPAN_MS | _ \<Rightarrow> False)
      then []
      else sort_by (by_hour_then_usage collate) (map snd
        (foldl (\<lambda>buckets record.
           if usageRecordStatus record \<noteq> Some Succeeded then buckets
           else case date (rq_started_at record) of
             None \<Rightarrow> buckets
           | Some moment \<Rightarrow>
               if outside_window date window moment then buckets
               else
                 (let model = normalizeGroupId (sent_model record);
                      zone = zone_of window;
                      day = zonedDayKey host moment zone;
                      hour = zt_hour (hc_zoned host zone moment);
                      key = hour_key day hour @ [0] @ (case model of None \<Rightarrow> [] | Some m \<Rightarrow> m) in
                  upsert key
                    \<lparr>hm_date = day, hm_hour = hour, hm_model = model, hm_requests = 0, hm_total_tokens = 0\<rparr>
                    (\<lambda>b. b\<lparr>hm_requests := hm_requests b + 1,
                       hm_total_tokens := hm_total_tokens b
                         + (case rq_usage record of None \<Rightarrow> 0 | Some u \<Rightarrow> us_total_tokens u)\<rparr>)
                    buckets))
           [] records)))"

definition client_id :: "request_record \<Rightarrow> jstr option" where
  "client_id record =
     (case rq_client_type record of
        None \<Rightarrow> None
      | Some c \<Rightarrow> if c = ClientUnknown then None else Some (js (client_type_name c)))"

definition clientGroups :: "(jstr \<Rightarrow> jstr \<Rightarrow> int) \<Rightarrow> request_record list \<Rightarrow> usage_group list" where
  "clientGroups collate records =
     sortUsageGroups collate (map snd
       (foldl (\<lambda>groups record. case usageRecordStatus record of
            None \<Rightarrow> groups
          | Some status \<Rightarrow>
              addUsageGroup (client_id record) (rq_usage record) (status = StatusFailed) True groups)
          [] records))"

definition hour_bucket_key :: "usage_hour_bucket \<Rightarrow> jstr" where
  "hour_bucket_key b = hour_key (uh_date b) (uh_hour b)"

text \<open>
  The hours are updated in place; a key finds the last hour that has it, and \<open>hours[-1]\<close> is
  no hour.
\<close>

definition pad_hour ::
  "date_parser \<Rightarrow> host_calendar \<Rightarrow> usage_window \<Rightarrow> usage_hour_bucket list \<Rightarrow> request_record
     \<Rightarrow> usage_hour_bucket list"
where
  "pad_hour date host window hours record =
     (case (usageRecordStatus record, date (rq_started_at record)) of
        (Some status, Some moment) \<Rightarrow>
          if outside_window date window moment then hours
          else (case last_by (\<lambda>(i, b). hour_bucket_key b) (enumerate 0 hours)
                  (hourBucketKey host moment (zone_of window)) of
                  None \<Rightarrow> hours
                | Some (i, b) \<Rightarrow>
                    hours[i := count_call (status = StatusFailed) (rq_usage record) b])
      | _ \<Rightarrow> hours)"

definition padHourBuckets ::
  "date_parser \<Rightarrow> host_calendar \<Rightarrow> request_record list \<Rightarrow> usage_window
     \<Rightarrow> js_error + usage_hour_bucket list"
where
  "padHourBuckets date host records window =
     bindE (emptyHourSeries date host window) (\<lambda>hours.
     if length hours = 0 then Inr hours
     else Inr (foldl (pad_hour date host window) hours records))"

record usage_summary =
  sm_window :: usage_window
  sm_totals :: usage_totals
  sm_status_counts :: usage_status_counts
  sm_by_day :: "usage_day_bucket list"
  sm_by_hour :: "usage_hour_bucket list"
  sm_by_hour_model :: "usage_hour_model_bucket list"
  sm_by_service :: "usage_group list"
  sm_by_model :: "usage_group list"
  sm_by_token :: "usage_group list"
  sm_by_client :: "usage_group list"
  sm_scanned_records :: nat
  sm_capped :: bool

definition emptyUsageSummary ::
  "date_parser \<Rightarrow> host_calendar \<Rightarrow> usage_window \<Rightarrow> bool \<Rightarrow> js_error + usage_summary"
where
  "emptyUsageSummary date host window capped =
     bindE (emptyHourSeries date host window) (\<lambda>hours.
     Inr \<lparr>sm_window = window, sm_totals = emptyUsageTotals,
       sm_status_counts = emptyUsageStatusCounts,
       sm_by_day = map empty_day (usageWindowDayKeys date host window), sm_by_hour = hours,
       sm_by_hour_model = [], sm_by_service = [], sm_by_model = [], sm_by_token = [],
       sm_by_client = [], sm_scanned_records = 0, sm_capped = capped\<rparr>)"

definition aggregateUsage ::
  "date_parser \<Rightarrow> host_calendar \<Rightarrow> (jstr \<Rightarrow> jstr \<Rightarrow> int) \<Rightarrow> request_record list \<Rightarrow> usage_window \<Rightarrow> bool
     \<Rightarrow> js_error + usage_summary"
where
  "aggregateUsage date host collate records window capped =
     (let aggregate = aggregateUsageRecords date host collate records in
      bindE (padHourBuckets date host records window) (\<lambda>hours.
      Inr \<lparr>sm_window = window, sm_totals = ag_totals aggregate,
        sm_status_counts = ag_status_counts aggregate,
        sm_by_day = map (\<lambda>day. case last_by ud_date (ag_by_day aggregate) day of
            None \<Rightarrow> empty_day day | Some b \<Rightarrow> b) (usageWindowDayKeys date host window),
        sm_by_hour = hours,
        sm_by_hour_model = hourModelBuckets date host collate records window,
        sm_by_service = ag_by_service aggregate, sm_by_model = ag_by_model aggregate,
        sm_by_token = ag_by_token aggregate, sm_by_client = clientGroups collate records,
        sm_scanned_records = ag_scanned_records aggregate, sm_capped = capped\<rparr>))"

section \<open>Reading totals\<close>

definition cacheHitRate :: "usage_totals \<Rightarrow> rat option" where
  "cacheHitRate totals =
     (if ut_input_tokens totals \<le> 0 then None
      else Some (of_int (ut_cache_read_tokens totals) / of_int (ut_input_tokens totals)))"

record day_token_stack =
  ds_input :: int
  ds_output :: int
  ds_cache_read :: int
  ds_cache_write :: int

definition dayTokenStack :: "'a usage_totals_scheme \<Rightarrow> day_token_stack" where
  "dayTokenStack totals =
     (let total' = max 0 (ut_total_tokens totals);
          read = min (max 0 (ut_cache_read_tokens totals)) total';
          write = min (max 0 (ut_cache_write_tokens totals)) (max 0 (total' - read));
          leftover = max 0 (total' - read - write);
          output = min (max 0 (ut_output_tokens totals)) leftover in
      \<lparr>ds_input = leftover - output, ds_output = output, ds_cache_read = read, ds_cache_write = write\<rparr>)"

section \<open>The catalog's services\<close>

record catalog_service_ref =
  cs_id :: jstr
  cs_name :: jstr
  cs_enabled :: bool

record merged_service_usage = usage_group +
  mu_name :: jstr
  mu_enabled :: "bool option"
  mu_in_catalog :: bool

definition by_usage_then_name ::
  "(jstr \<Rightarrow> jstr \<Rightarrow> int) \<Rightarrow> merged_service_usage \<Rightarrow> merged_service_usage \<Rightarrow> int"
where
  "by_usage_then_name collate left right =
     (if ut_total_tokens right \<noteq> ut_total_tokens left
      then ut_total_tokens right - ut_total_tokens left
      else if ut_requests right \<noteq> ut_requests left then ut_requests right - ut_requests left
      else collate (mu_name left) (mu_name right))"

text \<open>A later group with the ID of an earlier one takes its place.\<close>

definition usage_by_id :: "usage_group list \<Rightarrow> group_map" where
  "usage_by_id byService =
     foldl (\<lambda>m g. case ug_id g of None \<Rightarrow> m | Some i \<Rightarrow> upsert i g (\<lambda>_. g) m) [] byService"

definition mergeCatalogServiceUsage ::
  "jstr \<Rightarrow> jstr \<Rightarrow> (jstr \<Rightarrow> jstr \<Rightarrow> int) \<Rightarrow> catalog_service_ref list \<Rightarrow> usage_group list
     \<Rightarrow> merged_service_usage list"
where
  "mergeCatalogServiceUsage unknownLabel unattributedLabel collate services byService =
     (let usageById = usage_by_id byService;
          unattributed = filter (\<lambda>g. ug_id g = None) byService;
          rows = map (\<lambda>service.
              let usage = (case map_of usageById (cs_id service) of
                    None \<Rightarrow> empty_group (Some (cs_id service)) | Some g \<Rightarrow> g) in
              usage_group.extend (usage\<lparr>ug_id := Some (cs_id service)\<rparr>)
                (merged_service_usage.fields (cs_name service) (Some (cs_enabled service)) True))
            services;
          unknown = map (\<lambda>(i, usage).
              usage_group.extend usage (merged_service_usage.fields unknownLabel None False))
            (filter (\<lambda>(i, usage). i \<notin> cs_id ` set services) usageById);
          loose = map (\<lambda>usage.
              usage_group.extend usage (merged_service_usage.fields unattributedLabel None False))
            unattributed in
      sort_by (by_usage_then_name collate) (rows @ unknown @ loose))"

section \<open>Facts\<close>

text \<open>The numbers of a total, each read from any record that extends one.\<close>

definition usage_fields :: "(usage_totals \<Rightarrow> int) list" where
  "usage_fields =
     [ut_requests, ut_failed_requests, ut_input_tokens, ut_output_tokens, ut_total_tokens,
      ut_cache_read_tokens, ut_cache_write_tokens]"

definition gain :: "(usage_totals \<Rightarrow> int) \<Rightarrow> bool \<Rightarrow> request_usage option \<Rightarrow> int" where
  "gain f failed usage = f (count_call failed usage emptyUsageTotals)"

lemma field_gain:
  "f \<in> set usage_fields \<Longrightarrow>
    f (usage_totals.truncate (count_call failed usage t)) = f (usage_totals.truncate t) + gain f failed usage"
  by (auto simp: usage_fields_def gain_def count_call_def add_failed_def add_succeeded_def addUsage_def
      emptyUsageTotals_def usage_totals.defs Let_def split: option.splits)

lemma field_empty:
  "f \<in> set usage_fields \<Longrightarrow> f emptyUsageTotals = 0"
  by (auto simp: usage_fields_def emptyUsageTotals_def)

lemma truncate_empty [simp]:
  "usage_totals.truncate (empty_group i) = emptyUsageTotals"
  "usage_totals.truncate (empty_day d) = emptyUsageTotals"
  "usage_totals.truncate emptyUsageTotals = emptyUsageTotals"
  by (simp_all add: empty_group_def empty_day_def emptyUsageTotals_def usage_totals.defs
      usage_group.defs usage_day_bucket.defs)

lemma truncate_totals [simp]: "usage_totals.truncate (t :: usage_totals) = t"
  by (simp add: usage_totals.defs)

lemma ug_id_count [simp]: "ug_id (count_call failed usage g) = ug_id g"
  by (simp add: count_call_def add_failed_def add_succeeded_def addUsage_def Let_def split: option.split)

lemma ug_id_empty [simp]: "ug_id (empty_group i) = i"
  by (simp add: empty_group_def usage_totals.defs usage_group.defs)

lemma sum_list_sort_by:
  fixes h :: "'v \<Rightarrow> int"
  shows "sum_list (map h (sort_by cmp xs)) = sum_list (map h xs)"
  by (metis mset_map mset_sort_by sum_mset_sum_list)

text \<open>
  A map of groups is well formed when its keys are distinct and each group goes by its key,
  the group of calls without an ID by the empty one.
\<close>

definition group_map_ok :: "group_map \<Rightarrow> bool" where
  "group_map_ok m \<longleftrightarrow> distinct (map fst m)
     \<and> list_all (\<lambda>(k, g). ug_id g = (if k = [] then None else Some k)) m"

lemma normalizeGroupId_Some: "normalizeGroupId i = Some s \<Longrightarrow> s \<noteq> []"
  by (auto simp: normalizeGroupId_def Let_def split: if_splits)

lemma group_map_ok_upsert:
  assumes "group_map_ok m" and "ident = (if k = [] then None else Some k)"
  shows "group_map_ok (upsert k (empty_group ident) (count_call failed usage) m)"
  unfolding group_map_ok_def
proof
  show "distinct (map fst (upsert k (empty_group ident) (count_call failed usage) m))"
    using assms(1) by (simp add: group_map_ok_def upsert_distinct)
  show "list_all (\<lambda>(k, g). ug_id g = (if k = [] then None else Some k))
      (upsert k (empty_group ident) (count_call failed usage) m)"
    by (rule upsert_all) (use assms in \<open>simp_all add: group_map_ok_def\<close>)
qed

lemma addUsageGroup_ok: "group_map_ok m \<Longrightarrow> group_map_ok (addUsageGroup i usage failed allowNull m)"
  using normalizeGroupId_Some [of i]
  by (cases "normalizeGroupId i") (simp_all add: addUsageGroup_def group_map_ok_upsert)

lemma group_map_ids: "group_map_ok m \<Longrightarrow> distinct (map ug_id (map snd m))"
proof -
  assume m: "group_map_ok m"
  then have "map ug_id (map snd m) = map (\<lambda>k. if k = [] then None else Some k) (map fst m)"
    by (auto simp: group_map_ok_def list_all_iff)
  moreover have "inj (\<lambda>k :: jstr. if k = [] then None else Some k)"
    by (auto simp: inj_on_def split: if_splits)
  moreover have "distinct (map fst m)" using m by (simp add: group_map_ok_def)
  ultimately show ?thesis by (simp only: distinct_map inj_on_subset [OF _ subset_UNIV])
qed

abbreviation group_sum :: "(usage_totals \<Rightarrow> int) \<Rightarrow> group_map \<Rightarrow> int" where
  "group_sum f m \<equiv> sum_list (map ((\<lambda>g. f (usage_totals.truncate g)) \<circ> snd) m)"

lemma addUsageGroup_sum:
  assumes "f \<in> set usage_fields"
  shows "group_sum f (addUsageGroup i usage failed True m) = group_sum f m + gain f failed usage"
proof -
  have "group_sum f (upsert k (empty_group j) (count_call failed usage) m) = group_sum f m + gain f failed usage"
    for k j
  proof (rule upsert_sum)
    show "f (usage_totals.truncate (count_call failed usage v))
        = f (usage_totals.truncate v) + gain f failed usage" for v :: usage_group
      by (rule field_gain [OF assms])
    show "f (usage_totals.truncate (empty_group j)) = 0"
      unfolding truncate_empty by (rule field_empty [OF assms])
  qed
  then show ?thesis unfolding addUsageGroup_def by (cases "normalizeGroupId i") simp_all
qed

text \<open>What one record adds to each number.\<close>

definition record_gain :: "(usage_totals \<Rightarrow> int) \<Rightarrow> request_record \<Rightarrow> int" where
  "record_gain f record =
     (case usageRecordStatus record of
        None \<Rightarrow> 0 | Some status \<Rightarrow> gain f (status = StatusFailed) (rq_usage record))"

definition fold_balanced :: "request_record list \<Rightarrow> usage_fold \<Rightarrow> bool" where
  "fold_balanced seen st \<longleftrightarrow>
     list_all (\<lambda>f. f (uf_totals st) = sum_list (map (record_gain f) seen)
        \<and> group_sum f (uf_service st) = f (uf_totals st)
        \<and> group_sum f (uf_model st) = f (uf_totals st)) usage_fields
     \<and> group_map_ok (uf_service st) \<and> group_map_ok (uf_model st) \<and> group_map_ok (uf_token st)
     \<and> ut_requests (uf_totals st) = int (uf_counts st Succeeded)
     \<and> ut_failed_requests (uf_totals st) = int (uf_counts st StatusFailed)
     \<and> uf_scanned st = uf_counts st Succeeded + uf_counts st StatusFailed"

lemma start_balanced: "fold_balanced [] start_fold"
  by (simp add: fold_balanced_def start_fold_def emptyUsageStatusCounts_def group_map_ok_def
      usage_fields_def emptyUsageTotals_def)

lemma count_call_requests:
  "ut_requests (count_call failed usage t) = ut_requests t + (if failed then 0 else 1)"
  "ut_failed_requests (count_call failed usage t) = ut_failed_requests t + (if failed then 1 else 0)"
  by (simp_all add: count_call_def add_failed_def add_succeeded_def addUsage_def Let_def split: option.split)

lemma fold_record_balanced:
  assumes "fold_balanced seen st"
  shows "fold_balanced (seen @ [record]) (fold_record date host st record)"
proof (cases "usageRecordStatus record")
  case None
  then have "record_gain f record = 0" for f by (simp add: record_gain_def)
  with assms None show ?thesis
    by (auto simp: fold_balanced_def fold_record_def usageRecordStatus_def list_all_iff
        split: option.splits if_splits)
next
  case (Some status)
  let ?failed = "status = StatusFailed" and ?usage = "rq_usage record"
  have status: "rootCallStatus record = Some status" "status = StatusFailed \<or> status = Succeeded"
    using Some by (auto simp: usageRecordStatus_def split: option.splits if_splits)
  let ?st = "fold_record date host st record"
  have maps: "uf_totals ?st = count_call ?failed ?usage (uf_totals st)"
      "uf_service ?st = addUsageGroup (rq_service_id record) ?usage ?failed True (uf_service st)"
      "uf_model ?st = addUsageGroup (sent_model record) ?usage ?failed True (uf_model st)"
      "uf_token ?st = addUsageGroup (rq_local_access_token_id record) ?usage ?failed False (uf_token st)"
      "uf_scanned ?st = uf_scanned st + 1"
      "uf_counts ?st = (uf_counts st)(status := uf_counts st status + 1)"
    using status by (auto simp: fold_record_def Let_def)
  have gain: "record_gain f record = gain f ?failed ?usage" for f
    using Some by (simp add: record_gain_def)
  have "list_all (\<lambda>f. f (uf_totals ?st) = sum_list (map (record_gain f) (seen @ [record]))
        \<and> group_sum f (uf_service ?st) = f (uf_totals ?st)
        \<and> group_sum f (uf_model ?st) = f (uf_totals ?st)) usage_fields"
    unfolding list_all_iff
  proof
    fix f assume f: "f \<in> set usage_fields"
    from assms f have old: "f (uf_totals st) = sum_list (map (record_gain f) seen)"
        "group_sum f (uf_service st) = f (uf_totals st)" "group_sum f (uf_model st) = f (uf_totals st)"
      by (simp_all add: fold_balanced_def list_all_iff)
    show "f (uf_totals ?st) = sum_list (map (record_gain f) (seen @ [record]))
        \<and> group_sum f (uf_service ?st) = f (uf_totals ?st)
        \<and> group_sum f (uf_model ?st) = f (uf_totals ?st)"
      unfolding maps addUsageGroup_sum [OF f] old(2,3)
      using field_gain [OF f, of ?failed ?usage "uf_totals st"] old(1) by (simp add: gain)
  qed
  then show ?thesis
    using assms status(2)
    by (auto simp: fold_balanced_def maps addUsageGroup_ok count_call_requests)
qed

lemma fold_balanced_all:
  "fold_balanced seen st \<Longrightarrow> fold_balanced (seen @ records) (foldl (fold_record date host) st records)"
proof (induction records arbitrary: seen st)
  case (Cons r records)
  then show ?case using fold_record_balanced [OF Cons.prems] Cons.IH by fastforce
qed simp

text \<open>Updating the one hour a record falls in.\<close>

definition counted_in ::
  "date_parser \<Rightarrow> host_calendar \<Rightarrow> usage_window \<Rightarrow> request_status \<Rightarrow> usage_hour_bucket \<Rightarrow> request_record \<Rightarrow> bool"
where
  "counted_in date host window status b record \<longleftrightarrow>
     usageRecordStatus record = Some status
     \<and> (case date (rq_started_at record) of
          None \<Rightarrow> False
        | Some moment \<Rightarrow> \<not> outside_window date window moment
            \<and> hourBucketKey host moment (zone_of window) = hour_bucket_key b)"

lemma hour_key_count [simp]: "hour_bucket_key (count_call failed usage b) = hour_bucket_key b"
  by (simp add: hour_bucket_key_def count_call_def add_failed_def add_succeeded_def addUsage_def Let_def
      split: option.split)

lemma last_hour:
  assumes "distinct (map hour_bucket_key hours)" and "j < length hours"
  shows "last_by (\<lambda>(i, b). hour_bucket_key b) (enumerate 0 hours) (hour_bucket_key (hours ! j)) = Some (j, hours ! j)"
proof -
  have keys: "map (\<lambda>(i, b). hour_bucket_key b) (enumerate 0 hours) = map hour_bucket_key hours"
    by (rule nth_equalityI) (auto simp: nth_enumerate_eq)
  have "(j, hours ! j) \<in> set (enumerate 0 hours)"
    using assms(2) by (simp add: in_set_enumerate_eq)
  then show ?thesis
    using last_by_distinct [of "\<lambda>(i, b). hour_bucket_key b" "enumerate 0 hours" "(j, hours ! j)"] assms(1)
    by (simp add: keys)
qed

lemma last_hour_at:
  assumes "last_by (\<lambda>(i, b). hour_bucket_key b) (enumerate 0 hours) k = Some (i, b)"
  shows "i < length hours \<and> b = hours ! i \<and> hour_bucket_key b = k"
  using last_by_Some [OF assms] by (auto simp: in_set_enumerate_eq)

lemma pad_hour_keys: "map hour_bucket_key (pad_hour date host window hours r) = map hour_bucket_key hours"
  by (auto simp: pad_hour_def map_update dest!: last_hour_at intro!: list_update_same_conv [THEN iffD2]
      split: option.splits)

lemma pad_hour_at:
  assumes "distinct (map hour_bucket_key hours)" and "j < length hours"
  shows "ut_requests (pad_hour date host window hours r ! j)
      = ut_requests (hours ! j) + (if counted_in date host window Succeeded (hours ! j) r then 1 else 0)
    \<and> ut_failed_requests (pad_hour date host window hours r ! j)
      = ut_failed_requests (hours ! j) + (if counted_in date host window StatusFailed (hours ! j) r then 1 else 0)"
proof (cases "\<exists>status moment. usageRecordStatus r = Some status \<and> date (rq_started_at r) = Some moment
    \<and> \<not> outside_window date window moment")
  case False
  then show ?thesis by (auto simp: pad_hour_def counted_in_def split: option.splits)
next
  case True
  then obtain status moment where r: "usageRecordStatus r = Some status" "date (rq_started_at r) = Some moment"
    "\<not> outside_window date window moment" by blast
  have status: "status = StatusFailed \<or> status = Succeeded"
    using r(1) by (auto simp: usageRecordStatus_def split: option.splits if_splits)
  let ?k = "hourBucketKey host moment (zone_of window)"
  let ?found = "last_by (\<lambda>(i, b). hour_bucket_key b) (enumerate 0 hours) ?k"
  show ?thesis
  proof (cases "hour_bucket_key (hours ! j) = ?k")
    case True
    then have "?found = Some (j, hours ! j)" using last_hour [OF assms] by simp
    with r status True assms(2) show ?thesis
      by (auto simp: pad_hour_def counted_in_def count_call_requests)
  next
    case False
    then have "pad_hour date host window hours r ! j = hours ! j"
      using r by (auto simp: pad_hour_def nth_list_update dest!: last_hour_at split: option.splits)
    with r False show ?thesis by (simp add: counted_in_def)
  qed
qed

lemma counted_in_cong:
  "hour_bucket_key b = hour_bucket_key b' \<Longrightarrow>
    counted_in date host window st b = counted_in date host window st b'"
  by (auto simp: counted_in_def fun_eq_iff split: option.splits)

lemma pad_hours_all:
  assumes "distinct (map hour_bucket_key hours)" and "j < length hours"
  shows "ut_requests (foldl (pad_hour date host window) hours rs ! j)
      = ut_requests (hours ! j) + int (length (filter (counted_in date host window Succeeded (hours ! j)) rs))
    \<and> ut_failed_requests (foldl (pad_hour date host window) hours rs ! j)
      = ut_failed_requests (hours ! j) + int (length (filter (counted_in date host window StatusFailed (hours ! j)) rs))
    \<and> map hour_bucket_key (foldl (pad_hour date host window) hours rs) = map hour_bucket_key hours"
  using assms
proof (induction rs arbitrary: hours)
  case (Cons r rs)
  let ?h = "pad_hour date host window hours r"
  have keys: "map hour_bucket_key ?h = map hour_bucket_key hours" by (rule pad_hour_keys)
  then have len: "length ?h = length hours" by (metis length_map)
  have same: "counted_in date host window st (?h ! j) = counted_in date host window st (hours ! j)" for st
    using arg_cong [OF keys, of "\<lambda>ks. ks ! j"] Cons.prems(2) len by (intro counted_in_cong) simp
  have "distinct (map hour_bucket_key ?h)" "j < length ?h" using Cons.prems keys len by simp_all
  from Cons.IH [OF this] pad_hour_at [OF Cons.prems, of date host window r] keys show ?case
    by (simp add: same)
qed simp

lemma pad_no_hours: "foldl (pad_hour date host window) [] rs = []"
proof (induction rs)
  case (Cons r rs)
  have "pad_hour date host window [] r = []"
    by (auto simp: pad_hour_def last_by_def split: option.splits)
  with Cons show ?case by simp
qed simp

lemma slot_loop_distinct:
  "distinct (map (\<lambda>(d, h). hour_key d h) slots) \<Longrightarrow>
    distinct (map (\<lambda>(d, h). hour_key d h) (slot_loop host zone n moment end' slots))"
  by (induction host zone n moment end' slots rule: slot_loop.induct) (auto simp: Let_def)

lemma slot_loop_length: "length (slot_loop host zone n moment end' slots) \<le> length slots + n"
proof (induction host zone n moment end' slots rule: slot_loop.induct)
  case (2 host zone n moment end' slots)
  show ?case
  proof (cases "moment < end'")
    case True
    let ?slots = "if hour_key (zonedDayKey host moment zone) (zt_hour (hc_zoned host zone moment))
        \<in> set (map (\<lambda>(d, h). hour_key d h) slots) then slots
      else slots @ [(zonedDayKey host moment zone, zt_hour (hc_zoned host zone moment))]"
    have "length (slot_loop host zone n (moment + 3600000) end' ?slots) \<le> length ?slots + n"
      using 2 True by simp
    moreover have "length ?slots \<le> Suc (length slots)" by simp
    ultimately show ?thesis using True by (simp add: Let_def)
  qed simp
qed simp

lemma hour_key_empty: "hour_bucket_key (empty_hour slot) = hour_key (fst slot) (snd slot)"
  by (simp add: hour_bucket_key_def empty_hour_def usage_totals.defs usage_hour_bucket.defs)

lemma empty_hour_counts: "ut_requests (empty_hour slot) = 0" "ut_failed_requests (empty_hour slot) = 0"
  by (simp_all add: empty_hour_def usage_totals.defs emptyUsageTotals_def)

section \<open>Properties\<close>

text \<open>
  C8: folding records loses and repeats nothing. Each number of the totals is the sum of what
  the counted calls add, and of the groups by service and by model; requests and failures
  equal the counts of their outcomes, and no ID has two groups.
\<close>

theorem usage_conserved:
  "let a = aggregateUsageRecords date host collate records in
   list_all (\<lambda>f. f (ag_totals a) = sum_list (map (record_gain f) records)
      \<and> sum_list (map (\<lambda>g. f (usage_totals.truncate g)) (ag_by_service a)) = f (ag_totals a)
      \<and> sum_list (map (\<lambda>g. f (usage_totals.truncate g)) (ag_by_model a)) = f (ag_totals a)) usage_fields
   \<and> ut_requests (ag_totals a) = int (ag_status_counts a Succeeded)
   \<and> ut_failed_requests (ag_totals a) = int (ag_status_counts a StatusFailed)
   \<and> ag_scanned_records a = ag_status_counts a Succeeded + ag_status_counts a StatusFailed
   \<and> distinct (map ug_id (ag_by_service a)) \<and> distinct (map ug_id (ag_by_model a))
   \<and> distinct (map ug_id (ag_by_token a))"
proof -
  have "fold_balanced records (foldl (fold_record date host) start_fold records)"
    using fold_balanced_all [OF start_balanced] by simp
  then show ?thesis
    by (simp add: aggregateUsageRecords_def Let_def fold_balanced_def sortUsageGroups_def
        sum_list_sort_by group_map_ids [unfolded map_map comp_def] list_all_iff comp_def)
qed

text \<open>
  The hourly series has at most 26 hours, each once, and each counts exactly the calls of
  the window that started in it, the failed ones apart.
\<close>

theorem padded_hours_count:
  assumes "padHourBuckets date host records window = Inr hours"
  shows "distinct (map hour_bucket_key hours) \<and> length hours \<le> 26
    \<and> list_all (\<lambda>b.
        ut_requests b = int (length (filter (counted_in date host window Succeeded b) records))
        \<and> ut_failed_requests b = int (length (filter (counted_in date host window StatusFailed b) records)))
      hours"
proof -
  obtain slots where slots: "usageWindowHourSlots date host window = Inr slots"
    and hours: "hours = foldl (pad_hour date host window) (map empty_hour slots) records"
    using assms by (cases "usageWindowHourSlots date host window")
      (auto simp: padHourBuckets_def emptyHourSeries_def res pad_no_hours split: if_splits)
  have "slots = [] \<or> (\<exists>moment end'. slots = slot_loop host (zone_of window) 26 moment end' [])"
    using slots by (auto simp: usageWindowHourSlots_def split: if_splits option.splits)
  then have "distinct (map (\<lambda>(d, h). hour_key d h) slots)" and len26: "length slots \<le> 26"
    using slot_loop_distinct [of "[]"] slot_loop_length [of host "zone_of window" 26 _ _ "[]"] by auto
  then have d: "distinct (map hour_bucket_key (map empty_hour slots))"
    by (simp add: hour_key_empty comp_def case_prod_unfold)
  note all = pad_hours_all [OF d, of _ date host window records, folded hours]
  show ?thesis
  proof (cases "slots = []")
    case True
    with hours show ?thesis by (simp add: pad_no_hours)
  next
    case False
    then have keys: "map hour_bucket_key hours = map hour_bucket_key (map empty_hour slots)"
      using all [of 0] by simp
    then have len: "length hours = length slots" by (metis length_map)
    have "counted_in date host window st (map empty_hour slots ! j) = counted_in date host window st (hours ! j)"
      if "j < length hours" for j st
      using arg_cong [OF keys, of "\<lambda>ks. ks ! j"] that len by (intro counted_in_cong) simp
    then show ?thesis
      using d keys len all len26
      by (simp add: list_all_length empty_hour_counts)
  qed
qed

text \<open>
  The stack of a day is a partition of its tokens: no segment is negative, and they add up
  to the day's total, whatever the total, its output and its cache counts are.
\<close>

theorem day_stack_partition:
  "let s = dayTokenStack totals in
   0 \<le> ds_input s \<and> 0 \<le> ds_output s \<and> 0 \<le> ds_cache_read s \<and> 0 \<le> ds_cache_write s
   \<and> ds_input s + ds_output s + ds_cache_read s + ds_cache_write s = max 0 (ut_total_tokens totals)"
  by (simp add: dayTokenStack_def Let_def)

lemma day_loop_complete:
  assumes later: "\<And>d. d < hc_next_day host d" and "nat (end' - day) \<le> fuel"
  shows "\<exists>n. day_loop host fuel day end' = map (\<lambda>k. localDayKey host ((hc_next_day host ^^ k) day)) [0..<n]
    \<and> end' \<le> (hc_next_day host ^^ n) day \<and> (\<forall>k < n. (hc_next_day host ^^ k) day < end')"
  using assms(2)
proof (induction fuel arbitrary: day)
  case 0
  then show ?case by (intro exI [of _ 0]) simp
next
  case (Suc fuel)
  show ?case
  proof (cases "day < end'")
    case False
    then show ?thesis by (intro exI [of _ 0]) simp
  next
    case True
    have "nat (end' - hc_next_day host day) \<le> fuel"
      using later [of day] Suc.prems True by linarith
    from Suc.IH [OF this] obtain n where n:
      "day_loop host fuel (hc_next_day host day) end'
        = map (\<lambda>k. localDayKey host ((hc_next_day host ^^ Suc k) day)) [0..<n]"
      "end' \<le> (hc_next_day host ^^ Suc n) day" "\<forall>k < n. (hc_next_day host ^^ Suc k) day < end'"
      unfolding funpow_Suc_right comp_def by blast
    have "day_loop host (Suc fuel) day end'
        = map (\<lambda>k. localDayKey host ((hc_next_day host ^^ k) day)) [0..<Suc n]"
      unfolding upt_conv_Cons [OF zero_less_Suc] map_Suc_upt [symmetric]
      using True n(1) by simp
    then show ?thesis
      using n(2,3) True by (intro exI [of _ "Suc n"]) (simp add: All_less_Suc2)
  qed
qed

text \<open>
  The day series covers its window. On a host whose next day is later, the keys are those
  of the window's days one after the other, from the first midnight up to the first one not
  before the end; the loop's bound never cuts it short.
\<close>

theorem window_days_complete:
  assumes "\<And>d. d < hc_next_day host d"
    and "date (uw_from window) = Some from'" and "date (uw_to window) = Some to'"
  shows "\<exists>n end'. usageWindowDayKeys date host window
      = map (\<lambda>k. localDayKey host ((hc_next_day host ^^ k) (startOfLocalDay host from'))) [0..<n]
    \<and> end' \<in> {startOfLocalDay host to', hc_next_day host (startOfLocalDay host to')}
    \<and> (to' \<le> startOfLocalDay host to' \<longleftrightarrow> end' = startOfLocalDay host to')
    \<and> end' \<le> (hc_next_day host ^^ n) (startOfLocalDay host from')
    \<and> (\<forall>k < n. (hc_next_day host ^^ k) (startOfLocalDay host from') < end')"
proof -
  define end' where "end' = (if to' > startOfLocalDay host to' then hc_next_day host (startOfLocalDay host to')
      else startOfLocalDay host to')"
  have "usageWindowDayKeys date host window
      = day_loop host (nat (end' - startOfLocalDay host from')) (startOfLocalDay host from') end'"
    using assms(2,3) by (simp add: usageWindowDayKeys_def Let_def end'_def)
  moreover have "to' \<le> startOfLocalDay host to' \<longleftrightarrow> end' = startOfLocalDay host to'"
    "end' \<in> {startOfLocalDay host to', hc_next_day host (startOfLocalDay host to')}"
    using assms(1) [of "startOfLocalDay host to'"] by (auto simp: end'_def)
  ultimately show ?thesis
    using day_loop_complete [OF assms(1) order_refl, where day = "startOfLocalDay host from'" and end' = end']
    by metis
qed

definition sample_host :: host_calendar where
  "sample_host =
     \<lparr>hc_zoned = (\<lambda>_ _. \<lparr>zt_year = 2026, zt_month = 1, zt_day = 1, zt_hour = 0, zt_minute = 0\<rparr>),
      hc_midnight = (\<lambda>_ _ _. 0), hc_next_day = (\<lambda>d. d + 86400000), hc_start_of_hour = (\<lambda>_ m. m)\<rparr>"

definition sample_date :: date_parser where
  "sample_date s = Some (if s = [] then 0 else 3600000)"

theorem window_days_complete_witness:
  "usageWindowDayKeys sample_date sample_host
     \<lparr>uw_preset = None, uw_from = [], uw_to = js ''1'', uw_time_zone = []\<rparr> \<noteq> []"
proof
  let ?w = "\<lparr>uw_preset = None, uw_from = [], uw_to = js ''1'', uw_time_zone = []\<rparr>"
  assume empty: "usageWindowDayKeys sample_date sample_host ?w = []"
  have "\<exists>n end'. usageWindowDayKeys sample_date sample_host ?w
      = map (\<lambda>k. localDayKey sample_host ((hc_next_day sample_host ^^ k) 0)) [0..<n]
    \<and> end' \<in> {0, 86400000} \<and> (3600000 \<le> (0::int) \<longleftrightarrow> end' = 0)
    \<and> end' \<le> (hc_next_day sample_host ^^ n) 0 \<and> (\<forall>k < n. (hc_next_day sample_host ^^ k) 0 < end')"
    using window_days_complete [of sample_host sample_date ?w 0 3600000]
    by (simp add: sample_host_def sample_date_def startOfLocalDay_def js_def)
  then show False using empty by auto
qed

theorem padded_hours_count_witness:
  "list_all (\<lambda>b. ut_requests b = 0) [empty_hour (zonedDayKey sample_host 0 None, 0)]"
proof -
  let ?w = "\<lparr>uw_preset = Some Range1d, uw_from = [], uw_to = js ''1'', uw_time_zone = []\<rparr>"
  have "padHourBuckets sample_date sample_host [] ?w = Inr [empty_hour (zonedDayKey sample_host 0 None, 0)]"
    by (simp add: padHourBuckets_def emptyHourSeries_def usageWindowHourSlots_def hourlyUsageWindow_def
        sample_date_def sample_host_def zone_of_def js_def eval_nat_numeral Let_def)
  from padded_hours_count [OF this] show ?thesis by simp
qed

lemma truncate_extend [simp]:
  "usage_totals.truncate (usage_group.extend g extra) = usage_totals.truncate g"
  "usage_totals.truncate (g\<lparr>ug_id := i\<rparr>) = usage_totals.truncate g"
  "ug_id (usage_group.extend g' extra) = ug_id g'"
  by (simp_all add: usage_totals.defs usage_group.defs)

lemma merged_catalog [simp]:
  "mu_in_catalog (usage_group.extend g (merged_service_usage.fields name enabled inCatalog)) = inCatalog"
  by (simp add: usage_group.defs merged_service_usage.defs)

lemma usage_by_id_distinct:
  "distinct (map ug_id gs) \<Longrightarrow>
    usage_by_id gs = map (\<lambda>g. (the (ug_id g), g)) (filter (\<lambda>g. ug_id g \<noteq> None) gs)"
proof (induction gs rule: rev_induct)
  case (snoc g gs)
  then have IH: "usage_by_id gs = map (\<lambda>g. (the (ug_id g), g)) (filter (\<lambda>g. ug_id g \<noteq> None) gs)" by simp
  show ?case
  proof (cases "ug_id g")
    case (Some i)
    then have "i \<notin> fst ` set (usage_by_id gs)"
      using snoc.prems unfolding IH by (force simp: image_iff)
    then show ?thesis using Some IH by (simp add: usage_by_id_def upsert_new)
  qed (use IH in \<open>simp add: usage_by_id_def\<close>)
qed (simp add: usage_by_id_def)

lemma lookup_sum:
  fixes h :: "'v \<Rightarrow> int"
  assumes "distinct (map fst m)" and "distinct ids"
  shows "(\<Sum>i \<leftarrow> ids. case map_of m i of None \<Rightarrow> 0 | Some g \<Rightarrow> h g)
    = (\<Sum>(k, g) \<leftarrow> filter (\<lambda>(k, g). k \<in> set ids) m. h g)"
  using assms(1)
proof (induction m)
  case Nil
  then show ?case by (induction ids) simp_all
next
  case (Cons e m)
  obtain k v where e: "e = (k, v)" by (cases e)
  have none: "map_of m k = None" using Cons.prems e by (simp add: map_of_eq_None_iff)
  have "(\<Sum>i \<leftarrow> ids. case map_of (e # m) i of None \<Rightarrow> 0 | Some g \<Rightarrow> h g)
      = (\<Sum>i \<leftarrow> ids. (case map_of m i of None \<Rightarrow> 0 | Some g \<Rightarrow> h g) + (if i = k then h v else 0))"
    by (intro arg_cong [of _ _ sum_list] map_cong refl) (simp add: e none)
  also have "\<dots> = (\<Sum>i \<leftarrow> ids. case map_of m i of None \<Rightarrow> 0 | Some g \<Rightarrow> h g)
      + (\<Sum>i \<leftarrow> ids. if i = k then h v else 0)"
    by (rule sum_list_addf)
  also have "(\<Sum>i \<leftarrow> ids. if i = k then h v else 0) = (if k \<in> set ids then h v else 0)"
    using assms(2) by (induction ids) auto
  finally show ?case using Cons by (simp add: e)
qed

lemma sum_list_split:
  fixes h :: "'v \<Rightarrow> int"
  shows "sum_list (map h (filter P xs)) + sum_list (map h (filter (\<lambda>x. \<not> P x) xs)) = sum_list (map h xs)"
  by (induction xs) auto

text \<open>
  Merging usage with the catalog lists every catalog service exactly once and keeps all
  usage, that of removed services and unattributed calls included.
\<close>

theorem catalog_usage_kept:
  assumes "distinct (map cs_id services)" and "distinct (map ug_id byService)"
  shows "let rows = mergeCatalogServiceUsage unknownLabel unattributedLabel collate services byService in
    mset (map ug_id (filter mu_in_catalog rows)) = mset (map (\<lambda>s. Some (cs_id s)) services)
    \<and> list_all (\<lambda>f. (\<Sum>row \<leftarrow> rows. f (usage_totals.truncate row))
        = (\<Sum>g \<leftarrow> byService. f (usage_totals.truncate g))) usage_fields"
proof -
  let ?m = "usage_by_id byService" and ?ids = "map cs_id services"
  define known where "known = map (\<lambda>service.
      usage_group.extend ((case map_of ?m (cs_id service) of
            None \<Rightarrow> empty_group (Some (cs_id service)) | Some g \<Rightarrow> g)\<lparr>ug_id := Some (cs_id service)\<rparr>)
        (merged_service_usage.fields (cs_name service) (Some (cs_enabled service)) True)) services"
  define unknown where "unknown = map (\<lambda>(i, usage).
      usage_group.extend usage (merged_service_usage.fields unknownLabel None False))
    (filter (\<lambda>(i, usage). i \<notin> cs_id ` set services) ?m)"
  define loose where "loose = map (\<lambda>usage.
      usage_group.extend usage (merged_service_usage.fields unattributedLabel None False))
    (filter (\<lambda>g. ug_id g = None) byService)"
  have rows: "mergeCatalogServiceUsage unknownLabel unattributedLabel collate services byService
      = sort_by (by_usage_then_name collate) (known @ unknown @ loose)"
    by (simp add: mergeCatalogServiceUsage_def known_def unknown_def loose_def Let_def)
  have m: "?m = map (\<lambda>g. (the (ug_id g), g)) (filter (\<lambda>g. ug_id g \<noteq> None) byService)"
    by (rule usage_by_id_distinct [OF assms(2)])
  have dm: "distinct (map fst ?m)"
    unfolding m map_map comp_def fst_conv using assms(2)
    by (auto simp: distinct_map inj_on_def option.expand)
  have "mset (map ug_id (filter mu_in_catalog (sort_by (by_usage_then_name collate) (known @ unknown @ loose))))
      = mset (map ug_id (filter mu_in_catalog (known @ unknown @ loose)))"
    unfolding mset_map mset_filter mset_sort_by by (rule refl)
  also have "filter mu_in_catalog (known @ unknown @ loose) = known"
    by (auto simp: known_def unknown_def loose_def filter_map comp_def case_prod_beta)
  also have "map ug_id known = map (\<lambda>s. Some (cs_id s)) services"
    by (simp add: known_def)
  finally have once: "mset (map ug_id (filter mu_in_catalog
      (sort_by (by_usage_then_name collate) (known @ unknown @ loose))))
      = mset (map (\<lambda>s. Some (cs_id s)) services)" .
  have "(\<Sum>row \<leftarrow> known @ unknown @ loose. f (usage_totals.truncate row))
      = (\<Sum>g \<leftarrow> byService. f (usage_totals.truncate g))" if f: "f \<in> set usage_fields" for f
  proof -
    let ?h = "\<lambda>g :: usage_group. f (usage_totals.truncate g)"
    have "(\<Sum>row \<leftarrow> known. f (usage_totals.truncate row))
        = (\<Sum>i \<leftarrow> ?ids. case map_of ?m i of None \<Rightarrow> 0 | Some g \<Rightarrow> ?h g)"
      unfolding known_def map_map
      by (intro arg_cong [of _ _ sum_list] map_cong refl) (simp add: field_empty [OF f] split: option.split)
    also have "\<dots> = (\<Sum>(k, g) \<leftarrow> filter (\<lambda>(k, g). k \<in> set ?ids) ?m. ?h g)"
      by (rule lookup_sum [OF dm assms(1)])
    finally have "(\<Sum>row \<leftarrow> known @ unknown. f (usage_totals.truncate row)) = (\<Sum>(k, g) \<leftarrow> ?m. ?h g)"
      using sum_list_split [of "\<lambda>(k, g). ?h g" "\<lambda>(k, g). k \<in> set ?ids" ?m]
      by (simp add: unknown_def comp_def case_prod_unfold)
    moreover have "(\<Sum>(k, g) \<leftarrow> ?m. ?h g) = (\<Sum>g \<leftarrow> filter (\<lambda>g. ug_id g \<noteq> None) byService. ?h g)"
      by (simp add: m comp_def)
    moreover have "(\<Sum>row \<leftarrow> loose. f (usage_totals.truncate row))
        = (\<Sum>g \<leftarrow> filter (\<lambda>g. \<not> ug_id g \<noteq> None) byService. ?h g)"
      by (simp add: loose_def comp_def)
    ultimately show ?thesis
      using sum_list_split [of ?h "\<lambda>g. ug_id g \<noteq> None" byService] by simp
  qed
  then show ?thesis
    using once unfolding rows Let_def list_all_iff sum_list_sort_by by simp
qed

theorem catalog_usage_kept_witness:
  "let rows = mergeCatalogServiceUsage (js ''unknown'') (js ''none'') (\<lambda>_ _. 0)
      [\<lparr>cs_id = js ''a'', cs_name = js ''A'', cs_enabled = True\<rparr>] [empty_group None, empty_group (Some (js ''b''))] in
    mset (map ug_id (filter mu_in_catalog rows)) = {#Some (js ''a'')#}"
  using catalog_usage_kept [of "[\<lparr>cs_id = js ''a'', cs_name = js ''A'', cs_enabled = True\<rparr>]"
      "[empty_group None, empty_group (Some (js ''b''))]"]
  by (simp add: Let_def)

end
