(* ===== verification/Star_Trail.thy ===== *)
theory Star_Trail
  imports Usage_Range Series_Colors Js_Numbers
begin

text \<open>
  \<open>star-trail-model.ts\<close>: usage as a disc of arcs, by day or by model, with a legend whose
  whole percentages add up to 100, and the same for clients. \<open>localeCompare\<close> and
  \<open>toLowerCase\<close> are arguments.
\<close>

definition STAR_TRAIL_MODEL_LIMIT :: nat where "STAR_TRAIL_MODEL_LIMIT = 5"

definition STAR_TRAIL_RANGES :: "usage_preset list" where
  "STAR_TRAIL_RANGES = [Range1d, Range7d, Range30d]"

definition total_of :: "('a \<Rightarrow> int) \<Rightarrow> 'a list \<Rightarrow> int" where
  "total_of f xs = foldl (\<lambda>whole x. whole + f x) 0 xs"

section \<open>Whole percentages\<close>

text \<open>
  The shares as floors, then one more for the largest remainders in turn while some is lhs.
  The remainder order carries the place of each value.
\<close>

definition exact_percents :: "int list \<Rightarrow> rat list" where
  "exact_percents values =
     (let whole = total_of (max 0) values in
      map (\<lambda>v. of_int (max 0 v) / of_int whole * 100) values)"

definition larger_remainder :: "nat \<times> rat \<Rightarrow> nat \<times> rat \<Rightarrow> int" where
  "larger_remainder a b =
     (if snd b > snd a then 1 else if snd b < snd a then - 1 else int (fst a) - int (fst b))"

fun hand_out :: "(nat \<times> rat) list \<Rightarrow> int \<Rightarrow> int list \<Rightarrow> int list" where
  "hand_out [] lhs result = result"
| "hand_out ((place, remainder) # order) lhs result =
     (if lhs \<le> 0 then result
      else hand_out order (lhs - 1) (result[place := result ! place + 1]))"

definition wholePercents :: "int list \<Rightarrow> int list" where
  "wholePercents values =
     (let whole = total_of (max 0) values in
      if whole \<le> 0 then map (\<lambda>_. 0) values
      else
        (let exact = exact_percents values;
             result = map floor exact;
             lhs = 100 - total_of (\<lambda>v. v) result;
             order = sort_by larger_remainder
               (map (\<lambda>(place, v). (place, v - of_int \<lfloor>v\<rfloor>)) (enumerate 0 exact)) in
         hand_out order lhs result))"

section \<open>The legend\<close>

record star_trail_model_row =
  sr_id :: "jstr option"
  sr_total_tokens :: int
  sr_requests :: int
  sr_percent :: int
  sr_bar :: int
  sr_color :: jstr
  sr_folded :: nat

record star_trail_legend =
  sl_rows :: "star_trail_model_row list"
  sl_rest :: "star_trail_model_row option"

definition used_groups :: "(jstr \<Rightarrow> jstr \<Rightarrow> int) \<Rightarrow> usage_group list \<Rightarrow> usage_group list" where
  "used_groups collate byModel =
     sort_by (by_usage collate) (filter (\<lambda>g. ut_total_tokens g > 0 \<or> ut_requests g > 0) byModel)"

text \<open>
  The groups named and the groups folded, told apart by their place.
\<close>

definition named_groups :: "usage_group list \<Rightarrow> nat \<Rightarrow> (nat \<times> usage_group) list" where
  "named_groups used limit = take limit (filter (\<lambda>(i, g). ug_id g \<noteq> None) (enumerate 0 used))"

definition folded_groups :: "usage_group list \<Rightarrow> nat \<Rightarrow> (nat \<times> usage_group) list" where
  "folded_groups used limit =
     filter (\<lambda>p. fst p \<notin> fst ` set (named_groups used limit)) (enumerate 0 used)"

definition legend_row ::
  "int list \<Rightarrow> int \<Rightarrow> jstr option \<Rightarrow> int \<Rightarrow> int \<Rightarrow> nat \<Rightarrow> jstr \<Rightarrow> nat \<Rightarrow> star_trail_model_row"
where
  "legend_row percents peak ident tokens requests place color folded =
     \<lparr>sr_id = ident, sr_total_tokens = tokens, sr_requests = requests,
      sr_percent = percents ! place,
      sr_bar = (if peak > 0 then js_round (of_int tokens / of_int peak * 100) else 0),
      sr_color = color, sr_folded = folded\<rparr>"

definition starTrailLegend ::
  "(jstr \<Rightarrow> jstr \<Rightarrow> int) \<Rightarrow> (jstr \<Rightarrow> jstr) \<Rightarrow> usage_group list \<Rightarrow> nat \<Rightarrow> star_trail_legend"
where
  "starTrailLegend collate lower byModel limit =
     (let used = used_groups collate byModel;
          named = map snd (named_groups used limit);
          folded = map snd (folded_groups used limit);
          restTokens = total_of ut_total_tokens folded;
          restRequests = total_of ut_requests folded;
          percents = wholePercents (map ut_total_tokens named
            @ [if length folded > 0 then restTokens else 0]);
          peak = foldl max 0 (map ut_total_tokens named);
          colors = modelSeriesColors lower (map (\<lambda>g. the (ug_id g)) named) in
      \<lparr>sl_rows = map (\<lambda>(place, g).
           legend_row percents peak (ug_id g) (ut_total_tokens g) (ut_requests g) place (colors ! place) 0)
           (enumerate 0 named),
       sl_rest =
         (if length folded > 0
          then Some (legend_row percents peak None restTokens restRequests (length named)
            MUTED_SERIES_COLOR (length folded))
          else None)\<rparr>)"

section \<open>The disc\<close>

datatype trail_kind = ByDay | ByModel

record star_trail_arc =
  ta_key :: jstr
  ta_date :: jstr
  ta_hour :: nat
  ta_ring :: int
  ta_requests :: int
  ta_total_tokens :: int
  ta_model :: "jstr option"
  ta_color :: jstr
  ta_brightness :: rat

record star_trail =
  st_by :: trail_kind
  st_days :: "jstr list"
  st_rings :: nat
  st_arcs :: "star_trail_arc list"

definition compareHourModel ::
  "(jstr \<Rightarrow> jstr \<Rightarrow> int) \<Rightarrow> usage_hour_model_bucket \<Rightarrow> usage_hour_model_bucket \<Rightarrow> int"
where
  "compareHourModel collate lhs rhs =
     (if hm_total_tokens lhs \<noteq> hm_total_tokens rhs
      then hm_total_tokens rhs - hm_total_tokens lhs
      else if hm_requests lhs \<noteq> hm_requests rhs then hm_requests rhs - hm_requests lhs
      else case (hm_model lhs, hm_model rhs) of
        (None, None) \<Rightarrow> 0
      | (None, Some _) \<Rightarrow> 1
      | (Some _, None) \<Rightarrow> - 1
      | (Some l, Some r) \<Rightarrow> collate l r)"

record lit_hour =
  lh_date :: jstr
  lh_hour :: nat
  lh_requests :: int
  lh_total_tokens :: int
  lh_top :: usage_hour_model_bucket

definition light_hour ::
  "(jstr \<Rightarrow> jstr \<Rightarrow> int) \<Rightarrow> jstr list \<Rightarrow> (jstr \<times> lit_hour) list \<Rightarrow> usage_hour_model_bucket
     \<Rightarrow> (jstr \<times> lit_hour) list"
where
  "light_hour collate days hours b =
     (if hm_date b \<notin> set days \<or> hm_requests b \<le> 0 then hours
      else put_or (hour_key (hm_date b) (hm_hour b))
        \<lparr>lh_date = hm_date b, lh_hour = hm_hour b, lh_requests = hm_requests b,
         lh_total_tokens = hm_total_tokens b, lh_top = b\<rparr>
        (\<lambda>h. h\<lparr>lh_requests := lh_requests h + hm_requests b,
           lh_total_tokens := lh_total_tokens h + hm_total_tokens b,
           lh_top := (if compareHourModel collate b (lh_top h) < 0 then b else lh_top h)\<rparr>)
        hours)"

text \<open>\<open>new Map(days.map((date, place) => [date, place]))\<close>: the last place of a day.\<close>

definition day_ring :: "jstr list \<Rightarrow> jstr \<Rightarrow> nat" where
  "day_ring days d = fst (the (last_by snd (enumerate 0 days) d))"

definition by_ring :: "star_trail_arc \<Rightarrow> star_trail_arc \<Rightarrow> int" where
  "by_ring lhs rhs =
     (if ta_ring lhs \<noteq> ta_ring rhs then ta_ring lhs - ta_ring rhs
      else int (ta_hour lhs) - int (ta_hour rhs))"

definition legend_color :: "star_trail_legend \<Rightarrow> jstr option \<Rightarrow> jstr" where
  "legend_color legend model =
     (case model of
        None \<Rightarrow> MUTED_SERIES_COLOR
      | Some m \<Rightarrow>
          (case last_by sr_id (sl_rows legend) (Some m) of
             None \<Rightarrow> MUTED_SERIES_COLOR
           | Some row \<Rightarrow> if sr_color row = [] then MUTED_SERIES_COLOR else sr_color row))"

definition starTrail ::
  "(jstr \<Rightarrow> jstr \<Rightarrow> int) \<Rightarrow> usage_day_bucket list \<Rightarrow> usage_hour_model_bucket list \<Rightarrow> star_trail_legend
     \<Rightarrow> star_trail"
where
  "starTrail collate byDay byHourModel legend =
     (let days = map ud_date byDay;
          hours = foldl (light_hour collate days) [] byHourModel;
          busiest = foldl max 0 (map (\<lambda>(_, h). lh_requests h) hours) in
      \<lparr>st_by = ByDay, st_days = days, st_rings = length days,
       st_arcs = sort_by by_ring (map (\<lambda>(key, h).
         \<lparr>ta_key = key, ta_date = lh_date h, ta_hour = lh_hour h,
          ta_ring = int (day_ring days (lh_date h)), ta_requests = lh_requests h,
          ta_total_tokens = lh_total_tokens h, ta_model = hm_model (lh_top h),
          ta_color = legend_color legend (hm_model (lh_top h)),
          ta_brightness = (if busiest > 0 then of_int (lh_requests h) / of_int busiest else 0)\<rparr>)
         hours)\<rparr>)"

record row_hour =
  rh_row :: "nat option"
  rh_date :: jstr
  rh_hour :: nat
  rh_requests :: int
  rh_total_tokens :: int

definition row_of :: "star_trail_legend \<Rightarrow> jstr option \<Rightarrow> nat option" where
  "row_of legend model =
     (case model of
        None \<Rightarrow> None
      | Some m \<Rightarrow> map_option fst (last_by (\<lambda>(i, row). sr_id row) (enumerate 0 (sl_rows legend)) (Some m)))"

definition light_row ::
  "star_trail_legend \<Rightarrow> (jstr \<times> row_hour) list \<Rightarrow> usage_hour_model_bucket \<Rightarrow> (jstr \<times> row_hour) list"
where
  "light_row legend hours b =
     (if hm_requests b \<le> 0 then hours
      else
        (let row = row_of legend (hm_model b) in
         put_or (hour_key (hm_date b) (hm_hour b) @ js ''/''
             @ (case row of None \<Rightarrow> js ''rest'' | Some r \<Rightarrow> dec r))
           \<lparr>rh_row = row, rh_date = hm_date b, rh_hour = hm_hour b, rh_requests = hm_requests b,
            rh_total_tokens = hm_total_tokens b\<rparr>
           (\<lambda>h. h\<lparr>rh_requests := rh_requests h + hm_requests b,
              rh_total_tokens := rh_total_tokens h + hm_total_tokens b\<rparr>)
           hours))"

definition by_ring_then_time ::
  "(jstr \<Rightarrow> jstr \<Rightarrow> int) \<Rightarrow> star_trail_arc \<Rightarrow> star_trail_arc \<Rightarrow> int"
where
  "by_ring_then_time collate lhs rhs =
     (if ta_ring lhs \<noteq> ta_ring rhs then ta_ring lhs - ta_ring rhs
      else if collate (ta_date lhs) (ta_date rhs) \<noteq> 0 then collate (ta_date lhs) (ta_date rhs)
      else int (ta_hour lhs) - int (ta_hour rhs))"

definition starTrailByModel ::
  "(jstr \<Rightarrow> jstr \<Rightarrow> int) \<Rightarrow> usage_day_bucket list \<Rightarrow> usage_hour_model_bucket list \<Rightarrow> star_trail_legend
     \<Rightarrow> star_trail"
where
  "starTrailByModel collate byDay byHourModel legend =
     (let hours = foldl (light_row legend) [] byHourModel;
          lit = map snd hours;
          rest = (sl_rest legend \<noteq> None \<or> list_ex (\<lambda>h. rh_row h = None) lit);
          rings = length (sl_rows legend) + (if rest then 1 else 0);
          busiest = foldl max 0 (map rh_total_tokens lit) in
      \<lparr>st_by = ByModel, st_days = map ud_date byDay, st_rings = rings,
       st_arcs = sort_by (by_ring_then_time collate) (map (\<lambda>(key, h).
         \<lparr>ta_key = key, ta_date = rh_date h, ta_hour = rh_hour h,
          ta_ring = (case rh_row h of None \<Rightarrow> 0 | Some r \<Rightarrow> int rings - 1 - int r),
          ta_requests = rh_requests h, ta_total_tokens = rh_total_tokens h,
          ta_model = (case rh_row h of None \<Rightarrow> None | Some r \<Rightarrow> sr_id (sl_rows legend ! r)),
          ta_color = (case rh_row h of None \<Rightarrow> MUTED_SERIES_COLOR | Some r \<Rightarrow> sr_color (sl_rows legend ! r)),
          ta_brightness = (if busiest > 0 then of_int (rh_total_tokens h) / of_int busiest else 0)\<rparr>)
         hours)\<rparr>)"

section \<open>Clients\<close>

record client_share =
  sh_id :: "client_type option"
  sh_total_tokens :: int
  sh_percent :: int
  sh_color :: jstr

definition known_client :: "jstr option \<Rightarrow> client_type option" where
  "known_client ident =
     (case ident of
        None \<Rightarrow> None
      | Some i \<Rightarrow>
          if i = [] \<or> i = js ''unknown'' then None
          else List.find (\<lambda>c. js (client_type_name c) = i) CLIENT_TYPES)"

definition by_tokens ::
  "(jstr \<Rightarrow> jstr \<Rightarrow> int) \<Rightarrow> client_type option \<times> int \<Rightarrow> client_type option \<times> int \<Rightarrow> int"
where
  "by_tokens collate lhs rhs =
     (if snd rhs \<noteq> snd lhs then snd rhs - snd lhs
      else collate (case fst lhs of None \<Rightarrow> [] | Some c \<Rightarrow> js (client_type_name c))
        (case fst rhs of None \<Rightarrow> [] | Some c \<Rightarrow> js (client_type_name c)))"

definition client_segments ::
  "(jstr \<Rightarrow> jstr \<Rightarrow> int) \<Rightarrow> usage_group list \<Rightarrow> (client_type option \<times> int) list"
where
  "client_segments collate byClient =
     (let (known, unknown) = foldl (\<lambda>(known, unknown) g.
            case known_client (ug_id g) of
              Some c \<Rightarrow> (upsert c 0 (\<lambda>n. n + ut_total_tokens g) known, unknown)
            | None \<Rightarrow> (known, unknown + ut_total_tokens g)) ([], 0) byClient;
          segments = sort_by (by_tokens collate)
            (filter (\<lambda>s. snd s > 0) (map (\<lambda>(c, n). (Some c, n)) known)) in
      if unknown > 0 then segments @ [(None, unknown)] else segments)"

definition clientShares :: "(jstr \<Rightarrow> jstr \<Rightarrow> int) \<Rightarrow> usage_group list \<Rightarrow> client_share list" where
  "clientShares collate byClient =
     (let segments = client_segments collate byClient;
          percents = wholePercents (map snd segments) in
      map (\<lambda>(place, (c, n)).
          \<lparr>sh_id = c, sh_total_tokens = n, sh_percent = percents ! place,
           sh_color = clientSeriesColor c\<rparr>)
        (enumerate 0 segments))"

section \<open>Percentages add up\<close>

lemma total_of_sum: "total_of f xs = sum_list (map f xs)"
proof -
  have "foldl (\<lambda>t x. t + f x) n xs = n + sum_list (map f xs)" for n
    by (induction xs arbitrary: n) auto
  then show ?thesis by (simp add: total_of_def)
qed

lemma larger_remainder_le:
  "larger_remainder a b \<le> 0 \<longleftrightarrow> snd b < snd a \<or> snd a = snd b \<and> fst a \<le> fst b"
  by (auto simp: larger_remainder_def)

interpretation remainders: comparator larger_remainder UNIV
  by unfold_locales (auto simp: larger_remainder_le)

lemma hand_out_length [simp]: "length (hand_out order lhs result) = length result"
  by (induction order lhs result rule: hand_out.induct) auto

lemma hand_out_nth:
  "distinct (map fst order) \<Longrightarrow> i < length result \<Longrightarrow>
    hand_out order lhs result ! i
      = result ! i + (if i \<in> fst ` set (take (nat lhs) order) then 1 else 0)"
proof (induction order lhs result rule: hand_out.induct)
  case (2 place remainder order lhs result)
  show ?case
  proof (cases "lhs \<le> 0")
    case False
    then have "nat lhs = Suc (nat (lhs - 1))" by simp
    moreover have "place \<notin> fst ` set (take (nat (lhs - 1)) order)"
      using "2.prems" by (auto dest: in_set_takeD)
    ultimately show ?thesis using False 2 by (cases "i = place") (simp_all add: nth_list_update)
  qed simp
qed simp

lemma sum_update_int:
  fixes xs :: "int list"
  shows "i < length xs \<Longrightarrow> sum_list (xs[i := v]) = sum_list xs + v - xs ! i"
  by (induction xs arbitrary: i) (auto split: nat.splits)

lemma hand_out_sum:
  "\<forall>p \<in> set order. fst p < length result \<Longrightarrow>
    sum_list (hand_out order lhs result)
      = sum_list result + min (int (length order)) (max 0 lhs)"
proof (induction order lhs result rule: hand_out.induct)
  case (2 place remainder order lhs result)
  then have "sum_list (result[place := result ! place + 1]) = sum_list result + 1"
    by (simp add: sum_update_int)
  with 2 show ?case by auto
qed simp

text \<open>The order in which the remainders are served, with its ranking.\<close>

definition remainder_order :: "rat list \<Rightarrow> (nat \<times> rat) list" where
  "remainder_order exact =
     sort_by larger_remainder (map (\<lambda>(place, v). (place, v - of_int \<lfloor>v\<rfloor>)) (enumerate 0 exact))"

lemma remainder_order_set:
  "set (remainder_order exact) = {(i, frac (exact ! i)) | i. i < length exact}"
  by (auto simp: remainder_order_def in_set_enumerate_eq frac_def image_iff)

lemma remainder_order_distinct: "distinct (map fst (remainder_order exact))"
proof -
  have "map fst (map (\<lambda>(place, v). (place, v - of_int \<lfloor>v\<rfloor>)) (enumerate 0 exact)) = [0..<length exact]"
    by (simp add: case_prod_unfold comp_def enumerate_eq_zip)
  then show ?thesis unfolding remainder_order_def distinct_map_sort_by by simp
qed

lemma remainder_order_length [simp]: "length (remainder_order exact) = length exact"
  by (simp add: remainder_order_def)

lemma remainder_order_sorted: "sorted_wrt (\<lambda>x y. larger_remainder x y \<le> 0) (remainder_order exact)"
  unfolding remainder_order_def by (rule remainders.sort_by_ordered) simp

text \<open>Whoever is served is preceded by everyone with a larger remainder.\<close>

lemma served_upwards:
  assumes "i \<in> fst ` set (take n (remainder_order exact))" and "j < length exact"
    and "larger_remainder (j, frac (exact ! j)) (i, frac (exact ! i)) \<le> 0"
  shows "j \<in> fst ` set (take n (remainder_order exact))"
proof -
  let ?o = "remainder_order exact"
  have at: "p = (fst p, frac (exact ! fst p))" if "p \<in> set ?o" for p
    using that by (auto simp: remainder_order_set)
  from assms(1) obtain a where a: "a < n" "a < length ?o" "fst (?o ! a) = i"
    by (force simp: in_set_conv_nth)
  have "(j, frac (exact ! j)) \<in> set ?o" using assms(2) by (auto simp: remainder_order_set)
  then obtain b where b: "b < length ?o" "?o ! b = (j, frac (exact ! j))"
    by (auto simp: in_set_conv_nth)
  have "b < n"
  proof (rule ccontr)
    assume "\<not> b < n"
    with a have "a < b" by simp
    with remainder_order_sorted [of exact] a b
    have "larger_remainder (?o ! a) (?o ! b) \<le> 0"
      unfolding sorted_wrt_iff_nth_less by blast
    moreover have "?o ! a = (i, frac (exact ! i))" by (rule at [OF nth_mem [OF a(2)], unfolded a(3)])
    ultimately have "larger_remainder (i, frac (exact ! i)) (j, frac (exact ! j)) \<le> 0"
      using b(2) by simp
    with assms(3) have "i = j" unfolding larger_remainder_le by auto
    with a b have "map fst ?o ! a = map fst ?o ! b" by simp
    with a b have "a = b"
      using nth_eq_iff_index_eq [OF remainder_order_distinct [of exact], of a b] by simp
    with \<open>a < b\<close> show False by simp
  qed
  with b have "take n ?o ! b = (j, frac (exact ! j))" and "b < length (take n ?o)" by simp_all
  then have "(j, frac (exact ! j)) \<in> set (take n ?o)" by (metis nth_mem)
  then have "fst (j, frac (exact ! j)) \<in> fst ` set (take n ?o)" by (rule imageI)
  then show ?thesis by simp
qed

lemma sum_exact:
  assumes "total_of (max 0) values > 0"
  shows "sum_list (exact_percents values) = 100"
proof -
  have "sum_list (map (\<lambda>v. of_int (max 0 v) / c * 100) values)
      = (of_int (sum_list (map (max 0) values)) / c * 100 :: rat)" for c
    by (induction "values") (simp_all add: add_divide_distrib algebra_simps)
  then show ?thesis
    using assms by (simp add: exact_percents_def total_of_sum Let_def)
qed

text \<open>What is left to hand out is the sum of the remainders.\<close>

definition left_over :: "rat list \<Rightarrow> int" where
  "left_over exact = 100 - sum_list (map floor exact)"

lemma sum_floor_frac: "sum_list exact = of_int (sum_list (map floor exact)) + sum_list (map frac exact)"
  for exact :: "rat list"
  by (induction exact) (simp_all add: frac_def)

lemma left_over_frac:
  assumes "sum_list exact = 100"
  shows "of_int (left_over exact) = sum_list (map frac exact)"
  using sum_floor_frac [of exact] assms by (simp add: left_over_def)

lemma sum_frac_bounds:
  "0 \<le> sum_list (map frac (xs :: rat list))"
  "sum_list (map frac xs) \<le> of_nat (length (filter (\<lambda>x. frac x > 0) xs))"
proof -
  show "0 \<le> sum_list (map frac xs)" by (rule sum_list_nonneg) auto
  show "sum_list (map frac xs) \<le> of_nat (length (filter (\<lambda>x. frac x > 0) xs))"
  proof (induction xs)
    case (Cons x xs)
    have "frac x < 1" by (rule frac_lt_1)
    moreover have "frac x = 0" if "\<not> frac x > 0" using that frac_ge_0 [of x] by linarith
    ultimately show ?case using Cons by (simp del: frac_gt_0_iff)
  qed simp
qed

lemma left_over_bounds:
  assumes "sum_list exact = 100"
  shows "0 \<le> left_over exact" and "left_over exact \<le> int (length (filter (\<lambda>x. frac x > 0) exact))"
proof -
  have "(of_int (left_over exact) :: rat) \<ge> 0"
    using left_over_frac [OF assms] sum_frac_bounds(1) [of exact] by simp
  then show "0 \<le> left_over exact" by simp
  have "(of_int (left_over exact) :: rat) \<le> of_int (int (length (filter (\<lambda>x. frac x > 0) exact)))"
    using left_over_frac [OF assms] sum_frac_bounds(2) [of exact] by simp
  then show "left_over exact \<le> int (length (filter (\<lambda>x. frac x > 0) exact))" by linarith
qed

lemma wholePercents_hand_out:
  assumes "total_of (max 0) values > 0"
  shows "wholePercents values
    = (let exact = exact_percents values in
       hand_out (remainder_order exact) (left_over exact) (map floor exact))"
  using assms by (simp add: wholePercents_def Let_def remainder_order_def left_over_def total_of_sum)

text \<open>An exact share gets nothing on top.\<close>

lemma positives_length:
  "length (filter P xs) = card {i. i < length xs \<and> P (xs ! i)}"
  by (rule length_filter_conv_card)

lemma served_positive:
  assumes "sum_list exact = 100"
    and "i \<in> fst ` set (take (nat (left_over exact)) (remainder_order exact))"
  shows "i < length exact" and "frac (exact ! i) > 0"
proof -
  let ?t = "take (nat (left_over exact)) (remainder_order exact)"
  let ?P = "{j. j < length exact \<and> frac (exact ! j) > 0}"
  show i: "i < length exact" using assms(2) by (auto dest!: in_set_takeD simp: remainder_order_set)
  show "frac (exact ! i) > 0"
  proof (rule ccontr)
    assume "\<not> frac (exact ! i) > 0"
    then have z: "frac (exact ! i) = 0" using frac_ge_0 [of "exact ! i"] by linarith
    have "insert i ?P \<subseteq> fst ` set ?t"
      using served_upwards [OF assms(2)] assms(2) by (auto simp: larger_remainder_le z)
    then have "card (insert i ?P) \<le> card (fst ` set ?t)" by (intro card_mono) auto
    also have "\<dots> \<le> length ?t" using card_image_le [of "set ?t" fst] card_length [of ?t] by simp
    also have "\<dots> \<le> nat (left_over exact)" by simp
    also have "\<dots> \<le> card ?P"
      using left_over_bounds(2) [OF assms(1)] by (simp add: positives_length)
    finally show False using z by simp
  qed
qed

definition share :: "int list \<Rightarrow> int \<Rightarrow> rat" where
  "share values v = of_int (max 0 v) / of_int (total_of (max 0) values) * 100"

lemma length_exact_percents [simp]: "length (exact_percents values) = length values"
  by (simp add: exact_percents_def Let_def)

lemma nth_exact_percents: "i < length values \<Longrightarrow> exact_percents values ! i = share values (values ! i)"
  by (simp add: exact_percents_def share_def Let_def)

lemma length_wholePercents [simp]: "length (wholePercents values) = length values"
  by (simp add: wholePercents_def Let_def)

lemma total_positive: "\<exists>v \<in> set values. v > 0 \<Longrightarrow> total_of (max 0) values > 0"
proof -
  assume "\<exists>v \<in> set values. v > 0"
  then obtain v where v: "v \<in> set values" "v > 0" by blast
  have "max 0 v \<in> set (map (max 0) values)" using v(1) by (simp only: set_map imageI)
  then have "max 0 v \<le> sum_list (map (max 0) values)" by (rule member_le_sum_list) auto
  with v show ?thesis by (simp add: total_of_sum)
qed

definition served :: "int list \<Rightarrow> nat set" where
  "served values = fst ` set (take (nat (left_over (exact_percents values)))
     (remainder_order (exact_percents values)))"

lemma nth_wholePercents:
  assumes "total_of (max 0) values > 0" and "i < length values"
  shows "wholePercents values ! i
    = \<lfloor>share values (values ! i)\<rfloor> + (if i \<in> served values then 1 else 0)"
  using assms
  by (simp add: wholePercents_hand_out Let_def hand_out_nth [OF remainder_order_distinct]
      served_def nth_exact_percents)

lemma wholePercents_sum:
  assumes "total_of (max 0) values > 0"
  shows "sum_list (wholePercents values) = 100"
proof -
  let ?e = "exact_percents values"
  have "left_over ?e \<le> int (length ?e)"
    using left_over_bounds(2) [OF sum_exact [OF assms]] length_filter_le [of "\<lambda>x. frac x > 0" ?e]
    by linarith
  then have "sum_list (wholePercents values) = sum_list (map floor ?e) + left_over ?e"
    using left_over_bounds(1) [OF sum_exact [OF assms]]
    by (subst wholePercents_hand_out [OF assms])
      (auto simp: Let_def hand_out_sum remainder_order_set)
  then show ?thesis by (simp add: left_over_def)
qed

lemma wholePercents_monotone:
  assumes pos: "total_of (max 0) values > 0" and i: "i < length values" and j: "j < length values"
    and less: "values ! j < values ! i"
  shows "wholePercents values ! j \<le> wholePercents values ! i"
proof -
  let ?s = "\<lambda>k. share values (values ! k)"
  have "?s j \<le> ?s i"
    using less pos unfolding share_def
    by (intro mult_right_mono divide_right_mono) (auto simp: max_def)
  show ?thesis
  proof (cases "\<lfloor>?s j\<rfloor> = \<lfloor>?s i\<rfloor>")
    case True
    have "i \<in> served values" if "j \<in> served values"
    proof (cases "?s i = ?s j")
      case True
      then have "max 0 (values ! i) = max 0 (values ! j)" using pos by (simp add: share_def)
      with less have "?s j = 0" by (simp add: share_def)
      then have "\<not> frac (exact_percents values ! j) > 0" using j by (simp add: nth_exact_percents)
      with that show ?thesis
        using served_positive(2) [OF sum_exact [OF pos]] by (auto simp: served_def)
    next
      case False
      with \<open>?s j \<le> ?s i\<close> True have "frac (?s j) < frac (?s i)" by (simp add: frac_def)
      with that show ?thesis
        unfolding served_def
        by (rule_tac served_upwards [OF that [unfolded served_def]])
          (use i j in \<open>auto simp: larger_remainder_le nth_exact_percents\<close>)
    qed
    with True show ?thesis using i j pos by (simp add: nth_wholePercents)
  next
    case False
    moreover have "\<lfloor>?s j\<rfloor> \<le> \<lfloor>?s i\<rfloor>" using \<open>?s j \<le> ?s i\<close> by (rule floor_mono)
    ultimately show ?thesis using i j pos by (simp add: nth_wholePercents)
  qed
qed

text \<open>
  C23: whole percentages of a list with a positive value add up to exactly 100. Each is the
  floor of its exact share or, only when that share is no whole number, one above it; and a
  larger value never shows the smaller percentage.
\<close>

theorem whole_percents_exact:
  assumes "\<exists>v \<in> set values. v > 0"
  shows "sum_list (wholePercents values) = 100
    \<and> list_all2 (\<lambda>v p. p = \<lfloor>share values v\<rfloor>
          \<or> frac (share values v) \<noteq> 0 \<and> p = \<lfloor>share values v\<rfloor> + 1) values (wholePercents values)
    \<and> (\<forall>i < length values. \<forall>j < length values.
         values ! j < values ! i \<longrightarrow> wholePercents values ! j \<le> wholePercents values ! i)"
proof -
  note pos = total_positive [OF assms]
  have "frac (share values (values ! i)) \<noteq> 0" if "i \<in> served values" for i
  proof -
    have "i < length (exact_percents values)" and "frac (exact_percents values ! i) > 0"
      using served_positive [OF sum_exact [OF pos]] that by (auto simp: served_def)
    then show ?thesis by (simp add: nth_exact_percents)
  qed
  then show ?thesis
    using wholePercents_sum [OF pos] wholePercents_monotone [OF pos]
    by (auto simp: list_all2_conv_all_nth nth_wholePercents [OF pos])
qed

theorem whole_percents_exact_witness: "sum_list (wholePercents [1, 1, 1, 0]) = 100"
  using whole_percents_exact [of "[1, 1, 1, 0]"] by simp

section \<open>The legend keeps every call\<close>

lemma enumerate_snd: "p \<in> set (enumerate n xs) \<Longrightarrow> snd p \<in> set xs"
  by (induction xs arbitrary: n) auto

lemma named_distinct: "distinct (named_groups used limit)"
  by (simp add: named_groups_def distinct_map_filter enumerate_eq_zip distinct_zipI1)

lemma named_subset: "set (named_groups used limit) \<subseteq> set (enumerate 0 used)"
  by (auto simp: named_groups_def dest: in_set_takeD)

lemma enumerate_fst_inj: "p \<in> set (enumerate 0 used) \<Longrightarrow> q \<in> set (enumerate 0 used) \<Longrightarrow> fst p = fst q \<Longrightarrow> p = q"
  by (auto simp: in_set_enumerate_eq prod_eq_iff)

lemma folded_set: "set (folded_groups used limit) = set (enumerate 0 used) - set (named_groups used limit)"
  using enumerate_fst_inj [of _ used] named_subset [of used limit]
  by (auto simp: folded_groups_def image_iff) (metis fst_conv in_mono)

lemma named_folded_sum:
  fixes f :: "usage_group \<Rightarrow> int"
  shows "sum_list (map f (map snd (named_groups used limit)))
      + sum_list (map f (map snd (folded_groups used limit))) = sum_list (map f used)"
proof -
  let ?g = "\<lambda>p. f (snd p)"
  have d: "distinct (enumerate 0 used)" by (simp add: enumerate_eq_zip distinct_zipI1)
  then have "distinct (folded_groups used limit)" by (simp add: folded_groups_def)
  then have "sum_list (map ?g (named_groups used limit)) + sum_list (map ?g (folded_groups used limit))
      = sum ?g (set (enumerate 0 used))"
    using sum.subset_diff [OF named_subset [of used limit], of ?g] named_distinct
    by (simp add: sum_list_distinct_conv_sum_set folded_set)
  also have "\<dots> = sum_list (map ?g (enumerate 0 used))"
    using d by (simp add: sum_list_distinct_conv_sum_set)
  also have "\<dots> = sum_list (map f used)" by (rule nth_equalityI [THEN arg_cong [of _ _ sum_list]]) (simp_all add: nth_enumerate_eq)
  finally show ?thesis by (simp add: comp_def)
qed

text \<open>The rows of a legend, the folded rest last.\<close>

definition legend_all :: "star_trail_legend \<Rightarrow> star_trail_model_row list" where
  "legend_all legend = sl_rows legend @ (case sl_rest legend of None \<Rightarrow> [] | Some r \<Rightarrow> [r])"

lemma sum_used:
  fixes f :: "usage_group \<Rightarrow> int"
  assumes "\<forall>g \<in> set groups. ut_total_tokens g \<ge> 0 \<and> ut_requests g \<ge> 0"
    and "\<And>g. f g = ut_total_tokens g \<or> f g = ut_requests g"
  shows "sum_list (map f (used_groups collate groups)) = sum_list (map f groups)"
proof -
  have "sum_list (map f (filter (\<lambda>g. ut_total_tokens g > 0 \<or> ut_requests g > 0) groups)) = sum_list (map f groups)"
    using assms(1)
  proof (induction groups)
    case (Cons g groups)
    then show ?case using assms(2) [of g] by force
  qed simp
  then show ?thesis by (simp add: used_groups_def sum_list_sort_by)
qed

text \<open>What the rows of a legend carry, as columns.\<close>

abbreviation row_list where
  "row_list percents peak colors n named \<equiv> map (\<lambda>(place, g).
     legend_row percents peak (ug_id g) (ut_total_tokens g) (ut_requests g) place (colors ! place) 0)
     (enumerate n named)"

lemma row_list_columns:
  "map sr_total_tokens (row_list ps peak colors n named) = map ut_total_tokens named"
  "map sr_requests (row_list ps peak colors n named) = map ut_requests named"
  "map sr_percent (row_list ps peak colors n named) = map ((!) ps) [n..<n + length named]"
  by (induction named arbitrary: n) (simp_all add: legend_row_def upt_conv_Cons del: upt_Suc)

lemma take_nth: "n \<le> length ps \<Longrightarrow> map ((!) ps) [0..<n] = take n ps"
  by (rule nth_equalityI) simp_all

lemma legend_rows_columns:
  fixes collate lower groups limit
  defines "L \<equiv> starTrailLegend collate lower groups limit"
    and "named \<equiv> map snd (named_groups (used_groups collate groups) limit)"
  shows "map sr_total_tokens (sl_rows L) = map ut_total_tokens named"
    and "map sr_requests (sl_rows L) = map ut_requests named"
  unfolding L_def named_def starTrailLegend_def
  by (simp_all only: Let_def star_trail_legend.select_convs row_list_columns)

definition legend_tokens :: "usage_group list \<Rightarrow> nat \<Rightarrow> int list" where
  "legend_tokens used limit =
     (let folded = map snd (folded_groups used limit) in
      map ut_total_tokens (map snd (named_groups used limit))
        @ [if length folded > 0 then total_of ut_total_tokens folded else 0])"

lemma legend_percents:
  fixes collate lower groups limit
  defines "ps \<equiv> wholePercents (legend_tokens (used_groups collate groups) limit)"
  shows "map sr_percent (legend_all (starTrailLegend collate lower groups limit))
    = (if folded_groups (used_groups collate groups) limit = [] then butlast ps else ps)"
proof -
  have n: "length ps = Suc (length (named_groups (used_groups collate groups) limit))"
    by (simp add: ps_def legend_tokens_def Let_def)
  have "map sr_percent (sl_rows (starTrailLegend collate lower groups limit)) = butlast ps"
    unfolding starTrailLegend_def Let_def star_trail_legend.select_convs row_list_columns
    unfolding legend_tokens_def [unfolded Let_def, symmetric] ps_def [symmetric]
    using n by (simp add: take_nth butlast_conv_take)
  moreover have "ps ! length (named_groups (used_groups collate groups) limit) = last ps"
    using n by (simp add: last_conv_nth flip: length_greater_0_conv)
  then have "map sr_percent (case sl_rest (starTrailLegend collate lower groups limit) of None \<Rightarrow> [] | Some r \<Rightarrow> [r])
    = (if folded_groups (used_groups collate groups) limit = [] then [] else [last ps])"
    unfolding ps_def legend_tokens_def Let_def
    by (cases "folded_groups (used_groups collate groups) limit = []")
      (simp_all add: starTrailLegend_def Let_def legend_row_def)
  moreover have "ps \<noteq> []" using n by auto
  ultimately show ?thesis by (simp add: legend_all_def)
qed

lemma whole_percent_zero:
  assumes "i < length values" and "values ! i = 0"
  shows "wholePercents values ! i = 0"
proof (cases "total_of (max 0) values > 0")
  case True
  have "i \<notin> served values"
    using served_positive(2) [OF sum_exact [OF True], of i] assms
    by (auto simp: served_def nth_exact_percents share_def)
  with True assms show ?thesis by (simp add: nth_wholePercents share_def)
next
  case False
  with assms show ?thesis by (simp add: wholePercents_def Let_def)
qed

lemma legend_percents_sum:
  "sum_list (map sr_percent (legend_all (starTrailLegend collate lower groups limit)))
    = sum_list (wholePercents (legend_tokens (used_groups collate groups) limit))"
proof -
  let ?used = "used_groups collate groups"
  let ?ps = "wholePercents (legend_tokens ?used limit)"
  have n: "?ps \<noteq> []" by (simp add: legend_tokens_def Let_def flip: length_greater_0_conv)
  have "sum_list (butlast ?ps) = sum_list ?ps" if "folded_groups ?used limit = []"
  proof -
    have "last ?ps = 0"
      using n that by (subst last_conv_nth)
        (auto intro: whole_percent_zero simp: legend_tokens_def Let_def nth_append)
    moreover have "sum_list ?ps = sum_list (butlast ?ps @ [last ?ps])"
      using append_butlast_last_id [OF n] by simp
    ultimately show ?thesis by simp
  qed
  then show ?thesis by (simp add: legend_percents)
qed

lemma legend_sums:
  fixes collate lower groups limit
  defines "all \<equiv> legend_all (starTrailLegend collate lower groups limit)"
    and "used \<equiv> used_groups collate groups"
  shows "sum_list (map sr_total_tokens all) = sum_list (map ut_total_tokens used)"
    and "sum_list (map sr_requests all) = sum_list (map ut_requests used)"
  using named_folded_sum [of ut_total_tokens used limit] named_folded_sum [of ut_requests used limit]
  by (auto simp add: all_def legend_all_def legend_rows_columns used_def comp_def)
    (auto simp add: starTrailLegend_def Let_def legend_row_def total_of_sum comp_def)

lemma legend_tokens_sum:
  "sum_list (legend_tokens used limit) = sum_list (map ut_total_tokens used)"
  using named_folded_sum [of ut_total_tokens used limit]
  by (auto simp: legend_tokens_def Let_def total_of_sum comp_def)

lemma row_list_bars:
  "\<forall>g \<in> set named. 0 \<le> ut_total_tokens g \<and> ut_total_tokens g \<le> peak \<Longrightarrow>
    r \<in> set (row_list ps peak colors n named) \<Longrightarrow> 0 \<le> sr_bar r \<and> sr_bar r \<le> 100"
proof -
  assume le: "\<forall>g \<in> set named. 0 \<le> ut_total_tokens g \<and> ut_total_tokens g \<le> peak"
  assume "r \<in> set (row_list ps peak colors n named)"
  then obtain p where p: "p \<in> set (enumerate n named)"
    and r: "r = legend_row ps peak (ug_id (snd p)) (ut_total_tokens (snd p)) (ut_requests (snd p)) (fst p)
      (colors ! fst p) 0"
    by (auto simp: case_prod_unfold)
  from le enumerate_snd [OF p] have "0 \<le> ut_total_tokens (snd p)" "ut_total_tokens (snd p) \<le> peak" by auto
  from js_round_percent [OF this] show ?thesis unfolding r legend_row_def by simp
qed

lemma positive_sum:
  fixes f :: "'a \<Rightarrow> int"
  shows "\<forall>x \<in> set xs. f x \<ge> 0 \<Longrightarrow> sum_list (map f xs) > 0 \<longleftrightarrow> (\<exists>x \<in> set xs. f x > 0)"
proof (induction xs)
  case (Cons x xs)
  have "sum_list (map f xs) \<ge> 0" by (rule sum_list_nonneg) (use Cons.prems in auto)
  with Cons show ?case by (cases "f x = 0") force+
qed simp

text \<open>
  The legend loses no call: when the counts are not negative, its rows and its folded
  rest carry all the tokens and all the requests of the groups, there are at most as many
  named rows as the limit, the percentages add up to 100 once a token is counted, and no bar
  of a named row leaves 0 to 100.
\<close>

theorem legend_conserved:
  assumes "\<forall>g \<in> set groups. ut_total_tokens g \<ge> 0 \<and> ut_requests g \<ge> 0"
  shows "let legend = starTrailLegend collate lower groups limit; all = legend_all legend in
    sum_list (map sr_total_tokens all) = sum_list (map ut_total_tokens groups)
    \<and> sum_list (map sr_requests all) = sum_list (map ut_requests groups)
    \<and> length (sl_rows legend) \<le> limit
    \<and> sum_list (map sr_percent all) = (if \<exists>g \<in> set groups. ut_total_tokens g > 0 then 100 else 0)
    \<and> (\<forall>r \<in> set (sl_rows legend). 0 \<le> sr_bar r \<and> sr_bar r \<le> 100)"
proof -
  let ?used = "used_groups collate groups"
  let ?L = "starTrailLegend collate lower groups limit"
  let ?v = "legend_tokens ?used limit"
  have used: "ut_total_tokens g \<ge> 0" if "g \<in> set ?used" for g
    using that assms by (auto simp: used_groups_def)
  have named: "snd p \<in> set ?used" if "p \<in> set (named_groups ?used limit)" for p
    using subsetD [OF named_subset that] by (rule enumerate_snd)
  have folded: "snd p \<in> set ?used" if "p \<in> set (folded_groups ?used limit)" for p
    using that by (auto simp: folded_set intro: enumerate_snd)
  have v: "\<forall>x \<in> set ?v. x \<ge> 0"
    using used named folded
    by (auto simp: legend_tokens_def Let_def total_of_sum intro!: sum_list_nonneg)
  then have "total_of (max 0) ?v = sum_list ?v"
    by (simp add: total_of_sum map_idI max_absorb2)
  then have total: "total_of (max 0) ?v = sum_list (map ut_total_tokens groups)"
    using sum_used [OF assms, of ut_total_tokens] by (simp add: legend_tokens_sum)
  have "sum_list (map ut_total_tokens groups) > 0 \<longleftrightarrow> (\<exists>g \<in> set groups. ut_total_tokens g > 0)"
    using assms by (intro positive_sum) simp
  moreover have "sum_list (wholePercents ?v) = 0" if "\<not> total_of (max 0) ?v > 0"
    using that unfolding wholePercents_def Let_def by (simp add: sum_list_triv)
  ultimately have percents: "sum_list (map sr_percent (legend_all ?L))
      = (if \<exists>g \<in> set groups. ut_total_tokens g > 0 then 100 else 0)"
    using wholePercents_sum [of ?v] unfolding legend_percents_sum total by argo
  let ?n = "map snd (named_groups ?used limit)"
  have "\<forall>g \<in> set ?n. 0 \<le> ut_total_tokens g \<and> ut_total_tokens g \<le> foldl max 0 (map ut_total_tokens ?n)"
    using used named foldl_max_upper by auto
  then have "0 \<le> sr_bar r \<and> sr_bar r \<le> 100" if "r \<in> set (sl_rows ?L)" for r
    using that unfolding starTrailLegend_def Let_def star_trail_legend.select_convs
    by (rule row_list_bars)
  then show ?thesis
    using legend_sums [of collate lower groups limit] sum_used [OF assms] percents
      legend_rows_columns(1) [of collate lower groups limit, THEN arg_cong [of _ _ length]]
    by (simp add: Let_def named_groups_def)
qed

theorem legend_conserved_witness:
  "let g = empty_group (Some (js ''a''))\<lparr>ut_total_tokens := 7, ut_requests := 2\<rparr>;
       legend = starTrailLegend (\<lambda>_ _. 0) id [g] 5 in
    sum_list (map sr_total_tokens (legend_all legend)) = 7"
  using legend_conserved [of "[empty_group (Some (js ''a''))\<lparr>ut_total_tokens := 7, ut_requests := 2\<rparr>]"
      "\<lambda>_ _. 0" id 5]
  by (simp add: Let_def)

section \<open>Lit hours\<close>

definition hours_ok :: "jstr list \<Rightarrow> (jstr \<times> lit_hour) list \<Rightarrow> bool" where
  "hours_ok days hours \<longleftrightarrow> distinct (map fst hours)
     \<and> list_all (\<lambda>(k, h). k = hour_key (lh_date h) (lh_hour h) \<and> lh_date h \<in> set days \<and> lh_requests h > 0) hours"

definition lights :: "jstr list \<Rightarrow> usage_hour_model_bucket \<Rightarrow> bool" where
  "lights days b \<longleftrightarrow> hm_date b \<in> set days \<and> hm_requests b > 0"

lemma light_hour_ok: "hours_ok days hours \<Longrightarrow> hours_ok days (light_hour collate days hours b)"
  unfolding hours_ok_def light_hour_def
  by (auto simp del: not_le simp: not_le intro!: put_or_distinct put_or_all)

lemma light_hour_sum:
  "sum_list (map (lh_requests \<circ> snd) (light_hour collate days hours b))
    = sum_list (map (lh_requests \<circ> snd) hours) + (if lights days b then hm_requests b else 0)"
  "sum_list (map (lh_total_tokens \<circ> snd) (light_hour collate days hours b))
    = sum_list (map (lh_total_tokens \<circ> snd) hours) + (if lights days b then hm_total_tokens b else 0)"
  by (auto simp: light_hour_def lights_def put_or_sum)

lemma light_hours:
  fixes days bs collate
  defines "lit \<equiv> foldl (light_hour collate days) [] bs"
  shows "hours_ok days lit"
    and "sum_list (map (lh_requests \<circ> snd) lit) = sum_list (map hm_requests (filter (lights days) bs))"
    and "sum_list (map (lh_total_tokens \<circ> snd) lit) = sum_list (map hm_total_tokens (filter (lights days) bs))"
proof -
  have "hours_ok days (foldl (light_hour collate days) hours bs)" if "hours_ok days hours" for hours
    using that by (induction bs arbitrary: hours) (simp_all add: light_hour_ok)
  then show "hours_ok days lit" by (simp add: lit_def hours_ok_def)
  have "sum_list (map (lh_requests \<circ> snd) (foldl (light_hour collate days) hours bs))
      = sum_list (map (lh_requests \<circ> snd) hours) + sum_list (map hm_requests (filter (lights days) bs))
    \<and> sum_list (map (lh_total_tokens \<circ> snd) (foldl (light_hour collate days) hours bs))
      = sum_list (map (lh_total_tokens \<circ> snd) hours) + sum_list (map hm_total_tokens (filter (lights days) bs))" for hours
    by (induction bs arbitrary: hours) (simp_all add: light_hour_sum)
  from this [of "[]"] show
      "sum_list (map (lh_requests \<circ> snd) lit) = sum_list (map hm_requests (filter (lights days) bs))"
      "sum_list (map (lh_total_tokens \<circ> snd) lit) = sum_list (map hm_total_tokens (filter (lights days) bs))"
    by (simp_all add: lit_def)
qed

lemma day_ring_place:
  assumes "d \<in> set days"
  shows "day_ring days d < length days" and "days ! day_ring days d = d"
proof -
  from assms obtain p where p: "last_by snd (enumerate 0 days) d = Some p"
    by (cases "last_by snd (enumerate 0 days) d") (auto simp: last_by_None simp flip: set_map)
  from last_by_Some [OF p] show "day_ring days d < length days" "days ! day_ring days d = d"
    by (auto simp: day_ring_def p in_set_enumerate_eq)
qed

lemma brightness_bounds:
  assumes "x \<in> set xs" and "x > 0"
  shows "0 < (of_int x / of_int (foldl max 0 xs) :: rat)" and "(of_int x / of_int (foldl max 0 xs) :: rat) \<le> 1"
    and "0 < foldl max 0 xs"
  using foldl_max_upper [OF assms(1), of 0] assms(2) by auto

text \<open>The trail's colors: those of the legend, and the muted one.\<close>

definition disc_colors :: "star_trail_legend \<Rightarrow> jstr set" where
  "disc_colors legend = insert MUTED_SERIES_COLOR (sr_color ` set (sl_rows legend))"

lemma legend_color_in: "legend_color legend model \<in> disc_colors legend"
  by (auto simp: legend_color_def disc_colors_def dest!: last_by_Some split: option.split)

text \<open>The arcs of a day disc before they are put in order.\<close>

definition day_arc :: "jstr list \<Rightarrow> star_trail_legend \<Rightarrow> int \<Rightarrow> jstr \<times> lit_hour \<Rightarrow> star_trail_arc" where
  "day_arc days legend busiest e =
     \<lparr>ta_key = fst e, ta_date = lh_date (snd e), ta_hour = lh_hour (snd e),
      ta_ring = int (day_ring days (lh_date (snd e))), ta_requests = lh_requests (snd e),
      ta_total_tokens = lh_total_tokens (snd e), ta_model = hm_model (lh_top (snd e)),
      ta_color = legend_color legend (hm_model (lh_top (snd e))),
      ta_brightness = (if busiest > 0 then of_int (lh_requests (snd e)) / of_int busiest else 0)\<rparr>"

lemma starTrail_arcs:
  fixes byDay collate bs legend
  defines "days \<equiv> map ud_date byDay" and "lit \<equiv> foldl (light_hour collate (map ud_date byDay)) [] bs"
  shows "st_arcs (starTrail collate byDay bs legend)
    = sort_by by_ring (map (day_arc days legend (foldl max 0 (map (lh_requests \<circ> snd) lit))) lit)"
    and "st_rings (starTrail collate byDay bs legend) = length days"
    and "st_days (starTrail collate byDay bs legend) = days"
  by (simp_all add: starTrail_def Let_def days_def lit_def day_arc_def [abs_def] case_prod_unfold comp_def)

text \<open>
  The disc by day lights each local hour at most once and loses no call of its days: the
  arcs carry exactly the requests and the tokens of the buckets of those days that have a
  request. Every arc sits on the ring of its own date, its brightness is above 0 and at most
  1, and its color is one the legend shows.
\<close>

theorem star_trail_by_day:
  "let days = map ud_date byDay; trail = starTrail collate byDay byHourModel legend; arcs = st_arcs trail;
       counted = filter (\<lambda>b. hm_date b \<in> set days \<and> hm_requests b > 0) byHourModel in
    distinct (map ta_key arcs)
    \<and> sum_list (map ta_requests arcs) = sum_list (map hm_requests counted)
    \<and> sum_list (map ta_total_tokens arcs) = sum_list (map hm_total_tokens counted)
    \<and> list_all (\<lambda>a. ta_key a = hour_key (ta_date a) (ta_hour a)
        \<and> 0 \<le> ta_ring a \<and> ta_ring a < int (st_rings trail) \<and> st_days trail ! nat (ta_ring a) = ta_date a
        \<and> 0 < ta_brightness a \<and> ta_brightness a \<le> 1 \<and> ta_color a \<in> disc_colors legend) arcs"
proof -
  let ?days = "map ud_date byDay"
  let ?lit = "foldl (light_hour collate ?days) [] byHourModel"
  let ?m = "foldl max 0 (map (lh_requests \<circ> snd) ?lit)"
  let ?arc = "day_arc ?days legend ?m"
  note arcs = starTrail_arcs [of collate byDay byHourModel legend]
  have ok: "distinct (map fst ?lit)"
    "e \<in> set ?lit \<Longrightarrow> fst e = hour_key (lh_date (snd e)) (lh_hour (snd e)) \<and> lh_date (snd e) \<in> set ?days
       \<and> lh_requests (snd e) > 0" for e
    using light_hours(1) [where days = ?days and bs = byHourModel and collate = collate]
    by (auto simp: hours_ok_def list_all_iff case_prod_unfold)
  have "map ta_key (map ?arc ?lit) = map fst ?lit" by (simp add: day_arc_def)
  then have keys: "distinct (map ta_key (st_arcs (starTrail collate byDay byHourModel legend)))"
    unfolding arcs(1) distinct_map_sort_by using ok(1) by (simp only:)
  have sums: "sum_list (map ta_requests (map ?arc ?lit)) = sum_list (map (lh_requests \<circ> snd) ?lit)"
    "sum_list (map ta_total_tokens (map ?arc ?lit)) = sum_list (map (lh_total_tokens \<circ> snd) ?lit)"
    by (simp_all add: day_arc_def comp_def)
  have "ta_key (?arc e) = hour_key (ta_date (?arc e)) (ta_hour (?arc e))
      \<and> 0 \<le> ta_ring (?arc e) \<and> ta_ring (?arc e) < int (length ?days) \<and> ?days ! nat (ta_ring (?arc e)) = ta_date (?arc e)
      \<and> 0 < ta_brightness (?arc e) \<and> ta_brightness (?arc e) \<le> 1 \<and> ta_color (?arc e) \<in> disc_colors legend"
    if "e \<in> set ?lit" for e
  proof -
    have "lh_requests (snd e) \<in> set (map (lh_requests \<circ> snd) ?lit)" using that by simp
    from brightness_bounds [OF this] show ?thesis
      using ok(2) [OF that] day_ring_place [of "lh_date (snd e)" ?days] legend_color_in
      by (simp add: day_arc_def)
  qed
  then show ?thesis
    using keys sums light_hours(2,3) [where days = ?days and bs = byHourModel and collate = collate]
    by (simp add: Let_def arcs sum_list_sort_by list_all_iff lights_def [abs_def])
qed

section \<open>The disc by model\<close>

definition row_key :: "row_hour \<Rightarrow> jstr" where
  "row_key h = hour_key (rh_date h) (rh_hour h) @ js ''/''
     @ (case rh_row h of None \<Rightarrow> js ''rest'' | Some r \<Rightarrow> dec r)"

definition row_hours_ok :: "star_trail_legend \<Rightarrow> (jstr \<times> row_hour) list \<Rightarrow> bool" where
  "row_hours_ok legend hours \<longleftrightarrow> distinct (map fst hours)
     \<and> list_all (\<lambda>(k, h). k = row_key h \<and> rh_requests h > 0
         \<and> (\<forall>r. rh_row h = Some r \<longrightarrow> r < length (sl_rows legend))) hours"

lemma row_of_bound: "row_of legend model = Some r \<Longrightarrow> r < length (sl_rows legend)"
  by (auto simp: row_of_def in_set_enumerate_eq dest!: last_by_Some split: option.splits)

lemma light_row_ok: "row_hours_ok legend hours \<Longrightarrow> row_hours_ok legend (light_row legend hours b)"
  unfolding row_hours_ok_def light_row_def Let_def
  by (auto simp: row_key_def row_of_bound intro!: put_or_distinct put_or_all)

lemma light_row_sum:
  "sum_list (map (rh_requests \<circ> snd) (light_row legend hours b))
    = sum_list (map (rh_requests \<circ> snd) hours) + (if hm_requests b > 0 then hm_requests b else 0)"
  "sum_list (map (rh_total_tokens \<circ> snd) (light_row legend hours b))
    = sum_list (map (rh_total_tokens \<circ> snd) hours) + (if hm_requests b > 0 then hm_total_tokens b else 0)"
  by (auto simp: light_row_def Let_def put_or_sum)

lemma light_rows:
  fixes bs legend
  defines "lit \<equiv> foldl (light_row legend) [] bs" and "counted \<equiv> filter (\<lambda>b. hm_requests b > 0) bs"
  shows "row_hours_ok legend lit"
    and "sum_list (map (rh_requests \<circ> snd) lit) = sum_list (map hm_requests counted)"
    and "sum_list (map (rh_total_tokens \<circ> snd) lit) = sum_list (map hm_total_tokens counted)"
proof -
  have "row_hours_ok legend (foldl (light_row legend) hours bs)" if "row_hours_ok legend hours" for hours
    using that by (induction bs arbitrary: hours) (simp_all add: light_row_ok)
  then show "row_hours_ok legend lit" by (simp add: lit_def row_hours_ok_def)
  have "sum_list (map (rh_requests \<circ> snd) (foldl (light_row legend) hours bs))
      = sum_list (map (rh_requests \<circ> snd) hours) + sum_list (map hm_requests counted)
    \<and> sum_list (map (rh_total_tokens \<circ> snd) (foldl (light_row legend) hours bs))
      = sum_list (map (rh_total_tokens \<circ> snd) hours) + sum_list (map hm_total_tokens counted)" for hours
    unfolding counted_def by (induction bs arbitrary: hours) (simp_all add: light_row_sum)
  from this [of "[]"] show
      "sum_list (map (rh_requests \<circ> snd) lit) = sum_list (map hm_requests counted)"
      "sum_list (map (rh_total_tokens \<circ> snd) lit) = sum_list (map hm_total_tokens counted)"
    by (simp_all add: lit_def)
qed

definition row_arc :: "star_trail_legend \<Rightarrow> nat \<Rightarrow> int \<Rightarrow> jstr \<times> row_hour \<Rightarrow> star_trail_arc" where
  "row_arc legend rings busiest e =
     \<lparr>ta_key = fst e, ta_date = rh_date (snd e), ta_hour = rh_hour (snd e),
      ta_ring = (case rh_row (snd e) of None \<Rightarrow> 0 | Some r \<Rightarrow> int rings - 1 - int r),
      ta_requests = rh_requests (snd e), ta_total_tokens = rh_total_tokens (snd e),
      ta_model = (case rh_row (snd e) of None \<Rightarrow> None | Some r \<Rightarrow> sr_id (sl_rows legend ! r)),
      ta_color = (case rh_row (snd e) of None \<Rightarrow> MUTED_SERIES_COLOR | Some r \<Rightarrow> sr_color (sl_rows legend ! r)),
      ta_brightness = (if busiest > 0 then of_int (rh_total_tokens (snd e)) / of_int busiest else 0)\<rparr>"

lemma starTrailByModel_arcs:
  fixes byDay collate bs legend
  defines "lit \<equiv> foldl (light_row legend) [] bs" and "trail \<equiv> starTrailByModel collate byDay bs legend"
  shows "st_arcs trail = sort_by (by_ring_then_time collate)
      (map (row_arc legend (st_rings trail) (foldl max 0 (map (rh_total_tokens \<circ> snd) lit))) lit)"
    and "st_rings trail = length (sl_rows legend)
      + (if sl_rest legend \<noteq> None \<or> list_ex (\<lambda>e. rh_row (snd e) = None) lit then 1 else 0)"
  by (simp_all add: starTrailByModel_def Let_def trail_def lit_def row_arc_def [abs_def] case_prod_unfold
      comp_def list_ex_iff cong: if_cong option.case_cong)

text \<open>
  The disc by model loses no call either, and tells the models apart: its arcs have
  distinct keys and carry all the requests and tokens of the buckets with a request, an arc of
  a named row has that row's model and color and sits on the ring counted from the outside by
  the row, an arc of no row is muted on ring 0, which then no named row shares; and no arc is
  brighter than 1.
\<close>

theorem star_trail_by_model:
  "let trail = starTrailByModel collate byDay byHourModel legend; arcs = st_arcs trail;
       counted = filter (\<lambda>b. hm_requests b > 0) byHourModel; n = length (sl_rows legend) in
    distinct (map ta_key arcs)
    \<and> sum_list (map ta_requests arcs) = sum_list (map hm_requests counted)
    \<and> sum_list (map ta_total_tokens arcs) = sum_list (map hm_total_tokens counted)
    \<and> list_all (\<lambda>a. 0 \<le> ta_ring a \<and> ta_ring a < int (st_rings trail) \<and> ta_brightness a \<le> 1
        \<and> ((\<exists>r < n. ta_ring a = int (st_rings trail) - 1 - int r
              \<and> ta_model a = sr_id (sl_rows legend ! r) \<and> ta_color a = sr_color (sl_rows legend ! r))
          \<or> ta_ring a = 0 \<and> st_rings trail = n + 1 \<and> ta_model a = None \<and> ta_color a = MUTED_SERIES_COLOR)) arcs"
proof -
  let ?lit = "foldl (light_row legend) [] byHourModel"
  let ?trail = "starTrailByModel collate byDay byHourModel legend"
  let ?m = "foldl max 0 (map (rh_total_tokens \<circ> snd) ?lit)"
  let ?arc = "row_arc legend (st_rings ?trail) ?m"
  note arcs = starTrailByModel_arcs [of collate byDay byHourModel legend]
  have ok: "distinct (map fst ?lit)"
    "e \<in> set ?lit \<Longrightarrow> rh_row (snd e) = Some r \<Longrightarrow> r < length (sl_rows legend)" for e r
    using light_rows(1) [where legend = legend and bs = byHourModel]
    by (auto simp: row_hours_ok_def list_all_iff case_prod_unfold)
  have "map ta_key (map ?arc ?lit) = map fst ?lit" by (simp add: row_arc_def)
  then have keys: "distinct (map ta_key (st_arcs ?trail))"
    unfolding arcs(1) distinct_map_sort_by using ok(1) by (simp only:)
  have sums: "sum_list (map ta_requests (map ?arc ?lit)) = sum_list (map (rh_requests \<circ> snd) ?lit)"
    "sum_list (map ta_total_tokens (map ?arc ?lit)) = sum_list (map (rh_total_tokens \<circ> snd) ?lit)"
    by (simp_all add: row_arc_def comp_def)
  have "0 \<le> ta_ring (?arc e) \<and> ta_ring (?arc e) < int (st_rings ?trail) \<and> ta_brightness (?arc e) \<le> 1
      \<and> ((\<exists>r < length (sl_rows legend). ta_ring (?arc e) = int (st_rings ?trail) - 1 - int r
              \<and> ta_model (?arc e) = sr_id (sl_rows legend ! r) \<and> ta_color (?arc e) = sr_color (sl_rows legend ! r))
          \<or> ta_ring (?arc e) = 0 \<and> st_rings ?trail = length (sl_rows legend) + 1 \<and> ta_model (?arc e) = None
            \<and> ta_color (?arc e) = MUTED_SERIES_COLOR)"
    if "e \<in> set ?lit" for e
  proof -
    have "rh_total_tokens (snd e) \<le> ?m" by (rule foldl_max_upper) (use that in simp)
    then have "ta_brightness (?arc e) \<le> 1" by (simp add: row_arc_def divide_le_eq_1)
    then show ?thesis
    proof (cases "rh_row (snd e)")
      case None
      with that have "list_ex (\<lambda>e. rh_row (snd e) = None) ?lit" by (auto simp: list_ex_iff)
      with \<open>ta_brightness (?arc e) \<le> 1\<close> None show ?thesis by (simp add: row_arc_def arcs(2))
    next
      case (Some r)
      have "length (sl_rows legend) \<le> st_rings ?trail" by (simp add: arcs(2))
      with ok(2) [OF that Some] \<open>ta_brightness (?arc e) \<le> 1\<close> Some show ?thesis
        by (auto simp: row_arc_def)
    qed
  qed
  then show ?thesis
    using keys sums light_rows(2,3) [where legend = legend and bs = byHourModel]
    by (simp add: Let_def arcs(1) sum_list_sort_by list_all_iff)
qed

section \<open>The clients' bar\<close>

abbreviation count_client where
  "count_client \<equiv> \<lambda>(known, unknown) g. case known_client (ug_id g) of
     Some c \<Rightarrow> (upsert c 0 (\<lambda>n. n + ut_total_tokens g) known, unknown)
   | None \<Rightarrow> (known, unknown + ut_total_tokens g)"

lemma count_clients:
  assumes "\<forall>g \<in> set groups. ut_total_tokens g \<ge> 0"
    and "distinct (map fst known)" and "list_all (\<lambda>(c, n). n \<ge> 0) known" and "unknown \<ge> (0 :: int)"
    and "foldl count_client (known, unknown) groups = (known', unknown')"
  shows "distinct (map fst known') \<and> list_all (\<lambda>(c, n). n \<ge> 0) known' \<and> unknown' \<ge> 0
    \<and> sum_list (map snd known') + unknown'
       = sum_list (map snd known) + unknown + sum_list (map ut_total_tokens groups)"
  using assms
proof (induction groups arbitrary: known unknown)
  case (Cons g groups)
  show ?case
  proof (cases "known_client (ug_id g)")
    case None
    with Cons.IH [of known "unknown + ut_total_tokens g"] Cons.prems show ?thesis by simp
  next
    case (Some c)
    let ?known = "upsert c 0 (\<lambda>n. n + ut_total_tokens g) known"
    have "list_all (\<lambda>(c, n). n \<ge> 0) ?known"
      using Cons.prems by (intro upsert_all) auto
    moreover have "sum_list (map snd ?known) = sum_list (map snd known) + ut_total_tokens g"
      using upsert_sum [of "\<lambda>n. n" "\<lambda>n. n + ut_total_tokens g" "ut_total_tokens g" 0 c known]
      by (simp add: comp_def)
    ultimately show ?thesis
      using Cons.IH [of ?known unknown] Cons.prems Some by (simp add: upsert_distinct)
  qed
qed simp

lemma sum_positive_part:
  fixes f :: "'a \<Rightarrow> int"
  shows "\<forall>x \<in> set xs. f x \<ge> 0 \<Longrightarrow> sum_list (map f (filter (\<lambda>x. f x > 0) xs)) = sum_list (map f xs)"
  by (induction xs) force+

lemma client_segments_facts:
  assumes "\<forall>g \<in> set groups. ut_total_tokens g \<ge> 0"
  shows "sum_list (map snd (client_segments collate groups)) = sum_list (map ut_total_tokens groups)"
    and "\<forall>s \<in> set (client_segments collate groups). snd s > 0"
    and "distinct (map fst (client_segments collate groups))"
proof -
  obtain known unknown where f: "foldl count_client ([], 0) groups = (known, unknown)"
    by fastforce
  note facts = count_clients [OF assms _ _ _ f, simplified]
  let ?k = "filter (\<lambda>s. snd s > 0) (map (\<lambda>(c, n). (Some c, n)) known)"
  have seg: "client_segments collate groups
      = sort_by (by_tokens collate) ?k @ (if unknown > 0 then [(None, unknown)] else [])"
    by (simp add: client_segments_def f)
  have "sum_list (map snd ?k) = sum_list (map snd (map (\<lambda>(c, n). (Some c, n)) known))"
    by (rule sum_positive_part) (use facts in \<open>auto simp: list_all_iff\<close>)
  then show "sum_list (map snd (client_segments collate groups)) = sum_list (map ut_total_tokens groups)"
    using facts by (simp add: seg sum_list_sort_by case_prod_unfold comp_def)
  show "\<forall>s \<in> set (client_segments collate groups). snd s > 0" by (auto simp: seg)
  have "map fst (map (\<lambda>(c, n). (Some c, n)) known) = map Some (map fst known)" by auto
  moreover have "distinct (map Some (map fst known))" using facts
    by (subst distinct_map) (simp add: inj_on_def)
  ultimately have "distinct (map fst ?k)" by (metis distinct_map_filter)
  then show "distinct (map fst (client_segments collate groups))"
    by (auto simp: seg simp del: filter_map)
qed

lemma client_columns:
  "map sh_total_tokens (clientShares collate groups) = map snd (client_segments collate groups)"
  "map sh_id (clientShares collate groups) = map fst (client_segments collate groups)"
  "map sh_percent (clientShares collate groups) = wholePercents (map snd (client_segments collate groups))"
  by (rule nth_equalityI; simp add: clientShares_def Let_def nth_enumerate_eq case_prod_unfold)+

text \<open>
  The clients' bar is whole: with token counts that are not negative, its segments are of
  distinct clients, all of them positive, they carry every token, and their percentages add up
  to 100 unless there is no token at all.
\<close>

theorem client_shares_whole:
  assumes "\<forall>g \<in> set groups. ut_total_tokens g \<ge> 0"
  shows "let shares = clientShares collate groups in
    distinct (map sh_id shares) \<and> list_all (\<lambda>s. sh_total_tokens s > 0) shares
    \<and> sum_list (map sh_total_tokens shares) = sum_list (map ut_total_tokens groups)
    \<and> sum_list (map sh_percent shares) = (if sum_list (map ut_total_tokens groups) > 0 then 100 else 0)"
proof -
  let ?v = "map snd (client_segments collate groups)"
  note seg = client_segments_facts [OF assms, of collate]
  have "total_of (max 0) ?v = sum_list ?v"
    using seg(2) by (simp add: total_of_sum map_idI max_absorb2 less_imp_le cong: map_cong)
  moreover have "sum_list (wholePercents ?v) = 0" if "\<not> total_of (max 0) ?v > 0"
    using that unfolding wholePercents_def Let_def by (simp add: sum_list_triv comp_def)
  ultimately have "sum_list (wholePercents ?v) = (if sum_list (map ut_total_tokens groups) > 0 then 100 else 0)"
    using wholePercents_sum [of ?v] seg(1) by (cases "total_of (max 0) ?v > 0") simp_all
  moreover have "\<forall>n \<in> set (map sh_total_tokens (clientShares collate groups)). n > 0"
    unfolding client_columns using seg(2) by simp
  then have "list_all (\<lambda>s. sh_total_tokens s > 0) (clientShares collate groups)"
    by (simp add: list_all_iff)
  ultimately show ?thesis using seg by (simp add: Let_def client_columns)
qed

theorem client_shares_whole_witness:
  "sum_list (map sh_total_tokens (clientShares (\<lambda>_ _. 0)
     [empty_group (Some (js ''codex''))\<lparr>ut_total_tokens := 7\<rparr>])) = 7"
  using client_shares_whole [of "[empty_group (Some (js ''codex''))\<lparr>ut_total_tokens := 7\<rparr>]" "\<lambda>_ _. 0"]
  by (simp add: Let_def)

end
