(* ===== verification/Session_Context.thy ===== *)
theory Session_Context
  imports Live_Merge Js_Numbers
begin

text \<open>
  \<open>request-context-model.ts\<close>: what a conversation sent the model, call by call. The context
  meter, the place of each call, the notes beside the calls, a call's input by source, how
  each carried item changed, exact sums of dollar amounts, the axis and the runs of the
  context curve. \<open>i18n.t\<close> is an argument. Numbers are exact where the code has doubles.
\<close>

section \<open>Data\<close>

record context_call =
  cc_request_id :: jstr
  cc_tokens :: int

record context_compaction =
  cn_request_id :: jstr
  cn_summary_request_id :: "jstr option"
  cn_before_tokens :: int
  cn_after_tokens :: int
  cn_marked :: bool

datatype cache_miss_reason = ProviderChanged | ModelChanged | CacheExpired | PrefixChanged | MissUnknown

record cache_miss =
  cs_request_id :: jstr
  cs_reason :: cache_miss_reason
  cs_changed :: "jstr option"
  cs_idle_ms :: "rat option"
  cs_ttl_ms :: "rat option"
  cs_rewritten_tokens :: int
  cs_extra_usd :: "jstr option"

record session_context =
  sx_calls :: "context_call list"
  sx_compactions :: "context_compaction list"
  sx_cache_misses :: "cache_miss list"

text \<open>A parameter of a translated text, and \<open>i18n.t\<close>.\<close>

datatype text_param = TextNum int | TextStr jstr

type_synonym translate = "string \<Rightarrow> (string \<times> text_param) list \<Rightarrow> jstr"

section \<open>The context meter\<close>

definition CONTEXT_WARNING_PERCENT :: rat where "CONTEXT_WARNING_PERCENT = 85"

datatype meter_basis = BasisCompaction | BasisWindow

record context_meter_value =
  mt_tokens :: int
  mt_limit :: int
  mt_basis :: meter_basis
  mt_percent :: rat
  mt_warning :: bool

text \<open>A number that is absent, null or zero is falsy.\<close>

definition truthy_int :: "int option \<Rightarrow> bool" where
  "truthy_int x \<longleftrightarrow> x \<noteq> None \<and> x \<noteq> Some 0"

definition contextMeterValue :: "request_session \<Rightarrow> context_meter_value option" where
  "contextMeterValue session =
     (case se_context_tokens session of
        None \<Rightarrow> None
      | Some tokens \<Rightarrow>
          (let point = se_compaction_point_tokens session;
               window = se_context_window_tokens session;
               basis = (if truthy_int point then Some BasisCompaction
                        else if truthy_int window then Some BasisWindow else None);
               limit = (if truthy_int point then point else window) in
           case (basis, limit) of
             (Some b, Some l) \<Rightarrow>
               (if l = 0 then None
                else
                  (let percent = of_int tokens / of_int l * 100 in
                   Some \<lparr>mt_tokens = tokens, mt_limit = l, mt_basis = b, mt_percent = percent,
                         mt_warning = percent \<ge> CONTEXT_WARNING_PERCENT\<rparr>))
           | _ \<Rightarrow> None))"

section \<open>Turns and places\<close>

record trajectory_turn_group =
  tg_turn_index :: "int option"
  tg_records :: "request_record list"

definition add_to_turn :: "trajectory_turn_group list \<Rightarrow> request_record \<Rightarrow> trajectory_turn_group list" where
  "add_to_turn groups r =
     (case rev groups of
        g # earlier \<Rightarrow>
          (if tg_turn_index g \<noteq> None \<and> rq_turn_index r \<noteq> None \<and> tg_turn_index g = rq_turn_index r
           then rev earlier @ [g\<lparr>tg_records := tg_records g @ [r]\<rparr>]
           else groups @ [\<lparr>tg_turn_index = rq_turn_index r, tg_records = [r]\<rparr>])
      | [] \<Rightarrow> [\<lparr>tg_turn_index = rq_turn_index r, tg_records = [r]\<rparr>])"

definition groupTurns :: "request_record list \<Rightarrow> trajectory_turn_group list" where
  "groupTurns turns = foldl add_to_turn [] turns"

record call_place =
  pl_turn_index :: "int option"
  pl_index :: nat
  pl_ordinal :: nat

fun place_records ::
  "int option \<Rightarrow> nat \<Rightarrow> nat \<Rightarrow> request_record list \<Rightarrow> (jstr \<times> call_place) list \<Rightarrow> (jstr \<times> call_place) list"
where
  "place_records turn position ordinal [] places = places"
| "place_records turn position ordinal (r # rs) places =
     (let place = \<lparr>pl_turn_index = turn, pl_index = position + 1, pl_ordinal = ordinal + 1\<rparr> in
      place_records turn (position + 1) (ordinal + 1) rs
        (upsert (rq_id r) place (\<lambda>_. place) places))"

fun place_groups ::
  "nat \<Rightarrow> trajectory_turn_group list \<Rightarrow> (jstr \<times> call_place) list \<Rightarrow> (jstr \<times> call_place) list"
where
  "place_groups ordinal [] places = places"
| "place_groups ordinal (g # gs) places =
     place_groups (ordinal + length (tg_records g)) gs
       (place_records (tg_turn_index g) 0 ordinal (tg_records g) places)"

definition callPlaces :: "request_record list \<Rightarrow> (jstr \<times> call_place) list" where
  "callPlaces turns = place_groups 0 (groupTurns turns) []"

section \<open>Notes beside the calls\<close>

record call_markers =
  ma_compaction_before :: "context_compaction option"
  ma_summary :: bool
  ma_memory :: "memory_write list option"

definition no_marker :: call_markers where
  "no_marker = \<lparr>ma_compaction_before = None, ma_summary = False, ma_memory = None\<rparr>"

fun memory_write_kind_name :: "memory_write_kind \<Rightarrow> string" where
  "memory_write_kind_name WriteRules = ''rules''"
| "memory_write_kind_name WriteMemory = ''memory''"

definition writeKey :: "memory_write \<Rightarrow> jstr" where
  "writeKey w = js (memory_write_kind_name (mw_kind w)) @ [0]
     @ (case mw_path w of None \<Rightarrow> mw_name w | Some p \<Rightarrow> p) @ [0]
     @ (case mw_title w of None \<Rightarrow> [] | Some t \<Rightarrow> t)"

type_synonym marker_map = "(jstr \<times> call_markers) list"

definition mark :: "jstr \<Rightarrow> (call_markers \<Rightarrow> call_markers) \<Rightarrow> marker_map \<Rightarrow> marker_map" where
  "mark i f markers = upsert i no_marker f markers"

definition mark_compaction :: "marker_map \<Rightarrow> context_compaction \<Rightarrow> marker_map" where
  "mark_compaction markers c =
     (let marked = mark (cn_request_id c) (ma_compaction_before_update (\<lambda>_. Some c)) markers in
      case cn_summary_request_id c of
        Some (x # s) \<Rightarrow> mark (x # s) (ma_summary_update (\<lambda>_. True)) marked
      | _ \<Rightarrow> marked)"

text \<open>The loop over the calls carries the write keys of the main call before.\<close>

definition mark_record :: "jstr set \<times> marker_map \<Rightarrow> request_record \<Rightarrow> jstr set \<times> marker_map" where
  "mark_record st r =
     (case rq_context r of
        None \<Rightarrow> st
      | Some carried \<Rightarrow>
          if cx_helper carried = Some True then st
          else
            (let markers = (if cx_summary carried = Some True
                   then mark (rq_id r) (ma_summary_update (\<lambda>_. True)) (snd st) else snd st);
                 fresh = filter (\<lambda>w. writeKey w \<notin> fst st) (cx_memory_writes carried) in
             (set (map writeKey (cx_memory_writes carried)),
              if fresh \<noteq> [] then mark (rq_id r) (ma_memory_update (\<lambda>_. Some fresh)) markers else markers)))"

definition callMarkers :: "session_context option \<Rightarrow> request_record list \<Rightarrow> marker_map" where
  "callMarkers context turns =
     (if context = None \<and> \<not> list_ex (\<lambda>r. rq_context r \<noteq> None) turns then []
      else
        (let compactions = (case context of None \<Rightarrow> [] | Some c \<Rightarrow> sx_compactions c) in
         snd (foldl mark_record ({}, foldl mark_compaction [] compactions) turns)))"

section \<open>A call's input by source\<close>

datatype context_source = SrcHistory | SrcToolResults | SrcTools | SrcSystem | SrcMemory | SrcOther

fun part_of :: "context_parts \<Rightarrow> context_source \<Rightarrow> int" where
  "part_of parts SrcHistory = cp_history parts"
| "part_of parts SrcToolResults = cp_tool_results parts"
| "part_of parts SrcTools = cp_tools parts"
| "part_of parts SrcSystem = cp_system parts"
| "part_of parts SrcMemory = cp_memory parts"
| "part_of parts SrcOther = cp_other parts"

record composition_line =
  co_key :: context_source
  co_tokens :: int
  co_share :: int

definition COMPOSITION_ORDER :: "context_source list" where
  "COMPOSITION_ORDER = [SrcHistory, SrcToolResults, SrcTools, SrcSystem, SrcMemory]"

definition breakdownShare :: "int \<Rightarrow> int list \<Rightarrow> int" where
  "breakdownShare value values =
     (let biggest = foldl max 0 values in
      if biggest \<le> 0 \<or> value \<le> 0 then 0 else js_round (of_int value / of_int biggest * 100))"

definition larger_source :: "context_source \<times> int \<Rightarrow> context_source \<times> int \<Rightarrow> int" where
  "larger_source lhs rhs = snd rhs - snd lhs"

definition source_lines :: "context_parts \<Rightarrow> (context_source \<times> int) list" where
  "source_lines parts =
     sort_by larger_source
       (filter (\<lambda>l. snd l > 0) (map (\<lambda>k. (k, part_of parts k)) COMPOSITION_ORDER))
     @ (if cp_other parts > 0 then [(SrcOther, cp_other parts)] else [])"

definition contextComposition :: "context_parts \<Rightarrow> composition_line list" where
  "contextComposition parts =
     (let lines = source_lines parts; values = map snd lines in
      map (\<lambda>(k, n). \<lparr>co_key = k, co_tokens = n, co_share = breakdownShare n values\<rparr>) lines)"

section \<open>Carried items\<close>

datatype carried_change = Unchanged | Changed nat | Added nat | Grew int

fun item_kind_name :: "context_item_kind \<Rightarrow> string" where
  "item_kind_name ItemRules = ''rules''"
| "item_kind_name ItemMemory = ''memory''"
| "item_kind_name ItemSkills = ''skills''"
| "item_kind_name ItemMcp = ''mcp''"

definition itemKey :: "context_item \<Rightarrow> jstr" where
  "itemKey item = js (item_kind_name (ci_kind item)) @ [0]
     @ (case ci_path item of None \<Rightarrow> [] | Some p \<Rightarrow> p) @ [0]
     @ (case ci_name item of None \<Rightarrow> [] | Some n \<Rightarrow> n)"

text \<open>A hash that is absent or empty says nothing.\<close>

definition truthy_hash :: "jstr option \<Rightarrow> bool" where
  "truthy_hash h \<longleftrightarrow> h \<noteq> None \<and> h \<noteq> Some []"

type_synonym item_index = "jstr \<Rightarrow> context_item option"

text \<open>
  The walk back from a position while the item reads the same; \<open>known\<close> is the nearest hash
  seen so far.
\<close>

fun walk_back :: "item_index list \<Rightarrow> jstr \<Rightarrow> nat \<Rightarrow> jstr option \<Rightarrow> nat" where
  "walk_back indexed key 0 known = 0"
| "walk_back indexed key (Suc p) known =
     (case (indexed ! p) key of
        None \<Rightarrow> Suc p
      | Some before \<Rightarrow>
          if truthy_hash known \<and> truthy_hash (ci_hash before) \<and> ci_hash before \<noteq> known then Suc p
          else walk_back indexed key p (if truthy_hash known then known else ci_hash before))"

definition change_of ::
  "item_index list \<Rightarrow> (nat \<Rightarrow> nat) \<Rightarrow> nat \<Rightarrow> context_item \<Rightarrow> carried_change"
where
  "change_of indexed ordinal here_at item =
     (let key = itemKey item;
          unchanged_since = walk_back indexed key here_at (ci_hash item);
          first = (case find_index (\<lambda>items. items key \<noteq> None) indexed of None \<Rightarrow> 0 | Some i \<Rightarrow> i) in
      if unchanged_since = first then (if first = 0 then Unchanged else Added (ordinal first))
      else
        (case (ci_count item, ci_count (the ((indexed ! first) key))) of
           (Some n, Some start) \<Rightarrow>
             (if n > start then Grew (n - start) else Changed (ordinal unchanged_since))
         | _ \<Rightarrow> Changed (ordinal unchanged_since)))"

definition carriedItems ::
  "request_record list \<Rightarrow> session_context \<Rightarrow> jstr \<Rightarrow> (jstr \<times> call_place) list
     \<Rightarrow> (context_item \<times> carried_change) list"
where
  "carriedItems turns context requestId places =
     (let main = set (map cc_request_id (sx_calls context));
          observed = filter (\<lambda>r. rq_id r \<in> main \<and> rq_context r \<noteq> None) turns in
      case find_index (\<lambda>r. rq_id r = requestId) observed of
        None \<Rightarrow> []
      | Some here_at \<Rightarrow>
          (let indexed = map (\<lambda>r. last_by itemKey (cx_items (the (rq_context r))))
                 (take (here_at + 1) observed);
               ordinal = (\<lambda>position. case map_of places (rq_id (observed ! position)) of
                   None \<Rightarrow> position + 1 | Some place \<Rightarrow> pl_ordinal place) in
           map (\<lambda>item. (item, change_of indexed ordinal here_at item))
             (filter (\<lambda>item. ci_kind item \<noteq> ItemMcp)
               (cx_items (the (rq_context (observed ! here_at)))))))"

definition carriedKind :: "translate \<Rightarrow> context_item \<Rightarrow> jstr" where
  "carriedKind t item =
     (case ci_kind item of
        ItemRules \<Rightarrow>
          (case ci_scope item of
             Some ScopeGlobal \<Rightarrow> t ''sessionContext.carriedGlobalRules'' []
           | Some ScopeProject \<Rightarrow> t ''sessionContext.carriedProjectRules'' []
           | Some ScopeLocal \<Rightarrow> t ''sessionContext.carriedLocalRules'' []
           | None \<Rightarrow> t ''sessionContext.carriedRules'' [])
      | ItemMemory \<Rightarrow>
          (case ci_count item of
             Some n \<Rightarrow> t ''sessionContext.carriedMemoryEntries'' [(''count'', TextNum n)]
           | None \<Rightarrow> t ''sessionContext.carriedMemory'' [])
      | ItemSkills \<Rightarrow>
          t ''sessionContext.carriedSkillCount''
            [(''count'', TextNum (case ci_count item of None \<Rightarrow> 0 | Some n \<Rightarrow> n))]
      | ItemMcp \<Rightarrow>
          (let tools = t ''sessionContext.carriedToolCount''
                 [(''count'', TextNum (case ci_count item of None \<Rightarrow> 0 | Some n \<Rightarrow> n))] in
           case ci_servers item of
             Some (s # ss) \<Rightarrow> join_with [32, 183, 32] ((s # ss) @ [tools])
           | _ \<Rightarrow> tools))"

definition carriedName :: "translate \<Rightarrow> context_item \<Rightarrow> jstr" where
  "carriedName t item =
     (case ci_kind item of
        ItemSkills \<Rightarrow> t ''sessionContext.carriedSkills'' []
      | ItemMcp \<Rightarrow> t ''sessionContext.carriedMcp'' []
      | _ \<Rightarrow> (case ci_name item of None \<Rightarrow> t ''sessionContext.carriedUnnamed'' [] | Some n \<Rightarrow> n))"

definition carriedChangeText :: "translate \<Rightarrow> carried_change \<Rightarrow> jstr" where
  "carriedChangeText t change =
     (case change of
        Unchanged \<Rightarrow> t ''sessionContext.carriedUnchanged'' []
      | Changed ordinal \<Rightarrow>
          t ''sessionContext.carriedChangedSince'' [(''ordinal'', TextNum (int ordinal))]
      | Added ordinal \<Rightarrow> t ''sessionContext.carriedAddedAt'' [(''ordinal'', TextNum (int ordinal))]
      | Grew gained \<Rightarrow> t ''sessionContext.carriedGrew'' [(''count'', TextNum gained)])"

section \<open>Exact sums\<close>

definition NANOS_PER_USD :: int where "NANOS_PER_USD = 1000000000"

text \<open>\<open>BigInt(text)\<close>; \<open>None\<close> is the \<open>SyntaxError\<close>.\<close>

definition bigint :: "jstr \<Rightarrow> int option" where
  "bigint text =
     (let s = trim text in
      if s = [] then Some 0
      else case radix_literal s of
        Some (b, ds) \<Rightarrow>
          (if ds \<noteq> [] \<and> list_all (\<lambda>c. base_digit c < b) ds then Some (int (radix_value b ds)) else None)
      | None \<Rightarrow>
          (let (neg, ds) = sign_split s in
           if ds \<noteq> [] \<and> list_all is_digit ds
           then Some (if neg then - int (digits_value ds) else int (digits_value ds)) else None))"

definition pad_end :: "nat \<Rightarrow> nat \<Rightarrow> jstr \<Rightarrow> jstr" where
  "pad_end n c s = s @ replicate (n - length s) c"

definition pad_left :: "nat \<Rightarrow> nat \<Rightarrow> jstr \<Rightarrow> jstr" where
  "pad_left n c s = replicate (n - length s) c @ s"

definition nanos :: "jstr \<Rightarrow> int option" where
  "nanos amount =
     (let parts = split_on 46 amount;
          fraction = (if length parts > 1 then parts ! 1 else []) in
      case (bigint (parts ! 0), bigint (take 9 (pad_end 9 48 fraction))) of
        (Some w, Some f) \<Rightarrow> Some (w * NANOS_PER_USD + f)
      | _ \<Rightarrow> None)"

fun sum_nanos :: "int \<Rightarrow> jstr list \<Rightarrow> int option" where
  "sum_nanos n [] = Some n"
| "sum_nanos n (a # as) = (case nanos a of None \<Rightarrow> None | Some m \<Rightarrow> sum_nanos (n + m) as)"

text \<open>BigInt division truncates, and its rest has the sign of the dividend.\<close>

definition big_quotient :: "int \<Rightarrow> int \<Rightarrow> int" where
  "big_quotient a b = sgn a * sgn b * (\<bar>a\<bar> div \<bar>b\<bar>)"

definition big_rest :: "int \<Rightarrow> int \<Rightarrow> int" where
  "big_rest a b = sgn a * (\<bar>a\<bar> mod \<bar>b\<bar>)"

definition big_string :: "int \<Rightarrow> jstr" where
  "big_string n = (if n < 0 then 45 # dec (nat (- n)) else dec (nat n))"

text \<open>The outer option is the exception of a malformed amount, the inner one the null.\<close>

definition sumUSD :: "jstr list \<Rightarrow> jstr option option" where
  "sumUSD amounts =
     (if amounts = [] then Some None
      else
        (case sum_nanos 0 amounts of
           None \<Rightarrow> None
         | Some n \<Rightarrow>
             Some (Some (big_string (big_quotient n NANOS_PER_USD) @ js ''.''
               @ pad_left 9 48 (big_string (big_rest n NANOS_PER_USD))))))"

section \<open>The curve\<close>

text \<open>\<open>Math.floor(Math.log10(x))\<close> of a positive number: from its digits.\<close>

definition floor_log10 :: "rat \<Rightarrow> int" where
  "floor_log10 x =
     (if x \<ge> 1 then int (length (dec (nat \<lfloor>x\<rfloor>))) - 1
      else - int (length (dec (nat (\<lceil>1 / x\<rceil> - 1)))))"

definition contextAxis :: "rat \<Rightarrow> rat \<Rightarrow> rat \<times> rat" where
  "contextAxis peak intervals =
     (if \<not> peak > 0 then (1, 1)
      else
        (let raw = peak / intervals;
             magnitude = pow10 (floor_log10 raw);
             step = (case List.find (\<lambda>candidate. candidate \<ge> raw)
                 (map (\<lambda>factor. factor * magnitude) [1, 2, 5 / 2, 5, 10]) of
               None \<Rightarrow> 10 * magnitude | Some s \<Rightarrow> s) in
         (of_int \<lceil>peak / step\<rceil> * step, step)))"

record context_run =
  cu_from :: nat
  cu_to :: nat

fun run_calls :: "jstr set \<Rightarrow> nat \<Rightarrow> context_call list \<Rightarrow> context_run list \<Rightarrow> context_run list" where
  "run_calls starts position [] runs = runs"
| "run_calls starts position (c # cs) runs =
     run_calls starts (position + 1) cs
       (if runs = [] \<or> cc_request_id c \<in> starts
        then runs @ [\<lparr>cu_from = position, cu_to = position\<rparr>]
        else butlast runs @ [(last runs)\<lparr>cu_to := position\<rparr>])"

definition contextRuns :: "session_context \<Rightarrow> context_run list" where
  "contextRuns context =
     run_calls (set (map cn_request_id (sx_compactions context))) 0 (sx_calls context) []"

definition nearestCall :: "int \<Rightarrow> rat \<Rightarrow> int" where
  "nearestCall calls' share =
     (if calls' \<le> 1 then 0
      else js_round (min 1 (max 0 share) * of_int (calls' - 1)))"

section \<open>Lines\<close>

text \<open>\<open>x.toFixed(1)\<close> of a number that is not negative: the nearest tenth, halves up.\<close>

definition to_fixed_1 :: "rat \<Rightarrow> jstr" where
  "to_fixed_1 x =
     (let n = nat \<lfloor>x * 10 + 1 / 2\<rfloor> in dec (n div 10) @ js ''.'' @ dec (n mod 10))"

definition float_rest :: "rat \<Rightarrow> rat \<Rightarrow> rat" where
  "float_rest x m = x - of_int \<lfloor>x / m\<rfloor> * m"

text \<open>Durations of a span of time, which is not negative.\<close>

definition formatDuration :: "rat \<Rightarrow> jstr" where
  "formatDuration milliseconds =
     (if milliseconds < 1000 then big_string (js_round milliseconds) @ js '' ms''
      else if milliseconds < 60000 then to_fixed_1 (milliseconds / 1000) @ js '' s''
      else if milliseconds < 3600000 then
        big_string \<lfloor>milliseconds / 60000\<rfloor> @ js ''m ''
          @ pad_left 2 48 (big_string \<lfloor>float_rest milliseconds 60000 / 1000\<rfloor>) @ js ''s''
      else
        big_string \<lfloor>milliseconds / 3600000\<rfloor> @ js ''h ''
          @ pad_left 2 48 (big_string \<lfloor>float_rest milliseconds 3600000 / 60000\<rfloor>) @ js ''m'')"

definition cacheMissReason :: "translate \<Rightarrow> cache_miss \<Rightarrow> jstr option" where
  "cacheMissReason t miss =
     (case cs_reason miss of
        ProviderChanged \<Rightarrow> Some (t ''sessionContext.reasonProvider'' [])
      | ModelChanged \<Rightarrow> Some (t ''sessionContext.reasonModel'' [])
      | CacheExpired \<Rightarrow>
          Some (t ''sessionContext.reasonExpired''
            [(''idle'', TextStr (formatDuration (case cs_idle_ms miss of None \<Rightarrow> 0 | Some n \<Rightarrow> n)))])
      | PrefixChanged \<Rightarrow>
          (case cs_changed miss of
             None \<Rightarrow> None
           | Some changed \<Rightarrow>
               if changed = [] then None
               else if changed = js ''system'' then Some (t ''sessionContext.reasonSystem'' [])
               else if changed = js ''tools'' then Some (t ''sessionContext.reasonTools'' [])
               else if changed = js ''skills'' then Some (t ''sessionContext.reasonSkills'' [])
               else if changed = js ''rules'' then Some (t ''sessionContext.reasonRules'' [])
               else if changed = js ''memory'' then Some (t ''sessionContext.reasonMemory'' [])
               else Some (t ''sessionContext.reasonFile'' [(''file'', TextStr changed)]))
      | MissUnknown \<Rightarrow> None)"

definition memoryWriteLine :: "translate \<Rightarrow> memory_write \<Rightarrow> jstr" where
  "memoryWriteLine t w =
     (let rules = mw_kind w = WriteRules in
      case mw_title w of
        Some (c # s) \<Rightarrow>
          t (if rules then ''sessionContext.rulesAdded'' else ''sessionContext.memoryAdded'')
            [(''title'', TextStr (c # s))]
      | _ \<Rightarrow>
          t (if rules then ''sessionContext.rulesAddedUntitled''
             else ''sessionContext.memoryAddedUntitled'') [])"

definition failedRepeatsText :: "translate \<Rightarrow> failed_repeats \<Rightarrow> jstr" where
  "failedRepeatsText t repeats =
     t (if fr_command repeats = Some True then ''sessionContext.failedRepeatsCommand''
        else ''sessionContext.failedRepeatsCall'')
       [(''tool'', TextStr (fr_tool repeats)), (''times'', TextNum (fr_count repeats))]"

definition callPlaceLabel :: "translate \<Rightarrow> call_place option \<Rightarrow> jstr" where
  "callPlaceLabel t place =
     (case place of
        None \<Rightarrow> []
      | Some p \<Rightarrow>
          (case pl_turn_index p of
             None \<Rightarrow> t ''sessionContext.callPlaceUnnumbered'' [(''index'', TextNum (int (pl_index p)))]
           | Some turn \<Rightarrow>
               t ''sessionContext.callPlace'' [(''turn'', TextNum turn), (''index'', TextNum (int (pl_index p)))]))"

section \<open>Places\<close>

text \<open>The places of one group's calls, and of all groups, as a list.\<close>

definition group_places :: "nat \<Rightarrow> trajectory_turn_group \<Rightarrow> (jstr \<times> call_place) list" where
  "group_places ordinal g = map (\<lambda>(i, r).
     (rq_id r, \<lparr>pl_turn_index = tg_turn_index g, pl_index = i + 1, pl_ordinal = ordinal + i + 1\<rparr>))
     (enumerate 0 (tg_records g))"

fun all_places :: "nat \<Rightarrow> trajectory_turn_group list \<Rightarrow> (jstr \<times> call_place) list" where
  "all_places ordinal [] = []"
| "all_places ordinal (g # gs) = group_places ordinal g @ all_places (ordinal + length (tg_records g)) gs"

lemma all_places_append:
  "all_places n (gs @ hs) = all_places n gs @ all_places (n + length (concat (map tg_records gs))) hs"
  by (induction gs arbitrary: n) (simp_all add: add.assoc)

lemma all_places_ids: "map fst (all_places n gs) = map rq_id (concat (map tg_records gs))"
proof (induction gs arbitrary: n)
  case (Cons g gs)
  have "map fst (group_places n g) = map rq_id (tg_records g)"
    by (rule nth_equalityI) (simp_all add: group_places_def nth_enumerate_eq case_prod_unfold)
  with Cons show ?case by simp
qed simp

lemma place_records_append:
  assumes "i \<le> n" and "distinct (map fst places @ map rq_id rs)"
  shows "place_records turn i n rs places = places @ map (\<lambda>(j, r).
      (rq_id r, \<lparr>pl_turn_index = turn, pl_index = j + 1, pl_ordinal = n - i + j + 1\<rparr>)) (enumerate i rs)"
  using assms
proof (induction rs arbitrary: i n places)
  case (Cons r rs)
  then have "rq_id r \<notin> fst ` set places" by auto
  with Cons show ?case by (simp add: Let_def upsert_new Suc_diff_le)
qed simp

lemma place_groups_append:
  "distinct (map fst places @ map rq_id (concat (map tg_records gs))) \<Longrightarrow>
    place_groups n gs places = places @ all_places n gs"
proof (induction gs arbitrary: n places)
  case (Cons g gs)
  have own: "place_records (tg_turn_index g) 0 n (tg_records g) places = places @ group_places n g"
    by (subst place_records_append) (use Cons.prems in \<open>auto simp: group_places_def\<close>)
  have ids: "map fst (group_places n g) = map rq_id (tg_records g)"
    using all_places_ids [of n "[g]"] by simp
  have "fst ` set (group_places n g) = rq_id ` set (tg_records g)"
    using arg_cong [OF ids, of set] by simp
  then have "distinct (map fst (places @ group_places n g) @ map rq_id (concat (map tg_records gs)))"
    using Cons.prems ids by auto
  from Cons.IH [OF this, of "n + length (tg_records g)"] own show ?case by simp
qed simp

lemma add_to_turn_records: "concat (map tg_records (add_to_turn gs r)) = concat (map tg_records gs) @ [r]"
  by (cases gs rule: rev_cases) (auto simp: add_to_turn_def)

lemma groupTurns_snoc: "groupTurns (rs @ [r]) = add_to_turn (groupTurns rs) r"
  by (simp add: groupTurns_def)

lemma groupTurns_records: "concat (map tg_records (groupTurns turns)) = turns"
  by (induction turns rule: rev_induct) (simp_all add: groupTurns_snoc add_to_turn_records groupTurns_def)

text \<open>Where a call goes: one further in the turn it continues, else first.\<close>

definition next_index :: "(jstr \<times> call_place) list \<Rightarrow> request_record \<Rightarrow> nat" where
  "next_index places r =
     (if places \<noteq> [] \<and> rq_turn_index r \<noteq> None \<and> pl_turn_index (snd (last places)) = rq_turn_index r
      then pl_index (snd (last places)) + 1 else 1)"

lemma group_places_snoc:
  "group_places n (g\<lparr>tg_records := tg_records g @ [r]\<rparr>) = group_places n g
    @ [(rq_id r, \<lparr>pl_turn_index = tg_turn_index g, pl_index = length (tg_records g) + 1,
          pl_ordinal = n + length (tg_records g) + 1\<rparr>)]"
  by (simp add: group_places_def enumerate_append_eq)

lemma group_places_single: "group_places n \<lparr>tg_turn_index = t, tg_records = [r]\<rparr>
    = [(rq_id r, \<lparr>pl_turn_index = t, pl_index = 1, pl_ordinal = n + 1\<rparr>)]"
  by (simp add: group_places_def)

lemma all_places_add:
  assumes "\<forall>g \<in> set gs. tg_records g \<noteq> []"
  shows "all_places 0 (add_to_turn gs r) = all_places 0 gs
    @ [(rq_id r, \<lparr>pl_turn_index = rq_turn_index r, pl_index = next_index (all_places 0 gs) r,
         pl_ordinal = length (all_places 0 gs) + 1\<rparr>)]"
proof (cases gs rule: rev_cases)
  case Nil
  then show ?thesis by (simp add: add_to_turn_def group_places_def next_index_def)
next
  case (snoc hs g)
  let ?n = "length (concat (map tg_records hs))"
  have len: "length (all_places 0 hs) = ?n"
    using arg_cong [OF all_places_ids [of 0 hs], of length] by simp
  have g: "tg_records g \<noteq> []" using assms snoc by simp
  then have last: "last (group_places ?n g) = (rq_id (last (tg_records g)),
      \<lparr>pl_turn_index = tg_turn_index g, pl_index = length (tg_records g),
       pl_ordinal = ?n + length (tg_records g)\<rparr>)" and ne: "group_places ?n g \<noteq> []"
    by (cases "tg_records g" rule: rev_cases; simp add: group_places_def enumerate_append_eq)+
  have glen: "length (group_places ?n g) = length (tg_records g)" by (simp add: group_places_def)
  show ?thesis
    using ne len glen last
    by (auto simp: snoc add_to_turn_def all_places_append next_index_def group_places_snoc group_places_single)
qed

lemma groupTurns_nonempty: "\<forall>g \<in> set (groupTurns turns). tg_records g \<noteq> []"
proof (induction turns rule: rev_induct)
  case (snoc r turns)
  have "\<forall>g \<in> set (add_to_turn gs r). tg_records g \<noteq> []" if "\<forall>g \<in> set gs. tg_records g \<noteq> []" for gs
    using that by (cases gs rule: rev_cases) (auto simp: add_to_turn_def)
  with snoc show ?case by (simp add: groupTurns_snoc)
qed (simp add: groupTurns_def)

lemma callPlaces_all: "distinct (map rq_id turns) \<Longrightarrow> callPlaces turns = all_places 0 (groupTurns turns)"
  using place_groups_append [of "[]" "groupTurns turns" 0]
  by (simp add: callPlaces_def groupTurns_records)

text \<open>
  Each call has one place. With distinct request IDs the places list the calls in order,
  numbered from 1 through the conversation, and a further call is first in its turn unless it
  has the turn index of the call right before it, whose position it then follows.
\<close>

theorem call_places_numbered:
  assumes "distinct (map rq_id (turns @ [r]))"
  shows "callPlaces (turns @ [r]) = callPlaces turns
      @ [(rq_id r, \<lparr>pl_turn_index = rq_turn_index r, pl_index = next_index (callPlaces turns) r,
           pl_ordinal = length turns + 1\<rparr>)]
    \<and> map fst (callPlaces turns) = map rq_id turns
    \<and> map (pl_ordinal \<circ> snd) (callPlaces turns) = [1..<length turns + 1]"
proof -
  have places: "callPlaces (ts @ [x]) = callPlaces ts
      @ [(rq_id x, \<lparr>pl_turn_index = rq_turn_index x, pl_index = next_index (callPlaces ts) x,
           pl_ordinal = length ts + 1\<rparr>)]" and ids: "map fst (callPlaces ts) = map rq_id ts"
    if "distinct (map rq_id (ts @ [x]))" for ts x
  proof -
    show ids: "map fst (callPlaces ts) = map rq_id ts"
      using that by (simp add: callPlaces_all all_places_ids groupTurns_records)
    show "callPlaces (ts @ [x]) = callPlaces ts
      @ [(rq_id x, \<lparr>pl_turn_index = rq_turn_index x, pl_index = next_index (callPlaces ts) x,
           pl_ordinal = length ts + 1\<rparr>)]"
      using that arg_cong [OF ids, of length]
      by (simp add: callPlaces_all groupTurns_snoc all_places_add [OF groupTurns_nonempty])
  qed
  have "map (pl_ordinal \<circ> snd) (callPlaces ts) = [1..<length ts + 1]" if "distinct (map rq_id ts)" for ts
    using that
  proof (induction ts rule: rev_induct)
    case (snoc x ts)
    then show ?case by (simp add: places [OF snoc.prems])
  qed (simp add: callPlaces_def groupTurns_def)
  with places [OF assms] ids [OF assms] assms show ?thesis by simp
qed

section \<open>Runs\<close>

lemma run_calls_append:
  "run_calls starts p (cs @ ds) runs = run_calls starts (p + length cs) ds (run_calls starts p cs runs)"
  by (induction cs arbitrary: p runs) simp_all

abbreviation covered :: "context_run list \<Rightarrow> nat list" where
  "covered runs \<equiv> concat (map (\<lambda>r. [cu_from r..<cu_to r + 1]) runs)"

lemma run_calls_facts:
  fixes starts cs
  defines "runs \<equiv> run_calls starts 0 cs []"
  shows "covered runs = [0..<length cs] \<and> (\<forall>r \<in> set runs. cu_from r \<le> cu_to r \<and> cu_to r < length cs)
    \<and> (cs \<noteq> [] \<longrightarrow> runs \<noteq> [] \<and> Suc (cu_to (last runs)) = length cs)
    \<and> (\<forall>p < length cs. (\<exists>r \<in> set runs. cu_from r = p) \<longleftrightarrow> p = 0 \<or> cc_request_id (cs ! p) \<in> starts)"
  unfolding runs_def
proof (induction cs rule: rev_induct)
  case (snoc c cs)
  let ?runs = "run_calls starts 0 cs []"
  have step: "run_calls starts 0 (cs @ [c]) [] =
      (if ?runs = [] \<or> cc_request_id c \<in> starts
        then ?runs @ [\<lparr>cu_from = length cs, cu_to = length cs\<rparr>]
        else butlast ?runs @ [(last ?runs)\<lparr>cu_to := length cs\<rparr>])"
    by (simp add: run_calls_append)
  show ?case
  proof (cases ?runs rule: rev_cases)
    case Nil
    with snoc have "cs = []" by auto
    then show ?thesis by simp
  next
    case (snoc rs r)
    from \<open>?runs = rs @ [r]\<close> snoc.IH have "cs \<noteq> []" by auto
    with snoc snoc.IH have r: "Suc (cu_to r) = length cs" "cu_from r \<le> cu_to r"
      "covered rs @ [cu_from r..<length cs] = [0..<length cs]" by (auto simp del: upt_Suc)
    then have cover: "covered rs @ [cu_from r..<Suc (length cs)] = [0..<Suc (length cs)]"
      using \<open>cs \<noteq> []\<close> by (simp add: le_Suc_eq flip: append_assoc)
    have "covered rs @ [cu_from r..<length cs] @ [length cs..<Suc (length cs)] = [0..<Suc (length cs)]"
      using r(3) by simp
    with snoc snoc.IH r cover \<open>cs \<noteq> []\<close> show ?thesis
      unfolding step by (auto simp: nth_append less_Suc_eq simp del: upt_Suc)
  qed
qed simp

text \<open>
  The runs cut the curve of the context where the client compacted and nowhere else: they
  cover the positions of all calls once, in order, none of them is empty, and a run begins
  exactly at the first call and at the calls a compaction names.
\<close>

theorem context_runs_partition:
  "let runs = contextRuns context; n = length (sx_calls context) in
    covered runs = [0..<n] \<and> list_all (\<lambda>r. cu_from r \<le> cu_to r) runs
    \<and> list_all (\<lambda>p. p \<in> cu_from ` set runs
        \<longleftrightarrow> p = 0 \<or> cc_request_id (sx_calls context ! p) \<in> cn_request_id ` set (sx_compactions context)) [0..<n]"
  using run_calls_facts [of "cn_request_id ` set (sx_compactions context)" "sx_calls context"]
  by (auto simp: contextRuns_def Let_def list_all_iff image_iff)

section \<open>The axis\<close>

lemma dec_length_bounds: "n > 0 \<Longrightarrow> 10 ^ (length (dec n) - 1) \<le> n \<and> n < 10 ^ length (dec n)"
proof -
  assume "n > 0"
  have "length (dec n) = 1 \<or> n \<ge> 10 ^ (length (dec n) - 1)" by (rule length_dec)
  with \<open>n > 0\<close> have "10 ^ (length (dec n) - 1) \<le> n" by auto
  moreover have "n < 10 ^ length (dec n)"
    using digits_value_less [OF dec_all_digits [of n]] by simp
  ultimately show ?thesis by simp
qed

lemma floor_log10_bounds:
  assumes "x > 0"
  shows "pow10 (floor_log10 x) \<le> x" and "x < 10 * pow10 (floor_log10 x)"
proof -
  have "pow10 (floor_log10 x) \<le> x \<and> x < 10 * pow10 (floor_log10 x)"
  proof (cases "x \<ge> 1")
    case True
    let ?n = "nat \<lfloor>x\<rfloor>"
    let ?k = "length (dec ?n) - 1"
    have pos: "?n > 0" using True by simp
    have k: "length (dec ?n) = Suc ?k" by simp
    then have p: "pow10 (floor_log10 x) = 10 ^ ?k" using True by (simp add: floor_log10_def pow10_def)
    have "10 ^ ?k \<le> ?n" "?n < 10 ^ Suc ?k" using dec_length_bounds [OF pos] k by simp_all
    then have "(10 ^ ?k :: int) \<le> \<lfloor>x\<rfloor>" "\<lfloor>x\<rfloor> < 10 ^ Suc ?k"
      using True by (auto simp: nat_less_iff le_nat_iff)
    then have "of_int (10 ^ ?k) \<le> x" "x < of_int (10 ^ Suc ?k)"
      by (simp_all only: le_floor_iff floor_less_iff)
    then show ?thesis unfolding p power_Suc [symmetric] by (simp only: of_int_power of_int_numeral)
  next
    case False
    let ?m = "nat (\<lceil>1 / x\<rceil> - 1)"
    let ?k = "length (dec ?m)"
    have "1 / x > 1" using False assms by simp
    then have c: "\<lceil>1 / x\<rceil> \<ge> 2" by (simp add: le_ceiling_iff)
    then have pos: "?m > 0" by simp
    have p: "pow10 (floor_log10 x) = 1 / 10 ^ ?k"
      using False by (simp add: floor_log10_def pow10_def)
    have "10 ^ (?k - 1) \<le> ?m" "?m < 10 ^ ?k" using dec_length_bounds [OF pos] by simp_all
    then have "(10 ^ (?k - 1) :: int) \<le> \<lceil>1 / x\<rceil> - 1" "\<lceil>1 / x\<rceil> - 1 < 10 ^ ?k"
      using c by (auto simp: nat_less_iff le_nat_iff)
    then have "(10 ^ (?k - 1) :: int) < \<lceil>1 / x\<rceil>" "\<lceil>1 / x\<rceil> \<le> 10 ^ ?k" by simp_all
    then have "of_int (10 ^ (?k - 1)) < 1 / x" "1 / x \<le> of_int (10 ^ ?k)"
      by (simp_all only: less_ceiling_iff ceiling_le_iff)
    then have "x * 10 ^ (?k - 1) < 1" "1 \<le> x * 10 ^ ?k"
      using assms by (simp_all add: field_simps)
    moreover have "(10 :: rat) ^ ?k = 10 * 10 ^ (?k - 1)"
      by (cases ?k) simp_all
    ultimately show ?thesis unfolding p by (simp add: field_simps)
  qed
  then show "pow10 (floor_log10 x) \<le> x" and "x < 10 * pow10 (floor_log10 x)" by simp_all
qed

lemma axis_step:
  fixes raw m :: rat
  assumes "m \<le> raw" and "raw < 10 * m"
  defines "step \<equiv> case List.find (\<lambda>candidate. candidate \<ge> raw)
      (map (\<lambda>factor. factor * m) [1, 2, 5 / 2, 5, 10]) of None \<Rightarrow> 10 * m | Some s \<Rightarrow> s"
  shows "(\<exists>f \<in> {1, 2, 5 / 2, 5, 10}. step = f * m) \<and> raw \<le> step \<and> step < 5 / 2 * raw"
  using assms(1,2) unfolding step_def by auto

text \<open>
  The axis of the context chart: for a positive peak the step is 1, 2, 2.5, 5 or 10 times
  a power of ten, at least the peak's share of an interval and less than two and a half
  times it; the ceiling is a whole number of steps, no more than the intervals, at or above
  the peak and less than a step above it.
\<close>

theorem context_axis_round:
  assumes "peak > 0" and "intervals > (0 :: nat)"
  shows "let (ceiling', step) = contextAxis peak (of_nat intervals); raw = peak / of_nat intervals in
    (\<exists>e. \<exists>f \<in> {1, 2, 5 / 2, 5, 10}. step = f * pow10 e)
    \<and> raw \<le> step \<and> step < 5 / 2 * raw
    \<and> (\<exists>n. ceiling' = of_int n * step \<and> n \<le> int intervals)
    \<and> peak \<le> ceiling' \<and> ceiling' < peak + step"
proof -
  let ?raw = "peak / of_nat intervals"
  let ?m = "pow10 (floor_log10 ?raw)"
  define step where "step = (case List.find (\<lambda>candidate. candidate \<ge> ?raw)
      (map (\<lambda>factor. factor * ?m) [1, 2, 5 / 2, 5, 10]) of None \<Rightarrow> 10 * ?m | Some s \<Rightarrow> s)"
  have raw: "?raw > 0" using assms by simp
  note m = floor_log10_bounds [OF raw]
  note facts = axis_step [OF m, folded step_def]
  then have pos: "step > 0" using raw by linarith
  have "\<lceil>peak / step\<rceil> \<le> int intervals"
  proof -
    have "peak \<le> of_nat intervals * step"
      using facts assms by (simp add: pos_divide_le_eq mult.commute)
    then show ?thesis using pos by (simp add: ceiling_le_iff pos_divide_le_eq)
  qed
  moreover have "peak \<le> of_int \<lceil>peak / step\<rceil> * step"
    using le_of_int_ceiling [of "peak / step"] pos by (simp only: pos_divide_le_eq)
  moreover have "of_int \<lceil>peak / step\<rceil> < peak / step + 1" by linarith
  then have "of_int \<lceil>peak / step\<rceil> * step < peak + step"
    using pos by (simp add: field_simps)
  moreover have "contextAxis peak (of_nat intervals) = (of_int \<lceil>peak / step\<rceil> * step, step)"
    using assms(1) by (simp add: contextAxis_def Let_def step_def)
  ultimately show ?thesis using facts by (auto simp: Let_def)
qed

theorem call_places_numbered_witness:
  "map fst (callPlaces []) = ([] :: jstr list)"
  using call_places_numbered [of "[]" "undefined :: request_record"] by simp

theorem context_axis_round_witness: "(3700 :: rat) \<le> fst (contextAxis 3700 4)"
  using context_axis_round [of 3700 4] by (simp add: case_prod_unfold Let_def)

section \<open>Carried items\<close>

text \<open>
  An item reads the same from one call to another when every call between carries it and no
  two of those that know its hash disagree.
\<close>

definition same_reading :: "item_index list \<Rightarrow> jstr \<Rightarrow> jstr option \<Rightarrow> nat \<Rightarrow> nat \<Rightarrow> bool" where
  "same_reading indexed key known a b \<longleftrightarrow>
     (let hashes = known # map (\<lambda>p. case (indexed ! p) key of None \<Rightarrow> None | Some i \<Rightarrow> ci_hash i) [a..<b] in
      list_all (\<lambda>p. (indexed ! p) key \<noteq> None) [a..<b]
      \<and> (\<forall>g \<in> set hashes. \<forall>h \<in> set hashes. truthy_hash g \<and> truthy_hash h \<longrightarrow> g = h))"

lemma walk_back_le: "walk_back indexed key p known \<le> p"
  by (induction indexed key p known rule: walk_back.induct) (auto split: option.splits intro: le_SucI)

lemma same_reading_refl [simp]: "same_reading indexed key known p p"
  by (simp add: same_reading_def)

lemma same_reading_Suc:
  assumes "a \<le> p"
  shows "same_reading indexed key known a (Suc p) \<longleftrightarrow>
    (case (indexed ! p) key of
       None \<Rightarrow> False
     | Some before \<Rightarrow>
         \<not> (truthy_hash known \<and> truthy_hash (ci_hash before) \<and> ci_hash before \<noteq> known)
         \<and> same_reading indexed key (if truthy_hash known then known else ci_hash before) a p)"
proof (cases "(indexed ! p) key")
  case None
  with assms show ?thesis by (simp add: same_reading_def)
next
  case (Some before)
  let ?h = "\<lambda>p. case (indexed ! p) key of None \<Rightarrow> None | Some i \<Rightarrow> ci_hash i"
  have agree: "(\<forall>g \<in> insert k (insert b H). \<forall>h \<in> insert k (insert b H). truthy_hash g \<and> truthy_hash h \<longrightarrow> g = h)
    \<longleftrightarrow> \<not> (truthy_hash k \<and> truthy_hash b \<and> b \<noteq> k)
      \<and> (\<forall>g \<in> insert (if truthy_hash k then k else b) H. \<forall>h \<in> insert (if truthy_hash k then k else b) H.
           truthy_hash g \<and> truthy_hash h \<longrightarrow> g = h)" for k b and H :: "jstr option set"
    by (cases "truthy_hash k"; cases "truthy_hash b") (simp_all, blast+)
  show ?thesis
    using assms Some agree [of known "ci_hash before" "?h ` {a..<p}"]
    by (simp add: same_reading_def Let_def insert_commute atLeastLessThanSuc) blast
qed

lemma walk_back_reading:
  "a \<le> p \<Longrightarrow> same_reading indexed key known a p \<longleftrightarrow> walk_back indexed key p known \<le> a"
proof (induction indexed key p known arbitrary: a rule: walk_back.induct)
  case (2 indexed key p known)
  show ?case
  proof (cases "a = Suc p")
    case True
    then show ?thesis using walk_back_le [of indexed key "Suc p" known] by simp
  next
    case False
    with "2.prems" have a: "a \<le> p" by simp
    show ?thesis
    proof (cases "(indexed ! p) key")
      case (Some before)
      let ?conflict = "truthy_hash known \<and> truthy_hash (ci_hash before) \<and> ci_hash before \<noteq> known"
      show ?thesis
      proof (cases ?conflict)
        case False
        from "2.IH" [OF Some False a] False a Some show ?thesis unfolding same_reading_Suc [OF a] by auto
      next
        case True
        with a Some show ?thesis by (simp add: same_reading_Suc)
      qed
    qed (use a in \<open>simp add: same_reading_Suc\<close>)
  qed
qed simp

text \<open>What the calls that recorded what they carried carried, up to one of them.\<close>

definition observed_calls :: "request_record list \<Rightarrow> session_context \<Rightarrow> request_record list" where
  "observed_calls turns context =
     filter (\<lambda>r. rq_id r \<in> set (map cc_request_id (sx_calls context)) \<and> rq_context r \<noteq> None) turns"

definition carried_index :: "request_record list \<Rightarrow> nat \<Rightarrow> item_index list" where
  "carried_index observed p = map (\<lambda>r. last_by itemKey (cx_items (the (rq_context r)))) (take (p + 1) observed)"

lemma carriedItems_observed:
  "carriedItems turns context requestId places =
     (let observed = observed_calls turns context in
      case find_index (\<lambda>r. rq_id r = requestId) observed of
        None \<Rightarrow> []
      | Some p \<Rightarrow>
          map (\<lambda>item. (item, change_of (carried_index observed p)
              (\<lambda>position. case map_of places (rq_id (observed ! position)) of
                 None \<Rightarrow> position + 1 | Some place \<Rightarrow> pl_ordinal place) p item))
            (filter (\<lambda>item. ci_kind item \<noteq> ItemMcp) (cx_items (the (rq_context (observed ! p))))))"
  unfolding carriedItems_def observed_calls_def carried_index_def Let_def ..

lemma change_of_cases:
  fixes indexed at' item ordinal
  defines "key \<equiv> itemKey item"
  assumes len: "length indexed = at' + 1" and has: "(indexed ! at') key \<noteq> None"
  obtains f where "f \<le> at'" "(indexed ! f) key \<noteq> None" "\<forall>p < f. (indexed ! p) key = None"
    "change_of indexed ordinal at' item =
      (let s = walk_back indexed key at' (ci_hash item) in
       if s = f then (if f = 0 then Unchanged else Added (ordinal f))
       else (case (ci_count item, ci_count (the ((indexed ! f) key))) of
           (Some n, Some start) \<Rightarrow> (if n > start then Grew (n - start) else Changed (ordinal s))
         | _ \<Rightarrow> Changed (ordinal s)))"
proof -
  have "find_index (\<lambda>items. items key \<noteq> None) indexed \<noteq> None"
    using len has by (auto simp: find_index_None in_set_conv_nth intro!: exI [of _ at'])
  then obtain f where f: "find_index (\<lambda>items. items key \<noteq> None) indexed = Some f" by auto
  then have facts: "f < length indexed" "(indexed ! f) key \<noteq> None" "\<forall>p < f. (indexed ! p) key = None"
    by (auto simp: find_index_Some)
  show thesis
    by (rule that [of f]) (use facts len f in \<open>auto simp: change_of_def key_def Let_def\<close>)
qed

lemma walk_back_zero: "walk_back indexed key p known = 0 \<longleftrightarrow> same_reading indexed key known 0 p"
  using walk_back_reading [of 0 p indexed key known] by simp

text \<open>
  C5: how a carried item is said to have changed. It is unchanged exactly when every call up
  to this one that kept a record of what it carried has the item, and no two of the hashes
  known for it differ; it was added at a later call exactly when it reads the same since the
  first call that carries it, and no call before has it.
\<close>

theorem carried_item_change:
  assumes "(item, change) \<in> set (carriedItems turns context requestId places)"
  shows "let observed = observed_calls turns context;
      p = the (find_index (\<lambda>r. rq_id r = requestId) observed);
      indexed = carried_index observed p; key = itemKey item in
    (change = Unchanged \<longleftrightarrow> same_reading indexed key (ci_hash item) 0 p)
    \<and> ((\<exists>n. change = Added n) \<longleftrightarrow> (\<exists>f \<le> p. 0 < f \<and> same_reading indexed key (ci_hash item) f p
          \<and> (\<forall>q < f. (indexed ! q) key = None)))"
proof -
  let ?observed = "observed_calls turns context"
  obtain p where p: "find_index (\<lambda>r. rq_id r = requestId) ?observed = Some p"
    using assms by (cases "find_index (\<lambda>r. rq_id r = requestId) ?observed")
      (auto simp: carriedItems_observed Let_def)
  let ?indexed = "carried_index ?observed p"
  from p have less: "p < length ?observed" by (simp add: find_index_Some)
  have item: "item \<in> set (cx_items (the (rq_context (?observed ! p))))"
    and change: "\<exists>ordinal. change = change_of ?indexed ordinal p item"
    using assms p by (auto simp: carriedItems_observed Let_def)
  then obtain ordinal where change: "change = change_of ?indexed ordinal p item" by blast
  have len: "length ?indexed = p + 1" using less by (simp add: carried_index_def)
  have has: "(?indexed ! p) (itemKey item) \<noteq> None"
    using item less by (simp add: carried_index_def last_by_None)
  let ?s = "walk_back ?indexed (itemKey item) p (ci_hash item)"
  obtain f where f: "f \<le> p" "(?indexed ! f) (itemKey item) \<noteq> None" "\<forall>q < f. (?indexed ! q) (itemKey item) = None"
    and c': "change_of ?indexed ordinal p item =
      (let s = ?s in
       if s = f then (if f = 0 then Unchanged else Added (ordinal f))
       else (case (ci_count item, ci_count (the ((?indexed ! f) (itemKey item)))) of
           (Some n, Some start) \<Rightarrow> (if n > start then Grew (n - start) else Changed (ordinal s))
         | _ \<Rightarrow> Changed (ordinal s)))"
    by (rule change_of_cases [OF len has])
  note c = c' [folded change, unfolded Let_def]
  have carried: "(?indexed ! q) (itemKey item) \<noteq> None" if "?s \<le> q" "q \<le> p" for q
  proof (cases "q = p")
    case False
    have "same_reading ?indexed (itemKey item) (ci_hash item) ?s p"
      by (simp add: walk_back_reading walk_back_le)
    then have "\<forall>q \<in> {?s..<p}. (?indexed ! q) (itemKey item) \<noteq> None"
      by (auto simp: same_reading_def Let_def list_all_iff)
    with that False show ?thesis by simp
  qed (use has in simp)
  have "f \<le> ?s" using carried [of ?s] walk_back_le f(3) by (metis not_le order_refl)
  have uncounted: "change \<noteq> Unchanged" "\<nexists>n. change = Added n" if "?s \<noteq> f"
    using that unfolding c by (auto split: option.splits)
  have "change = Unchanged \<longleftrightarrow> ?s = 0"
    using uncounted \<open>f \<le> ?s\<close> c by (auto split: if_splits)
  moreover have "(\<exists>n. change = Added n) \<longleftrightarrow> (\<exists>g \<le> p. 0 < g \<and> ?s \<le> g
      \<and> (\<forall>q < g. (?indexed ! q) (itemKey item) = None))"
  proof
    assume "\<exists>n. change = Added n"
    then have "?s = f" "f \<noteq> 0" using uncounted c by (auto split: if_splits)
    with f show "\<exists>g \<le> p. 0 < g \<and> ?s \<le> g \<and> (\<forall>q < g. (?indexed ! q) (itemKey item) = None)" by auto
  next
    assume "\<exists>g \<le> p. 0 < g \<and> ?s \<le> g \<and> (\<forall>q < g. (?indexed ! q) (itemKey item) = None)"
    then obtain g where g: "g \<le> p" "0 < g" "?s \<le> g" "\<forall>q < g. (?indexed ! q) (itemKey item) = None" by auto
    then have "g \<le> f" using f(2) by (metis not_le)
    with g \<open>f \<le> ?s\<close> have "?s = f" "f \<noteq> 0" by simp_all
    then show "\<exists>n. change = Added n" using c by simp
  qed
  ultimately show ?thesis
    by (auto simp: Let_def p walk_back_zero [symmetric] walk_back_reading)
qed

section \<open>Sums of dollar amounts\<close>

lemma bigint_digits: "list_all is_digit s \<Longrightarrow> bigint s = Some (int (digits_value s))"
  by (simp add: bigint_def trim_digits radix_literal_digits sign_split_digits Let_def)

lemma no_dot: "list_all is_digit s \<Longrightarrow> 46 \<notin> set s"
  by (auto simp: list_all_iff is_digit_def)

text \<open>A decimal amount of at most nine fraction digits.\<close>

definition usd_amount :: "jstr \<Rightarrow> bool" where
  "usd_amount a \<longleftrightarrow>
     (case split_on 46 a of
        [w] \<Rightarrow> w \<noteq> [] \<and> list_all is_digit w
      | [w, f] \<Rightarrow> w \<noteq> [] \<and> list_all is_digit w \<and> list_all is_digit f \<and> length f \<le> 9
      | _ \<Rightarrow> False)"

lemma usd_amountE:
  assumes "usd_amount a"
  obtains (whole) "a \<noteq> []" "list_all is_digit a"
  | (cents) w f where "a = w @ 46 # f" "w \<noteq> []" "list_all is_digit w" "list_all is_digit f" "length f \<le> 9"
proof -
  have "a = join_with [46] (split_on 46 a)" by (simp add: join_split_on)
  with assms that show thesis
    by (auto simp: usd_amount_def split: list.splits)
qed

lemma js_Number_cents:
  assumes "w \<noteq> []" and "list_all is_digit w" and "list_all is_digit f"
  shows "js_Number (w @ 46 # f) = Fin (rat_of_nat (digits_value (w @ f)) / 10 ^ length f)"
proof -
  let ?s = "w @ 46 # f"
  have "list_all (\<lambda>c. \<not> js_space c) ?s"
    using assms digit_not_space by (auto simp: list_all_iff js_space_def)
  then have keep: "dropWhile js_space t = t" if "set t \<subseteq> set ?s" for t
    using that by (cases t) (auto simp: list_all_iff)
  have "dropWhile js_space ?s = ?s" "dropWhile js_space (rev ?s) = rev ?s" by (auto intro!: keep)
  then have "trim ?s = ?s" by (simp only: trim_def rev_rev_ident)
  moreover have "radix_literal ?s = None"
    using assms by (cases w; cases "tl w") (auto simp: radix_literal_def is_digit_def)
  moreover have "sign_split ?s = (False, ?s)"
    using assms by (cases w) (auto simp: sign_split_def is_digit_def)
  moreover have "?s \<noteq> js ''Infinity''"
    using assms by (cases w) (auto simp: js_def is_digit_def)
  moreover have run: "takeWhile is_digit ?s = w" "dropWhile is_digit ?s = 46 # f"
    "takeWhile is_digit f = f" "dropWhile is_digit f = []"
    using assms by (auto simp: list_all_iff takeWhile_append dropWhile_append is_digit_def takeWhile_eq_all_conv)
  then have "decimal_literal ?s = Some (rat_of_nat (digits_value (w @ f)) / 10 ^ length f)"
    using assms unfolding decimal_literal_def Let_def run
    by (cases "f = []") (simp_all add: run exponent_value_def pow10_def)
  ultimately show ?thesis by (simp add: js_Number_def Let_def)
qed

lemma nanos_amount:
  assumes "usd_amount a"
  obtains n where "nanos a = Some (int n)" and "js_Number a = Fin (rat_of_nat n / 10 ^ 9)"
  using assms
proof (cases a rule: usd_amountE)
  case whole
  have "bigint (replicate 9 48) = Some 0"
    using bigint_digits [of "replicate 9 48"] digits_value_zeros [of 9]
    by (simp add: list_all_iff is_digit_def)
  then have "nanos a = Some (int (digits_value a * 10 ^ 9))"
    using whole by (simp add: nanos_def split_on_none no_dot bigint_digits pad_end_def Let_def
        NANOS_PER_USD_def digits_value_zeros)
  with whole js_Number_digits [of a] show thesis by (intro that [of "digits_value a * 10 ^ 9"]) simp_all
next
  case (cents w f)
  let ?k = "9 - length f"
  let ?n = "digits_value w * 10 ^ 9 + digits_value f * 10 ^ ?k"
  have "list_all is_digit (f @ replicate ?k 48)"
    using cents by (auto simp: list_all_iff is_digit_def)
  then have "nanos a = Some (int ?n)"
    using cents
    by (simp add: nanos_def split_on_one no_dot bigint_digits pad_end_def Let_def NANOS_PER_USD_def
        digits_value_append digits_value_zeros)
  moreover have "(10 :: rat) ^ 9 = 10 ^ length f * 10 ^ ?k" using cents by (simp flip: power_add)
  then have "rat_of_nat (digits_value (w @ f)) / 10 ^ length f = rat_of_nat ?n / 10 ^ 9"
    by (simp add: digits_value_append field_simps)
  then have "js_Number a = Fin (rat_of_nat ?n / 10 ^ 9)"
    using cents by (simp add: js_Number_cents)
  ultimately show thesis by (rule that)
qed

lemma sum_nanos_amounts:
  assumes "list_all usd_amount amounts" and "list_all2 (\<lambda>a q. js_Number a = Fin q) amounts qs"
  shows "\<exists>n. sum_nanos (int m) amounts = Some (int n) \<and> rat_of_nat n / 10 ^ 9 = rat_of_nat m / 10 ^ 9 + sum_list qs"
  using assms(2,1)
proof (induction amounts qs arbitrary: m rule: list_all2_induct)
  case (Cons a as q qs)
  from Cons.prems obtain k where k: "nanos a = Some (int k)" "js_Number a = Fin (rat_of_nat k / 10 ^ 9)"
    using nanos_amount [of a] by auto
  from Cons.IH [of "m + k"] Cons.prems obtain n where
    "sum_nanos (int (m + k)) as = Some (int n)" "rat_of_nat n / 10 ^ 9 = rat_of_nat (m + k) / 10 ^ 9 + sum_list qs"
    by auto
  with k Cons.hyps show ?case by (auto simp: add_divide_distrib)
qed simp

lemma sum_string:
  fixes n
  defines "f \<equiv> pad_left 9 48 (big_string (big_rest (int n) NANOS_PER_USD))"
  shows "js_Number (big_string (big_quotient (int n) NANOS_PER_USD) @ js ''.'' @ f) = Fin (rat_of_nat n / 10 ^ 9)"
    and "length f = 9"
proof -
  let ?r = "n mod 10 ^ 9"
  have "\<not> int n mod 1000000000 < 0" by simp
  then have f: "f = replicate (9 - length (dec ?r)) 48 @ dec ?r"
    by (simp add: f_def pad_left_def big_string_def big_rest_def NANOS_PER_USD_def sgn_if nat_mod_distrib not_less)
  have "length (dec ?r) \<le> 9"
    by (rule length_dec_le) simp_all
  then show len: "length f = 9" by (simp add: f)
  have digits: "list_all is_digit f" by (auto simp: f list_all_iff is_digit_def dest: dec_digits)
  have "digits_value f = ?r" by (simp add: f digits_value_append digits_value_zeros)
  then have "digits_value (dec (n div 10 ^ 9) @ f) = n"
    using len by (simp add: digits_value_append)
  moreover have "\<not> int n div 1000000000 < 0" by (simp add: not_less pos_imp_zdiv_nonneg_iff)
  then have "big_string (big_quotient (int n) NANOS_PER_USD) = dec (n div 10 ^ 9)"
    by (simp add: big_string_def big_quotient_def NANOS_PER_USD_def sgn_if nat_div_distrib)
  ultimately show "js_Number (big_string (big_quotient (int n) NANOS_PER_USD) @ js ''.'' @ f) = Fin (rat_of_nat n / 10 ^ 9)"
    using digits len js_Number_cents [of "dec (n div 10 ^ 9)" f] by (simp add: js_def)
qed

text \<open>
  Dollar amounts are summed without rounding: for decimal amounts of at most nine fraction
  digits the sum is a decimal that reads back as exactly the sum of the amounts' values.
\<close>

theorem sum_usd_exact:
  assumes "amounts \<noteq> []" and "list_all usd_amount amounts"
    and "list_all2 (\<lambda>a q. js_Number a = Fin q) amounts qs"
  shows "\<exists>s. sumUSD amounts = Some (Some s) \<and> js_Number s = Fin (sum_list qs)"
proof -
  from sum_nanos_amounts [OF assms(2,3), of 0] obtain n where
    "sum_nanos 0 amounts = Some (int n)" "rat_of_nat n / 10 ^ 9 = sum_list qs" by auto
  with assms(1) sum_string(1) [of n] show ?thesis by (simp add: sumUSD_def)
qed

theorem sum_usd_exact_witness:
  "\<exists>s. sumUSD [js ''0.1'', js ''0.2''] = Some (Some s) \<and> js_Number s = Fin (3 / 10)"
proof -
  have "js_Number (js ''0.1'') = Fin (1 / 10)" "js_Number (js ''0.2'') = Fin (2 / 10)"
    using js_Number_cents [of "js ''0''" "js ''1''"] js_Number_cents [of "js ''0''" "js ''2''"]
    by (simp_all add: js_def is_digit_def digits_value_def)
  then show ?thesis
    using sum_usd_exact [of "[js ''0.1'', js ''0.2'']" "[1 / 10, 2 / 10]"]
    by (simp add: usd_amount_def js_def is_digit_def)
qed

section \<open>Notes\<close>

definition memory_of :: "marker_map \<Rightarrow> jstr \<Rightarrow> memory_write list option" where
  "memory_of markers i = (case map_of markers i of None \<Rightarrow> None | Some m \<Rightarrow> ma_memory m)"

lemma memory_of_Nil [simp]: "memory_of [] i = None"
  by (simp add: memory_of_def)

lemma memory_of_mark:
  "memory_of (mark k f markers) i = (if i = k
     then ma_memory (f (case map_of markers k of None \<Rightarrow> no_marker | Some m \<Rightarrow> m)) else memory_of markers i)"
  by (simp add: memory_of_def mark_def map_of_upsert)

lemma memory_of_compaction: "memory_of (mark_compaction markers c) i = memory_of markers i"
  by (auto simp: mark_compaction_def Let_def memory_of_mark memory_of_def map_of_upsert mark_def no_marker_def
      split: option.splits list.splits)

lemma memory_of_compactions: "memory_of (foldl mark_compaction markers cs) i = memory_of markers i"
  by (induction cs arbitrary: markers) (simp_all add: memory_of_compaction)

text \<open>A main call that kept a record of what it carried.\<close>

definition main_call :: "request_record \<Rightarrow> bool" where
  "main_call r \<longleftrightarrow> (case rq_context r of None \<Rightarrow> False | Some c \<Rightarrow> cx_helper c \<noteq> Some True)"

definition written :: "request_record \<Rightarrow> memory_write list" where
  "written r = (case rq_context r of None \<Rightarrow> [] | Some c \<Rightarrow> cx_memory_writes c)"

definition written_before :: "request_record list \<Rightarrow> jstr set" where
  "written_before turns = (case rev (filter main_call turns) of
     [] \<Rightarrow> {} | r # _ \<Rightarrow> writeKey ` set (written r))"

lemma mark_records_keys: "fst (foldl mark_record ({}, markers) turns) = written_before turns"
  by (induction turns rule: rev_induct)
    (auto simp: written_before_def mark_record_def main_call_def written_def Let_def split: option.splits)

lemma mark_record_other:
  "i \<noteq> rq_id r \<Longrightarrow> memory_of (snd (mark_record st r)) i = memory_of (snd st) i"
  by (auto simp: mark_record_def Let_def memory_of_mark split: option.split)

lemma mark_records_other:
  "i \<notin> rq_id ` set turns \<Longrightarrow> memory_of (snd (foldl mark_record st turns)) i = memory_of (snd st) i"
  by (induction turns arbitrary: st) (simp_all add: mark_record_other)

lemma mark_record_own:
  assumes "memory_of (snd st) (rq_id r) = None"
  shows "memory_of (snd (mark_record st r)) (rq_id r)
    = (let fresh = filter (\<lambda>w. writeKey w \<notin> fst st) (written r) in
       if main_call r \<and> fresh \<noteq> [] then Some fresh else None)"
  using assms
  by (auto simp: mark_record_def main_call_def written_def Let_def memory_of_mark memory_of_def map_of_upsert mark_def
      no_marker_def split: option.splits)

text \<open>
  Each memory write is noted once: beside a main call stand exactly the writes of its
  history that the main call before it did not already show, and nothing when there are none,
  whatever the compactions are.
\<close>

theorem memory_noted_once:
  assumes "rq_id r \<notin> rq_id ` set turns"
  shows "memory_of (callMarkers context (turns @ [r])) (rq_id r)
    = (let fresh = filter (\<lambda>w. writeKey w \<notin> written_before turns) (written r) in
       if main_call r \<and> fresh \<noteq> [] then Some fresh else None)"
proof (cases "context = None \<and> \<not> list_ex (\<lambda>r. rq_context r \<noteq> None) (turns @ [r])")
  case True
  then have "\<not> main_call r" by (simp add: main_call_def)
  with True show ?thesis by (simp add: callMarkers_def memory_of_def)
next
  case False
  let ?cs = "case context of None \<Rightarrow> [] | Some c \<Rightarrow> sx_compactions c"
  let ?st = "foldl mark_record ({}, foldl mark_compaction [] ?cs) turns"
  have "memory_of (snd ?st) (rq_id r) = None"
    using assms by (simp add: mark_records_other memory_of_compactions)
  from mark_record_own [OF this] have "memory_of (snd (foldl mark_record ({}, foldl mark_compaction [] ?cs) (turns @ [r]))) (rq_id r)
    = (let fresh = filter (\<lambda>w. writeKey w \<notin> written_before turns) (written r) in
       if main_call r \<and> fresh \<noteq> [] then Some fresh else None)"
    by (simp add: mark_records_keys)
  then show ?thesis unfolding callMarkers_def Let_def if_not_P [OF False] .
qed

section \<open>Composition\<close>

interpretation larger_sources: comparator larger_source UNIV
  by unfold_locales (auto simp: larger_source_def)

lemma source_lines_set: "set (source_lines parts) = {(k, part_of parts k) | k. part_of parts k > 0}"
proof -
  have "k \<in> set COMPOSITION_ORDER \<or> k = SrcOther" for k by (cases k) (simp_all add: COMPOSITION_ORDER_def)
  then have "k \<in> set COMPOSITION_ORDER" if "k \<noteq> SrcOther" for k using that by blast
  then show ?thesis by (auto simp: source_lines_def image_iff; metis part_of.simps(6))
qed

lemma source_lines_distinct: "distinct (map fst (source_lines parts))"
proof -
  have "distinct (map fst (map (\<lambda>k. (k, part_of parts k)) COMPOSITION_ORDER))"
    by (simp add: COMPOSITION_ORDER_def comp_def)
  then have "distinct (map fst (filter (\<lambda>l. snd l > 0) (map (\<lambda>k. (k, part_of parts k)) COMPOSITION_ORDER)))"
    by (rule distinct_map_filter)
  moreover have "SrcOther \<notin> set COMPOSITION_ORDER" by (simp add: COMPOSITION_ORDER_def)
  ultimately show ?thesis by (auto simp: source_lines_def simp del: filter_map)
qed

text \<open>
  The composition lists exactly the sources with tokens, each once with its tokens, those
  that are known by falling tokens before the rest; every bar is between 0 and 100, and unless
  nothing was sent the largest source fills its bar.
\<close>

theorem composition_complete:
  "let lines = contextComposition parts in
    distinct (map co_key lines)
    \<and> set (map (\<lambda>l. (co_key l, co_tokens l)) lines) = {(k, part_of parts k) | k. part_of parts k > 0}
    \<and> sorted_wrt (\<lambda>l m. co_key m = SrcOther \<or> co_tokens m \<le> co_tokens l) lines
    \<and> list_all (\<lambda>l. 0 \<le> co_share l \<and> co_share l \<le> 100) lines
    \<and> (lines = [] \<or> list_ex (\<lambda>l. co_share l = 100) lines)"
proof -
  let ?ls = "source_lines parts"
  let ?tokens = "map snd ?ls"
  let ?line = "\<lambda>(k, n). \<lparr>co_key = k, co_tokens = n, co_share = breakdownShare n ?tokens\<rparr>"
  have lines: "contextComposition parts = map ?line ?ls"
    by (simp add: contextComposition_def Let_def)
  have pos: "n > 0" if "(k, n) \<in> set ?ls" for k n using that by (auto simp: source_lines_set)
  have "co_key m = SrcOther \<longleftrightarrow> k = SrcOther" if "m = ?line (k, n)" for m k n using that by simp
  have ordered: "sorted_wrt (\<lambda>l m. fst m = SrcOther \<or> snd m \<le> snd l) ?ls"
    unfolding source_lines_def sorted_wrt_append
    using larger_sources.sort_by_ordered [of "filter (\<lambda>l. snd l > 0) (map (\<lambda>k. (k, part_of parts k)) COMPOSITION_ORDER)"]
    by (auto simp: larger_source_def elim!: sorted_wrt_mono_rel [rotated])
  have share: "0 \<le> breakdownShare n ?tokens \<and> breakdownShare n ?tokens \<le> 100" if "(k, n) \<in> set ?ls" for k n
  proof -
    have "n \<le> foldl max 0 ?tokens" by (rule foldl_max_upper) (use that in force)
    with pos [OF that] js_round_percent [of n "foldl max 0 ?tokens"] show ?thesis
      by (simp add: breakdownShare_def Let_def)
  qed
  have full: "\<exists>l \<in> set ?ls. breakdownShare (snd l) ?tokens = 100" if ne: "?ls \<noteq> []"
  proof -
    let ?m = "foldl max 0 ?tokens"
    obtain k n where kn: "(k, n) \<in> set ?ls" using ne by (metis list.set_sel(1) surj_pair)
    then have "n \<le> ?m" by (intro foldl_max_upper) force
    with pos [OF kn] have "?m > 0" by simp
    with foldl_max_member [of 0 ?tokens] have "?m \<in> set ?tokens" by auto
    then obtain l where l: "l \<in> set ?ls" "snd l = ?m" by auto
    have "js_round 100 = 100" unfolding js_round_def by (rule floor_unique) simp_all
    with \<open>?m > 0\<close> have "breakdownShare ?m ?tokens = 100" by (simp add: breakdownShare_def Let_def)
    with l show ?thesis by metis
  qed
  have "distinct (map co_key (map ?line ?ls))"
    using source_lines_distinct [of parts] by (simp add: case_prod_unfold comp_def)
  moreover have "set (map (\<lambda>l. (co_key l, co_tokens l)) (map ?line ?ls))
      = {(k, part_of parts k) | k. part_of parts k > 0}"
    unfolding source_lines_set [symmetric] by (simp add: image_image case_prod_unfold)
  moreover have "sorted_wrt (\<lambda>l m. co_key m = SrcOther \<or> co_tokens m \<le> co_tokens l) (map ?line ?ls)"
    using ordered by (simp add: sorted_wrt_map case_prod_unfold)
  moreover have "list_all (\<lambda>l. 0 \<le> co_share l \<and> co_share l \<le> 100) (map ?line ?ls)"
    using share by (auto simp: list_all_iff)
  moreover have "map ?line ?ls = [] \<or> list_ex (\<lambda>l. co_share l = 100) (map ?line ?ls)"
    using full by (force simp: list_ex_iff)
  ultimately show ?thesis unfolding Let_def lines by (intro conjI)
qed

theorem memory_noted_once_witness:
  "memory_of (callMarkers None ([] @ [sample_request ''a'']))
     (rq_id (sample_request ''a'')) = None"
  using memory_noted_once [of "sample_request ''a''" "[]" None]
  by (simp add: Let_def main_call_def sample_request_def)

definition sample_item :: context_item where
  "sample_item = \<lparr>ci_kind = ItemRules, ci_name = Some (js ''AGENTS.md''), ci_path = None, ci_scope = None,
     ci_count = None, ci_servers = None, ci_tokens = 10, ci_hash = Some (js ''h'')\<rparr>"

definition sample_carrier :: request_record where
  "sample_carrier = (sample_request ''a'')\<lparr>rq_context := Some
     \<lparr>cx_parts = None, cx_items = [sample_item], cx_system_hash = None, cx_tools_hash = None,
      cx_summary = None, cx_compacted = None, cx_helper = None, cx_memory_writes = [],
      cx_memory_reads = None, cx_skills_used = None, cx_failed_repeats = None\<rparr>\<rparr>"

theorem carried_item_change_witness:
  "carriedItems [sample_carrier] \<lparr>sx_calls = [\<lparr>cc_request_id = js ''a'', cc_tokens = 10\<rparr>],
      sx_compactions = [], sx_cache_misses = []\<rparr> (js ''a'') [] = [(sample_item, Unchanged)]"
proof -
  let ?sent = "\<lparr>sx_calls = [\<lparr>cc_request_id = js ''a'', cc_tokens = 10\<rparr>], sx_compactions = [],
    sx_cache_misses = []\<rparr>"
  have c: "\<exists>change. carriedItems [sample_carrier] ?sent (js ''a'') [] = [(sample_item, change)]"
    by (simp add: carriedItems_def sample_carrier_def sample_request_def Let_def sample_item_def)
  then obtain change where change: "carriedItems [sample_carrier] ?sent (js ''a'') [] = [(sample_item, change)]" ..
  have "observed_calls [sample_carrier] ?sent = [sample_carrier]"
    by (simp add: observed_calls_def sample_carrier_def sample_request_def)
  moreover have "rq_id sample_carrier = js ''a''" by (simp add: sample_carrier_def sample_request_def)
  ultimately have "change = Unchanged"
    using carried_item_change [of sample_item change "[sample_carrier]" ?sent "js ''a''" "[]"] change
    by (simp add: Let_def)
  with change show ?thesis by simp
qed

end
