(* ===== verification/Json_Tree.thy ===== *)
theory Json_Tree
  imports Request_Data Js_Numbers
begin

text \<open>
  The parser of \<open>json-tree-model.ts\<close>: a captured body as a tree, in one pass that keeps what
  came before a cut. The parser is a state machine over a position in the text and a stack of
  open containers, run in slices. The open containers are the objects the tree already holds,
  so a frame's node is the one at its height on the last-child path of the root, and a change
  through the frame is a change there.
\<close>

section \<open>Nodes\<close>

datatype jnode =
    NObject "(jstr \<times> jnode) list" bool
  | NArray "jnode list" bool
  | NString jstr bool
  | NNumber jstr
  | NLiteral jstr

datatype parser_state = AtValue | AtFirstValue | AtKey | AtFirstKey | AtColon | AtAfter | AtDone

text \<open>The parser: its stack holds the keys of the open containers' frames, the top first.\<close>

record json_tree_parser =
  jp_pos :: nat
  jp_state :: parser_state
  jp_stack :: "jstr list"
  jp_root :: "jnode option"
  jp_error_at :: "nat option"
  jp_cut :: bool

record json_tree_parse =
  jr_root :: "jnode option"
  jr_error_at :: "nat option"
  jr_cut :: bool

definition new_parser :: json_tree_parser where
  "new_parser = \<lparr>jp_pos = 0, jp_state = AtValue, jp_stack = [], jp_root = None, jp_error_at = None,
     jp_cut = False\<rparr>"

definition parser_result :: "json_tree_parser \<Rightarrow> json_tree_parse" where
  "parser_result st = \<lparr>jr_root = jp_root st, jr_error_at = jp_error_at st, jr_cut = jp_cut st\<rparr>"

text \<open>A change of the node at a height of the last-child path.\<close>

fun on_spine :: "nat \<Rightarrow> (jnode \<Rightarrow> jnode) \<Rightarrow> jnode \<Rightarrow> jnode" where
  "on_spine 0 f n = f n"
| "on_spine (Suc d) f (NArray items c) =
     (if items = [] then NArray items c else NArray (butlast items @ [on_spine d f (last items)]) c)"
| "on_spine (Suc d) f (NObject entries c) =
     (if entries = [] then NObject entries c
      else NObject (butlast entries @ [(fst (last entries), on_spine d f (snd (last entries)))]) c)"
| "on_spine (Suc d) f n = n"

fun spine_node :: "nat \<Rightarrow> jnode \<Rightarrow> jnode" where
  "spine_node 0 n = n"
| "spine_node (Suc d) (NArray items c) = (if items = [] then NArray items c else spine_node d (last items))"
| "spine_node (Suc d) (NObject entries c) =
     (if entries = [] then NObject entries c else spine_node d (snd (last entries)))"
| "spine_node (Suc d) n = n"

fun add_child :: "jstr \<Rightarrow> jnode \<Rightarrow> jnode \<Rightarrow> jnode" where
  "add_child key node (NArray items c) = NArray (items @ [node]) c"
| "add_child key node (NObject entries c) = NObject (entries @ [(key, node)]) c"
| "add_child key node n = n"

fun set_complete :: "jnode \<Rightarrow> jnode" where
  "set_complete (NArray items c) = NArray items True"
| "set_complete (NObject entries c) = NObject entries True"
| "set_complete n = n"

fun is_array_node :: "jnode \<Rightarrow> bool" where
  "is_array_node (NArray items c) \<longleftrightarrow> True"
| "is_array_node n \<longleftrightarrow> False"

section \<open>Strings\<close>

definition hex_value :: "nat \<Rightarrow> nat option" where
  "hex_value c = (if is_digit c then Some (c - 48)
     else if 97 \<le> c \<and> c \<le> 102 then Some (c - 87)
     else if 65 \<le> c \<and> c \<le> 70 then Some (c - 55) else None)"

definition is_hex :: "nat \<Rightarrow> bool" where "is_hex c \<longleftrightarrow> hex_value c \<noteq> None"

definition hex4 :: "jstr \<Rightarrow> nat" where
  "hex4 ds = foldl (\<lambda>n c. 16 * n + the (hex_value c)) 0 ds"

definition simple_escape :: "nat \<Rightarrow> nat option" where
  "simple_escape c = (if c = 34 then Some 34 else if c = 92 then Some 92 else if c = 47 then Some 47
     else if c = 98 then Some 8 else if c = 102 then Some 12 else if c = 110 then Some 10
     else if c = 114 then Some 13 else if c = 116 then Some 9 else None)"

text \<open>\<open>JSON.parse\<close> of a string literal, given what is between its quotes.\<close>

fun json_unescape :: "jstr \<Rightarrow> jstr option" where
  "json_unescape [] = Some []"
| "json_unescape (c # s) =
     (if c < 32 \<or> c = 34 then None
      else if c \<noteq> 92 then map_option ((#) c) (json_unescape s)
      else
        (case s of
           [] \<Rightarrow> None
         | e # t \<Rightarrow>
             (case simple_escape e of
                Some u \<Rightarrow> map_option ((#) u) (json_unescape t)
              | None \<Rightarrow>
                  (case t of
                     h1 # h2 # h3 # h4 # r \<Rightarrow>
                       (if e = 117 \<and> list_all is_hex [h1, h2, h3, h4]
                        then map_option ((#) (hex4 [h1, h2, h3, h4])) (json_unescape r) else None)
                   | _ \<Rightarrow> None))))"

definition trailing_backslashes :: "jstr \<Rightarrow> nat" where
  "trailing_backslashes s = length (takeWhile (\<lambda>c. c = 92) (rev s))"

text \<open>
  \<open>text.replace(/\\u[0-9a-fA-F]{0,3}$/, ...)\<close>: a split escape at the end goes, unless its
  backslash is itself escaped. At most one place matches.
\<close>

definition split_escape_at :: "jstr \<Rightarrow> nat option" where
  "split_escape_at raw =
     List.find (\<lambda>i. i + 2 \<le> length raw \<and> length raw \<le> i + 5 \<and> raw ! i = 92 \<and> raw ! (i + 1) = 117
         \<and> list_all is_hex (drop (i + 2) raw)) [0..<length raw]"

definition decodePartial :: "jstr \<Rightarrow> jstr" where
  "decodePartial raw =
     (if 92 \<notin> set raw then raw
      else
        (let body = (case split_escape_at raw of
               None \<Rightarrow> raw
             | Some i \<Rightarrow> if even (trailing_backslashes (take i raw)) then take i raw else raw);
             trimmed = (if odd (trailing_backslashes body) then butlast body else body) in
         case json_unescape trimmed of None \<Rightarrow> trimmed | Some s \<Rightarrow> s))"

text \<open>
  The quote that closes a string, as a position after \<open>search\<close>: a quote after an odd run of
  backslashes is escaped.
\<close>

function (sequential) closing_quote :: "jstr \<Rightarrow> nat \<Rightarrow> nat option" where
  "closing_quote text search =
     (case find_index (\<lambda>c. c = 34) (drop search text) of
        None \<Rightarrow> None
      | Some i \<Rightarrow>
          (let quote = search + i in
           if odd (trailing_backslashes (take quote text)) then closing_quote text (quote + 1)
           else Some quote))"
  by pat_completeness auto

termination
  by (relation "measure (\<lambda>(text, search). length text - search)")
    (auto simp: find_index_Some)

text \<open>
  The string at the cursor: its text, whether the text had its end, and the position after
  it. \<open>None\<close> is a string that is not valid.
\<close>

definition readString :: "jstr \<Rightarrow> nat \<Rightarrow> (jstr \<times> bool \<times> nat) option" where
  "readString text start =
     (case closing_quote text (start + 1) of
        None \<Rightarrow> Some (decodePartial (drop (start + 1) text), False, length text)
      | Some quote \<Rightarrow>
          (let raw = take (quote - (start + 1)) (drop (start + 1) text) in
           if 92 \<notin> set raw then Some (raw, True, quote + 1)
           else (case json_unescape raw of None \<Rightarrow> None | Some decoded \<Rightarrow> Some (decoded, True, quote + 1))))"

section \<open>Numbers and literals\<close>

text \<open>What the sticky patterns match at the front of a text.\<close>

definition sign_part :: "jstr \<Rightarrow> jstr" where
  "sign_part s = (case s of c # t \<Rightarrow> if c = 45 then [45] else [] | [] \<Rightarrow> [])"

definition fraction_part :: "bool \<Rightarrow> jstr \<Rightarrow> jstr" where
  "fraction_part partial s =
     (case s of
        [] \<Rightarrow> []
      | c # t \<Rightarrow>
          if c = 46 \<and> (partial \<or> takeWhile is_digit t \<noteq> []) then c # takeWhile is_digit t else [])"

definition exponent_part :: "bool \<Rightarrow> jstr \<Rightarrow> jstr" where
  "exponent_part partial s =
     (case s of
        [] \<Rightarrow> []
      | c # t \<Rightarrow>
          if c = 101 \<or> c = 69 then
            (let sign = (case t of d # u \<Rightarrow> if d = 43 \<or> d = 45 then [d] else [] | [] \<Rightarrow> []);
                 digits = takeWhile is_digit (drop (length sign) t) in
             if partial \<or> digits \<noteq> [] then c # sign @ digits else [])
          else [])"

definition tail_part :: "bool \<Rightarrow> jstr \<Rightarrow> jstr" where
  "tail_part partial s =
     (let f = fraction_part partial s in f @ exponent_part partial (drop (length f) s))"

definition integer_part :: "jstr \<Rightarrow> jstr option" where
  "integer_part s =
     (case s of
        [] \<Rightarrow> None
      | c # t \<Rightarrow> if c = 48 then Some [48] else if is_digit c then Some (c # takeWhile is_digit t) else None)"

definition number_match :: "jstr \<Rightarrow> jstr option" where
  "number_match s =
     (let sg = sign_part s; r = drop (length sg) s in
      case integer_part r of
        None \<Rightarrow> None
      | Some i \<Rightarrow> Some (sg @ i @ tail_part False (drop (length i) r)))"

definition partial_number :: "jstr \<Rightarrow> jstr" where
  "partial_number s =
     (let sg = sign_part s; r = drop (length sg) s; i = takeWhile is_digit r in
      sg @ i @ tail_part True (drop (length i) r))"

definition LITERALS :: "jstr list" where
  "LITERALS = [js ''true'', js ''false'', js ''null'']"

section \<open>The machine\<close>

definition json_space :: "nat \<Rightarrow> bool" where
  "json_space c \<longleftrightarrow> c = 32 \<or> c = 10 \<or> c = 13 \<or> c = 9"

definition skipWhitespace :: "jstr \<Rightarrow> json_tree_parser \<Rightarrow> json_tree_parser" where
  "skipWhitespace text st =
     st\<lparr>jp_pos := jp_pos st + length (takeWhile json_space (drop (jp_pos st) text))\<rparr>"

definition fail :: "json_tree_parser \<Rightarrow> json_tree_parser" where
  "fail st = st\<lparr>jp_error_at := Some (jp_pos st), jp_state := AtDone\<rparr>"

definition cut_short :: "jstr \<Rightarrow> json_tree_parser \<Rightarrow> json_tree_parser" where
  "cut_short text st = st\<lparr>jp_pos := length text, jp_cut := True, jp_state := AtDone\<rparr>"

definition finish :: "json_tree_parser \<Rightarrow> json_tree_parser" where
  "finish st =
     (if jp_stack st \<noteq> [] then st\<lparr>jp_cut := True, jp_state := AtDone\<rparr>
      else if jp_root st = None then fail st
      else st\<lparr>jp_state := AtDone\<rparr>)"

definition afterValue :: "jstr \<Rightarrow> json_tree_parser \<Rightarrow> json_tree_parser" where
  "afterValue text st =
     (if jp_stack st \<noteq> [] then st\<lparr>jp_state := AtAfter\<rparr>
      else
        (let st' = skipWhitespace text st in
         if jp_pos st' < length text then fail st' else st'\<lparr>jp_state := AtDone\<rparr>))"

definition in_top :: "(jnode \<Rightarrow> jnode) \<Rightarrow> json_tree_parser \<Rightarrow> json_tree_parser" where
  "in_top f st = st\<lparr>jp_root := map_option (on_spine (length (jp_stack st) - 1) f) (jp_root st)\<rparr>"

definition top_is_array :: "json_tree_parser \<Rightarrow> bool" where
  "top_is_array st \<longleftrightarrow>
     (case jp_root st of None \<Rightarrow> False | Some r \<Rightarrow> is_array_node (spine_node (length (jp_stack st) - 1) r))"

definition close :: "jstr \<Rightarrow> json_tree_parser \<Rightarrow> json_tree_parser" where
  "close text st =
     (let popped = (if jp_stack st \<noteq> [] then (in_top set_complete st)\<lparr>jp_stack := tl (jp_stack st)\<rparr> else st) in
      afterValue text (popped\<lparr>jp_pos := jp_pos popped + 1\<rparr>))"

definition attach :: "jnode \<Rightarrow> json_tree_parser \<Rightarrow> json_tree_parser" where
  "attach node st =
     (if jp_stack st = [] then st\<lparr>jp_root := Some node\<rparr>
      else in_top (add_child (hd (jp_stack st)) node) st)"

definition readAfter :: "jstr \<Rightarrow> nat \<Rightarrow> json_tree_parser \<Rightarrow> json_tree_parser" where
  "readAfter text char st =
     (if jp_stack st = [] then fail st
      else if char = 44 then
        st\<lparr>jp_pos := jp_pos st + 1, jp_state := (if top_is_array st then AtValue else AtKey)\<rparr>
      else if top_is_array st \<and> char = 93 \<or> \<not> top_is_array st \<and> char = 125 then close text st
      else fail st)"

definition readKey :: "jstr \<Rightarrow> nat \<Rightarrow> json_tree_parser \<Rightarrow> json_tree_parser" where
  "readKey text char st =
     (if char \<noteq> 34 then fail st
      else
        (case readString text (jp_pos st) of
           None \<Rightarrow> fail st
         | Some (key, whole, after) \<Rightarrow>
             if \<not> whole then cut_short text st
             else st\<lparr>jp_pos := after, jp_stack := key # tl (jp_stack st), jp_state := AtColon\<rparr>))"

definition readNumber :: "jstr \<Rightarrow> json_tree_parser \<Rightarrow> json_tree_parser" where
  "readNumber text st =
     (let rest = drop (jp_pos st) text in
      if jp_stack st \<noteq> [] \<and> jp_pos st + length (partial_number rest) \<ge> length text then cut_short text st
      else
        (case number_match rest of
           None \<Rightarrow> fail st
         | Some m \<Rightarrow>
             if m = [] then fail st
             else afterValue text ((attach (NNumber m) st)\<lparr>jp_pos := jp_pos st + length m\<rparr>)))"

fun try_literals :: "jstr \<Rightarrow> json_tree_parser \<Rightarrow> jstr list \<Rightarrow> json_tree_parser" where
  "try_literals text st [] = fail st"
| "try_literals text st (literal # literals) =
     (let rest = drop (jp_pos st) text in
      if starts_with literal rest then
        afterValue text ((attach (NLiteral literal) st)\<lparr>jp_pos := jp_pos st + length literal\<rparr>)
      else
        (let head = take (length literal) rest in
         if length head < length literal \<and> starts_with head literal then cut_short text st
         else try_literals text st literals))"

definition readValue :: "jstr \<Rightarrow> nat \<Rightarrow> json_tree_parser \<Rightarrow> json_tree_parser" where
  "readValue text char st =
     (if char = 123 \<or> char = 91 then
        (let st' = attach (if char = 123 then NObject [] False else NArray [] False) st in
         st'\<lparr>jp_stack := [] # jp_stack st', jp_pos := jp_pos st' + 1,
             jp_state := (if char = 123 then AtFirstKey else AtFirstValue)\<rparr>)
      else if char = 34 then
        (case readString text (jp_pos st) of
           None \<Rightarrow> fail st
         | Some (value, whole, after) \<Rightarrow>
             (let st' = (attach (NString value whole) st)\<lparr>jp_pos := after\<rparr> in
              if \<not> whole then st'\<lparr>jp_cut := True, jp_state := AtDone\<rparr> else afterValue text st'))
      else if char = 45 \<or> is_digit char then readNumber text st
      else try_literals text st LITERALS)"

definition step :: "jstr \<Rightarrow> json_tree_parser \<Rightarrow> json_tree_parser" where
  "step text st0 =
     (let st = skipWhitespace text st0 in
      if jp_pos st \<ge> length text then finish st
      else
        (let char = text ! jp_pos st in
         case jp_state st of
           AtFirstValue \<Rightarrow> if char = 93 then close text st else readValue text char st
         | AtValue \<Rightarrow> readValue text char st
         | AtFirstKey \<Rightarrow> if char = 125 then close text st else readKey text char st
         | AtKey \<Rightarrow> readKey text char st
         | AtColon \<Rightarrow> if char \<noteq> 58 then fail st else st\<lparr>jp_pos := jp_pos st + 1, jp_state := AtValue\<rparr>
         | AtAfter \<Rightarrow> readAfter text char st
         | AtDone \<Rightarrow> st))"

section \<open>Runs\<close>

text \<open>What is left to read; a step reads on or ends.\<close>

definition remaining :: "jstr \<Rightarrow> json_tree_parser \<Rightarrow> nat" where
  "remaining text st = (if jp_state st = AtDone then 0 else Suc (length text - jp_pos st))"

lemma skip_pos: "jp_pos st \<le> jp_pos (skipWhitespace text st)"
  by (simp add: skipWhitespace_def)

lemma skip_fields [simp]:
  "jp_state (skipWhitespace text st) = jp_state st" "jp_stack (skipWhitespace text st) = jp_stack st"
  "jp_root (skipWhitespace text st) = jp_root st" "jp_error_at (skipWhitespace text st) = jp_error_at st"
  "jp_cut (skipWhitespace text st) = jp_cut st"
  by (simp_all add: skipWhitespace_def)

lemma done_states [simp]:
  "jp_state (fail st) = AtDone" "jp_state (cut_short text st) = AtDone" "jp_state (finish st) = AtDone"
  by (simp_all add: fail_def cut_short_def finish_def)

lemma attach_fields [simp]:
  "jp_pos (attach node st) = jp_pos st" "jp_state (attach node st) = jp_state st"
  "jp_stack (attach node st) = jp_stack st" "jp_error_at (attach node st) = jp_error_at st"
  "jp_cut (attach node st) = jp_cut st"
  by (simp_all add: attach_def in_top_def)

lemma afterValue_pos: "jp_state (afterValue text st) = AtDone \<or> jp_pos (afterValue text st) = jp_pos st"
  by (simp add: afterValue_def Let_def)

definition advances :: "json_tree_parser \<Rightarrow> json_tree_parser \<Rightarrow> bool" where
  "advances st st' \<longleftrightarrow> jp_state st' = AtDone \<or> jp_pos st < jp_pos st'"

lemma closing_quote_after: "closing_quote text search = Some q \<Longrightarrow> search \<le> q \<and> q < length text"
proof (induction "text" search rule: closing_quote.induct)
  case (1 body search)
  from "1.prems" obtain i where i: "find_index (\<lambda>c. c = 34) (drop search body) = Some i"
    by (auto simp: closing_quote.simps [of body search] split: option.splits)
  then have "search + i < length body" by (auto simp: find_index_Some)
  with "1.IH" [OF i refl] "1.prems" i show ?case
    by (auto simp: closing_quote.simps [of body search] Let_def split: if_splits)
qed

declare closing_quote.simps [simp del]

lemma readString_after: "readString text p = Some (s, True, after) \<Longrightarrow> p < after \<and> after \<le> length text"
  by (auto simp: readString_def Let_def dest!: closing_quote_after split: option.splits if_splits)

lemma advances_done [simp]: "jp_state st' = AtDone \<Longrightarrow> advances st st'"
  by (simp add: advances_def)

lemma advances_pos [simp]: "jp_pos st < jp_pos st' \<Longrightarrow> advances st st'"
  by (simp add: advances_def)

lemma afterValue_advances: "jp_pos st < jp_pos st' \<Longrightarrow> advances st (afterValue text st')"
  using afterValue_pos [of "text" st'] by (auto simp: advances_def)

lemma close_advances: "advances st (close text st)"
  unfolding close_def Let_def by (rule afterValue_advances) (simp add: in_top_def)

lemma number_match_nonempty: "number_match s = Some m \<Longrightarrow> m \<noteq> []"
  by (auto simp: number_match_def Let_def integer_part_def split: option.splits list.splits if_splits)

lemma readNumber_advances: "advances st (readNumber text st)"
  by (auto simp: readNumber_def Let_def intro!: afterValue_advances split: option.split)

lemma LITERALS_nonempty: "l \<in> set LITERALS \<Longrightarrow> l \<noteq> []"
  by (auto simp: LITERALS_def js_def)

lemma try_literals_advances: "\<forall>l \<in> set ls. l \<noteq> [] \<Longrightarrow> advances st (try_literals text st ls)"
  by (induction ls) (auto simp: Let_def intro!: afterValue_advances)

lemma readValue_advances: "advances st (readValue text char st)"
proof -
  have "advances st (afterValue text ((attach (NString s True) st)\<lparr>jp_pos := after\<rparr>))"
    if "readString text (jp_pos st) = Some (s, True, after)" for s after
    using readString_after [OF that] by (intro afterValue_advances) simp
  then show ?thesis
    using readNumber_advances [of st "text"] try_literals_advances [of LITERALS st "text"] LITERALS_nonempty
    by (auto simp: readValue_def Let_def split: option.split)
qed

lemma readKey_advances: "advances st (readKey text char st)"
  using readString_after by (auto simp: readKey_def split: option.split prod.split)

lemma readAfter_advances: "advances st (readAfter text char st)"
  using close_advances by (auto simp: readAfter_def advances_def)

lemma step_advances: "jp_state st \<noteq> AtDone \<Longrightarrow> advances st (step text st)"
proof -
  assume "jp_state st \<noteq> AtDone"
  let ?st = "skipWhitespace text st"
  have "advances ?st (step text st)"
    using \<open>jp_state st \<noteq> AtDone\<close> close_advances readValue_advances readKey_advances readAfter_advances
    by (cases "jp_state st") (simp_all add: step_def Let_def)
  then show ?thesis using skip_pos [of st "text"] by (auto simp: advances_def)
qed

lemma step_at_end: "jp_state st \<noteq> AtDone \<Longrightarrow> jp_pos st \<ge> length text \<Longrightarrow> jp_state (step text st) = AtDone"
  using skip_pos [of st "text"] by (simp add: step_def Let_def)

lemma step_remaining: "jp_state st \<noteq> AtDone \<Longrightarrow> remaining text (step text st) < remaining text st"
  using step_advances [of st "text"] step_at_end [of st "text"]
  by (cases "jp_pos st \<ge> length text") (auto simp: remaining_def advances_def)

text \<open>\<open>run\<close> without a deadline.\<close>

function run :: "jstr \<Rightarrow> json_tree_parser \<Rightarrow> json_tree_parser" where
  "run text st = (if jp_state st = AtDone then st else run text (step text st))"
  by pat_completeness auto

termination
  by (relation "measure (\<lambda>(text, st). remaining text st)") (simp_all add: step_remaining)

declare run.simps [simp del]

definition parseJsonTree :: "jstr \<Rightarrow> json_tree_parse" where
  "parseJsonTree text = parser_result (run text new_parser)"

text \<open>
  A slice looks at the clock after every 512th step; how many times it still had time is up to
  the host, and so an argument. It says whether it found the parser done.
\<close>

definition DEADLINE_CHECK_INTERVAL :: nat where "DEADLINE_CHECK_INTERVAL = 512"

fun run_steps :: "jstr \<Rightarrow> nat \<Rightarrow> json_tree_parser \<Rightarrow> bool \<times> json_tree_parser" where
  "run_steps text 0 st = (False, st)"
| "run_steps text (Suc n) st =
     (if jp_state st = AtDone then (True, st) else run_steps text n (step text st))"

definition run_slice :: "jstr \<Rightarrow> nat \<Rightarrow> json_tree_parser \<Rightarrow> bool \<times> json_tree_parser" where
  "run_slice text in_time st = run_steps text ((in_time + 1) * DEADLINE_CHECK_INTERVAL) st"

datatype incremental_outcome =
    TreeCancelled
  | TreeParsed json_tree_parse
  | TreeRunning json_tree_parser

text \<open>
  \<open>parseJsonTreeIncremental\<close>, over whether each slice finds the signal aborted and how long
  it had.
\<close>

fun parse_slices :: "jstr \<Rightarrow> json_tree_parser \<Rightarrow> (bool \<times> nat) list \<Rightarrow> incremental_outcome" where
  "parse_slices text st [] = TreeRunning st"
| "parse_slices text st ((aborted, in_time) # slices) =
     (if aborted then TreeCancelled
      else
        (let (found_done, st') = run_slice text in_time st in
         if found_done then TreeParsed (parser_result st') else parse_slices text st' slices))"

definition parseJsonTreeIncremental :: "jstr \<Rightarrow> (bool \<times> nat) list \<Rightarrow> incremental_outcome" where
  "parseJsonTreeIncremental text slices = parse_slices text new_parser slices"

section \<open>Slices\<close>

lemma run_step: "run text (step text st) = run text st" if "jp_state st \<noteq> AtDone"
  using that by (subst (2) run.simps) simp

lemma run_done: "jp_state st = AtDone \<Longrightarrow> run text st = st"
  by (subst run.simps) simp

lemma run_steps_facts:
  "case run_steps text n st of
     (True, st') \<Rightarrow> st' = run text st
   | (False, st') \<Rightarrow> run text st' = run text st \<and> remaining text st' + n \<le> remaining text st"
proof (induction n arbitrary: st)
  case (Suc n)
  show ?case
  proof (cases "jp_state st = AtDone")
    case False
    with Suc [of "step text st"] step_remaining [OF False, of "text"] show ?thesis
      by (auto simp: run_step split: bool.splits prod.splits)
  qed (simp add: run_done)
qed simp

lemma parse_slices_facts:
  "case parse_slices text st slices of
     TreeCancelled \<Rightarrow> list_ex fst slices
   | TreeParsed r \<Rightarrow> r = parser_result (run text st)
   | TreeRunning st' \<Rightarrow> \<not> list_ex fst slices
       \<and> remaining text st' + DEADLINE_CHECK_INTERVAL * length slices \<le> remaining text st"
proof (induction slices arbitrary: st)
  case (Cons slice slices)
  obtain aborted in_time where slice: "slice = (aborted, in_time)" by (cases slice)
  obtain found st' where s: "run_slice text in_time st = (found, st')" by (cases "run_slice text in_time st")
  with run_steps_facts [of "text" st "(in_time + 1) * DEADLINE_CHECK_INTERVAL"]
  have f: "found \<longrightarrow> st' = run text st"
    "\<not> found \<longrightarrow> run text st' = run text st \<and> remaining text st' + (in_time + 1) * DEADLINE_CHECK_INTERVAL \<le> remaining text st"
    by (simp_all add: run_slice_def split: bool.splits)
  show ?case
    using Cons [of st'] f
    by (auto simp: slice s split: incremental_outcome.splits)
qed simp

text \<open>
  C3: parsing in slices gives the tree that parsing at once gives, whatever time the slices
  get: a parse that ends ends with the result of \<open>parseJsonTree\<close>, and it is cancelled only
  by a slice that finds the signal aborted.
\<close>

theorem slices_same_tree:
  "case parseJsonTreeIncremental text slices of
     TreeCancelled \<Rightarrow> list_ex fst slices
   | TreeParsed r \<Rightarrow> r = parseJsonTree text
   | TreeRunning st \<Rightarrow> \<not> list_ex fst slices"
  using parse_slices_facts [of slices "text" new_parser]
  by (auto simp: parseJsonTreeIncremental_def parseJsonTree_def split: incremental_outcome.splits)

text \<open>
  C25: parsing ends: when no slice finds the signal aborted, as many slices as there are 512
  characters in the text, and one more, are enough for a result, however slow the host is.
\<close>

theorem slices_finish:
  assumes "\<not> list_ex fst slices" and "length text + 1 < DEADLINE_CHECK_INTERVAL * length slices"
  shows "parseJsonTreeIncremental text slices = TreeParsed (parseJsonTree text)"
proof -
  have "remaining text new_parser = length text + 1"
    by (simp add: remaining_def new_parser_def)
  with assms parse_slices_facts [of slices "text" new_parser] show ?thesis
    by (auto simp: parseJsonTreeIncremental_def parseJsonTree_def split: incremental_outcome.splits)
qed

theorem slices_finish_witness:
  "parseJsonTreeIncremental (js ''{}'') [(False, 0)] = TreeParsed (parseJsonTree (js ''{}''))"
  using slices_finish [of "[(False, 0)]" "js ''{}''"] by (simp add: DEADLINE_CHECK_INTERVAL_def)

end
