(* ===== verification/Json_Front.thy ===== *)
theory Json_Front
  imports Json_Tree "HOL-Library.Sublist"
begin

text \<open>
  What the tree parser makes of a document and of a part of it: a cut capture keeps what came
  before the cut.
\<close>

section \<open>Escapes and their ends\<close>

lemma trailing_append:
  "trailing_backslashes (a @ b) = (if set b \<subseteq> {92} then length b + trailing_backslashes a
     else trailing_backslashes b)"
proof -
  have "takeWhile (\<lambda>c. c = 92) (x @ y) = (if set x \<subseteq> {92} then x @ takeWhile (\<lambda>c. c = 92) y
      else takeWhile (\<lambda>c. c = 92) x)" for x y :: jstr
    by (induction x) auto
  from this [of "rev b" "rev a"] show ?thesis by (simp add: trailing_backslashes_def)
qed

lemma trailing_Nil [simp]: "trailing_backslashes [] = 0"
  by (simp add: trailing_backslashes_def)

lemma hex_not_backslash: "is_hex c \<Longrightarrow> c \<noteq> 92"
  by (auto simp: is_hex_def hex_value_def is_digit_def)

text \<open>One unit of a string literal: a plain character or an escape.\<close>

definition json_unit :: "jstr \<Rightarrow> nat \<Rightarrow> bool" where
  "json_unit u d \<longleftrightarrow> (u = [d] \<and> 32 \<le> d \<and> d \<noteq> 34 \<and> d \<noteq> 92)
     \<or> (\<exists>e. u = [92, e] \<and> simple_escape e = Some d)
     \<or> (\<exists>hs. u = 92 # 117 # hs \<and> length hs = 4 \<and> list_all is_hex hs \<and> d = hex4 hs)"

lemma simple_escape_u [simp]: "simple_escape 117 = None"
  by (simp add: simple_escape_def)

lemma length_four: "length hs = 4 \<Longrightarrow> \<exists>a b c d. hs = [a, b, c, d]"
proof -
  assume "length hs = 4"
  then have "length hs = Suc (Suc (Suc (Suc 0)))" by simp
  then show ?thesis unfolding length_Suc_conv by auto
qed

lemma unescape_unit: "json_unit u d \<Longrightarrow> json_unescape (u @ s) = map_option ((#) d) (json_unescape s)"
  by (auto simp: json_unit_def dest!: length_four)

lemma unescape_cases:
  assumes "json_unescape s = Some d"
  obtains "s = []" "d = []"
  | u c t d' where "s = u @ t" "json_unit u c" "json_unescape t = Some d'" "d = c # d'"
proof (cases s)
  case (Cons c t)
  show thesis
  proof (cases "c = 92")
    case False
    with assms Cons obtain d' where "json_unescape t = Some d'" "d = c # d'" "\<not> (c < 32 \<or> c = 34)"
      by (auto split: if_splits)
    then show thesis using that(2) [of "[c]" t c d'] Cons False by (simp add: json_unit_def)
  next
    case True
    with assms Cons obtain e r where t: "t = e # r" by (cases t) auto
    show thesis
    proof (cases "simple_escape e")
      case (Some u)
      with assms Cons True t obtain d' where "json_unescape r = Some d'" "d = u # d'" by auto
      then show thesis using that(2) [of "[92, e]" r u d'] Cons True t Some by (simp add: json_unit_def)
    next
      case None
      with assms Cons True t obtain h1 h2 h3 h4 q d' where "r = h1 # h2 # h3 # h4 # q" "e = 117"
        "list_all is_hex [h1, h2, h3, h4]" "json_unescape q = Some d'" "d = hex4 [h1, h2, h3, h4] # d'"
        by (auto split: list.splits if_splits)
      then show thesis
        using that(2) [of "[92, 117, h1, h2, h3, h4]" q "hex4 [h1, h2, h3, h4]" d'] Cons True t
        by (auto simp: json_unit_def)
    qed
  qed
qed (use assms that in simp)

lemma unescape_induct [consumes 1, case_names Nil unit]:
  assumes "json_unescape s = Some d" and "P [] []"
    and "\<And>u c t d'. json_unit u c \<Longrightarrow> json_unescape t = Some d' \<Longrightarrow> P t d' \<Longrightarrow> P (u @ t) (c # d')"
  shows "P s d"
  using assms(1)
proof (induction "length s" arbitrary: s d rule: less_induct)
  case less
  from less.prems show ?case
  proof (cases rule: unescape_cases)
    case (2 u c t d')
    then have "length t < length s" by (auto simp: json_unit_def)
    with less.hyps 2 assms(3) show ?thesis by blast
  qed (use assms(2) in simp)
qed

lemma unit_trailing: "json_unit u c \<Longrightarrow> even (trailing_backslashes (u @ y)) = even (trailing_backslashes y)"
proof -
  assume u: "json_unit u c"
  have "even (trailing_backslashes u)"
  proof (cases "\<exists>hs. u = 92 # 117 # hs \<and> length hs = 4 \<and> list_all is_hex hs")
    case True
    then obtain hs where hs: "u = [92, 117] @ hs" "length hs = 4" "list_all is_hex hs" by auto
    then have "92 \<notin> set hs" "hs \<noteq> []" using hex_not_backslash by (auto simp: list_all_iff)
    then have "trailing_backslashes hs = 0"
      by (cases hs rule: rev_cases) (auto simp: trailing_backslashes_def)
    with hs \<open>92 \<notin> set hs\<close> \<open>hs \<noteq> []\<close> show ?thesis
      unfolding hs(1) trailing_append [of "[92, 117]" hs] by (cases hs) auto
  qed (use u in \<open>auto simp: json_unit_def trailing_backslashes_def\<close>)
  then show ?thesis using trailing_append [of "[]" y] by (auto simp: trailing_append)
qed

lemma unescape_trailing: "json_unescape s = Some d \<Longrightarrow> even (trailing_backslashes s)"
  by (induction rule: unescape_induct) (auto simp: unit_trailing)

text \<open>A backslash that is not itself escaped begins a unit.\<close>

lemma unescape_start:
  "json_unescape s = Some d \<Longrightarrow> i < length s \<Longrightarrow> s ! i = 92 \<Longrightarrow> even (trailing_backslashes (take i s)) \<Longrightarrow>
    \<exists>e. json_unescape (drop i s) = Some e"
proof (induction arbitrary: i rule: unescape_induct)
  case (unit u c t d')
  show ?case
  proof (cases "i = 0")
    case True
    with unit show ?thesis using unescape_unit [of u c t] by auto
  next
    case False
    show ?thesis
    proof (cases "i < length u")
      case True
      with unit False have "u ! i = 92" by (simp add: nth_append)
      with \<open>json_unit u c\<close> True False have "u = [92, 92] \<and> i = 1"
        by (auto simp: json_unit_def nth_Cons' less_Suc_eq list_all_iff in_set_conv_nth hex_not_backslash
            dest: hex_not_backslash split: if_splits)
      with unit show ?thesis by (simp add: trailing_backslashes_def)
    next
      case False
      with unit have "t ! (i - length u) = 92" "i - length u < length t"
        "even (trailing_backslashes (take (i - length u) t))"
        by (auto simp: nth_append unit_trailing [OF unit(1)])
      with unit.IH False show ?thesis by simp
    qed
  qed
qed simp

definition open_unit :: "jstr \<Rightarrow> bool" where
  "open_unit t \<longleftrightarrow> t = [] \<or> t = [92] \<or> (\<exists>hs. t = 92 # 117 # hs \<and> length hs \<le> 3 \<and> list_all is_hex hs)"

lemma unescape_take:
  "json_unescape s = Some d \<Longrightarrow>
    \<exists>a t da. take k s = a @ t \<and> json_unescape a = Some da \<and> prefix da d \<and> open_unit t"
proof (induction arbitrary: k rule: unescape_induct)
  case (unit u c t d')
  show ?case
  proof (cases "k < length u")
    case True
    have "open_unit (take k u)"
    proof (cases "k \<le> 1")
      case True
      with \<open>json_unit u c\<close> \<open>k < length u\<close> show ?thesis
        by (cases k) (auto simp: json_unit_def open_unit_def)
    next
      case False
      with \<open>json_unit u c\<close> \<open>k < length u\<close> obtain hs where hs: "u = 92 # 117 # hs" "length hs = 4" "list_all is_hex hs"
        by (auto simp: json_unit_def)
      obtain n where "k = Suc (Suc n)" using False by (cases k; cases "k - 1") auto
      with hs \<open>k < length u\<close> show ?thesis
        by (auto simp: open_unit_def list_all_iff dest: in_set_takeD)
    qed
    with True show ?thesis by (intro exI [of _ "[]"] exI [of _ "take k u"]) simp
  next
    case False
    from unit.IH [of "k - length u"] obtain a t' da where
      "take (k - length u) t = a @ t'" "json_unescape a = Some da" "prefix da d'" "open_unit t'" by blast
    with False unescape_unit [OF unit(1), of a] show ?thesis
      by (intro exI [of _ "u @ a"] exI [of _ t'] exI [of _ "c # da"]) simp
  qed
qed (simp add: open_unit_def)

text \<open>A split escape is found at its backslash, and only there.\<close>

lemma split_escape_Some:
  "split_escape_at raw = Some i \<Longrightarrow> i + 2 \<le> length raw \<and> length raw \<le> i + 5 \<and> raw ! i = 92
     \<and> raw ! (i + 1) = 117 \<and> list_all is_hex (drop (i + 2) raw)"
  by (auto simp: split_escape_at_def find_Some_iff)

lemma split_escape_units:
  assumes "json_unescape a = Some da" and "split_escape_at a = Some i"
  shows "odd (trailing_backslashes (take i a))"
proof (rule ccontr)
  assume "\<not> odd (trailing_backslashes (take i a))"
  moreover note i = split_escape_Some [OF assms(2)]
  ultimately obtain e where e: "json_unescape (drop i a) = Some e"
    using unescape_start [OF assms(1), of i] by auto
  have "drop i a = 92 # 117 # drop (i + 2) a"
    using i Cons_nth_drop_Suc [of i a] Cons_nth_drop_Suc [of "i + 1" a] by simp
  with e obtain h1 h2 h3 h4 q where "drop (i + 2) a = h1 # h2 # h3 # h4 # q"
    by (auto split: list.splits)
  then have "length (drop (i + 2) a) = length q + 4" by simp
  with i show False by auto
qed

lemma split_escape_open:
  assumes "length hs \<le> 3" and "list_all is_hex hs"
  shows "split_escape_at (a @ 92 # 117 # hs) = Some (length a)"
proof -
  let ?raw = "a @ 92 # 117 # hs"
  let ?P = "\<lambda>i. i + 2 \<le> length ?raw \<and> length ?raw \<le> i + 5 \<and> ?raw ! i = 92 \<and> ?raw ! (i + 1) = 117
     \<and> list_all is_hex (drop (i + 2) ?raw)"
  have here: "?P (length a)" using assms by (simp add: nth_append)
  have "\<not> ?P i" if "i < length a" for i
  proof
    assume P: "?P i"
    show False
    proof (cases "i + 1 = length a")
      case True
      with P show False by (simp add: nth_append)
    next
      case False
      with that have "92 \<in> set (drop (i + 2) ?raw)" by simp
      with P hex_not_backslash show False by (auto simp: list_all_iff)
    qed
  qed
  with here show ?thesis
    unfolding split_escape_at_def find_Some_iff by (intro exI [of _ "length a"]) (simp add: nth_append)
qed

lemma split_escape_backslash: "split_escape_at (a @ [92]) = None"
proof (rule ccontr)
  assume "split_escape_at (a @ [92]) \<noteq> None"
  then obtain i where "split_escape_at (a @ [92]) = Some i" by auto
  note i = split_escape_Some [OF this]
  show False
  proof (cases "i + 2 = length (a @ [92])")
    case True
    with i show False by (simp add: nth_append)
  next
    case False
    with i have "92 \<in> set (drop (i + 2) (a @ [92]))" by simp
    with i hex_not_backslash show False by (auto simp: list_all_iff)
  qed
qed

lemma decodePartial_units:
  assumes "json_unescape a = Some da" and "open_unit t" and "92 \<in> set (a @ t)"
  shows "decodePartial (a @ t) = da"
proof -
  let ?body = "case split_escape_at (a @ t) of None \<Rightarrow> a @ t
    | Some i \<Rightarrow> if even (trailing_backslashes (take i (a @ t))) then take i (a @ t) else a @ t"
  let ?trimmed = "if odd (trailing_backslashes ?body) then butlast ?body else ?body"
  note even_a = unescape_trailing [OF assms(1)]
  have "?trimmed = a"
    using assms(2) unfolding open_unit_def
  proof (elim disjE exE conjE)
    assume "t = []"
    then show ?thesis using even_a split_escape_units [OF assms(1)] by (auto split: option.split)
  next
    assume t: "t = [92]"
    have "odd (trailing_backslashes (a @ [92]))" using even_a by (simp add: trailing_append)
    then show ?thesis by (simp add: t split_escape_backslash)
  next
    fix hs assume "t = 92 # 117 # hs" "length hs \<le> 3" "list_all is_hex hs"
    then show ?thesis using even_a by (simp add: split_escape_open)
  qed
  then show ?thesis using assms(1,3) by (simp add: decodePartial_def Let_def)
qed

lemma unescape_plain: "json_unescape s = Some d \<Longrightarrow> 92 \<notin> set s \<Longrightarrow> d = s"
  by (induction rule: unescape_induct) (auto simp: json_unit_def)

text \<open>A string that was cut comes back as a front part of the string.\<close>

lemma decodePartial_prefix:
  assumes "json_unescape s = Some d \<or> 92 \<notin> set s \<and> d = s"
  shows "prefix (decodePartial (take k s)) d"
proof (cases "json_unescape s = Some d")
  case True
  from unescape_take [OF this, of k] obtain a t da where
    split: "take k s = a @ t" "json_unescape a = Some da" "prefix da d" "open_unit t" by blast
  show ?thesis
  proof (cases "92 \<in> set (take k s)")
    case True
    with split show ?thesis by (simp add: decodePartial_units)
  next
    case False
    then have "t = []" using split by (auto simp: open_unit_def)
    then have "da = take k s" using split unescape_plain [of a da] False by simp
    with False split show ?thesis by (simp add: decodePartial_def)
  qed
next
  case False
  with assms have "92 \<notin> set (take k s)" "d = s" by (auto dest: in_set_takeD)
  then show ?thesis by (simp add: decodePartial_def take_is_prefix)
qed

section \<open>Numbers at a cut\<close>

lemma takeWhile_more: "length (takeWhile P t) < length t \<Longrightarrow> takeWhile P (t @ x) = takeWhile P t"
  by (induction t) (auto split: if_splits)

lemma fraction_more:
  "length (fraction_part True t) < length t \<Longrightarrow> fraction_part b (t @ x) = fraction_part b t"
  by (cases t) (auto simp: fraction_part_def takeWhile_more split: if_splits)

lemma exponent_more:
  "length (exponent_part True t) < length t \<Longrightarrow> exponent_part b (t @ x) = exponent_part b t"
proof (cases t)
  case (Cons c u)
  assume less: "length (exponent_part True t) < length t"
  show ?thesis
  proof (cases "c = 101 \<or> c = 69")
    case True
    with less Cons have "u \<noteq> []" by (auto simp: exponent_part_def Let_def)
    then obtain d v where u: "u = d # v" by (cases u) auto
    with less Cons True have "length (takeWhile is_digit (drop (if d = 43 \<or> d = 45 then 1 else 0) u))
        < length (drop (if d = 43 \<or> d = 45 then 1 else 0) u)"
      by (auto simp: exponent_part_def Let_def)
    from takeWhile_more [OF this, of x] True show ?thesis
      by (auto simp: Cons u exponent_part_def Let_def)
  next
    case False
    with Cons show ?thesis by (simp add: exponent_part_def)
  qed
qed simp

lemma fraction_False: "fraction_part False t = fraction_part True t \<or> fraction_part False t = [] \<and> hd t = 46"
  by (cases t) (auto simp: fraction_part_def)

lemma exponent_other: "t \<noteq> [] \<Longrightarrow> hd t \<noteq> 101 \<and> hd t \<noteq> 69 \<Longrightarrow> exponent_part b t = []"
  by (cases t) (auto simp: exponent_part_def)

lemma tail_more:
  assumes "length (tail_part True t) < length t"
  shows "tail_part b (t @ x) = tail_part b t"
proof -
  let ?f = "fraction_part True t"
  have less: "length ?f < length t" "length (exponent_part True (drop (length ?f) t)) < length (drop (length ?f) t)"
    using assms by (auto simp: tail_part_def Let_def)
  then have f: "fraction_part b (t @ x) = fraction_part b t" by (intro fraction_more)
  show ?thesis
  proof (cases "fraction_part b t = ?f")
    case True
    have "exponent_part b (drop (length ?f) t @ x) = exponent_part b (drop (length ?f) t)"
      by (rule exponent_more [OF less(2)])
    with True f less(1) show ?thesis by (simp add: tail_part_def Let_def)
  next
    case False
    then have "fraction_part b t = [] \<and> hd t = 46" using fraction_False [of t] by (cases b) auto
    moreover have "t \<noteq> []" using assms by auto
    ultimately show ?thesis using f by (simp add: tail_part_def Let_def exponent_other)
  qed
qed

lemma tail_digit: "t \<noteq> [] \<Longrightarrow> is_digit (hd t) \<Longrightarrow> tail_part b t = []"
  by (cases t) (auto simp: tail_part_def Let_def fraction_part_def exponent_part_def is_digit_def)

lemma sign_more: "t \<noteq> [] \<Longrightarrow> sign_part (t @ x) = sign_part t"
  by (cases t) (auto simp: sign_part_def)

lemma number_match_more:
  assumes "length (partial_number t) < length t"
  shows "number_match (t @ x) = number_match t"
proof -
  let ?sg = "sign_part t"
  let ?r = "drop (length ?sg) t"
  let ?i = "takeWhile is_digit ?r"
  have "t \<noteq> []" using assms by auto
  have len: "length ?sg \<le> length t" by (cases t) (auto simp: sign_part_def)
  have less: "length ?i < length ?r" "length (tail_part True (drop (length ?i) ?r)) < length (drop (length ?i) ?r)"
    using assms len by (auto simp: partial_number_def Let_def)
  then obtain c q where r: "?r = c # q" by (cases ?r) auto
  have sg: "sign_part (t @ x) = ?sg" "drop (length ?sg) (t @ x) = ?r @ x"
    using \<open>t \<noteq> []\<close> len by (simp_all add: sign_more)
  have int: "integer_part (?r @ x) = integer_part ?r"
    using takeWhile_more [OF less(1), of x] by (auto simp: r integer_part_def split: if_splits)
  have "tail_part False (drop (length i) (?r @ x)) = tail_part False (drop (length i) ?r)"
    if i: "integer_part ?r = Some i" for i
  proof (cases "i = ?i")
    case True
    with tail_more [OF less(2), of False x] less(1) show ?thesis by simp
  next
    case False
    with i r have c: "i = [48]" "c = 48" "takeWhile is_digit q \<noteq> []"
      by (auto simp: integer_part_def is_digit_def split: if_splits)
    then have "q \<noteq> []" "is_digit (hd q)" by (cases q; auto split: if_splits)+
    then show ?thesis using c by (simp add: r tail_digit)
  qed
  then show ?thesis
    unfolding number_match_def Let_def sg int by (cases "integer_part ?r") simp_all
qed

text \<open>The characters a number may go on with.\<close>

definition number_char :: "nat \<Rightarrow> bool" where
  "number_char c \<longleftrightarrow> is_digit c \<or> c \<in> {46, 101, 69, 43, 45}"

lemma partial_number_chars: "c \<in> set (partial_number t) \<Longrightarrow> number_char c"
proof -
  have d: "set (takeWhile is_digit u) \<subseteq> Collect number_char" for u
    by (auto simp: number_char_def dest: set_takeWhileD)
  have f: "set (fraction_part True u) \<subseteq> Collect number_char" for u
    using d by (cases u) (auto simp: fraction_part_def number_char_def dest!: set_takeWhileD)
  have e: "set (exponent_part True u) \<subseteq> Collect number_char" for u
    using d by (cases u) (auto simp: exponent_part_def number_char_def Let_def dest!: set_takeWhileD split: list.splits if_splits)
  have g: "set (sign_part u) \<subseteq> Collect number_char" for u
    by (cases u) (auto simp: sign_part_def number_char_def)
  assume "c \<in> set (partial_number t)"
  then show ?thesis using d f e g by (fastforce simp: partial_number_def tail_part_def Let_def)
qed

section \<open>Strings at a cut\<close>

lemma find_index_take:
  "find_index P (take k t) = (case find_index P t of None \<Rightarrow> None | Some i \<Rightarrow> if i < k then Some i else None)"
proof (induction t arbitrary: k)
  case (Cons c t)
  show ?case by (cases k) (auto simp: Cons split: option.splits)
qed simp

lemma closing_quote_take:
  "closing_quote (take n body) p = (case closing_quote body p of None \<Rightarrow> None | Some e \<Rightarrow> if e < n then Some e else None)"
proof (induction body p rule: closing_quote.induct)
  case (1 body p)
  show ?case
  proof (cases "find_index (\<lambda>c. c = 34) (drop p body)")
    case None
    then show ?thesis
      by (simp add: closing_quote.simps [of body] closing_quote.simps [of "take n body"] drop_take find_index_take)
  next
    case (Some i)
    let ?q = "p + i"
    show ?thesis
    proof (cases "?q < n")
      case True
      then have t: "take ?q (take n body) = take ?q body" by simp
      have f: "find_index (\<lambda>c. c = 34) (drop p (take n body)) = Some i"
        using Some True by (simp add: drop_take find_index_take)
      show ?thesis
      proof (cases "odd (trailing_backslashes (take ?q body))")
        case odd: True
        have "closing_quote (take n body) p = closing_quote (take n body) (?q + 1)"
          "closing_quote body p = closing_quote body (?q + 1)"
          using f Some t odd by (simp_all add: closing_quote.simps [of _ p])
        with "1.IH" [OF Some refl odd] show ?thesis by simp
      next
        case False
        have "closing_quote (take n body) p = Some ?q" "closing_quote body p = Some ?q"
          using f Some t False by (simp_all add: closing_quote.simps [of _ p])
        with True show ?thesis by simp
      qed
    next
      case False
      then have "\<not> i < n - p" by linarith
      then have "closing_quote (take n body) p = None"
        using Some by (simp add: closing_quote.simps [of _ p] drop_take find_index_take)
      moreover have "?q \<le> e" if "closing_quote body p = Some e" for e
        using that Some closing_quote_after [of body "?q + 1" e]
        by (auto simp: closing_quote.simps [of _ p] Let_def split: if_splits)
      ultimately show ?thesis using False by (auto split: option.split)
    qed
  qed
qed

section \<open>Parts of a tree\<close>

text \<open>
  A tree is the front of another when an open container or string of it, at the end of each
  level, goes on in the other.
\<close>

inductive node_front :: "jnode \<Rightarrow> jnode \<Rightarrow> bool" where
  same: "node_front n n"
| string: "prefix a b \<Longrightarrow> node_front (NString a False) (NString b True)"
| array_begun: "node_front (NArray [] False) (NArray items c)"
| array: "node_front x y \<Longrightarrow> node_front (NArray (us @ [x]) False) (NArray (us @ y # vs) c)"
| object_begun: "node_front (NObject [] False) (NObject entries c)"
| object: "node_front x y \<Longrightarrow> node_front (NObject (us @ [(k, x)]) False) (NObject (us @ (k, y) # vs) c)"

lemma node_front_trans: "node_front a b \<Longrightarrow> node_front b c \<Longrightarrow> node_front a c"
proof (induction a b arbitrary: c rule: node_front.induct)
  case (string a b)
  from string.prems show ?case
    by (cases rule: node_front.cases) (use string in \<open>auto intro: node_front.string\<close>)
next
  case (array_begun items w)
  from array_begun.prems show ?case
    by (cases rule: node_front.cases) (auto intro: node_front.intros)
next
  case (array x y us vs w)
  from array.prems show ?case
  proof (cases rule: node_front.cases)
    case same
    with array.hyps show ?thesis by (auto intro: node_front.array)
  next
    case front: (array x' y' us' vs' c')
    show ?thesis
    proof (cases vs rule: rev_cases)
      case Nil
      with front array.IH show ?thesis by (auto intro: node_front.array)
    next
      case (snoc vs'' v)
      with front have us: "us' = us @ y # vs''" by auto
      have "node_front (NArray (us @ [x]) False) (NArray (us @ y # (vs'' @ y' # vs')) c')"
        using array.hyps by (intro node_front.array)
      with front us show ?thesis by simp
    qed
  qed simp_all
next
  case (object_begun entries w)
  from object_begun.prems show ?case
    by (cases rule: node_front.cases) (auto intro: node_front.intros)
next
  case (object x y us k vs w)
  from object.prems show ?case
  proof (cases rule: node_front.cases)
    case same
    with object.hyps show ?thesis by (auto intro: node_front.object)
  next
    case front: (object x' y' us' k' vs' c')
    show ?thesis
    proof (cases vs rule: rev_cases)
      case Nil
      with front object.IH show ?thesis by (auto intro: node_front.object)
    next
      case (snoc vs'' v)
      with front have us: "us' = us @ (k, y) # vs''" by auto
      have "node_front (NObject (us @ [(k, x)]) False) (NObject (us @ (k, y) # (vs'' @ (k', y') # vs')) c')"
        using object.hyps by (intro node_front.object)
      with front us show ?thesis by simp
    qed
  qed simp_all
qed simp

text \<open>The nodes down to a height of the last-child path are open containers.\<close>

fun open_spine :: "nat \<Rightarrow> jnode \<Rightarrow> bool" where
  "open_spine 0 (NArray items c) \<longleftrightarrow> \<not> c"
| "open_spine 0 (NObject entries c) \<longleftrightarrow> \<not> c"
| "open_spine (Suc d) (NArray items c) \<longleftrightarrow> \<not> c \<and> items \<noteq> [] \<and> open_spine d (last items)"
| "open_spine (Suc d) (NObject entries c) \<longleftrightarrow> \<not> c \<and> entries \<noteq> [] \<and> open_spine d (snd (last entries))"
| "open_spine d n \<longleftrightarrow> False"

lemma spine_front:
  "open_spine d r \<Longrightarrow> node_front (f (spine_node d r)) (g (spine_node d r)) \<Longrightarrow>
    node_front (on_spine d f r) (on_spine d g r)"
proof (induction d r rule: open_spine.induct)
  case (3 d items c)
  then show ?case by (auto intro!: node_front.array [where vs = "[]"])
next
  case (4 d entries c)
  then show ?case by (auto intro!: node_front.object [where vs = "[]"])
qed auto

lemma on_spine_id: "on_spine d (\<lambda>n. n) r = r"
proof (induction d "\<lambda>n :: jnode. n" r rule: on_spine.induct)
  case (3 d entries c)
  then show ?case by (cases entries rule: rev_cases) auto
qed auto

lemma spine_grows:
  "open_spine d r \<Longrightarrow> node_front (spine_node d r) (f (spine_node d r)) \<Longrightarrow> node_front r (on_spine d f r)"
  using spine_front [of d r "\<lambda>n. n" f] by (simp add: on_spine_id)

lemma open_spine_node: "open_spine d r \<Longrightarrow> open_spine 0 (spine_node d r)"
  by (induction d r rule: open_spine.induct) auto

lemma add_child_front:
  "open_spine 0 n \<Longrightarrow> node_front n (add_child k v n)"
  "open_spine 0 n \<Longrightarrow> node_front v w \<Longrightarrow> node_front (add_child k v n) (add_child k w n)"
  "open_spine 0 n \<Longrightarrow> node_front n (set_complete n)"
proof -
  have array: "node_front (NArray items False) (NArray (items @ vs) c)" for items vs c
  proof (cases items rule: rev_cases)
    case (snoc us x)
    with node_front.array [OF node_front.same, of us x vs c] show ?thesis by simp
  qed (auto intro: node_front.intros)
  have object: "node_front (NObject entries False) (NObject (entries @ vs) c)" for entries vs c
  proof (cases entries rule: rev_cases)
    case (snoc us x)
    with node_front.object [OF node_front.same, of us "fst x" "snd x" vs c] show ?thesis by simp
  qed (auto intro: node_front.intros)
  show "open_spine 0 n \<Longrightarrow> node_front n (add_child k v n)"
    using array object by (cases n) auto
  show "open_spine 0 n \<Longrightarrow> node_front n (set_complete n)"
    using array [where vs = "[]"] object [where vs = "[]"] by (cases n) auto
  show "open_spine 0 n \<Longrightarrow> node_front v w \<Longrightarrow> node_front (add_child k v n) (add_child k w n)"
    by (cases n) (auto intro: node_front.array [where vs = "[]"] node_front.object [where vs = "[]"])
qed

section \<open>The machine keeps an open path\<close>

lemma open_spine_on:
  "open_spine d r \<Longrightarrow> open_spine 0 (f (spine_node d r)) \<Longrightarrow> open_spine d (on_spine d f r)"
  by (induction d r rule: open_spine.induct) auto

lemma open_spine_above: "open_spine (Suc d) r \<Longrightarrow> open_spine d (on_spine (Suc d) f r)"
  by (induction d r rule: open_spine.induct) (auto split: if_splits)

lemma open_spine_push:
  "open_spine d r \<Longrightarrow> open_spine 0 v \<Longrightarrow> open_spine (Suc d) (on_spine d (add_child k v) r)"
  by (induction d r rule: open_spine.induct) auto

lemma open_spine_add: "open_spine 0 n \<Longrightarrow> open_spine 0 (add_child k v n)"
  by (cases n) auto

definition root_front :: "jnode option \<Rightarrow> jnode option \<Rightarrow> bool" where
  "root_front a b \<longleftrightarrow> (case a of None \<Rightarrow> True | Some x \<Rightarrow> (case b of None \<Rightarrow> False | Some y \<Rightarrow> node_front x y))"

lemma root_front_refl [simp]: "root_front a a"
  by (cases a) (auto simp: root_front_def intro: node_front.same)

lemma root_front_trans: "root_front a b \<Longrightarrow> root_front b c \<Longrightarrow> root_front a c"
  by (auto simp: root_front_def intro: node_front_trans split: option.splits)

definition open_path :: "json_tree_parser \<Rightarrow> bool" where
  "open_path st \<longleftrightarrow> (if jp_stack st = [] then jp_root st = None
     else case jp_root st of None \<Rightarrow> False | Some r \<Rightarrow> open_spine (length (jp_stack st) - 1) r)"

definition running :: "json_tree_parser \<Rightarrow> bool" where
  "running st \<longleftrightarrow> jp_state st \<noteq> AtDone \<longrightarrow> open_path st \<and> jp_error_at st = None \<and> \<not> jp_cut st
     \<and> (jp_state st \<noteq> AtValue \<longrightarrow> jp_stack st \<noteq> [])"

lemma attach_grows: "open_path st \<Longrightarrow> root_front (jp_root st) (jp_root (attach v st))"
  by (auto simp: open_path_def attach_def in_top_def root_front_def
      intro!: spine_grows add_child_front(1) dest: open_spine_node split: option.splits if_splits)

lemma attach_front:
  "open_path st \<Longrightarrow> node_front v w \<Longrightarrow> root_front (jp_root (attach v st)) (jp_root (attach w st))"
  by (auto simp: open_path_def attach_def in_top_def root_front_def
      intro!: spine_front add_child_front(2) dest: open_spine_node split: option.splits if_splits)

lemma attach_open: "open_path st \<Longrightarrow> jp_stack st \<noteq> [] \<Longrightarrow> open_path (attach v st)"
  by (auto simp: open_path_def attach_def in_top_def
      intro!: open_spine_on open_spine_add dest: open_spine_node split: option.splits)

lemma afterValue_fields [simp]:
  "jp_root (afterValue text st) = jp_root st" "jp_stack (afterValue text st) = jp_stack st"
  "jp_cut (afterValue text st) = jp_cut st"
  by (auto simp: afterValue_def Let_def fail_def)

lemma open_path_update [simp]:
  "open_path (st\<lparr>jp_pos := p\<rparr>) = open_path st" "open_path (st\<lparr>jp_state := x\<rparr>) = open_path st"
  by (simp_all add: open_path_def cong: option.case_cong)

lemma afterValue_running:
  assumes "jp_error_at st = None" and "\<not> jp_cut st" and "jp_stack st \<noteq> [] \<longrightarrow> open_path st"
  shows "running (afterValue text st)"
  using assms by (auto simp: running_def afterValue_def Let_def)

lemma close_root: "jp_root (close text st) = (if jp_stack st = [] then jp_root st
    else map_option (on_spine (length (jp_stack st) - 1) set_complete) (jp_root st))"
  by (simp add: close_def Let_def in_top_def)

lemma close_grows: "open_path st \<Longrightarrow> root_front (jp_root st) (jp_root (close text st))"
  by (auto simp: open_path_def close_root root_front_def
      intro!: spine_grows add_child_front(3) dest: open_spine_node split: option.splits if_splits)

lemma close_running: "running st \<Longrightarrow> jp_state st \<noteq> AtDone \<Longrightarrow> running (close text st)"
proof -
  assume st: "running st" "jp_state st \<noteq> AtDone"
  then have o: "open_path st" "jp_error_at st = None" "\<not> jp_cut st" by (auto simp: running_def)
  show ?thesis
  proof (cases "jp_stack st")
    case Nil
    with o show ?thesis unfolding close_def Let_def by (intro afterValue_running) auto
  next
    case (Cons k ks)
    have "open_path ((in_top set_complete st)\<lparr>jp_stack := ks\<rparr>)" if "ks \<noteq> []"
      using o that Cons
      by (cases ks) (auto simp: open_path_def in_top_def intro: open_spine_above split: option.splits)
    with o Cons show ?thesis unfolding close_def Let_def
      by (intro afterValue_running) (auto simp: in_top_def)
  qed
qed

lemma leaf_running:
  assumes "running st" and "jp_state st \<noteq> AtDone"
  shows "running (afterValue text ((attach v st)\<lparr>jp_pos := p\<rparr>))"
  using assms by (intro afterValue_running) (auto simp: running_def attach_open)

lemma readNumber_running: "running st \<Longrightarrow> jp_state st \<noteq> AtDone \<Longrightarrow> running (readNumber text st)"
  by (auto simp: readNumber_def Let_def running_def [of "fail _"] running_def [of "cut_short _ _"]
      intro!: leaf_running split: option.split)

lemma try_literals_running:
  "running st \<Longrightarrow> jp_state st \<noteq> AtDone \<Longrightarrow> running (try_literals text st ls)"
  by (induction ls) (auto simp: Let_def running_def [of "fail _"] running_def [of "cut_short _ _"] intro!: leaf_running)

lemma push_running:
  assumes "running st" and "jp_state st \<noteq> AtDone" and "open_spine 0 v"
  shows "running ((attach v st)\<lparr>jp_stack := [] # jp_stack st, jp_pos := p, jp_state := x\<rparr>)"
proof -
  have "open_path ((attach v st)\<lparr>jp_stack := [] # jp_stack st\<rparr>)"
  proof (cases "jp_stack st")
    case (Cons k ks)
    with assms show ?thesis
      by (auto simp: running_def open_path_def attach_def in_top_def intro: open_spine_push split: option.splits)
  qed (use assms in \<open>simp add: open_path_def attach_def\<close>)
  with assms show ?thesis by (simp add: running_def open_path_def cong: option.case_cong)
qed

lemma readValue_running: "running st \<Longrightarrow> jp_state st \<noteq> AtDone \<Longrightarrow> running (readValue text char st)"
  by (auto simp: readValue_def Let_def running_def [of "fail _"] running_def [of "_\<lparr>jp_cut := True\<rparr>"]
      intro!: leaf_running push_running readNumber_running try_literals_running split: option.split)
    (simp_all add: running_def)

lemma readKey_running: "running st \<Longrightarrow> jp_state st \<noteq> AtDone \<Longrightarrow> jp_stack st \<noteq> [] \<Longrightarrow> running (readKey text char st)"
  by (auto simp: readKey_def running_def open_path_def split: option.splits)

lemma skip_running: "running st \<Longrightarrow> running (skipWhitespace text st)"
  by (simp add: running_def skipWhitespace_def)

lemma step_running:
  assumes "running st"
  shows "running (step text st)"
proof (cases "jp_state st = AtDone \<or> jp_pos (skipWhitespace text st) \<ge> length text")
  case False
  then show ?thesis
    using skip_running [OF assms, of "text"]
    by (auto simp: step_def Let_def running_def [of "fail _"] readAfter_def
        intro!: close_running readValue_running readKey_running split: parser_state.splits)
      (auto simp: running_def open_path_def cong: option.case_cong)
qed (auto simp: running_def step_def Let_def)

end
