(* ===== verification/Json_Cut.thy ===== *)
theory Json_Cut
  imports Json_Front
begin

text \<open>
  The tree parser on the front of a text keeps in step with the parser on the whole text: a cut
  capture keeps what came before the cut.
\<close>

section \<open>In step with the full text\<close>

lemma takeWhile_take_length:
  "length (takeWhile P (take k s)) = min k (length (takeWhile P s))"
  by (induction s arbitrary: k) (auto simp: take_Cons' split: if_splits)

lemma skip_take:
  assumes "jp_pos st \<le> n" and "n \<le> length body"
  shows "skipWhitespace (take n body) st
    = (skipWhitespace body st)\<lparr>jp_pos := min n (jp_pos (skipWhitespace body st))\<rparr>"
  using assms by (simp add: skipWhitespace_def drop_take takeWhile_take_length min_def)

text \<open>
  What a step on the front of a text may do, beside the step on the whole text: the same; or
  both end with the same tree; or the cut ends it while the other reads past the cut.
\<close>

definition lock :: "nat \<Rightarrow> jnode option \<Rightarrow> json_tree_parser \<Rightarrow> json_tree_parser \<Rightarrow> bool" where
  "lock n before x y \<longleftrightarrow>
     (x = y \<and> jp_state y \<noteq> AtDone \<and> jp_pos y \<le> n)
     \<or> (jp_state x = AtDone \<and> jp_state y = AtDone \<and> n \<le> jp_pos y \<and> jp_root x = jp_root y
          \<and> jp_error_at x = None \<and> \<not> jp_cut x)
     \<or> (jp_state x = AtDone \<and> n \<le> jp_pos y \<and> jp_error_at x = None \<and> jp_cut x
          \<and> root_front before (jp_root x) \<and> root_front (jp_root x) (jp_root y))"

text \<open>A step that goes well: it neither fails nor finds the text cut.\<close>

definition fine :: "json_tree_parser \<Rightarrow> bool" where
  "fine st \<longleftrightarrow> jp_error_at st = None \<and> \<not> jp_cut st"

lemma afterValue_lock:
  assumes "fine st" and "fine (afterValue body st)" and "jp_pos st \<le> n" and "n \<le> length body"
  shows "lock n before (afterValue (take n body) st) (afterValue body st)"
proof (cases "jp_stack st = []")
  case True
  with assms(2) have "jp_pos (skipWhitespace body st) \<ge> length body"
    by (auto simp: afterValue_def Let_def fine_def fail_def split: if_splits)
  with True assms show ?thesis
    by (simp add: afterValue_def Let_def lock_def skip_take fine_def min_def)
qed (use assms in \<open>simp add: afterValue_def lock_def\<close>)

lemma afterValue_pos_le: "jp_pos st \<le> jp_pos (afterValue text st)"
  using skip_pos [of st "text"] by (auto simp: afterValue_def Let_def fail_def)

lemma cut_lock:
  assumes "fine st" and "n \<le> jp_pos y" and "root_front (jp_root st) (jp_root y)"
  shows "lock n (jp_root st) (cut_short text st) y"
  using assms by (simp add: lock_def cut_short_def fine_def)

lemma close_lock:
  assumes "fine st" and "fine (close body st)" and "jp_pos st < n" and "n \<le> length body"
  shows "lock n before (close (take n body) st) (close body st)"
  using assms unfolding close_def Let_def
  by (intro afterValue_lock) (auto simp: fine_def in_top_def split: if_splits)

lemma readString_cases:
  assumes "readString body p = Some (s, True, after)"
  obtains raw where "closing_quote body (p + 1) = Some (after - 1)" "after \<ge> p + 2"
    "raw = take (after - 1 - (p + 1)) (drop (p + 1) body)" "json_unescape raw = Some s \<or> 92 \<notin> set raw \<and> s = raw"
proof -
  from assms obtain q where q: "closing_quote body (p + 1) = Some q" "after = q + 1"
    by (auto simp: readString_def Let_def split: option.splits if_splits)
  from closing_quote_after [OF q(1)] assms q show thesis
    by (intro that [of "take (q - (p + 1)) (drop (p + 1) body)"])
      (auto simp: readString_def Let_def split: option.splits if_splits)
qed

lemma readString_take:
  assumes "readString body p = Some (s, True, after)" and "p < n" and "n \<le> length body"
  shows "if after \<le> n then readString (take n body) p = Some (s, True, after)
    else (\<exists>s'. readString (take n body) p = Some (s', False, n) \<and> prefix s' s)"
proof -
  from assms(1) obtain raw where raw: "closing_quote body (p + 1) = Some (after - 1)" "after \<ge> p + 2"
    "raw = take (after - 1 - (p + 1)) (drop (p + 1) body)" "json_unescape raw = Some s \<or> 92 \<notin> set raw \<and> s = raw"
    by (rule readString_cases)
  show ?thesis
  proof (cases "after \<le> n")
    case True
    then have "closing_quote (take n body) (p + 1) = Some (after - 1)"
      using raw by (simp add: closing_quote_take)
    moreover have "take (after - 1 - (p + 1)) (drop (p + 1) (take n body)) = raw"
      using raw True by (simp add: drop_take min_absorb1)
    ultimately show ?thesis
      using assms(1) raw True by (auto simp: readString_def Let_def)
  next
    case False
    then have "closing_quote (take n body) (p + 1) = None"
      using raw by (simp add: closing_quote_take)
    then have "readString (take n body) p = Some (decodePartial (drop (p + 1) (take n body)), False, n)"
      using assms by (simp add: readString_def)
    moreover have "drop (p + 1) (take n body) = take (n - (p + 1)) raw"
      using raw False by (simp add: drop_take min_absorb1)
    ultimately show ?thesis using decodePartial_prefix [OF raw(4)] False by auto
  qed
qed

lemma string_value_lock:
  assumes "fine st" and "open_path st" and "jp_pos st < n" and "n \<le> length body"
    and "readString body (jp_pos st) = Some (s, True, after)"
    and "fine (afterValue body ((attach (NString s True) st)\<lparr>jp_pos := after\<rparr>))"
    and "char = 34"
  shows "lock n (jp_root st) (readValue (take n body) char st) (readValue body char st)"
proof (cases "after \<le> n")
  case True
  with readString_take [OF assms(5,3,4)] assms show ?thesis
    by (auto simp: readValue_def is_digit_def fine_def intro!: afterValue_lock)
next
  case False
  with readString_take [OF assms(5,3,4)] obtain s' where
    s': "readString (take n body) (jp_pos st) = Some (s', False, n)" "prefix s' s" by auto
  let ?y = "afterValue body ((attach (NString s True) st)\<lparr>jp_pos := after\<rparr>)"
  have "after \<le> jp_pos ?y" by (rule order_trans [OF _ afterValue_pos_le]) simp
  with False s' assms show ?thesis
    by (auto simp: readValue_def lock_def fine_def attach_grows intro!: attach_front node_front.string)
qed

section \<open>Numbers and literals in step\<close>

lemma prefix_parts: "prefix a t \<Longrightarrow> prefix b (drop (length a) t) \<Longrightarrow> prefix (a @ b) t"
  by (auto simp: prefix_def)

lemma takeWhile_prefix: "prefix (takeWhile P t) t"
  by (metis prefixI takeWhile_dropWhile_id)

lemma fraction_prefix: "prefix (fraction_part b t) t"
  by (cases t) (auto simp: fraction_part_def takeWhile_prefix)

lemma exponent_prefix: "prefix (exponent_part b t) t"
proof (cases t)
  case (Cons c u)
  have "prefix (takeWhile is_digit v) v" for v by (rule takeWhile_prefix)
  then show ?thesis
    by (cases u) (auto simp: Cons exponent_part_def Let_def)
qed (simp add: exponent_part_def)

lemma tail_prefix: "prefix (tail_part b t) t"
  unfolding tail_part_def Let_def by (intro prefix_parts fraction_prefix exponent_prefix)

lemma sign_prefix: "prefix (sign_part t) t"
  by (cases t) (auto simp: sign_part_def)

lemma partial_number_prefix: "prefix (partial_number t) t"
  unfolding partial_number_def Let_def
  by (intro prefix_parts sign_prefix takeWhile_prefix tail_prefix)

lemma integer_prefix: "integer_part t = Some i \<Longrightarrow> prefix i t"
  by (cases t) (auto simp: integer_part_def takeWhile_prefix split: if_splits)

lemma number_match_prefix: "number_match t = Some m \<Longrightarrow> prefix m t"
  by (auto simp: number_match_def Let_def split: option.splits
      intro!: prefix_parts sign_prefix tail_prefix dest: integer_prefix)

lemma number_char_stops:
  assumes "number_char c"
  shows "\<not> json_space c" and "c \<noteq> 44" and "c \<noteq> 93" and "c \<noteq> 125"
  using assms by (auto simp: number_char_def json_space_def is_digit_def)

lemma run_after_number:
  assumes "jp_state y = AtAfter" and "jp_pos y < length body" and "number_char (body ! jp_pos y)"
  shows "\<not> fine (run body y)"
proof -
  have skip: "skipWhitespace body y = y"
    using assms(2) number_char_stops(1) [OF assms(3)]
    by (simp add: skipWhitespace_def takeWhile_eq_Nil_iff hd_drop_conv_nth)
  have "step body y = fail y"
    using assms number_char_stops [OF assms(3)] by (simp add: step_def skip Let_def readAfter_def)
  then have "run body y = fail y" using assms(1) run_step [of y body] by (simp add: run_done)
  then show ?thesis by (simp add: fine_def fail_def)
qed

lemma readNumber_lock:
  assumes "fine st" and "open_path st" and "jp_stack st \<noteq> []" and "jp_pos st < n" and "n \<le> length body"
    and "fine (run body (readNumber body st))"
  shows "lock n (jp_root st) (readNumber (take n body) st) (readNumber body st)"
proof -
  let ?t = "drop (jp_pos st) body"
  let ?t' = "drop (jp_pos st) (take n body)"
  have split: "?t = ?t' @ drop n body" using assms(4,5)
    by (simp add: drop_take) (metis append_take_drop_id drop_drop le_add_diff_inverse2 less_imp_le add.commute)
  have len: "length ?t' = n - jp_pos st" using assms by simp
  have whole: "\<not> length body \<le> jp_pos st + length (partial_number ?t)"
    and "number_match ?t \<noteq> None"
    using assms by (auto simp: readNumber_def Let_def run_done fine_def cut_short_def fail_def split: if_splits option.splits)
  then obtain m where m: "number_match ?t = Some m" by auto
  let ?a = "\<lambda>m. (attach (NNumber m) st)\<lparr>jp_pos := jp_pos st + length m\<rparr>"
  have y: "readNumber body st = afterValue body (?a m)"
    using assms(3) whole m number_match_nonempty [OF m] by (simp add: readNumber_def Let_def)
  have y_after: "readNumber body st = (?a m)\<lparr>jp_state := AtAfter\<rparr>"
    using assms(3) by (simp add: y afterValue_def)
  show ?thesis
  proof (cases "length (partial_number ?t') < length ?t'")
    case True
    then have m': "number_match ?t' = Some m"
      using number_match_more [of ?t' "drop n body"] m split by simp
    have "length m \<le> length ?t'" using number_match_prefix [OF m'] prefix_length_le by blast
    moreover have "readNumber (take n body) st = afterValue (take n body) (?a m)"
      using assms(3) True m' number_match_nonempty [OF m'] len by (simp add: readNumber_def Let_def)
    ultimately show ?thesis
      using assms(3,4) len by (simp add: y_after afterValue_def lock_def)
  next
    case False
    then have cut: "readNumber (take n body) st = cut_short (take n body) st"
      using assms(3,4,5) len by (simp add: readNumber_def Let_def)
    have all: "partial_number ?t' = ?t'"
      using False partial_number_prefix [of ?t'] by (metis not_less prefix_length_le prefix_order.eq_iff
          append_eq_append_conv le_antisym prefix_def append_Nil2)
    have "n \<le> jp_pos st + length m"
    proof (rule ccontr)
      assume "\<not> n \<le> jp_pos st + length m"
      then have less: "length m < length ?t'" using len by simp
      then have "number_char (?t' ! length m)"
        using partial_number_chars [of "?t' ! length m" ?t'] all by simp
      then have "number_char (body ! (jp_pos st + length m))"
        using less len assms by simp
      then have "\<not> fine (run body (readNumber body st))"
        using less len assms by (intro run_after_number) (simp_all add: y_after)
      with assms(6) show False by simp
    qed
    then show ?thesis
      unfolding cut using assms by (intro cut_lock) (simp_all add: y_after attach_grows)
  qed
qed

lemma starts_with_take:
  "starts_with l (take k t) \<longleftrightarrow> starts_with l t \<and> length l \<le> k"
proof -
  have "length l \<le> k" if "take (length l) (take k t) = l"
    using arg_cong [OF that, of length] by simp
  then show ?thesis by (auto simp: starts_with_def min_def)
qed

lemma starts_with_hd: "starts_with l t \<Longrightarrow> l \<noteq> [] \<Longrightarrow> t \<noteq> [] \<and> hd t = hd l"
  by (cases l; cases t) (auto simp: starts_with_def)

lemma try_literals_found:
  "fine (try_literals body st ls) \<Longrightarrow> \<exists>l \<in> set ls. starts_with l (drop (jp_pos st) body)"
  by (induction ls) (auto simp: Let_def fine_def fail_def cut_short_def split: if_splits)

lemma try_literals_lock:
  assumes "fine st" and "open_path st" and "jp_pos st < n" and "n \<le> length body" and "jp_stack st \<noteq> []"
  shows "fine (try_literals body st ls) \<Longrightarrow> distinct (map hd ls) \<Longrightarrow> [] \<notin> set ls \<Longrightarrow>
    lock n (jp_root st) (try_literals (take n body) st ls) (try_literals body st ls)"
proof (induction ls)
  case Nil
  then show ?case by (simp add: fine_def fail_def)
next
  case (Cons l ls)
  let ?t = "drop (jp_pos st) body"
  let ?t' = "take (n - jp_pos st) ?t"
  have t': "drop (jp_pos st) (take n body) = ?t'" by (simp add: drop_take)
  show ?case
  proof (cases "starts_with l ?t")
    case True
    let ?y = "afterValue body ((attach (NLiteral l) st)\<lparr>jp_pos := jp_pos st + length l\<rparr>)"
    have y: "try_literals body st (l # ls) = ?y" using True by simp
    show ?thesis
    proof (cases "length l \<le> n - jp_pos st")
      case fits: True
      then have "starts_with l ?t'" using True by (simp add: starts_with_take)
      then have "try_literals (take n body) st (l # ls)
          = afterValue (take n body) ((attach (NLiteral l) st)\<lparr>jp_pos := jp_pos st + length l\<rparr>)"
        by (simp add: t')
      then show ?thesis using assms fits unfolding y by (simp add: afterValue_def lock_def)
    next
      case False
      then have "\<not> starts_with l ?t'" by (simp add: starts_with_take)
      moreover have "take (length l) ?t' = ?t'" using False by simp
      moreover have "starts_with ?t' l"
      proof -
        have "take (n - jp_pos st) l = take (n - jp_pos st) (take (length l) ?t)"
          using True by (simp add: starts_with_def)
        moreover have "length ?t' = n - jp_pos st" using assms by simp
        ultimately show ?thesis using False unfolding starts_with_def by (simp add: min_def)
      qed
      moreover have "length ?t' < length l" using False by simp
      ultimately have "try_literals (take n body) st (l # ls) = cut_short (take n body) st"
        by (simp add: t' Let_def)
      moreover have "n \<le> jp_pos ?y" using False assms by (simp add: afterValue_def)
      ultimately show ?thesis unfolding y using assms by (simp add: cut_lock attach_grows)
    qed
  next
    case False
    then have no: "\<not> starts_with l ?t'" by (simp add: starts_with_take)
    have "\<not> (length (take (length l) ?t) < length l \<and> starts_with (take (length l) ?t) l)"
    proof
      assume "length (take (length l) ?t) < length l \<and> starts_with (take (length l) ?t) l"
      then have "try_literals body st (l # ls) = cut_short body st"
        using False unfolding try_literals.simps Let_def by (simp only: if_True if_False conj_absorb)
      with Cons.prems(1) show False by (simp add: fine_def cut_short_def)
    qed
    then have y: "try_literals body st (l # ls) = try_literals body st ls"
      using False unfolding try_literals.simps Let_def by (simp only: if_False)
    show ?thesis
    proof (cases "length (take (length l) ?t') < length l \<and> starts_with (take (length l) ?t') l")
      case True
      have "fine (try_literals body st ls)" using Cons.prems(1) y by simp
      from try_literals_found [OF this] obtain l' where l': "l' \<in> set ls" "starts_with l' ?t" by blast
      then have "?t \<noteq> []" "hd ?t = hd l'" using starts_with_hd [of l' ?t] Cons.prems(3) by auto
      moreover from this have "?t' \<noteq> []" "hd ?t' = hd ?t" using assms(3) by (cases ?t; simp add: take_Cons')+
      moreover from this have "take (length l) ?t' \<noteq> []" "hd (take (length l) ?t') = hd ?t'"
        using Cons.prems(3) by (cases ?t'; cases l; simp)+
      moreover from this have "hd (take (length l) ?t') = hd l"
        using True starts_with_hd [of "take (length l) ?t'" l] by simp
      ultimately have "hd l = hd l'" by simp
      with l' Cons.prems(2) show ?thesis by (metis distinct.simps(2) image_eqI list.map(2) list.set_map)
    next
      case False
      then have "try_literals (take n body) st (l # ls) = try_literals (take n body) st ls"
        unfolding try_literals.simps t' Let_def by (simp only: no False if_False)
      with Cons y show ?thesis by simp
    qed
  qed
qed

section \<open>Every step goes on\<close>

definition on_from :: "json_tree_parser \<Rightarrow> json_tree_parser \<Rightarrow> bool" where
  "on_from st y \<longleftrightarrow> jp_pos st \<le> jp_pos y \<and> root_front (jp_root st) (jp_root y)"

lemma on_from_same [simp]:
  "on_from st (fail st)" "on_from st (finish st)"
  "jp_pos st \<le> length text \<Longrightarrow> on_from st (cut_short text st)"
  by (simp_all add: on_from_def fail_def finish_def cut_short_def)

lemma leaf_on:
  "open_path st \<Longrightarrow> jp_pos st \<le> p \<Longrightarrow> on_from st (afterValue text ((attach v st)\<lparr>jp_pos := p\<rparr>))"
  using afterValue_pos_le [of "(attach v st)\<lparr>jp_pos := p\<rparr>" "text"] by (simp add: on_from_def attach_grows)

lemma close_on: "open_path st \<Longrightarrow> on_from st (close text st)"
proof -
  assume o: "open_path st"
  have "jp_pos st \<le> jp_pos (close text st)"
    unfolding close_def Let_def by (rule order_trans [OF _ afterValue_pos_le]) (simp add: in_top_def)
  then show ?thesis using close_grows [OF o] by (simp add: on_from_def)
qed

lemma readNumber_on: "open_path st \<Longrightarrow> jp_pos st \<le> length text \<Longrightarrow> on_from st (readNumber text st)"
  by (auto simp: readNumber_def Let_def intro!: leaf_on split: option.split)

lemma try_literals_on: "open_path st \<Longrightarrow> jp_pos st \<le> length text \<Longrightarrow> on_from st (try_literals text st ls)"
  by (induction ls) (auto simp: Let_def intro!: leaf_on)

lemma readString_forward: "readString text p = Some (s, w, a) \<Longrightarrow> p \<le> length text \<Longrightarrow> p \<le> a"
  using readString_after [of "text" p s a] by (cases w) (auto simp: readString_def Let_def split: option.splits if_splits)

lemma readValue_on:
  assumes "open_path st" and "jp_pos st \<le> length text"
  shows "on_from st (readValue text char st)"
  using assms readString_forward [OF _ assms(2)]
  by (auto simp: readValue_def Let_def intro!: leaf_on readNumber_on try_literals_on split: option.split)
    (auto simp: on_from_def attach_grows)

lemma readKey_on: "jp_pos st \<le> length text \<Longrightarrow> on_from st (readKey text char st)"
  using readString_forward [of "text" "jp_pos st"]
  by (auto simp: readKey_def split: option.split) (simp add: on_from_def)

lemma readAfter_on: "open_path st \<Longrightarrow> on_from st (readAfter text char st)"
  using close_on [of st "text"] by (auto simp: readAfter_def) (simp add: on_from_def)+

lemma step_on: "running st \<Longrightarrow> jp_state st \<noteq> AtDone \<Longrightarrow> on_from (skipWhitespace text st) (step text st)"
proof -
  assume st: "running st" "jp_state st \<noteq> AtDone"
  have o: "open_path (skipWhitespace text st)"
    using st by (simp add: running_def skipWhitespace_def)
  show ?thesis
  proof (cases "jp_pos (skipWhitespace text st) \<ge> length text")
    case False
    then show ?thesis
      using st o close_on readValue_on readKey_on readAfter_on
      by (cases "jp_state st") (auto simp: step_def Let_def, simp add: on_from_def)
  qed (simp add: step_def Let_def)
qed

section \<open>Steps in step\<close>

lemma fine_run: "fine (run body y) \<Longrightarrow> jp_state y = AtDone \<Longrightarrow> fine y"
  by (simp add: run_done)

lemma readValue_lock:
  assumes "fine st" and "open_path st" and "jp_stack st \<noteq> []" and "jp_pos st < n" and "n \<le> length body"
    and "fine (run body (readValue body char st))" and "fine (readValue body char st)"
  shows "lock n (jp_root st) (readValue (take n body) char st) (readValue body char st)"
proof -
  consider "char = 123 \<or> char = 91" | "char = 34" | "char = 45 \<or> is_digit char" "char \<noteq> 34" "char \<noteq> 123" "char \<noteq> 91"
    | "char \<noteq> 123" "char \<noteq> 91" "char \<noteq> 34" "char \<noteq> 45" "\<not> is_digit char" by blast
  then show ?thesis
  proof cases
    case 1
    then show ?thesis using assms by (auto simp: readValue_def Let_def lock_def)
  next
    case 2
    show ?thesis
    proof (cases "readString body (jp_pos st)")
      case None
      with 2 assms(7) show ?thesis by (simp add: readValue_def fine_def fail_def)
    next
      case (Some r)
      obtain s w a where r: "readString body (jp_pos st) = Some (s, w, a)" using Some by (cases r) auto
      with 2 assms(7) have "w" by (auto simp: readValue_def fine_def Let_def split: if_splits)
      with r 2 assms have "fine (afterValue body ((attach (NString s True) st)\<lparr>jp_pos := a\<rparr>))"
        by (simp add: readValue_def Let_def)
      with r \<open>w\<close> 2 assms show ?thesis by (intro string_value_lock) auto
    qed
  next
    case 3
    with assms readNumber_lock show ?thesis by (auto simp: readValue_def)
  next
    case 4
    moreover have "distinct (map hd LITERALS)" "[] \<notin> set LITERALS" by (simp_all add: LITERALS_def js_def)
    ultimately show ?thesis using assms try_literals_lock by (simp add: readValue_def)
  qed
qed

lemma readKey_lock:
  assumes "fine st" and "jp_pos st < n" and "n \<le> length body"
    and "fine (readKey body char st)"
  shows "lock n (jp_root st) (readKey (take n body) char st) (readKey body char st)"
proof -
  from assms(4) obtain s a where r: "char = 34" "readString body (jp_pos st) = Some (s, True, a)"
    by (auto simp: readKey_def fine_def fail_def cut_short_def split: if_splits option.splits)
  show ?thesis
  proof (cases "a \<le> n")
    case True
    with readString_take [OF r(2) assms(2,3)] r show ?thesis
      by (simp add: readKey_def lock_def)
  next
    case False
    with readString_take [OF r(2) assms(2,3)] obtain s' where
      "readString (take n body) (jp_pos st) = Some (s', False, n)" by auto
    then have "readKey (take n body) char st = cut_short (take n body) st"
      using r by (simp add: readKey_def)
    then show ?thesis using r False assms by (simp add: cut_lock readKey_def)
  qed
qed

lemma readAfter_lock:
  assumes "fine st" and "jp_stack st \<noteq> []" and "jp_pos st < n" and "n \<le> length body"
    and "fine (readAfter body char st)"
  shows "lock n (jp_root st) (readAfter (take n body) char st) (readAfter body char st)"
  using assms close_lock [of st body n "jp_root st"]
  by (auto simp: readAfter_def lock_def [of _ _ "_\<lparr>jp_pos := _, jp_state := _\<rparr>"] fine_def fail_def split: if_splits)

lemma step_front:
  assumes "running st" and "jp_state st \<noteq> AtDone" and "jp_stack st \<noteq> []" and "jp_pos st \<le> n" and "n \<le> length body"
    and "fine (run body st)"
  shows "lock n (jp_root st) (step (take n body) st) (step body st)"
proof -
  let ?st = "skipWhitespace body st"
  let ?y = "step body st"
  have st: "open_path st" "fine st" using assms(1,2) by (auto simp: running_def fine_def)
  then have st': "open_path ?st" "fine ?st" "running ?st" using skip_running [OF assms(1)]
    by (simp_all add: fine_def skipWhitespace_def)
  have run: "fine (run body ?y)" using assms(2,6) by (simp add: run_step)
  have y: "fine ?y"
  proof (cases "jp_state ?y = AtDone")
    case True
    with run show ?thesis by (simp add: run_done)
  next
    case False
    with step_running [OF assms(1), of body] show ?thesis by (simp add: running_def fine_def)
  qed
  show ?thesis
  proof (cases "jp_pos ?st < n")
    case True
    then have skip: "skipWhitespace (take n body) st = ?st" using assms(4,5) by (simp add: skip_take)
    have in_body: "\<not> length body \<le> jp_pos ?st" "\<not> length (take n body) \<le> jp_pos ?st"
      and char: "take n body ! jp_pos ?st = body ! jp_pos ?st"
      using True assms(5) by simp_all
    note at = assms(3) st' True assms(5)
    note s = step_def [of body st] step_def [of "take n body" st]
    show ?thesis
    proof (cases "jp_state st")
      case AtValue
      then show ?thesis using at run y readValue_lock [of ?st n body "body ! jp_pos ?st"]
        by (simp add: s skip in_body char Let_def del: length_take)
    next
      case AtFirstValue
      then show ?thesis
        using at run y readValue_lock [of ?st n body "body ! jp_pos ?st"] close_lock [of ?st body n "jp_root st"]
        by (simp add: s skip in_body char Let_def del: length_take split: if_splits)
    next
      case AtKey
      then show ?thesis using at run y readKey_lock [of ?st n body "body ! jp_pos ?st"]
        by (simp add: s skip in_body char Let_def del: length_take)
    next
      case AtFirstKey
      then show ?thesis
        using at run y readKey_lock [of ?st n body "body ! jp_pos ?st"] close_lock [of ?st body n "jp_root st"]
        by (simp add: s skip in_body char Let_def del: length_take split: if_splits)
    next
      case AtColon
      then show ?thesis using at y
        by (simp add: s skip in_body char Let_def lock_def fine_def fail_def del: length_take split: if_splits)
    next
      case AtAfter
      then show ?thesis using at run y readAfter_lock [of ?st n body "body ! jp_pos ?st"]
        by (simp add: s skip in_body char Let_def del: length_take)
    qed (use assms(2) in simp)
  next
    case False
    then have "jp_pos (skipWhitespace (take n body) st) = n" using assms(4,5) by (simp add: skip_take)
    then have x: "step (take n body) st = finish (skipWhitespace (take n body) st)"
      using assms(5) by (simp add: step_def Let_def)
    have "n \<le> jp_pos ?y" and "root_front (jp_root st) (jp_root ?y)"
      using step_on [OF assms(1,2), of body] False by (auto simp: on_from_def)
    then show ?thesis
      using assms(3) st by (simp add: x finish_def lock_def fine_def)
  qed
qed

section \<open>Runs in step\<close>

lemma step_done: "jp_state st = AtDone \<Longrightarrow> on_from st (step text st) \<and> jp_state (step text st) = AtDone"
  using skip_pos [of st "text"] by (auto simp: step_def Let_def on_from_def finish_def fail_def)

lemma step_forward: "running st \<Longrightarrow> on_from st (step text st)"
  using step_on [of st "text"] step_done [of st "text"] skip_pos [of st "text"]
  by (cases "jp_state st = AtDone") (auto simp: on_from_def)

lemma steps_forward: "running st \<Longrightarrow> running ((step text ^^ k) st) \<and> on_from st ((step text ^^ k) st)"
proof (induction k)
  case (Suc k)
  then show ?case
    using step_running [of "(step text ^^ k) st" "text"] step_forward [of "(step text ^^ k) st" "text"]
    by (auto simp: on_from_def intro: root_front_trans)
qed (simp add: on_from_def)

lemma run_forward: "running st \<Longrightarrow> root_front (jp_root st) (jp_root (run text st))"
proof (induction "text" st rule: run.induct)
  case (1 body st)
  then show ?case
    using step_running [of st body] step_forward [of st body] run_step [of st body]
    by (cases "jp_state st = AtDone") (auto simp: run_done on_from_def intro: root_front_trans)
qed

lemma run_steps_run: "running st \<Longrightarrow> jp_root (run text ((step text ^^ k) st)) = jp_root (run text st)"
proof (induction k)
  case (Suc k)
  let ?x = "(step text ^^ k) st"
  show ?case
  proof (cases "jp_state ?x = AtDone")
    case True
    have "jp_root (step text x) = jp_root x" if "jp_state x = AtDone" for x
      using that by (simp add: step_def Let_def finish_def fail_def)
    with True Suc step_done [OF True, of "text"] show ?thesis by (simp add: run_done)
  qed (use Suc in \<open>simp add: run_step\<close>)
qed simp

lemma step_stack:
  assumes "running st" and "jp_state st \<noteq> AtDone" and "jp_stack st \<noteq> []" and "jp_state (step body st) \<noteq> AtDone"
  shows "jp_stack (step body st) \<noteq> []"
proof
  assume "jp_stack (step body st) = []"
  with step_running [OF assms(1), of body] assms(4) have "jp_root (step body st) = None"
    by (auto simp: running_def open_path_def)
  moreover have "jp_root st \<noteq> None" using assms(1-3) by (auto simp: running_def open_path_def split: option.splits)
  ultimately show False using step_forward [OF assms(1), of body] by (auto simp: on_from_def root_front_def split: option.splits)
qed

lemma run_front:
  assumes "running st" and "jp_state st \<noteq> AtDone" and "jp_stack st \<noteq> []" and "jp_pos st \<le> n" and "n \<le> length body"
    and "fine (run body st)"
  shows "let x = run (take n body) st; y = run body st in
    jp_error_at x = None \<and> root_front (jp_root st) (jp_root x) \<and> root_front (jp_root x) (jp_root y)
    \<and> (jp_cut x \<or> jp_root x = jp_root y)
    \<and> (\<forall>k. jp_pos ((step body ^^ k) st) < n \<longrightarrow> root_front (jp_root ((step body ^^ k) st)) (jp_root x))"
  using assms
proof (induction body st rule: run.induct)
  case (1 body st)
  let ?x = "step (take n body) st"
  let ?y = "step body st"
  have run: "run body st = run body ?y" "run (take n body) st = run (take n body) ?x"
    using "1.prems"(2) by (simp_all add: run_step)
  have grow: "root_front (jp_root st) (jp_root ?y)" using step_forward [OF "1.prems"(1)] by (simp add: on_from_def)
  have y: "running ?y" by (rule step_running [OF "1.prems"(1)])
  have late: "k = 0" if "n \<le> jp_pos ?y" "jp_pos ((step body ^^ k) st) < n" for k
  proof (cases k)
    case (Suc m)
    then have "(step body ^^ k) st = (step body ^^ m) ?y" by (simp add: funpow_swap1)
    with steps_forward [OF y, of m body] that show ?thesis by (simp add: on_from_def)
  qed simp
  from step_front [OF "1.prems"] consider
      (same) "?x = ?y" "jp_state ?y \<noteq> AtDone" "jp_pos ?y \<le> n"
    | (ended) "jp_state ?x = AtDone" "jp_state ?y = AtDone" "n \<le> jp_pos ?y" "jp_root ?x = jp_root ?y"
        "jp_error_at ?x = None"
    | (cut) "jp_state ?x = AtDone" "n \<le> jp_pos ?y" "jp_error_at ?x = None" "jp_cut ?x"
        "root_front (jp_root st) (jp_root ?x)" "root_front (jp_root ?x) (jp_root ?y)"
    unfolding lock_def by satx
  then show ?case
  proof cases
    case same
    have "fine (run body ?y)" using "1.prems"(6) run by simp
    with "1.IH" [OF "1.prems"(2) y] same step_stack [OF "1.prems"(1-3)] "1.prems"(5)
    have IH: "let x = run (take n body) ?y; z = run body ?y in
      jp_error_at x = None \<and> root_front (jp_root ?y) (jp_root x) \<and> root_front (jp_root x) (jp_root z)
      \<and> (jp_cut x \<or> jp_root x = jp_root z)
      \<and> (\<forall>k. jp_pos ((step body ^^ k) ?y) < n \<longrightarrow> root_front (jp_root ((step body ^^ k) ?y)) (jp_root x))" by blast
    have first: "root_front (jp_root st) (jp_root (run (take n body) ?y))"
      using IH grow root_front_trans by (auto simp: Let_def)
    have "root_front (jp_root ((step body ^^ k) st)) (jp_root (run (take n body) ?y))"
      if "jp_pos ((step body ^^ k) st) < n" for k
    proof (cases k)
      case (Suc m)
      then have "(step body ^^ k) st = (step body ^^ m) ?y" by (simp add: funpow_swap1)
      with IH that show ?thesis by (simp add: Let_def)
    qed (use first in simp)
    with IH first same show ?thesis by (simp add: run Let_def)
  next
    case ended
    with late grow show ?thesis by (auto simp: run run_done Let_def dest: late)
  next
    case cut
    have "root_front (jp_root ?x) (jp_root (run body ?y))"
      using cut(6) run_forward [OF y, of body] by (rule root_front_trans)
    with cut show ?thesis by (auto simp: run run_done [of ?x] Let_def dest: late)
  qed
qed

section \<open>A cut capture\<close>

definition container_root :: "jnode option \<Rightarrow> bool" where
  "container_root r \<longleftrightarrow> (case r of Some (NObject es c) \<Rightarrow> True | Some (NArray xs c) \<Rightarrow> True | _ \<Rightarrow> False)"

lemma new_running: "running new_parser"
  by (simp add: running_def new_parser_def open_path_def)

lemma leaf_root:
  assumes "jp_stack st = []" and "char \<noteq> 123" and "char \<noteq> 91" and "jp_root st = None"
  shows "jp_state (readValue text char st) = AtDone \<and> \<not> container_root (jp_root (readValue text char st))"
proof -
  have leaf: "jp_state (afterValue text st') = AtDone" if "jp_stack st' = []" for st'
    using that by (simp add: afterValue_def Let_def fail_def)
  have "jp_state (try_literals text st ls) = AtDone \<and> \<not> container_root (jp_root (try_literals text st ls))" for ls
    using assms by (induction ls) (auto simp: Let_def leaf attach_def container_root_def fail_def cut_short_def)
  moreover have "jp_state (readNumber text st) = AtDone \<and> \<not> container_root (jp_root (readNumber text st))"
    using assms by (auto simp: readNumber_def Let_def leaf attach_def container_root_def fail_def split: option.split)
  ultimately show ?thesis
    using assms by (auto simp: readValue_def Let_def leaf attach_def container_root_def fail_def split: option.split)
qed

lemma first_step:
  assumes "container_root (jp_root (run body new_parser))"
  shows "let p = jp_pos (skipWhitespace body new_parser); y = step body new_parser in
    p < length body \<and> jp_state y \<noteq> AtDone \<and> jp_stack y \<noteq> [] \<and> jp_pos y = p + 1
    \<and> (\<forall>n. p < n \<longrightarrow> n \<le> length body \<longrightarrow> step (take n body) new_parser = y)
    \<and> (\<forall>n. n \<le> p \<longrightarrow> n \<le> length body \<longrightarrow> jp_root (run (take n body) new_parser) = None)"
proof -
  let ?st = "skipWhitespace body new_parser"
  have new: "jp_state new_parser = AtValue" "jp_stack new_parser = []" "jp_root new_parser = None"
    by (simp_all add: new_parser_def)
  have run: "run t new_parser = run t (step t new_parser)" for t by (simp add: run_step new)
  have less: "jp_pos ?st < length body"
  proof (rule ccontr)
    assume "\<not> jp_pos ?st < length body"
    then have "jp_root (run body new_parser) = None"
      by (simp add: run step_def Let_def run_done finish_def fail_def new)
    with assms show False by (simp add: container_root_def)
  qed
  let ?c = "body ! jp_pos ?st"
  have step: "step body new_parser = readValue body ?c ?st" using less by (simp add: step_def Let_def new)
  have c: "?c = 123 \<or> ?c = 91"
  proof (rule ccontr)
    assume "\<not> ?thesis"
    with leaf_root [of ?st ?c body] have "jp_state (step body new_parser) = AtDone"
      "\<not> container_root (jp_root (step body new_parser))" by (simp_all add: step new)
    with assms show False by (simp add: run run_done)
  qed
  have "step (take n body) new_parser = step body new_parser" if "jp_pos ?st < n" "n \<le> length body" for n
  proof -
    have "skipWhitespace (take n body) new_parser = ?st"
      using that by (simp add: skip_take new_parser_def min_def)
    with that c less show ?thesis by (auto simp: step_def Let_def new readValue_def)
  qed
  moreover have "jp_root (run (take n body) new_parser) = None" if "n \<le> jp_pos ?st" "n \<le> length body" for n
  proof -
    have "jp_pos (skipWhitespace (take n body) new_parser) = n"
      using that by (simp add: skip_take new_parser_def min_def)
    with that show ?thesis by (simp add: run step_def Let_def run_done finish_def fail_def new)
  qed
  ultimately show ?thesis using less c by (auto simp: step readValue_def Let_def)
qed

text \<open>
  C1: a capture cut inside its document reads as the document does up to the cut. When the
  whole text is one complete object or array, a front part of it that has at least its first
  bracket never counts as malformed: its tree is a front of the whole tree, all that the
  parser had built of the whole text before the cut is in it, and unless it is said to be cut
  it is the whole tree.
\<close>

theorem cut_capture_kept:
  assumes "jr_error_at (parseJsonTree body) = None" and "\<not> jr_cut (parseJsonTree body)"
    and "container_root (jr_root (parseJsonTree body))"
    and "jr_root (parseJsonTree (take n body)) \<noteq> None"
  shows "let part = parseJsonTree (take n body) in
    jr_error_at part = None
    \<and> root_front (jr_root part) (jr_root (parseJsonTree body))
    \<and> (jr_cut part \<or> jr_root part = jr_root (parseJsonTree body))
    \<and> (\<forall>k. jp_pos ((step body ^^ k) new_parser) < n
         \<longrightarrow> root_front (jp_root ((step body ^^ k) new_parser)) (jr_root part))"
proof (cases "n \<le> length body")
  case False
  then have "take n body = body" by simp
  moreover have "root_front (jp_root ((step body ^^ k) new_parser)) (jp_root (run body new_parser))" for k
    using run_forward [of "(step body ^^ k) new_parser" body] steps_forward [OF new_running, of k body]
      run_steps_run [OF new_running, of body k] by simp
  ultimately show ?thesis using assms by (simp add: Let_def parseJsonTree_def parser_result_def)
next
  case True
  let ?y = "step body new_parser"
  have c: "container_root (jp_root (run body new_parser))"
    using assms(3) by (simp add: parseJsonTree_def parser_result_def)
  note first = first_step [OF c, unfolded Let_def]
  have "jp_root (run (take n body) new_parser) \<noteq> None"
    using assms(4) by (simp add: parseJsonTree_def parser_result_def)
  then have n: "jp_pos (skipWhitespace body new_parser) < n"
    using first True by (metis not_less)
  have new: "jp_state new_parser \<noteq> AtDone" by (simp add: new_parser_def)
  have run: "run body new_parser = run body ?y" "run (take n body) new_parser = run (take n body) ?y"
    using first n True run_step [OF new] by (metis, metis)
  have "fine (run body ?y)" using assms(1,2) by (simp add: fine_def parseJsonTree_def parser_result_def run)
  then have rest: "let x = run (take n body) ?y; z = run body ?y in
    jp_error_at x = None \<and> root_front (jp_root ?y) (jp_root x) \<and> root_front (jp_root x) (jp_root z)
    \<and> (jp_cut x \<or> jp_root x = jp_root z)
    \<and> (\<forall>k. jp_pos ((step body ^^ k) ?y) < n \<longrightarrow> root_front (jp_root ((step body ^^ k) ?y)) (jp_root x))"
    using first n True by (intro run_front step_running new_running) auto
  have "root_front (jp_root ((step body ^^ k) new_parser)) (jp_root (run (take n body) ?y))"
    if "jp_pos ((step body ^^ k) new_parser) < n" for k
  proof (cases k)
    case 0
    then show ?thesis by (simp add: new_parser_def root_front_def)
  next
    case (Suc m)
    then have "(step body ^^ k) new_parser = (step body ^^ m) ?y" by (simp add: funpow_swap1)
    with rest that show ?thesis by (simp add: Let_def)
  qed
  with rest show ?thesis by (simp add: Let_def parseJsonTree_def parser_result_def run)
qed

theorem cut_capture_kept_witness:
  "root_front (jr_root (parseJsonTree (js ''[1,'')))
     (Some (NArray [NNumber (js ''1''), NLiteral (js ''true'')] True))"
proof -
  let ?body = "js ''[1,true]''"
  have "parseJsonTree ?body = \<lparr>jr_root = Some (NArray [NNumber (js ''1''), NLiteral (js ''true'')] True),
      jr_error_at = None, jr_cut = False\<rparr>"
    by code_simp
  moreover have "take 3 ?body = js ''[1,''" by code_simp
  moreover have "jr_root (parseJsonTree (js ''[1,'')) \<noteq> None" by code_simp
  ultimately show ?thesis
    using cut_capture_kept [of ?body 3] by (simp add: container_root_def Let_def)
qed

end
