(* ===== verification/Json_Text.thy ===== *)
theory Json_Text
  imports Js_Numbers
begin

text \<open>
  JSON values as text: \<open>String(value)\<close>, as template literals use it, and \<open>JSON.stringify\<close>,
  plain and with an indent of two. The digits of a number that is no whole one below
  10^21 belong to the host, an argument here.
\<close>

type_synonym number_text = "rat \<Rightarrow> jstr"

definition num_text :: "number_text \<Rightarrow> jnum \<Rightarrow> jstr" where
  "num_text fraction n = (case n of
     Fin q \<Rightarrow>
       if is_integer q \<and> \<bar>\<lfloor>q\<rfloor>\<bar> < 10 ^ 21
       then (if \<lfloor>q\<rfloor> < 0 then 45 # dec (nat (- \<lfloor>q\<rfloor>)) else dec (nat \<lfloor>q\<rfloor>)) else fraction q
   | PosInf \<Rightarrow> js ''Infinity'' | NegInf \<Rightarrow> js ''-Infinity'' | NaN \<Rightarrow> js ''NaN'')"

lemma num_text_nat: "int n < 10 ^ 21 \<Longrightarrow> num_text fraction (Fin (rat_of_nat n)) = dec n"
  by (simp add: num_text_def is_integer_def)

section \<open>\<open>String(value)\<close>\<close>

text \<open>An array joins its elements with commas, an absent one as the empty text.\<close>

fun js_text :: "number_text \<Rightarrow> json \<Rightarrow> jstr" where
  "js_text fraction JUndef = js ''undefined''"
| "js_text fraction JNull = js ''null''"
| "js_text fraction (JBool b) = js (if b then ''true'' else ''false'')"
| "js_text fraction (JNum n) = num_text fraction n"
| "js_text fraction (JStr s) = s"
| "js_text fraction (JArr vs) =
     join_with (js '','') (map (\<lambda>v. if v \<in> {JUndef, JNull} then [] else js_text fraction v) vs)"
| "js_text fraction (JObj o') = js ''[object Object]''"

section \<open>\<open>JSON.stringify\<close>\<close>

definition hex_digit :: "nat \<Rightarrow> nat" where
  "hex_digit n = (if n < 10 then 48 + n else 87 + n)"

definition unicode_escape :: "nat \<Rightarrow> jstr" where
  "unicode_escape c = [92, 117, hex_digit (c div 4096 mod 16), hex_digit (c div 256 mod 16),
     hex_digit (c div 16 mod 16), hex_digit (c mod 16)]"

definition json_char :: "nat \<Rightarrow> jstr" where
  "json_char c = (if c = 34 then [92, 34] else if c = 92 then [92, 92] else if c = 8 then [92, 98]
     else if c = 9 then [92, 116] else if c = 10 then [92, 110] else if c = 12 then [92, 102]
     else if c = 13 then [92, 114]
     else if c < 32 \<or> high_surrogate c \<or> low_surrogate c then unicode_escape c else [c])"

text \<open>Well-formed: a lone surrogate is escaped, a pair is kept.\<close>

fun json_inner :: "jstr \<Rightarrow> jstr" where
  "json_inner [] = []"
| "json_inner [c] = json_char c"
| "json_inner (c # d # s) =
     (if high_surrogate c \<and> low_surrogate d then c # d # json_inner s
      else json_char c @ json_inner (d # s))"

definition json_quote :: "jstr \<Rightarrow> jstr" where
  "json_quote s = [34] @ json_inner s @ [34]"

definition json_number :: "number_text \<Rightarrow> jnum \<Rightarrow> jstr" where
  "json_number fraction n = (case n of Fin q \<Rightarrow> num_text fraction n | _ \<Rightarrow> js ''null'')"

definition new_line :: "nat \<Rightarrow> jstr" where
  "new_line depth = 10 # replicate (2 * depth) 32"

text \<open>The value at a depth: an absent property is left out, an absent element is \<open>null\<close>.\<close>

fun pretty_at :: "number_text \<Rightarrow> nat \<Rightarrow> json \<Rightarrow> jstr" where
  "pretty_at fraction depth JUndef = js ''null''"
| "pretty_at fraction depth JNull = js ''null''"
| "pretty_at fraction depth (JBool b) = js (if b then ''true'' else ''false'')"
| "pretty_at fraction depth (JNum n) = json_number fraction n"
| "pretty_at fraction depth (JStr s) = json_quote s"
| "pretty_at fraction depth (JArr vs) =
     (if vs = [] then js ''[]''
      else js ''['' @ new_line (depth + 1)
        @ join_with (js '','' @ new_line (depth + 1)) (map (pretty_at fraction (depth + 1)) vs)
        @ new_line depth @ js '']'')"
| "pretty_at fraction depth (JObj o') =
     (let fields = map (\<lambda>(k, v). json_quote k @ js '': '' @ pretty_at fraction (depth + 1) v)
            (filter (\<lambda>(k, v). v \<noteq> JUndef) o') in
      if fields = [] then js ''{}''
      else js ''{'' @ new_line (depth + 1) @ join_with (js '','' @ new_line (depth + 1)) fields
        @ new_line depth @ js ''}'')"

lemma pretty_empty: "pretty_at fraction d (JObj []) = js ''{}''"
  by simp

end
