(* ===== verification/Json_Tree_View.thy ===== *)
theory Json_Tree_View
  imports Json_Tree Json_Text "HOL-Library.Sublist"
begin

text \<open>
  The view of a JSON tree, \<open>json-tree-model.ts\<close> after its parser, and the find of
  \<open>find-model.ts\<close>: the visible rows, what starts open, the search and the way to a hit, and
  the one-line previews. A matcher is what its \<open>exec\<close> finds at or after a position: where
  the match starts, and its length.
\<close>

section \<open>Find\<close>

type_synonym matcher = "jstr \<Rightarrow> nat \<Rightarrow> (nat \<times> nat) option"

definition FIND_HIT_LIMIT :: nat where "FIND_HIT_LIMIT = 1000"

text \<open>
  Each match moves the cursor past it, a match of no length past one more; the search is asked
  for a number of matches.
\<close>

function find_offsets_from :: "jstr \<Rightarrow> matcher \<Rightarrow> nat \<Rightarrow> nat \<Rightarrow> nat list" where
  "find_offsets_from text exec cursor limit =
     (if limit = 0 \<or> cursor > length text then []
      else
        (case exec text cursor of
           None \<Rightarrow> []
         | Some (start, n) \<Rightarrow>
             start # find_offsets_from text exec
               (if n = 0 then start + 1 else start + n) (limit - 1)))"
  by pat_completeness auto

termination
  by (relation "measure (\<lambda>(text, exec, cursor, limit). limit)") auto

declare find_offsets_from.simps [simp del]

definition findOffsets :: "jstr \<Rightarrow> matcher \<Rightarrow> nat \<Rightarrow> nat list" where
  "findOffsets text exec limit = find_offsets_from text exec 0 limit"

text \<open>The hit a step moves to: \<open>%\<close> keeps the sign of its left side.\<close>

definition js_mod :: "int \<Rightarrow> int \<Rightarrow> int" where
  "js_mod a b = sgn a * (\<bar>a\<bar> mod \<bar>b\<bar>)"

definition stepFind :: "int \<Rightarrow> int \<Rightarrow> int \<Rightarrow> int" where
  "stepFind active hits move = (if hits \<le> 0 then 0 else js_mod (js_mod (active + move) hits + hits) hits)"

section \<open>Children and paths\<close>

definition isJsonContainer :: "jnode \<Rightarrow> bool" where
  "isJsonContainer node = (case node of NObject es c \<Rightarrow> True | NArray xs c \<Rightarrow> True | _ \<Rightarrow> False)"

definition children :: "jnode \<Rightarrow> (jstr option \<times> jnode) list" where
  "children node = (case node of
     NObject es c \<Rightarrow> map (\<lambda>(k, v). (Some k, v)) es | NArray xs c \<Rightarrow> map (\<lambda>v. (None, v)) xs | _ \<Rightarrow> [])"

definition childCount :: "jnode \<Rightarrow> nat" where
  "childCount node = length (children node)"

definition node_complete :: "jnode \<Rightarrow> bool" where
  "node_complete node = (case node of NObject es c \<Rightarrow> c | NArray xs c \<Rightarrow> c | NString s c \<Rightarrow> c | _ \<Rightarrow> True)"

definition JSON_TREE_ROOT :: jstr where "JSON_TREE_ROOT = js ''$''"
definition JSON_CHILD_BATCH :: nat where "JSON_CHILD_BATCH = 100"
definition JSON_STRING_CHUNK :: nat where "JSON_STRING_CHUNK = 64 * 1024"
definition INLINE_STRING_LIMIT :: nat where "INLINE_STRING_LIMIT = 120"

definition childPath :: "jstr \<Rightarrow> nat \<Rightarrow> jstr" where
  "childPath parent index' = parent @ js ''/'' @ dec index'"

definition isFoldableString :: "jstr \<Rightarrow> bool" where
  "isFoldableString text \<longleftrightarrow> length text > INLINE_STRING_LIMIT \<or> 10 \<in> set text"

lemma children_size: "(k, v) \<in> set (children node) \<Longrightarrow> size v < size node"
proof -
  have "size v < Suc (size_list size xs)" if "v \<in> set xs" for xs :: "jnode list"
    using that by (induction xs) auto
  moreover have "size v < Suc (size_list (size_prod (\<lambda>_. 0) size) es)" if "(k, v) \<in> set es" for k and es :: "(jstr \<times> jnode) list"
    using that by (induction es) auto
  ultimately show "(k, v) \<in> set (children node) \<Longrightarrow> size v < size node"
    by (cases node) (auto simp: children_def less_Suc_eq_le size_list_conv_sum_list intro: le_trans)
qed

section \<open>Rows\<close>

datatype json_tree_row =
    NodeRow jstr nat "jstr option" "nat option" jnode bool nat
  | CloseRow jstr nat jnode
  | MoreRow jstr nat nat nat

type_synonym limit_map = "jstr \<Rightarrow> nat option"

definition limit_of :: "limit_map \<Rightarrow> jstr \<Rightarrow> nat \<Rightarrow> nat" where
  "limit_of limits path fallback = (case limits path of None \<Rightarrow> fallback | Some n \<Rightarrow> n)"

definition is_string_node :: "jnode \<Rightarrow> bool" where
  "is_string_node node = (case node of NString s c \<Rightarrow> True | _ \<Rightarrow> False)"

function visit_rows ::
  "jstr set \<Rightarrow> limit_map \<Rightarrow> jnode \<Rightarrow> jstr \<Rightarrow> nat \<Rightarrow> jstr option \<Rightarrow> nat option \<Rightarrow> json_tree_row list"
where
  "visit_rows open_paths limits node path depth name index' =
     (let is_open = (path \<in> open_paths); whole = childCount node;
          shown = min whole (limit_of limits path JSON_CHILD_BATCH) in
      NodeRow path depth name index' node is_open
          (if is_string_node node \<and> is_open then limit_of limits path JSON_STRING_CHUNK else 0)
        # (if \<not> is_open \<or> \<not> isJsonContainer node \<or> whole = 0 \<and> node_complete node then []
           else
             concat (map (\<lambda>(child, key, v).
                 visit_rows open_paths limits v (childPath path child) (depth + 1) key
                   (if is_array_node node then Some child else None))
               (enumerate 0 (take shown (children node))))
             @ (if shown < whole then [MoreRow path (depth + 1) shown whole] else [])
             @ [CloseRow path depth node]))"
  by pat_completeness auto

termination
proof (relation "measure (\<lambda>(open_paths, limits, node, path, depth, name, index'). size node)", goal_cases)
  case (2 open_paths limits node path depth name index' is_open total shown p child q key v)
  then have "(key, v) \<in> set (children node)"
    by (auto simp: in_set_enumerate_eq dest!: in_set_takeD intro: nth_mem) (metis in_set_takeD length_take min_less_iff_conj nth_mem nth_take)
  then show ?case using children_size by simp
qed simp

declare visit_rows.simps [simp del]

definition flattenJsonTree :: "jnode \<Rightarrow> jstr set \<Rightarrow> limit_map \<Rightarrow> json_tree_row list" where
  "flattenJsonTree root' open_paths limits = visit_rows open_paths limits root' JSON_TREE_ROOT 0 None None"

lemma children_sizes: "(\<Sum>(k, v) \<leftarrow> children node. Suc (size v)) \<le> size node"
proof -
  have a: "(\<Sum>v \<leftarrow> xs. Suc (size v)) \<le> size_list size xs" for xs :: "jnode list"
    by (induction xs) auto
  have o: "(\<Sum>(k, v) \<leftarrow> es. Suc (size v)) \<le> size_list (size_prod (\<lambda>_. 0) size) es" for es :: "(jstr \<times> jnode) list"
    by (induction es) auto
  show ?thesis
    using a o by (cases node) (auto simp: children_def comp_def case_prod_unfold intro: le_SucI)
qed

lemma sublist_sizes:
  fixes f :: "'a \<Rightarrow> nat"
  shows "(\<Sum>p \<leftarrow> filter P (enumerate n (take k xs)). f (snd p)) \<le> (\<Sum>x \<leftarrow> xs. f x)"
proof (induction xs arbitrary: n k)
  case (Cons x xs)
  show ?case
  proof (cases k)
    case (Suc k')
    then show ?thesis using Cons [of "Suc n" k'] by (auto intro: le_trans)
  qed simp
qed simp

lemma stack_sizes:
  "(\<Sum>p \<leftarrow> enumerate n (take k (children node)). Suc (size (snd (snd p)))) \<le> size node"
  using sublist_sizes [of "\<lambda>x. Suc (size (snd x))" "\<lambda>_. True" n k "children node"] children_sizes [of node]
  by (simp add: case_prod_unfold)

lemma all_stack_sizes: "(\<Sum>p \<leftarrow> enumerate 0 (children node). Suc (size (snd (snd p)))) \<le> size node"
  using stack_sizes [of 0 "childCount node" node] by (simp add: childCount_def)

section \<open>What starts open\<close>

definition DEFAULT_FOLDED_KEYS :: "jstr set" where
  "DEFAULT_FOLDED_KEYS = {js ''tools'', js ''functions''}"

text \<open>Without a depth there is no deepest container.\<close>

function open_queue ::
  "nat option \<Rightarrow> jstr set \<Rightarrow> int \<Rightarrow> jstr set \<Rightarrow> (jnode \<times> jstr \<times> nat) list \<Rightarrow> jstr set"
where
  "open_queue maxDepth foldedKeys budget open_paths [] = open_paths"
| "open_queue maxDepth foldedKeys budget open_paths ((node, path, depth) # queue) =
     (let shown = min (childCount node) JSON_CHILD_BATCH in
      if \<not> isJsonContainer node \<or> depth > 0 \<and> int shown + 1 > budget
      then open_queue maxDepth foldedKeys budget open_paths queue
      else
        open_queue maxDepth foldedKeys (budget - (int shown + 1)) (insert path open_paths)
          (queue @ (if (case maxDepth of None \<Rightarrow> False | Some d \<Rightarrow> depth \<ge> d) then []
             else map (\<lambda>(child, key, v). (v, childPath path child, depth + 1))
               (filter (\<lambda>(child, key, v). isJsonContainer v
                   \<and> (case key of None \<Rightarrow> True | Some k \<Rightarrow> k \<notin> foldedKeys))
                 (enumerate 0 (take shown (children node)))))))"
  by pat_completeness auto

termination
proof (relation "measure (\<lambda>(maxDepth, foldedKeys, budget, open_paths, queue). \<Sum>(n, p, d) \<leftarrow> queue. Suc (size n))", goal_cases)
  case (3 maxDepth foldedKeys budget open_paths node path depth queue shown)
  let ?cs = "filter (\<lambda>(child, key, v). isJsonContainer v \<and> (case key of None \<Rightarrow> True | Some k \<Rightarrow> k \<notin> foldedKeys))
      (enumerate 0 (take shown (children node)))"
  have "(\<Sum>p \<leftarrow> ?cs. Suc (size (snd (snd p)))) \<le> (\<Sum>(k, v) \<leftarrow> children node. Suc (size v))"
    using sublist_sizes [of "\<lambda>x. Suc (size (snd x))"] by (simp add: case_prod_unfold)
  then have "(\<Sum>p \<leftarrow> ?cs. Suc (size (snd (snd p)))) \<le> size node"
    using children_sizes order_trans by blast
  then show ?case by (simp add: comp_def case_prod_unfold)
qed auto

text \<open>The strings to reveal, from a stack whose top is the first of the list.\<close>

function reveal_stack ::
  "(jstr \<Rightarrow> bool) \<Rightarrow> nat \<Rightarrow> jstr set \<Rightarrow> (jnode \<times> jstr \<times> jstr list) list \<Rightarrow> jstr set"
where
  "reveal_stack reveal remaining' open_paths [] = open_paths"
| "reveal_stack reveal remaining' open_paths ((node, path, ancestors) # stack) =
     (if remaining' = 0 then open_paths
      else
        (case node of
           NString s c \<Rightarrow>
             if \<not> reveal s then reveal_stack reveal remaining' open_paths stack
             else reveal_stack reveal (remaining' - 1)
               (open_paths \<union> set ancestors \<union> (if isFoldableString s then {path} else {})) stack
         | _ \<Rightarrow>
             if \<not> isJsonContainer node then reveal_stack reveal remaining' open_paths stack
             else
               (let shown = min (childCount node) JSON_CHILD_BATCH in
                reveal_stack reveal remaining' open_paths
                  (map (\<lambda>(child, key, v). (v, childPath path child, ancestors @ [path]))
                     (enumerate 0 (take shown (children node))) @ stack))))"
  by pat_completeness auto

termination
  by (relation "measure (\<lambda>(reveal, remaining', open_paths, stack). \<Sum>(n, p, a) \<leftarrow> stack. Suc (size n))")
    (auto simp: comp_def case_prod_unfold less_Suc_eq_le isJsonContainer_def intro: le_trans [OF stack_sizes])

record open_path_options =
  oo_max_depth :: "nat option"
  oo_budget :: int
  oo_folded_keys :: "jstr set"
  oo_reveal :: "(jstr \<Rightarrow> bool) option"
  oo_reveal_limit :: nat

definition default_open_options :: open_path_options where
  "default_open_options = \<lparr>oo_max_depth = Some 4, oo_budget = 1000, oo_folded_keys = DEFAULT_FOLDED_KEYS,
     oo_reveal = None, oo_reveal_limit = 50\<rparr>"

definition defaultOpenPaths :: "jnode \<Rightarrow> open_path_options \<Rightarrow> jstr set" where
  "defaultOpenPaths root' options =
     (let opened = open_queue (oo_max_depth options) (oo_folded_keys options) (oo_budget options) {}
            [(root', JSON_TREE_ROOT, 0)] in
      case oo_reveal options of
        None \<Rightarrow> opened
      | Some reveal \<Rightarrow> reveal_stack reveal (oo_reveal_limit options) opened [(root', JSON_TREE_ROOT, [])])"

definition expandAllPaths :: "jnode \<Rightarrow> int \<Rightarrow> jstr set" where
  "expandAllPaths root' budget =
     defaultOpenPaths root' (default_open_options\<lparr>oo_max_depth := None, oo_budget := budget, oo_folded_keys := {}\<rparr>)"

section \<open>Inline files\<close>

record base64_info =
  bi_media_type :: "jstr option"
  bi_bytes :: nat

definition BASE64_MIN_LENGTH :: nat where "BASE64_MIN_LENGTH = 256"
definition BASE64_SAMPLE :: nat where "BASE64_SAMPLE = 4096"

text \<open>
  \<open>/^data:([^;,]*)(?:;[^;,]*)*;base64,/\<close>: what precedes the first comma starts with
  \<open>data:\<close> and ends with \<open>;base64\<close>. The media type, and the length of the match.
\<close>

definition data_url :: "jstr \<Rightarrow> (jstr \<times> nat) option" where
  "data_url text =
     (let head = takeWhile (\<lambda>c. c \<noteq> 44) text; rest = drop 5 head in
      if starts_with (js ''data:'') head \<and> length head < length text \<and> ends_with (js '';base64'') rest
      then Some (takeWhile (\<lambda>c. c \<noteq> 59) rest, length head + 1) else None)"

definition base64_char :: "nat \<Rightarrow> bool" where
  "base64_char c \<longleftrightarrow> is_alnum c \<or> c \<in> {43, 47, 95, 45}"

definition base64_sample :: "jstr \<Rightarrow> bool" where
  "base64_sample s \<longleftrightarrow> takeWhile base64_char s \<noteq> []
     \<and> dropWhile base64_char s \<in> {[], js ''='', js ''==''}"

definition last_chars :: "nat \<Rightarrow> jstr \<Rightarrow> jstr" where
  "last_chars n s = drop (length s - n) s"

definition detectBase64 :: "jstr \<Rightarrow> base64_info option" where
  "detectBase64 text =
     (if length text < BASE64_MIN_LENGTH then None
      else
        (let dataUrl = data_url (take 512 text);
             payloadStart = (case dataUrl of None \<Rightarrow> 0 | Some (m, n) \<Rightarrow> n);
             payloadLength = length text - payloadStart in
         if payloadLength = 0 then None
         else
           (let sample = take BASE64_SAMPLE (drop payloadStart text);
                tail = (if payloadLength > BASE64_SAMPLE then last_chars BASE64_SAMPLE text else sample) in
            if \<not> base64_sample sample then None
            else if tail \<noteq> sample \<and> \<not> base64_sample tail then None
            else if dataUrl = None \<and> \<not> list_ex (\<lambda>c. is_digit c \<or> c = 43 \<or> c = 47) sample then None
            else Some \<lparr>bi_media_type = (case dataUrl of Some (c # m, n) \<Rightarrow> Some (c # m) | _ \<Rightarrow> None),
                       bi_bytes = payloadLength * 3 div 4\<rparr>)))"

section \<open>Search\<close>

datatype hit_field = HitKey | HitValue

record json_search_hit =
  jh_path :: jstr
  jh_field :: hit_field
  jh_offset :: nat
  jh_folded :: bool

text \<open>\<open>JSON.stringify\<close> of a key, without its quotes.\<close>

definition jsonKeyText :: "jstr \<Rightarrow> jstr" where
  "jsonKeyText key = butlast (tl (json_quote key))"

lemma jsonKeyText_inner: "jsonKeyText key = json_inner key"
  by (simp add: jsonKeyText_def json_quote_def)

text \<open>The hits of a field: one more than fits is asked for, and says that there are more.\<close>

fun collect_hits ::
  "(nat \<Rightarrow> json_search_hit) \<Rightarrow> nat \<Rightarrow> nat list \<Rightarrow> json_search_hit list \<times> bool \<Rightarrow> json_search_hit list \<times> bool"
where
  "collect_hits hit limit [] found = found"
| "collect_hits hit limit (offset # offsets) (hits, capped) =
     (if length hits = limit then (hits, True)
      else collect_hits hit limit offsets (hits @ [hit offset], capped))"

definition collect_field ::
  "matcher \<Rightarrow> nat \<Rightarrow> jstr \<Rightarrow> hit_field \<Rightarrow> jstr \<Rightarrow> bool \<Rightarrow> json_search_hit list \<times> bool
     \<Rightarrow> json_search_hit list \<times> bool"
where
  "collect_field exec limit path field' text folded found =
     collect_hits (\<lambda>offset. \<lparr>jh_path = path, jh_field = field', jh_offset = offset, jh_folded = folded\<rparr>)
       limit (findOffsets text exec (limit - length (fst found) + 1)) found"

definition search_value ::
  "matcher \<Rightarrow> nat \<Rightarrow> jnode \<Rightarrow> jstr \<Rightarrow> json_search_hit list \<times> bool \<Rightarrow> json_search_hit list \<times> bool"
where
  "search_value exec limit node path found =
     (case node of
        NString s c \<Rightarrow>
          if detectBase64 s \<noteq> None then found
          else collect_field exec limit path HitValue s (isFoldableString s) found
      | NNumber t \<Rightarrow> collect_field exec limit path HitValue t False found
      | NLiteral t \<Rightarrow> collect_field exec limit path HitValue t False found
      | _ \<Rightarrow> found)"

function search_stack ::
  "matcher \<Rightarrow> nat \<Rightarrow> (jnode \<times> jstr \<times> jstr option) list \<Rightarrow> json_search_hit list \<times> bool
     \<Rightarrow> json_search_hit list \<times> bool"
where
  "search_stack exec limit [] found = found"
| "search_stack exec limit ((node, path, key) # stack) found =
     (if snd found then found
      else
        (let keyed = (case key of None \<Rightarrow> found
               | Some k \<Rightarrow> collect_field exec limit path HitKey (jsonKeyText k) False found) in
         if isJsonContainer node then
           search_stack exec limit
             (map (\<lambda>(child, k, v). (v, childPath path child, k)) (enumerate 0 (children node)) @ stack) keyed
         else search_stack exec limit stack (search_value exec limit node path keyed)))"
  by pat_completeness auto

termination
  by (relation "measure (\<lambda>(exec, limit, stack, found). \<Sum>(n, p, k) \<leftarrow> stack. Suc (size n))")
    (auto simp: comp_def case_prod_unfold less_Suc_eq_le intro: all_stack_sizes)

record json_search_result =
  js_hits :: "json_search_hit list"
  js_capped :: bool

definition searchJsonTree :: "jnode \<Rightarrow> matcher \<Rightarrow> nat \<Rightarrow> json_search_result" where
  "searchJsonTree root' exec limit =
     (let (hits, capped) = search_stack exec limit [(root', JSON_TREE_ROOT, None)] ([], False) in
      \<lparr>js_hits = hits, js_capped = capped\<rparr>)"

section \<open>The way to a hit\<close>

type_synonym view_state = "jstr set \<times> limit_map"

definition open_path_in :: "jstr \<Rightarrow> view_state \<Rightarrow> view_state" where
  "open_path_in path view = (insert path (fst view), snd view)"

text \<open>Pages are opened whole, up to the one that holds what is needed.\<close>

definition reach :: "jstr \<Rightarrow> nat \<Rightarrow> nat \<Rightarrow> view_state \<Rightarrow> view_state" where
  "reach path needed batch view =
     (if needed \<le> limit_of (snd view) path batch then view
      else (fst view, (snd view)(path \<mapsto> (needed + batch - 1) div batch * batch)))"

text \<open>
  The segments after the root's are the indices of children, in decimals; the way goes
  through every front part of the path.
\<close>

fun open_way :: "jstr \<Rightarrow> jstr list \<Rightarrow> view_state \<Rightarrow> view_state" where
  "open_way parent [] view = view"
| "open_way parent (segment # segments) view =
     open_way (parent @ js ''/'' @ segment) segments
       (reach parent (digits_value segment + 1) JSON_CHILD_BATCH (open_path_in parent view))"

definition revealJsonHit :: "json_search_hit \<Rightarrow> nat \<Rightarrow> view_state \<Rightarrow> view_state" where
  "revealJsonHit hit hit_length view =
     (let segments = split_on 47 (jh_path hit);
          shown = open_way (hd segments) (tl segments) view in
      if jh_field hit = HitValue \<and> jh_folded hit
      then reach (jh_path hit) (jh_offset hit + hit_length) JSON_STRING_CHUNK (open_path_in (jh_path hit) shown)
      else shown)"

section \<open>Previews\<close>

fun mark_lines :: "jstr \<Rightarrow> jstr" where
  "mark_lines [] = []"
| "mark_lines [c] = (if c = 10 then [8629] else [c])"
| "mark_lines (c # d # s) =
     (if c = 13 \<and> d = 10 then 8629 # mark_lines s
      else if c = 10 then 8629 # mark_lines (d # s) else c # mark_lines (d # s))"

definition stringPreview :: "jstr \<Rightarrow> nat \<Rightarrow> jstr" where
  "stringPreview text limit =
     (let head = mark_lines (take (limit + 1) text) in
      if length head > limit then take limit head @ [8230] else head)"

definition word_char :: "nat \<Rightarrow> bool" where
  "word_char c \<longleftrightarrow> is_alnum c \<or> c = 95"

definition keyPreview :: "jstr \<Rightarrow> jstr" where
  "keyPreview key =
     (if key \<noteq> [] \<and> (is_lower (hd key) \<or> is_upper (hd key) \<or> hd key = 95 \<or> hd key = 36)
         \<and> list_all (\<lambda>c. word_char c \<or> c = 36) (tl key)
      then key else json_quote key)"

definition valuePreview :: "jnode \<Rightarrow> jstr" where
  "valuePreview node =
     (case node of
        NObject es c \<Rightarrow> if es = [] \<and> c then js ''{}'' else [123, 8230, 125]
      | NArray xs c \<Rightarrow> js ''['' @ dec (length xs) @ js '']''
      | NString s c \<Rightarrow>
          if detectBase64 s \<noteq> None then [34] @ js ''base64'' @ [8230, 34]
          else json_quote (stringPreview s 32)
      | NNumber t \<Rightarrow> t
      | NLiteral t \<Rightarrow> t)"

fun preview_body :: "nat \<Rightarrow> jstr \<Rightarrow> (jstr option \<times> jnode) list \<Rightarrow> jstr" where
  "preview_body limit body [] = body"
| "preview_body limit body ((key, v) # cs) =
     (let part = (case key of None \<Rightarrow> [] | Some k \<Rightarrow> keyPreview k @ js '': '') @ valuePreview v;
          next = (if body \<noteq> [] then body @ js '', '' @ part else part) in
      if length next > limit then (if body \<noteq> [] then body @ js '', '' @ [8230] else [8230])
      else preview_body limit next cs)"

definition containerPreview :: "jnode \<Rightarrow> nat \<Rightarrow> jstr" where
  "containerPreview node limit =
     (let body = preview_body limit [] (children node);
          whole = (if \<not> node_complete node \<and> childCount node > 0 \<and> \<not> ends_with [8230] body
             then body @ js '', '' @ [8230] else body) in
      if is_array_node node then js ''['' @ whole @ js '']'' else js ''{'' @ whole @ js ''}'')"

section \<open>Places in a tree\<close>

definition path_of :: "nat list \<Rightarrow> jstr" where
  "path_of is = JSON_TREE_ROOT @ concat (map (\<lambda>i. js ''/'' @ dec i) is)"

fun node_at :: "jnode \<Rightarrow> nat list \<Rightarrow> jnode option" where
  "node_at n [] = Some n"
| "node_at n (i # is) = (if i < childCount n then node_at (snd (children n ! i)) is else None)"

lemma path_of_Nil [simp]: "path_of [] = JSON_TREE_ROOT"
  by (simp add: path_of_def)

lemma path_of_snoc: "path_of (is @ [i]) = childPath (path_of is) i"
  by (simp add: path_of_def childPath_def)

lemma node_at_append: "node_at n (is @ js') = (case node_at n is of None \<Rightarrow> None | Some m \<Rightarrow> node_at m js')"
  by (induction n "is" rule: node_at.induct) auto

lemma no_slash_dec: "47 \<notin> set (dec n)"
  using dec_digits [of 47 n] by (auto simp: is_digit_def)

lemma split_on_head: "c \<notin> set a \<Longrightarrow> split_on c (a @ c # b) = a # split_on c b"
  by (induction a) auto

lemma split_slashes: "47 \<notin> set a \<Longrightarrow> split_on 47 (a @ concat (map (\<lambda>i. js ''/'' @ dec i) is)) = a # map dec is"
proof (induction "is" arbitrary: a)
  case Nil
  then show ?case by (simp add: split_on_none)
next
  case (Cons i "is")
  have "js ''/'' = [47]" by (simp add: js_def)
  then show ?case using Cons.prems Cons.IH [OF no_slash_dec, of i] by (simp add: split_on_head)
qed

lemma split_path: "split_on 47 (path_of is) = JSON_TREE_ROOT # map dec is"
  unfolding path_of_def by (rule split_slashes) (simp add: JSON_TREE_ROOT_def js_def)

text \<open>
  A place can be seen when every container on the way is open and shows enough children.
\<close>

definition way_clear :: "jstr set \<Rightarrow> limit_map \<Rightarrow> nat list \<Rightarrow> bool" where
  "way_clear open_paths limits is \<longleftrightarrow> (\<forall>j < length is. path_of (take j is) \<in> open_paths
     \<and> is ! j < limit_of limits (path_of (take j is)) JSON_CHILD_BATCH)"

lemma visit_head:
  "NodeRow path depth name index' node (path \<in> open_paths)
     (if is_string_node node \<and> path \<in> open_paths then limit_of limits path JSON_STRING_CHUNK else 0)
   \<in> set (visit_rows open_paths limits node path depth name index')"
  by (simp add: visit_rows.simps [of _ _ node] Let_def)

lemma visit_child:
  assumes "path \<in> open_paths" and "i < childCount node" and "i < limit_of limits path JSON_CHILD_BATCH"
  shows "\<exists>name index'. set (visit_rows open_paths limits (snd (children node ! i)) (childPath path i) (depth + 1) name index')
    \<subseteq> set (visit_rows open_paths limits node path depth name0 index0)"
proof -
  let ?shown = "min (childCount node) (limit_of limits path JSON_CHILD_BATCH)"
  have c: "isJsonContainer node"
    using assms(2) by (cases node) (auto simp: isJsonContainer_def childCount_def children_def)
  let ?e = "(i, fst (children node ! i), snd (children node ! i))"
  let ?xs = "enumerate 0 (take ?shown (children node))"
  let ?f = "\<lambda>(child, key, v). visit_rows open_paths limits v (childPath path child) (depth + 1) key
      (if is_array_node node then Some child else None)"
  have "?e \<in> set ?xs" using assms by (auto simp: in_set_enumerate_eq childCount_def)
  then have "set (?f ?e) \<subseteq> set (concat (map ?f ?xs))" unfolding set_concat set_map image_image by blast
  also have "\<dots> \<subseteq> set (visit_rows open_paths limits node path depth name0 index0)"
    using assms c by (subst (2) visit_rows.simps) (auto simp: Let_def)
  finally show ?thesis unfolding prod.case by (intro exI)
qed

lemma visit_way:
  assumes "node_at node is = Some n"
    and "\<forall>j < length is. path_of (before @ take j is) \<in> open_paths
      \<and> is ! j < limit_of limits (path_of (before @ take j is)) JSON_CHILD_BATCH"
  shows "\<exists>name index'. set (visit_rows open_paths limits n (path_of (before @ is)) (length before + length is) name index')
    \<subseteq> set (visit_rows open_paths limits node (path_of before) (length before) name0 index0)"
  using assms
proof (induction "is" arbitrary: node before name0 index0)
  case (Cons i "is")
  from Cons.prems have i: "i < childCount node" "node_at (snd (children node ! i)) is = Some n"
    by (auto split: if_splits)
  from Cons.prems(2) [rule_format, of 0] have here: "path_of before \<in> open_paths"
    "i < limit_of limits (path_of before) JSON_CHILD_BATCH" by simp_all
  from visit_child [OF here(1) i(1) here(2), of "length before" name0 index0] obtain name1 index1 where
    sub: "set (visit_rows open_paths limits (snd (children node ! i)) (path_of (before @ [i])) (length (before @ [i])) name1 index1)
      \<subseteq> set (visit_rows open_paths limits node (path_of before) (length before) name0 index0)"
    by (auto simp: path_of_snoc)
  have "\<forall>j < length is. path_of ((before @ [i]) @ take j is) \<in> open_paths
      \<and> is ! j < limit_of limits (path_of ((before @ [i]) @ take j is)) JSON_CHILD_BATCH"
    using Cons.prems(2) [rule_format, of "Suc _"] by simp
  from Cons.IH [OF i(2) this] sub show ?case by fastforce
qed auto

lemma way_row:
  assumes "node_at root' is = Some n" and "way_clear open_paths limits is"
  shows "\<exists>name index'. NodeRow (path_of is) (length is) name index' n (path_of is \<in> open_paths)
      (if is_string_node n \<and> path_of is \<in> open_paths then limit_of limits (path_of is) JSON_STRING_CHUNK else 0)
    \<in> set (flattenJsonTree root' open_paths limits)"
  using visit_way [OF assms(1), of "[]" open_paths limits None None] assms(2)
    visit_head [of "path_of is" "length is" _ _ n open_paths limits]
  by (fastforce simp: flattenJsonTree_def way_clear_def)

section \<open>Revealing a hit\<close>

lemma whole_pages: "b > 0 \<Longrightarrow> n \<le> (n + b - 1) div b * (b :: nat)"
  using mod_less_divisor [of b "n + b - 1"] div_mult_mod_eq [of "n + b - 1" b] by linarith

lemma reach_enough:
  "batch > 0 \<Longrightarrow> needed \<le> limit_of (snd (reach path needed batch view)) path batch"
  using whole_pages [of batch needed] by (auto simp: reach_def limit_of_def split: option.splits)

lemma reach_more:
  assumes "batch \<ge> JSON_CHILD_BATCH"
  shows "limit_of (snd view) q JSON_CHILD_BATCH \<le> limit_of (snd (reach path needed batch view)) q JSON_CHILD_BATCH"
proof -
  have "batch > 0" using assms by (simp add: JSON_CHILD_BATCH_def)
  from whole_pages [OF this, of needed] show ?thesis
    using assms by (auto simp: reach_def limit_of_def split: option.splits)
qed

lemma reach_paths [simp]: "fst (reach path needed batch view) = fst view"
  by (simp add: reach_def)

text \<open>What one view shows at least of what another does.\<close>

definition shows_more :: "view_state \<Rightarrow> view_state \<Rightarrow> bool" where
  "shows_more view view' \<longleftrightarrow> fst view \<subseteq> fst view'
     \<and> (\<forall>q. limit_of (snd view) q JSON_CHILD_BATCH \<le> limit_of (snd view') q JSON_CHILD_BATCH)"

lemma shows_more_refl [simp]: "shows_more view view"
  by (simp add: shows_more_def)

lemma shows_more_trans: "shows_more a b \<Longrightarrow> shows_more b c \<Longrightarrow> shows_more a c"
  by (auto simp: shows_more_def intro: le_trans)

lemma open_then_reach: "batch \<ge> JSON_CHILD_BATCH \<Longrightarrow>
    shows_more view (reach path needed batch (open_path_in path view))"
  using reach_more [of batch "open_path_in path view"]
  by (auto simp: shows_more_def open_path_in_def)

lemma open_way_more: "shows_more view (open_way parent segments view)"
proof (induction parent segments view rule: open_way.induct)
  case (2 parent segment segments view)
  then show ?case
    using open_then_reach [of JSON_CHILD_BATCH view parent "digits_value segment + 1"]
    by (auto intro: shows_more_trans)
qed simp

lemma way_clear_more:
  "way_clear (fst view) (snd view) is \<Longrightarrow> shows_more view view' \<Longrightarrow> way_clear (fst view') (snd view') is"
  by (fastforce simp: way_clear_def shows_more_def intro: less_le_trans)

lemma open_way_clear:
  "way_clear (fst view) (snd view) before \<Longrightarrow>
    (let v = open_way (path_of before) (map dec is) view in way_clear (fst v) (snd v) (before @ is))"
proof (induction "is" arbitrary: before view)
  case (Cons i "is")
  let ?v = "reach (path_of before) (i + 1) JSON_CHILD_BATCH (open_path_in (path_of before) view)"
  have more: "shows_more view ?v" by (rule open_then_reach) simp
  have "path_of before \<in> fst ?v" by (simp add: open_path_in_def)
  moreover have "i < limit_of (snd ?v) (path_of before) JSON_CHILD_BATCH"
    using reach_enough [of JSON_CHILD_BATCH "i + 1" "path_of before"] by (simp add: JSON_CHILD_BATCH_def Suc_le_eq)
  ultimately have "way_clear (fst ?v) (snd ?v) (before @ [i])"
    using way_clear_more [OF Cons.prems more]
    by (auto simp: way_clear_def nth_append less_Suc_eq)
  from Cons.IH [OF this] show ?case by (simp add: path_of_snoc childPath_def Let_def)
qed simp

text \<open>
  C24: stepping to a hit brings it into view. For a hit at a place of the tree, the rows after
  \<open>revealJsonHit\<close> have the row of its node, and when the hit sits in a folded string that row
  is open and shows the string past the end of the hit. What was open stays open.
\<close>

theorem reveal_shows_hit:
  assumes "node_at root' is = Some n" and "jh_path hit = path_of is"
  shows "let (open', limits') = revealJsonHit hit hit_length (open_paths, limits) in
    open_paths \<subseteq> open'
    \<and> (\<exists>name index' opened shown.
        NodeRow (path_of is) (length is) name index' n opened shown \<in> set (flattenJsonTree root' open' limits')
        \<and> (jh_field hit = HitValue \<and> jh_folded hit \<and> is_string_node n
             \<longrightarrow> opened \<and> jh_offset hit + hit_length \<le> shown))"
proof -
  let ?v = "open_way (path_of []) (map dec is) (open_paths, limits)"
  let ?w = "revealJsonHit hit hit_length (open_paths, limits)"
  let ?deep = "jh_field hit = HitValue \<and> jh_folded hit"
  have w: "?w = (if ?deep then reach (path_of is) (jh_offset hit + hit_length) JSON_STRING_CHUNK
      (open_path_in (path_of is) ?v) else ?v)"
    by (simp add: revealJsonHit_def assms(2) split_path Let_def)
  have more: "shows_more ?v ?w"
    unfolding w using open_then_reach [of JSON_STRING_CHUNK ?v]
    by (simp add: JSON_STRING_CHUNK_def JSON_CHILD_BATCH_def)
  have "way_clear (fst ?v) (snd ?v) is"
    using open_way_clear [of "(open_paths, limits)" "[]" "is"] by (simp add: way_clear_def Let_def)
  then have clear: "way_clear (fst ?w) (snd ?w) is" using more by (rule way_clear_more)
  have deep: "path_of is \<in> fst ?w \<and> jh_offset hit + hit_length \<le> limit_of (snd ?w) (path_of is) JSON_STRING_CHUNK"
    if ?deep
    unfolding w using that reach_enough [of JSON_STRING_CHUNK]
    by (simp add: open_path_in_def JSON_STRING_CHUNK_def)
  have "open_paths \<subseteq> fst ?w"
    using more open_way_more [of "(open_paths, limits)" "path_of []" "map dec is"] by (auto simp: shows_more_def)
  with way_row [OF assms(1) clear] deep show ?thesis
    by (fastforce simp: case_prod_unfold Let_def)
qed

theorem reveal_shows_hit_witness:
  "\<exists>name index' opened shown.
     NodeRow (js ''$/0/1'') 2 name index' (NNumber (js ''7'')) opened shown
       \<in> set (let (open', limits') =
                 revealJsonHit \<lparr>jh_path = js ''$/0/1'', jh_field = HitValue, jh_offset = 0, jh_folded = False\<rparr>
                   1 ({}, \<lambda>_. None) in
               flattenJsonTree
                 (NObject [(js ''a'', NArray [NLiteral (js ''null''), NNumber (js ''7'')] True)] True)
                 open' limits')"
proof -
  let ?tree = "NObject [(js ''a'', NArray [NLiteral (js ''null''), NNumber (js ''7'')] True)] True"
  let ?hit = "\<lparr>jh_path = js ''$/0/1'', jh_field = HitValue, jh_offset = 0, jh_folded = False\<rparr>"
  have at: "node_at ?tree [0, 1] = Some (NNumber (js ''7''))"
    by (simp add: childCount_def children_def)
  have "path_of [0, 1] = js ''$/0/1''" by code_simp
  then have "jh_path ?hit = path_of [0, 1]" by simp
  from reveal_shows_hit [OF at this, of 1 "{}" "\<lambda>_. None"] this show ?thesis
    unfolding case_prod_unfold Let_def by (simp add: numeral_2_eq_2)
qed

section \<open>What the search finds\<close>

text \<open>
  The hits of a tree in document order, nothing left out: each field with every match in it.
\<close>

definition every_offset :: "jstr \<Rightarrow> matcher \<Rightarrow> nat list" where
  "every_offset text exec = findOffsets text exec (Suc (length text))"

definition field_hits :: "matcher \<Rightarrow> jstr \<Rightarrow> hit_field \<Rightarrow> jstr \<Rightarrow> bool \<Rightarrow> json_search_hit list" where
  "field_hits exec path field' text folded =
     map (\<lambda>offset. \<lparr>jh_path = path, jh_field = field', jh_offset = offset, jh_folded = folded\<rparr>)
       (every_offset text exec)"

definition value_hits :: "matcher \<Rightarrow> jnode \<Rightarrow> jstr \<Rightarrow> json_search_hit list" where
  "value_hits exec node path =
     (case node of
        NString s c \<Rightarrow>
          if detectBase64 s \<noteq> None then [] else field_hits exec path HitValue s (isFoldableString s)
      | NNumber t \<Rightarrow> field_hits exec path HitValue t False
      | NLiteral t \<Rightarrow> field_hits exec path HitValue t False
      | _ \<Rightarrow> [])"

function tree_hits :: "matcher \<Rightarrow> jnode \<Rightarrow> jstr \<Rightarrow> jstr option \<Rightarrow> json_search_hit list" where
  "tree_hits exec node path key =
     (case key of None \<Rightarrow> [] | Some k \<Rightarrow> field_hits exec path HitKey (jsonKeyText k) False)
     @ value_hits exec node path
     @ concat (map (\<lambda>(child, k, v). tree_hits exec v (childPath path child) k) (enumerate 0 (children node)))"
  by pat_completeness auto

termination
proof (relation "measure (\<lambda>(exec, node, path, key). size node)", goal_cases)
  case (2 exec node path key p child q k v)
  then have "(k, v) \<in> set (children node)"
    by (auto simp: in_set_enumerate_eq intro: nth_mem) (metis nth_mem)
  then show ?case using children_size by simp
qed simp

declare tree_hits.simps [simp del]

definition advances_in :: "matcher \<Rightarrow> bool" where
  "advances_in exec \<longleftrightarrow> (\<forall>text cursor start n. exec text cursor = Some (start, n) \<longrightarrow> cursor \<le> start)"

lemma find_offsets_take:
  "k \<le> m \<Longrightarrow> find_offsets_from text exec cursor k = take k (find_offsets_from text exec cursor m)"
proof (induction m arbitrary: k cursor)
  case (Suc m)
  show ?case
  proof (cases k)
    case 0
    then show ?thesis by (simp add: find_offsets_from.simps [of _ _ _ 0])
  next
    case (Suc k')
    with Suc.prems have "k' \<le> m" by simp
    from Suc.IH [OF this] show ?thesis
      unfolding Suc by (auto simp: find_offsets_from.simps [of _ _ _ "Suc _"] split: option.split)
  qed
qed (simp add: find_offsets_from.simps)

lemma find_offsets_length:
  assumes "advances_in exec"
  shows "length (find_offsets_from text exec cursor k) \<le> Suc (length text) - cursor"
proof (induction k arbitrary: cursor)
  case (Suc k)
  show ?case
  proof (cases "cursor > length text \<or> exec text cursor = None")
    case False
    then obtain start n where e: "exec text cursor = Some (start, n)" by auto
    then have "cursor \<le> start" using assms by (auto simp: advances_in_def)
    then have "Suc (length text) - (if n = 0 then start + 1 else start + n) < Suc (length text) - cursor"
      using False by auto
    with Suc.IH [of "if n = 0 then start + 1 else start + n"] show ?thesis
      using False e by (subst find_offsets_from.simps) (simp add: Suc_le_eq)
  qed (auto simp: find_offsets_from.simps [of _ _ _ "Suc _"])
qed (simp add: find_offsets_from.simps)

lemma find_every_offset:
  assumes "advances_in exec"
  shows "findOffsets text exec k = take k (every_offset text exec)"
proof -
  let ?f = "find_offsets_from text exec 0" and ?m = "Suc (length text)"
  have "?f ?m = take ?m (?f (max k ?m))" by (rule find_offsets_take) simp
  also have "\<dots> = ?f (max k ?m)" using find_offsets_length [OF assms, of "text" 0] by simp
  finally show ?thesis
    using find_offsets_take [of k "max k ?m" "text" exec 0] by (simp add: findOffsets_def every_offset_def)
qed

text \<open>The first \<open>limit\<close> of some hits, and whether there are more.\<close>

definition capped_at :: "nat \<Rightarrow> json_search_hit list \<Rightarrow> json_search_hit list \<times> bool" where
  "capped_at limit hits = (take limit hits, length hits > limit)"

lemma collect_hits_capped:
  "length hits \<le> limit \<Longrightarrow> collect_hits hit limit xs (hits, c) =
     (take limit (hits @ map hit xs), c \<or> length hits + length xs > limit)"
  by (induction hit limit xs "(hits, c)" arbitrary: hits rule: collect_hits.induct) auto

lemma collect_field_capped:
  assumes "advances_in exec"
  shows "collect_field exec limit path field' text folded (capped_at limit hits) =
    capped_at limit (hits @ field_hits exec path field' text folded)"
proof -
  let ?h = "take limit hits"
  have "length ?h \<le> limit" by simp
  note collect_hits_capped [OF this]
  then show ?thesis
    by (auto simp: collect_field_def capped_at_def field_hits_def find_every_offset [OF assms] take_map min_def)
qed

lemma search_value_capped:
  assumes "advances_in exec"
  shows "search_value exec limit node path (capped_at limit hits) =
    capped_at limit (hits @ value_hits exec node path)"
  by (auto simp: search_value_def value_hits_def collect_field_capped [OF assms] split: jnode.split)

lemma no_children: "\<not> isJsonContainer node \<Longrightarrow> children node = []"
  by (auto simp: isJsonContainer_def children_def split: jnode.splits)

lemma container_no_value: "isJsonContainer node \<Longrightarrow> value_hits exec node path = []"
  by (auto simp: isJsonContainer_def value_hits_def split: jnode.splits)

lemma search_stack_capped:
  assumes "advances_in exec"
  shows "found = capped_at limit hits \<Longrightarrow> search_stack exec limit stack found =
    capped_at limit (hits @ concat (map (\<lambda>(n, p, k). tree_hits exec n p k) stack))"
  using assms
proof (induction exec limit stack found arbitrary: hits rule: search_stack.induct)
  case (2 exec limit node path key stack found)
  show ?case
  proof (cases "length hits > limit")
    case True
    with 2 show ?thesis by (simp add: capped_at_def)
  next
    case False
    with 2 have fits: "\<not> snd found" by (simp add: capped_at_def)
    let ?keyed = "case key of None \<Rightarrow> found
      | Some k \<Rightarrow> collect_field exec limit path HitKey (jsonKeyText k) False found"
    define here where "here = hits
      @ (case key of None \<Rightarrow> [] | Some k \<Rightarrow> field_hits exec path HitKey (jsonKeyText k) False)"
    have keyed: "?keyed = capped_at limit here"
      using 2 by (auto simp: here_def collect_field_capped split: option.split)
    show ?thesis
    proof (cases "isJsonContainer node")
      case True
      from 2(1) [OF fits refl True keyed 2(4)] True fits show ?thesis
        by (simp add: tree_hits.simps [of _ node] here_def container_no_value comp_def case_prod_unfold)
    next
      case False
      from 2(2) [OF fits refl False _ 2(4)] False fits keyed show ?thesis
        by (simp add: tree_hits.simps [of _ node] here_def no_children search_value_capped [OF 2(4)])
    qed
  qed
qed simp

text \<open>
  C4: the search is the enumeration of the tree, stopped at the limit. For a matcher that never
  steps back, \<open>searchJsonTree\<close> returns the first \<open>limit\<close> of the hits of all keys and values
  in document order, those of folded parts and of later pages among them, and says it was
  capped exactly when there are more.
\<close>

theorem search_in_document_order:
  assumes "advances_in exec"
  shows "searchJsonTree root' exec limit =
    \<lparr>js_hits = take limit (tree_hits exec root' JSON_TREE_ROOT None),
     js_capped = (length (tree_hits exec root' JSON_TREE_ROOT None) > limit)\<rparr>"
proof -
  have "([], False) = capped_at limit []" by (simp add: capped_at_def)
  from search_stack_capped [OF assms this, of "[(root', JSON_TREE_ROOT, None)]"] show ?thesis
    by (simp add: searchJsonTree_def capped_at_def)
qed

text \<open>A matcher for one character.\<close>

definition finds_char :: "nat \<Rightarrow> matcher" where
  "finds_char c text cursor =
     (let before = takeWhile (\<lambda>x. x \<noteq> c) (drop cursor text) in
      if length before < length (drop cursor text) then Some (cursor + length before, 1) else None)"

theorem search_in_document_order_witness:
  "advances_in (finds_char 97)
   \<and> searchJsonTree (NObject [(js ''a'', NArray [NString (js ''banana'') True, NNumber (js ''7'')] True)] True)
        (finds_char 97) 3 =
      \<lparr>js_hits = [\<lparr>jh_path = js ''$/0'', jh_field = HitKey, jh_offset = 0, jh_folded = False\<rparr>,
         \<lparr>jh_path = js ''$/0/0'', jh_field = HitValue, jh_offset = 1, jh_folded = False\<rparr>,
         \<lparr>jh_path = js ''$/0/0'', jh_field = HitValue, jh_offset = 3, jh_folded = False\<rparr>],
       js_capped = True\<rparr>"
proof -
  let ?tree = "NObject [(js ''a'', NArray [NString (js ''banana'') True, NNumber (js ''7'')] True)] True"
  have a: "advances_in (finds_char 97)"
    by (auto simp: advances_in_def finds_char_def Let_def split: if_splits)
  have "tree_hits (finds_char 97) ?tree JSON_TREE_ROOT None =
     [\<lparr>jh_path = js ''$/0'', jh_field = HitKey, jh_offset = 0, jh_folded = False\<rparr>,
      \<lparr>jh_path = js ''$/0/0'', jh_field = HitValue, jh_offset = 1, jh_folded = False\<rparr>,
      \<lparr>jh_path = js ''$/0/0'', jh_field = HitValue, jh_offset = 3, jh_folded = False\<rparr>,
      \<lparr>jh_path = js ''$/0/0'', jh_field = HitValue, jh_offset = 5, jh_folded = False\<rparr>]"
    by (simp add: tree_hits.simps [of _ "NObject _ _"] tree_hits.simps [of _ "NArray _ _"]
        tree_hits.simps [of _ "NString _ _"] tree_hits.simps [of _ "NNumber _"] value_hits_def field_hits_def every_offset_def findOffsets_def
        find_offsets_from.simps [of _ _ _ "Suc _"] find_offsets_from.simps [of _ _ _ 0] finds_char_def children_def js_def jsonKeyText_inner json_char_def high_surrogate_def
        low_surrogate_def detectBase64_def BASE64_MIN_LENGTH_def isFoldableString_def
        INLINE_STRING_LIMIT_def childPath_def JSON_TREE_ROOT_def dec.simps)
  then show ?thesis using a search_in_document_order [OF a, of ?tree 3] by simp
qed

section \<open>What starts open can be seen\<close>

text \<open>
  A place within the first batches: its way is clear once the containers above it are open.
\<close>

abbreviation no_limits :: limit_map where "no_limits \<equiv> \<lambda>_. None"

definition first_pages :: "nat list \<Rightarrow> bool" where
  "first_pages is \<longleftrightarrow> list_all (\<lambda>i. i < JSON_CHILD_BATCH) is"

definition paths_above :: "nat list \<Rightarrow> jstr list" where
  "paths_above is = map (\<lambda>j. path_of (take j is)) [0..<length is]"

definition reached :: "jnode \<Rightarrow> jstr set \<Rightarrow> nat list \<Rightarrow> jnode \<Rightarrow> bool" where
  "reached root' open_paths is n \<longleftrightarrow>
     node_at root' is = Some n \<and> first_pages is \<and> set (paths_above is) \<subseteq> open_paths"

definition all_reached :: "jnode \<Rightarrow> jstr set \<Rightarrow> bool" where
  "all_reached root' open_paths \<longleftrightarrow> (\<forall>p \<in> open_paths. \<exists>is n. p = path_of is \<and> reached root' open_paths is n)"

lemma reached_clear: "reached root' open_paths is n \<Longrightarrow> way_clear open_paths no_limits is"
  by (auto simp: reached_def way_clear_def paths_above_def first_pages_def limit_of_def list_all_length)

lemma reached_more: "reached root' a is n \<Longrightarrow> a \<subseteq> b \<Longrightarrow> reached root' b is n"
  by (auto simp: reached_def)

lemma paths_above_snoc: "paths_above (is @ [i]) = paths_above is @ [path_of is]"
  by (simp add: paths_above_def)

lemma paths_above_reached:
  assumes "p \<in> set (paths_above is)" and "node_at root' is = Some n" and "first_pages is"
    and "set (paths_above is) \<subseteq> open_paths"
  shows "\<exists>is' n'. p = path_of is' \<and> reached root' open_paths is' n'"
proof -
  from assms(1) obtain j where j: "j < length is" "p = path_of (take j is)"
    by (auto simp: paths_above_def)
  have "node_at root' (take j is @ drop j is) = Some n" using assms(2) by simp
  then obtain n' where "node_at root' (take j is) = Some n'"
    unfolding node_at_append by (auto split: option.splits)
  moreover have "first_pages (take j is)"
    using assms(3) by (auto simp: first_pages_def list_all_iff dest: in_set_takeD)
  moreover have "set (paths_above (take j is)) \<subseteq> set (paths_above is)"
    using j by (auto simp: paths_above_def min_def)
  ultimately show ?thesis using j assms(4) unfolding reached_def by blast
qed

lemma reached_child:
  assumes "reached root' open_paths is n" and "i < childCount n" and "i < JSON_CHILD_BATCH"
  shows "reached root' (insert (path_of is) open_paths) (is @ [i]) (snd (children n ! i))"
  using assms by (auto simp: reached_def node_at_append paths_above_snoc first_pages_def)

lemma all_reached_insert:
  assumes "all_reached root' open_paths" and "reached root' open_paths is n"
  shows "all_reached root' (insert (path_of is) open_paths)"
  unfolding all_reached_def
proof
  fix p assume "p \<in> insert (path_of is) open_paths"
  with assms obtain is' n' where "p = path_of is'" "reached root' open_paths is' n'"
    unfolding all_reached_def by blast
  then show "\<exists>xs n. p = path_of xs \<and> reached root' (insert (path_of is) open_paths) xs n"
    using reached_more by blast
qed

lemma all_reached_way:
  assumes "all_reached root' open_paths" and "node_at root' is = Some n" and "first_pages is"
  shows "all_reached root' (open_paths \<union> set (paths_above is))"
  unfolding all_reached_def
proof (rule ballI)
  fix p assume p: "p \<in> open_paths \<union> set (paths_above is)"
  show "\<exists>is' n'. p = path_of is' \<and> reached root' (open_paths \<union> set (paths_above is)) is' n'"
  proof (cases "p \<in> open_paths")
    case True
    with assms(1) obtain is' n' where "p = path_of is'" "reached root' open_paths is' n'"
      unfolding all_reached_def by blast
    then show ?thesis using reached_more by blast
  next
    case False
    with p show ?thesis using paths_above_reached [OF _ assms(2,3)] by blast
  qed
qed

definition queue_reached :: "jnode \<Rightarrow> jstr set \<Rightarrow> (jnode \<times> jstr \<times> nat) list \<Rightarrow> bool" where
  "queue_reached root' open_paths queue \<longleftrightarrow>
     list_all (\<lambda>(n, path, depth). \<exists>is. path = path_of is \<and> reached root' open_paths is n) queue"

lemma queue_reached_more: "queue_reached root' a queue \<Longrightarrow> a \<subseteq> b \<Longrightarrow> queue_reached root' b queue"
  unfolding queue_reached_def by (elim list.pred_mono_strong) (auto intro: reached_more)

lemma shown_children:
  assumes "(child, key, v) \<in> set (enumerate 0 (take (min (childCount n) JSON_CHILD_BATCH) (children n)))"
  shows "child < childCount n \<and> child < JSON_CHILD_BATCH \<and> v = snd (children n ! child)"
  using assms by (auto simp: in_set_enumerate_eq childCount_def)

lemma open_queue_reached:
  "all_reached root' open_paths \<Longrightarrow> queue_reached root' open_paths queue \<Longrightarrow>
    all_reached root' (open_queue maxDepth foldedKeys budget open_paths queue)"
proof (induction maxDepth foldedKeys budget open_paths queue rule: open_queue.induct)
  case (2 maxDepth foldedKeys budget open_paths node path depth queue)
  let ?shown = "min (childCount node) JSON_CHILD_BATCH"
  from 2(4) obtain xs where xs: "path = path_of xs" "reached root' open_paths xs node"
    and rest: "queue_reached root' open_paths queue" by (auto simp: queue_reached_def)
  show ?case
  proof (cases "\<not> isJsonContainer node \<or> depth > 0 \<and> int ?shown + 1 > budget")
    case True
    from 2(1) [OF refl True 2(3) rest] True show ?thesis by (simp add: Let_def)
  next
    case False
    let ?more = "if (case maxDepth of None \<Rightarrow> False | Some d \<Rightarrow> depth \<ge> d) then []
      else map (\<lambda>(child, key, v). (v, childPath path child, depth + 1))
        (filter (\<lambda>(child, key, v). isJsonContainer v
            \<and> (case key of None \<Rightarrow> True | Some k \<Rightarrow> k \<notin> foldedKeys))
          (enumerate 0 (take ?shown (children node))))"
    have "queue_reached root' (insert path open_paths) ?more"
      unfolding queue_reached_def
      by (auto simp: list_all_iff xs(1) path_of_snoc [symmetric] dest!: shown_children intro!: reached_child [OF xs(2)])
    then have q: "queue_reached root' (insert path open_paths) (queue @ ?more)"
      using queue_reached_more [OF rest, of "insert path open_paths"] by (auto simp: queue_reached_def)
    have "all_reached root' (insert path open_paths)"
      using all_reached_insert [OF 2(3) xs(2)] xs(1) by simp
    from 2(2) [OF refl False this q] False show ?thesis by (auto simp: Let_def)
  qed
qed simp

definition stack_reached :: "jnode \<Rightarrow> (jnode \<times> jstr \<times> jstr list) list \<Rightarrow> bool" where
  "stack_reached root' stack \<longleftrightarrow>
     list_all (\<lambda>(n, path, ancestors). \<exists>is. path = path_of is \<and> node_at root' is = Some n
       \<and> first_pages is \<and> ancestors = paths_above is) stack"

lemma stack_reached_children:
  assumes "path = path_of is" and "node_at root' is = Some n" and "first_pages is"
    and "ancestors = paths_above is" and "stack_reached root' stack"
  shows "stack_reached root' (map (\<lambda>(child, key, v). (v, childPath path child, ancestors @ [path]))
     (enumerate 0 (take (min (childCount n) JSON_CHILD_BATCH) (children n))) @ stack)"
proof -
  have "\<exists>is'. childPath path child = path_of is' \<and> node_at root' is' = Some v \<and> first_pages is'
      \<and> ancestors @ [path] = paths_above is'"
    if "(child, key, v) \<in> set (enumerate 0 (take (min (childCount n) JSON_CHILD_BATCH) (children n)))" for child key v
    using shown_children [OF that] assms(1-4)
    by (intro exI [of _ "is @ [child]"])
      (simp add: path_of_snoc node_at_append paths_above_snoc first_pages_def)
  then show ?thesis using assms(5) by (auto simp: stack_reached_def list_all_iff)
qed

lemma reveal_stack_reached:
  "all_reached root' open_paths \<Longrightarrow> stack_reached root' stack \<Longrightarrow>
    all_reached root' (reveal_stack reveal remaining' open_paths stack)"
proof (induction reveal remaining' open_paths stack rule: reveal_stack.induct)
  case (2 reveal remaining' open_paths node path ancestors stack)
  from 2 obtain xs where xs: "path = path_of xs" "node_at root' xs = Some node" "first_pages xs"
      "ancestors = paths_above xs" and rest: "stack_reached root' stack" by (auto simp: stack_reached_def)
  let ?new = "open_paths \<union> set ancestors \<union> (if isFoldableString s then {path} else {})"
  have "all_reached root' (open_paths \<union> set ancestors)"
    using all_reached_way [OF _ xs(2,3), of open_paths] xs(4) 2 by simp
  moreover have "reached root' (open_paths \<union> set ancestors) xs node"
    using xs by (auto simp: reached_def)
  ultimately have new: "all_reached root' (open_paths \<union> set ancestors)"
      "all_reached root' (insert path (open_paths \<union> set ancestors))"
    using all_reached_insert [of root' "open_paths \<union> set ancestors" xs node] xs(1) by simp_all
  note below = stack_reached_children [OF xs rest]
  show ?case
    using 2 new below rest by (cases node) (simp_all add: isJsonContainer_def Let_def)
qed simp

text \<open>
  Nothing starts open out of sight. Whatever the depth, the budget, the keys kept folded and
  the strings to reveal, each path \<open>defaultOpenPaths\<close> opens is the path of an open row among
  the rows first drawn, before any page is turned.
\<close>

theorem open_paths_in_view:
  "defaultOpenPaths root' options \<subseteq>
     {p. \<exists>depth name index' n shown. NodeRow p depth name index' n True shown
       \<in> set (flattenJsonTree root' (defaultOpenPaths root' options) (\<lambda>_. None))}"
proof
  fix p assume p: "p \<in> defaultOpenPaths root' options"
  have "all_reached root' {}" by (simp add: all_reached_def)
  then have opened: "all_reached root' (open_queue d f b {} [(root', JSON_TREE_ROOT, 0)])" for d f b
    by (rule open_queue_reached)
      (simp add: queue_reached_def reached_def first_pages_def paths_above_def exI [of _ "[]"])
  have "stack_reached root' [(root', JSON_TREE_ROOT, [])]"
    by (simp add: stack_reached_def first_pages_def paths_above_def exI [of _ "[]"])
  then have "all_reached root' (defaultOpenPaths root' options)"
    using opened reveal_stack_reached by (simp add: defaultOpenPaths_def Let_def del: open_queue.simps reveal_stack.simps split: option.split)
  with p obtain xs n where xs: "p = path_of xs" "reached root' (defaultOpenPaths root' options) xs n"
    unfolding all_reached_def by blast
  then have "node_at root' xs = Some n" by (simp add: reached_def)
  from way_row [OF this reached_clear [OF xs(2)]] p show
    "p \<in> {p. \<exists>depth name index' n shown. NodeRow p depth name index' n True shown
       \<in> set (flattenJsonTree root' (defaultOpenPaths root' options) (\<lambda>_. None))}"
    unfolding xs(1) by simp blast
qed

section \<open>Stepping through the hits\<close>

lemma js_mod_nonneg: "a \<ge> 0 \<Longrightarrow> b > 0 \<Longrightarrow> js_mod a b = a mod b"
  by (auto simp: js_mod_def sgn_if)

text \<open>A step wraps at both ends, however far it goes.\<close>

lemma stepFind_wraps:
  assumes "hits > 0"
  shows "stepFind active hits move = (active + move) mod hits"
proof -
  let ?x = "active + move"
  have "js_mod ?x hits + hits = (if ?x < 0 then hits - (- ?x) mod hits else ?x mod hits + hits)"
    using assms by (auto simp: js_mod_def sgn_if)
  moreover have "\<dots> \<ge> 0" using assms by (simp add: less_imp_le)
  moreover have "\<dots> mod hits = ?x mod hits"
    using assms by (auto simp: mod_simps add.commute)
  ultimately show ?thesis using assms js_mod_nonneg by (simp add: stepFind_def)
qed

end
