(* ===== verification/Sse_Events.thy ===== *)
theory Sse_Events
  imports Request_Data Patterns
begin

text \<open>
  Server-sent events of a captured response, \<open>sse-review-model.ts\<close>: the incremental parser,
  which yields to the main thread and may be cancelled, and the synchronous one. \<open>JSON.parse\<close>
  is an argument, absent for a text that is not JSON; so is what the abort signal reads at each
  time it is asked.
\<close>

type_synonym json_reader = "jstr \<Rightarrow> json option"

definition EVENT_BATCH_SIZE :: nat where "EVENT_BATCH_SIZE = 500"
definition CHARACTER_BATCH_SIZE :: nat where "CHARACTER_BATCH_SIZE = 1024 * 1024"

definition isEventStream :: "jstr \<Rightarrow> jstr \<Rightarrow> bool" where
  "isEventStream media_type content \<longleftrightarrow>
     (let head = dropWhile js_space content in
      \<not> (head \<noteq> [] \<and> hd head \<in> {91, 123})
      \<and> (str_includes (js ''text/event-stream'') (map ascii_lower media_type)
         \<or> starts_with (js ''event:'') head \<or> starts_with (js ''data:'') head))"

record sse_event =
  sv_index :: nat
  sv_event :: jstr
  sv_type :: jstr
  sv_data :: jstr
  sv_json :: json
  sv_invalid_json :: bool
  sv_done :: bool
  sv_incomplete :: bool

record sse_progress =
  sp_events :: "sse_event list"
  sp_processed :: nat
  sp_total :: nat

record sse_result =
  sr_events :: "sse_event list"
  sr_invalid_json_count :: nat
  sr_incomplete_last :: bool

section \<open>One event\<close>

record sse_fields =
  sf_name :: jstr
  sf_data :: "jstr list"
  sf_any :: bool

definition line_field :: "jstr \<Rightarrow> jstr" where
  "line_field line = takeWhile (\<lambda>c. c \<noteq> 58) line"

definition line_value :: "jstr \<Rightarrow> jstr" where
  "line_value line =
     (let value' = tl (dropWhile (\<lambda>c. c \<noteq> 58) line) in
      if starts_with [32] value' then tl value' else value')"

definition read_line :: "sse_fields \<Rightarrow> jstr \<Rightarrow> sse_fields" where
  "read_line f line =
     (if line = [] \<or> starts_with [58] line then f
      else
        (let name = line_field line; value' = line_value line in
         if name = js ''event'' then f\<lparr>sf_name := (if value' = [] then js ''message'' else value'), sf_any := True\<rparr>
         else if name = js ''data'' then f\<lparr>sf_data := sf_data f @ [value'], sf_any := True\<rparr>
         else if name = js ''id'' \<or> name = js ''retry'' then f\<lparr>sf_any := True\<rparr>
         else f))"

definition read_lines :: "jstr list \<Rightarrow> sse_fields" where
  "read_lines lines' = foldl read_line \<lparr>sf_name = js ''message'', sf_data = [], sf_any = False\<rparr> lines'"

definition data_type :: "json \<Rightarrow> jstr option" where
  "data_type v = (case v of JObj o' \<Rightarrow> jstring (field o' ''type'') | _ \<Rightarrow> None)"

definition parseEventLines :: "json_reader \<Rightarrow> jstr list \<Rightarrow> nat \<Rightarrow> bool \<Rightarrow> sse_event option" where
  "parseEventLines parse lines' index' incomplete =
     (let f = read_lines lines' in
      if \<not> sf_any f then None
      else
        (let data = join_with [10] (sf_data f); is_done = (trim data = js ''[DONE]'');
             read = (if data \<noteq> [] \<and> \<not> is_done then parse data else Some JNull);
             json = (case read of None \<Rightarrow> JNull | Some v \<Rightarrow> v) in
         Some \<lparr>sv_index = index', sv_event = sf_name f,
               sv_type = (if sf_name f \<noteq> js ''message'' then sf_name f
                  else case data_type json of Some t \<Rightarrow> t
                     | None \<Rightarrow> if is_done then js ''[DONE]'' else js ''message''),
               sv_data = data, sv_json = json, sv_invalid_json = (read = None),
               sv_done = is_done, sv_incomplete = incomplete\<rparr>))"

section \<open>The incremental parser\<close>

record sse_state =
  ss_events :: "sse_event list"
  ss_lines :: "jstr list"
  ss_cursor :: nat
  ss_chars :: nat
  ss_new_events :: nat
  ss_checks :: nat
  ss_progress :: "sse_progress list"

definition sse_start :: sse_state where
  "sse_start = \<lparr>ss_events = [], ss_lines = [], ss_cursor = 0, ss_chars = 0, ss_new_events = 0,
     ss_checks = 0, ss_progress = []\<rparr>"

definition flush :: "json_reader \<Rightarrow> bool \<Rightarrow> sse_state \<Rightarrow> sse_state" where
  "flush parse incomplete st =
     (if ss_lines st = [] then st
      else
        (case parseEventLines parse (ss_lines st) (length (ss_events st) + 1) incomplete of
           None \<Rightarrow> st\<lparr>ss_lines := []\<rparr>
         | Some e \<Rightarrow> st\<lparr>ss_lines := [], ss_events := ss_events st @ [e], ss_new_events := ss_new_events st + 1\<rparr>))"

definition drop_cr :: "jstr \<Rightarrow> jstr" where
  "drop_cr line = (if ends_with [13] line then butlast line else line)"

text \<open>The line at the cursor, taken in; then a pause, when enough has been read.\<close>

definition take_line :: "json_reader \<Rightarrow> jstr \<Rightarrow> sse_state \<Rightarrow> sse_state" where
  "take_line parse content st =
     (let rest = drop (ss_cursor st) content;
          raw = takeWhile (\<lambda>c. c \<noteq> 10) rest;
          ended = (length raw < length rest);
          line = drop_cr raw;
          moved = st\<lparr>ss_chars := ss_chars st + length raw + (if ended then 1 else 0),
             ss_cursor := (if ended then ss_cursor st + length raw + 1 else length content)\<rparr> in
      if line = [] then flush parse False moved else moved\<lparr>ss_lines := ss_lines moved @ [line]\<rparr>)"

definition pause :: "jstr \<Rightarrow> sse_state \<Rightarrow> sse_state" where
  "pause content st =
     (if ss_new_events st \<ge> EVENT_BATCH_SIZE \<or> ss_chars st \<ge> CHARACTER_BATCH_SIZE
      then st\<lparr>ss_progress := ss_progress st
                @ [\<lparr>sp_events = ss_events st, sp_processed = ss_cursor st, sp_total = length content\<rparr>],
              ss_new_events := 0, ss_chars := 0\<rparr>
      else st)"

definition throwIfCancelled :: "(nat \<Rightarrow> bool) \<Rightarrow> sse_state \<Rightarrow> js_error + sse_state" where
  "throwIfCancelled aborted st =
     (if aborted (ss_checks st) then Inl (Error (js ''SSE parsing cancelled''))
      else Inr (st\<lparr>ss_checks := ss_checks st + 1\<rparr>))"

lemma take_line_cursor: "ss_cursor st < length content \<Longrightarrow> ss_cursor st < ss_cursor (take_line parse content st)"
  by (auto simp: take_line_def flush_def Let_def split: option.split)

lemma pause_simps [simp]:
  "ss_cursor (pause content st) = ss_cursor st" "ss_events (pause content st) = ss_events st"
  "ss_lines (pause content st) = ss_lines st"
  by (simp_all add: pause_def)

function read_content :: "json_reader \<Rightarrow> (nat \<Rightarrow> bool) \<Rightarrow> jstr \<Rightarrow> sse_state \<Rightarrow> js_error + sse_state" where
  "read_content parse aborted content st =
     (if ss_cursor st < length content
      then
        (case throwIfCancelled aborted st of
           Inl e \<Rightarrow> Inl e
         | Inr st' \<Rightarrow> read_content parse aborted content (pause content (take_line parse content st')))
      else Inr st)"
  by pat_completeness auto

termination
proof (relation "measure (\<lambda>(parse, aborted, content, st). length content - ss_cursor st)", goal_cases)
  case (2 parse aborted content st st')
  then have "ss_cursor st' = ss_cursor st" by (auto simp: throwIfCancelled_def split: if_splits)
  then show ?case using 2(1) take_line_cursor [of st' content parse] by simp
qed simp

declare read_content.simps [simp del]

definition invalid_count :: "sse_event list \<Rightarrow> nat" where
  "invalid_count events = length (filter sv_invalid_json events)"

definition parseSSEIncremental ::
  "json_reader \<Rightarrow> (nat \<Rightarrow> bool) \<Rightarrow> bool \<Rightarrow> jstr \<Rightarrow> js_error + sse_result \<times> sse_progress list"
where
  "parseSSEIncremental parse aborted truncated content =
     bindE (read_content parse aborted content sse_start) (\<lambda>st.
     let incomplete = (ss_lines st \<noteq> [] \<and> (truncated \<or> \<not> ends_with [10, 10] content));
         st' = flush parse incomplete st in
     bindE (throwIfCancelled aborted st') (\<lambda>st''.
     Inr (\<lparr>sr_events = ss_events st'', sr_invalid_json_count = invalid_count (ss_events st''),
           sr_incomplete_last = incomplete\<rparr>,
          ss_progress st''
            @ [\<lparr>sp_events = ss_events st'', sp_processed = length content, sp_total = length content\<rparr>])))"

section \<open>The synchronous parser\<close>

fun replace_crlf :: "jstr \<Rightarrow> jstr" where
  "replace_crlf [] = []"
| "replace_crlf [c] = [c]"
| "replace_crlf (c # d # s) =
     (if c = 13 \<and> d = 10 then 10 # replace_crlf s else c # replace_crlf (d # s))"

definition normalized :: "jstr \<Rightarrow> jstr" where
  "normalized content = map (\<lambda>c. if c = 13 then 10 else c) (replace_crlf content)"

text \<open>\<open>normalized.split("\n\n")\<close>.\<close>

fun split_blank :: "jstr \<Rightarrow> jstr list" where
  "split_blank [] = [[]]"
| "split_blank [c] = [[c]]"
| "split_blank (c # d # s) =
     (if c = 10 \<and> d = 10 then [] # split_blank s
      else (case split_blank (d # s) of [] \<Rightarrow> [[c]] | b # bs \<Rightarrow> (c # b) # bs))"

definition add_event :: "json_reader \<Rightarrow> sse_event list \<Rightarrow> jstr list \<Rightarrow> bool \<Rightarrow> sse_event list" where
  "add_event parse events lines' incomplete =
     (case parseEventLines parse lines' (length events + 1) incomplete of
        None \<Rightarrow> events | Some e \<Rightarrow> events @ [e])"

fun read_blocks :: "json_reader \<Rightarrow> bool \<Rightarrow> sse_event list \<Rightarrow> jstr list \<Rightarrow> sse_event list" where
  "read_blocks parse open_last events [] = events"
| "read_blocks parse open_last events (block # blocks) =
     read_blocks parse open_last
       (if block = [] then events
        else add_event parse events (split_on 10 block) (blocks = [] \<and> open_last))
       blocks"

definition parseSSESynchronously :: "json_reader \<Rightarrow> jstr \<Rightarrow> bool \<Rightarrow> sse_result" where
  "parseSSESynchronously parse content truncated =
     (let text' = normalized content;
          events = read_blocks parse (truncated \<or> \<not> ends_with [10, 10] text') [] (split_blank text') in
      \<lparr>sr_events = events, sr_invalid_json_count = invalid_count events,
       sr_incomplete_last = (events \<noteq> [] \<and> sv_incomplete (last events))\<rparr>)"

section \<open>Lines and groups\<close>

text \<open>
  Both parsers cut the normalized text into groups of lines. Their empty lines say nothing.
\<close>

lemma read_lines_nonempty: "read_lines (filter (\<lambda>l. l \<noteq> []) lines') = read_lines lines'"
proof -
  have "foldl read_line f (filter (\<lambda>l. l \<noteq> []) lines') = foldl read_line f lines'" for f
    by (induction lines' arbitrary: f) (auto simp: read_line_def)
  then show ?thesis by (simp add: read_lines_def)
qed

abbreviation said :: "jstr list \<Rightarrow> jstr list" where
  "said lines' \<equiv> filter (\<lambda>l. l \<noteq> []) lines'"

lemma parse_said: "parseEventLines parse (said lines') i incomplete = parseEventLines parse lines' i incomplete"
  by (simp add: parseEventLines_def read_lines_nonempty)

lemma add_said: "add_event parse events (said lines') incomplete = add_event parse events lines' incomplete"
  by (simp add: add_event_def parse_said)

lemma add_nothing [simp]: "add_event parse events [] incomplete = events"
  by (simp add: add_event_def parseEventLines_def read_lines_def)

definition add_groups :: "json_reader \<Rightarrow> sse_event list \<Rightarrow> (jstr list \<times> bool) list \<Rightarrow> sse_event list" where
  "add_groups parse events groups = foldl (\<lambda>es (g, incomplete). add_event parse es g incomplete) events groups"

lemma add_groups_simps [simp]:
  "add_groups parse events [] = events"
  "add_groups parse events ((g, b) # gs) = add_groups parse (add_event parse events g b) gs"
  "add_groups parse events (gs @ hs) = add_groups parse (add_groups parse events gs) hs"
  by (simp_all add: add_groups_def)

text \<open>The groups as the incremental parser closes them, after some pending lines.\<close>

fun groups_after :: "jstr list \<Rightarrow> jstr list \<Rightarrow> (jstr list \<times> bool) list" where
  "groups_after pending [] = []"
| "groups_after pending [l] =
     (let all = (if l = [] then pending else pending @ [l]) in if all = [] then [] else [(all, True)])"
| "groups_after pending (l # m # ls) =
     (if l = [] then (if pending = [] then [] else [(pending, False)]) @ groups_after [] (m # ls)
      else groups_after (pending @ [l]) (m # ls))"

text \<open>The groups of lines as the split at blank lines leaves them.\<close>

fun blocks_of :: "jstr list \<Rightarrow> jstr list list" where
  "blocks_of [] = []"
| "blocks_of [l] = [[l]]"
| "blocks_of [l, m] = [[l, m]]"
| "blocks_of (l # m # r # rs) =
     (if m = [] then [l] # blocks_of (r # rs)
      else (case blocks_of (m # r # rs) of [] \<Rightarrow> [[l]] | b # bs \<Rightarrow> (l # b) # bs))"

lemma blocks_of_Nil [simp]: "blocks_of ls = [] \<longleftrightarrow> ls = []"
  by (cases ls rule: blocks_of.cases) (auto split: list.splits)

fun tagged :: "jstr list list \<Rightarrow> (jstr list \<times> bool) list" where
  "tagged [] = []"
| "tagged [g] = (if g = [] then [] else [(g, True)])"
| "tagged (g # h # gs) = (if g = [] then [] else [(g, False)]) @ tagged (h # gs)"

definition prefixed :: "jstr list \<Rightarrow> jstr list list \<Rightarrow> jstr list list" where
  "prefixed pending bs = (case map said bs of [] \<Rightarrow> [] | g # gs \<Rightarrow> (pending @ g) # gs)"

lemma prefixed_Cons [simp]: "prefixed pending (b # bs) = (pending @ said b) # map said bs"
  by (simp add: prefixed_def)

lemma tagged_said_Cons: "bs \<noteq> [] \<Longrightarrow> tagged (g # map said bs) = (if g = [] then [] else [(g, False)]) @ tagged (prefixed [] bs)"
  by (cases bs) auto

lemma groups_blocks:
  "ls \<noteq> [] \<Longrightarrow> pending = [] \<or> hd ls \<noteq> [] \<Longrightarrow> groups_after pending ls = tagged (prefixed pending (blocks_of ls))"
proof (induction ls arbitrary: pending rule: blocks_of.induct)
  case (3 l m)
  then show ?case by auto
next
  case (4 l m r rs)
  show ?case
  proof (cases "m = []")
    case True
    have "groups_after [] (r # rs) = tagged (prefixed [] (blocks_of (r # rs)))"
      using 4(1) [OF True, of "[]"] by simp
    then show ?thesis using True 4(4) by (auto simp: tagged_said_Cons)
  next
    case False
    obtain b bs where b: "blocks_of (m # r # rs) = b # bs"
      using blocks_of_Nil [of "m # r # rs"] by (cases "blocks_of (m # r # rs)") auto
    then show ?thesis
      using 4(2) [OF False, of "if l = [] then pending else pending @ [l]"] 4(4) False by auto
  qed
qed auto

lemma split_on_Cons_obtain:
  obtains w ws where "split_on c s = w # ws" using split_on_not_Nil [of c s] by (cases "split_on c s") auto

lemma blocks_of_head: "blocks_of (w # ws) = (w # g) # gs \<Longrightarrow> blocks_of (x # ws) = (x # g) # gs"
  by (cases "w # ws" rule: blocks_of.cases) (auto split: list.splits if_splits)

lemma blocks_of_first: "\<exists>g gs. blocks_of (w # ws) = (w # g) # gs"
  by (cases "w # ws" rule: blocks_of.cases) (auto split: list.splits)

lemma blocks_lines: "map (split_on 10) (split_blank s) = blocks_of (split_on 10 s)"
proof (induction s rule: split_blank.induct)
  case (3 c d s)
  show ?case
  proof (cases "c = 10 \<and> d = 10")
    case True
    obtain w ws where "split_on 10 s = w # ws" by (rule split_on_Cons_obtain)
    then show ?thesis using True 3(1) by simp
  next
    case False
    obtain w ws where w: "split_on 10 (d # s) = w # ws" by (rule split_on_Cons_obtain)
    from blocks_of_first obtain g gs where g: "blocks_of (w # ws) = (w # g) # gs" by blast
    have parts: "map (split_on 10) (split_blank (d # s)) = (w # g) # gs"
      using 3(2) [OF False] w g by simp
    then obtain b bs where b: "split_blank (d # s) = b # bs" "split_on 10 b = w # g" "map (split_on 10) bs = gs"
      by (auto simp: Cons_eq_map_conv map_eq_Cons_conv)
    have w_first: "d \<noteq> 10 \<Longrightarrow> w \<noteq> []" using w by (auto split: list.splits)
    show ?thesis
    proof (cases "c = 10")
      case True
      with False w_first have "w \<noteq> []" by simp
      then have "blocks_of ([] # w # ws) = ([] # w # g) # gs"
        using g by (cases ws) simp_all
      then show ?thesis using True False w b by simp
    next
      case c: False
      then show ?thesis using w b blocks_of_head [OF g, of "c # w"] by simp
    qed
  qed
qed auto

section \<open>Both parsers agree\<close>

text \<open>The synchronous parser goes over the tagged blocks; only a last one that says something is open.\<close>

fun ends_blank :: "jstr list \<Rightarrow> bool" where
  "ends_blank ls \<longleftrightarrow> length ls \<ge> 3 \<and> last ls = [] \<and> last (butlast ls) = []"

declare ends_blank.simps [simp del]

lemma ends_blank_said:
  "ls \<noteq> [] \<Longrightarrow> ends_blank ls \<Longrightarrow> said (last (blocks_of ls)) = []"
proof (induction ls rule: blocks_of.induct)
  case (4 l m r rs)
  show ?case
  proof (cases "m = []")
    case True
    show ?thesis
    proof (cases "length rs \<ge> 2")
      case True
      with 4(4) have "ends_blank (r # rs)" by (auto simp: ends_blank.simps)
      then show ?thesis using 4(1) [OF \<open>m = []\<close>] \<open>m = []\<close> by simp
    next
      case False
      then show ?thesis using \<open>m = []\<close> 4(4)
        by (cases rs; cases "tl rs") (auto simp: ends_blank.simps)
    qed
  next
    case False
    with 4(4) have "ends_blank (m # r # rs)"
      by (cases rs) (auto simp: ends_blank.simps)
    moreover from blocks_of_first obtain g gs where "blocks_of (m # r # rs) = (m # g) # gs" by blast
    ultimately show ?thesis using 4(2) [OF False] False by (auto split: if_splits)
  qed
qed (auto simp: ends_blank.simps)

lemma split_on_append_sep: "split_on c (a @ c # b) = split_on c a @ split_on c b"
proof (induction a)
  case (Cons x a)
  obtain w ws where "split_on c a = w # ws" by (rule split_on_Cons_obtain)
  with Cons show ?case by simp
qed simp

lemma join_with_snoc: "ls \<noteq> [] \<Longrightarrow> join_with sep (ls @ [l]) = join_with sep ls @ sep @ l"
  for sep :: jstr
  by (induction sep ls rule: join_with.induct) auto

lemma ends_with_iff: "ends_with p s \<longleftrightarrow> (\<exists>a. s = a @ p)"
  unfolding ends_with_def starts_with_def
  by (metis append_eq_conv_conj length_rev rev_append rev_rev_ident take_rev)

lemma ends_with_blank: "ends_with [10, 10] s \<longleftrightarrow> ends_blank (split_on 10 s)"
proof
  assume "ends_with [10, 10] s"
  then obtain a where "s = a @ 10 # 10 # []" by (auto simp: ends_with_iff)
  then have "split_on 10 s = split_on 10 a @ [[], []]"
    by (simp only: split_on_append_sep) simp
  moreover have "length (split_on 10 a) \<ge> 1" using split_on_not_Nil [of 10 a] by (cases "split_on 10 a") auto
  ultimately show "ends_blank (split_on 10 s)" by (simp add: ends_blank.simps butlast_append)
next
  let ?ls = "split_on 10 s"
  assume e: "ends_blank ?ls"
  then have "?ls \<noteq> []" "last ?ls = []" "butlast ?ls \<noteq> []" "last (butlast ?ls) = []"
    by (auto simp: ends_blank.simps simp flip: length_0_conv)
  then have "?ls = butlast ?ls @ [[]]" "butlast ?ls = butlast (butlast ?ls) @ [[]]"
    by (metis append_butlast_last_id)+
  then obtain ls where ls: "?ls = (ls @ [[]]) @ [[]]" by metis
  then have "ls \<noteq> []" using e by (auto simp: ends_blank.simps)
  then have "join_with [10] ?ls = join_with [10] ls @ [10, 10]"
    unfolding ls using join_with_snoc [of "ls @ [[]]" "[10]" "[]"] join_with_snoc [of ls "[10]" "[]"] by simp
  then show "ends_with [10, 10] s" by (simp add: join_split_on ends_with_iff)
qed

lemma read_blocks_tagged:
  assumes "bs \<noteq> []" and "open_last \<or> said (split_on 10 (last bs)) = []"
  shows "read_blocks parse open_last events bs = add_groups parse events (tagged (map (\<lambda>b. said (split_on 10 b)) bs))"
  using assms
proof (induction bs arbitrary: events)
  case (Cons b bs)
  have skip: "(if b = [] then events else add_event parse events (split_on 10 b) x) = add_event parse events (said (split_on 10 b)) x" for x
    using add_said [of parse events "[[]]" x] by (auto simp: add_said)
  have step: "read_blocks parse open_last events (b # bs) =
      read_blocks parse open_last
        (add_event parse events (said (split_on 10 b)) (bs = [] \<and> open_last)) bs"
    by (simp only: read_blocks.simps skip)
  show ?case
  proof (cases "bs = []")
    case True
    then show ?thesis unfolding step using Cons.prems by auto
  next
    case False
    then obtain c cs where bs: "bs = c # cs" by (cases bs) auto
    have "read_blocks parse open_last events (b # bs) = add_groups parse
        (add_event parse events (said (split_on 10 b)) False) (tagged (map (\<lambda>b. said (split_on 10 b)) bs))"
      unfolding step using Cons.IH Cons.prems False by simp
    then show ?thesis by (auto simp: bs)
  qed
qed simp

text \<open>A carriage return only ends a line: a line feed follows it, or nothing.\<close>

fun cr_ends_line :: "jstr \<Rightarrow> bool" where
  "cr_ends_line [] \<longleftrightarrow> True"
| "cr_ends_line [c] \<longleftrightarrow> True"
| "cr_ends_line (c # d # s) \<longleftrightarrow> (c = 13 \<longrightarrow> d = 10) \<and> cr_ends_line (d # s)"

lemma drop_cr_snoc: "drop_cr (l @ [c]) = (if c = 13 then l else l @ [c])"
  by (simp add: drop_cr_def ends_with_def starts_with_def)

lemma drop_cr_Nil [simp]: "drop_cr [] = []"
  by (simp add: drop_cr_def ends_with_def starts_with_def)

lemma drop_cr_Cons: "l \<noteq> [] \<Longrightarrow> drop_cr (c # l) = c # drop_cr l"
  using drop_cr_snoc [of "butlast l" "last l"] drop_cr_snoc [of "c # butlast l" "last l"]
  by (cases l rule: rev_cases) simp_all

lemma normalized_line:
  "10 \<notin> set l \<Longrightarrow> cr_ends_line (l @ 10 # s) \<Longrightarrow> normalized (l @ 10 # s) = drop_cr l @ 10 # normalized s
     \<and> 10 \<notin> set (drop_cr l) \<and> cr_ends_line s"
proof (induction l)
  case Nil
  then show ?case by (cases s) (auto simp: normalized_def)
next
  case (Cons c l)
  show ?case
  proof (cases l)
    case Nil
    then show ?thesis using Cons drop_cr_snoc [of "[]" c] by (cases s) (auto simp: normalized_def)
  next
    case (Cons d k)
    with Cons.prems have "c \<noteq> 13" by auto
    moreover have "drop_cr (c # l) = c # drop_cr l" using Cons by (simp add: drop_cr_Cons)
    ultimately show ?thesis using Cons Cons.prems Cons.IH by (auto simp: normalized_def)
  qed
qed

lemma normalized_last:
  "10 \<notin> set l \<Longrightarrow> cr_ends_line l \<Longrightarrow>
     normalized l = (if drop_cr l = l then l else drop_cr l @ [10]) \<and> 10 \<notin> set (drop_cr l)"
proof (induction l)
  case (Cons c l)
  show ?case
  proof (cases l)
    case Nil
    then show ?thesis using Cons drop_cr_snoc [of "[]" c] by (auto simp: normalized_def)
  next
    case (Cons d k)
    with Cons.prems have "c \<noteq> 13" by auto
    moreover have "drop_cr (c # l) = c # drop_cr l" using Cons by (simp add: drop_cr_Cons)
    ultimately show ?thesis using Cons Cons.prems Cons.IH by (auto simp: normalized_def)
  qed
qed (simp add: normalized_def)

text \<open>
  What the loop leaves: the events of the closed groups, the pending lines, and no pending line
  after a blank one.
\<close>

definition closing :: "json_reader \<Rightarrow> sse_state \<Rightarrow> sse_event list" where
  "closing parse st = add_groups parse (ss_events st) (groups_after (ss_lines st) [[]])"

lemma flush_events: "ss_events (flush parse b st) = add_event parse (ss_events st) (ss_lines st) b"
  by (auto simp: flush_def add_event_def parseEventLines_def read_lines_def split: option.split)

lemma flush_other [simp]:
  "ss_lines (flush parse b st) = []" "ss_cursor (flush parse b st) = ss_cursor st"
  "ss_checks (flush parse b st) = ss_checks st" "ss_progress (flush parse b st) = ss_progress st"
  by (auto simp: flush_def split: option.split)

lemma groups_after_first:
  assumes "ls \<noteq> []"
  shows "add_groups parse events (groups_after pending (l # ls)) =
    (if l = [] then add_groups parse (add_event parse events pending False) (groups_after [] ls)
     else add_groups parse events (groups_after (pending @ [l]) ls))"
  using assms by (cases ls) auto

lemma never_aborted: "\<forall>k. \<not> aborted k \<Longrightarrow> throwIfCancelled aborted st = Inr (st\<lparr>ss_checks := ss_checks st + 1\<rparr>)"
  by (simp add: throwIfCancelled_def)

text \<open>One line of the loop: what it adds is what the groups after the pending lines have first.\<close>

lemma take_line_groups:
  fixes parse :: json_reader
  assumes "cr_ends_line (drop (ss_cursor st) content)" and "ss_cursor st < length content"
  defines "st' \<equiv> take_line parse content st"
  shows "cr_ends_line (drop (ss_cursor st') content)
    \<and> add_groups parse (ss_events st') (groups_after (ss_lines st') (split_on 10 (normalized (drop (ss_cursor st') content))))
      = add_groups parse (ss_events st) (groups_after (ss_lines st) (split_on 10 (normalized (drop (ss_cursor st) content))))"
proof -
  let ?rest = "drop (ss_cursor st) content"
  let ?raw = "takeWhile (\<lambda>c. c \<noteq> 10) ?rest"
  have raw: "10 \<notin> set ?raw" by (auto dest: set_takeWhileD)
  have st': "ss_events st' = (if drop_cr ?raw = [] then add_event parse (ss_events st) (ss_lines st) False else ss_events st)"
    "ss_lines st' = (if drop_cr ?raw = [] then [] else ss_lines st @ [drop_cr ?raw])"
    "ss_cursor st' = (if length ?raw < length ?rest then ss_cursor st + length ?raw + 1 else length content)"
    by (simp_all add: st'_def take_line_def Let_def flush_events)
  show ?thesis
  proof (cases "length ?raw < length ?rest")
    case True
    have rest: "?rest = ?raw @ 10 # drop (ss_cursor st') content"
    proof -
      have "?rest ! length ?raw = 10" using nth_length_takeWhile [OF True] by simp
      then have "drop (length ?raw) ?rest = 10 # drop (Suc (length ?raw)) ?rest"
        using True by (metis Cons_nth_drop_Suc)
      then show ?thesis
        using True st'(3) takeWhile_eq_take [of "\<lambda>c. c \<noteq> 10" ?rest] append_take_drop_id [of "length ?raw" ?rest]
        by (simp add: add.commute)
    qed
    then have "cr_ends_line (?raw @ 10 # drop (ss_cursor st') content)" using assms(1) by simp
    note n = normalized_line [OF raw this]
    have "split_on 10 (normalized ?rest) = drop_cr ?raw # split_on 10 (normalized (drop (ss_cursor st') content))"
      using n by (subst rest) (simp add: split_on_append_sep split_on_none)
    then show ?thesis using n st'(1,2) by (simp add: groups_after_first)
  next
    case False
    then have rest: "?rest = ?raw" by (metis length_takeWhile_le linorder_not_less nless_le takeWhile_eq_all_conv takeWhile_eq_take take_all_iff)
    then have "cr_ends_line ?raw" using assms(1) by simp
    note n = normalized_last [OF raw this]
    have done': "drop (ss_cursor st') content = []" using False st'(3) by simp
    have nil: "normalized [] = []" by (simp add: normalized_def)
    have "?raw \<noteq> []" using rest assms(2) by (metis drop_eq_Nil linorder_not_less)
    then have "split_on 10 (normalized ?rest) = (if drop_cr ?raw = ?raw then [drop_cr ?raw] else [drop_cr ?raw, []])
        \<and> (drop_cr ?raw = ?raw \<longrightarrow> drop_cr ?raw \<noteq> [])"
      using n split_on_append_sep [of 10 "drop_cr ?raw" "[]"] by (subst rest) (auto simp: split_on_none)
    then show ?thesis unfolding done' nil using st'(1,2) by auto
  qed
qed

lemma takeWhile_shorter: "c \<in> set s \<Longrightarrow> length (takeWhile (\<lambda>x. x \<noteq> c) s) < length s"
  by (induction s) auto

text \<open>After a blank line nothing is pending.\<close>

definition blank_ahead :: "jstr \<Rightarrow> sse_state \<Rightarrow> bool" where
  "blank_ahead content st \<longleftrightarrow>
     (let rest = drop (ss_cursor st) content in
      (rest = [] \<and> ss_lines st = []) \<or> rest = [10] \<or> ends_with [10, 10] rest)"

lemma take_line_blank:
  assumes "blank_ahead content st" and "ss_cursor st < length content"
  shows "blank_ahead content (take_line parse content st)"
proof -
  let ?rest = "drop (ss_cursor st) content"
  let ?raw = "takeWhile (\<lambda>c. c \<noteq> 10) ?rest"
  let ?st = "take_line parse content st"
  have "?rest \<noteq> []" using assms(2) by simp
  with assms(1) obtain a where a: "?rest = [10] \<or> ?rest = a @ [10, 10]"
    by (auto simp: blank_ahead_def ends_with_iff Let_def)
  have "10 \<in> set ?rest" using a by auto
  then have ended: "length ?raw < length ?rest" by (rule takeWhile_shorter)
  have cursor: "drop (ss_cursor ?st) content = drop (Suc (length ?raw)) ?rest"
    using ended by (simp add: take_line_def Let_def add.commute)
  from a show ?thesis
  proof
    assume "?rest = [10]"
    then show ?thesis using cursor by (simp add: blank_ahead_def take_line_def Let_def)
  next
    assume r: "?rest = a @ [10, 10]"
    show ?thesis
    proof (cases "10 \<in> set a")
      case True
      then have "?raw = takeWhile (\<lambda>c. c \<noteq> 10) a" "length (takeWhile (\<lambda>c. c \<noteq> 10) a) < length a"
        unfolding r by (auto simp: takeWhile_append1 takeWhile_shorter)
      then have "drop (Suc (length ?raw)) ?rest = drop (Suc (length ?raw)) a @ [10, 10]"
        unfolding r by simp
      then show ?thesis unfolding blank_ahead_def cursor Let_def by (auto simp: ends_with_iff)
    next
      case False
      then have "?raw = a" unfolding r by (subst takeWhile_append2) auto
      then have "drop (Suc (length ?raw)) ?rest = [10]" unfolding r by simp
      then show ?thesis unfolding blank_ahead_def cursor Let_def by simp
    qed
  qed
qed

lemma read_content_closing:
  assumes "\<forall>k. \<not> aborted k" and "cr_ends_line (drop (ss_cursor st) content)" and "ss_cursor st \<le> length content"
  shows "\<exists>st'. read_content parse aborted content st = Inr st'
    \<and> closing parse st' = add_groups parse (ss_events st)
        (groups_after (ss_lines st) (split_on 10 (normalized (drop (ss_cursor st) content))))
    \<and> (blank_ahead content st \<longrightarrow> ss_lines st' = [])"
  using assms
proof (induction parse aborted content st rule: read_content.induct)
  case (1 parse aborted content st)
  show ?case
  proof (cases "ss_cursor st < length content")
    case False
    then have "drop (ss_cursor st) content = []" by simp
    then show ?thesis
      using False
      by (subst read_content.simps) (auto simp: closing_def normalized_def blank_ahead_def ends_with_def starts_with_def)
  next
    case True
    let ?in = "st\<lparr>ss_checks := ss_checks st + 1\<rparr>"
    let ?next = "pause content (take_line parse content ?in)"
    have t: "throwIfCancelled aborted st = Inr ?in" using 1(2) by (rule never_aborted)
    have g: "cr_ends_line (drop (ss_cursor ?next) content)
      \<and> add_groups parse (ss_events ?next) (groups_after (ss_lines ?next) (split_on 10 (normalized (drop (ss_cursor ?next) content))))
      = add_groups parse (ss_events st) (groups_after (ss_lines st) (split_on 10 (normalized (drop (ss_cursor st) content))))"
      using take_line_groups [of ?in content parse] 1(3) True by simp
    have c: "ss_cursor ?next \<le> length content"
      using True by (auto simp: take_line_def Let_def dest: length_takeWhile_le [THEN le_less_trans])
    have b: "blank_ahead content st \<Longrightarrow> blank_ahead content ?next"
      using take_line_blank [of content ?in parse] True by (simp add: blank_ahead_def)
    from 1(1) [OF True t 1(2) conjunct1 [OF g] c] g b True t show ?thesis
      by (subst read_content.simps) auto
  qed
qed

lemma add_event_complete: "list_all (\<lambda>e. \<not> sv_incomplete e) events \<Longrightarrow>
    list_all (\<lambda>e. \<not> sv_incomplete e) (add_event parse events lines' False)"
  by (auto simp: add_event_def parseEventLines_def Let_def split: option.split)

lemma take_line_events: "ss_events (take_line parse content st) \<in>
    {ss_events st, add_event parse (ss_events st) (ss_lines st) False}"
  by (auto simp: take_line_def Let_def flush_events)

lemma read_content_complete:
  "list_all (\<lambda>e. \<not> sv_incomplete e) (ss_events st) \<Longrightarrow> read_content parse aborted content st = Inr st' \<Longrightarrow>
    list_all (\<lambda>e. \<not> sv_incomplete e) (ss_events st')"
proof (induction parse aborted content st rule: read_content.induct)
  case (1 parse aborted content st)
  show ?case
  proof (cases "ss_cursor st < length content")
    case True
    with 1(3) obtain st1 where t: "throwIfCancelled aborted st = Inr st1"
      and r: "read_content parse aborted content (pause content (take_line parse content st1)) = Inr st'"
      by (subst (asm) read_content.simps) (auto split: sum.splits)
    have "ss_events st1 = ss_events st" using t by (auto simp: throwIfCancelled_def split: if_splits)
    then have "list_all (\<lambda>e. \<not> sv_incomplete e) (ss_events (pause content (take_line parse content st1)))"
      using take_line_events [of parse content st1] 1(2) add_event_complete by auto
    from 1(1) [OF True t this r] show ?thesis .
  next
    case False
    with 1(2,3) show ?thesis by (subst (asm) read_content.simps) auto
  qed
qed

text \<open>
  C2: the two parsers of an event stream agree. When a carriage return only ever ends a line and
  nothing aborts the read, the incremental parser returns, with the same events as the
  synchronous one, numbered and marked alike, and the same count of events that are not JSON;
  where the synchronous one reports an incomplete last event, so does the incremental one.
\<close>

theorem sse_parsers_agree:
  assumes "cr_ends_line content" and "\<forall>k. \<not> aborted k"
  shows "\<exists>result progress. parseSSEIncremental parse aborted truncated content = Inr (result, progress)
    \<and> (let sync = parseSSESynchronously parse content truncated in
       sr_events result = sr_events sync
       \<and> sr_invalid_json_count result = sr_invalid_json_count sync
       \<and> (sr_incomplete_last sync \<longrightarrow> sr_incomplete_last result))"
proof -
  let ?norm = "normalized content"
  let ?lines = "split_on 10 ?norm"
  let ?open = "truncated \<or> \<not> ends_with [10, 10] ?norm"
  obtain st where st: "read_content parse aborted content sse_start = Inr st"
      "closing parse st = add_groups parse [] (groups_after [] ?lines)"
      "blank_ahead content sse_start \<longrightarrow> ss_lines st = []"
    using read_content_closing [OF assms(2), of sse_start content parse] assms(1) by (auto simp: sse_start_def)
  have complete: "list_all (\<lambda>e. \<not> sv_incomplete e) (ss_events st)"
    using read_content_complete [OF _ st(1)] by (simp add: sse_start_def)
  define incomplete where "incomplete \<longleftrightarrow> ss_lines st \<noteq> [] \<and> (truncated \<or> \<not> ends_with [10, 10] content)"
  have flag: "incomplete \<longleftrightarrow> ss_lines st \<noteq> []"
    using st(3) by (auto simp: incomplete_def blank_ahead_def sse_start_def Let_def)
  have events: "ss_events (flush parse incomplete st) = closing parse st"
    using flag by (cases "ss_lines st = []") (simp_all add: flush_events closing_def)
  have blocks: "map (split_on 10) (split_blank ?norm) = blocks_of ?lines" by (rule blocks_lines)
  then have some: "split_blank ?norm \<noteq> []" by (metis blocks_of_Nil list.map_disc_iff split_on_not_Nil)
  have "said (last (blocks_of ?lines)) = []" if "\<not> ?open"
    using that ends_blank_said [of ?lines] by (simp add: ends_with_blank)
  then have "?open \<or> said (split_on 10 (last (split_blank ?norm))) = []"
    using some by (auto simp: blocks [symmetric] last_map)
  from read_blocks_tagged [OF some this, of parse "[]"]
  have "read_blocks parse ?open [] (split_blank ?norm) =
      add_groups parse [] (tagged (map said (blocks_of ?lines)))"
    by (simp add: blocks [symmetric] comp_def)
  also have "map said (blocks_of ?lines) = prefixed [] (blocks_of ?lines)"
    by (cases "blocks_of ?lines") (simp_all add: prefixed_def)
  also have "tagged \<dots> = groups_after [] ?lines" by (simp add: groups_blocks)
  finally have sync: "sr_events (parseSSESynchronously parse content truncated) = closing parse st"
      "sr_invalid_json_count (parseSSESynchronously parse content truncated) = invalid_count (closing parse st)"
    by (simp_all add: parseSSESynchronously_def st(2) Let_def)
  have last: "sr_incomplete_last (parseSSESynchronously parse content truncated) \<Longrightarrow> incomplete"
    using sync complete flag
    by (auto simp: parseSSESynchronously_def closing_def Let_def list_all_iff)
  show ?thesis
    unfolding parseSSEIncremental_def st(1) bindE_simps Let_def incomplete_def [symmetric]
    using never_aborted [OF assms(2)] sync events last by auto
qed

definition sample_stream :: jstr where
  "sample_stream = js ''event: ping'' @ [13, 10, 13, 10] @ js ''data: {}'' @ [10]"

theorem sse_parsers_agree_witness:
  "\<exists>result progress.
     parseSSEIncremental (\<lambda>_. Some (JObj [])) (\<lambda>_. False) False sample_stream = Inr (result, progress)
     \<and> sr_events result = sr_events (parseSSESynchronously (\<lambda>_. Some (JObj [])) sample_stream False)
     \<and> length (sr_events result) = 2"
proof -
  have "cr_ends_line sample_stream" by code_simp
  moreover have "length (sr_events (parseSSESynchronously (\<lambda>_. Some (JObj [])) sample_stream False)) = 2"
    by (simp add: sample_stream_def js_def parseSSESynchronously_def normalized_def add_event_def
        parseEventLines_def read_lines_def read_line_def line_field_def line_value_def starts_with_def
        ends_with_def trim_def js_space_def Let_def)
  ultimately show ?thesis
    using sse_parsers_agree [of sample_stream "\<lambda>_. False" "\<lambda>_. Some (JObj [])" False]
    by (auto simp: Let_def)
qed

end
