(* ===== verification/Response_Preview.thy ===== *)
theory Response_Preview
  imports Json_Text Sse_Events
begin

text \<open>
  What a response said, \<open>response-preview-model.ts\<close>: the outputs of OpenAI responses, chat
  completions, Anthropic messages and Gemini candidates, put together from a stream's events or
  from a whole body. The outputs are a map in insertion order, as a list of its entries.
\<close>

datatype response_output_kind = OutText | OutReasoning | OutTool | OutError | OutOther

record response_output =
  ro_kind :: response_output_kind
  ro_text :: jstr
  ro_name :: "jstr option"
  ro_id :: "jstr option"

record response_preview =
  rp_outputs :: "response_output list"
  rp_incomplete :: bool
  rp_unparsed :: bool

record content_part =
  cp_media_type :: jstr
  cp_content :: jstr
  cp_truncated :: bool

section \<open>Reading unknown values\<close>

definition object_of :: "json \<Rightarrow> jobj" where
  "object_of v = (case v of JObj o' \<Rightarrow> o' | _ \<Rightarrow> [])"

definition array_of :: "json \<Rightarrow> json list" where
  "array_of v = (case v of JArr vs \<Rightarrow> vs | _ \<Rightarrow> [])"

definition string_of :: "json \<Rightarrow> jstr" where
  "string_of v = (case v of JStr s \<Rightarrow> s | _ \<Rightarrow> [])"

definition is_nullish :: "json \<Rightarrow> bool" where
  "is_nullish v \<longleftrightarrow> v = JUndef \<or> v = JNull"

text \<open>\<open>a ?? b\<close>.\<close>

definition or_else :: "json \<Rightarrow> json \<Rightarrow> json" where
  "or_else a b = (if is_nullish a then b else a)"

definition either_text :: "jstr \<Rightarrow> jstr \<Rightarrow> jstr" where
  "either_text a b = (if a \<noteq> [] then a else b)"

definition detail :: "number_text \<Rightarrow> json \<Rightarrow> jstr" where
  "detail fraction v = (if is_nullish v then [] else case v of JStr s \<Rightarrow> s | _ \<Rightarrow> pretty_at fraction 0 v)"

abbreviation get :: "jobj \<Rightarrow> string \<Rightarrow> json" where "get \<equiv> field"

section \<open>The outputs\<close>

type_synonym outputs = "(jstr \<times> response_output) list"

record preview_state =
  pv_outputs :: outputs
  pv_indexes :: "(jstr \<times> jstr) list"
  pv_incomplete :: bool
  pv_streamed :: "(jstr \<times> response_output list) list"

definition preview_start :: "bool \<Rightarrow> preview_state" where
  "preview_start truncated = \<lparr>pv_outputs = [], pv_indexes = [], pv_incomplete = truncated, pv_streamed = []\<rparr>"

definition nonempty_text :: "jstr \<Rightarrow> jstr option" where
  "nonempty_text s = (if s = [] then None else Some s)"

definition or_previous :: "jstr \<Rightarrow> jstr option \<Rightarrow> jstr option" where
  "or_previous s previous = (if s = [] then previous else Some s)"

text \<open>An absent name or id is the empty text here: \<open>||\<close> treats both alike.\<close>

definition put_output :: "jstr \<Rightarrow> response_output_kind \<Rightarrow> jstr \<Rightarrow> bool \<Rightarrow> jstr \<Rightarrow> jstr \<Rightarrow> outputs \<Rightarrow> outputs" where
  "put_output key kind text appended name id' outs =
     put_or key \<lparr>ro_kind = kind, ro_text = text, ro_name = nonempty_text name, ro_id = nonempty_text id'\<rparr>
       (\<lambda>p. \<lparr>ro_kind = kind, ro_text = (if appended then ro_text p @ text else text),
             ro_name = or_previous name (ro_name p), ro_id = or_previous id' (ro_id p)\<rparr>) outs"

abbreviation put_text :: "jstr \<Rightarrow> response_output_kind \<Rightarrow> jstr \<Rightarrow> bool \<Rightarrow> outputs \<Rightarrow> outputs" where
  "put_text key kind text appended \<equiv> put_output key kind text appended [] []"

definition removePrefix :: "jstr \<Rightarrow> outputs \<Rightarrow> outputs" where
  "removePrefix prefix' outs = filter (\<lambda>(key, out). \<not> starts_with prefix' key) outs"

definition with_outputs :: "(outputs \<Rightarrow> outputs) \<Rightarrow> preview_state \<Rightarrow> preview_state" where
  "with_outputs f st = st\<lparr>pv_outputs := f (pv_outputs st)\<rparr>"

definition has_output :: "jstr \<Rightarrow> outputs \<Rightarrow> bool" where
  "has_output key outs \<longleftrightarrow> map_of outs key \<noteq> None"

section \<open>Errors and blocks\<close>

definition put_error :: "json \<Rightarrow> outputs \<Rightarrow> outputs" where
  "put_error v outs =
     (let data = object_of v;
          message = either_text (string_of (get data ''message'')) (string_of v);
          code = either_text (string_of (get data ''code''))
            (if get data ''type'' = js_str ''error'' then [] else string_of (get data ''type'')) in
      if message \<noteq> [] then put_output (js ''error'') OutError message False code [] outs
      else if code \<noteq> [] \<and> \<not> has_output (js ''error'') outs
      then put_text (js ''error'') OutError code False outs
      else outs)"

definition contentBlock :: "number_text \<Rightarrow> jstr \<Rightarrow> json \<Rightarrow> outputs \<Rightarrow> outputs" where
  "contentBlock fraction key v outs =
     (let block = object_of v; type = string_of (get block ''type'') in
      if type \<in> js ` {''text'', ''output_text'', ''summary_text''}
      then put_text key OutText (string_of (get block ''text'')) False outs
      else if type = js ''refusal''
      then put_text key OutText (string_of (get block ''refusal'')) False outs
      else if type = js ''thinking''
      then put_text key OutReasoning (string_of (get block ''thinking'')) False outs
      else if type = js ''tool_use'' \<or> type = js ''server_tool_use''
      then put_output key OutTool (detail fraction (get block ''input'')) False
        (string_of (get block ''name'')) (string_of (get block ''id'')) outs
      else if type \<noteq> [] \<and> type \<noteq> js ''redacted_thinking''
      then put_output key OutOther (detail fraction (JObj block)) False type [] outs
      else outs)"

text \<open>\<open>items.forEach((item, i) => ...)\<close>, each step changing the state.\<close>

definition for_each :: "(nat \<Rightarrow> 'a \<Rightarrow> 's \<Rightarrow> 's) \<Rightarrow> 'a list \<Rightarrow> 's \<Rightarrow> 's" where
  "for_each f xs s = foldl (\<lambda>s (i, x). f i x s) s (enumerate 0 xs)"

definition indexed_key :: "jstr \<Rightarrow> string \<Rightarrow> jstr \<Rightarrow> jstr" where
  "indexed_key key part i = key @ js '':'' @ js part @ js '':'' @ i"

definition reasoningTexts :: "jobj \<Rightarrow> jstr list" where
  "reasoningTexts item =
     filter (\<lambda>t. trim t \<noteq> [])
       (map (\<lambda>b. string_of (get (object_of b) ''text'')) (array_of (get item ''summary''))
        @ map (\<lambda>b. string_of (get (object_of b) ''text'')) (array_of (get item ''content''))
        @ [string_of (get item ''text''), string_of (get item ''reasoning_content''),
           string_of (get item ''reasoning'')])"

section \<open>Items of an OpenAI response\<close>

definition response_key :: "jstr \<Rightarrow> jstr" where
  "response_key slot = js ''response:'' @ slot"

text \<open>
  The item's entries, into the outputs. What streamed as reasoning, by slot, stands in for a
  reasoning item without text.
\<close>

definition item_outputs ::
  "number_text \<Rightarrow> (jstr \<times> response_output list) list \<Rightarrow> jobj \<Rightarrow> jstr \<Rightarrow> bool \<Rightarrow> outputs \<Rightarrow> outputs"
where
  "item_outputs fraction streamed item slot snapshot outs =
     (let key = response_key slot; type = string_of (get item ''type'') in
      if type = js ''message''
      then for_each (\<lambda>i block. contentBlock fraction (indexed_key key ''text'' (dec i)) block)
             (array_of (get item ''content'')) outs
      else if type = js ''reasoning''
      then
        (let texts = reasoningTexts item in
         if texts \<noteq> []
         then for_each (\<lambda>i text. put_text (indexed_key key ''reasoning'' (dec i)) OutReasoning text False) texts outs
         else for_each (\<lambda>i out. put_or (indexed_key key ''reasoning'' (dec i)) out (\<lambda>_. out))
                (case map_of streamed slot of None \<Rightarrow> [] | Some xs \<Rightarrow> xs) outs)
      else if type = js ''function_call'' \<or> type = js ''custom_tool_call''
      then
        (let text = detail fraction (or_else (get item ''arguments'') (get item ''input'')) in
         if snapshot \<or> text \<noteq> [] \<or> \<not> has_output (key @ js '':tool'') outs
         then put_output (key @ js '':tool'') OutTool text False (string_of (get item ''name''))
                (either_text (string_of (get item ''call_id'')) (string_of (get item ''id''))) outs
         else outs)
      else if ends_with (js ''_call'') type
      then put_output (key @ js '':tool'') OutTool (detail fraction (or_else (get item ''action'') (JObj item)))
             False type [] outs
      else if type \<noteq> [] then put_output key OutOther (detail fraction (JObj item)) False type [] outs
      else outs)"

definition responseItem :: "number_text \<Rightarrow> jstr \<Rightarrow> bool \<Rightarrow> json \<Rightarrow> preview_state \<Rightarrow> preview_state" where
  "responseItem fraction slot snapshot v st =
     (let item = object_of v; id' = string_of (get item ''id'') in
      st\<lparr>pv_indexes := (if id' = [] then pv_indexes st else put_or id' slot (\<lambda>_. slot) (pv_indexes st)),
         pv_outputs := item_outputs fraction (pv_streamed st) item slot snapshot (pv_outputs st)\<rparr>)"

text \<open>\<open>/^response:(\d+):reasoning(?::|$)/\<close>: the slot of a reasoning entry.\<close>

definition reasoning_slot :: "jstr \<Rightarrow> jstr option" where
  "reasoning_slot key =
     (if \<not> starts_with (js ''response:'') key then None
      else
        (let rest = drop 9 key; slot = takeWhile is_digit rest; tail = dropWhile is_digit rest in
         if slot \<noteq> [] \<and> (tail = js '':reasoning'' \<or> starts_with (js '':reasoning:'') tail)
         then Some slot else None))"

definition gather_reasoning :: "outputs \<Rightarrow> (jstr \<times> response_output list) list" where
  "gather_reasoning outs =
     foldl (\<lambda>m (key, out). case reasoning_slot key of
         None \<Rightarrow> m
       | Some slot \<Rightarrow>
           if ro_kind out \<noteq> OutReasoning \<or> ro_text out = [] then m
           else upsert slot [] (\<lambda>xs. xs @ [out]) m) [] outs"

text \<open>A terminal snapshot is authoritative, including its item order.\<close>

definition take_snapshot :: "number_text \<Rightarrow> json list \<Rightarrow> preview_state \<Rightarrow> preview_state" where
  "take_snapshot fraction items st =
     (let cleared = st\<lparr>pv_streamed := gather_reasoning (pv_outputs st),
            pv_outputs := removePrefix (js ''response:'') (pv_outputs st)\<rparr>;
          filled = for_each (\<lambda>i item. responseItem fraction (dec i) True item) items cleared in
      filled\<lparr>pv_streamed := []\<rparr>)"

section \<open>One event or body\<close>

abbreviation type_in :: "jstr \<Rightarrow> string list \<Rightarrow> bool" where
  "type_in type names \<equiv> type \<in> js ` set names"

text \<open>\<open>/^response\.(output_text|refusal)\.(delta|done)$/\<close> and its likes are finite sets of names.\<close>

definition text_event :: "jstr \<Rightarrow> bool" where
  "text_event type \<longleftrightarrow> type_in type [''response.output_text.delta'', ''response.output_text.done'',
     ''response.refusal.delta'', ''response.refusal.done'']"

definition tool_event :: "jstr \<Rightarrow> bool" where
  "tool_event type \<longleftrightarrow> type_in type [''response.function_call_arguments.delta'',
     ''response.function_call_arguments.done'', ''response.custom_tool_call_input.delta'',
     ''response.custom_tool_call_input.done'']"

text \<open>\<open>/^response\.reasoning\w*\.(added|delta|done)$/\<close>.\<close>

definition reasoning_event :: "jstr \<Rightarrow> bool" where
  "reasoning_event type \<longleftrightarrow>
     starts_with (js ''response.reasoning'') type
     \<and> dropWhile (\<lambda>c. is_alnum c \<or> c = 95) (drop 18 type) \<in> js ` {''.added'', ''.delta'', ''.done''}"

definition is_delta :: "jstr \<Rightarrow> bool" where
  "is_delta type = ends_with (js ''.delta'') type"

definition event_slot :: "number_text \<Rightarrow> preview_state \<Rightarrow> jobj \<Rightarrow> jstr" where
  "event_slot fraction st data =
     (if \<not> is_nullish (get data ''output_index'') then js_text fraction (get data ''output_index'')
      else case map_of (pv_indexes st) (string_of (get data ''item_id'')) of
        Some slot \<Rightarrow> slot | None \<Rightarrow> js ''0'')"

text \<open>What an event of an OpenAI response puts at its slot.\<close>

definition response_event :: "number_text \<Rightarrow> jstr \<Rightarrow> jobj \<Rightarrow> preview_state \<Rightarrow> preview_state" where
  "response_event fraction type data st =
     (let slot = event_slot fraction st data; key = response_key slot in
      if type = js ''response.output_item.added'' \<or> type = js ''response.output_item.done''
      then responseItem fraction (num_text fraction (js_Number slot)) (ends_with (js ''.done'') type)
             (JObj (object_of (get data ''item''))) st
      else if text_event type
      then with_outputs (put_text
             (indexed_key key ''text'' (js_text fraction (or_else (get data ''content_index'') (jint 0))))
             OutText
             (string_of (or_else (get data ''delta'') (or_else (get data ''text'') (get data ''refusal''))))
             (is_delta type)) st
      else if reasoning_event type
      then
        (let index' = js_text fraction
               (or_else (get data ''summary_index'') (or_else (get data ''content_index'') (jint 0)));
             text = string_of (or_else (get data ''delta'')
               (or_else (get data ''text'') (get (object_of (get data ''part'')) ''text''))) in
         if is_delta type \<or> text \<noteq> []
         then with_outputs (put_text (indexed_key key ''reasoning'' index') OutReasoning text (is_delta type)) st
         else st)
      else if tool_event type
      then with_outputs (put_text (key @ js '':tool'') OutTool
             (string_of (or_else (get data ''delta'') (or_else (get data ''arguments'') (get data ''input''))))
             (is_delta type)) st
      else st)"

definition openai_response :: "number_text \<Rightarrow> jstr \<Rightarrow> jobj \<Rightarrow> preview_state \<Rightarrow> preview_state" where
  "openai_response fraction type data st =
     (let response = object_of (get data ''response'');
          st1 = with_outputs (put_error (get response ''error'')) st;
          failed = (type = js ''response.failed'' \<or> type = js ''response.incomplete'');
          reason = string_of (get (object_of (get response ''incomplete_details'')) ''reason'');
          st2 = (if failed
                 then with_outputs (\<lambda>outs. if reason \<noteq> [] then put_text (js ''error'') OutError reason False outs else outs)
                        (st1\<lparr>pv_incomplete := True\<rparr>)
                 else st1);
          items = array_of (get response ''output'');
          st3 = (if items \<noteq> [] then take_snapshot fraction items st2 else st2) in
      response_event fraction type data st3)"

text \<open>A chat completion: what each choice adds. A delta is appended, a message replaces.\<close>

definition chat_tool :: "number_text \<Rightarrow> jstr \<Rightarrow> bool \<Rightarrow> nat \<Rightarrow> json \<Rightarrow> outputs \<Rightarrow> outputs" where
  "chat_tool fraction key delta j v outs =
     (let tool = object_of v; fn = object_of (get tool ''function'');
          toolKey = indexed_key key ''tool'' (js_text fraction (or_else (get tool ''index'') (jint (int j))));
          known = (case map_of outs toolKey of None \<Rightarrow> []
             | Some p \<Rightarrow> case ro_name p of None \<Rightarrow> [] | Some name \<Rightarrow> name) in
      put_output toolKey OutTool (string_of (get fn ''arguments'')) delta
        (if delta then known @ string_of (get fn ''name'') else string_of (get fn ''name''))
        (string_of (get tool ''id'')) outs)"

definition chat_tools :: "jobj \<Rightarrow> json list" where
  "chat_tools message = array_of (get message ''tool_calls'')
     @ (if truthy (get message ''function_call'')
        then [JObj [(js ''function'', get message ''function_call'')]] else [])"

definition put_string :: "jstr \<Rightarrow> response_output_kind \<Rightarrow> bool \<Rightarrow> json \<Rightarrow> outputs \<Rightarrow> outputs" where
  "put_string key kind appended v outs =
     (case v of JStr s \<Rightarrow> put_text key kind s appended outs | _ \<Rightarrow> outs)"

definition chat_choice :: "number_text \<Rightarrow> nat \<Rightarrow> json \<Rightarrow> preview_state \<Rightarrow> preview_state" where
  "chat_choice fraction i v st =
     (let choice = object_of v;
          key = js ''choice:'' @ js_text fraction (or_else (get choice ''index'') (jint (int i)));
          delta = (\<not> is_nullish (get choice ''delta''));
          message = object_of (or_else (get choice ''delta'') (get choice ''message''));
          content = get message ''content'';
          reasoning = or_else (get message ''reasoning_content'') (get message ''reasoning'');
          outs = put_string (key @ js '':text'') OutText True (get choice ''text'') (pv_outputs st);
          outs = (if jstring content \<noteq> None then put_string (key @ js '':text'') OutText delta content outs
             else for_each (\<lambda>j block. contentBlock fraction (indexed_key key ''text'' (dec j)) block)
               (array_of content) outs);
          outs = put_string (key @ js '':refusal'') OutText delta (get message ''refusal'') outs;
          outs = put_string (key @ js '':reasoning'') OutReasoning delta reasoning outs;
          outs = for_each (chat_tool fraction key delta) (chat_tools message) outs in
      st\<lparr>pv_outputs := outs,
         pv_incomplete := (pv_incomplete st
           \<or> get choice ''finish_reason'' \<in> {js_str ''length'', js_str ''content_filter''})\<rparr>)"

text \<open>Anthropic messages, and what Gemini candidates hold.\<close>

definition anthropic_key :: "number_text \<Rightarrow> jobj \<Rightarrow> jstr" where
  "anthropic_key fraction data = js ''anthropic:'' @ js_text fraction (or_else (get data ''index'') (jint 0))"

definition anthropic_blocks :: "number_text \<Rightarrow> json list \<Rightarrow> outputs \<Rightarrow> outputs" where
  "anthropic_blocks fraction blocks =
     for_each (\<lambda>i block. contentBlock fraction (js ''anthropic:'' @ dec i) block) blocks"

definition anthropic_delta :: "jstr \<Rightarrow> jobj \<Rightarrow> outputs \<Rightarrow> outputs" where
  "anthropic_delta key delta outs =
     (if get delta ''type'' = js_str ''text_delta''
      then put_text key OutText (string_of (get delta ''text'')) True outs
      else if get delta ''type'' = js_str ''thinking_delta''
      then put_text key OutReasoning (string_of (get delta ''thinking'')) True outs
      else if get delta ''type'' = js_str ''input_json_delta''
      then
        (let started = (if map_option ro_text (map_of outs key) = Some (js ''{}'')
               then put_text key OutTool [] False outs else outs) in
         put_text key OutTool (string_of (get delta ''partial_json'')) True started)
      else outs)"

definition anthropic_event :: "number_text \<Rightarrow> jstr \<Rightarrow> jobj \<Rightarrow> outputs \<Rightarrow> outputs" where
  "anthropic_event fraction type data outs =
     (if type = js ''content_block_start''
      then contentBlock fraction (anthropic_key fraction data) (get data ''content_block'') outs
      else if type = js ''content_block_delta''
      then anthropic_delta (anthropic_key fraction data) (object_of (get data ''delta'')) outs
      else if type = js ''message_start''
      then anthropic_blocks fraction (array_of (get (object_of (get data ''message'')) ''content'')) outs
      else anthropic_blocks fraction (array_of (get data ''content'')) outs)"

definition gemini_part :: "number_text \<Rightarrow> jstr \<Rightarrow> nat \<Rightarrow> json \<Rightarrow> outputs \<Rightarrow> outputs" where
  "gemini_part fraction key j v outs =
     (let part = object_of v in
      case get part ''text'' of
        JStr s \<Rightarrow>
          if get part ''thought'' = JBool True
          then put_text (key @ js '':reasoning'') OutReasoning s True outs
          else put_text (key @ js '':text'') OutText s True outs
      | _ \<Rightarrow>
          if truthy (get part ''functionCall'')
          then
            (let call = object_of (get part ''functionCall'') in
             put_output (indexed_key key ''tool'' (dec (length outs))) OutTool
               (detail fraction (get call ''args'')) False (string_of (get call ''name'')) [] outs)
          else put_output (indexed_key key ''other'' (dec j)) OutOther (detail fraction (JObj part)) False
                 (js ''media'') [] outs)"

definition gemini_candidate :: "number_text \<Rightarrow> nat \<Rightarrow> json \<Rightarrow> preview_state \<Rightarrow> preview_state" where
  "gemini_candidate fraction i v st =
     (let candidate = object_of v;
          key = js ''gemini:'' @ js_text fraction (or_else (get candidate ''index'') (jint (int i))) in
      st\<lparr>pv_outputs := for_each (gemini_part fraction key)
           (array_of (get (object_of (get candidate ''content'')) ''parts'')) (pv_outputs st),
         pv_incomplete := (pv_incomplete st
           \<or> get candidate ''finishReason'' \<in> {js_str ''MAX_TOKENS'', js_str ''SAFETY''})\<rparr>)"

definition message_event :: "number_text \<Rightarrow> jstr \<Rightarrow> jobj \<Rightarrow> preview_state \<Rightarrow> preview_state" where
  "message_event fraction type data st =
     (let st1 = with_outputs (anthropic_event fraction type data) st;
          stop = or_else (get data ''stop_reason'') (get (object_of (get data ''delta'')) ''stop_reason'');
          st2 = st1\<lparr>pv_incomplete := (pv_incomplete st1 \<or> stop = js_str ''max_tokens'')\<rparr>;
          st3 = for_each (gemini_candidate fraction) (array_of (get data ''candidates'')) st2;
          blocked = string_of (get (object_of (get data ''promptFeedback'')) ''blockReason'') in
      if blocked \<noteq> [] then with_outputs (put_text (js ''error'') OutError blocked False) st3 else st3)"

definition consume :: "number_text \<Rightarrow> json \<Rightarrow> jstr \<Rightarrow> preview_state \<Rightarrow> preview_state" where
  "consume fraction v eventType st =
     (let data = object_of v;
          type = either_text (string_of (get data ''type'')) eventType;
          st1 = with_outputs (put_error (get data ''error'')) st;
          st2 = (if type = js ''error'' then with_outputs (put_error (JObj data)) st1 else st1) in
      if starts_with (js ''response.'') type then openai_response fraction type data st2
      else
        (case get data ''output'' of
           JArr items \<Rightarrow>
             (let st3 = for_each (\<lambda>i item. responseItem fraction (dec i) True item) items st2 in
              if get data ''status'' \<in> {js_str ''incomplete'', js_str ''failed''}
              then st3\<lparr>pv_incomplete := True\<rparr> else st3)
         | _ \<Rightarrow>
             (let st3 = with_outputs (put_string (js ''text'') OutText False (get data ''output_text'')) st2 in
              case get data ''choices'' of
                JArr choices \<Rightarrow> for_each (chat_choice fraction) choices st3
              | _ \<Rightarrow> message_event fraction type data st3)))"

section \<open>The preview\<close>

text \<open>
  Whether the signal is aborted is asked once more after every 500 events: \<open>stopped\<close> is what
  it says then.
\<close>

fun consume_events ::
  "number_text \<Rightarrow> (nat \<Rightarrow> bool) \<Rightarrow> nat \<Rightarrow> sse_event list \<Rightarrow> preview_state \<Rightarrow> js_error + preview_state"
where
  "consume_events fraction stopped i [] st = Inr st"
| "consume_events fraction stopped i (e # es) st =
     (let st' = (if is_nullish (sv_json e) then st else consume fraction (sv_json e) (sv_type e) st) in
      if i > 0 \<and> i mod 500 = 0 \<and> stopped i then Inl (Error (js ''This operation was aborted''))
      else consume_events fraction stopped (i + 1) es st')"

definition preview_of :: "preview_state \<Rightarrow> bool \<Rightarrow> response_preview" where
  "preview_of st unparsed =
     \<lparr>rp_outputs = filter (\<lambda>out. ro_text out \<noteq> [] \<or> ro_name out \<noteq> None) (map snd (pv_outputs st)),
      rp_incomplete = pv_incomplete st, rp_unparsed = unparsed\<rparr>"

definition parseResponsePreview ::
  "json_reader \<Rightarrow> number_text \<Rightarrow> (nat \<Rightarrow> bool) \<Rightarrow> (nat \<Rightarrow> bool) \<Rightarrow> content_part \<Rightarrow> js_error + response_preview"
where
  "parseResponsePreview parse fraction aborted stopped part =
     (let start = preview_start (cp_truncated part) in
      if isEventStream (cp_media_type part) (cp_content part)
      then
        bindE (parseSSEIncremental parse aborted (cp_truncated part) (cp_content part)) (\<lambda>(parsed, _).
        bindE (consume_events fraction stopped 0 (sr_events parsed)
                 (start\<lparr>pv_incomplete := (pv_incomplete start \<or> sr_incomplete_last parsed)\<rparr>)) (\<lambda>st.
        Inr (preview_of st (sr_invalid_json_count parsed > 0))))
      else
        (case parse (cp_content part) of
           Some (JArr vs) \<Rightarrow> Inr (preview_of (foldl (\<lambda>st v. consume fraction v [] st) start vs) False)
         | Some v \<Rightarrow> Inr (preview_of (consume fraction v [] start) False)
         | None \<Rightarrow>
             (let head = dropWhile js_space (cp_content part) in
              if starts_with (js ''text/plain'') (map ascii_lower (cp_media_type part))
                \<and> \<not> (head \<noteq> [] \<and> hd head \<in> {91, 123})
              then Inr (preview_of (with_outputs (put_text (js ''text'') OutText (cp_content part) False) start) False)
              else Inr (preview_of start True))))"

section \<open>Additions at fresh keys\<close>

text \<open>
  A step that only concerns the keys of a set appends its entries, whatever is there, when none
  of the keys is.
\<close>

definition appends_at :: "jstr set \<Rightarrow> (outputs \<Rightarrow> outputs) \<Rightarrow> bool" where
  "appends_at K f \<longleftrightarrow> fst ` set (f []) \<subseteq> K \<and> (\<forall>outs. fst ` set outs \<inter> K = {} \<longrightarrow> f outs = outs @ f [])"

lemma appends_at_id: "appends_at K (\<lambda>outs. outs)"
  by (simp add: appends_at_def)

lemma put_or_fresh: "k \<notin> fst ` set m \<Longrightarrow> put_or k new f m = m @ [(k, new)]"
  by (induction k new f m rule: put_or.induct) auto

lemma appends_at_set: "key \<in> K \<Longrightarrow> appends_at K (put_or key out f)"
  unfolding appends_at_def
proof (intro conjI allI impI)
  fix outs :: outputs
  assume "key \<in> K" and "fst ` set outs \<inter> K = {}"
  then have "key \<notin> fst ` set outs" by blast
  then show "put_or key out f outs = outs @ put_or key out f []" by (simp add: put_or_fresh)
qed simp

lemma appends_at_put: "key \<in> K \<Longrightarrow> appends_at K (put_output key kind text appended name id')"
  unfolding put_output_def by (rule appends_at_set)

lemma appends_at_if:
  "(c \<Longrightarrow> appends_at K f) \<Longrightarrow> (\<not> c \<Longrightarrow> appends_at K g) \<Longrightarrow> appends_at K (\<lambda>outs. if c then f outs else g outs)"
  by (cases c) simp_all

lemma appends_at_contentBlock: "key \<in> K \<Longrightarrow> appends_at K (contentBlock fraction key v)"
  unfolding contentBlock_def [abs_def] Let_def by (intro appends_at_if appends_at_put appends_at_id)

lemma appends_at_step: "appends_at K f \<Longrightarrow> fst ` set outs \<inter> K = {} \<Longrightarrow> f outs = outs @ f []"
  unfolding appends_at_def by blast

lemma appends_at_keys: "appends_at K f \<Longrightarrow> fst ` set (f []) \<subseteq> K"
  unfolding appends_at_def by blast

lemma appends_at_steps:
  assumes "\<And>i. i < length xs \<Longrightarrow> appends_at (K (n + i)) (f (n + i) (xs ! i))"
    and "\<And>i j. i \<noteq> j \<Longrightarrow> K i \<inter> K j = {}"
    and "fst ` set outs \<inter> \<Union> (K ` {n..<n + length xs}) = {}"
  shows "foldl (\<lambda>s (i, x). f i x s) outs (enumerate n xs) = outs @ concat (map (\<lambda>(i, x). f i x []) (enumerate n xs))"
  using assms
proof (induction xs arbitrary: n outs)
  case (Cons x xs)
  have x: "appends_at (K n) (f n x)" using Cons.prems(1) [of 0] by simp
  have "K n \<subseteq> \<Union> (K ` {n..<n + length (x # xs)})" by (rule UN_upper) simp
  with Cons.prems(3) have "fst ` set outs \<inter> K n = {}" by blast
  with x have step: "f n x outs = outs @ f n x []" by (rule appends_at_step)
  have keys: "fst ` set (f n x []) \<subseteq> K n" using x by (rule appends_at_keys)
  have "K n \<inter> K i = {}" if "i \<in> {Suc n..<Suc n + length xs}" for i
    by (rule Cons.prems(2)) (use that in auto)
  then have "K n \<inter> \<Union> (K ` {Suc n..<Suc n + length xs}) = {}" by blast
  moreover have "\<Union> (K ` {Suc n..<Suc n + length xs}) \<subseteq> \<Union> (K ` {n..<n + length (x # xs)})"
    by (rule UN_mono) auto
  ultimately have "fst ` set (outs @ f n x []) \<inter> \<Union> (K ` {Suc n..<Suc n + length xs}) = {}"
    using keys Cons.prems(3) unfolding set_append image_Un by blast
  then show ?case
    using Cons.IH [of "Suc n" "outs @ f n x []"] Cons.prems(1) [of "Suc _"] Cons.prems(2) by (simp add: step)
qed simp

lemma for_each_appends:
  assumes "\<And>i. i < length xs \<Longrightarrow> appends_at (K i) (f i (xs ! i))"
    and "\<And>i j. i \<noteq> j \<Longrightarrow> K i \<inter> K j = {}"
    and "fst ` set outs \<inter> \<Union> (K ` {..<length xs}) = {}"
  shows "for_each f xs outs = outs @ concat (map (\<lambda>(i, x). f i x []) (enumerate 0 xs))"
  unfolding for_each_def using assms by (intro appends_at_steps) (auto simp: lessThan_atLeast0)

lemma appends_at_for_each:
  assumes "\<And>i. i < length xs \<Longrightarrow> appends_at (K i) (f i (xs ! i))"
    and "\<And>i j. i \<noteq> j \<Longrightarrow> K i \<inter> K j = {}" and "\<And>i. K i \<subseteq> L"
  shows "appends_at L (for_each f xs)"
proof -
  note all = for_each_appends [where f = f and xs = xs and K = K, OF assms(1,2)]
  have "fst ` set (f i (xs ! i) []) \<subseteq> L" if "i < length xs" for i
    using appends_at_keys [OF assms(1) [OF that]] assms(3) [of i] by (rule order_trans)
  then have "fst ` set (concat (map (\<lambda>(i, x). f i x []) (enumerate 0 xs))) \<subseteq> L"
    by (fastforce simp: in_set_enumerate_eq)
  moreover have "for_each f xs outs = outs @ for_each f xs []" if "fst ` set outs \<inter> L = {}" for outs
  proof -
    have "\<Union> (K ` {..<length xs}) \<subseteq> L" using assms(3) by blast
    with that have "fst ` set outs \<inter> \<Union> (K ` {..<length xs}) = {}" by blast
    then show ?thesis using all [of outs] all [of "[]"] by simp
  qed
  moreover have "for_each f xs [] = concat (map (\<lambda>(i, x). f i x []) (enumerate 0 xs))"
    using all [of "[]"] by simp
  ultimately show ?thesis unfolding appends_at_def by metis
qed

text \<open>The keys of a slot: the slot's own, and those under it.\<close>

definition slot_keys :: "jstr \<Rightarrow> jstr set" where
  "slot_keys slot = {k. \<exists>rest. k = response_key slot @ rest \<and> (rest = [] \<or> hd rest = 58)}"

lemma slot_keys_intros [intro]:
  "response_key slot \<in> slot_keys slot" "response_key slot @ js '':tool'' \<in> slot_keys slot"
  "indexed_key (response_key slot) part i \<in> slot_keys slot"
  by (auto simp: slot_keys_def indexed_key_def js_def)

lemma indexed_key_inject [simp]: "indexed_key key part i = indexed_key key part j \<longleftrightarrow> i = j"
  by (simp add: indexed_key_def)

lemma dec_inject [simp]: "dec i = dec j \<longleftrightarrow> i = j"
  by (metis digits_value_dec)

lemma no_colon_dec: "58 \<notin> set (dec n)"
  using dec_digits [of 58 n] by (auto simp: is_digit_def)

lemma slot_keys_digits: "k \<in> slot_keys (dec i) \<Longrightarrow>
    starts_with (js ''response:'') k \<and> takeWhile (\<lambda>c. c \<noteq> 58) (drop 9 k) = dec i"
proof -
  assume "k \<in> slot_keys (dec i)"
  then obtain rest where k: "k = js ''response:'' @ dec i @ rest" "rest = [] \<or> hd rest = 58"
    by (auto simp: slot_keys_def response_key_def)
  have "takeWhile (\<lambda>c. c \<noteq> 58) (dec i @ rest) = dec i @ takeWhile (\<lambda>c. c \<noteq> 58) rest"
    using no_colon_dec [of i] by (intro takeWhile_append2) auto
  then show ?thesis using k by (cases rest) (auto simp: starts_with_def)
qed

lemma slot_keys_disjoint: "i \<noteq> j \<Longrightarrow> slot_keys (dec i) \<inter> slot_keys (dec j) = {}"
proof (rule ccontr)
  assume "i \<noteq> j" and "slot_keys (dec i) \<inter> slot_keys (dec j) \<noteq> {}"
  then obtain k where "k \<in> slot_keys (dec i)" "k \<in> slot_keys (dec j)" by blast
  then have "dec i = dec j" using slot_keys_digits by metis
  with \<open>i \<noteq> j\<close> show False by simp
qed

lemma appends_at_item: "appends_at (slot_keys slot) (item_outputs fraction streamed item slot True)"
proof -
  have each: "appends_at (slot_keys slot) (for_each f xs)"
    if "\<And>i x. appends_at {indexed_key (response_key slot) part (dec i)} (f i x)" for f and xs :: "'a list" and part
    by (rule appends_at_for_each [where K = "\<lambda>i. {indexed_key (response_key slot) part (dec i)}"])
      (use that in auto)
  show ?thesis
    unfolding item_outputs_def [abs_def] Let_def simp_thms if_True
    by (intro appends_at_if appends_at_put appends_at_id slot_keys_intros each appends_at_contentBlock appends_at_set) (rule singletonI)+
qed

section \<open>Snapshots\<close>

lemma responses_outputs:
  "pv_streamed (foldl (\<lambda>s (i, item). responseItem fraction (dec i) True item s) st (enumerate n items)) = pv_streamed st
   \<and> pv_outputs (foldl (\<lambda>s (i, item). responseItem fraction (dec i) True item s) st (enumerate n items))
     = foldl (\<lambda>s (i, item). item_outputs fraction (pv_streamed st) (object_of item) (dec i) True s)
         (pv_outputs st) (enumerate n items)"
  by (induction items arbitrary: n st) (simp_all add: responseItem_def Let_def)

lemma slot_keys_prefix: "k \<in> slot_keys slot \<Longrightarrow> starts_with (js ''response:'') k"
  by (auto simp: slot_keys_def response_key_def starts_with_def)

lemma removePrefix_keys: "fst ` set (removePrefix (js ''response:'') outs) \<inter> \<Union> (slot_keys ` S) = {}"
proof -
  have "\<not> starts_with (js ''response:'') k" if "k \<in> fst ` set (removePrefix (js ''response:'') outs)" for k
    using that by (auto simp: removePrefix_def)
  then show ?thesis using slot_keys_prefix by blast
qed

definition snapshot_outputs :: "number_text \<Rightarrow> (jstr \<times> response_output list) list \<Rightarrow> json list \<Rightarrow> outputs" where
  "snapshot_outputs fraction streamed items =
     concat (map (\<lambda>(i, item). item_outputs fraction streamed (object_of item) (dec i) True []) (enumerate 0 items))"

lemma take_snapshot_outputs:
  "pv_outputs (take_snapshot fraction items st)
   = removePrefix (js ''response:'') (pv_outputs st)
     @ snapshot_outputs fraction (gather_reasoning (pv_outputs st)) items"
proof -
  let ?old = "removePrefix (js ''response:'') (pv_outputs st)"
  let ?f = "\<lambda>i item. item_outputs fraction (gather_reasoning (pv_outputs st)) (object_of item) (dec i) True"
  have "for_each ?f items ?old = ?old @ concat (map (\<lambda>(i, x). ?f i x []) (enumerate 0 items))"
  proof (rule for_each_appends [where K = "\<lambda>i. slot_keys (dec i)"])
    show "fst ` set ?old \<inter> \<Union> ((\<lambda>i. slot_keys (dec i)) ` {..<length items}) = {}"
      using removePrefix_keys [of _ "dec ` {..<length items}"] by (simp add: image_image)
  qed (simp_all add: appends_at_item slot_keys_disjoint)
  then show ?thesis
    using responses_outputs [of fraction "st\<lparr>pv_streamed := gather_reasoning (pv_outputs st), pv_outputs := ?old\<rparr>" 0 items]
    by (simp add: take_snapshot_def Let_def for_each_def snapshot_outputs_def)
qed

lemma snapshot_keys: "fst ` set (snapshot_outputs fraction streamed items) \<subseteq> \<Union> (slot_keys ` range dec)"
proof -
  have "fst ` set (item_outputs fraction streamed (object_of item) (dec i) True []) \<subseteq> \<Union> (slot_keys ` range dec)" for item i
    using appends_at_keys [OF appends_at_item] by (rule order_trans) (rule UN_upper, simp)
  then have "\<Union> ((\<lambda>(i, item). fst ` set (item_outputs fraction streamed (object_of item) (dec i) True []))
      ` set (enumerate 0 items)) \<subseteq> \<Union> (slot_keys ` range dec)"
    by (intro UN_least) (simp only: split_beta)
  then show ?thesis by (simp add: snapshot_outputs_def image_UN split_beta)
qed

lemma removePrefix_snapshot [simp]:
  "removePrefix (js ''response:'') (snapshot_outputs fraction streamed items) = []"
proof -
  have "starts_with (js ''response:'') (fst x)" if "x \<in> set (snapshot_outputs fraction streamed items)" for x
    using snapshot_keys that slot_keys_prefix by blast
  then show ?thesis by (auto simp: removePrefix_def filter_empty_conv)
qed

lemma removePrefix_append: "removePrefix p (xs @ ys) = removePrefix p xs @ removePrefix p ys"
  by (simp add: removePrefix_def)

lemma removePrefix_again [simp]: "removePrefix p (removePrefix p xs) = removePrefix p xs"
  by (simp add: removePrefix_def)

section \<open>Reasoning that streamed\<close>

definition reasoned :: "jstr \<Rightarrow> jstr \<times> response_output \<Rightarrow> bool" where
  "reasoned slot = (\<lambda>(key, out). reasoning_slot key = Some slot \<and> ro_kind out = OutReasoning \<and> ro_text out \<noteq> [])"

lemma gather_reasoning_slot:
  "(case map_of (gather_reasoning outs) slot of None \<Rightarrow> [] | Some xs \<Rightarrow> xs) = map snd (filter (reasoned slot) outs)"
  unfolding gather_reasoning_def
proof (induction outs rule: rev_induct)
  case (snoc x xs)
  then show ?case
    by (cases x) (auto simp: reasoned_def map_of_upsert split: option.splits)
qed simp

lemma reasoning_slot_prefix: "reasoning_slot k = Some slot \<Longrightarrow> starts_with (js ''response:'') k"
  by (auto simp: reasoning_slot_def Let_def split: if_splits)

lemma takeWhile_digits_dec: "rest = [] \<or> hd rest = 58 \<Longrightarrow> takeWhile is_digit (dec i @ rest) = dec i"
  using dec_digits [of _ i]
  by (cases rest) (simp_all add: takeWhile_append2 takeWhile_eq_all_conv, simp add: is_digit_def)

lemma reasoning_slot_item: "k \<in> slot_keys (dec i) \<Longrightarrow> reasoning_slot k = Some slot \<Longrightarrow> slot = dec i"
proof -
  assume "k \<in> slot_keys (dec i)" and slot: "reasoning_slot k = Some slot"
  then obtain rest where k: "k = js ''response:'' @ dec i @ rest" "rest = [] \<or> hd rest = 58"
    by (auto simp: slot_keys_def response_key_def)
  have "takeWhile is_digit (drop 9 k) = dec i"
    using takeWhile_digits_dec [OF k(2)] by (simp add: k(1) js_def)
  then show ?thesis using slot by (auto simp: reasoning_slot_def Let_def split: if_splits)
qed

abbreviation taken :: "(jstr \<times> response_output list) list \<Rightarrow> jstr \<Rightarrow> response_output list" where
  "taken streamed slot \<equiv> case map_of streamed slot of None \<Rightarrow> [] | Some xs \<Rightarrow> xs"

lemma filter_enumerate_one:
  assumes "\<And>j x. j \<noteq> i \<Longrightarrow> filter P (g (j, x)) = []"
  shows "filter P (concat (map g (enumerate n xs)))
    = (if n \<le> i \<and> i < n + length xs then filter P (g (i, xs ! (i - n))) else [])"
proof (induction xs arbitrary: n)
  case (Cons x xs)
  have "filter P (concat (map g (enumerate (Suc n) xs))) = []" if "n = i" using Cons.IH [of "Suc n"] that by simp
  then show ?case using assms [of n x] Cons.IH [of "Suc n"] by (cases "n = i") (auto simp: Suc_diff_le nth_Cons')
qed auto

lemma reasoned_elsewhere:
  "j \<noteq> i \<Longrightarrow> filter (reasoned (dec i)) (item_outputs fraction streamed item (dec j) True []) = []"
proof -
  assume ij: "j \<noteq> i"
  have "k \<in> slot_keys (dec j)" if "(k, out) \<in> set (item_outputs fraction streamed item (dec j) True [])" for k out
    using appends_at_keys [OF appends_at_item] that by force
  then show ?thesis using ij reasoning_slot_item [of _ j "dec i"]
    by (fastforce simp: filter_empty_conv reasoned_def)
qed

lemma reasoned_snapshot:
  "i < length items \<Longrightarrow> filter (reasoned (dec i)) (snapshot_outputs fraction streamed items)
     = filter (reasoned (dec i)) (item_outputs fraction streamed (object_of (items ! i)) (dec i) True [])"
  unfolding snapshot_outputs_def by (subst filter_enumerate_one [where i = i]) (simp_all add: reasoned_elsewhere)

definition wordless :: "jobj \<Rightarrow> bool" where
  "wordless item \<longleftrightarrow> string_of (get item ''type'') = js ''reasoning'' \<and> reasoningTexts item = []"

lemma item_outputs_streamed:
  "(wordless item \<Longrightarrow> taken s slot = taken s' slot)
   \<Longrightarrow> item_outputs fraction s item slot snapshot outs = item_outputs fraction s' item slot snapshot outs"
  by (cases "wordless item") (auto simp: item_outputs_def wordless_def Let_def)

lemma wordless_outputs:
  assumes "wordless item"
  shows "item_outputs fraction streamed item slot True []
    = map (\<lambda>(i, out). (indexed_key (response_key slot) ''reasoning'' (dec i), out)) (enumerate 0 (taken streamed slot))"
proof -
  let ?K = "\<lambda>i. {indexed_key (response_key slot) ''reasoning'' (dec i)}"
  have "for_each (\<lambda>i out. put_or (indexed_key (response_key slot) ''reasoning'' (dec i)) out (\<lambda>_. out)) xs []
    = [] @ concat (map (\<lambda>(i, out). put_or (indexed_key (response_key slot) ''reasoning'' (dec i)) out (\<lambda>_. out) [])
        (enumerate 0 xs))" for xs :: "response_output list"
    by (rule for_each_appends [where K = ?K]) (simp_all add: appends_at_set)
  then show ?thesis
    using assms by (simp add: item_outputs_def wordless_def Let_def js_def concat_map_singleton split_beta')
qed

lemma reasoned_indexed [simp]:
  "reasoned (dec i) (indexed_key (response_key (dec i)) ''reasoning'' (dec j), out)
   \<longleftrightarrow> ro_kind out = OutReasoning \<and> ro_text out \<noteq> []"
proof -
  let ?k = "indexed_key (response_key (dec i)) ''reasoning'' (dec j)"
  have "?k = js ''response:'' @ dec i @ js '':reasoning:'' @ dec j"
    by (simp add: indexed_key_def response_key_def js_def)
  moreover have "dec i \<noteq> []" by simp
  moreover have "takeWhile is_digit (dec i @ js '':reasoning:'' @ dec j) = dec i"
    by (rule takeWhile_digits_dec) (simp add: js_def)
  moreover have "dropWhile is_digit (dec i @ js '':reasoning:'' @ dec j) = js '':reasoning:'' @ dec j"
    using dec_digits [of _ i] by (simp add: dropWhile_append2 is_digit_def js_def)
  ultimately have "reasoning_slot ?k = Some (dec i)"
    by (simp add: reasoning_slot_def starts_with_def js_def)
  then show ?thesis by (simp add: reasoned_def)
qed

lemma gathered_reasoned: "out \<in> set (taken (gather_reasoning outs) slot) \<Longrightarrow> ro_kind out = OutReasoning \<and> ro_text out \<noteq> []"
  by (auto simp: gather_reasoning_slot reasoned_def)

lemma reasoned_removed: "filter (reasoned slot) (removePrefix (js ''response:'') outs) = []"
  using reasoning_slot_prefix by (auto simp: filter_empty_conv removePrefix_def reasoned_def)

lemma snapshot_gathers:
  assumes "i < length items" and "wordless (object_of (items ! i))"
  shows "taken (gather_reasoning (removePrefix (js ''response:'') old
      @ snapshot_outputs fraction (gather_reasoning outs) items)) (dec i)
    = taken (gather_reasoning outs) (dec i)"
proof -
  have all: "filter (reasoned (dec i)) (map (\<lambda>(j, out). (indexed_key (response_key (dec i)) ''reasoning'' (dec j), out))
      (enumerate n xs)) = map (\<lambda>(j, out). (indexed_key (response_key (dec i)) ''reasoning'' (dec j), out)) (enumerate n xs)"
    if "\<And>out. out \<in> set xs \<Longrightarrow> ro_kind out = OutReasoning \<and> ro_text out \<noteq> []" for n xs
    by (rule filter_True) (use that in \<open>auto simp: in_set_enumerate_eq\<close>)
  have snd: "map snd (map (\<lambda>(j, out). (indexed_key (response_key (dec i)) ''reasoning'' (dec j), out)) (enumerate n xs)) = xs"
    for n and xs :: "response_output list"
    by (induction xs arbitrary: n) simp_all
  show ?thesis
    unfolding gather_reasoning_slot [of "_ @ _"]
    by (simp only: filter_append map_append reasoned_removed reasoned_snapshot [OF assms(1)] wordless_outputs [OF assms(2)]
        all [OF gathered_reasoned] snd list.map append_Nil)
qed

lemma take_snapshot_again:
  "pv_outputs (take_snapshot fraction items (take_snapshot fraction items st)) = pv_outputs (take_snapshot fraction items st)"
proof -
  let ?s = "gather_reasoning (pv_outputs st)"
  let ?s' = "gather_reasoning (pv_outputs (take_snapshot fraction items st))"
  have "item_outputs fraction ?s' (object_of item) (dec i) True [] = item_outputs fraction ?s (object_of item) (dec i) True []"
    if "(i, item) \<in> set (enumerate 0 items)" for i item
    using that snapshot_gathers [of i items "pv_outputs st" fraction "pv_outputs st"]
    by (intro item_outputs_streamed) (simp add: take_snapshot_outputs in_set_enumerate_eq)
  then have "snapshot_outputs fraction ?s' items = snapshot_outputs fraction ?s items"
    unfolding snapshot_outputs_def by (intro arg_cong [where f = concat] map_cong refl) auto
  then show ?thesis
    unfolding take_snapshot_outputs [of _ _ "take_snapshot _ _ _"]
    by (simp add: take_snapshot_outputs [of _ _ st] removePrefix_append)
qed

section \<open>A terminal event\<close>

lemma put_error_none: "is_nullish v \<Longrightarrow> put_error v outs = outs"
  by (auto simp: put_error_def is_nullish_def object_of_def string_of_def either_text_def field_def field_at_def js_str_def)

definition completes :: "jobj \<Rightarrow> json list \<Rightarrow> bool" where
  "completes data items \<longleftrightarrow>
     get data ''type'' = js_str ''response.completed'' \<and> is_nullish (get data ''error'')
     \<and> is_nullish (get (object_of (get data ''response'')) ''error'')
     \<and> get (object_of (get data ''response'')) ''output'' = JArr items \<and> items \<noteq> []"

lemma completed_event_names:
  "response_event fraction (js ''response.completed'') data st = st"
  by (simp add: response_event_def Let_def text_event_def tool_event_def reasoning_event_def js_def starts_with_def)

lemma consume_completed:
  assumes "completes data items"
  shows "consume fraction (JObj data) eventType st = take_snapshot fraction items st"
proof -
  have "string_of (get data ''type'') = js ''response.completed''" 
    using assms by (simp add: completes_def string_of_def js_str_def)
  moreover have "js ''response.completed'' \<noteq> js ''error''" "js ''response.completed'' \<noteq> js ''response.failed''"
    "js ''response.completed'' \<noteq> js ''response.incomplete''" "js ''response.completed'' \<noteq> []"
    by simp_all
  moreover have "starts_with (js ''response.'') (js ''response.completed'')" by (simp add: js_def starts_with_def)
  ultimately show ?thesis
    using assms by (simp add: completes_def consume_def openai_response_def object_of_def [of "JObj _"] Let_def either_text_def
        put_error_none with_outputs_def array_of_def completed_event_names)
qed

section \<open>Deltas\<close>

lemma map_of_put_or:
  "map_of (put_or k new f m) i = (if i = k then Some (case map_of m k of None \<Rightarrow> new | Some v \<Rightarrow> f v) else map_of m i)"
  by (induction k new f m rule: put_or.induct) auto

text \<open>What a chat completion says in one piece: its text, refusal and reasoning, each perhaps absent.\<close>

record chat_piece =
  pc_content :: "jstr option"
  pc_refusal :: "jstr option"
  pc_reasoning :: "jstr option"

definition optional_text :: "jstr option \<Rightarrow> json" where
  "optional_text t = (case t of None \<Rightarrow> JUndef | Some s \<Rightarrow> JStr s)"

definition chat_message :: "chat_piece \<Rightarrow> json" where
  "chat_message p = JObj [(js ''content'', optional_text (pc_content p)), (js ''refusal'', optional_text (pc_refusal p)),
     (js ''reasoning_content'', optional_text (pc_reasoning p))]"

definition chat_body :: "string \<Rightarrow> chat_piece \<Rightarrow> json" where
  "chat_body part p = JObj [(js ''choices'', JArr [JObj [(js part, chat_message p)]])]"

definition joined :: "('a \<Rightarrow> jstr option) \<Rightarrow> 'a list \<Rightarrow> jstr option" where
  "joined part ps = (if \<forall>p \<in> set ps. part p = None then None else Some (concat (map (\<lambda>p. case part p of None \<Rightarrow> [] | Some t \<Rightarrow> t) ps)))"

definition whole :: "chat_piece list \<Rightarrow> chat_piece" where
  "whole ps = \<lparr>pc_content = joined pc_content ps, pc_refusal = joined pc_refusal ps, pc_reasoning = joined pc_reasoning ps\<rparr>"

lemma js_names [simp]: "js a = js b \<longleftrightarrow> a = b"
  using js_str_inject [of a b] by (simp add: js_str_def)

lemma consume_chat:
  assumes "part = ''delta'' \<or> part = ''message''"
  shows "consume fraction (chat_body part p) [] st = chat_choice fraction 0 (JObj [(js part, chat_message p)]) st"
  using assms by (auto simp: consume_def chat_body_def Let_def object_of_def string_of_def field_def field_at_def either_text_def
    put_error_none is_nullish_def with_outputs_def put_string_def for_each_def starts_with_def js_def)
  
lemma chat_message_fields:
  "get (object_of (chat_message p)) ''content'' = optional_text (pc_content p)"
  "get (object_of (chat_message p)) ''refusal'' = optional_text (pc_refusal p)"
  "or_else (get (object_of (chat_message p)) ''reasoning_content'') (get (object_of (chat_message p)) ''reasoning'')
   = optional_text (pc_reasoning p)"
  "chat_tools (object_of (chat_message p)) = []"
  by (simp_all add: chat_message_def object_of_def field_def field_at_def or_else_def is_nullish_def chat_tools_def
      array_of_def optional_text_def split: option.splits)

lemma optional_text_simps:
  "jstring (optional_text t) = t" "array_of (optional_text t) = []"
  "put_string key kind d (optional_text None) outs = outs" "optional_text (Some u) = JStr u" "optional_text None = JUndef"
  by (auto simp: optional_text_def array_of_def put_string_def jstring_def split: option.splits)

lemma chat_choice_outputs:
  assumes "part = ''delta'' \<or> part = ''message''"
  shows "pv_outputs (chat_choice fraction 0 (JObj [(js part, chat_message p)]) st)
    = put_string (js ''choice:0:reasoning'') OutReasoning (part = ''delta'') (optional_text (pc_reasoning p))
       (put_string (js ''choice:0:refusal'') OutText (part = ''delta'') (optional_text (pc_refusal p))
         (put_string (js ''choice:0:text'') OutText (part = ''delta'') (optional_text (pc_content p)) (pv_outputs st)))"
proof -
  let ?choice = "object_of (JObj [(js part, chat_message p)])"
  have key: "js_text fraction (or_else (get ?choice ''index'') (jint 0)) = js ''0''"
    using assms by (auto simp: or_else_def is_nullish_def jint_def num_text_def is_integer_def js_def dec.simps [of 0]
        object_of_def field_def field_at_def)
  have message: "or_else (get ?choice ''delta'') (get ?choice ''message'') = chat_message p"
    "is_nullish (get ?choice ''delta'') \<longleftrightarrow> part \<noteq> ''delta''" "get ?choice ''text'' = optional_text None"
    using assms by (auto simp: or_else_def is_nullish_def object_of_def field_def field_at_def chat_message_def optional_text_def)
  have keys: "js ''choice:'' @ js ''0'' @ js '':text'' = js ''choice:0:text''"
    "js ''choice:'' @ js ''0'' @ js '':refusal'' = js ''choice:0:refusal''"
    "js ''choice:'' @ js ''0'' @ js '':reasoning'' = js ''choice:0:reasoning''" by (simp_all add: js_def)
  show ?thesis
    by (cases "pc_content p") (simp_all add: chat_choice_def Let_def key keys message chat_message_fields optional_text_simps
        array_of_def put_string_def [of _ _ _ JUndef] for_each_def)
qed

definition say :: "response_output_kind \<Rightarrow> bool \<Rightarrow> jstr option \<Rightarrow> response_output option \<Rightarrow> response_output option" where
  "say kind appended t previous =
     (case t of None \<Rightarrow> previous
      | Some s \<Rightarrow> Some (case previous of None \<Rightarrow> \<lparr>ro_kind = kind, ro_text = s, ro_name = None, ro_id = None\<rparr>
          | Some p \<Rightarrow> p\<lparr>ro_kind := kind, ro_text := (if appended then ro_text p @ s else s)\<rparr>))"

lemma map_of_put_string:
  "map_of (put_string key kind appended (optional_text t) outs) i
   = (if i = key then say kind appended t (map_of outs i) else map_of outs i)"
  by (auto simp: say_def put_string_def optional_text_def put_output_def map_of_put_or nonempty_text_def or_previous_def
      split: option.splits)

definition output_saying :: "response_output_kind \<Rightarrow> jstr option \<Rightarrow> response_output option" where
  "output_saying kind t = map_option (\<lambda>s. \<lparr>ro_kind = kind, ro_text = s, ro_name = None, ro_id = None\<rparr>) t"

lemma say_saying [simp]:
  "say kind appended t None = output_saying kind t"
  "say kind True t (output_saying kind s) = output_saying kind (case t of None \<Rightarrow> s | Some u \<Rightarrow> Some ((case s of None \<Rightarrow> [] | Some v \<Rightarrow> v) @ u))"
  by (auto simp: say_def output_saying_def split: option.splits)

definition piece_outputs :: "chat_piece \<Rightarrow> jstr \<Rightarrow> response_output option" where
  "piece_outputs p key =
     (if key = js ''choice:0:text'' then output_saying OutText (pc_content p)
      else if key = js ''choice:0:refusal'' then output_saying OutText (pc_refusal p)
      else if key = js ''choice:0:reasoning'' then output_saying OutReasoning (pc_reasoning p) else None)"

lemma joined_simps [simp]:
  "joined part [] = None"
  "joined part (ps @ [p]) = (case part p of None \<Rightarrow> joined part ps
     | Some t \<Rightarrow> Some ((case joined part ps of None \<Rightarrow> [] | Some s \<Rightarrow> s) @ t))"
  by (auto simp: joined_def split: option.splits)

lemma deltas_joined:
  "map_of (pv_outputs (foldl (\<lambda>st p. consume fraction (chat_body ''delta'' p) [] st) (preview_start truncated) ps))
   = piece_outputs (whole ps)"
proof (induction ps rule: rev_induct)
  case Nil
  show ?case by (auto simp: preview_start_def piece_outputs_def whole_def output_saying_def)
next
  case (snoc p ps)
  let ?st = "foldl (\<lambda>st p. consume fraction (chat_body ''delta'' p) [] st) (preview_start truncated) ps"
  have "map_of (pv_outputs (consume fraction (chat_body ''delta'' p) [] ?st)) key = piece_outputs (whole (ps @ [p])) key" for key
    by (simp add: consume_chat [of _ _ _ ?st] chat_choice_outputs map_of_put_string snoc.IH)
      (simp add: piece_outputs_def whole_def)
  then show ?case by (simp add: fun_eq_iff)
qed

lemma message_whole:
  "map_of (pv_outputs (consume fraction (chat_body ''message'' p) [] (preview_start truncated))) = piece_outputs p"
  by (auto simp: fun_eq_iff consume_chat chat_choice_outputs map_of_put_string piece_outputs_def preview_start_def)

section \<open>Properties\<close>

text \<open>
  What streamed as the reasoning of an item: the outputs that are reasoning with a text, under the
  item's reasoning key or a part of it. Kept, they are numbered from 0 in the order they have.
\<close>

definition streamed_reasoning :: "jstr \<Rightarrow> jstr \<times> response_output \<Rightarrow> bool" where
  "streamed_reasoning slot entry \<longleftrightarrow>
     (let own = response_key slot @ js '':reasoning'' in
      (fst entry = own \<or> starts_with (own @ js '':'') (fst entry))
      \<and> ro_kind (snd entry) = OutReasoning \<and> ro_text (snd entry) \<noteq> [])"

definition kept_reasoning :: "jstr \<Rightarrow> outputs \<Rightarrow> outputs" where
  "kept_reasoning slot outs =
     map (\<lambda>(i, out). (indexed_key (response_key slot) ''reasoning'' (dec i), out))
       (enumerate 0 (map snd (filter (streamed_reasoning slot) outs)))"

lemma starts_with_iff: "starts_with p s \<longleftrightarrow> (\<exists>r. s = p @ r)"
  by (metis starts_with_def append_eq_conv_conj)

lemma reasoning_slot_iff:
  "reasoning_slot key = Some (dec i) \<longleftrightarrow>
     key = js ''response:'' @ dec i @ js '':reasoning'' \<or> starts_with (js ''response:'' @ dec i @ js '':reasoning:'') key"
proof
  assume slot: "reasoning_slot key = Some (dec i)"
  then obtain rest where key: "key = js ''response:'' @ rest" and at: "takeWhile is_digit rest = dec i"
    and tail: "dropWhile is_digit rest = js '':reasoning'' \<or> starts_with (js '':reasoning:'') (dropWhile is_digit rest)"
    by (auto simp: reasoning_slot_def Let_def starts_with_iff js_def split: if_splits)
  have "rest = dec i @ dropWhile is_digit rest" using at by (metis takeWhile_dropWhile_id)
  then show "key = js ''response:'' @ dec i @ js '':reasoning'' \<or> starts_with (js ''response:'' @ dec i @ js '':reasoning:'') key"
    using tail unfolding key by (auto simp: starts_with_iff)
next
  assume "key = js ''response:'' @ dec i @ js '':reasoning'' \<or> starts_with (js ''response:'' @ dec i @ js '':reasoning:'') key"
  then obtain tail where key: "key = js ''response:'' @ dec i @ tail"
    and tail: "tail = js '':reasoning'' \<or> starts_with (js '':reasoning:'') tail"
    by (auto simp: starts_with_iff)
  then have "tail \<noteq> []" "hd tail = 58" by (auto simp: js_def starts_with_iff)
  then have "takeWhile is_digit (dec i @ tail) = dec i" "dropWhile is_digit (dec i @ tail) = tail"
    using takeWhile_digits_dec [of tail i] by (auto, metis takeWhile_dropWhile_id same_append_eq)
  then show "reasoning_slot key = Some (dec i)"
    using tail by (simp add: reasoning_slot_def key starts_with_def js_def Let_def)
qed

lemma streamed_reasoning_iff: "streamed_reasoning (dec i) = reasoned (dec i)"
  by (rule ext) (auto simp: streamed_reasoning_def reasoned_def reasoning_slot_iff response_key_def js_def)

text \<open>
  C13: a completed response is authoritative: every output that streamed under a response's keys gives
  way to those of its items, in their order, and the outputs under other keys stay. An item of
  reasoning without text is given the reasoning that streamed for it, and nothing else; every other item
  is shown from its own content alone, whatever streamed.
\<close>

theorem snapshot_authoritative:
  assumes "completes data items"
  shows "pv_outputs (consume fraction (JObj data) eventType st)
    = removePrefix (js ''response:'') (pv_outputs st)
      @ concat (map (\<lambda>(i, item).
          if string_of (get (object_of item) ''type'') = js ''reasoning'' \<and> reasoningTexts (object_of item) = []
          then kept_reasoning (dec i) (pv_outputs st)
          else item_outputs fraction [] (object_of item) (dec i) True []) (enumerate 0 items))"
proof -
  have "item_outputs fraction (gather_reasoning (pv_outputs st)) item (dec i) True []
      = (if wordless item then kept_reasoning (dec i) (pv_outputs st) else item_outputs fraction [] item (dec i) True [])"
    for i item
    using wordless_outputs [of item fraction "gather_reasoning (pv_outputs st)" "dec i"]
      item_outputs_streamed [of item "gather_reasoning (pv_outputs st)" "dec i" "[]" fraction True "[]"]
    by (cases "wordless item") (simp_all add: kept_reasoning_def streamed_reasoning_iff gather_reasoning_slot)
  then show ?thesis
    by (simp only: consume_completed [OF assms] take_snapshot_outputs snapshot_outputs_def wordless_def)
qed

definition completed_message :: jobj where
  "completed_message = [(js ''type'', js_str ''response.completed''),
     (js ''response'', JObj [(js ''output'', JArr [JObj [(js ''type'', js_str ''reasoning'')]])])]"

lemma completed_message: "completes completed_message [JObj [(js ''type'', js_str ''reasoning'')]]"
  by (simp add: completes_def completed_message_def object_of_def field_def field_at_def is_nullish_def)

text \<open>Beside an output of its own, a draft of an item the response does not have, and its reasoning.\<close>

definition streamed_so_far :: outputs where
  "streamed_so_far =
     (let said = (\<lambda>kind s. \<lparr>ro_kind = kind, ro_text = js s, ro_name = None, ro_id = None\<rparr>) in
      [(js ''text'', said OutText ''kept''), (js ''response:7:text:0'', said OutText ''draft''),
       (js ''response:0:reasoning:2'', said OutReasoning ''thought'')])"

theorem snapshot_authoritative_witness:
  "pv_outputs (consume (\<lambda>_. []) (JObj completed_message) [] (with_outputs (\<lambda>_. streamed_so_far) (preview_start False)))
   = [(js ''text'', \<lparr>ro_kind = OutText, ro_text = js ''kept'', ro_name = None, ro_id = None\<rparr>),
      (js ''response:0:reasoning:0'', \<lparr>ro_kind = OutReasoning, ro_text = js ''thought'', ro_name = None, ro_id = None\<rparr>)]"
proof -
  have "dec 0 = [48]" by (simp add: dec.simps [of 0])
  then show ?thesis
    using snapshot_authoritative [OF completed_message, of "\<lambda>_. []" "[]" "with_outputs (\<lambda>_. streamed_so_far) (preview_start False)"]
    by (simp add: with_outputs_def preview_start_def streamed_so_far_def Let_def removePrefix_def starts_with_def object_of_def
        field_def field_at_def reasoningTexts_def string_of_def array_of_def js_str_def kept_reasoning_def
        streamed_reasoning_def response_key_def indexed_key_def js_def trim_def)
qed

text \<open>
  A completed response that arrives twice leaves the outputs as it left them once.
\<close>

theorem snapshot_repeats:
  assumes "completes data items"
  shows "pv_outputs (consume fraction (JObj data) eventType (consume fraction (JObj data) eventType st))
    = pv_outputs (consume fraction (JObj data) eventType st)"
  by (simp only: consume_completed [OF assms] take_snapshot_again)

theorem snapshot_repeats_witness:
  "pv_outputs (consume (\<lambda>_. []) (JObj completed_message) [] (consume (\<lambda>_. []) (JObj completed_message) [] (preview_start True)))
    = pv_outputs (consume (\<lambda>_. []) (JObj completed_message) [] (preview_start True))"
  by (rule snapshot_repeats [OF completed_message])

text \<open>
  C14: a chat completion that streams its text, refusal and reasoning as deltas, in pieces of any
  size, gives every key the output the whole message gives it.
\<close>

theorem stream_as_whole:
  "map_of (pv_outputs (foldl (\<lambda>st p. consume fraction (chat_body ''delta'' p) [] st) (preview_start truncated) ps))
   = map_of (pv_outputs (consume fraction (chat_body ''message'' (whole ps)) [] (preview_start truncated)))"
  by (simp only: deltas_joined message_whole)

end
