(* ===== verification/File_Paths.thy ===== *)
theory File_Paths
  imports Patterns
begin

text \<open>
  Absolute file paths in a user's text, \<open>file-path-spans.ts\<close>: the text is split into plain
  spans and paths, and a title names each path by its file. A text is its UTF-16 units.
\<close>

record file_path_span =
  fp_text :: jstr
  fp_file :: "jstr option"

definition EXTENSION_LIMIT :: nat where "EXTENSION_LIMIT = 10"

definition char_at :: "jstr \<Rightarrow> nat \<Rightarrow> nat option" where
  "char_at text i = (if i < length text then Some (text ! i) else None)"

definition slice :: "jstr \<Rightarrow> nat \<Rightarrow> nat \<Rightarrow> jstr" where
  "slice text start end' = take (end' - start) (drop start text)"

definition ascii_letter :: "nat \<Rightarrow> bool" where
  "ascii_letter c \<longleftrightarrow> is_lower c \<or> is_upper c"

definition START_BLOCKERS :: "nat \<Rightarrow> bool" where
  "START_BLOCKERS c \<longleftrightarrow> is_alnum c \<or> c \<in> set (92 # js ''_.~/-'')"

text \<open>Shell and markup delimiters, and the punctuation of CJK prose.\<close>

definition SEGMENT_BREAKS :: "nat list" where
  "SEGMENT_BREAKS =
     js '':*?'' @ [34, 39, 96] @ js ''<>|,;''
     @ [65292, 12290, 65311, 65281, 65306, 65307, 12289, 65288, 65289, 12304, 12305, 12300, 12301, 12302,
        12303, 12298, 12299, 8220, 8221, 8216, 8217]"

definition isAsciiAlnum :: "nat option \<Rightarrow> bool" where
  "isAsciiAlnum c = (case c of None \<Rightarrow> False | Some x \<Rightarrow> is_alnum x)"

text \<open>
  The letters and digits that end the segment, the dot before them, and a name before the
  dot.
\<close>

definition extensionEndsAt :: "jstr \<Rightarrow> nat \<Rightarrow> nat \<Rightarrow> bool" where
  "extensionEndsAt text start end' =
     (let back = rev (slice text start end'); letters = takeWhile is_alnum back in
      case dropWhile is_alnum back of
        dot # c # name \<Rightarrow>
          dot = 46 \<and> list_ex ascii_letter letters \<and> 1 \<le> length letters \<and> length letters \<le> EXTENSION_LIMIT
      | _ \<Rightarrow> False)"

section \<open>The path at a place\<close>

text \<open>
  Where a segment that starts at \<open>index\<close> ends, and whether it ends glued to CJK prose. Under
  a POSIX root a backslash takes the next unit with it, but not a line feed.
\<close>

function scan_segment :: "bool \<Rightarrow> jstr \<Rightarrow> nat \<Rightarrow> nat \<Rightarrow> nat \<times> bool" where
  "scan_segment windows text index' cursor =
     (if cursor \<ge> length text then (cursor, False)
      else
        (let c = text ! cursor in
         if \<not> windows \<and> c = 92 \<and> cursor + 1 < length text \<and> text ! (cursor + 1) \<noteq> 10
         then scan_segment windows text index' (cursor + 2)
         else if js_space c \<or> c = 47 \<or> c = 92 \<or> c \<in> set SEGMENT_BREAKS then (cursor, False)
         else if c > 127 \<and> extensionEndsAt text index' cursor then (cursor, True)
         else scan_segment windows text index' (cursor + 1)))"
  by pat_completeness auto
termination by (relation "measure (\<lambda>(_, text, _, cursor). length text - cursor)") auto

declare scan_segment.simps [simp del]

lemma scan_segment_bounds:
  "cursor \<le> length text \<Longrightarrow> cursor \<le> fst (scan_segment windows text index' cursor)
     \<and> fst (scan_segment windows text index' cursor) \<le> length text"
proof (induction windows "text" index' cursor rule: scan_segment.induct)
  case (1 windows "text" index' cursor)
  show ?case
    using 1 by (subst (1 2) scan_segment.simps) (auto simp: Let_def)
qed

record segments_read =
  sg_count :: nat
  sg_start :: nat
  sg_end :: nat

function read_segments :: "bool \<Rightarrow> jstr \<Rightarrow> nat \<Rightarrow> segments_read \<Rightarrow> segments_read" where
  "read_segments windows text index' st =
     (let (cursor, glued) = scan_segment windows text index' index' in
      if cursor \<le> index' then st
      else
        (let st' = \<lparr>sg_count = sg_count st + 1, sg_start = index', sg_end = cursor\<rparr> in
         if glued then st'
         else if char_at text cursor = Some 47 \<or> windows \<and> char_at text cursor = Some 92
         then read_segments windows text (cursor + 1) st'
         else st'))"
  by pat_completeness auto
termination
  by (relation "measure (\<lambda>(_, text, index', _). length text - index')") (auto simp: char_at_def split: if_splits)

declare read_segments.simps [simp del]

text \<open>Trailing text such as \<open>:12\<close> is not the file's: the last end with an extension.\<close>

fun name_end :: "jstr \<Rightarrow> nat \<Rightarrow> nat \<Rightarrow> nat \<Rightarrow> nat" where
  "name_end text start full 0 = 0"
| "name_end text start full (Suc e) =
     (if Suc e > start \<and> \<not> (extensionEndsAt text start (Suc e) \<and> (Suc e = full \<or> \<not> isAsciiAlnum (char_at text (Suc e))))
      then name_end text start full e else Suc e)"

definition line_terminator :: "nat \<Rightarrow> bool" where
  "line_terminator c \<longleftrightarrow> c \<in> {10, 13, 8232, 8233}"

text \<open>\<open>raw.replace(/\\(.)/g, "$1")\<close>.\<close>

fun unescape_name :: "jstr \<Rightarrow> jstr" where
  "unescape_name (c # d # s) =
     (if c = 92 \<and> \<not> line_terminator d then d # unescape_name s else c # unescape_name (d # s))"
| "unescape_name s = s"

text \<open>Where the first segment starts, how many there must be, and whether the root is a drive.\<close>

definition path_root :: "jstr \<Rightarrow> nat \<Rightarrow> (nat \<times> nat \<times> bool) option" where
  "path_root text start =
     (let c = char_at text start; d = char_at text (start + 1); e = char_at text (start + 2) in
      if (case c of None \<Rightarrow> False | Some x \<Rightarrow> ascii_letter x) \<and> d = Some 58 \<and> (e = Some 92 \<or> e = Some 47)
      then Some (start + 3, 1, True)
      else if c = Some 126 \<and> d = Some 47 then Some (start + 2, 1, False)
      else if c = Some 47 then Some (start + 1, 2, False)
      else None)"

record path_found =
  pf_end :: nat
  pf_name :: jstr

definition pathAt :: "jstr \<Rightarrow> nat \<Rightarrow> bool \<Rightarrow> path_found option" where
  "pathAt text start clipped =
     (case path_root text start of
        None \<Rightarrow> None
      | Some (index', minSegments, windows) \<Rightarrow>
          (let st = read_segments windows text index' \<lparr>sg_count = 0, sg_start = index', sg_end = index'\<rparr>;
               found = (\<lambda>end'. let raw = slice text (sg_start st) end' in
                 Some \<lparr>pf_end = end', pf_name = (if windows then raw else unescape_name raw)\<rparr>);
               end' = name_end text (sg_start st) (sg_end st) (sg_end st) in
           if sg_count st < minSegments then None
           else if end' \<noteq> sg_start st then found end'
           else if \<not> clipped \<or> sg_end st \<noteq> length text \<or> \<not> ends_with [8230] text then None
           else if sg_end st - 1 = sg_start st then None
           else found (sg_end st - 1)))"

lemma name_end_bounds: "start \<le> e \<Longrightarrow> start \<le> name_end text start full e \<and> name_end text start full e \<le> e"
  by (induction e) (auto simp: le_Suc_eq)

definition segments_ok :: "jstr \<Rightarrow> nat \<Rightarrow> segments_read \<Rightarrow> bool" where
  "segments_ok text origin st \<longleftrightarrow> origin \<le> sg_start st \<and> sg_start st \<le> sg_end st \<and> sg_end st \<le> length text
     \<and> (sg_count st > 0 \<longrightarrow> sg_start st < sg_end st)"

lemma read_segments_ok:
  "segments_ok text origin st \<Longrightarrow> origin \<le> index' \<Longrightarrow> index' \<le> length text \<Longrightarrow>
     segments_ok text origin (read_segments windows text index' st)"
proof (induction windows "text" index' st rule: read_segments.induct)
  case (1 windows "text" index' st)
  let ?seg = "scan_segment windows text index' index'"
  have bounds: "index' \<le> fst ?seg" "fst ?seg \<le> length text"
    using scan_segment_bounds [of index' "text" windows index'] "1.prems" by auto
  let ?st = "\<lparr>sg_count = sg_count st + 1, sg_start = index', sg_end = fst ?seg\<rparr>"
  have next_ok: "segments_ok text origin ?st" if "\<not> fst ?seg \<le> index'"
    using that bounds "1.prems" by (simp add: segments_ok_def)
  have more: "fst ?seg + 1 \<le> length text" if "char_at text (fst ?seg) = Some c" for c
    using that by (simp add: char_at_def split: if_splits)
  show ?case
    using "1.IH" [OF refl prod.collapse _ refl] "1.prems" next_ok more bounds
    by (subst read_segments.simps) (auto simp: Let_def split: prod.splits)
qed

lemma path_root_bounds:
  "path_root text start = Some (index', least, windows) \<Longrightarrow> start < index' \<and> index' \<le> length text \<and> least > 0"
  by (auto simp: path_root_def char_at_def Let_def split: if_splits option.splits)

lemma pathAt_bounds: "pathAt text start clipped = Some found \<Longrightarrow> start < pf_end found \<and> pf_end found \<le> length text"
proof -
  assume found: "pathAt text start clipped = Some found"
  then obtain index' least windows where root: "path_root text start = Some (index', least, windows)"
    by (auto simp: pathAt_def split: option.splits)
  let ?st = "read_segments windows text index' \<lparr>sg_count = 0, sg_start = index', sg_end = index'\<rparr>"
  let ?stop = "name_end text (sg_start ?st) (sg_end ?st) (sg_end ?st)"
  have "start < index'" "index' \<le> length text" "least > 0" using path_root_bounds [OF root] by simp_all
  then have ok: "segments_ok text index' ?st" by (intro read_segments_ok) (simp_all add: segments_ok_def)
  then have end': "sg_start ?st \<le> ?stop" "?stop \<le> sg_end ?st"
    using name_end_bounds [of "sg_start ?st" "sg_end ?st" "text" "sg_end ?st"] by (auto simp: segments_ok_def)
  have "least \<le> sg_count ?st" and "pf_end found = ?stop \<and> ?stop \<noteq> sg_start ?st
      \<or> pf_end found = sg_end ?st - 1 \<and> sg_end ?st - 1 \<noteq> sg_start ?st"
    using found root by (auto simp: pathAt_def Let_def split: if_splits)
  with ok end' \<open>least > 0\<close> \<open>start < index'\<close> show ?thesis
    by (auto simp: segments_ok_def)
qed

section \<open>Spans\<close>

function spans_from :: "jstr \<Rightarrow> bool \<Rightarrow> nat \<Rightarrow> nat \<Rightarrow> file_path_span list" where
  "spans_from text clipped plain index' =
     (if index' < length text
      then
        (case (if index' = 0 \<or> \<not> START_BLOCKERS (text ! (index' - 1)) then pathAt text index' clipped else None) of
           None \<Rightarrow> spans_from text clipped plain (index' + 1)
         | Some found \<Rightarrow>
             (if index' > plain then [\<lparr>fp_text = slice text plain index', fp_file = None\<rparr>] else [])
             @ \<lparr>fp_text = slice text index' (pf_end found), fp_file = Some (pf_name found)\<rparr>
             # spans_from text clipped (pf_end found) (pf_end found))
      else if plain < length text then [\<lparr>fp_text = drop plain text, fp_file = None\<rparr>] else [])"
  by pat_completeness auto
termination
  by (relation "measure (\<lambda>(text, _, _, index'). length text - index')")
    (auto dest!: pathAt_bounds split: if_splits)

declare spans_from.simps [simp del]

definition spansOf :: "jstr \<Rightarrow> bool \<Rightarrow> file_path_span list" where
  "spansOf text clipped = spans_from text clipped 0 0"

definition splitFilePaths :: "jstr \<Rightarrow> file_path_span list" where
  "splitFilePaths text = spansOf text False"

definition joinSpans :: "file_path_span list \<Rightarrow> jstr" where
  "joinSpans spans = concat (map (\<lambda>span. case fp_file span of None \<Rightarrow> fp_text span | Some file \<Rightarrow> file) spans)"

definition compactFilePaths :: "jstr \<Rightarrow> jstr" where
  "compactFilePaths text = joinSpans (spansOf text False)"

definition compactTitle :: "jstr \<Rightarrow> jstr" where
  "compactTitle title = joinSpans (spansOf title True)"

section \<open>What the spans are\<close>

text \<open>A plain span is not empty. A path ends in a file name with an extension, after a separator.\<close>

definition separator :: "nat \<Rightarrow> bool" where
  "separator c \<longleftrightarrow> c = 47 \<or> c = 92"

definition span_ok :: "file_path_span \<Rightarrow> bool" where
  "span_ok part = (case fp_file part of
     None \<Rightarrow> fp_text part \<noteq> []
   | Some name \<Rightarrow> \<exists>dir raw. fp_text part = dir @ raw \<and> dir \<noteq> [] \<and> separator (last dir)
       \<and> extensionEndsAt raw 0 (length raw) \<and> (name = raw \<or> name = unescape_name raw))"

lemma slice_slice: "start \<le> mid \<Longrightarrow> mid \<le> end' \<Longrightarrow> slice text start end' = slice text start mid @ slice text mid end'"
proof -
  assume "start \<le> mid" "mid \<le> end'"
  moreover have "take ((mid - start) + (end' - mid)) (drop start text)
      = take (mid - start) (drop start text) @ take (end' - mid) (drop (mid - start) (drop start text))"
    by (rule take_add)
  ultimately show ?thesis by (simp add: slice_def)
qed

lemma slice_drop: "start \<le> mid \<Longrightarrow> drop start text = slice text start mid @ drop mid text"
  using append_take_drop_id [of "mid - start" "drop start text"] by (simp add: slice_def)

lemma extension_slice: "end' \<le> length text \<Longrightarrow> extensionEndsAt (slice text start end') 0 (length (slice text start end')) = extensionEndsAt text start end'"
  by (simp add: extensionEndsAt_def slice_def)

lemma name_end_extension:
  "start < name_end text start full e \<Longrightarrow> extensionEndsAt text start (name_end text start full e)"
  by (induction e) (auto split: if_splits)

lemma segment_separator:
  assumes "separator (text ! (sg_start st - 1))" "sg_start st > 0" "separator (text ! (index' - 1))" "index' > 0"
  shows "separator (text ! (sg_start (read_segments windows text index' st) - 1))"
  using assms
proof (induction windows "text" index' st rule: read_segments.induct)
  case (1 windows "text" index' st)
  have sep: "separator (text ! fst (scan_segment windows text index' index'))"
    if "char_at text (fst (scan_segment windows text index' index')) = Some 47
      \<or> windows \<and> char_at text (fst (scan_segment windows text index' index')) = Some 92"
    using that by (auto simp: char_at_def separator_def split: if_splits)
  show ?case
    using "1.IH" [OF refl prod.collapse _ refl] "1.prems" sep
    by (subst read_segments.simps) (auto simp: Let_def split: prod.splits)
qed

lemma found_text:
  assumes "pathAt text start False = Some found"
  shows "span_ok \<lparr>fp_text = slice text start (pf_end found), fp_file = Some (pf_name found)\<rparr>"
proof -
  obtain index' least windows where root: "path_root text start = Some (index', least, windows)"
    using assms by (auto simp: pathAt_def split: option.splits)
  let ?st = "read_segments windows text index' \<lparr>sg_count = 0, sg_start = index', sg_end = index'\<rparr>"
  let ?raw = "slice text (sg_start ?st) (pf_end found)"
  have bounds: "start < index'" "index' \<le> length text" using path_root_bounds [OF root] by simp_all
  then have ok: "segments_ok text index' ?st" by (intro read_segments_ok) (simp_all add: segments_ok_def)
  have root_sep: "separator (text ! (index' - 1))"
    using root by (auto simp: path_root_def char_at_def separator_def Let_def split: if_splits option.splits)
  then have sep: "separator (text ! (sg_start ?st - 1))"
    using bounds by (intro segment_separator) simp_all
  have "pf_end found = name_end text (sg_start ?st) (sg_end ?st) (sg_end ?st)" "pf_end found \<noteq> sg_start ?st"
    and name: "pf_name found = ?raw \<or> pf_name found = unescape_name ?raw"
    using assms root by (auto simp: pathAt_def Let_def split: if_splits)
  then have after: "sg_start ?st < pf_end found" "pf_end found \<le> length text"
    "extensionEndsAt text (sg_start ?st) (pf_end found)"
    using name_end_bounds [of "sg_start ?st" "sg_end ?st" "text" "sg_end ?st"] ok name_end_extension
    by (auto simp: segments_ok_def)
  have "start < sg_start ?st" "sg_start ?st \<le> length text" using ok bounds by (auto simp: segments_ok_def)
  then have "slice text start (sg_start ?st) \<noteq> [] \<and> last (slice text start (sg_start ?st)) = text ! (sg_start ?st - 1)"
    by (auto simp: slice_def last_conv_nth)
  moreover have "slice text start (pf_end found) = slice text start (sg_start ?st) @ ?raw"
    using \<open>start < sg_start ?st\<close> after by (intro slice_slice) simp_all
  moreover have "extensionEndsAt ?raw 0 (length ?raw)" using after by (simp add: extension_slice)
  ultimately show ?thesis using name sep unfolding span_ok_def by (auto intro!: exI)
qed

lemma spans_from_text: "plain \<le> index' \<Longrightarrow> concat (map fp_text (spans_from text clipped plain index')) = drop plain text"
proof (induction "text" clipped plain index' rule: spans_from.induct)
  case (1 "text" clipped plain index')
  let ?found = "if index' = 0 \<or> \<not> START_BLOCKERS (text ! (index' - 1)) then pathAt text index' clipped else None"
  have later: "drop plain text = slice text plain index' @ slice text index' (pf_end found) @ drop (pf_end found) text"
    if "?found = Some found" for found
    using that "1.prems" pathAt_bounds [of "text" index' clipped found] slice_drop [of plain index' "text"]
      slice_drop [of index' "pf_end found" "text"]
    by (auto split: if_splits)
  have empty: "slice text plain plain = []" by (simp add: slice_def)
  show ?case
  proof (cases ?found)
    case None
    then show ?thesis using "1.IH"(1) "1.prems" by (subst spans_from.simps) auto
  next
    case (Some found)
    then show ?thesis using "1.IH"(2) [OF _ Some] "1.prems" later [OF Some] empty
      by (subst spans_from.simps) (auto simp: not_less)
  qed
qed

lemma spans_from_ok: "plain \<le> index' \<Longrightarrow> list_all span_ok (spans_from text False plain index')"
proof (induction "text" False plain index' rule: spans_from.induct)
  case (1 "text" plain index')
  let ?found = "if index' = 0 \<or> \<not> START_BLOCKERS (text ! (index' - 1)) then pathAt text index' False else None"
  have plain: "span_ok \<lparr>fp_text = t, fp_file = None\<rparr>" if "t \<noteq> []" for t using that by (simp add: span_ok_def)
  show ?case
  proof (cases ?found)
    case None
    then show ?thesis using "1.hyps"(1) "1.prems" plain by (subst spans_from.simps) auto
  next
    case (Some found)
    then have "span_ok \<lparr>fp_text = slice text index' (pf_end found), fp_file = Some (pf_name found)\<rparr>"
      by (intro found_text) (auto split: if_splits)
    then show ?thesis using "1.hyps"(2) [OF _ Some] "1.prems" Some plain
      by (subst spans_from.simps) (auto simp: slice_def)
  qed
qed

section \<open>Properties\<close>

text \<open>
  Splitting a user's text at its file paths loses nothing: the spans put together again are
  the text, no span is empty, and every path is named by what follows its last separator, a
  file name with an extension.
\<close>

theorem file_paths_named:
  "concat (map fp_text (splitFilePaths text)) = text \<and> list_all span_ok (splitFilePaths text)"
  using spans_from_text [of 0 0 "text" False] spans_from_ok [of 0 0 "text"]
  by (simp add: splitFilePaths_def spansOf_def)

end
