(* ===== verification/Trajectory_Rows.thy ===== *)
theory Trajectory_Rows
  imports Session_Context File_Paths
begin

text \<open>
  The chain of one call, \<open>request-trajectory-model.ts\<close>: the events the core recorded, or those
  made up for a record without any, become rows with a chip, a lane, a tone and texts; the
  rows of a conversation fold under turn headers. \<open>i18n.t\<close> and the grouped digits of a number are
  arguments; counts in summaries are read exactly.
\<close>

datatype trajectory_lane = LaneClient | LaneGateway | LaneUpstream

datatype trajectory_chip =
    ChipTurn | ChipClient | ChipRedirect | ChipPolicy | ChipCompress | ChipRoute | ChipUpstream | ChipRetry
  | ChipRestore | ChipResult

fun chip_name :: "trajectory_chip \<Rightarrow> string" where
  "chip_name ChipTurn = ''TURN''"
| "chip_name ChipClient = ''CLIENT''"
| "chip_name ChipRedirect = ''REDIRECT''"
| "chip_name ChipPolicy = ''POLICY''"
| "chip_name ChipCompress = ''COMPRESS''"
| "chip_name ChipRoute = ''ROUTE''"
| "chip_name ChipUpstream = ''UPSTREAM''"
| "chip_name ChipRetry = ''RETRY''"
| "chip_name ChipRestore = ''RESTORE''"
| "chip_name ChipResult = ''RESULT''"

datatype trajectory_tone = ToneOk | ToneFailed | ToneBlocked | TonePending | ToneCancelled

datatype policy_action = PolicyAllow | PolicyWarn | PolicyBlock | PolicyRedact
datatype placeholder_explanation = ByNotice | BySkill

record policy_summary =
  po_action :: policy_action
  po_replaced :: "nat option"
  po_explained_by :: "placeholder_explanation option"
  po_trusted :: bool

record attempt_compression =
  im_lossy :: bool
  im_quality :: "nat option"
  im_images :: nat
  im_compressed :: nat
  im_before_bytes :: nat
  im_after_bytes :: nat

record trajectory_row =
  tr_id :: jstr
  tr_request_id :: jstr
  tr_chip :: trajectory_chip
  tr_summary :: jstr
  tr_result :: jstr
  tr_status :: request_status
  tr_tone :: trajectory_tone
  tr_started_at :: jstr
  tr_ended_at :: "jstr option"
  tr_lane :: trajectory_lane
  tr_child :: bool
  tr_turn_index :: "int option"
  tr_continued :: bool
  tr_redirect :: "request_model_redirect option"
  tr_compression :: "attempt_compression option"
  tr_policy :: "policy_summary option"

section \<open>Texts\<close>

definition middle_dot :: jstr where "middle_dot = [32, 183, 32]"

definition arrow :: jstr where "arrow = [32, 8594, 32]"

text \<open>\<open>text.split(separator)\<close>: \<open>seen\<close> is what the part holds so far.\<close>

function split_from :: "jstr \<Rightarrow> jstr \<Rightarrow> jstr \<Rightarrow> jstr list" where
  "split_from sep seen [] = [seen]"
| "split_from sep seen (c # s) =
     (if sep \<noteq> [] \<and> starts_with sep (c # s) then seen # split_from sep [] (drop (length sep) (c # s))
      else split_from sep (seen @ [c]) s)"
  by pat_completeness auto
termination
  by (relation "measure (\<lambda>(_, _, s). length s)") auto

definition split_text :: "jstr \<Rightarrow> jstr \<Rightarrow> jstr list" where
  "split_text sep s = split_from sep [] s"

text \<open>The rest after a literal, and after a run of digits with its value.\<close>

definition literal :: "jstr \<Rightarrow> jstr \<Rightarrow> jstr option" where
  "literal p s = (if starts_with p s then Some (drop (length p) s) else None)"

definition number_run :: "jstr \<Rightarrow> (nat \<times> jstr) option" where
  "number_run s = (let run = takeWhile is_digit s in
     if run = [] then None else Some (digits_value run, dropWhile is_digit s))"

definition all_digits :: "jstr \<Rightarrow> bool" where
  "all_digits s \<longleftrightarrow> s \<noteq> [] \<and> list_all is_digit s"

fun request_status_name :: "request_status \<Rightarrow> string" where
  "request_status_name Pending = ''pending''"
| "request_status_name Succeeded = ''succeeded''"
| "request_status_name StatusFailed = ''failed''"
| "request_status_name Cancelled = ''cancelled''"
| "request_status_name Blocked = ''blocked''"

definition statusLabel :: "translate \<Rightarrow> request_status \<Rightarrow> jstr" where
  "statusLabel t status = t (''status.'' @ request_status_name status) []"

definition formatExactNumber :: "(rat \<Rightarrow> jstr) \<Rightarrow> jnum \<Rightarrow> jstr" where
  "formatExactNumber grouped n = (case n of Fin q \<Rightarrow> grouped q | _ \<Rightarrow> [8212])"

section \<open>What summaries say\<close>

fun policy_action_name :: "policy_action \<Rightarrow> string" where
  "policy_action_name PolicyAllow = ''allow''"
| "policy_action_name PolicyWarn = ''warn''"
| "policy_action_name PolicyBlock = ''block''"
| "policy_action_name PolicyRedact = ''redact''"

definition policyActions :: "policy_action list" where
  "policyActions = [PolicyAllow, PolicyWarn, PolicyBlock, PolicyRedact]"

definition parsePolicySummary :: "jstr \<Rightarrow> policy_summary option" where
  "parsePolicySummary summary =
     (let parts = split_text middle_dot summary; action' = hd parts; rest = tl parts in
      case find (\<lambda>a. js (policy_action_name a) = action') policyActions of
        None \<Rightarrow> None
      | Some action \<Rightarrow>
          Some \<lparr>po_action = action, po_replaced = map_option digits_value (find all_digits rest),
                po_explained_by = (if js ''notice'' \<in> set rest then Some ByNotice
                  else if js ''skill'' \<in> set rest then Some BySkill else None),
                po_trusted = (action = PolicyAllow \<and> js ''trusted'' \<in> set rest)\<rparr>)"

definition placeholderExplanationText :: "translate \<Rightarrow> placeholder_explanation \<Rightarrow> jstr" where
  "placeholderExplanationText t explainedBy =
     t (if explainedBy = ByNotice then ''trajectory.policyNotice'' else ''trajectory.policySkill'') []"

definition policySummaryText :: "translate \<Rightarrow> policy_summary \<Rightarrow> jstr" where
  "policySummaryText t policy =
     join_with middle_dot
       ([t (''trajectory.policyDecisions.''
            @ (if po_trusted policy then ''trusted'' else policy_action_name (po_action policy))) []]
        @ (case po_replaced policy of None \<Rightarrow> []
           | Some n \<Rightarrow> [t ''trajectory.policyReplaced'' [(''count'', TextNum (int n))]]))"

definition restoredText :: "translate \<Rightarrow> nat \<Rightarrow> nat \<Rightarrow> jstr" where
  "restoredText t n tools =
     (if tools > 0
      then t ''trajectory.restoredCountWithTools'' [(''count'', TextNum (int n)), (''tools'', TextNum (int tools))]
      else t ''trajectory.restoredCount'' [(''count'', TextNum (int n))])"

text \<open>\<open>/^restore \<cdot> (\d+)\/\d+(?: \<cdot> tool (\d+))?$/\<close>: the restored values, and those in tools.\<close>

definition restore_summary :: "jstr \<Rightarrow> (nat \<times> nat) option" where
  "restore_summary summary =
     Option.bind (literal (js ''restore'' @ middle_dot) summary) (\<lambda>s.
     Option.bind (number_run s) (\<lambda>(n, s).
     Option.bind (literal (js ''/'') s) (\<lambda>s.
     Option.bind (number_run s) (\<lambda>(_, s).
     if s = [] then Some (n, 0)
     else Option.bind (literal (middle_dot @ js ''tool '') s) (\<lambda>s.
     Option.bind (number_run s) (\<lambda>(tools, s). if s = [] then Some (n, tools) else None))))))"

definition restoreSummaryText :: "translate \<Rightarrow> jstr \<Rightarrow> jstr option" where
  "restoreSummaryText t summary = map_option (\<lambda>(n, tools). restoredText t n tools) (restore_summary summary)"

text \<open>\<open>/^(lossless|lossy)(?: q(\d+))? \<cdot> (\d+)\/(\d+) images \<cdot> (\d+) \<rightarrow> (\d+) bytes$/\<close>.\<close>

definition compression_mode :: "jstr \<Rightarrow> (bool \<times> jstr) option" where
  "compression_mode s =
     (case literal (js ''lossless'') s of Some rest \<Rightarrow> Some (False, rest)
      | None \<Rightarrow> map_option (\<lambda>rest. (True, rest)) (literal (js ''lossy'') s))"

definition compression_quality :: "jstr \<Rightarrow> nat option \<times> jstr" where
  "compression_quality s =
     (case Option.bind (literal (js '' q'') s) number_run of
        Some (q, rest) \<Rightarrow> (Some q, rest) | None \<Rightarrow> (None, s))"

definition parseCompressionSummary :: "jstr \<Rightarrow> attempt_compression option" where
  "parseCompressionSummary summary =
     Option.bind (compression_mode summary) (\<lambda>(lossy, s).
     let (quality, s) = compression_quality s in
     Option.bind (literal middle_dot s) (\<lambda>s.
     Option.bind (number_run s) (\<lambda>(compressed, s).
     Option.bind (literal (js ''/'') s) (\<lambda>s.
     Option.bind (number_run s) (\<lambda>(images, s).
     Option.bind (literal (js '' images'' @ middle_dot) s) (\<lambda>s.
     Option.bind (number_run s) (\<lambda>(before, s).
     Option.bind (literal arrow s) (\<lambda>s.
     Option.bind (number_run s) (\<lambda>(after, s).
     if s = js '' bytes''
     then Some \<lparr>im_lossy = lossy, im_quality = quality, im_images = images, im_compressed = compressed,
                 im_before_bytes = before, im_after_bytes = after\<rparr>
     else None)))))))))"

definition formatImageBytes :: "nat \<Rightarrow> jstr" where
  "formatImageBytes bytes =
     (if bytes < 1024 then dec bytes @ js '' B''
      else if bytes < 1024 * 1024 then to_fixed_1 (of_nat bytes / 1024) @ js '' KB''
      else to_fixed_1 (of_nat bytes / (1024 * 1024)) @ js '' MB'')"

definition imageCompressionModeLabel :: "translate \<Rightarrow> attempt_compression \<Rightarrow> jstr" where
  "imageCompressionModeLabel t value =
     (case (im_lossy value, im_quality value) of
        (True, Some q) \<Rightarrow> t ''trajectory.imageCompressionModes.lossyQuality'' [(''quality'', TextNum (int q))]
      | (lossy, _) \<Rightarrow> t (''trajectory.imageCompressionModes.'' @ (if lossy then ''lossy'' else ''lossless'')) [])"

text \<open>The quotient is exact here.\<close>

definition imageCompressionSavedPercent :: "attempt_compression \<Rightarrow> int option" where
  "imageCompressionSavedPercent value =
     (if im_before_bytes value = 0 \<or> im_after_bytes value \<ge> im_before_bytes value then None
      else Some (js_round ((1 - of_nat (im_after_bytes value) / of_nat (im_before_bytes value)) * 100)))"

definition imageCompressionText :: "translate \<Rightarrow> attempt_compression \<Rightarrow> jstr" where
  "imageCompressionText t value =
     join_with middle_dot
       ([t ''trajectory.imageCompressionImages''
           [(''count'', TextNum (int (im_images value))), (''compressed'', TextNum (int (im_compressed value)))],
         imageCompressionModeLabel t value,
         formatImageBytes (im_before_bytes value) @ arrow @ formatImageBytes (im_after_bytes value)]
        @ (case imageCompressionSavedPercent value of None \<Rightarrow> []
           | Some p \<Rightarrow> [t ''trajectory.imageCompressionSaved'' [(''percent'', TextNum p)]]))"

text \<open>\<open>/^(\d+) \<rightarrow> (\d+)$/\<close>: the tokens of a call.\<close>

definition usage_segment :: "jstr \<Rightarrow> (jnum \<times> jnum) option" where
  "usage_segment part =
     (case split_text arrow part of
        [a, b] \<Rightarrow> if all_digits a \<and> all_digits b then Some (js_Number a, js_Number b) else None
      | _ \<Rightarrow> None)"

definition readableUsageSummary :: "translate \<Rightarrow> (rat \<Rightarrow> jstr) \<Rightarrow> jstr \<Rightarrow> jstr" where
  "readableUsageSummary t grouped summary =
     join_with middle_dot (map (\<lambda>part. case usage_segment part of
         None \<Rightarrow> part
       | Some (a, b) \<Rightarrow> t ''trajectory.tokenUsage''
           [(''input'', TextStr (formatExactNumber grouped a)), (''output'', TextStr (formatExactNumber grouped b))])
       (split_text middle_dot summary))"

section \<open>Events\<close>

fun event_kind_name :: "request_event_kind \<Rightarrow> string" where
  "event_kind_name EventAccepted = ''accepted''"
| "event_kind_name EventModelRedirect = ''model_redirect''"
| "event_kind_name EventPrivacy = ''privacy''"
| "event_kind_name EventImageCompression = ''image_compression''"
| "event_kind_name EventRouted = ''routed''"
| "event_kind_name EventUpstream = ''upstream''"
| "event_kind_name EventRestore = ''restore''"
| "event_kind_name EventCompleted = ''completed''"

fun chipByKind :: "request_event_kind \<Rightarrow> trajectory_chip" where
  "chipByKind EventAccepted = ChipClient"
| "chipByKind EventModelRedirect = ChipRedirect"
| "chipByKind EventPrivacy = ChipPolicy"
| "chipByKind EventImageCompression = ChipCompress"
| "chipByKind EventRouted = ChipRoute"
| "chipByKind EventUpstream = ChipUpstream"
| "chipByKind EventRestore = ChipRestore"
| "chipByKind EventCompleted = ChipResult"

fun laneByChip :: "trajectory_chip \<Rightarrow> trajectory_lane" where
  "laneByChip ChipTurn = LaneClient"
| "laneByChip ChipClient = LaneClient"
| "laneByChip ChipRedirect = LaneGateway"
| "laneByChip ChipPolicy = LaneGateway"
| "laneByChip ChipCompress = LaneGateway"
| "laneByChip ChipRoute = LaneGateway"
| "laneByChip ChipUpstream = LaneUpstream"
| "laneByChip ChipRetry = LaneUpstream"
| "laneByChip ChipRestore = LaneGateway"
| "laneByChip ChipResult = LaneClient"

definition modelRedirectSummary :: "request_model_redirect \<Rightarrow> jstr" where
  "modelRedirectSummary redirect = rd_from redirect @ arrow @ rd_to redirect"

definition truthy_text :: "jstr option \<Rightarrow> bool" where
  "truthy_text s \<longleftrightarrow> s \<noteq> None \<and> s \<noteq> Some []"

definition plain_event ::
  "request_record \<Rightarrow> request_event_kind \<Rightarrow> jstr \<Rightarrow> jstr option \<Rightarrow> request_status \<Rightarrow> jstr \<Rightarrow> request_event"
where
  "plain_event record kind started ended status summary =
     \<lparr>ev_kind = kind, ev_started_at = started, ev_ended_at = ended, ev_status = status, ev_summary = summary,
      ev_attempt_index = rq_attempt_index record\<rparr>"

text \<open>
  Without recorded events: the call and its end, and between them what the record shows was
  done.
\<close>

definition synthesizeEvents :: "translate \<Rightarrow> request_record \<Rightarrow> request_event list" where
  "synthesizeEvents t record =
     (if rq_events record \<noteq> [] then rq_events record
      else
        (let started = rq_started_at record; ended = rq_completed_at record;
             event = plain_event record;
             model = (case rq_requested_model record of Some m \<Rightarrow> m | None \<Rightarrow> t ''records.unspecifiedModel'' []);
             error = rq_error record; http = rq_http_status record in
         [event EventAccepted started ended (if rq_status record = Pending then Pending else Succeeded)
            (join_with middle_dot (filter (\<lambda>s. s \<noteq> []) [model, rq_input_protocol record]))]
         @ (case rq_model_redirect record of None \<Rightarrow> []
            | Some redirect \<Rightarrow> [event EventModelRedirect started (Some started) Succeeded (modelRedirectSummary redirect)])
         @ (case rq_privacy_restore record of None \<Rightarrow> []
            | Some restore \<Rightarrow> [event EventPrivacy started ended (if rq_status record = Blocked then Blocked else Succeeded)
                (if ps_enabled restore then js ''redact'' @ middle_dot @ big_string (ps_mapping_count restore)
                 else js ''allow'')])
         @ (if truthy_text (rq_service_id record) \<or> truthy_text (rq_route_id record)
            then [event EventRouted started ended Succeeded
                (case (rq_service_id record, rq_route_id record) of
                   (Some s, _) \<Rightarrow> s | (None, Some r) \<Rightarrow> r | _ \<Rightarrow> js ''routed'')]
            else [])
         @ (if rq_attempt_index record > 0 \<or> http \<noteq> None
            then [event EventUpstream started ended (rq_status record)
                (case (error, http) of
                   (Some e, _) \<Rightarrow> er_code e
                 | (None, Some status) \<Rightarrow> js ''HTTP '' @ big_string status
                 | _ \<Rightarrow> js ''upstream'')]
            else [])
         @ (case rq_privacy_restore record of
              Some restore \<Rightarrow>
                (if ps_enabled restore
                 then [event EventRestore started ended (rq_status record)
                   (js ''restore'' @ middle_dot @ big_string (ps_restored_count restore) @ js ''/''
                    @ big_string (ps_mapping_count restore))]
                 else [])
            | None \<Rightarrow> [])
         @ [event EventCompleted (case ended of Some e \<Rightarrow> e | None \<Rightarrow> started) ended (rq_status record)
              (case error of
                 Some e \<Rightarrow> er_category e @ middle_dot @ er_code e
               | None \<Rightarrow> statusLabel t (rq_status record))]))"

text \<open>The providers routing skipped show even when none could take the call.\<close>

definition withRoutingEvent :: "request_record \<Rightarrow> request_event list \<Rightarrow> request_event list" where
  "withRoutingEvent record events =
     (case rq_routing_decision record of
        None \<Rightarrow> events
      | Some decision \<Rightarrow>
          if rt_selected decision \<noteq> None \<or> rt_skipped decision = []
            \<or> list_ex (\<lambda>e. ev_kind e = EventRouted) events
          then events
          else
            (let place = find_index (\<lambda>e. ev_kind e \<in> {EventUpstream, EventRestore, EventCompleted}) events;
                 started = (case place of
                     Some i \<Rightarrow> ev_started_at (events ! i)
                   | None \<Rightarrow> if events = [] then rq_started_at record else ev_started_at (last events));
                 routed = plain_event record EventRouted started (Some started) StatusFailed [] in
             case place of
               None \<Rightarrow> events @ [routed]
             | Some i \<Rightarrow> take i events @ [routed] @ drop i events))"

definition settledEvent :: "request_record \<Rightarrow> request_event \<Rightarrow> request_event" where
  "settledEvent record event =
     (if ev_kind event \<noteq> EventAccepted \<or> ev_status event \<noteq> Pending \<or> rq_status record = Pending
      then event else event\<lparr>ev_status := Succeeded\<rparr>)"

definition rowRedirect :: "request_record \<Rightarrow> request_event \<Rightarrow> request_model_redirect option" where
  "rowRedirect record event =
     (if ev_kind event \<noteq> EventModelRedirect then None
      else case rq_model_redirect record of
        Some redirect \<Rightarrow> Some redirect
      | None \<Rightarrow>
          (case split_text arrow (ev_summary event) of
             [a, b] \<Rightarrow> if a = [] \<or> b = [] then None else Some \<lparr>rd_from = a, rd_to = b\<rparr>
           | _ \<Rightarrow> None))"

definition clientDisconnect :: "request_record \<Rightarrow> bool" where
  "clientDisconnect record \<longleftrightarrow>
     rq_status record = Cancelled \<and> rq_error record = None
     \<and> (let stop = Option.bind (rq_recovery record) rv_stop_reason in
        stop = None \<or> stop = Some (js ''cancelled''))"

definition clientDisconnectNote :: "translate \<Rightarrow> request_record \<Rightarrow> jstr option" where
  "clientDisconnectNote t record =
     (if \<not> clientDisconnect record then None
      else Some (case rq_http_status record of
          Some status \<Rightarrow> t ''trajectory.clientDisconnectedNote'' [(''status'', TextNum status)]
        | None \<Rightarrow> t ''trajectory.clientDisconnectedNoteNoUpstream'' []))"

fun statusTone :: "request_status \<Rightarrow> trajectory_tone" where
  "statusTone StatusFailed = ToneFailed"
| "statusTone Blocked = ToneBlocked"
| "statusTone Cancelled = ToneCancelled"
| "statusTone Pending = TonePending"
| "statusTone Succeeded = ToneOk"

definition http_failed :: "request_record \<Rightarrow> bool" where
  "http_failed record \<longleftrightarrow> (case rq_http_status record of None \<Rightarrow> False | Some c \<Rightarrow> c \<ge> 400)"

definition own_tone :: "request_record \<Rightarrow> request_event \<Rightarrow> trajectory_tone" where
  "own_tone record event =
     (if ev_status event \<noteq> Succeeded then statusTone (ev_status event)
      else if ev_kind event \<in> {EventCompleted, EventUpstream} \<and> http_failed record then ToneFailed
      else ToneOk)"

definition eventTone :: "request_record \<Rightarrow> request_event \<Rightarrow> trajectory_tone" where
  "eventTone record event =
     (if clientDisconnect record
      then
        (case ev_kind event of
           EventCompleted \<Rightarrow> ToneCancelled
         | EventUpstream \<Rightarrow>
             if http_failed record then ToneFailed else if ev_status event = Pending then TonePending else ToneOk
         | EventRestore \<Rightarrow>
             if http_failed record then ToneFailed else if ev_status event = Pending then TonePending else ToneOk
         | _ \<Rightarrow> own_tone record event)
      else own_tone record event)"

definition eventResult :: "translate \<Rightarrow> request_record \<Rightarrow> request_event \<Rightarrow> jstr" where
  "eventResult t record event =
     (if ev_kind event = EventCompleted \<and> clientDisconnect record then t ''trajectory.clientDisconnected'' []
      else if ev_kind event \<in> {EventCompleted, EventUpstream}
      then
        (case (rq_error record, ev_status event = Pending, rq_http_status record) of
           (Some e, False, _) \<Rightarrow> er_category e @ middle_dot @ er_code e
         | (_, _, Some status) \<Rightarrow> js ''HTTP '' @ big_string status
         | _ \<Rightarrow> statusLabel t (ev_status event))
      else statusLabel t (ev_status event))"

section \<open>Rows\<close>

definition rowSummary ::
  "translate \<Rightarrow> (rat \<Rightarrow> jstr) \<Rightarrow> request_event \<Rightarrow> attempt_compression option \<Rightarrow> policy_summary option \<Rightarrow> jstr"
where
  "rowSummary t grouped event compression policy =
     (if ev_kind event \<in> {EventUpstream, EventCompleted}
      then readableUsageSummary t grouped (ev_summary event)
      else case (compression, policy) of
        (Some c, _) \<Rightarrow> imageCompressionText t c
      | (None, Some p) \<Rightarrow> policySummaryText t p
      | _ \<Rightarrow>
          (case (if ev_kind event = EventRestore then restoreSummaryText t (ev_summary event) else None) of
             Some s \<Rightarrow> s | None \<Rightarrow> ev_summary event))"

definition rowFromEvent ::
  "translate \<Rightarrow> (rat \<Rightarrow> jstr) \<Rightarrow> request_record \<Rightarrow> request_event \<Rightarrow> bool \<Rightarrow> trajectory_row"
where
  "rowFromEvent t grouped record rawEvent child =
     (let event = settledEvent record rawEvent; kind = ev_kind event;
          chip = (if child \<and> kind = EventUpstream then ChipRetry else chipByKind kind);
          compression = (if kind = EventImageCompression then parseCompressionSummary (ev_summary event) else None);
          policy = (if kind = EventPrivacy then parsePolicySummary (ev_summary event) else None);
          summary = rowSummary t grouped event compression policy in
      \<lparr>tr_id = rq_id record @ js '':'' @ js (event_kind_name kind) @ js '':'' @ ev_started_at event
         @ js '':'' @ big_string (ev_attempt_index event),
       tr_request_id = rq_id record, tr_chip = chip,
       tr_summary = (if summary \<noteq> [] then summary else if kind = EventRouted then [] else js (chip_name chip)),
       tr_result = eventResult t record event, tr_status = ev_status event, tr_tone = eventTone record event,
       tr_started_at = ev_started_at event, tr_ended_at = ev_ended_at event, tr_lane = laneByChip chip,
       tr_child = child, tr_turn_index = None, tr_continued = False, tr_redirect = rowRedirect record event,
       tr_compression = compression, tr_policy = policy\<rparr>)"

text \<open>A row ID seen before gets the number of its earlier rows.\<close>

fun unique_from :: "(jstr \<times> nat) list \<Rightarrow> trajectory_row list \<Rightarrow> trajectory_row list" where
  "unique_from seen [] = []"
| "unique_from seen (row # rows) =
     (let count' = (case map_of seen (tr_id row) of None \<Rightarrow> 0 | Some n \<Rightarrow> n);
          seen' = (tr_id row, count' + 1) # seen in
      (if count' > 0 then row\<lparr>tr_id := tr_id row @ js '':'' @ dec count'\<rparr> else row) # unique_from seen' rows)"

definition uniqueRowIds :: "trajectory_row list \<Rightarrow> trajectory_row list" where
  "uniqueRowIds rows = unique_from [] rows"

definition inspectorChainRows :: "translate \<Rightarrow> (rat \<Rightarrow> jstr) \<Rightarrow> request_record \<Rightarrow> trajectory_row list" where
  "inspectorChainRows t grouped record =
     (let child = (rq_parent_request_id record \<noteq> None) in
      uniqueRowIds (map (\<lambda>event. (rowFromEvent t grouped record event child)
          \<lparr>tr_continued := (ev_kind event = EventAccepted \<and> rq_session_link record \<noteq> None)\<rparr>)
        (withRoutingEvent record (synthesizeEvents t record))))"

definition child_rows :: "translate \<Rightarrow> (rat \<Rightarrow> jstr) \<Rightarrow> nat \<Rightarrow> request_record \<Rightarrow> trajectory_row list" where
  "child_rows t grouped index' child =
     uniqueRowIds (map (\<lambda>event.
         let row = rowFromEvent t grouped child event True in
         if ev_kind event = EventUpstream
         then row\<lparr>tr_chip := ChipRetry,
                  tr_summary := t ''trajectory.childRequest''
                    [(''index'', TextNum (int index' + 1)), (''summary'', TextStr (tr_summary row))]\<rparr>
         else row)
       (synthesizeEvents t child))"

definition recordTrajectoryRows ::
  "translate \<Rightarrow> (rat \<Rightarrow> jstr) \<Rightarrow> request_record \<Rightarrow> (jstr \<Rightarrow> request_record list option) \<Rightarrow> trajectory_row list"
where
  "recordTrajectoryRows t grouped turn childrenByRoot =
     inspectorChainRows t grouped turn
     @ concat (map (\<lambda>(i, child). child_rows t grouped i child)
         (enumerate 0 (case childrenByRoot (rq_id turn) of None \<Rightarrow> [] | Some cs \<Rightarrow> cs)))"

definition turnGroupStatus :: "request_record list \<Rightarrow> request_status" where
  "turnGroupStatus records =
     (let statuses = map rq_status records in
      if Pending \<in> set statuses then Pending
      else if Blocked \<in> set statuses then Blocked
      else if StatusFailed \<in> set statuses then StatusFailed
      else if Cancelled \<in> set statuses then Cancelled
      else Succeeded)"

definition turnHeaderRow :: "translate \<Rightarrow> trajectory_turn_group \<Rightarrow> trajectory_row" where
  "turnHeaderRow t turn_group =
     (let first = hd (tg_records turn_group); final = last (tg_records turn_group);
          label = (case tg_turn_index turn_group of
              None \<Rightarrow> t ''trajectory.turnHeaderUnnumbered'' []
            | Some i \<Rightarrow> t ''trajectory.turnHeader'' [(''index'', TextNum i)]);
          status = turnGroupStatus (tg_records turn_group) in
      \<lparr>tr_id = rq_id first @ js '':turn'', tr_request_id = rq_id first, tr_chip = ChipTurn,
       tr_summary = (case rq_input_preview first of
           Some (c # preview) \<Rightarrow> label @ middle_dot @ compactTitle (c # preview) | _ \<Rightarrow> label),
       tr_result = t ''trajectory.turnCalls'' [(''count'', TextNum (int (length (tg_records turn_group))))],
       tr_status = status, tr_tone = statusTone status, tr_started_at = rq_started_at first,
       tr_ended_at = (if status = Pending then None
         else Some (case rq_completed_at final of Some e \<Rightarrow> e | None \<Rightarrow> rq_started_at final)),
       tr_lane = LaneClient, tr_child = False, tr_turn_index = tg_turn_index turn_group, tr_continued = False,
       tr_redirect = None, tr_compression = None, tr_policy = None\<rparr>)"

definition trajectoryRows ::
  "translate \<Rightarrow> (rat \<Rightarrow> jstr) \<Rightarrow> request_record list \<Rightarrow> (jstr \<Rightarrow> request_record list option) \<Rightarrow> trajectory_row list"
where
  "trajectoryRows t grouped turns childrenByRoot =
     concat (map (\<lambda>turn_group. (if length turns > 1 then [turnHeaderRow t turn_group] else [])
         @ concat (map (\<lambda>turn. recordTrajectoryRows t grouped turn childrenByRoot) (tg_records turn_group)))
       (groupTurns turns))"

section \<open>The list\<close>

record trajectory_list_layout =
  ll_rows :: "trajectory_row list"
  ll_open_turns :: "jstr list"
  ll_turn_by_row :: "(jstr \<times> jstr) list"
  ll_anchor_by_request :: "(jstr \<times> jstr) list"

text \<open>The header each row sits under, of the rows after the header \<open>turn\<close>.\<close>

fun turns_of_rows :: "jstr option \<Rightarrow> trajectory_row list \<Rightarrow> (jstr \<times> jstr) list \<Rightarrow> (jstr \<times> jstr) list" where
  "turns_of_rows turn [] m = m"
| "turns_of_rows turn (row # rows) m =
     (let turn' = (if tr_chip row = ChipTurn then Some (tr_id row) else turn) in
      turns_of_rows turn' rows
        (case turn' of None \<Rightarrow> m | Some h \<Rightarrow> put_or (tr_id row) h (\<lambda>_. h) m))"

definition latest_turn :: "trajectory_row list \<Rightarrow> jstr option" where
  "latest_turn rows = (case rev (filter (\<lambda>r. tr_chip r = ChipTurn) rows) of [] \<Rightarrow> None | h # _ \<Rightarrow> Some (tr_id h))"

record layout_state =
  ly_visible :: "trajectory_row list"
  ly_open_turns :: "jstr list"
  ly_anchors :: "(jstr \<times> jstr) list"
  ly_header :: "trajectory_row option"
  ly_open :: bool

definition lay_row :: "(jstr \<Rightarrow> bool) \<Rightarrow> layout_state \<Rightarrow> trajectory_row \<Rightarrow> layout_state" where
  "lay_row opens st row =
     (if tr_chip row = ChipTurn
      then
        (let open' = opens (tr_id row) in
         st\<lparr>ly_header := Some row, ly_open := open',
            ly_open_turns := (if open' \<and> tr_id row \<notin> set (ly_open_turns st) then ly_open_turns st @ [tr_id row]
              else ly_open_turns st),
            ly_visible := ly_visible st @ [row]\<rparr>)
      else if ly_open st then st\<lparr>ly_visible := ly_visible st @ [row]\<rparr>
      else case ly_header st of
        None \<Rightarrow> st
      | Some header \<Rightarrow>
          st\<lparr>ly_anchors := put_or (tr_request_id row) (tr_request_id header) (\<lambda>_. tr_request_id header) (ly_anchors st)\<rparr>)"

definition trajectoryListLayout ::
  "trajectory_row list \<Rightarrow> (jstr \<Rightarrow> bool option) \<Rightarrow> jstr option \<Rightarrow> jstr option \<Rightarrow> trajectory_list_layout"
where
  "trajectoryListLayout rows overrides selectedRowId foundTurn =
     (let turnByRowId = turns_of_rows None rows [];
          selectedTurn = Option.bind selectedRowId (map_of turnByRowId);
          opens = (\<lambda>i. case overrides i of
              Some b \<Rightarrow> b | None \<Rightarrow> Some i \<in> {latest_turn rows, selectedTurn, foundTurn});
          st = foldl (lay_row opens)
            \<lparr>ly_visible = [], ly_open_turns = [], ly_anchors = [], ly_header = None, ly_open = True\<rparr> rows in
      \<lparr>ll_rows = ly_visible st, ll_open_turns = ly_open_turns st, ll_turn_by_row = turnByRowId,
       ll_anchor_by_request = ly_anchors st\<rparr>)"

record trajectory_find =
  tf_stops :: "jstr list"
  tf_rows :: "jstr list"

text \<open>\<open>hit\<close> is whether one of the texts a row reads as holds the query.\<close>

fun find_rows :: "(trajectory_row \<Rightarrow> bool) \<Rightarrow> jstr option \<Rightarrow> trajectory_row list \<Rightarrow> trajectory_find \<Rightarrow> trajectory_find"
where
  "find_rows hit turn [] found = found"
| "find_rows hit turn (row # rows) found =
     (let turn' = (if tr_chip row = ChipTurn then Some (tr_id row) else turn);
          stop = (case turn' of Some h \<Rightarrow> h | None \<Rightarrow> tr_id row) in
      find_rows hit turn' rows
        (if hit row
         then found\<lparr>tf_rows := (if tr_id row \<in> set (tf_rows found) then tf_rows found else tf_rows found @ [tr_id row]),
                    tf_stops := (if tf_stops found \<noteq> [] \<and> last (tf_stops found) = stop then tf_stops found
                      else tf_stops found @ [stop])\<rparr>
         else found))"

definition findInTrajectory ::
  "trajectory_row list \<Rightarrow> (jstr \<Rightarrow> bool) \<Rightarrow> (trajectory_row \<Rightarrow> jstr list) \<Rightarrow> trajectory_find"
where
  "findInTrajectory rows finds texts =
     find_rows (\<lambda>row. list_ex finds (texts row)) None rows \<lparr>tf_stops = [], tf_rows = []\<rparr>"

text \<open>What the row repeats of its call's end, and of its result, is left out.\<close>

definition unrepeated :: "jstr option \<Rightarrow> jstr \<Rightarrow> jstr" where
  "unrepeated repeated summary =
     (case repeated of
        Some (c # r) \<Rightarrow>
          (if summary = c # r then []
           else if ends_with (middle_dot @ c # r) summary
           then take (length summary - length (middle_dot @ c # r)) summary
           else summary)
      | _ \<Rightarrow> summary)"

definition list_summary :: "(jstr \<times> jstr) list \<Rightarrow> trajectory_row \<Rightarrow> jstr" where
  "list_summary completed row =
     (let upstream = (tr_chip row = ChipUpstream \<or> tr_chip row = ChipRetry) in
      if \<not> upstream \<and> tr_chip row \<noteq> ChipResult then tr_summary row
      else
        (let outcome = split_text middle_dot (tr_result row);
             repeated = (if upstream then map_of completed (tr_request_id row) else None) in
         join_with middle_dot (filter (\<lambda>part. part \<notin> set outcome)
           (split_text middle_dot (unrepeated repeated (tr_summary row))))))"

definition trajectoryListSummaries :: "trajectory_row list \<Rightarrow> (jstr \<times> jstr) list" where
  "trajectoryListSummaries rows =
     (let completed = foldl (\<lambda>m row. if tr_chip row = ChipResult
              then put_or (tr_request_id row) (tr_summary row) (\<lambda>_. tr_summary row) m else m) [] rows in
      foldl (\<lambda>m row. put_or (tr_id row) (list_summary completed row) (\<lambda>_. list_summary completed row) m) [] rows)"

section \<open>The policy step\<close>

datatype policy_decision = PolRedact | PolWarn | PolBlock | PolAllow | PolTrusted | PolInspecting | PolUnfinished

definition policyDecision :: "trajectory_row \<Rightarrow> privacy_restore_summary option \<Rightarrow> policy_decision" where
  "policyDecision row restore =
     (let action = map_option po_action (tr_policy row) in
      if action = Some PolicyRedact \<or> (case restore of None \<Rightarrow> False | Some r \<Rightarrow> ps_mapping_count r > 0) then PolRedact
      else if action = Some PolicyWarn then PolWarn
      else if (case tr_policy row of None \<Rightarrow> False | Some p \<Rightarrow> po_trusted p) then PolTrusted
      else if action = Some PolicyBlock \<or> tr_status row = Blocked then PolBlock
      else if tr_status row = Pending then PolInspecting
      else if tr_status row = StatusFailed \<or> tr_status row = Cancelled then PolUnfinished
      else PolAllow)"

section \<open>What the list shows\<close>

text \<open>The rows, each with the header it sits under.\<close>

fun under_headers :: "jstr option \<Rightarrow> trajectory_row list \<Rightarrow> (trajectory_row \<times> jstr option) list" where
  "under_headers turn [] = []"
| "under_headers turn (row # rows) =
     (let turn' = (if tr_chip row = ChipTurn then Some (tr_id row) else turn) in
      (row, turn') # under_headers turn' rows)"

definition shown :: "(jstr \<Rightarrow> bool) \<Rightarrow> trajectory_row \<times> jstr option \<Rightarrow> bool" where
  "shown opens = (\<lambda>(row, turn). tr_chip row = ChipTurn \<or> (case turn of None \<Rightarrow> True | Some i \<Rightarrow> opens i))"

lemma under_headers_rows: "map fst (under_headers turn rows) = rows"
  by (induction rows arbitrary: turn) (simp_all add: Let_def)

lemma under_headers_mem: "(r, t) \<in> set (under_headers turn rows) \<Longrightarrow> r \<in> set rows"
  by (induction rows arbitrary: turn) (auto simp: Let_def split: if_splits)

lemma laid_rows:
  "ly_open st = (case ly_header st of None \<Rightarrow> True | Some h \<Rightarrow> opens (tr_id h)) \<Longrightarrow>
     ly_visible (foldl (lay_row opens) st rows)
     = ly_visible st @ map fst (filter (shown opens) (under_headers (map_option tr_id (ly_header st)) rows))"
proof (induction rows arbitrary: st)
  case (Cons row rows)
  have "ly_open (lay_row opens st row) = (case ly_header (lay_row opens st row) of None \<Rightarrow> True | Some h \<Rightarrow> opens (tr_id h))"
    using Cons.prems by (auto simp: lay_row_def Let_def split: option.splits)
  from Cons.IH [OF this] Cons.prems show ?case
    by (auto simp: lay_row_def Let_def shown_def split: option.splits)
qed simp

lemma turns_of_rows_map:
  "distinct (map tr_id rows) \<Longrightarrow>
     map_of (turns_of_rows turn rows m) i
     = (case find (\<lambda>(row, t). tr_id row = i) (under_headers turn rows) of
          Some (row, Some h) \<Rightarrow> Some h | _ \<Rightarrow> map_of m i)"
proof (induction rows arbitrary: turn m)
  case (Cons row rows)
  let ?turn = "if tr_chip row = ChipTurn then Some (tr_id row) else turn"
  have away: "find (\<lambda>(r, t). tr_id r = tr_id row) (under_headers ?turn rows) = None"
  proof -
    have "tr_id r \<noteq> tr_id row" if "(r, t) \<in> set (under_headers ?turn rows)" for r t
      using Cons.prems imageI [OF under_headers_mem [OF that], of tr_id] by auto
    then show ?thesis by (auto simp: find_None_iff)
  qed
  have put: "map_of (put_or k h (\<lambda>_. h) m) i = (if i = k then Some h else map_of m i)" for k h
    by (induction m) auto
  show ?case
    using Cons.IH [of ?turn] Cons.prems away
    by (cases ?turn; cases "tr_id row = i") (auto simp: Let_def put split: option.splits)
qed simp

definition opens_turn :: "(jstr \<Rightarrow> bool option) \<Rightarrow> jstr option set \<Rightarrow> jstr \<Rightarrow> bool" where
  "opens_turn overrides kept i = (case overrides i of Some b \<Rightarrow> b | None \<Rightarrow> Some i \<in> kept)"

lemma find_key:
  "distinct (map tr_id (map fst xs)) \<Longrightarrow> (row, turn) \<in> set xs \<Longrightarrow> find (\<lambda>(r, t). tr_id r = tr_id row) xs = Some (row, turn)"
  by (induction xs) (auto simp: image_iff)

lemma layout_rows:
  "ll_rows (trajectoryListLayout rows overrides selected found)
   = map fst (filter (shown (opens_turn overrides
        {latest_turn rows, Option.bind selected (map_of (turns_of_rows None rows [])), found})) (under_headers None rows))"
  unfolding trajectoryListLayout_def Let_def opens_turn_def
  by (simp add: laid_rows)

text \<open>
  C22: the row the operator picked stays in the list unless the operator closed its turn: a new
  turn landing never folds away the call being read. Headers are always in it, and the rows of
  the latest turn unless the operator closed that.
\<close>

theorem selected_row_stays:
  assumes "distinct (map tr_id rows)" and "(row, turn) \<in> set (under_headers None rows)"
    and "tr_chip row = ChipTurn \<or> turn = None \<or> overrides (the turn) = None \<and> (selected = Some (tr_id row) \<or> turn = latest_turn rows)
      \<or> overrides (the turn) = Some True"
  shows "row \<in> set (ll_rows (trajectoryListLayout rows overrides selected found))"
proof -
  have "Option.bind selected (map_of (turns_of_rows None rows [])) = turn" if "selected = Some (tr_id row)" "turn \<noteq> None"
  proof -
    have "find (\<lambda>(r, t). tr_id r = tr_id row) (under_headers None rows) = Some (row, turn)"
      using assms(1,2) under_headers_rows [of None rows] by (intro find_key) (auto simp flip: map_map)
    then show ?thesis using that assms(1) by (auto simp: turns_of_rows_map)
  qed
  then have "shown (opens_turn overrides {latest_turn rows, Option.bind selected (map_of (turns_of_rows None rows [])), found}) (row, turn)"
    using assms(3) by (cases turn) (auto simp: shown_def opens_turn_def)
  then show ?thesis unfolding layout_rows using assms(2) by force
qed

definition sample_header :: "string \<Rightarrow> trajectory_row" where
  "sample_header i =
     \<lparr>tr_id = js i, tr_request_id = js i, tr_chip = ChipTurn, tr_summary = [], tr_result = [], tr_status = Succeeded,
      tr_tone = ToneOk, tr_started_at = [], tr_ended_at = None, tr_lane = LaneClient, tr_child = False,
      tr_turn_index = None, tr_continued = False, tr_redirect = None, tr_compression = None, tr_policy = None\<rparr>"

definition sample_rows :: "trajectory_row list" where
  "sample_rows = [sample_header ''t1'', (sample_header ''a'')\<lparr>tr_chip := ChipUpstream\<rparr>, sample_header ''t2'',
     (sample_header ''b'')\<lparr>tr_chip := ChipUpstream\<rparr>]"

theorem selected_row_stays_witness:
  "(sample_header ''a'')\<lparr>tr_chip := ChipUpstream\<rparr>
   \<in> set (ll_rows (trajectoryListLayout sample_rows (\<lambda>_. None) (Some (js ''a'')) None))"
  by (rule selected_row_stays [where turn = "Some (js ''t1'')"])
    (simp_all add: sample_rows_def sample_header_def Let_def)

section \<open>The order of a chain\<close>

fun stage_rank :: "request_event_kind \<Rightarrow> nat" where
  "stage_rank EventAccepted = 0"
| "stage_rank EventModelRedirect = 1"
| "stage_rank EventPrivacy = 2"
| "stage_rank EventImageCompression = 3"
| "stage_rank EventRouted = 4"
| "stage_rank EventUpstream = 5"
| "stage_rank EventRestore = 6"
| "stage_rank EventCompleted = 7"

definition staged :: "request_event list \<Rightarrow> bool" where
  "staged es \<longleftrightarrow> sorted_wrt (<) (map (stage_rank \<circ> ev_kind) es) \<and> es \<noteq> []
     \<and> ev_kind (hd es) = EventAccepted \<and> ev_kind (last es) = EventCompleted"

lemma synthesized_staged: "rq_events record = [] \<Longrightarrow> staged (synthesizeEvents t record)"
  unfolding staged_def synthesizeEvents_def plain_event_def Let_def
  by (cases "rq_model_redirect record"; cases "rq_privacy_restore record") simp_all

lemma late_rank: "ev_kind e \<in> {EventUpstream, EventRestore, EventCompleted} \<longleftrightarrow> stage_rank (ev_kind e) > 4"
  by (cases "ev_kind e") simp_all

lemma find_index_split:
  "find_index P xs = Some i \<Longrightarrow> i < length xs \<and> P (xs ! i) \<and> list_all (\<lambda>x. \<not> P x) (take i xs)"
  by (induction xs arbitrary: i) (auto split: if_splits option.splits)

lemma insert_routed:
  assumes es: "staged (pre @ x # post)" and none: "\<forall>e \<in> set pre. ev_kind e \<noteq> EventRouted"
    and early: "\<forall>e \<in> set pre. stage_rank (ev_kind e) \<le> 4" and late: "4 < stage_rank (ev_kind x)"
    and routed: "ev_kind routed = EventRouted"
  shows "staged (pre @ [routed] @ x # post)"
proof -
  have below: "stage_rank (ev_kind e) < 4" if "e \<in> set pre" for e
    using none early that by (cases "ev_kind e") auto
  have above: "4 < stage_rank (ev_kind e)" if "e \<in> set post" for e
    using es late that by (auto simp: staged_def sorted_wrt_append intro: less_trans)
  have "pre \<noteq> []" using es late by (cases pre) (auto simp: staged_def)
  then show ?thesis using es below above late routed by (auto simp: staged_def sorted_wrt_append)
qed

lemma routed_staged: "staged es \<Longrightarrow> staged (withRoutingEvent record es)"
proof -
  assume es: "staged es"
  then have "last es \<in> set es" "ev_kind (last es) = EventCompleted" by (simp_all add: staged_def)
  then have "find_index (\<lambda>e. ev_kind e \<in> {EventUpstream, EventRestore, EventCompleted}) es \<noteq> None"
    by (auto simp: find_index_None)
  then obtain i where i: "find_index (\<lambda>e. ev_kind e \<in> {EventUpstream, EventRestore, EventCompleted}) es = Some i"
    by blast
  note found = find_index_split [OF i]
  have parts: "es = take i es @ es ! i # drop (Suc i) es" "drop i es = es ! i # drop (Suc i) es"
    using found by (simp_all add: id_take_nth_drop [symmetric] Cons_nth_drop_Suc)
  have early: "\<forall>e \<in> set (take i es). stage_rank (ev_kind e) \<le> 4"
    using found late_rank by (auto simp: list_all_iff not_less [symmetric])
  have late: "4 < stage_rank (ev_kind (es ! i))" using found late_rank by blast
  have new: "staged (take i es @ [routed] @ drop i es)"
    if "ev_kind routed = EventRouted" and "\<not> list_ex (\<lambda>e. ev_kind e = EventRouted) es" for routed
    unfolding parts(2) using es parts(1) early late that in_set_takeD [of _ i es]
    by (intro insert_routed) (auto simp: list_ex_iff)
  show ?thesis
    using es new unfolding withRoutingEvent_def i Let_def by (auto simp: plain_event_def split: option.splits)
qed

lemma unique_from_chips: "map tr_chip (unique_from seen rows) = map tr_chip rows"
  by (induction rows arbitrary: seen) (simp_all add: Let_def)

lemma chain_chips:
  "map tr_chip (inspectorChainRows t grouped record)
   = map (\<lambda>e. if rq_parent_request_id record \<noteq> None \<and> ev_kind e = EventUpstream then ChipRetry else chipByKind (ev_kind e))
       (withRoutingEvent record (synthesizeEvents t record))"
  by (auto simp: inspectorChainRows_def uniqueRowIds_def unique_from_chips rowFromEvent_def settledEvent_def Let_def)

fun chip_rank :: "trajectory_chip \<Rightarrow> nat" where
  "chip_rank ChipTurn = 0"
| "chip_rank ChipClient = 0"
| "chip_rank ChipRedirect = 1"
| "chip_rank ChipPolicy = 2"
| "chip_rank ChipCompress = 3"
| "chip_rank ChipRoute = 4"
| "chip_rank ChipUpstream = 5"
| "chip_rank ChipRetry = 5"
| "chip_rank ChipRestore = 6"
| "chip_rank ChipResult = 7"

text \<open>
  A call recorded without events still reads from its client to its result: the chain
  starts with the client's row and ends with the result's, its stages in between come in the
  order a call passes them, each at most once, with the route in its place when no provider took
  the call.
\<close>

theorem chain_in_order:
  assumes "rq_events record = []"
  shows "sorted_wrt (<) (map (chip_rank \<circ> tr_chip) (inspectorChainRows t grouped record))
    \<and> inspectorChainRows t grouped record \<noteq> []
    \<and> tr_chip (hd (inspectorChainRows t grouped record)) = ChipClient
    \<and> tr_chip (last (inspectorChainRows t grouped record)) = ChipResult"
proof -
  let ?es = "withRoutingEvent record (synthesizeEvents t record)" and ?rows = "inspectorChainRows t grouped record"
  let ?chip = "\<lambda>e. if rq_parent_request_id record \<noteq> None \<and> ev_kind e = EventUpstream then ChipRetry else chipByKind (ev_kind e)"
  have es: "staged ?es" by (intro routed_staged synthesized_staged assms)
  have chips: "map tr_chip ?rows = map ?chip ?es" by (rule chain_chips)
  have "chip_rank (chipByKind k) = stage_rank k" for k by (cases k) simp_all
  then have "map (chip_rank \<circ> tr_chip) ?rows = map (stage_rank \<circ> ev_kind) ?es"
    using arg_cong [OF chips, of "map chip_rank"] by (simp add: comp_def)
  moreover have rows: "?rows \<noteq> []" using arg_cong [OF chips, of length] es by (auto simp: staged_def)
  moreover have "tr_chip (hd ?rows) = ?chip (hd ?es)" "tr_chip (last ?rows) = ?chip (last ?es)"
    using arg_cong [OF chips, of hd] arg_cong [OF chips, of last] es rows
    by (simp_all add: hd_map last_map staged_def)
  ultimately show ?thesis using es by (simp add: staged_def)
qed

theorem chain_in_order_witness:
  "tr_chip (last (inspectorChainRows (\<lambda>_ _. []) (\<lambda>_. []) (sample_request ''a''))) = ChipResult"
  using chain_in_order [of "sample_request ''a''" "\<lambda>_ _. []" "\<lambda>_. []"] by (simp add: sample_request_def)

end
