(* ===== verification/Trajectory_Timeline.thy ===== *)
theory Trajectory_Timeline
  imports Trajectory_Rows
begin

text \<open>
  The time line of a conversation, \<open>request-trajectory-model.ts\<close>: its calls with their phases, the
  gaps between them, and the cheap step that moves the clock of the calls still running.
  Instants are whole milliseconds; \<open>Date.parse\<close> is an argument.
\<close>

definition TIMELINE_GAP_COLLAPSE_MS :: int where "TIMELINE_GAP_COLLAPSE_MS = 2000"

definition TIMELINE_KNEE_MS :: rat where "TIMELINE_KNEE_MS = 5000"

record timeline_phase =
  tp_row_id :: jstr
  tp_chip :: trajectory_chip
  tp_lane :: trajectory_lane
  tp_tone :: trajectory_tone
  tp_summary :: jstr
  tp_start_ms :: int
  tp_duration_ms :: int
  tp_open :: bool

record timeline_call =
  tc_request_id :: jstr
  tc_row_id :: jstr
  tc_turn_row_id :: "jstr option"
  tc_turn_index :: "int option"
  tc_turn_first :: bool
  tc_start_ms :: int
  tc_duration_ms :: int
  tc_tone :: trajectory_tone
  tc_summary :: jstr
  tc_result :: jstr
  tc_phases :: "timeline_phase list"
  tc_open :: bool

text \<open>A gap has its length, whether it is collapsed, and the header of the turn around it.\<close>

datatype timeline_item = CallItem timeline_call | GapItem int bool "jstr option"

record trajectory_timeline =
  tt_started_at_ms :: int
  tt_duration_ms :: int
  tt_knee_ms :: rat
  tt_items :: "timeline_item list"
  tt_open :: bool

record drafted_call =
  dr_request_id :: jstr
  dr_row_id :: jstr
  dr_turn_row_id :: "jstr option"
  dr_turn_index :: "int option"
  dr_start_abs :: int
  dr_end_abs :: int
  dr_tone :: trajectory_tone
  dr_summary :: jstr
  dr_result :: jstr
  dr_phases :: "timeline_phase list"
  dr_open :: bool

section \<open>Drafts of the calls\<close>

definition rowStartAbs :: "date_parser \<Rightarrow> trajectory_row \<Rightarrow> int \<Rightarrow> int" where
  "rowStartAbs date row nowMs = (case date (tr_started_at row) of None \<Rightarrow> nowMs | Some s \<Rightarrow> s)"

definition rowEndAbs :: "date_parser \<Rightarrow> trajectory_row \<Rightarrow> int \<Rightarrow> int" where
  "rowEndAbs date row nowMs =
     (if \<not> truthy_text (tr_ended_at row) then nowMs
      else case Option.bind (tr_ended_at row) date of None \<Rightarrow> nowMs | Some e \<Rightarrow> e)"

fun toneRank :: "trajectory_tone \<Rightarrow> nat" where
  "toneRank ToneFailed = 0"
| "toneRank ToneBlocked = 1"
| "toneRank TonePending = 2"
| "toneRank ToneCancelled = 3"
| "toneRank ToneOk = 4"

definition worstTone :: "trajectory_tone list \<Rightarrow> trajectory_tone" where
  "worstTone tones = foldl (\<lambda>worst tone. if toneRank tone < toneRank worst then tone else worst) ToneOk tones"

record timed_row =
  ti_row :: trajectory_row
  ti_start_abs :: int
  ti_end_abs :: int

definition timed :: "date_parser \<Rightarrow> int \<Rightarrow> trajectory_row \<Rightarrow> timed_row" where
  "timed date nowMs row =
     \<lparr>ti_row = row, ti_start_abs = rowStartAbs date row nowMs,
      ti_end_abs = max (rowStartAbs date row nowMs) (rowEndAbs date row nowMs)\<rparr>"

definition row_open :: "trajectory_row \<Rightarrow> bool" where
  "row_open row \<longleftrightarrow> \<not> truthy_text (tr_ended_at row)"

definition phase_of :: "int \<Rightarrow> timed_row \<Rightarrow> timeline_phase" where
  "phase_of startAbs item =
     (let row = ti_row item in
      \<lparr>tp_row_id = tr_id row, tp_chip = tr_chip row, tp_lane = tr_lane row, tp_tone = tr_tone row,
       tp_summary = tr_summary row, tp_start_ms = max 0 (ti_start_abs item - startAbs),
       tp_duration_ms = max 0 (ti_end_abs item - ti_start_abs item), tp_open = row_open row\<rparr>)"

definition draftTimelineCall ::
  "date_parser \<Rightarrow> trajectory_row list \<Rightarrow> trajectory_row option \<Rightarrow> int \<Rightarrow> drafted_call option"
where
  "draftTimelineCall date rows turn nowMs =
     (if rows = [] then None
      else
        (let timed' = sort_by (\<lambda>a b. ti_start_abs a - ti_start_abs b) (map (timed date nowMs) rows);
             first = hd timed';
             resultRow = (case find (\<lambda>i. tr_chip (ti_row i) = ChipResult) timed' of
                 Some i \<Rightarrow> i | None \<Rightarrow> last timed');
             startAbs = Min (set (map ti_start_abs timed')) in
         Some \<lparr>dr_request_id = tr_request_id (ti_row first), dr_row_id = tr_id (ti_row first),
               dr_turn_row_id = map_option tr_id turn, dr_turn_index = Option.bind turn tr_turn_index,
               dr_start_abs = startAbs, dr_end_abs = Max (set (map ti_end_abs timed')),
               dr_tone = worstTone (map tr_tone rows), dr_summary = tr_summary (ti_row first),
               dr_result = tr_result (ti_row resultRow), dr_phases = map (phase_of startAbs) timed',
               dr_open = list_ex row_open rows\<rparr>))"

section \<open>The time line\<close>

text \<open>The rows of each call in the order the calls appear, with the header before its first row.\<close>

record call_rows =
  cr_rows :: "trajectory_row list"
  cr_turn :: "trajectory_row option"

definition group_row ::
  "(jstr \<times> call_rows) list \<times> trajectory_row option \<Rightarrow> trajectory_row
    \<Rightarrow> (jstr \<times> call_rows) list \<times> trajectory_row option"
where
  "group_row st row =
     (case st of (grouped, lastTurn) \<Rightarrow>
        if tr_chip row = ChipTurn then (grouped, Some row)
        else if tr_child row then (grouped, lastTurn)
        else (upsert (tr_request_id row) \<lparr>cr_rows = [], cr_turn = lastTurn\<rparr>
                (\<lambda>g. g\<lparr>cr_rows := cr_rows g @ [row]\<rparr>) grouped, lastTurn))"

definition grouped_rows :: "trajectory_row list \<Rightarrow> call_rows list" where
  "grouped_rows rows = map snd (fst (foldl group_row ([], None) rows))"

definition drafts :: "date_parser \<Rightarrow> trajectory_row list \<Rightarrow> int \<Rightarrow> drafted_call list" where
  "drafts date rows nowMs =
     List.map_filter (\<lambda>g. draftTimelineCall date (cr_rows g) (cr_turn g) nowMs) (grouped_rows rows)"

fun place_calls :: "int \<Rightarrow> jstr set \<Rightarrow> drafted_call list \<Rightarrow> timeline_call list" where
  "place_calls started seenTurns [] = []"
| "place_calls started seenTurns (draft # rest) =
     (let turnFirst = (truthy_text (dr_turn_row_id draft) \<and> the (dr_turn_row_id draft) \<notin> seenTurns) in
      \<lparr>tc_request_id = dr_request_id draft, tc_row_id = dr_row_id draft, tc_turn_row_id = dr_turn_row_id draft,
       tc_turn_index = dr_turn_index draft, tc_turn_first = turnFirst,
       tc_start_ms = max 0 (dr_start_abs draft - started),
       tc_duration_ms = max 1 (dr_end_abs draft - dr_start_abs draft), tc_tone = dr_tone draft,
       tc_summary = dr_summary draft, tc_result = dr_result draft, tc_phases = dr_phases draft,
       tc_open = dr_open draft\<rparr>
      # place_calls started
          (if truthy_text (dr_turn_row_id draft) then insert (the (dr_turn_row_id draft)) seenTurns else seenTurns) rest)"

definition gap_between :: "timeline_call \<Rightarrow> timeline_call \<Rightarrow> timeline_item" where
  "gap_between previous call =
     (let gapMs = max 0 (tc_start_ms call - (tc_start_ms previous + tc_duration_ms previous)) in
      GapItem gapMs (gapMs > TIMELINE_GAP_COLLAPSE_MS)
        (if truthy_text (tc_turn_row_id previous) \<and> tc_turn_row_id previous = tc_turn_row_id call
         then tc_turn_row_id previous else None))"

fun items_after :: "timeline_call \<Rightarrow> timeline_call list \<Rightarrow> timeline_item list" where
  "items_after previous [] = []"
| "items_after previous (call # rest) = gap_between previous call # CallItem call # items_after call rest"

fun items_of_calls :: "timeline_call list \<Rightarrow> timeline_item list" where
  "items_of_calls [] = []"
| "items_of_calls (call # rest) = CallItem call # items_after call rest"

definition timelineKneeMs :: "int list \<Rightarrow> rat" where
  "timelineKneeMs durations =
     (let sorted' = sort (filter (\<lambda>d. d > 0) durations); n = length sorted' in
      if n = 0 then TIMELINE_KNEE_MS
      else
        (let median = (if even n then of_int (sorted' ! (n div 2 - 1) + sorted' ! (n div 2)) / 2
               else of_int (sorted' ! (n div 2))) in
         max TIMELINE_KNEE_MS median))"

definition trajectoryTimeline :: "date_parser \<Rightarrow> trajectory_row list \<Rightarrow> int \<Rightarrow> trajectory_timeline" where
  "trajectoryTimeline date allRows nowMs =
     (let drafted = drafts date allRows nowMs in
      if drafted = []
      then \<lparr>tt_started_at_ms = nowMs, tt_duration_ms = 1, tt_knee_ms = TIMELINE_KNEE_MS, tt_items = [],
            tt_open = False\<rparr>
      else
        (let startedAtMs = Min (set (map dr_start_abs drafted));
             endedAtMs = Max (set (map dr_end_abs drafted));
             calls = place_calls startedAtMs {} (sort_by (\<lambda>a b. dr_start_abs a - dr_start_abs b) drafted) in
         \<lparr>tt_started_at_ms = startedAtMs, tt_duration_ms = max 1 (endedAtMs - startedAtMs),
          tt_knee_ms = timelineKneeMs (map tc_duration_ms calls), tt_items = items_of_calls calls,
          tt_open = list_ex tc_open calls\<rparr>))"

section \<open>The clock moves\<close>

definition extend_phase :: "int \<Rightarrow> int \<Rightarrow> timeline_phase \<Rightarrow> timeline_phase" where
  "extend_phase callStartAbs nowMs phase =
     (if tp_open phase then phase\<lparr>tp_duration_ms := max 0 (nowMs - (callStartAbs + tp_start_ms phase))\<rparr>
      else phase)"

definition extendTimelineCall :: "timeline_call \<Rightarrow> int \<Rightarrow> int \<Rightarrow> timeline_call" where
  "extendTimelineCall call startedAtMs nowMs =
     (let phases = map (extend_phase (startedAtMs + tc_start_ms call) nowMs) (tc_phases call);
          endMs = foldl (\<lambda>e phase. max e (tp_start_ms phase + tp_duration_ms phase)) 0 phases in
      call\<lparr>tc_duration_ms := max 1 endMs, tc_phases := phases\<rparr>)"

definition extend_item :: "int \<Rightarrow> int \<Rightarrow> timeline_item \<Rightarrow> timeline_item" where
  "extend_item startedAtMs nowMs item =
     (case item of
        CallItem call \<Rightarrow> if tc_open call then CallItem (extendTimelineCall call startedAtMs nowMs) else item
      | GapItem d c t \<Rightarrow> item)"

text \<open>A call that grew closes the gap behind it. Also the end of the last call so far.\<close>

fun close_gaps :: "int \<Rightarrow> timeline_item list \<Rightarrow> timeline_item list" where
  "close_gaps previousEndMs [] = []"
| "close_gaps previousEndMs (CallItem call # rest) =
     CallItem call # close_gaps (tc_start_ms call + tc_duration_ms call) rest"
| "close_gaps previousEndMs (GapItem d c t # rest) =
     (case rest of
        CallItem call # _ \<Rightarrow>
          (let gapMs = max 0 (tc_start_ms call - previousEndMs) in
           if gapMs = d then GapItem d c t else GapItem gapMs (gapMs > TIMELINE_GAP_COLLAPSE_MS) t)
      | _ \<Rightarrow> GapItem d c t) # close_gaps previousEndMs rest"

fun last_end :: "int \<Rightarrow> timeline_item list \<Rightarrow> int" where
  "last_end e [] = e"
| "last_end e (CallItem call # rest) = last_end (max e (tc_start_ms call + tc_duration_ms call)) rest"
| "last_end e (GapItem d c t # rest) = last_end e rest"

definition extendPendingTimeline :: "trajectory_timeline \<Rightarrow> int \<Rightarrow> trajectory_timeline" where
  "extendPendingTimeline timeline nowMs =
     (let items = map (extend_item (tt_started_at_ms timeline) nowMs) (tt_items timeline) in
      if \<not> tt_open timeline \<or> items = tt_items timeline then timeline
      else timeline\<lparr>tt_duration_ms := max 1 (last_end 0 items), tt_items := close_gaps 0 items\<rparr>)"

section \<open>The moved clock shows the time line of that moment\<close>

text \<open>The stamps of a row can be read, the end where it has one.\<close>

definition stamps_read :: "date_parser \<Rightarrow> trajectory_row \<Rightarrow> bool" where
  "stamps_read date row \<longleftrightarrow> date (tr_started_at row) \<noteq> None
     \<and> (row_open row \<or> Option.bind (tr_ended_at row) date \<noteq> None)"

lemma insert_by_map:
  "(\<And>y. y \<in> set ys \<Longrightarrow> cmp (f x) (f y) = cmp' x y) \<Longrightarrow> insert_by cmp (f x) (map f ys) = map f (insert_by cmp' x ys)"
  by (induction ys) auto

lemma sort_by_map:
  "(\<And>x y. x \<in> set xs \<Longrightarrow> y \<in> set xs \<Longrightarrow> cmp (f x) (f y) = cmp' x y) \<Longrightarrow> sort_by cmp (map f xs) = map f (sort_by cmp' xs)"
proof (induction xs)
  case (Cons x xs)
  have "insert_by cmp (f x) (map f (sort_by cmp' xs)) = map f (insert_by cmp' x (sort_by cmp' xs))"
    by (rule insert_by_map) (simp add: Cons.prems)
  then show ?case using Cons by simp
qed simp

definition start_of :: "date_parser \<Rightarrow> trajectory_row \<Rightarrow> int" where
  "start_of date row = the (date (tr_started_at row))"

lemma timed_start: "stamps_read date row \<Longrightarrow> ti_start_abs (timed date now row) = start_of date row"
  by (auto simp: timed_def rowStartAbs_def stamps_read_def start_of_def)

lemma timed_closed: "stamps_read date row \<Longrightarrow> \<not> row_open row \<Longrightarrow> timed date now row = timed date now' row"
  by (auto simp: timed_def rowStartAbs_def rowEndAbs_def stamps_read_def row_open_def split: option.splits)

lemma timed_open: "row_open row \<Longrightarrow> stamps_read date row \<Longrightarrow> ti_end_abs (timed date now row) = max (start_of date row) now"
  by (auto simp: timed_def rowStartAbs_def rowEndAbs_def stamps_read_def row_open_def start_of_def)

lemma ti_row_timed [simp]: "ti_row (timed date now row) = row"
  by (simp add: timed_def)

lemma timed_order: "ti_start_abs (timed date now row) \<le> ti_end_abs (timed date now row)"
  by (simp add: timed_def)

definition in_order :: "date_parser \<Rightarrow> trajectory_row list \<Rightarrow> trajectory_row list" where
  "in_order date rows = sort_by (\<lambda>a b. start_of date a - start_of date b) rows"

lemma set_in_order [simp]: "set (in_order date rows) = set rows"
  by (simp add: in_order_def)

lemma in_order_empty [simp]: "in_order date rows = [] \<longleftrightarrow> rows = []"
  by (metis set_in_order set_empty)

lemma timed_sorted:
  "list_all (stamps_read date) rows \<Longrightarrow>
     sort_by (\<lambda>a b. ti_start_abs a - ti_start_abs b) (map (timed date now) rows) = map (timed date now) (in_order date rows)"
  unfolding in_order_def by (rule sort_by_map) (simp add: timed_start list_all_iff)

text \<open>The draft of a call, its instants by the rows.\<close>

definition first_start :: "date_parser \<Rightarrow> trajectory_row list \<Rightarrow> int" where
  "first_start date rows = Min (start_of date ` set rows)"

definition final_end :: "date_parser \<Rightarrow> int \<Rightarrow> trajectory_row list \<Rightarrow> int" where
  "final_end date now rows = Max ((\<lambda>r. ti_end_abs (timed date now r)) ` set rows)"

lemma find_map_timed: "find (\<lambda>i. tr_chip (ti_row i) = c) (map (timed date now) rows)
   = map_option (timed date now) (find (\<lambda>r. tr_chip r = c) rows)"
  by (induction rows) auto

definition drafted :: "date_parser \<Rightarrow> int \<Rightarrow> trajectory_row list \<Rightarrow> trajectory_row option \<Rightarrow> drafted_call" where
  "drafted date now rows turn =
     \<lparr>dr_request_id = tr_request_id (hd (in_order date rows)), dr_row_id = tr_id (hd (in_order date rows)),
      dr_turn_row_id = map_option tr_id turn, dr_turn_index = Option.bind turn tr_turn_index,
      dr_start_abs = first_start date rows, dr_end_abs = final_end date now rows,
      dr_tone = worstTone (map tr_tone rows), dr_summary = tr_summary (hd (in_order date rows)),
      dr_result = tr_result (case find (\<lambda>r. tr_chip r = ChipResult) (in_order date rows) of
          Some r \<Rightarrow> r | None \<Rightarrow> last (in_order date rows)),
      dr_phases = map (\<lambda>r. phase_of (first_start date rows) (timed date now r)) (in_order date rows),
      dr_open = list_ex row_open rows\<rparr>"

lemma draft_drafted:
  assumes "list_all (stamps_read date) rows" and "rows \<noteq> []"
  shows "draftTimelineCall date rows turn now = Some (drafted date now rows turn)"
proof -
  have starts: "(\<lambda>r. ti_start_abs (timed date now r)) ` set rows = start_of date ` set rows"
    using assms(1) by (intro image_cong refl) (simp add: list_all_iff timed_start)
  show ?thesis
    using assms(2) unfolding draftTimelineCall_def timed_sorted [OF assms(1)] Let_def
    by (simp add: drafted_def first_start_def final_end_def starts hd_map last_map find_map_timed
        image_image comp_def split: option.splits)
qed

lemma first_start_le: "r \<in> set rows \<Longrightarrow> first_start date rows \<le> start_of date r"
  by (simp add: first_start_def)

text \<open>Moving the clock on a drafted call.\<close>

lemma extend_phase_of:
  assumes "stamps_read date row" "first \<le> start_of date row"
  shows "extend_phase first now' (phase_of first (timed date now row)) = phase_of first (timed date now' row)"
proof (cases "row_open row")
  case True
  then show ?thesis using assms timed_open [OF True assms(1)] timed_start [OF assms(1)]
    by (simp add: extend_phase_def phase_of_def Let_def)
next
  case False
  then show ?thesis using timed_closed [OF assms(1) False, of now now'] by (simp add: extend_phase_def phase_of_def Let_def)
qed

lemma foldl_max: "foldl (\<lambda>e x. max e (f x)) e xs = Max (insert (e::int) (f ` set xs))"
proof (induction xs arbitrary: e)
  case (Cons x xs)
  have "Max (insert e (insert (f x) (f ` set xs))) = Max (insert (max e (f x)) (f ` set xs))"
  proof (cases "set xs = {}")
    case False
    then have "Max (insert e (insert (f x) (f ` set xs))) = max e (max (f x) (Max (f ` set xs)))" by simp
    also have "\<dots> = Max (insert (max e (f x)) (f ` set xs))" using False by (simp add: max.assoc)
    finally show ?thesis .
  qed simp
  then show ?case using Cons by simp
qed simp

lemma drafted_length:
  assumes "list_all (stamps_read date) rows" and "rows \<noteq> []"
  shows "max 1 (foldl (\<lambda>e phase. max e (tp_start_ms phase + tp_duration_ms phase)) 0
      (map (\<lambda>r. phase_of (first_start date rows) (timed date now r)) (in_order date rows)))
    = max 1 (final_end date now rows - first_start date rows)"
proof -
  let ?first = "first_start date rows" and ?stop = "\<lambda>r. ti_end_abs (timed date now r)"
  have phase: "tp_start_ms (phase_of ?first (timed date now r)) + tp_duration_ms (phase_of ?first (timed date now r))
      = ?stop r - ?first" if "r \<in> set rows" for r
    using that assms(1) timed_start [of date r now] timed_order [of date now r] first_start_le [OF that, of date]
    by (simp add: phase_of_def Let_def list_all_iff)
  have "Max (insert 0 ((\<lambda>r. ?stop r - ?first) ` set rows)) = max 0 (Max ((\<lambda>r. ?stop r - ?first) ` set rows))"
    using assms(2) by simp
  moreover have "Max ((\<lambda>r. ?stop r - ?first) ` set rows) = final_end date now rows - ?first"
    using assms(2) Max_add_commute [of "set rows" ?stop "- ?first"] by (simp add: final_end_def)
  moreover have "(\<lambda>phase. tp_start_ms phase + tp_duration_ms phase)
      ` set (map (\<lambda>r. phase_of ?first (timed date now r)) (in_order date rows)) = (\<lambda>r. ?stop r - ?first) ` set rows"
    using phase by (simp add: image_image)
  ultimately show ?thesis by (simp add: foldl_max)
qed

definition group_ok :: "trajectory_row set \<Rightarrow> call_rows \<Rightarrow> bool" where
  "group_ok S g \<longleftrightarrow> cr_rows g \<noteq> [] \<and> set (cr_rows g) \<subseteq> S"

lemma upsert_add_all:
  "(\<And>v. P v \<Longrightarrow> P (f v)) \<Longrightarrow> P (f fresh) \<Longrightarrow> list_all (P \<circ> snd) m \<Longrightarrow> list_all (P \<circ> snd) (upsert k fresh f m)"
  by (induction k fresh f m rule: upsert.induct) auto

lemma group_rows_ok:
  "set rows \<subseteq> S \<Longrightarrow> list_all (group_ok S \<circ> snd) (fst st) \<Longrightarrow> list_all (group_ok S \<circ> snd) (fst (foldl group_row st rows))"
proof (induction rows arbitrary: st)
  case (Cons row rows)
  have "list_all (group_ok S \<circ> snd) (fst (group_row st row))"
  proof (cases st)
    case (Pair grouped lastTurn)
    have add: "group_ok S (g\<lparr>cr_rows := cr_rows g @ [row]\<rparr>)" if "group_ok S g" for g
      using that Cons.prems(1) by (simp add: group_ok_def)
    have fresh: "group_ok S (\<lparr>cr_rows = [], cr_turn = lastTurn\<rparr>\<lparr>cr_rows := cr_rows \<lparr>cr_rows = [], cr_turn = lastTurn\<rparr> @ [row]\<rparr>)"
      using Cons.prems(1) by (simp add: group_ok_def)
    have "list_all (group_ok S \<circ> snd) grouped" using Cons.prems(2) Pair by (simp add: comp_def)
    with add fresh have "list_all (group_ok S \<circ> snd)
        (upsert (tr_request_id row) \<lparr>cr_rows = [], cr_turn = lastTurn\<rparr> (\<lambda>g. g\<lparr>cr_rows := cr_rows g @ [row]\<rparr>) grouped)"
      by (rule upsert_add_all)
    then show ?thesis using Pair Cons.prems by (simp add: group_row_def comp_def)
  qed
  with Cons show ?case by (simp add: comp_def)
qed simp

lemma grouped_rows_ok: "list_all (group_ok (set rows)) (grouped_rows rows)"
  using group_rows_ok [of rows "set rows" "([], None)"] by (simp add: grouped_rows_def list.pred_map)

abbreviation draft_group :: "date_parser \<Rightarrow> int \<Rightarrow> call_rows \<Rightarrow> drafted_call" where
  "draft_group date now g \<equiv> drafted date now (cr_rows g) (cr_turn g)"

definition group_read :: "date_parser \<Rightarrow> call_rows \<Rightarrow> bool" where
  "group_read date g \<longleftrightarrow> cr_rows g \<noteq> [] \<and> list_all (stamps_read date) (cr_rows g)"

lemma grouped_rows_read: "list_all (stamps_read date) rows \<Longrightarrow> list_all (group_read date) (grouped_rows rows)"
  using grouped_rows_ok [of rows] by (auto simp: list_all_iff group_ok_def group_read_def)

lemma drafts_read:
  "list_all (stamps_read date) rows \<Longrightarrow> drafts date rows now = map (draft_group date now) (grouped_rows rows)"
proof -
  assume "list_all (stamps_read date) rows"
  then have all: "list_all (group_read date) (grouped_rows rows)" by (rule grouped_rows_read)
  have "List.map_filter (\<lambda>g. draftTimelineCall date (cr_rows g) (cr_turn g) now) gs = map (draft_group date now) gs"
    if "list_all (group_read date) gs" for gs
    using that by (induction gs) (simp_all add: map_filter_simps draft_drafted group_read_def)
  then show ?thesis using all by (simp add: drafts_def)
qed

definition moved_call :: "int \<Rightarrow> int \<Rightarrow> timeline_call \<Rightarrow> timeline_call" where
  "moved_call started now call = (if tc_open call then extendTimelineCall call started now else call)"

lemma drafted_closed:
  assumes "group_read date g" and "\<not> list_ex row_open (cr_rows g)"
  shows "draft_group date now g = draft_group date now' g"
proof -
  have "timed date now r = timed date now' r" if "r \<in> set (cr_rows g)" for r
    using assms that timed_closed [of date r now now'] by (simp add: group_read_def list_all_iff list_ex_iff)
  then show ?thesis by (simp add: drafted_def final_end_def cong: image_cong)
qed

lemma place_calls_moved:
  "list_all (group_read date) gs \<Longrightarrow> list_all (\<lambda>g. started \<le> first_start date (cr_rows g)) gs \<Longrightarrow>
     map (moved_call started now') (place_calls started seen (map (draft_group date now) gs))
     = place_calls started seen (map (draft_group date now') gs)"
proof (induction gs arbitrary: seen)
  case (Cons g gs)
  have read: "list_all (stamps_read date) (cr_rows g)" "cr_rows g \<noteq> []" using Cons.prems by (simp_all add: group_read_def)
  have start: "started + max 0 (first_start date (cr_rows g) - started) = first_start date (cr_rows g)"
    using Cons.prems by simp
  let ?first = "first_start date (cr_rows g)"
  have phases: "map (extend_phase ?first now') (map (\<lambda>r. phase_of ?first (timed date now r)) (in_order date (cr_rows g)))
    = map (\<lambda>r. phase_of ?first (timed date now' r)) (in_order date (cr_rows g))"
    using read first_start_le by (auto simp: list_all_iff intro!: extend_phase_of)
  have head: "moved_call started now' (hd (place_calls started seen [draft_group date now g]))
    = hd (place_calls started seen [draft_group date now' g])"
  proof (cases "list_ex row_open (cr_rows g)")
    case True
    then show ?thesis
      by (simp add: moved_call_def extendTimelineCall_def Let_def drafted_def start phases
          drafted_length [OF read] del: map_map)
  next
    case False
    then show ?thesis using Cons.prems drafted_closed [of date g now now'] by (simp add: moved_call_def drafted_def)
  qed
  show ?case using Cons head by (simp add: drafted_def)
qed simp

section \<open>Items\<close>

lemma tc_start_moved [simp]: "tc_start_ms (moved_call started now call) = tc_start_ms call"
  "tc_turn_row_id (moved_call started now call) = tc_turn_row_id call"
  "tc_open (moved_call started now call) = tc_open call"
  by (simp_all add: moved_call_def extendTimelineCall_def Let_def)

lemma extend_call_item [simp]: "extend_item started now (CallItem c) = CallItem (moved_call started now c)"
  by (simp add: extend_item_def moved_call_def)

lemma extend_gap [simp]: "extend_item started now (gap_between c d) = gap_between c d"
  by (simp add: extend_item_def gap_between_def Let_def)

lemma close_gaps_items_after:
  "close_gaps (tc_start_ms call + tc_duration_ms (moved_call started now call))
     (map (extend_item started now) (items_after call calls))
   = items_after (moved_call started now call) (map (moved_call started now) calls)"
  by (induction calls arbitrary: call) (auto simp: gap_between_def Let_def extend_item_def [of _ _ "GapItem _ _ _"])

lemma close_gaps_items:
  "close_gaps 0 (map (extend_item started now) (items_of_calls calls)) = items_of_calls (map (moved_call started now) calls)"
  by (cases calls) (simp_all add: close_gaps_items_after)

lemma still_items:
  "map (extend_item started now) (items_of_calls calls) = items_of_calls calls \<Longrightarrow> map (moved_call started now) calls = calls"
proof -
  have after: "map (extend_item started now) (items_after c cs) = items_after c cs \<Longrightarrow> map (moved_call started now) cs = cs" for c cs
    by (induction cs arbitrary: c) auto
  show "map (extend_item started now) (items_of_calls calls) = items_of_calls calls \<Longrightarrow> map (moved_call started now) calls = calls"
    by (cases calls) (auto dest: after)
qed

lemma closed_calls: "\<not> list_ex tc_open calls \<Longrightarrow> map (moved_call started now) calls = calls"
  by (induction calls) (simp_all add: moved_call_def)

section \<open>The time line of another moment\<close>

definition sorted_groups :: "date_parser \<Rightarrow> trajectory_row list \<Rightarrow> call_rows list" where
  "sorted_groups date rows = sort_by (\<lambda>a b. first_start date (cr_rows a) - first_start date (cr_rows b)) (grouped_rows rows)"

definition earliest :: "date_parser \<Rightarrow> trajectory_row list \<Rightarrow> int" where
  "earliest date rows = Min ((\<lambda>g. first_start date (cr_rows g)) ` set (grouped_rows rows))"

definition calls_at :: "date_parser \<Rightarrow> trajectory_row list \<Rightarrow> int \<Rightarrow> timeline_call list" where
  "calls_at date rows now = place_calls (earliest date rows) {} (map (draft_group date now) (sorted_groups date rows))"

lemma dr_start_drafted [simp]: "dr_start_abs (drafted date now rows turn) = first_start date rows"
  by (simp add: drafted_def)

lemma timeline_calls:
  assumes "list_all (stamps_read date) rows" and "grouped_rows rows \<noteq> []"
  shows "tt_items (trajectoryTimeline date rows now) = items_of_calls (calls_at date rows now)"
    and "tt_open (trajectoryTimeline date rows now) = list_ex tc_open (calls_at date rows now)"
    and "tt_started_at_ms (trajectoryTimeline date rows now) = earliest date rows"
proof -
  have sorted: "sort_by (\<lambda>a b. dr_start_abs a - dr_start_abs b) (map (draft_group date now) (grouped_rows rows))
    = map (draft_group date now) (sorted_groups date rows)"
    unfolding sorted_groups_def by (rule sort_by_map) (simp add: drafted_def)
  have "dr_start_abs ` set (map (draft_group date now) (grouped_rows rows))
    = (\<lambda>g. first_start date (cr_rows g)) ` set (grouped_rows rows)"
    by (simp add: image_image)
  then show "tt_items (trajectoryTimeline date rows now) = items_of_calls (calls_at date rows now)"
    and "tt_open (trajectoryTimeline date rows now) = list_ex tc_open (calls_at date rows now)"
    and "tt_started_at_ms (trajectoryTimeline date rows now) = earliest date rows"
    using assms sorted by (simp_all add: trajectoryTimeline_def Let_def drafts_read calls_at_def earliest_def)
qed

lemma calls_moved:
  assumes "list_all (stamps_read date) rows"
  shows "map (moved_call (earliest date rows) now') (calls_at date rows now) = calls_at date rows now'"
  unfolding calls_at_def
proof (rule place_calls_moved)
  show "list_all (group_read date) (sorted_groups date rows)"
    using grouped_rows_read [OF assms] by (simp add: sorted_groups_def list_all_iff)
  show "list_all (\<lambda>g. earliest date rows \<le> first_start date (cr_rows g)) (sorted_groups date rows)"
    by (simp add: sorted_groups_def list_all_iff earliest_def)
qed

text \<open>
  C9: over rows whose stamps can be read, moving the clock of the calls still running shows the calls
  and gaps that drawing the time line anew at that moment shows, whatever the moment: every phase,
  every length, every gap, its collapse and its turn. (A stamp that cannot be read stands for the
  moment of drawing, which moving the clock leaves where it was.)
\<close>

theorem moved_clock_redraws:
  assumes "list_all (stamps_read date) rows"
  shows "tt_items (extendPendingTimeline (trajectoryTimeline date rows now) now')
    = tt_items (trajectoryTimeline date rows now')"
proof (cases "grouped_rows rows = []")
  case True
  then show ?thesis using assms by (simp add: trajectoryTimeline_def extendPendingTimeline_def drafts_read)
next
  case False
  note at = timeline_calls [OF assms False]
  let ?calls = "calls_at date rows now"
  have moved: "map (moved_call (earliest date rows) now') ?calls = calls_at date rows now'" by (rule calls_moved [OF assms])
  show ?thesis
    using moved close_gaps_items [of "earliest date rows" now' ?calls] still_items [of "earliest date rows" now' ?calls]
      closed_calls [of ?calls "earliest date rows" now']
    by (auto simp: extendPendingTimeline_def at Let_def)
qed

definition sample_row :: "string \<Rightarrow> string \<Rightarrow> string option \<Rightarrow> trajectory_row" where
  "sample_row request started ended =
     \<lparr>tr_id = js (request @ started), tr_request_id = js request, tr_chip = ChipUpstream, tr_summary = [], tr_result = [],
      tr_status = Succeeded, tr_tone = ToneOk, tr_started_at = js started, tr_ended_at = map_option js ended,
      tr_lane = LaneUpstream, tr_child = False, tr_turn_index = None, tr_continued = False, tr_redirect = None,
      tr_compression = None, tr_policy = None\<rparr>"

theorem moved_clock_redraws_witness:
  "tt_items (extendPendingTimeline (trajectoryTimeline (\<lambda>s. Some (int (digits_value s)))
       [sample_row ''a'' ''100'' (Some ''900''), sample_row ''b'' ''5000'' None] 6000) 9000)
   = tt_items (trajectoryTimeline (\<lambda>s. Some (int (digits_value s)))
       [sample_row ''a'' ''100'' (Some ''900''), sample_row ''b'' ''5000'' None] 9000)"
  by (rule moved_clock_redraws) (simp add: stamps_read_def sample_row_def row_open_def truthy_text_def)

end
