(* ===== verification/Trajectory_Scroll.thy ===== *)
theory Trajectory_Scroll
  imports Complex_Main Prelude
begin

text \<open>
  The two panes of a conversation, \<open>request-trajectory-model.ts\<close>: the list of rows and the strip of
  columns scroll together through a shared place in the calls. Offsets and widths are exact
  rationals; the weight of a duration, a logarithm beyond its knee, is real.
\<close>

record call_column =
  co_request_id :: jstr
  co_offset :: rat
  co_width :: rat

record call_progress =
  pr_request_id :: jstr
  pr_fraction :: rat

definition clamp01 :: "rat \<Rightarrow> rat" where
  "clamp01 x = min 1 (max 0 x)"

text \<open>The rows are the request IDs they carry. Where a call's rows start, and how far they reach.\<close>

definition callRowSpan :: "jstr list \<Rightarrow> jstr \<Rightarrow> nat \<times> nat" where
  "callRowSpan rows requestId =
     (case filter (\<lambda>(i, row). row = requestId) (enumerate 0 rows) of
        [] \<Rightarrow> (0, 0)
      | found \<Rightarrow> (fst (hd found), fst (last found) - fst (hd found) + 1))"

definition callProgressAtListOffset :: "jstr list \<Rightarrow> rat \<Rightarrow> call_progress option" where
  "callProgressAtListOffset rows offset =
     (if rows = [] then None
      else
        (let index' = min (of_nat (length rows)) (max 0 offset);
             requestId = rows ! min (length rows - 1) (nat \<lfloor>index'\<rfloor>);
             (start, len) = callRowSpan rows requestId in
         if len = 0 then Some \<lparr>pr_request_id = requestId, pr_fraction = 0\<rparr>
         else Some \<lparr>pr_request_id = requestId, pr_fraction = clamp01 ((index' - of_nat start) / of_nat len)\<rparr>))"

definition positive_width :: "rat \<Rightarrow> rat \<Rightarrow> rat" where
  "positive_width otherwise width = (if width > 0 then width else otherwise)"

definition scrollLeftForCall :: "call_column list \<Rightarrow> jstr \<Rightarrow> rat \<Rightarrow> rat \<Rightarrow> rat" where
  "scrollLeftForCall columns requestId fraction maxScroll =
     (if maxScroll \<le> 0 then 0
      else case find (\<lambda>c. co_request_id c = requestId) columns of
        None \<Rightarrow> 0
      | Some column \<Rightarrow>
          min maxScroll (max 0 (co_offset column + clamp01 fraction * positive_width 0 (co_width column))))"

text \<open>The last column takes what lies beyond it.\<close>

fun progress_in :: "call_column list \<Rightarrow> rat \<Rightarrow> call_progress option" where
  "progress_in [] x = None"
| "progress_in (column # rest) x =
     (if x < co_offset column + co_width column \<or> rest = []
      then Some \<lparr>pr_request_id = co_request_id column,
                 pr_fraction = clamp01 ((x - co_offset column) / positive_width 1 (co_width column))\<rparr>
      else progress_in rest x)"

definition callProgressAtScrollLeft :: "call_column list \<Rightarrow> rat \<Rightarrow> call_progress option" where
  "callProgressAtScrollLeft columns scrollLeft = progress_in columns (max 0 scrollLeft)"

definition listOffsetForCall :: "jstr list \<Rightarrow> jstr \<Rightarrow> rat \<Rightarrow> rat \<Rightarrow> rat" where
  "listOffsetForCall rows requestId fraction rowHeight =
     (if rowHeight \<le> 0 then 0
      else
        (let (start, len) = callRowSpan rows requestId in
         if len = 0 then 0 else (of_nat start + clamp01 fraction * of_nat len) * rowHeight))"

definition timeline_extent :: "call_column list \<Rightarrow> rat" where
  "timeline_extent columns = (if columns = [] then 0 else co_offset (last columns) + co_width (last columns))"

definition timelineScrollForList :: "jstr list \<Rightarrow> call_column list \<Rightarrow> rat \<Rightarrow> rat \<Rightarrow> rat \<Rightarrow> rat" where
  "timelineScrollForList rows columns listOffset listMaxScroll timelineMaxScroll =
     (let timelineExtent = timeline_extent columns in
      if listMaxScroll \<le> 0 \<or> timelineMaxScroll \<le> 0 \<or> timelineExtent \<le> 0 then 0
      else
        (let ratio = clamp01 (listOffset / listMaxScroll) in
         case callProgressAtListOffset rows (ratio * of_nat (length rows)) of
           None \<Rightarrow> 0
         | Some progress \<Rightarrow>
             scrollLeftForCall columns (pr_request_id progress) (pr_fraction progress) timelineExtent
               / timelineExtent * timelineMaxScroll))"

definition listScrollForTimeline :: "jstr list \<Rightarrow> call_column list \<Rightarrow> rat \<Rightarrow> rat \<Rightarrow> rat \<Rightarrow> rat" where
  "listScrollForTimeline rows columns timelineOffset timelineMaxScroll listMaxScroll =
     (let timelineExtent = timeline_extent columns in
      if rows = [] \<or> timelineMaxScroll \<le> 0 \<or> listMaxScroll \<le> 0 \<or> timelineExtent \<le> 0 then 0
      else
        (let ratio = clamp01 (timelineOffset / timelineMaxScroll) in
         case callProgressAtScrollLeft columns (ratio * timelineExtent) of
           None \<Rightarrow> 0
         | Some progress \<Rightarrow>
             listOffsetForCall rows (pr_request_id progress) (pr_fraction progress) 1
               / of_nat (length rows) * listMaxScroll))"

text \<open>The calls folded into a closed turn are one column over the whole turn.\<close>

definition fold_column :: "(jstr \<Rightarrow> jstr option) \<Rightarrow> call_column list \<Rightarrow> call_column \<Rightarrow> call_column list" where
  "fold_column anchor folded column =
     (let requestId = (case anchor (co_request_id column) of Some h \<Rightarrow> h | None \<Rightarrow> co_request_id column);
          fresh = \<lparr>co_request_id = requestId, co_offset = co_offset column, co_width = co_width column\<rparr> in
      if folded \<noteq> [] \<and> co_request_id (last folded) = requestId
      then butlast folded
        @ [(last folded)\<lparr>co_width := co_offset column + co_width column - co_offset (last folded)\<rparr>]
      else folded @ [fresh])"

definition foldTimelineColumns :: "call_column list \<Rightarrow> (jstr \<Rightarrow> jstr option) \<Rightarrow> call_column list" where
  "foldTimelineColumns columns anchor = foldl (fold_column anchor) [] columns"

section \<open>The weight of a duration\<close>

text \<open>A knee that is not positive is replaced by 5000.\<close>

definition timelineWeight :: "real \<Rightarrow> real \<Rightarrow> real" where
  "timelineWeight durationMs kneeMs =
     (let knee = (if kneeMs > 0 then kneeMs else 5000) in
      if durationMs \<le> 0 then 0
      else if durationMs \<le> knee then durationMs
      else knee * (1 + ln (durationMs / knee)))"

section \<open>Both panes over the same calls\<close>

text \<open>
  The rows and columns of calls, from an offset on: how many rows a call has, how wide its column
  is and the gap before the column.
\<close>

record call_extent =
  ce_id :: jstr
  ce_rows :: nat
  ce_width :: rat
  ce_gap :: rat

definition rows_of_calls :: "call_extent list \<Rightarrow> jstr list" where
  "rows_of_calls cs = concat (map (\<lambda>c. replicate (ce_rows c) (ce_id c)) cs)"

fun columns_of_calls :: "rat \<Rightarrow> call_extent list \<Rightarrow> call_column list" where
  "columns_of_calls x [] = []"
| "columns_of_calls x (c # cs) =
     \<lparr>co_request_id = ce_id c, co_offset = x + ce_gap c, co_width = ce_width c\<rparr>
     # columns_of_calls (x + ce_gap c + ce_width c) cs"

definition calls_ok :: "call_extent list \<Rightarrow> bool" where
  "calls_ok cs \<longleftrightarrow> distinct (map ce_id cs) \<and> list_all (\<lambda>c. ce_rows c > 0 \<and> ce_width c > 0 \<and> ce_gap c \<ge> 0) cs"

definition total_width :: "call_extent list \<Rightarrow> rat" where
  "total_width cs = sum_list (map (\<lambda>c. ce_gap c + ce_width c) cs)"

lemma span_of_call:
  assumes "ce_rows c > 0" "ce_id c \<notin> ce_id ` set before" "ce_id c \<notin> ce_id ` set after"
  shows "callRowSpan (rows_of_calls (before @ c # after)) (ce_id c) = (length (rows_of_calls before), ce_rows c)"
proof -
  let ?pre = "rows_of_calls before" and ?post = "rows_of_calls after"
  have away: "filter (\<lambda>(i, row). row = ce_id c) (enumerate n rows) = []" if "ce_id c \<notin> set rows" for n rows
    using that by (induction rows arbitrary: n) auto
  have own: "filter (\<lambda>(i, row). row = ce_id c) (enumerate n (replicate k (ce_id c))) = enumerate n (replicate k (ce_id c))" for n k
    by (auto simp: filter_id_conv in_set_enumerate_eq)
  have ids: "ce_id c \<notin> set ?pre" "ce_id c \<notin> set ?post" using assms(2,3) by (auto simp: rows_of_calls_def)
  have "rows_of_calls (before @ c # after) = ?pre @ replicate (ce_rows c) (ce_id c) @ ?post"
    by (simp add: rows_of_calls_def)
  then have found: "filter (\<lambda>(i, row). row = ce_id c) (enumerate 0 (rows_of_calls (before @ c # after)))
      = enumerate (length ?pre) (replicate (ce_rows c) (ce_id c))"
    using ids by (simp add: enumerate_append_eq away own)
  obtain k where k: "ce_rows c = Suc k" using assms(1) by (cases "ce_rows c") auto
  have "fst (last (enumerate n (replicate (Suc k) (ce_id c)))) = n + k" for n
    by (induction k arbitrary: n) simp_all
  then show ?thesis using k unfolding callRowSpan_def found by (simp add: list.case_eq_if hd_conv_nth nth_enumerate_eq)
qed

lemma total_width_nonneg: "list_all (\<lambda>c. ce_width c > 0 \<and> ce_gap c \<ge> 0) cs \<Longrightarrow> 0 \<le> total_width cs"
  by (induction cs) (simp_all add: total_width_def)

lemma total_width_split: "total_width (before @ c # after) = total_width before + (ce_gap c + ce_width c) + total_width after"
  by (simp add: total_width_def)

lemma find_column:
  "ce_id c \<notin> ce_id ` set before \<Longrightarrow>
     find (\<lambda>col. co_request_id col = ce_id c) (columns_of_calls x (before @ c # after))
     = Some \<lparr>co_request_id = ce_id c, co_offset = x + total_width before + ce_gap c, co_width = ce_width c\<rparr>"
  by (induction before arbitrary: x) (auto simp: total_width_def add.assoc)

lemma columns_empty [simp]: "columns_of_calls x cs = [] \<longleftrightarrow> cs = []"
  by (cases cs) simp_all

lemma progress_at:
  assumes "list_all (\<lambda>c. ce_width c > 0 \<and> ce_gap c \<ge> 0) (before @ [c])"
    and "x + total_width before + ce_gap c \<le> p" and "p < x + total_width before + ce_gap c + ce_width c \<or> after = []"
  shows "progress_in (columns_of_calls x (before @ c # after)) p
    = Some \<lparr>pr_request_id = ce_id c, pr_fraction = clamp01 ((p - (x + total_width before + ce_gap c)) / ce_width c)\<rparr>"
  using assms
proof (induction before arbitrary: x)
  case Nil
  then show ?case by (auto simp: total_width_def positive_width_def)
next
  case (Cons b before)
  have "0 \<le> total_width before" using Cons.prems(1) by (intro total_width_nonneg) simp
  then have "\<not> p < x + ce_gap b + ce_width b" using Cons.prems(1,2) by (simp add: total_width_def)
  then show ?case using Cons.IH [of "x + ce_gap b + ce_width b"] Cons.prems by (simp add: total_width_def add.assoc)
qed

lemma extent_of_calls: "cs \<noteq> [] \<Longrightarrow> timeline_extent (columns_of_calls x cs) = x + total_width cs"
proof (induction cs arbitrary: x rule: rev_induct)
  case (snoc c cs)
  have "columns_of_calls x (cs @ [c]) = columns_of_calls x cs
      @ [\<lparr>co_request_id = ce_id c, co_offset = x + total_width cs + ce_gap c, co_width = ce_width c\<rparr>]" for x
    by (induction cs arbitrary: x) (simp_all add: total_width_def add.assoc)
  then show ?case by (simp add: timeline_extent_def total_width_def)
qed simp

text \<open>A place in the rows is in one call, the end of the rows in the last.\<close>

lemma place_in_rows:
  assumes "list_all (\<lambda>c. ce_rows c > 0) cs" and "cs \<noteq> []" and "0 \<le> (p :: rat)" and "p \<le> of_nat (length (rows_of_calls cs))"
  obtains before c after where "cs = before @ c # after" and "of_nat (length (rows_of_calls before)) \<le> p"
    and "p < of_nat (length (rows_of_calls before) + ce_rows c) \<or> after = [] \<and> p = of_nat (length (rows_of_calls cs))"
proof -
  have "\<exists>before c after. cs = before @ c # after \<and> of_nat (length (rows_of_calls before)) \<le> p
    \<and> (p < of_nat (length (rows_of_calls before) + ce_rows c) \<or> after = [] \<and> p = of_nat (length (rows_of_calls cs)))"
    using assms(2,4)
  proof (induction cs rule: rev_induct)
    case (snoc c cs)
    have len: "length (rows_of_calls (cs @ [c])) = length (rows_of_calls cs) + ce_rows c" by (simp add: rows_of_calls_def)
    show ?case
    proof (cases "of_nat (length (rows_of_calls cs)) \<le> p")
      case True
      then show ?thesis using snoc.prems len 
        by - (rule exI [of _ cs], rule exI [of _ c], rule exI [of _ "[]"], auto)
    next
      case False
      then have "cs \<noteq> []" using assms(3) by (cases cs) (auto simp: rows_of_calls_def)
      then obtain before d after where "cs = before @ d # after" "of_nat (length (rows_of_calls before)) \<le> p"
        "p < of_nat (length (rows_of_calls before) + ce_rows d) \<or> after = [] \<and> p = of_nat (length (rows_of_calls cs))"
        using snoc.IH False by auto
      then show ?thesis using False 
        by - (rule exI [of _ before], rule exI [of _ d], rule exI [of _ "after @ [c]"], auto)
    qed
  qed simp
  then show thesis using that by blast
qed

text \<open>The strip's place for a place in the rows of call \<open>c\<close>, and back.\<close>

lemma scroll_both_ways:
  assumes ok: "calls_ok cs" and cs: "cs = before @ c # after" and f: "0 \<le> f" "f < 1 \<or> f = 1 \<and> after = []"
    and p: "p = of_nat (length (rows_of_calls before)) + f * of_nat (ce_rows c)"
    and m: "lm > 0" "tm > 0"
  shows "timelineScrollForList (rows_of_calls cs) (columns_of_calls 0 cs) (p / of_nat (length (rows_of_calls cs)) * lm) lm tm
      = (total_width before + ce_gap c + f * ce_width c) / total_width cs * tm"
    and "listScrollForTimeline (rows_of_calls cs) (columns_of_calls 0 cs)
        ((total_width before + ce_gap c + f * ce_width c) / total_width cs * tm) tm lm
      = p / of_nat (length (rows_of_calls cs)) * lm"
proof -
  let ?rows = "rows_of_calls cs" and ?cols = "columns_of_calls 0 cs" and ?tb = "total_width before" and ?w = "ce_width c"
  let ?lb = "length (rows_of_calls before)" and ?n = "ce_rows c"
  let ?x = "?tb + ce_gap c + f * ?w" and ?T = "total_width cs" and ?R = "rat_of_nat (length ?rows)"
  have c: "?n > 0" "?w > 0" "ce_gap c \<ge> 0" "ce_id c \<notin> ce_id ` set before" "ce_id c \<notin> ce_id ` set after"
    and widths: "list_all (\<lambda>c. ce_width c > 0 \<and> ce_gap c \<ge> 0) before" "list_all (\<lambda>c. ce_width c > 0 \<and> ce_gap c \<ge> 0) after"
    using ok by (auto simp: calls_ok_def cs list_all_iff)
  have tb: "0 \<le> ?tb" "0 \<le> total_width after" using widths by (simp_all add: total_width_nonneg)
  have fw: "0 \<le> f * ?w" "f * ?w \<le> ?w" "0 \<le> f * rat_of_nat ?n" "f * rat_of_nat ?n \<le> rat_of_nat ?n"
    using f c by (auto simp: mult_le_cancel_right1)
  have x: "0 \<le> ?x" "?x \<le> ?T" "?T > 0" using tb fw c unfolding cs total_width_split by linarith+
  have rows: "?rows = rows_of_calls before @ replicate ?n (ce_id c) @ rows_of_calls after"
    by (simp add: cs rows_of_calls_def)
  then have R: "?R = rat_of_nat ?lb + rat_of_nat ?n + rat_of_nat (length (rows_of_calls after))" by simp
  have nonneg: "0 \<le> rat_of_nat (length (rows_of_calls after))" "0 \<le> rat_of_nat ?lb" "0 < rat_of_nat ?n" using c(1) by simp_all
  have "0 \<le> p" "p \<le> ?R" "?R > 0" using fw nonneg unfolding p R by linarith+
  then have p': "0 \<le> p" "p \<le> ?R" "?R > 0" "?rows \<noteq> []" by auto
  have nonempty: "?cols \<noteq> []" "cs \<noteq> []" by (simp_all add: cs)
  have extent: "timeline_extent ?cols = ?T" using extent_of_calls [of cs 0] nonempty by simp
  have spans: "callRowSpan ?rows (ce_id c) = (?lb, ?n)" unfolding cs using c by (intro span_of_call)
  have own: "?rows ! min (length ?rows - 1) (nat \<lfloor>p\<rfloor>) = ce_id c"
  proof -
    have lb: "int ?lb \<le> \<lfloor>p\<rfloor>" using fw(3) by (simp add: p le_floor_iff)
    have "\<lfloor>p\<rfloor> < int (?lb + ?n) \<or> length ?rows = ?lb + ?n"
    proof (cases "f = 1")
      case True
      then show ?thesis using f(2) by (simp add: rows, simp add: rows_of_calls_def)
    next
      case False
      then have "f * rat_of_nat ?n < rat_of_nat ?n" using f c(1) by auto
      then show ?thesis by (simp add: p floor_less_iff)
    qed
    then have "?lb \<le> min (length ?rows - 1) (nat \<lfloor>p\<rfloor>)" "min (length ?rows - 1) (nat \<lfloor>p\<rfloor>) < ?lb + ?n"
      using lb c(1) rows by (auto simp: min_def)
    then show ?thesis by (auto simp: rows nth_append)
  qed
  have unit: "clamp01 f = f" "f * 1 = f" using f by (auto simp: clamp01_def)
  have first: "callProgressAtListOffset ?rows p = Some \<lparr>pr_request_id = ce_id c, pr_fraction = f\<rparr>"
    using p' own spans c unit by (simp add: callProgressAtListOffset_def Let_def p)
  show "timelineScrollForList ?rows ?cols (p / ?R * lm) lm tm = ?x / ?T * tm"
    using m x p' first unit c find_column [of c before 0 after, folded cs]
    by (simp add: timelineScrollForList_def extent Let_def clamp01_def [of "p / ?R"] scrollLeftForCall_def positive_width_def)
  have second: "progress_in ?cols ?x = Some \<lparr>pr_request_id = ce_id c, pr_fraction = f\<rparr>"
    unfolding cs using widths c f fw unit by (subst progress_at) auto
  show "listScrollForTimeline ?rows ?cols (?x / ?T * tm) tm lm = p / ?R * lm"
    using m x p' second unit c spans
    by (simp add: listScrollForTimeline_def extent Let_def clamp01_def [of "?x / ?T"] callProgressAtScrollLeft_def
        listOffsetForCall_def p)
qed

text \<open>
  C21: the two panes agree: over calls with IDs of their own, each with at least one row and a
  column of positive width, with gaps of any width before and between the columns, and with both
  panes able to scroll, scrolling the list to any place and the strip to where it follows, the strip
  leads the list back to that very place.
\<close>

theorem scroll_panes_agree:
  assumes "calls_ok cs" and "cs \<noteq> []" and "0 \<le> y" "y \<le> listMax" and "0 < listMax" "0 < stripMax"
  shows "listScrollForTimeline (rows_of_calls cs) (columns_of_calls 0 cs)
      (timelineScrollForList (rows_of_calls cs) (columns_of_calls 0 cs) y listMax stripMax) stripMax listMax = y"
proof -
  let ?R = "rat_of_nat (length (rows_of_calls cs))" and ?p = "y / listMax * rat_of_nat (length (rows_of_calls cs))"
  have rows: "list_all (\<lambda>c. ce_rows c > 0) cs" using assms(1) by (auto simp: calls_ok_def list_all_iff)
  have "rows_of_calls cs \<noteq> []" using rows assms(2) by (cases cs) (auto simp: rows_of_calls_def)
  then have R: "?R > 0" by simp
  have "y / listMax \<le> 1" "0 \<le> y / listMax" using assms by simp_all
  then have p: "0 \<le> ?p" "?p \<le> ?R" using R mult_right_mono [of "y / listMax" 1 ?R] by (simp_all del: times_divide_eq_left)
  obtain before c after where cs: "cs = before @ c # after" and lb: "of_nat (length (rows_of_calls before)) \<le> ?p"
    and up: "?p < of_nat (length (rows_of_calls before) + ce_rows c) \<or> after = [] \<and> ?p = ?R"
    by (rule place_in_rows [OF rows assms(2) p])
  have n: "rat_of_nat (ce_rows c) > 0" using rows cs by simp
  define f where "f = (?p - of_nat (length (rows_of_calls before))) / rat_of_nat (ce_rows c)"
  have f: "0 \<le> f" "f < 1 \<or> f = 1 \<and> after = []" and place: "?p = of_nat (length (rows_of_calls before)) + f * of_nat (ce_rows c)"
    using lb up n by (auto simp: f_def cs rows_of_calls_def)
  have "y = ?p / ?R * listMax" using R assms by simp
  then show ?thesis
    using scroll_both_ways [OF assms(1) cs f place assms(5,6)] by simp
qed

definition sample_calls :: "call_extent list" where
  "sample_calls = [\<lparr>ce_id = js ''a'', ce_rows = 2, ce_width = 30, ce_gap = 0\<rparr>,
     \<lparr>ce_id = js ''b'', ce_rows = 4, ce_width = 10, ce_gap = 6\<rparr>]"

theorem scroll_panes_agree_witness:
  "listScrollForTimeline (rows_of_calls sample_calls) (columns_of_calls 0 sample_calls)
      (timelineScrollForList (rows_of_calls sample_calls) (columns_of_calls 0 sample_calls) 150 240 20) 20 240 = 150"
  by (rule scroll_panes_agree) (simp_all add: sample_calls_def calls_ok_def)

text \<open>
  The two panes end together: with the list at its start the strip is at its start, where the
  first column is, with the list at its end the strip is at its end.
\<close>

theorem scroll_panes_ends:
  assumes "calls_ok cs" and "cs \<noteq> []" and "ce_gap (hd cs) = 0" and "0 < listMax" "0 < stripMax"
  shows "timelineScrollForList (rows_of_calls cs) (columns_of_calls 0 cs) 0 listMax stripMax = 0
    \<and> timelineScrollForList (rows_of_calls cs) (columns_of_calls 0 cs) listMax listMax stripMax = stripMax"
proof
  obtain c after where first: "cs = [] @ c # after" using assms(2) by (cases cs) auto
  show "timelineScrollForList (rows_of_calls cs) (columns_of_calls 0 cs) 0 listMax stripMax = 0"
    using scroll_both_ways(1) [OF assms(1) first _ _ _ assms(4,5), of 0 0] assms(3)
    by (simp add: rows_of_calls_def total_width_def first)
  obtain before d where final: "cs = before @ d # []" using assms(2) by (cases cs rule: rev_cases) auto
  have "0 < ce_rows d" "0 < ce_width d" "0 \<le> ce_gap d" and widths: "list_all (\<lambda>c. ce_width c > 0 \<and> ce_gap c \<ge> 0) before"
    using assms(1) by (auto simp: calls_ok_def final list_all_iff)
  then have total: "total_width before + ce_gap d + ce_width d = total_width cs" "total_width cs > 0"
    and rows: "rat_of_nat (length (rows_of_calls before)) + rat_of_nat (ce_rows d) = rat_of_nat (length (rows_of_calls cs))"
      "rat_of_nat (length (rows_of_calls cs)) > 0"
    using total_width_nonneg [OF widths] by (auto simp: final total_width_def rows_of_calls_def)
  show "timelineScrollForList (rows_of_calls cs) (columns_of_calls 0 cs) listMax listMax stripMax = stripMax"
    using scroll_both_ways(1) [OF assms(1) final _ _ _ assms(4,5), of 1 "of_nat (length (rows_of_calls cs))"] total rows
    by simp
qed

theorem scroll_panes_ends_witness:
  "timelineScrollForList (rows_of_calls sample_calls) (columns_of_calls 0 sample_calls) 0 240 20 = 0
    \<and> timelineScrollForList (rows_of_calls sample_calls) (columns_of_calls 0 sample_calls) 240 240 20 = 20"
  by (rule scroll_panes_ends) (simp_all add: sample_calls_def calls_ok_def)

text \<open>
  A longer duration weighs more, and no duration weighs more than itself: bars keep the
  order of the durations, beyond the knee too.
\<close>

theorem weight_keeps_order:
  assumes "0 \<le> a" "a < b" and "0 < knee"
  shows "timelineWeight a knee < timelineWeight b knee \<and> timelineWeight b knee \<le> b"
proof -
  have ln_below: "knee * (1 + ln (x / knee)) \<le> x" if "x > 0" for x
  proof -
    have "ln (x / knee) \<le> x / knee - 1" using that assms(3) by (intro ln_le_minus_one) simp
    then have "knee * (1 + ln (x / knee)) \<le> knee * (x / knee)" using assms(3) by (intro mult_left_mono) simp_all
    then show ?thesis using assms(3) by simp
  qed
  have beyond: "knee < knee * (1 + ln (x / knee))" if "knee < x" for x
    using that assms(3) by (simp add: ln_gt_zero)
  have ordered: "knee * (1 + ln (a / knee)) < knee * (1 + ln (b / knee))" if "knee < a"
    using that assms by (simp add: divide_strict_right_mono)
  show ?thesis
    using assms ln_below [of b] ordered less_le_trans [OF assms(3) less_imp_le [OF beyond [of b]]]
      le_less_trans [of a knee, OF _ beyond [of b]]
    by (auto simp: timelineWeight_def Let_def)
qed

theorem weight_keeps_order_witness: "timelineWeight 4000 5000 < timelineWeight 60000 5000 \<and> timelineWeight 60000 5000 \<le> 60000"
  by (rule weight_keeps_order) simp_all

end
