(* ===== verification/Core_Status.thy ===== *)
theory Core_Status
  imports Json_Text Patterns
begin

text \<open>
  The state of the core as the shell sends it, \<open>core-model.ts\<close>: phases, the ready announcement,
  versions and capabilities, and the checks a snapshot passes before the interface shows it. The
  web edition's page origin is an argument, absent on the desktop.
\<close>

datatype core_phase =
    PhStopped | PhSpawning | PhWaitingForReady | PhHandshaking | PhReady | PhStopping | PhExited | PhError | PhUnavailable

fun core_phase_name :: "core_phase \<Rightarrow> string" where
  "core_phase_name PhStopped = ''stopped''"
| "core_phase_name PhSpawning = ''spawning''"
| "core_phase_name PhWaitingForReady = ''waiting_for_ready''"
| "core_phase_name PhHandshaking = ''handshaking''"
| "core_phase_name PhReady = ''ready''"
| "core_phase_name PhStopping = ''stopping''"
| "core_phase_name PhExited = ''exited''"
| "core_phase_name PhError = ''error''"
| "core_phase_name PhUnavailable = ''unavailable''"

definition core_phases :: "core_phase list" where
  "core_phases = [PhStopped, PhSpawning, PhWaitingForReady, PhHandshaking, PhReady, PhStopping, PhExited, PhError,
     PhUnavailable]"

interpretation core_phase_enum: string_enum core_phases core_phase_name
proof
  show "x \<in> set core_phases" for x by (cases x) (simp_all add: core_phases_def)
  show "distinct (map core_phase_name core_phases)" by (simp add: core_phases_def)
qed

definition nativeCorePhases :: "core_phase list" where
  "nativeCorePhases = [PhStopped, PhSpawning, PhWaitingForReady, PhHandshaking, PhReady, PhStopping, PhExited, PhError]"

record ready_announcement =
  an_core_version :: jstr
  an_control_api_version :: jstr
  an_protocol_contract_version :: jstr
  an_inference_url :: jstr
  an_client_inference_url :: jstr
  an_control_url :: jstr

record health_response =
  he_status :: jstr

record version_response =
  ve_core_version :: jstr
  ve_control_api_version :: jstr
  ve_protocol_contract_version :: jstr
  ve_build_commit :: jstr

datatype protocol_phase = AlphaPhase | PostAlphaPhase

fun protocol_phase_name :: "protocol_phase \<Rightarrow> string" where
  "protocol_phase_name AlphaPhase = ''alpha''"
| "protocol_phase_name PostAlphaPhase = ''post_alpha''"

definition protocol_phases :: "protocol_phase list" where "protocol_phases = [AlphaPhase, PostAlphaPhase]"

interpretation protocol_phase_enum: string_enum protocol_phases protocol_phase_name
proof
  show "x \<in> set protocol_phases" for x by (cases x) (simp_all add: protocol_phases_def)
  show "distinct (map protocol_phase_name protocol_phases)" by (simp add: protocol_phases_def)
qed

record protocol_capability =
  pt_id :: jstr
  pt_phase :: protocol_phase
  pt_primary :: bool
  pt_streaming :: bool

datatype plan_kind = NativePlan | DelegatedPlan | RelaykitPlan

fun plan_name :: "plan_kind \<Rightarrow> string" where
  "plan_name NativePlan = ''native''"
| "plan_name DelegatedPlan = ''delegated''"
| "plan_name RelaykitPlan = ''relaykit''"

definition plan_kinds :: "plan_kind list" where "plan_kinds = [NativePlan, DelegatedPlan, RelaykitPlan]"

interpretation plan_kind_enum: string_enum plan_kinds plan_name
proof
  show "x \<in> set plan_kinds" for x by (cases x) (simp_all add: plan_kinds_def)
  show "distinct (map plan_name plan_kinds)" by (simp add: plan_kinds_def)
qed

record plan_type_capability =
  pn_id :: plan_kind
  pn_available_in_alpha :: bool
  pn_uses_local_conversion :: bool

datatype edge_quality = GoodEdge | FairEdge | DiscouragedEdge

fun quality_name :: "edge_quality \<Rightarrow> string" where
  "quality_name GoodEdge = ''good''"
| "quality_name FairEdge = ''fair''"
| "quality_name DiscouragedEdge = ''discouraged''"

definition edge_qualities :: "edge_quality list" where "edge_qualities = [GoodEdge, FairEdge, DiscouragedEdge]"

interpretation edge_quality_enum: string_enum edge_qualities quality_name
proof
  show "x \<in> set edge_qualities" for x by (cases x) (simp_all add: edge_qualities_def)
  show "distinct (map quality_name edge_qualities)" by (simp add: edge_qualities_def)
qed

record conversion_edge =
  ed_from :: jstr
  ed_to :: jstr
  ed_quality :: edge_quality
  ed_streaming :: bool

record conversion_engine =
  eg_version :: "jstr option"
  eg_available :: bool
  eg_edges :: "conversion_edge list"

record capabilities_response =
  ca_protocol_contract_version :: jstr
  ca_protocols :: "protocol_capability list"
  ca_plan_types :: "plan_type_capability list"
  ca_conversion_engine :: conversion_engine

record port_fallback =
  fb_requested_port :: int
  fb_active_port :: int

record network_address =
  na_interface :: jstr
  na_ip :: jstr

datatype inference_listen = ListenLoopback | ListenAllInterfaces

fun listen_name :: "inference_listen \<Rightarrow> string" where
  "listen_name ListenLoopback = ''loopback''"
| "listen_name ListenAllInterfaces = ''all_interfaces''"

definition INFERENCE_LISTENS :: "inference_listen list" where
  "INFERENCE_LISTENS = [ListenLoopback, ListenAllInterfaces]"

interpretation inference_listen_enum: string_enum INFERENCE_LISTENS listen_name
proof
  show "x \<in> set INFERENCE_LISTENS" for x by (cases x) (simp_all add: INFERENCE_LISTENS_def)
  show "distinct (map listen_name INFERENCE_LISTENS)" by (simp add: INFERENCE_LISTENS_def)
qed

record app_snapshot =
  sn_phase :: core_phase
  sn_pid :: "int option"
  sn_ready :: "ready_announcement option"
  sn_health :: "health_response option"
  sn_version :: "version_response option"
  sn_capabilities :: "capabilities_response option"
  sn_last_error :: "jstr option"
  sn_inference_port_fallback :: "port_fallback option"
  sn_inference_listen_active :: "inference_listen option"
  sn_restart_pending :: bool
  sn_recovery_attempt :: int
  sn_recovery_scheduled_in_ms :: "int option"
  sn_app_version :: jstr

section \<open>Patterns\<close>

definition low_digit :: "nat \<Rightarrow> bool" where
  "low_digit c \<longleftrightarrow> is_lower c \<or> is_digit c"

definition protocolIDPattern :: rx where
  "protocolIDPattern =
     seqs [Cls is_lower, Many (Cls low_digit),
           Many (Seq (Cls (\<lambda>c. c \<in> set (js ''._-''))) (plus_rx (Cls low_digit)))]"

definition contractVersionPattern :: rx where
  "contractVersionPattern = Seq (Cls is_alnum) (Many (Cls (union_cls is_alnum ''._+-'')))"

definition buildCommitPattern :: rx where
  "buildCommitPattern = Alt (Rep 7 64 (Cls is_lower_hex)) (word ''unknown'')"

definition digit_between :: "nat \<Rightarrow> nat \<Rightarrow> rx" where
  "digit_between lo hi = Cls (\<lambda>c. 48 + lo \<le> c \<and> c \<le> 48 + hi)"

definition port_pattern :: rx where
  "port_pattern =
     alts (Seq (digit_between 1 9) (Rep 0 3 (digit_between 0 9)))
       [Seq (digit_between 1 5) (Rep 4 4 (digit_between 0 9)),
        seqs [chr CHR ''6'', digit_between 0 4, Rep 3 3 (digit_between 0 9)],
        seqs [word ''65'', digit_between 0 4, Rep 2 2 (digit_between 0 9)],
        seqs [word ''655'', digit_between 0 2, digit_between 0 9],
        seqs [word ''6553'', digit_between 0 5]]"

definition loopbackURLPattern :: rx where
  "loopbackURLPattern = Seq (word ''http://127.0.0.1:'') port_pattern"

text \<open>The protocols every release carries: their ID, whether primary, whether streaming.\<close>

definition requiredAlphaProtocols :: "(string \<times> bool \<times> bool) list" where
  "requiredAlphaProtocols =
     [(''openai.responses'', True, True), (''openai.responses.compact'', False, False),
      (''anthropic.messages'', False, True), (''google.generate_content'', False, True),
      (''openai.chat'', False, True), (''openai.completions'', False, True),
      (''openai.models'', False, False), (''google.models'', False, False),
      (''openai.embeddings'', False, False), (''google.embeddings'', False, False),
      (''rerank'', False, False)]"

definition SUPPORTED_CONTROL_API_VERSION :: jstr where "SUPPORTED_CONTROL_API_VERSION = js ''v1''"

definition SUPPORTED_PROTOCOL_CONTRACT_VERSION :: jstr where "SUPPORTED_PROTOCOL_CONTRACT_VERSION = js ''v1''"

section \<open>Readers\<close>

definition snapshot_error :: "jstr \<Rightarrow> jstr \<Rightarrow> js_error" where
  "snapshot_error path why = Error (js ''Invalid AstrLink IPC snapshot at '' @ path @ js '': '' @ why)"

definition snapshotObjectAt :: "json \<Rightarrow> jstr \<Rightarrow> js_error + jobj" where
  "snapshotObjectAt value path = orThrow (snapshot_error path (js ''expected an object'')) (jobject value)"

definition exactKeys :: "jobj \<Rightarrow> string list \<Rightarrow> jstr \<Rightarrow> js_error + unit" where
  "exactKeys value expected path =
     (case unexpected_key value expected of
        Some key \<Rightarrow> Inl (snapshot_error (at_key path key) (js ''unexpected field''))
      | None \<Rightarrow>
          (case missing_key value expected of
             Some key \<Rightarrow> Inl (snapshot_error (at_field path key) (js ''missing field''))
           | None \<Rightarrow> Inr ()))"

definition snapshotStringAt :: "json \<Rightarrow> jstr \<Rightarrow> nat \<Rightarrow> js_error + jstr" where
  "snapshotStringAt value path maxLength =
     (case jstring value of
        Some s \<Rightarrow>
          if s \<noteq> [] \<and> length s \<le> maxLength then Inr s
          else Inl (snapshot_error path (js ''expected a string containing 1 to '' @ dec maxLength @ js '' characters''))
      | None \<Rightarrow> Inl (snapshot_error path (js ''expected a string containing 1 to '' @ dec maxLength @ js '' characters'')))"

definition snapshotBooleanAt :: "json \<Rightarrow> jstr \<Rightarrow> js_error + bool" where
  "snapshotBooleanAt value path = orThrow (snapshot_error path (js ''expected a boolean'')) (jbool value)"

definition snapshotArrayAt :: "json \<Rightarrow> jstr \<Rightarrow> js_error + json list" where
  "snapshotArrayAt value path = orThrow (snapshot_error path (js ''expected an array'')) (jarray value)"

definition nullable :: "json \<Rightarrow> jstr \<Rightarrow> (json \<Rightarrow> jstr \<Rightarrow> js_error + 'a) \<Rightarrow> js_error + 'a option" where
  "nullable value path parser = (if value = JNull then Inr None else bindE (parser value path) (\<lambda>x. Inr (Some x)))"

definition contractVersionAt :: "json \<Rightarrow> jstr \<Rightarrow> js_error + jstr" where
  "contractVersionAt value path =
     bindE (snapshotStringAt value path 64) (\<lambda>version.
     bindE (throwIf (\<not> matches contractVersionPattern version) (snapshot_error path (js ''invalid contract version''))) (\<lambda>_.
     Inr version))"

definition supportedVersionAt :: "json \<Rightarrow> jstr \<Rightarrow> jstr \<Rightarrow> js_error + jstr" where
  "supportedVersionAt value path supported =
     bindE (contractVersionAt value path) (\<lambda>version.
     bindE (throwIf (version \<noteq> supported)
              (snapshot_error path (js ''unsupported version '' @ json_quote version))) (\<lambda>_.
     Inr version))"

text \<open>A whole number in a range.\<close>

definition whole_between :: "int \<Rightarrow> int option \<Rightarrow> json \<Rightarrow> int option" where
  "whole_between lo hi v =
     (case any_int v of
        Some n \<Rightarrow> if lo \<le> n \<and> (case hi of None \<Rightarrow> True | Some h \<Rightarrow> n \<le> h) then Some n else None
      | None \<Rightarrow> None)"

section \<open>Parsers\<close>

text \<open>
  The page origin of the web edition stands for every URL there; on the desktop a URL is a
  loopback one.
\<close>

definition good_url :: "jstr option \<Rightarrow> jstr \<Rightarrow> bool" where
  "good_url web url = (case web of Some origin \<Rightarrow> url = origin | None \<Rightarrow> matches loopbackURLPattern url)"

text \<open>\<open>text.replace(from, to)\<close> with texts: the first occurrence.\<close>

fun replace_first :: "jstr \<Rightarrow> jstr \<Rightarrow> jstr \<Rightarrow> jstr" where
  "replace_first old new s =
     (if starts_with old s then new @ drop (length old) s
      else case s of [] \<Rightarrow> [] | c # rest \<Rightarrow> c # replace_first old new rest)"

definition localhost_url :: "jstr \<Rightarrow> jstr" where
  "localhost_url url = replace_first (js ''http://127.0.0.1:'') (js ''http://localhost:'') url"

definition parseReady :: "jstr option \<Rightarrow> json \<Rightarrow> jstr \<Rightarrow> js_error + ready_announcement" where
  "parseReady web value path =
     bindE (snapshotObjectAt value path) (\<lambda>ready.
     bindE (exactKeys ready
       [''event'', ''core_version'', ''control_api_version'', ''protocol_contract_version'', ''inference_url'',
        ''client_inference_url'', ''control_url''] path) (\<lambda>_.
     bindE (throwIf (field ready ''event'' \<noteq> js_str ''ready'')
              (snapshot_error (at_field path ''event'') (js ''expected '' @ json_quote (js ''ready'')))) (\<lambda>_.
     bindE (snapshotStringAt (field ready ''core_version'') (at_field path ''core_version'') 64) (\<lambda>core.
     bindE (supportedVersionAt (field ready ''control_api_version'') (at_field path ''control_api_version'')
              SUPPORTED_CONTROL_API_VERSION) (\<lambda>control.
     bindE (supportedVersionAt (field ready ''protocol_contract_version'') (at_field path ''protocol_contract_version'')
              SUPPORTED_PROTOCOL_CONTRACT_VERSION) (\<lambda>protocol.
     bindE (snapshotStringAt (field ready ''inference_url'') (at_field path ''inference_url'') 128) (\<lambda>inference.
     bindE (snapshotStringAt (field ready ''client_inference_url'') (at_field path ''client_inference_url'') 128) (\<lambda>client.
     bindE (snapshotStringAt (field ready ''control_url'') (at_field path ''control_url'') 128) (\<lambda>control_url.
     bindE (throwIf (\<not> good_url web inference)
              (snapshot_error (at_field path ''inference_url'') (js ''expected a canonical IPv4 loopback URL''))) (\<lambda>_.
     bindE (throwIf (client \<noteq> inference \<and> client \<noteq> localhost_url inference)
              (snapshot_error (at_field path ''client_inference_url'')
                (js ''expected inference_url or localhost on the same port''))) (\<lambda>_.
     bindE (throwIf (\<not> good_url web control_url)
              (snapshot_error (at_field path ''control_url'') (js ''expected a canonical IPv4 loopback URL''))) (\<lambda>_.
     Inr \<lparr>an_core_version = core, an_control_api_version = control, an_protocol_contract_version = protocol,
          an_inference_url = inference, an_client_inference_url = client, an_control_url = control_url\<rparr>))))))))))))"

definition parseHealth :: "json \<Rightarrow> jstr \<Rightarrow> js_error + health_response" where
  "parseHealth value path =
     bindE (snapshotObjectAt value path) (\<lambda>health.
     bindE (exactKeys health [''status''] path) (\<lambda>_.
     bindE (snapshotStringAt (field health ''status'') (at_field path ''status'') 64) (\<lambda>status.
     Inr \<lparr>he_status = status\<rparr>)))"

definition parseVersion :: "json \<Rightarrow> jstr \<Rightarrow> js_error + version_response" where
  "parseVersion value path =
     bindE (snapshotObjectAt value path) (\<lambda>version.
     bindE (exactKeys version [''core_version'', ''control_api_version'', ''protocol_contract_version'', ''build_commit'']
              path) (\<lambda>_.
     bindE (snapshotStringAt (field version ''build_commit'') (at_field path ''build_commit'') 64) (\<lambda>commit.
     bindE (throwIf (\<not> matches buildCommitPattern commit)
              (snapshot_error (at_field path ''build_commit'')
                (js ''expected unknown or a lowercase hexadecimal commit''))) (\<lambda>_.
     bindE (snapshotStringAt (field version ''core_version'') (at_field path ''core_version'') 64) (\<lambda>core.
     bindE (supportedVersionAt (field version ''control_api_version'') (at_field path ''control_api_version'')
              SUPPORTED_CONTROL_API_VERSION) (\<lambda>control.
     bindE (supportedVersionAt (field version ''protocol_contract_version'') (at_field path ''protocol_contract_version'')
              SUPPORTED_PROTOCOL_CONTRACT_VERSION) (\<lambda>protocol.
     Inr \<lparr>ve_core_version = core, ve_control_api_version = control, ve_protocol_contract_version = protocol,
          ve_build_commit = commit\<rparr>)))))))"

definition parseProtocol :: "json \<Rightarrow> jstr \<Rightarrow> js_error + protocol_capability" where
  "parseProtocol value path =
     bindE (snapshotObjectAt value path) (\<lambda>protocol.
     bindE (exactKeys protocol [''id'', ''phase'', ''primary'', ''streaming''] path) (\<lambda>_.
     bindE (snapshotStringAt (field protocol ''id'') (at_field path ''id'') 96) (\<lambda>id'.
     bindE (throwIf (length id' < 3 \<or> \<not> matches protocolIDPattern id')
              (snapshot_error (at_field path ''id'') (js ''invalid protocol ID''))) (\<lambda>_.
     bindE (orThrow (snapshot_error (at_field path ''phase'')
                (js ''expected '' @ json_quote (js ''alpha'') @ js '' or '' @ json_quote (js ''post_alpha'')))
              (enum_of protocol_phases protocol_phase_name (field protocol ''phase''))) (\<lambda>phase.
     bindE (snapshotBooleanAt (field protocol ''primary'') (at_field path ''primary'')) (\<lambda>primary.
     bindE (snapshotBooleanAt (field protocol ''streaming'') (at_field path ''streaming'')) (\<lambda>streaming.
     Inr \<lparr>pt_id = id', pt_phase = phase, pt_primary = primary, pt_streaming = streaming\<rparr>)))))))"

definition parsePlan :: "json \<Rightarrow> jstr \<Rightarrow> js_error + plan_type_capability" where
  "parsePlan value path =
     bindE (snapshotObjectAt value path) (\<lambda>plan.
     bindE (exactKeys plan [''id'', ''available_in_alpha'', ''uses_local_conversion''] path) (\<lambda>_.
     bindE (orThrow (snapshot_error (at_field path ''id'') (js ''unknown plan type''))
              (enum_of plan_kinds plan_name (field plan ''id''))) (\<lambda>kind.
     bindE (snapshotBooleanAt (field plan ''available_in_alpha'') (at_field path ''available_in_alpha'')) (\<lambda>available.
     bindE (snapshotBooleanAt (field plan ''uses_local_conversion'') (at_field path ''uses_local_conversion'')) (\<lambda>converts.
     Inr \<lparr>pn_id = kind, pn_available_in_alpha = available, pn_uses_local_conversion = converts\<rparr>)))))"

definition parseConversionEdge :: "json \<Rightarrow> jstr \<Rightarrow> js_error + conversion_edge" where
  "parseConversionEdge value path =
     bindE (snapshotObjectAt value path) (\<lambda>edge.
     bindE (exactKeys edge [''from'', ''to'', ''quality'', ''streaming''] path) (\<lambda>_.
     bindE (snapshotStringAt (field edge ''quality'') (at_field path ''quality'') 256) (\<lambda>quality.
     bindE (orThrow (snapshot_error (at_field path ''quality'')
                (js ''expected '' @ json_quote (js ''good'') @ js '', '' @ json_quote (js ''fair'') @ js '', or ''
                 @ json_quote (js ''discouraged'')))
              (enum_of edge_qualities quality_name (JStr quality))) (\<lambda>q.
     bindE (snapshotStringAt (field edge ''from'') (at_field path ''from'') 256) (\<lambda>origin.
     bindE (snapshotStringAt (field edge ''to'') (at_field path ''to'') 256) (\<lambda>target.
     bindE (snapshotBooleanAt (field edge ''streaming'') (at_field path ''streaming'')) (\<lambda>streaming.
     Inr \<lparr>ed_from = origin, ed_to = target, ed_quality = q, ed_streaming = streaming\<rparr>)))))))"

definition parseConversionEngine :: "json \<Rightarrow> jstr \<Rightarrow> js_error + conversion_engine" where
  "parseConversionEngine value path =
     bindE (snapshotObjectAt value path) (\<lambda>engine.
     bindE (exactKeys engine [''name'', ''version'', ''available'', ''edges''] path) (\<lambda>_.
     bindE (throwIf (field engine ''name'' \<noteq> js_str ''relaykit'')
              (snapshot_error (at_field path ''name'') (js ''expected '' @ json_quote (js ''relaykit'')))) (\<lambda>_.
     bindE (snapshotBooleanAt (field engine ''available'') (at_field path ''available'')) (\<lambda>available.
     bindE (snapshotArrayAt (field engine ''edges'') (at_field path ''edges'')) (\<lambda>rawEdges.
     if \<not> available
     then
       bindE (throwIf (field engine ''version'' \<noteq> JNull)
                (snapshot_error (at_field path ''version'') (js ''must be null when unavailable''))) (\<lambda>_.
       bindE (throwIf (rawEdges \<noteq> [])
                (snapshot_error (at_field path ''edges'') (js ''must be empty when unavailable''))) (\<lambda>_.
       Inr \<lparr>eg_version = None, eg_available = False, eg_edges = []\<rparr>))
     else
       bindE (case jstring (field engine ''version'') of
           Some (c # version) \<Rightarrow> Inr (c # version)
         | _ \<Rightarrow> Inl (snapshot_error (at_field path ''version'') (js ''must be a non-empty string when available''))) (\<lambda>version.
       bindE (mapE (\<lambda>i edge. parseConversionEdge edge (at_index (at_field path ''edges'') i)) 0 rawEdges) (\<lambda>edges.
       Inr \<lparr>eg_version = Some version, eg_available = True, eg_edges = edges\<rparr>)))))))"

fun duplicate_protocol :: "jstr set \<Rightarrow> protocol_capability list \<Rightarrow> jstr option" where
  "duplicate_protocol seen [] = None"
| "duplicate_protocol seen (p # ps) =
     (if pt_id p \<in> seen then Some (pt_id p) else duplicate_protocol (insert (pt_id p) seen) ps)"

definition check_required :: "protocol_capability list \<Rightarrow> jstr \<Rightarrow> string \<times> bool \<times> bool \<Rightarrow> js_error + unit" where
  "check_required protocols path required =
     (case required of (id', primary, streaming) \<Rightarrow>
        (case find (\<lambda>p. pt_id p = js id') protocols of
           None \<Rightarrow> Inl (snapshot_error (at_field path ''protocols'') (js ''missing required protocol '' @ js id'))
         | Some p \<Rightarrow>
             throwIf (pt_phase p \<noteq> AlphaPhase \<or> pt_primary p \<noteq> primary \<or> pt_streaming p \<noteq> streaming)
               (snapshot_error (at_field path ''protocols'') (js ''invalid Alpha descriptor for '' @ js id'))))"

text \<open>The plans, whether available, and whether they convert here.\<close>

definition expectedPlans :: "(plan_kind \<times> bool \<times> bool) list" where
  "expectedPlans = [(NativePlan, True, False), (DelegatedPlan, True, False), (RelaykitPlan, False, True)]"

definition check_plan :: "plan_type_capability list \<Rightarrow> jstr \<Rightarrow> plan_kind \<times> bool \<times> bool \<Rightarrow> js_error + unit" where
  "check_plan plans path expected =
     (case expected of (kind, available, converts) \<Rightarrow>
        (case find (\<lambda>p. pn_id p = kind) plans of
           None \<Rightarrow> Inl (snapshot_error (at_field path ''plan_types'') (js ''invalid Alpha semantics for '' @ js (plan_name kind)))
         | Some p \<Rightarrow>
             throwIf (pn_available_in_alpha p \<noteq> available \<or> pn_uses_local_conversion p \<noteq> converts)
               (snapshot_error (at_field path ''plan_types'') (js ''invalid Alpha semantics for '' @ js (plan_name kind)))))"

definition parseCapabilities :: "json \<Rightarrow> jstr \<Rightarrow> js_error + capabilities_response" where
  "parseCapabilities value path =
     bindE (snapshotObjectAt value path) (\<lambda>capabilities.
     bindE (exactKeys capabilities [''protocol_contract_version'', ''protocols'', ''plan_types'', ''conversion_engine''] path) (\<lambda>_.
     bindE (supportedVersionAt (field capabilities ''protocol_contract_version'') (at_field path ''protocol_contract_version'')
              SUPPORTED_PROTOCOL_CONTRACT_VERSION) (\<lambda>contract.
     bindE (snapshotArrayAt (field capabilities ''protocols'') (at_field path ''protocols'')) (\<lambda>rawProtocols.
     bindE (throwIf (length rawProtocols < length requiredAlphaProtocols)
              (snapshot_error (at_field path ''protocols'')
                (js ''expected at least '' @ dec (length requiredAlphaProtocols) @ js '' entries''))) (\<lambda>_.
     bindE (mapE (\<lambda>i p. parseProtocol p (at_index (at_field path ''protocols'') i)) 0 rawProtocols) (\<lambda>protocols.
     bindE (case duplicate_protocol {} protocols of
         Some i \<Rightarrow> Inl (snapshot_error (at_field path ''protocols'') (js ''duplicate protocol '' @ i))
       | None \<Rightarrow> Inr ()) (\<lambda>_.
     bindE (forE (check_required protocols path) requiredAlphaProtocols) (\<lambda>_.
     bindE (snapshotArrayAt (field capabilities ''plan_types'') (at_field path ''plan_types'')) (\<lambda>rawPlans.
     bindE (throwIf (length rawPlans \<noteq> 3)
              (snapshot_error (at_field path ''plan_types'') (js ''expected exactly three plans''))) (\<lambda>_.
     bindE (mapE (\<lambda>i p. parsePlan p (at_index (at_field path ''plan_types'') i)) 0 rawPlans) (\<lambda>plans.
     bindE (throwIf (card (set (map pn_id plans)) \<noteq> 3)
              (snapshot_error (at_field path ''plan_types'') (js ''plan IDs must be unique''))) (\<lambda>_.
     bindE (forE (check_plan plans path) expectedPlans) (\<lambda>_.
     bindE (parseConversionEngine (field capabilities ''conversion_engine'') (at_field path ''conversion_engine'')) (\<lambda>engine.
     Inr \<lparr>ca_protocol_contract_version = contract, ca_protocols = protocols, ca_plan_types = plans,
          ca_conversion_engine = engine\<rparr>))))))))))))))"

definition parsePID :: "json \<Rightarrow> jstr \<Rightarrow> js_error + int option" where
  "parsePID value path =
     (if value = JNull then Inr None
      else bindE (orThrow (snapshot_error path (js ''expected null or a positive 32-bit process ID''))
                    (whole_between 1 (Some 4294967295) value)) (\<lambda>n. Inr (Some n)))"

definition parseLastError :: "json \<Rightarrow> jstr \<Rightarrow> js_error + jstr option" where
  "parseLastError value path =
     (if value = JNull then Inr None
      else bindE (orThrow (snapshot_error path (js ''expected null or a string'')) (jstring value)) (\<lambda>s. Inr (Some s)))"

definition parseInferenceListen :: "json \<Rightarrow> jstr \<Rightarrow> js_error + inference_listen" where
  "parseInferenceListen value path =
     orThrow (snapshot_error path (js ''unknown inference listen scope'')) (enum_of INFERENCE_LISTENS listen_name value)"

definition MAX_NETWORK_ADDRESSES :: nat where "MAX_NETWORK_ADDRESSES = 64"

definition parse_network_address :: "json \<Rightarrow> jstr \<Rightarrow> js_error + network_address" where
  "parse_network_address item path =
     bindE (snapshotObjectAt item path) (\<lambda>address.
     bindE (exactKeys address [''interface'', ''ip''] path) (\<lambda>_.
     bindE (snapshotStringAt (field address ''interface'') (at_field path ''interface'') 64) (\<lambda>interface.
     bindE (snapshotStringAt (field address ''ip'') (at_field path ''ip'') 64) (\<lambda>ip.
     Inr \<lparr>na_interface = interface, na_ip = ip\<rparr>))))"

definition parseNetworkAddresses :: "json \<Rightarrow> js_error + network_address list" where
  "parseNetworkAddresses value =
     bindE (snapshotObjectAt value (js ''$'')) (\<lambda>root'.
     bindE (exactKeys root' [''addresses''] (js ''$'')) (\<lambda>_.
     case jarray (field root' ''addresses'') of
       Some items \<Rightarrow>
         if length items \<le> MAX_NETWORK_ADDRESSES
         then mapE (\<lambda>i item. parse_network_address item (at_index (js ''$.addresses'') i)) 0 items
         else Inl (snapshot_error (js ''$.addresses'')
                (js ''expected an array of at most '' @ dec MAX_NETWORK_ADDRESSES @ js '' addresses''))
     | None \<Rightarrow> Inl (snapshot_error (js ''$.addresses'')
                (js ''expected an array of at most '' @ dec MAX_NETWORK_ADDRESSES @ js '' addresses''))))"

definition portAt :: "json \<Rightarrow> jstr \<Rightarrow> js_error + int" where
  "portAt value path =
     orThrow (snapshot_error path (js ''expected a port from 1 through 65535'')) (whole_between 1 (Some 65535) value)"

definition parsePortFallback :: "json \<Rightarrow> jstr \<Rightarrow> js_error + port_fallback" where
  "parsePortFallback value path =
     bindE (snapshotObjectAt value path) (\<lambda>fallback.
     bindE (exactKeys fallback [''requested_port'', ''active_port''] path) (\<lambda>_.
     bindE (portAt (field fallback ''requested_port'') (at_field path ''requested_port'')) (\<lambda>requested.
     bindE (portAt (field fallback ''active_port'') (at_field path ''active_port'')) (\<lambda>active.
     bindE (throwIf (requested = active) (snapshot_error path (js ''fallback ports must differ''))) (\<lambda>_.
     Inr \<lparr>fb_requested_port = requested, fb_active_port = active\<rparr>)))))"

definition active_url :: "port_fallback \<Rightarrow> jstr" where
  "active_url fallback = js ''http://127.0.0.1:'' @ dec (nat (fb_active_port fallback))"

text \<open>What the parts say of each other.\<close>

definition snapshot_agrees :: "jstr option \<Rightarrow> app_snapshot \<Rightarrow> js_error + unit" where
  "snapshot_agrees web s =
     bindE (throwIf (case sn_inference_port_fallback s of
         None \<Rightarrow> False
       | Some fallback \<Rightarrow> map_option an_inference_url (sn_ready s) \<noteq> Some (active_url fallback))
       (snapshot_error (js ''$.inference_port_fallback'') (js ''must match the active inference URL''))) (\<lambda>_.
     bindE (throwIf (case (sn_ready s, sn_version s) of
         (Some ready, Some version) \<Rightarrow> an_core_version ready \<noteq> ve_core_version version | _ \<Rightarrow> False)
       (snapshot_error (js ''$.version.core_version'') (js ''does not match the ready announcement''))) (\<lambda>_.
     throwIf (sn_phase s = PhReady
         \<and> (web = None \<and> sn_pid s = None \<or> sn_ready s = None \<or> sn_health s = None \<or> sn_version s = None
            \<or> sn_capabilities s = None))
       (snapshot_error (js ''$'') (js ''the ready phase requires pid, ready, health, version, and capabilities''))))"

definition parseAppSnapshot :: "jstr option \<Rightarrow> json \<Rightarrow> js_error + app_snapshot" where
  "parseAppSnapshot web value =
     (let path = js ''$'' in
     bindE (snapshotObjectAt value path) (\<lambda>snapshot.
     bindE (exactKeys snapshot
       [''app_version'', ''phase'', ''pid'', ''ready'', ''last_error'', ''inference_port_fallback'',
        ''inference_listen_active'', ''restart_pending'', ''health'', ''version'', ''capabilities'',
        ''recovery_attempt'', ''recovery_scheduled_in_ms''] path) (\<lambda>_.
     bindE (orThrow (snapshot_error (js ''$.phase'') (js ''unknown native Core phase''))
              (enum_of nativeCorePhases core_phase_name (field snapshot ''phase''))) (\<lambda>phase.
     bindE (snapshotStringAt (field snapshot ''app_version'') (js ''$.app_version'') 64) (\<lambda>app.
     bindE (parsePID (field snapshot ''pid'') (js ''$.pid'')) (\<lambda>pid.
     bindE (nullable (field snapshot ''ready'') (js ''$.ready'') (parseReady web)) (\<lambda>ready.
     bindE (parseLastError (field snapshot ''last_error'') (js ''$.last_error'')) (\<lambda>last_error.
     bindE (nullable (field snapshot ''inference_port_fallback'') (js ''$.inference_port_fallback'') parsePortFallback) (\<lambda>fallback.
     bindE (nullable (field snapshot ''inference_listen_active'') (js ''$.inference_listen_active'') parseInferenceListen) (\<lambda>listen.
     bindE (snapshotBooleanAt (field snapshot ''restart_pending'') (js ''$.restart_pending'')) (\<lambda>restart.
     bindE (nullable (field snapshot ''health'') (js ''$.health'') parseHealth) (\<lambda>health.
     bindE (nullable (field snapshot ''version'') (js ''$.version'') parseVersion) (\<lambda>version.
     bindE (nullable (field snapshot ''capabilities'') (js ''$.capabilities'') parseCapabilities) (\<lambda>capabilities.
     bindE (orThrow (snapshot_error (js ''$.recovery_attempt'') (js ''expected an integer from 0 through 5''))
              (whole_between 0 (Some 5) (field snapshot ''recovery_attempt''))) (\<lambda>attempt.
     bindE (nullable (field snapshot ''recovery_scheduled_in_ms'') (js ''$.recovery_scheduled_in_ms'') (\<lambda>v p.
              orThrow (snapshot_error p (js ''expected null or a non-negative integer'')) (whole_between 0 None v))) (\<lambda>scheduled.
     let parsed = \<lparr>sn_phase = phase, sn_pid = pid, sn_ready = ready, sn_health = health, sn_version = version,
           sn_capabilities = capabilities, sn_last_error = last_error, sn_inference_port_fallback = fallback,
           sn_inference_listen_active = listen, sn_restart_pending = restart, sn_recovery_attempt = attempt,
           sn_recovery_scheduled_in_ms = scheduled, sn_app_version = app\<rparr> in
     bindE (snapshot_agrees web parsed) (\<lambda>_. Inr parsed)))))))))))))))))"

section \<open>Snapshots made here\<close>

definition browserSnapshot :: app_snapshot where
  "browserSnapshot = \<lparr>sn_phase = PhUnavailable, sn_pid = None, sn_ready = None, sn_health = None, sn_version = None,
     sn_capabilities = None, sn_last_error = Some (js ''The native bridge is unavailable. Open this UI with Tauri.''),
     sn_inference_port_fallback = None, sn_inference_listen_active = None, sn_restart_pending = False,
     sn_recovery_attempt = 0, sn_recovery_scheduled_in_ms = None, sn_app_version = js ''Unknown''\<rparr>"

definition failedSnapshot :: "app_snapshot option \<Rightarrow> jstr \<Rightarrow> app_snapshot" where
  "failedSnapshot current message =
     \<lparr>sn_phase = PhError, sn_pid = None, sn_ready = None, sn_health = None, sn_version = None, sn_capabilities = None,
      sn_last_error = Some message, sn_inference_port_fallback = None, sn_inference_listen_active = None,
      sn_restart_pending = False,
      sn_recovery_attempt = (case current of None \<Rightarrow> 0 | Some s \<Rightarrow> sn_recovery_attempt s),
      sn_recovery_scheduled_in_ms = None,
      sn_app_version = (case current of None \<Rightarrow> js ''Unknown'' | Some s \<Rightarrow> sn_app_version s)\<rparr>"

datatype phase_tone = PhasePositive | PhasePending | PhaseNegative | PhaseNeutral

definition phaseTone :: "core_phase \<Rightarrow> phase_tone" where
  "phaseTone phase =
     (if phase = PhReady then PhasePositive
      else if phase \<in> {PhSpawning, PhWaitingForReady, PhHandshaking, PhStopping} then PhasePending
      else if phase \<in> {PhError, PhExited} then PhaseNegative
      else PhaseNeutral)"

definition alphaPlanCount :: "capabilities_response option \<Rightarrow> nat" where
  "alphaPlanCount capabilities =
     (case capabilities of None \<Rightarrow> 0 | Some c \<Rightarrow> length (filter pn_available_in_alpha (ca_plan_types c)))"

section \<open>What the readers accept\<close>

named_theorems snapshot_readers "what each snapshot reader accepts"

lemma snapshotObjectAt_iff [snapshot_readers]: "snapshotObjectAt v path = Inr o' \<longleftrightarrow> v = JObj o'"
  by (simp add: snapshotObjectAt_def res)

definition has_keys :: "string list \<Rightarrow> jobj \<Rightarrow> bool" where
  "has_keys ks o' \<longleftrightarrow> unexpected_key o' ks = None \<and> missing_key o' ks = None"

lemma exactKeys_iff [snapshot_readers]: "exactKeys o' ks path = Inr u \<longleftrightarrow> has_keys ks o'"
  by (auto simp: exactKeys_def has_keys_def split: option.splits)

definition short_text :: "nat \<Rightarrow> jstr \<Rightarrow> bool" where
  "short_text n s \<longleftrightarrow> s \<noteq> [] \<and> length s \<le> n"

lemma snapshotStringAt_iff [snapshot_readers]: "snapshotStringAt v path n = Inr s \<longleftrightarrow> v = JStr s \<and> short_text n s"
  by (auto simp: snapshotStringAt_def short_text_def split: option.splits)

lemma snapshotBooleanAt_iff [snapshot_readers]: "snapshotBooleanAt v path = Inr b \<longleftrightarrow> v = JBool b"
  by (simp add: snapshotBooleanAt_def res)

lemma snapshotArrayAt_iff [snapshot_readers]: "snapshotArrayAt v path = Inr vs \<longleftrightarrow> v = JArr vs"
  by (simp add: snapshotArrayAt_def res)

lemma nullable_iff [snapshot_readers]:
  "nullable v path parser = Inr x \<longleftrightarrow> (if v = JNull then x = None else \<exists>y. parser v path = Inr y \<and> x = Some y)"
  by (auto simp: nullable_def res)

lemma supportedVersionAt_iff:
  "supportedVersionAt v path supported = Inr s \<longleftrightarrow>
     s = supported \<and> v = JStr s \<and> short_text 64 s \<and> matches contractVersionPattern s"
  by (auto simp: supportedVersionAt_def contractVersionAt_def res snapshot_readers)

lemma v1_supported: "short_text 64 (js ''v1'') \<and> matches contractVersionPattern (js ''v1'')"
  by (simp add: short_text_def contractVersionPattern_def matches_def js_def union_cls_def is_alnum_def is_lower_def is_upper_def is_digit_def)

lemma version_iff [snapshot_readers]:
  "supportedVersionAt v path SUPPORTED_CONTROL_API_VERSION = Inr s \<longleftrightarrow> s = js ''v1'' \<and> v = JStr (js ''v1'')"
  "supportedVersionAt v path SUPPORTED_PROTOCOL_CONTRACT_VERSION = Inr s \<longleftrightarrow> s = js ''v1'' \<and> v = JStr (js ''v1'')"
  using v1_supported by (auto simp: supportedVersionAt_iff SUPPORTED_CONTROL_API_VERSION_def SUPPORTED_PROTOCOL_CONTRACT_VERSION_def)

lemma whole_between_iff [snapshot_readers]:
  "whole_between lo hi v = Some n \<longleftrightarrow> v = jint n \<and> lo \<le> n \<and> (case hi of None \<Rightarrow> True | Some h \<Rightarrow> n \<le> h)"
  by (auto simp: whole_between_def jsval split: option.splits)

lemmas snapshot_enums = core_phase_enum.enum_of_among protocol_phase_enum.enum_of_Some plan_kind_enum.enum_of_Some
  edge_quality_enum.enum_of_Some inference_listen_enum.enum_of_Some

section \<open>Valid values\<close>

definition ready_ok :: "jstr option \<Rightarrow> ready_announcement \<Rightarrow> bool" where
  "ready_ok web r \<longleftrightarrow> short_text 64 (an_core_version r) \<and> an_control_api_version r = js ''v1''
     \<and> an_protocol_contract_version r = js ''v1'' \<and> short_text 128 (an_inference_url r)
     \<and> short_text 128 (an_client_inference_url r) \<and> short_text 128 (an_control_url r)
     \<and> good_url web (an_inference_url r) \<and> good_url web (an_control_url r)
     \<and> an_client_inference_url r \<in> {an_inference_url r, localhost_url (an_inference_url r)}"

definition ready_json :: "ready_announcement \<Rightarrow> json" where
  "ready_json r = JObj [(js ''event'', js_str ''ready''), (js ''core_version'', JStr (an_core_version r)),
     (js ''control_api_version'', JStr (an_control_api_version r)),
     (js ''protocol_contract_version'', JStr (an_protocol_contract_version r)),
     (js ''inference_url'', JStr (an_inference_url r)), (js ''client_inference_url'', JStr (an_client_inference_url r)),
     (js ''control_url'', JStr (an_control_url r))]"

lemma has_keys_simp: "has_keys ks o' \<longleftrightarrow> list_all (\<lambda>e. fst e \<in> js ` set ks) o' \<and> list_all (\<lambda>k. map_of o' (js k) \<noteq> None) ks"
  by (auto simp: has_keys_def unexpected_key_def missing_key_def has_own_def find_None_iff list_all_iff)

interpretation ready_codec: json_codec "parseReady web" ready_json "ready_ok web" for web
proof
  fix v path x
  assume "parseReady web v path = Inr x"
  then show "ready_ok web x" by (auto simp: parseReady_def ready_ok_def res snapshot_readers)
next
  fix x path
  assume "ready_ok web x"
  then show "parseReady web (ready_json x) path = Inr x"
    by (cases x) (auto simp: parseReady_def ready_json_def ready_ok_def res snapshot_readers has_keys_simp field_def field_at_def)
qed

definition health_ok :: "health_response \<Rightarrow> bool" where
  "health_ok h \<longleftrightarrow> short_text 64 (he_status h)"

definition health_json :: "health_response \<Rightarrow> json" where
  "health_json h = JObj [(js ''status'', JStr (he_status h))]"

definition version_ok :: "version_response \<Rightarrow> bool" where
  "version_ok v \<longleftrightarrow> short_text 64 (ve_core_version v) \<and> ve_control_api_version v = js ''v1''
     \<and> ve_protocol_contract_version v = js ''v1'' \<and> short_text 64 (ve_build_commit v)
     \<and> matches buildCommitPattern (ve_build_commit v)"

definition version_json :: "version_response \<Rightarrow> json" where
  "version_json v = JObj [(js ''core_version'', JStr (ve_core_version v)),
     (js ''control_api_version'', JStr (ve_control_api_version v)),
     (js ''protocol_contract_version'', JStr (ve_protocol_contract_version v)),
     (js ''build_commit'', JStr (ve_build_commit v))]"

definition protocol_ok :: "protocol_capability \<Rightarrow> bool" where
  "protocol_ok p \<longleftrightarrow> short_text 96 (pt_id p) \<and> 3 \<le> length (pt_id p) \<and> matches protocolIDPattern (pt_id p)"

definition protocol_json :: "protocol_capability \<Rightarrow> json" where
  "protocol_json p = JObj [(js ''id'', JStr (pt_id p)), (js ''phase'', js_str (protocol_phase_name (pt_phase p))),
     (js ''primary'', JBool (pt_primary p)), (js ''streaming'', JBool (pt_streaming p))]"

definition plan_json :: "plan_type_capability \<Rightarrow> json" where
  "plan_json p = JObj [(js ''id'', js_str (plan_name (pn_id p))), (js ''available_in_alpha'', JBool (pn_available_in_alpha p)),
     (js ''uses_local_conversion'', JBool (pn_uses_local_conversion p))]"

definition edge_ok :: "conversion_edge \<Rightarrow> bool" where
  "edge_ok e \<longleftrightarrow> short_text 256 (ed_from e) \<and> short_text 256 (ed_to e)"

definition edge_json :: "conversion_edge \<Rightarrow> json" where
  "edge_json e = JObj [(js ''from'', JStr (ed_from e)), (js ''to'', JStr (ed_to e)),
     (js ''quality'', js_str (quality_name (ed_quality e))), (js ''streaming'', JBool (ed_streaming e))]"

definition engine_ok :: "conversion_engine \<Rightarrow> bool" where
  "engine_ok e \<longleftrightarrow> (if eg_available e then eg_version e \<noteq> None \<and> eg_version e \<noteq> Some [] \<and> list_all edge_ok (eg_edges e)
     else eg_version e = None \<and> eg_edges e = [])"

definition engine_json :: "conversion_engine \<Rightarrow> json" where
  "engine_json e = JObj [(js ''name'', js_str ''relaykit''),
     (js ''version'', case eg_version e of None \<Rightarrow> JNull | Some s \<Rightarrow> JStr s),
     (js ''available'', JBool (eg_available e)), (js ''edges'', JArr (map edge_json (eg_edges e)))]"

definition fallback_ok :: "port_fallback \<Rightarrow> bool" where
  "fallback_ok f \<longleftrightarrow> fb_requested_port f \<in> {1..65535} \<and> fb_active_port f \<in> {1..65535} \<and> fb_requested_port f \<noteq> fb_active_port f"

definition fallback_json :: "port_fallback \<Rightarrow> json" where
  "fallback_json f = JObj [(js ''requested_port'', jint (fb_requested_port f)), (js ''active_port'', jint (fb_active_port f))]"

lemmas object_eval = res snapshot_readers has_keys_simp field_def field_at_def

interpretation health_codec: json_codec parseHealth health_json health_ok
  by unfold_locales (auto simp: parseHealth_def health_ok_def health_json_def object_eval)

interpretation version_codec: json_codec parseVersion version_json version_ok
proof
  fix v path x
  assume "parseVersion v path = Inr x"
  then show "version_ok x" by (auto simp: parseVersion_def version_ok_def res snapshot_readers)
next
  fix x path
  assume "version_ok x"
  then show "parseVersion (version_json x) path = Inr x"
    by (cases x) (auto simp: parseVersion_def version_json_def version_ok_def object_eval)
qed

interpretation protocol_codec: json_codec parseProtocol protocol_json protocol_ok
proof
  fix v path x
  assume "parseProtocol v path = Inr x"
  then show "protocol_ok x" by (auto simp: parseProtocol_def protocol_ok_def res snapshot_readers snapshot_enums)
next
  fix x path
  assume "protocol_ok x"
  then show "parseProtocol (protocol_json x) path = Inr x"
    by (cases x) (auto simp: parseProtocol_def protocol_json_def protocol_ok_def object_eval snapshot_enums)
qed

interpretation plan_codec: json_codec parsePlan plan_json "\<lambda>_. True"
proof
  fix x path
  show "parsePlan (plan_json x) path = Inr x"
    by (cases x) (auto simp: parsePlan_def plan_json_def object_eval snapshot_enums)
qed simp

interpretation edge_codec: json_codec parseConversionEdge edge_json edge_ok
proof
  fix v path x
  assume "parseConversionEdge v path = Inr x"
  then show "edge_ok x" by (auto simp: parseConversionEdge_def edge_ok_def res snapshot_readers snapshot_enums)
next
  have quality: "js_str (quality_name q) = JStr (js (quality_name q)) \<and> short_text 256 (js (quality_name q))" for q
    by (cases q) (simp_all add: js_str_def short_text_def)
  fix x path
  assume "edge_ok x"
  then show "parseConversionEdge (edge_json x) path = Inr x"
    using quality [of "ed_quality x"]
    by (cases x) (auto simp: parseConversionEdge_def edge_json_def edge_ok_def object_eval edge_quality_enum.enum_of_Some)
qed

interpretation fallback_codec: json_codec parsePortFallback fallback_json fallback_ok
proof
  fix v path x
  assume "parsePortFallback v path = Inr x"
  then show "fallback_ok x" by (auto simp: parsePortFallback_def portAt_def fallback_ok_def res snapshot_readers)
next
  fix x path
  assume "fallback_ok x"
  then show "parsePortFallback (fallback_json x) path = Inr x"
    by (cases x) (auto simp: parsePortFallback_def portAt_def fallback_json_def fallback_ok_def object_eval)
qed

lemma engine_edges_ok:
  "mapE (\<lambda>i edge. parseConversionEdge edge (p i)) 0 vs = Inr es \<Longrightarrow> list_all edge_ok es"
  by (rule edge_codec.parse_array_valid)

lemma engine_parsed: "parseConversionEngine v path = Inr x \<Longrightarrow> engine_ok x"
  by (auto simp: parseConversionEngine_def engine_ok_def res snapshot_readers dest: engine_edges_ok split: if_splits option.splits list.splits)

lemma engine_rendered:
  assumes "engine_ok x"
  shows "parseConversionEngine (engine_json x) path = Inr x"
proof (cases "eg_available x")
  case True
  then obtain c s where v: "eg_version x = Some (c # s)" and edges: "list_all edge_ok (eg_edges x)"
    using assms by (auto simp: engine_ok_def neq_Nil_conv)
  have "mapE (\<lambda>i edge. parseConversionEdge edge (at_index (at_field path ''edges'') i)) 0 (map edge_json (eg_edges x)) = Inr (eg_edges x)"
    by (rule edge_codec.parse_array_render [OF edges])
  then show ?thesis using True v
    by (cases x) (auto simp: parseConversionEngine_def engine_json_def object_eval)
next
  case False
  then show ?thesis using assms
    by (cases x) (auto simp: parseConversionEngine_def engine_json_def engine_ok_def object_eval)
qed

interpretation engine_codec: json_codec parseConversionEngine engine_json engine_ok
  by unfold_locales (fact engine_parsed engine_rendered)+

section \<open>Capabilities\<close>

lemma duplicate_protocol_iff:
  "duplicate_protocol seen ps = None \<longleftrightarrow> distinct (map pt_id ps) \<and> set (map pt_id ps) \<inter> seen = {}"
  by (induction seen ps rule: duplicate_protocol.induct) auto

definition carries :: "protocol_capability list \<Rightarrow> string \<times> bool \<times> bool \<Rightarrow> bool" where
  "carries ps = (\<lambda>(i, primary, streaming).
     \<lparr>pt_id = js i, pt_phase = AlphaPhase, pt_primary = primary, pt_streaming = streaming\<rparr> \<in> set ps)"

lemma find_by_id: "distinct (map f xs) \<Longrightarrow> x \<in> set xs \<Longrightarrow> find (\<lambda>y. f y = f x) xs = Some x"
  by (induction xs) (auto simp: image_iff)

lemma find_eq_Some: "distinct (map f xs) \<Longrightarrow> find (\<lambda>y. f y = k) xs = Some x \<longleftrightarrow> x \<in> set xs \<and> f x = k"
  using find_by_id [of f xs x] by (auto simp: find_Some_iff)

lemma check_required_iff:
  assumes "distinct (map pt_id ps)"
  shows "check_required ps path r = Inr () \<longleftrightarrow> carries ps r"
proof -
  obtain i primary streaming where r: "r = (i, primary, streaming)" by (cases r)
  show ?thesis
  proof (cases "find (\<lambda>p. pt_id p = js i) ps")
    case None
    then have "\<not> carries ps r" by (auto simp: r carries_def find_None_iff)
    moreover have "check_required ps path r \<noteq> Inr ()" using None by (simp add: r check_required_def)
    ultimately show ?thesis by blast
  next
    case (Some p)
    then have p: "p \<in> set ps" "pt_id p = js i" using find_eq_Some [OF assms, of "js i" p] by simp_all
    have "carries ps r \<longleftrightarrow> p = \<lparr>pt_id = js i, pt_phase = AlphaPhase, pt_primary = primary, pt_streaming = streaming\<rparr>"
      using p assms by (auto simp: r carries_def distinct_map inj_on_def)
    then show ?thesis using Some p by (cases p) (auto simp: r check_required_def res)
  qed
qed

definition offers :: "plan_type_capability list \<Rightarrow> plan_kind \<times> bool \<times> bool \<Rightarrow> bool" where
  "offers ps = (\<lambda>(kind, available, converts).
     \<lparr>pn_id = kind, pn_available_in_alpha = available, pn_uses_local_conversion = converts\<rparr> \<in> set ps)"

lemma check_plan_iff:
  assumes "distinct (map pn_id ps)"
  shows "check_plan ps path r = Inr () \<longleftrightarrow> offers ps r"
proof -
  obtain kind available converts where r: "r = (kind, available, converts)" by (cases r)
  show ?thesis
  proof (cases "find (\<lambda>p. pn_id p = kind) ps")
    case None
    then have "\<not> offers ps r" by (auto simp: r offers_def find_None_iff)
    moreover have "check_plan ps path r \<noteq> Inr ()" using None by (simp add: r check_plan_def)
    ultimately show ?thesis by blast
  next
    case (Some p)
    then have p: "p \<in> set ps" "pn_id p = kind" using find_eq_Some [OF assms, of kind p] by simp_all
    have "offers ps r \<longleftrightarrow> p = \<lparr>pn_id = kind, pn_available_in_alpha = available, pn_uses_local_conversion = converts\<rparr>"
      using p assms by (auto simp: r offers_def distinct_map inj_on_def)
    then show ?thesis using Some p by (cases p) (auto simp: r check_plan_def res)
  qed
qed

definition capabilities_ok :: "capabilities_response \<Rightarrow> bool" where
  "capabilities_ok c \<longleftrightarrow> ca_protocol_contract_version c = js ''v1'' \<and> list_all protocol_ok (ca_protocols c)
     \<and> length requiredAlphaProtocols \<le> length (ca_protocols c) \<and> distinct (map pt_id (ca_protocols c))
     \<and> list_all (carries (ca_protocols c)) requiredAlphaProtocols
     \<and> length (ca_plan_types c) = 3 \<and> distinct (map pn_id (ca_plan_types c))
     \<and> list_all (offers (ca_plan_types c)) expectedPlans \<and> engine_ok (ca_conversion_engine c)"

definition capabilities_json :: "capabilities_response \<Rightarrow> json" where
  "capabilities_json c = JObj [(js ''protocol_contract_version'', JStr (ca_protocol_contract_version c)),
     (js ''protocols'', JArr (map protocol_json (ca_protocols c))), (js ''plan_types'', JArr (map plan_json (ca_plan_types c))),
     (js ''conversion_engine'', engine_json (ca_conversion_engine c))]"

lemma three_kinds: "length ps = 3 \<Longrightarrow> card (set (map pn_id ps)) = 3 \<longleftrightarrow> distinct (map pn_id ps)"
  using distinct_card [of "map pn_id ps"] card_distinct [of "map pn_id ps"] by auto

lemma forE_all: "forE f xs = Inr u \<longleftrightarrow> list_all (\<lambda>x. f x = Inr ()) xs"
  by (simp add: forE_eq_Inr list_all_iff)

lemma capabilities_parsed:
  assumes "parseCapabilities v path = Inr x"
  shows "capabilities_ok x"
proof -
  obtain rawProtocols protocols rawPlans plans engine e where parts:
    "length requiredAlphaProtocols \<le> length rawProtocols"
    "mapE (\<lambda>i p. parseProtocol p (at_index (at_field path ''protocols'') i)) 0 rawProtocols = Inr protocols"
    "duplicate_protocol {} protocols = None"
    "forE (check_required protocols path) requiredAlphaProtocols = Inr ()"
    "length rawPlans = 3"
    "mapE (\<lambda>i p. parsePlan p (at_index (at_field path ''plan_types'') i)) 0 rawPlans = Inr plans"
    "card (set (map pn_id plans)) = 3"
    "forE (check_plan plans path) expectedPlans = Inr ()"
    "parseConversionEngine e (at_field path ''conversion_engine'') = Inr engine"
    and x: "x = \<lparr>ca_protocol_contract_version = js ''v1'', ca_protocols = protocols, ca_plan_types = plans,
          ca_conversion_engine = engine\<rparr>"
    using assms unfolding parseCapabilities_def
    by (elim bindE_InrE) (simp add: snapshot_readers res not_less del: set_map forE_eq_Inr split: option.splits)
  have lens: "length rawProtocols = length protocols" "length rawPlans = length plans"
    using parts mapE_length by auto
  have protocols: "distinct (map pt_id protocols)" "list_all (carries protocols) requiredAlphaProtocols"
    using parts by (simp_all add: duplicate_protocol_iff forE_all check_required_iff)
  have plans: "distinct (map pn_id plans)"
    using parts lens three_kinds [of plans] by simp
  then have "list_all (offers plans) expectedPlans"
    using parts by (simp add: forE_all check_plan_iff)
  then show ?thesis
    using parts lens protocols plans protocol_codec.parse_array_valid [OF parts(2)] engine_codec.parse_valid [OF parts(9)]
    by (simp add: x capabilities_ok_def)
qed

lemma capabilities_rendered:
  assumes "capabilities_ok x"
  shows "parseCapabilities (capabilities_json x) path = Inr x"
proof -
  have protocols: "mapE (\<lambda>i p. parseProtocol p (at_index (at_field path ''protocols'') i)) 0 (map protocol_json (ca_protocols x))
      = Inr (ca_protocols x)"
    by (rule protocol_codec.parse_array_render) (use assms in \<open>simp add: capabilities_ok_def\<close>)
  have plans: "mapE (\<lambda>i p. parsePlan p (at_index (at_field path ''plan_types'') i)) 0 (map plan_json (ca_plan_types x))
      = Inr (ca_plan_types x)"
    by (rule plan_codec.parse_array_render) (simp add: list_all_iff)
  have engine: "parseConversionEngine (engine_json (ca_conversion_engine x)) p = Inr (ca_conversion_engine x)" for p
    by (rule engine_codec.parse_render) (use assms in \<open>simp add: capabilities_ok_def\<close>)
  have checks: "forE (check_required (ca_protocols x) path) requiredAlphaProtocols = Inr ()"
    "forE (check_plan (ca_plan_types x) path) expectedPlans = Inr ()"
    using assms by (auto simp: capabilities_ok_def forE_all check_required_iff check_plan_iff)
  have none: "duplicate_protocol {} (ca_protocols x) = None" "card (set (map pn_id (ca_plan_types x))) = 3"
    using assms by (auto simp: capabilities_ok_def duplicate_protocol_iff three_kinds simp del: set_map)
  show ?thesis
    using assms protocols plans engine checks none
    by (cases x) (simp add: parseCapabilities_def capabilities_json_def capabilities_ok_def object_eval del: set_map)
qed

interpretation capabilities_codec: json_codec parseCapabilities capabilities_json capabilities_ok
  by unfold_locales (fact capabilities_parsed capabilities_rendered)+

section \<open>Snapshots\<close>

definition snapshot_ok :: "jstr option \<Rightarrow> app_snapshot \<Rightarrow> bool" where
  "snapshot_ok web s \<longleftrightarrow> sn_phase s \<noteq> PhUnavailable \<and> short_text 64 (sn_app_version s)
     \<and> pred_option (\<lambda>n. n \<in> {1..4294967295}) (sn_pid s) \<and> pred_option (ready_ok web) (sn_ready s)
     \<and> pred_option health_ok (sn_health s) \<and> pred_option version_ok (sn_version s)
     \<and> pred_option capabilities_ok (sn_capabilities s) \<and> pred_option fallback_ok (sn_inference_port_fallback s)
     \<and> sn_recovery_attempt s \<in> {0..5} \<and> pred_option (\<lambda>n. 0 \<le> n) (sn_recovery_scheduled_in_ms s)
     \<and> snapshot_agrees web s = Inr ()"

definition or_null :: "('a \<Rightarrow> json) \<Rightarrow> 'a option \<Rightarrow> json" where
  "or_null f x = (case x of None \<Rightarrow> JNull | Some y \<Rightarrow> f y)"

definition snapshot_json :: "app_snapshot \<Rightarrow> json" where
  "snapshot_json s = JObj
     [(js ''app_version'', JStr (sn_app_version s)), (js ''phase'', js_str (core_phase_name (sn_phase s))),
      (js ''pid'', or_null jint (sn_pid s)), (js ''ready'', or_null ready_json (sn_ready s)),
      (js ''last_error'', or_null JStr (sn_last_error s)),
      (js ''inference_port_fallback'', or_null fallback_json (sn_inference_port_fallback s)),
      (js ''inference_listen_active'', or_null (\<lambda>l. js_str (listen_name l)) (sn_inference_listen_active s)),
      (js ''restart_pending'', JBool (sn_restart_pending s)), (js ''health'', or_null health_json (sn_health s)),
      (js ''version'', or_null version_json (sn_version s)),
      (js ''capabilities'', or_null capabilities_json (sn_capabilities s)),
      (js ''recovery_attempt'', jint (sn_recovery_attempt s)),
      (js ''recovery_scheduled_in_ms'', or_null jint (sn_recovery_scheduled_in_ms s))]"

lemma nullable_or_null:
  "(\<And>y. x = Some y \<Longrightarrow> f y \<noteq> JNull \<and> parser (f y) path = Inr y) \<Longrightarrow> nullable (or_null f x) path parser = Inr x"
  by (cases x) (auto simp: nullable_def or_null_def)

lemma nullable_pred: "nullable v path parser = Inr x \<Longrightarrow> (\<And>y. parser v path = Inr y \<Longrightarrow> P y) \<Longrightarrow> pred_option P x"
  by (auto simp: snapshot_readers split: if_splits)

lemma native_phase: "p \<in> set nativeCorePhases \<longleftrightarrow> p \<noteq> PhUnavailable"
  by (cases p) (simp_all add: nativeCorePhases_def)

lemma scheduled_pred:
  "nullable v path (\<lambda>v p. orThrow (e p) (whole_between 0 None v)) = Inr x \<Longrightarrow> pred_option (\<lambda>n. 0 \<le> n) x"
  by (erule nullable_pred) (simp add: res snapshot_readers)

lemma snapshot_parsed: "parseAppSnapshot web v = Inr s \<Longrightarrow> snapshot_ok web s"
  unfolding parseAppSnapshot_def Let_def
  apply (elim bindE_InrE)
  apply (drule nullable_pred [OF _ ready_codec.parse_valid], assumption)
  apply (drule nullable_pred [OF _ fallback_codec.parse_valid], assumption)
  apply (drule nullable_pred [OF _ health_codec.parse_valid], assumption)
  apply (drule nullable_pred [OF _ version_codec.parse_valid], assumption)
  apply (drule nullable_pred [OF _ capabilities_codec.parse_valid], assumption)
  apply (drule scheduled_pred)
  apply (auto simp: snapshot_ok_def parsePID_def snapshot_readers res snapshot_enums native_phase simp del: nullable_iff split: if_splits)
  done

lemma snapshot_rendered:
  assumes "snapshot_ok web s"
  shows "parseAppSnapshot web (snapshot_json s) = Inr s"
proof -
  note ok = assms [unfolded snapshot_ok_def]
  have ready: "nullable (or_null ready_json (sn_ready s)) p (parseReady web) = Inr (sn_ready s)" for p
    by (rule nullable_or_null) (use ok ready_codec.parse_render in \<open>auto simp: ready_json_def\<close>)
  have health: "nullable (or_null health_json (sn_health s)) p parseHealth = Inr (sn_health s)" for p
    by (rule nullable_or_null) (use ok health_codec.parse_render in \<open>auto simp: health_json_def\<close>)
  have version: "nullable (or_null version_json (sn_version s)) p parseVersion = Inr (sn_version s)" for p
    by (rule nullable_or_null) (use ok version_codec.parse_render in \<open>auto simp: version_json_def\<close>)
  have capabilities: "nullable (or_null capabilities_json (sn_capabilities s)) p parseCapabilities = Inr (sn_capabilities s)" for p
    by (rule nullable_or_null) (use ok capabilities_codec.parse_render in \<open>auto simp: capabilities_json_def\<close>)
  have fallback: "nullable (or_null fallback_json (sn_inference_port_fallback s)) p parsePortFallback
      = Inr (sn_inference_port_fallback s)" for p
    by (rule nullable_or_null) (use ok fallback_codec.parse_render in \<open>auto simp: fallback_json_def\<close>)
  have listen: "nullable (or_null (\<lambda>l. js_str (listen_name l)) (sn_inference_listen_active s)) p parseInferenceListen
      = Inr (sn_inference_listen_active s)" for p
    by (rule nullable_or_null)
      (simp add: parseInferenceListen_def js_str_def res inference_listen_enum.enum_of_Some)
  have scheduled: "nullable (or_null jint (sn_recovery_scheduled_in_ms s)) p
      (\<lambda>v p. orThrow (snapshot_error p (js ''expected null or a non-negative integer'')) (whole_between 0 None v))
      = Inr (sn_recovery_scheduled_in_ms s)" for p
    by (rule nullable_or_null) (use ok in \<open>auto simp: res snapshot_readers\<close>)
  have pid: "parsePID (or_null jint (sn_pid s)) p = Inr (sn_pid s)" for p
    using ok by (cases "sn_pid s") (auto simp: parsePID_def or_null_def res snapshot_readers)
  have last_error: "parseLastError (or_null JStr (sn_last_error s)) p = Inr (sn_last_error s)" for p
    by (cases "sn_last_error s") (simp_all add: parseLastError_def or_null_def res)
  have phase: "enum_of nativeCorePhases core_phase_name (js_str (core_phase_name (sn_phase s))) = Some (sn_phase s)"
    using ok by (simp add: core_phase_enum.enum_of_among native_phase)
  have app: "snapshotStringAt (JStr (sn_app_version s)) p 64 = Inr (sn_app_version s)" for p
    using ok by (simp add: snapshot_readers)
  have attempt: "whole_between 0 (Some 5) (jint (sn_recovery_attempt s)) = Some (sn_recovery_attempt s)"
    using ok by (simp add: snapshot_readers)
  have agrees: "snapshot_agrees web s = Inr ()" using ok by blast
  obtain o' where o': "snapshot_json s = JObj o'" by (simp add: snapshot_json_def)
  have keys: "exactKeys o' [''app_version'', ''phase'', ''pid'', ''ready'', ''last_error'', ''inference_port_fallback'',
        ''inference_listen_active'', ''restart_pending'', ''health'', ''version'', ''capabilities'',
        ''recovery_attempt'', ''recovery_scheduled_in_ms''] p = Inr ()" for p
    using o' by (auto simp: snapshot_json_def exactKeys_iff has_keys_simp)
  have fields: "field o' ''app_version'' = JStr (sn_app_version s)"
    "field o' ''phase'' = js_str (core_phase_name (sn_phase s))"
    "field o' ''pid'' = or_null jint (sn_pid s)" "field o' ''ready'' = or_null ready_json (sn_ready s)"
    "field o' ''last_error'' = or_null JStr (sn_last_error s)"
    "field o' ''inference_port_fallback'' = or_null fallback_json (sn_inference_port_fallback s)"
    "field o' ''inference_listen_active'' = or_null (\<lambda>l. js_str (listen_name l)) (sn_inference_listen_active s)"
    "field o' ''restart_pending'' = JBool (sn_restart_pending s)"
    "field o' ''health'' = or_null health_json (sn_health s)"
    "field o' ''version'' = or_null version_json (sn_version s)"
    "field o' ''capabilities'' = or_null capabilities_json (sn_capabilities s)"
    "field o' ''recovery_attempt'' = jint (sn_recovery_attempt s)"
    "field o' ''recovery_scheduled_in_ms'' = or_null jint (sn_recovery_scheduled_in_ms s)"
    using o' by (auto simp: snapshot_json_def field_def field_at_def)
  have "object": "snapshotObjectAt (snapshot_json s) p = Inr o'" for p using o' by (simp add: snapshot_readers)
  have restart: "snapshotBooleanAt (JBool b) p = Inr b" for b p by (simp add: snapshot_readers)
  have fields_of: "\<lparr>sn_phase = sn_phase s, sn_pid = sn_pid s, sn_ready = sn_ready s, sn_health = sn_health s,
      sn_version = sn_version s, sn_capabilities = sn_capabilities s, sn_last_error = sn_last_error s,
      sn_inference_port_fallback = sn_inference_port_fallback s, sn_inference_listen_active = sn_inference_listen_active s,
      sn_restart_pending = sn_restart_pending s, sn_recovery_attempt = sn_recovery_attempt s,
      sn_recovery_scheduled_in_ms = sn_recovery_scheduled_in_ms s, sn_app_version = sn_app_version s\<rparr> = s"
    by (cases s) simp
  show ?thesis
    using agrees
    by (simp add: fields_of parseAppSnapshot_def Let_def "object" keys fields ready health version capabilities fallback listen
        scheduled pid last_error phase app attempt restart)
qed

interpretation snapshot_codec: json_codec "\<lambda>v _. parseAppSnapshot web v" snapshot_json "snapshot_ok web" for web
  by unfold_locales (fact snapshot_parsed snapshot_rendered)+

section \<open>Loopback addresses\<close>

lemma short_list_cases:
  assumes "length s \<le> 5"
  obtains "s = []" | a where "s = [a]" | a b where "s = [a, b]" | a b c where "s = [a, b, c]"
    | a b c d where "s = [a, b, c, d]" | a b c d e where "s = [a, b, c, d, e]"
proof (cases s)
  case (Cons a s1)
  then show thesis
  proof (cases s1)
    case (Cons b s2)
    with \<open>s = a # s1\<close> show thesis
    proof (cases s2)
      case (Cons c s3)
      with \<open>s = a # s1\<close> \<open>s1 = b # s2\<close> show thesis
      proof (cases s3)
        case (Cons d s4)
        with \<open>s = a # s1\<close> \<open>s1 = b # s2\<close> \<open>s2 = c # s3\<close> assms show thesis
          by (cases s4) (auto intro: that)
      qed (auto intro: that)
    qed (auto intro: that)
  qed (auto intro: that)
qed (auto intro: that)

lemma matches_digits: "matches port_pattern s \<Longrightarrow> list_all is_digit s"
  by (auto simp: port_pattern_def digit_between_def matches_left is_digit_def is_chr_def starts_with_def list_all_iff
      js_def split: list.splits)

lemma five_digits:
  fixes a b c d e :: nat
  assumes "a < 10" "b < 10" "c < 10" "d < 10" "e < 10"
  shows "1 \<le> a \<and> a \<le> 5 \<or> a = 6 \<and> b \<le> 4 \<or> a = 6 \<and> b = 5 \<and> c \<le> 4 \<or> a = 6 \<and> b = 5 \<and> c = 5 \<and> d \<le> 2
      \<or> a = 6 \<and> b = 5 \<and> c = 5 \<and> d = 3 \<and> e \<le> 5
     \<longleftrightarrow> a \<noteq> 0 \<and> 10 * (10 * (10 * (10 * a + b) + c) + d) + e \<le> 65535"
proof
  assume "1 \<le> a \<and> a \<le> 5 \<or> a = 6 \<and> b \<le> 4 \<or> a = 6 \<and> b = 5 \<and> c \<le> 4 \<or> a = 6 \<and> b = 5 \<and> c = 5 \<and> d \<le> 2
      \<or> a = 6 \<and> b = 5 \<and> c = 5 \<and> d = 3 \<and> e \<le> 5"
  then show "a \<noteq> 0 \<and> 10 * (10 * (10 * (10 * a + b) + c) + d) + e \<le> 65535"
    using assms by (elim disjE conjE) auto
next
  assume "a \<noteq> 0 \<and> 10 * (10 * (10 * (10 * a + b) + c) + d) + e \<le> 65535"
  then have r: "1 \<le> a" "10000 * a + 1000 * b + 100 * c + 10 * d + e \<le> 65535" by (simp_all add: algebra_simps)
  then have "a \<le> 6" by linarith
  then consider "1 \<le> a" "a \<le> 5" | "a = 6" "b \<le> 4" | "a = 6" "5 \<le> b" using r by linarith
  then show "1 \<le> a \<and> a \<le> 5 \<or> a = 6 \<and> b \<le> 4 \<or> a = 6 \<and> b = 5 \<and> c \<le> 4 \<or> a = 6 \<and> b = 5 \<and> c = 5 \<and> d \<le> 2
      \<or> a = 6 \<and> b = 5 \<and> c = 5 \<and> d = 3 \<and> e \<le> 5"
  proof cases
    case 3
    then have b: "b = 5" using r by linarith
    then have c: "c \<le> 5" using r 3 by linarith
    show ?thesis
    proof (cases "c = 5")
      case True
      then have "d \<le> 3" using r 3 b by linarith
      moreover have "d = 3 \<Longrightarrow> e \<le> 5" using r 3 b True by linarith
      ultimately show ?thesis using 3 b True by auto
    qed (use 3 b c in auto)
  qed blast+
qed

lemma digit_value: "is_digit c \<Longrightarrow> \<exists>d<10. c = 48 + d"
  by (rule exI [of _ "c - 48"]) (auto simp: is_digit_def)

lemma digits_of: "list_all is_digit s \<Longrightarrow> \<exists>ds. s = map ((+) 48) ds \<and> list_all (\<lambda>d. d < 10) ds"
proof (induction s)
  case (Cons c s)
  then obtain d ds where "c = 48 + d" "d < 10" "s = map ((+) 48) ds" "list_all (\<lambda>d. d < 10) ds"
    using digit_value [of c] by auto
  then have "c # s = map ((+) 48) (d # ds) \<and> list_all (\<lambda>d. d < 10) (d # ds)" by simp
  then show ?case by (rule exI)
qed simp

lemma matches_port:
  "matches port_pattern s \<longleftrightarrow>
     s \<noteq> [] \<and> length s \<le> 5 \<and> list_all is_digit s \<and> hd s \<noteq> 48 \<and> digits_value s \<le> 65535"
proof (cases "list_all is_digit s")
  case True
  then obtain ds where s: "s = map ((+) 48) ds" and ds: "list_all (\<lambda>d. d < 10) ds" using digits_of by blast
  show ?thesis
  proof (cases "length ds \<le> 5")
    case True
    then show ?thesis using \<open>list_all is_digit s\<close> ds
    proof (cases rule: short_list_cases)
      case (6 a b c d e)
      then show ?thesis using \<open>list_all is_digit s\<close> ds five_digits [of a b c d e]
        by (auto simp: s port_pattern_def digit_between_def matches_left digits_value_def is_chr_def starts_with_def js_def)
    qed (auto simp: s port_pattern_def digit_between_def matches_left digits_value_def is_chr_def starts_with_def js_def)
  next
    case False
    then show ?thesis
      by (auto simp: s port_pattern_def digit_between_def matches_left starts_with_def split: list.splits)
  qed
next
  case False
  then show ?thesis using matches_digits [of s] by blast
qed

text \<open>
  The pattern a core address is checked with accepts exactly the texts
  \<open>http://127.0.0.1:p\<close> for a port \<open>p\<close> from 1 to 65535 in canonical decimal: no sign, no leading zero,
  nothing before or after.
\<close>

theorem loopback_ports:
  "matches loopbackURLPattern url \<longleftrightarrow> (\<exists>p. 1 \<le> p \<and> p \<le> 65535 \<and> url = js ''http://127.0.0.1:'' @ dec p)"
proof -
  have port: "matches port_pattern s \<longleftrightarrow> (\<exists>p. 1 \<le> p \<and> p \<le> 65535 \<and> s = dec p)" for s
  proof
    assume "matches port_pattern s"
    then have s: "s \<noteq> []" "list_all is_digit s" "hd s \<noteq> 48" "digits_value s \<le> 65535" by (auto simp: matches_port)
    then have d: "dec (digits_value s) = s" by (simp add: dec_digits_value)
    have "digits_value s \<noteq> 0"
    proof
      assume "digits_value s = 0"
      with d have "s = [48]" by (simp add: dec_unfold)
      with s show False by simp
    qed
    with s d show "\<exists>p. 1 \<le> p \<and> p \<le> 65535 \<and> s = dec p" by (intro exI [of _ "digits_value s"]) auto
  next
    assume "\<exists>p. 1 \<le> p \<and> p \<le> 65535 \<and> s = dec p"
    then obtain p where p: "1 \<le> p" "p \<le> 65535" "s = dec p" by blast
    then show "matches port_pattern s" using hd_dec [of p] length_dec_le [of p 5] by (simp add: matches_port)
  qed
  have "matches (Seq (word w) r) url \<longleftrightarrow> (\<exists>s. url = js w @ s \<and> matches r s)" for w r
    unfolding matches_Seq_word starts_with_def by (metis append_eq_conv_conj length_js)
  then have "matches loopbackURLPattern url \<longleftrightarrow> (\<exists>s. url = js ''http://127.0.0.1:'' @ s \<and> matches port_pattern s)"
    by (simp only: loopbackURLPattern_def)
  then show ?thesis by (auto simp: port)
qed

section \<open>What holds of a snapshot\<close>

lemma alpha_plans:
  assumes "capabilities_ok c"
  shows "alphaPlanCount (Some c) = 2"
proof -
  let ?es = "map (\<lambda>(kind, available, converts). \<lparr>pn_id = kind, pn_available_in_alpha = available, pn_uses_local_conversion = converts\<rparr>) expectedPlans"
  have es: "distinct ?es" by (simp add: expectedPlans_def)
  moreover have "set ?es \<subseteq> set (ca_plan_types c)"
    using assms by (auto simp: capabilities_ok_def offers_def expectedPlans_def)
  moreover have distinct: "distinct (ca_plan_types c)" and "length (ca_plan_types c) = length ?es"
    using assms by (auto simp: capabilities_ok_def distinct_map expectedPlans_def)
  ultimately have same: "set ?es = set (ca_plan_types c)"
    using distinct_card [of ?es] distinct_card [of "ca_plan_types c"] by (intro card_subset_eq) (simp_all only: List.finite_set)
  have "length (filter pn_available_in_alpha (ca_plan_types c)) = card (set (filter pn_available_in_alpha (ca_plan_types c)))"
    using distinct by (intro distinct_card [symmetric] distinct_filter)
  also have "\<dots> = card {p \<in> set ?es. pn_available_in_alpha p}" by (simp only: set_filter same)
  also have "\<dots> = length (filter pn_available_in_alpha ?es)"
    using es distinct_card [OF distinct_filter [of ?es pn_available_in_alpha]] by (simp only: set_filter)
  also have "\<dots> = 2" by (simp add: expectedPlans_def)
  finally show ?thesis by (simp add: alphaPlanCount_def)
qed

text \<open>
  C26: every snapshot the interface accepts is well typed (\<open>snapshot_ok\<close>) and reads back
  unchanged from its own text form; it never carries the phase only the browser build makes; in the ready phase
  every part is there (the process ID only on the desktop) and exactly two plans are available; the ready
  announcement and the version agree; and a port fallback names the port of the active address.
\<close>

theorem app_snapshot_sound:
  assumes "parseAppSnapshot web v = Inr s"
  shows "snapshot_ok web s \<and> parseAppSnapshot web (snapshot_json s) = Inr s
    \<and> sn_phase s \<noteq> PhUnavailable
    \<and> (sn_phase s = PhReady \<longrightarrow> (web = None \<longrightarrow> sn_pid s \<noteq> None) \<and> sn_ready s \<noteq> None \<and> sn_health s \<noteq> None
         \<and> sn_version s \<noteq> None \<and> sn_capabilities s \<noteq> None \<and> alphaPlanCount (sn_capabilities s) = 2)
    \<and> (\<forall>r v. sn_ready s = Some r \<and> sn_version s = Some v \<longrightarrow> an_core_version r = ve_core_version v)
    \<and> (\<forall>f. sn_inference_port_fallback s = Some f \<longrightarrow>
         (\<exists>r. sn_ready s = Some r \<and> an_inference_url r = active_url f))"
proof -
  have ok: "snapshot_ok web s" by (rule snapshot_parsed [OF assms])
  then have agrees: "snapshot_agrees web s = Inr ()" by (simp add: snapshot_ok_def)
  have ready: "(web = None \<longrightarrow> sn_pid s \<noteq> None) \<and> sn_ready s \<noteq> None \<and> sn_health s \<noteq> None
      \<and> sn_version s \<noteq> None \<and> sn_capabilities s \<noteq> None" if "sn_phase s = PhReady"
    using agrees that by (auto simp: snapshot_agrees_def res)
  have plans: "alphaPlanCount (sn_capabilities s) = 2" if "sn_capabilities s \<noteq> None"
    using ok that alpha_plans by (auto simp: snapshot_ok_def)
  have versions: "an_core_version r = ve_core_version v" if "sn_ready s = Some r \<and> sn_version s = Some v" for r v
    using agrees that by (simp add: snapshot_agrees_def res)
  have fallback: "\<exists>r. sn_ready s = Some r \<and> an_inference_url r = active_url f"
    if "sn_inference_port_fallback s = Some f" for f
    using agrees that by (simp add: snapshot_agrees_def res)
  show ?thesis
    using ok snapshot_rendered [OF ok] ready plans versions fallback by (simp add: snapshot_ok_def)
qed

definition sample_ready :: ready_announcement where
  "sample_ready = \<lparr>an_core_version = js ''1.2.0'', an_control_api_version = js ''v1'', an_protocol_contract_version = js ''v1'',
     an_inference_url = js ''http://127.0.0.1:8788'', an_client_inference_url = js ''http://localhost:8788'',
     an_control_url = js ''http://127.0.0.1:40100''\<rparr>"

definition sample_snapshot :: app_snapshot where
  "sample_snapshot = \<lparr>sn_phase = PhHandshaking, sn_pid = Some 4711, sn_ready = Some sample_ready,
     sn_health = Some \<lparr>he_status = js ''ok''\<rparr>, sn_version = None, sn_capabilities = None, sn_last_error = None,
     sn_inference_port_fallback = Some \<lparr>fb_requested_port = 8787, fb_active_port = 8788\<rparr>,
     sn_inference_listen_active = Some ListenLoopback, sn_restart_pending = False, sn_recovery_attempt = 1,
     sn_recovery_scheduled_in_ms = None, sn_app_version = js ''1.2.0''\<rparr>"

lemma sample_ready_ok: "ready_ok None sample_ready"
  by (simp add: ready_ok_def sample_ready_def short_text_def good_url_def localhost_url_def loopbackURLPattern_def
      matches_left matches_port starts_with_def js_def digits_value_def is_digit_def is_chr_def)

lemma sample_snapshot_ok: "snapshot_ok None sample_snapshot"
proof -
  have "dec 8788 = [56, 55, 56, 56]" by (simp add: dec_unfold)
  then show ?thesis
    using sample_ready_ok
    by (simp add: snapshot_ok_def sample_snapshot_def short_text_def health_ok_def fallback_ok_def snapshot_agrees_def
      active_url_def) (simp add: sample_ready_def js_def)
qed

theorem app_snapshot_sound_witness:
  "snapshot_ok None sample_snapshot \<and> sn_inference_port_fallback sample_snapshot \<noteq> None"
  using app_snapshot_sound [OF snapshot_rendered [OF sample_snapshot_ok]] by (simp add: sample_snapshot_def)

text \<open>
  When reading fails, the snapshot shown instead is a valid one that would be read back
  unchanged, keeps the recovery attempt counted so far, and is shown as a failure.
\<close>

theorem failed_snapshot_valid:
  assumes "snapshot_ok web s"
  shows "snapshot_ok web (failedSnapshot (Some s) message)
    \<and> parseAppSnapshot web (snapshot_json (failedSnapshot (Some s) message)) = Inr (failedSnapshot (Some s) message)
    \<and> sn_recovery_attempt (failedSnapshot (Some s) message) = sn_recovery_attempt s
    \<and> phaseTone (sn_phase (failedSnapshot (Some s) message)) = PhaseNegative"
proof -
  have "snapshot_ok web (failedSnapshot (Some s) message)"
    using assms by (simp add: snapshot_ok_def failedSnapshot_def snapshot_agrees_def)
  then show ?thesis using snapshot_rendered by (simp add: failedSnapshot_def phaseTone_def)
qed

theorem failed_snapshot_valid_witness:
  "snapshot_ok None (failedSnapshot (Some sample_snapshot) (js ''down''))
    \<and> sn_recovery_attempt (failedSnapshot (Some sample_snapshot) (js ''down'')) = 1"
  using failed_snapshot_valid [OF sample_snapshot_ok, of "js ''down''"] by (simp add: sample_snapshot_def)

end
