(* ===== verification/Pattern_Search.thy ===== *)
theory Pattern_Search
  imports Patterns
begin

text \<open>
  Searches with \<open>matchAll\<close> and \<open>exec\<close>: the rests of a match in the order backtracking tries them
  (greedy counts first), the word boundary \<open>\b\<close> on both sides, and every match of a text from left
  to right without overlap. The patterns searched for here never match the empty text.
\<close>

fun greedy :: "(jstr \<Rightarrow> jstr list) \<Rightarrow> nat \<Rightarrow> nat \<Rightarrow> jstr \<Rightarrow> jstr list" where
  "greedy f lo 0 s = (if lo = 0 then [s] else [])"
| "greedy f lo (Suc hi) s = concat (map (greedy f (lo - 1) hi) (f s)) @ (if lo = 0 then [s] else [])"

primrec tries :: "rx \<Rightarrow> jstr \<Rightarrow> jstr list" where
  "tries (Cls p) s = (case s of [] \<Rightarrow> [] | c # t \<Rightarrow> if p c then [t] else [])"
| "tries Eps s = [s]"
| "tries (Seq q r) s = concat (map (tries r) (tries q s))"
| "tries (Alt q r) s = tries q s @ tries r s"
| "tries (Rep lo hi r) s = greedy (tries r) lo hi s"
| "tries (Many r) s = greedy (tries r) 0 (length s) s"

lemma greedy_reps: "(\<And>s. set (f s) = set (g s)) \<Longrightarrow> set (greedy f lo hi s) = set (reps g lo hi s)"
  by (induction hi arbitrary: lo s) auto

text \<open>The order aside, these are the rests of \<open>Patterns\<close>.\<close>

lemma set_tries: "set (tries r s) = set (rests r s)"
proof (induction r arbitrary: s)
  case (Rep lo hi r)
  then show ?case by (simp add: greedy_reps)
next
  case (Many r)
  then show ?case by (simp add: greedy_reps)
qed (auto split: list.splits)

lemma tries_lang: "t \<in> set (tries r s) \<longleftrightarrow> (\<exists>u \<in> lang r. s = u @ t)"
  by (simp add: set_tries rests_correct)

definition is_word :: "nat \<Rightarrow> bool" where
  "is_word c \<longleftrightarrow> is_alnum c \<or> c = 95"

text \<open>\<open>\b\<close> between the unit before and the text after.\<close>

definition boundary :: "nat option \<Rightarrow> jstr \<Rightarrow> bool" where
  "boundary before after \<longleftrightarrow>
     (case before of None \<Rightarrow> False | Some c \<Rightarrow> is_word c) \<noteq> (case after of [] \<Rightarrow> False | c # _ \<Rightarrow> is_word c)"

record search_pattern =
  sp_starts :: bool
  sp_body :: rx
  sp_ends :: bool
  sp_fold :: bool

definition unit_before :: "nat option \<Rightarrow> jstr \<Rightarrow> nat option" where
  "unit_before before consumed = (if consumed = [] then before else Some (last consumed))"

text \<open>The length of the match that starts here; with the \<open>i\<close> flag the body is in lower case.\<close>

definition match_here :: "search_pattern \<Rightarrow> nat option \<Rightarrow> jstr \<Rightarrow> nat option" where
  "match_here p before s =
     (if sp_starts p \<and> \<not> boundary before s then None
      else map_option (\<lambda>t. length s - length t)
        (find (\<lambda>t. \<not> sp_ends p
                   \<or> boundary (unit_before before (take (length s - length t) s)) (drop (length s - length t) s))
          (tries (sp_body p) (if sp_fold p then map ascii_lower s else s))))"

fun search_from :: "search_pattern \<Rightarrow> nat \<Rightarrow> nat \<Rightarrow> nat option \<Rightarrow> jstr \<Rightarrow> (nat \<times> nat) list" where
  "search_from p skip i before [] = []"
| "search_from p skip i before (c # s) =
     (if skip = 0
      then
        (case match_here p before (c # s) of
           None \<Rightarrow> search_from p 0 (Suc i) (Some c) s
         | Some n \<Rightarrow> (i, i + n) # search_from p (n - 1) (Suc i) (Some c) s)
      else search_from p (skip - 1) (Suc i) (Some c) s)"

text \<open>Starts and ends of every match.\<close>

definition matchAll :: "search_pattern \<Rightarrow> jstr \<Rightarrow> (nat \<times> nat) list" where
  "matchAll p s = search_from p 0 0 None s"

lemma match_here_lang:
  assumes "match_here p before s = Some n"
  shows "n \<le> length s \<and> take n (if sp_fold p then map ascii_lower s else s) \<in> lang (sp_body p)"
proof -
  let ?s = "if sp_fold p then map ascii_lower s else s"
  obtain t where t: "t \<in> set (tries (sp_body p) ?s)" and n: "n = length s - length t"
    using assms by (auto simp: match_here_def find_Some_iff split: if_splits) (metis nth_mem)+
  from t obtain u where u: "u \<in> lang (sp_body p)" "?s = u @ t" by (auto simp: tries_lang)
  have len: "length s = length u + length t" using arg_cong [OF u(2), of length] by (auto split: if_splits)
  then have "take n ?s = u" unfolding n u(2) by simp
  with u(1) len n show ?thesis by simp
qed

definition folded :: "search_pattern \<Rightarrow> jstr \<Rightarrow> jstr" where
  "folded p s = (if sp_fold p then map ascii_lower s else s)"

lemma search_from_match:
  "(a, b) \<in> set (search_from p skip i before s) \<Longrightarrow>
     \<exists>k. a = i + k \<and> k < length s \<and> a \<le> b \<and> b \<le> i + length s \<and> take (b - a) (folded p (drop k s)) \<in> lang (sp_body p)"
proof (induction p skip i before s rule: search_from.induct)
  case (2 p skip i before c s)
  have later: ?case
    if "\<exists>k. a = Suc i + k \<and> k < length s \<and> a \<le> b \<and> b \<le> Suc i + length s
      \<and> take (b - a) (folded p (drop k s)) \<in> lang (sp_body p)"
    using that by (elim exE conjE) (rule exI [of _ "Suc k" for k], simp)
  show ?case
  proof (cases "skip = 0")
    case True
    show ?thesis
    proof (cases "match_here p before (c # s)")
      case None
      then show ?thesis using 2(4) 2(1) [OF True None] True later by simp
    next
      case (Some n)
      then consider "a = i" "b = i + n" | "(a, b) \<in> set (search_from p (n - 1) (Suc i) (Some c) s)"
        using 2(4) True by auto
      then show ?thesis
      proof cases
        case 1
        then show ?thesis using match_here_lang [OF Some] by (intro exI [of _ 0]) (simp add: folded_def)
      next
        case 2
        then show ?thesis using "2.IH"(2) [OF True Some] later by blast
      qed
    qed
  next
    case False
    then show ?thesis using 2(4) 2(3) [OF False] later by simp
  qed
qed simp

lemma matchAll_match:
  assumes "(a, b) \<in> set (matchAll p s)"
  shows "a \<le> b \<and> b \<le> length s \<and> take (b - a) (folded p (drop a s)) \<in> lang (sp_body p)"
  using search_from_match [OF assms [unfolded matchAll_def]] by auto

section \<open>What a match must hold\<close>

text \<open>A lower bound on the length of a match.\<close>

primrec shortest :: "rx \<Rightarrow> nat" where
  "shortest (Cls p) = 1"
| "shortest Eps = 0"
| "shortest (Seq q r) = shortest q + shortest r"
| "shortest (Alt q r) = min (shortest q) (shortest r)"
| "shortest (Rep lo hi r) = lo * shortest r"
| "shortest (Many r) = 0"

lemma pow_shortest: "(\<And>u. u \<in> L \<Longrightarrow> k \<le> length u) \<Longrightarrow> u \<in> pow n L \<Longrightarrow> n * k \<le> length u"
proof (induction n arbitrary: u)
  case (Suc n)
  then obtain v w where u: "u = v @ w" "v \<in> L" "w \<in> pow n L" by auto
  then show ?case using Suc.IH [OF Suc.prems(1), of w] Suc.prems(1) [of v] by auto
qed simp

lemma shortest_le: "u \<in> lang r \<Longrightarrow> shortest r \<le> length u"
proof (induction r arbitrary: u)
  case (Rep lo hi r)
  then obtain n where n: "lo \<le> n" "u \<in> pow n (lang r)" by auto
  have "n * shortest r \<le> length u" by (rule pow_shortest [OF _ n(2)]) (rule Rep.IH)
  with mult_le_mono1 [OF n(1), of "shortest r"] show ?case by (simp only: shortest.simps)
next
  case (Seq q r)
  then show ?case by (fastforce intro: add_mono)
qed (auto simp: min_le_iff_disj)

lemma matchAll_long:
  assumes "(a, b) \<in> set (matchAll p s)"
  shows "a + shortest (sp_body p) \<le> b"
proof -
  note m = matchAll_match [OF assms]
  have "shortest (sp_body p) \<le> length (take (b - a) (folded p (drop a s)))"
    by (rule shortest_le) (use m in blast)
  then show ?thesis using m by (auto simp: folded_def split: if_splits)
qed

lemma lang_word: "lang (word w) = {js w}"
  by (induction w rule: word.induct) (auto simp: chr_def js_def is_chr_def)

lemma length_pattern_word: "shortest (word w) = length w"
  by (induction w rule: word.induct) (simp_all add: chr_def)

end
