(* ===== verification/Privacy_Highlights.thy ===== *)
theory Privacy_Highlights
  imports Request_Data Pattern_Search
begin

text \<open>
  What the privacy policy replaced, as the reviewer sees it: \<open>privacy-kind.ts\<close> and the privacy part
  of \<open>request-trajectory-model.ts\<close>. Texts are marked where a placeholder stands, and the recorded
  findings are summed by kind. Labels come from the translation table and unknown labels are ordered
  by \<open>localeCompare\<close>; both are arguments.
\<close>

section \<open>Kinds\<close>

definition PRIVACY_KIND_ORDER :: "jstr list" where
  "PRIVACY_KIND_ORDER = map js [''email'', ''phone'', ''account'', ''payment_card'', ''ip_address'', ''url'',
     ''common_secret'', ''private_address'', ''private_date'', ''private_person'', ''unknown'']"

definition privacyKindLabel :: "(jstr \<Rightarrow> jstr) \<Rightarrow> jstr \<Rightarrow> jstr" where
  "privacyKindLabel translate kind =
     (if kind \<in> set PRIVACY_KIND_ORDER then translate (js ''privacy.'' @ kind) else kind)"

definition kind_order :: "(jstr \<Rightarrow> jstr \<Rightarrow> int) \<Rightarrow> jstr \<Rightarrow> jstr \<Rightarrow> int" where
  "kind_order collate l r =
     (case (find_index (\<lambda>k. k = l) PRIVACY_KIND_ORDER, find_index (\<lambda>k. k = r) PRIVACY_KIND_ORDER) of
        (Some i, Some j) \<Rightarrow> int i - int j
      | (Some i, None) \<Rightarrow> -1
      | (None, Some j) \<Rightarrow> 1
      | (None, None) \<Rightarrow> collate l r)"

definition sortPrivacyKinds :: "(jstr \<Rightarrow> jstr \<Rightarrow> int) \<Rightarrow> jstr list \<Rightarrow> jstr list" where
  "sortPrivacyKinds collate kinds = sort_by (kind_order collate) kinds"

section \<open>Placeholders\<close>

definition hex_unit :: "nat \<Rightarrow> bool" where
  "hex_unit c \<longleftrightarrow> is_digit c \<or> 97 \<le> ascii_lower c \<and> ascii_lower c \<le> 102"

definition privacyPlaceholderPattern :: search_pattern where
  "privacyPlaceholderPattern = \<lparr>sp_starts = False,
     sp_body = Seq (chr CHR ''<'') (Seq
       (Alt (Seq (word ''PRIVATE_'') (plus_rx (Cls is_word)))
            (Seq (word ''SECRET'') (opt_rx (Seq (chr CHR ''_'') (plus_rx (Cls is_alnum))))))
       (chr CHR ''>'')),
     sp_ends = False, sp_fold = False\<rparr>"

definition digit_run :: "nat \<Rightarrow> nat \<Rightarrow> rx" where
  "digit_run lo hi = Rep lo hi (Cls is_digit)"

definition hexes_rx :: "nat \<Rightarrow> nat \<Rightarrow> rx" where
  "hexes_rx lo hi = Rep lo hi (Cls hex_unit)"

definition maybe_space :: rx where
  "maybe_space = opt_rx (chr CHR '' '')"

text \<open>The stand-ins that read like genuine values.\<close>

definition naturalPlaceholderPatterns :: "(jstr \<times> search_pattern) list" where
  "naturalPlaceholderPatterns =
    [(js ''email'', \<lparr>sp_starts = True,
        sp_body = seqs [word ''redacted-'', hexes_rx 12 12, word ''@private.invalid''], sp_ends = True, sp_fold = True\<rparr>),
     (js ''url'', \<lparr>sp_starts = True,
        sp_body = seqs [word ''https://private.invalid/r/'', hexes_rx 12 12], sp_ends = True, sp_fold = True\<rparr>),
     (js ''phone'', \<lparr>sp_starts = False,
        sp_body = seqs [word ''+1-555-555-01'', digit_run 2 2], sp_ends = True, sp_fold = False\<rparr>),
     (js ''payment_card'', \<lparr>sp_starts = True,
        sp_body = seqs [word ''4000'', maybe_space, word ''0000'', maybe_space, word ''0000'', maybe_space, word ''0'',
          digit_run 3 3], sp_ends = True, sp_fold = False\<rparr>),
     (js ''account'', \<lparr>sp_starts = True,
        sp_body = seqs [word ''xx00redacted'', digit_run 10 10], sp_ends = True, sp_fold = True\<rparr>),
     (js ''ip_address'', \<lparr>sp_starts = True,
        sp_body = seqs [alts (word ''203.0.113'') [word ''192.0.2'', word ''198.51.100''], word ''.'', digit_run 1 3],
        sp_ends = True, sp_fold = False\<rparr>),
     (js ''ip_address'', \<lparr>sp_starts = True,
        sp_body = seqs [word ''2001:db8::'', hexes_rx 1 4, Many (Seq (chr CHR '':'') (hexes_rx 1 4))],
        sp_ends = True, sp_fold = True\<rparr>)]"

definition privacyTokenKinds :: "(string \<times> string) list" where
  "privacyTokenKinds =
     [(''ACCOUNT_NUMBER'', ''account''), (''PAYMENT_CARD'', ''payment_card''), (''IP_ADDRESS'', ''ip_address''),
      (''ADDRESS'', ''private_address''), (''PERSON'', ''private_person''), (''EMAIL'', ''email''),
      (''PHONE'', ''phone''), (''DATE'', ''private_date''), (''URL'', ''url'')]"

text \<open>The suffix \<open>_[0-9a-f]{16}$\<close> of a minted token.\<close>

definition hex_suffix :: "jstr \<Rightarrow> bool" where
  "hex_suffix s \<longleftrightarrow> 17 \<le> length s \<and> s ! (length s - 17) = 95 \<and> list_all hex_unit (drop (length s - 16) s)"

definition kindFromPlaceholder :: "jstr \<Rightarrow> jstr" where
  "kindFromPlaceholder token =
     (let inner = butlast (tl token) in
      if inner = js ''SECRET'' \<or> starts_with (js ''SECRET_'') inner then js ''common_secret''
      else if \<not> starts_with (js ''PRIVATE_'') inner then js ''unknown''
      else
        (let rest = drop 8 inner; kind = (if hex_suffix rest then take (length rest - 17) rest else rest) in
         case find (\<lambda>(token_kind, _). kind = js token_kind) privacyTokenKinds of
           Some (_, k) \<Rightarrow> js k
         | None \<Rightarrow> js ''unknown''))"

definition between :: "jstr \<Rightarrow> nat \<Rightarrow> nat \<Rightarrow> jstr" where
  "between s a b = take (b - a) (drop a s)"

record privacy_mark =
  pm_start :: nat
  pm_end :: nat
  pm_kind :: jstr

definition token_marks :: "jstr \<Rightarrow> privacy_mark list" where
  "token_marks s = map (\<lambda>(a, b). \<lparr>pm_start = a, pm_end = b, pm_kind = kindFromPlaceholder (between s a b)\<rparr>)
     (matchAll privacyPlaceholderPattern s)"

definition natural_marks :: "jstr \<Rightarrow> privacy_mark list" where
  "natural_marks s = concat (map (\<lambda>(kind, p). map (\<lambda>(a, b). \<lparr>pm_start = a, pm_end = b, pm_kind = kind\<rparr>) (matchAll p s))
     naturalPlaceholderPatterns)"

definition marks :: "jstr \<Rightarrow> privacy_mark list" where
  "marks s = sort_by (\<lambda>l r. int (pm_start l) - int (pm_start r)) (token_marks s @ natural_marks s)"

record highlight_span =
  hs_text :: jstr
  hs_kind :: "jstr option"

fun place_marks :: "jstr \<Rightarrow> nat \<Rightarrow> privacy_mark list \<Rightarrow> highlight_span list" where
  "place_marks s lst [] = (if lst < length s then [\<lparr>hs_text = drop lst s, hs_kind = None\<rparr>] else [])"
| "place_marks s lst (m # ms) =
     (if pm_start m < lst then place_marks s lst ms
      else (if lst < pm_start m then [\<lparr>hs_text = between s lst (pm_start m), hs_kind = None\<rparr>] else [])
        @ \<lparr>hs_text = between s (pm_start m) (pm_end m), hs_kind = Some (pm_kind m)\<rparr> # place_marks s (pm_end m) ms)"

definition splitPrivacyHighlights :: "jstr \<Rightarrow> highlight_span list" where
  "splitPrivacyHighlights s =
     (if s = [] then []
      else case place_marks s 0 (marks s) of [] \<Rightarrow> [\<lparr>hs_text = s, hs_kind = None\<rparr>] | spans \<Rightarrow> spans)"

record hit_group =
  hg_kind :: jstr
  hg_label :: jstr
  hg_count :: int
  hg_placeholders :: "jstr list"

definition extractPrivacyHits :: "(jstr \<Rightarrow> jstr) \<Rightarrow> jstr \<Rightarrow> hit_group list" where
  "extractPrivacyHits translate s =
     (if s = [] then []
      else
        let found = map (\<lambda>m. (pm_kind m, between s (pm_start m) (pm_end m))) (token_marks s @ natural_marks s);
            of_kind = (\<lambda>kind. rev (remdups (rev (map snd (filter (\<lambda>(k, _). k = kind) found))))) in
        map (\<lambda>kind. \<lparr>hg_kind = kind, hg_label = privacyKindLabel translate kind, hg_count = int (length (of_kind kind)),
               hg_placeholders = of_kind kind\<rparr>)
          (filter (\<lambda>kind. of_kind kind \<noteq> []) PRIVACY_KIND_ORDER))"

section \<open>Sums by kind\<close>

text \<open>A \<open>Map\<close>: an entry keeps its place when it is set again.\<close>

fun set_entry :: "'k \<Rightarrow> 'v \<Rightarrow> ('k \<times> 'v) list \<Rightarrow> ('k \<times> 'v) list" where
  "set_entry k v [] = [(k, v)]"
| "set_entry k v ((k', w) # m) = (if k' = k then (k, v) # m else (k', w) # set_entry k v m)"

definition recordedPrivacyHits :: "(jstr \<Rightarrow> jstr) \<Rightarrow> privacy_restore_summary option \<Rightarrow> hit_group list" where
  "recordedPrivacyHits translate restore =
     (case Option.bind restore ps_hits of
        None \<Rightarrow> []
      | Some hits \<Rightarrow> map (\<lambda>h. \<lparr>hg_kind = ph_kind h, hg_label = privacyKindLabel translate (ph_kind h), hg_count = ph_count h,
          hg_placeholders = []\<rparr>) hits)"

definition or_empty :: "'a list option \<Rightarrow> 'a list" where
  "or_empty xs = (case xs of None \<Rightarrow> [] | Some ys \<Rightarrow> ys)"

definition count_of :: "'k \<Rightarrow> ('k \<times> int) list \<Rightarrow> int" where
  "count_of k m = (case map_of m k of None \<Rightarrow> 0 | Some n \<Rightarrow> n)"

definition add_count :: "'k \<Rightarrow> int \<Rightarrow> ('k \<times> int) list \<Rightarrow> ('k \<times> int) list" where
  "add_count k n m = set_entry k (count_of k m + n) m"

definition recordedPrivacyFindings ::
  "(jstr \<Rightarrow> jstr) \<Rightarrow> (jstr \<Rightarrow> jstr \<Rightarrow> int) \<Rightarrow> privacy_finding list option \<Rightarrow> hit_group list" where
  "recordedPrivacyFindings translate collate findings =
     (let counts = fold (\<lambda>f. add_count (pf_kind f) (pf_count f)) (or_empty findings) [] in
      map (\<lambda>kind. \<lparr>hg_kind = kind, hg_label = privacyKindLabel translate kind, hg_count = count_of kind counts,
             hg_placeholders = []\<rparr>)
        (sortPrivacyKinds collate (map fst counts)))"

record confidence_group =
  cg_kind :: jstr
  cg_label :: jstr
  cg_min :: rat
  cg_max :: rat

definition confident :: "privacy_finding list option \<Rightarrow> (jstr \<times> privacy_confidence) list" where
  "confident findings =
     map (\<lambda>f. (pf_kind f, the (pf_confidence f))) (filter (\<lambda>f. pf_confidence f \<noteq> None) (or_empty findings))"

definition widen_group ::
  "(jstr \<Rightarrow> jstr) \<Rightarrow> jstr \<times> privacy_confidence \<Rightarrow> (jstr \<times> confidence_group) list \<Rightarrow> (jstr \<times> confidence_group) list" where
  "widen_group translate = (\<lambda>(kind, c) groups.
     let group = map_of groups kind in
     set_entry kind \<lparr>cg_kind = kind, cg_label = privacyKindLabel translate kind,
       cg_min = min (case group of None \<Rightarrow> pc_min c | Some g \<Rightarrow> cg_min g) (pc_min c),
       cg_max = max (case group of None \<Rightarrow> pc_max c | Some g \<Rightarrow> cg_max g) (pc_max c)\<rparr> groups)"

definition recordedPrivacyConfidence ::
  "(jstr \<Rightarrow> jstr) \<Rightarrow> (jstr \<Rightarrow> jstr \<Rightarrow> int) \<Rightarrow> privacy_finding list option
    \<Rightarrow> (confidence_group list \<times> rat) option" where
  "recordedPrivacyConfidence translate collate findings =
     (case confident findings of
        [] \<Rightarrow> None
      | (_, first) # _ \<Rightarrow>
          let groups = fold (widen_group translate) (confident findings) [] in
          Some (List.map_filter (map_of groups) (sortPrivacyKinds collate (map fst groups)), pc_threshold first))"

record confidence_span =
  cs_min :: rat
  cs_max :: rat

record kind_ignored =
  ki_count :: int
  ki_confidence :: "confidence_span option"

record kind_row =
  kr_kind :: jstr
  kr_label :: jstr
  kr_count :: int
  kr_confidence :: "confidence_span option"
  kr_ignored :: "(privacy_ignore_reason \<times> kind_ignored) list"

definition policyIgnoreReasons :: "privacy_ignore_reason list" where
  "policyIgnoreReasons = [IgnoreLowConfidence, IgnoreAllowlisted, IgnoreKindDisabled, IgnoreAstrlinkIdentifier,
     IgnoreExampleValue]"

definition widenConfidence :: "confidence_span option \<Rightarrow> privacy_confidence option \<Rightarrow> confidence_span option" where
  "widenConfidence span' nxt =
     (case nxt of
        None \<Rightarrow> span'
      | Some c \<Rightarrow> Some (case span' of
            None \<Rightarrow> \<lparr>cs_min = pc_min c, cs_max = pc_max c\<rparr>
          | Some s \<Rightarrow> \<lparr>cs_min = min (cs_min s) (pc_min c), cs_max = max (cs_max s) (pc_max c)\<rparr>))"

definition row_for :: "(jstr \<Rightarrow> jstr) \<Rightarrow> jstr \<Rightarrow> (jstr \<times> kind_row) list \<Rightarrow> kind_row" where
  "row_for translate kind rows =
     (case map_of rows kind of
        Some row \<Rightarrow> row
      | None \<Rightarrow> \<lparr>kr_kind = kind, kr_label = privacyKindLabel translate kind, kr_count = 0, kr_confidence = None,
          kr_ignored = []\<rparr>)"

definition count_hit :: "(jstr \<Rightarrow> jstr) \<Rightarrow> hit_group \<Rightarrow> (jstr \<times> kind_row) list \<Rightarrow> (jstr \<times> kind_row) list" where
  "count_hit translate hit rows =
     (let row = row_for translate (hg_kind hit) rows in
      set_entry (hg_kind hit) (row\<lparr>kr_count := kr_count row + hg_count hit\<rparr>) rows)"

definition put_confidence ::
  "(jstr \<Rightarrow> jstr) \<Rightarrow> confidence_group \<Rightarrow> (jstr \<times> kind_row) list \<Rightarrow> (jstr \<times> kind_row) list" where
  "put_confidence translate g rows =
     set_entry (cg_kind g)
       ((row_for translate (cg_kind g) rows)\<lparr>kr_confidence := Some \<lparr>cs_min = cg_min g, cs_max = cg_max g\<rparr>\<rparr>) rows"

definition count_ignored ::
  "(jstr \<Rightarrow> jstr) \<Rightarrow> privacy_ignored \<Rightarrow> (jstr \<times> kind_row) list \<Rightarrow> (jstr \<times> kind_row) list" where
  "count_ignored translate entry rows =
     (let row = row_for translate (pi_kind entry) rows;
          previous = map_of (kr_ignored row) (pi_reason entry) in
      set_entry (pi_kind entry)
        (row\<lparr>kr_ignored := set_entry (pi_reason entry)
           \<lparr>ki_count = (case previous of None \<Rightarrow> 0 | Some p \<Rightarrow> ki_count p) + pi_count entry,
            ki_confidence = widenConfidence (Option.bind previous ki_confidence) (pi_confidence entry)\<rparr>
           (kr_ignored row)\<rparr>) rows)"

definition acted_first :: "kind_row \<Rightarrow> kind_row \<Rightarrow> int" where
  "acted_first l r = of_bool (0 < kr_count r) - of_bool (0 < kr_count l)"

definition policyKindTable ::
  "(jstr \<Rightarrow> jstr) \<Rightarrow> (jstr \<Rightarrow> jstr \<Rightarrow> int) \<Rightarrow> hit_group list \<Rightarrow> privacy_finding list option
    \<Rightarrow> privacy_ignored list option \<Rightarrow> kind_row list \<times> rat option" where
  "policyKindTable translate collate hits findings ignored =
     (let confidence = recordedPrivacyConfidence translate collate findings;
          rows = fold (count_hit translate) hits [];
          rows = fold (put_confidence translate) (case confidence of None \<Rightarrow> [] | Some (groups, _) \<Rightarrow> groups) rows;
          rows = fold (count_ignored translate) (or_empty ignored) rows;
          thresholds = (case confidence of None \<Rightarrow> [] | Some (_, threshold) \<Rightarrow> [threshold])
            @ List.map_filter (\<lambda>e. map_option pc_threshold (pi_confidence e)) (or_empty ignored) in
      (sort_by acted_first (List.map_filter (map_of rows) (sortPrivacyKinds collate (map fst rows))),
       case thresholds of [] \<Rightarrow> None | threshold # _ \<Rightarrow> Some threshold))"

definition policyKindsNeedTable :: "kind_row list \<Rightarrow> bool" where
  "policyKindsNeedTable rows = list_ex (\<lambda>row. kr_confidence row \<noteq> None \<or> kr_ignored row \<noteq> []) rows"

section \<open>Where a placeholder stands\<close>

lemma natural_nonempty: "list_all (\<lambda>(kind, p). 1 \<le> shortest (sp_body p)) naturalPlaceholderPatterns"
  by (simp add: naturalPlaceholderPatterns_def length_pattern_word digit_run_def hexes_rx_def maybe_space_def opt_rx_def chr_def)

lemma token_nonempty: "1 \<le> shortest (sp_body privacyPlaceholderPattern)"
  by (simp add: privacyPlaceholderPattern_def chr_def)

definition mark_in :: "jstr \<Rightarrow> privacy_mark \<Rightarrow> bool" where
  "mark_in s m \<longleftrightarrow> pm_start m < pm_end m \<and> pm_end m \<le> length s"

lemma marks_in: "m \<in> set (marks s) \<Longrightarrow> mark_in s m"
  using natural_nonempty token_nonempty
  by (fastforce simp: marks_def token_marks_def natural_marks_def mark_in_def list_all_iff
      dest: matchAll_long matchAll_match)

interpretation by_start: comparator "\<lambda>l r. int (pm_start l) - int (pm_start r)" UNIV
  by unfold_locales auto

lemma marks_sorted: "sorted_wrt (\<lambda>l r. pm_start l \<le> pm_start r) (marks s)"
  using by_start.sort_by_ordered [of "token_marks s @ natural_marks s"] by (simp add: marks_def)

lemma between_drop: "a \<le> b \<Longrightarrow> between s a b @ drop b s = drop a s"
  unfolding between_def by (metis append_take_drop_id drop_drop le_add_diff_inverse2)

lemma place_marks_text:
  "\<forall>m \<in> set ms. mark_in s m \<Longrightarrow> concat (map hs_text (place_marks s lst ms)) = drop lst s"
  by (induction ms arbitrary: lst) (auto simp: between_drop mark_in_def)

lemma highlights_text: "concat (map hs_text (splitPrivacyHighlights s)) = s"
  using place_marks_text [of "marks s" s 0] marks_in
  by (auto simp: splitPrivacyHighlights_def split: list.splits)

fun offsets :: "nat \<Rightarrow> highlight_span list \<Rightarrow> (nat \<times> highlight_span) list" where
  "offsets i [] = []"
| "offsets i (h # hs) = (i, h) # offsets (i + length (hs_text h)) hs"

definition marked_at :: "nat \<Rightarrow> (nat \<times> highlight_span) list \<Rightarrow> bool" where
  "marked_at i hs \<longleftrightarrow> list_ex (\<lambda>(a, h). hs_kind h \<noteq> None \<and> a \<le> i \<and> i < a + length (hs_text h)) hs"

lemma length_between: "a \<le> b \<Longrightarrow> b \<le> length s \<Longrightarrow> length (between s a b) = b - a"
  by (simp add: between_def)

lemma place_marks_cover:
  "\<forall>m \<in> set ms. mark_in s m \<Longrightarrow> sorted_wrt (\<lambda>l r. pm_start l \<le> pm_start r) ms \<Longrightarrow> m \<in> set ms \<Longrightarrow> lst \<le> pm_start m \<Longrightarrow>
     marked_at (pm_start m) (offsets lst (place_marks s lst ms))"
proof (induction ms arbitrary: lst)
  case (Cons k ms)
  have k: "pm_start k < pm_end k" "pm_end k \<le> length s" using Cons.prems(1) by (auto simp: mark_in_def)
  show ?case
  proof (cases "pm_start k < lst")
    case True
    then show ?thesis using Cons by auto
  next
    case False
    let ?rest = "offsets (pm_end k) (place_marks s (pm_end k) ms)"
    have "marked_at (pm_start m) ((pm_start k, \<lparr>hs_text = between s (pm_start k) (pm_end k), hs_kind = Some (pm_kind k)\<rparr>) # ?rest)"
    proof (cases "pm_start m < pm_end k")
      case True
      then show ?thesis using Cons.prems(2,3) k by (auto simp: marked_at_def length_between)
    next
      case False
      then have "m \<in> set ms" using Cons.prems(3) k by auto
      then have "marked_at (pm_start m) ?rest" using False Cons.prems Cons.IH [of "pm_end k"] by auto
      then show ?thesis by (simp add: marked_at_def)
    qed
    then show ?thesis using False k by (auto simp: marked_at_def length_between)
  qed
qed simp

lemma highlights_cover:
  assumes "m \<in> set (marks s)"
  shows "marked_at (pm_start m) (offsets 0 (splitPrivacyHighlights s))"
proof -
  have "s \<noteq> []" using marks_in [OF assms] by (auto simp: mark_in_def)
  moreover have "marked_at (pm_start m) (offsets 0 (place_marks s 0 (marks s)))"
    using place_marks_cover [OF _ marks_sorted assms] marks_in by simp
  ultimately show ?thesis by (auto simp: splitPrivacyHighlights_def marked_at_def split: list.splits)
qed

lemma place_marks_spans:
  "h \<in> set (place_marks s lst ms) \<Longrightarrow> hs_kind h = Some kind \<Longrightarrow>
     \<exists>m \<in> set ms. hs_text h = between s (pm_start m) (pm_end m) \<and> pm_kind m = kind"
  by (induction s lst ms rule: place_marks.induct) (auto split: if_splits)

lemma highlights_are_marks:
  "h \<in> set (splitPrivacyHighlights s) \<Longrightarrow> hs_kind h = Some kind \<Longrightarrow>
     \<exists>m \<in> set (marks s). hs_text h = between s (pm_start m) (pm_end m) \<and> pm_kind m = kind"
  using place_marks_spans [of h s 0 "marks s" kind]
  by (auto simp: splitPrivacyHighlights_def split: if_splits list.splits)

text \<open>
  C7: marking a text never changes it and leaves nothing out: the marked and plain parts read together
  are the text; every place where a token or a stand-in starts lies inside a marked part; and every
  marked part is exactly one of the matches, with its kind.
\<close>

theorem highlights_faithful:
  "concat (map hs_text (splitPrivacyHighlights s)) = s
    \<and> list_all (\<lambda>m. marked_at (pm_start m) (offsets 0 (splitPrivacyHighlights s))) (marks s)
    \<and> list_all (\<lambda>h. case hs_kind h of
          None \<Rightarrow> True
        | Some kind \<Rightarrow> list_ex (\<lambda>m. hs_text h = between s (pm_start m) (pm_end m) \<and> pm_kind m = kind) (marks s))
        (splitPrivacyHighlights s)"
  using highlights_text [of s] highlights_cover [of _ s] highlights_are_marks [of _ s]
  by (auto simp: list_all_iff list_ex_iff split: option.splits)

section \<open>What the table sums\<close>

lemma map_of_set_entry: "map_of (set_entry k v m) = (map_of m)(k \<mapsto> v)"
  by (induction m) auto

lemma keys_set_entry: "set (map fst (set_entry k v m)) = insert k (set (map fst m))"
  by (induction k v m rule: set_entry.induct) (simp_all add: insert_commute)

lemma distinct_set_entry: "distinct (map fst m) \<Longrightarrow> distinct (map fst (set_entry k v m))"
  by (induction k v m rule: set_entry.induct) (simp_all only: set_entry.simps list.map distinct.simps keys_set_entry fst_conv split: if_split, auto)

lemma sum_set_entry:
  fixes f :: "'v \<Rightarrow> int"
  shows "sum_list (map (f \<circ> snd) (set_entry k v m))
     = sum_list (map (f \<circ> snd) m) + f v - (case map_of m k of None \<Rightarrow> 0 | Some w \<Rightarrow> f w)"
  by (induction m) auto

definition ignored_count :: "kind_row \<Rightarrow> int" where
  "ignored_count row = sum_list (map (ki_count \<circ> snd) (kr_ignored row))"

definition rows_ok :: "(jstr \<times> kind_row) list \<Rightarrow> bool" where
  "rows_ok rows \<longleftrightarrow> distinct (map fst rows) \<and> list_all (\<lambda>(k, row). kr_kind row = k) rows"

lemma list_all_set_entry:
  "list_all P m \<Longrightarrow> P (k, v) \<Longrightarrow> list_all P (set_entry k v m)"
  by (induction m) auto

lemma row_for_kind: "rows_ok rows \<Longrightarrow> kr_kind (row_for translate kind rows) = kind"
  by (auto simp: rows_ok_def row_for_def list_all_iff split: option.splits dest: map_of_SomeD)

lemma row_for_sums:
  "(case map_of rows kind of None \<Rightarrow> 0 | Some w \<Rightarrow> kr_count w) = kr_count (row_for translate kind rows)"
  "(case map_of rows kind of None \<Rightarrow> 0 | Some w \<Rightarrow> ignored_count w) = ignored_count (row_for translate kind rows)"
  by (auto simp: row_for_def ignored_count_def split: option.splits)

definition acted :: "(jstr \<times> kind_row) list \<Rightarrow> int" where
  "acted rows = sum_list (map (kr_count \<circ> snd) rows)"

definition passed_over :: "(jstr \<times> kind_row) list \<Rightarrow> int" where
  "passed_over rows = sum_list (map (ignored_count \<circ> snd) rows)"

lemma count_hit_sums:
  "acted (count_hit translate h rows) = acted rows + hg_count h"
  "passed_over (count_hit translate h rows) = passed_over rows"
  by (simp_all add: acted_def passed_over_def count_hit_def Let_def sum_set_entry row_for_sums [where translate = translate]
      ignored_count_def)

lemma put_confidence_sums:
  "acted (put_confidence translate g rows) = acted rows"
  "passed_over (put_confidence translate g rows) = passed_over rows"
  by (simp_all add: acted_def passed_over_def put_confidence_def Let_def sum_set_entry row_for_sums [where translate = translate]
      ignored_count_def)

lemma count_ignored_sums:
  "acted (count_ignored translate e rows) = acted rows"
  "passed_over (count_ignored translate e rows) = passed_over rows + pi_count e"
proof -
  show "acted (count_ignored translate e rows) = acted rows"
    by (simp add: acted_def count_ignored_def Let_def sum_set_entry row_for_sums [where translate = translate])
  show "passed_over (count_ignored translate e rows) = passed_over rows + pi_count e"
    by (simp add: passed_over_def count_ignored_def Let_def sum_set_entry row_for_sums [where translate = translate])
      (simp add: ignored_count_def sum_set_entry split: option.splits)
qed

lemma row_steps_ok:
  "rows_ok rows \<Longrightarrow> rows_ok (count_hit translate h rows)"
  "rows_ok rows \<Longrightarrow> rows_ok (put_confidence translate g rows)"
  "rows_ok rows \<Longrightarrow> rows_ok (count_ignored translate e rows)"
  by (auto simp: rows_ok_def count_hit_def put_confidence_def count_ignored_def Let_def distinct_set_entry
      intro!: list_all_set_entry row_for_kind [unfolded rows_ok_def])

lemma fold_invariant: "I s \<Longrightarrow> (\<And>x s. I s \<Longrightarrow> I (f x s)) \<Longrightarrow> I (fold f xs s)"
  by (induction xs arbitrary: s) auto

lemma map_filter_same: "(\<And>x. x \<in> set xs \<Longrightarrow> f x = g x) \<Longrightarrow> List.map_filter f xs = List.map_filter g xs"
  by (induction xs) (auto simp: map_filter_simps split: option.splits)

lemma all_values: "distinct (map fst m) \<Longrightarrow> List.map_filter (map_of m) (map fst m) = map snd m"
proof (induction m)
  case (Cons e m)
  have "List.map_filter (map_of (e # m)) (map fst m) = List.map_filter (map_of m) (map fst m)"
    using Cons.prems by (intro map_filter_same) (cases e, force)
  then show ?case using Cons by (cases e) (simp add: map_filter_simps fun_upd_def)
qed (simp add: map_filter_simps)

lemma sum_insert_by:
  fixes w :: "'a \<Rightarrow> int"
  shows "sum_list (map w (insert_by cmp x ys)) = w x + sum_list (map w ys)"
  by (induction ys) auto

lemma sum_sort_by:
  fixes w :: "'a \<Rightarrow> int"
  shows "sum_list (map w (sort_by cmp xs)) = sum_list (map w xs)"
  by (induction xs) (auto simp: sum_insert_by)

lemma sum_map_filter:
  fixes w :: "'b \<Rightarrow> int"
  shows "sum_list (map w (List.map_filter g xs)) = sum_list (map (\<lambda>x. case g x of None \<Rightarrow> 0 | Some y \<Rightarrow> w y) xs)"
  by (induction xs) (auto simp: map_filter_simps split: option.splits)

lemma sum_ordered_values:
  fixes w :: "'b \<Rightarrow> int"
  assumes "distinct (map fst m)"
  shows "sum_list (map w (List.map_filter (map_of m) (sort_by cmp (map fst m)))) = sum_list (map (w \<circ> snd) m)"
proof -
  have "sum_list (map w (List.map_filter (map_of m) (sort_by cmp (map fst m))))
      = sum_list (map w (List.map_filter (map_of m) (map fst m)))"
    by (simp only: sum_map_filter sum_sort_by)
  then show ?thesis by (simp add: all_values [OF assms] del: set_map)
qed

lemma kinds_in_order:
  "list_all (\<lambda>k. \<exists>row. map_of rows k = Some row \<and> kr_kind row = k) ks \<Longrightarrow>
     map kr_kind (List.map_filter (map_of rows) ks) = ks"
  by (induction ks) (auto simp: map_filter_simps)

lemma set_or_empty: "or_empty None = []" "or_empty (Some xs) = xs"
  by (simp_all add: or_empty_def)

interpretation acted_order: comparator acted_first UNIV
  by unfold_locales (auto simp: acted_first_def split: if_splits)

lemma row_step_keys:
  "set (map fst (count_hit translate h rows)) = insert (hg_kind h) (set (map fst rows))"
  "set (map fst (put_confidence translate g rows)) = insert (cg_kind g) (set (map fst rows))"
  "set (map fst (count_ignored translate e rows)) = insert (pi_kind e) (set (map fst rows))"
  by (simp_all only: count_hit_def put_confidence_def count_ignored_def Let_def keys_set_entry)

lemma fold_keys:
  "(\<And>x s. set (g (f x s)) = insert (w x) (set (g s))) \<Longrightarrow> set (g (fold f xs s)) = w ` set xs \<union> set (g s)"
  by (induction xs arbitrary: s) auto

lemma split_sorted:
  assumes "\<And>l r. R l r \<Longrightarrow> P r \<Longrightarrow> P l"
  shows "sorted_wrt R xs \<Longrightarrow> xs = filter P xs @ filter (\<lambda>x. \<not> P x) xs"
proof (induction xs)
  case (Cons x xs)
  show ?case
  proof (cases "P x")
    case False
    then have "\<forall>y \<in> set xs. \<not> P y" using Cons.prems assms [of x] by auto
    with False show ?thesis by (simp add: filter_id_conv)
  qed (use Cons in simp)
qed simp

lemma fold_count_hit_sums:
  "acted (fold (count_hit translate) hs rows) = acted rows + sum_list (map hg_count hs)"
  "passed_over (fold (count_hit translate) hs rows) = passed_over rows"
  by (induction hs arbitrary: rows) (simp_all add: count_hit_sums)

lemma fold_put_confidence_sums:
  "acted (fold (put_confidence translate) gs rows) = acted rows"
  "passed_over (fold (put_confidence translate) gs rows) = passed_over rows"
  by (induction gs arbitrary: rows) (simp_all add: put_confidence_sums)

lemma fold_count_ignored_sums:
  "acted (fold (count_ignored translate) es rows) = acted rows"
  "passed_over (fold (count_ignored translate) es rows) = passed_over rows + sum_list (map pi_count es)"
  by (induction es arbitrary: rows) (simp_all add: count_ignored_sums)

lemmas fold_sums = fold_count_hit_sums fold_put_confidence_sums fold_count_ignored_sums

text \<open>
  The policy table loses and invents no match: each kind is one row, the matches the policy acted on
  add up to the hits given, those it left in place add up to the ones recorded, the kinds shown are
  those of the hits, of the confident findings and of the matches left in place, and the kinds the
  policy acted on come first.
\<close>

theorem policy_table_conserves:
  "let rows = fst (policyKindTable translate collate hits findings ignored) in
     distinct (map kr_kind rows)
     \<and> sum_list (map kr_count rows) = sum_list (map hg_count hits)
     \<and> sum_list (map ignored_count rows) = sum_list (map pi_count (or_empty ignored))
     \<and> rows = filter (\<lambda>row. 0 < kr_count row) rows @ filter (\<lambda>row. \<not> 0 < kr_count row) rows"
proof -
  define rows where "rows = fst (policyKindTable translate collate hits findings ignored)"
  define groups where "groups = (case recordedPrivacyConfidence translate collate findings of None \<Rightarrow> [] | Some (gs, _) \<Rightarrow> gs)"
  define m where "m = fold (count_ignored translate) (or_empty ignored)
    (fold (put_confidence translate) groups (fold (count_hit translate) hits []))"
  have rows: "rows = sort_by acted_first (List.map_filter (map_of m) (sortPrivacyKinds collate (map fst m)))"
    by (simp add: rows_def policyKindTable_def Let_def m_def groups_def)
  have ok: "rows_ok m"
    unfolding m_def by (intro fold_invariant [where I = rows_ok] row_steps_ok) (simp_all add: rows_ok_def)
  then have keys: "distinct (map fst m)" by (simp add: rows_ok_def)
  have "acted m = sum_list (map hg_count hits)"
    unfolding m_def
    by (simp add: fold_sums) (simp add: acted_def)
  then have counts: "sum_list (map kr_count rows) = sum_list (map hg_count hits)"
    by (simp add: rows sum_sort_by sortPrivacyKinds_def sum_ordered_values [OF keys] acted_def)
  have "passed_over m = sum_list (map pi_count (or_empty ignored))"
    unfolding m_def
    by (simp add: fold_sums) (simp add: passed_over_def)
  then have left_in: "sum_list (map ignored_count rows) = sum_list (map pi_count (or_empty ignored))"
    by (simp add: rows sum_sort_by sortPrivacyKinds_def sum_ordered_values [OF keys] passed_over_def)
  have "list_all (\<lambda>k. \<exists>row. map_of m k = Some row \<and> kr_kind row = k) (sortPrivacyKinds collate (map fst m))"
    using ok by (fastforce simp: rows_ok_def list_all_iff sortPrivacyKinds_def)
  from kinds_in_order [OF this]
  have "distinct (map kr_kind rows)"
    using keys distinct_map_sort_by [of "\<lambda>x. x" "kind_order collate" "map fst m"]
    by (simp add: rows sortPrivacyKinds_def)
  moreover have "sorted_wrt (\<lambda>l r. acted_first l r \<le> 0) rows"
    unfolding rows by (rule acted_order.sort_by_ordered) simp
  then have "rows = filter (\<lambda>row. 0 < kr_count row) rows @ filter (\<lambda>row. \<not> 0 < kr_count row) rows"
    by (rule split_sorted [rotated]) (simp add: acted_first_def of_bool_def split: if_splits)
  ultimately show ?thesis using counts left_in unfolding Let_def rows_def by blast
qed

end
