(* ===== verification/Privacy_Replacements.thy ===== *)
theory Privacy_Replacements
  imports Json_Values Privacy_Highlights
begin

text \<open>
  Every replacement in the request sent upstream, \<open>privacy-replacements.ts\<close>: the strings of the body
  in order, the placeholders in them with where they stand, which of them the call made itself and
  which it only carried, and the places findings name. \<open>JSON.parse\<close> and the labels are arguments; an
  object lists its properties in the order \<open>Object.entries\<close> gives them.
\<close>

record replacement_site =
  rs_path :: "jstr option"
  rs_role :: "jstr option"
  rs_before :: jstr
  rs_after :: jstr

record privacy_replacement =
  rp_placeholder :: jstr
  rp_kind :: jstr
  rp_label :: jstr
  rp_count :: nat
  rp_sites :: "replacement_site list"
  rp_paths :: "jstr list"

definition CONTEXT_CHARS :: nat where "CONTEXT_CHARS = 48"

definition SITES_PER_REPLACEMENT :: nat where "SITES_PER_REPLACEMENT = 3"

text \<open>\<open>/_[0-9a-f]{16}>$/i\<close>\<close>

definition minted_token :: "jstr \<Rightarrow> bool" where
  "minted_token s \<longleftrightarrow> s \<noteq> [] \<and> last s = 62 \<and> hex_suffix (butlast s)"

section \<open>The text around a replacement\<close>

function compact :: "jstr \<Rightarrow> jstr" where
  "compact [] = []"
| "compact (c # s) =
     (if js_space c then 32 # compact (dropWhile js_space s) else c # compact s)"
  by pat_completeness auto
termination by (relation "measure length") (auto simp: le_imp_less_Suc length_dropWhile_le)

definition trim_start :: "jstr \<Rightarrow> jstr" where "trim_start s = dropWhile js_space s"

definition trim_end :: "jstr \<Rightarrow> jstr" where "trim_end s = rev (dropWhile js_space (rev s))"

datatype keep_side = KeepHead | KeepTail

fun cut_spans :: "nat \<Rightarrow> nat \<Rightarrow> keep_side \<Rightarrow> nat \<Rightarrow> highlight_span list \<Rightarrow> nat" where
  "cut_spans len wanted keep i [] = wanted"
| "cut_spans len wanted keep i (h # hs) =
     (let stop = i + length (hs_text h) in
      if hs_kind h \<noteq> None \<and> i < wanted \<and> wanted < stop
      then (case keep of KeepHead \<Rightarrow> if 0 < i then i else stop | KeepTail \<Rightarrow> if stop < len then stop else i)
      else cut_spans len wanted keep stop hs)"

definition cutOutsidePlaceholder :: "jstr \<Rightarrow> nat \<Rightarrow> keep_side \<Rightarrow> nat" where
  "cutOutsidePlaceholder s wanted keep = cut_spans (length s) wanted keep 0 (splitPrivacyHighlights s)"

definition ellipsis :: jstr where "ellipsis = [8230]"

definition contextBefore :: "jstr \<Rightarrow> nat \<Rightarrow> jstr" where
  "contextBefore s start =
     (let window = compact (between s (start - CONTEXT_CHARS * 4) start) in
      if length window \<le> CONTEXT_CHARS then window
      else ellipsis @ trim_start (drop (cutOutsidePlaceholder window (length window - CONTEXT_CHARS) KeepTail) window))"

definition contextAfter :: "jstr \<Rightarrow> nat \<Rightarrow> jstr" where
  "contextAfter s stop =
     (let window = compact (between s stop (stop + CONTEXT_CHARS * 4)) in
      if length window \<le> CONTEXT_CHARS then window
      else trim_end (take (cutOutsidePlaceholder window CONTEXT_CHARS KeepHead) window) @ ellipsis)"

section \<open>Finding the replacements\<close>

text \<open>The test \<open>/[<\d]|private\.invalid/i\<close> that skips most strings.\<close>

definition may_hold :: "jstr \<Rightarrow> bool" where
  "may_hold s \<longleftrightarrow> list_ex (\<lambda>c. c = 60 \<or> is_digit c) s \<or> str_includes (js ''private.invalid'') (map ascii_lower s)"

type_synonym found = "(jstr \<times> privacy_replacement) list"

definition add_site ::
  "(jstr \<Rightarrow> jstr) \<Rightarrow> jstr \<Rightarrow> jstr option \<Rightarrow> jstr option \<Rightarrow> nat \<Rightarrow> jstr \<Rightarrow> jstr \<Rightarrow> found \<Rightarrow> found" where
  "add_site translate s path role start placeholder kind found =
     (let entry = (case map_of found placeholder of
            Some e \<Rightarrow> e
          | None \<Rightarrow> \<lparr>rp_placeholder = placeholder, rp_kind = kind, rp_label = privacyKindLabel translate kind, rp_count = 0,
              rp_sites = [], rp_paths = []\<rparr>) in
      set_entry placeholder
        (entry\<lparr>rp_count := rp_count entry + 1,
           rp_paths := (case path of
               None \<Rightarrow> rp_paths entry
             | Some p \<Rightarrow> if p \<in> set (rp_paths entry) then rp_paths entry else rp_paths entry @ [p]),
           rp_sites := (if length (rp_sites entry) < SITES_PER_REPLACEMENT
             then rp_sites entry @ [\<lparr>rs_path = path, rs_role = role, rs_before = contextBefore s start,
                    rs_after = contextAfter s (start + length placeholder)\<rparr>]
             else rp_sites entry)\<rparr>) found)"

text \<open>Whether a marked part counts as a replacement.\<close>

definition counts_as :: "jstr set option \<Rightarrow> jstr \<Rightarrow> jstr \<Rightarrow> bool" where
  "counts_as replacedKinds placeholder kind \<longleftrightarrow>
     (if starts_with [60] placeholder then minted_token placeholder
      else case replacedKinds of None \<Rightarrow> True | Some kinds \<Rightarrow> kind \<in> kinds)"

fun visit_spans ::
  "(jstr \<Rightarrow> jstr) \<Rightarrow> jstr set option \<Rightarrow> jstr \<Rightarrow> jstr option \<Rightarrow> jstr option \<Rightarrow> nat \<Rightarrow> highlight_span list
    \<Rightarrow> found \<Rightarrow> found" where
  "visit_spans translate kinds s path role i [] found = found"
| "visit_spans translate kinds s path role i (h # hs) found =
     visit_spans translate kinds s path role (i + length (hs_text h)) hs
       (case hs_kind h of
          None \<Rightarrow> found
        | Some kind \<Rightarrow>
            if counts_as kinds (hs_text h) kind then add_site translate s path role i (hs_text h) kind found else found)"

definition visit_text ::
  "(jstr \<Rightarrow> jstr) \<Rightarrow> jstr set option \<Rightarrow> jstr \<Rightarrow> jstr option \<Rightarrow> jstr option \<Rightarrow> found \<Rightarrow> found" where
  "visit_text translate kinds s path role found =
     (if \<not> may_hold s then found
      else visit_spans translate kinds s path role 0 (splitPrivacyHighlights s) found)"

definition index_step :: "jstr \<Rightarrow> nat \<Rightarrow> jstr" where
  "index_step path i = path @ js ''['' @ dec i @ js '']''"

definition key_step :: "jstr \<Rightarrow> jstr \<Rightarrow> jstr" where
  "key_step path key = (if path \<noteq> [] then path @ js ''.'' @ key else key)"

definition own_role :: "jobj \<Rightarrow> jstr option \<Rightarrow> jstr option" where
  "own_role o' role = (case jstring (field o' ''role'') of Some r \<Rightarrow> Some r | None \<Rightarrow> role)"

text \<open>The visitor is a function of the state here.\<close>

fun walkStrings ::
    "(jstr \<Rightarrow> jstr \<Rightarrow> jstr option \<Rightarrow> 's \<Rightarrow> 's) \<Rightarrow> json \<Rightarrow> jstr \<Rightarrow> jstr option \<Rightarrow> 's \<Rightarrow> 's"
  and walk_items :: "(jstr \<Rightarrow> jstr \<Rightarrow> jstr option \<Rightarrow> 's \<Rightarrow> 's) \<Rightarrow> json list \<Rightarrow> nat \<Rightarrow> jstr \<Rightarrow> jstr option \<Rightarrow> 's \<Rightarrow> 's"
  and walk_fields :: "(jstr \<Rightarrow> jstr \<Rightarrow> jstr option \<Rightarrow> 's \<Rightarrow> 's) \<Rightarrow> jobj \<Rightarrow> jstr \<Rightarrow> jstr option \<Rightarrow> 's \<Rightarrow> 's" where
  "walkStrings visit (JStr s) path role st = visit s path role st"
| "walkStrings visit (JArr vs) path role st = walk_items visit vs 0 path role st"
| "walkStrings visit (JObj o') path role st = walk_fields visit o' path (own_role o' role) st"
| "walkStrings visit v path role st = st"
| "walk_items visit [] i path role st = st"
| "walk_items visit (v # vs) i path role st =
     walk_items visit vs (Suc i) path role (walkStrings visit v (index_step path i) role st)"
| "walk_fields visit [] path role st = st"
| "walk_fields visit ((key, v) # o') path role st =
     walk_fields visit o' path role (walkStrings visit v (key_step path key) role st)"

definition privacyReplacements ::
  "(jstr \<Rightarrow> json option) \<Rightarrow> (jstr \<Rightarrow> jstr) \<Rightarrow> jstr \<Rightarrow> jstr set option \<Rightarrow> privacy_replacement list" where
  "privacyReplacements parse translate body kinds =
     map snd (case parse body of
         None \<Rightarrow> visit_text translate kinds body None None []
       | Some v \<Rightarrow> walkStrings (\<lambda>s path. visit_text translate kinds s (Some path)) v [] None [])"

section \<open>Made and carried\<close>

text \<open>\<open>text.replaceAll(from, to)\<close> with one-unit-or-longer texts.\<close>

function replace_all :: "jstr \<Rightarrow> jstr \<Rightarrow> jstr \<Rightarrow> jstr" where
  "replace_all old new [] = []"
| "replace_all old new (c # s) =
     (if old \<noteq> [] \<and> starts_with old (c # s) then new @ replace_all old new (drop (length old - 1) s)
      else c # replace_all old new s)"
  by pat_completeness auto
termination by (relation "measure (\<lambda>(old, new, s). length s)") auto

definition label_step :: "jstr \<Rightarrow> jstr \<Rightarrow> jstr" where
  "label_step path segment =
     (if segment \<noteq> [] \<and> list_all is_digit segment then path @ js ''['' @ segment @ js '']''
      else key_step path segment)"

definition jsonPointerLabel :: "jstr \<Rightarrow> jstr" where
  "jsonPointerLabel pointer =
     foldl label_step []
       (map (\<lambda>segment. replace_all (js ''~0'') (js ''~'') (replace_all (js ''~1'') (js ''/'') segment))
         (tl (split_on 47 pointer)))"

definition samePlace :: "jstr \<Rightarrow> jstr \<Rightarrow> bool" where
  "samePlace l r =
     (let (outer, inner) = (if length l \<le> length r then (l, r) else (r, l)) in
      inner = outer
      \<or> starts_with outer inner \<and> length outer < length inner \<and> inner ! length outer \<in> {46, 91})"

definition locate :: "privacy_finding list \<Rightarrow> (jstr \<times> jstr list) list" where
  "locate findings = fold (\<lambda>f located.
     set_entry (pf_kind f) (or_empty (map_of located (pf_kind f)) @ [jsonPointerLabel (pf_json_path f)]) located) findings []"

definition at_finding :: "(jstr \<times> jstr list) list \<Rightarrow> privacy_replacement \<Rightarrow> bool" where
  "at_finding located r \<longleftrightarrow>
     rp_paths r = []
     \<or> list_ex (\<lambda>path. list_ex (samePlace path) (or_empty (map_of located (rp_kind r)))) (rp_paths r)"

definition splitCarriedReplacements ::
  "privacy_replacement list \<Rightarrow> privacy_finding list option \<Rightarrow> privacy_replacement list \<times> privacy_replacement list" where
  "splitCarriedReplacements replacements findings =
     (let located = locate (or_empty findings) in
      if located = [] then (replacements, [])
      else
        let aligned = set (map rp_kind (filter (at_finding located) replacements));
            is_made = (\<lambda>r. at_finding located r
              \<or> map_of located (rp_kind r) \<noteq> None \<and> rp_kind r \<notin> aligned) in
        (filter is_made replacements,
         filter (\<lambda>r. \<not> is_made r \<and> starts_with [60] (rp_placeholder r)) replacements))"

record finding_site =
  fs_path :: jstr
  fs_kinds :: "(jstr \<times> jstr \<times> int) list"

definition add_finding :: "privacy_finding \<Rightarrow> (jstr \<times> (jstr \<times> int) list) list \<Rightarrow> (jstr \<times> (jstr \<times> int) list) list" where
  "add_finding f byPath =
     set_entry (pf_json_path f) (add_count (pf_kind f) (pf_count f) (or_empty (map_of byPath (pf_json_path f)))) byPath"

definition privacyFindingSites ::
  "(jstr \<Rightarrow> jstr) \<Rightarrow> (jstr \<Rightarrow> jstr \<Rightarrow> int) \<Rightarrow> privacy_finding list option \<Rightarrow> finding_site list" where
  "privacyFindingSites translate collate findings =
     map (\<lambda>(pointer, kinds).
         \<lparr>fs_path = (if jsonPointerLabel pointer \<noteq> [] then jsonPointerLabel pointer else pointer),
          fs_kinds = map (\<lambda>kind. (kind, privacyKindLabel translate kind, count_of kind kinds))
            (sortPrivacyKinds collate (map fst kinds))\<rparr>)
       (fold add_finding (or_empty findings) [])"

section \<open>The quick test\<close>

lemma str_includes_append: "str_includes w (a @ w @ b)"
proof (induction a)
  case Nil
  have "starts_with w (w @ b)" by (simp add: starts_with_def)
  then show ?case by (cases "w @ b") auto
qed (simp add: Cons_eq_append_conv)

lemma str_includes_iff: "str_includes w s \<longleftrightarrow> (\<exists>a b. s = a @ w @ b)"
proof
  show "str_includes w s \<Longrightarrow> \<exists>a b. s = a @ w @ b"
  proof (induction w s rule: str_includes.induct)
    case (2 p c s)
    then consider "starts_with p (c # s)" | "str_includes p s" by auto
    then show ?case
    proof cases
      case 1
      then have "c # s = [] @ p @ drop (length p) (c # s)" unfolding starts_with_def by (metis append_Nil append_take_drop_id)
      then show ?thesis by blast
    next
      case 2
      then obtain a b where "s = a @ p @ b" using "2.IH" by blast
      then have "c # s = (c # a) @ p @ b" by simp
      then show ?thesis by blast
    qed
  qed simp
qed (auto intro: str_includes_append)

lemma str_includes_part: "str_includes w (take n (drop a s)) \<Longrightarrow> str_includes w s"
  unfolding str_includes_iff by (metis append.assoc append_take_drop_id)

lemma ascii_lower_digit: "is_digit (ascii_lower c) \<longleftrightarrow> is_digit c"
  by (auto simp: ascii_lower_def is_digit_def is_upper_def)

definition tell_tale :: "jstr \<Rightarrow> bool" where
  "tell_tale u \<longleftrightarrow> list_ex is_digit u \<or> str_includes (js ''private.invalid'') u"

lemma lang_seqs_word: "u \<in> lang (Seq (word w) r) \<longleftrightarrow> (\<exists>v. u = js w @ v \<and> v \<in> lang r)"
  by (auto simp: lang_word)

lemma natural_tell_tale:
  "list_all (\<lambda>(kind, p). \<forall>u \<in> lang (sp_body p). list_ex is_digit u \<or> sp_fold p \<and> str_includes (js ''private.invalid'') u)
     naturalPlaceholderPatterns"
proof -
  have email: "str_includes (js ''private.invalid'') (js ''redacted-'' @ h @ js ''@private.invalid'')" for h
    using str_includes_append [of "js ''private.invalid''" "js ''redacted-'' @ h @ [64]" "[]"] by (simp add: js_def)
  have url: "str_includes (js ''private.invalid'') (js ''https://private.invalid/r/'' @ v)" for v
    using str_includes_append [of "js ''private.invalid''" "js ''https://''" "js ''/r/'' @ v"] by (simp add: js_def)
  have starts: "list_ex is_digit (js ''+1-555-555-01'')" "list_ex is_digit (js ''4000'')" "list_ex is_digit (js ''203.0.113'')"
    "list_ex is_digit (js ''192.0.2'')" "list_ex is_digit (js ''198.51.100'')" "list_ex is_digit (js ''2001:db8::'')"
    "list_ex is_digit (js ''xx00redacted'')"
    by (simp_all add: js_def is_digit_def)
  show ?thesis
    by (auto simp: naturalPlaceholderPatterns_def lang_seqs_word lang_word email url starts simp del: word.simps)
qed

lemma folded_part: "take n (folded p (drop a s)) = take n (drop a (folded p s))"
  by (simp add: folded_def drop_map)

lemma list_ex_part: "list_ex P (take n (drop a s)) \<Longrightarrow> list_ex P s"
  by (auto simp: list_ex_iff dest: in_set_takeD in_set_dropD)

lemma list_ex_digit_folded: "list_ex is_digit (folded p s) \<longleftrightarrow> list_ex is_digit s"
  by (simp add: folded_def list_ex_iff ascii_lower_digit)

lemma token_may_hold:
  assumes "(a, b) \<in> set (matchAll privacyPlaceholderPattern s)"
  shows "may_hold s"
proof -
  have "take (b - a) (drop a s) \<in> lang (sp_body privacyPlaceholderPattern)"
    using matchAll_match [OF assms] by (simp add: folded_def privacyPlaceholderPattern_def del: lang.simps)
  then have "60 \<in> set (take (b - a) (drop a s))" by (auto simp: privacyPlaceholderPattern_def chr_def is_chr_def)
  then show ?thesis by (auto simp: may_hold_def list_ex_iff dest: in_set_takeD in_set_dropD)
qed

lemma natural_may_hold:
  assumes "(kind, p) \<in> set naturalPlaceholderPatterns" and "(a, b) \<in> set (matchAll p s)"
  shows "may_hold s"
proof -
  have "take (b - a) (drop a (folded p s)) \<in> lang (sp_body p)"
    using matchAll_match [OF assms(2)] by (simp add: folded_part)
  with natural_tell_tale assms(1)
  have "list_ex is_digit (take (b - a) (drop a (folded p s)))
      \<or> sp_fold p \<and> str_includes (js ''private.invalid'') (take (b - a) (drop a (folded p s)))"
    unfolding list_all_iff by blast
  then consider "list_ex is_digit (take (b - a) (drop a (folded p s)))"
    | "sp_fold p" "str_includes (js ''private.invalid'') (take (b - a) (drop a (folded p s)))"
    by blast
  then show ?thesis
  proof cases
    case 1
    then have "list_ex is_digit s" using list_ex_part list_ex_digit_folded by blast
    then show ?thesis by (auto simp: may_hold_def list_ex_iff)
  next
    case 2
    then have "str_includes (js ''private.invalid'') (folded p s)" by (blast intro: str_includes_part)
    with 2(1) show ?thesis by (simp add: may_hold_def folded_def)
  qed
qed

lemma mark_may_hold: "m \<in> set (marks s) \<Longrightarrow> may_hold s"
proof -
  assume "m \<in> set (marks s)"
  then consider a b where "(a, b) \<in> set (matchAll privacyPlaceholderPattern s)"
    | kind p a b where "(kind, p) \<in> set naturalPlaceholderPatterns" "(a, b) \<in> set (matchAll p s)"
    by (auto simp: marks_def token_marks_def natural_marks_def)
  then show "may_hold s" by cases (fact token_may_hold natural_may_hold)+
qed

lemma place_marks_plain: "h \<in> set (place_marks s lst []) \<Longrightarrow> hs_kind h = None"
  by (auto split: if_splits)

lemma visit_plain:
  "list_all (\<lambda>h. hs_kind h = None) hs \<Longrightarrow> visit_spans translate kinds s path role i hs found = found"
  by (induction hs arbitrary: i found) auto

lemma quick_test_harmless:
  "visit_text translate kinds s path role found
     = visit_spans translate kinds s path role 0 (splitPrivacyHighlights s) found"
proof (cases "may_hold s")
  case False
  then have "marks s = []" using mark_may_hold [of "hd (marks s)" s] by (cases "marks s") auto
  then have "list_all (\<lambda>h. hs_kind h = None) (splitPrivacyHighlights s)"
    by (auto simp: splitPrivacyHighlights_def list_all_iff split: if_splits)
  then show ?thesis using False by (simp add: visit_text_def visit_plain)
qed (simp add: visit_text_def)

section \<open>Cutting\<close>

fun inside :: "nat \<Rightarrow> nat \<times> highlight_span \<Rightarrow> bool" where
  "inside c (a, h) \<longleftrightarrow> hs_kind h \<noteq> None \<and> a < c \<and> c < a + length (hs_text h)"

lemma offsets_from: "(a, h) \<in> set (offsets i hs) \<Longrightarrow> i \<le> a"
  by (induction hs arbitrary: i) force+

lemma cut_spans_bounds: "cut_spans len wanted keep i hs = wanted \<or> i \<le> cut_spans len wanted keep i hs"
proof (induction hs arbitrary: i)
  case (Cons h hs)
  show ?case using Cons.IH [of "i + length (hs_text h)"] by (auto simp: Let_def split: keep_side.splits)
qed simp

lemma cut_spans_outside: "list_all (\<lambda>e. \<not> inside (cut_spans len wanted keep i hs) e) (offsets i hs)"
proof (induction hs arbitrary: i)
  case (Cons h hs)
  let ?stop = "i + length (hs_text h)"
  have later: "\<not> inside c e" if "e \<in> set (offsets ?stop hs)" "c \<le> ?stop" for c e
  proof -
    obtain a k where e: "e = (a, k)" by (cases e)
    then show ?thesis using that offsets_from [of a k ?stop hs] by simp
  qed
  show ?case
  proof (cases "hs_kind h \<noteq> None \<and> i < wanted \<and> wanted < ?stop")
    case True
    then have "cut_spans len wanted keep i (h # hs) \<in> {i, ?stop}" by (auto simp: Let_def split: keep_side.splits)
    moreover have "\<not> inside i (i, h)" "\<not> inside ?stop (i, h)" by simp_all
    ultimately show ?thesis using later by (auto simp: list_all_iff simp del: cut_spans.simps inside.simps)
  next
    case False
    then have c: "cut_spans len wanted keep i (h # hs) = cut_spans len wanted keep ?stop hs"
      by (simp only: cut_spans.simps Let_def False if_False)
    then have "\<not> inside (cut_spans len wanted keep i (h # hs)) (i, h)"
      using False cut_spans_bounds [of len wanted keep ?stop hs] by auto
    then show ?thesis using Cons.IH [of ?stop] c by simp
  qed
qed simp

lemma cut_outside: "list_all (\<lambda>e. \<not> inside (cutOutsidePlaceholder s wanted keep) e) (offsets 0 (splitPrivacyHighlights s))"
  unfolding cutOutsidePlaceholder_def by (rule cut_spans_outside)

section \<open>Every string of the body\<close>

datatype way_step = KeyStep jstr | IndexStep nat

fun path_step :: "jstr \<Rightarrow> way_step \<Rightarrow> jstr" where
  "path_step path (KeyStep key) = key_step path key"
| "path_step path (IndexStep i) = index_step path i"

definition site_path :: "jstr \<Rightarrow> way_step list \<Rightarrow> jstr" where
  "site_path path way = foldl path_step path way"

text \<open>The strings in order, with the way to each and the nearest role.\<close>

type_synonym body_text = "way_step list \<times> jstr \<times> jstr option"

definition step_down :: "way_step \<Rightarrow> body_text list \<Rightarrow> body_text list" where
  "step_down w = map (\<lambda>(way, e). (w # way, e))"

fun body_texts :: "json \<Rightarrow> jstr option \<Rightarrow> body_text list"
  and item_texts :: "json list \<Rightarrow> nat \<Rightarrow> jstr option \<Rightarrow> body_text list"
  and field_texts :: "jobj \<Rightarrow> jstr option \<Rightarrow> body_text list" where
  "body_texts (JStr s) role = [([], s, role)]"
| "body_texts (JArr vs) role = item_texts vs 0 role"
| "body_texts (JObj o') role = field_texts o' (own_role o' role)"
| "body_texts v role = []"
| "item_texts [] i role = []"
| "item_texts (v # vs) i role = step_down (IndexStep i) (body_texts v role) @ item_texts vs (Suc i) role"
| "field_texts [] role = []"
| "field_texts ((key, v) # o') role = step_down (KeyStep key) (body_texts v role) @ field_texts o' role"

definition visit_all :: "(jstr \<Rightarrow> jstr \<Rightarrow> jstr option \<Rightarrow> 's \<Rightarrow> 's) \<Rightarrow> jstr \<Rightarrow> body_text list \<Rightarrow> 's \<Rightarrow> 's" where
  "visit_all visit path = fold (\<lambda>(way, s, role). visit s (site_path path way) role)"

lemma visit_all_down: "visit_all visit path (step_down w es) st = visit_all visit (path_step path w) es st"
  by (induction es arbitrary: st) (auto simp: visit_all_def step_down_def site_path_def)

lemma visit_all_append: "visit_all visit path (es @ fs) st = visit_all visit path fs (visit_all visit path es st)"
  by (simp add: visit_all_def)

lemma walk_in_order:
  "walkStrings visit v path role st = visit_all visit path (body_texts v role) st"
  "walk_items visit vs i path role st = visit_all visit path (item_texts vs i role) st"
  "walk_fields visit o' path role st = visit_all visit path (field_texts o' role) st"
proof (induction visit v path role st and visit vs i path role st and visit o' path role st
    rule: walkStrings_walk_items_walk_fields.induct)
qed (simp_all add: visit_all_append visit_all_down, simp_all add: visit_all_def site_path_def)

section \<open>Replacements as groups\<close>

record replaced_part =
  re_text :: jstr
  re_path :: "jstr option"
  re_role :: "jstr option"
  re_start :: nat
  re_placeholder :: jstr
  re_kind :: jstr

fun span_events ::
  "jstr set option \<Rightarrow> jstr \<Rightarrow> jstr option \<Rightarrow> jstr option \<Rightarrow> nat \<Rightarrow> highlight_span list \<Rightarrow> replaced_part list" where
  "span_events kinds s path role i [] = []"
| "span_events kinds s path role i (h # hs) =
     (case hs_kind h of
        Some kind \<Rightarrow>
          if counts_as kinds (hs_text h) kind
          then [\<lparr>re_text = s, re_path = path, re_role = role, re_start = i, re_placeholder = hs_text h, re_kind = kind\<rparr>] else []
      | None \<Rightarrow> [])
     @ span_events kinds s path role (i + length (hs_text h)) hs"

definition text_events :: "jstr set option \<Rightarrow> jstr option \<Rightarrow> jstr \<Rightarrow> jstr option \<Rightarrow> replaced_part list" where
  "text_events kinds path s role = span_events kinds s path role 0 (splitPrivacyHighlights s)"

definition add_part :: "(jstr \<Rightarrow> jstr) \<Rightarrow> replaced_part \<Rightarrow> found \<Rightarrow> found" where
  "add_part translate e =
     add_site translate (re_text e) (re_path e) (re_role e) (re_start e) (re_placeholder e) (re_kind e)"

lemma visit_spans_events:
  "visit_spans translate kinds s path role i hs found = fold (add_part translate) (span_events kinds s path role i hs) found"
  by (induction hs arbitrary: i found) (auto simp: add_part_def split: option.splits)

lemma visit_text_events:
  "visit_text translate kinds s path role found = fold (add_part translate) (text_events kinds path s role) found"
  by (simp add: quick_test_harmless visit_spans_events text_events_def)

definition body_events :: "jstr set option \<Rightarrow> json \<Rightarrow> replaced_part list" where
  "body_events kinds v =
     concat (map (\<lambda>(way, s, role). text_events kinds (Some (site_path [] way)) s role) (body_texts v None))"

definition site_of :: "replaced_part \<Rightarrow> replacement_site" where
  "site_of e = \<lparr>rs_path = re_path e, rs_role = re_role e, rs_before = contextBefore (re_text e) (re_start e),
     rs_after = contextAfter (re_text e) (re_start e + length (re_placeholder e))\<rparr>"

text \<open>The first of equal elements stays.\<close>

fun firsts :: "'a list \<Rightarrow> 'a list" where
  "firsts [] = []"
| "firsts (x # xs) = x # filter (\<lambda>y. y \<noteq> x) (firsts xs)"

definition replacement_of :: "(jstr \<Rightarrow> jstr) \<Rightarrow> replaced_part list \<Rightarrow> jstr \<Rightarrow> privacy_replacement" where
  "replacement_of translate es placeholder =
     (let own = filter (\<lambda>e. re_placeholder e = placeholder) es; kind = re_kind (hd own) in
      \<lparr>rp_placeholder = placeholder, rp_kind = kind, rp_label = privacyKindLabel translate kind, rp_count = length own,
       rp_sites = map site_of (take 3 own), rp_paths = firsts (List.map_filter re_path own)\<rparr>)"

definition grouped :: "(jstr \<Rightarrow> jstr) \<Rightarrow> replaced_part list \<Rightarrow> privacy_replacement list" where
  "grouped translate es = map (replacement_of translate es) (firsts (map re_placeholder es))"

lemma set_firsts [simp]: "set (firsts xs) = set xs"
  by (induction xs) auto

lemma firsts_snoc: "firsts (xs @ [x]) = (if x \<in> set xs then firsts xs else firsts xs @ [x])"
  by (induction xs) auto

lemma distinct_firsts [simp]: "distinct (firsts xs)"
  by (induction xs) auto

lemma set_entry_present:
  "distinct ks \<Longrightarrow> k \<in> set ks \<Longrightarrow> set_entry k v (map (\<lambda>x. (x, f x)) ks) = map (\<lambda>x. (x, if x = k then v else f x)) ks"
  by (induction ks) auto

lemma set_entry_absent:
  "k \<notin> set ks \<Longrightarrow> set_entry k v (map (\<lambda>x. (x, f x)) ks) = map (\<lambda>x. (x, f x)) ks @ [(k, v)]"
  by (induction ks) auto

definition grow :: "replaced_part \<Rightarrow> privacy_replacement \<Rightarrow> privacy_replacement" where
  "grow e r = r\<lparr>rp_count := rp_count r + 1,
     rp_paths := (case re_path e of
         None \<Rightarrow> rp_paths r
       | Some p \<Rightarrow> if p \<in> set (rp_paths r) then rp_paths r else rp_paths r @ [p]),
     rp_sites := (if length (rp_sites r) < SITES_PER_REPLACEMENT then rp_sites r @ [site_of e] else rp_sites r)\<rparr>"

lemma add_part_eq:
  "add_part translate e found =
     set_entry (re_placeholder e)
       (grow e (case map_of found (re_placeholder e) of
          Some r \<Rightarrow> r
        | None \<Rightarrow> \<lparr>rp_placeholder = re_placeholder e, rp_kind = re_kind e, rp_label = privacyKindLabel translate (re_kind e),
            rp_count = 0, rp_sites = [], rp_paths = []\<rparr>)) found"
  by (simp add: add_part_def add_site_def grow_def site_of_def Let_def)

lemma map_filter_append: "List.map_filter f (xs @ ys) = List.map_filter f xs @ List.map_filter f ys"
  by (induction xs) (simp_all add: map_filter_simps split: option.splits)

lemma grow_replacement:
  assumes "filter (\<lambda>x. re_placeholder x = re_placeholder e) es \<noteq> []"
  shows "grow e (replacement_of translate es (re_placeholder e)) = replacement_of translate (es @ [e]) (re_placeholder e)"
proof -
  have sites: "map site_of (take 3 (own @ [e])) = (if length own < 3 then map site_of (take 3 own) @ [site_of e] else map site_of (take 3 own))" for own
    by auto
  show ?thesis
    using assms
    by (simp add: replacement_of_def grow_def Let_def SITES_PER_REPLACEMENT_def sites map_filter_append map_filter_simps firsts_snoc
        split: option.splits)
qed

lemma grow_first:
  assumes "filter (\<lambda>x. re_placeholder x = re_placeholder e) es = []"
  shows "grow e \<lparr>rp_placeholder = re_placeholder e, rp_kind = re_kind e, rp_label = privacyKindLabel translate (re_kind e),
      rp_count = 0, rp_sites = [], rp_paths = []\<rparr> = replacement_of translate (es @ [e]) (re_placeholder e)"
  using assms
  by (simp add: replacement_of_def grow_def Let_def SITES_PER_REPLACEMENT_def map_filter_simps split: option.splits)

lemma map_of_same: "map_of (map (\<lambda>x. (x, f x)) ks) k = (if k \<in> set ks then Some (f k) else None)"
  by (induction ks) auto

lemma events_grouped:
  "fold (add_part translate) es [] = map (\<lambda>p. (p, replacement_of translate es p)) (firsts (map re_placeholder es))"
proof (induction es rule: rev_induct)
  case (snoc e es)
  let ?p = "re_placeholder e"
  have other: "replacement_of translate (es @ [e]) q = replacement_of translate es q" if "q \<noteq> ?p" for q
    using that by (simp add: replacement_of_def)
  show ?case
  proof (cases "?p \<in> set (map re_placeholder es)")
    case True
    then have some: "filter (\<lambda>x. re_placeholder x = ?p) es \<noteq> []" by (auto simp: filter_empty_conv)
    have "fold (add_part translate) (es @ [e]) []
        = map (\<lambda>q. (q, if q = ?p then replacement_of translate (es @ [e]) ?p else replacement_of translate es q))
            (firsts (map re_placeholder es))"
      using True by (simp add: snoc add_part_eq map_of_same grow_replacement [OF some] set_entry_present del: set_map)
    then show ?thesis using True by (simp add: firsts_snoc other cong: map_cong)
  next
    case False
    then have none: "filter (\<lambda>x. re_placeholder x = ?p) es = []" by (auto simp: filter_empty_conv image_iff)
    have "fold (add_part translate) (es @ [e]) []
        = map (\<lambda>q. (q, replacement_of translate es q)) (firsts (map re_placeholder es))
          @ [(?p, replacement_of translate (es @ [e]) ?p)]"
      using False by (simp add: snoc add_part_eq map_of_same grow_first [OF none] set_entry_absent del: set_map)
    moreover have "replacement_of translate es q = replacement_of translate (es @ [e]) q"
      if "q \<in> set (firsts (map re_placeholder es))" for q
      using that False other [of q] by (cases "q = ?p") auto
    ultimately show ?thesis using False by (simp add: firsts_snoc del: set_map cong: map_cong)
  qed
qed simp

lemma body_visited:
  "walkStrings (\<lambda>s path. visit_text translate kinds s (Some path)) v [] None found
     = fold (add_part translate) (body_events kinds v) found"
proof -
  have "visit_all (\<lambda>s path. visit_text translate kinds s (Some path)) [] es found
      = fold (add_part translate) (concat (map (\<lambda>(way, s, role). text_events kinds (Some (site_path [] way)) s role) es)) found"
    for es
    by (induction es arbitrary: found) (auto simp: visit_all_def visit_text_events)
  then show ?thesis by (simp add: walk_in_order body_events_def)
qed

text \<open>
  C6: the replacements shown are exactly the replaced parts of the body's strings, grouped by placeholder in
  the order they first appear: each with how often it stands there, its first three places and every
  path once; the quick test that skips strings never hides one.
\<close>

theorem replacements_grouped:
  "privacyReplacements parse translate body kinds =
     grouped translate (case parse body of
         None \<Rightarrow> text_events kinds None body None
       | Some v \<Rightarrow> body_events kinds v)"
  by (simp add: privacyReplacements_def grouped_def visit_text_events body_visited events_grouped split: option.splits)

section \<open>Pointers\<close>

text \<open>A JSON pointer, RFC 6901.\<close>

definition pointer_escape :: "jstr \<Rightarrow> jstr" where
  "pointer_escape key = concat (map (\<lambda>c. if c = 126 then [126, 48] else if c = 47 then [126, 49] else [c]) key)"

fun pointer_segment :: "way_step \<Rightarrow> jstr" where
  "pointer_segment (KeyStep key) = pointer_escape key"
| "pointer_segment (IndexStep i) = dec i"

definition pointer_of :: "way_step list \<Rightarrow> jstr" where
  "pointer_of way = concat (map (\<lambda>w. 47 # pointer_segment w) way)"

fun numeric_key :: "way_step \<Rightarrow> bool" where
  "numeric_key (KeyStep key) \<longleftrightarrow> key \<noteq> [] \<and> list_all is_digit key"
| "numeric_key (IndexStep i) \<longleftrightarrow> False"

lemma starts_two: "starts_with [a, b] s \<longleftrightarrow> (\<exists>t. s = a # b # t)"
  by (cases s rule: list.exhaust; cases "tl s") (auto simp: starts_with_def)

lemma unescape_slash:
  "replace_all [126, 49] [47] (pointer_escape key) = concat (map (\<lambda>c. if c = 126 then [126, 48] else [c]) key)"
  by (induction key) (auto simp: pointer_escape_def starts_two)

lemma unescape_tilde:
  "replace_all [126, 48] [126] (concat (map (\<lambda>c. if c = 126 then [126, 48] else [c]) key)) = key"
  by (induction key) (auto simp: starts_two)

lemma dec_no_tilde: "replace_all (126 # w) new (dec i) = dec i"
proof -
  have "126 \<notin> set s \<Longrightarrow> replace_all (126 # w) new s = s" for s
    by (induction s) (auto simp: starts_with_def)
  moreover have "126 \<notin> set (dec i)" using dec_digits [of 126 i] by (auto simp: is_digit_def)
  ultimately show ?thesis by blast
qed

lemma unescape: "replace_all (js ''~0'') (js ''~'') (replace_all (js ''~1'') (js ''/'') (pointer_segment w))
    = (case w of KeyStep key \<Rightarrow> key | IndexStep i \<Rightarrow> dec i)"
  by (cases w) (simp_all add: js_def unescape_slash unescape_tilde dec_no_tilde)

lemma segment_no_slash: "47 \<notin> set (pointer_segment w)"
proof (cases w)
  case (IndexStep i)
  then show ?thesis using dec_digits [of 47 i] by (auto simp: is_digit_def)
qed (auto simp: pointer_escape_def split: if_splits)

lemma split_on_prefix: "c \<notin> set a \<Longrightarrow> split_on c s = w # ws \<Longrightarrow> split_on c (a @ s) = (a @ w) # ws"
  by (induction a) auto

lemma split_on_concat: "\<forall>x \<in> set xs. c \<notin> set x \<Longrightarrow> split_on c (concat (map ((#) c) xs)) = [] # xs"
proof (induction xs)
  case (Cons x xs)
  then show ?case using split_on_prefix [of c x "concat (map ((#) c) xs)" "[]" xs] by simp
qed simp

lemma label_of_way:
  "jsonPointerLabel (pointer_of way) = foldl label_step [] (map (\<lambda>w. case w of KeyStep key \<Rightarrow> key | IndexStep i \<Rightarrow> dec i) way)"
proof -
  have "split_on 47 (pointer_of way) = [] # map pointer_segment way"
    using split_on_concat [of "map pointer_segment way" 47] segment_no_slash by (simp add: pointer_of_def comp_def)
  then show ?thesis by (simp add: jsonPointerLabel_def unescape comp_def)
qed

lemma dec_numeric: "dec i \<noteq> [] \<and> list_all is_digit (dec i)"
proof
  show "dec i \<noteq> []" by (subst dec.simps) simp
qed (simp add: list_all_iff dec_digits)

definition way_label :: "way_step \<Rightarrow> jstr" where
  "way_label w = (case w of KeyStep key \<Rightarrow> key | IndexStep i \<Rightarrow> dec i)"

lemma label_step_index: "label_step l (way_label (IndexStep i)) = path_step l (IndexStep i)"
  using dec_numeric [of i] by (simp add: label_step_def way_label_def index_step_def)

lemma label_step_key:
  "label_step l (way_label (KeyStep key)) = (if numeric_key (KeyStep key) then l @ js ''['' @ key @ js '']'' else path_step l (KeyStep key))"
  by (simp add: label_step_def way_label_def)

text \<open>One step of the label and of the path, from texts that are empty together.\<close>

lemma way_step:
  assumes "l = [] \<longleftrightarrow> p = []" and "length p \<le> length l"
  shows "(label_step l (way_label w) = [] \<longleftrightarrow> path_step p w = [])
    \<and> length (path_step p w) \<le> length (label_step l (way_label w))
    \<and> (length p < length l \<or> numeric_key w \<longrightarrow> length (path_step p w) < length (label_step l (way_label w)))"
proof (cases w)
  case (IndexStep i)
  then show ?thesis using assms by (auto simp: label_step_index index_step_def js_def simp del: path_step.simps(1))
next
  case (KeyStep key)
  then show ?thesis using assms by (auto simp: label_step_key key_step_def js_def)
qed

lemma way_longer:
  "(l = [] \<longleftrightarrow> p = []) \<Longrightarrow> length p \<le> length l \<Longrightarrow> length p < length l \<or> list_ex numeric_key way \<Longrightarrow>
     length (foldl path_step p way) < length (foldl label_step l (map way_label way))"
proof (induction way arbitrary: l p)
  case (Cons w way)
  note step = way_step [OF Cons.prems(1,2), of w]
  show ?case
    unfolding list.map foldl_Cons
    by (rule Cons.IH) (use step Cons.prems(3) in auto)
qed simp

lemma way_same: "\<not> list_ex numeric_key way \<Longrightarrow> foldl label_step l (map way_label way) = foldl path_step l way"
proof (induction way arbitrary: l)
  case (Cons w way)
  then have "label_step l (way_label w) = path_step l w"
    by (cases w) (auto simp: label_step_index label_step_key simp del: path_step.simps)
  then show ?case using Cons by simp
qed simp

text \<open>
  C28: a finding's JSON pointer is shown as the very path the replacement at that place has, exactly when
  no object key on the way is a run of digits; such a key is written like an index, and the two never
  match.
\<close>

theorem pointer_labels:
  "jsonPointerLabel (pointer_of way) = site_path [] way \<longleftrightarrow> \<not> list_ex numeric_key way"
proof -
  have label: "jsonPointerLabel (pointer_of way) = foldl label_step [] (map way_label way)"
    using label_of_way [of way] by (simp add: way_label_def [abs_def])
  show ?thesis
  proof (cases "list_ex numeric_key way")
    case True
    then have "length (site_path [] way) < length (jsonPointerLabel (pointer_of way))"
      unfolding label site_path_def by (intro way_longer) simp_all
    with True show ?thesis by auto
  qed (simp add: label way_same site_path_def)
qed

section \<open>Made and carried\<close>

lemma locate_keys: "map_of (fold (\<lambda>f located.
     set_entry (pf_kind f) (or_empty (map_of located (pf_kind f)) @ [jsonPointerLabel (pf_json_path f)]) located) fs m) k \<noteq> None
   \<longleftrightarrow> k \<in> pf_kind ` set fs \<or> map_of m k \<noteq> None"
  by (induction fs arbitrary: m) (auto simp: map_of_set_entry)

lemma located_kind: "map_of (locate fs) k \<noteq> None \<longleftrightarrow> k \<in> pf_kind ` set fs"
  using locate_keys [of fs "[]" k] by (simp add: locate_def)

lemma locate_empty: "locate fs = [] \<longleftrightarrow> fs = []"
proof
  assume "locate fs = []"
  then show "fs = []" using located_kind [of fs "pf_kind (hd fs)"] by (cases fs) auto
qed (simp add: locate_def)

text \<open>
  Of the replacements shown, every token is listed as made or as carried and never as both; one at a
  finding is made; a kind that has a finding keeps at least one made replacement when it has any; and
  without findings all are made.
\<close>

theorem carried_split:
  assumes "splitCarriedReplacements replacements findings = (made, carried)"
  shows "list_all (\<lambda>r. starts_with [60] (rp_placeholder r) \<longrightarrow> (r \<in> set made) \<noteq> (r \<in> set carried)) replacements
    \<and> set made \<inter> set carried = {} \<and> set made \<union> set carried \<subseteq> set replacements
    \<and> list_all (\<lambda>r. at_finding (locate (or_empty findings)) r \<longrightarrow> r \<in> set made) replacements
    \<and> list_all (\<lambda>r. rp_kind r \<in> pf_kind ` set (or_empty findings) \<longrightarrow> rp_kind r \<in> rp_kind ` set made) replacements
    \<and> (or_empty findings = [] \<longrightarrow> made = replacements \<and> carried = [])"
proof (cases "or_empty findings = []")
  case True
  then show ?thesis using assms by (auto simp: splitCarriedReplacements_def locate_def list_all_iff)
next
  case False
  define located where "located = locate (or_empty findings)"
  define aligned where "aligned = set (map rp_kind (filter (at_finding located) replacements))"
  define is_made where "is_made r \<longleftrightarrow> at_finding located r \<or> map_of located (rp_kind r) \<noteq> None \<and> rp_kind r \<notin> aligned" for r
  have split: "made = filter is_made replacements"
    "carried = filter (\<lambda>r. \<not> is_made r \<and> starts_with [60] (rp_placeholder r)) replacements"
    using assms False
    by (auto simp: splitCarriedReplacements_def Let_def locate_empty is_made_def [abs_def] located_def aligned_def)
  have "rp_kind r \<in> rp_kind ` set made" if r: "r \<in> set replacements" "rp_kind r \<in> pf_kind ` set (or_empty findings)" for r
  proof (cases "rp_kind r \<in> aligned")
    case True
    then obtain q where "q \<in> set replacements" "at_finding located q" "rp_kind q = rp_kind r"
      by (auto simp: aligned_def)
    then have "q \<in> set made" by (simp add: split is_made_def)
    with \<open>rp_kind q = rp_kind r\<close> show ?thesis by (metis image_eqI)
  next
    case False
    then have "r \<in> set made" using r located_kind by (simp add: split is_made_def located_def)
    then show ?thesis by simp
  qed
  then show ?thesis using False by (auto simp: split list_all_iff is_made_def located_def)
qed

definition sample_replacement :: "string \<Rightarrow> string \<Rightarrow> string \<Rightarrow> privacy_replacement" where
  "sample_replacement placeholder kind path = \<lparr>rp_placeholder = js placeholder, rp_kind = js kind, rp_label = js kind,
     rp_count = 1, rp_sites = [], rp_paths = [js path]\<rparr>"

definition sample_finding :: "string \<Rightarrow> string \<Rightarrow> privacy_finding" where
  "sample_finding kind pointer =
     \<lparr>pf_kind = js kind, pf_json_path = js pointer, pf_count = 1, pf_confidence = None\<rparr>"

theorem carried_split_witness:
  "splitCarriedReplacements
     [sample_replacement ''<A>'' ''email'' ''input[0].content'', sample_replacement ''<B>'' ''email'' ''input[2].content'']
     (Some [sample_finding ''email'' ''/input/0''])
   = ([sample_replacement ''<A>'' ''email'' ''input[0].content''], [sample_replacement ''<B>'' ''email'' ''input[2].content''])
   \<and> sample_replacement ''<B>'' ''email'' ''input[2].content'' \<in> set
       [sample_replacement ''<B>'' ''email'' ''input[2].content'']"
proof -
  have pointer: "jsonPointerLabel [47, 105, 110, 112, 117, 116, 47, 48] = [105, 110, 112, 117, 116, 91, 48, 93]"
    by (simp add: jsonPointerLabel_def js_def starts_with_def label_step_def key_step_def is_digit_def)
  have "splitCarriedReplacements
     [sample_replacement ''<A>'' ''email'' ''input[0].content'', sample_replacement ''<B>'' ''email'' ''input[2].content'']
     (Some [sample_finding ''email'' ''/input/0''])
   = ([sample_replacement ''<A>'' ''email'' ''input[0].content''], [sample_replacement ''<B>'' ''email'' ''input[2].content''])"
    by (simp add: splitCarriedReplacements_def locate_def sample_finding_def sample_replacement_def pointer or_empty_def
        at_finding_def samePlace_def starts_with_def js_def Let_def)
  from carried_split [OF this] this show ?thesis by simp
qed

end
