(* ===== verification/Conversation_Bodies.thy ===== *)
theory Conversation_Bodies
  imports Request_Data Json_Text Response_Preview Pattern_Search "HOL-Library.Multiset"
begin

text \<open>
  What one call's bodies say of a conversation, first half of \<open>request-conversation-model.ts\<close>: the
  words the operator typed, freed of what the client wrapped around them, the tool results the
  client brought back, and the pairing of asked tools with results. \<open>JSON.parse\<close> is an argument
  (None where it throws) and so is the text of numbers.
\<close>

datatype audit_exposure = ExposureShareable | ExposureRaw

record audit_content_part =
  ac_media_type :: jstr
  ac_content :: jstr
  ac_truncated :: bool
  ac_captured_bytes :: int
  ac_exposure :: "audit_exposure option"

datatype withheld_reason =
    WithheldPrivacyRedacted | WithheldPrivacyBlocked | WithheldPrivacyRestored | WithheldPrivacyFailOpen
  | WithheldPrivacyTrusted | WithheldPrivacyPending | WithheldPrivacyUnknown | WithheldRawLocked | WithheldRawNotKept

record audit_withheld_part =
  aw_reason :: withheld_reason
  aw_raw_available :: bool
  aw_media_type :: jstr
  aw_truncated :: bool
  aw_captured_bytes :: int

record audit_withheld =
  wh_request_body :: "audit_withheld_part option"
  wh_response_content :: "audit_withheld_part option"
  wh_upstream_request_body :: "audit_withheld_part option"
  wh_upstream_response_content :: "audit_withheld_part option"

text \<open>The HTTP head data and the findings of the type are not read here and left out.\<close>

record audit_content =
  ct_request_id :: jstr
  ct_request_body :: "audit_content_part option"
  ct_response_content :: "audit_content_part option"
  ct_upstream_request_body :: "audit_content_part option"
  ct_upstream_response_content :: "audit_content_part option"
  ct_withheld :: audit_withheld

datatype wrapper_kind = WrapPasted | WrapSystem | WrapCommand

record client_wrapper =
  cw_kind :: wrapper_kind
  cw_chars :: nat
  cw_name :: "jstr option"

datatype text_source = FromBody | FromPreview | FromNothing

record user_text =
  ut_text :: jstr
  ut_wrappers :: "client_wrapper list"
  ut_source :: text_source

record tool_result =
  to_id :: "jstr option"
  to_name :: "jstr option"
  to_text :: jstr
  to_error :: bool

record conversation_tool_call =
  tl_id :: "jstr option"
  tl_name :: jstr
  tl_args :: jstr
  tl_result :: "jstr option"
  tl_error :: bool

record parsed_call =
  pd_request_id :: jstr
  pd_user :: "user_text option"
  pd_tool_results :: "tool_result list"
  pd_outputs :: "response_output list"
  pd_locked :: bool
  pd_captured :: bool
  pd_response_captured :: bool

definition TOOL_TEXT_LIMIT :: nat where "TOOL_TEXT_LIMIT = 16 * 1024"

section \<open>Client wrappers\<close>

text \<open>The text up to the first occurrence and the text after it: what \<open>([\s\S]*?)\<close> before a literal takes.\<close>

fun cut_at :: "jstr \<Rightarrow> jstr \<Rightarrow> (jstr \<times> jstr) option" where
  "cut_at w [] = (if w = [] then Some ([], []) else None)"
| "cut_at w (c # s) =
     (if starts_with w (c # s) then Some ([], drop (length w) (c # s))
      else map_option (\<lambda>(a, b). (c # a, b)) (cut_at w s))"

lemma cut_at_shorter: "cut_at w s = Some (a, b) \<Longrightarrow> length b \<le> length s"
  by (induction w s arbitrary: a rule: cut_at.induct) (auto split: if_splits)

definition after_open :: "jstr \<Rightarrow> jstr \<Rightarrow> jstr option" where
  "after_open w s = (if starts_with w s then Some (drop (length w) s) else None)"

text \<open>A tag with its inner text, and what follows it.\<close>

definition plain_tag :: "string \<Rightarrow> jstr \<Rightarrow> (jstr \<times> jstr) option" where
  "plain_tag name s =
     Option.bind (after_open (js (''<'' @ name @ ''>'')) s) (cut_at (js (''</'' @ name @ ''>'')))"

definition pasted_tag :: "jstr \<Rightarrow> (jstr \<times> jstr) option" where
  "pasted_tag s =
     Option.bind (after_open (js ''<pasted_content'') s) (\<lambda>rest.
       if (case rest of [] \<Rightarrow> False | c # _ \<Rightarrow> is_word c) then None
       else Option.bind (cut_at (js ''>'') rest) (\<lambda>(_, inside). cut_at (js ''</pasted_content>'') inside))"

definition command_part :: "jstr \<Rightarrow> (jstr \<times> jstr) option" where
  "command_part s =
     (case plain_tag ''command-message'' s of
        Some r \<Rightarrow> Some r
      | None \<Rightarrow> plain_tag ''command-args'' s)"

text \<open>\<open>rest.replace(pattern, "")\<close> with the inner texts of what was removed; a tag is never empty.\<close>

function drop_tags :: "(jstr \<Rightarrow> (jstr \<times> jstr) option) \<Rightarrow> jstr \<Rightarrow> jstr \<times> jstr list" where
  "drop_tags tag [] = ([], [])"
| "drop_tags tag (c # s) =
     (case tag (c # s) of
        Some (inner, rest) \<Rightarrow>
          if length rest \<le> length s
          then (let (kept, inners) = drop_tags tag rest in (kept, inner # inners))
          else ([], [])
      | None \<Rightarrow> (let (kept, inners) = drop_tags tag s in (c # kept, inners)))"
  by pat_completeness auto
termination by (relation "measure (\<lambda>(tag, s). length s)") auto

text \<open>\<open>/\n{3,}/g\<close> made two line feeds.\<close>

function squeeze_lines :: "jstr \<Rightarrow> jstr" where
  "squeeze_lines [] = []"
| "squeeze_lines (c # s) =
     (let run = takeWhile ((=) 10) (c # s); rest = dropWhile ((=) 10) (c # s) in
      if c = 10 then (if 3 \<le> length run then [10, 10] else run) @ squeeze_lines rest else c # squeeze_lines s)"
  by pat_completeness auto
termination by (relation "measure length") (auto simp: le_imp_less_Suc length_dropWhile_le)

definition stripClientWrappers :: "jstr \<Rightarrow> user_text" where
  "stripClientWrappers s =
     (let (s1, system) = drop_tags (plain_tag ''system-reminder'') s;
          (s2, pasted) = drop_tags pasted_tag s1;
          (s3, commands) = drop_tags (plain_tag ''command-name'') s2;
          (s4, _) = drop_tags command_part s3 in
      \<lparr>ut_text = trim (squeeze_lines s4),
       ut_wrappers = map (\<lambda>inner. \<lparr>cw_kind = WrapSystem, cw_chars = length inner, cw_name = None\<rparr>) system
         @ map (\<lambda>inner. \<lparr>cw_kind = WrapPasted, cw_chars = length inner, cw_name = None\<rparr>) pasted
         @ map (\<lambda>inner. \<lparr>cw_kind = WrapCommand, cw_chars = length inner, cw_name = Some (trim inner)\<rparr>) commands,
       ut_source = FromBody\<rparr>)"

section \<open>Bodies\<close>

definition parseBody :: "(jstr \<Rightarrow> json option) \<Rightarrow> jstr \<Rightarrow> jobj option" where
  "parseBody parse body =
     (case parse body of
        None \<Rightarrow> None
      | Some v \<Rightarrow> if object_of v \<noteq> [] then Some (object_of v) else None)"

datatype body_shape = ResponsesShape | MessagesShape | ContentsShape

definition bodyShape :: "jstr \<Rightarrow> body_shape option" where
  "bodyShape protocol =
     (if starts_with (js ''openai.responses'') protocol then Some ResponsesShape
      else if protocol = js ''openai.chat'' \<or> protocol = js ''anthropic.messages'' then Some MessagesShape
      else if protocol = js ''google.generate_content'' then Some ContentsShape
      else None)"

definition bodyItems :: "jobj \<Rightarrow> body_shape \<Rightarrow> json" where
  "bodyItems root' shape =
     (case shape of
        ResponsesShape \<Rightarrow> get root' ''input''
      | MessagesShape \<Rightarrow> get root' ''messages''
      | ContentsShape \<Rightarrow> get root' ''contents'')"

definition role_of :: "jobj \<Rightarrow> jstr" where "role_of item = string_of (get item ''role'')"

definition type_of :: "jobj \<Rightarrow> jstr" where "type_of item = string_of (get item ''type'')"

definition isUserItem :: "jobj \<Rightarrow> body_shape \<Rightarrow> bool" where
  "isUserItem item shape \<longleftrightarrow>
     (if shape = ResponsesShape
      then role_of item = js ''user'' \<and> (type_of item = [] \<or> type_of item = js ''message'')
      else role_of item = js ''user'' \<or> shape = ContentsShape \<and> role_of item = [])"

definition block_text :: "json \<Rightarrow> jstr" where
  "block_text v =
     (let block = object_of v in
      if type_of block \<in> {js ''text'', js ''input_text'', js ''output_text''} then string_of (get block ''text'')
      else if type_of block = [] \<and> jstring (get block ''text'') \<noteq> None then string_of (get block ''text'')
      else [])"

definition textOfBlocks :: "json list \<Rightarrow> jstr" where
  "textOfBlocks blocks = join_with [10, 10] (filter (\<lambda>t. t \<noteq> []) (map block_text blocks))"

definition userItemText :: "jobj \<Rightarrow> body_shape \<Rightarrow> jstr" where
  "userItemText item shape =
     (let body = (if shape = ContentsShape then get item ''parts'' else get item ''content'') in
      case jstring body of Some s \<Rightarrow> s | None \<Rightarrow> textOfBlocks (array_of body))"

definition NOTES_FOLLOW_PROMPT :: "client_type set" where "NOTES_FOLLOW_PROMPT = {ClientDeepseekHarness}"

definition isAssistantItem :: "jobj \<Rightarrow> body_shape \<Rightarrow> bool" where
  "isAssistantItem item shape \<longleftrightarrow>
     (if shape = ResponsesShape
      then role_of item = js ''assistant'' \<and> (type_of item = [] \<or> type_of item = js ''message'')
      else role_of item = (if shape = ContentsShape then js ''model'' else js ''assistant''))"

definition isToolResultItem :: "jobj \<Rightarrow> body_shape \<Rightarrow> bool" where
  "isToolResultItem item shape \<longleftrightarrow>
     (case shape of
        ResponsesShape \<Rightarrow> ends_with (js ''_call_output'') (type_of item)
      | ContentsShape \<Rightarrow>
          role_of item \<noteq> js ''model''
          \<and> list_ex (\<lambda>part. get (object_of part) ''functionResponse'' \<noteq> JUndef) (array_of (get item ''parts''))
      | MessagesShape \<Rightarrow>
          role_of item = js ''tool''
          \<or> role_of item = js ''user''
            \<and> list_ex (\<lambda>block. type_of (object_of block) = js ''tool_result'') (array_of (get item ''content'')))"

definition typedUserText :: "jobj \<Rightarrow> body_shape \<Rightarrow> user_text option" where
  "typedUserText item shape =
     (if \<not> isUserItem item shape then None
      else
        let raw = userItemText item shape in
        if trim raw = [] then None
        else
          let stripped = stripClientWrappers raw in
          if ut_text stripped = [] \<and> list_all (\<lambda>w. cw_kind w = WrapSystem) (ut_wrappers stripped) then None
          else Some stripped)"

definition notes_follow :: "client_type option \<Rightarrow> bool" where
  "notes_follow client = (case client of None \<Rightarrow> False | Some c \<Rightarrow> c \<in> NOTES_FOLLOW_PROMPT)"

text \<open>The message that opened the last turn, and whether the next typed one would open a turn.\<close>

definition note_step :: "body_shape \<Rightarrow> user_text option \<times> bool \<Rightarrow> json \<Rightarrow> user_text option \<times> bool" where
  "note_step shape st v =
     (let item = object_of v in
      if isToolResultItem item shape then (fst st, False)
      else if isAssistantItem item shape then (fst st, True)
      else case typedUserText item shape of
        None \<Rightarrow> st
      | Some t \<Rightarrow> (if snd st then Some t else fst st, False))"

fun last_typed :: "body_shape \<Rightarrow> json list \<Rightarrow> user_text option" where
  "last_typed shape [] = None"
| "last_typed shape (v # rest) =
     (case typedUserText (object_of v) shape of Some t \<Rightarrow> Some t | None \<Rightarrow> last_typed shape rest)"

definition extractLastUserText :: "(jstr \<Rightarrow> json option) \<Rightarrow> jstr \<Rightarrow> jstr \<Rightarrow> client_type option \<Rightarrow> user_text option" where
  "extractLastUserText parse protocol body client =
     (case bodyShape protocol of
        None \<Rightarrow> None
      | Some shape \<Rightarrow>
          (case parseBody parse body of
             None \<Rightarrow> None
           | Some root' \<Rightarrow>
               (case bodyItems root' shape of
                  JStr s \<Rightarrow> Some (stripClientWrappers s)
                | JArr items \<Rightarrow>
                    if notes_follow client then fst (foldl (note_step shape) (None, True) items)
                    else last_typed shape (rev items)
                | _ \<Rightarrow> None)))"

section \<open>Tool results\<close>

definition resultText :: "number_text \<Rightarrow> json \<Rightarrow> jstr" where
  "resultText fraction v =
     (case v of
        JStr s \<Rightarrow> s
      | JArr vs \<Rightarrow> if textOfBlocks vs \<noteq> [] then textOfBlocks vs else pretty_at fraction 0 v
      | _ \<Rightarrow> if is_nullish v then [] else pretty_at fraction 0 v)"

definition response_result :: "number_text \<Rightarrow> jobj \<Rightarrow> tool_result" where
  "response_result fraction item =
     \<lparr>to_id = nonempty_text (string_of (get item ''call_id'')), to_name = None,
      to_text = resultText fraction (get item ''output''), to_error = False\<rparr>"

definition function_result :: "number_text \<Rightarrow> jobj \<Rightarrow> tool_result" where
  "function_result fraction part =
     (let response = object_of (get part ''functionResponse'') in
      \<lparr>to_id = None, to_name = nonempty_text (string_of (get response ''name'')),
       to_text = resultText fraction (get response ''response''), to_error = False\<rparr>)"

definition tool_message_result :: "number_text \<Rightarrow> jobj \<Rightarrow> tool_result" where
  "tool_message_result fraction item =
     \<lparr>to_id = nonempty_text (string_of (get item ''tool_call_id'')), to_name = nonempty_text (string_of (get item ''name'')),
      to_text = resultText fraction (get item ''content''), to_error = False\<rparr>"

definition block_result :: "number_text \<Rightarrow> jobj \<Rightarrow> tool_result" where
  "block_result fraction block =
     \<lparr>to_id = nonempty_text (string_of (get block ''tool_use_id'')), to_name = None,
      to_text = resultText fraction (get block ''content''), to_error = (get block ''is_error'' = JBool True)\<rparr>"

definition trailing :: "('a \<Rightarrow> bool) \<Rightarrow> 'a list \<Rightarrow> 'a list" where
  "trailing P xs = rev (takeWhile P (rev xs))"

definition tool_results_in :: "number_text \<Rightarrow> body_shape \<Rightarrow> jobj list \<Rightarrow> tool_result list" where
  "tool_results_in fraction shape items =
     (if items = [] then []
      else case shape of
        ResponsesShape \<Rightarrow>
          map (response_result fraction)
            (trailing (\<lambda>item. type_of item \<in> {js ''function_call_output'', js ''custom_tool_call_output''}) items)
      | ContentsShape \<Rightarrow>
          map (function_result fraction)
            (filter (\<lambda>part. get part ''functionResponse'' \<noteq> JUndef)
              (map object_of (array_of (get (last items) ''parts''))))
      | MessagesShape \<Rightarrow>
          if role_of (last items) = js ''tool''
          then map (tool_message_result fraction) (trailing (\<lambda>item. role_of item = js ''tool'') items)
          else if role_of (last items) \<noteq> js ''user'' then []
          else map (block_result fraction)
            (filter (\<lambda>block. type_of block = js ''tool_result'')
              (map object_of (array_of (get (last items) ''content'')))))"

definition without_notes :: "body_shape \<Rightarrow> jobj list \<Rightarrow> jobj list" where
  "without_notes shape items =
     rev (dropWhile (\<lambda>item. isUserItem item shape \<and> \<not> isToolResultItem item shape) (rev items))"

definition extractToolResults ::
  "number_text \<Rightarrow> (jstr \<Rightarrow> json option) \<Rightarrow> jstr \<Rightarrow> jstr \<Rightarrow> client_type option \<Rightarrow> tool_result list" where
  "extractToolResults fraction parse protocol body client =
     (case bodyShape protocol of
        None \<Rightarrow> []
      | Some shape \<Rightarrow>
          (case parseBody parse body of
             None \<Rightarrow> []
           | Some root' \<Rightarrow>
               let items = map object_of (array_of (bodyItems root' shape)) in
               tool_results_in fraction shape (if notes_follow client then without_notes shape items else items)))"

definition clip :: "jstr \<Rightarrow> jstr" where "clip s = take TOOL_TEXT_LIMIT s"

definition withheldLocked :: "audit_content \<Rightarrow> bool" where
  "withheldLocked c \<longleftrightarrow>
     list_ex (\<lambda>part. map_option aw_reason part = Some WithheldRawLocked)
       [wh_request_body (ct_withheld c), wh_response_content (ct_withheld c)]"

definition conversationResponsePart :: "audit_content \<Rightarrow> audit_content_part option" where
  "conversationResponsePart c =
     (case ct_response_content c of Some part \<Rightarrow> Some part | None \<Rightarrow> ct_upstream_response_content c)"

definition parseCallContent ::
  "number_text \<Rightarrow> (jstr \<Rightarrow> json option) \<Rightarrow> request_record \<Rightarrow> audit_content \<Rightarrow> response_output list \<Rightarrow> parsed_call" where
  "parseCallContent fraction parse record' c outputs =
     \<lparr>pd_request_id = rq_id record',
      pd_user = Option.bind (ct_request_body c)
        (\<lambda>part. extractLastUserText parse (rq_input_protocol record') (ac_content part) (rq_client_type record')),
      pd_tool_results = (case ct_request_body c of
          None \<Rightarrow> []
        | Some part \<Rightarrow> map (\<lambda>r. r\<lparr>to_text := clip (to_text r)\<rparr>)
            (extractToolResults fraction parse (rq_input_protocol record') (ac_content part) (rq_client_type record'))),
      pd_outputs = map (\<lambda>out. if ro_kind out \<in> {OutTool, OutOther} then out\<lparr>ro_text := clip (ro_text out)\<rparr> else out) outputs,
      pd_locked = withheldLocked c,
      pd_captured = (ct_request_body c \<noteq> None \<or> conversationResponsePart c \<noteq> None),
      pd_response_captured = (conversationResponsePart c \<noteq> None)\<rparr>"

section \<open>Pairing tools with results\<close>

text \<open>\<open>take\<close>: the first result that fits, and the others.\<close>

fun take_result :: "(tool_result \<Rightarrow> bool) \<Rightarrow> tool_result list \<Rightarrow> tool_result option \<times> tool_result list" where
  "take_result P [] = (None, [])"
| "take_result P (r # rs) = (if P r then (Some r, rs) else (let (t, rest) = take_result P rs in (t, r # rest)))"

definition has_id :: "response_output \<Rightarrow> bool" where
  "has_id tool \<longleftrightarrow> ro_id tool \<noteq> None \<and> ro_id tool \<noteq> Some []"

fun pair_by_id ::
  "response_output list \<Rightarrow> tool_result list \<Rightarrow> (response_output \<times> tool_result option) list \<times> tool_result list" where
  "pair_by_id [] unmatched = ([], unmatched)"
| "pair_by_id (tool # tools) unmatched =
     (let (result, rest) = (if has_id tool then take_result (\<lambda>r. to_id r = ro_id tool) unmatched else (None, unmatched));
          (pairs, left) = pair_by_id tools rest in
      ((tool, result) # pairs, left))"

definition take_by_name :: "response_output \<Rightarrow> tool_result list \<Rightarrow> tool_result option \<times> tool_result list" where
  "take_by_name tool unmatched =
     (case take_result (\<lambda>r. ro_name tool \<noteq> None \<and> to_name r = ro_name tool) unmatched of
        (Some r, rest) \<Rightarrow> (Some r, rest)
      | (None, _) \<Rightarrow> take_result (\<lambda>r. to_id r = None \<and> to_name r = None) unmatched)"

fun pair_rest ::
  "(response_output \<times> tool_result option) list \<Rightarrow> tool_result list \<Rightarrow> (response_output \<times> tool_result option) list" where
  "pair_rest [] unmatched = []"
| "pair_rest ((tool, by_id) # pairs) unmatched =
     (let (result, rest) =
        (if by_id \<noteq> None then (by_id, unmatched)
         else if has_id tool then (None, unmatched)
         else take_by_name tool unmatched) in
      (tool, result) # pair_rest pairs rest)"

definition tool_pairs :: "response_output list \<Rightarrow> tool_result list \<Rightarrow> (response_output \<times> tool_result option) list" where
  "tool_pairs outputs results =
     (let (pairs, rest) = pair_by_id (filter (\<lambda>out. ro_kind out = OutTool) outputs) results in pair_rest pairs rest)"

definition paired_call :: "response_output \<times> tool_result option \<Rightarrow> conversation_tool_call" where
  "paired_call = (\<lambda>(tool, result).
     \<lparr>tl_id = ro_id tool, tl_name = (case ro_name tool of None \<Rightarrow> [] | Some n \<Rightarrow> n), tl_args = ro_text tool,
      tl_result = map_option to_text result, tl_error = (case result of None \<Rightarrow> False | Some r \<Rightarrow> to_error r)\<rparr>)"

definition pairToolCalls :: "response_output list \<Rightarrow> tool_result list \<Rightarrow> conversation_tool_call list" where
  "pairToolCalls outputs results = map paired_call (tool_pairs outputs results)"

lemma take_result_found: "take_result P rs = (Some r, rest) \<Longrightarrow> P r \<and> mset rs = add_mset r (mset rest)"
  by (induction rs arbitrary: rest) (auto split: if_splits prod.splits)

lemma take_result_none: "take_result P rs = (None, rest) \<Longrightarrow> rest = rs \<and> list_all (\<lambda>r. \<not> P r) rs"
  by (induction rs arbitrary: rest) (auto split: if_splits prod.splits)

lemma take_result_cases:
  obtains r rest where "take_result P rs = (Some r, rest)" "P r" "mset rs = add_mset r (mset rest)"
    | "take_result P rs = (None, rs)" "list_all (\<lambda>r. \<not> P r) rs"
  using take_result_found take_result_none by (cases "take_result P rs"; cases "fst (take_result P rs)") fastforce+

definition fits :: "response_output \<times> tool_result option \<Rightarrow> bool" where
  "fits = (\<lambda>(tool, result). case result of
       None \<Rightarrow> True
     | Some r \<Rightarrow>
         if has_id tool then to_id r = ro_id tool
         else ro_name tool \<noteq> None \<and> to_name r = ro_name tool \<or> to_id r = None \<and> to_name r = None)"

definition used :: "(response_output \<times> tool_result option) list \<Rightarrow> tool_result multiset" where
  "used pairs = mset (List.map_filter snd pairs)"

lemma used_simps [simp]:
  "used [] = {#}" "used ((tool, None) # pairs) = used pairs" "used ((tool, Some r) # pairs) = add_mset r (used pairs)"
  by (simp_all add: used_def map_filter_simps)

definition own_id :: "response_output \<times> tool_result option \<Rightarrow> bool" where
  "own_id = (\<lambda>(tool, r). case r of None \<Rightarrow> True | Some r' \<Rightarrow> has_id tool \<and> to_id r' = ro_id tool)"

lemma own_id_simps [simp]:
  "own_id (tool, None)" "own_id (tool, Some r) \<longleftrightarrow> has_id tool \<and> to_id r = ro_id tool"
  by (simp_all add: own_id_def)

lemma pair_by_id_sound:
  "pair_by_id tools rs = (pairs, rest) \<Longrightarrow>
     map fst pairs = tools \<and> used pairs + mset rest = mset rs
     \<and> list_all own_id pairs"
proof (induction tools arbitrary: rs pairs)
  case (Cons tool tools)
  show ?case
  proof (cases "has_id tool")
    case True
    show ?thesis
    proof (cases rule: take_result_cases [of "\<lambda>r. to_id r = ro_id tool" rs])
      case (1 r rest')
      then show ?thesis using Cons.prems Cons.IH [of rest'] True by (auto split: prod.splits)
    next
      case 2
      then show ?thesis using Cons.prems Cons.IH [of rs] True by (auto split: prod.splits)
    qed
  next
    case False
    then show ?thesis using Cons.prems Cons.IH [of rs] by (auto split: prod.splits)
  qed
qed simp

lemma take_by_name_sound:
  "take_by_name tool rs = (Some r, rest) \<Longrightarrow>
     (ro_name tool \<noteq> None \<and> to_name r = ro_name tool \<or> to_id r = None \<and> to_name r = None) \<and> mset rs = add_mset r (mset rest)"
  "take_by_name tool rs = (None, rest) \<Longrightarrow> rest = rs"
  by (auto simp: take_by_name_def split: prod.splits option.splits dest: take_result_found take_result_none)

lemma pair_rest_sound:
  "list_all own_id pairs \<Longrightarrow>
     map fst (pair_rest pairs rs) = map fst pairs \<and> used (pair_rest pairs rs) \<subseteq># used pairs + mset rs
     \<and> list_all fits (pair_rest pairs rs)"
proof (induction pairs arbitrary: rs)
  case (Cons p pairs)
  obtain tool by_id where p: "p = (tool, by_id)" by (cases p)
  show ?case
  proof (cases by_id)
    case (Some r)
    then show ?thesis using Cons.prems Cons.IH [of rs] by (simp add: p fits_def)
  next
    case None
    show ?thesis
    proof (cases "has_id tool")
      case True
      then show ?thesis using Cons.prems Cons.IH [of rs] None by (simp add: p fits_def)
    next
      case False
      obtain result rest where t: "take_by_name tool rs = (result, rest)" by (cases "take_by_name tool rs")
      show ?thesis
      proof (cases result)
        case None
        then show ?thesis using t \<open>by_id = None\<close> False Cons.prems Cons.IH [of rest] take_by_name_sound(2) [of tool rs rest]
          by (simp add: p fits_def)
      next
        case (Some r)
        then show ?thesis using t \<open>by_id = None\<close> False Cons.prems Cons.IH [of rest] take_by_name_sound(1) [of tool rs r rest]
          by (simp add: p fits_def)
      qed
    qed
  qed
qed simp

text \<open>
  C11: every tool the model asked for is shown once, in order; a result the client brought back is shown
  under at most one tool; and a tool with an ID only ever gets the result with that ID, one without
  only a result of its name or one that has neither name nor ID.
\<close>

theorem tools_paired:
  "map fst (tool_pairs outputs results) = filter (\<lambda>out. ro_kind out = OutTool) outputs
    \<and> mset (List.map_filter snd (tool_pairs outputs results)) \<subseteq># mset results
    \<and> list_all (\<lambda>(tool, result). case result of
          None \<Rightarrow> True
        | Some r \<Rightarrow>
            if has_id tool then to_id r = ro_id tool
            else ro_name tool \<noteq> None \<and> to_name r = ro_name tool \<or> to_id r = None \<and> to_name r = None)
        (tool_pairs outputs results)
    \<and> pairToolCalls outputs results = map paired_call (tool_pairs outputs results)"
proof -
  let ?tools = "filter (\<lambda>out. ro_kind out = OutTool) outputs"
  obtain pairs rest where p: "pair_by_id ?tools results = (pairs, rest)" by (cases "pair_by_id ?tools results")
  note first = pair_by_id_sound [OF p]
  have "map fst (pair_rest pairs rest) = map fst pairs \<and> used (pair_rest pairs rest) \<subseteq># used pairs + mset rest
      \<and> list_all fits (pair_rest pairs rest)"
    by (rule pair_rest_sound) (use first in blast)
  then show ?thesis using first by (simp add: tool_pairs_def p pairToolCalls_def used_def fits_def)
qed

section \<open>The message that opened the turn\<close>

datatype item_class = ToolItem | AssistantItem | TypedItem user_text

definition classify :: "body_shape \<Rightarrow> json \<Rightarrow> item_class option" where
  "classify shape v =
     (let item = object_of v in
      if isToolResultItem item shape then Some ToolItem
      else if isAssistantItem item shape then Some AssistantItem
      else map_option TypedItem (typedUserText item shape))"

fun typed_text :: "item_class \<Rightarrow> user_text option" where
  "typed_text (TypedItem t) = Some t"
| "typed_text c = None"

text \<open>A typed message opens a turn when nothing came before it or an assistant message did.\<close>

definition opens_at :: "item_class list \<Rightarrow> nat \<Rightarrow> bool" where
  "opens_at cs i \<longleftrightarrow> typed_text (cs ! i) \<noteq> None \<and> (i = 0 \<or> cs ! (i - 1) = AssistantItem)"

definition last_opener :: "item_class list \<Rightarrow> user_text option" where
  "last_opener cs =
     (let places = filter (opens_at cs) [0..<length cs] in
      if places = [] then None else typed_text (cs ! last places))"

lemma last_opener_snoc:
  "last_opener (cs @ [c]) =
     (if typed_text c \<noteq> None \<and> (cs = [] \<or> last cs = AssistantItem) then typed_text c else last_opener cs)"
proof -
  have before: "filter (opens_at (cs @ [c])) [0..<length cs] = filter (opens_at cs) [0..<length cs]"
    by (rule filter_cong) (auto simp: opens_at_def nth_append)
  have at_end: "opens_at (cs @ [c]) (length cs) \<longleftrightarrow> typed_text c \<noteq> None \<and> (cs = [] \<or> last cs = AssistantItem)"
    by (cases cs rule: rev_cases) (auto simp: opens_at_def nth_append)
  define places where "places = filter (opens_at cs) [0..<length cs]"
  have "places \<noteq> [] \<Longrightarrow> last places < length cs"
    using last_in_set [of places] by (auto simp: places_def simp del: last_in_set)
  then show ?thesis
    by (auto simp: last_opener_def before at_end places_def [symmetric] nth_append)
qed

lemma map_filter_snoc:
  "List.map_filter f (xs @ [x]) = List.map_filter f xs @ (case f x of None \<Rightarrow> [] | Some y \<Rightarrow> [y])"
  by (induction xs) (simp_all add: map_filter_simps split: option.splits)

lemma note_steps:
  "foldl (note_step shape) (None, True) items =
     (let cs = List.map_filter (classify shape) items in
      (last_opener cs, cs = [] \<or> last cs = AssistantItem))"
proof (induction items rule: rev_induct)
  case Nil
  then show ?case by (simp add: map_filter_simps last_opener_def)
next
  case (snoc v items)
  have c: "classify shape v =
      (if isToolResultItem (object_of v) shape then Some ToolItem
       else if isAssistantItem (object_of v) shape then Some AssistantItem
       else map_option TypedItem (typedUserText (object_of v) shape))"
    by (simp add: classify_def Let_def)
  have n: "note_step shape st v =
      (if isToolResultItem (object_of v) shape then (fst st, False)
       else if isAssistantItem (object_of v) shape then (fst st, True)
       else case typedUserText (object_of v) shape of None \<Rightarrow> st | Some t \<Rightarrow> (if snd st then Some t else fst st, False))" for st
    by (simp add: note_step_def Let_def)
  show ?case
    by (simp add: snoc map_filter_snoc n c Let_def last_opener_snoc split: option.splits)
qed

text \<open>A text without tags is kept, trimmed.\<close>

lemma no_tag: "60 \<notin> set s \<Longrightarrow> plain_tag name s = None" "60 \<notin> set s \<Longrightarrow> pasted_tag s = None"
  by (cases s; auto simp: plain_tag_def pasted_tag_def after_open_def starts_with_def js_def)+

lemma drop_no_tag:
  assumes "\<And>u. 60 \<notin> set u \<Longrightarrow> tag u = None"
  shows "60 \<notin> set s \<Longrightarrow> drop_tags tag s = (s, [])"
  by (induction s) (auto simp: assms)

lemma squeeze_one_line: "10 \<notin> set s \<Longrightarrow> squeeze_lines s = s"
  by (induction s) auto

lemma strip_plain:
  assumes "60 \<notin> set s" and "10 \<notin> set s"
  shows "stripClientWrappers s = \<lparr>ut_text = trim s, ut_wrappers = [], ut_source = FromBody\<rparr>"
  using assms by (simp add: stripClientWrappers_def drop_no_tag no_tag command_part_def squeeze_one_line)

text \<open>
  C12: for a client that sends notes after the prompt, the words shown are those of the last typed message
  that opened a turn, one that is first or follows an assistant message; for any other client they are
  those of the last typed message. A body of plain text is shown freed of its wrappers.
\<close>

theorem prompt_shown:
  assumes "bodyShape protocol = Some shape" and "parseBody parse body = Some root'"
  shows "extractLastUserText parse protocol body client =
    (case bodyItems root' shape of
       JStr s \<Rightarrow> Some (stripClientWrappers s)
     | JArr items \<Rightarrow>
         if notes_follow client then last_opener (List.map_filter (classify shape) items)
         else (let typed = List.map_filter (\<lambda>v. typedUserText (object_of v) shape) items in
               if typed = [] then None else Some (last typed))
     | _ \<Rightarrow> None)"
proof -
  have "last_typed shape (rev items) =
      (let typed = List.map_filter (\<lambda>v. typedUserText (object_of v) shape) items in
       if typed = [] then None else Some (last typed))" for items
    by (induction items rule: rev_induct)
      (simp_all add: map_filter_simps map_filter_snoc Let_def split: option.splits)
  then show ?thesis using assms by (simp add: extractLastUserText_def note_steps Let_def split: json.splits)
qed

definition sample_parse :: "jstr \<Rightarrow> json option" where
  "sample_parse s = Some (JObj [(js ''messages'', JArr
     [JObj [(js ''role'', js_str ''user''), (js ''content'', js_str ''hello'')],
      JObj [(js ''role'', js_str ''user''), (js ''content'', js_str ''it is noon'')]])])"

theorem prompt_shown_witness:
  "map_option ut_text (extractLastUserText sample_parse (js ''openai.chat'') [] (Some ClientDeepseekHarness)) = Some (js ''hello'')"
proof -
  let ?items = "[JObj [(js ''role'', js_str ''user''), (js ''content'', js_str ''hello'')],
       JObj [(js ''role'', js_str ''user''), (js ''content'', js_str ''it is noon'')]]"
  have root': "parseBody sample_parse [] = Some [(js ''messages'', JArr ?items)]"
    by (simp add: parseBody_def sample_parse_def object_of_def)
  have shape: "bodyShape (js ''openai.chat'') = Some MessagesShape" by (simp add: bodyShape_def starts_with_def js_def)
  have typed: "classify MessagesShape (JObj [(js ''role'', js_str ''user''), (js ''content'', JStr w)])
      = Some (TypedItem \<lparr>ut_text = trim w, ut_wrappers = [], ut_source = FromBody\<rparr>)"
    if "60 \<notin> set w" "10 \<notin> set w" "trim w \<noteq> []" for w
    using that
    by (simp add: classify_def object_of_def isToolResultItem_def isAssistantItem_def role_of_def string_of_def js_str_def
        array_of_def typedUserText_def isUserItem_def userItemText_def strip_plain Let_def)
  have "map_option ut_text (last_opener (List.map_filter (classify MessagesShape) ?items)) = Some (js ''hello'')"
    using typed [of "js ''hello''"] typed [of "js ''it is noon''"]
    by (simp add: map_filter_simps last_opener_def opens_at_def js_def js_str_def js_space_def trim_def upt_rec)
  then show ?thesis
    using prompt_shown [OF shape root', of "Some ClientDeepseekHarness"]
    by (simp add: bodyItems_def notes_follow_def NOTES_FOLLOW_PROMPT_def)
qed

end
