(* ===== verification/Conversation_Turns.thy ===== *)
theory Conversation_Turns
  imports Conversation_Bodies Trajectory_Rows Usage_Range
begin

text \<open>
  The turns of a conversation, second half of \<open>request-conversation-model.ts\<close>: each call with its tools,
  narration and reply, routine calls folded into runs, the turn's statistics. \<open>Date.parse\<close> is an argument
  (None for NaN); a time computed from it is None where the source has NaN, and a member that may also
  be null is an option of such a time. Numbers are exact rationals.
\<close>

record token_usage =
  tu_input :: int
  tu_output :: int

record conversation_call =
  cl_record :: request_record
  cl_children :: "request_record list"
  cl_index :: nat
  cl_tone :: trajectory_tone
  cl_anomaly :: bool
  cl_reply :: bool
  cl_reason :: "jstr option"
  cl_narration :: "jstr list"
  cl_reasoning :: "jstr list"
  cl_reasoning_ms :: "rat option"
  cl_tool_calls :: "conversation_tool_call list"
  cl_tool_count :: "nat option"
  cl_gap_ms :: "rat option option"
  cl_duration_ms :: "rat option option"
  cl_tokens :: "token_usage option"
  cl_parsed :: "parsed_call option"

record call_run =
  ru_calls :: "conversation_call list"
  ru_tool_counts :: "(jstr \<times> nat) list"
  ru_tool_total :: "nat option"
  ru_duration_ms :: "rat option"
  ru_tokens :: "token_usage option"

datatype conversation_segment = CallSegment conversation_call | RunSegment call_run

record turn_stats =
  st_calls :: nat
  st_tool_calls :: "nat option"
  st_tool_calls_partial :: bool
  st_tools :: "(jstr \<times> nat) list"
  st_failed :: nat
  st_cancelled :: nat
  st_disconnected :: nat
  st_duration_ms :: "rat option"
  st_tokens :: "token_usage option"
  st_ttft_ms :: "rat option"
  st_output_tokens_per_second :: "rat option"
  st_pending :: bool

record turn_reply =
  ry_text :: "jstr option"
  ry_record :: request_record
  ry_at :: "jstr option"

record conversation_turn =
  cv_id :: jstr
  cv_turn_index :: "int option"
  cv_calls :: "conversation_call list"
  cv_segments :: "conversation_segment list"
  cv_user :: user_text
  cv_started_at :: jstr
  cv_reply :: turn_reply
  cv_stats :: turn_stats
  cv_locked :: bool

section \<open>One call\<close>

fun callTone_of :: "request_status \<Rightarrow> trajectory_tone" where
  "callTone_of Succeeded = ToneOk"
| "callTone_of StatusFailed = ToneFailed"
| "callTone_of Blocked = ToneBlocked"
| "callTone_of Cancelled = ToneCancelled"
| "callTone_of Pending = TonePending"

definition callTone :: "request_record \<Rightarrow> trajectory_tone" where
  "callTone record' = callTone_of (displayRequestStatus (rq_status record') (rq_http_status record'))"

definition REASON_LIMIT :: nat where "REASON_LIMIT = 160"

text \<open>\<open>/\s+/g\<close> made one space.\<close>

function squeeze_spaces :: "jstr \<Rightarrow> jstr" where
  "squeeze_spaces [] = []"
| "squeeze_spaces (c # s) = (if js_space c then 32 # squeeze_spaces (dropWhile js_space s) else c # squeeze_spaces s)"
  by pat_completeness auto
termination by (relation "measure length") (auto simp: le_imp_less_Suc length_dropWhile_le)

definition errorLine :: "translate \<Rightarrow> request_error_summary \<Rightarrow> jstr" where
  "errorLine t error' =
     (let head = (case er_upstream error' of
            Some upstream \<Rightarrow> t ''conversation.upstreamStatus'' [(''status'', TextNum (ue_status upstream))]
          | None \<Rightarrow> []);
          code = (if er_code error' \<noteq> [] then er_code error' else er_category error');
          message = trim (squeeze_spaces (er_message error'));
          line = join_with middle_dot (filter (\<lambda>p. p \<noteq> [])
            [head, code, if message \<noteq> [] \<and> message \<noteq> code then message else []]) in
      if length line > REASON_LIMIT then take REASON_LIMIT line @ [8230] else line)"

definition callReason :: "translate \<Rightarrow> request_record \<Rightarrow> request_record list \<Rightarrow> jstr option" where
  "callReason t record' children =
     (let tone = callTone record'; retries = length children in
      if tone = ToneOk \<and> retries > 0
      then Some (case Option.bind (find (\<lambda>c. rq_error c \<noteq> None) children) rq_error of
          Some earlier \<Rightarrow> t ''conversation.retriedAfter''
            [(''reason'', TextStr (errorLine t earlier)), (''count'', TextNum (int retries))]
        | None \<Rightarrow> t ''conversation.retried'' [(''count'', TextNum (int retries))])
      else case rq_error record' of
        Some error' \<Rightarrow> Some (errorLine t error')
      | None \<Rightarrow>
          if tone = ToneCancelled \<and> clientDisconnect record' then Some (t ''trajectory.clientDisconnected'' [])
          else if tone = ToneBlocked then Some (t ''trajectory.policyBlockHint'' [])
          else None)"

definition usageOf :: "request_record list \<Rightarrow> token_usage option" where
  "usageOf records =
     (let usages = List.map_filter rq_usage records in
      if usages = [] then None
      else Some \<lparr>tu_input = sum_list (map us_input_tokens usages), tu_output = sum_list (map us_output_tokens usages)\<rparr>)"

text \<open>The first-token time of a streamed call, and what a call adds to the speed: tokens and duration.\<close>

definition ttft_of :: "request_record \<Rightarrow> rat option" where
  "ttft_of record' = (if rq_streaming record' then rq_first_token_ms record' else None)"

definition speed_of :: "request_record \<Rightarrow> (int \<times> rat) option" where
  "speed_of record' =
     (case (rq_latency_ms record', rq_usage record') of
        (Some latency, Some usage) \<Rightarrow>
          if latency \<le> 0 \<or> us_billing_incomplete usage = Some True \<or> us_output_tokens usage \<le> 0 then None
          else Some (us_output_tokens usage, latency)
      | _ \<Rightarrow> None)"

definition performanceOf :: "request_record list \<Rightarrow> rat option \<times> rat option" where
  "performanceOf records =
     (let ttfts = List.map_filter ttft_of records; speeds = List.map_filter speed_of records;
          durationMs = sum_list (map snd speeds) in
      (if ttfts = [] then None else Some (sum_list ttfts / of_nat (length ttfts)),
       if durationMs > 0 then Some (of_int (sum_list (map fst speeds)) * 1000 / durationMs) else None))"

definition addTokenUsage :: "token_usage option \<Rightarrow> token_usage option \<Rightarrow> token_usage option" where
  "addTokenUsage l r =
     (case (l, r) of
        (None, _) \<Rightarrow> r
      | (_, None) \<Rightarrow> l
      | (Some a, Some b) \<Rightarrow> Some \<lparr>tu_input = tu_input a + tu_input b, tu_output = tu_output a + tu_output b\<rparr>)"

definition given :: "jstr option \<Rightarrow> jstr option" where
  "given s = (if s = Some [] then None else s)"

definition instant :: "date_parser \<Rightarrow> jstr \<Rightarrow> rat option" where
  "instant date s = map_option of_int (date s)"

definition endOf :: "date_parser \<Rightarrow> request_record \<Rightarrow> rat \<Rightarrow> rat option" where
  "endOf date record' nowMs =
     (case given (rq_completed_at record') of
        Some s \<Rightarrow> instant date s
      | None \<Rightarrow>
          (case rq_latency_ms record' of
             Some latency \<Rightarrow> map_option (\<lambda>started. started + latency) (instant date (rq_started_at record'))
           | None \<Rightarrow> if rq_status record' = Pending then Some nowMs else instant date (rq_started_at record')))"

text \<open>A list of times, None when one of them is NaN.\<close>

definition all_times :: "rat option list \<Rightarrow> rat list option" where
  "all_times xs = (if None \<in> set xs then None else Some (map the xs))"

definition spanMs :: "date_parser \<Rightarrow> request_record list \<Rightarrow> rat \<Rightarrow> rat option" where
  "spanMs date records nowMs =
     (if records = [] then Some 0
      else case (all_times (map (\<lambda>r. instant date (rq_started_at r)) records), all_times (map (\<lambda>r. endOf date r nowMs) records)) of
        (Some starts, Some ends) \<Rightarrow> Some (max 0 (Max (set ends) - Min (set starts)))
      | _ \<Rightarrow> None)"

definition output_texts :: "response_output_kind \<Rightarrow> parsed_call option \<Rightarrow> jstr list" where
  "output_texts kind parsed =
     (case parsed of
        None \<Rightarrow> []
      | Some p \<Rightarrow> filter (\<lambda>s. s \<noteq> []) (map (\<lambda>out. trim (ro_text out)) (filter (\<lambda>out. ro_kind out = kind) (pd_outputs p))))"

definition durationOf :: "date_parser \<Rightarrow> request_record \<Rightarrow> rat \<Rightarrow> rat option option" where
  "durationOf date record' nowMs =
     (case rq_latency_ms record' of
        Some latency \<Rightarrow> Some (Some latency)
      | None \<Rightarrow>
          (let started = instant date (rq_started_at record') in
           case given (rq_completed_at record') of
             Some s \<Rightarrow> Some (case (instant date s, started) of (Some e, Some b) \<Rightarrow> Some (e - b) | _ \<Rightarrow> None)
           | None \<Rightarrow> if rq_status record' = Pending then Some (map_option (\<lambda>b. nowMs - b) started) else None))"

definition gapOf :: "date_parser \<Rightarrow> request_record \<Rightarrow> jstr option \<Rightarrow> rat \<Rightarrow> rat option option" where
  "gapOf date record' nextStartedAt nowMs =
     (case (Option.bind (given nextStartedAt) (instant date), given (rq_completed_at record')) of
        (Some start, Some _) \<Rightarrow> Some (map_option (\<lambda>e. max 0 (start - e)) (endOf date record' nowMs))
      | _ \<Rightarrow> None)"

definition buildCall ::
  "translate \<Rightarrow> date_parser \<Rightarrow> request_record \<Rightarrow> request_record list \<Rightarrow> nat \<Rightarrow> parsed_call option \<Rightarrow> parsed_call option
    \<Rightarrow> jstr option \<Rightarrow> rat \<Rightarrow> conversation_call" where
  "buildCall t date record' children index' parsed nextParsed nextStartedAt nowMs =
     (let tone = callTone record';
          toolCalls = (case parsed of
              None \<Rightarrow> []
            | Some p \<Rightarrow> pairToolCalls (pd_outputs p) (case nextParsed of None \<Rightarrow> [] | Some n \<Rightarrow> pd_tool_results n));
          fallback = (case rq_privacy_restore record' of None \<Rightarrow> 0 | Some r \<Rightarrow> ps_fallback_count r);
          conversionError = (case rq_conversion_diagnostics record' of
              None \<Rightarrow> False | Some ds \<Rightarrow> list_ex (\<lambda>d. cd_severity d = SeverityError) ds) in
      \<lparr>cl_record = record', cl_children = children, cl_index = index', cl_tone = tone,
       cl_anomaly = (tone \<noteq> ToneOk \<or> children \<noteq> [] \<or> list_ex tl_error toolCalls \<or> fallback > 0 \<or> conversionError),
       cl_reply = False, cl_reason = callReason t record' children,
       cl_narration = output_texts OutText parsed, cl_reasoning = output_texts OutReasoning parsed,
       cl_reasoning_ms = (case (rq_first_token_ms record', rq_first_answer_ms record') of
           (Some token, Some answer) \<Rightarrow> Some (max 0 (answer - token)) | _ \<Rightarrow> None),
       cl_tool_calls = toolCalls,
       cl_tool_count = (case parsed of
           None \<Rightarrow> None | Some p \<Rightarrow> if pd_response_captured p then Some (length toolCalls) else None),
       cl_gap_ms = gapOf date record' nextStartedAt nowMs, cl_duration_ms = durationOf date record' nowMs,
       cl_tokens = usageOf (record' # children), cl_parsed = parsed\<rparr>)"

section \<open>Folding\<close>

fun tally :: "jstr \<Rightarrow> (jstr \<times> nat) list \<Rightarrow> (jstr \<times> nat) list" where
  "tally k [] = [(k, 1)]"
| "tally k ((k', n) # m) = (if k' = k then (k', n + 1) # m else (k', n) # tally k m)"

definition countTools :: "conversation_call list \<Rightarrow> (jstr \<times> nat) list" where
  "countTools calls' =
     sort_by (\<lambda>a b. int (snd b) - int (snd a))
       (fold (\<lambda>tool. tally (tl_name tool)) (concat (map cl_tool_calls calls')) [])"

definition count_or_zero :: "nat option \<Rightarrow> nat" where
  "count_or_zero n = (case n of None \<Rightarrow> 0 | Some k \<Rightarrow> k)"

definition call_records :: "conversation_call \<Rightarrow> request_record list" where
  "call_records call = cl_record call # cl_children call"

definition flush_run :: "date_parser \<Rightarrow> rat \<Rightarrow> conversation_call list \<Rightarrow> conversation_segment list" where
  "flush_run date nowMs run =
     (if length run \<ge> 2
      then [RunSegment \<lparr>ru_calls = run, ru_tool_counts = countTools run,
        ru_tool_total = (if list_ex (\<lambda>c. cl_tool_count c = None) run then None
          else Some (sum_list (map (\<lambda>c. count_or_zero (cl_tool_count c)) run))),
        ru_duration_ms = spanMs date (concat (map call_records run)) nowMs,
        ru_tokens = foldl (\<lambda>s c. addTokenUsage s (cl_tokens c)) None run\<rparr>]
      else map CallSegment run)"

definition stands_out :: "jstr set \<Rightarrow> conversation_call \<Rightarrow> bool" where
  "stands_out standalone call \<longleftrightarrow>
     cl_anomaly call \<or> cl_tone call = TonePending \<or> cl_reply call \<or> rq_id (cl_record call) \<in> standalone"

fun fold_calls ::
  "date_parser \<Rightarrow> rat \<Rightarrow> jstr set \<Rightarrow> conversation_call list \<Rightarrow> conversation_call list \<Rightarrow> conversation_segment list" where
  "fold_calls date nowMs standalone run [] = flush_run date nowMs run"
| "fold_calls date nowMs standalone run (call # rest) =
     (if stands_out standalone call \<or> rest = []
      then flush_run date nowMs run @ CallSegment call # fold_calls date nowMs standalone [] rest
      else fold_calls date nowMs standalone (run @ [call]) rest)"

definition foldRoutineCalls ::
  "date_parser \<Rightarrow> conversation_call list \<Rightarrow> rat \<Rightarrow> jstr set \<Rightarrow> conversation_segment list" where
  "foldRoutineCalls date calls' nowMs standalone = fold_calls date nowMs standalone [] calls'"

section \<open>Turns\<close>

definition previewUser :: "request_record \<Rightarrow> user_text" where
  "previewUser record' =
     (let preview = (case rq_input_preview record' of None \<Rightarrow> [] | Some s \<Rightarrow> trim s) in
      if preview \<noteq> [] then \<lparr>ut_text = preview, ut_wrappers = [], ut_source = FromPreview\<rparr>
      else \<lparr>ut_text = [], ut_wrappers = [], ut_source = FromNothing\<rparr>)"

fun build_calls ::
  "translate \<Rightarrow> date_parser \<Rightarrow> (jstr \<Rightarrow> request_record list option) \<Rightarrow> (jstr \<Rightarrow> parsed_call option) \<Rightarrow> rat \<Rightarrow> nat
    \<Rightarrow> request_record list \<Rightarrow> conversation_call list" where
  "build_calls t date children parsed nowMs i [] = []"
| "build_calls t date children parsed nowMs i (record' # rest) =
     buildCall t date record' (case children (rq_id record') of None \<Rightarrow> [] | Some cs \<Rightarrow> cs) (i + 1) (parsed (rq_id record'))
       (case rest of [] \<Rightarrow> None | n # _ \<Rightarrow> parsed (rq_id n)) (case rest of [] \<Rightarrow> None | n # _ \<Rightarrow> Some (rq_started_at n)) nowMs
     # build_calls t date children parsed nowMs (i + 1) rest"

text \<open>The call that wrote the reply: the last one while it runs, else the last that succeeded, else the last.\<close>

definition reply_index :: "conversation_call list \<Rightarrow> nat" where
  "reply_index calls' =
     (let end' = length calls' - 1 in
      if cl_tone (calls' ! end') = TonePending then end'
      else case find_index (\<lambda>c. cl_tone c = ToneOk) (rev calls') of
        Some k \<Rightarrow> end' - k
      | None \<Rightarrow> end')"

definition reply_text :: "conversation_call \<Rightarrow> jstr option" where
  "reply_text call = (if cl_narration call = [] then None else Some (join_with [10, 10] (cl_narration call)))"

definition mark_reply :: "conversation_call \<Rightarrow> conversation_call" where
  "mark_reply call = call\<lparr>cl_narration := (if reply_text call \<noteq> None then [] else cl_narration call), cl_reply := True\<rparr>"

definition turnStats :: "date_parser \<Rightarrow> conversation_call list \<Rightarrow> rat \<Rightarrow> turn_stats" where
  "turnStats date calls' nowMs =
     (let readCalls = filter (\<lambda>c. cl_tool_count c \<noteq> None) calls';
          everyRecord = concat (map call_records calls');
          cancelledRecords = filter (\<lambda>r. callTone r = ToneCancelled) everyRecord;
          (ttft, speed) = performanceOf everyRecord in
      \<lparr>st_calls = length everyRecord,
       st_tool_calls = (if readCalls = [] then None
         else Some (sum_list (map (\<lambda>c. count_or_zero (cl_tool_count c)) readCalls))),
       st_tool_calls_partial = (readCalls \<noteq> [] \<and> length readCalls < length calls'),
       st_tools = countTools readCalls,
       st_failed = length (filter (\<lambda>r. callTone r \<in> {ToneFailed, ToneBlocked}) everyRecord),
       st_cancelled = length cancelledRecords,
       st_disconnected = length (filter clientDisconnect cancelledRecords),
       st_duration_ms = spanMs date everyRecord nowMs,
       st_tokens = usageOf everyRecord, st_ttft_ms = ttft, st_output_tokens_per_second = speed,
       st_pending = list_ex (\<lambda>c. cl_tone c = TonePending) calls'\<rparr>)"

definition says_something :: "user_text \<Rightarrow> bool" where
  "says_something user \<longleftrightarrow> ut_text user \<noteq> [] \<or> ut_wrappers user \<noteq> []"

definition turn_of ::
  "translate \<Rightarrow> date_parser \<Rightarrow> (jstr \<Rightarrow> request_record list option) \<Rightarrow> (jstr \<Rightarrow> parsed_call option) \<Rightarrow> rat \<Rightarrow> jstr set
    \<Rightarrow> trajectory_turn_group \<Rightarrow> conversation_turn" where
  "turn_of t date children parsed nowMs standalone group' =
     (let records = tg_records group';
          built = build_calls t date children parsed nowMs 0 records;
          first = hd records;
          bodyUser = find says_something (List.map_filter (\<lambda>c. Option.bind (cl_parsed c) pd_user) built);
          r = reply_index built;
          replyCall = built ! r;
          calls' = built[r := mark_reply replyCall];
          read = filter (\<lambda>c. cl_parsed c \<noteq> None) calls' in
      \<lparr>cv_id = js ''turn:'' @ (case tg_turn_index group' of Some i \<Rightarrow> big_string i | None \<Rightarrow> rq_id first),
       cv_turn_index = tg_turn_index group', cv_calls = calls',
       cv_segments = foldRoutineCalls date calls' nowMs standalone,
       cv_user = (case bodyUser of Some u \<Rightarrow> u | None \<Rightarrow> previewUser first),
       cv_started_at = rq_started_at first,
       cv_reply = \<lparr>ry_text = reply_text replyCall, ry_record = cl_record replyCall, ry_at = rq_completed_at (cl_record replyCall)\<rparr>,
       cv_stats = turnStats date calls' nowMs,
       cv_locked = (read \<noteq> [] \<and> list_all (\<lambda>c. pd_locked (the (cl_parsed c))) read)\<rparr>)"

definition conversationTurns ::
  "translate \<Rightarrow> date_parser \<Rightarrow> request_record list \<Rightarrow> (jstr \<Rightarrow> request_record list option) \<Rightarrow> (jstr \<Rightarrow> parsed_call option)
    \<Rightarrow> rat \<Rightarrow> jstr set \<Rightarrow> conversation_turn list" where
  "conversationTurns t date turns children parsed nowMs standalone =
     map (turn_of t date children parsed nowMs standalone) (groupTurns turns)"

definition cancelledLabel :: "translate \<Rightarrow> turn_stats \<Rightarrow> jstr option" where
  "cancelledLabel t stats =
     (if st_cancelled stats = 0 then None
      else Some (t (if st_disconnected stats = st_cancelled stats then ''conversation.disconnects''
          else ''conversation.cancellations'') [(''count'', TextNum (int (st_cancelled stats)))]))"

definition toolCountLabel :: "(jstr \<times> nat) list \<Rightarrow> jstr" where
  "toolCountLabel counts = join_with middle_dot (map (\<lambda>(name, n). name @ [32, 215] @ dec n) counts)"

section \<open>Nothing is lost by folding\<close>

fun segment_calls :: "conversation_segment \<Rightarrow> conversation_call list" where
  "segment_calls (CallSegment c) = [c]"
| "segment_calls (RunSegment r) = ru_calls r"

fun segment_ok :: "jstr set \<Rightarrow> conversation_segment \<Rightarrow> bool" where
  "segment_ok standalone (CallSegment c) \<longleftrightarrow> True"
| "segment_ok standalone (RunSegment r) \<longleftrightarrow> 2 \<le> length (ru_calls r) \<and> list_all (\<lambda>c. \<not> stands_out standalone c) (ru_calls r)"

lemma flush_run_calls [simp]: "concat (map segment_calls (flush_run date nowMs run)) = run"
  by (auto simp: flush_run_def) (induction run, auto)

lemma flush_run_ok:
  "list_all (\<lambda>c. \<not> stands_out standalone c) run \<Longrightarrow> list_all (segment_ok standalone) (flush_run date nowMs run)"
  by (simp add: flush_run_def list_all_length)

lemma fold_calls_kept:
  "list_all (\<lambda>c. \<not> stands_out standalone c) run \<Longrightarrow>
     concat (map segment_calls (fold_calls date nowMs standalone run calls')) = run @ calls'
     \<and> list_all (segment_ok standalone) (fold_calls date nowMs standalone run calls')
     \<and> (calls' = [] \<or> last (fold_calls date nowMs standalone run calls') = CallSegment (last calls'))"
proof (induction date nowMs standalone run calls' rule: fold_calls.induct)
  case (2 date nowMs standalone run call rest)
  show ?case
  proof (cases "stands_out standalone call \<or> rest = []")
    case True
    have "fold_calls date nowMs standalone [] [] = []" by (simp add: flush_run_def)
    moreover have "rest \<noteq> [] \<Longrightarrow> fold_calls date nowMs standalone [] rest \<noteq> []"
      using "2.IH"(1) [OF True] by auto
    ultimately show ?thesis using "2.IH"(1) [OF True] "2.prems" True by (auto simp: flush_run_ok simp del: fold_calls.simps(1))
  next
    case False
    then show ?thesis using "2.IH"(2) [OF False] "2.prems" by simp
  qed
qed (simp add: flush_run_ok)

lemma fold_kept:
  "concat (map segment_calls (foldRoutineCalls date calls' nowMs standalone)) = calls'
    \<and> list_all (segment_ok standalone) (foldRoutineCalls date calls' nowMs standalone)
    \<and> (calls' = [] \<or> last (foldRoutineCalls date calls' nowMs standalone) = CallSegment (last calls'))"
  using fold_calls_kept [of standalone "[]" date nowMs calls'] by (simp add: foldRoutineCalls_def)

section \<open>Every call in its place\<close>

lemma build_calls_records: "map cl_record (build_calls t date children parsed nowMs i records) = records"
  by (induction records arbitrary: i) (simp_all add: buildCall_def Let_def)

lemma build_calls_index: "map cl_index (build_calls t date children parsed nowMs i records) = [Suc i..<Suc (i + length records)]"
proof (induction records arbitrary: i)
  case (Cons r rs)
  have "cl_index (hd (build_calls t date children parsed nowMs i (r # rs))) = Suc i" by (simp add: buildCall_def Let_def)
  then show ?case using Cons.IH [of "Suc i"] by (simp add: upt_rec)
qed simp

lemma build_calls_reply: "list_all (\<lambda>c. \<not> cl_reply c) (build_calls t date children parsed nowMs i records)"
  by (induction records arbitrary: i) (simp_all add: buildCall_def Let_def)

lemma reply_index_less: "calls' \<noteq> [] \<Longrightarrow> reply_index calls' < length calls'"
  by (auto simp: reply_index_def Let_def split: option.splits)

lemma filter_update:
  "i < length xs \<Longrightarrow> list_all (\<lambda>x. \<not> P x) xs \<Longrightarrow> P y \<Longrightarrow> filter P (xs[i := y]) = [y]"
proof (induction xs arbitrary: i)
  case (Cons x xs)
  have "list_all (\<lambda>x. \<not> P x) xs \<Longrightarrow> filter P xs = []" by (simp add: list_all_iff)
  then show ?case using Cons by (cases i) auto
qed simp

definition turn_ok :: "(jstr \<Rightarrow> request_record list option) \<Rightarrow> jstr set \<Rightarrow> conversation_turn \<Rightarrow> bool" where
  "turn_ok children standalone turn \<longleftrightarrow>
     map cl_index (cv_calls turn) = [1..<Suc (length (cv_calls turn))]
     \<and> map cl_record (filter cl_reply (cv_calls turn)) = [ry_record (cv_reply turn)]
     \<and> concat (map segment_calls (cv_segments turn)) = cv_calls turn
     \<and> list_all (segment_ok standalone) (cv_segments turn)
     \<and> last (cv_segments turn) = CallSegment (last (cv_calls turn))
     \<and> list_all (\<lambda>c. cl_children c = (case children (rq_id (cl_record c)) of None \<Rightarrow> [] | Some cs \<Rightarrow> cs)) (cv_calls turn)
     \<and> st_calls (cv_stats turn) = sum_list (map (\<lambda>c. Suc (length (cl_children c))) (cv_calls turn))"

lemma build_calls_children:
  "list_all (\<lambda>c. cl_children c = (case children (rq_id (cl_record c)) of None \<Rightarrow> [] | Some cs \<Rightarrow> cs))
     (build_calls t date children parsed nowMs i records)"
  by (induction records arbitrary: i) (simp_all add: buildCall_def Let_def)

lemma length_build_calls [simp]: "length (build_calls t date children parsed nowMs i records) = length records"
  by (induction records arbitrary: i) simp_all

lemma map_update_same: "f y = f (xs ! i) \<Longrightarrow> map f (xs[i := y]) = map f xs"
  by (metis list_update_id map_update)

lemma mark_reply_simps [simp]:
  "cl_record (mark_reply c) = cl_record c" "cl_index (mark_reply c) = cl_index c" "cl_children (mark_reply c) = cl_children c"
  "cl_tool_calls (mark_reply c) = cl_tool_calls c" "cl_tool_count (mark_reply c) = cl_tool_count c"
  "cl_tokens (mark_reply c) = cl_tokens c" "cl_reply (mark_reply c)" "cl_parsed (mark_reply c) = cl_parsed c"
  by (simp_all add: mark_reply_def)

text \<open>The calls of a turn as shown: those built, with the reply marked.\<close>

definition shown_calls ::
  "translate \<Rightarrow> date_parser \<Rightarrow> (jstr \<Rightarrow> request_record list option) \<Rightarrow> (jstr \<Rightarrow> parsed_call option) \<Rightarrow> rat
    \<Rightarrow> request_record list \<Rightarrow> conversation_call list" where
  "shown_calls t date children parsed nowMs records =
     (let built = build_calls t date children parsed nowMs 0 records in
      built[reply_index built := mark_reply (built ! reply_index built)])"

lemma turn_calls: "cv_calls (turn_of t date children parsed nowMs standalone g) = shown_calls t date children parsed nowMs (tg_records g)"
  by (simp add: turn_of_def shown_calls_def Let_def)

lemma turn_of_ok:
  assumes "tg_records g \<noteq> []"
  shows "turn_ok children standalone (turn_of t date children parsed nowMs standalone g)
    \<and> map cl_record (cv_calls (turn_of t date children parsed nowMs standalone g)) = tg_records g"
proof -
  define built where "built = build_calls t date children parsed nowMs 0 (tg_records g)"
  define r where "r = reply_index built"
  define calls' where "calls' = built[r := mark_reply (built ! r)]"
  let ?turn = "turn_of t date children parsed nowMs standalone g"
  have len: "length built = length (tg_records g)" by (simp add: built_def)
  then have built: "built \<noteq> []" using assms by auto
  then have r: "r < length built" unfolding r_def by (intro reply_index_less)
  have calls: "cv_calls ?turn = calls'" by (simp add: turn_calls shown_calls_def calls'_def r_def built_def Let_def)
  have records: "map cl_record calls' = tg_records g"
    by (simp add: calls'_def map_update_same) (simp add: built_def build_calls_records)
  have "map cl_index built = [Suc 0..<Suc (length built)]"
    using build_calls_index [of t date children parsed nowMs 0 "tg_records g"] by (simp only: built_def length_build_calls add_0)
  moreover have "map cl_index calls' = map cl_index built" by (simp add: calls'_def map_update_same)
  ultimately have index: "map cl_index calls' = [1..<Suc (length calls')]"
    by (simp only: One_nat_def calls'_def length_list_update)
  have reply: "filter cl_reply calls' = [mark_reply (built ! r)]"
    unfolding calls'_def by (rule filter_update [OF r]) (simp_all add: built_def build_calls_reply)
  have "list_all (\<lambda>c. cl_children c = (case children (rq_id (cl_record c)) of None \<Rightarrow> [] | Some cs \<Rightarrow> cs)) built"
    by (simp add: built_def build_calls_children)
  then have children: "list_all (\<lambda>c. cl_children c = (case children (rq_id (cl_record c)) of None \<Rightarrow> [] | Some cs \<Rightarrow> cs)) calls'"
    using r by (auto simp: calls'_def list_all_length nth_list_update)
  have segments: "cv_segments ?turn = foldRoutineCalls date calls' nowMs standalone"
    and stats: "cv_stats ?turn = turnStats date calls' nowMs"
    and wrote: "ry_record (cv_reply ?turn) = cl_record (built ! r)"
    by (simp_all add: turn_of_def calls'_def r_def built_def Let_def)
  have "length (concat (map call_records calls')) = sum_list (map (\<lambda>c. Suc (length (cl_children c))) calls')"
    by (simp add: length_concat comp_def call_records_def)
  then have count: "st_calls (cv_stats ?turn) = sum_list (map (\<lambda>c. Suc (length (cl_children c))) calls')"
    by (simp add: stats turnStats_def Let_def split: prod.splits)
  have "calls' \<noteq> []" using built by (simp add: calls'_def)
  then show ?thesis
    using records index reply children count fold_kept [of date calls' nowMs standalone]
    unfolding turn_ok_def calls segments wrote by simp
qed

text \<open>
  C10: the conversation shows every call exactly once, in order: the calls of the turns, read together, are
  those given; in each turn they are numbered from one, exactly one is marked as the reply, the folded
  rows hold the same calls in the same order, a run has at least two and none that stands out, the
  last call has its own row, and the turn counts each call with the attempts before it.
\<close>

theorem conversation_complete:
  "concat (map (\<lambda>turn. map cl_record (cv_calls turn)) (conversationTurns t date turns children parsed nowMs standalone)) = turns
    \<and> list_all (turn_ok children standalone) (conversationTurns t date turns children parsed nowMs standalone)"
proof -
  have ok: "turn_ok children standalone (turn_of t date children parsed nowMs standalone g)
      \<and> map cl_record (cv_calls (turn_of t date children parsed nowMs standalone g)) = tg_records g"
    if "g \<in> set (groupTurns turns)" for g
    by (rule turn_of_ok) (use groupTurns_nonempty that in blast)
  have "map (\<lambda>turn. map cl_record (cv_calls turn)) (conversationTurns t date turns children parsed nowMs standalone)
      = map tg_records (groupTurns turns)"
    using ok by (simp add: conversationTurns_def comp_def)
  then have "concat (map (\<lambda>turn. map cl_record (cv_calls turn)) (conversationTurns t date turns children parsed nowMs standalone)) = turns"
    by (simp only: groupTurns_records)
  then show ?thesis using ok by (simp add: conversationTurns_def list_all_iff)
qed

section \<open>The totals\<close>

lemma map_filter_append': "List.map_filter f (xs @ ys) = List.map_filter f xs @ List.map_filter f ys"
  by (induction xs) (simp_all add: map_filter_simps split: option.splits)

lemma usageOf_append: "usageOf (xs @ ys) = addTokenUsage (usageOf xs) (usageOf ys)"
  by (auto simp: usageOf_def addTokenUsage_def map_filter_append' Let_def)

lemma addTokenUsage_None [simp]: "addTokenUsage None x = x" "addTokenUsage x None = x"
  by (auto simp: addTokenUsage_def split: option.splits)

lemma addTokenUsage_assoc: "addTokenUsage (addTokenUsage x y) z = addTokenUsage x (addTokenUsage y z)"
  by (cases x; cases y; cases z) (simp_all add: addTokenUsage_def)

lemma addTokenUsage_records:
  "list_all (\<lambda>c. cl_tokens c = usageOf (call_records c)) cs \<Longrightarrow>
     foldl (\<lambda>s c. addTokenUsage s (cl_tokens c)) x cs = addTokenUsage x (usageOf (concat (map call_records cs)))"
  by (induction cs arbitrary: x) (simp_all add: usageOf_append addTokenUsage_assoc, simp add: usageOf_def map_filter_simps)

fun segment_tokens :: "conversation_segment \<Rightarrow> token_usage option" where
  "segment_tokens (CallSegment c) = cl_tokens c"
| "segment_tokens (RunSegment r) = ru_tokens r"

lemma tally_sum: "sum_list (map snd (tally k m)) = Suc (sum_list (map snd m))"
  by (induction m) auto

lemma tally_keys: "set (map fst (tally k m)) = insert k (set (map fst m))"
  by (induction k m rule: tally.induct) (simp_all add: insert_commute)

lemma tally_distinct: "distinct (map fst m) \<Longrightarrow> distinct (map fst (tally k m))"
  by (induction k m rule: tally.induct) (simp_all only: tally.simps list.map distinct.simps tally_keys fst_conv split: if_split, auto)

lemma tally_all: "sum_list (map snd (fold (\<lambda>x. tally (f x)) xs m)) = length xs + sum_list (map snd m)
    \<and> (distinct (map fst m) \<longrightarrow> distinct (map fst (fold (\<lambda>x. tally (f x)) xs m)))"
  by (induction xs arbitrary: m) (simp_all add: tally_sum tally_distinct)

lemma sum_insert_by_nat:
  fixes w :: "'a \<Rightarrow> nat"
  shows "sum_list (map w (insert_by cmp x ys)) = w x + sum_list (map w ys)"
  by (induction ys) auto

lemma sum_sort_by_nat:
  fixes w :: "'a \<Rightarrow> nat"
  shows "sum_list (map w (sort_by cmp xs)) = sum_list (map w xs)"
  by (induction xs) (auto simp: sum_insert_by_nat)

lemma countTools_total:
  "sum_list (map snd (countTools cs)) = length (concat (map cl_tool_calls cs)) \<and> distinct (map fst (countTools cs))"
  using tally_all [of tl_name "concat (map cl_tool_calls cs)" "[]"] by (simp add: countTools_def sum_sort_by_nat)

definition joined_tokens :: "conversation_call list \<Rightarrow> token_usage option" where
  "joined_tokens cs = foldl (\<lambda>s c. addTokenUsage s (cl_tokens c)) None cs"

lemma joined_tokens_append: "joined_tokens (cs @ ds) = addTokenUsage (joined_tokens cs) (joined_tokens ds)"
proof -
  have "foldl (\<lambda>s c. addTokenUsage s (cl_tokens c)) x ds = addTokenUsage x (joined_tokens ds)" for x
    by (induction ds rule: rev_induct) (simp_all add: joined_tokens_def addTokenUsage_assoc)
  then show ?thesis by (metis foldl_append joined_tokens_def)
qed

lemma joined_tokens_one [simp]: "joined_tokens [c] = cl_tokens c"
  by (simp add: joined_tokens_def)

lemma flush_run_tokens: "list_all (\<lambda>s. segment_tokens s = joined_tokens (segment_calls s)) (flush_run date nowMs run)"
  by (auto simp: flush_run_def list_all_iff) (simp add: joined_tokens_def)

lemma fold_calls_tokens:
  "list_all (\<lambda>s. segment_tokens s = joined_tokens (segment_calls s)) (fold_calls date nowMs standalone run calls')"
proof (induction date nowMs standalone run calls' rule: fold_calls.induct)
  case (2 date nowMs standalone run call rest)
  then show ?case
    by (cases "stands_out standalone call \<or> rest = []") (simp_all only: fold_calls.simps if_True if_False list_all_append list.pred_inject segment_tokens.simps segment_calls.simps joined_tokens_one flush_run_tokens simp_thms)
qed (simp only: fold_calls.simps flush_run_tokens)

lemma segments_join:
  "list_all (\<lambda>s. segment_tokens s = joined_tokens (segment_calls s)) segs \<Longrightarrow>
     foldl (\<lambda>s g. addTokenUsage s (segment_tokens g)) x segs = addTokenUsage x (joined_tokens (concat (map segment_calls segs)))"
  by (induction segs arbitrary: x) (simp_all add: joined_tokens_append addTokenUsage_assoc, simp add: joined_tokens_def)

lemma build_calls_tokens:
  "list_all (\<lambda>c. cl_tokens c = usageOf (call_records c)) (build_calls t date children parsed nowMs i records)"
  by (induction records arbitrary: i) (simp_all add: buildCall_def call_records_def Let_def)

lemma build_calls_tools:
  "list_all (\<lambda>c. cl_tool_count c = None \<or> cl_tool_count c = Some (length (cl_tool_calls c)))
     (build_calls t date children parsed nowMs i records)"
  by (induction records arbitrary: i) (auto simp: buildCall_def Let_def split: option.splits)

definition totals_ok :: "conversation_turn \<Rightarrow> bool" where
  "totals_ok turn \<longleftrightarrow>
     foldl (\<lambda>s g. addTokenUsage s (segment_tokens g)) None (cv_segments turn) = st_tokens (cv_stats turn)
     \<and> sum_list (map snd (st_tools (cv_stats turn))) = count_or_zero (st_tool_calls (cv_stats turn))
     \<and> distinct (map fst (st_tools (cv_stats turn)))"

lemma turn_totals:
  assumes "tg_records g \<noteq> []"
  shows "totals_ok (turn_of t date children parsed nowMs standalone g)"
proof -
  let ?turn = "turn_of t date children parsed nowMs standalone g"
  define calls' where "calls' = cv_calls ?turn"
  define built where "built = build_calls t date children parsed nowMs 0 (tg_records g)"
  have shown: "calls' = built[reply_index built := mark_reply (built ! reply_index built)]"
    by (simp add: calls'_def turn_calls shown_calls_def built_def Let_def)
  have len: "length built = length (tg_records g)" by (simp add: built_def)
  then have r: "reply_index built < length built" using assms by (intro reply_index_less) auto
  have segments: "cv_segments ?turn = foldRoutineCalls date calls' nowMs standalone"
    and stats: "cv_stats ?turn = turnStats date calls' nowMs"
    by (simp_all add: turn_of_def shown built_def Let_def)
  have keep: "list_all P calls'" if "list_all P built" "\<And>c. P c \<Longrightarrow> P (mark_reply c)" for P
    using that r by (auto simp: shown list_all_length nth_list_update)
  have "list_all (\<lambda>c. cl_tokens c = usageOf (call_records c)) calls'"
  proof (rule keep)
    show "list_all (\<lambda>c. cl_tokens c = usageOf (call_records c)) built" unfolding built_def by (rule build_calls_tokens)
  qed (simp add: call_records_def)
  then have "joined_tokens calls' = usageOf (concat (map call_records calls'))"
    unfolding joined_tokens_def by (subst addTokenUsage_records) simp_all
  then have tokens: "foldl (\<lambda>s g. addTokenUsage s (segment_tokens g)) None (cv_segments ?turn) = st_tokens (cv_stats ?turn)"
    using segments_join [OF fold_calls_tokens, of None date nowMs standalone "[]" calls'] fold_kept [of date calls' nowMs standalone]
    by (simp add: segments stats turnStats_def foldRoutineCalls_def Let_def split: prod.splits)
  have tools: "list_all (\<lambda>c. cl_tool_count c = None \<or> cl_tool_count c = Some (length (cl_tool_calls c))) calls'"
    by (rule keep) (simp_all add: built_def build_calls_tools)
  let ?read = "filter (\<lambda>c. cl_tool_count c \<noteq> None) calls'"
  have "map (\<lambda>c. count_or_zero (cl_tool_count c)) ?read = map (\<lambda>c. length (cl_tool_calls c)) ?read"
    using tools by (auto simp: list_all_iff count_or_zero_def)
  then have counts: "sum_list (map (\<lambda>c. length (cl_tool_calls c)) ?read) = sum_list (map (\<lambda>c. count_or_zero (cl_tool_count c)) ?read)"
    by (simp only:)
  have "sum_list (map snd (countTools ?read)) = length (concat (map cl_tool_calls ?read))"
    using countTools_total by (rule conjunct1)
  also have "\<dots> = sum_list (map (\<lambda>c. length (cl_tool_calls c)) ?read)" by (simp only: length_concat map_map comp_def)
  finally have "sum_list (map snd (countTools ?read)) = sum_list (map (\<lambda>c. count_or_zero (cl_tool_count c)) ?read)"
    by (simp only: counts)
  moreover have "st_tools (cv_stats ?turn) = countTools ?read"
    and "count_or_zero (st_tool_calls (cv_stats ?turn)) = sum_list (map (\<lambda>c. count_or_zero (cl_tool_count c)) ?read)"
    by (simp_all add: stats turnStats_def Let_def count_or_zero_def split: prod.splits)
  ultimately show ?thesis using tokens countTools_total [of ?read] by (simp add: totals_ok_def)
qed

text \<open>
  C29: the numbers of a turn agree with its rows: the tokens of the folded rows add up to the turn's, and
  the tools listed by name, each name once, add up to the tool calls counted.
\<close>

theorem conversation_totals:
  "list_all totals_ok (conversationTurns t date turns children parsed nowMs standalone)"
  using turn_totals groupTurns_nonempty by (simp add: conversationTurns_def list_all_iff)

end
