(* ===== verification/Sync_Schedule.thy ===== *)
theory Sync_Schedule
  imports Prelude "HOL-Library.Word"
begin

text \<open>
  The cron expressions the core reads, \<open>core/internal/sync/schedule/schedule.go\<close>: fields of lists,
  ranges, steps and stars, each a table of the values it names. The core counts in 64 bits, so a step
  can carry a counter past the end of its range and below zero, where the table has no place and the
  call panics.
\<close>

text \<open>What a call of the core does: it returns a value, it returns an error, or it panics.\<close>

datatype 'a outcome = Returned 'a | Refused | Panicked

fun bind_outcome :: "'a outcome \<Rightarrow> ('a \<Rightarrow> 'b outcome) \<Rightarrow> 'b outcome" where
  "bind_outcome (Returned x) f = f x"
| "bind_outcome Refused f = Refused"
| "bind_outcome Panicked f = Panicked"

lemma bind_outcome_Returned [simp]:
  "bind_outcome r f = Returned y \<longleftrightarrow> (\<exists>x. r = Returned x \<and> f x = Returned y)"
  by (cases r) simp_all

section \<open>Text\<close>

text \<open>\<open>unicode.IsSpace\<close>, with \<open>strings.TrimSpace\<close> and \<open>strings.Fields\<close> over it.\<close>

definition go_space :: "nat \<Rightarrow> bool" where
  "go_space c \<longleftrightarrow> 9 \<le> c \<and> c \<le> 13 \<or> c = 32 \<or> c = 133 \<or> c = 160 \<or> c = 5760 \<or> 8192 \<le> c \<and> c \<le> 8202
     \<or> c = 8232 \<or> c = 8233 \<or> c = 8239 \<or> c = 8287 \<or> c = 12288"

definition go_trim :: "jstr \<Rightarrow> jstr" where
  "go_trim s = rev (dropWhile go_space (rev (dropWhile go_space s)))"

function go_fields :: "jstr \<Rightarrow> jstr list" where
  "go_fields s =
     (let rest = dropWhile go_space s in
      if rest = [] then []
      else takeWhile (\<lambda>c. \<not> go_space c) rest # go_fields (dropWhile (\<lambda>c. \<not> go_space c) rest))"
  by pat_completeness auto
termination
proof (relation "measure length")
  fix s rest assume rest: "rest = dropWhile go_space s" and "rest \<noteq> []"
  then obtain c t where ct: "rest = c # t" using list.exhaust by blast
  then have "\<not> go_space c" using rest by (metis hd_dropWhile list.distinct(1) list.sel(1))
  then have "length (dropWhile (\<lambda>c. \<not> go_space c) rest) \<le> length t" by (simp add: ct length_dropWhile_le)
  also have "length t < length s" using length_dropWhile_le [of go_space s] by (simp flip: rest add: ct)
  finally show "(dropWhile (\<lambda>c. \<not> go_space c) rest, s) \<in> measure length" by simp
qed simp

declare go_fields.simps [simp del]

fun comma_parts :: "jstr \<Rightarrow> jstr list" where
  "comma_parts [] = [[]]"
| "comma_parts (c # s) =
     (if c = 44 then [] # comma_parts s
      else case comma_parts s of [] \<Rightarrow> [[c]] | p # ps \<Rightarrow> (c # p) # ps)"

text \<open>\<open>strconv.Atoi\<close>: digits after a sign that may be left out, within 64 bits.\<close>

definition go_atoi :: "jstr \<Rightarrow> 64 word option" where
  "go_atoi s =
     (let signed = s \<noteq> [] \<and> hd s \<in> {43, 45}; digits = (if signed then tl s else s);
          n = (if signed \<and> hd s = 45 then - int (digits_value digits) else int (digits_value digits)) in
      if digits = [] \<or> \<not> list_all is_digit digits \<or> n < - (2 ^ 63) \<or> 2 ^ 63 \<le> n then None
      else Some (word_of_int n))"

section \<open>A field\<close>

type_synonym go_int = "64 word"

text \<open>
  The step of a part and what stands before it, then the range of values: all, a range, a value, or with
  a step the values from one on.
\<close>

definition cron_step :: "jstr \<Rightarrow> (go_int \<times> jstr) option" where
  "cron_step part =
     (if 47 \<in> set part
      then case go_atoi (tl (dropWhile (\<lambda>c. c \<noteq> 47) part)) of
          None \<Rightarrow> None
        | Some step \<Rightarrow> if sint step < 1 then None else Some (step, takeWhile (\<lambda>c. c \<noteq> 47) part)
      else Some (1, part))"

definition cron_range :: "int \<Rightarrow> int \<Rightarrow> go_int \<Rightarrow> jstr \<Rightarrow> (go_int \<times> go_int) option" where
  "cron_range lo hi step part =
     (if part = js ''*'' then Some (word_of_int lo, word_of_int hi)
      else if 45 \<in> set part
      then case (go_atoi (takeWhile (\<lambda>c. c \<noteq> 45) part), go_atoi (tl (dropWhile (\<lambda>c. c \<noteq> 45) part))) of
          (Some low, Some high) \<Rightarrow>
            if sint low < lo \<or> sint high > hi \<or> sint low > sint high then None else Some (low, high)
        | _ \<Rightarrow> None
      else case go_atoi part of
          None \<Rightarrow> None
        | Some v \<Rightarrow>
            if sint v < lo \<or> sint v > hi then None
            else if sint step > 1 \<and> sint (v + step) \<le> hi then Some (v, word_of_int hi)
            else Some (v, v))"

text \<open>A sum of two counts that are not negative is that sum, or below zero.\<close>

lemma sint_add:
  fixes a b :: go_int
  assumes "0 \<le> sint a" and "0 \<le> sint b"
  shows "sint (a + b) = (if sint a + sint b < 2 ^ 63 then sint a + sint b else sint a + sint b - 2 ^ 64)"
proof -
  have small: "sint a < 2 ^ 63" "sint b < 2 ^ 63"
    using sint_lt [of a] sint_lt [of b] by simp_all
  have wrap: "sint (a + b) = (sint a + sint b + 2 ^ 63) mod 2 ^ 64 - 2 ^ 63"
    by (simp add: sint_word_ariths(1) signed_take_bit_eq_take_bit_shift take_bit_eq_mod)
  show ?thesis
  proof (cases "sint a + sint b < 2 ^ 63")
    case True
    then show ?thesis using assms small by (simp add: wrap)
  next
    case False
    then have "(sint a + sint b + 2 ^ 63 - 2 ^ 64) mod 2 ^ 64 = sint a + sint b + 2 ^ 63 - 2 ^ 64"
      using small by (intro mod_pos_pos_trivial) simp_all
    then have "(sint a + sint b + 2 ^ 63) mod 2 ^ 64 = sint a + sint b + 2 ^ 63 - 2 ^ 64"
      using minus_mod_self2 [of "sint a + sint b + 2 ^ 63" "2 ^ 64"] by metis
    then show ?thesis using False by (simp add: wrap)
  qed
qed

text \<open>
  \<open>for value := low; value <= high; value += step\<close>. The step is positive; one that wraps around makes
  the counter negative, which is no place of the table.
\<close>

function cron_fill :: "go_int \<Rightarrow> go_int \<Rightarrow> go_int \<Rightarrow> bool list \<Rightarrow> bool list outcome" where
  "cron_fill value' high step values' =
     (if sint value' > sint high then Returned values'
      else if sint value' < 0 \<or> int (length values') \<le> sint value' \<or> sint step < 1 then Panicked
      else cron_fill (value' + step) high step (values'[nat (sint value') := True]))"
  by pat_completeness auto
termination
proof (relation "measure (\<lambda>(v, high, step, vs). if sint v < 0 then 0 else Suc (nat (2 ^ 63 - sint v)))")
  fix v high step :: go_int and vs :: "bool list"
  assume "\<not> sint v > sint high" "\<not> (sint v < 0 \<or> int (length vs) \<le> sint v \<or> sint step < 1)"
  then have "0 \<le> sint v" "1 \<le> sint step" by simp_all
  then show "((v + step, high, step, vs[nat (sint v) := True]), v, high, step, vs)
    \<in> measure (\<lambda>(v, high, step, vs). if sint v < 0 then 0 else Suc (nat (2 ^ 63 - sint v)))"
    using sint_add [of v step] sint_lt [of v] sint_lt [of step] by simp
qed simp

declare cron_fill.simps [simp del]

definition cron_part :: "int \<Rightarrow> int \<Rightarrow> jstr \<Rightarrow> bool list \<Rightarrow> bool list outcome" where
  "cron_part lo hi part values' =
     (if part = [] then Refused
      else case cron_step part of
          None \<Rightarrow> Refused
        | Some (step, range') \<Rightarrow>
            (case cron_range lo hi step range' of
               None \<Rightarrow> Refused
             | Some (low, high) \<Rightarrow> cron_fill low high step values'))"

definition parseField :: "jstr \<Rightarrow> int \<Rightarrow> int \<Rightarrow> bool list outcome" where
  "parseField text' lo hi =
     foldl (\<lambda>r part. bind_outcome r (cron_part lo hi part)) (Returned (replicate (nat (hi + 1)) False)) (comma_parts text')"

section \<open>An expression\<close>

record cron_expression =
  crx_secs :: "bool list option"
  crx_mins :: "bool list"
  crx_hour :: "bool list"
  crx_dom :: "bool list"
  crx_mon :: "bool list"
  crx_dow :: "bool list"
  crx_dom_restricted :: bool
  crx_dow_restricted :: bool

definition cron_days :: "bool list option \<Rightarrow> jstr list \<Rightarrow> cron_expression outcome" where
  "cron_days secs parts =
     bind_outcome (parseField (parts ! 0) 0 59) (\<lambda>mins.
     bind_outcome (parseField (parts ! 1) 0 23) (\<lambda>hour.
     bind_outcome (parseField (parts ! 2) 1 31) (\<lambda>dom'.
     bind_outcome (parseField (parts ! 3) 1 12) (\<lambda>mon.
     bind_outcome (parseField (parts ! 4) 0 7) (\<lambda>dow.
     Returned \<lparr>crx_secs = secs, crx_mins = mins, crx_hour = hour, crx_dom = dom', crx_mon = mon,
       crx_dow = take 7 (dow[0 := dow ! 0 \<or> dow ! 7]),
       crx_dom_restricted = (go_trim (parts ! 2) \<noteq> js ''*''),
       crx_dow_restricted = (go_trim (parts ! 4) \<noteq> js ''*'')\<rparr>)))))"

definition parseCron :: "jstr \<Rightarrow> cron_expression outcome" where
  "parseCron text' =
     (let parts = go_fields text' in
      if length parts = 5 then cron_days None parts
      else if length parts = 6
      then bind_outcome (parseField (hd parts) 0 59) (\<lambda>secs. cron_days (Some secs) (tl parts))
      else Refused)"

section \<open>Where the counting goes wrong\<close>

text \<open>While the last value and the step stay within 64 bits, filling the table ends well.\<close>

lemma cron_fill_returns:
  assumes "0 \<le> sint v" and "sint high < int (length vs)" and "1 \<le> sint step" and "sint high + sint step < 2 ^ 63"
  shows "\<exists>vs'. cron_fill v high step vs = Returned vs' \<and> length vs' = length vs"
  using assms
proof (induction v high step vs rule: cron_fill.induct)
  case (1 v high step vs)
  show ?case
  proof (cases "sint v > sint high")
    case True
    then show ?thesis by (simp add: cron_fill.simps [of v])
  next
    case False
    then have next': "sint (v + step) = sint v + sint step" using 1(2,4,5) sint_add [of v step] by simp
    have "\<exists>vs'. cron_fill (v + step) high step (vs[nat (sint v) := True]) = Returned vs'
        \<and> length vs' = length (vs[nat (sint v) := True])"
      using False 1(2-5) next' by (intro 1(1)) simp_all
    then show ?thesis using False 1(2-5) by (simp add: cron_fill.simps [of v])
  qed
qed

text \<open>A step that carries the counter past 64 bits: the first day of the month, in steps of 2^63 - 1 days.\<close>

lemma go_fields_Nil [simp]: "go_fields [] = []"
  by (simp add: go_fields.simps [of "[]"])

lemma go_fields_Cons [simp]:
  "go_fields (c # s) =
     (if go_space c then go_fields s
      else (c # takeWhile (\<lambda>c. \<not> go_space c) s) # go_fields (dropWhile (\<lambda>c. \<not> go_space c) s))"
  by (simp add: go_fields.simps [of "c # s"], simp add: go_fields.simps [of s])

lemma zero_field: "0 \<le> hi \<Longrightarrow> hi < 60 \<Longrightarrow> \<exists>vs. parseField [48] 0 hi = Returned vs"
  using cron_fill_returns [of 0 0 "replicate (nat (hi + 1)) False" 1]
  by (auto simp: parseField_def cron_part_def cron_step_def cron_range_def go_atoi_def js_def is_digit_def digits_value_def)

lemma huge_step_panics: "parseCron (js ''0 0 */9223372036854775807 * *'') = Panicked"
proof -
  let ?field = "[42, 47, 57, 50, 50, 51, 51, 55, 50, 48, 51, 54, 56, 53, 52, 55, 55, 53, 56, 48, 55]"
  have "go_fields (js ''0 0 */9223372036854775807 * *'') = [[48], [48], ?field, [42], [42]]"
    by (simp add: js_def go_space_def)
  moreover have "parseField ?field 1 31 = Panicked"
  proof -
    have "cron_fill 1 31 9223372036854775807 vs = Panicked" if "length vs = 32" for vs
      using that by (simp add: cron_fill.simps [of 1], simp add: cron_fill.simps [of 9223372036854775808])
    then show ?thesis
      by (simp add: parseField_def cron_part_def cron_step_def cron_range_def go_atoi_def js_def is_digit_def digits_value_def)
  qed
  moreover obtain mins hour where "parseField [48] 0 59 = Returned mins" "parseField [48] 0 23 = Returned hour"
    using zero_field [of 59] zero_field [of 23] by auto
  ultimately show ?thesis by (simp add: parseCron_def cron_days_def)
qed

lemma word_refused: "parseCron (js ''foo'') = Refused"
  by (simp add: parseCron_def js_def go_space_def)

end
