(* ===== verification/Sync_Settings.thy ===== *)
theory Sync_Settings
  imports Request_Data Sync_Schedule
begin

text \<open>
  Configuration sync, \<open>sync-model.ts\<close> with the edits of \<open>SyncSettings.tsx\<close>: the settings and the
  status read from the core, the check made before a save, and the body a save sends. The core's
  side of the exchange, \<open>core/contract/sync.go\<close> with the reply and the save of
  \<open>core/internal/controlapi/sync.go\<close> and of \<open>core/internal/sync/engine.go\<close>, is modelled beside it
  for the values the interface can send, so that what the two sides promise each other can be stated.
\<close>

datatype sync_trigger_mode = IntervalTrigger | CronTrigger | ManualTrigger

fun trigger_name :: "sync_trigger_mode \<Rightarrow> string" where
  "trigger_name IntervalTrigger = ''interval''"
| "trigger_name CronTrigger = ''cron''"
| "trigger_name ManualTrigger = ''manual''"

definition syncTriggerModes :: "sync_trigger_mode list" where
  "syncTriggerModes = [IntervalTrigger, CronTrigger, ManualTrigger]"

interpretation sync_trigger_enum: string_enum syncTriggerModes trigger_name
proof
  show "x \<in> set syncTriggerModes" for x by (cases x) (simp_all add: syncTriggerModes_def)
  show "distinct (map trigger_name syncTriggerModes)" by (simp add: syncTriggerModes_def)
qed

datatype sync_remote_kind = NoRemote | WebDavRemote | S3Remote

fun remote_name :: "sync_remote_kind \<Rightarrow> string" where
  "remote_name NoRemote = ''''"
| "remote_name WebDavRemote = ''webdav''"
| "remote_name S3Remote = ''s3''"

definition sync_remote_kinds :: "sync_remote_kind list" where
  "sync_remote_kinds = [NoRemote, WebDavRemote, S3Remote]"

interpretation sync_remote_enum: string_enum sync_remote_kinds remote_name
proof
  show "x \<in> set sync_remote_kinds" for x by (cases x) (simp_all add: sync_remote_kinds_def)
  show "distinct (map remote_name sync_remote_kinds)" by (simp add: sync_remote_kinds_def)
qed

datatype sync_s3_addressing = PathAddressing | SuffixAddressing

fun addressing_name :: "sync_s3_addressing \<Rightarrow> string" where
  "addressing_name PathAddressing = ''path''"
| "addressing_name SuffixAddressing = ''suffix''"

definition syncS3Addressings :: "sync_s3_addressing list" where
  "syncS3Addressings = [PathAddressing, SuffixAddressing]"

interpretation sync_addressing_enum: string_enum syncS3Addressings addressing_name
proof
  show "x \<in> set syncS3Addressings" for x by (cases x) (simp_all add: syncS3Addressings_def)
  show "distinct (map addressing_name syncS3Addressings)" by (simp add: syncS3Addressings_def)
qed

definition defaultSyncFolder :: jstr where "defaultSyncFolder = js ''astrlink''"
definition minSyncIntervalMinutes :: int where "minSyncIntervalMinutes = 5"
definition minSyncDebounceSeconds :: int where "minSyncDebounceSeconds = 5"
definition maxSyncDebounceSeconds :: int where "maxSyncDebounceSeconds = 3600"
definition maxSyncDeviceNameLength :: nat where "maxSyncDeviceNameLength = 40"

record sync_trigger_settings =
  syt_mode :: sync_trigger_mode
  syt_interval_minutes :: int
  syt_cron :: jstr
  syt_debounce_seconds :: int

record sync_scope =
  sys_services :: bool
  sys_credentials :: bool
  sys_policies :: bool
  sys_pricing :: bool
  sys_tokens :: bool

record sync_remote =
  syr_kind :: sync_remote_kind
  syr_endpoint :: jstr
  syr_path :: jstr
  syr_region :: jstr
  syr_username :: jstr
  syr_password :: jstr
  syr_access_key :: jstr
  syr_secret_key :: jstr
  syr_addressing :: sync_s3_addressing

record sync_config =
  syc_enabled :: bool
  syc_device_name :: jstr
  syc_force_push :: bool
  syc_trigger :: sync_trigger_settings
  syc_scope :: sync_scope
  syc_remote :: sync_remote
  syc_remote_password_set :: bool
  syc_remote_secret_key_set :: bool

record sync_conflict_notice =
  sxn_kind :: jstr
  sxn_name :: jstr
  sxn_resolution :: jstr
  sxn_at :: jstr

record sync_status =
  sst_enabled :: bool
  sst_passphrase_set :: bool
  sst_remote_configured :: bool
  sst_configured :: bool
  sst_running :: bool
  sst_device_id :: jstr
  sst_device_name :: jstr
  sst_host_name :: jstr
  sst_pending_changes :: int
  sst_first_sync_pending :: bool
  sst_force_push_armed :: bool
  sst_last_synced_at :: "jstr option"
  sst_next_run_at :: "jstr option"
  sst_last_error :: "jstr option"
  sst_conflicts :: "sync_conflict_notice list"

definition defaultSyncConfig :: sync_config where
  "defaultSyncConfig =
     \<lparr>syc_enabled = False, syc_device_name = [], syc_force_push = False,
      syc_trigger = \<lparr>syt_mode = IntervalTrigger, syt_interval_minutes = 60, syt_cron = [], syt_debounce_seconds = 30\<rparr>,
      syc_scope = \<lparr>sys_services = True, sys_credentials = True, sys_policies = True, sys_pricing = True, sys_tokens = True\<rparr>,
      syc_remote = \<lparr>syr_kind = NoRemote, syr_endpoint = [], syr_path = defaultSyncFolder, syr_region = [], syr_username = [],
        syr_password = [], syr_access_key = [], syr_secret_key = [], syr_addressing = PathAddressing\<rparr>,
      syc_remote_password_set = False, syc_remote_secret_key_set = False\<rparr>"

section \<open>Readers\<close>

definition sync_error :: "string \<Rightarrow> jstr \<Rightarrow> js_error" where
  "sync_error path why = Error (js path @ js '': '' @ why)"

text \<open>\<open>value ?? fallback\<close>.\<close>

definition or_given :: "json \<Rightarrow> json \<Rightarrow> json" where
  "or_given v d = (if v \<in> {JUndef, JNull} then d else v)"

definition sync_object :: "json \<Rightarrow> string \<Rightarrow> js_error + jobj" where
  "sync_object value path = orThrow (sync_error path (js ''expected an object'')) (jobject value)"

definition sync_text :: "json \<Rightarrow> string \<Rightarrow> js_error + jstr" where
  "sync_text value path = orThrow (sync_error path (js ''expected a string'')) (jstring value)"

definition sync_flag :: "json \<Rightarrow> string \<Rightarrow> js_error + bool" where
  "sync_flag value path = orThrow (sync_error path (js ''expected a boolean'')) (jbool value)"

definition range_error :: "string \<Rightarrow> nat \<Rightarrow> nat \<Rightarrow> js_error" where
  "range_error path lo hi = sync_error path (js ''expected an integer from '' @ dec lo @ js '' through '' @ dec hi)"

definition sync_integer :: "json \<Rightarrow> string \<Rightarrow> nat \<Rightarrow> nat \<Rightarrow> js_error + int" where
  "sync_integer value path lo hi =
     (case safe_int value of
        Some n \<Rightarrow> if n < int lo \<or> int hi < n then Inl (range_error path lo hi) else Inr n
      | None \<Rightarrow> Inl (range_error path lo hi))"

definition sync_timestamp :: "date_parser \<Rightarrow> json \<Rightarrow> string \<Rightarrow> js_error + jstr" where
  "sync_timestamp parse value path =
     bindE (sync_text value path) (\<lambda>parsed.
     bindE (throwIf (parse parsed = None) (sync_error path (js ''expected a timestamp''))) (\<lambda>_.
     Inr parsed))"

section \<open>The settings\<close>

definition maxIntervalMinutes :: nat where "maxIntervalMinutes = 60 * 24 * 30"

definition parse_trigger :: "jobj \<Rightarrow> sync_trigger_mode \<Rightarrow> js_error + sync_trigger_settings" where
  "parse_trigger trigger mode =
     bindE (sync_integer (or_given (field trigger ''interval_minutes'') (jint 0)) ''sync_config.trigger.interval_minutes''
              0 maxIntervalMinutes) (\<lambda>interval.
     bindE (sync_text (or_given (field trigger ''cron'') (js_str '''')) ''sync_config.trigger.cron'') (\<lambda>cron.
     bindE (sync_integer (or_given (field trigger ''debounce_seconds'') (jint 0)) ''sync_config.trigger.debounce_seconds''
              0 (nat maxSyncDebounceSeconds)) (\<lambda>debounce.
     Inr \<lparr>syt_mode = mode, syt_interval_minutes = interval, syt_cron = cron, syt_debounce_seconds = debounce\<rparr>)))"

definition parse_scope :: "jobj \<Rightarrow> js_error + sync_scope" where
  "parse_scope scope =
     bindE (sync_flag (field scope ''services'') ''sync_config.scope.services'') (\<lambda>services.
     bindE (sync_flag (field scope ''credentials'') ''sync_config.scope.credentials'') (\<lambda>credentials.
     bindE (sync_flag (field scope ''policies'') ''sync_config.scope.policies'') (\<lambda>policies.
     bindE (sync_flag (field scope ''pricing'') ''sync_config.scope.pricing'') (\<lambda>pricing.
     bindE (sync_flag (or_given (field scope ''tokens'') (JBool False)) ''sync_config.scope.tokens'') (\<lambda>tokens.
     Inr \<lparr>sys_services = services, sys_credentials = credentials, sys_policies = policies, sys_pricing = pricing,
          sys_tokens = tokens\<rparr>)))))"

definition remote_text :: "jobj \<Rightarrow> string \<Rightarrow> js_error + jstr" where
  "remote_text remote key = sync_text (or_given (field remote key) (js_str '''')) (''sync_config.remote.'' @ key)"

definition parse_remote :: "jobj \<Rightarrow> sync_remote_kind \<Rightarrow> sync_s3_addressing \<Rightarrow> js_error + sync_remote" where
  "parse_remote remote kind addressing =
     bindE (remote_text remote ''endpoint'') (\<lambda>endpoint.
     bindE (remote_text remote ''path'') (\<lambda>path.
     bindE (remote_text remote ''region'') (\<lambda>region.
     bindE (remote_text remote ''username'') (\<lambda>username.
     bindE (remote_text remote ''password'') (\<lambda>password.
     bindE (remote_text remote ''access_key'') (\<lambda>access_key.
     bindE (remote_text remote ''secret_key'') (\<lambda>secret_key.
     Inr \<lparr>syr_kind = kind, syr_endpoint = endpoint, syr_path = path, syr_region = region, syr_username = username,
          syr_password = password, syr_access_key = access_key, syr_secret_key = secret_key, syr_addressing = addressing\<rparr>)))))))"

definition parseSyncConfig :: "json \<Rightarrow> js_error + sync_config" where
  "parseSyncConfig value =
     bindE (sync_object value ''sync_config'') (\<lambda>config.
     bindE (sync_object (field config ''trigger'') ''sync_config.trigger'') (\<lambda>trigger.
     bindE (sync_object (field config ''scope'') ''sync_config.scope'') (\<lambda>scope.
     bindE (sync_object (field config ''remote'') ''sync_config.remote'') (\<lambda>remote.
     bindE (sync_text (field trigger ''mode'') ''sync_config.trigger.mode'') (\<lambda>mode_text.
     bindE (orThrow (sync_error ''sync_config.trigger.mode'' (js ''unknown trigger''))
              (enum_of syncTriggerModes trigger_name (JStr mode_text))) (\<lambda>mode.
     bindE (sync_text (field remote ''kind'') ''sync_config.remote.kind'') (\<lambda>kind_text.
     bindE (orThrow (sync_error ''sync_config.remote.kind'' (js ''unknown remote''))
              (enum_of sync_remote_kinds remote_name (JStr kind_text))) (\<lambda>kind.
     bindE (sync_text (or_given (field remote ''addressing'') (js_str ''path'')) ''sync_config.remote.addressing'') (\<lambda>addressing_text.
     bindE (orThrow (sync_error ''sync_config.remote.addressing'' (js ''unknown addressing''))
              (enum_of syncS3Addressings addressing_name (JStr addressing_text))) (\<lambda>addressing.
     bindE (sync_flag (field config ''enabled'') ''sync_config.enabled'') (\<lambda>enabled.
     bindE (sync_text (or_given (field config ''device_name'') (js_str '''')) ''sync_config.device_name'') (\<lambda>device.
     bindE (sync_flag (or_given (field config ''force_push'') (JBool False)) ''sync_config.force_push'') (\<lambda>force.
     bindE (parse_trigger trigger mode) (\<lambda>parsed_trigger.
     bindE (parse_scope scope) (\<lambda>parsed_scope.
     bindE (parse_remote remote kind addressing) (\<lambda>parsed_remote.
     bindE (sync_flag (field config ''remote_password_set'') ''sync_config.remote_password_set'') (\<lambda>password_set.
     bindE (sync_flag (field config ''remote_secret_key_set'') ''sync_config.remote_secret_key_set'') (\<lambda>secret_set.
     Inr \<lparr>syc_enabled = enabled, syc_device_name = device, syc_force_push = force, syc_trigger = parsed_trigger,
          syc_scope = parsed_scope, syc_remote = parsed_remote, syc_remote_password_set = password_set,
          syc_remote_secret_key_set = secret_set\<rparr>))))))))))))))))))"

text \<open>The body a save sends, without the two read-only flags.\<close>

definition trigger_payload :: "sync_trigger_settings \<Rightarrow> json" where
  "trigger_payload t = JObj [(js ''mode'', js_str (trigger_name (syt_mode t))),
     (js ''interval_minutes'', jint (syt_interval_minutes t)), (js ''cron'', JStr (syt_cron t)),
     (js ''debounce_seconds'', jint (syt_debounce_seconds t))]"

definition scope_payload :: "sync_scope \<Rightarrow> json" where
  "scope_payload s = JObj [(js ''services'', JBool (sys_services s)), (js ''credentials'', JBool (sys_credentials s)),
     (js ''policies'', JBool (sys_policies s)), (js ''pricing'', JBool (sys_pricing s)), (js ''tokens'', JBool (sys_tokens s))]"

definition remote_payload :: "sync_remote \<Rightarrow> json" where
  "remote_payload r = JObj [(js ''kind'', js_str (remote_name (syr_kind r))), (js ''endpoint'', JStr (syr_endpoint r)),
     (js ''path'', JStr (syr_path r)), (js ''region'', JStr (syr_region r)), (js ''username'', JStr (syr_username r)),
     (js ''password'', JStr (syr_password r)), (js ''access_key'', JStr (syr_access_key r)),
     (js ''secret_key'', JStr (syr_secret_key r)), (js ''addressing'', js_str (addressing_name (syr_addressing r)))]"

definition syncConfigPayload :: "sync_config \<Rightarrow> json" where
  "syncConfigPayload c = JObj [(js ''enabled'', JBool (syc_enabled c)), (js ''device_name'', JStr (syc_device_name c)),
     (js ''force_push'', JBool (syc_force_push c)), (js ''trigger'', trigger_payload (syc_trigger c)),
     (js ''scope'', scope_payload (syc_scope c)), (js ''remote'', remote_payload (syc_remote c))]"

datatype sync_config_issue =
    IntervalIssue | CronIssue | DebounceIssue | WebdavEndpointIssue | S3EndpointIssue | RemoteKindIssue | DeviceNameIssue

definition syncConfigIssue :: "sync_config \<Rightarrow> sync_config_issue option" where
  "syncConfigIssue c =
     (let trigger = syc_trigger c; remote = syc_remote c; debounce = syt_debounce_seconds trigger in
      if syt_mode trigger = IntervalTrigger \<and> syt_interval_minutes trigger < minSyncIntervalMinutes then Some IntervalIssue
      else if syt_mode trigger = CronTrigger \<and> trim (syt_cron trigger) = [] then Some CronIssue
      else if debounce \<noteq> 0 \<and> (debounce < minSyncDebounceSeconds \<or> debounce > maxSyncDebounceSeconds)
      then Some DebounceIssue
      else if syr_kind remote = WebDavRemote \<and> trim (syr_endpoint remote) = [] then Some WebdavEndpointIssue
      else if syr_kind remote = S3Remote \<and> (trim (syr_endpoint remote) = [] \<or> trim (syr_path remote) = [])
      then Some S3EndpointIssue
      else if syc_enabled c \<and> syr_kind remote = NoRemote then Some RemoteKindIssue
      else if length (code_points (trim (syc_device_name c))) > maxSyncDeviceNameLength then Some DeviceNameIssue
      else None)"

section \<open>The status\<close>

definition parse_notice :: "date_parser \<Rightarrow> nat \<Rightarrow> json \<Rightarrow> js_error + sync_conflict_notice" where
  "parse_notice parse i item =
     (let path = ''sync_status.conflicts['' @ map char_of (dec i) @ '']'' in
     bindE (sync_object item path) (\<lambda>notice.
     bindE (sync_text (field notice ''kind'') (path @ ''.kind'')) (\<lambda>kind.
     bindE (sync_text (field notice ''name'') (path @ ''.name'')) (\<lambda>name.
     bindE (sync_text (field notice ''resolution'') (path @ ''.resolution'')) (\<lambda>resolution.
     bindE (sync_timestamp parse (field notice ''at'') (path @ ''.at'')) (\<lambda>moment.
     Inr \<lparr>sxn_kind = kind, sxn_name = name, sxn_resolution = resolution, sxn_at = moment\<rparr>))))))"

definition optional_time :: "date_parser \<Rightarrow> json \<Rightarrow> string \<Rightarrow> js_error + jstr option" where
  "optional_time parse value path =
     (if value \<in> {JUndef, JNull} then Inr None
      else bindE (sync_timestamp parse value path) (\<lambda>s. Inr (Some s)))"

definition stated_error :: "json \<Rightarrow> jstr option" where
  "stated_error v = (case jstring v of Some s \<Rightarrow> if s = [] then None else Some s | None \<Rightarrow> None)"

definition parseSyncStatus :: "date_parser \<Rightarrow> json \<Rightarrow> js_error + sync_status" where
  "parseSyncStatus parse value =
     bindE (sync_object value ''sync_status'') (\<lambda>status.
     bindE (orThrow (sync_error ''sync_status.conflicts'' (js ''expected a list''))
              (jarray (or_given (field status ''conflicts'') (JArr [])))) (\<lambda>items.
     bindE (sync_flag (field status ''enabled'') ''sync_status.enabled'') (\<lambda>enabled.
     bindE (sync_flag (field status ''passphrase_set'') ''sync_status.passphrase_set'') (\<lambda>passphrase.
     bindE (sync_flag (field status ''remote_configured'') ''sync_status.remote_configured'') (\<lambda>remote.
     bindE (sync_flag (field status ''configured'') ''sync_status.configured'') (\<lambda>configured.
     bindE (sync_flag (field status ''running'') ''sync_status.running'') (\<lambda>running.
     bindE (sync_text (or_given (field status ''device_id'') (js_str '''')) ''sync_status.device_id'') (\<lambda>device_id.
     bindE (sync_text (or_given (field status ''device_name'') (js_str '''')) ''sync_status.device_name'') (\<lambda>device_name.
     bindE (sync_text (or_given (field status ''host_name'') (js_str '''')) ''sync_status.host_name'') (\<lambda>host_name.
     bindE (sync_integer (or_given (field status ''pending_changes'') (jint 0)) ''sync_status.pending_changes'' 0
              (nat max_safe)) (\<lambda>pending.
     bindE (sync_flag (field status ''first_sync_pending'') ''sync_status.first_sync_pending'') (\<lambda>first_pending.
     bindE (sync_flag (field status ''force_push_armed'') ''sync_status.force_push_armed'') (\<lambda>armed.
     bindE (optional_time parse (field status ''last_synced_at'') ''sync_status.last_synced_at'') (\<lambda>synced.
     bindE (optional_time parse (field status ''next_run_at'') ''sync_status.next_run_at'') (\<lambda>next_run.
     bindE (mapE (parse_notice parse) 0 items) (\<lambda>conflicts.
     Inr \<lparr>sst_enabled = enabled, sst_passphrase_set = passphrase, sst_remote_configured = remote,
          sst_configured = configured, sst_running = running, sst_device_id = device_id, sst_device_name = device_name,
          sst_host_name = host_name, sst_pending_changes = pending, sst_first_sync_pending = first_pending,
          sst_force_push_armed = armed, sst_last_synced_at = synced, sst_next_run_at = next_run,
          sst_last_error = stated_error (field status ''last_error''),
          sst_conflicts = conflicts\<rparr>))))))))))))))))"

definition parseSyncPassphraseResult :: "json \<Rightarrow> js_error + bool" where
  "parseSyncPassphraseResult value =
     bindE (sync_object value ''sync_passphrase'') (\<lambda>result.
     sync_flag (field result ''passphrase_set'') ''sync_passphrase'')"

section \<open>Edits of the form\<close>

text \<open>What the form shows of the settings read: a WebDAV remote without a folder is given one.\<close>

definition filledRemote :: "sync_config \<Rightarrow> sync_config" where
  "filledRemote config =
     (if syr_kind (syc_remote config) = WebDavRemote \<and> trim (syr_path (syc_remote config)) = []
      then config\<lparr>syc_remote := (syc_remote config)\<lparr>syr_path := defaultSyncFolder\<rparr>\<rparr>
      else config)"

definition patchRemoteKind :: "sync_remote_kind \<Rightarrow> sync_config \<Rightarrow> sync_config" where
  "patchRemoteKind kind draft =
     (let remote = syc_remote draft;
          path = (if trim (syr_path remote) = [] then if kind = WebDavRemote then defaultSyncFolder else []
                  else syr_path remote) in
      draft\<lparr>syc_remote := remote\<lparr>syr_kind := kind, syr_path := path\<rparr>\<rparr>)"

datatype sync_scope_key = ServicesKey | CredentialsKey | PoliciesKey | PricingKey | TokensKey

definition scopeDependencies :: "sync_scope_key \<Rightarrow> sync_scope_key option" where
  "scopeDependencies key = (if key \<in> {CredentialsKey, PricingKey} then Some ServicesKey else None)"

fun scope_get :: "sync_scope_key \<Rightarrow> sync_scope \<Rightarrow> bool" where
  "scope_get ServicesKey s = sys_services s"
| "scope_get CredentialsKey s = sys_credentials s"
| "scope_get PoliciesKey s = sys_policies s"
| "scope_get PricingKey s = sys_pricing s"
| "scope_get TokensKey s = sys_tokens s"

fun scope_set :: "sync_scope_key \<Rightarrow> bool \<Rightarrow> sync_scope \<Rightarrow> sync_scope" where
  "scope_set ServicesKey b s = s\<lparr>sys_services := b\<rparr>"
| "scope_set CredentialsKey b s = s\<lparr>sys_credentials := b\<rparr>"
| "scope_set PoliciesKey b s = s\<lparr>sys_policies := b\<rparr>"
| "scope_set PricingKey b s = s\<lparr>sys_pricing := b\<rparr>"
| "scope_set TokensKey b s = s\<lparr>sys_tokens := b\<rparr>"

definition patchScope :: "sync_scope_key \<Rightarrow> bool \<Rightarrow> sync_config \<Rightarrow> sync_config" where
  "patchScope key enabled draft =
     (let scope = scope_set key enabled (syc_scope draft);
          scope = (if enabled then scope
            else foldl (\<lambda>s dependent. if scopeDependencies dependent = Some key then scope_set dependent False s else s)
                   scope [CredentialsKey, PricingKey]) in
      draft\<lparr>syc_scope := scope\<rparr>)"

text \<open>A switch whose group is off is locked.\<close>

definition scope_locked :: "sync_scope_key \<Rightarrow> sync_config \<Rightarrow> bool" where
  "scope_locked key draft \<longleftrightarrow>
     (case scopeDependencies key of None \<Rightarrow> False | Some source \<Rightarrow> \<not> scope_get source (syc_scope draft))"

section \<open>The core's side\<close>

text \<open>The tests of \<open>ValidateSyncConfig\<close> that a value the interface can send may fail, in their order.\<close>

definition ValidateSyncConfig :: "sync_config \<Rightarrow> string + unit" where
  "ValidateSyncConfig c =
     (let trigger = syc_trigger c; remote = syc_remote c; debounce = syt_debounce_seconds trigger in
      bindE (case syt_mode trigger of
          IntervalTrigger \<Rightarrow> throwIf (syt_interval_minutes trigger < 5) ''sync interval must be at least 5 minutes''
        | CronTrigger \<Rightarrow> throwIf (syt_cron trigger = []) ''sync cron expression is required''
        | ManualTrigger \<Rightarrow> Inr ()) (\<lambda>_.
      bindE (throwIf (debounce \<noteq> 0 \<and> (debounce < 5 \<or> debounce > 3600))
        ''sync debounce must be between 5 and 3600 seconds'') (\<lambda>_.
      bindE (case syr_kind remote of
          WebDavRemote \<Rightarrow>
            bindE (throwIf (syr_endpoint remote = []) ''a WebDAV remote needs an endpoint'') (\<lambda>_.
            throwIf (list_all go_space (syr_path remote)) ''a WebDAV remote needs a folder'')
        | S3Remote \<Rightarrow>
            throwIf (syr_endpoint remote = [] \<or> syr_path remote = []) ''an S3 remote needs an endpoint and a bucket''
        | NoRemote \<Rightarrow> throwIf (syc_enabled c) ''sync is enabled without a remote'') (\<lambda>_.
      throwIf (length (code_points (syc_device_name c)) > 40) ''sync device name must be at most 40 characters''))))"

text \<open>
  The reply: a field marked \<open>omitempty\<close> is left out when blank, zero or false, and the two secrets
  are replaced by whether they are stored. The two flags of the record are not part of the core's
  configuration.
\<close>

definition omit_blank :: "string \<Rightarrow> jstr \<Rightarrow> jobj" where
  "omit_blank k s = opt_field k JStr (if s = [] then None else Some s)"

definition omit_zero :: "string \<Rightarrow> int \<Rightarrow> jobj" where
  "omit_zero k n = opt_field k jint (if n = 0 then None else Some n)"

definition core_trigger_json :: "sync_trigger_settings \<Rightarrow> json" where
  "core_trigger_json t = JObj ([(js ''mode'', js_str (trigger_name (syt_mode t)))]
     @ omit_zero ''interval_minutes'' (syt_interval_minutes t) @ omit_blank ''cron'' (syt_cron t)
     @ omit_zero ''debounce_seconds'' (syt_debounce_seconds t))"

definition core_remote_json :: "sync_remote \<Rightarrow> json" where
  "core_remote_json r = JObj ([(js ''kind'', js_str (remote_name (syr_kind r)))] @ omit_blank ''endpoint'' (syr_endpoint r)
     @ omit_blank ''path'' (syr_path r) @ omit_blank ''region'' (syr_region r) @ omit_blank ''username'' (syr_username r)
     @ omit_blank ''password'' (syr_password r) @ omit_blank ''access_key'' (syr_access_key r)
     @ omit_blank ''secret_key'' (syr_secret_key r) @ omit_blank ''addressing'' (js (addressing_name (syr_addressing r))))"

definition newSyncConfigResponse :: "sync_config \<Rightarrow> json" where
  "newSyncConfigResponse c =
     (let remote = syc_remote c in
      JObj ([(js ''enabled'', JBool (syc_enabled c)), (js ''trigger'', core_trigger_json (syc_trigger c)),
             (js ''scope'', scope_payload (syc_scope c)),
             (js ''remote'', core_remote_json (remote\<lparr>syr_password := [], syr_secret_key := []\<rparr>))]
        @ omit_blank ''device_name'' (syc_device_name c)
        @ opt_field ''force_push'' JBool (if syc_force_push c then Some True else None)
        @ [(js ''remote_password_set'', JBool (syr_password remote \<noteq> [])),
           (js ''remote_secret_key_set'', JBool (syr_secret_key remote \<noteq> []))]))"

text \<open>What the reply stands for.\<close>

definition masked :: "sync_config \<Rightarrow> sync_config" where
  "masked c = c\<lparr>syc_remote := (syc_remote c)\<lparr>syr_password := [], syr_secret_key := []\<rparr>,
     syc_remote_password_set := syr_password (syc_remote c) \<noteq> [],
     syc_remote_secret_key_set := syr_secret_key (syc_remote c) \<noteq> []\<rparr>"

text \<open>A save keeps the stored secrets where the input leaves them blank.\<close>

definition keep_secrets :: "sync_config \<Rightarrow> sync_config \<Rightarrow> sync_config" where
  "keep_secrets stored config =
     (let r = syc_remote config; kept = syc_remote stored in
      config\<lparr>syc_remote := r\<lparr>syr_password := (if syr_password r = [] then syr_password kept else syr_password r),
        syr_secret_key := (if syr_secret_key r = [] then syr_secret_key kept else syr_secret_key r)\<rparr>\<rparr>)"

section \<open>Reading what the core sends\<close>

definition numbers_readable :: "sync_trigger_settings \<Rightarrow> bool" where
  "numbers_readable t \<longleftrightarrow> 0 \<le> syt_interval_minutes t \<and> syt_interval_minutes t \<le> 43200
     \<and> 0 \<le> syt_debounce_seconds t \<and> syt_debounce_seconds t \<le> 3600"

lemma or_given_scalar [simp]:
  "or_given (JStr s) d = JStr s" "or_given (JBool b) d = JBool b" "or_given (jint n) d = jint n"
  "or_given JUndef d = d" "or_given (js_str x) d = js_str x"
  by (simp_all add: or_given_def)

lemma or_given_opt [simp]:
  "or_given (opt_val JStr (if s = [] then None else Some s)) (js_str '''') = JStr s"
  "or_given (opt_val jint (if n = 0 then None else Some n)) (jint 0) = jint n"
  "or_given (opt_val JBool (if b then Some True else None)) (JBool False) = JBool b"
  by (auto simp: opt_val_def js_str_def js_def)

lemma addressing_never_blank [simp]: "addressing_name a \<noteq> []"
  by (cases a) simp_all

lemma sync_readers [simp]:
  "sync_object (JObj o') path = Inr o'"
  "sync_text (JStr s) path = Inr s"
  "sync_text (js_str x) path = Inr (js x)"
  "sync_flag (JBool b) path = Inr b"
  by (simp_all add: sync_object_def sync_text_def sync_flag_def js_str_def)

lemma sync_integer_jint:
  "sync_integer (jint n) path lo hi =
     (if int lo \<le> n \<and> n \<le> int hi \<and> \<bar>n\<bar> \<le> max_safe then Inr n
      else Inl (range_error path lo hi))"
  by (cases "\<bar>n\<bar> \<le> max_safe") (auto simp: sync_integer_def safe_int_def jint_def)

lemmas sync_names [simp] = sync_trigger_enum.enum_of_name [unfolded js_str_def]
  sync_remote_enum.enum_of_name [unfolded js_str_def] sync_addressing_enum.enum_of_name [unfolded js_str_def]

lemma scope_read:
  "scope_payload s = JObj o' \<Longrightarrow> parse_scope o' = Inr s"
  by (auto simp: scope_payload_def parse_scope_def)

lemma remote_read:
  "core_remote_json r = JObj o' \<Longrightarrow> parse_remote o' kind a = Inr (r\<lparr>syr_kind := kind, syr_addressing := a\<rparr>)"
  by (auto simp: core_remote_json_def omit_blank_def parse_remote_def remote_text_def)

lemma trigger_read:
  "core_trigger_json t = JObj o' \<Longrightarrow> parse_trigger o' mode =
     (if 0 \<le> syt_interval_minutes t \<and> syt_interval_minutes t \<le> 43200
      then if 0 \<le> syt_debounce_seconds t \<and> syt_debounce_seconds t \<le> 3600 then Inr (t\<lparr>syt_mode := mode\<rparr>)
           else Inl (range_error ''sync_config.trigger.debounce_seconds'' 0 3600)
      else Inl (range_error ''sync_config.trigger.interval_minutes'' 0 43200))"
  by (auto simp: core_trigger_json_def omit_blank_def omit_zero_def parse_trigger_def sync_integer_jint maxIntervalMinutes_def
      maxSyncDebounceSeconds_def max_safe_def)

text \<open>A reply is read up to its trigger; everything else in it is what the core holds.\<close>

lemma reply_read:
  "parseSyncConfig (newSyncConfigResponse c) =
     (let t = syc_trigger c in
      if 0 \<le> syt_interval_minutes t \<and> syt_interval_minutes t \<le> 43200
      then if 0 \<le> syt_debounce_seconds t \<and> syt_debounce_seconds t \<le> 3600 then Inr (masked c)
           else Inl (range_error ''sync_config.trigger.debounce_seconds'' 0 3600)
      else Inl (range_error ''sync_config.trigger.interval_minutes'' 0 43200))"
proof -
  obtain ot where t: "core_trigger_json (syc_trigger c) = JObj ot" by (simp add: core_trigger_json_def)
  obtain os where s: "scope_payload (syc_scope c) = JObj os" by (simp add: scope_payload_def)
  define r where "r = (syc_remote c)\<lparr>syr_password := [], syr_secret_key := []\<rparr>"
  obtain orr where r: "core_remote_json r = JObj orr" by (simp add: core_remote_json_def)
  have mode: "field ot ''mode'' = js_str (trigger_name (syt_mode (syc_trigger c)))"
    using t by (auto simp: core_trigger_json_def)
  have kind: "field orr ''kind'' = js_str (remote_name (syr_kind r))"
    using r by (auto simp: core_remote_json_def)
  have addressing: "field orr ''addressing'' = js_str (addressing_name (syr_addressing r))"
    using r by (auto simp: core_remote_json_def omit_blank_def js_str_def)
  have m: "masked c = c\<lparr>syc_remote := r, syc_remote_password_set := syr_password (syc_remote c) \<noteq> [],
      syc_remote_secret_key_set := syr_secret_key (syc_remote c) \<noteq> []\<rparr>"
    by (simp add: masked_def r_def)
  show ?thesis
    using r_def [symmetric]
    by (simp add: parseSyncConfig_def newSyncConfigResponse_def Let_def t s r mode kind addressing omit_blank_def
        trigger_read [OF t] scope_read [OF s] remote_read [OF r] m)
qed

section \<open>The body of a save\<close>

text \<open>The core's decoder: a field it does not know refuses the whole body.\<close>

definition core_text :: "jobj \<Rightarrow> string \<Rightarrow> jstr option" where
  "core_text o' k = jstring (field o' k)"

definition decode_trigger :: "json \<Rightarrow> sync_trigger_settings option" where
  "decode_trigger v =
     Option.bind (jobject v) (\<lambda>t.
     if \<not> keys_in t [''mode'', ''interval_minutes'', ''cron'', ''debounce_seconds''] then None
     else Option.bind (enum_of syncTriggerModes trigger_name (field t ''mode'')) (\<lambda>mode.
     Option.bind (any_int (field t ''interval_minutes'')) (\<lambda>interval.
     Option.bind (core_text t ''cron'') (\<lambda>cron.
     Option.bind (any_int (field t ''debounce_seconds'')) (\<lambda>debounce.
     Some \<lparr>syt_mode = mode, syt_interval_minutes = interval, syt_cron = cron, syt_debounce_seconds = debounce\<rparr>)))))"

definition decode_scope :: "json \<Rightarrow> sync_scope option" where
  "decode_scope v =
     Option.bind (jobject v) (\<lambda>s.
     if \<not> keys_in s [''services'', ''credentials'', ''policies'', ''pricing'', ''tokens''] then None
     else Option.bind (jbool (field s ''services'')) (\<lambda>services.
     Option.bind (jbool (field s ''credentials'')) (\<lambda>credentials.
     Option.bind (jbool (field s ''policies'')) (\<lambda>policies.
     Option.bind (jbool (field s ''pricing'')) (\<lambda>pricing.
     Option.bind (jbool (field s ''tokens'')) (\<lambda>tokens.
     Some \<lparr>sys_services = services, sys_credentials = credentials, sys_policies = policies, sys_pricing = pricing,
           sys_tokens = tokens\<rparr>))))))"

definition decode_remote :: "json \<Rightarrow> sync_remote option" where
  "decode_remote v =
     Option.bind (jobject v) (\<lambda>r.
     if \<not> keys_in r [''kind'', ''endpoint'', ''path'', ''region'', ''username'', ''password'', ''access_key'', ''secret_key'', ''addressing'']
     then None
     else Option.bind (enum_of sync_remote_kinds remote_name (field r ''kind'')) (\<lambda>kind.
     Option.bind (core_text r ''endpoint'') (\<lambda>endpoint.
     Option.bind (core_text r ''path'') (\<lambda>path.
     Option.bind (core_text r ''region'') (\<lambda>region.
     Option.bind (core_text r ''username'') (\<lambda>username.
     Option.bind (core_text r ''password'') (\<lambda>password.
     Option.bind (core_text r ''access_key'') (\<lambda>access_key.
     Option.bind (core_text r ''secret_key'') (\<lambda>secret_key.
     Option.bind (enum_of syncS3Addressings addressing_name (field r ''addressing'')) (\<lambda>addressing.
     Some \<lparr>syr_kind = kind, syr_endpoint = endpoint, syr_path = path, syr_region = region, syr_username = username,
           syr_password = password, syr_access_key = access_key, syr_secret_key = secret_key, syr_addressing = addressing\<rparr>))))))))))"

definition decode_sync_config :: "json \<Rightarrow> sync_config option" where
  "decode_sync_config v =
     Option.bind (jobject v) (\<lambda>c.
     if \<not> keys_in c [''enabled'', ''trigger'', ''scope'', ''remote'', ''device_name'', ''force_push''] then None
     else Option.bind (jbool (field c ''enabled'')) (\<lambda>enabled.
     Option.bind (core_text c ''device_name'') (\<lambda>device.
     Option.bind (jbool (field c ''force_push'')) (\<lambda>force.
     Option.bind (decode_trigger (field c ''trigger'')) (\<lambda>trigger.
     Option.bind (decode_scope (field c ''scope'')) (\<lambda>scope.
     Option.bind (decode_remote (field c ''remote'')) (\<lambda>remote.
     Some \<lparr>syc_enabled = enabled, syc_device_name = device, syc_force_push = force, syc_trigger = trigger,
           syc_scope = scope, syc_remote = remote, syc_remote_password_set = False,
           syc_remote_secret_key_set = False\<rparr>)))))))"

text \<open>
  \<open>Engine.Configure\<close>: what it refuses, the settings it stores, whether it drops the merge base and
  whether it brings a run forward. Both addressings of a bucket the interface can send are spelled out, so
  there is no blank one to replace. The database is taken to answer.
\<close>

record configured =
  cfd_stored :: sync_config
  cfd_baseline_reset :: bool
  cfd_run_requested :: bool

definition schedulesRun :: "sync_config \<Rightarrow> sync_config \<Rightarrow> bool" where
  "schedulesRun before after \<longleftrightarrow>
     (if \<not> syc_enabled after \<or> syr_kind (syc_remote after) = NoRemote then False
      else \<not> syc_enabled before \<or> syc_remote before \<noteq> syc_remote after \<or> syc_scope before \<noteq> syc_scope after)"

definition Configure :: "sync_config \<Rightarrow> sync_config \<Rightarrow> configured outcome" where
  "Configure before config =
     bind_outcome (case ValidateSyncConfig config of Inl _ \<Rightarrow> Refused | Inr _ \<Rightarrow> Returned ()) (\<lambda>_.
     bind_outcome (if syt_mode (syc_trigger config) = CronTrigger
                   then bind_outcome (parseCron (syt_cron (syc_trigger config))) (\<lambda>_. Returned ()) else Returned ()) (\<lambda>_.
     let config = (if \<not> syc_enabled config \<or> syr_kind (syc_remote config) = NoRemote
           then config\<lparr>syc_force_push := False\<rparr> else config) in
     Returned \<lparr>cfd_stored = config, cfd_baseline_reset = (syc_remote before \<noteq> syc_remote config),
       cfd_run_requested = schedulesRun before config\<rparr>))"

text \<open>The save: the body decoded, the secrets it leaves out kept, and the rest left to the engine.\<close>

definition save_config :: "sync_config \<Rightarrow> json \<Rightarrow> configured outcome" where
  "save_config stored body =
     (case decode_sync_config body of None \<Rightarrow> Refused | Some config \<Rightarrow> Configure stored (keep_secrets stored config))"

lemmas decode_enums [simp] = sync_trigger_enum.enum_of_name sync_remote_enum.enum_of_name sync_addressing_enum.enum_of_name

lemma decode_parts [simp]:
  "decode_trigger (trigger_payload t) = Some t"
  "decode_scope (scope_payload s) = Some s"
  "decode_remote (remote_payload r) = Some r"
  by (simp_all add: decode_trigger_def trigger_payload_def decode_scope_def scope_payload_def decode_remote_def
      remote_payload_def core_text_def)

lemma decode_payload:
  "decode_sync_config (syncConfigPayload c) = Some (c\<lparr>syc_remote_password_set := False, syc_remote_secret_key_set := False\<rparr>)"
  by (simp add: decode_sync_config_def syncConfigPayload_def core_text_def)

section \<open>Properties\<close>

lemma trim_Nil: "trim s = [] \<longleftrightarrow> list_all js_space s"
proof -
  have "list_all P s" if "list_all P (dropWhile P s)" for P :: "nat \<Rightarrow> bool"
    using that by (induction s) (auto split: if_splits)
  then show ?thesis
    by (auto simp: trim_def list_all_iff dropWhile_eq_Nil_conv dest: set_dropWhileD)
qed

lemma trim_length: "length (code_points (trim s)) \<le> length s"
proof -
  have "length (trim s) \<le> length s"
    unfolding trim_def length_rev using length_dropWhile_le le_trans length_rev by metis
  then show ?thesis using length_code_points le_trans by blast
qed

text \<open>
  Settings the core may hold: \<open>Engine.Configure\<close> takes them as they are. The two flags of the record are
  the reply's, not the core's.
\<close>

definition storable :: "sync_config \<Rightarrow> bool" where
  "storable c \<longleftrightarrow> ValidateSyncConfig c = Inr ()
     \<and> (syt_mode (syc_trigger c) = CronTrigger \<longrightarrow> (\<exists>e. parseCron (syt_cron (syc_trigger c)) = Returned e))
     \<and> (syc_force_push c \<longrightarrow> syc_enabled c \<and> syr_kind (syc_remote c) \<noteq> NoRemote)
     \<and> \<not> syc_remote_password_set c \<and> \<not> syc_remote_secret_key_set c"


lemma force_push_off: "\<not> syc_force_push c \<Longrightarrow> c\<lparr>syc_force_push := False\<rparr> = c"
  by (cases c) simp

lemma flags_off:
  "\<not> syc_remote_password_set c \<Longrightarrow> \<not> syc_remote_secret_key_set c \<Longrightarrow>
     c\<lparr>syc_remote_password_set := False, syc_remote_secret_key_set := False\<rparr> = c"
  by (cases c) simp

lemma Configure_storable:
  assumes "storable c"
  shows "Configure before c = Returned \<lparr>cfd_stored = c, cfd_baseline_reset = (syc_remote before \<noteq> syc_remote c),
    cfd_run_requested = schedulesRun before c\<rparr>"
  using assms by (cases "syc_force_push c") (auto simp: Configure_def storable_def Let_def force_push_off)

lemma filledRemote_masked: "filledRemote (masked c) = masked (filledRemote c)"
  by (simp add: filledRemote_def masked_def)

lemma masked_payload_kept:
  "\<not> syc_remote_password_set c \<Longrightarrow> \<not> syc_remote_secret_key_set c \<Longrightarrow>
     \<exists>input. decode_sync_config (syncConfigPayload (masked c)) = Some input \<and> keep_secrets c' input =
       c\<lparr>syc_remote := (syc_remote c)\<lparr>syr_password := syr_password (syc_remote c'), syr_secret_key := syr_secret_key (syc_remote c')\<rparr>\<rparr>"
  by (cases c) (simp add: decode_payload masked_def keep_secrets_def Let_def)

lemma filledRemote_secrets [simp]:
  "syr_password (syc_remote (filledRemote c)) = syr_password (syc_remote c)"
  "syr_secret_key (syc_remote (filledRemote c)) = syr_secret_key (syc_remote c)"
  "syc_enabled (filledRemote c) = syc_enabled c" "syc_scope (filledRemote c) = syc_scope c"
  "syr_kind (syc_remote (filledRemote c)) = syr_kind (syc_remote c)"
  by (simp_all add: filledRemote_def)

lemma trim_defaultSyncFolder [simp]: "trim defaultSyncFolder \<noteq> []"
  by (simp add: defaultSyncFolder_def trim_Nil js_def js_space_def)

lemma filledRemote_changes:
  "syc_remote c \<noteq> syc_remote (filledRemote c)
     \<longleftrightarrow> syr_kind (syc_remote c) = WebDavRemote \<and> trim (syr_path (syc_remote c)) = []"
proof -
  have "r \<noteq> r\<lparr>syr_path := defaultSyncFolder\<rparr>" if "trim (syr_path r) = []" for r :: sync_remote
  proof
    assume "r = r\<lparr>syr_path := defaultSyncFolder\<rparr>"
    then have "syr_path r = syr_path (r\<lparr>syr_path := defaultSyncFolder\<rparr>)" by (rule arg_cong)
    with that show False by simp
  qed
  then show ?thesis by (auto simp: filledRemote_def)
qed

text \<open>
  C37: opening the sync settings, with a reply that can be read, and saving what they show. The reply
  never holds a secret, only whether one is stored, and the form shows the stored settings with the folder
  of a WebDAV remote filled in when it is blank. Saved as shown, when the core's checks take it and an
  armed force push has a remote to go to, the core stores exactly that, the secrets included. When no
  folder had to be filled in, nothing in the core changes: the settings are the ones it had, the merge base
  is kept and no run is brought forward. When one had to be, the core takes the remote for another: the
  base is dropped, and a run is brought forward if sync is on.
\<close>

theorem sync_save_unchanged:
  assumes "parseSyncConfig (newSyncConfigResponse c) = Inr read" and "storable (filledRemote c)"
  defines "blank \<equiv> syr_kind (syc_remote c) = WebDavRemote \<and> trim (syr_path (syc_remote c)) = []"
  shows "read = masked c \<and> syr_password (syc_remote read) = [] \<and> syr_secret_key (syc_remote read) = []
    \<and> (syc_remote_password_set read \<longleftrightarrow> syr_password (syc_remote c) \<noteq> [])
    \<and> save_config c (syncConfigPayload (filledRemote read))
        = Returned \<lparr>cfd_stored = (if blank then c\<lparr>syc_remote := (syc_remote c)\<lparr>syr_path := js ''astrlink''\<rparr>\<rparr> else c),
            cfd_baseline_reset = blank, cfd_run_requested = (blank \<and> syc_enabled c)\<rparr>"
proof -
  have read: "read = masked c" using assms(1) by (auto simp: reply_read Let_def split: if_splits)
  have "\<not> syc_remote_password_set (filledRemote c)" "\<not> syc_remote_secret_key_set (filledRemote c)"
    using assms(2) by (simp_all add: storable_def)
  from masked_payload_kept [OF this, of c] obtain input
    where input: "decode_sync_config (syncConfigPayload (filledRemote read)) = Some input" "keep_secrets c input = filledRemote c"
    by (auto simp: read filledRemote_masked)
  have "schedulesRun c (filledRemote c) \<longleftrightarrow> blank \<and> syc_enabled c"
    by (auto simp: schedulesRun_def filledRemote_changes blank_def)
  moreover have "syc_remote c \<noteq> syc_remote (filledRemote c) \<longleftrightarrow> blank"
    by (simp add: filledRemote_changes blank_def)
  moreover have "filledRemote c = (if blank then c\<lparr>syc_remote := (syc_remote c)\<lparr>syr_path := js ''astrlink''\<rparr>\<rparr> else c)"
    by (simp add: filledRemote_def blank_def defaultSyncFolder_def)
  ultimately have "save_config c (syncConfigPayload (filledRemote read))
      = Returned \<lparr>cfd_stored = (if blank then c\<lparr>syc_remote := (syc_remote c)\<lparr>syr_path := js ''astrlink''\<rparr>\<rparr> else c),
            cfd_baseline_reset = blank, cfd_run_requested = (blank \<and> syc_enabled c)\<rparr>"
    using Configure_storable [OF assms(2), of c] by (simp add: save_config_def input)
  then show ?thesis by (simp add: read masked_def)
qed

definition sample_remote :: "jstr \<Rightarrow> sync_config" where
  "sample_remote folder = defaultSyncConfig\<lparr>syc_enabled := True, syc_remote := (syc_remote defaultSyncConfig)
     \<lparr>syr_kind := WebDavRemote, syr_endpoint := js ''https://dav.example'', syr_path := folder, syr_password := js ''secret''\<rparr>\<rparr>"

lemma sample_remote_reply: "parseSyncConfig (newSyncConfigResponse (sample_remote folder)) = Inr (masked (sample_remote folder))"
  by (simp add: reply_read sample_remote_def defaultSyncConfig_def)

lemma sample_remote_storable: "storable (filledRemote (sample_remote folder))" if "folder \<in> {[], js ''backup''}"
  using that
  by (auto simp: storable_def filledRemote_def sample_remote_def defaultSyncConfig_def defaultSyncFolder_def trim_Nil
      ValidateSyncConfig_def Let_def throwIf_def js_def js_space_def go_space_def)

theorem sync_save_unchanged_witness:
  "save_config (sample_remote (js ''backup'')) (syncConfigPayload (filledRemote (masked (sample_remote (js ''backup'')))))
     = Returned \<lparr>cfd_stored = sample_remote (js ''backup''), cfd_baseline_reset = False, cfd_run_requested = False\<rparr>
   \<and> save_config (sample_remote []) (syncConfigPayload (filledRemote (masked (sample_remote []))))
     = Returned \<lparr>cfd_stored = sample_remote (js ''astrlink''), cfd_baseline_reset = True, cfd_run_requested = True\<rparr>"
  using sync_save_unchanged [OF sample_remote_reply sample_remote_storable, of "js ''backup''"]
    sync_save_unchanged [OF sample_remote_reply sample_remote_storable, of "[]"]
  by (simp add: trim_Nil, simp add: sample_remote_def trim_Nil js_def js_space_def)


text \<open>An expression of one word passes the check and is refused by the save.\<close>

lemma word_slips_through:
  "let c = defaultSyncConfig\<lparr>syc_trigger := (syc_trigger defaultSyncConfig)\<lparr>syt_mode := CronTrigger, syt_cron := js ''foo''\<rparr>\<rparr>
   in syncConfigIssue c = None \<and> ValidateSyncConfig c = Inr () \<and> Configure before c = Refused"
  by (simp add: syncConfigIssue_def ValidateSyncConfig_def Configure_def word_refused defaultSyncConfig_def Let_def throwIf_def
      trim_Nil minSyncIntervalMinutes_def minSyncDebounceSeconds_def maxSyncDebounceSeconds_def maxSyncDeviceNameLength_def)
    (simp add: js_def js_space_def trim_def)

lemma blank_folder_slips_through:
  "let c = defaultSyncConfig\<lparr>syc_remote := (syc_remote defaultSyncConfig)
       \<lparr>syr_kind := WebDavRemote, syr_endpoint := js ''https://dav.example'', syr_path := []\<rparr>\<rparr>
   in syncConfigIssue c = None \<and> ValidateSyncConfig c = Inl ''a WebDAV remote needs a folder''"
  by (simp add: syncConfigIssue_def ValidateSyncConfig_def defaultSyncConfig_def Let_def throwIf_def trim_def
      minSyncIntervalMinutes_def minSyncDebounceSeconds_def maxSyncDebounceSeconds_def js_def js_space_def)

text \<open>
  C39: neither check bounds the interval from above, but the reader does. Any interval above 43200
  minutes passes both wherever an hour would, and the reply to the save, like every later read of the
  settings, is then refused.
\<close>

theorem sync_interval_unread:
  assumes "syt_mode (syc_trigger c) = IntervalTrigger" and "43200 < syt_interval_minutes (syc_trigger c)"
  shows "let hourly = c\<lparr>syc_trigger := (syc_trigger c)\<lparr>syt_interval_minutes := 60\<rparr>\<rparr> in
    syncConfigIssue c = syncConfigIssue hourly \<and> ValidateSyncConfig c = ValidateSyncConfig hourly
    \<and> parseSyncConfig (newSyncConfigResponse c)
        = Inl (range_error ''sync_config.trigger.interval_minutes'' 0 43200)"
  using assms
  by (cases "syr_kind (syc_remote c)")
    (simp_all add: reply_read syncConfigIssue_def ValidateSyncConfig_def Let_def minSyncIntervalMinutes_def)

theorem sync_interval_unread_witness:
  "let c = defaultSyncConfig\<lparr>syc_trigger := (syc_trigger defaultSyncConfig)\<lparr>syt_interval_minutes := 50000\<rparr>\<rparr> in
   syncConfigIssue c = None \<and> ValidateSyncConfig c = Inr () \<and> \<not> (\<exists>d. parseSyncConfig (newSyncConfigResponse c) = Inr d)"
proof -
  define c where "c = defaultSyncConfig\<lparr>syc_trigger := (syc_trigger defaultSyncConfig)\<lparr>syt_interval_minutes := 50000\<rparr>\<rparr>"
  have "syt_mode (syc_trigger c) = IntervalTrigger" "43200 < syt_interval_minutes (syc_trigger c)"
    by (simp_all add: c_def defaultSyncConfig_def)
  from sync_interval_unread [OF this]
  have "syncConfigIssue c = syncConfigIssue (c\<lparr>syc_trigger := (syc_trigger c)\<lparr>syt_interval_minutes := 60\<rparr>\<rparr>)"
    "ValidateSyncConfig c = ValidateSyncConfig (c\<lparr>syc_trigger := (syc_trigger c)\<lparr>syt_interval_minutes := 60\<rparr>\<rparr>)"
    "parseSyncConfig (newSyncConfigResponse c) = Inl (range_error ''sync_config.trigger.interval_minutes'' 0 43200)"
    by (simp_all add: Let_def)
  then show ?thesis
    unfolding Let_def c_def [symmetric]
    by (simp add: c_def defaultSyncConfig_def syncConfigIssue_def ValidateSyncConfig_def Let_def throwIf_def trim_def
        minSyncIntervalMinutes_def minSyncDebounceSeconds_def maxSyncDebounceSeconds_def maxSyncDeviceNameLength_def)
qed

section \<open>Edits\<close>

text \<open>No group travels without the services its kinds name.\<close>

definition scope_closed :: "sync_config \<Rightarrow> bool" where
  "scope_closed c \<longleftrightarrow> (\<forall>key source. scopeDependencies key = Some source \<and> scope_get key (syc_scope c)
     \<longrightarrow> scope_get source (syc_scope c))"

definition scope_edit :: "sync_config \<Rightarrow> sync_scope_key \<times> bool \<Rightarrow> sync_config" where
  "scope_edit c edit = (case edit of (key, enabled) \<Rightarrow> if scope_locked key c then c else patchScope key enabled c)"

lemma scope_closed_iff:
  "scope_closed c \<longleftrightarrow> (sys_credentials (syc_scope c) \<longrightarrow> sys_services (syc_scope c))
     \<and> (sys_pricing (syc_scope c) \<longrightarrow> sys_services (syc_scope c))"
  by (auto simp: scope_closed_def scopeDependencies_def split: if_splits)

lemma scope_edit_closed: "scope_closed c \<Longrightarrow> scope_closed (scope_edit c edit)"
proof -
  assume "scope_closed c"
  then show ?thesis
    by (cases edit; cases "fst edit")
      (auto simp: scope_edit_def scope_locked_def patchScope_def scopeDependencies_def scope_closed_iff Let_def)
qed

lemma scope_edits_closed: "scope_closed c \<Longrightarrow> scope_closed (foldl scope_edit c edits)"
  by (induction edits arbitrary: c) (simp_all add: scope_edit_closed)

lemma chosen_remote_has_folder:
  "syr_kind (syc_remote (patchRemoteKind WebDavRemote c)) = WebDavRemote
   \<and> trim (syr_path (syc_remote (patchRemoteKind WebDavRemote c))) \<noteq> []"
  by (simp add: patchRemoteKind_def Let_def defaultSyncFolder_def trim_Nil js_def js_space_def)

section \<open>The status\<close>

lemma sync_integer_iff: "sync_integer v path lo hi = Inr n \<longleftrightarrow> v = jint n \<and> int lo \<le> n \<and> n \<le> int hi \<and> \<bar>n\<bar> \<le> max_safe"
  by (auto simp: sync_integer_def jsval split: option.splits)

lemma sync_timestamp_iff: "sync_timestamp parse v path = Inr s \<longleftrightarrow> v = JStr s \<and> parse s \<noteq> None"
  by (auto simp: sync_timestamp_def sync_text_def res)

definition readable :: "date_parser \<Rightarrow> jstr \<Rightarrow> bool" where
  "readable parse s \<longleftrightarrow> parse s \<noteq> None"

lemma optional_time_read: "optional_time parse v path = Inr (Some s) \<Longrightarrow> readable parse s"
  by (auto simp: optional_time_def res sync_timestamp_iff readable_def split: if_splits)

lemma notices_read: "mapE (parse_notice parse) 0 items = Inr ns \<Longrightarrow> list_all (\<lambda>n. readable parse (sxn_at n)) ns"
  by (erule mapE_list_all) (auto simp: parse_notice_def res sync_timestamp_iff readable_def Let_def)

text \<open>What the status shows: dates that can be formatted, a count that is one, and no blank error.\<close>

lemma sync_status_shown:
  assumes "parseSyncStatus parse v = Inr s"
  shows "(\<forall>x. sst_last_synced_at s = Some x \<or> sst_next_run_at s = Some x \<longrightarrow> readable parse x)
    \<and> list_all (\<lambda>n. readable parse (sxn_at n)) (sst_conflicts s)
    \<and> 0 \<le> sst_pending_changes s \<and> sst_last_error s \<noteq> Some []"
proof -
  have [simp]: "stated_error v \<noteq> Some []" for v by (simp add: stated_error_def split: option.splits)
  show ?thesis
    using assms unfolding parseSyncStatus_def
    by (elim bindE_InrE) (auto simp: sync_integer_iff dest: optional_time_read notices_read)
qed

end
