(* ===== verification/Record_Readers.thy ===== *)
theory Record_Readers
  imports Trajectory_Rows Patterns
begin

text \<open>
  The parts of a request as \<open>request-record-model.ts\<close> reads them from the core: the readers of single
  values, the unions of labels, and the parsers of everything a record holds. Each reader has its law
  in the collection \<open>record_readers\<close>: what it accepts and what it makes of it.
\<close>

named_theorems record_readers "what each reader of records accepts"

text \<open>
  The exception of \<open>invalidData\<close> for the subject \<open>requestRecord\<close>: the translated text names the path
  and the problem with its numbers.
\<close>

datatype data_error = InvalidData jstr string "(string \<times> int) list"

definition record_invalid :: "jstr \<Rightarrow> string \<Rightarrow> data_error" where
  "record_invalid path problem = InvalidData path problem []"

section \<open>Readers of single values\<close>

definition absent_value :: "json \<Rightarrow> bool" where
  "absent_value v \<longleftrightarrow> v \<in> {JUndef, JNull}"

definition recordObjectAt :: "json \<Rightarrow> jstr \<Rightarrow> data_error + jobj" where
  "recordObjectAt value path = orThrow (record_invalid path ''object'') (jobject value)"

definition recordStringAt :: "json \<Rightarrow> jstr \<Rightarrow> data_error + jstr" where
  "recordStringAt value path = orThrow (record_invalid path ''string'') (jstring value)"

definition nullableStringAt :: "json \<Rightarrow> jstr \<Rightarrow> data_error + jstr option" where
  "nullableStringAt value path =
     (if value = JNull then Inr None else bindE (recordStringAt value path) (\<lambda>s. Inr (Some s)))"

definition intAt :: "json \<Rightarrow> jstr \<Rightarrow> data_error + int" where
  "intAt value path = orThrow (record_invalid path ''integer'') (any_int value)"

definition nullableIntAt :: "json \<Rightarrow> jstr \<Rightarrow> data_error + int option" where
  "nullableIntAt value path =
     (if value = JNull then Inr None else bindE (intAt value path) (\<lambda>n. Inr (Some n)))"

definition recordBoolAt :: "json \<Rightarrow> jstr \<Rightarrow> data_error + bool" where
  "recordBoolAt value path = orThrow (record_invalid path ''boolean'') (jbool value)"

definition optionalBoolAt :: "json \<Rightarrow> jstr \<Rightarrow> bool \<Rightarrow> data_error + bool" where
  "optionalBoolAt value path fallback = (if value = JUndef then Inr fallback else recordBoolAt value path)"

definition recordArrayAt :: "json \<Rightarrow> jstr \<Rightarrow> data_error + json list" where
  "recordArrayAt value path = orThrow (record_invalid path ''array'') (jarray value)"

definition nonNegativeIntAt :: "json \<Rightarrow> jstr \<Rightarrow> data_error + int" where
  "nonNegativeIntAt value path =
     bindE (intAt value path) (\<lambda>n.
     bindE (throwIf (n < 0) (record_invalid path ''nonNegativeInteger'')) (\<lambda>_. Inr n))"

definition probabilityAt :: "json \<Rightarrow> jstr \<Rightarrow> data_error + rat" where
  "probabilityAt value path =
     (case value of
        JNum (Fin q) \<Rightarrow> if 0 \<le> q \<and> q \<le> 1 then Inr q else Inl (record_invalid path ''unexpectedValue'')
      | _ \<Rightarrow> Inl (record_invalid path ''unexpectedValue''))"

text \<open>A finite number that is not negative, and whole where asked for.\<close>

definition optionalPerformanceNumber :: "json \<Rightarrow> jstr \<Rightarrow> bool \<Rightarrow> data_error + rat option" where
  "optionalPerformanceNumber value path integer =
     (let bad = record_invalid path (if integer then ''nonNegativeInteger'' else ''nonNegativeNumber'') in
      if absent_value value then Inr None
      else (case value of
          JNum (Fin q) \<Rightarrow> if q < 0 \<or> integer \<and> \<not> is_integer q then Inl bad else Inr (Some q)
        | _ \<Rightarrow> Inl bad))"

text \<open>A property read only when it is neither absent nor null.\<close>

definition when_given :: "json \<Rightarrow> (json \<Rightarrow> 'e + 'a) \<Rightarrow> 'e + 'a option" where
  "when_given value reader = (if absent_value value then Inr None else bindE (reader value) (\<lambda>x. Inr (Some x)))"

definition optionalStringField :: "jobj \<Rightarrow> string \<Rightarrow> jstr \<Rightarrow> data_error + jstr option" where
  "optionalStringField value k path = when_given (field value k) (\<lambda>v. recordStringAt v (at_field path k))"

definition optionalIntField :: "jobj \<Rightarrow> string \<Rightarrow> jstr \<Rightarrow> data_error + int option" where
  "optionalIntField value k path = when_given (field value k) (\<lambda>v. nonNegativeIntAt v (at_field path k))"

definition optionalBoolField :: "jobj \<Rightarrow> string \<Rightarrow> jstr \<Rightarrow> data_error + bool option" where
  "optionalBoolField value k path = when_given (field value k) (\<lambda>v. recordBoolAt v (at_field path k))"

definition optionalStringList :: "jobj \<Rightarrow> string \<Rightarrow> jstr \<Rightarrow> data_error + jstr list option" where
  "optionalStringList value k path =
     when_given (field value k) (\<lambda>v.
       bindE (recordArrayAt v (at_field path k)) (\<lambda>items.
       mapE (\<lambda>i item. recordStringAt item (at_index (at_field path k) i)) 0 items))"

text \<open>A required property of an object, and one that is null unless the object has it.\<close>

definition textOf :: "jobj \<Rightarrow> string \<Rightarrow> jstr \<Rightarrow> data_error + jstr" where
  "textOf value k path = recordStringAt (field value k) (at_field path k)"

definition flagOf :: "jobj \<Rightarrow> string \<Rightarrow> jstr \<Rightarrow> data_error + bool" where
  "flagOf value k path = recordBoolAt (field value k) (at_field path k)"

definition countOf :: "jobj \<Rightarrow> string \<Rightarrow> jstr \<Rightarrow> data_error + int" where
  "countOf value k path = nonNegativeIntAt (field value k) (at_field path k)"

definition wholeOf :: "jobj \<Rightarrow> string \<Rightarrow> jstr \<Rightarrow> data_error + int" where
  "wholeOf value k path = intAt (field value k) (at_field path k)"

definition nullableTextOf :: "jobj \<Rightarrow> string \<Rightarrow> jstr \<Rightarrow> data_error + jstr option" where
  "nullableTextOf value k path = nullableStringAt (field value k) (at_field path k)"

definition ownTextOf :: "jobj \<Rightarrow> string \<Rightarrow> jstr \<Rightarrow> data_error + jstr option" where
  "ownTextOf value k path = (if has_own value k then nullableTextOf value k path else Inr None)"

section \<open>Labels\<close>

definition statuses :: "request_status list" where
  "statuses = [Pending, Succeeded, StatusFailed, Cancelled, Blocked]"

fun session_status_name :: "session_status \<Rightarrow> string" where
  "session_status_name (Recorded s) = request_status_name s"
| "session_status_name Interrupted = ''interrupted''"

definition sessionStatuses :: "session_status list" where
  "sessionStatuses = map Recorded statuses @ [Interrupted]"

definition outputKinds :: "output_kind list" where "outputKinds = [OutputReasoning, OutputText, OutputTool]"

fun output_name :: "output_kind \<Rightarrow> string" where
  "output_name OutputReasoning = ''reasoning''"
| "output_name OutputText = ''text''"
| "output_name OutputTool = ''tool''"

definition privacyDecisions :: "privacy_decision list" where
  "privacyDecisions = [DecisionNone, DecisionTrusted, DecisionAllow, DecisionWarn, DecisionRedact, DecisionBlock, DecisionFailOpen]"

fun decision_name :: "privacy_decision \<Rightarrow> string" where
  "decision_name DecisionNone = ''none''"
| "decision_name DecisionTrusted = ''trusted''"
| "decision_name DecisionAllow = ''allow''"
| "decision_name DecisionWarn = ''warn''"
| "decision_name DecisionRedact = ''redact''"
| "decision_name DecisionBlock = ''block''"
| "decision_name DecisionFailOpen = ''fail_open''"

definition privacyIgnoreReasons :: "privacy_ignore_reason list" where
  "privacyIgnoreReasons =
     [IgnoreKindDisabled, IgnoreLowConfidence, IgnoreAllowlisted, IgnoreAstrlinkIdentifier, IgnoreExampleValue]"

fun ignore_name :: "privacy_ignore_reason \<Rightarrow> string" where
  "ignore_name IgnoreKindDisabled = ''kind_disabled''"
| "ignore_name IgnoreLowConfidence = ''low_confidence''"
| "ignore_name IgnoreAllowlisted = ''allowlisted''"
| "ignore_name IgnoreAstrlinkIdentifier = ''astrlink_identifier''"
| "ignore_name IgnoreExampleValue = ''example_value''"

definition routingSelections :: "routing_selection list" where
  "routingSelections = [SelectedPriority, SelectedSessionBinding, SelectedResponseAffinity, SelectedWebsocketConnection,
     SelectedFailover, SelectedClientPin, SelectedClaudeCli]"

fun selection_name :: "routing_selection \<Rightarrow> string" where
  "selection_name SelectedPriority = ''priority''"
| "selection_name SelectedSessionBinding = ''session_binding''"
| "selection_name SelectedResponseAffinity = ''response_affinity''"
| "selection_name SelectedWebsocketConnection = ''websocket_connection''"
| "selection_name SelectedFailover = ''failover''"
| "selection_name SelectedClientPin = ''client_pin''"
| "selection_name SelectedClaudeCli = ''claude_cli''"

definition routingSkipReasons :: "routing_skip_reason list" where
  "routingSkipReasons = [SkipDisabled, SkipNotConnected, SkipRiskPaused, SkipModelNotListed, SkipProtocolUnsupported,
     SkipStreamingUnsupported, SkipConversionUnavailable, SkipCircuitOpen, SkipRateLimited, SkipWebsocketDisabled,
     SkipWebsocketUnsupported]"

fun skip_name :: "routing_skip_reason \<Rightarrow> string" where
  "skip_name SkipDisabled = ''disabled''"
| "skip_name SkipNotConnected = ''not_connected''"
| "skip_name SkipRiskPaused = ''risk_paused''"
| "skip_name SkipModelNotListed = ''model_not_listed''"
| "skip_name SkipProtocolUnsupported = ''protocol_unsupported''"
| "skip_name SkipStreamingUnsupported = ''streaming_unsupported''"
| "skip_name SkipConversionUnavailable = ''conversion_unavailable''"
| "skip_name SkipCircuitOpen = ''circuit_open''"
| "skip_name SkipRateLimited = ''rate_limited''"
| "skip_name SkipWebsocketDisabled = ''websocket_disabled''"
| "skip_name SkipWebsocketUnsupported = ''websocket_unsupported''"

definition conversionPhases :: "conversion_phase list" where "conversionPhases = [PhaseRequest, PhaseResponse]"

fun conversion_phase_name :: "conversion_phase \<Rightarrow> string" where
  "conversion_phase_name PhaseRequest = ''request''"
| "conversion_phase_name PhaseResponse = ''response''"

definition conversionSeverities :: "conversion_severity list" where
  "conversionSeverities = [SeverityWarning, SeverityError]"

fun severity_name :: "conversion_severity \<Rightarrow> string" where
  "severity_name SeverityWarning = ''warning''"
| "severity_name SeverityError = ''error''"

definition sessionCursorKinds :: "session_cursor_kind list" where
  "sessionCursorKinds = [CursorExplicit, CursorEchoId, CursorFingerprint]"

fun cursor_name :: "session_cursor_kind \<Rightarrow> string" where
  "cursor_name CursorExplicit = ''explicit''"
| "cursor_name CursorEchoId = ''echo_id''"
| "cursor_name CursorFingerprint = ''fingerprint''"

definition cursor_directions :: "session_cursor_direction list" where "cursor_directions = [CursorIn, CursorOut]"

fun direction_name :: "session_cursor_direction \<Rightarrow> string" where
  "direction_name CursorIn = ''in''"
| "direction_name CursorOut = ''out''"

definition recovery_actions :: "recovery_action list" where "recovery_actions = [RecoveryRetry, RecoveryFailover]"

fun recovery_action_name :: "recovery_action \<Rightarrow> string" where
  "recovery_action_name RecoveryRetry = ''retry''"
| "recovery_action_name RecoveryFailover = ''failover''"

definition eventKinds :: "request_event_kind list" where
  "eventKinds = [EventAccepted, EventModelRedirect, EventPrivacy, EventImageCompression, EventRouted, EventUpstream,
     EventRestore, EventCompleted]"

definition contextItemKinds :: "context_item_kind list" where
  "contextItemKinds = [ItemRules, ItemMemory, ItemSkills, ItemMcp]"

definition contextItemScopes :: "context_item_scope list" where
  "contextItemScopes = [ScopeGlobal, ScopeProject, ScopeLocal]"

fun item_scope_name :: "context_item_scope \<Rightarrow> string" where
  "item_scope_name ScopeGlobal = ''global''"
| "item_scope_name ScopeProject = ''project''"
| "item_scope_name ScopeLocal = ''local''"

definition memory_write_kinds :: "memory_write_kind list" where "memory_write_kinds = [WriteRules, WriteMemory]"

fun write_kind_name :: "memory_write_kind \<Rightarrow> string" where
  "write_kind_name WriteRules = ''rules''"
| "write_kind_name WriteMemory = ''memory''"

definition privacyHitKinds :: "string list" where
  "privacyHitKinds = [''email'', ''phone'', ''account'', ''payment_card'', ''ip_address'', ''url'', ''common_secret'',
     ''private_address'', ''private_date'', ''private_person'']"

interpretation status_enum: string_enum statuses request_status_name
proof
  show "x \<in> set statuses" for x by (cases x) (simp_all add: statuses_def)
  show "distinct (map request_status_name statuses)" by (simp add: statuses_def)
qed

interpretation session_status_enum: string_enum sessionStatuses session_status_name
proof
  show "x \<in> set sessionStatuses" for x
    by (cases x) (use status_enum.members_all in \<open>simp_all add: sessionStatuses_def\<close>)
  show "distinct (map session_status_name sessionStatuses)" by (simp add: sessionStatuses_def statuses_def)
qed

interpretation output_enum: string_enum outputKinds output_name
proof
  show "x \<in> set outputKinds" for x by (cases x) (simp_all add: outputKinds_def)
  show "distinct (map output_name outputKinds)" by (simp add: outputKinds_def)
qed

interpretation decision_enum: string_enum privacyDecisions decision_name
proof
  show "x \<in> set privacyDecisions" for x by (cases x) (simp_all add: privacyDecisions_def)
  show "distinct (map decision_name privacyDecisions)" by (simp add: privacyDecisions_def)
qed

interpretation ignore_enum: string_enum privacyIgnoreReasons ignore_name
proof
  show "x \<in> set privacyIgnoreReasons" for x by (cases x) (simp_all add: privacyIgnoreReasons_def)
  show "distinct (map ignore_name privacyIgnoreReasons)" by (simp add: privacyIgnoreReasons_def)
qed

interpretation selection_enum: string_enum routingSelections selection_name
proof
  show "x \<in> set routingSelections" for x by (cases x) (simp_all add: routingSelections_def)
  show "distinct (map selection_name routingSelections)" by (simp add: routingSelections_def)
qed

interpretation skip_enum: string_enum routingSkipReasons skip_name
proof
  show "x \<in> set routingSkipReasons" for x by (cases x) (simp_all add: routingSkipReasons_def)
  show "distinct (map skip_name routingSkipReasons)" by (simp add: routingSkipReasons_def)
qed

interpretation phase_enum: string_enum conversionPhases conversion_phase_name
proof
  show "x \<in> set conversionPhases" for x by (cases x) (simp_all add: conversionPhases_def)
  show "distinct (map conversion_phase_name conversionPhases)" by (simp add: conversionPhases_def)
qed

interpretation severity_enum: string_enum conversionSeverities severity_name
proof
  show "x \<in> set conversionSeverities" for x by (cases x) (simp_all add: conversionSeverities_def)
  show "distinct (map severity_name conversionSeverities)" by (simp add: conversionSeverities_def)
qed

interpretation cursor_enum: string_enum sessionCursorKinds cursor_name
proof
  show "x \<in> set sessionCursorKinds" for x by (cases x) (simp_all add: sessionCursorKinds_def)
  show "distinct (map cursor_name sessionCursorKinds)" by (simp add: sessionCursorKinds_def)
qed

interpretation direction_enum: string_enum cursor_directions direction_name
proof
  show "x \<in> set cursor_directions" for x by (cases x) (simp_all add: cursor_directions_def)
  show "distinct (map direction_name cursor_directions)" by (simp add: cursor_directions_def)
qed

interpretation recovery_enum: string_enum recovery_actions recovery_action_name
proof
  show "x \<in> set recovery_actions" for x by (cases x) (simp_all add: recovery_actions_def)
  show "distinct (map recovery_action_name recovery_actions)" by (simp add: recovery_actions_def)
qed

interpretation event_enum: string_enum eventKinds event_kind_name
proof
  show "x \<in> set eventKinds" for x by (cases x) (simp_all add: eventKinds_def)
  show "distinct (map event_kind_name eventKinds)" by (simp add: eventKinds_def)
qed

interpretation item_kind_enum: string_enum contextItemKinds item_kind_name
proof
  show "x \<in> set contextItemKinds" for x by (cases x) (simp_all add: contextItemKinds_def)
  show "distinct (map item_kind_name contextItemKinds)" by (simp add: contextItemKinds_def)
qed

interpretation item_scope_enum: string_enum contextItemScopes item_scope_name
proof
  show "x \<in> set contextItemScopes" for x by (cases x) (simp_all add: contextItemScopes_def)
  show "distinct (map item_scope_name contextItemScopes)" by (simp add: contextItemScopes_def)
qed

interpretation write_kind_enum: string_enum memory_write_kinds write_kind_name
proof
  show "x \<in> set memory_write_kinds" for x by (cases x) (simp_all add: memory_write_kinds_def)
  show "distinct (map write_kind_name memory_write_kinds)" by (simp add: memory_write_kinds_def)
qed

lemmas record_enums = status_enum.enum_of_Some session_status_enum.enum_of_Some output_enum.enum_of_Some
  decision_enum.enum_of_Some ignore_enum.enum_of_Some selection_enum.enum_of_Some skip_enum.enum_of_Some
  phase_enum.enum_of_Some severity_enum.enum_of_Some cursor_enum.enum_of_Some direction_enum.enum_of_Some
  recovery_enum.enum_of_Some event_enum.enum_of_Some item_kind_enum.enum_of_Some item_scope_enum.enum_of_Some
  write_kind_enum.enum_of_Some client_type_enum.enum_of_Some

text \<open>One of a union of labels, or an exception that says which union.\<close>

definition labelOf :: "jobj \<Rightarrow> string \<Rightarrow> jstr \<Rightarrow> string \<Rightarrow> 'a list \<Rightarrow> ('a \<Rightarrow> string) \<Rightarrow> data_error + 'a" where
  "labelOf value k path problem members name =
     orThrow (record_invalid (at_field path k) problem) (enum_of members name (field value k))"

section \<open>The parts of a record\<close>

definition parseUsage :: "json \<Rightarrow> jstr \<Rightarrow> data_error + request_usage option" where
  "parseUsage value path =
     (if value = JNull then Inr None
      else
        bindE (recordObjectAt value path) (\<lambda>usage.
        bindE (wholeOf usage ''input_tokens'' path) (\<lambda>input.
        bindE (wholeOf usage ''output_tokens'' path) (\<lambda>output.
        bindE (wholeOf usage ''total_tokens'' path) (\<lambda>total.
        bindE (if has_own usage ''cache_read_tokens''
               then bindE (wholeOf usage ''cache_read_tokens'' path) (\<lambda>n. Inr (Some n))
               else if has_own usage ''cached_input_tokens''
               then bindE (wholeOf usage ''cached_input_tokens'' path) (\<lambda>n. Inr (Some n))
               else Inr None) (\<lambda>cache_read.
        bindE (if has_own usage ''cache_write_tokens''
               then bindE (wholeOf usage ''cache_write_tokens'' path) (\<lambda>n. Inr (Some n))
               else Inr None) (\<lambda>cache_write.
        bindE (if field usage ''billing_incomplete'' \<noteq> JUndef
               then bindE (flagOf usage ''billing_incomplete'' path) (\<lambda>b. Inr (Some b))
               else Inr None) (\<lambda>incomplete.
        Inr (Some \<lparr>us_input_tokens = input, us_output_tokens = output, us_total_tokens = total,
          us_cache_read_tokens = cache_read, us_cache_write_tokens = cache_write,
          us_billing_incomplete = incomplete\<rparr>)))))))))"

definition parse_upstream_error :: "json \<Rightarrow> jstr \<Rightarrow> data_error + upstream_error_response" where
  "parse_upstream_error value path =
     bindE (recordObjectAt value path) (\<lambda>upstream.
     bindE (wholeOf upstream ''status'' path) (\<lambda>status.
     bindE (textOf upstream ''body'' path) (\<lambda>body.
     bindE (flagOf upstream ''truncated'' path) (\<lambda>truncated.
     bindE (if field upstream ''content_type'' \<noteq> JUndef
            then bindE (textOf upstream ''content_type'' path) (\<lambda>s. Inr (Some s))
            else Inr None) (\<lambda>content_type.
     Inr \<lparr>ue_status = status, ue_content_type = content_type, ue_body = body, ue_truncated = truncated\<rparr>)))))"

definition parseError :: "json \<Rightarrow> jstr \<Rightarrow> data_error + request_error_summary option" where
  "parseError value path =
     (if value = JNull then Inr None
      else
        bindE (recordObjectAt value path) (\<lambda>e.
        bindE (textOf e ''category'' path) (\<lambda>category.
        bindE (textOf e ''code'' path) (\<lambda>code.
        bindE (textOf e ''message'' path) (\<lambda>message.
        bindE (flagOf e ''retryable'' path) (\<lambda>retryable.
        bindE (when_given (field e ''upstream'') (\<lambda>v. parse_upstream_error v (at_field path ''upstream''))) (\<lambda>upstream.
        Inr (Some \<lparr>er_category = category, er_code = code, er_message = message, er_retryable = retryable,
          er_upstream = upstream\<rparr>))))))))"

definition parseAuditSummary :: "json \<Rightarrow> jstr \<Rightarrow> data_error + request_audit_summary" where
  "parseAuditSummary value path =
     (let later = (\<lambda>o' k. optionalBoolAt (field o' k) (at_field path k) False) in
     bindE (recordObjectAt value path) (\<lambda>audit.
     bindE (flagOf audit ''request_body_captured'' path) (\<lambda>request_captured.
     bindE (flagOf audit ''response_content_captured'' path) (\<lambda>response_captured.
     bindE (flagOf audit ''request_body_truncated'' path) (\<lambda>request_truncated.
     bindE (flagOf audit ''response_content_truncated'' path) (\<lambda>response_truncated.
     bindE (later audit ''upstream_request_body_captured'') (\<lambda>upstream_request_captured.
     bindE (later audit ''upstream_response_content_captured'') (\<lambda>upstream_response_captured.
     bindE (later audit ''upstream_request_body_truncated'') (\<lambda>upstream_request_truncated.
     bindE (later audit ''upstream_response_content_truncated'') (\<lambda>upstream_response_truncated.
     Inr \<lparr>au_request_body_captured = request_captured, au_response_content_captured = response_captured,
          au_request_body_truncated = request_truncated, au_response_content_truncated = response_truncated,
          au_upstream_request_body_captured = upstream_request_captured,
          au_upstream_response_content_captured = upstream_response_captured,
          au_upstream_request_body_truncated = upstream_request_truncated,
          au_upstream_response_content_truncated = upstream_response_truncated\<rparr>))))))))))"

text \<open>The kinds seen so far are kept; each item is read before the next.\<close>

fun parse_hits :: "jstr \<Rightarrow> jstr set \<Rightarrow> nat \<Rightarrow> json list \<Rightarrow> data_error + privacy_hit_count list" where
  "parse_hits path seen i [] = Inr []"
| "parse_hits path seen i (item # items) =
     (let here = at_index path i in
     bindE (recordObjectAt item here) (\<lambda>hit.
     bindE (textOf hit ''kind'' here) (\<lambda>kind.
     bindE (wholeOf hit ''count'' here) (\<lambda>n.
     bindE (throwIf (kind \<notin> js ` set privacyHitKinds) (record_invalid (at_field here ''kind'') ''unknownType'')) (\<lambda>_.
     bindE (throwIf (n < 1) (record_invalid (at_field here ''count'') ''positiveInteger'')) (\<lambda>_.
     bindE (throwIf (kind \<in> seen) (record_invalid (at_field here ''kind'') ''duplicate'')) (\<lambda>_.
     bindE (parse_hits path (insert kind seen) (Suc i) items) (\<lambda>hits.
     Inr (\<lparr>ph_kind = kind, ph_count = n\<rparr> # hits)))))))))"

definition parsePrivacyHits :: "json \<Rightarrow> jstr \<Rightarrow> data_error + privacy_hit_count list" where
  "parsePrivacyHits value path = bindE (recordArrayAt value path) (parse_hits path {} 0)"

definition parsePrivacyRestore :: "json \<Rightarrow> jstr \<Rightarrow> data_error + privacy_restore_summary option" where
  "parsePrivacyRestore value path =
     (let later = (\<lambda>o' k. if field o' k = JUndef then Inr 0 else wholeOf o' k path) in
     when_given value (\<lambda>v.
     bindE (recordObjectAt v path) (\<lambda>summary.
     bindE (wholeOf summary ''mapping_count'' path) (\<lambda>mappings.
     bindE (wholeOf summary ''restored_count'' path) (\<lambda>restored.
     bindE (wholeOf summary ''fallback_count'' path) (\<lambda>fallbacks.
     bindE (later summary ''visible_restored_count'') (\<lambda>visible.
     bindE (later summary ''tool_argument_restored_count'') (\<lambda>arguments.
     bindE (throwIf (mappings < 0 \<or> restored < 0 \<or> fallbacks < 0 \<or> visible < 0 \<or> arguments < 0)
              (record_invalid path ''nonNegativeInteger'')) (\<lambda>_.
     bindE (throwIf (visible + arguments > restored) (record_invalid path ''exceedsTotal'')) (\<lambda>_.
     bindE (flagOf summary ''enabled'' path) (\<lambda>enabled.
     bindE (if field summary ''hits'' \<noteq> JUndef
            then bindE (parsePrivacyHits (field summary ''hits'') (at_field path ''hits'')) (\<lambda>hits. Inr (Some hits))
            else Inr None) (\<lambda>hits.
     Inr \<lparr>ps_enabled = enabled, ps_mapping_count = mappings, ps_restored_count = restored,
          ps_visible_restored_count = visible, ps_tool_argument_restored_count = arguments,
          ps_fallback_count = fallbacks, ps_hits = hits\<rparr>))))))))))))"

definition parse_confidence :: "json \<Rightarrow> jstr \<Rightarrow> data_error + privacy_confidence" where
  "parse_confidence value path =
     bindE (recordObjectAt value path) (\<lambda>confidence.
     bindE (probabilityAt (field confidence ''min'') (at_field path ''min'')) (\<lambda>low.
     bindE (probabilityAt (field confidence ''max'') (at_field path ''max'')) (\<lambda>high.
     bindE (throwIf (low > high) (record_invalid (at_field path ''min'') ''unexpectedValue'')) (\<lambda>_.
     bindE (probabilityAt (field confidence ''threshold'') (at_field path ''threshold'')) (\<lambda>threshold.
     Inr \<lparr>pc_min = low, pc_max = high, pc_threshold = threshold\<rparr>)))))"

definition optionalPrivacyConfidence :: "json \<Rightarrow> jstr \<Rightarrow> data_error + privacy_confidence option" where
  "optionalPrivacyConfidence value path = when_given value (\<lambda>v. parse_confidence v path)"

definition parsePrivacyDecision :: "json \<Rightarrow> jstr \<Rightarrow> data_error + privacy_decision option" where
  "parsePrivacyDecision value path =
     when_given value (\<lambda>v. orThrow (record_invalid path ''unknownDecision'') (enum_of privacyDecisions decision_name v))"

definition positive_count :: "jobj \<Rightarrow> jstr \<Rightarrow> data_error + int" where
  "positive_count o' path =
     bindE (wholeOf o' ''count'' path) (\<lambda>n.
     bindE (throwIf (n < 1) (record_invalid (at_field path ''count'') ''positiveInteger'')) (\<lambda>_. Inr n))"

definition parse_finding :: "json \<Rightarrow> jstr \<Rightarrow> data_error + privacy_finding" where
  "parse_finding item path =
     bindE (recordObjectAt item path) (\<lambda>finding.
     bindE (positive_count finding path) (\<lambda>n.
     bindE (textOf finding ''kind'' path) (\<lambda>kind.
     bindE (textOf finding ''json_path'' path) (\<lambda>json_path.
     bindE (optionalPrivacyConfidence (field finding ''confidence'') (at_field path ''confidence'')) (\<lambda>confidence.
     Inr \<lparr>pf_kind = kind, pf_json_path = json_path, pf_count = n, pf_confidence = confidence\<rparr>)))))"

definition parsePrivacyFindings :: "json \<Rightarrow> jstr \<Rightarrow> data_error + privacy_finding list" where
  "parsePrivacyFindings value path =
     (if absent_value value then Inr []
      else bindE (recordArrayAt value path) (\<lambda>items. mapE (\<lambda>i item. parse_finding item (at_index path i)) 0 items))"

definition unless_empty :: "'a list \<Rightarrow> 'a list option" where
  "unless_empty xs = (if xs = [] then None else Some xs)"

definition optionalPrivacyFindings :: "json \<Rightarrow> jstr \<Rightarrow> data_error + privacy_finding list option" where
  "optionalPrivacyFindings value path =
     bindE (parsePrivacyFindings value (at_field path ''privacy_findings'')) (\<lambda>findings. Inr (unless_empty findings))"

definition parse_ignored :: "json \<Rightarrow> jstr \<Rightarrow> data_error + privacy_ignored" where
  "parse_ignored item path =
     bindE (recordObjectAt item path) (\<lambda>entry.
     bindE (textOf entry ''reason'' path) (\<lambda>reason_text.
     bindE (labelOf entry ''reason'' path ''unknownReason'' privacyIgnoreReasons ignore_name) (\<lambda>reason.
     bindE (positive_count entry path) (\<lambda>n.
     bindE (textOf entry ''kind'' path) (\<lambda>kind.
     bindE (optionalPrivacyConfidence (field entry ''confidence'') (at_field path ''confidence'')) (\<lambda>confidence.
     Inr \<lparr>pi_kind = kind, pi_reason = reason, pi_count = n, pi_confidence = confidence\<rparr>))))))"

definition optionalPrivacyIgnored :: "json \<Rightarrow> jstr \<Rightarrow> data_error + privacy_ignored list option" where
  "optionalPrivacyIgnored value path =
     (let here = at_field path ''privacy_ignored'' in
      if absent_value value then Inr None
      else
        bindE (recordArrayAt value here) (\<lambda>items.
        bindE (mapE (\<lambda>i item. parse_ignored item (at_index here i)) 0 items) (\<lambda>ignored. Inr (unless_empty ignored))))"

text \<open>A text of the recovery, when it is there.\<close>

definition recovery_text :: "jobj \<Rightarrow> jstr \<Rightarrow> string \<Rightarrow> data_error + jstr option" where
  "recovery_text o' path k =
     (if field o' k = JUndef then Inr None
      else
        bindE (textOf o' k path) (\<lambda>s.
        bindE (throwIf (length (code_points s) > (if k = ''upstream_model'' then 256 else 128))
                 (record_invalid (at_field path k) ''tooLong'')) (\<lambda>_.
        Inr (Some s))))"

definition parseRecovery :: "json \<Rightarrow> jstr \<Rightarrow> data_error + request_recovery" where
  "parseRecovery value path =
     bindE (recordObjectAt value path) (\<lambda>o'.
     bindE (wholeOf o' ''delay_ms'' path) (\<lambda>delay.
     bindE (throwIf (delay < 0 \<or> delay > 60000)
              (InvalidData (at_field path ''delay_ms'') ''integerBetween'' [(''minimum'', 0), (''maximum'', 60000)])) (\<lambda>_.
     bindE (if field o' ''action'' = JUndef then Inr None
            else bindE (labelOf o' ''action'' path ''unexpectedValue'' recovery_actions recovery_action_name)
                   (\<lambda>a. Inr (Some a))) (\<lambda>action.
     bindE (recovery_text o' path ''upstream_model'') (\<lambda>model.
     bindE (recovery_text o' path ''reason'') (\<lambda>reason.
     bindE (recovery_text o' path ''stop_reason'') (\<lambda>stop.
     bindE (recovery_text o' path ''path_id'') (\<lambda>path_id.
     bindE (recovery_text o' path ''path_name'') (\<lambda>path_name.
     bindE (recovery_text o' path ''path_version'') (\<lambda>path_version.
     bindE (recovery_text o' path ''step_id'') (\<lambda>step_id.
     Inr \<lparr>rv_path_id = path_id, rv_path_name = path_name, rv_path_version = path_version, rv_step_id = step_id,
          rv_upstream_model = model, rv_action = action, rv_reason = reason, rv_delay_ms = of_int delay,
          rv_stop_reason = stop\<rparr>)))))))))))"

definition parseRecordRedirect :: "json \<Rightarrow> jstr \<Rightarrow> data_error + request_model_redirect option" where
  "parseRecordRedirect value path =
     when_given value (\<lambda>v.
     bindE (recordObjectAt v path) (\<lambda>redirect.
     bindE (textOf redirect ''from'' path) (\<lambda>origin.
     bindE (textOf redirect ''to'' path) (\<lambda>target.
     bindE (throwIf (origin = [] \<or> target = [] \<or> length (code_points origin) > 256 \<or> length (code_points target) > 256)
              (record_invalid path ''badFormat'')) (\<lambda>_.
     Inr \<lparr>rd_from = origin, rd_to = target\<rparr>)))))"

text \<open>An output of a kind this build does not know reads as none.\<close>

definition tool_names :: "json list \<Rightarrow> jstr list" where
  "tool_names items = filter (\<lambda>s. s \<noteq> []) (List.map_filter jstring items)"

definition optionalOutput :: "json \<Rightarrow> jstr \<Rightarrow> data_error + output_activity option" where
  "optionalOutput value path =
     (if absent_value value then Inr None
      else
        bindE (recordObjectAt value path) (\<lambda>output.
        case enum_of outputKinds output_name (field output ''kind'') of
          None \<Rightarrow> Inr None
        | Some kind \<Rightarrow>
            bindE (when_given (field output ''tools'') (\<lambda>v. recordArrayAt v (at_field path ''tools''))) (\<lambda>tools.
            Inr (Some \<lparr>oa_kind = kind, oa_tools = tool_names (case tools of None \<Rightarrow> [] | Some items \<Rightarrow> items)\<rparr>))))"

definition parse_skip :: "json \<Rightarrow> jstr \<Rightarrow> data_error + routing_skip" where
  "parse_skip item path =
     bindE (recordObjectAt item path) (\<lambda>skip.
     bindE (labelOf skip ''reason'' path ''unknownReason'' routingSkipReasons skip_name) (\<lambda>reason.
     bindE (textOf skip ''service_id'' path) (\<lambda>service.
     Inr \<lparr>sk_service_id = service, sk_reason = reason\<rparr>)))"

definition optionalRoutingDecision :: "json \<Rightarrow> jstr \<Rightarrow> data_error + request_routing_decision option" where
  "optionalRoutingDecision value path =
     when_given value (\<lambda>v.
     bindE (recordObjectAt v path) (\<lambda>decision.
     bindE (recordArrayAt (field decision ''skipped'') (at_field path ''skipped'')) (\<lambda>items.
     bindE (throwIf (length items > 64) (record_invalid (at_field path ''skipped'') ''tooMany'')) (\<lambda>_.
     bindE (mapE (\<lambda>i item. parse_skip item (at_index (at_field path ''skipped'') i)) 0 items) (\<lambda>skipped.
     bindE (if field decision ''selected'' = JUndef then Inr None
            else bindE (labelOf decision ''selected'' path ''unknownReason'' routingSelections selection_name)
                   (\<lambda>s. Inr (Some s))) (\<lambda>selected.
     Inr \<lparr>rt_selected = selected, rt_skipped = skipped\<rparr>))))))"

definition parse_diagnostic :: "json \<Rightarrow> jstr \<Rightarrow> data_error + conversion_diagnostic" where
  "parse_diagnostic item path =
     bindE (recordObjectAt item path) (\<lambda>diagnostic.
     bindE (labelOf diagnostic ''phase'' path ''unexpectedValue'' conversionPhases conversion_phase_name) (\<lambda>phase.
     bindE (labelOf diagnostic ''severity'' path ''unexpectedValue'' conversionSeverities severity_name) (\<lambda>severity.
     bindE (textOf diagnostic ''code'' path) (\<lambda>code.
     bindE (throwIf (code = []) (record_invalid (at_field path ''code'') ''empty'')) (\<lambda>_.
     bindE (textOf diagnostic ''message'' path) (\<lambda>message.
     bindE (if field diagnostic ''path'' = JUndef then Inr None
            else bindE (textOf diagnostic ''path'' path) (\<lambda>s. Inr (Some s))) (\<lambda>place.
     Inr \<lparr>cd_phase = phase, cd_severity = severity, cd_code = code, cd_path = place, cd_message = message\<rparr>)))))))"

definition optionalConversionDiagnostics :: "json \<Rightarrow> jstr \<Rightarrow> data_error + conversion_diagnostic list option" where
  "optionalConversionDiagnostics value path =
     (if absent_value value then Inr None
      else
        bindE (recordArrayAt value path) (\<lambda>items.
        bindE (throwIf (length items > 64) (record_invalid path ''tooMany'')) (\<lambda>_.
        bindE (mapE (\<lambda>i item. parse_diagnostic item (at_index path i)) 0 items) (\<lambda>diagnostics.
        Inr (unless_empty diagnostics)))))"

text \<open>A label of a newer core stays displayable.\<close>

definition optionalClientType :: "json \<Rightarrow> client_type option" where
  "optionalClientType value =
     (if absent_value value then None
      else Some (case enum_of CLIENT_TYPES client_type_name value of Some c \<Rightarrow> c | None \<Rightarrow> ClientUnknown))"

definition parseTurnIndex :: "json \<Rightarrow> jstr \<Rightarrow> data_error + int option" where
  "parseTurnIndex value path =
     when_given value (\<lambda>v.
     bindE (intAt v path) (\<lambda>turn.
     bindE (throwIf (turn < 1) (InvalidData path ''integerAtLeast'' [(''minimum'', 1)])) (\<lambda>_. Inr turn)))"

definition parseSessionLink :: "json \<Rightarrow> jstr \<Rightarrow> data_error + session_link option" where
  "parseSessionLink value path =
     when_given value (\<lambda>v.
     bindE (recordObjectAt v path) (\<lambda>link.
     bindE (labelOf link ''kind'' path ''unknownType'' sessionCursorKinds cursor_name) (\<lambda>kind.
     bindE (textOf link ''value'' path) (\<lambda>s.
     Inr \<lparr>sl_kind = kind, sl_value = s\<rparr>))))"

definition parse_cursor :: "json \<Rightarrow> jstr \<Rightarrow> data_error + session_cursor" where
  "parse_cursor item path =
     bindE (recordObjectAt item path) (\<lambda>cursor.
     bindE (labelOf cursor ''direction'' path ''unexpectedValue'' cursor_directions direction_name) (\<lambda>direction.
     bindE (labelOf cursor ''kind'' path ''unknownType'' sessionCursorKinds cursor_name) (\<lambda>kind.
     bindE (textOf cursor ''value'' path) (\<lambda>s.
     Inr \<lparr>cu_kind = kind, cu_direction = direction, cu_value = s\<rparr>))))"

definition parse_list :: "(json \<Rightarrow> jstr \<Rightarrow> data_error + 'a) \<Rightarrow> json \<Rightarrow> jstr \<Rightarrow> data_error + 'a list" where
  "parse_list reader value path =
     (if absent_value value then Inr []
      else bindE (recordArrayAt value path) (\<lambda>items. mapE (\<lambda>i item. reader item (at_index path i)) 0 items))"

definition parseSessionCursors :: "json \<Rightarrow> jstr \<Rightarrow> data_error + session_cursor list" where
  "parseSessionCursors = parse_list parse_cursor"

definition parse_event :: "json \<Rightarrow> jstr \<Rightarrow> data_error + request_event" where
  "parse_event item path =
     bindE (recordObjectAt item path) (\<lambda>event.
     bindE (labelOf event ''kind'' path ''unknownType'' eventKinds event_kind_name) (\<lambda>kind.
     bindE (labelOf event ''status'' path ''unknownStatus'' statuses request_status_name) (\<lambda>status.
     bindE (textOf event ''started_at'' path) (\<lambda>started.
     bindE (nullableTextOf event ''ended_at'' path) (\<lambda>ended.
     bindE (textOf event ''summary'' path) (\<lambda>summary.
     bindE (wholeOf event ''attempt_index'' path) (\<lambda>attempt.
     Inr \<lparr>ev_kind = kind, ev_started_at = started, ev_ended_at = ended, ev_status = status, ev_summary = summary,
          ev_attempt_index = attempt\<rparr>)))))))"

definition parseRequestEvents :: "json \<Rightarrow> jstr \<Rightarrow> data_error + request_event list" where
  "parseRequestEvents = parse_list parse_event"

section \<open>What a call carried\<close>

definition parseFailedRepeats :: "json \<Rightarrow> jstr \<Rightarrow> data_error + failed_repeats" where
  "parseFailedRepeats value path =
     bindE (recordObjectAt value path) (\<lambda>repeats.
     bindE (textOf repeats ''tool'' path) (\<lambda>tool.
     bindE (countOf repeats ''count'' path) (\<lambda>n.
     bindE (optionalBoolField repeats ''command'' path) (\<lambda>command.
     Inr \<lparr>fr_tool = tool, fr_count = n, fr_command = command\<rparr>))))"

definition contextItemFields :: "jobj \<Rightarrow> context_item_kind \<Rightarrow> jstr \<Rightarrow> data_error + context_item" where
  "contextItemFields item kind path =
     bindE (when_given (field item ''scope'') (\<lambda>_.
              labelOf item ''scope'' path ''unknownScope'' contextItemScopes item_scope_name)) (\<lambda>scope.
     bindE (optionalStringField item ''name'' path) (\<lambda>name.
     bindE (optionalStringField item ''path'' path) (\<lambda>place.
     bindE (optionalIntField item ''count'' path) (\<lambda>n.
     bindE (optionalStringList item ''servers'' path) (\<lambda>servers.
     bindE (countOf item ''tokens'' path) (\<lambda>tokens.
     Inr \<lparr>ci_kind = kind, ci_name = name, ci_path = place, ci_scope = scope, ci_count = n, ci_servers = servers,
          ci_tokens = tokens, ci_hash = None\<rparr>))))))"

definition parse_item :: "json \<Rightarrow> jstr \<Rightarrow> data_error + context_item option" where
  "parse_item entry path =
     bindE (recordObjectAt entry path) (\<lambda>item.
     case enum_of contextItemKinds item_kind_name (field item ''kind'') of
       None \<Rightarrow> Inr None
     | Some kind \<Rightarrow>
         bindE (contextItemFields item kind path) (\<lambda>fields.
         bindE (optionalStringField item ''hash'' path) (\<lambda>hash.
         Inr (Some (fields\<lparr>ci_hash := hash\<rparr>)))))"

definition parse_write :: "json \<Rightarrow> jstr \<Rightarrow> data_error + memory_write option" where
  "parse_write entry path =
     bindE (recordObjectAt entry path) (\<lambda>write.
     case enum_of memory_write_kinds write_kind_name (field write ''kind'') of
       None \<Rightarrow> Inr None
     | Some kind \<Rightarrow>
         bindE (textOf write ''name'' path) (\<lambda>name.
         bindE (optionalStringField write ''path'' path) (\<lambda>place.
         bindE (optionalStringField write ''title'' path) (\<lambda>title.
         bindE (optionalStringField write ''entry'' path) (\<lambda>entry.
         bindE (optionalStringField write ''hook'' path) (\<lambda>hook.
         Inr (Some \<lparr>mw_kind = kind, mw_name = name, mw_path = place, mw_title = title, mw_entry = entry, mw_hook = hook\<rparr>)))))))"

definition parse_read :: "json \<Rightarrow> jstr \<Rightarrow> data_error + memory_read" where
  "parse_read entry path =
     bindE (recordObjectAt entry path) (\<lambda>read.
     bindE (textOf read ''name'' path) (\<lambda>name.
     bindE (optionalStringField read ''path'' path) (\<lambda>place.
     Inr \<lparr>mm_name = name, mm_path = place\<rparr>)))"

definition parse_parts :: "json \<Rightarrow> jstr \<Rightarrow> data_error + context_parts" where
  "parse_parts value path =
     bindE (recordObjectAt value path) (\<lambda>raw.
     bindE (countOf raw ''history'' path) (\<lambda>history.
     bindE (countOf raw ''tool_results'' path) (\<lambda>tool_results.
     bindE (countOf raw ''tools'' path) (\<lambda>tools.
     bindE (countOf raw ''system'' path) (\<lambda>system.
     bindE (countOf raw ''memory'' path) (\<lambda>memory.
     bindE (countOf raw ''other'' path) (\<lambda>other.
     Inr \<lparr>cp_history = history, cp_tool_results = tool_results, cp_tools = tools, cp_system = system,
          cp_memory = memory, cp_other = other\<rparr>)))))))"

text \<open>The items a reader keeps, in order.\<close>

definition known_items :: "'a option list \<Rightarrow> 'a list" where
  "known_items xs = List.map_filter id xs"

definition parseRequestContext :: "json \<Rightarrow> jstr \<Rightarrow> data_error + request_context" where
  "parseRequestContext value path =
     bindE (recordObjectAt value path) (\<lambda>carried.
     bindE (when_given (field carried ''parts'') (\<lambda>v. parse_parts v (at_field path ''parts''))) (\<lambda>parts.
     bindE (parse_list parse_item (field carried ''items'') (at_field path ''items'')) (\<lambda>items.
     bindE (parse_list parse_write (field carried ''memory_writes'') (at_field path ''memory_writes'')) (\<lambda>writes.
     bindE (when_given (field carried ''memory_reads'') (\<lambda>v. parse_list parse_read v (at_field path ''memory_reads''))) (\<lambda>reads.
     bindE (optionalStringField carried ''system_hash'' path) (\<lambda>system_hash.
     bindE (optionalStringField carried ''tools_hash'' path) (\<lambda>tools_hash.
     bindE (optionalBoolField carried ''summary'' path) (\<lambda>summary.
     bindE (optionalStringField carried ''compacted'' path) (\<lambda>compacted.
     bindE (optionalBoolField carried ''helper'' path) (\<lambda>helper.
     bindE (optionalStringList carried ''skills_used'' path) (\<lambda>skills.
     bindE (when_given (field carried ''failed_repeats'') (\<lambda>v. parseFailedRepeats v (at_field path ''failed_repeats''))) (\<lambda>repeats.
     Inr \<lparr>cx_parts = parts, cx_items = known_items items, cx_system_hash = system_hash, cx_tools_hash = tools_hash,
          cx_summary = summary, cx_compacted = compacted, cx_helper = helper, cx_memory_writes = known_items writes,
          cx_memory_reads = reads, cx_skills_used = skills, cx_failed_repeats = repeats\<rparr>))))))))))))"

section \<open>What the readers accept\<close>

lemma absent_value_simps [simp]:
  "absent_value JUndef" "absent_value JNull" "\<not> absent_value (JBool b)" "\<not> absent_value (JNum n)"
  "\<not> absent_value (JStr s)" "\<not> absent_value (JArr vs)" "\<not> absent_value (JObj o')" "\<not> absent_value (jint i)"
  "\<not> absent_value (js_str x)"
  by (simp_all add: absent_value_def jint_def js_str_def)

lemma recordObjectAt_iff [record_readers]: "recordObjectAt v path = Inr o' \<longleftrightarrow> v = JObj o'"
  by (simp add: recordObjectAt_def res)

lemma recordStringAt_iff [record_readers]: "recordStringAt v path = Inr s \<longleftrightarrow> v = JStr s"
  by (simp add: recordStringAt_def res)

lemma nullableStringAt_iff [record_readers]:
  "nullableStringAt v path = Inr x \<longleftrightarrow> (case x of None \<Rightarrow> v = JNull | Some s \<Rightarrow> v = JStr s)"
  by (auto simp: nullableStringAt_def record_readers res split: option.splits)

lemma intAt_iff [record_readers]: "intAt v path = Inr n \<longleftrightarrow> v = jint n"
  by (simp add: intAt_def res jsval)

lemma jint_not_null [simp]: "JNull \<noteq> jint n" "JUndef \<noteq> jint n"
  by (simp_all add: jint_def)

lemma nullableIntAt_iff [record_readers]:
  "nullableIntAt v path = Inr x \<longleftrightarrow> (case x of None \<Rightarrow> v = JNull | Some n \<Rightarrow> v = jint n)"
  by (auto simp: nullableIntAt_def record_readers res split: option.splits)

lemma recordBoolAt_iff [record_readers]: "recordBoolAt v path = Inr b \<longleftrightarrow> v = JBool b"
  by (simp add: recordBoolAt_def res)

lemma recordArrayAt_iff [record_readers]: "recordArrayAt v path = Inr vs \<longleftrightarrow> v = JArr vs"
  by (simp add: recordArrayAt_def res)

lemma nonNegativeIntAt_iff [record_readers]: "nonNegativeIntAt v path = Inr n \<longleftrightarrow> v = jint n \<and> 0 \<le> n"
  by (auto simp: nonNegativeIntAt_def record_readers res)

lemma probabilityAt_iff [record_readers]: "probabilityAt v path = Inr q \<longleftrightarrow> v = JNum (Fin q) \<and> 0 \<le> q \<and> q \<le> 1"
  by (auto simp: probabilityAt_def split: json.splits jnum.splits if_splits)

definition jrat :: "rat \<Rightarrow> json" where "jrat q = JNum (Fin q)"

lemma optionalPerformanceNumber_iff [record_readers]:
  "optionalPerformanceNumber v path integer = Inr x \<longleftrightarrow>
     (case x of None \<Rightarrow> absent_value v | Some q \<Rightarrow> v = jrat q \<and> 0 \<le> q \<and> (integer \<longrightarrow> is_integer q))"
  by (auto simp: optionalPerformanceNumber_def jrat_def Let_def split: json.splits jnum.splits if_splits option.splits)

lemma when_given_iff [record_readers]:
  "when_given v reader = Inr x \<longleftrightarrow> (case x of None \<Rightarrow> absent_value v | Some y \<Rightarrow> \<not> absent_value v \<and> reader v = Inr y)"
  by (auto simp: when_given_def res split: option.splits)

lemma textOf_iff [record_readers]: "textOf o' k path = Inr s \<longleftrightarrow> field o' k = JStr s"
  by (simp add: textOf_def record_readers)

lemma flagOf_iff [record_readers]: "flagOf o' k path = Inr b \<longleftrightarrow> field o' k = JBool b"
  by (simp add: flagOf_def record_readers)

lemma countOf_iff [record_readers]: "countOf o' k path = Inr n \<longleftrightarrow> field o' k = jint n \<and> 0 \<le> n"
  by (simp add: countOf_def record_readers)

lemma wholeOf_iff [record_readers]: "wholeOf o' k path = Inr n \<longleftrightarrow> field o' k = jint n"
  by (simp add: wholeOf_def record_readers)

lemma nullableTextOf_iff [record_readers]:
  "nullableTextOf o' k path = Inr x \<longleftrightarrow> (case x of None \<Rightarrow> field o' k = JNull | Some s \<Rightarrow> field o' k = JStr s)"
  by (simp add: nullableTextOf_def record_readers)

lemma optionalStringField_iff [record_readers]:
  "optionalStringField o' k path = Inr x \<longleftrightarrow> (case x of None \<Rightarrow> absent_value (field o' k) | Some s \<Rightarrow> field o' k = JStr s)"
  by (auto simp: optionalStringField_def record_readers split: option.splits)

lemma optionalIntField_iff [record_readers]:
  "optionalIntField o' k path = Inr x \<longleftrightarrow>
     (case x of None \<Rightarrow> absent_value (field o' k) | Some n \<Rightarrow> field o' k = jint n \<and> 0 \<le> n)"
  by (auto simp: optionalIntField_def record_readers split: option.splits)

lemma optionalBoolField_iff [record_readers]:
  "optionalBoolField o' k path = Inr x \<longleftrightarrow> (case x of None \<Rightarrow> absent_value (field o' k) | Some b \<Rightarrow> field o' k = JBool b)"
  by (auto simp: optionalBoolField_def record_readers split: option.splits)

lemma labelOf_iff: "labelOf o' k path problem members name = Inr x \<longleftrightarrow> enum_of members name (field o' k) = Some x"
  by (simp add: labelOf_def res)

section \<open>The bounds a record keeps\<close>

definition restore_ok :: "privacy_restore_summary \<Rightarrow> bool" where
  "restore_ok r \<longleftrightarrow> 0 \<le> ps_mapping_count r \<and> 0 \<le> ps_restored_count r \<and> 0 \<le> ps_visible_restored_count r
     \<and> 0 \<le> ps_tool_argument_restored_count r \<and> 0 \<le> ps_fallback_count r
     \<and> ps_visible_restored_count r + ps_tool_argument_restored_count r \<le> ps_restored_count r
     \<and> (case ps_hits r of None \<Rightarrow> True
        | Some hits \<Rightarrow> distinct (map ph_kind hits) \<and> list_all (\<lambda>h. 1 \<le> ph_count h) hits
            \<and> set (map ph_kind hits) \<subseteq> js ` set privacyHitKinds)"

definition confidence_ok :: "privacy_confidence \<Rightarrow> bool" where
  "confidence_ok c \<longleftrightarrow> 0 \<le> pc_min c \<and> pc_min c \<le> pc_max c \<and> pc_max c \<le> 1 \<and> pc_threshold c \<in> {0..1}"

definition finding_sound :: "privacy_finding \<Rightarrow> bool" where
  "finding_sound f \<longleftrightarrow> 1 \<le> pf_count f \<and> pred_option confidence_ok (pf_confidence f)"

definition ignored_ok :: "privacy_ignored \<Rightarrow> bool" where
  "ignored_ok i \<longleftrightarrow> 1 \<le> pi_count i \<and> pred_option confidence_ok (pi_confidence i)"

definition recovery_ok :: "request_recovery \<Rightarrow> bool" where
  "recovery_ok r \<longleftrightarrow> 0 \<le> rv_delay_ms r \<and> rv_delay_ms r \<le> 60000"

definition redirect_ok :: "request_model_redirect \<Rightarrow> bool" where
  "redirect_ok r \<longleftrightarrow> rd_from r \<noteq> [] \<and> rd_to r \<noteq> [] \<and> length (code_points (rd_from r)) \<le> 256
     \<and> length (code_points (rd_to r)) \<le> 256"

definition activity_output_ok :: "output_activity \<Rightarrow> bool" where
  "activity_output_ok out \<longleftrightarrow> [] \<notin> set (oa_tools out)"

definition diagnostics_ok :: "conversion_diagnostic list \<Rightarrow> bool" where
  "diagnostics_ok ds \<longleftrightarrow> ds \<noteq> [] \<and> length ds \<le> 64 \<and> list_all (\<lambda>d. cd_code d \<noteq> []) ds"

definition carried_item_ok :: "context_item \<Rightarrow> bool" where
  "carried_item_ok i \<longleftrightarrow> 0 \<le> ci_tokens i \<and> pred_option ((\<le>) 0) (ci_count i)"

definition context_sound :: "request_context \<Rightarrow> bool" where
  "context_sound c \<longleftrightarrow> list_all carried_item_ok (cx_items c)
     \<and> pred_option (\<lambda>p. 0 \<le> cp_history p \<and> 0 \<le> cp_tool_results p \<and> 0 \<le> cp_tools p \<and> 0 \<le> cp_system p
          \<and> 0 \<le> cp_memory p \<and> 0 \<le> cp_other p) (cx_parts c)
     \<and> pred_option (\<lambda>r. 0 \<le> fr_count r) (cx_failed_repeats c)"

definition hits_from :: "jstr set \<Rightarrow> privacy_hit_count list \<Rightarrow> bool" where
  "hits_from seen hits \<longleftrightarrow> distinct (map ph_kind hits) \<and> seen \<inter> set (map ph_kind hits) = {}
     \<and> list_all (\<lambda>h. 1 \<le> ph_count h) hits \<and> set (map ph_kind hits) \<subseteq> js ` set privacyHitKinds"

definition known_hit_kind :: "jstr \<Rightarrow> bool" where
  "known_hit_kind kind \<longleftrightarrow> kind \<in> js ` set privacyHitKinds"

lemma parse_hits_Cons:
  "parse_hits path seen i (item # items) = Inr hits \<Longrightarrow>
    \<exists>kind n rest. known_hit_kind kind \<and> 1 \<le> n \<and> kind \<notin> seen
      \<and> parse_hits path (insert kind seen) (Suc i) items = Inr rest \<and> hits = \<lparr>ph_kind = kind, ph_count = n\<rparr> # rest"
  unfolding parse_hits.simps Let_def known_hit_kind_def [symmetric]
  by (elim bindE_InrE) (auto simp: res not_less)

lemma hits_read: "parse_hits path seen i items = Inr hits \<Longrightarrow> hits_from seen hits"
proof (induction items arbitrary: seen i hits)
  case (Cons item items)
  from parse_hits_Cons [OF Cons.prems] obtain kind n rest where
    k: "known_hit_kind kind" "1 \<le> n" "kind \<notin> seen" and
    r: "parse_hits path (insert kind seen) (Suc i) items = Inr rest" and
    h: "hits = \<lparr>ph_kind = kind, ph_count = n\<rparr> # rest" by blast
  from Cons.IH [OF r] k show ?case unfolding h by (auto simp: hits_from_def known_hit_kind_def)
qed (simp add: hits_from_def)

lemma restore_read: "parsePrivacyRestore v path = Inr x \<Longrightarrow> pred_option restore_ok x"
  unfolding parsePrivacyRestore_def Let_def
  by (cases x)
    (auto simp: record_readers restore_ok_def parsePrivacyHits_def res hits_from_def not_less
      dest!: hits_read split: if_splits elim!: bindE_InrE)

lemma confidence_read: "optionalPrivacyConfidence v path = Inr x \<Longrightarrow> pred_option confidence_ok x"
  by (cases x) (auto simp: optionalPrivacyConfidence_def parse_confidence_def record_readers res confidence_ok_def not_less)

lemma positive_count_iff [record_readers]: "positive_count o' path = Inr n \<longleftrightarrow> field o' ''count'' = jint n \<and> 1 \<le> n"
  by (auto simp: positive_count_def record_readers res not_less)

lemma finding_read: "parse_finding v path = Inr f \<Longrightarrow> finding_sound f"
  by (auto simp: parse_finding_def res record_readers finding_sound_def dest!: confidence_read)

lemma ignored_read: "parse_ignored v path = Inr f \<Longrightarrow> ignored_ok f"
  by (auto simp: parse_ignored_def res record_readers ignored_ok_def dest!: confidence_read)

lemma unless_empty_all: "list_all P xs \<Longrightarrow> unless_empty xs = Some ys \<Longrightarrow> list_all P ys \<and> ys \<noteq> []"
  by (auto simp: unless_empty_def split: if_splits)

lemma findings_read: "optionalPrivacyFindings v path = Inr (Some fs) \<Longrightarrow> list_all finding_sound fs \<and> fs \<noteq> []"
  by (auto simp: optionalPrivacyFindings_def parsePrivacyFindings_def res record_readers unless_empty_def
      dest!: mapE_list_all [where P = finding_sound] finding_read split: if_splits)

lemma ignored_list_read: "optionalPrivacyIgnored v path = Inr (Some fs) \<Longrightarrow> list_all ignored_ok fs \<and> fs \<noteq> []"
  by (auto simp: optionalPrivacyIgnored_def res record_readers unless_empty_def Let_def
      dest!: mapE_list_all [where P = ignored_ok] ignored_read split: if_splits)

lemma recovery_read: "parseRecovery v path = Inr r \<Longrightarrow> recovery_ok r"
  unfolding parseRecovery_def by (elim bindE_InrE) (auto simp: res recovery_ok_def not_less)

lemma redirect_read: "parseRecordRedirect v path = Inr x \<Longrightarrow> pred_option redirect_ok x"
  by (cases x) (auto simp: parseRecordRedirect_def record_readers res redirect_ok_def not_less)

lemma output_read: "optionalOutput v path = Inr x \<Longrightarrow> pred_option activity_output_ok x"
  by (auto simp: optionalOutput_def record_readers res activity_output_ok_def tool_names_def split: if_splits option.splits)

lemma diagnostic_read: "parse_diagnostic v path = Inr d \<Longrightarrow> cd_code d \<noteq> []"
  unfolding parse_diagnostic_def by (elim bindE_InrE) (auto simp: res)

lemma diagnostics_read: "optionalConversionDiagnostics v path = Inr (Some ds) \<Longrightarrow> diagnostics_ok ds"
  by (auto simp: optionalConversionDiagnostics_def res record_readers unless_empty_def diagnostics_ok_def not_less
      dest: mapE_length intro!: mapE_list_all [where P = "\<lambda>d. cd_code d \<noteq> []"] diagnostic_read split: if_splits)

lemma item_read: "parse_item v path = Inr (Some i) \<Longrightarrow> carried_item_ok i"
  unfolding parse_item_def contextItemFields_def
  by (elim bindE_InrE) (auto simp: res record_readers carried_item_ok_def split: option.splits)

lemma list_read:
  assumes "parse_list reader v path = Inr xs" and "\<And>v path x. reader v path = Inr x \<Longrightarrow> P x"
  shows "list_all P xs"
  using assms(1) by (auto simp: parse_list_def res record_readers intro: mapE_list_all [OF _ assms(2)] split: if_splits)

lemma known_items_all: "list_all (pred_option P) xs \<Longrightarrow> list_all P (known_items xs)"
  by (induction xs) (auto simp: known_items_def map_filter_simps pred_option_def split: option.splits)

lemma context_read: "parseRequestContext v path = Inr c \<Longrightarrow> context_sound c"
proof -
  assume c: "parseRequestContext v path = Inr c"
  have items: "list_all carried_item_ok (known_items xs)" if "parse_list parse_item w p = Inr xs" for w p xs
    by (intro known_items_all list_read [OF that]) (auto simp: pred_option_def item_read)
  have parts: "parse_parts w p = Inr x \<Longrightarrow> 0 \<le> cp_history x \<and> 0 \<le> cp_tool_results x \<and> 0 \<le> cp_tools x \<and> 0 \<le> cp_system x
      \<and> 0 \<le> cp_memory x \<and> 0 \<le> cp_other x" for w p x
    by (auto simp: parse_parts_def res record_readers)
  have repeats: "parseFailedRepeats w p = Inr r \<Longrightarrow> 0 \<le> fr_count r" for w p r
    by (auto simp: parseFailedRepeats_def res record_readers)
  from c show ?thesis
    unfolding parseRequestContext_def
    by (elim bindE_InrE) (auto simp: context_sound_def record_readers pred_option_def dest: items parts repeats)
qed

end
