(* ===== verification/Record_Parsers.thy ===== *)
theory Record_Parsers
  imports Record_Readers
begin

text \<open>
  The responses of \<open>request-record-model.ts\<close> for requests, conversations and the live board, read whole:
  what the core sent is refused, or becomes a value whose every member keeps the bounds the views rely
  on. \<open>Date.parse\<close> is an argument.
\<close>

section \<open>Requests\<close>

definition parseRequestRecordAt :: "json \<Rightarrow> jstr \<Rightarrow> data_error + request_record" where
  "parseRequestRecordAt value path =
     (let later = (\<lambda>o' k d. if has_own o' k then wholeOf o' k path else Inr d) in
     bindE (recordObjectAt value path) (\<lambda>o'.
     bindE (throwIf (\<not> has_own o' ''id'') (record_invalid (at_field path ''id'') ''missing'')) (\<lambda>_.
     bindE (labelOf o' ''status'' path ''unknownStatus'' statuses request_status_name) (\<lambda>status.
     bindE (later o' ''attempt_index'' 1) (\<lambda>attempt.
     bindE (later o' ''child_count'' 0) (\<lambda>children.
     bindE (throwIf (attempt < 0) (record_invalid (at_field path ''attempt_index'') ''nonNegativeInteger'')) (\<lambda>_.
     bindE (throwIf (children < 0) (record_invalid (at_field path ''child_count'') ''nonNegativeInteger'')) (\<lambda>_.
     bindE (if field o' ''recovery'' = JUndef then Inr None
            else bindE (parseRecovery (field o' ''recovery'') (at_field path ''recovery'')) (\<lambda>r. Inr (Some r))) (\<lambda>recovery.
     bindE (textOf o' ''id'' path) (\<lambda>id'.
     bindE (ownTextOf o' ''parent_request_id'' path) (\<lambda>parent.
     bindE (textOf o' ''started_at'' path) (\<lambda>started.
     bindE (nullableTextOf o' ''completed_at'' path) (\<lambda>completed.
     bindE (textOf o' ''input_protocol'' path) (\<lambda>protocol.
     bindE (nullableTextOf o' ''requested_model'' path) (\<lambda>model.
     bindE (parseRecordRedirect (field o' ''model_redirect'') (at_field path ''model_redirect'')) (\<lambda>redirect.
     bindE (optionalOutput (field o' ''output'') (at_field path ''output'')) (\<lambda>output.
     bindE (optionalStringField o' ''reasoning_effort'' path) (\<lambda>effort.
     bindE (flagOf o' ''streaming'' path) (\<lambda>streaming.
     bindE (nullableTextOf o' ''route_id'' path) (\<lambda>route.
     bindE (nullableTextOf o' ''service_id'' path) (\<lambda>service.
     bindE (optionalRoutingDecision (field o' ''routing_decision'') (at_field path ''routing_decision'')) (\<lambda>routing.
     bindE (optionalConversionDiagnostics (field o' ''conversion_diagnostics'') (at_field path ''conversion_diagnostics'')) (\<lambda>diagnostics.
     bindE (nullableTextOf o' ''local_access_token_id'' path) (\<lambda>token.
     bindE (nullableIntAt (field o' ''http_status'') (at_field path ''http_status'')) (\<lambda>http.
     bindE (nullableIntAt (field o' ''latency_ms'') (at_field path ''latency_ms'')) (\<lambda>latency.
     bindE (optionalPerformanceNumber (field o' ''first_token_ms'') (at_field path ''first_token_ms'') True) (\<lambda>first_token.
     bindE (optionalPerformanceNumber (field o' ''first_answer_ms'') (at_field path ''first_answer_ms'') True) (\<lambda>first_answer.
     bindE (parseUsage (field o' ''usage'') (at_field path ''usage'')) (\<lambda>usage.
     bindE (parseError (field o' ''error'') (at_field path ''error'')) (\<lambda>failure.
     bindE (parseAuditSummary (field o' ''audit'') (at_field path ''audit'')) (\<lambda>audit.
     bindE (parsePrivacyRestore (field o' ''privacy_restore'') (at_field path ''privacy_restore'')) (\<lambda>restore.
     bindE (parsePrivacyDecision (field o' ''privacy_decision'') (at_field path ''privacy_decision'')) (\<lambda>decision.
     bindE (optionalPrivacyFindings (field o' ''privacy_findings'') path) (\<lambda>findings.
     bindE (optionalPrivacyIgnored (field o' ''privacy_ignored'') path) (\<lambda>ignored.
     bindE (ownTextOf o' ''session_id'' path) (\<lambda>session.
     bindE (ownTextOf o' ''previous_response_id'' path) (\<lambda>previous.
     bindE (ownTextOf o' ''output_response_id'' path) (\<lambda>response.
     bindE (ownTextOf o' ''input_preview'' path) (\<lambda>preview.
     bindE (parseTurnIndex (field o' ''turn_index'') (at_field path ''turn_index'')) (\<lambda>turn.
     bindE (parseSessionLink (field o' ''session_link'') (at_field path ''session_link'')) (\<lambda>link.
     bindE (optionalStringField o' ''parent_session_id'' path) (\<lambda>parent_session.
     bindE (when_given (field o' ''context'') (\<lambda>v. parseRequestContext v (at_field path ''context''))) (\<lambda>carried.
     bindE (optionalStringField o' ''project'' path) (\<lambda>project.
     bindE (parseSessionCursors (field o' ''cursors'') (at_field path ''cursors'')) (\<lambda>cursors.
     bindE (parseRequestEvents (field o' ''events'') (at_field path ''events'')) (\<lambda>events.
     Inr \<lparr>rq_client_type = optionalClientType (field o' ''client_type''), rq_recovery = recovery, rq_id = id',
          rq_parent_request_id = parent, rq_attempt_index = attempt, rq_child_count = children, rq_started_at = started,
          rq_completed_at = completed, rq_status = status, rq_input_protocol = protocol, rq_requested_model = model,
          rq_model_redirect = redirect, rq_output = output, rq_reasoning_effort = effort, rq_streaming = streaming,
          rq_route_id = route, rq_service_id = service, rq_routing_decision = routing,
          rq_conversion_diagnostics = diagnostics, rq_local_access_token_id = token, rq_http_status = http,
          rq_latency_ms = map_option of_int latency, rq_first_token_ms = first_token, rq_first_answer_ms = first_answer,
          rq_usage = usage, rq_error = failure, rq_audit = audit, rq_privacy_restore = restore,
          rq_privacy_decision = decision, rq_privacy_findings = findings, rq_privacy_ignored = ignored,
          rq_session_id = session, rq_previous_response_id = previous, rq_output_response_id = response,
          rq_input_preview = preview, rq_turn_index = turn, rq_session_link = link, rq_parent_session_id = parent_session,
          rq_context = carried, rq_project = project, rq_cursors = cursors, rq_events = events\<rparr>))))))))))))))))))))))))))))))))))))))))))))))"

definition parseRequestRecord :: "json \<Rightarrow> data_error + request_record" where
  "parseRequestRecord value = parseRequestRecordAt value (js ''$'')"

section \<open>Conversations\<close>

definition readable_time :: "date_parser \<Rightarrow> jstr \<Rightarrow> bool" where
  "readable_time parse s \<longleftrightarrow> parse s \<noteq> None"

definition usdAmountPattern :: rx where
  "usdAmountPattern =
     Seq (Alt (chr CHR ''0'') (Seq (Cls (\<lambda>c. 49 \<le> c \<and> c \<le> 57)) (Many (Cls is_digit))))
         (opt_rx (Seq (chr CHR ''.'') (Rep 1 9 (Cls is_digit))))"

definition usdAmountAt :: "json \<Rightarrow> jstr \<Rightarrow> data_error + jstr" where
  "usdAmountAt value path =
     bindE (recordStringAt value path) (\<lambda>amount.
     bindE (throwIf (\<not> matches usdAmountPattern amount) (record_invalid path ''badFormat'')) (\<lambda>_. Inr amount))"

definition parse_ratio :: "json \<Rightarrow> jstr \<Rightarrow> data_error + rat option" where
  "parse_ratio ratio path =
     (if absent_value ratio then Inr None
      else (case ratio of
          JNum (Fin q) \<Rightarrow> if 0 \<le> q \<and> q \<le> 1 then Inr (Some q) else Inl (record_invalid path ''nonNegativeNumber'')
        | _ \<Rightarrow> Inl (record_invalid path ''nonNegativeNumber'')))"

definition parseSessionUsage :: "json \<Rightarrow> jstr \<Rightarrow> data_error + session_usage" where
  "parseSessionUsage value path =
     bindE (recordObjectAt value path) (\<lambda>usage.
     bindE (parse_ratio (field usage ''cache_hit_ratio'') (at_field path ''cache_hit_ratio'')) (\<lambda>ratio.
     bindE (countOf usage ''input_tokens'' path) (\<lambda>input.
     bindE (countOf usage ''output_tokens'' path) (\<lambda>output.
     bindE (countOf usage ''cache_read_tokens'' path) (\<lambda>cache_read.
     bindE (countOf usage ''cache_write_tokens'' path) (\<lambda>cache_write.
     Inr \<lparr>su_input_tokens = input, su_output_tokens = output, su_cache_read_tokens = cache_read,
          su_cache_write_tokens = cache_write, su_cache_hit_ratio = ratio\<rparr>))))))"

definition parseSessionCost :: "json \<Rightarrow> jstr \<Rightarrow> data_error + session_cost" where
  "parseSessionCost value path =
     bindE (recordObjectAt value path) (\<lambda>cost.
     bindE (usdAmountAt (field cost ''amount_usd'') (at_field path ''amount_usd'')) (\<lambda>amount.
     bindE (countOf cost ''priced'' path) (\<lambda>priced.
     bindE (countOf cost ''unpriced'' path) (\<lambda>unpriced.
     bindE (countOf cost ''pending'' path) (\<lambda>pending.
     Inr \<lparr>sc_amount_usd = amount, sc_priced = priced, sc_unpriced = unpriced, sc_pending = pending\<rparr>)))))"

definition parse_start :: "date_parser \<Rightarrow> json \<Rightarrow> jstr \<Rightarrow> data_error + jstr" where
  "parse_start parse item path =
     bindE (recordStringAt item path) (\<lambda>started.
     bindE (throwIf (\<not> readable_time parse started) (record_invalid path ''timestamp'')) (\<lambda>_. Inr started))"

definition parseRequestSessionAt :: "date_parser \<Rightarrow> json \<Rightarrow> jstr \<Rightarrow> data_error + request_session" where
  "parseRequestSessionAt parse value path =
     bindE (recordObjectAt value path) (\<lambda>o'.
     bindE (labelOf o' ''status'' path ''unknownStatus'' sessionStatuses session_status_name) (\<lambda>status.
     bindE (wholeOf o' ''turn_count'' path) (\<lambda>turns.
     bindE (wholeOf o' ''call_count'' path) (\<lambda>calls'.
     bindE (throwIf (turns < 1 \<or> calls' < 1) (InvalidData path ''integerAtLeast'' [(''minimum'', 1)])) (\<lambda>_.
     bindE (wholeOf o' ''duration_ms'' path) (\<lambda>duration.
     bindE (throwIf (duration < 0) (record_invalid (at_field path ''duration_ms'') ''nonNegativeInteger'')) (\<lambda>_.
     bindE (nullableTextOf o' ''running_since'' path) (\<lambda>running.
     bindE (throwIf (case running of None \<Rightarrow> False | Some s \<Rightarrow> \<not> readable_time parse s)
              (record_invalid (at_field path ''running_since'') ''timestamp'')) (\<lambda>_.
     bindE (recordArrayAt (field o' ''active_request_starts'') (at_field path ''active_request_starts'')) (\<lambda>items.
     bindE (mapE (\<lambda>i item. parse_start parse item (at_index (at_field path ''active_request_starts'') i)) 0 items) (\<lambda>starts.
     bindE (textOf o' ''id'' path) (\<lambda>id'.
     bindE (textOf o' ''title'' path) (\<lambda>title.
     bindE (textOf o' ''started_at'' path) (\<lambda>started.
     bindE (textOf o' ''last_started_at'' path) (\<lambda>last_started.
     bindE (nullableTextOf o' ''completed_at'' path) (\<lambda>completed.
     bindE (optionalPerformanceNumber (field o' ''tool_duration_ms'') (at_field path ''tool_duration_ms'') True) (\<lambda>tool.
     bindE (optionalPerformanceNumber (field o' ''average_ttft_ms'') (at_field path ''average_ttft_ms'') False) (\<lambda>ttft.
     bindE (optionalPerformanceNumber (field o' ''output_tokens_per_second'') (at_field path ''output_tokens_per_second'') False) (\<lambda>speed.
     bindE (nullableTextOf o' ''requested_model'' path) (\<lambda>model.
     bindE (parseRecordRedirect (field o' ''model_redirect'') (at_field path ''model_redirect'')) (\<lambda>redirect.
     bindE (optionalOutput (field o' ''output'') (at_field path ''output'')) (\<lambda>output.
     bindE (optionalStringField o' ''reasoning_effort'' path) (\<lambda>effort.
     bindE (textOf o' ''input_protocol'' path) (\<lambda>protocol.
     bindE (nullableTextOf o' ''service_id'' path) (\<lambda>service.
     bindE (nullableTextOf o' ''local_access_token_id'' path) (\<lambda>token.
     bindE (optionalBoolField o' ''privacy_warned'' path) (\<lambda>warned.
     bindE (optionalStringField o' ''parent_session_id'' path) (\<lambda>parent.
     bindE (optionalIntField o' ''subagent_count'' path) (\<lambda>subagents.
     bindE (optionalIntField o' ''context_tokens'' path) (\<lambda>tokens.
     bindE (optionalIntField o' ''compaction_point_tokens'' path) (\<lambda>point.
     bindE (optionalIntField o' ''context_window_tokens'' path) (\<lambda>window.
     bindE (optionalIntField o' ''compaction_count'' path) (\<lambda>compactions.
     bindE (when_given (field o' ''usage'') (\<lambda>v. parseSessionUsage v (at_field path ''usage''))) (\<lambda>usage.
     bindE (when_given (field o' ''cost'') (\<lambda>v. parseSessionCost v (at_field path ''cost''))) (\<lambda>cost.
     bindE (when_given (field o' ''failed_repeats'') (\<lambda>v. parseFailedRepeats v (at_field path ''failed_repeats''))) (\<lambda>repeats.
     Inr \<lparr>se_client_type = optionalClientType (field o' ''client_type''), se_id = id', se_title = title,
          se_started_at = started, se_last_started_at = last_started, se_completed_at = completed,
          se_duration_ms = of_int duration, se_running_since = running, se_tool_duration_ms = Some tool,
          se_average_ttft_ms = Some ttft, se_output_tokens_per_second = Some speed, se_active_request_starts = starts,
          se_turn_count = turns, se_call_count = calls', se_status = status, se_requested_model = model,
          se_model_redirect = redirect, se_output = output, se_reasoning_effort = effort, se_input_protocol = protocol,
          se_service_id = service, se_local_access_token_id = token, se_privacy_warned = warned,
          se_parent_session_id = parent, se_subagent_count = subagents, se_context_tokens = tokens,
          se_compaction_point_tokens = point, se_context_window_tokens = window, se_compaction_count = compactions,
          se_usage = usage, se_cost = cost, se_failed_repeats = repeats\<rparr>))))))))))))))))))))))))))))))))))))"

definition parseRequestSession :: "date_parser \<Rightarrow> json \<Rightarrow> data_error + request_session" where
  "parseRequestSession parse value = parseRequestSessionAt parse value (js ''$'')"

section \<open>Pages\<close>

record 'a read_page =
  pg_items :: "'a list"
  pg_next_cursor :: "jstr option"

definition parse_page :: "(json \<Rightarrow> jstr \<Rightarrow> data_error + 'a) \<Rightarrow> json \<Rightarrow> data_error + 'a read_page" where
  "parse_page reader value =
     bindE (recordObjectAt value (js ''$'')) (\<lambda>page.
     bindE (recordArrayAt (field page ''items'') (js ''$.items'')) (\<lambda>items.
     bindE (nullableStringAt (field page ''next_cursor'') (js ''$.next_cursor'')) (\<lambda>cursor.
     bindE (mapE (\<lambda>i item. reader item (at_index (js ''$.items'') i)) 0 items) (\<lambda>parsed.
     Inr \<lparr>pg_items = parsed, pg_next_cursor = cursor\<rparr>))))"

definition parseRequestSessionPage :: "date_parser \<Rightarrow> json \<Rightarrow> data_error + request_session read_page" where
  "parseRequestSessionPage parse = parse_page (parseRequestSessionAt parse)"

definition parseRequestRecordPage :: "json \<Rightarrow> data_error + request_record read_page" where
  "parseRequestRecordPage = parse_page parseRequestRecordAt"

section \<open>The live board\<close>

definition gatewayRewritesAt :: "json \<Rightarrow> jstr \<Rightarrow> data_error + gateway_rewrite list" where
  "gatewayRewritesAt value path =
     bindE (recordArrayAt value path) (\<lambda>items.
     bindE (mapE (\<lambda>i item. recordStringAt item (at_index path i)) 0 items) (\<lambda>named.
     Inr (filter (\<lambda>rewrite. js (rewrite_name rewrite) \<in> set named) GATEWAY_REWRITES)))"

definition parse_activity_call :: "json \<Rightarrow> jstr \<Rightarrow> data_error + activity_call" where
  "parse_activity_call item path =
     bindE (recordObjectAt item path) (\<lambda>call.
     bindE (labelOf call ''status'' path ''unknownStatus'' statuses request_status_name) (\<lambda>status.
     bindE (textOf call ''session_id'' path) (\<lambda>session.
     bindE (optionalStringField call ''parent_session_id'' path) (\<lambda>parent.
     bindE (optionalStringField call ''model'' path) (\<lambda>model.
     bindE (textOf call ''started_at'' path) (\<lambda>started.
     bindE (nullableTextOf call ''completed_at'' path) (\<lambda>completed.
     bindE (optionalOutput (field call ''output'') (at_field path ''output'')) (\<lambda>output.
     bindE (optionalIntField call ''output_tokens'' path) (\<lambda>tokens.
     bindE (optionalStringField call ''service_id'' path) (\<lambda>service.
     bindE (optionalStringField call ''failed_service_id'' path) (\<lambda>failed.
     bindE (when_given (field call ''rewrites'') (\<lambda>v. gatewayRewritesAt v (at_field path ''rewrites''))) (\<lambda>rewrites.
     Inr \<lparr>ac_session_id = session, ac_parent_session_id = parent,
          ac_client_type = optionalClientType (field call ''client_type''), ac_model = model, ac_started_at = started,
          ac_completed_at = completed, ac_status = status, ac_output = output, ac_output_tokens = tokens,
          ac_service_id = service, ac_failed_service_id = failed, ac_rewrites = rewrites\<rparr>))))))))))))"

definition parseRequestActivity :: "json \<Rightarrow> data_error + request_activity" where
  "parseRequestActivity value =
     bindE (recordObjectAt value (js ''$'')) (\<lambda>activity.
     bindE (recordArrayAt (field activity ''calls'') (js ''$.calls'')) (\<lambda>items.
     bindE (textOf activity ''now'' (js ''$'')) (\<lambda>now.
     bindE (mapE (\<lambda>i item. parse_activity_call item (at_index (js ''$.calls'') i)) 0 items) (\<lambda>calls'.
     Inr \<lparr>ra_now = now, ra_calls = calls'\<rparr>))))"

section \<open>What a conversation sent\<close>

definition cacheMissReasons :: "cache_miss_reason list" where
  "cacheMissReasons = [ProviderChanged, ModelChanged, CacheExpired, PrefixChanged, MissUnknown]"

fun miss_name :: "cache_miss_reason \<Rightarrow> string" where
  "miss_name ProviderChanged = ''provider_changed''"
| "miss_name ModelChanged = ''model_changed''"
| "miss_name CacheExpired = ''expired''"
| "miss_name PrefixChanged = ''prefix_changed''"
| "miss_name MissUnknown = ''unknown''"

interpretation miss_enum: string_enum cacheMissReasons miss_name
proof
  show "x \<in> set cacheMissReasons" for x by (cases x) (simp_all add: cacheMissReasons_def)
  show "distinct (map miss_name cacheMissReasons)" by (simp add: cacheMissReasons_def)
qed

definition parse_context_call :: "json \<Rightarrow> jstr \<Rightarrow> data_error + context_call" where
  "parse_context_call item path =
     bindE (recordObjectAt item path) (\<lambda>call.
     bindE (textOf call ''request_id'' path) (\<lambda>request.
     bindE (countOf call ''tokens'' path) (\<lambda>tokens.
     Inr \<lparr>cc_request_id = request, cc_tokens = tokens\<rparr>)))"

definition parse_compaction :: "json \<Rightarrow> jstr \<Rightarrow> data_error + context_compaction" where
  "parse_compaction item path =
     bindE (recordObjectAt item path) (\<lambda>compaction.
     bindE (textOf compaction ''request_id'' path) (\<lambda>request.
     bindE (optionalStringField compaction ''summary_request_id'' path) (\<lambda>summary.
     bindE (countOf compaction ''before_tokens'' path) (\<lambda>before.
     bindE (countOf compaction ''after_tokens'' path) (\<lambda>after.
     bindE (flagOf compaction ''marked'' path) (\<lambda>marked.
     Inr \<lparr>cn_request_id = request, cn_summary_request_id = summary, cn_before_tokens = before,
          cn_after_tokens = after, cn_marked = marked\<rparr>))))))"

definition parse_miss :: "json \<Rightarrow> jstr \<Rightarrow> data_error + cache_miss" where
  "parse_miss item path =
     bindE (recordObjectAt item path) (\<lambda>miss.
     bindE (labelOf miss ''reason'' path ''unknownReason'' cacheMissReasons miss_name) (\<lambda>reason.
     bindE (textOf miss ''request_id'' path) (\<lambda>request.
     bindE (optionalStringField miss ''changed'' path) (\<lambda>changed.
     bindE (optionalIntField miss ''idle_ms'' path) (\<lambda>idle.
     bindE (optionalIntField miss ''ttl_ms'' path) (\<lambda>ttl.
     bindE (countOf miss ''rewritten_tokens'' path) (\<lambda>rewritten.
     bindE (when_given (field miss ''extra_usd'') (\<lambda>v. usdAmountAt v (at_field path ''extra_usd''))) (\<lambda>extra.
     Inr \<lparr>cs_request_id = request, cs_reason = reason, cs_changed = changed, cs_idle_ms = map_option of_int idle,
          cs_ttl_ms = map_option of_int ttl, cs_rewritten_tokens = rewritten, cs_extra_usd = extra\<rparr>))))))))"

definition array_check :: "jobj \<Rightarrow> jstr \<Rightarrow> string \<Rightarrow> data_error + json list" where
  "array_check o' path k = recordArrayAt (field o' k) (at_field path k)"

definition parseSessionContext :: "json \<Rightarrow> jstr \<Rightarrow> data_error + session_context" where
  "parseSessionContext value path =
     bindE (recordObjectAt value path) (\<lambda>o'.
     bindE (array_check o' path ''calls'') (\<lambda>call_items.
     bindE (array_check o' path ''compactions'') (\<lambda>compaction_items.
     bindE (array_check o' path ''cache_misses'') (\<lambda>miss_items.
     bindE (mapE (\<lambda>i item. parse_context_call item (at_index (at_field path ''calls'') i)) 0 call_items) (\<lambda>calls'.
     bindE (mapE (\<lambda>i item. parse_compaction item (at_index (at_field path ''compactions'') i)) 0 compaction_items) (\<lambda>compactions.
     bindE (mapE (\<lambda>i item. parse_miss item (at_index (at_field path ''cache_misses'') i)) 0 miss_items) (\<lambda>misses.
     Inr \<lparr>sx_calls = calls', sx_compactions = compactions, sx_cache_misses = misses\<rparr>)))))))"

section \<open>A conversation in detail\<close>

record session_totals =
  tt_call_count :: int
  tt_input_tokens :: int
  tt_output_tokens :: int

record session_detail =
  dt_session :: request_session
  dt_turns :: "request_record list"
  dt_subagents :: "request_session list option"
  dt_context :: "session_context option"
  dt_with_subagents :: "session_totals option"

definition parseSessionTotals :: "json \<Rightarrow> data_error + session_totals" where
  "parseSessionTotals value =
     (let path = js ''$.with_subagents'' in
     bindE (recordObjectAt value path) (\<lambda>totals.
     bindE (countOf totals ''call_count'' path) (\<lambda>calls'.
     bindE (countOf totals ''input_tokens'' path) (\<lambda>input.
     bindE (countOf totals ''output_tokens'' path) (\<lambda>output.
     Inr \<lparr>tt_call_count = calls', tt_input_tokens = input, tt_output_tokens = output\<rparr>)))))"

definition parseRequestSessionDetail :: "date_parser \<Rightarrow> json \<Rightarrow> data_error + session_detail" where
  "parseRequestSessionDetail parse value =
     bindE (parseRequestSessionAt parse value (js ''$'')) (\<lambda>session.
     bindE (recordObjectAt value (js ''$'')) (\<lambda>detail.
     bindE (recordArrayAt (field detail ''turns'') (js ''$.turns'')) (\<lambda>turn_items.
     bindE (when_given (field detail ''subagents'') (\<lambda>v. recordArrayAt v (js ''$.subagents''))) (\<lambda>subagent_items.
     bindE (mapE (\<lambda>i item. parseRequestRecordAt item (at_index (js ''$.turns'') i)) 0 turn_items) (\<lambda>turns.
     bindE (case subagent_items of None \<Rightarrow> Inr None
            | Some items \<Rightarrow>
                bindE (mapE (\<lambda>i item. parseRequestSessionAt parse item (at_index (js ''$.subagents'') i)) 0 items)
                  (\<lambda>subagents. Inr (Some subagents))) (\<lambda>subagents.
     bindE (when_given (field detail ''context'') (\<lambda>v. parseSessionContext v (js ''$.context''))) (\<lambda>carried.
     bindE (when_given (field detail ''with_subagents'') parseSessionTotals) (\<lambda>totals.
     Inr \<lparr>dt_session = session, dt_turns = turns, dt_subagents = subagents, dt_context = carried,
          dt_with_subagents = totals\<rparr>))))))))"

definition parsePurgeResult :: "json \<Rightarrow> data_error + int \<times> int" where
  "parsePurgeResult value =
     bindE (recordObjectAt value (js ''$'')) (\<lambda>result.
     bindE (wholeOf result ''deleted_records'' (js ''$'')) (\<lambda>records.
     bindE (wholeOf result ''deleted_audit_blobs'' (js ''$'')) (\<lambda>blobs.
     Inr (records, blobs))))"

section \<open>What is read keeps its bounds\<close>

definition whole_number :: "rat \<Rightarrow> bool" where
  "whole_number q \<longleftrightarrow> 0 \<le> q \<and> is_integer q"

definition record_sound :: "request_record \<Rightarrow> bool" where
  "record_sound r \<longleftrightarrow> 0 \<le> rq_attempt_index r \<and> 0 \<le> rq_child_count r
     \<and> pred_option recovery_ok (rq_recovery r) \<and> pred_option redirect_ok (rq_model_redirect r)
     \<and> pred_option activity_output_ok (rq_output r) \<and> pred_option whole_number (rq_first_token_ms r)
     \<and> pred_option whole_number (rq_first_answer_ms r) \<and> pred_option restore_ok (rq_privacy_restore r)
     \<and> pred_option (\<lambda>fs. fs \<noteq> [] \<and> list_all finding_sound fs) (rq_privacy_findings r)
     \<and> pred_option (\<lambda>is. is \<noteq> [] \<and> list_all ignored_ok is) (rq_privacy_ignored r)
     \<and> pred_option diagnostics_ok (rq_conversion_diagnostics r) \<and> pred_option ((\<le>) 1) (rq_turn_index r)
     \<and> pred_option context_sound (rq_context r)"

lemma performance_read: "optionalPerformanceNumber v path True = Inr x \<Longrightarrow> pred_option whole_number x"
  by (cases x) (simp_all add: record_readers whole_number_def)

lemma turn_read: "parseTurnIndex v path = Inr x \<Longrightarrow> pred_option ((\<le>) 1) x"
  by (cases x) (auto simp: parseTurnIndex_def record_readers res not_less)

lemma optional_context_read:
  "when_given v (\<lambda>w. parseRequestContext w path) = Inr x \<Longrightarrow> pred_option context_sound x"
  by (cases x) (auto simp: record_readers context_read)

lemma findings_pred: "optionalPrivacyFindings v path = Inr x \<Longrightarrow> pred_option (\<lambda>fs. fs \<noteq> [] \<and> list_all finding_sound fs) x"
  using findings_read by (cases x) auto

lemma ignored_pred: "optionalPrivacyIgnored v path = Inr x \<Longrightarrow> pred_option (\<lambda>is. is \<noteq> [] \<and> list_all ignored_ok is) x"
  using ignored_list_read by (cases x) auto

lemma diagnostics_pred: "optionalConversionDiagnostics v path = Inr x \<Longrightarrow> pred_option diagnostics_ok x"
  using diagnostics_read by (cases x) auto

lemma recovery_pred:
  "(if b then Inr None else bindE (parseRecovery v path) (\<lambda>r. Inr (Some r))) = Inr x \<Longrightarrow> pred_option recovery_ok x"
  by (cases x) (auto simp: res recovery_read split: if_splits)

lemmas parts_read = performance_read turn_read optional_context_read findings_pred ignored_pred diagnostics_pred
  restore_read redirect_read output_read recovery_pred

lemma record_read: "parseRequestRecordAt v path = Inr r \<Longrightarrow> record_sound r"
  unfolding parseRequestRecordAt_def Let_def
  by (elim bindE_InrE, (drule parts_read)+, drule sum.inject(2) [THEN iffD1], drule sym)
    (simp add: record_sound_def throwIf_eq_Inr not_less)

section \<open>Conversations written back\<close>

definition usage_sound :: "session_usage \<Rightarrow> bool" where
  "usage_sound u \<longleftrightarrow> 0 \<le> su_input_tokens u \<and> 0 \<le> su_output_tokens u \<and> 0 \<le> su_cache_read_tokens u
     \<and> 0 \<le> su_cache_write_tokens u \<and> pred_option (\<lambda>q. 0 \<le> q \<and> q \<le> 1) (su_cache_hit_ratio u)"

definition cost_sound :: "session_cost \<Rightarrow> bool" where
  "cost_sound c \<longleftrightarrow> matches usdAmountPattern (sc_amount_usd c) \<and> 0 \<le> sc_priced c \<and> 0 \<le> sc_unpriced c \<and> 0 \<le> sc_pending c"

definition counted :: "int option \<Rightarrow> bool" where
  "counted n \<longleftrightarrow> pred_option ((\<le>) 0) n"

definition session_sound :: "date_parser \<Rightarrow> request_session \<Rightarrow> bool" where
  "session_sound parse s \<longleftrightarrow> whole_number (se_duration_ms s) \<and> pred_option (readable_time parse) (se_running_since s)
     \<and> (\<exists>x. se_tool_duration_ms s = Some x \<and> pred_option whole_number x)
     \<and> (\<exists>x. se_average_ttft_ms s = Some x \<and> pred_option ((\<le>) 0) x)
     \<and> (\<exists>x. se_output_tokens_per_second s = Some x \<and> pred_option ((\<le>) 0) x)
     \<and> list_all (readable_time parse) (se_active_request_starts s) \<and> 1 \<le> se_turn_count s \<and> 1 \<le> se_call_count s
     \<and> pred_option redirect_ok (se_model_redirect s) \<and> pred_option activity_output_ok (se_output s)
     \<and> counted (se_subagent_count s) \<and> counted (se_context_tokens s) \<and> counted (se_compaction_point_tokens s)
     \<and> counted (se_context_window_tokens s) \<and> counted (se_compaction_count s)
     \<and> pred_option usage_sound (se_usage s) \<and> pred_option cost_sound (se_cost s)
     \<and> pred_option (\<lambda>r. 0 \<le> fr_count r) (se_failed_repeats s)"

text \<open>The object a core sends for it: nothing for an absent member, null for one that must be there.\<close>

definition null_or :: "('a \<Rightarrow> json) \<Rightarrow> 'a option \<Rightarrow> json" where
  "null_or f x = (case x of None \<Rightarrow> JNull | Some y \<Rightarrow> f y)"

definition redirect_json :: "request_model_redirect \<Rightarrow> json" where
  "redirect_json r = JObj [(js ''from'', JStr (rd_from r)), (js ''to'', JStr (rd_to r))]"

definition output_json :: "output_activity \<Rightarrow> json" where
  "output_json out = JObj [(js ''kind'', js_str (output_name (oa_kind out))), (js ''tools'', JArr (map JStr (oa_tools out)))]"

definition usage_json :: "session_usage \<Rightarrow> json" where
  "usage_json u = JObj ([(js ''input_tokens'', jint (su_input_tokens u)), (js ''output_tokens'', jint (su_output_tokens u)),
     (js ''cache_read_tokens'', jint (su_cache_read_tokens u)), (js ''cache_write_tokens'', jint (su_cache_write_tokens u))]
     @ opt_field ''cache_hit_ratio'' jrat (su_cache_hit_ratio u))"

definition cost_json :: "session_cost \<Rightarrow> json" where
  "cost_json c = JObj [(js ''amount_usd'', JStr (sc_amount_usd c)), (js ''priced'', jint (sc_priced c)),
     (js ''unpriced'', jint (sc_unpriced c)), (js ''pending'', jint (sc_pending c))]"

definition repeats_json :: "failed_repeats \<Rightarrow> json" where
  "repeats_json r = JObj ([(js ''tool'', JStr (fr_tool r)), (js ''count'', jint (fr_count r))]
     @ opt_field ''command'' JBool (fr_command r))"

definition client_json :: "client_type \<Rightarrow> json" where
  "client_json c = js_str (client_type_name c)"

definition session_json :: "request_session \<Rightarrow> json" where
  "session_json s = JObj
     ([(js ''id'', JStr (se_id s)), (js ''title'', JStr (se_title s)), (js ''started_at'', JStr (se_started_at s)),
       (js ''last_started_at'', JStr (se_last_started_at s)), (js ''completed_at'', null_or JStr (se_completed_at s)),
       (js ''duration_ms'', jrat (se_duration_ms s)), (js ''running_since'', null_or JStr (se_running_since s)),
       (js ''tool_duration_ms'', null_or jrat (Option.bind (se_tool_duration_ms s) id)),
       (js ''average_ttft_ms'', null_or jrat (Option.bind (se_average_ttft_ms s) id)),
       (js ''output_tokens_per_second'', null_or jrat (Option.bind (se_output_tokens_per_second s) id)),
       (js ''active_request_starts'', JArr (map JStr (se_active_request_starts s))),
       (js ''turn_count'', jint (se_turn_count s)), (js ''call_count'', jint (se_call_count s)),
       (js ''status'', js_str (session_status_name (se_status s))),
       (js ''requested_model'', null_or JStr (se_requested_model s)),
       (js ''reasoning_effort'', null_or JStr (se_reasoning_effort s)), (js ''input_protocol'', JStr (se_input_protocol s)),
       (js ''service_id'', null_or JStr (se_service_id s)),
       (js ''local_access_token_id'', null_or JStr (se_local_access_token_id s)),
       (js ''client_type'', null_or client_json (se_client_type s)),
       (js ''model_redirect'', null_or redirect_json (se_model_redirect s)), (js ''output'', null_or output_json (se_output s)),
       (js ''privacy_warned'', null_or JBool (se_privacy_warned s)),
       (js ''parent_session_id'', null_or JStr (se_parent_session_id s)),
       (js ''subagent_count'', null_or jint (se_subagent_count s)), (js ''context_tokens'', null_or jint (se_context_tokens s)),
       (js ''compaction_point_tokens'', null_or jint (se_compaction_point_tokens s)),
       (js ''context_window_tokens'', null_or jint (se_context_window_tokens s)),
       (js ''compaction_count'', null_or jint (se_compaction_count s)), (js ''usage'', null_or usage_json (se_usage s)),
       (js ''cost'', null_or cost_json (se_cost s)), (js ''failed_repeats'', null_or repeats_json (se_failed_repeats s))])"

lemma jrat_simps [simp]: "jrat q \<noteq> JNull" "jrat q \<noteq> JUndef" "\<not> absent_value (jrat q)" "jrat q = jrat r \<longleftrightarrow> q = r"
  by (simp_all add: jrat_def)

lemma jrat_whole: "whole_number q \<Longrightarrow> jrat q = jint \<lfloor>q\<rfloor>"
  unfolding jrat_def jint_def whole_number_def is_integer_def by (simp only: simp_thms)

lemma null_or_given:
  assumes "\<And>y. x = Some y \<Longrightarrow> \<not> absent_value (f y) \<and> reader (f y) = Inr y"
  shows "when_given (null_or f x) reader = Inr x"
  using assms by (cases x) (auto simp: null_or_def when_given_def)

lemma null_or_absent [simp]: "absent_value (null_or f x) \<longleftrightarrow> x = None \<or> absent_value (f (the x))"
  by (cases x) (simp_all add: null_or_def)

lemma read_values [simp]:
  "recordObjectAt (JObj o') path = Inr o'" "recordStringAt (JStr s) path = Inr s" "recordArrayAt (JArr vs) path = Inr vs"
  "recordBoolAt (JBool b) path = Inr b" "intAt (jint n) path = Inr n" "0 \<le> n \<Longrightarrow> nonNegativeIntAt (jint n) path = Inr n"
  by (simp_all add: record_readers)

text \<open>Evaluation of the readers of members.\<close>

lemmas read_members = textOf_def flagOf_def countOf_def wholeOf_def

lemma output_written: "activity_output_ok out \<Longrightarrow> optionalOutput (output_json out) path = Inr (Some out)"
proof -
  assume ok: "activity_output_ok out"
  have "List.map_filter jstring (map JStr xs) = xs" for xs
    by (induction xs) (simp_all add: map_filter_simps)
  with ok have "tool_names (map JStr (oa_tools out)) = oa_tools out"
    by (auto simp: tool_names_def activity_output_ok_def filter_id_conv)
  then show ?thesis
    by (simp add: optionalOutput_def output_json_def output_enum.enum_of_name when_given_def)
qed

lemma redirect_written: "redirect_ok r \<Longrightarrow> parseRecordRedirect (redirect_json r) path = Inr (Some r)"
  by (simp add: parseRecordRedirect_def redirect_json_def read_members when_given_def redirect_ok_def not_less)

lemma ratio_written:
  "pred_option (\<lambda>q. 0 \<le> q \<and> q \<le> 1) x \<Longrightarrow> parse_ratio (opt_val jrat x) path = Inr x"
  by (cases x) (simp_all add: parse_ratio_def jrat_def)

lemma usage_written: "usage_sound u \<Longrightarrow> parseSessionUsage (usage_json u) path = Inr u"
  by (simp add: parseSessionUsage_def usage_json_def read_members usage_sound_def ratio_written)

lemma cost_written: "cost_sound c \<Longrightarrow> parseSessionCost (cost_json c) path = Inr c"
  by (simp add: parseSessionCost_def cost_json_def read_members cost_sound_def usdAmountAt_def)

lemma flag_written: "when_given (opt_val JBool x) (\<lambda>v. recordBoolAt v path) = Inr x"
  by (cases x) (simp_all add: when_given_def)

lemma repeats_written: "0 \<le> fr_count r \<Longrightarrow> parseFailedRepeats (repeats_json r) path = Inr r"
  by (simp add: parseFailedRepeats_def repeats_json_def read_members optionalBoolField_def flag_written)

lemma given_written:
  "pred_option P x \<Longrightarrow> (\<And>y. P y \<Longrightarrow> \<not> absent_value (f y) \<and> reader (f y) = Inr y) \<Longrightarrow>
    when_given (null_or f x) reader = Inr x"
  by (cases x) (auto simp: null_or_def when_given_def)

lemma texts_written [simp]:
  "nullableStringAt (null_or JStr x) path = Inr x"
  "when_given (null_or JStr x) (\<lambda>v. recordStringAt v p) = Inr x"
  "when_given (null_or JBool b) (\<lambda>v. recordBoolAt v p) = Inr b"
  by (cases x; cases b; simp add: nullableStringAt_def null_or_def when_given_def)+

lemma counts_written: "counted n \<Longrightarrow> when_given (null_or jint n) (\<lambda>v. nonNegativeIntAt v p) = Inr n"
  by (cases n) (simp_all add: null_or_def when_given_def counted_def)

lemma numbers_written:
  "pred_option whole_number x \<Longrightarrow> optionalPerformanceNumber (null_or jrat x) p True = Inr x"
  "pred_option ((\<le>) 0) x \<Longrightarrow> optionalPerformanceNumber (null_or jrat x) p False = Inr x"
  by (cases x; simp add: record_readers null_or_def whole_number_def)+

lemma client_written [simp]: "optionalClientType (null_or client_json x) = x"
  by (cases x) (simp_all add: optionalClientType_def null_or_def client_json_def client_type_enum.enum_of_name)

lemma maybe_output_written: "pred_option activity_output_ok x \<Longrightarrow> optionalOutput (null_or output_json x) p = Inr x"
  by (cases x) (simp_all add: null_or_def output_written, simp add: optionalOutput_def)

lemma maybe_redirect_written: "pred_option redirect_ok x \<Longrightarrow> parseRecordRedirect (null_or redirect_json x) p = Inr x"
  by (cases x) (simp_all add: null_or_def redirect_written, simp add: parseRecordRedirect_def when_given_def)

lemma parts_written:
  "pred_option usage_sound x1 \<Longrightarrow> when_given (null_or usage_json x1) (\<lambda>v. parseSessionUsage v p) = Inr x1"
  "pred_option cost_sound x2 \<Longrightarrow> when_given (null_or cost_json x2) (\<lambda>v. parseSessionCost v p) = Inr x2"
  "pred_option (\<lambda>r. 0 \<le> fr_count r) x3 \<Longrightarrow> when_given (null_or repeats_json x3) (\<lambda>v. parseFailedRepeats v p) = Inr x3"
  by (erule given_written; simp add: usage_written cost_written repeats_written; simp add: usage_json_def cost_json_def repeats_json_def)+

lemma starts_written:
  "list_all (readable_time parse) xs \<Longrightarrow> mapE (\<lambda>i item. parse_start parse item (p i)) n (map JStr xs) = Inr xs"
  by (rule mapE_map_Inr) (auto simp: parse_start_def list_all_iff)

lemma session_written:
  assumes "session_sound parse s"
  shows "parseRequestSessionAt parse (session_json s) path = Inr s"
proof -
  from assms obtain tool ttft speed where sp: "se_tool_duration_ms s = Some tool" "se_average_ttft_ms s = Some ttft"
    "se_output_tokens_per_second s = Some speed" "pred_option whole_number tool" "pred_option ((\<le>) 0) ttft"
    "pred_option ((\<le>) 0) speed" and d: "whole_number (se_duration_ms s)" "pred_option (readable_time parse) (se_running_since s)"
    by (auto simp: session_sound_def)
  have dur: "jrat (se_duration_ms s) = jint \<lfloor>se_duration_ms s\<rfloor>" using d(1) by (rule jrat_whole)
  have dur': "\<not> se_duration_ms s < 0" using d(1) by (simp add: whole_number_def)
  have same: "rat_of_int \<lfloor>se_duration_ms s\<rfloor> = se_duration_ms s"
    using d(1) unfolding whole_number_def is_integer_def by (rule conjunct2)
  have run: "(case se_running_since s of None \<Rightarrow> False | Some t \<Rightarrow> \<not> readable_time parse t) = False"
    using d(2) by (cases "se_running_since s") simp_all
  show ?thesis
    using assms
    by (simp add: parseRequestSessionAt_def session_json_def read_members nullableTextOf_def optionalStringField_def
        optionalBoolField_def optionalIntField_def labelOf_def session_status_enum.enum_of_name session_sound_def sp
        dur dur' same run numbers_written counts_written maybe_output_written maybe_redirect_written parts_written starts_written)
qed

lemma ratio_read: "parse_ratio v path = Inr x \<Longrightarrow> pred_option (\<lambda>q. 0 \<le> q \<and> q \<le> 1) x"
  by (auto simp: parse_ratio_def split: json.splits jnum.splits if_splits)

lemma usage_read: "when_given v (\<lambda>w. parseSessionUsage w p) = Inr x \<Longrightarrow> pred_option usage_sound x"
  by (cases x) (auto simp: record_readers parseSessionUsage_def res usage_sound_def dest: ratio_read)

lemma cost_read: "when_given v (\<lambda>w. parseSessionCost w p) = Inr x \<Longrightarrow> pred_option cost_sound x"
  by (cases x) (auto simp: record_readers parseSessionCost_def usdAmountAt_def res cost_sound_def)

lemma repeats_read: "when_given v (\<lambda>w. parseFailedRepeats w p) = Inr x \<Longrightarrow> pred_option (\<lambda>r. 0 \<le> fr_count r) x"
  by (cases x) (auto simp: record_readers parseFailedRepeats_def res)

lemma count_read: "optionalIntField o' k p = Inr x \<Longrightarrow> counted x"
  by (cases x) (auto simp: record_readers counted_def)

lemma plain_number_read: "optionalPerformanceNumber v p False = Inr x \<Longrightarrow> pred_option ((\<le>) 0) x"
  by (cases x) (simp_all add: record_readers)

lemma starts_read:
  "mapE (\<lambda>i item. parse_start parse item (p i)) n items = Inr xs \<Longrightarrow> list_all (readable_time parse) xs"
  by (erule mapE_list_all) (auto simp: parse_start_def res)

lemma running_read:
  "throwIf (case x of None \<Rightarrow> False | Some s \<Rightarrow> \<not> readable_time parse s) e = Inr u \<Longrightarrow> pred_option (readable_time parse) x"
  by (cases x) (auto simp: throwIf_eq_Inr)

lemmas session_parts_read = usage_read cost_read repeats_read count_read plain_number_read starts_read running_read
  performance_read redirect_read output_read

lemma session_read: "parseRequestSessionAt parse v path = Inr s \<Longrightarrow> session_sound parse s"
  unfolding parseRequestSessionAt_def
  by (elim bindE_InrE, (drule session_parts_read)+, drule sum.inject(2) [THEN iffD1], drule sym)
    (simp add: session_sound_def throwIf_eq_Inr not_less whole_number_def)

interpretation session_codec: json_codec "parseRequestSessionAt parse" session_json "session_sound parse" for parse
  by unfold_locales (auto intro: session_read session_written)

section \<open>Properties\<close>

definition page_json :: "('a \<Rightarrow> json) \<Rightarrow> 'a read_page \<Rightarrow> json" where
  "page_json render page =
     JObj [(js ''items'', JArr (map render (pg_items page))), (js ''next_cursor'', null_or JStr (pg_next_cursor page))]"

text \<open>A conversation as it starts, for the witnesses.\<close>

definition sample_conversation :: request_session where
  "sample_conversation = \<lparr>se_client_type = Some ClientCodex, se_id = js ''s1'', se_title = js ''Fix'', se_started_at = js ''t0'',
     se_last_started_at = js ''t0'', se_completed_at = None, se_duration_ms = 0, se_running_since = Some (js ''t0''),
     se_tool_duration_ms = Some None, se_average_ttft_ms = Some (Some 12), se_output_tokens_per_second = Some None,
     se_active_request_starts = [js ''t0''], se_turn_count = 1, se_call_count = 2, se_status = Recorded Pending,
     se_requested_model = None, se_model_redirect = None, se_output = Some \<lparr>oa_kind = OutputTool, oa_tools = [js ''Read'']\<rparr>,
     se_reasoning_effort = None, se_input_protocol = js ''openai.chat'', se_service_id = None,
     se_local_access_token_id = None, se_privacy_warned = None, se_parent_session_id = None, se_subagent_count = Some 3,
     se_context_tokens = None, se_compaction_point_tokens = None, se_context_window_tokens = None,
     se_compaction_count = None, se_usage = None, se_cost = None, se_failed_repeats = None\<rparr>"

lemma sample_conversation_sound: "session_sound (\<lambda>_. Some 0) sample_conversation"
  by (simp add: session_sound_def sample_conversation_def whole_number_def readable_time_def is_integer_def activity_output_ok_def
      counted_def js_def)

lemma page_written:
  assumes "list_all (session_sound parse) (pg_items page)"
  shows "parseRequestSessionPage parse (page_json session_json page) = Inr page"
  using session_codec.parse_array_render [OF assms]
  by (simp add: parseRequestSessionPage_def parse_page_def page_json_def)

text \<open>
  A page of conversations survives the trip. Whatever the core sent, every conversation the reader
  lets through keeps the bounds the lists rely on (counts of at least one, durations and rates that are
  not negative, dates that can be read, no blank tool name), and the page written back reads as itself.
\<close>

theorem session_page_rereads:
  assumes "parseRequestSessionPage parse v = Inr page"
  shows "list_all (session_sound parse) (pg_items page)
    \<and> parseRequestSessionPage parse (page_json session_json page) = Inr page"
proof -
  have "list_all (session_sound parse) (pg_items page)"
    using assms unfolding parseRequestSessionPage_def parse_page_def
    by (elim bindE_InrE) (auto dest: session_codec.parse_array_valid)
  with page_written show ?thesis by blast
qed

theorem session_page_rereads_witness:
  "let page = \<lparr>pg_items = [sample_conversation], pg_next_cursor = Some (js ''c'')\<rparr> in
   parseRequestSessionPage (\<lambda>_. Some 0) (page_json session_json page) = Inr page"
proof -
  define page where "page = \<lparr>pg_items = [sample_conversation], pg_next_cursor = Some (js ''c'')\<rparr>"
  have "parseRequestSessionPage (\<lambda>_. Some 0) (page_json session_json page) = Inr page"
    by (rule page_written) (simp add: page_def sample_conversation_sound)
  from session_page_rereads [OF this] show ?thesis unfolding Let_def page_def [symmetric] by blast
qed

lemma bindE_map: "map_sum id f (bindE m g) = bindE m (\<lambda>x. map_sum id f (g x))"
  by (cases m) simp_all

text \<open>
  A client the interface does not know never costs the list a conversation. Whatever value the core
  sends for the client, the conversation is read or refused exactly as without it, and only its client
  differs: the label when it is known, unknown otherwise, none for an absent one.
\<close>

theorem client_label_tolerated:
  "parseRequestSessionAt parse (JObj ((js ''client_type'', label) # o')) path =
     map_sum id (\<lambda>s. s\<lparr>se_client_type := (if absent_value label then None
        else Some (case enum_of CLIENT_TYPES client_type_name label of Some c \<Rightarrow> c | None \<Rightarrow> ClientUnknown))\<rparr>)
       (parseRequestSessionAt parse (JObj o') path)"
  by (simp add: parseRequestSessionAt_def bindE_map optionalClientType_def read_members nullableTextOf_def
      optionalStringField_def optionalBoolField_def optionalIntField_def labelOf_def del: fun_upd_apply)

lemma list_all_given: "list_all (\<lambda>m. pred_option P (f m)) ms \<Longrightarrow> list_all P (List.map_filter f ms)"
  by (induction ms) (auto simp: map_filter_simps split: option.splits)

lemma whole_part: "u \<in> lang (Alt (chr CHR ''0'') (Seq (Cls (\<lambda>c. 49 \<le> c \<and> c \<le> 57)) (Many (Cls is_digit)))) \<Longrightarrow>
    u \<noteq> [] \<and> list_all is_digit u"
  unfolding lang.simps(3,4) lang_Many_Cls chr_def by (auto simp: is_chr_def is_digit_def)

lemma opt_part: "v \<in> lang (opt_rx (Seq (chr CHR ''.'') (Rep 1 9 (Cls is_digit)))) \<Longrightarrow>
    v = [] \<or> (\<exists>f. v = 46 # f \<and> list_all is_digit f \<and> length f \<le> 9)"
proof -
  have one: "pow n L \<subseteq> {[]} \<union> L" if "n \<le> 1" for n L using that by (cases n) auto
  assume "v \<in> lang (opt_rx (Seq (chr CHR ''.'') (Rep 1 9 (Cls is_digit))))"
  then have "v = [] \<or> v \<in> lang (Seq (chr CHR ''.'') (Rep 1 9 (Cls is_digit)))"
    unfolding opt_rx_def lang.simps(5) using one by fastforce
  then show ?thesis
    unfolding lang.simps(3) lang_Rep_Cls chr_def by (auto simp: is_chr_def)
qed

lemma usd_pattern_amount:
  assumes "matches usdAmountPattern a"
  shows "usd_amount a"
proof -
  from assms obtain u v where a: "a = u @ v" and
    u: "u \<noteq> [] \<and> list_all is_digit u" and v: "v = [] \<or> (\<exists>f. v = 46 # f \<and> list_all is_digit f \<and> length f \<le> 9)"
    unfolding matches_iff usdAmountPattern_def lang.simps(3) [of "Alt _ _"] using whole_part opt_part by blast
  show ?thesis
    using v u no_dot [of u] no_dot by (auto simp: a usd_amount_def split_on_none split_on_one)
qed

definition usd_value :: "jstr \<Rightarrow> rat" where
  "usd_value a = (case js_Number a of Fin q \<Rightarrow> q | _ \<Rightarrow> 0)"

lemma usd_value_number: "usd_amount a \<Longrightarrow> js_Number a = Fin (usd_value a)"
  by (rule nanos_amount [of a]) (simp_all add: usd_value_def)

lemma misses_read: "mapE (\<lambda>i item. parse_miss item (p i)) n items = Inr ms \<Longrightarrow> list_all (\<lambda>m. pred_option usd_amount (cs_extra_usd m)) ms"
proof (erule mapE_list_all)
  fix i x y assume "parse_miss x (p i) = Inr y"
  then show "pred_option usd_amount (cs_extra_usd y)"
    by (cases "cs_extra_usd y") (auto simp: parse_miss_def res record_readers usdAmountAt_def usd_pattern_amount)
qed

text \<open>
  What cache misses cost beyond a hit always adds up. The amounts of every context the reader accepts
  are sums of billionths of a dollar, so their sum never fails, and it reads back as exactly the sum of
  their values; without any amount there is none to show.
\<close>

theorem extra_costs_add_up:
  assumes "parseSessionContext v path = Inr c"
  defines "amounts \<equiv> List.map_filter cs_extra_usd (sx_cache_misses c)"
  shows "if amounts = [] then sumUSD amounts = Some None
    else \<exists>total. sumUSD amounts = Some (Some total) \<and> js_Number total = Fin (sum_list (map usd_value amounts))"
proof -
  have "list_all (\<lambda>m. pred_option usd_amount (cs_extra_usd m)) (sx_cache_misses c)"
    using assms(1) unfolding parseSessionContext_def by (elim bindE_InrE) (auto dest: misses_read)
  then have "list_all usd_amount amounts"
    unfolding amounts_def by (rule list_all_given)
  moreover from this have "list_all2 (\<lambda>a q. js_Number a = Fin q) amounts (map usd_value amounts)"
    by (simp add: list_all2_conv_all_nth list_all_length usd_value_number)
  ultimately show ?thesis using sum_usd_exact by (simp add: sumUSD_def)
qed

definition sample_context :: json where
  "sample_context = JObj [(js ''calls'', JArr []), (js ''compactions'', JArr []), (js ''cache_misses'', JArr
     [JObj [(js ''request_id'', js_str ''r1''), (js ''reason'', js_str ''expired''), (js ''rewritten_tokens'', jint 5),
            (js ''extra_usd'', js_str ''0.25'')]])]"

lemma sample_amount: "matches usdAmountPattern (js ''0.25'')"
  by (simp add: usdAmountPattern_def matches_def opt_rx_def chr_def is_chr_def js_def is_digit_def numeral_eq_Suc)

theorem extra_costs_add_up_witness:
  "\<exists>total. sumUSD [js ''0.25''] = Some (Some total) \<and> js_Number total = Fin (usd_value (js ''0.25''))"
proof -
  define c where "c = \<lparr>sx_calls = [], sx_compactions = [], sx_cache_misses =
    [\<lparr>cs_request_id = js ''r1'', cs_reason = CacheExpired, cs_changed = None, cs_idle_ms = None, cs_ttl_ms = None,
      cs_rewritten_tokens = 5, cs_extra_usd = Some (js ''0.25'')\<rparr>]\<rparr>"
  have "parseSessionContext sample_context (js ''$'') = Inr c"
    by (simp add: parseSessionContext_def sample_context_def array_check_def parse_miss_def read_members labelOf_def
        optionalStringField_def optionalIntField_def when_given_def usdAmountAt_def js_str_def sample_amount c_def
        miss_enum.enum_of_name [of CacheExpired, unfolded js_str_def, simplified])
  from extra_costs_add_up [OF this] show ?thesis by (simp add: c_def map_filter_simps)
qed

text \<open>
  C36: every request of a page the reader accepts keeps these bounds. The index of its attempt and the number
  of its children are not negative; the times to its first token and first answer are whole and not negative;
  its turn is 1 or later. A recovery waits at most a minute, a redirect is between two named models of at most
  256 characters, the tools of its output have names. The counts of a restore summary are not negative, its
  channels fit its total, and its kinds are known, listed once and counted. Findings and passed over values
  are never an empty list, are counted at least once, and carry confidences in order between 0 and 1.
  Diagnostics are 1 to 64, each with a code. The sizes and numbers of its context are not negative. Nothing
  is said of its token usage or its cost, whose numbers this reader takes with any sign.
\<close>

theorem request_page_bounds:
  assumes "parseRequestRecordPage v = Inr page"
  shows "list_all record_sound (pg_items page)"
  using assms unfolding parseRequestRecordPage_def parse_page_def
  by (elim bindE_InrE) (auto intro: mapE_list_all record_read)

definition sample_record_json :: json where
  "sample_record_json = JObj
     [(js ''id'', js_str ''r1''), (js ''status'', js_str ''succeeded''), (js ''started_at'', js_str ''t0''),
      (js ''completed_at'', JNull), (js ''input_protocol'', js_str ''openai.chat''), (js ''requested_model'', JNull),
      (js ''streaming'', JBool True), (js ''route_id'', JNull), (js ''service_id'', JNull),
      (js ''local_access_token_id'', JNull), (js ''http_status'', jint 200), (js ''latency_ms'', jint 80),
      (js ''usage'', JNull), (js ''error'', JNull),
      (js ''audit'', JObj [(js ''request_body_captured'', JBool True), (js ''response_content_captured'', JBool True),
         (js ''request_body_truncated'', JBool False), (js ''response_content_truncated'', JBool False)]),
      (js ''turn_index'', jint 1)]"

lemma sample_record_read: "\<exists>r. parseRequestRecordAt sample_record_json path = Inr r"
  by (simp add: parseRequestRecordAt_def sample_record_json_def read_members labelOf_def nullableTextOf_def ownTextOf_def
      optionalStringField_def when_given_def parseRecordRedirect_def optionalOutput_def optionalRoutingDecision_def
      optionalConversionDiagnostics_def nullableIntAt_def nullableStringAt_def optionalPerformanceNumber_def
      parseUsage_def parseError_def parseAuditSummary_def optionalBoolAt_def parsePrivacyRestore_def parsePrivacyDecision_def
      optionalPrivacyFindings_def parsePrivacyFindings_def optionalPrivacyIgnored_def parseTurnIndex_def parseSessionLink_def
      parseSessionCursors_def parse_list_def parseRequestEvents_def js_str_def Let_def
      status_enum.enum_of_name [of Succeeded, unfolded js_str_def, simplified])

theorem request_page_bounds_witness:
  "\<exists>page. parseRequestRecordPage (JObj [(js ''items'', JArr [sample_record_json]), (js ''next_cursor'', JNull)]) = Inr page
    \<and> list_all record_sound (pg_items page)"
proof -
  obtain r where r: "parseRequestRecordAt sample_record_json (at_index (js ''$.items'') 0) = Inr r"
    using sample_record_read by blast
  define page where "page = \<lparr>pg_items = [r], pg_next_cursor = None\<rparr>"
  have "parseRequestRecordPage (JObj [(js ''items'', JArr [sample_record_json]), (js ''next_cursor'', JNull)]) = Inr page"
    by (simp add: parseRequestRecordPage_def parse_page_def r nullableStringAt_def page_def)
  with request_page_bounds [OF this] show ?thesis by blast
qed

end
