(* ===== verification/Audit_Content.thy ===== *)
theory Audit_Content
  imports Conversation_Bodies Record_Parsers
begin

text \<open>
  A call's captured contents as \<open>request-record-model.ts\<close> reads them: each of the four bodies is there to
  read, or withheld with a reason and without its content. The record of \<open>Conversation_Bodies\<close> is
  extended by the view, the HTTP data and the findings that the viewers show.
\<close>

record audit_header =
  ah_name :: jstr
  ah_value :: jstr
  ah_redacted :: bool

record audit_http_meta =
  am_method :: jstr
  am_url :: jstr
  am_http_version :: jstr
  am_request_headers :: "audit_header list"
  am_response_status :: "int option"
  am_response_headers :: "audit_header list"

record audit_privacy_finding =
  af_kind :: jstr
  af_json_path :: jstr
  af_count :: int

datatype audit_view = ShareableView | FullView

record audit_read = audit_content +
  ct_view :: audit_view
  ct_http_meta :: "audit_http_meta option"
  ct_upstream_http_meta :: "audit_http_meta option"
  ct_privacy_findings :: "audit_privacy_finding list"

definition auditWithheldReasons :: "withheld_reason list" where
  "auditWithheldReasons = [WithheldPrivacyRedacted, WithheldPrivacyBlocked, WithheldPrivacyRestored, WithheldPrivacyFailOpen,
     WithheldPrivacyTrusted, WithheldPrivacyPending, WithheldPrivacyUnknown, WithheldRawLocked, WithheldRawNotKept]"

fun withheld_name :: "withheld_reason \<Rightarrow> string" where
  "withheld_name WithheldPrivacyRedacted = ''privacy_redacted''"
| "withheld_name WithheldPrivacyBlocked = ''privacy_blocked''"
| "withheld_name WithheldPrivacyRestored = ''privacy_restored''"
| "withheld_name WithheldPrivacyFailOpen = ''privacy_fail_open''"
| "withheld_name WithheldPrivacyTrusted = ''privacy_trusted''"
| "withheld_name WithheldPrivacyPending = ''privacy_pending''"
| "withheld_name WithheldPrivacyUnknown = ''privacy_unknown''"
| "withheld_name WithheldRawLocked = ''raw_locked''"
| "withheld_name WithheldRawNotKept = ''raw_not_kept''"

interpretation withheld_enum: string_enum auditWithheldReasons withheld_name
proof
  show "x \<in> set auditWithheldReasons" for x by (cases x) (simp_all add: auditWithheldReasons_def)
  show "distinct (map withheld_name auditWithheldReasons)" by (simp add: auditWithheldReasons_def)
qed

definition audit_exposures :: "audit_exposure list" where "audit_exposures = [ExposureShareable, ExposureRaw]"

fun exposure_name :: "audit_exposure \<Rightarrow> string" where
  "exposure_name ExposureShareable = ''shareable''"
| "exposure_name ExposureRaw = ''raw''"

interpretation exposure_enum: string_enum audit_exposures exposure_name
proof
  show "x \<in> set audit_exposures" for x by (cases x) (simp_all add: audit_exposures_def)
  show "distinct (map exposure_name audit_exposures)" by (simp add: audit_exposures_def)
qed

definition audit_views :: "audit_view list" where "audit_views = [ShareableView, FullView]"

fun view_name :: "audit_view \<Rightarrow> string" where
  "view_name ShareableView = ''shareable''"
| "view_name FullView = ''full''"

interpretation view_enum: string_enum audit_views view_name
proof
  show "x \<in> set audit_views" for x by (cases x) (simp_all add: audit_views_def)
  show "distinct (map view_name audit_views)" by (simp add: audit_views_def)
qed

datatype parsed_part = ReadablePart audit_content_part | WithheldPart audit_withheld_part

definition read_withheld :: "jobj \<Rightarrow> jstr \<Rightarrow> jstr \<Rightarrow> bool \<Rightarrow> int \<Rightarrow> data_error + parsed_part" where
  "read_withheld part path media_type truncated bytes =
     bindE (flagOf part ''withheld'' path) (\<lambda>withheld.
     bindE (throwIf (\<not> withheld) (record_invalid (at_field path ''withheld'') ''unexpectedValue'')) (\<lambda>_.
     bindE (throwIf (has_own part ''content'') (record_invalid (at_field path ''content'') ''unsupportedField'')) (\<lambda>_.
     bindE (textOf part ''reason'' path) (\<lambda>_.
     bindE (labelOf part ''reason'' path ''unknownReason'' auditWithheldReasons withheld_name) (\<lambda>reason.
     bindE (flagOf part ''raw_available'' path) (\<lambda>raw.
     Inr (WithheldPart \<lparr>aw_reason = reason, aw_raw_available = raw, aw_media_type = media_type,
       aw_truncated = truncated, aw_captured_bytes = bytes\<rparr>)))))))"

definition read_readable :: "jobj \<Rightarrow> jstr \<Rightarrow> jstr \<Rightarrow> bool \<Rightarrow> int \<Rightarrow> data_error + parsed_part" where
  "read_readable part path media_type truncated bytes =
     bindE (textOf part ''content'' path) (\<lambda>content.
     bindE (if has_own part ''exposure''
            then bindE (textOf part ''exposure'' path) (\<lambda>_.
                 bindE (labelOf part ''exposure'' path ''unexpectedValue'' audit_exposures exposure_name) (\<lambda>e. Inr (Some e)))
            else Inr None) (\<lambda>exposure.
     Inr (ReadablePart \<lparr>ac_media_type = media_type, ac_content = content, ac_truncated = truncated,
       ac_captured_bytes = bytes, ac_exposure = exposure\<rparr>)))"

definition parseAuditContentPart :: "json \<Rightarrow> jstr \<Rightarrow> data_error + parsed_part option" where
  "parseAuditContentPart value path =
     when_given value (\<lambda>v.
     bindE (recordObjectAt v path) (\<lambda>part.
     bindE (textOf part ''media_type'' path) (\<lambda>media_type.
     bindE (flagOf part ''truncated'' path) (\<lambda>truncated.
     bindE (wholeOf part ''captured_bytes'' path) (\<lambda>bytes.
     if has_own part ''withheld'' then read_withheld part path media_type truncated bytes
     else read_readable part path media_type truncated bytes)))))"

definition parseAuditPrivacyFinding :: "json \<Rightarrow> jstr \<Rightarrow> data_error + audit_privacy_finding" where
  "parseAuditPrivacyFinding value path =
     bindE (recordObjectAt value path) (\<lambda>finding.
     bindE (textOf finding ''kind'' path) (\<lambda>kind.
     bindE (throwIf (kind = []) (record_invalid (at_field path ''kind'') ''empty'')) (\<lambda>_.
     bindE (textOf finding ''json_path'' path) (\<lambda>place.
     bindE (wholeOf finding ''count'' path) (\<lambda>n.
     Inr \<lparr>af_kind = kind, af_json_path = place, af_count = n\<rparr>)))))"

definition parseAuditHeader :: "json \<Rightarrow> jstr \<Rightarrow> data_error + audit_header" where
  "parseAuditHeader value path =
     bindE (recordObjectAt value path) (\<lambda>header.
     bindE (textOf header ''name'' path) (\<lambda>name.
     bindE (textOf header ''value'' path) (\<lambda>text'.
     bindE (flagOf header ''redacted'' path) (\<lambda>redacted.
     Inr \<lparr>ah_name = name, ah_value = text', ah_redacted = redacted\<rparr>))))"

definition parseAuditHTTPMeta :: "json \<Rightarrow> jstr \<Rightarrow> data_error + audit_http_meta option" where
  "parseAuditHTTPMeta value path =
     (let headers = (\<lambda>k items. mapE (\<lambda>i header. parseAuditHeader header (at_index (at_field path k) i)) 0 items) in
      if value = JNull then Inr None
      else
        bindE (recordObjectAt value path) (\<lambda>meta.
        bindE (recordArrayAt (field meta ''request_headers'') (at_field path ''request_headers'')) (\<lambda>asked.
        bindE (recordArrayAt (field meta ''response_headers'') (at_field path ''response_headers'')) (\<lambda>answered.
        bindE (textOf meta ''method'' path) (\<lambda>verb.
        bindE (textOf meta ''url'' path) (\<lambda>url.
        bindE (textOf meta ''http_version'' path) (\<lambda>version.
        bindE (headers ''request_headers'' asked) (\<lambda>request_headers.
        bindE (nullableIntAt (field meta ''response_status'') (at_field path ''response_status'')) (\<lambda>status.
        bindE (headers ''response_headers'' answered) (\<lambda>response_headers.
        Inr (Some \<lparr>am_method = verb, am_url = url, am_http_version = version, am_request_headers = request_headers,
          am_response_status = status, am_response_headers = response_headers\<rparr>)))))))))))"

definition readable_of :: "parsed_part option \<Rightarrow> audit_content_part option" where
  "readable_of p = (case p of Some (ReadablePart r) \<Rightarrow> Some r | _ \<Rightarrow> None)"

definition withheld_of :: "parsed_part option \<Rightarrow> audit_withheld_part option" where
  "withheld_of p = (case p of Some (WithheldPart w) \<Rightarrow> Some w | _ \<Rightarrow> None)"

definition own_meta :: "jobj \<Rightarrow> string \<Rightarrow> data_error + audit_http_meta option" where
  "own_meta o' k = (if has_own o' k then parseAuditHTTPMeta (field o' k) (at_field (js ''$'') k) else Inr None)"

definition parseAuditContent :: "json \<Rightarrow> data_error + audit_read" where
  "parseAuditContent value =
     (let path = js ''$''; part = (\<lambda>o' k. parseAuditContentPart (field o' k) (at_field path k)) in
     bindE (recordObjectAt value path) (\<lambda>content.
     bindE (if has_own content ''view''
            then bindE (textOf content ''view'' path) (\<lambda>_. labelOf content ''view'' path ''unexpectedValue'' audit_views view_name)
            else Inr FullView) (\<lambda>view.
     bindE (part content ''request_body'') (\<lambda>request.
     bindE (part content ''response_content'') (\<lambda>response.
     bindE (part content ''upstream_request_body'') (\<lambda>upstream_request.
     bindE (part content ''upstream_response_content'') (\<lambda>upstream_response.
     bindE (if has_own content ''privacy_findings''
            then recordArrayAt (field content ''privacy_findings'') (at_field path ''privacy_findings'')
            else Inr []) (\<lambda>items.
     bindE (textOf content ''request_id'' path) (\<lambda>id'.
     bindE (own_meta content ''http_meta'') (\<lambda>meta.
     bindE (own_meta content ''upstream_http_meta'') (\<lambda>upstream_meta.
     bindE (mapE (\<lambda>i item. parseAuditPrivacyFinding item (at_index (at_field path ''privacy_findings'') i)) 0 items) (\<lambda>findings.
     Inr \<lparr>ct_request_id = id', ct_request_body = readable_of request, ct_response_content = readable_of response,
          ct_upstream_request_body = readable_of upstream_request, ct_upstream_response_content = readable_of upstream_response,
          ct_withheld = \<lparr>wh_request_body = withheld_of request, wh_response_content = withheld_of response,
            wh_upstream_request_body = withheld_of upstream_request,
            wh_upstream_response_content = withheld_of upstream_response\<rparr>,
          ct_view = view, ct_http_meta = meta, ct_upstream_http_meta = upstream_meta,
          ct_privacy_findings = findings\<rparr>))))))))))))"

definition content_parts :: "('a audit_content_scheme) \<Rightarrow> audit_content_part option list" where
  "content_parts c = [ct_request_body c, ct_response_content c, ct_upstream_request_body c, ct_upstream_response_content c]"

definition withheld_parts :: "('a audit_content_scheme) \<Rightarrow> audit_withheld_part option list" where
  "withheld_parts c = (let w = ct_withheld c in
     [wh_request_body w, wh_response_content w, wh_upstream_request_body w, wh_upstream_response_content w])"

definition holdsRawPart :: "('a audit_content_scheme) \<Rightarrow> bool" where
  "holdsRawPart c \<longleftrightarrow> list_ex (\<lambda>p. case p of None \<Rightarrow> False | Some part \<Rightarrow> ac_exposure part = Some ExposureRaw) (content_parts c)"

definition holdsLockedPart :: "('a audit_content_scheme) \<Rightarrow> bool" where
  "holdsLockedPart c \<longleftrightarrow> list_ex (\<lambda>p. case p of None \<Rightarrow> False | Some part \<Rightarrow> aw_reason part = WithheldRawLocked) (withheld_parts c)"

section \<open>What is withheld stays out\<close>

text \<open>The names of the bodies, and what a reply says of one.\<close>

definition auditBodyPartNames :: "string list" where
  "auditBodyPartNames = [''request_body'', ''response_content'', ''upstream_request_body'', ''upstream_response_content'']"

definition says_withheld :: "json \<Rightarrow> bool" where
  "says_withheld v \<longleftrightarrow> (case v of JObj o' \<Rightarrow> has_own o' ''withheld'' | _ \<Rightarrow> False)"

text \<open>The reason and the availability a reply states for a body it withholds, the rest of what is kept of it.\<close>

definition states_withheld :: "json \<Rightarrow> audit_withheld_part \<Rightarrow> bool" where
  "states_withheld v w \<longleftrightarrow>
     (case v of
        JObj o' \<Rightarrow> field o' ''withheld'' = JBool True \<and> \<not> has_own o' ''content''
          \<and> field o' ''reason'' = js_str (withheld_name (aw_reason w)) \<and> field o' ''raw_available'' = JBool (aw_raw_available w)
          \<and> field o' ''media_type'' = JStr (aw_media_type w) \<and> field o' ''truncated'' = JBool (aw_truncated w)
          \<and> field o' ''captured_bytes'' = jint (aw_captured_bytes w)
      | _ \<Rightarrow> False)"

definition gives_content :: "json \<Rightarrow> jstr \<Rightarrow> bool" where
  "gives_content v s \<longleftrightarrow> (case v of JObj o' \<Rightarrow> \<not> has_own o' ''withheld'' \<and> field o' ''content'' = JStr s | _ \<Rightarrow> False)"

lemma part_outcome:
  assumes "parseAuditContentPart v path = Inr p"
  shows "absent_value v \<and> p = None
    \<or> (\<exists>w. says_withheld v \<and> states_withheld v w \<and> readable_of p = None \<and> withheld_of p = Some w)
    \<or> (\<exists>r. gives_content v (ac_content r) \<and> readable_of p = Some r \<and> withheld_of p = None)"
proof (cases p)
  case None
  with assms show ?thesis by (simp add: parseAuditContentPart_def record_readers)
next
  case (Some part)
  with assms obtain o' media truncated bytes where v: "v = JObj o'"
    and meta: "field o' ''media_type'' = JStr media" "field o' ''truncated'' = JBool truncated"
      "field o' ''captured_bytes'' = jint bytes" and
    p: "(if has_own o' ''withheld'' then read_withheld o' path media truncated bytes
         else read_readable o' path media truncated bytes) = Inr part"
    unfolding parseAuditContentPart_def by (auto simp: record_readers elim!: bindE_InrE)
  show ?thesis
  proof (cases "has_own o' ''withheld''")
    case True
    with p v meta have "\<exists>w. part = WithheldPart w \<and> states_withheld v w"
      by (auto simp: read_withheld_def record_readers labelOf_def res states_withheld_def withheld_enum.enum_of_Some
          elim!: bindE_InrE)
    with True v Some show ?thesis by (auto simp: says_withheld_def readable_of_def withheld_of_def)
  next
    case False
    with p have "\<exists>r. part = ReadablePart r \<and> field o' ''content'' = JStr (ac_content r)"
      by (auto simp: read_readable_def record_readers elim!: bindE_InrE)
    with False v Some show ?thesis by (auto simp: gives_content_def readable_of_def withheld_of_def)
  qed
qed

definition part_faithful :: "json \<Rightarrow> audit_content_part option \<times> audit_withheld_part option \<Rightarrow> bool" where
  "part_faithful v pw \<longleftrightarrow> (case pw of
      (None, None) \<Rightarrow> absent_value v
    | (None, Some w) \<Rightarrow> says_withheld v \<and> states_withheld v w
    | (Some r, None) \<Rightarrow> gives_content v (ac_content r)
    | (Some r, Some w) \<Rightarrow> False)"

lemma part_faithful_read: "parseAuditContentPart v path = Inr p \<Longrightarrow> part_faithful v (readable_of p, withheld_of p)"
  using part_outcome [of v path p]
  by (auto simp: part_faithful_def readable_of_def withheld_of_def split: option.splits parsed_part.splits)

lemma withheld_empty:
  "parseAuditContentPart (JObj o') path = Inr p \<Longrightarrow> has_own o' ''withheld'' \<Longrightarrow> \<not> has_own o' ''content''"
  by (cases p) (auto simp: parseAuditContentPart_def record_readers read_withheld_def throwIf_eq_Inr elim!: bindE_InrE)

lemma content_reads:
  assumes "parseAuditContent (JObj o') = Inr c"
  obtains p1 p2 p3 p4 where
    "parseAuditContentPart (field o' ''request_body'') (at_field (js ''$'') ''request_body'') = Inr p1"
    "parseAuditContentPart (field o' ''response_content'') (at_field (js ''$'') ''response_content'') = Inr p2"
    "parseAuditContentPart (field o' ''upstream_request_body'') (at_field (js ''$'') ''upstream_request_body'') = Inr p3"
    "parseAuditContentPart (field o' ''upstream_response_content'') (at_field (js ''$'') ''upstream_response_content'') = Inr p4"
    "content_parts c = map readable_of [p1, p2, p3, p4]" "withheld_parts c = map withheld_of [p1, p2, p3, p4]"
  using assms unfolding parseAuditContent_def Let_def
  by (elim bindE_InrE) (auto simp: recordObjectAt_iff content_parts_def withheld_parts_def Let_def)

text \<open>
  C30: a body is shown or withheld, never both. For each of the four bodies of a reply the reader accepts:
  what is shown is the very content the reply gives for it, without being marked as withheld; a body the
  reply marks withheld is kept with the reason, the availability and the size the reply states and no
  content; and a body is missing from both exactly when the reply has none. A reply that carries the content
  of a withheld body is refused.
\<close>

theorem withheld_never_shown:
  assumes "parseAuditContent (JObj o') = Inr c"
  shows "list_all2 part_faithful (map (field o') auditBodyPartNames) (zip (content_parts c) (withheld_parts c))
    \<and> (\<forall>name \<in> set auditBodyPartNames. \<forall>o''. field o' name = JObj o'' \<and> has_own o'' ''withheld'' \<longrightarrow>
        \<not> has_own o'' ''content'')"
  using assms
proof (rule content_reads)
  fix p1 p2 p3 p4
  assume p: "parseAuditContentPart (field o' ''request_body'') (at_field (js ''$'') ''request_body'') = Inr p1"
    "parseAuditContentPart (field o' ''response_content'') (at_field (js ''$'') ''response_content'') = Inr p2"
    "parseAuditContentPart (field o' ''upstream_request_body'') (at_field (js ''$'') ''upstream_request_body'') = Inr p3"
    "parseAuditContentPart (field o' ''upstream_response_content'') (at_field (js ''$'') ''upstream_response_content'') = Inr p4"
    and parts: "content_parts c = map readable_of [p1, p2, p3, p4]" "withheld_parts c = map withheld_of [p1, p2, p3, p4]"
  show ?thesis
    using p [THEN part_faithful_read] withheld_empty p unfolding parts auditBodyPartNames_def by auto
qed

definition sample_reply :: jobj where
  "sample_reply = [(js ''request_id'', js_str ''r1''),
     (js ''request_body'', JObj [(js ''media_type'', js_str ''text''), (js ''truncated'', JBool False),
        (js ''captured_bytes'', jint 2), (js ''content'', js_str ''hi'')]),
     (js ''response_content'', JObj [(js ''media_type'', js_str ''text''), (js ''truncated'', JBool False),
        (js ''captured_bytes'', jint 9), (js ''withheld'', JBool True), (js ''reason'', js_str ''raw_locked''),
        (js ''raw_available'', JBool True)])]"

lemma sample_reply_read: "\<exists>c. parseAuditContent (JObj sample_reply) = Inr c"
  by (simp add: parseAuditContent_def sample_reply_def parseAuditContentPart_def read_withheld_def read_readable_def
      read_members labelOf_def when_given_def own_meta_def js_str_def Let_def
      withheld_enum.enum_of_name [of WithheldRawLocked, unfolded js_str_def, simplified])

theorem withheld_never_shown_witness:
  "\<exists>c. parseAuditContent (JObj sample_reply) = Inr c
    \<and> list_all2 part_faithful (map (field sample_reply) auditBodyPartNames) (zip (content_parts c) (withheld_parts c))"
proof -
  obtain c where c: "parseAuditContent (JObj sample_reply) = Inr c" using sample_reply_read by blast
  from withheld_never_shown [OF c] c show ?thesis by blast
qed

end
