(* ===== verification/Memory_View.thy ===== *)
theory Memory_View
  imports Audit_Content "HOL-Library.Multiset"
begin

text \<open>
  What agents remembered: the memory types and parsers of \<open>request-record-model.ts\<close> and
  \<open>request-memory-model.ts\<close>, the texts behind a memory, the days of its strip, the toolbox. The
  host's \<open>toLocaleLowerCase\<close> and \<open>Date.parse\<close> are arguments.
\<close>

record memory_project =
  mj_project :: "jstr option"
  mj_client_types :: "client_type list"
  mj_last_seen_at :: jstr

record memory_entry =
  me_file :: jstr
  me_path :: "jstr option"
  me_title :: "jstr option"
  me_hook :: "jstr option"
  me_noted_at :: "jstr option"
  me_reads :: "int list"
  me_total_reads :: int

record memory_story =
  my_file :: jstr
  my_title :: "jstr option"
  my_hook :: "jstr option"
  my_at :: jstr
  my_request_id :: "jstr option"
  my_session_id :: "jstr option"
  my_prompt :: "jstr option"

record memory_rules =
  ml_name :: jstr
  ml_path :: "jstr option"
  ml_scope :: "context_item_scope option"
  ml_first_seen_at :: "jstr option"
  ml_changed_at :: "jstr option"
  ml_request_id :: "jstr option"
  ml_session_id :: "jstr option"
  ml_before_request_id :: "jstr option"
  ml_captured :: "bool option"

record toolbox_skill =
  tk_name :: jstr
  tk_description :: "jstr option"
  tk_uses :: int
  tk_carried :: bool

record toolbox_tool =
  tn_name :: jstr
  tn_uses :: int
  tn_carried :: bool

record toolbox_server =
  tv_server :: jstr
  tv_tools :: "toolbox_tool list"

record memory_toolbox =
  tb_skills :: "toolbox_skill list"
  tb_mcp :: "toolbox_server list"
  tb_idle_tokens :: int

record project_memory =
  pj_projects :: "memory_project list"
  pj_project :: "jstr option"
  pj_client_type :: "client_type option"
  pj_day_start :: jstr
  pj_recent :: int
  pj_entries :: "memory_entry list"
  pj_stories :: "memory_story list"
  pj_rules :: "memory_rules list"
  pj_toolbox :: memory_toolbox
  pj_has_memory :: bool
  pj_has_rules :: bool

datatype memory_event_kind = NotedEvent | ReadEvent

record memory_event =
  mo_kind :: memory_event_kind
  mo_at :: jstr
  mo_request_id :: jstr
  mo_session_id :: "jstr option"
  mo_prompt :: "jstr option"
  mo_captured :: "bool option"

record memory_entry_detail =
  md_entry :: memory_entry
  md_events :: "memory_event list"

datatype text_item_kind = TextRules | TextMemory | TextSkills

record context_item_text =
  xi_kind :: text_item_kind
  xi_name :: "jstr option"
  xi_path :: "jstr option"
  xi_text :: jstr

record memory_write_text =
  xw_kind :: memory_write_kind
  xw_name :: jstr
  xw_path :: "jstr option"
  xw_content :: jstr

record memory_read_text =
  xr_name :: jstr
  xr_path :: "jstr option"
  xr_content :: jstr

record request_context_texts =
  xt_request_id :: jstr
  xt_withheld :: "bool option"
  xt_reason :: "withheld_reason option"
  xt_truncated :: "bool option"
  xt_items :: "context_item_text list"
  xt_summary :: "jstr option"
  xt_writes :: "memory_write_text list"
  xt_reads :: "memory_read_text list"

section \<open>Parsers\<close>

text \<open>A list that must be there, each element read at its place.\<close>

definition elements :: "(json \<Rightarrow> jstr \<Rightarrow> data_error + 'a) \<Rightarrow> jobj \<Rightarrow> string \<Rightarrow> jstr \<Rightarrow> data_error + 'a list" where
  "elements reader o' k path =
     bindE (recordArrayAt (field o' k) (at_field path k)) (\<lambda>items.
     mapE (\<lambda>i item. reader item (at_index (at_field path k) i)) 0 items)"

definition clientTypeAt :: "json \<Rightarrow> client_type" where
  "clientTypeAt value = (case optionalClientType value of None \<Rightarrow> ClientUnknown | Some c \<Rightarrow> c)"

definition parseMemoryEntry :: "json \<Rightarrow> jstr \<Rightarrow> data_error + memory_entry" where
  "parseMemoryEntry value path =
     bindE (recordObjectAt value path) (\<lambda>entry.
     bindE (textOf entry ''file'' path) (\<lambda>file.
     bindE (optionalStringField entry ''path'' path) (\<lambda>place.
     bindE (optionalStringField entry ''title'' path) (\<lambda>title.
     bindE (optionalStringField entry ''hook'' path) (\<lambda>hook.
     bindE (optionalStringField entry ''noted_at'' path) (\<lambda>noted.
     bindE (elements nonNegativeIntAt entry ''reads'' path) (\<lambda>reads.
     bindE (countOf entry ''total_reads'' path) (\<lambda>total.
     Inr \<lparr>me_file = file, me_path = place, me_title = title, me_hook = hook, me_noted_at = noted, me_reads = reads,
          me_total_reads = total\<rparr>))))))))"

definition parse_skill :: "json \<Rightarrow> jstr \<Rightarrow> data_error + toolbox_skill" where
  "parse_skill entry path =
     bindE (recordObjectAt entry path) (\<lambda>skill.
     bindE (textOf skill ''name'' path) (\<lambda>name.
     bindE (optionalStringField skill ''description'' path) (\<lambda>description.
     bindE (countOf skill ''uses'' path) (\<lambda>uses.
     bindE (flagOf skill ''carried'' path) (\<lambda>carried.
     Inr \<lparr>tk_name = name, tk_description = description, tk_uses = uses, tk_carried = carried\<rparr>)))))"

definition parse_tool :: "json \<Rightarrow> jstr \<Rightarrow> data_error + toolbox_tool" where
  "parse_tool raw path =
     bindE (recordObjectAt raw path) (\<lambda>tool.
     bindE (textOf tool ''name'' path) (\<lambda>name.
     bindE (countOf tool ''uses'' path) (\<lambda>uses.
     bindE (flagOf tool ''carried'' path) (\<lambda>carried.
     Inr \<lparr>tn_name = name, tn_uses = uses, tn_carried = carried\<rparr>))))"

definition parse_server :: "json \<Rightarrow> jstr \<Rightarrow> data_error + toolbox_server" where
  "parse_server entry path =
     bindE (recordObjectAt entry path) (\<lambda>server.
     bindE (textOf server ''server'' path) (\<lambda>name.
     bindE (elements parse_tool server ''tools'' path) (\<lambda>tools.
     Inr \<lparr>tv_server = name, tv_tools = tools\<rparr>)))"

definition parseMemoryToolbox :: "json \<Rightarrow> jstr \<Rightarrow> data_error + memory_toolbox" where
  "parseMemoryToolbox value path =
     bindE (recordObjectAt value path) (\<lambda>toolbox.
     bindE (elements parse_skill toolbox ''skills'' path) (\<lambda>skills.
     bindE (elements parse_server toolbox ''mcp'' path) (\<lambda>mcp.
     bindE (countOf toolbox ''idle_tokens'' path) (\<lambda>idle.
     Inr \<lparr>tb_skills = skills, tb_mcp = mcp, tb_idle_tokens = idle\<rparr>))))"

definition parse_project :: "json \<Rightarrow> jstr \<Rightarrow> data_error + memory_project" where
  "parse_project entry path =
     bindE (recordObjectAt entry path) (\<lambda>project.
     bindE (optionalStringField project ''project'' path) (\<lambda>name.
     bindE (elements (\<lambda>v _. Inr (clientTypeAt v)) project ''client_types'' path) (\<lambda>clients.
     bindE (textOf project ''last_seen_at'' path) (\<lambda>seen.
     Inr \<lparr>mj_project = name, mj_client_types = clients, mj_last_seen_at = seen\<rparr>))))"

definition parse_rules :: "json \<Rightarrow> jstr \<Rightarrow> data_error + memory_rules" where
  "parse_rules entry path =
     bindE (recordObjectAt entry path) (\<lambda>file.
     bindE (when_given (field file ''scope'') (\<lambda>_.
              labelOf file ''scope'' path ''unknownScope'' contextItemScopes item_scope_name)) (\<lambda>scope.
     bindE (textOf file ''name'' path) (\<lambda>name.
     bindE (optionalStringField file ''path'' path) (\<lambda>place.
     bindE (optionalStringField file ''first_seen_at'' path) (\<lambda>seen.
     bindE (optionalStringField file ''changed_at'' path) (\<lambda>changed.
     bindE (optionalStringField file ''request_id'' path) (\<lambda>request.
     bindE (optionalStringField file ''session_id'' path) (\<lambda>session.
     bindE (optionalStringField file ''before_request_id'' path) (\<lambda>before.
     bindE (optionalBoolField file ''captured'' path) (\<lambda>captured.
     Inr \<lparr>ml_name = name, ml_path = place, ml_scope = scope, ml_first_seen_at = seen, ml_changed_at = changed,
          ml_request_id = request, ml_session_id = session, ml_before_request_id = before,
          ml_captured = captured\<rparr>))))))))))"

definition parse_story :: "json \<Rightarrow> jstr \<Rightarrow> data_error + memory_story" where
  "parse_story entry path =
     bindE (recordObjectAt entry path) (\<lambda>story.
     bindE (textOf story ''file'' path) (\<lambda>file.
     bindE (optionalStringField story ''title'' path) (\<lambda>title.
     bindE (optionalStringField story ''hook'' path) (\<lambda>hook.
     bindE (textOf story ''at'' path) (\<lambda>moment.
     bindE (optionalStringField story ''request_id'' path) (\<lambda>request.
     bindE (optionalStringField story ''session_id'' path) (\<lambda>session.
     bindE (optionalStringField story ''prompt'' path) (\<lambda>prompt.
     Inr \<lparr>my_file = file, my_title = title, my_hook = hook, my_at = moment, my_request_id = request,
          my_session_id = session, my_prompt = prompt\<rparr>))))))))"

definition parseProjectMemory :: "json \<Rightarrow> data_error + project_memory" where
  "parseProjectMemory value =
     (let path = js ''$'' in
     bindE (recordObjectAt value path) (\<lambda>memory.
     bindE (elements parse_project memory ''projects'' path) (\<lambda>projects.
     bindE (elements parse_rules memory ''rules'' path) (\<lambda>rules.
     bindE (optionalStringField memory ''project'' path) (\<lambda>project.
     bindE (textOf memory ''day_start'' path) (\<lambda>day.
     bindE (countOf memory ''recent'' path) (\<lambda>recent.
     bindE (elements parseMemoryEntry memory ''entries'' path) (\<lambda>entries'.
     bindE (elements parse_story memory ''stories'' path) (\<lambda>stories.
     bindE (parseMemoryToolbox (field memory ''toolbox'') (at_field path ''toolbox'')) (\<lambda>toolbox.
     bindE (flagOf memory ''has_memory'' path) (\<lambda>has_memory.
     bindE (flagOf memory ''has_rules'' path) (\<lambda>has_rules.
     Inr \<lparr>pj_projects = projects, pj_project = project, pj_client_type = optionalClientType (field memory ''client_type''),
          pj_day_start = day, pj_recent = recent, pj_entries = entries', pj_stories = stories, pj_rules = rules,
          pj_toolbox = toolbox, pj_has_memory = has_memory, pj_has_rules = has_rules\<rparr>))))))))))))"

definition event_kind_of :: "json \<Rightarrow> memory_event_kind option" where
  "event_kind_of v = (if v = js_str ''noted'' then Some NotedEvent else if v = js_str ''read'' then Some ReadEvent else None)"

definition parse_memory_event :: "json \<Rightarrow> jstr \<Rightarrow> data_error + memory_event option" where
  "parse_memory_event entry path =
     bindE (recordObjectAt entry path) (\<lambda>event.
     case event_kind_of (field event ''kind'') of
       None \<Rightarrow> Inr None
     | Some kind \<Rightarrow>
         bindE (textOf event ''at'' path) (\<lambda>moment.
         bindE (textOf event ''request_id'' path) (\<lambda>request.
         bindE (optionalStringField event ''session_id'' path) (\<lambda>session.
         bindE (optionalStringField event ''prompt'' path) (\<lambda>prompt.
         bindE (optionalBoolField event ''captured'' path) (\<lambda>captured.
         Inr (Some \<lparr>mo_kind = kind, mo_at = moment, mo_request_id = request, mo_session_id = session,
           mo_prompt = prompt, mo_captured = captured\<rparr>)))))))"

definition parseMemoryEntryDetail :: "json \<Rightarrow> data_error + memory_entry_detail" where
  "parseMemoryEntryDetail value =
     (let path = js ''$'' in
     bindE (recordObjectAt value path) (\<lambda>detail.
     bindE (elements parse_memory_event detail ''events'' path) (\<lambda>events.
     bindE (parseMemoryEntry (field detail ''entry'') (at_field path ''entry'')) (\<lambda>entry.
     Inr \<lparr>md_entry = entry, md_events = known_items events\<rparr>))))"

definition text_item_kind_of :: "json \<Rightarrow> text_item_kind option" where
  "text_item_kind_of v =
     (if v = js_str ''rules'' then Some TextRules else if v = js_str ''memory'' then Some TextMemory
      else if v = js_str ''skills'' then Some TextSkills else None)"

definition parse_text_item :: "json \<Rightarrow> jstr \<Rightarrow> data_error + context_item_text option" where
  "parse_text_item entry path =
     bindE (recordObjectAt entry path) (\<lambda>item.
     case text_item_kind_of (field item ''kind'') of
       None \<Rightarrow> Inr None
     | Some kind \<Rightarrow>
         bindE (optionalStringField item ''name'' path) (\<lambda>name.
         bindE (optionalStringField item ''path'' path) (\<lambda>place.
         bindE (textOf item ''text'' path) (\<lambda>content.
         Inr (Some \<lparr>xi_kind = kind, xi_name = name, xi_path = place, xi_text = content\<rparr>)))))"

definition parse_write_text :: "json \<Rightarrow> jstr \<Rightarrow> data_error + memory_write_text option" where
  "parse_write_text entry path =
     bindE (recordObjectAt entry path) (\<lambda>write.
     case enum_of memory_write_kinds write_kind_name (field write ''kind'') of
       None \<Rightarrow> Inr None
     | Some kind \<Rightarrow>
         bindE (textOf write ''name'' path) (\<lambda>name.
         bindE (optionalStringField write ''path'' path) (\<lambda>place.
         bindE (textOf write ''content'' path) (\<lambda>content.
         Inr (Some \<lparr>xw_kind = kind, xw_name = name, xw_path = place, xw_content = content\<rparr>)))))"

definition parse_read_text :: "json \<Rightarrow> jstr \<Rightarrow> data_error + memory_read_text" where
  "parse_read_text entry path =
     bindE (recordObjectAt entry path) (\<lambda>read.
     bindE (textOf read ''name'' path) (\<lambda>name.
     bindE (optionalStringField read ''path'' path) (\<lambda>place.
     bindE (textOf read ''content'' path) (\<lambda>content.
     Inr \<lparr>xr_name = name, xr_path = place, xr_content = content\<rparr>))))"

definition parseRequestContextTexts :: "json \<Rightarrow> data_error + request_context_texts" where
  "parseRequestContextTexts value =
     (let path = js ''$'' in
     bindE (recordObjectAt value path) (\<lambda>texts.
     bindE (recordArrayAt (field texts ''items'') (at_field path ''items'')) (\<lambda>raw_items.
     bindE (recordArrayAt (field texts ''writes'') (at_field path ''writes'')) (\<lambda>raw_writes.
     bindE (recordArrayAt (field texts ''reads'') (at_field path ''reads'')) (\<lambda>raw_reads.
     bindE (when_given (field texts ''reason'') (\<lambda>_.
              bindE (textOf texts ''reason'' path) (\<lambda>_.
              labelOf texts ''reason'' path ''unknownReason'' auditWithheldReasons withheld_name))) (\<lambda>reason.
     bindE (mapE (\<lambda>i item. parse_text_item item (at_index (at_field path ''items'') i)) 0 raw_items) (\<lambda>items.
     bindE (mapE (\<lambda>i item. parse_write_text item (at_index (at_field path ''writes'') i)) 0 raw_writes) (\<lambda>writes.
     bindE (textOf texts ''request_id'' path) (\<lambda>request.
     bindE (optionalBoolField texts ''withheld'' path) (\<lambda>withheld.
     bindE (optionalBoolField texts ''truncated'' path) (\<lambda>truncated.
     bindE (optionalStringField texts ''summary'' path) (\<lambda>summary.
     bindE (mapE (\<lambda>i item. parse_read_text item (at_index (at_field path ''reads'') i)) 0 raw_reads) (\<lambda>reads.
     Inr \<lparr>xt_request_id = request, xt_withheld = withheld, xt_reason = reason, xt_truncated = truncated,
          xt_items = known_items items, xt_summary = summary, xt_writes = known_items writes,
          xt_reads = reads\<rparr>)))))))))))))"

section \<open>Names\<close>

type_synonym lower_case = "jstr \<Rightarrow> jstr"

text \<open>An absent text and an empty one are both falsy.\<close>

definition stated :: "jstr option \<Rightarrow> jstr option" where
  "stated x = (case x of Some (c # s) \<Rightarrow> Some (c # s) | _ \<Rightarrow> None)"

definition memoryEntryFile :: "lower_case \<Rightarrow> memory_write \<Rightarrow> jstr option" where
  "memoryEntryFile lower write =
     (if mw_kind write \<noteq> WriteMemory then None
      else (case stated (mw_entry write) of
          Some file \<Rightarrow> Some file
        | None \<Rightarrow> if lower (mw_name write) = js ''memory.md'' then None else Some (mw_name write)))"

definition NO_PROJECT :: jstr where "NO_PROJECT = js '':none''"

definition projectKey :: "memory_project \<Rightarrow> jstr" where
  "projectKey p = (case mj_project p of None \<Rightarrow> NO_PROJECT | Some name \<Rightarrow> name)"

fun split_any :: "nat set \<Rightarrow> jstr \<Rightarrow> jstr list" where
  "split_any cs [] = [[]]"
| "split_any cs (x # s) =
     (if x \<in> cs then [] # split_any cs s
      else (case split_any cs s of [] \<Rightarrow> [[x]] | w # ws \<Rightarrow> (x # w) # ws))"

definition projectName :: "translate \<Rightarrow> jstr option \<Rightarrow> jstr" where
  "projectName t project =
     (case project of
        None \<Rightarrow> t ''memoryView.noProject'' []
      | Some p \<Rightarrow> (let parts = filter (\<lambda>w. w \<noteq> []) (split_any {92, 47} p) in if parts = [] then p else last parts))"

section \<open>Days\<close>

definition DAY_MS :: int where "DAY_MS = 24 * 60 * 60 * 1000"
definition RECENT_DAYS :: int where "RECENT_DAYS = 7"

record strip_day =
  sd_reads :: int
  sd_noted :: bool

text \<open>The index of the day an entry was noted; below zero when no day shows it.\<close>

definition noted_day :: "date_parser \<Rightarrow> memory_entry \<Rightarrow> jstr \<Rightarrow> int" where
  "noted_day parse entry start =
     (case stated (me_noted_at entry) of
        None \<Rightarrow> -1
      | Some noted \<Rightarrow>
          (case (parse noted, parse start) of
             (Some note_ms, Some start_ms) \<Rightarrow>
               int (length (me_reads entry)) - 1 - max 0 \<lceil>rat_of_int (start_ms - note_ms) / rat_of_int DAY_MS\<rceil>
           | _ \<Rightarrow> -1))"

definition stripDays :: "date_parser \<Rightarrow> memory_entry \<Rightarrow> jstr \<Rightarrow> strip_day option list" where
  "stripDays parse entry start =
     (let noted = noted_day parse entry start in
      map (\<lambda>(index, reads). if int index < noted then None else Some \<lparr>sd_reads = reads, sd_noted = (int index = noted)\<rparr>)
        (List.enumerate 0 (me_reads entry)))"

text \<open>An instant that cannot be read makes the difference \<open>NaN\<close>, and the comparison false.\<close>

definition notedRecently :: "date_parser \<Rightarrow> memory_entry \<Rightarrow> int \<Rightarrow> bool" where
  "notedRecently parse entry now =
     (case stated (me_noted_at entry) of
        None \<Rightarrow> False
      | Some noted \<Rightarrow> (case parse noted of None \<Rightarrow> False | Some moment \<Rightarrow> now - moment < RECENT_DAYS * DAY_MS))"

definition searchEntries :: "lower_case \<Rightarrow> memory_entry list \<Rightarrow> jstr \<Rightarrow> memory_entry list" where
  "searchEntries lower entries' query =
     (let needle = lower (trim query) in
      if needle = [] then entries'
      else filter (\<lambda>e. list_ex (\<lambda>x. case x of None \<Rightarrow> False | Some s \<Rightarrow> str_includes needle (lower s))
             [me_title e, me_hook e, Some (me_file e)]) entries')"

section \<open>The toolbox\<close>

definition TOOLBOX_BARS :: nat where "TOOLBOX_BARS = 3"

record 'a toolbox_group =
  tg_bars :: "'a list"
  tg_more_used :: nat
  tg_idle :: "'a list"

definition toolboxGroup :: "('a \<Rightarrow> int) \<Rightarrow> 'a list \<Rightarrow> 'a toolbox_group" where
  "toolboxGroup uses items =
     (let used = sort_by (\<lambda>a b. uses b - uses a) (filter (\<lambda>i. uses i > 0) items) in
      \<lparr>tg_bars = take TOOLBOX_BARS used, tg_more_used = length used - TOOLBOX_BARS,
       tg_idle = filter (\<lambda>i. uses i = 0) items\<rparr>)"

section \<open>Texts\<close>

definition bodySources :: "memory_event list \<Rightarrow> memory_event list" where
  "bodySources events =
     (let captured = filter (\<lambda>e. mo_captured e = Some True) events in
      rev (filter (\<lambda>e. mo_kind e = ReadEvent) captured) @ filter (\<lambda>e. mo_kind e = NotedEvent) captured)"

text \<open>
  The front matter: three dashes and a line break, the shortest run up to a line of three dashes with
  blanks after them, and its line break.
\<close>

definition line_break :: "jstr \<Rightarrow> jstr option" where
  "line_break s =
     (if starts_with [13, 10] s then Some (drop 2 s) else if starts_with [10] s then Some (drop 1 s) else None)"

definition dashes :: "jstr \<Rightarrow> jstr option" where
  "dashes s = (if starts_with (js ''---'') s then Some (drop 3 s) else None)"

definition closing_dashes :: "jstr \<Rightarrow> jstr option" where
  "closing_dashes s =
     Option.bind (Option.bind (line_break s) dashes) (\<lambda>rest.
       let after = dropWhile (\<lambda>c. c = 32 \<or> c = 9) rest in
       if after = [] then Some [] else line_break after)"

fun after_matter :: "jstr \<Rightarrow> jstr option" where
  "after_matter s =
     (case closing_dashes s of
        Some rest \<Rightarrow> Some rest
      | None \<Rightarrow> (case s of [] \<Rightarrow> None | c # rest \<Rightarrow> after_matter rest))"

definition drop_front_matter :: "jstr \<Rightarrow> jstr" where
  "drop_front_matter content =
     (case Option.bind (Option.bind (dashes content) line_break) after_matter of None \<Rightarrow> content | Some body \<Rightarrow> body)"

definition memoryBody :: "lower_case \<Rightarrow> request_context_texts \<Rightarrow> jstr \<Rightarrow> jstr option" where
  "memoryBody lower texts file =
     (let name = lower file;
          read = find (\<lambda>e. lower (xr_name e) = name) (xt_reads texts);
          write = find (\<lambda>e. xw_kind e = WriteMemory \<and> lower (xw_name e) = name) (xt_writes texts);
          content = (case read of Some r \<Rightarrow> Some (xr_content r) | None \<Rightarrow> map_option xw_content write) in
      map_option (\<lambda>c. trim (drop_front_matter c)) content)"

definition first_of :: "'a option \<Rightarrow> 'a option \<Rightarrow> 'a option" where
  "first_of x y = (case x of None \<Rightarrow> y | Some v \<Rightarrow> Some v)"

definition writeText :: "request_context_texts \<Rightarrow> memory_write \<Rightarrow> memory_write_text option" where
  "writeText texts write =
     (let writes = filter (\<lambda>e. xw_kind e = mw_kind write) (xt_writes texts);
          by_entry = Option.bind (stated (mw_entry write)) (\<lambda>file. find (\<lambda>e. xw_name e = file) writes) in
      first_of by_entry
        (first_of (find (\<lambda>e. xw_name e = mw_name write \<and> (mw_path write = None \<or> xw_path e = mw_path write)) writes)
          (find (\<lambda>e. xw_name e = mw_name write) writes)))"

definition itemText :: "request_context_texts \<Rightarrow> text_item_kind \<Rightarrow> jstr option \<Rightarrow> jstr option \<Rightarrow> context_item_text option" where
  "itemText texts kind name path =
     (let named = filter (\<lambda>e. xi_kind e = kind \<and> xi_name e = name) (xt_items texts) in
      case path of
        Some p \<Rightarrow> find (\<lambda>e. xi_path e = Some p) named
      | None \<Rightarrow> if length named = 1 then Some (hd named) else None)"

section \<open>The strip dates a memory\<close>

text \<open>When the day at an index begins, counted back from the newest.\<close>

definition day_begins :: "memory_entry \<Rightarrow> int \<Rightarrow> nat \<Rightarrow> int" where
  "day_begins entry start i = start - (int (length (me_reads entry)) - 1 - int i) * DAY_MS"

lemma DAY_MS_pos: "0 < DAY_MS" by (simp add: DAY_MS_def)

lemma ceiling_days: "\<lceil>rat_of_int d / rat_of_int DAY_MS\<rceil> \<le> j \<longleftrightarrow> d \<le> j * DAY_MS"
proof -
  have "rat_of_int d / rat_of_int DAY_MS \<le> rat_of_int j \<longleftrightarrow> rat_of_int d \<le> rat_of_int (j * DAY_MS)"
    using DAY_MS_pos by (simp add: pos_divide_le_eq)
  then show ?thesis by (simp only: ceiling_le_iff of_int_le_iff)
qed

lemma noted_day_after:
  fixes i :: nat
  assumes "parse noted = Some n" and "parse start = Some s" and "stated (me_noted_at entry) = Some noted"
    and "i < length (me_reads entry)"
  shows "int i < noted_day parse entry start \<longleftrightarrow> Suc i < length (me_reads entry) \<and> day_begins entry s (Suc i) \<le> n"
    and "\<not> int i < noted_day parse entry start \<Longrightarrow> int i = noted_day parse entry start \<longleftrightarrow> day_begins entry s i \<le> n"
proof -
  define j where "j = int (length (me_reads entry)) - 1 - int i"
  define k where "k = max 0 \<lceil>rat_of_int (s - n) / rat_of_int DAY_MS\<rceil>"
  have noted: "noted_day parse entry start = int (length (me_reads entry)) - 1 - k"
    using assms(1-3) by (simp add: noted_day_def k_def)
  have le: "k \<le> m \<longleftrightarrow> 0 \<le> m \<and> s - n \<le> m * DAY_MS" for m
    using ceiling_days [of "s - n" m] by (auto simp: k_def)
  have j: "0 \<le> j" "Suc i < length (me_reads entry) \<longleftrightarrow> 1 \<le> j" using assms(4) by (auto simp: j_def)
  have begins: "day_begins entry s i = s - j * DAY_MS" "day_begins entry s (Suc i) = s - (j - 1) * DAY_MS"
    by (simp_all add: day_begins_def j_def)
  have "int i < noted_day parse entry start \<longleftrightarrow> k \<le> j - 1" by (auto simp: noted j_def)
  then show first: "int i < noted_day parse entry start \<longleftrightarrow> Suc i < length (me_reads entry) \<and> day_begins entry s (Suc i) \<le> n"
    unfolding le j(2) begins by auto
  assume "\<not> int i < noted_day parse entry start"
  then have "j \<le> k" by (auto simp: noted j_def)
  then have "int i = noted_day parse entry start \<longleftrightarrow> k \<le> j" by (auto simp: noted j_def)
  then show "int i = noted_day parse entry start \<longleftrightarrow> day_begins entry s i \<le> n"
    unfolding le begins using j(1) by auto
qed

text \<open>
  The strip of a memory shows a day blank exactly when it ended before the memory was noted, and
  marks exactly the day the note falls in; a note of today or later marks the newest day, and one before
  the strip begins marks none and leaves no blank.
\<close>

theorem strip_days_dated:
  assumes "parse noted = Some n" and "parse start = Some s" and "stated (me_noted_at entry) = Some noted"
    and "i < length (me_reads entry)"
  shows "stripDays parse entry start ! i =
    (if Suc i < length (me_reads entry) \<and> day_begins entry s (Suc i) \<le> n then None
     else Some \<lparr>sd_reads = me_reads entry ! i, sd_noted = (day_begins entry s i \<le> n)\<rparr>)"
  using noted_day_after [OF assms] assms(4) by (simp add: stripDays_def Let_def nth_enumerate_eq)

theorem strip_days_dated_witness:
  "stripDays (\<lambda>t. if t = js ''now'' then Some (3 * DAY_MS) else Some (2 * DAY_MS + 5))
     \<lparr>me_file = [], me_path = None, me_title = None, me_hook = None, me_noted_at = Some (js ''then''),
      me_reads = [0, 1, 2], me_total_reads = 3\<rparr> (js ''now'') ! 1 = Some \<lparr>sd_reads = 1, sd_noted = True\<rparr>"
  (is "stripDays ?p ?e ?s ! 1 = _")
proof -
  have "?p (js ''then'') = Some (2 * DAY_MS + 5)" "?p ?s = Some (3 * DAY_MS)" "stated (me_noted_at ?e) = Some (js ''then'')"
    "1 < length (me_reads ?e)"
    by (simp_all add: stated_def js_def)
  from strip_days_dated [where parse = ?p and entry = ?e and start = ?s, OF this] show ?thesis
    by (simp add: day_begins_def DAY_MS_def)
qed

lemma strip_length: "length (stripDays parse entry start) = length (me_reads entry)"
  by (simp add: stripDays_def Let_def)

section \<open>The toolbox keeps every item\<close>

interpretation by_uses: comparator "\<lambda>a b. (uses b :: int) - uses a" UNIV for uses
  by unfold_locales auto

lemma toolbox_conserves:
  assumes "\<And>i. i \<in> set items \<Longrightarrow> 0 \<le> uses i"
  shows "\<exists>rest. mset items = mset (tg_bars (toolboxGroup uses items)) + mset rest + mset (tg_idle (toolboxGroup uses items))
    \<and> length rest = tg_more_used (toolboxGroup uses items) \<and> length (tg_bars (toolboxGroup uses items)) \<le> TOOLBOX_BARS
    \<and> sorted_wrt (\<lambda>a b. uses b \<le> uses a) (tg_bars (toolboxGroup uses items) @ rest)"
proof -
  define used where "used = sort_by (\<lambda>a b. uses b - uses a) (filter (\<lambda>i. uses i > 0) items)"
  have "sorted_wrt (\<lambda>a b. uses b \<le> uses a) used"
    using by_uses.sort_by_ordered [of "filter (\<lambda>i. uses i > 0) items" uses] by (simp add: used_def)
  moreover have "filter (\<lambda>i. \<not> 0 < uses i) items = filter (\<lambda>i. uses i = 0) items"
    using assms by (intro filter_cong) force+
  then have "mset items = mset used + mset (filter (\<lambda>i. uses i = 0) items)"
    using multiset_partition [of "mset items" "\<lambda>i. uses i > 0"] by (simp add: used_def mset_sort_by flip: mset_filter)
  moreover have "mset (take TOOLBOX_BARS used) + mset (drop TOOLBOX_BARS used) = mset used"
    by (simp flip: mset_append)
  ultimately show ?thesis
    by (intro exI [of _ "drop TOOLBOX_BARS used"]) (simp add: toolboxGroup_def Let_def flip: used_def)
qed

section \<open>The shortest front matter\<close>

lemma after_matter_first:
  "after_matter s = Some rest \<longleftrightarrow>
     (\<exists>i \<le> length s. closing_dashes (drop i s) = Some rest \<and> (\<forall>j < i. closing_dashes (drop j s) = None))"
proof (induction s)
  case Nil
  then show ?case by (simp split: option.splits)
next
  case (Cons c s)
  show ?case
  proof (cases "closing_dashes (c # s)")
    case None
    have "(\<exists>i \<le> Suc (length s). closing_dashes (drop i (c # s)) = Some rest \<and> (\<forall>j < i. closing_dashes (drop j (c # s)) = None))
        \<longleftrightarrow> (\<exists>i \<le> length s. closing_dashes (drop i s) = Some rest \<and> (\<forall>j < i. closing_dashes (drop j s) = None))"
      (is "?L \<longleftrightarrow> ?R")
    proof
      assume ?L
      then obtain i where i: "i \<le> Suc (length s)" "closing_dashes (drop i (c # s)) = Some rest"
        "\<And>j. j < i \<Longrightarrow> closing_dashes (drop j (c # s)) = None" by blast
      with None obtain m where m: "i = Suc m" by (cases i) auto
      have "closing_dashes (drop j s) = None" if "j < m" for j using i(3) [of "Suc j"] that m by simp
      with i m show ?R by auto
    next
      assume ?R
      then obtain m where m: "m \<le> length s" "closing_dashes (drop m s) = Some rest"
        "\<And>j. j < m \<Longrightarrow> closing_dashes (drop j s) = None" by blast
      have "closing_dashes (drop j (c # s)) = None" if "j < Suc m" for j
        using that None m(3) by (cases j) auto
      with m show ?L by (intro exI [of _ "Suc m"]) auto
    qed
    with None Cons.IH show ?thesis by simp
  next
    case (Some r)
    then show ?thesis by (auto intro!: exI [of _ 0]) (metis drop0 gr0I option.distinct(1) option.inject)
  qed
qed

end
