(* ===== verification/Trajectory_Cards.thy ===== *)
theory Trajectory_Cards
  imports Trajectory_Timeline
begin

text \<open>
  The cards of a conversation's list, \<open>trajectory-card-model.ts\<close>: adjacent rows of one request
  are a card, a retry keeps the number of the call it retried, and the known phases of a card
  share its time window. Instants are whole milliseconds, shares of a window exact; a window
  without a known phase, from \<open>Infinity\<close> to \<open>-Infinity\<close> in the code, is absent here.
\<close>

datatype card_edge = EdgeFirst | EdgeMiddle | EdgeLast | EdgeOnly

record card_timing =
  ct_offset :: rat
  ct_duration :: rat
  ct_duration_ms :: int

record timing_window =
  wn_start_ms :: int
  wn_end_ms :: int
  wn_open :: bool

record card_row =
  ca_edge :: card_edge
  ca_call_number :: nat
  ca_timing :: "card_timing option"
  ca_window :: "timing_window option"

type_synonym card_layout = "jstr \<rightharpoonup> card_row"

definition phaseInterval :: "date_parser \<Rightarrow> trajectory_row \<Rightarrow> int option \<Rightarrow> (int \<times> int) option" where
  "phaseInterval date row nowMs =
     (let start = date (tr_started_at row);
          final = (case tr_ended_at row of
              Some e \<Rightarrow> date e
            | None \<Rightarrow> if tr_tone row = TonePending then nowMs else None) in
      case (start, final) of
        (Some s, Some e) \<Rightarrow> if s \<le> e then Some (s, e) else None
      | _ \<Rightarrow> None)"

text \<open>
  The walk both models make over the rows: a turn header stands alone, the rows of one
  request that follow one another are taken together.
\<close>

definition joins_segment :: "trajectory_row \<Rightarrow> trajectory_row \<Rightarrow> bool" where
  "joins_segment start row \<longleftrightarrow> tr_chip row \<noteq> ChipTurn \<and> tr_request_id row = tr_request_id start"

function row_segments :: "trajectory_row list \<Rightarrow> trajectory_row list list" where
  "row_segments [] = []"
| "row_segments (start # rest) =
     (if tr_chip start = ChipTurn then [start] # row_segments rest
      else (start # takeWhile (joins_segment start) rest)
        # row_segments (dropWhile (joins_segment start) rest))"
  by pat_completeness auto
termination
  by (relation "measure length") (auto simp: le_imp_less_Suc length_dropWhile_le)

definition window_of :: "trajectory_row list \<Rightarrow> (int \<times> int) option list \<Rightarrow> timing_window option" where
  "window_of phases intervals =
     (case List.map_filter id intervals of
        [] \<Rightarrow> None
      | known \<Rightarrow> Some \<lparr>wn_start_ms = Min (set (map fst known)), wn_end_ms = Max (set (map snd known)),
          wn_open = list_ex (\<lambda>(row, interval). interval \<noteq> None \<and> tr_ended_at row = None \<and> tr_tone row = TonePending)
            (zip phases intervals)\<rparr>)"

definition timing_of :: "timing_window \<Rightarrow> int \<times> int \<Rightarrow> card_timing" where
  "timing_of window interval =
     (let windowMs = wn_end_ms window - wn_start_ms window;
          offset = (if windowMs > 0
            then min 1 (max 0 (of_int (fst interval - wn_start_ms window) / of_int windowMs)) else 0) in
      \<lparr>ct_offset = offset,
       ct_duration = (if windowMs > 0
         then min (1 - offset) (max 0 (of_int (snd interval - fst interval) / of_int windowMs)) else 0),
       ct_duration_ms = snd interval - fst interval\<rparr>)"

definition edge_of :: "nat \<Rightarrow> nat \<Rightarrow> card_edge" where
  "edge_of len i =
     (if len = 1 then EdgeOnly else if i = 0 then EdgeFirst else if i = len - 1 then EdgeLast else EdgeMiddle)"

definition segment_cards ::
  "date_parser \<Rightarrow> int option \<Rightarrow> nat \<Rightarrow> trajectory_row list \<Rightarrow> (jstr \<times> card_row) list"
where
  "segment_cards date nowMs callNumber phases =
     (let intervals = map (\<lambda>row. phaseInterval date row nowMs) phases;
          window = window_of phases intervals in
      map (\<lambda>(i, row, interval).
          (tr_id row,
           \<lparr>ca_edge = edge_of (length phases) i, ca_call_number = callNumber,
            ca_timing = (case (window, interval) of
                (Some w, Some iv) \<Rightarrow> Some (timing_of w iv)
              | _ \<Rightarrow> None),
            ca_window = window\<rparr>))
        (enumerate 0 (zip phases intervals)))"

text \<open>The parent of retries and the numbers given so far; the number of a card.\<close>

type_synonym call_numbers = "jstr option \<times> (jstr \<times> nat) list"

definition number_segment :: "call_numbers \<Rightarrow> trajectory_row \<Rightarrow> call_numbers \<times> nat" where
  "number_segment st start =
     (let parent = (if tr_child start then fst st else Some (tr_request_id start));
          callId = (if tr_child start then (case parent of Some p \<Rightarrow> p | None \<Rightarrow> tr_request_id start)
            else tr_request_id start) in
      case map_of (snd st) callId of
        Some n \<Rightarrow> ((parent, snd st), n)
      | None \<Rightarrow> ((parent, snd st @ [(callId, length (snd st) + 1)]), length (snd st) + 1))"

definition lay_segment ::
  "date_parser \<Rightarrow> int option \<Rightarrow> call_numbers \<times> card_layout \<Rightarrow> trajectory_row list \<Rightarrow> call_numbers \<times> card_layout"
where
  "lay_segment date nowMs st phases =
     (if tr_chip (hd phases) = ChipTurn then ((None, snd (fst st)), snd st)
      else
        (let (numbers, callNumber) = number_segment (fst st) (hd phases) in
         (numbers, foldl (\<lambda>m (i, card). m(i \<mapsto> card)) (snd st) (segment_cards date nowMs callNumber phases))))"

definition trajectoryCardLayout :: "date_parser \<Rightarrow> trajectory_row list \<Rightarrow> int option \<Rightarrow> card_layout" where
  "trajectoryCardLayout date rows nowMs =
     snd (foldl (lay_segment date nowMs) ((None, []), Map.empty) (row_segments rows))"

section \<open>The walk keeps every row\<close>

lemma row_segments_concat [simp]: "concat (row_segments rows) = rows"
  by (induction rows rule: row_segments.induct) (auto simp: takeWhile_dropWhile_id)

text \<open>What a segment can be: a header alone, or phases of one request.\<close>

definition row_run_ok :: "trajectory_row list \<Rightarrow> bool" where
  "row_run_ok s \<longleftrightarrow> s \<noteq> [] \<and> (if tr_chip (hd s) = ChipTurn then s = [hd s]
     else list_all (\<lambda>row. tr_chip row \<noteq> ChipTurn \<and> tr_request_id row = tr_request_id (hd s)) s)"

lemma row_run_header: "tr_chip row = ChipTurn \<Longrightarrow> row_run_ok [row]"
  by (simp add: row_run_ok_def)

lemma row_run_phases: "tr_chip row \<noteq> ChipTurn \<Longrightarrow> row_run_ok (row # takeWhile (joins_segment row) rest)"
  by (auto simp: row_run_ok_def list_all_iff joins_segment_def dest: set_takeWhileD)

lemma row_runs_ok: "list_all row_run_ok (row_segments rows)"
proof (induction rows rule: row_segments.induct)
  case (2 start rest)
  then show ?case by (cases "tr_chip start = ChipTurn") (simp_all add: row_run_header row_run_phases)
qed simp

section \<open>The layout is the cards of the segments\<close>

text \<open>The numbers of the segments in their order; a header has none.\<close>

fun segment_numbers :: "call_numbers \<Rightarrow> trajectory_row list list \<Rightarrow> nat list" where
  "segment_numbers st [] = []"
| "segment_numbers st (s # rest) =
     (if tr_chip (hd s) = ChipTurn then 0 # segment_numbers (None, snd st) rest
      else snd (number_segment st (hd s)) # segment_numbers (fst (number_segment st (hd s))) rest)"

lemma length_segment_numbers [simp]: "length (segment_numbers st segs) = length segs"
  by (induction st segs rule: segment_numbers.induct) auto

definition cards_of :: "date_parser \<Rightarrow> int option \<Rightarrow> nat \<Rightarrow> trajectory_row list \<Rightarrow> (jstr \<times> card_row) list" where
  "cards_of date nowMs n s = (if tr_chip (hd s) = ChipTurn then [] else segment_cards date nowMs n s)"

definition all_cards :: "date_parser \<Rightarrow> int option \<Rightarrow> trajectory_row list \<Rightarrow> (jstr \<times> card_row) list" where
  "all_cards date nowMs rows =
     concat (map2 (cards_of date nowMs) (segment_numbers (None, []) (row_segments rows)) (row_segments rows))"

lemma lay_segments:
  "snd (foldl (lay_segment date nowMs) (st, m) segs)
   = foldl (\<lambda>m (i, card). m(i \<mapsto> card)) m (concat (map2 (cards_of date nowMs) (segment_numbers st segs) segs))"
  by (induction segs arbitrary: st m) (simp_all add: lay_segment_def cards_of_def case_prod_beta)

lemma foldl_upd: "foldl (\<lambda>m (i, card). m(i \<mapsto> card)) m xs = m ++ map_of (rev xs)"
  by (induction xs arbitrary: m) (auto simp: fun_eq_iff map_add_def split: option.splits)

lemma layout_cards: "trajectoryCardLayout date rows nowMs = map_of (rev (all_cards date nowMs rows))"
  by (simp add: trajectoryCardLayout_def lay_segments foldl_upd all_cards_def)

lemma fst_segment_cards [simp]: "map fst (segment_cards date nowMs n s) = map tr_id s"
  by (rule nth_equalityI) (simp_all add: segment_cards_def Let_def nth_enumerate_eq case_prod_beta)

lemma number_of_segment_cards: "(i, c) \<in> set (segment_cards date nowMs n s) \<Longrightarrow> ca_call_number c = n"
  by (auto simp: segment_cards_def Let_def)

lemma fst_cards_of: "map fst (cards_of date nowMs n s) = (if tr_chip (hd s) = ChipTurn then [] else map tr_id s)"
  by (simp add: cards_of_def)

lemma keys_of_cards:
  assumes "length ns = length segs"
  shows "map fst (concat (map2 (cards_of date nowMs) ns segs))
    = map tr_id (concat (filter (\<lambda>s. tr_chip (hd s) \<noteq> ChipTurn) segs))"
  using assms by (induction ns segs rule: list_induct2) (simp_all add: fst_cards_of)

lemma distinct_concat_filter: "distinct (map f (concat xss)) \<Longrightarrow> distinct (map f (concat (filter P xss)))"
  by (induction xss) (auto simp: image_iff)

lemma keys_distinct:
  "distinct (map tr_id rows) \<Longrightarrow> distinct (map fst (all_cards date nowMs rows))"
  unfolding all_cards_def by (subst keys_of_cards) (simp_all add: distinct_concat_filter del: map_concat)

text \<open>A row's card, once row IDs are distinct.\<close>

lemma card_of_row:
  assumes "distinct (map tr_id rows)" and "(i, c) \<in> set (all_cards date nowMs rows)"
  shows "trajectoryCardLayout date rows nowMs i = Some c"
  using assms keys_distinct [OF assms(1), of date nowMs] by (simp add: layout_cards rev_map [symmetric])

lemma card_from_segment:
  assumes "trajectoryCardLayout date rows nowMs i = Some c"
  shows "\<exists>s n. s \<in> set (row_segments rows) \<and> tr_chip (hd s) \<noteq> ChipTurn \<and> (i, c) \<in> set (segment_cards date nowMs n s)"
proof -
  have "(i, c) \<in> set (all_cards date nowMs rows)"
    using map_of_SomeD [OF assms [unfolded layout_cards]] by simp
  then show ?thesis by (force simp: all_cards_def cards_of_def dest: set_zip_rightD split: if_splits)
qed

section \<open>Phases in their window\<close>

lemma phase_interval_order: "phaseInterval date row nowMs = Some (b, e) \<Longrightarrow> b \<le> e"
  by (auto simp: phaseInterval_def Let_def split: option.splits if_splits)

lemma map_filter_id_mem: "x \<in> set (List.map_filter id xs) \<longleftrightarrow> Some x \<in> set xs"
  by (induction xs) (auto simp: map_filter_simps split: option.splits)

lemma window_covers:
  assumes "Some (b, e) \<in> set intervals"
  shows "\<exists>w. window_of phases intervals = Some w \<and> wn_start_ms w \<le> b \<and> e \<le> wn_end_ms w"
proof -
  let ?known = "List.map_filter id intervals"
  have mem: "(b, e) \<in> set ?known" using assms by (simp add: map_filter_id_mem)
  then obtain k ks where known: "?known = k # ks" by (cases ?known) auto
  have "Min (set (map fst ?known)) \<le> b" "e \<le> Max (set (map snd ?known))"
    using mem by (force intro: Min_le Max_ge)+
  then show ?thesis by (simp add: window_of_def known)
qed

text \<open>A phase's shares say exactly where in the window it lies, and stay inside.\<close>

definition timing_exact :: "timing_window \<Rightarrow> int \<times> int \<Rightarrow> card_timing \<Rightarrow> bool" where
  "timing_exact w interval t \<longleftrightarrow>
     (let len = rat_of_int (wn_end_ms w - wn_start_ms w) in
      ct_offset t * len = of_int (fst interval - wn_start_ms w)
      \<and> ct_duration t * len = of_int (snd interval - fst interval)
      \<and> ct_duration_ms t = snd interval - fst interval
      \<and> 0 \<le> ct_offset t \<and> 0 \<le> ct_duration t \<and> ct_offset t + ct_duration t \<le> 1)"

lemma timing_fits:
  assumes "wn_start_ms w \<le> b" "b \<le> e" "e \<le> wn_end_ms w"
  shows "timing_exact w (b, e) (timing_of w (b, e))"
proof (cases "wn_end_ms w - wn_start_ms w > 0")
  case True
  define len where "len = wn_end_ms w - wn_start_ms w"
  let ?o = "rat_of_int (b - wn_start_ms w) / of_int len" and ?d = "rat_of_int (e - b) / of_int len"
  have len: "0 < len" using True by (simp add: len_def)
  have "?o + ?d = rat_of_int (e - wn_start_ms w) / of_int len" by (simp flip: add_divide_distrib of_int_add)
  also have "\<dots> \<le> 1" using len assms by (simp add: len_def)
  finally have bound: "?o + ?d \<le> 1" .
  have pos: "0 \<le> ?o" "0 \<le> ?d" using len assms by simp_all
  have "timing_of w (b, e) = \<lparr>ct_offset = ?o, ct_duration = ?d, ct_duration_ms = e - b\<rparr>"
    using len bound pos unfolding timing_of_def len_def [symmetric] Let_def by (simp del: of_int_diff)
  then show ?thesis
    using len bound pos unfolding timing_exact_def len_def [symmetric] Let_def by (simp del: of_int_diff)
next
  case False
  then show ?thesis using assms by (simp add: timing_exact_def timing_of_def Let_def)
qed

lemma card_of_phase:
  assumes "(i, c) \<in> set (segment_cards date nowMs n s)"
  shows "\<exists>row \<in> set s. tr_id row = i \<and>
    (case phaseInterval date row nowMs of
       None \<Rightarrow> ca_timing c = None
     | Some interval \<Rightarrow> \<exists>w t. ca_window c = Some w \<and> ca_timing c = Some t
         \<and> wn_start_ms w \<le> fst interval \<and> snd interval \<le> wn_end_ms w \<and> timing_exact w interval t)"
proof -
  let ?ivs = "map (\<lambda>row. phaseInterval date row nowMs) s"
  obtain k where k: "k < length s" "segment_cards date nowMs n s ! k = (i, c)"
    using assms by (auto simp: in_set_conv_nth segment_cards_def Let_def)
  obtain row where row: "row \<in> set s" "tr_id row = i"
    and c: "ca_window c = window_of s ?ivs"
      "ca_timing c = (case (window_of s ?ivs, phaseInterval date row nowMs) of
         (Some w, Some iv) \<Rightarrow> Some (timing_of w iv) | _ \<Rightarrow> None)"
    using k that [of "s ! k"] by (auto simp: segment_cards_def Let_def nth_enumerate_eq)
  show ?thesis
  proof (cases "phaseInterval date row nowMs")
    case None
    then show ?thesis using row c by (auto split: option.splits)
  next
    case (Some iv)
    then have "Some (fst iv, snd iv) \<in> set ?ivs" using row(1) by force
    from window_covers [OF this] obtain w where w: "window_of s ?ivs = Some w"
      "wn_start_ms w \<le> fst iv" "snd iv \<le> wn_end_ms w" by blast
    then have "timing_exact w iv (timing_of w iv)"
      using timing_fits [of w "fst iv" "snd iv"] phase_interval_order [of date row nowMs "fst iv" "snd iv"] Some by simp
    then show ?thesis using row c w Some by auto
  qed
qed

text \<open>
  A card shows its phases where they lie: a phase with a known interval has a window around
  it, and the shares drawn are exactly its start and its length in that window, never beyond it;
  a phase without one has no shares.
\<close>

theorem card_phases_fit:
  assumes "trajectoryCardLayout date rows nowMs i = Some c"
  shows "\<exists>row \<in> set rows. tr_id row = i \<and> tr_chip row \<noteq> ChipTurn \<and>
    (case phaseInterval date row nowMs of
       None \<Rightarrow> ca_timing c = None
     | Some interval \<Rightarrow> \<exists>w t. ca_window c = Some w \<and> ca_timing c = Some t
         \<and> wn_start_ms w \<le> fst interval \<and> snd interval \<le> wn_end_ms w \<and> timing_exact w interval t)"
proof -
  obtain s n where s: "s \<in> set (row_segments rows)" "tr_chip (hd s) \<noteq> ChipTurn"
    and card: "(i, c) \<in> set (segment_cards date nowMs n s)"
    using card_from_segment [OF assms] by blast
  have "set s \<subseteq> set (concat (row_segments rows))" using s(1) by (auto simp del: row_segments_concat)
  moreover have "list_all (\<lambda>row. tr_chip row \<noteq> ChipTurn) s"
    using row_runs_ok [of rows] s unfolding list_all_iff [of row_run_ok] by (auto simp: row_run_ok_def list_all_iff)
  ultimately show ?thesis using card_of_phase [OF card] by (auto simp: list_all_iff)
qed

definition sample_phase :: "string \<Rightarrow> string \<Rightarrow> trajectory_chip \<Rightarrow> trajectory_row" where
  "sample_phase request ident chip =
     (sample_header ident)\<lparr>tr_request_id := js request, tr_chip := chip, tr_started_at := js ''s'',
       tr_ended_at := Some (js ident), tr_tone := ToneOk\<rparr>"

definition sample_clock :: date_parser where
  "sample_clock text =
     (if text = js ''s'' then Some 0 else if text = js ''a'' then Some 10 else if text = js ''b'' then Some 40 else None)"

definition sample_card_rows :: "trajectory_row list" where
  "sample_card_rows = [sample_phase ''r'' ''a'' ChipClient, sample_phase ''r'' ''b'' ChipResult]"

theorem card_phases_fit_witness:
  "\<exists>c. trajectoryCardLayout sample_clock sample_card_rows None (js ''a'') = Some c
    \<and> (\<exists>row \<in> set sample_card_rows. tr_id row = js ''a'' \<and> tr_chip row \<noteq> ChipTurn \<and>
      (case phaseInterval sample_clock row None of
         None \<Rightarrow> ca_timing c = None
       | Some interval \<Rightarrow> \<exists>w t. ca_window c = Some w \<and> ca_timing c = Some t
           \<and> wn_start_ms w \<le> fst interval \<and> snd interval \<le> wn_end_ms w \<and> timing_exact w interval t))"
proof -
  have "trajectoryCardLayout sample_clock sample_card_rows None (js ''a'') \<noteq> None" by code_simp
  then show ?thesis using card_phases_fit by blast
qed

end
