(* ===== verification/Trajectory_Flow.thy ===== *)
theory Trajectory_Flow
  imports Trajectory_Cards Trajectory_Scroll
begin

text \<open>
  The flow view of a conversation, \<open>trajectory-flow-model.ts\<close>: adjacent phases become calls, a
  retry joins the call it retried, a call's phases follow the clock, and the list of measured
  cards scrolls together with the strip. Rows are told apart by what they hold, their IDs
  included, where the code compares objects; \<open>-Infinity\<close> as a start is \<open>None\<close>.
\<close>

record flow_attempt =
  fa_request_id :: jstr
  fa_child :: bool
  fa_rows :: "trajectory_row list"
  fa_primary_row :: trajectory_row
  fa_result_row :: trajectory_row
  fa_active_row :: "trajectory_row option"
  fa_running :: bool
  fa_window :: "timing_window option"

record flow_call =
  fc_id :: jstr
  fc_request_id :: jstr
  fc_turn_id :: "jstr option"
  fc_rows :: "trajectory_row list"
  fc_attempts :: "flow_attempt list"
  fc_first_row :: trajectory_row
  fc_last_row :: trajectory_row
  fc_primary_row :: trajectory_row
  fc_result_row :: trajectory_row
  fc_active_row :: "trajectory_row option"
  fc_tone :: trajectory_tone
  fc_running :: bool
  fc_child :: bool
  fc_call_number :: nat
  fc_window :: "timing_window option"

text \<open>A turn is its header, whose ID is the turn's.\<close>

datatype flow_entry = FlowTurn trajectory_row | FlowCall flow_call

section \<open>Attempts and calls\<close>

definition last_matching :: "('a \<Rightarrow> bool) \<Rightarrow> 'a list \<Rightarrow> 'a option" where
  "last_matching P xs = find P (rev xs)"

definition settled_result :: "trajectory_row \<Rightarrow> bool" where
  "settled_result row \<longleftrightarrow> tr_chip row = ChipResult \<and> tr_tone row \<noteq> TonePending"

definition flowAttempt :: "date_parser \<Rightarrow> trajectory_row list \<Rightarrow> card_layout \<Rightarrow> flow_attempt" where
  "flowAttempt date phases cardLayout =
     (let firstRow = hd phases;
          resultRow = (case last_matching (\<lambda>row. tr_chip row = ChipResult) phases of
              Some row \<Rightarrow> row | None \<Rightarrow> last phases);
          settled = settled_result resultRow;
          activeRow = (if settled then None
            else last_matching (\<lambda>row. tr_tone row = TonePending \<and> tr_ended_at row = None) phases);
          window = Option.bind (cardLayout (tr_id firstRow)) ca_window in
      \<lparr>fa_request_id = tr_request_id firstRow, fa_child = tr_child firstRow, fa_rows = phases,
       fa_primary_row = (case find (\<lambda>row. tr_chip row = ChipClient) phases of
           Some row \<Rightarrow> row | None \<Rightarrow> firstRow),
       fa_result_row = resultRow, fa_active_row = activeRow, fa_running = (activeRow \<noteq> None),
       fa_window = (if settled \<and> (case window of Some w \<Rightarrow> wn_open w | None \<Rightarrow> False)
         then Option.bind (trajectoryCardLayout date phases None (tr_id firstRow)) ca_window
         else window)\<rparr>)"

text \<open>Each row carries its start, or that of the row listed before it.\<close>

fun carry_starts :: "date_parser \<Rightarrow> int option \<Rightarrow> trajectory_row list \<Rightarrow> (trajectory_row \<times> int option) list" where
  "carry_starts date carried [] = []"
| "carry_starts date carried (row # rows) =
     (let start = (case date (tr_started_at row) of Some s \<Rightarrow> Some s | None \<Rightarrow> carried) in
      (row, start) # carry_starts date start rows)"

fun start_order :: "int option \<Rightarrow> int option \<Rightarrow> int" where
  "start_order None None = 0"
| "start_order None (Some b) = - 1"
| "start_order (Some a) None = 1"
| "start_order (Some a) (Some b) = a - b"

definition chronologicalRows :: "date_parser \<Rightarrow> flow_attempt list \<Rightarrow> trajectory_row list" where
  "chronologicalRows date attempts =
     (if length attempts = 1 then fa_rows (hd attempts)
      else map (\<lambda>(i, row, start). row)
        (sort_by (\<lambda>(i, _, a) (j, _, b). if start_order a b \<noteq> 0 then start_order a b else int i - int j)
          (enumerate 0 (carry_starts date None (concat (map fa_rows attempts))))))"

definition unionWindow :: "flow_attempt list \<Rightarrow> timing_window option" where
  "unionWindow attempts =
     (case List.map_filter fa_window attempts of
        [] \<Rightarrow> None
      | [w] \<Rightarrow> Some w
      | windows \<Rightarrow> Some \<lparr>wn_start_ms = Min (set (map wn_start_ms windows)),
          wn_end_ms = Max (set (map wn_end_ms windows)), wn_open = list_ex wn_open windows\<rparr>)"

definition flowCall :: "date_parser \<Rightarrow> flow_attempt list \<Rightarrow> jstr option \<Rightarrow> nat \<Rightarrow> flow_call" where
  "flowCall date attempts turnId callNumber =
     (let first = hd attempts;
          root = (case find (\<lambda>attempt. \<not> fa_child attempt) attempts of Some a \<Rightarrow> a | None \<Rightarrow> first);
          rows = chronologicalRows date attempts;
          activeRow = Option.bind (find fa_running (rev attempts)) fa_active_row in
      \<lparr>fc_id = tr_id (hd (fa_rows first)), fc_request_id = fa_request_id first, fc_turn_id = turnId,
       fc_rows = rows, fc_attempts = attempts, fc_first_row = hd rows, fc_last_row = last rows,
       fc_primary_row = fa_primary_row root, fc_result_row = fa_result_row root,
       fc_active_row = activeRow,
       fc_tone = tr_tone (case activeRow of Some row \<Rightarrow> row | None \<Rightarrow> fa_result_row root),
       fc_running = (activeRow \<noteq> None), fc_child = fa_child first, fc_call_number = callNumber,
       fc_window = unionWindow attempts\<rparr>)"

definition card_number :: "card_layout \<Rightarrow> trajectory_row \<Rightarrow> nat" where
  "card_number cardLayout row = (case cardLayout (tr_id row) of Some placed \<Rightarrow> ca_call_number placed | None \<Rightarrow> 0)"

text \<open>The call a retry of this number joins: the entry listed last.\<close>

definition retried_call :: "flow_entry list \<Rightarrow> nat \<Rightarrow> flow_call option" where
  "retried_call entries' callNumber =
     (if entries' = [] then None
      else case last entries' of
        FlowTurn _ \<Rightarrow> None
      | FlowCall previous \<Rightarrow> if fc_call_number previous = callNumber then Some previous else None)"

definition flow_segment ::
  "date_parser \<Rightarrow> card_layout \<Rightarrow> flow_entry list \<times> jstr option \<Rightarrow> trajectory_row list
     \<Rightarrow> flow_entry list \<times> jstr option"
where
  "flow_segment date cardLayout st phases =
     (let (entries', turnId) = st; firstRow = hd phases in
      if tr_chip firstRow = ChipTurn then (entries' @ [FlowTurn firstRow], Some (tr_id firstRow))
      else
        (let attempt = flowAttempt date phases cardLayout;
             callNumber = card_number cardLayout firstRow in
         case (if fa_child attempt then retried_call entries' callNumber else None) of
           Some previous \<Rightarrow>
             (butlast entries' @ [FlowCall (flowCall date (fc_attempts previous @ [attempt])
                (fc_turn_id previous) callNumber)], turnId)
         | None \<Rightarrow> (entries' @ [FlowCall (flowCall date [attempt] turnId callNumber)], turnId)))"

definition trajectoryFlowEntries :: "date_parser \<Rightarrow> trajectory_row list \<Rightarrow> card_layout \<Rightarrow> flow_entry list" where
  "trajectoryFlowEntries date rows cardLayout =
     fst (foldl (flow_segment date cardLayout) ([], None) (row_segments rows))"

section \<open>The route of a call\<close>

fun laneOrder :: "trajectory_lane \<Rightarrow> nat" where
  "laneOrder LaneClient = 0"
| "laneOrder LaneGateway = 1"
| "laneOrder LaneUpstream = 2"

record flow_step =
  fs_row :: trajectory_row
  fs_lane :: nat
  fs_from_lane :: "nat option"
  fs_to_lane :: "nat option"
  fs_duration_ms :: "int option"
  fs_pending :: bool
  fs_retry_start :: bool

definition phaseDurationMs :: "date_parser \<Rightarrow> trajectory_row \<Rightarrow> int option \<Rightarrow> int option" where
  "phaseDurationMs date row nowMs =
     (let start = date (tr_started_at row);
          final = (case tr_ended_at row of None \<Rightarrow> nowMs | Some e \<Rightarrow> date e) in
      case (start, final) of
        (Some s, Some e) \<Rightarrow> if s \<le> e then Some (e - s) else None
      | _ \<Rightarrow> None)"

text \<open>The attempt a row belongs to, by its place among the call's attempts.\<close>

definition attempt_of :: "flow_attempt list \<Rightarrow> trajectory_row \<Rightarrow> (nat \<times> flow_attempt) option" where
  "attempt_of attempts row = last_matching (\<lambda>(i, a). row \<in> set (fa_rows a)) (enumerate 0 attempts)"

definition route_step ::
  "date_parser \<Rightarrow> int \<Rightarrow> flow_attempt list \<Rightarrow> flow_step list \<times> nat set \<Rightarrow> trajectory_row \<Rightarrow> flow_step list \<times> nat set"
where
  "route_step date nowMs attempts st row =
     (let (steps, started) = st;
          attempt = attempt_of attempts row;
          pending = (case attempt of
              None \<Rightarrow> False
            | Some (i, a) \<Rightarrow> fa_running a \<and> tr_tone row = TonePending \<and> tr_ended_at row = None);
          retryStart = (case attempt of None \<Rightarrow> False | Some (i, a) \<Rightarrow> fa_child a \<and> i \<notin> started) in
      (steps @ [\<lparr>fs_row = row, fs_lane = laneOrder (tr_lane row), fs_from_lane = None, fs_to_lane = None,
                 fs_duration_ms = phaseDurationMs date row (if pending then Some nowMs else None),
                 fs_pending = pending, fs_retry_start = retryStart \<and> length attempts > 1\<rparr>],
       (case attempt of None \<Rightarrow> started | Some (i, a) \<Rightarrow> insert i started)))"

definition with_lanes :: "flow_step list \<Rightarrow> flow_step list" where
  "with_lanes steps =
     map (\<lambda>(i, s). s\<lparr>fs_from_lane := (if i = 0 then None else Some (fs_lane (steps ! (i - 1)))),
                      fs_to_lane := (if i + 1 < length steps then Some (fs_lane (steps ! (i + 1))) else None)\<rparr>)
       (enumerate 0 steps)"

definition trajectoryFlowSteps :: "date_parser \<Rightarrow> flow_call \<Rightarrow> int \<Rightarrow> flow_step list" where
  "trajectoryFlowSteps date call nowMs =
     with_lanes (fst (foldl (route_step date nowMs (fc_attempts call)) ([], {}) (fc_rows call)))"

definition flowCallSpanMs :: "flow_call \<Rightarrow> int \<Rightarrow> int option" where
  "flowCallSpanMs call nowMs =
     (case fc_window call of
        None \<Rightarrow> None
      | Some window \<Rightarrow>
          (let final = (if fc_running call then max (wn_end_ms window) nowMs else wn_end_ms window) in
           Some (max 0 (final - wn_start_ms window))))"

definition flowFocusRow :: "flow_call \<Rightarrow> trajectory_chip option \<Rightarrow> trajectory_row" where
  "flowFocusRow call preferredChip =
     (let kind = (case preferredChip of
            Some chip \<Rightarrow> if chip = ChipTurn then [] else filter (\<lambda>row. tr_chip row = chip) (fc_rows call)
          | None \<Rightarrow> []);
          same = (case find (\<lambda>row. tr_request_id row = fc_request_id call) kind of
            Some row \<Rightarrow> Some row | None \<Rightarrow> if kind = [] then None else Some (hd kind)) in
      case same of Some row \<Rightarrow> row
      | None \<Rightarrow> (case fc_active_row call of Some row \<Rightarrow> row | None \<Rightarrow> fc_result_row call))"

definition flowHoldScrollDelta :: "rat \<Rightarrow> rat option \<Rightarrow> rat \<Rightarrow> rat \<Rightarrow> rat \<Rightarrow> rat \<Rightarrow> rat" where
  "flowHoldScrollDelta pickTop heldTop regionBottom listHeight topGap bottomGap =
     (case heldTop of
        None \<Rightarrow> pickTop - topGap
      | Some held \<Rightarrow>
          (let below = max 0 (regionBottom - pickTop) in
           pickTop - max topGap (min held (listHeight - below - bottomGap))))"

section \<open>Durations and digests\<close>

record flow_scale =
  sc_knee_ms :: real
  sc_max_weight :: real

definition flowDurationScale :: "flow_entry list \<Rightarrow> real \<Rightarrow> int \<Rightarrow> flow_scale" where
  "flowDurationScale entries' kneeMs nowMs =
     \<lparr>sc_knee_ms = kneeMs,
      sc_max_weight = foldl (\<lambda>weight entry. case entry of
          FlowTurn _ \<Rightarrow> weight
        | FlowCall call \<Rightarrow> (case flowCallSpanMs call nowMs of
            None \<Rightarrow> weight
          | Some ms \<Rightarrow> max weight (timelineWeight (of_int ms) kneeMs))) 0 entries'\<rparr>"

definition flowDurationShare :: "int option \<Rightarrow> flow_scale \<Rightarrow> real" where
  "flowDurationShare durationMs scale =
     (case durationMs of
        None \<Rightarrow> 0
      | Some ms \<Rightarrow> if sc_max_weight scale \<le> 0 then 0
          else min 1 (timelineWeight (of_int ms) (sc_knee_ms scale) / sc_max_weight scale))"

text \<open>The outcomes of a turn's calls: their tones, and whether they run.\<close>

type_synonym turn_digest = "(trajectory_tone \<times> bool) list"

definition trajectoryTurnDigests :: "flow_entry list \<Rightarrow> (jstr \<times> turn_digest) list" where
  "trajectoryTurnDigests entries' =
     foldl (\<lambda>digests entry. case entry of
         FlowTurn _ \<Rightarrow> digests
       | FlowCall call \<Rightarrow> (case fc_turn_id call of
           None \<Rightarrow> digests
         | Some turn \<Rightarrow> upsert turn [] (\<lambda>tones. tones @ [(fc_tone call, fc_running call)]) digests))
       [] entries'"

fun entry_rows :: "flow_entry \<Rightarrow> trajectory_row list" where
  "entry_rows (FlowTurn row) = [row]"
| "entry_rows (FlowCall call) = fc_rows call"

definition trajectoryFlowRowIndices :: "flow_entry list \<Rightarrow> jstr \<rightharpoonup> nat" where
  "trajectoryFlowRowIndices entries' =
     foldl (\<lambda>m (i, entry). foldl (\<lambda>m row. m(tr_id row \<mapsto> i)) m (entry_rows entry)) Map.empty (enumerate 0 entries')"

section \<open>The measured list\<close>

text \<open>A measurement that is not finite is \<open>None\<close>, as is a scroll offset that is not a number.\<close>

record flow_measurement =
  fm_id :: jstr
  fm_request_id :: jstr
  fm_start :: "rat option"
  fm_size :: "rat option"

record flow_anchor =
  ak_id :: jstr
  ak_request_id :: jstr
  ak_fraction :: rat

record measured_entry =
  me_id :: jstr
  me_request_id :: jstr
  me_start :: rat
  me_size :: rat

definition clampFraction :: "rat option \<Rightarrow> rat" where
  "clampFraction fraction = (case fraction of None \<Rightarrow> 0 | Some f \<Rightarrow> clamp01 f)"

definition clampScroll :: "rat \<Rightarrow> rat option \<Rightarrow> rat" where
  "clampScroll offset maxScroll =
     (case maxScroll of None \<Rightarrow> 0 | Some m \<Rightarrow> if m \<le> 0 then 0 else min m (max 0 offset))"

definition valid_measurement :: "flow_measurement \<Rightarrow> measured_entry option" where
  "valid_measurement m =
     (case (fm_start m, fm_size m) of
        (Some start, Some size') \<Rightarrow>
          if size' \<ge> 0
          then Some \<lparr>me_id = fm_id m, me_request_id = fm_request_id m, me_start = start, me_size = size'\<rparr>
          else None
      | _ \<Rightarrow> None)"

definition validMeasurements :: "flow_measurement list \<Rightarrow> measured_entry list" where
  "validMeasurements entries' = List.map_filter valid_measurement entries'"

definition measured_end :: "measured_entry \<Rightarrow> rat" where
  "measured_end m = me_start m + me_size m"

definition flowScrollAnchorAtOffset :: "flow_measurement list \<Rightarrow> rat option \<Rightarrow> flow_anchor option" where
  "flowScrollAnchorAtOffset entries' scrollTop =
     (let measured = validMeasurements entries' in
      if measured = [] then None
      else
        (let offset = (case scrollTop of None \<Rightarrow> 0 | Some y \<Rightarrow> max 0 y);
             entry = (case find (\<lambda>m. offset < measured_end m) measured of Some m \<Rightarrow> m | None \<Rightarrow> last measured) in
         Some \<lparr>ak_id = me_id entry, ak_request_id = me_request_id entry,
               ak_fraction = (if me_size entry > 0 then clamp01 ((offset - me_start entry) / me_size entry) else 0)\<rparr>))"

text \<open>The span of a request's entries, its header with its calls.\<close>

definition request_span :: "measured_entry list \<Rightarrow> jstr \<Rightarrow> (rat \<times> rat) option" where
  "request_span measured requestId =
     (case filter (\<lambda>m. me_request_id m = requestId) measured of
        [] \<Rightarrow> None
      | found \<Rightarrow> Some (me_start (hd found), max 0 (measured_end (last found) - me_start (hd found))))"

definition flowScrollOffsetForCall :: "flow_measurement list \<Rightarrow> jstr \<Rightarrow> rat \<Rightarrow> rat option \<Rightarrow> rat" where
  "flowScrollOffsetForCall entries' requestId fraction maxScroll =
     (case request_span (validMeasurements entries') requestId of
        None \<Rightarrow> 0
      | Some (start, size') \<Rightarrow> clampScroll (start + clamp01 fraction * size') maxScroll)"

definition flowScrollOffsetForAnchor :: "flow_measurement list \<Rightarrow> flow_anchor \<Rightarrow> rat option \<Rightarrow> rat" where
  "flowScrollOffsetForAnchor entries' anchor maxScroll =
     (case find (\<lambda>m. me_id m = ak_id anchor) (validMeasurements entries') of
        None \<Rightarrow> flowScrollOffsetForCall entries' (ak_request_id anchor) (ak_fraction anchor) maxScroll
      | Some m \<Rightarrow> clampScroll (me_start m + clamp01 (ak_fraction anchor) * me_size m) maxScroll)"

definition flowCallProgressAtOffset :: "flow_measurement list \<Rightarrow> rat option \<Rightarrow> call_progress option" where
  "flowCallProgressAtOffset entries' scrollTop =
     (case flowScrollAnchorAtOffset entries' scrollTop of
        None \<Rightarrow> None
      | Some anchor \<Rightarrow>
          (case request_span (validMeasurements entries') (ak_request_id anchor) of
             None \<Rightarrow> None
           | Some (start, size') \<Rightarrow>
               Some \<lparr>pr_request_id = ak_request_id anchor,
                     pr_fraction = (if size' > 0
                       then clampFraction (map_option (\<lambda>y. (y - start) / size') scrollTop) else 0)\<rparr>))"

definition list_extent :: "measured_entry list \<Rightarrow> rat" where
  "list_extent measured = (if measured = [] then 0 else measured_end (last measured))"

definition flowTimelineScrollForList ::
  "flow_measurement list \<Rightarrow> call_column list \<Rightarrow> rat \<Rightarrow> rat \<Rightarrow> rat \<Rightarrow> rat"
where
  "flowTimelineScrollForList entries' columns listOffset listMaxScroll timelineMaxScroll =
     (let listExtent = list_extent (validMeasurements entries'); timelineExtent = timeline_extent columns in
      if listMaxScroll \<le> 0 \<or> timelineMaxScroll \<le> 0 \<or> listExtent \<le> 0 \<or> timelineExtent \<le> 0 then 0
      else
        (let ratio = clamp01 (listOffset / listMaxScroll) in
         case flowCallProgressAtOffset entries' (Some (ratio * listExtent)) of
           None \<Rightarrow> 0
         | Some progress \<Rightarrow>
             clampScroll (scrollLeftForCall columns (pr_request_id progress) (pr_fraction progress) timelineExtent
               / timelineExtent * timelineMaxScroll) (Some timelineMaxScroll)))"

definition flowListScrollForTimeline ::
  "flow_measurement list \<Rightarrow> call_column list \<Rightarrow> rat \<Rightarrow> rat \<Rightarrow> rat \<Rightarrow> rat"
where
  "flowListScrollForTimeline entries' columns timelineOffset timelineMaxScroll listMaxScroll =
     (let listExtent = list_extent (validMeasurements entries'); timelineExtent = timeline_extent columns in
      if listMaxScroll \<le> 0 \<or> timelineMaxScroll \<le> 0 \<or> listExtent \<le> 0 \<or> timelineExtent \<le> 0 then 0
      else
        (let ratio = clamp01 (timelineOffset / timelineMaxScroll) in
         case callProgressAtScrollLeft columns (ratio * timelineExtent) of
           None \<Rightarrow> 0
         | Some progress \<Rightarrow>
             clampScroll (flowScrollOffsetForCall entries' (pr_request_id progress) (pr_fraction progress) (Some listExtent)
               / listExtent * listMaxScroll) (Some listMaxScroll)))"

section \<open>Every row in one entry\<close>

text \<open>The rows an entry was made of, in the order they were listed.\<close>

fun entry_source :: "flow_entry \<Rightarrow> trajectory_row list" where
  "entry_source (FlowTurn row) = [row]"
| "entry_source (FlowCall call) = concat (map fa_rows (fc_attempts call))"

lemma carried_rows: "map fst (carry_starts date carried rows) = rows"
  by (induction rows arbitrary: carried) (simp_all add: Let_def)

lemma chronological_mset: "mset (chronologicalRows date attempts) = mset (concat (map fa_rows attempts))"
proof (cases "length attempts = 1")
  case True
  then obtain a where "attempts = [a]" by (auto simp: length_Suc_conv)
  then show ?thesis by (simp add: chronologicalRows_def)
next
  case False
  have "mset (chronologicalRows date attempts)
      = image_mset (\<lambda>(i, row, start). row) (mset (enumerate 0 (carry_starts date None (concat (map fa_rows attempts)))))"
    using False by (simp add: chronologicalRows_def mset_sort_by)
  also have "\<dots> = mset (map (\<lambda>(i, row, start). row) (enumerate 0 (carry_starts date None (concat (map fa_rows attempts)))))"
    by simp
  also have "map (\<lambda>(i, row, start). row) (enumerate 0 (carry_starts date None (concat (map fa_rows attempts))))
      = map fst (carry_starts date None (concat (map fa_rows attempts)))"
    by (rule nth_equalityI) (simp_all add: nth_enumerate_eq case_prod_beta)
  finally show ?thesis by (simp add: carried_rows)
qed

text \<open>An attempt runs while it has an active row, never once its result is settled.\<close>

definition attempt_ok :: "flow_attempt \<Rightarrow> bool" where
  "attempt_ok a \<longleftrightarrow> fa_rows a \<noteq> [] \<and> (fa_running a \<longleftrightarrow> fa_active_row a \<noteq> None)
     \<and> \<not> (settled_result (fa_result_row a) \<and> fa_running a)"

lemma flowAttempt_ok: "phases \<noteq> [] \<Longrightarrow> attempt_ok (flowAttempt date phases layout)"
  by (simp add: attempt_ok_def flowAttempt_def Let_def)

text \<open>An entry is what its attempts and number make it.\<close>

definition entry_ok :: "date_parser \<Rightarrow> flow_entry \<Rightarrow> bool" where
  "entry_ok date entry \<longleftrightarrow>
     (case entry of
        FlowTurn row \<Rightarrow> True
      | FlowCall call \<Rightarrow> fc_attempts call \<noteq> [] \<and> list_all attempt_ok (fc_attempts call)
          \<and> call = flowCall date (fc_attempts call) (fc_turn_id call) (fc_call_number call))"

lemma flowCall_fields [simp]:
  "fc_attempts (flowCall date attempts turn n) = attempts"
  "fc_turn_id (flowCall date attempts turn n) = turn"
  "fc_call_number (flowCall date attempts turn n) = n"
  "fc_rows (flowCall date attempts turn n) = chronologicalRows date attempts"
  by (simp_all add: flowCall_def Let_def)

lemma flowAttempt_fields [simp]:
  "fa_rows (flowAttempt date phases layout) = phases"
  "fa_child (flowAttempt date phases layout) = tr_child (hd phases)"
  "fa_request_id (flowAttempt date phases layout) = tr_request_id (hd phases)"
  by (simp_all add: flowAttempt_def Let_def)

lemma retried_call_Some:
  "retried_call entries' n = Some call \<longleftrightarrow>
     entries' \<noteq> [] \<and> last entries' = FlowCall call \<and> fc_call_number call = n"
  by (auto simp: retried_call_def split: flow_entry.splits)

text \<open>What a segment does to the entries: a new one at the end, or one more attempt of the last.\<close>

lemma flow_segment_cases:
  assumes "row_run_ok phases"
  obtains (turn) "tr_chip (hd phases) = ChipTurn" "phases = [hd phases]"
      "flow_segment date layout (es, t) phases = (es @ [FlowTurn (hd phases)], Some (tr_id (hd phases)))"
    | (retry) previous where "tr_chip (hd phases) \<noteq> ChipTurn" "tr_child (hd phases)" "es \<noteq> []" "last es = FlowCall previous"
      "fc_call_number previous = card_number layout (hd phases)"
      "flow_segment date layout (es, t) phases =
        (butlast es @ [FlowCall (flowCall date (fc_attempts previous @ [flowAttempt date phases layout])
           (fc_turn_id previous) (card_number layout (hd phases)))], t)"
    | (fresh) "tr_chip (hd phases) \<noteq> ChipTurn"
      "\<not> tr_child (hd phases) \<or> retried_call es (card_number layout (hd phases)) = None"
      "flow_segment date layout (es, t) phases =
        (es @ [FlowCall (flowCall date [flowAttempt date phases layout] t (card_number layout (hd phases)))], t)"
proof (cases "tr_chip (hd phases) = ChipTurn")
  case True
  then show ?thesis using assms turn by (simp add: row_run_ok_def flow_segment_def Let_def)
next
  case False
  show ?thesis
  proof (cases "if tr_child (hd phases) then retried_call es (card_number layout (hd phases)) else None")
    case None
    then show ?thesis using False fresh by (simp add: flow_segment_def Let_def split: if_splits)
  next
    case (Some previous)
    then show ?thesis using False retry [of previous]
      by (simp add: flow_segment_def Let_def retried_call_Some split: if_splits)
  qed
qed

lemma flow_segment_keeps:
  assumes "row_run_ok phases" and "list_all (entry_ok date) (fst st)"
  shows "list_all (entry_ok date) (fst (flow_segment date layout st phases))
    \<and> concat (map entry_source (fst (flow_segment date layout st phases)))
      = concat (map entry_source (fst st)) @ phases"
proof -
  obtain es t where st: "st = (es, t)" by (cases st)
  have some: "phases \<noteq> []" using assms(1) by (auto simp: row_run_ok_def)
  show ?thesis
    using assms(1)
  proof (cases rule: flow_segment_cases [where date = date and layout = layout and es = es and t = t])
    case turn
    then show ?thesis using assms(2) by (simp add: st entry_ok_def)
  next
    case (retry previous)
    then have es: "es = butlast es @ [FlowCall previous]" by (metis append_butlast_last_id)
    then have "list_all (entry_ok date) (butlast es @ [FlowCall previous])" using assms(2) st by simp
    moreover have "concat (map entry_source es) = concat (map entry_source (butlast es)) @ concat (map fa_rows (fc_attempts previous))"
      by (subst es) simp
    ultimately show ?thesis using retry flowAttempt_ok [OF some] by (simp add: st entry_ok_def)
  next
    case fresh
    then show ?thesis using assms(2) flowAttempt_ok [OF some] by (simp add: st entry_ok_def)
  qed
qed

lemma flow_segments_keep:
  "list_all row_run_ok segs \<Longrightarrow> list_all (entry_ok date) (fst st) \<Longrightarrow>
     list_all (entry_ok date) (fst (foldl (flow_segment date layout) st segs))
     \<and> concat (map entry_source (fst (foldl (flow_segment date layout) st segs)))
       = concat (map entry_source (fst st)) @ concat segs"
  by (induction segs arbitrary: st) (simp_all add: flow_segment_keeps)

lemma entries_ok: "list_all (entry_ok date) (trajectoryFlowEntries date rows layout)"
  and entries_source: "concat (map entry_source (trajectoryFlowEntries date rows layout)) = rows"
  using flow_segments_keep [OF row_runs_ok [of rows], of date "([], None)" layout]
  by (simp_all add: trajectoryFlowEntries_def)

lemma entry_rows_mset: "entry_ok date entry \<Longrightarrow> mset (entry_rows entry) = mset (entry_source entry)"
proof (cases entry)
  case (FlowCall call)
  assume "entry_ok date entry"
  then have "call = flowCall date (fc_attempts call) (fc_turn_id call) (fc_call_number call)"
    using FlowCall by (simp add: entry_ok_def)
  then have "fc_rows call = chronologicalRows date (fc_attempts call)" by (metis flowCall_fields(4))
  then show ?thesis using FlowCall by (simp add: chronological_mset)
qed simp

text \<open>
  C15: the flow view keeps every row: the attempts of the calls, with the headers between them,
  are the recorded rows in their order, whatever layout numbers them, and what a call lists is a
  rearrangement of its own attempts' rows.
\<close>

theorem flow_rows_conserved:
  "concat (map entry_source (trajectoryFlowEntries date rows layout)) = rows
   \<and> list_all (\<lambda>entry. mset (entry_rows entry) = mset (entry_source entry)) (trajectoryFlowEntries date rows layout)"
  using entries_ok [of date rows layout] by (auto simp: entries_source list_all_iff entry_rows_mset)

section \<open>The numbers of the calls\<close>

fun flow_calls :: "flow_entry list \<Rightarrow> flow_call list" where
  "flow_calls [] = []"
| "flow_calls (FlowTurn row # es) = flow_calls es"
| "flow_calls (FlowCall call # es) = call # flow_calls es"

lemma flow_calls_append [simp]: "flow_calls (es @ fs) = flow_calls es @ flow_calls fs"
  by (induction es rule: flow_calls.induct) simp_all

text \<open>A root with its retries, or one retry listed without its root.\<close>

definition call_shape :: "flow_call \<Rightarrow> bool" where
  "call_shape call \<longleftrightarrow> (case fc_attempts call of
       [] \<Rightarrow> False
     | start # retries \<Rightarrow> list_all fa_child retries \<and> (fa_child start \<longrightarrow> retries = []))"

definition numbered :: "call_numbers \<Rightarrow> jstr set \<Rightarrow> flow_entry list \<Rightarrow> bool" where
  "numbered st seen es \<longleftrightarrow>
     fst ` set (snd st) \<subseteq> seen
     \<and> map fc_call_number (flow_calls es) = [1..<Suc (length (snd st))]
     \<and> list_all call_shape (flow_calls es)
     \<and> (case fst st of
          None \<Rightarrow> True
        | Some p \<Rightarrow> map_of (snd st) p = Some (length (snd st))
            \<and> (\<exists>es' call. es = es' @ [FlowCall call] \<and> \<not> fa_child (hd (fc_attempts call))))"

lemma unseen: "fst ` set ns \<subseteq> seen \<Longrightarrow> r \<notin> seen \<Longrightarrow> map_of ns r = None"
  by (auto simp: map_of_eq_None_iff)

lemma no_later_call:
  "map fc_call_number (flow_calls es) = [1..<Suc k] \<Longrightarrow> retried_call es (Suc k) = None"
proof (rule ccontr)
  assume numbers: "map fc_call_number (flow_calls es) = [1..<Suc k]" and "retried_call es (Suc k) \<noteq> None"
  then obtain call where "es \<noteq> []" "last es = FlowCall call" "fc_call_number call = Suc k"
    by (auto simp: retried_call_Some)
  then have "flow_calls es = flow_calls (butlast es) @ [call]"
    by (metis append_butlast_last_id flow_calls_append flow_calls.simps(1,3))
  then have "Suc k \<in> set (map fc_call_number (flow_calls es))" using \<open>fc_call_number call = Suc k\<close> by simp
  then show False unfolding numbers by simp
qed

lemma numbered_header: "numbered st seen es \<Longrightarrow> numbered (None, snd st) seen (es @ [FlowTurn row])"
  by (simp add: numbered_def)

lemma numbered_root:
  assumes "numbered (parent, ns) seen es" and "r \<notin> seen"
    and "fc_attempts call = [a]" "\<not> fa_child a" "fc_call_number call = Suc (length ns)"
  shows "numbered (Some r, ns @ [(r, Suc (length ns))]) (insert r seen) (es @ [FlowCall call])"
  using assms unseen [of ns seen r] by (auto simp: numbered_def call_shape_def map_add_Some_iff)

lemma numbered_orphan:
  assumes "numbered (None, ns) seen es" and "fc_attempts call = [a]" "fc_call_number call = Suc (length ns)"
  shows "numbered (None, ns @ [(r, Suc (length ns))]) (insert r seen) (es @ [FlowCall call])"
  using assms by (auto simp: numbered_def call_shape_def)

lemma numbered_retry:
  assumes "numbered (Some p, ns) seen es" and "last es = FlowCall previous"
    and "fc_attempts call = fc_attempts previous @ [a]" "fa_child a" "fc_call_number call = length ns"
  shows "numbered (Some p, ns) (insert r seen) (butlast es @ [FlowCall call])"
proof -
  obtain es' where es: "es = es' @ [FlowCall previous]" and root: "\<not> fa_child (hd (fc_attempts previous))"
    using assms(1,2) by (auto simp: numbered_def)
  have "map fc_call_number (flow_calls es') @ [fc_call_number previous] = [1..<Suc (length ns)]"
    using assms(1) by (simp add: numbered_def es)
  moreover have "call_shape previous" using assms(1) by (simp add: numbered_def es)
  moreover from this have "fc_attempts previous \<noteq> []" by (auto simp: call_shape_def)
  ultimately show ?thesis
    using assms root by (cases "length ns") (auto simp: numbered_def es call_shape_def split: list.splits)
qed

lemma numbered_step:
  assumes num: "numbered st seen es" and ok: "row_run_ok s" and fresh: "tr_request_id (hd s) \<notin> seen"
    and chip: "tr_chip (hd s) \<noteq> ChipTurn" and layout: "card_number layout (hd s) = snd (number_segment st (hd s))"
  shows "numbered (fst (number_segment st (hd s))) (insert (tr_request_id (hd s)) seen)
    (fst (flow_segment date layout (es, t) s))"
proof -
  obtain parent ns where st: "st = (parent, ns)" by (cases st)
  let ?r = "tr_request_id (hd s)"
  have new: "map_of ns ?r = None" using num fresh by (intro unseen [of _ seen]) (simp_all add: numbered_def st)
  have keep: "map fc_call_number (flow_calls es) = [1..<Suc (length ns)]" using num by (simp add: numbered_def st)
  consider (root) "\<not> tr_child (hd s)" | (orphan) "tr_child (hd s)" "parent = None"
    | (retry) p where "tr_child (hd s)" "parent = Some p" by (cases parent) auto
  then show ?thesis
  proof cases
    case root
    then show ?thesis using chip layout new num fresh
      by (simp add: st number_segment_def flow_segment_def Let_def numbered_root)
  next
    case orphan
    then show ?thesis using chip layout new num no_later_call [OF keep]
      by (simp add: st number_segment_def flow_segment_def Let_def numbered_orphan)
  next
    case retry
    then obtain es' call where known: "map_of ns p = Some (length ns)" and es: "es = es' @ [FlowCall call]"
      using num by (auto simp: numbered_def st)
    have "map fc_call_number (flow_calls es') @ [fc_call_number call] = [1..<Suc (length ns)]"
      using keep by (simp add: es)
    then have "fc_call_number call = length ns" by (cases "length ns") auto
    then have "retried_call es (length ns) = Some call" by (simp add: retried_call_Some es)
    then show ?thesis using retry chip layout known num
      using numbered_retry [OF num [unfolded st retry(2)], of call _ "flowAttempt date s layout" "tr_request_id (hd s)"]
      by (simp add: st number_segment_def flow_segment_def Let_def es)
  qed
qed

text \<open>Each request's phases are listed together: no request has two segments.\<close>

definition own_segments :: "trajectory_row list list \<Rightarrow> jstr list" where
  "own_segments segs = map (\<lambda>s. tr_request_id (hd s)) (filter (\<lambda>s. tr_chip (hd s) \<noteq> ChipTurn) segs)"

lemma numbered_segments:
  assumes "list_all row_run_ok segs" and "numbered st seen es"
    and "distinct (own_segments segs)" and "set (own_segments segs) \<inter> seen = {}"
    and "list_all2 (\<lambda>n s. tr_chip (hd s) \<noteq> ChipTurn \<longrightarrow> card_number layout (hd s) = n) (segment_numbers st segs) segs"
  shows "\<exists>st' seen'. numbered st' seen' (fst (foldl (flow_segment date layout) (es, t) segs))"
  using assms
proof (induction segs arbitrary: st seen es t)
  case (Cons s segs)
  show ?case
  proof (cases "tr_chip (hd s) = ChipTurn")
    case True
    then show ?thesis
      using Cons.IH [OF _ numbered_header [OF Cons.prems(2), of "hd s"], of "Some (tr_id (hd s))"] Cons.prems
      by (simp add: flow_segment_def own_segments_def Let_def)
  next
    case False
    let ?r = "tr_request_id (hd s)" and ?num = "number_segment st (hd s)"
    have "numbered (fst ?num) (insert ?r seen) (fst (flow_segment date layout (es, t) s))"
      using Cons.prems False by (intro numbered_step) (simp_all add: own_segments_def)
    moreover have "list_all row_run_ok segs" "distinct (own_segments segs)"
      "set (own_segments segs) \<inter> insert ?r seen = {}"
      "list_all2 (\<lambda>n s. tr_chip (hd s) \<noteq> ChipTurn \<longrightarrow> card_number layout (hd s) = n) (segment_numbers (fst ?num) segs) segs"
      using Cons.prems False by (auto simp: own_segments_def)
    ultimately have "\<exists>st' seen'. numbered st' seen'
        (fst (foldl (flow_segment date layout) (fst (flow_segment date layout (es, t) s),
           snd (flow_segment date layout (es, t) s)) segs))"
      by (intro Cons.IH)
    then show ?thesis by simp
  qed
qed auto

lemma layout_numbers:
  assumes "distinct (map tr_id rows)"
  shows "list_all2 (\<lambda>n s. tr_chip (hd s) \<noteq> ChipTurn \<longrightarrow> card_number (trajectoryCardLayout date rows nowMs) (hd s) = n)
    (segment_numbers (None, []) (row_segments rows)) (row_segments rows)"
proof -
  let ?segs = "row_segments rows" and ?ns = "segment_numbers (None, []) (row_segments rows)"
  have "card_number (trajectoryCardLayout date rows nowMs) (hd s) = n"
    if s: "(n, s) \<in> set (zip ?ns ?segs)" and chip: "tr_chip (hd s) \<noteq> ChipTurn" for n s
  proof -
    have "s \<noteq> []" using row_runs_ok [of rows] set_zip_rightD [OF s] by (auto simp: list_all_iff [of row_run_ok] row_run_ok_def)
    then have "tr_id (hd s) \<in> set (map fst (segment_cards date nowMs n s))" by simp
    then obtain c where c: "(tr_id (hd s), c) \<in> set (segment_cards date nowMs n s)"
      unfolding set_map by (metis imageE prod.collapse)
    then have "(tr_id (hd s), c) \<in> set (all_cards date nowMs rows)"
      using s chip by (force simp: all_cards_def cards_of_def)
    then show ?thesis
      using card_of_row [OF assms] number_of_segment_cards [OF c] by (simp add: card_number_def)
  qed
  then show ?thesis by (auto simp: list_all2_iff)
qed

text \<open>
  C16: calls are numbered as they are read: over rows with IDs of their own, each request's phases
  listed together, the calls of the flow carry the numbers 1, 2, 3 and so on in their order, and
  each is a root with all its retries after it or a single retry listed without its root.
\<close>

theorem calls_numbered:
  fixes date :: date_parser and nowMs :: "int option"
  assumes "distinct (map tr_id rows)" and "distinct (own_segments (row_segments rows))"
  defines "found \<equiv> flow_calls (trajectoryFlowEntries date rows (trajectoryCardLayout date rows nowMs))"
  shows "map fc_call_number found = [1..<Suc (length found)] \<and> list_all call_shape found"
proof -
  have "numbered (None, []) {} []" by (simp add: numbered_def)
  from numbered_segments [OF row_runs_ok this assms(2) _ layout_numbers [OF assms(1)], of date date nowMs None]
  obtain st seen where "numbered st seen (trajectoryFlowEntries date rows (trajectoryCardLayout date rows nowMs))"
    unfolding trajectoryFlowEntries_def by auto
  then have "map fc_call_number found = [1..<Suc (length (snd st))]" and shape: "list_all call_shape found"
    by (simp_all add: numbered_def found_def)
  moreover from this(1) have "length found = length (snd st)" by (metis length_map length_upt diff_Suc_1)
  ultimately show ?thesis by simp
qed

definition sample_flow_rows :: "trajectory_row list" where
  "sample_flow_rows =
     [sample_header ''t'', sample_phase ''a'' ''a'' ChipClient, sample_phase ''a'' ''r'' ChipResult,
      (sample_phase ''b'' ''b'' ChipRetry)\<lparr>tr_child := True\<rparr>, sample_phase ''c'' ''c'' ChipClient]"

theorem calls_numbered_witness:
  "map fc_call_number (flow_calls (trajectoryFlowEntries sample_clock sample_flow_rows
     (trajectoryCardLayout sample_clock sample_flow_rows None))) = [1, 2]"
proof -
  have "length (flow_calls (trajectoryFlowEntries sample_clock sample_flow_rows
     (trajectoryCardLayout sample_clock sample_flow_rows None))) = 2" by code_simp
  moreover have "distinct (map tr_id sample_flow_rows)" "distinct (own_segments (row_segments sample_flow_rows))"
    by code_simp+
  ultimately show ?thesis
    using calls_numbered [of sample_flow_rows sample_clock None] by (simp add: upt_rec)
qed

section \<open>Calls that are over\<close>

lemma flow_calls_mem: "call \<in> set (flow_calls es) \<longleftrightarrow> FlowCall call \<in> set es"
  by (induction es rule: flow_calls.induct) auto

lemma call_is_made:
  assumes "call \<in> set (flow_calls (trajectoryFlowEntries date rows layout))"
  shows "call = flowCall date (fc_attempts call) (fc_turn_id call) (fc_call_number call)"
    and "list_all attempt_ok (fc_attempts call)" and "fc_attempts call \<noteq> []"
  using entries_ok [of date rows layout] assms by (auto simp: list_all_iff flow_calls_mem entry_ok_def)

lemma attempt_of_mem: "attempt_of attempts row = Some (i, a) \<Longrightarrow> a \<in> set attempts"
  by (auto simp: attempt_of_def last_matching_def find_Some_iff in_set_conv_nth rev_nth nth_enumerate_eq)
    (metis (no_types, lifting) Suc_diff_Suc diff_less_Suc less_Suc_eq_0_disj not_less_eq prod.inject zero_less_diff)

lemma route_step_still:
  assumes "list_all (\<lambda>a. \<not> fa_running a) attempts"
  shows "route_step date now attempts st row = route_step date now' attempts st row"
proof -
  have "\<not> fa_running a" if "attempt_of attempts row = Some (i, a)" for i a
    using attempt_of_mem [OF that] assms by (auto simp: list_all_iff)
  then have "(case attempt_of attempts row of None \<Rightarrow> False
      | Some (i, a) \<Rightarrow> fa_running a \<and> tr_tone row = TonePending \<and> tr_ended_at row = None) = False"
    by (auto split: option.splits)
  then show ?thesis by (simp add: route_step_def Let_def case_prod_beta)
qed

text \<open>
  A call that is over stands still: when the result of each of its attempts is settled, no
  phase left open runs on, and the route with its durations and the span of the call are the same
  at every moment.
\<close>

theorem settled_call_still:
  assumes "call \<in> set (flow_calls (trajectoryFlowEntries date rows layout))"
    and "list_all (\<lambda>a. settled_result (fa_result_row a)) (fc_attempts call)"
  shows "\<not> fc_running call
    \<and> trajectoryFlowSteps date call now = trajectoryFlowSteps date call now'
    \<and> flowCallSpanMs call now = flowCallSpanMs call now'"
proof -
  have idle: "list_all (\<lambda>a. \<not> fa_running a) (fc_attempts call)"
    using call_is_made(2) [OF assms(1)] assms(2) by (auto simp: list_all_iff attempt_ok_def)
  then have "find fa_running (rev (fc_attempts call)) = None" by (simp add: find_None_iff list_all_iff)
  moreover have "fc_running (flowCall date (fc_attempts call) (fc_turn_id call) (fc_call_number call))
      = (Option.bind (find fa_running (rev (fc_attempts call))) fa_active_row \<noteq> None)"
    by (simp add: flowCall_def Let_def)
  ultimately have "\<not> fc_running call" using call_is_made(1) [OF assms(1)] by simp
  moreover have "trajectoryFlowSteps date call now = trajectoryFlowSteps date call now'"
    unfolding trajectoryFlowSteps_def by (metis (no_types) route_step_still [OF idle] ext)
  ultimately show ?thesis by (simp add: flowCallSpanMs_def split: option.split)
qed

text \<open>A phase nobody closed, before a result.\<close>

definition sample_left_open :: "trajectory_row list" where
  "sample_left_open =
     [(sample_phase ''a'' ''a'' ChipUpstream)\<lparr>tr_tone := TonePending, tr_ended_at := None\<rparr>,
      sample_phase ''a'' ''b'' ChipResult]"

definition sample_call :: flow_call where
  "sample_call = hd (flow_calls (trajectoryFlowEntries sample_clock sample_left_open
     (trajectoryCardLayout sample_clock sample_left_open (Some 20))))"

theorem settled_call_still_witness:
  "length (trajectoryFlowSteps sample_clock sample_call 50) = 2 \<and> \<not> fc_running sample_call
   \<and> trajectoryFlowSteps sample_clock sample_call 50 = trajectoryFlowSteps sample_clock sample_call 90
   \<and> flowCallSpanMs sample_call 50 = flowCallSpanMs sample_call 90"
proof -
  let ?es = "trajectoryFlowEntries sample_clock sample_left_open
     (trajectoryCardLayout sample_clock sample_left_open (Some 20))"
  have "length (flow_calls ?es) = 1" by code_simp
  then have "sample_call \<in> set (flow_calls ?es)" by (cases "flow_calls ?es") (simp_all add: sample_call_def)
  moreover have "list_all (\<lambda>a. settled_result (fa_result_row a)) (fc_attempts sample_call)" by code_simp
  moreover have "length (trajectoryFlowSteps sample_clock sample_call 50) = 2" by code_simp
  ultimately show ?thesis using settled_call_still by blast
qed

section \<open>Finding a row's entry\<close>

lemma foldl_upd_const: "foldl (\<lambda>m row. m(tr_id row \<mapsto> i)) m rows k = (if k \<in> tr_id ` set rows then Some i else m k)"
  by (induction rows arbitrary: m) auto

lemma row_index_fold:
  "\<exists>e \<in> set es. k \<in> tr_id ` set (entry_rows e) \<Longrightarrow>
     \<exists>i < length es. foldl (\<lambda>m (i, entry). foldl (\<lambda>m row. m(tr_id row \<mapsto> i)) m (entry_rows entry)) m (enumerate n es) k = Some (n + i)
       \<and> k \<in> tr_id ` set (entry_rows (es ! i))"
proof (induction es rule: rev_induct)
  case (snoc e es)
  show ?case
  proof (cases "k \<in> tr_id ` set (entry_rows e)")
    case True
    then show ?thesis by (intro exI [of _ "length es"]) (simp add: enumerate_append_eq foldl_upd_const del: fun_upd_apply)
  next
    case False
    then have "\<exists>e \<in> set es. k \<in> tr_id ` set (entry_rows e)" using snoc.prems by auto
    from snoc.IH [OF this] obtain i where "i < length es" "foldl (\<lambda>m (i, entry). foldl (\<lambda>m row. m(tr_id row \<mapsto> i)) m (entry_rows entry)) m (enumerate n es) k = Some (n + i)"
      "k \<in> tr_id ` set (entry_rows (es ! i))"
      by blast
    then show ?thesis using False by (intro exI [of _ i]) (simp add: enumerate_append_eq foldl_upd_const [of _ _ "entry_rows e"] nth_append del: fun_upd_apply)
  qed
qed simp

text \<open>
  Every row can be found: over rows with IDs of their own, the index kept for a row's ID is that
  of an entry listing this very row.
\<close>

theorem flow_rows_found:
  assumes "distinct (map tr_id rows)" and "row \<in> set rows"
  shows "\<exists>i < length (trajectoryFlowEntries date rows layout).
    trajectoryFlowRowIndices (trajectoryFlowEntries date rows layout) (tr_id row) = Some i
    \<and> row \<in> set (entry_rows (trajectoryFlowEntries date rows layout ! i))"
proof -
  let ?es = "trajectoryFlowEntries date rows layout"
  have members: "set (entry_rows e) = set (entry_source e)" if "e \<in> set ?es" for e
    using entry_rows_mset entries_ok [of date rows layout] that by (metis list_all_iff set_mset_mset)
  have "row \<in> set (concat (map entry_source ?es))" using assms(2) by (simp add: entries_source)
  then obtain e where "e \<in> set ?es" "row \<in> set (entry_rows e)" using members by auto
  then have "\<exists>e \<in> set ?es. tr_id row \<in> tr_id ` set (entry_rows e)" by blast
  from row_index_fold [OF this, of Map.empty 0] obtain i where i: "i < length ?es"
    "trajectoryFlowRowIndices ?es (tr_id row) = Some i" "tr_id row \<in> tr_id ` set (entry_rows (?es ! i))"
    by (auto simp: trajectoryFlowRowIndices_def)
  then obtain row' where row': "row' \<in> set (entry_rows (?es ! i))" "tr_id row' = tr_id row" by auto
  have "row' \<in> set (concat (map entry_source ?es))" using row'(1) i(1) members [of "?es ! i"] by (auto intro!: bexI [of _ "?es ! i"])
  then have "row' = row" using row'(2) assms by (simp add: entries_source distinct_map inj_on_def)
  then show ?thesis using i row' by blast
qed

section \<open>What a turn shows of its calls\<close>

lemma upsert_lookup: "map_of (upsert k fresh f m) x =
    (if x = k then Some (f (case map_of m k of Some v \<Rightarrow> v | None \<Rightarrow> fresh)) else map_of m x)"
  by (induction m) auto

text \<open>
  A folded turn shows one outcome for each of its calls, in their order, and a turn without calls
  shows none.
\<close>

theorem digest_of_turn:
  "map_of (trajectoryTurnDigests es) turn =
     (let own = filter (\<lambda>call. fc_turn_id call = Some turn) (flow_calls es) in
      if own = [] then None else Some (map (\<lambda>call. (fc_tone call, fc_running call)) own))"
proof -
  let ?f = "\<lambda>digests entry. case entry of
         FlowTurn _ \<Rightarrow> digests
       | FlowCall call \<Rightarrow> (case fc_turn_id call of
           None \<Rightarrow> digests
         | Some turn \<Rightarrow> upsert turn [] (\<lambda>tones. tones @ [(fc_tone call, fc_running call)]) digests)"
  show ?thesis
    unfolding trajectoryTurnDigests_def
    by (induction es rule: rev_induct) (auto simp: Let_def upsert_lookup split: flow_entry.splits option.splits)
qed

section \<open>Places in the measured list\<close>

text \<open>The entries lie one below the other, gaps allowed.\<close>

definition stacked :: "measured_entry list \<Rightarrow> bool" where
  "stacked ms \<longleftrightarrow> sorted_wrt (\<lambda>a b. measured_end a \<le> me_start b) ms \<and> distinct (map me_id ms)
     \<and> list_all (\<lambda>m. me_size m > 0) ms"

lemma entry_at_offset:
  assumes "stacked ms" and "m \<in> set ms" and "me_start m \<le> y" "y < measured_end m"
  shows "find (\<lambda>m. y < measured_end m) ms = Some m"
  using assms
proof (induction ms)
  case (Cons n ms)
  show ?case
  proof (cases "m = n")
    case False
    then have "measured_end n \<le> me_start m" using Cons.prems by (auto simp: stacked_def)
    then have "\<not> y < measured_end n" using Cons.prems(3) by linarith
    then show ?thesis using Cons False by (auto simp: stacked_def)
  qed (use Cons.prems in simp)
qed simp

lemma measured_by_id: "distinct (map me_id ms) \<Longrightarrow> m \<in> set ms \<Longrightarrow> find (\<lambda>m'. me_id m' = me_id m) ms = Some m"
  by (induction ms) auto

text \<open>
  C17: a place in the list outlives what opens and closes around it: in a list of measured entries
  that do not overlap, an offset inside a card gives an anchor, and in any later list holding that card
  the anchor leads to the same share of the card at its new place and size, as far as that list can
  scroll: above the start it leads to the start, beyond the last offset to the last one. In the list it
  was taken from it leads to the very offset, when the list can scroll there.
\<close>

theorem anchor_keeps_place:
  assumes "stacked (validMeasurements before)" and "m \<in> set (validMeasurements before)"
    and "0 \<le> y" "me_start m \<le> y" "y < measured_end m"
    and "distinct (map me_id (validMeasurements after))" and "m' \<in> set (validMeasurements after)" "me_id m' = me_id m"
    and "0 < limit"
  shows "\<exists>anchor. flowScrollAnchorAtOffset before (Some y) = Some anchor
    \<and> flowScrollOffsetForAnchor after anchor (Some limit)
        = min limit (max 0 (me_start m' + (y - me_start m) / me_size m * me_size m'))
    \<and> (m' = m \<longrightarrow> flowScrollOffsetForAnchor after anchor (Some limit) = min limit y)"
proof -
  define f where "f = (y - me_start m) / me_size m"
  have size: "me_size m > 0" using assms(4,5) by (simp add: measured_end_def)
  have f: "0 \<le> f" "f \<le> 1" using assms(4,5) size by (simp_all add: f_def measured_end_def)
  have found: "find (\<lambda>m. y < measured_end m) (validMeasurements before) = Some m"
    using assms(1,2,4,5) by (rule entry_at_offset)
  have taken: "flowScrollAnchorAtOffset before (Some y)
      = Some \<lparr>ak_id = me_id m, ak_request_id = me_request_id m, ak_fraction = f\<rparr>"
    using assms(2,3) found size f by (auto simp: flowScrollAnchorAtOffset_def Let_def f_def [symmetric] clamp01_def)
  have own: "find (\<lambda>n. me_id n = me_id m) (validMeasurements after) = Some m'"
    using measured_by_id [OF assms(6,7)] assms(8) by simp
  have "flowScrollOffsetForAnchor after \<lparr>ak_id = me_id m, ak_request_id = me_request_id m, ak_fraction = f\<rparr> (Some limit)
      = min limit (max 0 (me_start m' + f * me_size m'))"
    using f own assms(9) by (simp add: flowScrollOffsetForAnchor_def clampScroll_def clamp01_def)
  moreover have "me_start m + f * me_size m = y" using size by (simp add: f_def)
  ultimately show ?thesis using taken assms(3) by (auto simp: f_def)
qed

definition sample_measured :: "rat \<Rightarrow> flow_measurement list" where
  "sample_measured size' =
     [\<lparr>fm_id = js ''t'', fm_request_id = js ''a'', fm_start = Some 0, fm_size = Some 20\<rparr>,
      \<lparr>fm_id = js ''x'', fm_request_id = js ''a'', fm_start = Some 20, fm_size = None\<rparr>,
      \<lparr>fm_id = js ''a'', fm_request_id = js ''a'', fm_start = Some 24, fm_size = Some size'\<rparr>]"

theorem anchor_keeps_place_witness:
  "\<exists>anchor. flowScrollAnchorAtOffset (sample_measured 40) (Some 34) = Some anchor
    \<and> flowScrollOffsetForAnchor (sample_measured 400) anchor (Some 424) = 124
    \<and> flowScrollOffsetForAnchor (sample_measured 400) anchor (Some 100) = 100"
proof -
  let ?m = "\<lambda>size. \<lparr>me_id = js ''a'', me_request_id = js ''a'', me_start = 24, me_size = size\<rparr>"
  have "\<exists>anchor. flowScrollAnchorAtOffset (sample_measured 40) (Some 34) = Some anchor
    \<and> flowScrollOffsetForAnchor (sample_measured 400) anchor (Some limit) = min limit 124" if "0 < limit" for limit
    using that anchor_keeps_place [of "sample_measured 40" "?m 40" 34 "sample_measured 400" "?m 400" limit]
    by (auto simp: sample_measured_def validMeasurements_def map_filter_simps valid_measurement_def stacked_def measured_end_def js_def)
  from this [of 424] this [of 100] show ?thesis by auto
qed

text \<open>
  What a held pick keeps: it is never above the gap at the top, it stays where it was when the
  region below it fits there, and else that region ends above the gap at the bottom or the pick is at
  the top.
\<close>

theorem hold_keeps_pick:
  fixes pickTop held regionBottom listHeight topGap bottomGap :: rat
  defines "placed \<equiv> pickTop - flowHoldScrollDelta pickTop (Some held) regionBottom listHeight topGap bottomGap"
    and "below \<equiv> max 0 (regionBottom - pickTop)"
  shows "topGap \<le> placed
    \<and> (placed = held \<or> held < topGap \<or> listHeight - bottomGap < held + below)
    \<and> (placed = topGap \<or> placed + below \<le> listHeight - bottomGap)"
  by (auto simp: placed_def below_def flowHoldScrollDelta_def Let_def max_def min_def)

section \<open>Shares of the longest call\<close>

lemma max_weight_fold:
  "w \<le> foldl (\<lambda>weight entry. case entry of
          FlowTurn _ \<Rightarrow> weight
        | FlowCall call \<Rightarrow> (case flowCallSpanMs call now of
            None \<Rightarrow> weight
          | Some ms \<Rightarrow> max weight (timelineWeight (of_int ms) knee))) w es"
  by (induction es arbitrary: w) (auto split: flow_entry.splits option.splits intro: order_trans [OF max.cobounded1])

text \<open>
  A bar shows at most the whole: a call of the list gets the share its own weight has in the
  longest, between none and all, without the cap ever biting.
\<close>

theorem share_of_call:
  assumes "FlowCall call \<in> set es" and "flowCallSpanMs call now = Some ms"
    and "sc_max_weight (flowDurationScale es knee now) > 0"
  shows "flowDurationShare (Some ms) (flowDurationScale es knee now)
      = timelineWeight (of_int ms) knee / sc_max_weight (flowDurationScale es knee now)
    \<and> flowDurationShare (Some ms) (flowDurationScale es knee now) \<le> 1"
proof -
  have "timelineWeight (of_int ms) knee \<le> sc_max_weight (flowDurationScale es knee now)"
    using split_list [OF assms(1)] assms(2)
    by (auto simp: flowDurationScale_def intro: order_trans [OF max.cobounded2 max_weight_fold])
  then show ?thesis using assms(3) by (simp add: flowDurationShare_def) (simp add: flowDurationScale_def)
qed

section \<open>The route follows the clock\<close>

definition route_order :: "nat \<times> trajectory_row \<times> int option \<Rightarrow> nat \<times> trajectory_row \<times> int option \<Rightarrow> int" where
  "route_order = (\<lambda>(i, _, a) (j, _, b). if start_order a b \<noteq> 0 then start_order a b else int i - int j)"

abbreviation timed_by :: "date_parser \<Rightarrow> nat \<times> trajectory_row \<times> int option \<Rightarrow> bool" where
  "timed_by date x \<equiv> snd (snd x) = date (tr_started_at (fst (snd x))) \<and> date (tr_started_at (fst (snd x))) \<noteq> None"

lemma insert_route:
  "timed_by date x \<Longrightarrow> list_all (timed_by date) ys \<Longrightarrow> list_all (\<lambda>y. fst x < fst y) ys \<Longrightarrow>
     map (\<lambda>(i, row, start). row) (insert_by route_order x ys)
     = insort_key (start_of date) (fst (snd x)) (map (\<lambda>(i, row, start). row) ys)"
  by (induction ys) (auto simp: route_order_def start_of_def case_prod_beta)

lemma sort_route:
  "list_all (timed_by date) xs \<Longrightarrow> sorted_wrt (\<lambda>x y. fst x < fst y) xs \<Longrightarrow>
     map (\<lambda>(i, row, start). row) (sort_by route_order xs)
     = sort_key (start_of date) (map (\<lambda>(i, row, start). row) xs)"
proof (induction xs)
  case (Cons x xs)
  have "map (\<lambda>(i, row, start). row) (insert_by route_order x (sort_by route_order xs))
      = insort_key (start_of date) (fst (snd x)) (map (\<lambda>(i, row, start). row) (sort_by route_order xs))"
    using Cons.prems by (intro insert_route) (auto simp: list_all_iff)
  then show ?case using Cons by (cases x) simp
qed simp

lemma carried_known:
  "list_all (\<lambda>row. date (tr_started_at row) \<noteq> None) rows \<Longrightarrow>
     carry_starts date c rows = map (\<lambda>row. (row, date (tr_started_at row))) rows"
  by (induction rows arbitrary: c) (auto simp: Let_def)

text \<open>
  Where every start can be read, the phases of a call with retries are its attempts' phases by
  their start, those that start together in the order listed.
\<close>

theorem route_by_clock:
  assumes "length attempts \<noteq> 1" and "list_all (\<lambda>row. date (tr_started_at row) \<noteq> None) (concat (map fa_rows attempts))"
  shows "chronologicalRows date attempts = sort_key (start_of date) (concat (map fa_rows attempts))"
proof -
  let ?xs = "enumerate 0 (map (\<lambda>row. (row, date (tr_started_at row))) (concat (map fa_rows attempts)))"
  have "list_all (timed_by date) ?xs"
    using assms(2) by (auto simp: list_all_length nth_enumerate_eq simp del: map_concat)
  moreover have "sorted_wrt (\<lambda>x y. fst x < fst y) ?xs"
    by (simp add: sorted_wrt_iff_nth_less nth_enumerate_eq del: map_concat)
  moreover have "map (\<lambda>(i, row, start). row) ?xs = concat (map fa_rows attempts)"
    by (rule nth_equalityI) (simp_all add: nth_enumerate_eq del: map_concat)
  ultimately show ?thesis
    using assms sort_route [of date ?xs]
    by (simp add: chronologicalRows_def carried_known route_order_def del: map_concat)
qed

end
