(* ===== verification/Ipc_Readers.thy ===== *)
theory Ipc_Readers
  imports Privacy_Readers Request_Data
begin

text \<open>
  The readers at the top of \<open>service-model.ts\<close>, over the exception they throw: objects with the
  fields they may have, text by its length in code points, instants and whole numbers. The
  collection \<open>ipc\<close> says what each accepts.
\<close>

named_theorems ipc "what each reader accepts"

type_synonym complaint = "jstr \<Rightarrow> jstr \<Rightarrow> js_error"

definition service_invalid :: complaint where
  "service_invalid path message = Error (js ''Invalid Service IPC response at '' @ path @ js '': '' @ message)"

definition ipc_object :: "complaint \<Rightarrow> json \<Rightarrow> jstr \<Rightarrow> js_error + jobj" where
  "ipc_object bad value path = orThrow (bad path (js ''expected an object'')) (jobject value)"

definition ipc_keys :: "complaint \<Rightarrow> jobj \<Rightarrow> string list \<Rightarrow> string list \<Rightarrow> jstr \<Rightarrow> js_error + unit" where
  "ipc_keys bad obj required optional path =
     (case unexpected_key obj (required @ optional) of
        Some k \<Rightarrow> Inl (bad (at_key path k) (js ''unexpected field''))
      | None \<Rightarrow>
          (case missing_key obj required of
             Some k \<Rightarrow> Inl (bad (at_field path k) (js ''missing field''))
           | None \<Rightarrow> Inr ()))"

definition ipc_text :: "complaint \<Rightarrow> json \<Rightarrow> jstr \<Rightarrow> nat \<Rightarrow> nat \<Rightarrow> js_error + jstr" where
  "ipc_text bad value path lo hi =
     (let e = bad path (js ''expected '' @ dec lo @ js '' to '' @ dec hi @ js '' characters'') in
      bindE (orThrow e (jstring value)) (\<lambda>s.
      bindE (throwIf (length (code_points s) < lo \<or> length (code_points s) > hi) e) (\<lambda>_. Inr s)))"

definition ipc_timestamp :: "complaint \<Rightarrow> date_parser \<Rightarrow> json \<Rightarrow> jstr \<Rightarrow> js_error + jstr" where
  "ipc_timestamp bad date value path =
     bindE (ipc_text bad value path 20 64) (\<lambda>timestamp.
     bindE (throwIf (\<not> matches rfc3339_rx timestamp \<or> date timestamp = None)
              (bad path (js ''expected an RFC 3339 timestamp''))) (\<lambda>_.
     Inr timestamp))"

definition ipc_integer :: "complaint \<Rightarrow> json \<Rightarrow> jstr \<Rightarrow> int \<Rightarrow> int \<Rightarrow> js_error + int" where
  "ipc_integer bad value path lo hi =
     (let e = bad path (js ''expected an integer from '' @ dec (nat lo) @ js '' to '' @ dec (nat hi)) in
      bindE (orThrow e (safe_int value)) (\<lambda>n.
      bindE (throwIf (n < lo \<or> n > hi) e) (\<lambda>_. Inr n)))"

definition ipc_flag :: "complaint \<Rightarrow> json \<Rightarrow> jstr \<Rightarrow> js_error + bool" where
  "ipc_flag bad value path = orThrow (bad path (js ''expected a boolean'')) (jbool value)"

definition ipc_enum :: "complaint \<Rightarrow> string \<Rightarrow> 'a list \<Rightarrow> ('a \<Rightarrow> string) \<Rightarrow> json \<Rightarrow> jstr \<Rightarrow> js_error + 'a" where
  "ipc_enum bad message members name value path = orThrow (bad path (js message)) (enum_of members name value)"

text \<open>A field read only where the object has it.\<close>

definition if_own :: "jobj \<Rightarrow> string \<Rightarrow> (json \<Rightarrow> 'e + 'a) \<Rightarrow> 'e + 'a option" where
  "if_own obj k reader =
     (if has_own obj k then bindE (reader (field obj k)) (\<lambda>x. Inr (Some x)) else Inr None)"

definition timestamp_read :: "date_parser \<Rightarrow> jstr \<Rightarrow> bool" where
  "timestamp_read date s \<longleftrightarrow> text_ok 20 64 s \<and> matches rfc3339_rx s \<and> date s \<noteq> None"

lemma ipc_object_iff [ipc]: "ipc_object bad v path = Inr o' \<longleftrightarrow> v = JObj o'"
  by (simp add: ipc_object_def res)

lemma ipc_keys_iff [ipc]:
  "ipc_keys bad o' required optional path = Inr u \<longleftrightarrow>
     keys_in o' (required @ optional) \<and> list_all (has_own o') required"
  by (auto simp: ipc_keys_def simp flip: unexpected_key_None missing_key_None split: option.splits)

lemma ipc_text_iff [ipc]: "ipc_text bad v path lo hi = Inr s \<longleftrightarrow> v = JStr s \<and> text_ok lo hi s"
  by (auto simp: ipc_text_def Let_def res text_ok_def)

lemma ipc_timestamp_iff [ipc]: "ipc_timestamp bad date v path = Inr s \<longleftrightarrow> v = JStr s \<and> timestamp_read date s"
  by (auto simp: ipc_timestamp_def res ipc timestamp_read_def)

lemma ipc_integer_iff [ipc]:
  "ipc_integer bad v path lo hi = Inr n \<longleftrightarrow> v = jint n \<and> \<bar>n\<bar> \<le> max_safe \<and> lo \<le> n \<and> n \<le> hi"
  by (auto simp: ipc_integer_def Let_def res jsval)

lemma ipc_flag_iff [ipc]: "ipc_flag bad v path = Inr b \<longleftrightarrow> v = JBool b"
  by (simp add: ipc_flag_def res)

lemma if_own_iff [ipc]:
  "if_own o' k r = Inr x \<longleftrightarrow> (if has_own o' k then (\<exists>y. r (field o' k) = Inr y \<and> x = Some y) else x = None)"
  by (auto simp: if_own_def res)

end
