(* ===== verification/Service_Kinds.thy ===== *)
theory Service_Kinds
  imports Failure_Policy Live_Merge
begin

text \<open>
  The kinds of provider and the tables a provider carries, \<open>service-model.ts\<close>: what each kind
  speaks and may be converted to, the formats its models are pinned to and the redirects Claude
  Code needs. \<open>toLowerCase\<close>, \<open>new URL\<close>, \<open>JSON.parse\<close>, \<open>Date.parse\<close> and the lookup of texts are arguments.
\<close>

section \<open>Kinds\<close>

datatype service_kind =
    CodexSubscription | ClaudeSubscription | GrokSubscription | AntigravitySubscription
  | CopilotSubscription | DroidSubscription
  | OpencodeGo | OpencodeZen | KimiCoding | GlmCoding | MinimaxCoding | NewAPI | Magpie | OpenAIKind
  | AnthropicKind | GeminiKind | VertexKind | DeepseekKind | QwenKind | MoonshotKind | GlmKind | MinimaxKind
  | DoubaoKind | XaiKind | OpenAICompatible | CustomKind

fun service_kind_name :: "service_kind \<Rightarrow> string" where
  "service_kind_name CodexSubscription = ''codex_subscription''"
| "service_kind_name ClaudeSubscription = ''claude_subscription''"
| "service_kind_name GrokSubscription = ''grok_subscription''"
| "service_kind_name AntigravitySubscription = ''antigravity_subscription''"
| "service_kind_name CopilotSubscription = ''copilot_subscription''"
| "service_kind_name DroidSubscription = ''droid_subscription''"
| "service_kind_name OpencodeGo = ''opencode_go''"
| "service_kind_name OpencodeZen = ''opencode_zen''"
| "service_kind_name KimiCoding = ''kimi_coding''"
| "service_kind_name GlmCoding = ''glm_coding''"
| "service_kind_name MinimaxCoding = ''minimax_coding''"
| "service_kind_name NewAPI = ''newapi''"
| "service_kind_name Magpie = ''magpie''"
| "service_kind_name OpenAIKind = ''openai''"
| "service_kind_name AnthropicKind = ''anthropic''"
| "service_kind_name GeminiKind = ''gemini''"
| "service_kind_name VertexKind = ''vertex''"
| "service_kind_name DeepseekKind = ''deepseek''"
| "service_kind_name QwenKind = ''qwen''"
| "service_kind_name MoonshotKind = ''moonshot''"
| "service_kind_name GlmKind = ''glm''"
| "service_kind_name MinimaxKind = ''minimax''"
| "service_kind_name DoubaoKind = ''doubao''"
| "service_kind_name XaiKind = ''xai''"
| "service_kind_name OpenAICompatible = ''openai_compatible''"
| "service_kind_name CustomKind = ''custom''"

definition httpKinds :: "service_kind list" where
  "httpKinds =
     [OpencodeGo, OpencodeZen, KimiCoding, GlmCoding, MinimaxCoding, NewAPI, Magpie, OpenAIKind, AnthropicKind,
      GeminiKind, VertexKind, DeepseekKind, QwenKind, MoonshotKind, GlmKind, MinimaxKind, DoubaoKind, XaiKind,
      OpenAICompatible, CustomKind]"

datatype subscription_provider = OpenaiCodex | ClaudeCode | XaiGrok | AntigravityProvider | GithubCopilot | FactoryDroid

fun provider_name :: "subscription_provider \<Rightarrow> string" where
  "provider_name OpenaiCodex = ''openai_codex''"
| "provider_name ClaudeCode = ''claude_code''"
| "provider_name XaiGrok = ''xai_grok''"
| "provider_name AntigravityProvider = ''antigravity''"
| "provider_name GithubCopilot = ''github_copilot''"
| "provider_name FactoryDroid = ''factory_droid''"

definition subscription_providers :: "subscription_provider list" where
  "subscription_providers = [OpenaiCodex, ClaudeCode, XaiGrok, AntigravityProvider, GithubCopilot, FactoryDroid]"

text \<open>The provider behind a subscription; a service by HTTP has none.\<close>

fun subscriptionKindProviders :: "service_kind \<Rightarrow> subscription_provider option" where
  "subscriptionKindProviders CodexSubscription = Some OpenaiCodex"
| "subscriptionKindProviders ClaudeSubscription = Some ClaudeCode"
| "subscriptionKindProviders GrokSubscription = Some XaiGrok"
| "subscriptionKindProviders AntigravitySubscription = Some AntigravityProvider"
| "subscriptionKindProviders CopilotSubscription = Some GithubCopilot"
| "subscriptionKindProviders DroidSubscription = Some FactoryDroid"
| "subscriptionKindProviders _ = None"

definition subscriptionKinds :: "service_kind list" where
  "subscriptionKinds =
     [CodexSubscription, ClaudeSubscription, GrokSubscription, AntigravitySubscription, CopilotSubscription,
      DroidSubscription]"

definition isSubscriptionKind :: "service_kind \<Rightarrow> bool" where
  "isSubscriptionKind kind \<longleftrightarrow> subscriptionKindProviders kind \<noteq> None"

definition service_kinds :: "service_kind list" where "service_kinds = subscriptionKinds @ httpKinds"

interpretation service_kind_enum: string_enum service_kinds service_kind_name
proof
  show "x \<in> set service_kinds" for x
    by (cases x) (simp_all add: service_kinds_def subscriptionKinds_def httpKinds_def)
  show "distinct (map service_kind_name service_kinds)"
    by (simp add: service_kinds_def subscriptionKinds_def httpKinds_def)
qed

interpretation provider_enum: string_enum subscription_providers provider_name
proof
  show "x \<in> set subscription_providers" for x by (cases x) (simp_all add: subscription_providers_def)
  show "distinct (map provider_name subscription_providers)" by (simp add: subscription_providers_def)
qed

section \<open>Formats and capabilities\<close>

datatype model_format = FmtResponses | FmtMessages | FmtChat | FmtGemini

fun format_name :: "model_format \<Rightarrow> string" where
  "format_name FmtResponses = ''openai.responses''"
| "format_name FmtMessages = ''anthropic.messages''"
| "format_name FmtChat = ''openai.chat''"
| "format_name FmtGemini = ''google.generate_content''"

definition modelFormats :: "model_format list" where
  "modelFormats = [FmtResponses, FmtMessages, FmtChat, FmtGemini]"

interpretation format_enum: string_enum modelFormats format_name
proof
  show "x \<in> set modelFormats" for x by (cases x) (simp_all add: modelFormats_def)
  show "distinct (map format_name modelFormats)" by (simp add: modelFormats_def)
qed

fun modelFormatLabels :: "model_format \<Rightarrow> string" where
  "modelFormatLabels FmtResponses = ''Responses''"
| "modelFormatLabels FmtMessages = ''Messages''"
| "modelFormatLabels FmtChat = ''Chat''"
| "modelFormatLabels FmtGemini = ''Gemini''"

definition isModelFormat :: "jstr \<Rightarrow> bool" where
  "isModelFormat value \<longleftrightarrow> value \<in> set (map (js \<circ> format_name) modelFormats)"

datatype capability_mode = NativeMode | DelegatedMode

fun mode_name :: "capability_mode \<Rightarrow> string" where
  "mode_name NativeMode = ''native''"
| "mode_name DelegatedMode = ''delegated''"

definition capability_modes :: "capability_mode list" where "capability_modes = [NativeMode, DelegatedMode]"

interpretation mode_enum: string_enum capability_modes mode_name
proof
  show "x \<in> set capability_modes" for x by (cases x) (simp_all add: capability_modes_def)
  show "distinct (map mode_name capability_modes)" by (simp add: capability_modes_def)
qed

record service_capability =
  cap_protocol :: jstr
  cap_mode :: capability_mode
  cap_streaming :: bool
  cap_convert_to :: "jstr option"

definition native_capability :: "string \<times> bool \<Rightarrow> service_capability" where
  "native_capability = (\<lambda>(protocol, streaming).
     \<lparr>cap_protocol = js protocol, cap_mode = NativeMode, cap_streaming = streaming, cap_convert_to = None\<rparr>)"

fun subscriptionNativeCapabilities :: "service_kind \<Rightarrow> service_capability list" where
  "subscriptionNativeCapabilities CodexSubscription = map native_capability
     [(''openai.responses'', True), (''openai.responses.compact'', False), (''openai.models'', False)]"
| "subscriptionNativeCapabilities ClaudeSubscription = map native_capability
     [(''anthropic.messages'', True), (''openai.models'', False)]"
| "subscriptionNativeCapabilities AntigravitySubscription = map native_capability
     [(''google.generate_content'', True), (''google.models'', False), (''openai.models'', False)]"
| "subscriptionNativeCapabilities GrokSubscription = map native_capability
     [(''openai.responses'', True), (''openai.chat'', True), (''openai.models'', False)]"
| "subscriptionNativeCapabilities CopilotSubscription = map native_capability
     [(''anthropic.messages'', True), (''openai.responses'', True), (''openai.chat'', True), (''openai.models'', False)]"
| "subscriptionNativeCapabilities DroidSubscription = map native_capability
     [(''anthropic.messages'', True), (''openai.responses'', True), (''openai.chat'', True), (''openai.models'', False)]"
| "subscriptionNativeCapabilities _ = []"

fun subscriptionConversionTargets :: "service_kind \<Rightarrow> model_format list" where
  "subscriptionConversionTargets CodexSubscription = [FmtResponses]"
| "subscriptionConversionTargets ClaudeSubscription = [FmtMessages]"
| "subscriptionConversionTargets GrokSubscription = [FmtResponses, FmtChat]"
| "subscriptionConversionTargets AntigravitySubscription = [FmtGemini]"
| "subscriptionConversionTargets CopilotSubscription = [FmtMessages, FmtResponses, FmtChat]"
| "subscriptionConversionTargets DroidSubscription = [FmtMessages, FmtResponses, FmtChat]"
| "subscriptionConversionTargets _ = []"

datatype conversion_quality = QualityGood | QualityFair | QualityDiscouraged

record snapshot_edge =
  snap_from :: jstr
  snap_to :: jstr
  snap_quality :: "conversion_quality option"
  snap_streaming :: bool

record engine_snapshot =
  eng_available :: bool
  eng_edges :: "snapshot_edge list"

definition target_preference :: "jstr list" where
  "target_preference = map js [''openai.responses'', ''openai.chat'', ''anthropic.messages'', ''google.generate_content'']"

definition preference_index :: "jstr \<Rightarrow> int" where
  "preference_index target = (case find_index (\<lambda>p. p = target) target_preference of Some i \<Rightarrow> int i | None \<Rightarrow> - 1)"

definition better_edge :: "snapshot_edge \<Rightarrow> snapshot_edge \<Rightarrow> int" where
  "better_edge a b =
     (let good = (\<lambda>e. if snap_quality e = Some QualityGood then 1 else 0) in
      if good b - good a \<noteq> 0 then good b - good a else preference_index (snap_to a) - preference_index (snap_to b))"

definition usable_edge :: "jstr \<Rightarrow> jstr list \<Rightarrow> snapshot_edge \<Rightarrow> bool" where
  "usable_edge from' upstreamProtocols edge \<longleftrightarrow>
     snap_from edge = from' \<and> snap_to edge \<noteq> from' \<and> snap_to edge \<in> set target_preference
     \<and> snap_to edge \<in> set upstreamProtocols \<and> snap_quality edge \<noteq> Some QualityDiscouraged"

definition bestConversionTarget :: "jstr \<Rightarrow> jstr list \<Rightarrow> engine_snapshot option \<Rightarrow> jstr option" where
  "bestConversionTarget from' upstreamProtocols engine =
     (case engine of
        None \<Rightarrow> None
      | Some e \<Rightarrow>
          if \<not> eng_available e then None
          else (case sort_by better_edge (filter (usable_edge from' upstreamProtocols) (eng_edges e)) of
              [] \<Rightarrow> None
            | best # _ \<Rightarrow> Some (snap_to best)))"

section \<open>Services\<close>

datatype auth_scheme = AuthNone | AuthBearer | AuthAnthropicKey | AuthGoogleKey | AuthServiceAccount | AuthCustomHeader

fun auth_name :: "auth_scheme \<Rightarrow> string" where
  "auth_name AuthNone = ''none''"
| "auth_name AuthBearer = ''bearer''"
| "auth_name AuthAnthropicKey = ''anthropic_api_key''"
| "auth_name AuthGoogleKey = ''google_api_key''"
| "auth_name AuthServiceAccount = ''google_service_account''"
| "auth_name AuthCustomHeader = ''custom_header''"

definition authSchemes :: "auth_scheme list" where
  "authSchemes = [AuthNone, AuthBearer, AuthAnthropicKey, AuthGoogleKey, AuthServiceAccount, AuthCustomHeader]"

interpretation auth_enum: string_enum authSchemes auth_name
proof
  show "x \<in> set authSchemes" for x by (cases x) (simp_all add: authSchemes_def)
  show "distinct (map auth_name authSchemes)" by (simp add: authSchemes_def)
qed

record service_auth =
  au_scheme :: auth_scheme
  au_header_name :: "jstr option"

record vertex_connection =
  vx_project_id :: jstr
  vx_location :: jstr

record http_connection =
  hc_base_url :: jstr
  hc_auth :: service_auth
  hc_credential_ref :: "jstr option"
  hc_vertex :: "vertex_connection option"
  hc_model_list_path :: "jstr option"
  hc_credential_hint :: "jstr option"

datatype subscription_status = Disconnected | Authorizing | Connected | NeedsReauth | StatusError

fun subscription_status_name :: "subscription_status \<Rightarrow> string" where
  "subscription_status_name Disconnected = ''disconnected''"
| "subscription_status_name Authorizing = ''authorizing''"
| "subscription_status_name Connected = ''connected''"
| "subscription_status_name NeedsReauth = ''needs_reauth''"
| "subscription_status_name StatusError = ''error''"

definition subscriptionStatuses :: "subscription_status list" where
  "subscriptionStatuses = [Disconnected, Authorizing, Connected, NeedsReauth, StatusError]"

interpretation subscription_status_enum: string_enum subscriptionStatuses subscription_status_name
proof
  show "x \<in> set subscriptionStatuses" for x by (cases x) (simp_all add: subscriptionStatuses_def)
  show "distinct (map subscription_status_name subscriptionStatuses)" by (simp add: subscriptionStatuses_def)
qed

datatype subscription_mode = LegacyMode | OfficialMode

fun subscription_mode_name :: "subscription_mode \<Rightarrow> string" where
  "subscription_mode_name LegacyMode = ''legacy''"
| "subscription_mode_name OfficialMode = ''official''"

definition subscription_modes :: "subscription_mode list" where "subscription_modes = [LegacyMode, OfficialMode]"

interpretation subscription_mode_enum: string_enum subscription_modes subscription_mode_name
proof
  show "x \<in> set subscription_modes" for x by (cases x) (simp_all add: subscription_modes_def)
  show "distinct (map subscription_mode_name subscription_modes)" by (simp add: subscription_modes_def)
qed

record subscription_error =
  sbe_code :: jstr
  sbe_message :: jstr

datatype risk_event_kind = Suspended | Cooling | Cleared

fun risk_name :: "risk_event_kind \<Rightarrow> string" where
  "risk_name Suspended = ''suspended''"
| "risk_name Cooling = ''cooling''"
| "risk_name Cleared = ''cleared''"

definition riskEventKinds :: "risk_event_kind list" where "riskEventKinds = [Suspended, Cooling, Cleared]"
definition riskStates :: "risk_event_kind list" where "riskStates = [Suspended, Cooling]"

interpretation risk_enum: string_enum riskEventKinds risk_name
proof
  show "x \<in> set riskEventKinds" for x by (cases x) (simp_all add: riskEventKinds_def)
  show "distinct (map risk_name riskEventKinds)" by (simp add: riskEventKinds_def)
qed

record subscription_risk =
  ri_state :: risk_event_kind
  ri_code :: jstr
  ri_message :: "jstr option"
  ri_http_status :: "int option"
  ri_observed_at :: jstr
  ri_paused_until :: "jstr option"
  ri_occurrences :: "int option"

record subscription_connection =
  sbc_provider :: subscription_provider
  sbc_status :: subscription_status
  sbc_account_hint :: "jstr option"
  sbc_provider_account_id :: "jstr option"
  sbc_mode :: "subscription_mode option"
  sbc_credential_ref :: "jstr option"
  sbc_authorization_boundary :: "jstr option"
  sbc_token_expires_at :: "jstr option"
  sbc_last_refresh_at :: "jstr option"
  sbc_last_error :: "subscription_error option"
  sbc_risk :: "subscription_risk option"

record model_protocol =
  mp_model :: jstr
  mp_protocol :: model_format

datatype proxy_mode = ProxyInherit | ProxyDirect | ProxyCustom

fun proxy_mode_name :: "proxy_mode \<Rightarrow> string" where
  "proxy_mode_name ProxyInherit = ''inherit''"
| "proxy_mode_name ProxyDirect = ''direct''"
| "proxy_mode_name ProxyCustom = ''custom''"

definition proxy_modes :: "proxy_mode list" where "proxy_modes = [ProxyInherit, ProxyDirect, ProxyCustom]"

interpretation proxy_mode_enum: string_enum proxy_modes proxy_mode_name
proof
  show "x \<in> set proxy_modes" for x by (cases x) (simp_all add: proxy_modes_def)
  show "distinct (map proxy_mode_name proxy_modes)" by (simp add: proxy_modes_def)
qed

record service_proxy =
  px_mode :: proxy_mode
  px_url :: "jstr option"
  px_credential_ref :: "jstr option"

record service_record =
  sv_proxy :: "service_proxy option"
  sv_responses_websocket :: "bool option"
  sv_privacy_trusted :: "bool option"
  sv_model_redirects :: "model_redirect list option"
  sv_model_protocols :: "model_protocol list option"
  sv_failure_policy :: "failure_policy option"
  sv_id :: jstr
  sv_name :: jstr
  sv_kind :: service_kind
  sv_enabled :: bool
  sv_models :: "jstr list"
  sv_capabilities :: "service_capability list"
  sv_http :: "http_connection option"
  sv_subscription :: "subscription_connection option"
  sv_created_at :: jstr
  sv_updated_at :: jstr

end
