(* ===== verification/Service_Proxy.thy ===== *)
theory Service_Proxy
  imports Ipc_Readers Service_Kinds Js_Numbers
begin

text \<open>
  The proxy of a provider, \<open>service-proxy-model.ts\<close>: the draft the editor keeps, the address a paste
  leaves, what is sent and what is read back. \<open>new URL\<close>, the text of an address whose login was
  emptied and \<open>decodeURIComponent\<close> are arguments.
\<close>

record proxy_draft =
  pd_mode :: proxy_mode
  pd_url :: jstr
  pd_username :: jstr
  pd_password :: jstr
  pd_remove_credential :: bool

definition proxyDraft :: "service_proxy option \<Rightarrow> proxy_draft" where
  "proxyDraft proxy =
     \<lparr>pd_mode = (case proxy of Some p \<Rightarrow> px_mode p | None \<Rightarrow> ProxyInherit),
      pd_url = (case Option.bind proxy px_url of Some u \<Rightarrow> u | None \<Rightarrow> []),
      pd_username = [], pd_password = [], pd_remove_credential = False\<rparr>"

definition proxy_port_ok :: "jstr \<Rightarrow> bool" where
  "proxy_port_ok port \<longleftrightarrow> port = [] \<or> (case js_Number port of Fin n \<Rightarrow> 0 < n \<and> n \<le> 65535 | _ \<Rightarrow> False)"

definition validProxyURL :: "url_parser \<Rightarrow> jstr \<Rightarrow> bool" where
  "validProxyURL url value =
     (case url value of
        None \<Rightarrow> False
      | Some u \<Rightarrow>
          trim value = value \<and> \<not> list_ex (\<lambda>c. c \<in> set (js ''@?#'') \<or> c \<le> 32) value \<and> length value \<le> 2048
          \<and> url_protocol u \<in> set (map js [''http:'', ''https:'', ''socks5:'']) \<and> url_hostname u \<noteq> []
          \<and> url_username u = [] \<and> url_password u = [] \<and> url_search u = [] \<and> url_hash u = []
          \<and> (url_pathname u = [] \<or> url_pathname u = js ''/'') \<and> \<not> str_includes (js ''?'') value
          \<and> \<not> str_includes (js ''#'') value \<and> \<not> ends_with (js '':'') value \<and> proxy_port_ok (url_port u))"

definition validProxyDraft :: "url_parser \<Rightarrow> proxy_draft \<Rightarrow> bool" where
  "validProxyDraft url draft =
     (if pd_mode draft \<noteq> ProxyCustom then True
      else validProxyURL url (trim (pd_url draft))
        \<and> (pd_remove_credential draft
           \<or> (utf8_length (pd_username draft) \<le> 255 \<and> utf8_length (pd_password draft) \<le> 255
              \<and> \<not> list_ex (\<lambda>c. c \<in> {58, 13, 10, 0}) (pd_username draft)
              \<and> \<not> list_ex (\<lambda>c. c \<in> {13, 10, 0}) (pd_password draft)
              \<and> (pd_password draft = [] \<or> pd_username draft \<noteq> []))))"

text \<open>A pasted address gives its login to the fields below it; one that is not fit stays as typed.\<close>

definition proxyDraftWithURL ::
  "url_parser \<Rightarrow> (jstr \<Rightarrow> jstr option) \<Rightarrow> (web_url \<Rightarrow> jstr) \<Rightarrow> proxy_draft \<Rightarrow> jstr \<Rightarrow> proxy_draft"
where
  "proxyDraftWithURL url decode bare draft value =
     (let next' = draft\<lparr>pd_url := value\<rparr> in
      if list_ex (\<lambda>c. c \<le> 31 \<or> c = 127) value then next'
      else case url (trim value) of
        None \<Rightarrow> next'
      | Some u \<Rightarrow>
          if url_username u = [] \<and> url_password u = [] then next'
          else (case (decode (url_username u), decode (url_password u)) of
              (Some username, Some password) \<Rightarrow>
                (let parsed = next'\<lparr>pd_url := bare (u\<lparr>url_username := [], url_password := []\<rparr>),
                       pd_username := username, pd_password := password, pd_remove_credential := False\<rparr> in
                 if validProxyDraft url parsed then parsed else next')
            | _ \<Rightarrow> next'))"

datatype credential_change = KeepCredential | RemoveCredential | SetCredential jstr jstr

record proxy_input =
  pi_mode :: proxy_mode
  pi_url :: "jstr option"
  pi_credential :: credential_change

definition proxyInput :: "proxy_draft \<Rightarrow> proxy_input option" where
  "proxyInput draft =
     (case pd_mode draft of
        ProxyInherit \<Rightarrow> None
      | ProxyDirect \<Rightarrow> Some \<lparr>pi_mode = ProxyDirect, pi_url = None, pi_credential = KeepCredential\<rparr>
      | ProxyCustom \<Rightarrow> Some \<lparr>pi_mode = ProxyCustom, pi_url = Some (trim (pd_url draft)),
          pi_credential = (if pd_remove_credential draft then RemoveCredential
            else if pd_username draft \<noteq> [] then SetCredential (pd_username draft) (pd_password draft)
            else KeepCredential)\<rparr>)"

definition parseServiceProxyProbe :: "json \<Rightarrow> js_error + int \<times> int" where
  "parseServiceProxyProbe value =
     (let bad = Error (js ''Invalid proxy probe response'') in
      if \<not> truthy value then Inl bad
      else
        (let read = (\<lambda>k. case jobject value of Some o' \<Rightarrow> any_int (field o' k) | None \<Rightarrow> None) in
         case (read ''latency_ms'', read ''status_code'') of
           (Some latency, Some status) \<Rightarrow>
             if latency < 0 \<or> status < 100 \<or> status > 599 \<or> status = 407 then Inl bad else Inr (latency, status)
         | _ \<Rightarrow> Inl bad))"

definition parseServiceProxy :: "url_parser \<Rightarrow> json \<Rightarrow> jstr \<Rightarrow> js_error + service_proxy" where
  "parseServiceProxy url value serviceID =
     bindE (orThrow (Error (js ''Invalid service proxy'')) (jobject value)) (\<lambda>p.
     bindE (throwIf (unexpected_key p [''mode'', ''url'', ''credential_ref''] \<noteq> None)
              (Error (js ''Invalid service proxy''))) (\<lambda>_.
     bindE (orThrow (Error (js ''Invalid service proxy'')) (enum_of proxy_modes proxy_mode_name (field p ''mode''))) (\<lambda>mode.
     if mode = ProxyCustom then
       bindE (orThrow (Error (js ''Invalid proxy URL'')) (jstring (field p ''url''))) (\<lambda>address.
       bindE (throwIf (\<not> validProxyURL url address) (Error (js ''Invalid proxy URL''))) (\<lambda>_.
       bindE (throwIf (field p ''credential_ref'' \<noteq> JUndef
                \<and> field p ''credential_ref'' \<noteq> JStr (js ''local://service-proxy/'' @ serviceID))
                (Error (js ''Invalid proxy credential reference''))) (\<lambda>_.
       Inr \<lparr>px_mode = mode, px_url = Some address, px_credential_ref = jstring (field p ''credential_ref'')\<rparr>)))
     else
       bindE (throwIf (field p ''url'' \<noteq> JUndef \<or> field p ''credential_ref'' \<noteq> JUndef)
                (Error (js ''Unexpected proxy fields''))) (\<lambda>_.
       Inr \<lparr>px_mode = mode, px_url = None, px_credential_ref = None\<rparr>))))"

section \<open>What a proxy keeps\<close>

definition proxy_ok :: "url_parser \<Rightarrow> jstr \<Rightarrow> service_proxy \<Rightarrow> bool" where
  "proxy_ok url serviceID p \<longleftrightarrow>
     (if px_mode p = ProxyCustom
      then pred_option (validProxyURL url) (px_url p) \<and> px_url p \<noteq> None
        \<and> px_credential_ref p \<in> {None, Some (js ''local://service-proxy/'' @ serviceID)}
      else px_url p = None \<and> px_credential_ref p = None)"

definition proxy_json :: "service_proxy \<Rightarrow> json" where
  "proxy_json p = JObj ((js ''mode'', js_str (proxy_mode_name (px_mode p)))
     # opt_field ''url'' JStr (px_url p) @ opt_field ''credential_ref'' JStr (px_credential_ref p))"

lemma parseServiceProxy_ok: "parseServiceProxy url v i = Inr p \<Longrightarrow> proxy_ok url i p"
  by (auto simp: parseServiceProxy_def res proxy_ok_def split: if_splits)

lemma parseServiceProxy_json: "proxy_ok url i p \<Longrightarrow> parseServiceProxy url (proxy_json p) i = Inr p"
proof -
  assume ok: "proxy_ok url i p"
  have keys: "unexpected_key ((js ''mode'', js_str (proxy_mode_name (px_mode p))) # opt_field ''url'' JStr (px_url p)
      @ opt_field ''credential_ref'' JStr (px_credential_ref p)) [''mode'', ''url'', ''credential_ref''] = None"
    by (simp add: unexpected_key_None)
  show ?thesis
  proof (cases "px_mode p = ProxyCustom")
    case True
    then obtain address where address: "px_url p = Some address" "validProxyURL url address"
      and credential: "px_credential_ref p = None \<or> px_credential_ref p = Some (js ''local://service-proxy/'' @ i)"
      using ok by (auto simp: proxy_ok_def)
    moreover have "enum_of proxy_modes proxy_mode_name (js_str ''custom'') = Some ProxyCustom"
      by (simp add: proxy_mode_enum.enum_of_Some)
    ultimately show ?thesis using True keys
      by (cases p) (auto simp: parseServiceProxy_def proxy_json_def)
  next
    case False
    then have "px_url p = None" "px_credential_ref p = None" using ok by (simp_all add: proxy_ok_def)
    then show ?thesis using False keys
      by (simp add: parseServiceProxy_def proxy_json_def proxy_mode_enum.enum_of_name)
  qed
qed

text \<open>
  A pasted login never stays in the address: whatever a paste leaves, either the field holds what
  was typed or the draft is valid and its address has no login in it.
\<close>

theorem paste_splits_login:
  assumes "pd_mode draft = ProxyCustom"
  shows "proxyDraftWithURL url decode bare draft value = draft\<lparr>pd_url := value\<rparr>
    \<or> validProxyDraft url (proxyDraftWithURL url decode bare draft value)
      \<and> 64 \<notin> set (trim (pd_url (proxyDraftWithURL url decode bare draft value)))"
proof -
  have "64 \<notin> set s" if "validProxyURL url s" for s
    using that by (auto simp: validProxyURL_def list_ex_iff js_def split: option.splits)
  then have "64 \<notin> set (trim (pd_url d))" if "validProxyDraft url d" "pd_mode d = ProxyCustom" for d
    using that by (simp add: validProxyDraft_def)
  moreover have "pd_mode (proxyDraftWithURL url decode bare draft value) = ProxyCustom"
    using assms by (auto simp: proxyDraftWithURL_def Let_def split: option.splits)
  moreover have "proxyDraftWithURL url decode bare draft value = draft\<lparr>pd_url := value\<rparr>
      \<or> validProxyDraft url (proxyDraftWithURL url decode bare draft value)"
    by (auto simp: proxyDraftWithURL_def Let_def split: option.splits)
  ultimately show ?thesis by blast
qed

end
