(* ===== verification/Service_Tables.thy ===== *)
theory Service_Tables
  imports Service_Kinds File_Paths
begin

text \<open>
  What the provider editor does with a provider's tables, \<open>service-model.ts\<close>: redirects for Claude
  Code, the formats models are pinned to, Vertex addresses, and what a row of the list shows.
\<close>

section \<open>Rows of the list\<close>

definition codingPlanUsageKinds :: "service_kind list" where
  "codingPlanUsageKinds = [OpencodeGo, KimiCoding, GlmCoding, MinimaxCoding, NewAPI]"

definition hasPlanUsage :: "service_record \<Rightarrow> bool" where
  "hasPlanUsage service =
     (case sv_subscription service of
        Some subscription \<Rightarrow> sbc_status subscription = Connected
      | None \<Rightarrow> sv_kind service \<in> set codingPlanUsageKinds \<and> sv_http service \<noteq> None)"

definition activeServiceRisk :: "date_parser \<Rightarrow> subscription_connection option \<Rightarrow> int \<Rightarrow> subscription_risk option" where
  "activeServiceRisk date subscription now =
     (case Option.bind subscription sbc_risk of
        None \<Rightarrow> None
      | Some risk \<Rightarrow>
          if ri_state risk = Suspended then Some risk
          else (case date (case ri_paused_until risk of Some t \<Rightarrow> t | None \<Rightarrow> []) of
              Some until \<Rightarrow> if now < until then Some risk else None
            | None \<Rightarrow> None))"

text \<open>\<open>/^[a-z][a-z0-9_]{1,63}$/\<close>\<close>

definition errorCodePattern :: rx where
  "errorCodePattern = Seq (Cls is_lower) (Rep 1 63 (Cls (union_cls (\<lambda>c. is_lower c \<or> is_digit c) ''_'')))"

text \<open>Texts by key with named parameters, and whether a key has a text.\<close>

type_synonym text_lookup = "jstr \<Rightarrow> (string \<times> jstr) list \<Rightarrow> jstr"

definition subscriptionRiskLabel ::
  "text_lookup \<Rightarrow> (jstr \<Rightarrow> bool) \<Rightarrow> jstr option \<Rightarrow> risk_event_kind \<Rightarrow> jstr"
where
  "subscriptionRiskLabel t exists code state =
     (let key = js ''subscription.risk.'' @ (case code of Some c \<Rightarrow> c | None \<Rightarrow> []) in
      if code \<noteq> None \<and> matches errorCodePattern (the code) \<and> exists key then t key []
      else if state = Cleared then t (js ''services.riskEventCleared'') []
      else t (js (if state = Suspended then ''subscription.risk.genericSuspended''
                  else ''subscription.risk.genericCooling'')) [])"

definition serviceKindLabel :: "text_lookup \<Rightarrow> service_kind \<Rightarrow> jstr" where
  "serviceKindLabel t kind = t (js ''kind.'' @ js (service_kind_name kind)) []"

definition serviceStatusLabel ::
  "text_lookup \<Rightarrow> (jstr \<Rightarrow> bool) \<Rightarrow> date_parser \<Rightarrow> service_record \<Rightarrow> int \<Rightarrow> jstr"
where
  "serviceStatusLabel t exists date service now =
     (if \<not> sv_enabled service then t (js ''common.disabled'') []
      else case sv_subscription service of
        None \<Rightarrow> t (js ''common.enabled'') []
      | Some subscription \<Rightarrow>
          (let plain = t (js ''subscription.'' @ js (subscription_status_name (sbc_status subscription))) [];
               label = (case sbc_last_error subscription of
                   Some e \<Rightarrow> if sbc_status subscription = NeedsReauth \<and> sbe_message e \<noteq> []
                     then t (js ''subscription.statusDetail'') [(''status'', plain), (''detail'', sbe_message e)] else plain
                 | None \<Rightarrow> plain) in
           case activeServiceRisk date (sv_subscription service) now of
             None \<Rightarrow> label
           | Some risk \<Rightarrow> t (js ''subscription.statusWithRisk'')
               [(''status'', label), (''risk'', subscriptionRiskLabel t exists (Some (ri_code risk)) (ri_state risk))]))"

definition supportsResponsesWebSocket :: "service_kind \<Rightarrow> service_capability list \<Rightarrow> bool" where
  "supportsResponsesWebSocket kind capabilities =
     (if kind \<in> {CopilotSubscription, DroidSubscription, VertexKind} then False
      else kind = CodexSubscription
        \<or> list_ex (\<lambda>c. cap_protocol c = js ''openai.responses'' \<and> cap_streaming c \<and> (cap_convert_to c = None \<or> cap_convert_to c = Some []))
            capabilities)"

definition responsesWebSocketEnabled :: "service_record \<Rightarrow> bool" where
  "responsesWebSocketEnabled service =
     (case sv_responses_websocket service of Some b \<Rightarrow> b | None \<Rightarrow> sv_kind service = CodexSubscription)"

section \<open>Vertex addresses\<close>

definition vertexBaseURL :: "jstr \<Rightarrow> jstr" where
  "vertexBaseURL location =
     (if location = js ''global'' then js ''https://aiplatform.googleapis.com''
      else if location = js ''us'' \<or> location = js ''eu'' then js ''https://aiplatform.'' @ location @ js ''.rep.googleapis.com''
      else js ''https://'' @ location @ js ''-aiplatform.googleapis.com'')"

text \<open>\<open>[a-z]+-[a-z]+[0-9]+\<close>, a region.\<close>

definition region_rx :: rx where
  "region_rx = seqs [plus_rx (Cls is_lower), chr CHR ''-'', plus_rx (Cls is_lower), plus_rx (Cls is_digit)]"

definition region_host_suffix :: jstr where "region_host_suffix = js ''-aiplatform.googleapis.com''"

definition vertexLocation :: "url_parser \<Rightarrow> jstr \<Rightarrow> jstr" where
  "vertexLocation url baseURL =
     (case url baseURL of
        None \<Rightarrow> js ''global''
      | Some u \<Rightarrow>
          (let host = url_hostname u;
               region = take (length host - length region_host_suffix) host in
           if host = js ''aiplatform.us.rep.googleapis.com'' then js ''us''
           else if host = js ''aiplatform.eu.rep.googleapis.com'' then js ''eu''
           else if ends_with region_host_suffix host \<and> matches region_rx region then region
           else js ''global''))"

definition project_rx :: rx where
  "project_rx =
     (let lower_digit = (\<lambda>c. is_lower c \<or> is_digit c) in
      Alt (seqs [opt_rx (Seq (plus_rx (Cls (union_cls lower_digit ''.-''))) (chr CHR '':'')), Cls is_lower,
                 Rep 4 28 (Cls (union_cls lower_digit ''-'')), Cls lower_digit])
          (Rep 1 20 (Cls is_digit)))"

definition validVertexConnection :: "vertex_connection \<Rightarrow> bool" where
  "validVertexConnection vertex \<longleftrightarrow>
     length (vx_project_id vertex) \<le> 254 \<and> matches project_rx (vx_project_id vertex)
     \<and> length (vx_location vertex) \<le> 64
     \<and> matches (alts (word ''global'') [word ''us'', word ''eu'', region_rx]) (vx_location vertex)"

text \<open>The account and project of a service account key, once it is complete.\<close>

definition serviceAccountSummary :: "(jstr \<Rightarrow> json option) \<Rightarrow> jstr \<Rightarrow> (jstr \<times> jstr) option" where
  "serviceAccountSummary parse secret =
     (case Option.bind (parse secret) jobject of
        None \<Rightarrow> None
      | Some key \<Rightarrow>
          (case (jstring (field key ''project_id''), jstring (field key ''client_email''), jstring (field key ''private_key'')) of
             (Some project, Some email, Some private) \<Rightarrow>
               if field key ''type'' = js_str ''service_account'' \<and> project \<noteq> [] \<and> email \<noteq> [] \<and> private \<noteq> []
               then Some (email, project) else None
           | _ \<Rightarrow> None))"

section \<open>Redirects for Claude Code\<close>

definition copilotClaudeRedirects :: "builtin_model_redirect list" where
  "copilotClaudeRedirects = map (\<lambda>(from', to').
       \<lparr>bmr_id = None, bmr_from = js from', bmr_defaultTo = js to', bmr_defaultEnabled = Some True\<rparr>)
     [(''claude-fable-5-1'', ''claude-fable-5.1''), (''claude-opus-5-5'', ''claude-opus-5.5''),
      (''claude-sonnet-5-5'', ''claude-sonnet-5.5''), (''claude-opus-4-6'', ''claude-opus-4.6''),
      (''claude-sonnet-4-6'', ''claude-sonnet-4.6''), (''claude-opus-4-5'', ''claude-opus-4.5''),
      (''claude-sonnet-4-5'', ''claude-sonnet-4.5''), (''claude-haiku-4-5'', ''claude-haiku-4.5''),
      (''claude-opus-4-1'', ''claude-opus-4.1'')]"

definition serviceBuiltinRedirects :: "service_kind \<Rightarrow> builtin_model_redirect list" where
  "serviceBuiltinRedirects kind = (if kind = CopilotSubscription then copilotClaudeRedirects else [])"

text \<open>
  \<open>/^claude-(.+)-([0-9]+)\.([0-9]+)$/\<close>, read from the end: digits, a dot, digits, a dash, and before
  it a name without line terminators.
\<close>

definition dottedClaudeModel :: "jstr \<Rightarrow> (jstr \<times> jstr \<times> jstr) option" where
  "dottedClaudeModel model =
     (let backward = rev model;
          minor = takeWhile is_digit backward; before_minor = dropWhile is_digit backward;
          major = takeWhile is_digit (tl before_minor); before_major = dropWhile is_digit (tl before_minor);
          start = rev (tl before_major); name = drop 7 start in
      if minor \<noteq> [] \<and> before_minor \<noteq> [] \<and> hd before_minor = 46 \<and> major \<noteq> [] \<and> before_major \<noteq> []
         \<and> hd before_major = 45 \<and> starts_with (js ''claude-'') start \<and> name \<noteq> [] \<and> \<not> list_ex line_terminator name
      then Some (name, rev major, rev minor) else None)"

definition dashed_model :: "jstr \<times> jstr \<times> jstr \<Rightarrow> jstr" where
  "dashed_model = (\<lambda>(name, major, minor). js ''claude-'' @ name @ [45] @ major @ [45] @ minor)"

definition add_claude_redirect ::
  "builtin_model_redirect list \<Rightarrow> jstr list \<Rightarrow> model_redirect list \<Rightarrow> jstr \<Rightarrow> model_redirect list"
where
  "add_claude_redirect builtins previousModels result model =
     (case (if model \<in> set previousModels then None else dottedClaudeModel model) of
        None \<Rightarrow> result
      | Some found \<Rightarrow>
          if length result \<ge> maxModelRedirects then result
          else
            (let from' = dashed_model found in
             if list_ex (\<lambda>b. bmr_defaultTo b = model) builtins
                \<or> list_ex (\<lambda>r. mr_from r = from' \<or> mr_to r = from' \<or> mr_from r = model) result
             then result
             else result @ [\<lparr>mr_from = from', mr_to = model, mr_enabled = True\<rparr>]))"

definition withClaudeCodeRedirects ::
  "service_kind \<Rightarrow> model_redirect list \<Rightarrow> jstr list \<Rightarrow> jstr list \<Rightarrow> model_redirect list"
where
  "withClaudeCodeRedirects kind redirects previousModels models =
     (if kind \<noteq> CopilotSubscription then redirects
      else foldl (add_claude_redirect (serviceBuiltinRedirects kind) previousModels) redirects models)"

section \<open>Formats of models\<close>

definition serviceModelFormats :: "service_kind \<Rightarrow> auth_scheme option \<Rightarrow> model_format list" where
  "serviceModelFormats kind auth =
     (if kind = VertexKind \<and> auth = Some AuthGoogleKey then [FmtGemini]
      else if kind = VertexKind then filter (\<lambda>f. f \<noteq> FmtResponses) modelFormats
      else if \<not> isSubscriptionKind kind then modelFormats
      else filter (\<lambda>f. f \<in> set (subscriptionConversionTargets kind)) modelFormats)"

definition begins :: "jstr \<Rightarrow> string \<Rightarrow> bool" where
  "begins s p = starts_with (js p) s"

definition serviceBuiltinModelProtocol :: "(jstr \<Rightarrow> jstr) \<Rightarrow> service_kind \<Rightarrow> jstr \<Rightarrow> model_format option" where
  "serviceBuiltinModelProtocol lower kind model =
     (let i = lower model in
      if kind = CopilotSubscription then
        (if begins i ''claude-'' then Some FmtMessages
         else if begins i ''gpt-5'' \<or> str_includes (js ''codex'') i \<or> begins i ''o1'' \<or> begins i ''o3'' \<or> begins i ''o4''
         then Some FmtResponses
         else Some FmtChat)
      else if kind = DroidSubscription then
        (if begins i ''claude-'' \<or> begins i ''minimax-m2'' then Some FmtMessages
         else if begins i ''gpt-'' \<or> begins i ''grok-'' then Some FmtResponses
         else Some FmtChat)
      else if kind \<noteq> OpencodeGo \<and> kind \<noteq> OpencodeZen then None
      else if begins i ''gemini-'' then Some FmtGemini
      else if begins i ''gpt-'' \<or> begins i ''grok-'' \<or> begins i ''muse-spark-'' then Some FmtResponses
      else if begins i ''claude-'' \<or> begins i ''qwen'' \<or> i = js ''union-alpha''
              \<or> kind = OpencodeGo \<and> begins i ''minimax-''
      then Some FmtMessages
      else Some FmtChat)"

text \<open>Strings by their code units, as \<open><\<close> compares them.\<close>

fun units_less :: "jstr \<Rightarrow> jstr \<Rightarrow> bool" where
  "units_less s [] \<longleftrightarrow> False"
| "units_less [] (d # t) \<longleftrightarrow> True"
| "units_less (c # s) (d # t) \<longleftrightarrow> c < d \<or> c = d \<and> units_less s t"

definition by_model :: "model_protocol \<Rightarrow> model_protocol \<Rightarrow> int" where
  "by_model a b =
     (if units_less (mp_model a) (mp_model b) then - 1
      else if units_less (mp_model b) (mp_model a) then 1 else 0)"

definition sortedByModel :: "model_protocol list \<Rightarrow> model_protocol list" where
  "sortedByModel entries' = sort_by by_model entries'"

definition withModelProtocols ::
  "model_protocol list \<Rightarrow> jstr list \<Rightarrow> model_format option \<Rightarrow> model_protocol list"
where
  "withModelProtocols entries' models protocol =
     (let kept = filter (\<lambda>e. mp_model e \<notin> set models) entries';
          changed = rev (remdups (rev models)) in
      sortedByModel (case protocol of
          None \<Rightarrow> kept
        | Some f \<Rightarrow> kept @ map (\<lambda>m. \<lparr>mp_model = m, mp_protocol = f\<rparr>) changed))"

definition pruneModelProtocols :: "model_protocol list \<Rightarrow> jstr list \<Rightarrow> model_protocol list" where
  "pruneModelProtocols entries' models = filter (\<lambda>e. mp_model e \<in> set models) entries'"

definition discover ::
  "(jstr \<Rightarrow> jstr) \<Rightarrow> service_kind \<Rightarrow> jstr list \<Rightarrow> jstr list \<Rightarrow> jstr set \<times> model_protocol list \<Rightarrow> model_protocol
     \<Rightarrow> jstr set \<times> model_protocol list"
where
  "discover lower kind previousModels models st found =
     (let (pinned, next') = st; model = mp_model found in
      if model \<notin> set models \<or> model \<in> set previousModels \<or> model \<in> pinned then st
      else if mp_protocol found \<notin> set (serviceModelFormats kind None)
              \<or> serviceBuiltinModelProtocol lower kind model = Some (mp_protocol found)
      then st
      else (insert model pinned, next' @ [found]))"

definition withDiscoveredModelProtocols ::
  "(jstr \<Rightarrow> jstr) \<Rightarrow> service_kind \<Rightarrow> model_protocol list \<Rightarrow> jstr list \<Rightarrow> jstr list \<Rightarrow> model_protocol list
     \<Rightarrow> model_protocol list"
where
  "withDiscoveredModelProtocols lower kind entries' previousModels models discovered =
     (if kind = VertexKind then entries'
      else sortedByModel (snd (foldl (discover lower kind previousModels models)
             (set (map mp_model entries'), entries') discovered)))"

definition sameModelProtocols :: "model_protocol list \<Rightarrow> model_protocol list \<Rightarrow> bool" where
  "sameModelProtocols a b =
     (let formats = map_of (rev (map (\<lambda>e. (mp_model e, mp_protocol e)) a)) in
      length a = length b \<and> list_all (\<lambda>e. formats (mp_model e) = Some (mp_protocol e)) b)"

section \<open>Redirects stay a table the core accepts\<close>

lemma code_points_apart: "\<not> low_surrogate c \<Longrightarrow> \<not> high_surrogate c \<Longrightarrow> code_points (s @ c # t) = code_points s @ c # code_points t"
proof (induction s rule: code_points.induct)
  case 1
  then show ?case by (cases t) auto
next
  case (2 d)
  then show ?case by (cases t) auto
qed auto

lemma dotted_parts:
  assumes "dottedClaudeModel model = Some (name, major, minor)"
  shows "model = (js ''claude-'' @ name @ [45] @ major) @ 46 # minor"
    and "dashed_model (name, major, minor) = (js ''claude-'' @ name @ [45] @ major) @ 45 # minor"
    and "minor \<noteq> []" and "list_all is_digit minor"
proof -
  let ?b = "rev model"
  define t1 where "t1 = dropWhile is_digit ?b"
  define t2 where "t2 = dropWhile is_digit (tl t1)"
  define start where "start = rev (tl t2)"
  have f: "takeWhile is_digit ?b \<noteq> []" "t1 \<noteq> []" "hd t1 = 46" "t2 \<noteq> []" "hd t2 = 45"
    "starts_with (js ''claude-'') start" "name = drop 7 start" "major = rev (takeWhile is_digit (tl t1))"
    "minor = rev (takeWhile is_digit ?b)"
    using assms by (auto simp: dottedClaudeModel_def Let_def t1_def t2_def start_def split: if_splits)
  have "?b = takeWhile is_digit ?b @ 46 # takeWhile is_digit (tl t1) @ 45 # tl t2"
    using f by (metis list.collapse t1_def t2_def takeWhile_dropWhile_id)
  then have "model = rev (takeWhile is_digit ?b @ 46 # takeWhile is_digit (tl t1) @ 45 # tl t2)"
    by (metis rev_rev_ident)
  then have model: "model = start @ [45] @ major @ [46] @ minor" unfolding f start_def by simp
  have "start = js ''claude-'' @ name"
    using f(6) append_take_drop_id [of "length (js ''claude-'')" start] f(7) by (simp add: starts_with_def numeral_eq_Suc)
  then show "model = (js ''claude-'' @ name @ [45] @ major) @ 46 # minor" using model by simp
  show "dashed_model (name, major, minor) = (js ''claude-'' @ name @ [45] @ major) @ 45 # minor"
    by (simp add: dashed_model_def)
  show "minor \<noteq> []" using f by simp
  show "list_all is_digit minor" unfolding f list_all_iff by (auto dest: set_takeWhileD)
qed

text \<open>A name of Claude's kind with a digit at its end is fit for a rule.\<close>

lemma claude_name_fit:
  assumes "model = (js ''claude-'' @ rest) @ c # minor" and "minor \<noteq> []" "list_all is_digit minor"
  shows "model \<noteq> []" and "\<not> edgeSpace model" and "model \<noteq> astrlinkAutoModelId"
proof -
  have "hd model = 99" and "last model \<in> set minor" using assms(1,2) by (simp_all add: js_def)
  moreover from this assms(3) have "is_digit (last model)" by (simp add: list_all_iff)
  ultimately show "\<not> edgeSpace model" by (auto simp: edgeSpace_def goSpace_def is_digit_def)
  show "model \<noteq> []" using assms(1) by simp
  show "model \<noteq> astrlinkAutoModelId" using \<open>hd model = 99\<close> by (auto simp: astrlinkAutoModelId_def js_def)
qed

lemma other_units_kept:
  assumes "length (code_points (s @ 46 # t)) \<le> n" and "\<not> hasControlCharacter (s @ 46 # t)"
  shows "length (code_points (s @ 45 # t)) \<le> n" and "\<not> hasControlCharacter (s @ 45 # t)"
  using assms by (simp_all add: hasControlCharacter_def code_points_apart high_surrogate_def low_surrogate_def)

definition model_name_ok :: "jstr \<Rightarrow> bool" where
  "model_name_ok m \<longleftrightarrow> length (code_points m) \<le> maxRedirectModelLength \<and> \<not> hasControlCharacter m"

lemma redirects_ok_snoc:
  assumes ok: "redirects_ok rs" and len: "length rs < maxModelRedirects"
    and fit: "mr_from r \<noteq> []" "mr_to r \<noteq> []" "model_name_ok (mr_from r)" "model_name_ok (mr_to r)"
      "\<not> edgeSpace (mr_from r)" "\<not> edgeSpace (mr_to r)" "mr_from r \<noteq> mr_to r" "mr_to r \<noteq> astrlinkAutoModelId"
    and apart: "\<not> list_ex (\<lambda>r'. mr_from r' = mr_from r \<or> mr_to r' = mr_from r \<or> mr_from r' = mr_to r) rs"
  shows "redirects_ok (rs @ [r])"
proof -
  have fresh: "mr_from r \<notin> mr_from ` set rs" "mr_to r \<notin> mr_from ` set rs" "mr_from r \<notin> mr_to ` set rs"
    using apart by (auto simp: list_ex_iff)
  have "redirect_issue (rs @ [r]) r' = None" if "r' \<in> set rs" for r'
  proof -
    have "redirect_issue rs r' = None" using ok that by (simp add: redirects_ok_def list_all_iff)
    moreover have "mr_from r' \<noteq> mr_from r" "mr_to r' \<noteq> mr_from r" using fresh that by (metis imageI)+
    ultimately show ?thesis by (simp add: redirect_issue_None)
  qed
  moreover have "redirect_issue (rs @ [r]) r = None"
    using fit fresh by (simp add: redirect_issue_None model_name_ok_def count_list_0_iff)
  ultimately show ?thesis using ok len by (auto simp: redirects_ok_def list_all_iff)
qed

lemma add_claude_redirect_ok:
  assumes ok: "redirects_ok rs" and name: "model_name_ok model"
  shows "redirects_ok (add_claude_redirect builtins previous rs model)
    \<and> (\<exists>new. add_claude_redirect builtins previous rs model = rs @ new
      \<and> list_all (\<lambda>r. mr_enabled r \<and> mr_to r = model \<and> model \<notin> set previous) new)"
proof (cases "add_claude_redirect builtins previous rs model = rs")
  case True
  then show ?thesis using ok by simp
next
  case False
  then obtain name' major minor where found: "dottedClaudeModel model = Some (name', major, minor)"
    and len: "length rs < maxModelRedirects" and new: "model \<notin> set previous"
    and result: "add_claude_redirect builtins previous rs model
      = rs @ [\<lparr>mr_from = dashed_model (name', major, minor), mr_to = model, mr_enabled = True\<rparr>]"
    and apart: "\<not> list_ex (\<lambda>r'. mr_from r' = dashed_model (name', major, minor) \<or> mr_to r' = dashed_model (name', major, minor)
      \<or> mr_from r' = model) rs"
    by (auto simp: add_claude_redirect_def Let_def not_le split: option.splits if_splits)
  note parts = dotted_parts [OF found]
  have fits: "model \<noteq> []" "\<not> edgeSpace model" "model \<noteq> astrlinkAutoModelId"
    "dashed_model (name', major, minor) \<noteq> []" "\<not> edgeSpace (dashed_model (name', major, minor))"
    using claude_name_fit [of _ "name' @ [45] @ major"] parts by (simp_all only: append_assoc)
  have "model_name_ok (dashed_model (name', major, minor))"
    using name other_units_kept unfolding model_name_ok_def parts(1,2) by blast
  moreover have "dashed_model (name', major, minor) \<noteq> model" unfolding parts(1,2) by simp
  ultimately have "redirects_ok (add_claude_redirect builtins previous rs model)"
    unfolding result using ok len name fits apart by (intro redirects_ok_snoc) simp_all
  then show ?thesis using result new by simp
qed

text \<open>
  C19: the rules added for Claude Code never spoil a provider's redirects: when the models listed have
  names a rule may lead to, at most 256 characters and none below U+0020 but tabs, a valid table stays
  valid, its own rules stay first and unchanged, and each rule added is on and leads to a model that was
  not listed before.
\<close>

theorem claude_redirects_kept_valid:
  assumes "redirects_ok redirects" and "list_all model_name_ok models"
  shows "redirects_ok (withClaudeCodeRedirects kind redirects previousModels models)
    \<and> (\<exists>added. withClaudeCodeRedirects kind redirects previousModels models = redirects @ added
      \<and> list_all (\<lambda>r. mr_enabled r \<and> mr_to r \<in> set models - set previousModels) added)"
proof -
  have "redirects_ok (foldl (add_claude_redirect builtins previousModels) redirects models)
    \<and> (\<exists>added. foldl (add_claude_redirect builtins previousModels) redirects models = redirects @ added
      \<and> list_all (\<lambda>r. mr_enabled r \<and> mr_to r \<in> set models - set previousModels) added)" for builtins
    using assms(2)
  proof (induction models rule: rev_induct)
    case (snoc model models)
    then obtain added where before: "redirects_ok (redirects @ added)"
      "foldl (add_claude_redirect builtins previousModels) redirects models = redirects @ added"
      "list_all (\<lambda>r. mr_enabled r \<and> mr_to r \<in> set models - set previousModels) added" by auto
    then show ?case
      using add_claude_redirect_ok [OF before(1), of model builtins previousModels] snoc.prems
      by (auto simp: list_all_iff)
  qed (use assms(1) in simp)
  then show ?thesis using assms(1) by (auto simp: withClaudeCodeRedirects_def)
qed

theorem claude_redirects_kept_valid_witness:
  "redirects_ok (withClaudeCodeRedirects CopilotSubscription [] [] [js ''claude-fable-6.0'', js ''gpt-5''])
   \<and> withClaudeCodeRedirects CopilotSubscription [] [] [js ''claude-fable-6.0'', js ''gpt-5'']
     = [\<lparr>mr_from = js ''claude-fable-6-0'', mr_to = js ''claude-fable-6.0'', mr_enabled = True\<rparr>]"
proof
  have "redirects_ok []" by (simp add: redirects_ok_def)
  moreover have "list_all model_name_ok [js ''claude-fable-6.0'', js ''gpt-5'']"
    by (simp add: model_name_ok_def hasControlCharacter_def maxRedirectModelLength_def) (simp add: js_def)
  ultimately show "redirects_ok (withClaudeCodeRedirects CopilotSubscription [] [] [js ''claude-fable-6.0'', js ''gpt-5''])"
    using claude_redirects_kept_valid by blast
  have "dottedClaudeModel (js ''claude-fable-6.0'') = Some (js ''fable'', js ''6'', js ''0'')"
    "dottedClaudeModel (js ''gpt-5'') = None"
    by (simp_all add: dottedClaudeModel_def js_def Let_def is_digit_def starts_with_def line_terminator_def)
  then show "withClaudeCodeRedirects CopilotSubscription [] [] [js ''claude-fable-6.0'', js ''gpt-5'']
     = [\<lparr>mr_from = js ''claude-fable-6-0'', mr_to = js ''claude-fable-6.0'', mr_enabled = True\<rparr>]"
    by (simp add: withClaudeCodeRedirects_def serviceBuiltinRedirects_def copilotClaudeRedirects_def add_claude_redirect_def
        maxModelRedirects_def dashed_model_def) (simp add: js_def)
qed

section \<open>Tables of formats\<close>

text \<open>What a table says of a model; a table names each model once.\<close>

definition format_of :: "model_protocol list \<Rightarrow> jstr \<Rightarrow> model_format option" where
  "format_of es = map_of (map (\<lambda>e. (mp_model e, mp_protocol e)) es)"

definition one_each :: "model_protocol list \<Rightarrow> bool" where
  "one_each es \<longleftrightarrow> distinct (map mp_model es)"

lemma units_less_irrefl: "\<not> units_less s s"
  by (induction s) auto

lemma units_less_trans: "units_less s t \<Longrightarrow> units_less t u \<Longrightarrow> units_less s u"
proof (induction s t arbitrary: u rule: units_less.induct)
  case (2 d t)
  then show ?case by (cases u) auto
next
  case (3 c s d t)
  then show ?case by (cases u) auto
qed simp

lemma units_less_total: "units_less s t \<or> s = t \<or> units_less t s"
proof (induction s t rule: units_less.induct)
  case (1 s)
  then show ?case by (cases s) auto
qed auto

lemma by_model_le: "by_model a b \<le> 0 \<longleftrightarrow> \<not> units_less (mp_model b) (mp_model a)"
  using units_less_trans units_less_irrefl by (auto simp: by_model_def)

interpretation model_order: comparator by_model UNIV
proof
  show "by_model x y \<le> 0 \<or> by_model y x \<le> 0" for x y
    unfolding by_model_le using units_less_trans units_less_irrefl by blast
  show "by_model x z \<le> 0" if "by_model x y \<le> 0" "by_model y z \<le> 0" for x y z
    using that units_less_trans units_less_total unfolding by_model_le by metis
qed

lemma mset_sortedByModel: "mset (sortedByModel es) = mset es"
  by (simp add: sortedByModel_def mset_sort_by)

lemma one_each_sorted [simp]: "one_each (sortedByModel es) \<longleftrightarrow> one_each es"
  by (simp add: one_each_def sortedByModel_def)

lemma format_of_Some:
  "one_each es \<Longrightarrow> format_of es m = Some f \<longleftrightarrow> (\<exists>e \<in> set es. mp_model e = m \<and> mp_protocol e = f)"
  unfolding format_of_def one_each_def by (subst map_of_eq_Some_iff) (auto simp: comp_def)

lemma format_of_mset: "one_each es \<Longrightarrow> mset es = mset es' \<Longrightarrow> format_of es = format_of es'"
proof (rule ext)
  fix m
  assume one: "one_each es" and same: "mset es = mset es'"
  have "one_each es'" using one same by (metis one_each_def mset_map mset_eq_imp_distinct_iff)
  then have "format_of es m = Some f \<longleftrightarrow> format_of es' m = Some f" for f
    using one mset_eq_setD [OF same] by (simp add: format_of_Some)
  then show "format_of es m = format_of es' m" by (metis option.exhaust)
qed

lemma format_of_sorted [simp]: "one_each es \<Longrightarrow> format_of (sortedByModel es) = format_of es"
  by (metis format_of_mset mset_sortedByModel)

lemma format_of_append: "format_of (a @ b) m = (case format_of a m of Some f \<Rightarrow> Some f | None \<Rightarrow> format_of b m)"
  by (auto simp: format_of_def map_add_def split: option.splits)

lemma format_of_filter: "format_of (filter (\<lambda>e. P (mp_model e)) es) m = (if P m then format_of es m else None)"
  by (induction es) (auto simp: format_of_def)

lemma format_of_None: "format_of es m = None \<longleftrightarrow> m \<notin> mp_model ` set es"
  by (auto simp: format_of_def map_of_eq_None_iff image_iff)

lemma format_of_const: "format_of (map (\<lambda>m. \<lparr>mp_model = m, mp_protocol = f\<rparr>) ms) m = (if m \<in> set ms then Some f else None)"
  by (induction ms) (auto simp: format_of_def)

text \<open>The table as the core keeps it: each model once, in the order of the models.\<close>

definition stored_order :: "model_protocol list \<Rightarrow> bool" where
  "stored_order es \<longleftrightarrow> sorted_wrt (\<lambda>a b. units_less (mp_model a) (mp_model b)) es"

lemma distinct_map_apart: "distinct (map f xs) \<longleftrightarrow> sorted_wrt (\<lambda>a b. f a \<noteq> f b) xs"
  by (induction xs) auto

lemma sorted_wrt_both:
  "sorted_wrt P xs \<Longrightarrow> (\<And>a b. P a b \<Longrightarrow> R a b \<Longrightarrow> Q a b) \<Longrightarrow> sorted_wrt R xs \<Longrightarrow> sorted_wrt Q xs"
  by (induction xs) auto

lemma sorted_stored: "one_each es \<Longrightarrow> stored_order (sortedByModel es)"
proof -
  assume one: "one_each es"
  have ordered: "sorted_wrt (\<lambda>a b. by_model a b \<le> 0) (sortedByModel es)"
    unfolding sortedByModel_def by (rule model_order.sort_by_ordered) simp
  have strict: "units_less (mp_model a) (mp_model b)" if "by_model a b \<le> 0" "mp_model a \<noteq> mp_model b" for a b
    using that units_less_total [of "mp_model a" "mp_model b"] by (auto simp: by_model_def split: if_splits)
  have apart: "sorted_wrt (\<lambda>a b. mp_model a \<noteq> mp_model b) (sortedByModel es)"
    using one_each_sorted [THEN iffD2, OF one] unfolding one_each_def distinct_map_apart .
  show ?thesis unfolding stored_order_def
    by (rule sorted_wrt_both [where R = "\<lambda>a b. mp_model a \<noteq> mp_model b", OF ordered strict apart])
qed

text \<open>
  Choosing a format for models changes these models alone: the new table names each model once,
  in the order the core keeps, gives the chosen format to every model chosen, or none when it is
  left to the provider, and says what it said before of any other.
\<close>

theorem models_pinned:
  assumes "one_each es"
  shows "one_each (withModelProtocols es models protocol) \<and> stored_order (withModelProtocols es models protocol)
    \<and> format_of (withModelProtocols es models protocol) m = (if m \<in> set models then protocol else format_of es m)"
proof -
  define kept where "kept = filter (\<lambda>e. mp_model e \<notin> set models) es"
  define next' where "next' = (case protocol of None \<Rightarrow> kept
    | Some f \<Rightarrow> kept @ map (\<lambda>m. \<lparr>mp_model = m, mp_protocol = f\<rparr>) (rev (remdups (rev models))))"
  have one: "one_each next'"
    using assms by (auto simp: next'_def kept_def one_each_def distinct_map_filter comp_def split: option.splits)
  have "format_of next' m = (if m \<in> set models then protocol else format_of es m)"
    using format_of_None [of es m]
    by (auto simp: next'_def kept_def format_of_append format_of_filter [of "\<lambda>m. m \<notin> set models"] format_of_const split: option.splits)
  moreover have "withModelProtocols es models protocol = sortedByModel next'"
    unfolding withModelProtocols_def Let_def next'_def kept_def ..
  ultimately show ?thesis using one sorted_stored [OF one] by simp
qed

theorem models_pinned_witness:
  "format_of (withModelProtocols [\<lparr>mp_model = js ''b'', mp_protocol = FmtChat\<rparr>] [js ''a''] (Some FmtGemini)) (js ''b'') = Some FmtChat"
  using models_pinned [of "[\<lparr>mp_model = js ''b'', mp_protocol = FmtChat\<rparr>]" "[js ''a'']" "Some FmtGemini" "js ''b''"]
  by (simp add: one_each_def format_of_def)

text \<open>What a fetched list may say of a model: its first entry that this kind can use and would not choose anyway.\<close>

definition discovered_format :: "(jstr \<Rightarrow> jstr) \<Rightarrow> service_kind \<Rightarrow> model_protocol list \<Rightarrow> jstr \<Rightarrow> model_format option" where
  "discovered_format lower kind discovered m =
     map_option mp_protocol (find (\<lambda>e. mp_model e = m \<and> mp_protocol e \<in> set (serviceModelFormats kind None)
       \<and> serviceBuiltinModelProtocol lower kind m \<noteq> Some (mp_protocol e)) discovered)"

lemma discover_fold:
  assumes "one_each es" and "pinned = mp_model ` set es"
  shows "one_each (snd (foldl (discover lower kind previous models) (pinned, es) discovered))
    \<and> format_of (snd (foldl (discover lower kind previous models) (pinned, es) discovered)) m
      = (case format_of es m of Some f \<Rightarrow> Some f
         | None \<Rightarrow> if m \<in> set models \<and> m \<notin> set previous then discovered_format lower kind discovered m else None)"
  using assms
proof (induction discovered arbitrary: pinned es)
  case Nil
  then show ?case by (auto simp: discovered_format_def split: option.splits)
next
  case (Cons e discovered)
  show ?case
  proof (cases "discover lower kind previous models (pinned, es) e = (pinned, es)")
    case True
    then have skip: "mp_model e \<notin> set models \<or> mp_model e \<in> set previous \<or> mp_model e \<in> pinned
        \<or> mp_protocol e \<notin> set (serviceModelFormats kind None)
        \<or> serviceBuiltinModelProtocol lower kind (mp_model e) = Some (mp_protocol e)"
      by (auto simp: discover_def Let_def split: if_splits)
    have pinned: "mp_model e \<in> pinned \<Longrightarrow> format_of es (mp_model e) \<noteq> None"
      using Cons.prems(2) by (simp add: format_of_None)
    have "discovered_format lower kind (e # discovered) m = discovered_format lower kind discovered m"
      if "format_of es m = None" "m \<in> set models" "m \<notin> set previous"
      using that skip pinned by (auto simp: discovered_format_def)
    then show ?thesis using Cons.IH [OF Cons.prems] True by (auto split: option.splits)
  next
    case False
    then have step: "discover lower kind previous models (pinned, es) e = (insert (mp_model e) pinned, es @ [e])"
      and e: "mp_model e \<in> set models" "mp_model e \<notin> set previous" "mp_model e \<notin> pinned"
        "mp_protocol e \<in> set (serviceModelFormats kind None)"
        "serviceBuiltinModelProtocol lower kind (mp_model e) \<noteq> Some (mp_protocol e)"
      by (auto simp: discover_def Let_def split: if_splits)
    have one: "one_each (es @ [e])" "insert (mp_model e) pinned = mp_model ` set (es @ [e])"
      using Cons.prems e(3) by (auto simp: one_each_def)
    have "format_of es (mp_model e) = None" using e(3) Cons.prems(2) by (simp add: format_of_None)
    then show ?thesis using Cons.IH [OF one] e
      by (auto simp: step format_of_append discovered_format_def format_of_def split: option.splits)
  qed
qed

text \<open>
  C20: a fetched model list never overrides a choice: models already given a format keep it, a model
  that is newly listed takes the first format named for it that this kind of provider can use and
  would not choose by itself, and no other model gains one; a Vertex provider takes none from a list
  and its table stays as it is.
\<close>

theorem discovered_formats:
  assumes "one_each es"
  shows "format_of (withDiscoveredModelProtocols lower kind es previous models discovered) m
    = (case format_of es m of Some f \<Rightarrow> Some f
       | None \<Rightarrow> if kind \<noteq> VertexKind \<and> m \<in> set models \<and> m \<notin> set previous
           then discovered_format lower kind discovered m else None)
    \<and> one_each (withDiscoveredModelProtocols lower kind es previous models discovered)
    \<and> (kind = VertexKind \<longrightarrow> withDiscoveredModelProtocols lower kind es previous models discovered = es)"
  using assms discover_fold [OF assms(1) refl, of lower kind previous models discovered m]
  by (cases "kind = VertexKind") (auto simp: withDiscoveredModelProtocols_def split: option.splits)

theorem discovered_formats_witness:
  "format_of (withDiscoveredModelProtocols (\<lambda>s. s) OpencodeGo [] [] [js ''m''] [\<lparr>mp_model = js ''m'', mp_protocol = FmtGemini\<rparr>]) (js ''m'')
   = Some FmtGemini
   \<and> withDiscoveredModelProtocols (\<lambda>s. s) VertexKind [] [] [js ''m''] [\<lparr>mp_model = js ''m'', mp_protocol = FmtGemini\<rparr>] = []"
proof
  have none: "one_each []" by (simp add: one_each_def)
  show "format_of (withDiscoveredModelProtocols (\<lambda>s. s) OpencodeGo [] [] [js ''m''] [\<lparr>mp_model = js ''m'', mp_protocol = FmtGemini\<rparr>]) (js ''m'')
     = Some FmtGemini"
    using discovered_formats [OF none, of "\<lambda>s. s" OpencodeGo "[]" "[js ''m'']" "[\<lparr>mp_model = js ''m'', mp_protocol = FmtGemini\<rparr>]" "js ''m''"]
    by (simp add: format_of_def discovered_format_def serviceModelFormats_def isSubscriptionKind_def modelFormats_def
        serviceBuiltinModelProtocol_def begins_def starts_with_def js_def)
  show "withDiscoveredModelProtocols (\<lambda>s. s) VertexKind [] [] [js ''m''] [\<lparr>mp_model = js ''m'', mp_protocol = FmtGemini\<rparr>] = []"
    using discovered_formats [OF none] by blast
qed

lemma map_of_rev_distinct: "distinct (map fst xs) \<Longrightarrow> map_of (rev xs) = map_of xs"
proof (rule ext)
  fix k
  assume one: "distinct (map fst xs)"
  then have "map_of (rev xs) k = Some v \<longleftrightarrow> map_of xs k = Some v" for v
    by (simp add: rev_map [symmetric] map_of_eq_Some_iff)
  then show "map_of (rev xs) k = map_of xs k" by (metis option.exhaust)
qed

text \<open>
  Two tables count as the same exactly when they say the same of every model, whatever the order
  of their entries: an edit is offered for saving when, and only when, it changes some model's format.
\<close>

theorem same_tables:
  assumes "one_each a" and "one_each b"
  shows "sameModelProtocols a b \<longleftrightarrow> format_of a = format_of b"
proof -
  have lookup: "map_of (rev (map (\<lambda>e. (mp_model e, mp_protocol e)) a)) = format_of a"
    using assms(1) map_of_rev_distinct [of "map (\<lambda>e. (mp_model e, mp_protocol e)) a"]
    by (simp add: format_of_def one_each_def comp_def)
  have sizes: "length es = card (mp_model ` set es)" if "one_each es" for es
    using that by (metis distinct_card length_map list.set_map one_each_def)
  show ?thesis
  proof
    assume same: "sameModelProtocols a b"
    then have len: "length a = length b" and entries: "\<forall>e\<in>set b. format_of a (mp_model e) = Some (mp_protocol e)"
      by (auto simp: sameModelProtocols_def lookup list_all_iff)
    have "mp_model ` set b \<subseteq> mp_model ` set a" using entries format_of_None [of a] by (metis image_subsetI option.distinct(1))
    then have keys: "mp_model ` set b = mp_model ` set a"
      using sizes assms len by (metis List.finite_set card_subset_eq finite_imageI)
    show "format_of a = format_of b"
    proof
      fix m
      show "format_of a m = format_of b m"
      proof (cases "m \<in> mp_model ` set b")
        case True
        then obtain e where "e \<in> set b" "mp_model e = m" by blast
        then show ?thesis using entries format_of_Some [OF assms(2), of m "mp_protocol e"] by force
      next
        case False
        then show ?thesis using keys format_of_None [of a m] format_of_None [of b m] by simp
      qed
    qed
  next
    assume same: "format_of a = format_of b"
    have "mp_model ` set a = mp_model ` set b"
      using same format_of_None [of a] format_of_None [of b] by auto
    then have "length a = length b" using sizes assms by metis
    moreover have "format_of a (mp_model e) = Some (mp_protocol e)" if "e \<in> set b" for e
      using that same format_of_Some [OF assms(2)] by auto
    ultimately show "sameModelProtocols a b" by (simp add: sameModelProtocols_def lookup list_all_iff)
  qed
qed

theorem same_tables_witness:
  "sameModelProtocols [\<lparr>mp_model = js ''a'', mp_protocol = FmtChat\<rparr>] [\<lparr>mp_model = js ''a'', mp_protocol = FmtChat\<rparr>]"
  using same_tables [of "[\<lparr>mp_model = js ''a'', mp_protocol = FmtChat\<rparr>]" "[\<lparr>mp_model = js ''a'', mp_protocol = FmtChat\<rparr>]"]
  by (simp add: one_each_def)

section \<open>Conversions\<close>

interpretation edge_order: comparator better_edge UNIV
proof
  show "better_edge x y \<le> 0 \<or> better_edge y x \<le> 0" for x y by (auto simp: better_edge_def Let_def)
  show "better_edge x z \<le> 0" if "better_edge x y \<le> 0" "better_edge y z \<le> 0" for x y z
    using that by (auto simp: better_edge_def Let_def split: if_splits)
qed

text \<open>
  A conversion is offered exactly when the engine runs and advertises a usable edge, one to a
  protocol the provider really speaks and not discouraged, and no usable edge beats the one chosen:
  none is good where it is not, none of its quality stands earlier in the order of protocols.
\<close>

theorem best_conversion:
  "(bestConversionTarget source spoken (Some e) = None
      \<longleftrightarrow> \<not> eng_available e \<or> filter (usable_edge source spoken) (eng_edges e) = [])
   \<and> (\<forall>target. bestConversionTarget source spoken (Some e) = Some target \<longrightarrow>
        (\<exists>edge \<in> set (eng_edges e). usable_edge source spoken edge \<and> snap_to edge = target
          \<and> (\<forall>other \<in> set (eng_edges e). usable_edge source spoken other \<longrightarrow> better_edge edge other \<le> 0)))"
proof (cases "sort_by better_edge (filter (usable_edge source spoken) (eng_edges e))")
  case Nil
  then have "set (filter (usable_edge source spoken) (eng_edges e)) = {}" by (metis set_empty set_sort_by)
  then show ?thesis using Nil by (auto simp: bestConversionTarget_def filter_empty_conv)
next
  case (Cons best rest)
  have all: "set (best # rest) = set (filter (usable_edge source spoken) (eng_edges e))" by (metis Cons set_sort_by)
  have "sorted_wrt (\<lambda>x y. better_edge x y \<le> 0) (best # rest)"
    using edge_order.sort_by_ordered [of "filter (usable_edge source spoken) (eng_edges e)"] by (simp add: Cons)
  moreover have "better_edge best best \<le> 0" by (simp add: better_edge_def)
  ultimately have least: "\<forall>other \<in> set (best # rest). better_edge best other \<le> 0" by auto
  have "best \<in> set (filter (usable_edge source spoken) (eng_edges e))" using all by auto
  then have best: "best \<in> set (eng_edges e)" "usable_edge source spoken best" by simp_all
  then show ?thesis using least Cons unfolding all
    by (auto simp: bestConversionTarget_def filter_empty_conv)
qed

theorem best_conversion_witness:
  "bestConversionTarget (js ''openai.chat'') [js ''openai.responses'']
     (Some \<lparr>eng_available = True, eng_edges = [\<lparr>snap_from = js ''openai.chat'', snap_to = js ''openai.responses'',
        snap_quality = Some QualityFair, snap_streaming = True\<rparr>]\<rparr>) \<noteq> None"
  using best_conversion [of "js ''openai.chat''" "[js ''openai.responses'']"
      "\<lparr>eng_available = True, eng_edges = [\<lparr>snap_from = js ''openai.chat'', snap_to = js ''openai.responses'',
        snap_quality = Some QualityFair, snap_streaming = True\<rparr>]\<rparr>"]
  by (simp add: usable_edge_def target_preference_def)

section \<open>Regions read back\<close>

lemma lang_plus_Cls: "lang (plus_rx (Cls p)) = {s. s \<noteq> [] \<and> list_all p s}"
  unfolding plus_rx_def lang.simps(3) lang_Many_Cls by (auto simp: neq_Nil_conv) (metis append_Cons append_Nil)

text \<open>What a host makes of an address without anything but a scheme and a plain name.\<close>

definition host_units :: "jstr \<Rightarrow> bool" where
  "host_units h \<longleftrightarrow> list_all (\<lambda>c. is_lower c \<or> is_digit c \<or> c = 45 \<or> c = 46) h \<and> ends_with (js ''.googleapis.com'') h"

lemma region_parts:
  assumes "matches region_rx r"
  shows "\<exists>a b d. r = a @ 45 # b @ d \<and> list_all is_lower a \<and> list_all is_lower b \<and> list_all is_digit d"
proof -
  have "r \<in> lang region_rx" using assms by (simp add: matches_iff)
  then show ?thesis
    unfolding region_rx_def seqs.simps lang.simps(3) lang_plus_Cls chr_def lang.simps(1) is_chr_def by auto
qed

lemma matches_word_iff: "matches (word w) s \<longleftrightarrow> s = js w"
  by (auto simp: matches_def rests_word starts_with_def)

lemma ends_with_append [simp]: "ends_with t (s @ t)"
  by (simp add: ends_with_def starts_with_def)

lemma region_host:
  assumes "matches region_rx r"
  shows "host_units (r @ region_host_suffix)" and "r @ region_host_suffix \<noteq> js ''aiplatform.us.rep.googleapis.com''"
    and "r @ region_host_suffix \<noteq> js ''aiplatform.eu.rep.googleapis.com''"
    and "r \<notin> {js ''global'', js ''us'', js ''eu''}"
proof -
  obtain a b d where r: "r = a @ 45 # b @ d" "list_all is_lower a" "list_all is_lower b" "list_all is_digit d"
    using region_parts [OF assms] by blast
  have "ends_with (js ''.googleapis.com'') (r @ region_host_suffix)"
    by (simp add: region_host_suffix_def js_def ends_with_def starts_with_def)
  moreover have "list_all (\<lambda>c. is_lower c \<or> is_digit c \<or> c = 45 \<or> c = 46) r"
    using r by (auto simp: list_all_iff)
  ultimately show "host_units (r @ region_host_suffix)"
    by (simp add: host_units_def) (simp add: region_host_suffix_def js_def is_lower_def is_digit_def)
  have "\<not> ends_with region_host_suffix (js ''aiplatform.us.rep.googleapis.com'')"
    "\<not> ends_with region_host_suffix (js ''aiplatform.eu.rep.googleapis.com'')"
    by (simp_all add: region_host_suffix_def js_def ends_with_def starts_with_def)
  then show "r @ region_host_suffix \<noteq> js ''aiplatform.us.rep.googleapis.com''"
    "r @ region_host_suffix \<noteq> js ''aiplatform.eu.rep.googleapis.com''"
    by (metis ends_with_append)+
  have "45 \<in> set r" by (simp add: r)
  then show "r \<notin> {js ''global'', js ''us'', js ''eu''}" by (auto simp: js_def)
qed

text \<open>
  The address the editor writes for a Vertex location names that location: read back from it,
  every location a connection may have is the one chosen, wherever the host reads the name of such
  an address as it stands.
\<close>

theorem vertex_location_roundtrip:
  assumes "\<And>h. host_units h \<Longrightarrow> \<exists>u. url (js ''https://'' @ h) = Some u \<and> url_hostname u = h"
    and "validVertexConnection vertex"
  shows "vertexLocation url (vertexBaseURL (vx_location vertex)) = vx_location vertex"
proof -
  let ?l = "vx_location vertex"
  consider "?l = js ''global''" | "?l = js ''us''" | "?l = js ''eu''" | "matches region_rx ?l"
    using assms(2) by (auto simp: validVertexConnection_def matches_word_iff simp del: word.simps)
  then show ?thesis
  proof cases
    case 1
    have "host_units (js ''aiplatform.googleapis.com'')" 
      by (simp add: host_units_def js_def is_lower_def ends_with_def starts_with_def)
    then obtain u where "url (js ''https://'' @ js ''aiplatform.googleapis.com'') = Some u"
      "url_hostname u = js ''aiplatform.googleapis.com''" using assms(1) by blast
    then show ?thesis using 1
      by (auto simp: vertexLocation_def vertexBaseURL_def Let_def js_def region_host_suffix_def ends_with_def starts_with_def)
  next
    case 2
    have "host_units (js ''aiplatform.us.rep.googleapis.com'')"
      by (simp add: host_units_def js_def is_lower_def ends_with_def starts_with_def)
    then obtain u where "url (js ''https://'' @ js ''aiplatform.us.rep.googleapis.com'') = Some u"
      "url_hostname u = js ''aiplatform.us.rep.googleapis.com''" using assms(1) by blast
    then show ?thesis using 2 by (auto simp: vertexLocation_def vertexBaseURL_def Let_def js_def)
  next
    case 3
    have "host_units (js ''aiplatform.eu.rep.googleapis.com'')"
      by (simp add: host_units_def js_def is_lower_def ends_with_def starts_with_def)
    then obtain u where "url (js ''https://'' @ js ''aiplatform.eu.rep.googleapis.com'') = Some u"
      "url_hostname u = js ''aiplatform.eu.rep.googleapis.com''" using assms(1) by blast
    then show ?thesis using 3 by (auto simp: vertexLocation_def vertexBaseURL_def Let_def js_def)
  next
    case 4
    note host = region_host [OF 4]
    obtain u where "url (js ''https://'' @ ?l @ region_host_suffix) = Some u" "url_hostname u = ?l @ region_host_suffix"
      using assms(1) [OF host(1)] by blast
    then show ?thesis using host 4
      by (simp add: vertexLocation_def vertexBaseURL_def Let_def ends_with_def starts_with_def flip: region_host_suffix_def)
  qed
qed

definition sample_url :: url_parser where
  "sample_url text =
     (if starts_with (js ''https://'') text
      then Some \<lparr>url_protocol = js ''https:'', url_username = [], url_password = [], url_hostname = drop 8 text, url_port = [],
        url_pathname = js ''/'', url_search = [], url_hash = []\<rparr>
      else None)"

theorem vertex_location_roundtrip_witness:
  "vertexLocation sample_url (vertexBaseURL (js ''us-east1'')) = js ''us-east1''"
proof -
  have "validVertexConnection \<lparr>vx_project_id = js ''12'', vx_location = js ''us-east1''\<rparr>"
    by code_simp
  moreover have "\<exists>u. sample_url (js ''https://'' @ h) = Some u \<and> url_hostname u = h" for h
    by (simp add: sample_url_def starts_with_def)
  ultimately show ?thesis
    using vertex_location_roundtrip [where url = sample_url and vertex = "\<lparr>vx_project_id = js ''12'', vx_location = js ''us-east1''\<rparr>"] by simp
qed

end
