(* ===== verification/Service_Parsers.thy ===== *)
theory Service_Parsers
  imports Service_Proxy Service_Tables
begin

text \<open>
  The providers as the core sends them, \<open>service-model.ts\<close>: the parsers of a provider with its
  connection, of pages, records, model lists and the history of risks. \<open>new URL\<close> and \<open>Date.parse\<close> are
  arguments.
\<close>

section \<open>Patterns\<close>

text \<open>\<open>/^[!#$%&'*+.^_`|~0-9A-Za-z-]+$/\<close>\<close>

definition headerNamePattern :: rx where
  "headerNamePattern = plus_rx (Cls (\<lambda>c. is_alnum c \<or> c \<in> {33, 35, 36, 37, 38, 39, 42, 43, 45, 46, 94, 95, 96, 124, 126}))"

text \<open>\<open>local://service/<id>\<close> and \<open>local://subscription/<id>\<close>\<close>

definition localCredentialRefPattern :: rx where
  "localCredentialRefPattern = Seq (word ''local://service/'') resource_id_rx"

definition subscriptionCredentialRefPattern :: rx where
  "subscriptionCredentialRefPattern = Seq (word ''local://subscription/'') resource_id_rx"

text \<open>\<open>keyring://<service>/<account>\<close>, the account not ending in a slash.\<close>

definition keyring_unit :: "nat \<Rightarrow> bool" where
  "keyring_unit c \<longleftrightarrow> is_alnum c \<or> c \<in> {33, 36, 38, 39, 40, 41, 42, 43, 44, 45, 46, 58, 59, 61, 64, 95, 126}"

definition keyringCredentialRefPattern :: rx where
  "keyringCredentialRefPattern =
     seqs [word ''keyring://'', plus_rx (Cls (union_cls is_alnum ''._~-'')), chr CHR ''/'',
           Many (Cls (\<lambda>c. keyring_unit c \<or> c = 47)), Cls keyring_unit]"

text \<open>Letters without their case, the \<open>i\<close> flag.\<close>

definition any_case :: "string \<Rightarrow> rx" where
  "any_case w = seqs (map (\<lambda>x. Cls (\<lambda>c. ascii_lower c = ascii_lower (of_char x))) w)"

text \<open>A bearer token, a PKCE verifier or a JSON Web Token anywhere in the text.\<close>

definition credentialLeakPattern :: rx where
  "credentialLeakPattern =
     alts (seqs [any_case ''Bearer'', plus_rx (Cls js_space), Rep 12 12 (Cls (union_cls is_alnum ''._~+/=-''))])
       [seqs [any_case ''code_verifier='', Rep 20 20 (Cls (union_cls is_alnum ''._~-''))],
        seqs [any_case ''eyJ'', Rep 20 20 (Cls (union_cls is_alnum ''_-'')), Many (Cls (union_cls is_alnum ''_-'')),
              chr CHR ''.'', Rep 10 10 (Cls (union_cls is_alnum ''_-''))]]"

definition leaks :: "jstr \<Rightarrow> bool" where "leaks s \<longleftrightarrow> occurs credentialLeakPattern s"

section \<open>Parts\<close>

abbreviation service_object :: "json \<Rightarrow> jstr \<Rightarrow> js_error + jobj" where
  "service_object \<equiv> ipc_object service_invalid"

abbreviation service_keys :: "jobj \<Rightarrow> string list \<Rightarrow> string list \<Rightarrow> jstr \<Rightarrow> js_error + unit" where
  "service_keys \<equiv> ipc_keys service_invalid"

abbreviation service_text :: "json \<Rightarrow> jstr \<Rightarrow> nat \<Rightarrow> nat \<Rightarrow> js_error + jstr" where
  "service_text \<equiv> ipc_text service_invalid"

abbreviation service_timestamp :: "date_parser \<Rightarrow> json \<Rightarrow> jstr \<Rightarrow> js_error + jstr" where
  "service_timestamp \<equiv> ipc_timestamp service_invalid"

definition complain :: "bool \<Rightarrow> jstr \<Rightarrow> string \<Rightarrow> js_error + unit" where
  "complain bad path message = throwIf bad (service_invalid path (js message))"

definition parseAuth :: "json \<Rightarrow> jstr \<Rightarrow> js_error + service_auth" where
  "parseAuth value path =
     bindE (service_object value path) (\<lambda>auth.
     bindE (service_keys auth [''scheme''] [''header_name''] path) (\<lambda>_.
     bindE (ipc_enum service_invalid ''unknown authentication scheme'' authSchemes auth_name (field auth ''scheme'')
              (at_field path ''scheme'')) (\<lambda>scheme.
     if scheme = AuthCustomHeader then
       bindE (service_text (field auth ''header_name'') (at_field path ''header_name'') 1 128) (\<lambda>headerName.
       bindE (complain (\<not> matches headerNamePattern headerName) (at_field path ''header_name'') ''invalid header name'') (\<lambda>_.
       Inr \<lparr>au_scheme = scheme, au_header_name = Some headerName\<rparr>))
     else
       bindE (complain (has_own auth ''header_name'') (at_field path ''header_name'')
                ''only custom_header may set header_name'') (\<lambda>_.
       Inr \<lparr>au_scheme = scheme, au_header_name = None\<rparr>))))"

definition parse_convert_to :: "jobj \<Rightarrow> jstr \<Rightarrow> jstr \<Rightarrow> js_error + jstr option" where
  "parse_convert_to capability protocol path =
     if_own capability ''convert_to'' (\<lambda>v.
       bindE (service_text v (at_field path ''convert_to'') 3 96) (\<lambda>convertTo.
       bindE (complain (\<not> matches protocol_id_rx convertTo) (at_field path ''convert_to'') ''invalid protocol ID'') (\<lambda>_.
       bindE (complain (convertTo = protocol) (at_field path ''convert_to'') ''must change protocol'') (\<lambda>_.
       Inr convertTo))))"

definition parseCapability :: "json \<Rightarrow> jstr \<Rightarrow> js_error + service_capability" where
  "parseCapability value path =
     bindE (service_object value path) (\<lambda>capability.
     bindE (service_keys capability [''protocol'', ''mode'', ''streaming''] [''convert_to''] path) (\<lambda>_.
     bindE (service_text (field capability ''protocol'') (at_field path ''protocol'') 3 96) (\<lambda>protocol.
     bindE (complain (\<not> matches protocol_id_rx protocol) (at_field path ''protocol'') ''invalid protocol ID'') (\<lambda>_.
     bindE (ipc_enum service_invalid ''unknown capability mode'' capability_modes mode_name (field capability ''mode'')
              (at_field path ''mode'')) (\<lambda>mode.
     bindE (ipc_flag service_invalid (field capability ''streaming'') (at_field path ''streaming'')) (\<lambda>streaming.
     bindE (parse_convert_to capability protocol path) (\<lambda>convertTo.
     Inr \<lparr>cap_protocol = protocol, cap_mode = mode, cap_streaming = streaming, cap_convert_to = convertTo\<rparr>)))))))"

definition limited_array :: "json \<Rightarrow> jstr \<Rightarrow> nat \<Rightarrow> js_error + json list" where
  "limited_array value path maximum =
     (let e = service_invalid path (js ''expected an array with at most '' @ dec maximum @ js '' items'') in
      bindE (orThrow e (jarray value)) (\<lambda>items.
      bindE (throwIf (length items > maximum) e) (\<lambda>_. Inr items)))"

definition parseModels :: "json \<Rightarrow> jstr \<Rightarrow> nat \<Rightarrow> js_error + jstr list" where
  "parseModels value path maximum =
     bindE (limited_array value path maximum) (\<lambda>items.
     bindE (mapE (\<lambda>i model. service_text model (at_index path i) 1 256) 0 items) (\<lambda>models.
     bindE (complain (\<not> distinct models) path ''duplicate model'') (\<lambda>_. Inr models)))"

definition model_format_of :: "json \<Rightarrow> model_format option" where
  "model_format_of value = enum_of modelFormats format_name value"

fun parse_entries :: "jstr \<Rightarrow> nat \<Rightarrow> jstr set \<Rightarrow> json list \<Rightarrow> js_error + model_protocol list" where
  "parse_entries path i seen [] = Inr []"
| "parse_entries path i seen (item # items) =
     (let entryPath = at_index path i in
      bindE (service_object item entryPath) (\<lambda>entry.
      bindE (service_keys entry [''model'', ''protocol''] [] entryPath) (\<lambda>_.
      bindE (service_text (field entry ''model'') (at_field entryPath ''model'') 1 256) (\<lambda>model.
      bindE (complain (model \<in> seen) (at_field entryPath ''model'') ''duplicate model'') (\<lambda>_.
      bindE (orThrow (service_invalid (at_field entryPath ''protocol'') (js ''unknown upstream format''))
               (model_format_of (field entry ''protocol''))) (\<lambda>protocol.
      bindE (parse_entries path (Suc i) (insert model seen) items) (\<lambda>rest.
      Inr (\<lparr>mp_model = model, mp_protocol = protocol\<rparr> # rest))))))))"

definition parseModelProtocols :: "json \<Rightarrow> jstr \<Rightarrow> nat \<Rightarrow> js_error + model_protocol list" where
  "parseModelProtocols value path maximum =
     bindE (limited_array value path maximum) (\<lambda>items. parse_entries path 0 {} items)"

definition unsafe_url :: "web_url \<Rightarrow> bool" where
  "unsafe_url u \<longleftrightarrow> url_protocol u \<notin> {js ''http:'', js ''https:''} \<or> url_username u \<noteq> [] \<or> url_password u \<noteq> []
     \<or> url_search u \<noteq> [] \<or> url_hash u \<noteq> []"

text \<open>The mark before the last characters of a saved key.\<close>

definition hint_mark :: jstr where "hint_mark = [8230]"

definition parse_vertex :: "jobj \<Rightarrow> jstr \<Rightarrow> service_auth \<Rightarrow> jstr \<Rightarrow> js_error + vertex_connection option" where
  "parse_vertex connection baseURL auth path =
     if_own connection ''vertex'' (\<lambda>v.
       bindE (service_object v (at_field path ''vertex'')) (\<lambda>value.
       bindE (service_keys value [''project_id'', ''location''] [] (at_field path ''vertex'')) (\<lambda>_.
       bindE (service_text (field value ''project_id'') (at_field (at_field path ''vertex'') ''project_id'') 1 254) (\<lambda>project.
       bindE (service_text (field value ''location'') (at_field (at_field path ''vertex'') ''location'') 1 64) (\<lambda>location.
       let vertex = \<lparr>vx_project_id = project, vx_location = location\<rparr> in
       bindE (complain (\<not> validVertexConnection vertex \<or> baseURL \<noteq> vertexBaseURL location
                \<or> au_scheme auth \<noteq> AuthServiceAccount) path ''invalid Vertex connection'') (\<lambda>_.
       Inr vertex))))))"

definition parseHTTPConnection :: "url_parser \<Rightarrow> json \<Rightarrow> jstr \<Rightarrow> js_error + http_connection" where
  "parseHTTPConnection url value path =
     bindE (service_object value path) (\<lambda>connection.
     bindE (service_keys connection [''base_url'', ''auth'']
              [''credential_ref'', ''model_list_path'', ''credential_hint'', ''vertex''] path) (\<lambda>_.
     bindE (service_text (field connection ''base_url'') (at_field path ''base_url'') 1 2048) (\<lambda>baseURL.
     bindE (orThrow (service_invalid (at_field path ''base_url'') (js ''invalid URL'')) (url baseURL)) (\<lambda>parsed.
     bindE (complain (unsafe_url parsed) (at_field path ''base_url'') ''unsafe upstream URL'') (\<lambda>_.
     bindE (if_own connection ''credential_ref'' (\<lambda>v.
              bindE (service_text v (at_field path ''credential_ref'') 1 512) (\<lambda>r.
              bindE (complain (\<not> matches localCredentialRefPattern r) (at_field path ''credential_ref'')
                       ''must use local://service/<id>'') (\<lambda>_. Inr r)))) (\<lambda>credentialRef.
     bindE (if_own connection ''model_list_path'' (\<lambda>v. service_text v (at_field path ''model_list_path'') 1 512)) (\<lambda>modelListPath.
     bindE (if_own connection ''credential_hint'' (\<lambda>v.
              bindE (service_text v (at_field path ''credential_hint'') 2 16) (\<lambda>hint.
              bindE (complain (credentialRef = None \<or> \<not> starts_with hint_mark hint) (at_field path ''credential_hint'')
                       ''must be a saved-key display hint'') (\<lambda>_. Inr hint)))) (\<lambda>credentialHint.
     bindE (parseAuth (field connection ''auth'') (at_field path ''auth'')) (\<lambda>auth.
     bindE (parse_vertex connection baseURL auth path) (\<lambda>vertex.
     bindE (complain (vertex \<noteq> None \<and> credentialHint \<noteq> None) path ''Vertex credentials must not have a key hint'') (\<lambda>_.
     Inr \<lparr>hc_base_url = baseURL, hc_auth = auth, hc_credential_ref = credentialRef, hc_vertex = vertex,
          hc_model_list_path = modelListPath, hc_credential_hint = credentialHint\<rparr>)))))))))))"

section \<open>Subscriptions\<close>

definition parseSubscriptionError :: "json \<Rightarrow> jstr \<Rightarrow> js_error + subscription_error" where
  "parseSubscriptionError value path =
     bindE (service_object value path) (\<lambda>error'.
     bindE (service_keys error' [''code'', ''message''] [] path) (\<lambda>_.
     bindE (service_text (field error' ''code'') (at_field path ''code'') 2 64) (\<lambda>code.
     bindE (service_text (field error' ''message'') (at_field path ''message'') 1 240) (\<lambda>message.
     bindE (complain (\<not> matches errorCodePattern code) (at_field path ''code'') ''invalid error code'') (\<lambda>_.
     bindE (complain (leaks message) (at_field path ''message'') ''must not contain credential material'') (\<lambda>_.
     Inr \<lparr>sbe_code = code, sbe_message = message\<rparr>))))))"

definition riskCodeAt :: "json \<Rightarrow> jstr \<Rightarrow> js_error + jstr" where
  "riskCodeAt value path =
     bindE (service_text value path 2 64) (\<lambda>code.
     bindE (complain (\<not> matches errorCodePattern code) path ''invalid risk code'') (\<lambda>_. Inr code))"

definition riskMessageAt :: "json \<Rightarrow> jstr \<Rightarrow> js_error + jstr" where
  "riskMessageAt value path =
     bindE (service_text value path 0 240) (\<lambda>message.
     bindE (complain (leaks message) path ''must not contain credential material'') (\<lambda>_. Inr message))"

definition parse_paused :: "date_parser \<Rightarrow> jobj \<Rightarrow> risk_event_kind \<Rightarrow> jstr \<Rightarrow> js_error + jstr option" where
  "parse_paused date risk state path =
     (if state = Cooling
      then bindE (service_timestamp date (field risk ''paused_until'') (at_field path ''paused_until'')) (\<lambda>t. Inr (Some t))
      else bindE (complain (has_own risk ''paused_until'') (at_field path ''paused_until'')
             ''only cooling may set paused_until'') (\<lambda>_. Inr None))"

definition parseSubscriptionRisk :: "date_parser \<Rightarrow> json \<Rightarrow> jstr \<Rightarrow> js_error + subscription_risk" where
  "parseSubscriptionRisk date value path =
     bindE (service_object value path) (\<lambda>risk.
     bindE (service_keys risk [''state'', ''code'', ''observed_at'']
              [''message'', ''http_status'', ''paused_until'', ''occurrences''] path) (\<lambda>_.
     bindE (ipc_enum service_invalid ''unknown risk state'' riskStates risk_name (field risk ''state'') (at_field path ''state'')) (\<lambda>state.
     bindE (riskCodeAt (field risk ''code'') (at_field path ''code'')) (\<lambda>code.
     bindE (service_timestamp date (field risk ''observed_at'') (at_field path ''observed_at'')) (\<lambda>observed.
     bindE (if_own risk ''message'' (\<lambda>v. riskMessageAt v (at_field path ''message''))) (\<lambda>message.
     bindE (if_own risk ''http_status'' (\<lambda>v. ipc_integer service_invalid v (at_field path ''http_status'') 100 599)) (\<lambda>status.
     bindE (parse_paused date risk state path) (\<lambda>paused.
     bindE (if_own risk ''occurrences'' (\<lambda>v. ipc_integer service_invalid v (at_field path ''occurrences'') 1 max_safe)) (\<lambda>occurrences.
     Inr \<lparr>ri_state = state, ri_code = code, ri_message = message, ri_http_status = status, ri_observed_at = observed,
          ri_paused_until = paused, ri_occurrences = occurrences\<rparr>)))))))))"

record risk_event =
  rv_id :: int
  rv_service_id :: jstr
  rv_kind :: risk_event_kind
  rv_code :: "jstr option"
  rv_message :: "jstr option"
  rv_http_status :: "int option"
  rv_observed_at :: jstr
  rv_paused_until :: "jstr option"

definition resource_id_at :: "json \<Rightarrow> jstr \<Rightarrow> string \<Rightarrow> js_error + jstr" where
  "resource_id_at value path message =
     bindE (service_text value path 3 96) (\<lambda>i.
     bindE (complain (\<not> matches resource_id_rx i) path message) (\<lambda>_. Inr i))"

definition parseSubscriptionRiskEvent :: "date_parser \<Rightarrow> json \<Rightarrow> jstr \<Rightarrow> js_error + risk_event" where
  "parseSubscriptionRiskEvent date value path =
     bindE (service_object value path) (\<lambda>event.
     bindE (service_keys event [''id'', ''service_id'', ''kind'', ''observed_at'']
              [''code'', ''message'', ''http_status'', ''paused_until''] path) (\<lambda>_.
     bindE (resource_id_at (field event ''service_id'') (at_field path ''service_id'') ''invalid resource ID'') (\<lambda>serviceID.
     bindE (ipc_enum service_invalid ''unknown risk event kind'' riskEventKinds risk_name (field event ''kind'')
              (at_field path ''kind'')) (\<lambda>kind.
     bindE (ipc_integer service_invalid (field event ''id'') (at_field path ''id'') 1 max_safe) (\<lambda>i.
     bindE (service_timestamp date (field event ''observed_at'') (at_field path ''observed_at'')) (\<lambda>observed.
     bindE (if_own event ''code'' (\<lambda>v. riskCodeAt v (at_field path ''code''))) (\<lambda>code.
     bindE (if_own event ''message'' (\<lambda>v. riskMessageAt v (at_field path ''message''))) (\<lambda>message.
     bindE (if_own event ''http_status'' (\<lambda>v. ipc_integer service_invalid v (at_field path ''http_status'') 100 599)) (\<lambda>status.
     bindE (if_own event ''paused_until'' (\<lambda>v. service_timestamp date v (at_field path ''paused_until''))) (\<lambda>paused.
     Inr \<lparr>rv_id = i, rv_service_id = serviceID, rv_kind = kind, rv_code = code, rv_message = message,
          rv_http_status = status, rv_observed_at = observed, rv_paused_until = paused\<rparr>))))))))))"

definition maxRiskEvents :: nat where "maxRiskEvents = 50"

definition parseSubscriptionRiskEvents :: "date_parser \<Rightarrow> json \<Rightarrow> jstr option \<Rightarrow> js_error + risk_event list" where
  "parseSubscriptionRiskEvents date value serviceID =
     bindE (service_object value (js ''$'')) (\<lambda>page.
     bindE (service_keys page [''items''] [] (js ''$'')) (\<lambda>_.
     bindE (limited_array (field page ''items'') (js ''$.items'') maxRiskEvents) (\<lambda>items.
     mapE (\<lambda>i item.
       bindE (parseSubscriptionRiskEvent date item (at_index (js ''$.items'') i)) (\<lambda>event.
       bindE (complain (serviceID \<noteq> None \<and> Some (rv_service_id event) \<noteq> serviceID)
                (at_field (at_index (js ''$.items'') i) ''service_id'') ''belongs to another service'') (\<lambda>_.
       Inr event))) 0 items)))"

definition parse_hint :: "jobj \<Rightarrow> string \<Rightarrow> nat \<Rightarrow> jstr \<Rightarrow> js_error + jstr option" where
  "parse_hint subscription k maximum path =
     if_own subscription k (\<lambda>v.
       bindE (service_text v (at_field path k) 1 maximum) (\<lambda>text.
       bindE (complain (leaks text) (at_field path k) ''must not contain credential material'') (\<lambda>_. Inr text)))"

definition parseSubscriptionConnection :: "date_parser \<Rightarrow> json \<Rightarrow> jstr \<Rightarrow> js_error + subscription_connection" where
  "parseSubscriptionConnection date value path =
     bindE (service_object value path) (\<lambda>subscription.
     bindE (service_keys subscription [''provider'', ''status'']
              [''account_hint'', ''provider_account_id'', ''mode'', ''credential_ref'', ''authorization_boundary'',
               ''token_expires_at'', ''last_refresh_at'', ''last_error'', ''risk''] path) (\<lambda>_.
     bindE (ipc_enum service_invalid ''unknown subscription provider'' subscription_providers provider_name
              (field subscription ''provider'') (at_field path ''provider'')) (\<lambda>provider.
     bindE (ipc_enum service_invalid ''unknown subscription status'' subscriptionStatuses subscription_status_name
              (field subscription ''status'') (at_field path ''status'')) (\<lambda>status.
     bindE (if_own subscription ''mode'' (\<lambda>v. ipc_enum service_invalid ''unknown subscription mode'' subscription_modes
              subscription_mode_name v (at_field path ''mode''))) (\<lambda>mode.
     bindE (parse_hint subscription ''account_hint'' 128 path) (\<lambda>account.
     bindE (parse_hint subscription ''provider_account_id'' 256 path) (\<lambda>accountID.
     bindE (parse_hint subscription ''authorization_boundary'' 240 path) (\<lambda>boundary.
     bindE (if_own subscription ''credential_ref'' (\<lambda>v.
              bindE (service_text v (at_field path ''credential_ref'') 1 512) (\<lambda>r.
              bindE (complain (\<not> matches subscriptionCredentialRefPattern r \<and> \<not> matches keyringCredentialRefPattern r)
                       (at_field path ''credential_ref'') ''must use local://subscription/<id> or keyring://'') (\<lambda>_.
              Inr r)))) (\<lambda>credentialRef.
     bindE (if_own subscription ''token_expires_at'' (\<lambda>v. service_timestamp date v (at_field path ''token_expires_at''))) (\<lambda>expires.
     bindE (if_own subscription ''last_refresh_at'' (\<lambda>v. service_timestamp date v (at_field path ''last_refresh_at''))) (\<lambda>refreshed.
     bindE (if_own subscription ''last_error'' (\<lambda>v. parseSubscriptionError v (at_field path ''last_error''))) (\<lambda>lastError.
     bindE (if_own subscription ''risk'' (\<lambda>v. parseSubscriptionRisk date v (at_field path ''risk''))) (\<lambda>risk.
     Inr \<lparr>sbc_provider = provider, sbc_status = status, sbc_account_hint = account, sbc_provider_account_id = accountID,
          sbc_mode = mode, sbc_credential_ref = credentialRef, sbc_authorization_boundary = boundary,
          sbc_token_expires_at = expires, sbc_last_refresh_at = refreshed, sbc_last_error = lastError,
          sbc_risk = risk\<rparr>)))))))))))))"

section \<open>Providers\<close>

text \<open>The formats and entries a Vertex provider cannot have.\<close>

definition model_discovery :: "jstr \<Rightarrow> bool" where
  "model_discovery protocol \<longleftrightarrow> protocol = js ''openai.models'' \<or> protocol = js ''google.models''"

definition unfit_vertex_entry :: "auth_scheme \<Rightarrow> service_capability \<Rightarrow> bool" where
  "unfit_vertex_entry auth c \<longleftrightarrow>
     (let formats = map (js \<circ> format_name) (serviceModelFormats VertexKind (Some auth)) in
      (\<not> isModelFormat (cap_protocol c) \<and> \<not> model_discovery (cap_protocol c))
      \<or> (cap_protocol c = js ''openai.responses'' \<and> cap_convert_to c = None)
      \<or> (auth = AuthGoogleKey \<and> isModelFormat (cap_protocol c)
         \<and> (case cap_convert_to c of Some p \<Rightarrow> p | None \<Rightarrow> cap_protocol c) \<noteq> js ''google.generate_content'')
      \<or> (case cap_convert_to c of Some p \<Rightarrow> p \<notin> set formats | None \<Rightarrow> False))"

definition check_vertex ::
  "url_parser \<Rightarrow> jobj \<Rightarrow> model_protocol list \<Rightarrow> service_capability list \<Rightarrow> jstr \<Rightarrow> js_error + unit"
where
  "check_vertex url service modelProtocols capabilities path =
     bindE (parseHTTPConnection url (field service ''http'') (at_field path ''http'')) (\<lambda>connection.
     let auth = au_scheme (hc_auth connection) in
     bindE (complain (list_ex (\<lambda>e. mp_protocol e \<notin> set (serviceModelFormats VertexKind (Some auth))) modelProtocols)
              (at_field path ''model_protocols'') ''unsupported Vertex upstream format'') (\<lambda>_.
     complain (list_ex (unfit_vertex_entry auth) capabilities) (at_field path ''capabilities'')
       ''unsupported Vertex entry or conversion target''))"

definition own_flag :: "jobj \<Rightarrow> string \<Rightarrow> jstr \<Rightarrow> js_error + bool option" where
  "own_flag service k path = if_own service k (\<lambda>v. ipc_flag service_invalid v (at_field path k))"

definition parse_redirects :: "jobj \<Rightarrow> jstr \<Rightarrow> js_error + model_redirect list" where
  "parse_redirects service path =
     (case parseModelRedirects (field service ''model_redirects'') of
        Inr redirects \<Rightarrow> Inr redirects
      | Inl _ \<Rightarrow> Inl (service_invalid (at_field path ''model_redirects'') (js ''invalid model redirects'')))"

definition unless_none :: "'a list \<Rightarrow> 'a list option" where
  "unless_none xs = (if xs = [] then None else Some xs)"

definition parse_proxy :: "url_parser \<Rightarrow> jobj \<Rightarrow> jstr \<Rightarrow> js_error + service_proxy option" where
  "parse_proxy url service i =
     (if field service ''proxy'' = JUndef then Inr None
      else bindE (parseServiceProxy url (field service ''proxy'') i) (\<lambda>p. Inr (Some p)))"

definition parse_subscription_of :: "date_parser \<Rightarrow> jobj \<Rightarrow> service_kind \<Rightarrow> jstr \<Rightarrow> js_error + subscription_connection" where
  "parse_subscription_of date service kind path =
     bindE (complain (\<not> has_own service ''subscription'' \<or> has_own service ''http'') path
              ''subscription service requires only subscription'') (\<lambda>_.
     bindE (parseSubscriptionConnection date (field service ''subscription'') (at_field path ''subscription'')) (\<lambda>subscription.
     bindE (complain (Some (sbc_provider subscription) \<noteq> subscriptionKindProviders kind)
              (at_field (at_field path ''subscription'') ''provider'') ''provider does not match service kind'') (\<lambda>_.
     Inr subscription)))"

definition parse_http_of :: "url_parser \<Rightarrow> jobj \<Rightarrow> service_kind \<Rightarrow> jstr \<Rightarrow> js_error + http_connection" where
  "parse_http_of url service kind path =
     bindE (complain (\<not> has_own service ''http'' \<or> has_own service ''subscription'') path
              ''HTTP service requires only http'') (\<lambda>_.
     bindE (parseHTTPConnection url (field service ''http'') (at_field path ''http'')) (\<lambda>http.
     bindE (complain (kind \<noteq> VertexKind \<and> (hc_vertex http \<noteq> None \<or> au_scheme (hc_auth http) = AuthServiceAccount)) path
              ''vertex configuration requires a Vertex service'') (\<lambda>_.
     bindE (complain (kind = VertexKind \<and> au_scheme (hc_auth http) \<notin> {AuthServiceAccount, AuthGoogleKey}) path
              ''Vertex requires a service account or Express API key'') (\<lambda>_.
     Inr http))))"

definition parse_connection ::
  "url_parser \<Rightarrow> date_parser \<Rightarrow> jobj \<Rightarrow> service_kind \<Rightarrow> jstr
     \<Rightarrow> js_error + http_connection option \<times> subscription_connection option"
where
  "parse_connection url date service kind path =
     (if isSubscriptionKind kind
      then bindE (parse_subscription_of date service kind path) (\<lambda>s. Inr (None, Some s))
      else bindE (parse_http_of url service kind path) (\<lambda>h. Inr (Some h, None)))"

definition parseService :: "url_parser \<Rightarrow> date_parser \<Rightarrow> json \<Rightarrow> jstr \<Rightarrow> js_error + service_record" where
  "parseService url date value path =
     bindE (service_object value path) (\<lambda>service.
     bindE (service_keys service
              [''id'', ''name'', ''kind'', ''enabled'', ''models'', ''capabilities'', ''created_at'', ''updated_at'']
              [''http'', ''subscription'', ''failure_policy'', ''responses_websocket_enabled'', ''privacy_trusted'',
               ''model_redirects'', ''model_protocols'', ''proxy''] path) (\<lambda>_.
     bindE (resource_id_at (field service ''id'') (at_field path ''id'') ''invalid service ID'') (\<lambda>i.
     bindE (service_text (field service ''name'') (at_field path ''name'') 1 128) (\<lambda>name.
     bindE (ipc_enum service_invalid ''unknown service kind'' service_kinds service_kind_name (field service ''kind'')
              (at_field path ''kind'')) (\<lambda>kind.
     bindE (ipc_flag service_invalid (field service ''enabled'') (at_field path ''enabled'')) (\<lambda>enabled.
     bindE (own_flag service ''responses_websocket_enabled'' path) (\<lambda>websocket.
     bindE (own_flag service ''privacy_trusted'' path) (\<lambda>trusted.
     bindE (parse_redirects service path) (\<lambda>redirects.
     bindE (if has_own service ''model_protocols''
            then parseModelProtocols (field service ''model_protocols'') (at_field path ''model_protocols'') 2000
            else Inr []) (\<lambda>protocols.
     bindE (parseModels (field service ''models'') (at_field path ''models'') 2000) (\<lambda>models.
     bindE (orThrow (service_invalid (at_field path ''capabilities'') (js ''expected an array''))
              (jarray (field service ''capabilities''))) (\<lambda>capability_items.
     bindE (mapE (\<lambda>j c. parseCapability c (at_index (at_field path ''capabilities'') j)) 0 capability_items) (\<lambda>capabilities.
     bindE (if kind = VertexKind then check_vertex url service protocols capabilities path else Inr ()) (\<lambda>_.
     bindE (service_timestamp date (field service ''created_at'') (at_field path ''created_at'')) (\<lambda>created.
     bindE (service_timestamp date (field service ''updated_at'') (at_field path ''updated_at'')) (\<lambda>updated.
     bindE (complain (the (date updated) < the (date created)) (at_field path ''updated_at'') ''must not precede created_at'') (\<lambda>_.
     bindE (parse_connection url date service kind path) (\<lambda>connection.
     bindE (parse_proxy url service i) (\<lambda>proxy.
     bindE (if_own service ''failure_policy'' (\<lambda>v. parseFailurePolicy v (at_field path ''failure_policy''))) (\<lambda>policy.
     Inr \<lparr>sv_proxy = proxy, sv_responses_websocket = websocket,
          sv_privacy_trusted = (if trusted = Some True then Some True else None),
          sv_model_redirects = unless_none redirects, sv_model_protocols = unless_none protocols,
          sv_failure_policy = policy, sv_id = i, sv_name = name, sv_kind = kind, sv_enabled = enabled,
          sv_models = models, sv_capabilities = capabilities, sv_http = fst connection, sv_subscription = snd connection,
          sv_created_at = created, sv_updated_at = updated\<rparr>))))))))))))))))))))"

section \<open>Pages, records and model lists\<close>

record service_page =
  sp_items :: "service_record list"
  sp_next_cursor :: "jstr option"

record service_record_read =
  sr_service :: service_record
  sr_etag :: jstr

datatype discovery_protocol = OpenaiModels | GoogleModels

fun discovery_name :: "discovery_protocol \<Rightarrow> string" where
  "discovery_name OpenaiModels = ''openai.models''"
| "discovery_name GoogleModels = ''google.models''"

definition discovery_protocols :: "discovery_protocol list" where "discovery_protocols = [OpenaiModels, GoogleModels]"

record model_probe =
  mb_service_id :: "jstr option"
  mb_protocol :: discovery_protocol
  mb_model_ids :: "jstr list"
  mb_model_protocols :: "model_protocol list option"

definition parseServiceModelProbe :: "json \<Rightarrow> js_error + model_probe" where
  "parseServiceModelProbe value =
     bindE (service_object value (js ''$'')) (\<lambda>probe.
     bindE (service_keys probe [''protocol'', ''model_ids''] [''service_id'', ''model_protocols''] (js ''$'')) (\<lambda>_.
     bindE (ipc_enum service_invalid ''unknown model discovery protocol'' discovery_protocols discovery_name
              (field probe ''protocol'') (js ''$.protocol'')) (\<lambda>protocol.
     bindE (parseModels (field probe ''model_ids'') (js ''$.model_ids'') 10000) (\<lambda>models.
     bindE (if_own probe ''service_id'' (\<lambda>v. resource_id_at v (js ''$.service_id'') ''invalid service ID'')) (\<lambda>serviceID.
     bindE (if_own probe ''model_protocols'' (\<lambda>v. parseModelProtocols v (js ''$.model_protocols'') 10000)) (\<lambda>protocols.
     Inr \<lparr>mb_service_id = serviceID, mb_protocol = protocol, mb_model_ids = models,
          mb_model_protocols = Option.bind protocols unless_none\<rparr>))))))"

definition parseServicePage :: "url_parser \<Rightarrow> date_parser \<Rightarrow> json \<Rightarrow> js_error + service_page" where
  "parseServicePage url date value =
     bindE (service_object value (js ''$'')) (\<lambda>page.
     bindE (service_keys page [''items'', ''next_cursor''] [] (js ''$'')) (\<lambda>_.
     bindE (orThrow (service_invalid (js ''$.items'') (js ''expected an array'')) (jarray (field page ''items''))) (\<lambda>items.
     bindE (if field page ''next_cursor'' = JNull then Inr None
            else bindE (service_text (field page ''next_cursor'') (js ''$.next_cursor'') 1 512) (\<lambda>c. Inr (Some c))) (\<lambda>nextCursor.
     bindE (mapE (\<lambda>j s. parseService url date s (at_index (js ''$.items'') j)) 0 items) (\<lambda>services.
     Inr \<lparr>sp_items = services, sp_next_cursor = nextCursor\<rparr>)))))"

definition parseServiceRecord :: "url_parser \<Rightarrow> date_parser \<Rightarrow> json \<Rightarrow> js_error + service_record_read" where
  "parseServiceRecord url date value =
     bindE (service_object value (js ''$'')) (\<lambda>record'.
     bindE (service_keys record' [''service'', ''etag''] [] (js ''$'')) (\<lambda>_.
     bindE (service_text (field record' ''etag'') (js ''$.etag'') 3 128) (\<lambda>etag.
     bindE (complain (\<not> matches etagPattern etag) (js ''$.etag'') ''invalid strong entity tag'') (\<lambda>_.
     bindE (parseService url date (field record' ''service'') (js ''$.service'')) (\<lambda>service.
     Inr \<lparr>sr_service = service, sr_etag = etag\<rparr>)))))"

end
