(* ===== verification/Service_Codecs.thy ===== *)
theory Service_Codecs
  imports Service_Parsers
begin

text \<open>
  What the parsers of providers accept, part by part, and that a provider read from the core reads
  as itself when it is sent again: each part has the law of a codec.
\<close>

section \<open>Reading and writing\<close>

lemma ipc_keys_ok [simp]:
  "keys_in o' (required @ optional) \<Longrightarrow> list_all (has_own o') required \<Longrightarrow> ipc_keys bad o' required optional path = Inr ()"
  by (simp add: ipc_keys_iff)

lemma ipc_object_JObj [simp]: "ipc_object bad (JObj o') path = Inr o'"
  by (simp add: ipc)

lemma ipc_text_JStr [simp]: "text_ok lo hi s \<Longrightarrow> ipc_text bad (JStr s) path lo hi = Inr s"
  by (simp add: ipc)

lemma ipc_timestamp_JStr [simp]: "timestamp_read date s \<Longrightarrow> ipc_timestamp bad date (JStr s) path = Inr s"
  by (simp add: ipc)

lemma ipc_integer_jint [simp]: "lo \<le> n \<Longrightarrow> n \<le> hi \<Longrightarrow> \<bar>n\<bar> \<le> max_safe \<Longrightarrow> ipc_integer bad (jint n) path lo hi = Inr n"
  by (simp add: ipc)

lemma ipc_flag_JBool [simp]: "ipc_flag bad (JBool b) path = Inr b"
  by (simp add: ipc)

lemma if_own_read:
  assumes "has_own o' k \<longleftrightarrow> x \<noteq> None" and "field o' k = opt_val f x" and "\<And>y. x = Some y \<Longrightarrow> r (f y) = Inr y"
  shows "if_own o' k r = Inr x"
  using assms by (cases x) (simp_all add: if_own_def)

lemma complain_iff [ipc]: "complain bad path message = Inr u \<longleftrightarrow> \<not> bad"
  by (simp add: complain_def res)

lemma complain_ok [simp]: "complain False path message = Inr ()"
  by (simp add: complain_def)

lemma limited_array_iff [ipc]: "limited_array v path n = Inr xs \<longleftrightarrow> v = JArr xs \<and> length xs \<le> n"
  by (auto simp: limited_array_def Let_def res)

lemma limited_array_JArr [simp]: "length xs \<le> n \<Longrightarrow> limited_array (JArr xs) path n = Inr xs"
  by (simp add: ipc)

lemma ipc_enum_members:
  "ipc_enum bad message members name v path = Inr x \<longleftrightarrow> enum_of members name v = Some x"
  by (simp add: ipc_enum_def res)

lemmas service_enums [ipc] =
  ipc_enum_members [of _ _ authSchemes auth_name, unfolded auth_enum.enum_of_Some]
  ipc_enum_members [of _ _ capability_modes mode_name, unfolded mode_enum.enum_of_Some]
  ipc_enum_members [of _ _ subscription_providers provider_name, unfolded provider_enum.enum_of_Some]
  ipc_enum_members [of _ _ subscriptionStatuses subscription_status_name, unfolded subscription_status_enum.enum_of_Some]
  ipc_enum_members [of _ _ subscription_modes subscription_mode_name, unfolded subscription_mode_enum.enum_of_Some]
  ipc_enum_members [of _ _ riskEventKinds risk_name, unfolded risk_enum.enum_of_Some]
  ipc_enum_members [of _ _ riskStates risk_name, unfolded risk_enum.enum_of_among]
  ipc_enum_members [of _ _ service_kinds service_kind_name, unfolded service_kind_enum.enum_of_Some]

section \<open>Authentication and capabilities\<close>

definition auth_ok :: "service_auth \<Rightarrow> bool" where
  "auth_ok a \<longleftrightarrow>
     (if au_scheme a = AuthCustomHeader
      then (case au_header_name a of Some h \<Rightarrow> text_ok 1 128 h \<and> matches headerNamePattern h | None \<Rightarrow> False)
      else au_header_name a = None)"

definition auth_json :: "service_auth \<Rightarrow> json" where
  "auth_json a = JObj ((js ''scheme'', js_str (auth_name (au_scheme a))) # opt_field ''header_name'' JStr (au_header_name a))"

lemma parseAuth_ok: "parseAuth v path = Inr a \<Longrightarrow> auth_ok a"
  by (auto simp: parseAuth_def res ipc auth_ok_def split: if_splits)

lemma parseAuth_json: "auth_ok a \<Longrightarrow> parseAuth (auth_json a) path = Inr a"
  by (cases a; cases "au_header_name a")
    (auto simp: parseAuth_def res ipc auth_ok_def auth_json_def split: if_splits)

interpretation auths: json_codec parseAuth auth_json auth_ok
  by unfold_locales (fact parseAuth_ok parseAuth_json)+

definition capability_ok :: "service_capability \<Rightarrow> bool" where
  "capability_ok c \<longleftrightarrow> text_ok 3 96 (cap_protocol c) \<and> matches protocol_id_rx (cap_protocol c)
     \<and> pred_option (\<lambda>p. text_ok 3 96 p \<and> matches protocol_id_rx p \<and> p \<noteq> cap_protocol c) (cap_convert_to c)"

definition capability_json :: "service_capability \<Rightarrow> json" where
  "capability_json c = JObj ([(js ''protocol'', JStr (cap_protocol c)), (js ''mode'', js_str (mode_name (cap_mode c))),
     (js ''streaming'', JBool (cap_streaming c))] @ opt_field ''convert_to'' JStr (cap_convert_to c))"

lemma parse_convert_to_ok:
  "parse_convert_to capability protocol path = Inr x \<Longrightarrow>
     pred_option (\<lambda>p. text_ok 3 96 p \<and> matches protocol_id_rx p \<and> p \<noteq> protocol) x"
  by (auto simp: parse_convert_to_def res ipc split: if_splits)

lemma parseCapability_ok: "parseCapability v path = Inr c \<Longrightarrow> capability_ok c"
  by (auto simp: parseCapability_def res ipc capability_ok_def dest: parse_convert_to_ok)

lemma parseCapability_json: "capability_ok c \<Longrightarrow> parseCapability (capability_json c) path = Inr c"
  by (cases c; cases "cap_convert_to c")
    (auto simp: parseCapability_def parse_convert_to_def res ipc capability_ok_def capability_json_def)

interpretation capability_codec: json_codec parseCapability capability_json capability_ok
  by unfold_locales (fact parseCapability_ok parseCapability_json)+

section \<open>Models\<close>

definition models_ok :: "nat \<Rightarrow> jstr list \<Rightarrow> bool" where
  "models_ok n ms \<longleftrightarrow> length ms \<le> n \<and> list_all (text_ok 1 256) ms \<and> distinct ms"

definition models_json :: "jstr list \<Rightarrow> json" where "models_json ms = JArr (map JStr ms)"

lemma parseModels_ok: "parseModels v path n = Inr ms \<Longrightarrow> models_ok n ms"
  by (auto simp: parseModels_def res ipc models_ok_def dest: mapE_length elim!: mapE_list_all)

lemma parseModels_json: "models_ok n ms \<Longrightarrow> parseModels (models_json ms) path n = Inr ms"
proof -
  assume ok: "models_ok n ms"
  have "mapE (\<lambda>i model. ipc_text service_invalid model (at_index path i) 1 256) 0 (map JStr ms) = Inr ms"
    using ok by (intro mapE_map_Inr) (simp add: models_ok_def list_all_iff)
  then show ?thesis using ok by (simp add: parseModels_def models_json_def models_ok_def)
qed

interpretation models_codec: json_codec "\<lambda>v path. parseModels v path 2000" models_json "models_ok 2000"
  by unfold_locales (fact parseModels_ok parseModels_json)+

definition protocols_ok :: "nat \<Rightarrow> model_protocol list \<Rightarrow> bool" where
  "protocols_ok n es \<longleftrightarrow> length es \<le> n \<and> one_each es \<and> list_all (\<lambda>e. text_ok 1 256 (mp_model e)) es"

definition entry_json :: "model_protocol \<Rightarrow> json" where
  "entry_json e = JObj [(js ''model'', JStr (mp_model e)), (js ''protocol'', js_str (format_name (mp_protocol e)))]"

lemma parse_entries_ok:
  "parse_entries path i seen items = Inr es \<Longrightarrow>
     length es = length items \<and> one_each es \<and> mp_model ` set es \<inter> seen = {} \<and> list_all (\<lambda>e. text_ok 1 256 (mp_model e)) es"
proof (induction items arbitrary: i seen es)
  case (Cons item items)
  then obtain model f rest where "text_ok 1 256 model" "model \<notin> seen" "es = \<lparr>mp_model = model, mp_protocol = f\<rparr> # rest"
    "parse_entries path (Suc i) (insert model seen) items = Inr rest"
    by (auto simp: Let_def res ipc)
  then show ?case using Cons.IH [of "Suc i" "insert model seen" rest] by (auto simp: one_each_def)
qed (simp add: one_each_def)

lemma parse_entries_json:
  "one_each es \<Longrightarrow> mp_model ` set es \<inter> seen = {} \<Longrightarrow> list_all (\<lambda>e. text_ok 1 256 (mp_model e)) es \<Longrightarrow>
     parse_entries path i seen (map entry_json es) = Inr es"
proof (induction es arbitrary: i seen)
  case (Cons e es)
  have "parse_entries path (Suc i) (insert (mp_model e) seen) (map entry_json es) = Inr es"
    using Cons.prems by (intro Cons.IH) (auto simp: one_each_def)
  then show ?case using Cons.prems
    by (simp add: entry_json_def [of e] model_format_of_def format_enum.enum_of_name Let_def)
qed simp

definition protocols_json :: "model_protocol list \<Rightarrow> json" where "protocols_json es = JArr (map entry_json es)"

lemma parseModelProtocols_ok: "parseModelProtocols v path n = Inr es \<Longrightarrow> protocols_ok n es"
  by (auto simp: parseModelProtocols_def res ipc protocols_ok_def dest: parse_entries_ok)

lemma parseModelProtocols_json: "protocols_ok n es \<Longrightarrow> parseModelProtocols (protocols_json es) path n = Inr es"
  by (simp add: parseModelProtocols_def protocols_json_def protocols_ok_def parse_entries_json)

interpretation protocols_codec: json_codec "\<lambda>v path. parseModelProtocols v path 2000" protocols_json "protocols_ok 2000"
  by unfold_locales (fact parseModelProtocols_ok parseModelProtocols_json)+

section \<open>Connections\<close>

definition http_ok :: "url_parser \<Rightarrow> http_connection \<Rightarrow> bool" where
  "http_ok url h \<longleftrightarrow>
     text_ok 1 2048 (hc_base_url h) \<and> (\<exists>u. url (hc_base_url h) = Some u \<and> \<not> unsafe_url u) \<and> auth_ok (hc_auth h)
     \<and> pred_option (\<lambda>r. text_ok 1 512 r \<and> matches localCredentialRefPattern r) (hc_credential_ref h)
     \<and> pred_option (text_ok 1 512) (hc_model_list_path h)
     \<and> pred_option (\<lambda>t. text_ok 2 16 t \<and> starts_with hint_mark t \<and> hc_credential_ref h \<noteq> None) (hc_credential_hint h)
     \<and> pred_option (\<lambda>v. text_ok 1 254 (vx_project_id v) \<and> text_ok 1 64 (vx_location v) \<and> validVertexConnection v
          \<and> hc_base_url h = vertexBaseURL (vx_location v) \<and> au_scheme (hc_auth h) = AuthServiceAccount
          \<and> hc_credential_hint h = None) (hc_vertex h)"

definition vertex_json :: "vertex_connection \<Rightarrow> json" where
  "vertex_json v = JObj [(js ''project_id'', JStr (vx_project_id v)), (js ''location'', JStr (vx_location v))]"

definition http_json :: "http_connection \<Rightarrow> json" where
  "http_json h = JObj ([(js ''base_url'', JStr (hc_base_url h)), (js ''auth'', auth_json (hc_auth h))]
     @ opt_field ''vertex'' vertex_json (hc_vertex h) @ opt_field ''credential_ref'' JStr (hc_credential_ref h)
     @ opt_field ''model_list_path'' JStr (hc_model_list_path h) @ opt_field ''credential_hint'' JStr (hc_credential_hint h))"

lemma vertex_eta [simp]: "\<lparr>vx_project_id = vx_project_id v, vx_location = vx_location v\<rparr> = v"
  by (cases v) simp

lemma parse_vertex_ok:
  "parse_vertex connection baseURL auth path = Inr x \<Longrightarrow>
     pred_option (\<lambda>v. text_ok 1 254 (vx_project_id v) \<and> text_ok 1 64 (vx_location v) \<and> validVertexConnection v
       \<and> baseURL = vertexBaseURL (vx_location v) \<and> au_scheme auth = AuthServiceAccount) x"
  by (auto simp: parse_vertex_def res ipc Let_def split: if_splits)

lemma parseHTTPConnection_ok: "parseHTTPConnection url v path = Inr h \<Longrightarrow> http_ok url h"
  unfolding parseHTTPConnection_def
  by (elim bindE_InrE, drule parse_vertex_ok)
    (auto simp: res ipc http_ok_def dest: parseAuth_ok elim!: option.pred_mono_strong split: if_splits)

lemma parse_vertex_json:
  assumes "has_own o' ''vertex'' \<longleftrightarrow> x \<noteq> None" and "field o' ''vertex'' = opt_val vertex_json x"
    and "pred_option (\<lambda>v. text_ok 1 254 (vx_project_id v) \<and> text_ok 1 64 (vx_location v) \<and> validVertexConnection v
       \<and> baseURL = vertexBaseURL (vx_location v) \<and> au_scheme auth = AuthServiceAccount) x"
  shows "parse_vertex o' baseURL auth path = Inr x"
  unfolding parse_vertex_def using assms
  by (intro if_own_read [where f = vertex_json]) (auto simp: vertex_json_def Let_def)

lemma http_eta [simp]:
  "\<lparr>hc_base_url = hc_base_url h, hc_auth = hc_auth h, hc_credential_ref = hc_credential_ref h,
    hc_vertex = hc_vertex h, hc_model_list_path = hc_model_list_path h, hc_credential_hint = hc_credential_hint h\<rparr> = h"
  by (cases h) simp

lemma parseHTTPConnection_json:
  assumes "http_ok url h"
  shows "parseHTTPConnection url (http_json h) path = Inr h"
proof -
  let ?o = "[(js ''base_url'', JStr (hc_base_url h)), (js ''auth'', auth_json (hc_auth h))]
     @ opt_field ''vertex'' vertex_json (hc_vertex h) @ opt_field ''credential_ref'' JStr (hc_credential_ref h)
     @ opt_field ''model_list_path'' JStr (hc_model_list_path h) @ opt_field ''credential_hint'' JStr (hc_credential_hint h)"
  obtain u where u: "url (hc_base_url h) = Some u" "\<not> unsafe_url u" using assms by (auto simp: http_ok_def)
  have "if_own ?o ''credential_ref'' (\<lambda>v.
              bindE (service_text v (at_field path ''credential_ref'') 1 512) (\<lambda>r.
              bindE (complain (\<not> matches localCredentialRefPattern r) (at_field path ''credential_ref'')
                       ''must use local://service/<id>'') (\<lambda>_. Inr r))) = Inr (hc_credential_ref h)" for path
    using assms by (intro if_own_read [where f = JStr]) (auto simp: http_ok_def)
  moreover have "if_own ?o ''model_list_path'' (\<lambda>v. service_text v (at_field path ''model_list_path'') 1 512) = Inr (hc_model_list_path h)"
    for path
    using assms by (intro if_own_read [where f = JStr]) (auto simp: http_ok_def)
  moreover have "if_own ?o ''credential_hint'' (\<lambda>v.
              bindE (service_text v (at_field path ''credential_hint'') 2 16) (\<lambda>hint.
              bindE (complain (hc_credential_ref h = None \<or> \<not> starts_with hint_mark hint) (at_field path ''credential_hint'')
                       ''must be a saved-key display hint'') (\<lambda>_. Inr hint))) = Inr (hc_credential_hint h)" for path
    using assms by (intro if_own_read [where f = JStr]) (auto simp: http_ok_def)
  moreover have "parse_vertex ?o (hc_base_url h) (hc_auth h) path = Inr (hc_vertex h)" for path
    using assms by (intro parse_vertex_json) (auto simp: http_ok_def elim!: option.pred_mono_strong)
  moreover have "complain (hc_vertex h \<noteq> None \<and> hc_credential_hint h \<noteq> None) path message = Inr ()" for path message
    using assms by (cases "hc_vertex h") (auto simp: http_ok_def)
  moreover have "text_ok 1 2048 (hc_base_url h)" "parseAuth (auth_json (hc_auth h)) path = Inr (hc_auth h)" for path
    using assms by (simp_all add: http_ok_def parseAuth_json)
  ultimately show ?thesis
    using u unfolding parseHTTPConnection_def http_json_def by simp
qed

interpretation http_codec: json_codec "parseHTTPConnection url" http_json "http_ok url" for url
  by unfold_locales (fact parseHTTPConnection_ok parseHTTPConnection_json)+

section \<open>Subscriptions\<close>

definition safe_text :: "nat \<Rightarrow> nat \<Rightarrow> jstr \<Rightarrow> bool" where
  "safe_text lo hi s \<longleftrightarrow> text_ok lo hi s \<and> \<not> leaks s"

definition error_code_ok :: "jstr \<Rightarrow> bool" where
  "error_code_ok c \<longleftrightarrow> text_ok 2 64 c \<and> matches errorCodePattern c"

definition error_ok :: "subscription_error \<Rightarrow> bool" where
  "error_ok e \<longleftrightarrow> error_code_ok (sbe_code e) \<and> safe_text 1 240 (sbe_message e)"

definition error_json :: "subscription_error \<Rightarrow> json" where
  "error_json e = JObj [(js ''code'', JStr (sbe_code e)), (js ''message'', JStr (sbe_message e))]"

lemma parseSubscriptionError_ok: "parseSubscriptionError v path = Inr e \<Longrightarrow> error_ok e"
  by (auto simp: parseSubscriptionError_def res ipc error_ok_def error_code_ok_def safe_text_def)

lemma parseSubscriptionError_json: "error_ok e \<Longrightarrow> parseSubscriptionError (error_json e) path = Inr e"
  by (auto simp: parseSubscriptionError_def error_json_def error_ok_def error_code_ok_def safe_text_def)

interpretation error_codec: json_codec parseSubscriptionError error_json error_ok
  by unfold_locales (fact parseSubscriptionError_ok parseSubscriptionError_json)+

lemma riskCodeAt_iff [ipc]: "riskCodeAt v path = Inr c \<longleftrightarrow> v = JStr c \<and> error_code_ok c"
  by (auto simp: riskCodeAt_def res ipc error_code_ok_def)

lemma riskMessageAt_iff [ipc]: "riskMessageAt v path = Inr m \<longleftrightarrow> v = JStr m \<and> safe_text 0 240 m"
  by (auto simp: riskMessageAt_def res ipc safe_text_def)

definition http_status_ok :: "int \<Rightarrow> bool" where "http_status_ok n \<longleftrightarrow> 100 \<le> n \<and> n \<le> 599"

definition risk_ok :: "date_parser \<Rightarrow> subscription_risk \<Rightarrow> bool" where
  "risk_ok date r \<longleftrightarrow> ri_state r \<in> {Suspended, Cooling} \<and> error_code_ok (ri_code r)
     \<and> timestamp_read date (ri_observed_at r) \<and> pred_option (safe_text 0 240) (ri_message r)
     \<and> pred_option http_status_ok (ri_http_status r)
     \<and> (ri_paused_until r \<noteq> None \<longleftrightarrow> ri_state r = Cooling) \<and> pred_option (timestamp_read date) (ri_paused_until r)
     \<and> pred_option (\<lambda>n. 1 \<le> n \<and> n \<le> max_safe) (ri_occurrences r)"

definition risk_json :: "subscription_risk \<Rightarrow> json" where
  "risk_json r = JObj ([(js ''state'', js_str (risk_name (ri_state r))), (js ''code'', JStr (ri_code r)),
     (js ''observed_at'', JStr (ri_observed_at r))] @ opt_field ''message'' JStr (ri_message r)
     @ opt_field ''http_status'' jint (ri_http_status r) @ opt_field ''paused_until'' JStr (ri_paused_until r)
     @ opt_field ''occurrences'' jint (ri_occurrences r))"

lemma in_riskStates: "x \<in> set riskStates \<longleftrightarrow> x \<in> {Suspended, Cooling}"
  by (simp add: riskStates_def)

lemma parse_paused_iff [ipc]:
  "parse_paused date o' state path = Inr x \<longleftrightarrow>
     (if state = Cooling then (\<exists>t. x = Some t \<and> field o' ''paused_until'' = JStr t \<and> timestamp_read date t)
      else x = None \<and> \<not> has_own o' ''paused_until'')"
  by (auto simp: parse_paused_def res ipc)

lemma parseSubscriptionRisk_ok:
  assumes "parseSubscriptionRisk date v path = Inr r"
  shows "risk_ok date r"
proof -
  obtain o' u state code observed message status paused occurrences where
    parts: "ipc_enum service_invalid ''unknown risk state'' riskStates risk_name (field o' ''state'') (at_field path ''state'') = Inr state"
      "riskCodeAt (field o' ''code'') (at_field path ''code'') = Inr code"
      "service_timestamp date (field o' ''observed_at'') (at_field path ''observed_at'') = Inr observed"
      "if_own o' ''message'' (\<lambda>v. riskMessageAt v (at_field path ''message'')) = Inr message"
      "if_own o' ''http_status'' (\<lambda>v. ipc_integer service_invalid v (at_field path ''http_status'') 100 599) = Inr status"
      "parse_paused date o' state path = Inr paused"
      "if_own o' ''occurrences'' (\<lambda>v. ipc_integer service_invalid v (at_field path ''occurrences'') 1 max_safe) = Inr occurrences"
    and r: "r = \<lparr>ri_state = state, ri_code = code, ri_message = message, ri_http_status = status, ri_observed_at = observed,
          ri_paused_until = paused, ri_occurrences = occurrences\<rparr>"
    using assms unfolding parseSubscriptionRisk_def by (elim bindE_InrE) simp
  have "state \<in> {Suspended, Cooling}" "error_code_ok code" "timestamp_read date observed"
    using parts(1-3) by (auto simp: ipc in_riskStates)
  moreover have "pred_option (safe_text 0 240) message" "pred_option http_status_ok status"
    "pred_option (\<lambda>n. 1 \<le> n \<and> n \<le> max_safe) occurrences"
    using parts(4,5,7) by (auto simp: ipc http_status_ok_def split: if_splits)
  moreover have "paused \<noteq> None \<longleftrightarrow> state = Cooling" "pred_option (timestamp_read date) paused"
    using parts(6) by (auto simp: ipc split: if_splits)
  ultimately show ?thesis by (simp add: r risk_ok_def)
qed

lemma max_safe_small [simp]: "n \<le> 599 \<Longrightarrow> n \<le> max_safe" "0 < max_safe"
  by (simp_all add: max_safe_def)

lemma parseSubscriptionRisk_json:
  assumes "risk_ok date r"
  shows "parseSubscriptionRisk date (risk_json r) path = Inr r"
proof -
  let ?o = "[(js ''state'', js_str (risk_name (ri_state r))), (js ''code'', JStr (ri_code r)),
     (js ''observed_at'', JStr (ri_observed_at r))] @ opt_field ''message'' JStr (ri_message r)
     @ opt_field ''http_status'' jint (ri_http_status r) @ opt_field ''paused_until'' JStr (ri_paused_until r)
     @ opt_field ''occurrences'' jint (ri_occurrences r)"
  have "if_own ?o ''message'' (\<lambda>v. riskMessageAt v (at_field path ''message'')) = Inr (ri_message r)" for path
    using assms by (intro if_own_read [where f = JStr]) (auto simp: risk_ok_def ipc)
  moreover have "if_own ?o ''http_status'' (\<lambda>v. ipc_integer service_invalid v (at_field path ''http_status'') 100 599) = Inr (ri_http_status r)"
    for path
    using assms by (intro if_own_read [where f = jint]) (auto simp: risk_ok_def http_status_ok_def)
  moreover have "if_own ?o ''occurrences'' (\<lambda>v. ipc_integer service_invalid v (at_field path ''occurrences'') 1 max_safe) = Inr (ri_occurrences r)"
    for path
    using assms by (intro if_own_read [where f = jint]) (auto simp: risk_ok_def)
  moreover have "parse_paused date ?o (ri_state r) path = Inr (ri_paused_until r)" for path
    using assms by (cases "ri_paused_until r") (auto simp: risk_ok_def ipc)
  moreover have "ipc_enum service_invalid ''unknown risk state'' riskStates risk_name (js_str (risk_name (ri_state r))) path = Inr (ri_state r)" for path
    using assms by (simp add: ipc risk_ok_def in_riskStates)
  moreover have "riskCodeAt (JStr (ri_code r)) path = Inr (ri_code r)" for path
    using assms by (simp add: ipc risk_ok_def)
  ultimately show ?thesis
    using assms unfolding parseSubscriptionRisk_def risk_json_def by (simp add: risk_ok_def)
qed

interpretation risk_codec: json_codec "parseSubscriptionRisk date" risk_json "risk_ok date" for date
  by unfold_locales (fact parseSubscriptionRisk_ok parseSubscriptionRisk_json)+

definition credential_ref_ok :: "jstr \<Rightarrow> bool" where
  "credential_ref_ok r \<longleftrightarrow> text_ok 1 512 r
     \<and> (matches subscriptionCredentialRefPattern r \<or> matches keyringCredentialRefPattern r)"

definition connection_ok :: "date_parser \<Rightarrow> subscription_connection \<Rightarrow> bool" where
  "connection_ok date s \<longleftrightarrow>
     pred_option (safe_text 1 128) (sbc_account_hint s) \<and> pred_option (safe_text 1 256) (sbc_provider_account_id s)
     \<and> pred_option (safe_text 1 240) (sbc_authorization_boundary s) \<and> pred_option credential_ref_ok (sbc_credential_ref s)
     \<and> pred_option (timestamp_read date) (sbc_token_expires_at s) \<and> pred_option (timestamp_read date) (sbc_last_refresh_at s)
     \<and> pred_option error_ok (sbc_last_error s) \<and> pred_option (risk_ok date) (sbc_risk s)"

definition connection_fields :: "subscription_connection \<Rightarrow> jobj" where
  "connection_fields s =
     [(js ''provider'', js_str (provider_name (sbc_provider s))), (js ''status'', js_str (subscription_status_name (sbc_status s)))]
     @ opt_field ''mode'' (\<lambda>m. js_str (subscription_mode_name m)) (sbc_mode s)
     @ opt_field ''account_hint'' JStr (sbc_account_hint s) @ opt_field ''provider_account_id'' JStr (sbc_provider_account_id s)
     @ opt_field ''authorization_boundary'' JStr (sbc_authorization_boundary s)
     @ opt_field ''credential_ref'' JStr (sbc_credential_ref s) @ opt_field ''token_expires_at'' JStr (sbc_token_expires_at s)
     @ opt_field ''last_refresh_at'' JStr (sbc_last_refresh_at s) @ opt_field ''last_error'' error_json (sbc_last_error s)
     @ opt_field ''risk'' risk_json (sbc_risk s)"

lemma parse_hint_ok: "parse_hint o' k n path = Inr x \<Longrightarrow> pred_option (safe_text 1 n) x"
  by (auto simp: parse_hint_def res ipc safe_text_def split: if_splits)

lemma parse_hint_read:
  "has_own o' k \<longleftrightarrow> x \<noteq> None \<Longrightarrow> field o' k = opt_val JStr x \<Longrightarrow> pred_option (safe_text 1 n) x \<Longrightarrow> parse_hint o' k n path = Inr x"
  unfolding parse_hint_def by (intro if_own_read [where f = JStr]) (auto simp: safe_text_def)

definition read_ref :: "jobj \<Rightarrow> jstr \<Rightarrow> js_error + jstr option" where
  "read_ref o' path = if_own o' ''credential_ref'' (\<lambda>v.
      bindE (service_text v (at_field path ''credential_ref'') 1 512) (\<lambda>r.
      bindE (complain (\<not> matches subscriptionCredentialRefPattern r \<and> \<not> matches keyringCredentialRefPattern r)
               (at_field path ''credential_ref'') ''must use local://subscription/<id> or keyring://'') (\<lambda>_. Inr r)))"

lemma read_ref_ok: "read_ref o' path = Inr x \<Longrightarrow> pred_option credential_ref_ok x"
  by (auto simp: read_ref_def res ipc credential_ref_ok_def split: if_splits)

lemma own_timestamp_ok: "if_own o' k (\<lambda>v. service_timestamp date v path) = Inr x \<Longrightarrow> pred_option (timestamp_read date) x"
  by (auto simp: ipc split: if_splits)

lemma own_error_ok: "if_own o' k (\<lambda>v. parseSubscriptionError v path) = Inr x \<Longrightarrow> pred_option error_ok x"
  by (auto simp: ipc dest: parseSubscriptionError_ok split: if_splits)

lemma own_risk_ok: "if_own o' k (\<lambda>v. parseSubscriptionRisk date v path) = Inr x \<Longrightarrow> pred_option (risk_ok date) x"
  by (auto simp: ipc dest: parseSubscriptionRisk_ok split: if_splits)

lemma parseSubscriptionConnection_ok: "parseSubscriptionConnection date v path = Inr s \<Longrightarrow> connection_ok date s"
  unfolding parseSubscriptionConnection_def read_ref_def [symmetric]
  by (elim bindE_InrE, (drule parse_hint_ok)+, drule read_ref_ok, (drule own_timestamp_ok)+, drule own_error_ok,
      drule own_risk_ok, drule sum.inject(2) [THEN iffD1], drule sym) (simp add: connection_ok_def)

lemma connection_eta [simp]:
  "\<lparr>sbc_provider = sbc_provider s, sbc_status = sbc_status s, sbc_account_hint = sbc_account_hint s,
    sbc_provider_account_id = sbc_provider_account_id s, sbc_mode = sbc_mode s, sbc_credential_ref = sbc_credential_ref s,
    sbc_authorization_boundary = sbc_authorization_boundary s, sbc_token_expires_at = sbc_token_expires_at s,
    sbc_last_refresh_at = sbc_last_refresh_at s, sbc_last_error = sbc_last_error s, sbc_risk = sbc_risk s\<rparr> = s"
  by (cases s) simp

lemma parseSubscriptionConnection_json:
  assumes "connection_ok date s"
  shows "parseSubscriptionConnection date (JObj (connection_fields s)) path = Inr s"
proof -
  let ?o = "connection_fields s"
  have provider: "ipc_enum service_invalid m subscription_providers provider_name (field ?o ''provider'') p = Inr (sbc_provider s)"
    and status: "ipc_enum service_invalid m subscriptionStatuses subscription_status_name (field ?o ''status'') p = Inr (sbc_status s)"
    for m p
    by (simp_all add: connection_fields_def ipc)
  have keys: "ipc_keys service_invalid ?o [''provider'', ''status'']
      [''account_hint'', ''provider_account_id'', ''mode'', ''credential_ref'', ''authorization_boundary'',
       ''token_expires_at'', ''last_refresh_at'', ''last_error'', ''risk''] path = Inr ()"
    by (simp add: connection_fields_def)
  have mode: "if_own ?o ''mode'' (\<lambda>v. ipc_enum service_invalid m subscription_modes subscription_mode_name v p) = Inr (sbc_mode s)" for m p
    by (rule if_own_read [where f = "\<lambda>m. js_str (subscription_mode_name m)"]) (auto simp: connection_fields_def ipc)
  have hints: "parse_hint ?o ''account_hint'' 128 path = Inr (sbc_account_hint s)"
    "parse_hint ?o ''provider_account_id'' 256 path = Inr (sbc_provider_account_id s)"
    "parse_hint ?o ''authorization_boundary'' 240 path = Inr (sbc_authorization_boundary s)"
    using assms by (intro parse_hint_read; simp add: connection_ok_def connection_fields_def)+
  have ref: "read_ref ?o path = Inr (sbc_credential_ref s)"
    unfolding read_ref_def using assms
    by (intro if_own_read [where f = JStr]) (auto simp: connection_ok_def connection_fields_def credential_ref_ok_def)
  have times: "if_own ?o ''token_expires_at'' (\<lambda>v. service_timestamp date v p) = Inr (sbc_token_expires_at s)"
    "if_own ?o ''last_refresh_at'' (\<lambda>v. service_timestamp date v p) = Inr (sbc_last_refresh_at s)" for p
    using assms by (intro if_own_read [where f = JStr]; auto simp: connection_ok_def connection_fields_def)+
  have lastError: "if_own ?o ''last_error'' (\<lambda>v. parseSubscriptionError v p) = Inr (sbc_last_error s)" for p
    using assms by (intro if_own_read [where f = error_json])
      (auto simp: connection_ok_def connection_fields_def parseSubscriptionError_json)
  have risk: "if_own ?o ''risk'' (\<lambda>v. parseSubscriptionRisk date v p) = Inr (sbc_risk s)" for p
    using assms by (intro if_own_read [where f = risk_json])
      (auto simp: connection_ok_def connection_fields_def parseSubscriptionRisk_json)
  show ?thesis
    unfolding parseSubscriptionConnection_def read_ref_def [symmetric]
    by (simp add: provider status keys mode hints ref times lastError risk del: ipc_keys_ok)
qed

definition connection_json :: "subscription_connection \<Rightarrow> json" where
  "connection_json s = JObj (connection_fields s)"

interpretation connection_codec: json_codec "parseSubscriptionConnection date" connection_json "connection_ok date" for date
  unfolding connection_json_def by unfold_locales (fact parseSubscriptionConnection_ok parseSubscriptionConnection_json)+

end
