(* ===== verification/Service_Records.thy ===== *)
theory Service_Records
  imports Service_Codecs Privacy_Models
begin

text \<open>
  A whole provider of \<open>service-model.ts\<close>: what a record accepted by \<open>parseService\<close> meets, and that the
  object the core sends for such a record reads as the record.
\<close>

section \<open>Providers\<close>

definition vertex_tables_ok :: "auth_scheme \<Rightarrow> model_protocol list \<Rightarrow> service_capability list \<Rightarrow> bool" where
  "vertex_tables_ok auth es cs \<longleftrightarrow>
     list_all (\<lambda>e. mp_protocol e \<in> set (serviceModelFormats VertexKind (Some auth))) es \<and> \<not> list_ex (unfit_vertex_entry auth) cs"

definition items_of :: "'a list option \<Rightarrow> 'a list" where "items_of x = (case x of Some xs \<Rightarrow> xs | None \<Rightarrow> [])"

text \<open>The one connection a provider has, by its kind.\<close>

definition connected_ok :: "url_parser \<Rightarrow> date_parser \<Rightarrow> service_record \<Rightarrow> bool" where
  "connected_ok url date s \<longleftrightarrow>
     (if isSubscriptionKind (sv_kind s)
      then sv_http s = None \<and> (case sv_subscription s of
          Some c \<Rightarrow> connection_ok date c \<and> Some (sbc_provider c) = subscriptionKindProviders (sv_kind s) | None \<Rightarrow> False)
      else sv_subscription s = None \<and> (case sv_http s of
          Some h \<Rightarrow> http_ok url h
            \<and> (if sv_kind s = VertexKind
               then au_scheme (hc_auth h) \<in> {AuthServiceAccount, AuthGoogleKey}
                 \<and> vertex_tables_ok (au_scheme (hc_auth h)) (items_of (sv_model_protocols s)) (sv_capabilities s)
               else hc_vertex h = None \<and> au_scheme (hc_auth h) \<noteq> AuthServiceAccount)
        | None \<Rightarrow> False))"

definition service_ok :: "url_parser \<Rightarrow> date_parser \<Rightarrow> service_record \<Rightarrow> bool" where
  "service_ok url date s \<longleftrightarrow>
     text_ok 3 96 (sv_id s) \<and> matches resource_id_rx (sv_id s) \<and> text_ok 1 128 (sv_name s)
     \<and> sv_privacy_trusted s \<in> {None, Some True}
     \<and> pred_option (\<lambda>rs. rs \<noteq> [] \<and> redirects_ok rs) (sv_model_redirects s)
     \<and> pred_option (\<lambda>es. es \<noteq> [] \<and> protocols_ok 2000 es) (sv_model_protocols s)
     \<and> models_ok 2000 (sv_models s) \<and> list_all capability_ok (sv_capabilities s)
     \<and> timestamp_read date (sv_created_at s) \<and> timestamp_read date (sv_updated_at s)
     \<and> the (date (sv_created_at s)) \<le> the (date (sv_updated_at s))
     \<and> pred_option (proxy_ok url (sv_id s)) (sv_proxy s) \<and> pred_option failure_policy_ok (sv_failure_policy s)
     \<and> connected_ok url date s"

definition service_fields :: "service_record \<Rightarrow> jobj" where
  "service_fields s =
     [(js ''id'', JStr (sv_id s)), (js ''name'', JStr (sv_name s)), (js ''kind'', js_str (service_kind_name (sv_kind s))),
      (js ''enabled'', JBool (sv_enabled s)), (js ''models'', models_json (sv_models s)),
      (js ''capabilities'', JArr (map capability_json (sv_capabilities s))), (js ''created_at'', JStr (sv_created_at s)),
      (js ''updated_at'', JStr (sv_updated_at s))]
     @ opt_field ''http'' http_json (sv_http s) @ opt_field ''subscription'' connection_json (sv_subscription s)
     @ opt_field ''failure_policy'' failure_policy_json (sv_failure_policy s)
     @ opt_field ''responses_websocket_enabled'' JBool (sv_responses_websocket s)
     @ opt_field ''privacy_trusted'' JBool (sv_privacy_trusted s)
     @ opt_field ''model_redirects'' redirects_json (sv_model_redirects s)
     @ opt_field ''model_protocols'' protocols_json (sv_model_protocols s) @ opt_field ''proxy'' proxy_json (sv_proxy s)"

lemma resource_id_at_iff [ipc]:
  "resource_id_at v path m = Inr i \<longleftrightarrow> v = JStr i \<and> text_ok 3 96 i \<and> matches resource_id_rx i"
  by (auto simp: resource_id_at_def res ipc)

lemma parse_redirects_ok: "parse_redirects o' path = Inr rs \<Longrightarrow> redirects_ok rs"
  by (auto simp: parse_redirects_def dest: parseModelRedirects_ok split: sum.splits)

lemma check_vertex_ok:
  "check_vertex url o' es cs path = Inr u \<longleftrightarrow>
     (\<exists>h. parseHTTPConnection url (field o' ''http'') (at_field path ''http'') = Inr h
       \<and> vertex_tables_ok (au_scheme (hc_auth h)) es cs)"
  by (auto simp: check_vertex_def res ipc Let_def vertex_tables_ok_def list_ex_iff list_all_iff)

lemma parse_subscription_of_ok:
  "parse_subscription_of date o' kind path = Inr c \<Longrightarrow> connection_ok date c \<and> Some (sbc_provider c) = subscriptionKindProviders kind"
  by (auto simp: parse_subscription_of_def res ipc dest: parseSubscriptionConnection_ok)

lemma parse_http_of_ok:
  "parse_http_of url o' kind path = Inr h \<Longrightarrow>
     parseHTTPConnection url (field o' ''http'') (at_field path ''http'') = Inr h \<and> http_ok url h
     \<and> (if kind = VertexKind then au_scheme (hc_auth h) \<in> {AuthServiceAccount, AuthGoogleKey}
        else hc_vertex h = None \<and> au_scheme (hc_auth h) \<noteq> AuthServiceAccount)"
  by (auto simp: parse_http_of_def res ipc dest: parseHTTPConnection_ok)

lemma own_protocols_ok:
  "(if has_own o' k then parseModelProtocols v path 2000 else Inr []) = Inr es \<Longrightarrow> protocols_ok 2000 es"
  by (auto simp: protocols_ok_def one_each_def dest: parseModelProtocols_ok split: if_splits)

lemma parse_capabilities_ok:
  "mapE (\<lambda>j c. parseCapability c (at_index path j)) 0 items = Inr cs \<Longrightarrow> list_all capability_ok cs"
  by (elim mapE_list_all) (rule parseCapability_ok)

lemma parse_proxy_ok: "parse_proxy url o' i = Inr p \<Longrightarrow> pred_option (proxy_ok url i) p"
  by (auto simp: parse_proxy_def res dest: parseServiceProxy_ok split: if_splits)

lemma own_policy_ok: "if_own o' k (\<lambda>v. parseFailurePolicy v path) = Inr p \<Longrightarrow> pred_option failure_policy_ok p"
  by (auto simp: ipc dest: parseFailurePolicy_ok split: if_splits)

lemma items_of_unless_none [simp]: "items_of (unless_none xs) = xs"
  by (simp add: items_of_def unless_none_def)

lemma pred_unless_none: "pred_option P (unless_none xs) \<longleftrightarrow> xs = [] \<or> P xs"
  by (simp add: unless_none_def)

lemma connection_connected:
  assumes "parse_connection url date o' kind path = Inr c"
    and "(if kind = VertexKind then check_vertex url o' es cs path else Inr ()) = Inr u"
    and "sv_kind s = kind" "sv_http s = fst c" "sv_subscription s = snd c" "items_of (sv_model_protocols s) = es" "sv_capabilities s = cs"
  shows "connected_ok url date s"
proof (cases "isSubscriptionKind kind")
  case True
  then show ?thesis using assms by (auto simp: parse_connection_def res connected_ok_def dest: parse_subscription_of_ok)
next
  case False
  then obtain h where h: "parse_http_of url o' kind path = Inr h" "c = (Some h, None)"
    using assms(1) by (auto simp: parse_connection_def res)
  have "vertex_tables_ok (au_scheme (hc_auth h)) es cs" if "kind = VertexKind"
    using that assms(2) parse_http_of_ok [OF h(1)] by (auto simp: check_vertex_ok)
  then show ?thesis using False assms(3-) h parse_http_of_ok [OF h(1)] by (auto simp: connected_ok_def)
qed

lemma parseService_ok: "parseService url date v path = Inr s \<Longrightarrow> service_ok url date s"
  unfolding parseService_def
  apply (elim bindE_InrE, drule parse_redirects_ok, drule own_protocols_ok, drule parseModels_ok, drule parse_capabilities_ok,
      drule parse_proxy_ok, drule own_policy_ok, drule sum.inject(2) [THEN iffD1])
  subgoal for o' u i name kind enabled websocket trusted redirects protocols models items capabilities u' created updated u'' connection proxy policy
    using connection_connected [of url date o' kind path connection protocols capabilities u' s]
    by hypsubst_thin (simp add: service_ok_def ipc pred_unless_none not_less)
  done

definition service_json :: "service_record \<Rightarrow> json" where "service_json s = JObj (service_fields s)"

lemma unless_none_items_of: "pred_option (\<lambda>xs. xs \<noteq> [] \<and> P xs) x \<Longrightarrow> unless_none (items_of x) = x"
  by (cases x) (simp_all add: items_of_def unless_none_def)

lemma parse_redirects_json:
  "field o' ''model_redirects'' = opt_val redirects_json rs \<Longrightarrow> pred_option redirects_ok rs \<Longrightarrow> parse_redirects o' path = Inr (items_of rs)"
  by (cases rs) (simp_all add: parse_redirects_def parseModelRedirects_json items_of_def parseModelRedirects_def [of JUndef])

lemma own_protocols_json:
  "has_own o' k \<longleftrightarrow> es \<noteq> None \<Longrightarrow> field o' k = opt_val protocols_json es \<Longrightarrow> pred_option (protocols_ok n) es \<Longrightarrow>
    (if has_own o' k then parseModelProtocols (field o' k) path n else Inr []) = Inr (items_of es)"
  by (cases es) (simp_all add: parseModelProtocols_json items_of_def)

lemma proxy_json_there [simp]: "proxy_json p \<noteq> JUndef"
  by (simp add: proxy_json_def)

lemma parse_proxy_json:
  "field o' ''proxy'' = opt_val proxy_json p \<Longrightarrow> pred_option (proxy_ok url i) p \<Longrightarrow> parse_proxy url o' i = Inr p"
  by (cases p) (simp_all add: parse_proxy_def parseServiceProxy_json)

lemma parse_connection_json:
  assumes "connected_ok url date s" and "sv_kind s = kind"
    and "has_own o' ''http'' \<longleftrightarrow> sv_http s \<noteq> None" "field o' ''http'' = opt_val http_json (sv_http s)"
    and "has_own o' ''subscription'' \<longleftrightarrow> sv_subscription s \<noteq> None"
    and "field o' ''subscription'' = opt_val connection_json (sv_subscription s)"
  shows "parse_connection url date o' kind path = Inr (sv_http s, sv_subscription s)
    \<and> (if kind = VertexKind then check_vertex url o' (items_of (sv_model_protocols s)) (sv_capabilities s) path else Inr ()) = Inr ()"
proof (cases "isSubscriptionKind kind")
  case True
  then obtain c where "sv_http s = None" "sv_subscription s = Some c" "connection_ok date c"
    "Some (sbc_provider c) = subscriptionKindProviders kind"
    using assms(1,2) by (auto simp: connected_ok_def split: option.splits)
  then show ?thesis using True assms(3-6) connection_codec.parse_render [of date c "at_field path ''subscription''"]
    by (auto simp: parse_connection_def parse_subscription_of_def isSubscriptionKind_def)
next
  case False
  then obtain h where h: "sv_http s = Some h" "sv_subscription s = None" "http_ok url h"
    and own: "if kind = VertexKind
       then au_scheme (hc_auth h) \<in> {AuthServiceAccount, AuthGoogleKey}
         \<and> vertex_tables_ok (au_scheme (hc_auth h)) (items_of (sv_model_protocols s)) (sv_capabilities s)
       else hc_vertex h = None \<and> au_scheme (hc_auth h) \<noteq> AuthServiceAccount"
    using assms(1,2) by (auto simp: connected_ok_def split: option.splits if_splits)
  have read: "parseHTTPConnection url (field o' ''http'') p = Inr h" for p
    using h assms(4) by (simp add: parseHTTPConnection_json)
  have "parse_http_of url o' kind path = Inr h" using h own assms(3,5)
    by (auto simp: parse_http_of_def read res complain_iff split: if_splits)
  moreover have "check_vertex url o' (items_of (sv_model_protocols s)) (sv_capabilities s) path = Inr ()" if "kind = VertexKind"
    using that own by (simp add: check_vertex_ok read)
  ultimately show ?thesis using False h by (simp add: parse_connection_def)
qed

lemma service_eta [simp]:
  "\<lparr>sv_proxy = sv_proxy s, sv_responses_websocket = sv_responses_websocket s, sv_privacy_trusted = sv_privacy_trusted s,
    sv_model_redirects = sv_model_redirects s, sv_model_protocols = sv_model_protocols s,
    sv_failure_policy = sv_failure_policy s, sv_id = sv_id s, sv_name = sv_name s, sv_kind = sv_kind s,
    sv_enabled = sv_enabled s, sv_models = sv_models s, sv_capabilities = sv_capabilities s, sv_http = sv_http s,
    sv_subscription = sv_subscription s, sv_created_at = sv_created_at s, sv_updated_at = sv_updated_at s\<rparr> = s"
  by (cases s) simp

lemma trusted_only: "t \<in> {None, Some True} \<Longrightarrow> (if t = Some True then Some True else None) = t"
  by auto

lemma parseService_json:
  assumes ok: "service_ok url date s"
  shows "parseService url date (service_json s) path = Inr s"
proof -
  let ?o = "service_fields s"
  note parts = ok [unfolded service_ok_def]
  have keys: "ipc_keys service_invalid ?o
      [''id'', ''name'', ''kind'', ''enabled'', ''models'', ''capabilities'', ''created_at'', ''updated_at'']
      [''http'', ''subscription'', ''failure_policy'', ''responses_websocket_enabled'', ''privacy_trusted'',
       ''model_redirects'', ''model_protocols'', ''proxy''] path = Inr ()"
    by (simp add: service_fields_def)
  have singles: "resource_id_at (field ?o ''id'') p m = Inr (sv_id s)"
    "service_text (field ?o ''name'') p 1 128 = Inr (sv_name s)"
    "ipc_enum service_invalid m service_kinds service_kind_name (field ?o ''kind'') p = Inr (sv_kind s)"
    "ipc_flag service_invalid (field ?o ''enabled'') p = Inr (sv_enabled s)"
    "parseModels (field ?o ''models'') p 2000 = Inr (sv_models s)"
    "service_timestamp date (field ?o ''created_at'') p = Inr (sv_created_at s)"
    "service_timestamp date (field ?o ''updated_at'') p = Inr (sv_updated_at s)"
    "field ?o ''capabilities'' = JArr (map capability_json (sv_capabilities s))" for p m
    using parts by (simp_all add: service_fields_def ipc parseModels_json)
  have flags: "own_flag ?o ''responses_websocket_enabled'' path = Inr (sv_responses_websocket s)"
    "own_flag ?o ''privacy_trusted'' path = Inr (sv_privacy_trusted s)"
    unfolding own_flag_def by (rule if_own_read [where f = JBool]; simp add: service_fields_def)+
  have tables: "parse_redirects ?o path = Inr (items_of (sv_model_redirects s))"
    "(if has_own ?o ''model_protocols'' then parseModelProtocols (field ?o ''model_protocols'') p 2000 else Inr [])
      = Inr (items_of (sv_model_protocols s))" for p
    using parts by (intro parse_redirects_json own_protocols_json; auto simp: service_fields_def pred_option_def)+
  have proxy: "parse_proxy url ?o (sv_id s) = Inr (sv_proxy s)"
    using parts by (intro parse_proxy_json) (simp_all add: service_fields_def)
  have policy: "if_own ?o ''failure_policy'' (\<lambda>v. parseFailurePolicy v p) = Inr (sv_failure_policy s)" for p
    using parts by (intro if_own_read [where f = failure_policy_json]) (auto simp: service_fields_def parseFailurePolicy_json)
  have connection: "parse_connection url date ?o (sv_kind s) path = Inr (sv_http s, sv_subscription s)"
    "(if sv_kind s = VertexKind then check_vertex url ?o (items_of (sv_model_protocols s)) (sv_capabilities s) path else Inr ())
      = Inr ()"
    using parse_connection_json [of url date s "sv_kind s" ?o path] parts by (simp_all add: service_fields_def)
  have restored: "unless_none (items_of (sv_model_redirects s)) = sv_model_redirects s"
    "unless_none (items_of (sv_model_protocols s)) = sv_model_protocols s"
    "(if sv_privacy_trusted s = Some True then Some True else None) = sv_privacy_trusted s"
    using parts by (auto intro: unless_none_items_of trusted_only)
  have caps: "mapE (\<lambda>j c. parseCapability c (at_index p j)) 0 (map capability_json (sv_capabilities s)) = Inr (sv_capabilities s)" for p
    using parts by (intro capability_codec.parse_array_render) simp
  have order: "complain (the (date (sv_updated_at s)) < the (date (sv_created_at s))) p m = Inr ()" for p m
    using parts by (simp add: complain_iff not_less)
  have read_array: "orThrow e (jarray (JArr vs)) = Inr vs" for e :: js_error and vs
    by (simp add: orThrow_def jarray_def)
  show ?thesis
    unfolding parseService_def service_json_def
    by (simp only: ipc_object_JObj bindE_simps keys singles flags tables proxy policy connection restored caps order
        read_array fst_conv snd_conv service_eta)
qed

interpretation service_codec: json_codec "parseService url date" service_json "service_ok url date" for url date
  by unfold_locales (fact parseService_ok parseService_json)+

section \<open>Read again\<close>

text \<open>
  C18: a provider the interface accepts is sound and reads back as itself: its names, tables and times
  keep their bounds; it has the one connection its kind calls for, a subscription of the provider of its
  kind or an HTTP connection; a Vertex provider has a service account or a Google key and pins models only to
  the upstream formats that Vertex takes with it, and no other provider is set up for Vertex; and the object
  a core sends for it is read as the very same record wherever it stands in a reply.
\<close>

theorem service_rereads:
  assumes "parseService url date v path = Inr s"
  shows "service_ok url date s \<and> parseService url date (service_json s) path' = Inr s"
  using service_codec.parse_valid [OF assms] service_codec.reparse [OF assms] by blast

definition sample_service :: service_record where
  "sample_service =
     \<lparr>sv_proxy = None, sv_responses_websocket = None, sv_privacy_trusted = Some True, sv_model_redirects = None,
      sv_model_protocols = None, sv_failure_policy = None, sv_id = js ''claude'', sv_name = js ''C'',
      sv_kind = ClaudeSubscription, sv_enabled = True, sv_models = [], sv_capabilities = [], sv_http = None,
      sv_subscription = Some \<lparr>sbc_provider = ClaudeCode, sbc_status = Connected, sbc_account_hint = None,
        sbc_provider_account_id = None, sbc_mode = Some OfficialMode, sbc_credential_ref = None,
        sbc_authorization_boundary = None, sbc_token_expires_at = None, sbc_last_refresh_at = None,
        sbc_last_error = None, sbc_risk = None\<rparr>,
      sv_created_at = js ''2024-02-29T12:00:00Z'', sv_updated_at = js ''2024-02-29T12:00:00Z''\<rparr>"

lemma sample_time: "timestamp_read (\<lambda>_. Some 0) (js ''2024-02-29T12:00:00Z'')"
proof -
  have "code_points (stamp 2024 2 29 12 0 0) = stamp 2024 2 29 12 0 0"
    by (intro code_points_bmp) (auto simp: stamp_def high_surrogate_def pad2_def pad4_def)
  then have "text_ok 20 64 (stamp 2024 2 29 12 0 0)" by (simp add: text_ok_def stamp_parts)
  then show ?thesis by (simp add: timestamp_read_def sample_stamp matches_stamp)
qed

lemma sample_names: "text_ok 3 96 (js ''claude'')" "text_ok (Suc 0) 128 (js ''C'')" "matches resource_id_rx (js ''claude'')"
  by (simp_all add: text_ok_def js_def resource_id_rx_def matches_left union_cls_def is_lower_def)

lemma sample_service_ok: "service_ok (\<lambda>_. None) (\<lambda>_. Some 0) sample_service"
  by (simp add: service_ok_def sample_service_def sample_time sample_names connected_ok_def isSubscriptionKind_def
      connection_ok_def models_ok_def)

theorem service_rereads_witness:
  "parseService (\<lambda>_. None) (\<lambda>_. Some 0) (service_json sample_service) (js ''$.items[0]'') = Inr sample_service"
  using service_rereads [OF parseService_json [OF sample_service_ok]] by blast

end
