(* ===== verification/Spec2Isabelle.thy ===== *)
theory Spec2Isabelle
  imports Failure_Policy Builtin_Tools Privacy_Dry_Run Privacy_Models Request_Gate Line_Diff
    Activity Series_Colors Star_Trail Session_Context Json_Cut Json_Tree_View Sse_Events Response_Preview
    Trajectory_Timeline Trajectory_Scroll Core_Status Privacy_Replacements
    Conversation_Turns Sync_Settings Memory_View Trajectory_Flow
    Service_Records
begin

text \<open>
  A model of the decision logic of AstrLink's desktop interface, the TypeScript models under
  \<open>src/apps/desktop/src\<close>. AstrLink is a local gateway between AI clients and model
  providers. The gateway itself is a Go process; the interface, written in TypeScript, reads
  what the gateway sends over IPC, refuses what does not fit its contract, keeps live lists of
  requests and conversations, explains captured contents and sends settings back. The models
  hold that logic apart from the React components that draw it.

  What a reply passes through: a reader turns the \<open>unknown\<close> value of \<open>JSON.parse\<close> into a record
  of the model or refuses it (\<open>Record_Parsers\<close>, \<open>Core_Status\<close>, the settings theories). The
  records feed the live lists and the board (\<open>Live_Merge\<close>, \<open>Activity\<close>), where a
  \<open>Request_Gate\<close> drops late answers. Opening a conversation builds rows from its calls
  (\<open>Trajectory_Rows\<close>), laid out as a time line, as cards or as a flow, and reads the captured
  bodies: as a tree, as events, as a response, as the turns of a conversation.

  Foundations.

  \<^item> \<open>Prelude\<close>: strings as lists of UTF-16 units with their code points and UTF-8 length,
    exceptions as the left of a sum, the loops \<open>map\<close> and \<open>for\<close> over bodies that throw, and
    \<open>Array.prototype.sort\<close> with the locale \<open>comparator\<close>, the contract under which the order
    of its result is determined.
  \<^item> \<open>Patterns\<close>: regular expressions as the code writes them, a matcher that computes and its
    language. \<open>Pattern_Search\<close>: \<open>matchAll\<close> and \<open>exec\<close>, the rests of a match in backtracking
    order, word boundaries and case folding.
  \<^item> \<open>Json_Values\<close>: the values \<open>JSON.parse\<close> yields, own keys of objects, safe integers, and
    the locale \<open>string_enum\<close> for unions of string literals, interpreted for every union.
    \<open>Js_Numbers\<close>: \<open>Number(text)\<close> and subtraction with \<open>NaN\<close> and infinities. \<open>Json_Text\<close>:
    \<open>String(value)\<close> and \<open>JSON.stringify\<close>.

  Settings.

  \<^item> \<open>Failure_Policy\<close> (\<open>failure-policy-model.ts\<close>): routing settings, failure policies, model
    redirects, reasoning levels, client identities and their version floors. Its parsers
    accept exactly the settings in their invariant, the redirect table never chains, a chosen
    level stays inside its adaptive range, policies survive a round trip.
  \<^item> \<open>Builtin_Tools\<close> (\<open>builtin-tools-model.ts\<close>): the tools the gateway offers and when an
    enabled one is complete.
  \<^item> \<open>Privacy_Readers\<close>, \<open>Privacy_Policy\<close>, \<open>Privacy_Dry_Run\<close>, \<open>Privacy_Models\<close>
    (\<open>privacy-policy-model.ts\<close>): the readers with their paths and messages, the policy and its
    patches, dry runs, and the catalog, probes and installations of detection models. A patch
    the validator passes keeps a policy valid; an installation's phase, error, date and bytes
    agree; release versions order as their numbers do; timestamps are days of the calendar.
  \<^item> \<open>Sync_Schedule\<close>, \<open>Sync_Settings\<close> (\<open>sync-model.ts\<close>, the edits of
    \<open>SyncSettings.tsx\<close>, and of the core \<open>contract/sync.go\<close>, \<open>controlapi/sync.go\<close>,
    \<open>Engine.Configure\<close> of \<open>sync/engine.go\<close> and the reader of \<open>sync/schedule/schedule.go\<close>): the
    configuration as the interface reads it, fills it in, edits it and sends it, as the core checks
    it, keeps its secrets, stores it and answers. What a save of the form as it opens changes; what
    the check of the interface lets through and the core refuses, cron expressions included; an
    interval the core stores and the interface cannot read back. Cron fields are filled in 64-bit
    words, where one step wraps around and the call panics; the termination proof bounds the
    counter by the distance to 2^63.
  \<^item> \<open>Core_Status\<close> (\<open>core-model.ts\<close>, the listen scopes of \<open>preferences-model.ts\<close>): phases, the
    ready announcement, versions, capabilities, network addresses, and the snapshot with its cross
    checks: what is accepted agrees with its phase.
  \<^item> \<open>Ipc_Readers\<close>, \<open>Service_Kinds\<close>, \<open>Service_Tables\<close>, \<open>Service_Proxy\<close>,
    \<open>Service_Parsers\<close>, \<open>Service_Codecs\<close>, \<open>Service_Records\<close> (\<open>service-model.ts\<close>,
    \<open>service-proxy-model.ts\<close>): providers with their kinds and formats, the editing of redirect and
    format tables, Vertex addresses, proxies, and the parsers with a codec for each part. A
    provider reads back as itself; tables keep their invariants; a fetched list never overrides
    a choice.

  Requests and conversations.

  \<^item> \<open>Request_Data\<close>: the records of \<open>request-record-model.ts\<close>, maps in insertion order and the
    newest-first comparator. \<open>Record_Readers\<close>, \<open>Record_Parsers\<close>: its parsers, from single fields
    to pages and the live board: bounds of what is accepted, tolerated labels, pages read
    back from what a core sends. \<open>Audit_Content\<close>: captured bodies; a withheld one shows
    nothing. \<open>Memory_View\<close> (also \<open>request-memory-model.ts\<close>): memories, their search and days.
  \<^item> \<open>Live_Merge\<close> (\<open>session-live-model.ts\<close>, \<open>request-live-model.ts\<close>): filters, the merge of a
    polled page, reuse of unchanged entries, order and groups by day. \<open>Activity\<close>
    (\<open>request-activity-model.ts\<close>): the board, which samples the conversations in progress, and
    the nesting of subagents. \<open>Request_Gate\<close> (\<open>request-gate.ts\<close>): the counter that lets only the
    newest answer through, as operations and as a step relation with traces.
  \<^item> \<open>Session_Context\<close> (\<open>request-context-model.ts\<close>): what each call carried in its context and
    what changed since the calls before.
  \<^item> \<open>Trajectory_Rows\<close>, \<open>Trajectory_Timeline\<close>, \<open>Trajectory_Scroll\<close>
    (\<open>request-trajectory-model.ts\<close>): events and rows of a call, the folded list and its find, the
    time line with its moving clock, the scrolling of both panes. Moving the clock redraws what
    building anew would; the panes lead back to the same place of the same call.
  \<^item> \<open>Trajectory_Cards\<close> (\<open>trajectory-card-model.ts\<close>) and \<open>Trajectory_Flow\<close>
    (\<open>trajectory-flow-model.ts\<close>): the runs of rows that make a card or a flow call, the numbers of
    calls and their retries, windows and shares of phases, the route through the lanes, the scroll
    anchor. The flow loses no row, its calls are numbered as they are read, a settled call does
    not move with the clock, an anchor keeps its place.
  \<^item> \<open>Usage_Range\<close> (\<open>usage-range.ts\<close>), \<open>Series_Colors\<close>, \<open>Star_Trail\<close> (\<open>series-colors.ts\<close>,
    \<open>star-trail-model.ts\<close>): usage by day, hour, model and client; nothing is lost in the fold,
    whole percents add up and stay within one of the exact ones.

  Captured contents.

  \<^item> \<open>Json_Tree\<close>, \<open>Json_Front\<close>, \<open>Json_Cut\<close>, \<open>Json_Tree_View\<close> (\<open>json-tree-model.ts\<close>,
    \<open>find-model.ts\<close>): the parser of bodies that may be cut, run whole or in slices; what it makes
    of a document and of its front; rows, search and reveal.
  \<^item> \<open>Sse_Events\<close> (\<open>sse-review-model.ts\<close>): events of a stream; both parsers agree.
    \<open>Response_Preview\<close> (\<open>response-preview-model.ts\<close>): the outputs of the four provider formats; a
    stream and the whole body give the same.
  \<^item> \<open>Conversation_Bodies\<close>, \<open>Conversation_Turns\<close> (\<open>request-conversation-model.ts\<close>): prompts,
    thinking, tools with their results, and the turns and folded routine calls they make up. Every
    call appears once and totals add up.
  \<^item> \<open>Privacy_Highlights\<close>, \<open>Privacy_Replacements\<close> (\<open>privacy-kind.ts\<close>,
    \<open>privacy-replacements.ts\<close>, the privacy part of \<open>request-trajectory-model.ts\<close>): placeholders
    in a text, the policy table, every replacement with its places.
  \<^item> \<open>File_Paths\<close> (\<open>file-path-spans.ts\<close>): paths in titles. \<open>Line_Diff\<close> (\<open>line-diff.ts\<close>): both
    sides can be read back from a diff, and within the cell bound the shared lines are a longest
    common subsequence.

  Conventions. A definition has the name of the function it translates, or a name in lower
  case for a part of one: a guard, a loop body, a closure. A record has the members of its
  interface under a short prefix; a member that may be absent or null is an option. A
  \<open>throw\<close> is \<open>Inl\<close> with the error's message or its parts, so each parser is a function into a
  sum whose left branch is every way it refuses. An object compared by identity carries its place
  or is told apart by what it holds, as the theory says.

  Loops and bounds. Loops whose end depends on data are functions with a termination proof
  (\<open>root_from\<close>, by the links not yet seen; the splitting of texts, by their length), or partial
  functions (\<open>sample_loop\<close>, which never ends with a step that does not advance;
  \<open>board_computed\<close> shows that a positive step is enough). The tree parser and its slices count
  their steps by what is left of the text; \<open>slices_finish\<close> shows that slices which each get some
  time reach the end. The bounds are the code's: safe integers for counts, the cell bound of
  the line diff, the page and length limits of each parser.

  What comes from outside is an argument of the definitions that use it: \<open>JSON.parse\<close>, the
  digits of fractions, \<open>new URL\<close>, \<open>decodeURIComponent\<close>, \<open>Date.parse\<close> (none is \<open>NaN\<close>), the wall
  clock of a time zone and the local calendar, \<open>localeCompare\<close>, \<open>toISOString\<close>, \<open>toLowerCase\<close> and
  \<open>toLocaleLowerCase\<close> where text beyond ASCII can reach them, the matches of a regular expression
  a user types, abort signals, the page origin, and \<open>i18n.t\<close>. Laws of these are hypotheses of the
  theorems that need them, such as a collation being a total preorder. Numbers are exact:
  integers where the code checks for them, rationals where a double may have a fraction; the
  rounding of doubles is not modelled.

  Groups of lemmas. For each parser: what it accepts, as an equivalence with the rendering of
  a value that meets the invariant or as the invariant of what it returns, then the properties
  over the parser itself. For lists and views: what is kept, in what order, how often. For
  optimised routines: agreement with the plain reading (slices, streams, moved clocks, stacks).
  The comparators are interpretations of \<open>comparator\<close>, the unions of \<open>string_enum\<close>.

  Not modelled. React components, hooks, canvas drawings of the crew and the sky, bridges and
  web transports, the Go gateway beyond the check and the save of a sync configuration, the Rust shell and
  privacy worker: interface glue, input and output, other programs. Subscription sessions and
  usage, service packages, pricing, channel bindings and the import of providers. Access
  tokens, raw access and sealing, which rest on the platform's cryptography; client
  configuration and delivery, updates and preferences, agent installation, local import; the
  audit bundle and the privacy audit of a file; usage and privacy summaries; the tray menu. Of
  files modelled in part: \<open>replyExcerpt\<close>, the percent texts of confidences, \<open>phaseLabel\<close> and
  other labels, dates written out in the local calendar, exchange rates.
\<close>

end
